(* ===== verification/Prelude.thy ===== *)
theory Prelude
  imports
    Main
    "HOL-Library.Word"
    "HOL-Library.Char_ord"
    "HOL-Library.List_Lexorder"
    "HOL-Library.Product_Lexorder"
    "HOL-Library.Option_ord"
    "HOL-Library.Multiset"
begin

text \<open>
  Shared material of the Offload Capability Registry development.

  \<^item> Machine integers: \<open>u8\<close>, \<open>u16\<close>, \<open>u32\<close>, \<open>u64\<close> are words, so every addition
    wraps exactly where the C++ unsigned types wrap.
  \<^item> Outcomes: \<open>'a outcome\<close> is \<open>ocreg::Outcome<T>\<close> of \<open>outcome.hpp\<close>; a failure carries the
    reason code and the detail text, a success the value and its (possibly informational) code.
  \<^item> Ordered maps: \<open>std::map\<close> iterates in key order, and the registry's canonical output depends on
    that order, so a map is an association list sorted by key. The locale \<open>ordered_map\<close> states what
    the clients rely on; it is interpreted on \<open>om_put\<close>, \<open>om_del\<close> and \<open>map_of\<close>.
  \<^item> Sequence algorithms: \<open>std::sort\<close> is \<open>sort_key\<close>, \<open>std::unique\<close> is \<open>remdups_adj\<close>,
    \<open>std::lower_bound\<close> followed by \<open>insert\<close> is \<open>insert_before\<close>.
  \<^item> Big-endian bytes: the fixed-width integer encodings shared by the codec, the store and the
    hash functions, with their inverses.
\<close>

unbundle bit_operations_syntax

named_theorems omap_simps \<open>equations of the ordered maps\<close>
named_theorems be_simps \<open>big-endian encodings and their inverses\<close>
named_theorems frame_simps \<open>fields an operation leaves alone\<close>

section \<open>Machine integers and results\<close>

type_synonym u8 = "8 word"
type_synonym u16 = "16 word"
type_synonym u32 = "32 word"
type_synonym u64 = "64 word"
type_synonym i64 = "64 word"
type_synonym bytes = "u8 list"
type_synonym ReasonCode = u16

text \<open>\<open>ocreg::Outcome<T>\<close>: success is an explicit flag, never derived from the code.\<close>

datatype 'a outcome =
    Success (success_code: ReasonCode) (success_value: 'a)
  | Failure (failure_code: ReasonCode) (failure_detail: string)

definition outcome_ok :: "'a outcome \<Rightarrow> bool" where
  "outcome_ok r = (case r of Success _ _ \<Rightarrow> True | Failure _ _ \<Rightarrow> False)"

definition outcome_reason :: "'a outcome \<Rightarrow> ReasonCode" where
  "outcome_reason r = (case r of Success c _ \<Rightarrow> c | Failure c _ \<Rightarrow> c)"

lemma outcome_simps [simp]:
  "outcome_ok (Success c v)" "\<not> outcome_ok (Failure c d)"
  "outcome_reason (Success c v) = c" "outcome_reason (Failure c d) = c"
  by (simp_all add: outcome_ok_def outcome_reason_def)

section \<open>Ordered maps\<close>

type_synonym ('k, 'v) omap = "('k \<times> 'v) list"

definition om_wf :: "('k::linorder, 'v) omap \<Rightarrow> bool" where
  "om_wf m = sorted_wrt (<) (map fst m)"

fun om_put :: "'k::linorder \<Rightarrow> 'v \<Rightarrow> ('k, 'v) omap \<Rightarrow> ('k, 'v) omap" where
  "om_put k v [] = [(k, v)]"
| "om_put k v ((k', v') # m) =
     (if k < k' then (k, v) # (k', v') # m
      else if k = k' then (k, v) # m
      else (k', v') # om_put k v m)"

definition om_del :: "'k \<Rightarrow> ('k, 'v) omap \<Rightarrow> ('k, 'v) omap" where
  "om_del k m = filter (\<lambda>p. fst p \<noteq> k) m"

definition om_keys :: "('k, 'v) omap \<Rightarrow> 'k list" where
  "om_keys m = map fst m"

definition om_vals :: "('k, 'v) omap \<Rightarrow> 'v list" where
  "om_vals m = map snd m"

text \<open>\<open>m[k]\<close>: the value under the key, a default one where the key is absent.\<close>

definition om_get :: "'v \<Rightarrow> 'k \<Rightarrow> ('k, 'v) omap \<Rightarrow> 'v" where
  "om_get d k m = (case map_of m k of None \<Rightarrow> d | Some v \<Rightarrow> v)"

lemma map_of_om_put [omap_simps, simp]: "map_of (om_put k v m) = (map_of m)(k \<mapsto> v)"
  by (induction m) (auto simp: fun_eq_iff)

lemma map_of_om_del [omap_simps, simp]: "map_of (om_del k m) = (map_of m)(k := None)"
  by (induction m) (auto simp: om_del_def fun_eq_iff)

lemma fst_set_om_put: "fst ` set (om_put k v m) = insert k (fst ` set m)"
  by (simp flip: dom_map_of_conv_image_fst)

lemma om_wf_Nil [simp]: "om_wf []"
  by (simp add: om_wf_def)

lemma om_wf_Cons: "om_wf ((k, v) # m) \<longleftrightarrow> (\<forall>k' \<in> fst ` set m. k < k') \<and> om_wf m"
  by (simp add: om_wf_def)

lemma om_wf_put [intro, simp]: "om_wf m \<Longrightarrow> om_wf (om_put k v m)"
proof (induction m)
  case Nil
  show ?case by (simp add: om_wf_def)
next
  case (Cons p m)
  obtain k' v' where p: "p = (k', v')" by force
  from Cons.prems have wf: "om_wf m" and lt: "\<forall>a \<in> fst ` set m. k' < a"
    by (simp_all add: p om_wf_Cons)
  consider "k < k'" | "k = k'" | "k' < k" by fastforce
  then show ?case
  proof cases
    case 1
    then show ?thesis using wf lt by (fastforce simp: p om_wf_Cons)
  next
    case 2
    then show ?thesis using wf lt by (simp add: p om_wf_Cons)
  next
    case 3
    then show ?thesis
      using Cons.IH [OF wf] wf lt fst_set_om_put [of k v m] by (auto simp: p om_wf_Cons)
  qed
qed

lemma om_wf_del [intro, simp]: "om_wf m \<Longrightarrow> om_wf (om_del k m)"
  by (simp add: om_wf_def om_del_def sorted_wrt_map sorted_wrt_filter)

lemma om_wf_distinct: "om_wf m \<Longrightarrow> distinct (map fst m)"
  by (simp add: om_wf_def strict_sorted_iff)

lemma om_wf_map_of_iff: "om_wf m \<Longrightarrow> map_of m k = Some v \<longleftrightarrow> (k, v) \<in> set m"
  by (meson map_of_SomeD map_of_is_SomeI om_wf_distinct)

lemma om_get_put [omap_simps, simp]:
  "om_get d k (om_put k' v m) = (if k = k' then v else om_get d k m)"
  by (simp add: om_get_def)

text \<open>
  The interface the registry relies on: a lookup after an insertion or a deletion, and that both
  keep the iteration order. Everything derived from it is available for the model's maps through
  the interpretation below.
\<close>

locale ordered_map =
  fixes lookup :: "'m \<Rightarrow> 'k::linorder \<Rightarrow> 'v option"
    and put :: "'k \<Rightarrow> 'v \<Rightarrow> 'm \<Rightarrow> 'm"
    and del :: "'k \<Rightarrow> 'm \<Rightarrow> 'm"
    and inv :: "'m \<Rightarrow> bool"
    and entries :: "'m \<Rightarrow> ('k \<times> 'v) list"
  assumes lookup_put: "lookup (put k v m) = (lookup m)(k \<mapsto> v)"
    and lookup_del: "lookup (del k m) = (lookup m)(k := None)"
    and inv_put: "inv m \<Longrightarrow> inv (put k v m)"
    and inv_del: "inv m \<Longrightarrow> inv (del k m)"
    and entries_lookup: "inv m \<Longrightarrow> (k, v) \<in> set (entries m) \<longleftrightarrow> lookup m k = Some v"
    and entries_sorted: "inv m \<Longrightarrow> sorted_wrt (<) (map fst (entries m))"
begin

lemma put_put_same: "lookup (put k v (put k v' m)) = lookup (put k v m)"
  by (simp add: lookup_put)

lemma entries_put:
  assumes "inv m"
  shows "set (entries (put k v m)) = insert (k, v) {p \<in> set (entries m). fst p \<noteq> k}"
proof (rule set_eqI)
  fix p :: "'k \<times> 'v"
  obtain a b where p: "p = (a, b)" by force
  show "p \<in> set (entries (put k v m)) \<longleftrightarrow> p \<in> insert (k, v) {p \<in> set (entries m). fst p \<noteq> k}"
    using assms inv_put [OF assms, of k v]
    by (auto simp: p entries_lookup lookup_put)
qed

lemma entries_del:
  assumes "inv m"
  shows "set (entries (del k m)) = {p \<in> set (entries m). fst p \<noteq> k}"
proof (rule set_eqI)
  fix p :: "'k \<times> 'v"
  obtain a b where p: "p = (a, b)" by force
  show "p \<in> set (entries (del k m)) \<longleftrightarrow> p \<in> {p \<in> set (entries m). fst p \<noteq> k}"
    using assms inv_del [OF assms, of k]
    by (auto simp: p entries_lookup lookup_del)
qed

lemma entries_distinct: "inv m \<Longrightarrow> distinct (map fst (entries m))"
  by (meson entries_sorted strict_sorted_iff)

text \<open>Two maps with the same content iterate in the same order: the order is canonical.\<close>

lemma entries_canonical:
  assumes "inv m" "inv m'" "lookup m = lookup m'"
  shows "entries m = entries m'"
proof -
  have sets: "set (entries m) = set (entries m')"
    using assms by (auto simp: entries_lookup)
  have inj: "inj_on fst (set (entries m) \<union> set (entries m'))"
    using entries_distinct [OF assms(1)] by (simp add: sets distinct_map)
  show ?thesis
    by (rule map_sorted_distinct_set_unique [OF inj])
       (use assms(1,2) entries_sorted sets in \<open>simp_all add: strict_sorted_iff\<close>)
qed

end

interpretation om: ordered_map map_of om_put om_del om_wf "\<lambda>m. m"
proof unfold_locales
  show "om_wf m \<Longrightarrow> (k, v) \<in> set m \<longleftrightarrow> map_of m k = Some v" for k :: 'a and v :: 'b and m
    by (simp add: om_wf_map_of_iff)
  show "om_wf m \<Longrightarrow> sorted_wrt (<) (map fst m)" for m :: "('a \<times> 'b) list"
    by (simp add: om_wf_def)
qed simp_all

section \<open>Sequence algorithms\<close>

text \<open>
  \<open>std::lower_bound(first, last, x, less)\<close> on a range partitioned by \<open>less _ x\<close>, followed by
  \<open>insert(position, x)\<close>.
\<close>

definition insert_before :: "('a \<Rightarrow> 'a \<Rightarrow> bool) \<Rightarrow> 'a \<Rightarrow> 'a list \<Rightarrow> 'a list" where
  "insert_before lt x xs = takeWhile (\<lambda>y. lt y x) xs @ x # dropWhile (\<lambda>y. lt y x) xs"

lemma mset_insert_before [simp]: "mset (insert_before lt x xs) = add_mset x (mset xs)"
proof -
  have "mset xs = mset (takeWhile (\<lambda>y. lt y x) xs) + mset (dropWhile (\<lambda>y. lt y x) xs)"
    by (metis mset_append takeWhile_dropWhile_id)
  then show ?thesis by (simp add: insert_before_def)
qed

lemma set_insert_before [simp]: "set (insert_before lt x xs) = insert x (set xs)"
  by (metis mset_insert_before set_mset_add_mset_insert set_mset_mset)

lemma length_insert_before [simp]: "length (insert_before lt x xs) = Suc (length xs)"
  by (metis mset_insert_before size_add_mset size_mset)

lemma distinct_insert_before:
  "distinct (map f (insert_before lt x xs)) \<longleftrightarrow> f x \<notin> f ` set xs \<and> distinct (map f xs)"
proof -
  have "distinct (map f (insert_before lt x xs)) \<longleftrightarrow> distinct (map f (x # xs))"
    by (rule mset_eq_imp_distinct_iff) simp
  then show ?thesis by simp
qed

lemma sorted_insert_before:
  fixes key :: "'a \<Rightarrow> 'k::linorder"
  assumes lt: "\<And>a b. lt a b \<longleftrightarrow> key a < key b" and "sorted (map key xs)"
  shows "sorted (map key (insert_before lt x xs))"
  using assms(2)
proof (induction xs)
  case Nil
  show ?case by (simp add: insert_before_def)
next
  case (Cons y ys)
  show ?case
  proof (cases "lt y x")
    case True
    then have "insert_before lt x (y # ys) = y # insert_before lt x ys"
      by (simp add: insert_before_def)
    moreover have "\<forall>z \<in> insert x (set ys). key y \<le> key z"
      using Cons.prems True lt by (auto simp: less_imp_le)
    ultimately show ?thesis using Cons by simp
  next
    case False
    then have eq: "insert_before lt x (y # ys) = x # y # ys" and le: "key x \<le> key y"
      by (simp_all add: insert_before_def lt)
    show ?thesis
      unfolding eq using Cons.prems le by auto
  qed
qed

text \<open>\<open>std::find_if\<close>: the first element that satisfies the predicate.\<close>

lemma find_Some_iff: "find P xs = Some x \<Longrightarrow> x \<in> set xs \<and> P x"
  by (induction xs) (auto split: if_splits)

lemma find_key_iff:
  "distinct (map f xs) \<Longrightarrow> find (\<lambda>y. f y = k) xs = Some x \<longleftrightarrow> x \<in> set xs \<and> f x = k"
  by (induction xs) (auto simp: image_iff)

lemma distinct_by_permutation:
  fixes xs :: "'a::linorder list"
  assumes "successively (<) (map ((!) xs) p)" "length p = length xs" "\<forall>i \<in> set p. i < length xs"
  shows "distinct xs"
proof -
  have "sorted_wrt (<) (map ((!) xs) p)"
    using assms(1) by (simp add: successively_conv_sorted_wrt)
  then have d: "distinct (map ((!) xs) p)" by (simp add: strict_sorted_iff)
  have "card (set (map ((!) xs) p)) = length xs"
    using distinct_card [OF d] assms(2) by simp
  moreover have "set (map ((!) xs) p) \<subseteq> set xs" using assms(3) by auto
  ultimately have "length xs \<le> card (set xs)"
    by (metis List.finite_set card_mono)
  then show ?thesis
    by (simp add: card_distinct card_length le_antisym)
qed

lemma remdups_adj_sorted: "sorted xs \<Longrightarrow> sorted_wrt (<) (remdups_adj xs)"
proof (induction xs rule: remdups_adj.induct)
  case (3 x y xs)
  show ?case
  proof (cases "x = y")
    case True
    with 3 show ?thesis by simp
  next
    case False
    then have "x < y" using "3.prems" by (auto simp: less_le)
    then show ?thesis using 3 False by (auto simp: less_le_trans)
  qed
qed simp_all

section \<open>Big-endian bytes\<close>

primrec be_bytes :: "nat \<Rightarrow> 'a::len word \<Rightarrow> bytes" where
  "be_bytes 0 v = []"
| "be_bytes (Suc n) v = be_bytes n (drop_bit 8 v) @ [ucast v]"

definition be_word :: "bytes \<Rightarrow> 'a::len word" where
  "be_word bs = foldl (\<lambda>v b. push_bit 8 v OR ucast b) 0 bs"

lemma be_word_Nil [simp]: "be_word [] = 0"
  by (simp add: be_word_def)

lemma be_word_snoc: "be_word (bs @ [b]) = push_bit 8 (be_word bs) OR ucast b"
  by (simp add: be_word_def)

lemma length_be_bytes [be_simps, simp]: "length (be_bytes n v) = n"
  by (induction n arbitrary: v) simp_all

lemma be_word_be_bytes_take:
  fixes v :: "'a::len word"
  assumes "8 \<le> LENGTH('a)"
  shows "be_word (be_bytes n v) = take_bit (8 * n) v"
proof (induction n arbitrary: v)
  case 0
  show ?case by simp
next
  case (Suc n)
  show ?case
    by (rule bit_word_eqI)
       (use assms in \<open>auto simp: be_word_snoc Suc.IH bit_simps\<close>)
qed

lemma be_word_be_bytes [be_simps, simp]:
  fixes v :: "'a::len word"
  assumes "LENGTH('a) = 8 * n" "0 < n"
  shows "be_word (be_bytes n v) = v"
  using be_word_be_bytes_take [of n v] assms by (simp add: take_bit_word_eq_self)

lemma be_bytes_be_word [be_simps]:
  assumes "length bs = n" "8 * n \<le> LENGTH('a)"
  shows "be_bytes n (be_word bs :: 'a::len word) = bs"
  using assms
proof (induction bs arbitrary: n rule: rev_induct)
  case Nil
  then show ?case by simp
next
  case (snoc b bs)
  then obtain m where n: "n = Suc m" by (cases n) auto
  let ?w = "be_word bs :: 'a word"
  have len: "length bs = m" and le: "8 * m \<le> LENGTH('a)" using snoc.prems n by auto
  have "drop_bit 8 (push_bit 8 ?w OR ucast b) = take_bit (LENGTH('a) - 8) ?w"
    by (rule bit_word_eqI) (auto simp: bit_simps dest: bit_imp_le_length)
  moreover have "take_bit (LENGTH('a) - 8) ?w = ?w"
  proof (rule bit_word_eqI)
    fix i assume "i < LENGTH('a)"
    have "?w = take_bit (8 * m) ?w"
      using be_word_be_bytes_take [of m ?w] snoc.IH [OF len le] snoc.prems n by simp
    then have "bit ?w i \<longleftrightarrow> i < 8 * m \<and> bit ?w i"
      by (metis bit_take_bit_iff)
    then show "bit (take_bit (LENGTH('a) - 8) ?w) i = bit ?w i"
      using snoc.prems n by (auto simp: bit_simps)
  qed
  moreover have "ucast (push_bit 8 ?w OR ucast b) = b"
    using snoc.prems n by (intro bit_word_eqI) (auto simp: bit_simps)
  ultimately show ?case
    using snoc.IH [OF len le] by (simp add: n be_word_snoc)
qed

lemma be_bytes_inj:
  fixes v w :: "'a::len word"
  assumes "LENGTH('a) = 8 * n" "0 < n" "be_bytes n v = be_bytes n w"
  shows "v = w"
  by (metis assms be_word_be_bytes)

end
