(* ===== verification/Strings.thy ===== *)
theory Strings
  imports Prelude
begin

text \<open>
  Text helpers shared by the name, version and unit parsers: three-way comparison
  (\<open>operator<=>\<close>), splitting at a character (\<open>std::string_view::find\<close> with \<open>substr\<close>), splitting into
  dot-separated pieces, and decimal numerals (\<open>std::to_string\<close> and the digit loops).
\<close>

section \<open>Three-way comparison\<close>

datatype strong_ordering = LT | EQ | GT

definition spaceship :: "'a::linorder \<Rightarrow> 'a \<Rightarrow> strong_ordering" where
  "spaceship a b = (if a < b then LT else if a = b then EQ else GT)"

lemma spaceship_iff [simp]:
  "spaceship a b = LT \<longleftrightarrow> a < b" "spaceship a b = EQ \<longleftrightarrow> a = b" "spaceship a b = GT \<longleftrightarrow> b < a"
  by (auto simp: spaceship_def)

lemma spaceship_eqI: "a < b \<Longrightarrow> spaceship a b = LT" "b < a \<Longrightarrow> spaceship a b = GT" "spaceship a a = EQ"
  by auto

lemma spaceship_Pair:
  "spaceship (a, b) (c, d) = (if a \<noteq> c then spaceship a c else spaceship b d)"
  by (auto simp: spaceship_def less_prod_def')

lemma spaceship_Cons:
  "spaceship (x # xs) (y # ys) = (if x \<noteq> y then spaceship x y else spaceship xs ys)"
  by (auto simp: spaceship_def)

lemma spaceship_Nil [simp]:
  "spaceship [] (y # ys) = LT" "spaceship (y # ys) [] = GT" "spaceship [] [] = EQ"
  by simp_all

section \<open>Splitting\<close>

text \<open>\<open>find(c)\<close>: the text before the first \<open>c\<close>, and the text after it if there is one.\<close>

definition split_at :: "char \<Rightarrow> string \<Rightarrow> string \<times> string option" where
  "split_at c s = (takeWhile (\<lambda>x. x \<noteq> c) s,
                   if c \<in> set s then Some (tl (dropWhile (\<lambda>x. x \<noteq> c) s)) else None)"

lemma split_at_None [simp]: "c \<notin> set a \<Longrightarrow> split_at c a = (a, None)"
  by (simp add: split_at_def) (metis takeWhile_eq_all_conv)

lemma split_at_Some [simp]:
  assumes "c \<notin> set a"
  shows "split_at c (a @ c # b) = (a, Some b)"
proof -
  have "\<forall>x \<in> set a. x \<noteq> c" using assms by auto
  then show ?thesis by (simp add: split_at_def takeWhile_append2 dropWhile_append2)
qed

lemma split_at_cases:
  obtains (none) "c \<notin> set s" "split_at c s = (s, None)"
  | (some) a b where "s = a @ c # b" "c \<notin> set a" "split_at c s = (a, Some b)"
proof (cases "c \<in> set s")
  case True
  then obtain a b where "s = a @ c # b" "c \<notin> set a" by (meson split_list_first)
  then show ?thesis using some split_at_Some by blast
next
  case False
  then show ?thesis using none by simp
qed

lemma split_at_None_iff: "split_at c s = (a, None) \<longleftrightarrow> s = a \<and> c \<notin> set a"
  by (rule split_at_cases [of c s]) auto

lemma split_at_Some_iff: "split_at c s = (a, Some b) \<longleftrightarrow> s = a @ c # b \<and> c \<notin> set a"
proof
  assume "split_at c s = (a, Some b)"
  then show "s = a @ c # b \<and> c \<notin> set a"
    by (cases rule: split_at_cases [of c s]) auto
qed auto

lemma split_at_shorter: "(a, Some b) = split_at c s \<Longrightarrow> length b < length s"
  by (metis split_at_Some_iff length_append length_Cons less_add_Suc2 add_Suc_right)

text \<open>Dot-separated pieces; \<open>"a..b"\<close> has an empty piece, \<open>"a."\<close> ends in one.\<close>

fun split_dots :: "string \<Rightarrow> string list" where
  "split_dots [] = [[]]"
| "split_dots (c # s) =
     (if c = CHR ''.'' then [] # split_dots s
      else (c # hd (split_dots s)) # tl (split_dots s))"

lemma split_dots_nonempty [simp]: "split_dots s \<noteq> []"
  by (cases s) auto

lemma split_dots_no_dot: "CHR ''.'' \<notin> set s \<Longrightarrow> split_dots s = [s]"
  by (induction s) auto

lemma split_dots_append:
  "CHR ''.'' \<notin> set a \<Longrightarrow> split_dots (a @ CHR ''.'' # b) = a # split_dots b"
  by (induction a) auto

lemma split_dots_unfold:
  "split_dots s = (case split_at (CHR ''.'') s of (a, None) \<Rightarrow> [a] | (a, Some b) \<Rightarrow> a # split_dots b)"
proof (cases "split_at (CHR ''.'') s")
  case (Pair a r)
  then show ?thesis
    by (cases r) (auto simp: split_at_None_iff split_at_Some_iff split_dots_no_dot split_dots_append)
qed

section \<open>Decimal numerals\<close>

definition digit_val :: "char \<Rightarrow> nat" where
  "digit_val c = of_char c - 48"

definition is_digit :: "char \<Rightarrow> bool" where
  "is_digit c = (CHR ''0'' \<le> c \<and> c \<le> CHR ''9'')"

definition digit_char :: "nat \<Rightarrow> char" where
  "digit_char d = ''0123456789'' ! d"

fun dec_string :: "nat \<Rightarrow> string" where
  "dec_string n = (if n < 10 then [digit_char n] else dec_string (n div 10) @ [digit_char (n mod 10)])"

declare dec_string.simps [simp del]

definition dec_val :: "string \<Rightarrow> nat" where
  "dec_val s = foldl (\<lambda>v c. v * 10 + digit_val c) 0 s"

lemma dec_val_snoc [simp]: "dec_val (s @ [c]) = dec_val s * 10 + digit_val c"
  by (simp add: dec_val_def)

lemma dec_val_Nil [simp]: "dec_val [] = 0"
  by (simp add: dec_val_def)

lemma digit_cases: "d < 10 \<Longrightarrow> d \<in> {0, 1, 2, 3, 4, 5, 6, 7, 8, 9 :: nat}"
  by auto

lemma digit_char_props:
  assumes "d < 10"
  shows "is_digit (digit_char d)" "digit_val (digit_char d) = d" "digit_char d = CHR ''0'' \<longleftrightarrow> d = 0"
  using digit_cases [OF assms]
  by (auto simp: is_digit_def digit_char_def digit_val_def)

lemma is_digit_of_char: "is_digit c \<longleftrightarrow> 48 \<le> (of_char c :: nat) \<and> (of_char c :: nat) \<le> 57"
  by (simp add: is_digit_def less_eq_char_def)

lemma digit_val_less: "is_digit c \<Longrightarrow> digit_val c < 10"
  unfolding is_digit_of_char digit_val_def by linarith

lemma digit_char_val:
  assumes "is_digit c"
  shows "digit_char (digit_val c) = c"
proof -
  let ?d = "digit_val c"
  have "(of_char (digit_char ?d) :: nat) = of_char c"
    using digit_char_props [OF digit_val_less [OF assms]] assms
    unfolding is_digit_of_char digit_val_def by linarith
  then show ?thesis by (metis char_of_char)
qed

lemma is_digit_not_special:
  "is_digit c \<Longrightarrow> c \<noteq> CHR ''.'' \<and> c \<noteq> CHR ''-'' \<and> c \<noteq> CHR ''+''"
  by (auto simp: is_digit_of_char)

lemma dec_string_digits: "c \<in> set (dec_string n) \<Longrightarrow> is_digit c"
proof (induction n rule: dec_string.induct)
  case (1 n)
  show ?case
  proof (cases "n < 10")
    case True
    with 1 show ?thesis by (simp add: dec_string.simps [of n] digit_char_props)
  next
    case False
    with 1 show ?thesis by (auto simp: dec_string.simps [of n] digit_char_props)
  qed
qed

lemma dec_string_nonempty [simp]: "dec_string n \<noteq> []"
  by (subst dec_string.simps) simp

lemma dec_val_dec_string [simp]: "dec_val (dec_string n) = n"
proof (induction n rule: dec_string.induct)
  case (1 n)
  show ?case
  proof (cases "n < 10")
    case True
    then show ?thesis
      using dec_val_snoc [of "[]"] by (simp add: dec_string.simps [of n] digit_char_props)
  next
    case False
    with 1 show ?thesis by (simp add: dec_string.simps [of n] digit_char_props)
  qed
qed

lemma dec_string_no_leading_zero: "hd (dec_string n) = CHR ''0'' \<Longrightarrow> n = 0"
proof (induction n rule: dec_string.induct)
  case (1 n)
  show ?case
  proof (cases "n < 10")
    case True
    with 1 show ?thesis by (simp add: dec_string.simps [of n] digit_char_props)
  next
    case False
    then have "hd (dec_string n) = hd (dec_string (n div 10))"
      by (simp add: dec_string.simps [of n])
    with 1 False show ?thesis by simp
  qed
qed

lemma dec_string_dec_val:
  assumes "s \<noteq> []" "\<forall>c \<in> set s. is_digit c" "length s > 1 \<longrightarrow> hd s \<noteq> CHR ''0''"
  shows "dec_string (dec_val s) = s"
  using assms
proof (induction s rule: rev_induct)
  case Nil
  then show ?case by simp
next
  case (snoc c s)
  have c: "is_digit c" "digit_val c < 10" using snoc.prems digit_val_less by auto
  show ?case
  proof (cases s)
    case Nil
    then show ?thesis
      using c dec_val_snoc [of "[]" c] by (simp add: dec_string.simps [of "digit_val c"] digit_char_val)
  next
    case (Cons d r)
    then have IH: "dec_string (dec_val s) = s" using snoc by auto
    have "dec_val s \<noteq> 0"
    proof
      assume "dec_val s = 0"
      then have "s = ''0''" using IH by (simp add: dec_string.simps [of 0] digit_char_def)
      then show False using snoc.prems(3) by simp
    qed
    then show ?thesis
      using c IH by (subst dec_string.simps) (simp add: digit_char_val)
  qed
qed

lemma dec_string_length:
  "0 < k \<Longrightarrow> n < 10 ^ k \<Longrightarrow> length (dec_string n) \<le> k"
proof (induction n arbitrary: k rule: dec_string.induct)
  case (1 n)
  show ?case
  proof (cases "n < 10")
    case True
    with 1 show ?thesis by (simp add: dec_string.simps [of n])
  next
    case False
    obtain j where k: "k = Suc j" using "1.prems"(1) by (cases k) auto
    have j: "k = Suc j" "0 < j" using False "1.prems"(2) k by (cases j; simp)+
    have "n div 10 < 10 ^ j" using "1.prems" j by (simp add: less_mult_imp_div_less mult.commute)
    then have "length (dec_string (n div 10)) \<le> j" using "1.IH" [of j] False j by simp
    then show ?thesis using False j by (simp add: dec_string.simps [of n])
  qed
qed

lemma dec_val_bound: "\<forall>c \<in> set s. is_digit c \<Longrightarrow> dec_val s < 10 ^ length s"
proof (induction s rule: rev_induct)
  case (snoc c s)
  then have "dec_val s < 10 ^ length s" "digit_val c < 10" by (auto simp: digit_val_less)
  then show ?case by simp
qed simp

end
