(* ===== verification/Names.thy ===== *)
theory Names
  imports Strings
begin

text \<open>
  Canonical bounded name tokens: \<open>include/ocreg/name.hpp\<close> and \<open>src/name.cpp\<close>.

  A \<open>Name\<close> is the text it views (a default-constructed one is empty); its \<open>operator<=>\<close> compares
  the common prefix and then the sizes, which is the lexicographic order of lists. \<open>Name_parse\<close>
  follows \<open>Name::parse\<close> check by check. The claims: the accepted texts are exactly those of the
  grammar \<open>name_token\<close>, one-character separators between runs of lower-case alphanumerics, and the
  refusal of doubled and trailing separators, which the grammar in the header comment admits.
\<close>

type_synonym Name = string

definition kMaxNameLength :: nat where
  "kMaxNameLength = 48"

definition is_lower_alnum :: "char \<Rightarrow> bool" where
  "is_lower_alnum c = ((CHR ''a'' \<le> c \<and> c \<le> CHR ''z'') \<or> (CHR ''0'' \<le> c \<and> c \<le> CHR ''9''))"

definition is_separator :: "char \<Rightarrow> bool" where
  "is_separator c = (c = CHR ''.'' \<or> c = CHR ''_'' \<or> c = CHR ''-'')"

definition is_continuation :: "char \<Rightarrow> bool" where
  "is_continuation c = (is_lower_alnum c \<or> is_separator c)"

text \<open>The loop over adjacent characters.\<close>

fun doubled_separator :: "string \<Rightarrow> bool" where
  "doubled_separator (prev # cur # rest) =
     ((is_separator prev \<and> is_separator cur) \<or> doubled_separator (cur # rest))"
| "doubled_separator _ = False"

definition Name_parse :: "string \<Rightarrow> Name option" where
  "Name_parse t =
     (if t = [] \<or> length t > kMaxNameLength then None
      else if \<not> is_lower_alnum (hd t) then None
      else if \<not> list_all is_continuation t then None
      else if is_separator (last t) then None
      else if doubled_separator t then None
      else Some t)"

definition Name_compare :: "Name \<Rightarrow> Name \<Rightarrow> strong_ordering" where
  "Name_compare a b = spaceship a b"

section \<open>The grammar\<close>

inductive name_token :: "string \<Rightarrow> bool" where
  single: "is_lower_alnum c \<Longrightarrow> name_token [c]"
| alnum: "name_token s \<Longrightarrow> is_lower_alnum c \<Longrightarrow> name_token (c # s)"
| separated: "name_token s \<Longrightarrow> is_lower_alnum c \<Longrightarrow> is_separator d \<Longrightarrow> name_token (c # d # s)"

text \<open>The grammar as the header comment of \<open>name.hpp\<close> writes it.\<close>

definition header_grammar :: "string \<Rightarrow> bool" where
  "header_grammar t = (t \<noteq> [] \<and> is_lower_alnum (hd t) \<and> list_all is_continuation (tl t))"

definition name_text :: "string \<Rightarrow> bool" where
  "name_text t \<longleftrightarrow> t \<noteq> [] \<and> is_lower_alnum (hd t) \<and> list_all is_continuation t
     \<and> \<not> is_separator (last t) \<and> \<not> doubled_separator t"

lemma alnum_not_separator: "is_lower_alnum c \<Longrightarrow> \<not> is_separator c"
  by (auto simp: is_lower_alnum_def is_separator_def)

lemma Name_parse_Some_iff: "Name_parse t = Some n \<longleftrightarrow> n = t \<and> length t \<le> 48 \<and> name_text t"
  by (auto simp: Name_parse_def name_text_def kMaxNameLength_def)

lemma name_token_text: "name_token t \<Longrightarrow> name_text t"
proof (induction rule: name_token.induct)
  case (single c)
  then show ?case by (simp add: name_text_def is_continuation_def alnum_not_separator)
next
  case (alnum s c)
  then show ?case
    by (cases s) (auto simp: name_text_def is_continuation_def alnum_not_separator)
next
  case (separated s c d)
  then show ?case
    by (cases s) (auto simp: name_text_def is_continuation_def alnum_not_separator)
qed

lemma name_text_token: "name_text t \<Longrightarrow> name_token t"
proof (induction t rule: length_induct)
  case (1 t)
  obtain c s where t: "t = c # s" "is_lower_alnum c"
    using "1.prems" by (cases t) (auto simp: name_text_def)
  show ?case
  proof (cases s)
    case Nil
    then show ?thesis using t by (simp add: name_token.single)
  next
    case (Cons d r)
    show ?thesis
    proof (cases "is_separator d")
      case True
      then obtain e r' where r: "r = e # r'"
        using "1.prems" t Cons by (cases r) (auto simp: name_text_def)
      have "name_text r"
        using "1.prems" True by (auto simp: name_text_def t Cons r is_continuation_def)
      then show ?thesis using "1.IH" t Cons True by (simp add: name_token.separated)
    next
      case False
      have "name_text s"
        using "1.prems" False by (auto simp: name_text_def t Cons is_continuation_def)
      then show ?thesis using "1.IH" t by (simp add: name_token.alnum)
    qed
  qed
qed

lemma Name_parse_id: "Name_parse t = Some n \<Longrightarrow> n = t \<and> 0 < length t \<and> length t \<le> 48"
  by (auto simp: Name_parse_Some_iff name_text_def)

section \<open>Claims\<close>

text \<open>
  \<open>Name::parse\<close> accepts exactly the texts of at most 48 characters that are runs of lower-case
  letters and digits joined by single separators, and the parsed name is the text itself, so no two
  spellings denote one identity.
\<close>

theorem Name_parse_grammar:
  "Name_parse t = Some n \<longleftrightarrow> n = t \<and> length t \<le> 48 \<and> name_token t"
  using Name_parse_Some_iff name_text_token name_token_text by blast

text \<open>
  The parser is stricter than the grammar written in the header: a trailing separator is refused
  although the documented grammar derives it.
\<close>

theorem Name_parse_stricter_than_header:
  "header_grammar ''nic-'' \<and> Name_parse ''nic-'' = None
   \<and> header_grammar ''nic--0'' \<and> Name_parse ''nic--0'' = None"
  by code_simp

end
