(* ===== verification/SemVers.thy ===== *)
theory SemVers
  imports Strings
begin

text \<open>
  Exact semantic versions: \<open>include/ocreg/semver.hpp\<close> and \<open>src/semver.cpp\<close>.

  A \<open>SemVer\<close> holds three 32-bit components and the two qualifier texts; the cached sizes are the
  lengths of the texts. Parsing follows \<open>SemVer::parse\<close> with its helpers \<open>split\<close>, \<open>parse_component\<close>
  and \<open>parse_identifiers\<close>; \<open>precedence_compare\<close> and \<open>compare_identifiers\<close> are the loops of the code
  over the remaining text. The lemmas show that parsing is exactly the inverse of printing on
  well-formed versions, and that precedence is the order of an explicit key, hence a total preorder
  that ignores build metadata.
\<close>

definition kMaxSemVerQualifierLength :: nat where
  "kMaxSemVerQualifierLength = 32"

record SemVer =
  major :: u32
  minor :: u32
  patch :: u32
  prerelease :: string
  build :: string

abbreviation mk_semver :: "u32 \<Rightarrow> u32 \<Rightarrow> u32 \<Rightarrow> string \<Rightarrow> string \<Rightarrow> SemVer" where
  "mk_semver a b c p q \<equiv> \<lparr>major = a, minor = b, patch = c, prerelease = p, build = q\<rparr>"

definition is_alnum_dash :: "char \<Rightarrow> bool" where
  "is_alnum_dash c = ((CHR ''0'' \<le> c \<and> c \<le> CHR ''9'') \<or> (CHR ''a'' \<le> c \<and> c \<le> CHR ''z'')
     \<or> (CHR ''A'' \<le> c \<and> c \<le> CHR ''Z'') \<or> c = CHR ''-'')"

definition is_numeric_identifier :: "string \<Rightarrow> bool" where
  "is_numeric_identifier t = (t \<noteq> [] \<and> list_all is_digit t)"

definition identifier_ok :: "bool \<Rightarrow> string \<Rightarrow> bool" where
  "identifier_ok enforce_numeric_rule identifier =
     (identifier \<noteq> [] \<and> list_all is_alnum_dash identifier
      \<and> \<not> (enforce_numeric_rule \<and> is_numeric_identifier identifier \<and> length identifier > 1
           \<and> hd identifier = CHR ''0''))"

definition parse_identifiers :: "string \<Rightarrow> bool \<Rightarrow> bool" where
  "parse_identifiers t enforce_numeric_rule =
     (if t = [] \<or> length t > kMaxSemVerQualifierLength then False
      else list_all (identifier_ok enforce_numeric_rule) (split_dots t))"

text \<open>The digit loop: the running value is refused as soon as it leaves 32 bits.\<close>

fun component_loop :: "nat \<Rightarrow> string \<Rightarrow> nat option" where
  "component_loop v [] = Some v"
| "component_loop v (c # s) =
     (let v' = v * 10 + digit_val c in if v' > 0xFFFFFFFF then None else component_loop v' s)"

definition parse_component :: "string \<Rightarrow> u32 option" where
  "parse_component t =
     (if t = [] \<or> length t > 10 then None
      else if \<not> list_all is_digit t then None
      else if length t > 1 \<and> hd t = CHR ''0'' then None
      else map_option of_nat (component_loop 0 t))"

text \<open>\<open>split\<close>: build metadata after the first plus, then pre-release after the first dash.\<close>

definition split_version :: "string \<Rightarrow> (string \<times> string \<times> string) option" where
  "split_version t =
     (case split_at (CHR ''+'') t of (t', b) \<Rightarrow>
        if b = Some [] \<or> (case b of None \<Rightarrow> False | Some b' \<Rightarrow> CHR ''+'' \<in> set b') then None
        else (case split_at (CHR ''-'') t' of (core, p) \<Rightarrow>
          if p = Some [] then None
          else Some (core, case p of None \<Rightarrow> [] | Some x \<Rightarrow> x, case b of None \<Rightarrow> [] | Some x \<Rightarrow> x)))"

definition parse_core :: "string \<Rightarrow> (u32 \<times> u32 \<times> u32) option" where
  "parse_core core =
     (case split_at (CHR ''.'') core of
        (_, None) \<Rightarrow> None
      | (a, Some r) \<Rightarrow>
          (case parse_component a of None \<Rightarrow> None | Some mj \<Rightarrow>
            (case split_at (CHR ''.'') r of
               (_, None) \<Rightarrow> None
             | (b, Some c) \<Rightarrow>
                 (case parse_component b of None \<Rightarrow> None | Some mn \<Rightarrow>
                   if CHR ''.'' \<in> set c then None
                   else (case parse_component c of None \<Rightarrow> None | Some pt \<Rightarrow> Some (mj, mn, pt))))))"

definition SemVer_parse :: "string \<Rightarrow> SemVer option" where
  "SemVer_parse t =
     (if t = [] \<or> length t > 128 then None
      else (case split_version t of None \<Rightarrow> None | Some (core, pre, bld) \<Rightarrow>
        (case parse_core core of None \<Rightarrow> None | Some (mj, mn, pt) \<Rightarrow>
          if pre \<noteq> [] \<and> \<not> parse_identifiers pre True then None
          else if bld \<noteq> [] \<and> \<not> parse_identifiers bld False then None
          else Some (mk_semver mj mn pt pre bld))))"

definition core_str :: "u32 \<Rightarrow> u32 \<Rightarrow> u32 \<Rightarrow> string" where
  "core_str a b c =
     dec_string (unat a) @ ''.'' @ dec_string (unat b) @ ''.'' @ dec_string (unat c)"

definition SemVer_str :: "SemVer \<Rightarrow> string" where
  "SemVer_str v = core_str (major v) (minor v) (patch v)
     @ (if prerelease v \<noteq> [] then CHR ''-'' # prerelease v else [])
     @ (if build v \<noteq> [] then CHR ''+'' # build v else [])"

text \<open>
  \<open>compare_identifiers\<close>: the arguments are the texts from the current start offsets; an exhausted
  side is the empty text. Both sides get shorter in every turn.
\<close>

definition compare_identifier :: "string \<Rightarrow> string \<Rightarrow> strong_ordering" where
  "compare_identifier l r =
     (let ln = is_numeric_identifier l; rn = is_numeric_identifier r in
      if ln \<and> rn then
        (if length l \<noteq> length r then (if length l < length r then LT else GT)
         else spaceship l r)
      else if ln \<noteq> rn then (if ln then LT else GT)
      else spaceship l r)"

function compare_identifiers :: "string \<Rightarrow> string \<Rightarrow> strong_ordering" where
  "compare_identifiers lhs rhs =
     (if lhs = [] \<and> rhs = [] then EQ
      else if lhs = [] then LT
      else if rhs = [] then GT
      else (case (split_at (CHR ''.'') lhs, split_at (CHR ''.'') rhs) of ((l, lr), (r, rr)) \<Rightarrow>
        (case compare_identifier l r of
           LT \<Rightarrow> LT | GT \<Rightarrow> GT
         | EQ \<Rightarrow> if lr = None \<and> rr = None then EQ
                 else compare_identifiers (case lr of None \<Rightarrow> [] | Some x \<Rightarrow> x)
                                          (case rr of None \<Rightarrow> [] | Some x \<Rightarrow> x))))"
  by pat_completeness auto
termination
  by (relation "measure (\<lambda>(l, r). length l + length r)")
     (auto dest!: split_at_shorter split: option.splits)

declare compare_identifiers.simps [simp del]

definition precedence_compare :: "SemVer \<Rightarrow> SemVer \<Rightarrow> strong_ordering" where
  "precedence_compare a b =
     (if major a \<noteq> major b then spaceship (major a) (major b)
      else if minor a \<noteq> minor b then spaceship (minor a) (minor b)
      else if patch a \<noteq> patch b then spaceship (patch a) (patch b)
      else if prerelease a = [] \<and> prerelease b = [] then EQ
      else if prerelease a = [] then GT
      else if prerelease b = [] then LT
      else compare_identifiers (prerelease a) (prerelease b))"

text \<open>\<open>operator<=>\<close>: the identity order, in which every field participates.\<close>

definition SemVer_compare :: "SemVer \<Rightarrow> SemVer \<Rightarrow> strong_ordering" where
  "SemVer_compare a b =
     (if major a \<noteq> major b then spaceship (major a) (major b)
      else if minor a \<noteq> minor b then spaceship (minor a) (minor b)
      else if patch a \<noteq> patch b then spaceship (patch a) (patch b)
      else if prerelease a \<noteq> prerelease b then spaceship (prerelease a) (prerelease b)
      else spaceship (build a) (build b))"

record VersionRequirement =
  minimum :: SemVer
  maximum_exclusive :: "SemVer option"

definition satisfied_by :: "VersionRequirement \<Rightarrow> SemVer \<Rightarrow> bool" where
  "satisfied_by r candidate =
     (if precedence_compare candidate (minimum r) = LT then False
      else (case maximum_exclusive r of
              None \<Rightarrow> True
            | Some m \<Rightarrow> precedence_compare candidate m = LT))"

definition VersionRequirement_str :: "VersionRequirement \<Rightarrow> string" where
  "VersionRequirement_str r = ''>='' @ SemVer_str (minimum r)
     @ (case maximum_exclusive r of None \<Rightarrow> [] | Some m \<Rightarrow> '',<'' @ SemVer_str m)"

section \<open>Parsing inverts printing\<close>

definition semver_wf :: "SemVer \<Rightarrow> bool" where
  "semver_wf v \<longleftrightarrow> (prerelease v = [] \<or> parse_identifiers (prerelease v) True)
     \<and> (build v = [] \<or> parse_identifiers (build v) False)"

lemma component_loop_ge: "component_loop v s = Some r \<Longrightarrow> v \<le> r"
  by (induction v s rule: component_loop.induct) (auto simp: Let_def split: if_splits)

lemma component_loop_Some:
  "component_loop v s = Some r \<longleftrightarrow>
     r = foldl (\<lambda>v c. v * 10 + digit_val c) v s \<and> (s \<noteq> [] \<longrightarrow> r \<le> 0xFFFFFFFF)"
proof (induction v s rule: component_loop.induct)
  case (1 v)
  show ?case by auto
next
  case (2 v c s)
  let ?v = "v * 10 + digit_val c"
  have mono: "w \<le> foldl (\<lambda>v c. v * 10 + digit_val c) w s" for w
  proof (induction s arbitrary: w)
    case (Cons c s)
    have "w \<le> w * 10 + digit_val c" by simp
    also have "\<dots> \<le> foldl (\<lambda>v c. v * 10 + digit_val c) (w * 10 + digit_val c) s"
      by (rule Cons.IH)
    finally show ?case by simp
  qed simp
  show ?case
    using 2 mono [of ?v] component_loop_ge [of ?v s r]
    by (cases s) (auto simp: Let_def)
qed

lemma parse_component_iff: "parse_component t = Some n \<longleftrightarrow> t = dec_string (unat n)"
proof
  assume p: "parse_component t = Some n"
  then obtain r where t: "t \<noteq> []" "list_all is_digit t" "\<not> (length t > 1 \<and> hd t = CHR ''0'')"
    and r: "component_loop 0 t = Some r" "n = of_nat r"
    by (auto simp: parse_component_def split: if_splits)
  then have "r = dec_val t" "r \<le> 0xFFFFFFFF"
    by (auto simp: component_loop_Some dec_val_def)
  moreover from this have "unat n = r" using r by (simp add: unat_of_nat)
  ultimately show "t = dec_string (unat n)"
    using dec_string_dec_val [of t] t by (auto simp: list_all_iff)
next
  assume t: "t = dec_string (unat n)"
  have small: "unat n < 2 ^ 32" using unsigned_less [of n] by simp
  then have "unat n < 10 ^ 10" by simp
  then have len: "length t \<le> 10" using dec_string_length [of 10 "unat n"] t by simp
  have "length t = 1" if "hd t = CHR ''0''"
    using dec_string_no_leading_zero [of "unat n"] that t
    by (simp add: dec_string.simps [of 0])
  moreover have "component_loop 0 t = Some (unat n)"
    using small dec_val_dec_string [of "unat n"] t by (simp add: component_loop_Some dec_val_def)
  ultimately show "parse_component t = Some n"
    using len t dec_string_digits by (auto simp: parse_component_def list_all_iff)
qed

lemma dec_string_chars:
  "CHR ''.'' \<notin> set (dec_string n)" "CHR ''-'' \<notin> set (dec_string n)" "CHR ''+'' \<notin> set (dec_string n)"
  using dec_string_digits is_digit_not_special by blast+

lemma parse_core_iff: "parse_core core = Some (a, b, c) \<longleftrightarrow> core = core_str a b c"
proof
  assume "parse_core core = Some (a, b, c)"
  then show "core = core_str a b c"
    by (auto simp: parse_core_def core_str_def split_at_Some_iff parse_component_iff
        split: prod.splits option.splits if_splits)
next
  assume "core = core_str a b c"
  then show "parse_core core = Some (a, b, c)"
    by (auto simp: parse_core_def core_str_def dec_string_chars parse_component_iff [THEN iffD2])
qed

lemma split_version_iff:
  "split_version t = Some (core, pre, bld) \<longleftrightarrow>
     t = core @ (if pre \<noteq> [] then CHR ''-'' # pre else []) @ (if bld \<noteq> [] then CHR ''+'' # bld else [])
     \<and> CHR ''-'' \<notin> set core \<and> CHR ''+'' \<notin> set core \<and> CHR ''+'' \<notin> set pre \<and> CHR ''+'' \<notin> set bld"
proof
  assume "split_version t = Some (core, pre, bld)"
  then show "t = core @ (if pre \<noteq> [] then CHR ''-'' # pre else [])
      @ (if bld \<noteq> [] then CHR ''+'' # bld else [])
    \<and> CHR ''-'' \<notin> set core \<and> CHR ''+'' \<notin> set core \<and> CHR ''+'' \<notin> set pre \<and> CHR ''+'' \<notin> set bld"
    by (auto simp: split_version_def split_at_None_iff split_at_Some_iff
        split: prod.splits option.splits if_splits)
next
  let ?p = "if pre \<noteq> [] then CHR ''-'' # pre else []"
  assume *: "t = core @ ?p @ (if bld \<noteq> [] then CHR ''+'' # bld else [])
    \<and> CHR ''-'' \<notin> set core \<and> CHR ''+'' \<notin> set core \<and> CHR ''+'' \<notin> set pre \<and> CHR ''+'' \<notin> set bld"
  then have plus: "split_at (CHR ''+'') t = (core @ ?p, if bld = [] then None else Some bld)"
    using split_at_Some [of "CHR ''+''" "core @ ?p" bld] by auto
  have dash: "split_at (CHR ''-'') (core @ ?p) = (core, if pre = [] then None else Some pre)"
    using * by auto
  show "split_version t = Some (core, pre, bld)"
    unfolding split_version_def plus prod.case dash using * by auto
qed

lemma plus_not_alnum_dash: "\<not> is_alnum_dash (CHR ''+'')"
  by (simp add: is_alnum_dash_def)

lemma identifiers_no_plus: "parse_identifiers t b \<Longrightarrow> CHR ''+'' \<notin> set t"
proof -
  have "CHR ''+'' \<notin> set t" if "\<forall>i \<in> set (split_dots t). CHR ''+'' \<notin> set i"
    using that
  proof (induction t)
    case (Cons c t)
    then show ?case
      by (cases "split_dots t") (auto split: if_splits)
  qed simp
  moreover assume "parse_identifiers t b"
  then have "\<forall>i \<in> set (split_dots t). CHR ''+'' \<notin> set i"
    using plus_not_alnum_dash
    by (simp add: parse_identifiers_def identifier_ok_def list_all_iff split: if_splits) blast
  ultimately show ?thesis by blast
qed

lemma core_str_chars: "CHR ''-'' \<notin> set (core_str a b c)" "CHR ''+'' \<notin> set (core_str a b c)"
  by (auto simp: core_str_def dec_string_chars)

lemma SemVer_str_length: "semver_wf v \<Longrightarrow> length (SemVer_str v) \<le> 128"
proof -
  assume wf: "semver_wf v"
  have "length (dec_string (unat x)) \<le> 10" for x :: u32
  proof -
    have "unat x < 2 ^ 32" using unsigned_less [of x] by simp
    then show ?thesis using dec_string_length [of 10 "unat x"] by simp
  qed
  from this [of "major v"] this [of "minor v"] this [of "patch v"] wf show ?thesis
    by (auto simp: SemVer_str_def core_str_def semver_wf_def parse_identifiers_def
        kMaxSemVerQualifierLength_def split: if_splits)
qed

lemma SemVer_parse_wf: "SemVer_parse t = Some v \<Longrightarrow> semver_wf v"
  by (auto simp: SemVer_parse_def semver_wf_def split: if_splits option.splits prod.splits)

lemma SemVer_parse_str: "SemVer_parse t = Some v \<Longrightarrow> SemVer_str v = t"
  by (auto simp: SemVer_parse_def SemVer_str_def split_version_iff parse_core_iff
      split: if_splits option.splits prod.splits)

lemma SemVer_str_parse:
  assumes wf: "semver_wf v"
  shows "SemVer_parse (SemVer_str v) = Some v"
proof -
  let ?core = "core_str (major v) (minor v) (patch v)"
  have "split_version (SemVer_str v) = Some (?core, prerelease v, build v)"
    using wf identifiers_no_plus core_str_chars
    by (auto simp: split_version_iff SemVer_str_def semver_wf_def)
  moreover have "parse_core ?core = Some (major v, minor v, patch v)"
    by (simp add: parse_core_iff)
  moreover have "SemVer_str v \<noteq> []" by (simp add: SemVer_str_def core_str_def)
  ultimately show ?thesis
    using SemVer_str_length [OF wf] wf by (auto simp: SemVer_parse_def semver_wf_def)
qed

section \<open>Precedence is the order of a key\<close>

definition ident_key :: "string \<Rightarrow> nat \<times> nat \<times> string" where
  "ident_key t = (if is_numeric_identifier t then (0, length t, t) else (1, 0, t))"

definition pieces :: "string \<Rightarrow> string list" where
  "pieces s = (if s = [] then [] else split_dots s)"

definition precedence_key ::
  "SemVer \<Rightarrow> u32 \<times> u32 \<times> u32 \<times> nat \<times> (nat \<times> nat \<times> string) list" where
  "precedence_key v =
     (major v, minor v, patch v,
      if prerelease v = [] then 1 else 0, map ident_key (pieces (prerelease v)))"

lemma compare_identifier_key: "compare_identifier l r = spaceship (ident_key l) (ident_key r)"
  by (simp add: compare_identifier_def ident_key_def Let_def spaceship_Pair)
     (simp add: spaceship_def)

lemma pieces_unfold:
  assumes "s \<noteq> []" "[] \<notin> set (pieces s)"
  obtains a where "split_at (CHR ''.'') s = (a, None)" "pieces s = [a]"
  | a b where "split_at (CHR ''.'') s = (a, Some b)" "b \<noteq> []" "pieces s = a # pieces b"
      "[] \<notin> set (pieces b)"
proof (cases "split_at (CHR ''.'') s")
  case (Pair a r)
  show ?thesis
  proof (cases r)
    case None
    then show ?thesis
      using that(1) Pair assms split_dots_unfold [of s] by (simp add: pieces_def)
  next
    case (Some b)
    then have "pieces s = a # split_dots b"
      using Pair assms split_dots_unfold [of s] by (simp add: pieces_def)
    moreover from this have "b \<noteq> []" using assms by auto
    ultimately show ?thesis using that(2) Pair Some assms by (simp add: pieces_def)
  qed
qed

lemma compare_identifiers_key:
  "[] \<notin> set (pieces l) \<Longrightarrow> [] \<notin> set (pieces r) \<Longrightarrow>
   compare_identifiers l r = spaceship (map ident_key (pieces l)) (map ident_key (pieces r))"
proof (induction l r rule: compare_identifiers.induct)
  case (1 l r)
  show ?case
  proof (cases "l = [] \<or> r = []")
    case True
    then show ?thesis
      by (subst compare_identifiers.simps)
         (auto simp: pieces_def split_dots_unfold [of l] split_dots_unfold [of r] split: prod.splits option.splits)
  next
    case False
    have ne: "l \<noteq> []" "r \<noteq> []" using False by auto
    note unfold = compare_identifiers.simps [of l r] compare_identifier_key spaceship_Cons spaceship_eqI
    from ne(1) "1.prems"(1) show ?thesis
    proof (cases rule: pieces_unfold)
      case l1: (1 a)
      from ne(2) "1.prems"(2) show ?thesis
      proof (cases rule: pieces_unfold)
        case (1 b)
        with l1 ne show ?thesis
          by (auto simp: unfold split: strong_ordering.splits)
      next
        case (2 b r')
        with l1 ne "1.IH" [OF _ ne refl l1(1) [symmetric] 2(1) [symmetric]] show ?thesis
          by (auto simp: unfold pieces_def split: strong_ordering.splits)
      qed
    next
      case l2: (2 a l')
      from ne(2) "1.prems"(2) show ?thesis
      proof (cases rule: pieces_unfold)
        case (1 b)
        with l2 ne "1.IH" [OF _ ne refl l2(1) [symmetric] 1(1) [symmetric]] show ?thesis
          by (auto simp: unfold pieces_def split: strong_ordering.splits)
      next
        case (2 b r')
        with l2 ne "1.IH" [OF _ ne refl l2(1) [symmetric] 2(1) [symmetric]] show ?thesis
          by (auto simp: unfold split: strong_ordering.splits)
      qed
    qed
  qed
qed

lemma identifiers_pieces: "parse_identifiers t b \<Longrightarrow> [] \<notin> set (pieces t)"
  by (auto simp: parse_identifiers_def pieces_def list_all_iff identifier_ok_def split: if_splits)

lemma precedence_compare_key:
  assumes "semver_wf a" "semver_wf b"
  shows "precedence_compare a b = spaceship (precedence_key a) (precedence_key b)"
proof -
  have "compare_identifiers (prerelease a) (prerelease b) =
      spaceship (map ident_key (pieces (prerelease a))) (map ident_key (pieces (prerelease b)))"
    if "prerelease a \<noteq> []" "prerelease b \<noteq> []"
    using that assms identifiers_pieces
    by (intro compare_identifiers_key) (auto simp: semver_wf_def)
  then show ?thesis
    by (cases "prerelease a = []"; cases "prerelease b = []")
       (simp_all add: precedence_compare_def precedence_key_def spaceship_Pair spaceship_eqI)
qed

lemma satisfied_by_key:
  assumes "semver_wf (minimum r)" "semver_wf v" "\<And>m. maximum_exclusive r = Some m \<Longrightarrow> semver_wf m"
  shows "satisfied_by r v \<longleftrightarrow> precedence_key (minimum r) \<le> precedence_key v
    \<and> (\<forall>m. maximum_exclusive r = Some m \<longrightarrow> precedence_key v < precedence_key m)"
  using assms
  by (auto simp: satisfied_by_def precedence_compare_key not_less split: option.splits)

lemma SemVer_compare_key:
  "SemVer_compare a b = spaceship (major a, minor a, patch a, prerelease a, build a)
                                  (major b, minor b, patch b, prerelease b, build b)"
  by (simp add: SemVer_compare_def spaceship_Pair)

section \<open>Claims\<close>

text \<open>
  \<open>SemVer::parse\<close> accepts exactly the printed forms of well-formed versions, and returns the
  version that prints to its input: parsing and printing are inverse, and a version has one spelling.
\<close>

theorem SemVer_parse_iff: "SemVer_parse t = Some v \<longleftrightarrow> semver_wf v \<and> SemVer_str v = t"
  using SemVer_parse_str SemVer_parse_wf SemVer_str_parse by blast

text \<open>
  A version requirement is the half-open interval of the precedence order: a candidate satisfies
  it exactly when its precedence key is at least the minimum's and, where a maximum is given, below
  that maximum's. The key contains no build metadata, so versions that differ only there are
  interchangeable.
\<close>

theorem satisfied_by_interval:
  assumes "semver_wf (minimum r)" and "semver_wf v"
    and "\<forall>m. maximum_exclusive r = Some m \<longrightarrow> semver_wf m"
  shows "(satisfied_by r v \<longleftrightarrow> precedence_key (minimum r) \<le> precedence_key v
      \<and> (\<forall>m. maximum_exclusive r = Some m \<longrightarrow> precedence_key v < precedence_key m))
    \<and> precedence_key (v\<lparr>build := b\<rparr>) = precedence_key v"
  using assms satisfied_by_key by (simp add: precedence_key_def)

theorem satisfied_by_interval_witness:
  "satisfied_by \<lparr>minimum = mk_semver 1 2 0 [] [], maximum_exclusive = Some (mk_semver 2 0 0 [] [])\<rparr>
                (mk_semver 1 2 0 [] ''b7'')"
  using satisfied_by_interval
    [of "\<lparr>minimum = mk_semver 1 2 0 [] [], maximum_exclusive = Some (mk_semver 2 0 0 [] [])\<rparr>"
        "mk_semver 1 2 0 [] ''b7''"]
  by (simp add: semver_wf_def parse_identifiers_def kMaxSemVerQualifierLength_def identifier_ok_def
      is_alnum_dash_def precedence_key_def pieces_def)

end
