(* ===== verification/Reason.thy ===== *)
theory Reason
  imports Prelude
begin

text \<open>
  Stable reason codes: \<open>include/ocreg/reason.hpp\<close> and \<open>src/reason.cpp\<close>.

  \<open>ReasonCode\<close> is an \<open>enum class : uint16_t\<close> whose enumerators are named by the X-macro
  \<open>OCREG_REASON_TABLE\<close>; a code is its 16-bit value and each enumerator an abbreviation of its
  number. The table itself (identifier, number, category, failure flag) is \<open>reason_table\<close>, and the
  spellings are computed from the identifiers by \<open>canonical_spelling\<close> as the code does. The lemmas
  show that the table is a bijection between codes and spellings, that an unlisted code is a
  failure, and that \<open>canonicalize_reasons\<close> gives the strictly increasing list of its input's codes.
\<close>

datatype ReasonCategory =
    Acceptance | Idempotent | Rejection | UnknownCategory | Incompatible | Conflict
  | Persistence | Recovery | Accounting | Transport | Cancellation

abbreviation (input) Ok :: ReasonCode where "Ok \<equiv> 0"
abbreviation (input) AcceptedNew :: ReasonCode where "AcceptedNew \<equiv> 1"
abbreviation (input) AcceptedSuperseding :: ReasonCode where "AcceptedSuperseding \<equiv> 2"
abbreviation (input) AlreadyPresent :: ReasonCode where "AlreadyPresent \<equiv> 3"
abbreviation (input) AcceptedAuthoritativeOverride :: ReasonCode where "AcceptedAuthoritativeOverride \<equiv> 4"
abbreviation (input) AcceptedAfterRetirement :: ReasonCode where "AcceptedAfterRetirement \<equiv> 5"
abbreviation (input) RejectedMalformedName :: ReasonCode where "RejectedMalformedName \<equiv> 16"
abbreviation (input) RejectedMalformedVersion :: ReasonCode where "RejectedMalformedVersion \<equiv> 17"
abbreviation (input) RejectedMalformedFeature :: ReasonCode where "RejectedMalformedFeature \<equiv> 18"
abbreviation (input) RejectedMalformedLimit :: ReasonCode where "RejectedMalformedLimit \<equiv> 19"
abbreviation (input) RejectedMalformedDocument :: ReasonCode where "RejectedMalformedDocument \<equiv> 20"
abbreviation (input) RejectedOversizedInput :: ReasonCode where "RejectedOversizedInput \<equiv> 21"
abbreviation (input) RejectedTruncatedInput :: ReasonCode where "RejectedTruncatedInput \<equiv> 22"
abbreviation (input) RejectedDuplicateKey :: ReasonCode where "RejectedDuplicateKey \<equiv> 23"
abbreviation (input) RejectedInvalidUtf8 :: ReasonCode where "RejectedInvalidUtf8 \<equiv> 24"
abbreviation (input) RejectedNestingTooDeep :: ReasonCode where "RejectedNestingTooDeep \<equiv> 25"
abbreviation (input) RejectedUnexpectedField :: ReasonCode where "RejectedUnexpectedField \<equiv> 26"
abbreviation (input) RejectedMissingField :: ReasonCode where "RejectedMissingField \<equiv> 27"
abbreviation (input) RejectedTrailingGarbage :: ReasonCode where "RejectedTrailingGarbage \<equiv> 28"
abbreviation (input) RejectedUnknownCapabilityKind :: ReasonCode where "RejectedUnknownCapabilityKind \<equiv> 32"
abbreviation (input) RejectedUnknownFeatureCode :: ReasonCode where "RejectedUnknownFeatureCode \<equiv> 33"
abbreviation (input) RejectedUnknownLimitCode :: ReasonCode where "RejectedUnknownLimitCode \<equiv> 34"
abbreviation (input) RejectedFeatureNotInKind :: ReasonCode where "RejectedFeatureNotInKind \<equiv> 35"
abbreviation (input) RejectedLimitNotInKind :: ReasonCode where "RejectedLimitNotInKind \<equiv> 36"
abbreviation (input) RejectedLimitUnitInvalid :: ReasonCode where "RejectedLimitUnitInvalid \<equiv> 37"
abbreviation (input) RejectedLimitUnitScaleInvalid :: ReasonCode where "RejectedLimitUnitScaleInvalid \<equiv> 38"
abbreviation (input) RejectedNegativeLimit :: ReasonCode where "RejectedNegativeLimit \<equiv> 39"
abbreviation (input) RejectedLimitScaleNotPermitted :: ReasonCode where "RejectedLimitScaleNotPermitted \<equiv> 40"
abbreviation (input) RejectedUnsupportedSemanticVersion :: ReasonCode where "RejectedUnsupportedSemanticVersion \<equiv> 41"
abbreviation (input) RejectedZeroIncarnation :: ReasonCode where "RejectedZeroIncarnation \<equiv> 42"
abbreviation (input) RejectedUnknownSource :: ReasonCode where "RejectedUnknownSource \<equiv> 48"
abbreviation (input) RejectedSourceRevoked :: ReasonCode where "RejectedSourceRevoked \<equiv> 49"
abbreviation (input) RejectedSourceUntrusted :: ReasonCode where "RejectedSourceUntrusted \<equiv> 50"
abbreviation (input) RejectedAuthorityInsufficient :: ReasonCode where "RejectedAuthorityInsufficient \<equiv> 51"
abbreviation (input) RejectedGenerationRegression :: ReasonCode where "RejectedGenerationRegression \<equiv> 52"
abbreviation (input) RejectedGenerationCollision :: ReasonCode where "RejectedGenerationCollision \<equiv> 53"
abbreviation (input) RejectedSupersededGeneration :: ReasonCode where "RejectedSupersededGeneration \<equiv> 54"
abbreviation (input) RejectedStaleObservation :: ReasonCode where "RejectedStaleObservation \<equiv> 55"
abbreviation (input) RejectedFutureObservation :: ReasonCode where "RejectedFutureObservation \<equiv> 56"
abbreviation (input) RejectedValidityWindowInverted :: ReasonCode where "RejectedValidityWindowInverted \<equiv> 57"
abbreviation (input) RejectedRetiredStream :: ReasonCode where "RejectedRetiredStream \<equiv> 58"
abbreviation (input) RejectedDeviceIncarnationFenced :: ReasonCode where "RejectedDeviceIncarnationFenced \<equiv> 59"
abbreviation (input) RejectedEpochOutOfRange :: ReasonCode where "RejectedEpochOutOfRange \<equiv> 60"
abbreviation (input) RejectedRuleGenerationOutOfRange :: ReasonCode where "RejectedRuleGenerationOutOfRange \<equiv> 61"
abbreviation (input) RejectedFeatureBudgetExceeded :: ReasonCode where "RejectedFeatureBudgetExceeded \<equiv> 62"
abbreviation (input) RejectedLimitBudgetExceeded :: ReasonCode where "RejectedLimitBudgetExceeded \<equiv> 63"
abbreviation (input) RejectedRecordBudgetExhausted :: ReasonCode where "RejectedRecordBudgetExhausted \<equiv> 64"
abbreviation (input) RejectedHistoryBudgetExhausted :: ReasonCode where "RejectedHistoryBudgetExhausted \<equiv> 65"
abbreviation (input) RejectedStreamBudgetExhausted :: ReasonCode where "RejectedStreamBudgetExhausted \<equiv> 66"
abbreviation (input) RejectedDeviceBudgetExhausted :: ReasonCode where "RejectedDeviceBudgetExhausted \<equiv> 67"
abbreviation (input) RejectedBeyondRetentionHorizon :: ReasonCode where "RejectedBeyondRetentionHorizon \<equiv> 68"
abbreviation (input) UnknownNoEvidence :: ReasonCode where "UnknownNoEvidence \<equiv> 80"
abbreviation (input) UnknownStaleEvidence :: ReasonCode where "UnknownStaleEvidence \<equiv> 81"
abbreviation (input) UnknownConflictingEvidence :: ReasonCode where "UnknownConflictingEvidence \<equiv> 82"
abbreviation (input) UnknownEvidenceEvicted :: ReasonCode where "UnknownEvidenceEvicted \<equiv> 83"
abbreviation (input) UnknownFencedEvidence :: ReasonCode where "UnknownFencedEvidence \<equiv> 84"
abbreviation (input) UnknownUnitMismatch :: ReasonCode where "UnknownUnitMismatch \<equiv> 85"
abbreviation (input) UnknownInexactUnitConversion :: ReasonCode where "UnknownInexactUnitConversion \<equiv> 86"
abbreviation (input) UnknownLimitNotReported :: ReasonCode where "UnknownLimitNotReported \<equiv> 87"
abbreviation (input) UnknownDeviceNotRegistered :: ReasonCode where "UnknownDeviceNotRegistered \<equiv> 88"
abbreviation (input) UnknownIncarnationNotCurrent :: ReasonCode where "UnknownIncarnationNotCurrent \<equiv> 89"
abbreviation (input) UnknownSourceNotConfigured :: ReasonCode where "UnknownSourceNotConfigured \<equiv> 90"
abbreviation (input) UnknownPolicyNotConfigured :: ReasonCode where "UnknownPolicyNotConfigured \<equiv> 91"
abbreviation (input) UnknownCapabilityRetired :: ReasonCode where "UnknownCapabilityRetired \<equiv> 92"
abbreviation (input) UnknownRuleGenerationMismatch :: ReasonCode where "UnknownRuleGenerationMismatch \<equiv> 93"
abbreviation (input) UnknownFirmwareGenerationAbsent :: ReasonCode where "UnknownFirmwareGenerationAbsent \<equiv> 94"
abbreviation (input) UnknownRuntimeGenerationAbsent :: ReasonCode where "UnknownRuntimeGenerationAbsent \<equiv> 95"
abbreviation (input) UnknownTruncatedHistory :: ReasonCode where "UnknownTruncatedHistory \<equiv> 96"
abbreviation (input) IncompatibleVersionTooLow :: ReasonCode where "IncompatibleVersionTooLow \<equiv> 112"
abbreviation (input) IncompatibleFeatureAbsent :: ReasonCode where "IncompatibleFeatureAbsent \<equiv> 113"
abbreviation (input) IncompatibleLimitBelowRequirement :: ReasonCode where "IncompatibleLimitBelowRequirement \<equiv> 114"
abbreviation (input) IncompatibleFirmwareGenerationTooLow :: ReasonCode where "IncompatibleFirmwareGenerationTooLow \<equiv> 115"
abbreviation (input) IncompatibleRuntimeGenerationTooLow :: ReasonCode where "IncompatibleRuntimeGenerationTooLow \<equiv> 116"
abbreviation (input) IncompatibleCapabilityRetired :: ReasonCode where "IncompatibleCapabilityRetired \<equiv> 117"
abbreviation (input) IncompatibleDeviceReincarnated :: ReasonCode where "IncompatibleDeviceReincarnated \<equiv> 118"
abbreviation (input) IncompatibleSourceRevoked :: ReasonCode where "IncompatibleSourceRevoked \<equiv> 119"
abbreviation (input) ConflictEqualAuthority :: ReasonCode where "ConflictEqualAuthority \<equiv> 144"
abbreviation (input) ConflictOutranked :: ReasonCode where "ConflictOutranked \<equiv> 145"
abbreviation (input) ConflictResolvedByAuthority :: ReasonCode where "ConflictResolvedByAuthority \<equiv> 146"
abbreviation (input) ConflictResolvedByResolution :: ReasonCode where "ConflictResolvedByResolution \<equiv> 147"
abbreviation (input) ConflictUnresolved :: ReasonCode where "ConflictUnresolved \<equiv> 148"
abbreviation (input) EvictedSuperseded :: ReasonCode where "EvictedSuperseded \<equiv> 160"
abbreviation (input) EvictedRetired :: ReasonCode where "EvictedRetired \<equiv> 161"
abbreviation (input) EvictedBudgetPressure :: ReasonCode where "EvictedBudgetPressure \<equiv> 162"
abbreviation (input) EvictionRecorded :: ReasonCode where "EvictionRecorded \<equiv> 163"
abbreviation (input) ExportTruncated :: ReasonCode where "ExportTruncated \<equiv> 164"
abbreviation (input) ExportComplete :: ReasonCode where "ExportComplete \<equiv> 165"
abbreviation (input) StoreNotFound :: ReasonCode where "StoreNotFound \<equiv> 176"
abbreviation (input) StoreEmptyNew :: ReasonCode where "StoreEmptyNew \<equiv> 177"
abbreviation (input) StoreHeaderCorrupt :: ReasonCode where "StoreHeaderCorrupt \<equiv> 178"
abbreviation (input) StoreVersionIncompatible :: ReasonCode where "StoreVersionIncompatible \<equiv> 179"
abbreviation (input) StoreSemanticMismatch :: ReasonCode where "StoreSemanticMismatch \<equiv> 180"
abbreviation (input) StorePayloadCorrupt :: ReasonCode where "StorePayloadCorrupt \<equiv> 181"
abbreviation (input) StoreTornTail :: ReasonCode where "StoreTornTail \<equiv> 182"
abbreviation (input) StoreJournalCorrupt :: ReasonCode where "StoreJournalCorrupt \<equiv> 183"
abbreviation (input) StoreFooterMissing :: ReasonCode where "StoreFooterMissing \<equiv> 184"
abbreviation (input) StoreOversized :: ReasonCode where "StoreOversized \<equiv> 185"
abbreviation (input) StoreWriteFailed :: ReasonCode where "StoreWriteFailed \<equiv> 186"
abbreviation (input) StoreReadFailed :: ReasonCode where "StoreReadFailed \<equiv> 187"
abbreviation (input) StoreSyncFailed :: ReasonCode where "StoreSyncFailed \<equiv> 188"
abbreviation (input) StoreEpochReplay :: ReasonCode where "StoreEpochReplay \<equiv> 189"
abbreviation (input) StoreBootReplay :: ReasonCode where "StoreBootReplay \<equiv> 190"
abbreviation (input) StoreIncarnationReplay :: ReasonCode where "StoreIncarnationReplay \<equiv> 191"
abbreviation (input) StoreGenerationReplay :: ReasonCode where "StoreGenerationReplay \<equiv> 192"
abbreviation (input) StoreRotationPerformed :: ReasonCode where "StoreRotationPerformed \<equiv> 193"
abbreviation (input) StoreCommitDurable :: ReasonCode where "StoreCommitDurable \<equiv> 194"
abbreviation (input) RecoveryCleanOpen :: ReasonCode where "RecoveryCleanOpen \<equiv> 208"
abbreviation (input) RecoveryTornTailTruncated :: ReasonCode where "RecoveryTornTailTruncated \<equiv> 209"
abbreviation (input) RecoveryTrailingCorruptDropped :: ReasonCode where "RecoveryTrailingCorruptDropped \<equiv> 210"
abbreviation (input) RecoveryRefused :: ReasonCode where "RecoveryRefused \<equiv> 211"
abbreviation (input) RecoveryRebuiltFromSnapshot :: ReasonCode where "RecoveryRebuiltFromSnapshot \<equiv> 212"
abbreviation (input) RecoveryJournalReplayed :: ReasonCode where "RecoveryJournalReplayed \<equiv> 213"
abbreviation (input) ProtocolFrameTooLarge :: ReasonCode where "ProtocolFrameTooLarge \<equiv> 224"
abbreviation (input) ProtocolFrameMalformed :: ReasonCode where "ProtocolFrameMalformed \<equiv> 225"
abbreviation (input) ProtocolVersionUnsupported :: ReasonCode where "ProtocolVersionUnsupported \<equiv> 226"
abbreviation (input) ProtocolChecksumMismatch :: ReasonCode where "ProtocolChecksumMismatch \<equiv> 227"
abbreviation (input) ProtocolSequenceViolation :: ReasonCode where "ProtocolSequenceViolation \<equiv> 228"
abbreviation (input) ProtocolUnknownOpcode :: ReasonCode where "ProtocolUnknownOpcode \<equiv> 229"
abbreviation (input) ProtocolConnectionLimit :: ReasonCode where "ProtocolConnectionLimit \<equiv> 230"
abbreviation (input) ProtocolBackpressure :: ReasonCode where "ProtocolBackpressure \<equiv> 231"
abbreviation (input) ProtocolShutdownInProgress :: ReasonCode where "ProtocolShutdownInProgress \<equiv> 232"
abbreviation (input) ProtocolRequestIdReplay :: ReasonCode where "ProtocolRequestIdReplay \<equiv> 233"
abbreviation (input) TransportClosed :: ReasonCode where "TransportClosed \<equiv> 234"
abbreviation (input) TransportUnavailable :: ReasonCode where "TransportUnavailable \<equiv> 235"
abbreviation (input) TransportListening :: ReasonCode where "TransportListening \<equiv> 236"
abbreviation (input) TransportAccepted :: ReasonCode where "TransportAccepted \<equiv> 237"
abbreviation (input) Cancelled :: ReasonCode where "Cancelled \<equiv> 248"
abbreviation (input) CancelTooLate :: ReasonCode where "CancelTooLate \<equiv> 249"
abbreviation (input) InternalInvariantViolated :: ReasonCode where "InternalInvariantViolated \<equiv> 250"

section \<open>The table\<close>

record TableEntry =
  te_code :: ReasonCode
  te_identifier :: string
  te_category :: ReasonCategory
  te_failure :: bool

abbreviation (input) X_entry :: "ReasonCode \<Rightarrow> string \<Rightarrow> ReasonCategory \<Rightarrow> nat \<Rightarrow> TableEntry" where
  "X_entry c i k f \<equiv> \<lparr>te_code = c, te_identifier = i, te_category = k, te_failure = (f \<noteq> 0)\<rparr>"

definition reason_table :: "TableEntry list" where
  "reason_table = [
     X_entry Ok ''Ok'' Acceptance 0,
     X_entry AcceptedNew ''AcceptedNew'' Acceptance 0,
     X_entry AcceptedSuperseding ''AcceptedSuperseding'' Acceptance 0,
     X_entry AlreadyPresent ''AlreadyPresent'' Idempotent 0,
     X_entry AcceptedAuthoritativeOverride ''AcceptedAuthoritativeOverride'' Acceptance 0,
     X_entry AcceptedAfterRetirement ''AcceptedAfterRetirement'' Acceptance 0,
     X_entry RejectedMalformedName ''RejectedMalformedName'' Rejection 1,
     X_entry RejectedMalformedVersion ''RejectedMalformedVersion'' Rejection 1,
     X_entry RejectedMalformedFeature ''RejectedMalformedFeature'' Rejection 1,
     X_entry RejectedMalformedLimit ''RejectedMalformedLimit'' Rejection 1,
     X_entry RejectedMalformedDocument ''RejectedMalformedDocument'' Rejection 1,
     X_entry RejectedOversizedInput ''RejectedOversizedInput'' Rejection 1,
     X_entry RejectedTruncatedInput ''RejectedTruncatedInput'' Rejection 1,
     X_entry RejectedDuplicateKey ''RejectedDuplicateKey'' Rejection 1,
     X_entry RejectedInvalidUtf8 ''RejectedInvalidUtf8'' Rejection 1,
     X_entry RejectedNestingTooDeep ''RejectedNestingTooDeep'' Rejection 1,
     X_entry RejectedUnexpectedField ''RejectedUnexpectedField'' Rejection 1,
     X_entry RejectedMissingField ''RejectedMissingField'' Rejection 1,
     X_entry RejectedTrailingGarbage ''RejectedTrailingGarbage'' Rejection 1,
     X_entry RejectedUnknownCapabilityKind ''RejectedUnknownCapabilityKind'' Rejection 1,
     X_entry RejectedUnknownFeatureCode ''RejectedUnknownFeatureCode'' Rejection 1,
     X_entry RejectedUnknownLimitCode ''RejectedUnknownLimitCode'' Rejection 1,
     X_entry RejectedFeatureNotInKind ''RejectedFeatureNotInKind'' Rejection 1,
     X_entry RejectedLimitNotInKind ''RejectedLimitNotInKind'' Rejection 1,
     X_entry RejectedLimitUnitInvalid ''RejectedLimitUnitInvalid'' Rejection 1,
     X_entry RejectedLimitUnitScaleInvalid ''RejectedLimitUnitScaleInvalid'' Rejection 1,
     X_entry RejectedNegativeLimit ''RejectedNegativeLimit'' Rejection 1,
     X_entry RejectedLimitScaleNotPermitted ''RejectedLimitScaleNotPermitted'' Rejection 1,
     X_entry RejectedUnsupportedSemanticVersion ''RejectedUnsupportedSemanticVersion'' Rejection 1,
     X_entry RejectedZeroIncarnation ''RejectedZeroIncarnation'' Rejection 1,
     X_entry RejectedUnknownSource ''RejectedUnknownSource'' Rejection 1,
     X_entry RejectedSourceRevoked ''RejectedSourceRevoked'' Rejection 1,
     X_entry RejectedSourceUntrusted ''RejectedSourceUntrusted'' Rejection 1,
     X_entry RejectedAuthorityInsufficient ''RejectedAuthorityInsufficient'' Rejection 1,
     X_entry RejectedGenerationRegression ''RejectedGenerationRegression'' Rejection 1,
     X_entry RejectedGenerationCollision ''RejectedGenerationCollision'' Rejection 1,
     X_entry RejectedSupersededGeneration ''RejectedSupersededGeneration'' Rejection 1,
     X_entry RejectedStaleObservation ''RejectedStaleObservation'' Rejection 1,
     X_entry RejectedFutureObservation ''RejectedFutureObservation'' Rejection 1,
     X_entry RejectedValidityWindowInverted ''RejectedValidityWindowInverted'' Rejection 1,
     X_entry RejectedRetiredStream ''RejectedRetiredStream'' Rejection 1,
     X_entry RejectedDeviceIncarnationFenced ''RejectedDeviceIncarnationFenced'' Rejection 1,
     X_entry RejectedEpochOutOfRange ''RejectedEpochOutOfRange'' Rejection 1,
     X_entry RejectedRuleGenerationOutOfRange ''RejectedRuleGenerationOutOfRange'' Rejection 1,
     X_entry RejectedFeatureBudgetExceeded ''RejectedFeatureBudgetExceeded'' Rejection 1,
     X_entry RejectedLimitBudgetExceeded ''RejectedLimitBudgetExceeded'' Rejection 1,
     X_entry RejectedRecordBudgetExhausted ''RejectedRecordBudgetExhausted'' Rejection 1,
     X_entry RejectedHistoryBudgetExhausted ''RejectedHistoryBudgetExhausted'' Rejection 1,
     X_entry RejectedStreamBudgetExhausted ''RejectedStreamBudgetExhausted'' Rejection 1,
     X_entry RejectedDeviceBudgetExhausted ''RejectedDeviceBudgetExhausted'' Rejection 1,
     X_entry RejectedBeyondRetentionHorizon ''RejectedBeyondRetentionHorizon'' Rejection 1,
     X_entry UnknownNoEvidence ''UnknownNoEvidence'' UnknownCategory 0,
     X_entry UnknownStaleEvidence ''UnknownStaleEvidence'' UnknownCategory 0,
     X_entry UnknownConflictingEvidence ''UnknownConflictingEvidence'' UnknownCategory 0,
     X_entry UnknownEvidenceEvicted ''UnknownEvidenceEvicted'' UnknownCategory 0,
     X_entry UnknownFencedEvidence ''UnknownFencedEvidence'' UnknownCategory 0,
     X_entry UnknownUnitMismatch ''UnknownUnitMismatch'' UnknownCategory 0,
     X_entry UnknownInexactUnitConversion ''UnknownInexactUnitConversion'' UnknownCategory 0,
     X_entry UnknownLimitNotReported ''UnknownLimitNotReported'' UnknownCategory 0,
     X_entry UnknownDeviceNotRegistered ''UnknownDeviceNotRegistered'' UnknownCategory 0,
     X_entry UnknownIncarnationNotCurrent ''UnknownIncarnationNotCurrent'' UnknownCategory 0,
     X_entry UnknownSourceNotConfigured ''UnknownSourceNotConfigured'' UnknownCategory 0,
     X_entry UnknownPolicyNotConfigured ''UnknownPolicyNotConfigured'' UnknownCategory 0,
     X_entry UnknownCapabilityRetired ''UnknownCapabilityRetired'' UnknownCategory 0,
     X_entry UnknownRuleGenerationMismatch ''UnknownRuleGenerationMismatch'' UnknownCategory 0,
     X_entry UnknownFirmwareGenerationAbsent ''UnknownFirmwareGenerationAbsent'' UnknownCategory 0,
     X_entry UnknownRuntimeGenerationAbsent ''UnknownRuntimeGenerationAbsent'' UnknownCategory 0,
     X_entry UnknownTruncatedHistory ''UnknownTruncatedHistory'' UnknownCategory 0,
     X_entry IncompatibleVersionTooLow ''IncompatibleVersionTooLow'' Incompatible 0,
     X_entry IncompatibleFeatureAbsent ''IncompatibleFeatureAbsent'' Incompatible 0,
     X_entry IncompatibleLimitBelowRequirement ''IncompatibleLimitBelowRequirement'' Incompatible 0,
     X_entry IncompatibleFirmwareGenerationTooLow ''IncompatibleFirmwareGenerationTooLow'' Incompatible 0,
     X_entry IncompatibleRuntimeGenerationTooLow ''IncompatibleRuntimeGenerationTooLow'' Incompatible 0,
     X_entry IncompatibleCapabilityRetired ''IncompatibleCapabilityRetired'' Incompatible 0,
     X_entry IncompatibleDeviceReincarnated ''IncompatibleDeviceReincarnated'' Incompatible 0,
     X_entry IncompatibleSourceRevoked ''IncompatibleSourceRevoked'' Incompatible 0,
     X_entry ConflictEqualAuthority ''ConflictEqualAuthority'' Conflict 0,
     X_entry ConflictOutranked ''ConflictOutranked'' Conflict 0,
     X_entry ConflictResolvedByAuthority ''ConflictResolvedByAuthority'' Conflict 0,
     X_entry ConflictResolvedByResolution ''ConflictResolvedByResolution'' Conflict 0,
     X_entry ConflictUnresolved ''ConflictUnresolved'' Conflict 0,
     X_entry EvictedSuperseded ''EvictedSuperseded'' Accounting 0,
     X_entry EvictedRetired ''EvictedRetired'' Accounting 0,
     X_entry EvictedBudgetPressure ''EvictedBudgetPressure'' Accounting 0,
     X_entry EvictionRecorded ''EvictionRecorded'' Accounting 0,
     X_entry ExportTruncated ''ExportTruncated'' Accounting 0,
     X_entry ExportComplete ''ExportComplete'' Accounting 0,
     X_entry StoreNotFound ''StoreNotFound'' Persistence 1,
     X_entry StoreEmptyNew ''StoreEmptyNew'' Persistence 0,
     X_entry StoreHeaderCorrupt ''StoreHeaderCorrupt'' Persistence 1,
     X_entry StoreVersionIncompatible ''StoreVersionIncompatible'' Persistence 1,
     X_entry StoreSemanticMismatch ''StoreSemanticMismatch'' Persistence 1,
     X_entry StorePayloadCorrupt ''StorePayloadCorrupt'' Persistence 1,
     X_entry StoreTornTail ''StoreTornTail'' Persistence 0,
     X_entry StoreJournalCorrupt ''StoreJournalCorrupt'' Persistence 1,
     X_entry StoreFooterMissing ''StoreFooterMissing'' Persistence 1,
     X_entry StoreOversized ''StoreOversized'' Persistence 1,
     X_entry StoreWriteFailed ''StoreWriteFailed'' Persistence 1,
     X_entry StoreReadFailed ''StoreReadFailed'' Persistence 1,
     X_entry StoreSyncFailed ''StoreSyncFailed'' Persistence 1,
     X_entry StoreEpochReplay ''StoreEpochReplay'' Persistence 1,
     X_entry StoreBootReplay ''StoreBootReplay'' Persistence 1,
     X_entry StoreIncarnationReplay ''StoreIncarnationReplay'' Persistence 1,
     X_entry StoreGenerationReplay ''StoreGenerationReplay'' Persistence 1,
     X_entry StoreRotationPerformed ''StoreRotationPerformed'' Persistence 0,
     X_entry StoreCommitDurable ''StoreCommitDurable'' Persistence 0,
     X_entry RecoveryCleanOpen ''RecoveryCleanOpen'' Recovery 0,
     X_entry RecoveryTornTailTruncated ''RecoveryTornTailTruncated'' Recovery 0,
     X_entry RecoveryTrailingCorruptDropped ''RecoveryTrailingCorruptDropped'' Recovery 0,
     X_entry RecoveryRefused ''RecoveryRefused'' Recovery 1,
     X_entry RecoveryRebuiltFromSnapshot ''RecoveryRebuiltFromSnapshot'' Recovery 0,
     X_entry RecoveryJournalReplayed ''RecoveryJournalReplayed'' Recovery 0,
     X_entry ProtocolFrameTooLarge ''ProtocolFrameTooLarge'' Transport 1,
     X_entry ProtocolFrameMalformed ''ProtocolFrameMalformed'' Transport 1,
     X_entry ProtocolVersionUnsupported ''ProtocolVersionUnsupported'' Transport 1,
     X_entry ProtocolChecksumMismatch ''ProtocolChecksumMismatch'' Transport 1,
     X_entry ProtocolSequenceViolation ''ProtocolSequenceViolation'' Transport 1,
     X_entry ProtocolUnknownOpcode ''ProtocolUnknownOpcode'' Transport 1,
     X_entry ProtocolConnectionLimit ''ProtocolConnectionLimit'' Transport 1,
     X_entry ProtocolBackpressure ''ProtocolBackpressure'' Transport 1,
     X_entry ProtocolShutdownInProgress ''ProtocolShutdownInProgress'' Transport 1,
     X_entry ProtocolRequestIdReplay ''ProtocolRequestIdReplay'' Transport 1,
     X_entry TransportClosed ''TransportClosed'' Transport 1,
     X_entry TransportUnavailable ''TransportUnavailable'' Transport 1,
     X_entry TransportListening ''TransportListening'' Transport 0,
     X_entry TransportAccepted ''TransportAccepted'' Transport 0,
     X_entry Cancelled ''Cancelled'' Cancellation 1,
     X_entry CancelTooLate ''CancelTooLate'' Cancellation 0,
     X_entry InternalInvariantViolated ''InternalInvariantViolated'' Rejection 1]"

text \<open>
  \<open>canonical_spelling\<close>: an underscore before every capital that follows a lower-case letter or a
  digit, then everything in upper case. \<open>prev\<close> is the preceding character, \<open>None\<close> at the start.
\<close>

definition is_upper :: "char \<Rightarrow> bool" where
  "is_upper c = (CHR ''A'' \<le> c \<and> c \<le> CHR ''Z'')"

definition is_lower :: "char \<Rightarrow> bool" where
  "is_lower c = (CHR ''a'' \<le> c \<and> c \<le> CHR ''z'')"

definition is_digit_char :: "char \<Rightarrow> bool" where
  "is_digit_char c = (CHR ''0'' \<le> c \<and> c \<le> CHR ''9'')"

definition to_upper :: "char \<Rightarrow> char" where
  "to_upper c = (if is_lower c then char_of (of_char c - 32 :: nat) else c)"

fun spell_from :: "char option \<Rightarrow> string \<Rightarrow> string" where
  "spell_from prev [] = []"
| "spell_from prev (c # cs) =
     (if is_upper c \<and> (case prev of None \<Rightarrow> False | Some p \<Rightarrow> is_lower p \<or> is_digit_char p)
      then [CHR ''_''] else []) @ to_upper c # spell_from (Some c) cs"

definition canonical_spelling :: "string \<Rightarrow> string" where
  "canonical_spelling identifier = spell_from None identifier"

definition find_entry :: "ReasonCode \<Rightarrow> TableEntry option" where
  "find_entry code = find (\<lambda>e. te_code e = code) reason_table"

definition reason_to_string :: "ReasonCode \<Rightarrow> string" where
  "reason_to_string code =
     (case find_entry code of Some e \<Rightarrow> canonical_spelling (te_identifier e)
      | None \<Rightarrow> ''UNKNOWN_REASON_CODE'')"

definition is_failure :: "ReasonCode \<Rightarrow> bool" where
  "is_failure code = (case find_entry code of Some e \<Rightarrow> te_failure e | None \<Rightarrow> True)"

definition category_of :: "ReasonCode \<Rightarrow> ReasonCategory" where
  "category_of code = (case find_entry code of Some e \<Rightarrow> te_category e | None \<Rightarrow> Rejection)"

definition category_to_string :: "ReasonCategory \<Rightarrow> string" where
  "category_to_string k = (case k of
       Acceptance \<Rightarrow> ''ACCEPTANCE'' | Idempotent \<Rightarrow> ''IDEMPOTENT'' | Rejection \<Rightarrow> ''REJECTION''
     | UnknownCategory \<Rightarrow> ''UNKNOWN'' | Incompatible \<Rightarrow> ''INCOMPATIBLE'' | Conflict \<Rightarrow> ''CONFLICT''
     | Persistence \<Rightarrow> ''PERSISTENCE'' | Recovery \<Rightarrow> ''RECOVERY'' | Accounting \<Rightarrow> ''ACCOUNTING''
     | Transport \<Rightarrow> ''TRANSPORT'' | Cancellation \<Rightarrow> ''CANCELLATION'')"

definition parse_reason_code :: "string \<Rightarrow> ReasonCode option" where
  "parse_reason_code text =
     map_option te_code (find (\<lambda>e. canonical_spelling (te_identifier e) = text) reason_table)"

definition reason_code_count :: nat where
  "reason_code_count = length reason_table"

text \<open>\<open>reason_from\<close> of \<open>src/codec.cpp\<close>: the switch over the table that decodes a raw code.\<close>

definition reason_from :: "u16 \<Rightarrow> ReasonCode option" where
  "reason_from raw = map_option te_code (find_entry raw)"

definition canonicalize_reasons :: "ReasonCode list \<Rightarrow> ReasonCode list" where
  "canonicalize_reasons reasons = remdups_adj (sort reasons)"

section \<open>Properties\<close>

lemma reason_table_codes:
  "map te_code reason_table = [
     0, 1, 2, 3, 4, 5, 16, 17, 18, 19, 20, 21, 22, 23, 24, 25, 26, 27, 28, 32, 33, 34, 35, 36, 37, 38, 39, 40, 41, 42, 48, 49, 50, 51, 52, 53, 54, 55, 56, 57, 58, 59, 60, 61, 62, 63, 64, 65, 66, 67, 68, 80, 81, 82, 83, 84, 85, 86, 87, 88, 89, 90, 91, 92, 93, 94, 95, 96, 112, 113, 114, 115, 116, 117, 118, 119, 144, 145, 146, 147, 148, 160, 161, 162, 163, 164, 165, 176, 177, 178, 179, 180, 181, 182, 183, 184, 185, 186, 187, 188, 189, 190, 191, 192, 193, 194, 208, 209, 210, 211, 212, 213, 224, 225, 226, 227, 228, 229, 230, 231, 232, 233, 234, 235, 236, 237, 248, 249, 250]"
  by (simp add: reason_table_def)

lemma reason_table_strict: "sorted_wrt (<) (map te_code reason_table)"
proof -
  have "successively (<) (map te_code reason_table)"
    unfolding reason_table_codes by simp
  then show ?thesis
    by (simp add: successively_conv_sorted_wrt)
qed

lemma reason_table_distinct: "distinct (map te_code reason_table)"
  using reason_table_strict by (simp add: strict_sorted_iff)

lemma find_entry_iff: "find_entry c = Some e \<longleftrightarrow> e \<in> set reason_table \<and> te_code e = c"
  by (simp add: find_entry_def find_key_iff [OF reason_table_distinct])

lemma char_class:
  "is_upper (CHR ''A'') = True" "is_lower (CHR ''A'') = False" "is_digit_char (CHR ''A'') = False"
     "to_upper (CHR ''A'') = CHR ''A''"
  "is_upper (CHR ''B'') = True" "is_lower (CHR ''B'') = False" "is_digit_char (CHR ''B'') = False"
     "to_upper (CHR ''B'') = CHR ''B''"
  "is_upper (CHR ''C'') = True" "is_lower (CHR ''C'') = False" "is_digit_char (CHR ''C'') = False"
     "to_upper (CHR ''C'') = CHR ''C''"
  "is_upper (CHR ''D'') = True" "is_lower (CHR ''D'') = False" "is_digit_char (CHR ''D'') = False"
     "to_upper (CHR ''D'') = CHR ''D''"
  "is_upper (CHR ''E'') = True" "is_lower (CHR ''E'') = False" "is_digit_char (CHR ''E'') = False"
     "to_upper (CHR ''E'') = CHR ''E''"
  "is_upper (CHR ''F'') = True" "is_lower (CHR ''F'') = False" "is_digit_char (CHR ''F'') = False"
     "to_upper (CHR ''F'') = CHR ''F''"
  "is_upper (CHR ''G'') = True" "is_lower (CHR ''G'') = False" "is_digit_char (CHR ''G'') = False"
     "to_upper (CHR ''G'') = CHR ''G''"
  "is_upper (CHR ''H'') = True" "is_lower (CHR ''H'') = False" "is_digit_char (CHR ''H'') = False"
     "to_upper (CHR ''H'') = CHR ''H''"
  "is_upper (CHR ''I'') = True" "is_lower (CHR ''I'') = False" "is_digit_char (CHR ''I'') = False"
     "to_upper (CHR ''I'') = CHR ''I''"
  "is_upper (CHR ''J'') = True" "is_lower (CHR ''J'') = False" "is_digit_char (CHR ''J'') = False"
     "to_upper (CHR ''J'') = CHR ''J''"
  "is_upper (CHR ''K'') = True" "is_lower (CHR ''K'') = False" "is_digit_char (CHR ''K'') = False"
     "to_upper (CHR ''K'') = CHR ''K''"
  "is_upper (CHR ''L'') = True" "is_lower (CHR ''L'') = False" "is_digit_char (CHR ''L'') = False"
     "to_upper (CHR ''L'') = CHR ''L''"
  "is_upper (CHR ''M'') = True" "is_lower (CHR ''M'') = False" "is_digit_char (CHR ''M'') = False"
     "to_upper (CHR ''M'') = CHR ''M''"
  "is_upper (CHR ''N'') = True" "is_lower (CHR ''N'') = False" "is_digit_char (CHR ''N'') = False"
     "to_upper (CHR ''N'') = CHR ''N''"
  "is_upper (CHR ''O'') = True" "is_lower (CHR ''O'') = False" "is_digit_char (CHR ''O'') = False"
     "to_upper (CHR ''O'') = CHR ''O''"
  "is_upper (CHR ''P'') = True" "is_lower (CHR ''P'') = False" "is_digit_char (CHR ''P'') = False"
     "to_upper (CHR ''P'') = CHR ''P''"
  "is_upper (CHR ''Q'') = True" "is_lower (CHR ''Q'') = False" "is_digit_char (CHR ''Q'') = False"
     "to_upper (CHR ''Q'') = CHR ''Q''"
  "is_upper (CHR ''R'') = True" "is_lower (CHR ''R'') = False" "is_digit_char (CHR ''R'') = False"
     "to_upper (CHR ''R'') = CHR ''R''"
  "is_upper (CHR ''S'') = True" "is_lower (CHR ''S'') = False" "is_digit_char (CHR ''S'') = False"
     "to_upper (CHR ''S'') = CHR ''S''"
  "is_upper (CHR ''T'') = True" "is_lower (CHR ''T'') = False" "is_digit_char (CHR ''T'') = False"
     "to_upper (CHR ''T'') = CHR ''T''"
  "is_upper (CHR ''U'') = True" "is_lower (CHR ''U'') = False" "is_digit_char (CHR ''U'') = False"
     "to_upper (CHR ''U'') = CHR ''U''"
  "is_upper (CHR ''V'') = True" "is_lower (CHR ''V'') = False" "is_digit_char (CHR ''V'') = False"
     "to_upper (CHR ''V'') = CHR ''V''"
  "is_upper (CHR ''W'') = True" "is_lower (CHR ''W'') = False" "is_digit_char (CHR ''W'') = False"
     "to_upper (CHR ''W'') = CHR ''W''"
  "is_upper (CHR ''X'') = True" "is_lower (CHR ''X'') = False" "is_digit_char (CHR ''X'') = False"
     "to_upper (CHR ''X'') = CHR ''X''"
  "is_upper (CHR ''Y'') = True" "is_lower (CHR ''Y'') = False" "is_digit_char (CHR ''Y'') = False"
     "to_upper (CHR ''Y'') = CHR ''Y''"
  "is_upper (CHR ''Z'') = True" "is_lower (CHR ''Z'') = False" "is_digit_char (CHR ''Z'') = False"
     "to_upper (CHR ''Z'') = CHR ''Z''"
  "is_upper (CHR ''a'') = False" "is_lower (CHR ''a'') = True" "is_digit_char (CHR ''a'') = False"
     "to_upper (CHR ''a'') = CHR ''A''"
  "is_upper (CHR ''b'') = False" "is_lower (CHR ''b'') = True" "is_digit_char (CHR ''b'') = False"
     "to_upper (CHR ''b'') = CHR ''B''"
  "is_upper (CHR ''c'') = False" "is_lower (CHR ''c'') = True" "is_digit_char (CHR ''c'') = False"
     "to_upper (CHR ''c'') = CHR ''C''"
  "is_upper (CHR ''d'') = False" "is_lower (CHR ''d'') = True" "is_digit_char (CHR ''d'') = False"
     "to_upper (CHR ''d'') = CHR ''D''"
  "is_upper (CHR ''e'') = False" "is_lower (CHR ''e'') = True" "is_digit_char (CHR ''e'') = False"
     "to_upper (CHR ''e'') = CHR ''E''"
  "is_upper (CHR ''f'') = False" "is_lower (CHR ''f'') = True" "is_digit_char (CHR ''f'') = False"
     "to_upper (CHR ''f'') = CHR ''F''"
  "is_upper (CHR ''g'') = False" "is_lower (CHR ''g'') = True" "is_digit_char (CHR ''g'') = False"
     "to_upper (CHR ''g'') = CHR ''G''"
  "is_upper (CHR ''h'') = False" "is_lower (CHR ''h'') = True" "is_digit_char (CHR ''h'') = False"
     "to_upper (CHR ''h'') = CHR ''H''"
  "is_upper (CHR ''i'') = False" "is_lower (CHR ''i'') = True" "is_digit_char (CHR ''i'') = False"
     "to_upper (CHR ''i'') = CHR ''I''"
  "is_upper (CHR ''j'') = False" "is_lower (CHR ''j'') = True" "is_digit_char (CHR ''j'') = False"
     "to_upper (CHR ''j'') = CHR ''J''"
  "is_upper (CHR ''k'') = False" "is_lower (CHR ''k'') = True" "is_digit_char (CHR ''k'') = False"
     "to_upper (CHR ''k'') = CHR ''K''"
  "is_upper (CHR ''l'') = False" "is_lower (CHR ''l'') = True" "is_digit_char (CHR ''l'') = False"
     "to_upper (CHR ''l'') = CHR ''L''"
  "is_upper (CHR ''m'') = False" "is_lower (CHR ''m'') = True" "is_digit_char (CHR ''m'') = False"
     "to_upper (CHR ''m'') = CHR ''M''"
  "is_upper (CHR ''n'') = False" "is_lower (CHR ''n'') = True" "is_digit_char (CHR ''n'') = False"
     "to_upper (CHR ''n'') = CHR ''N''"
  "is_upper (CHR ''o'') = False" "is_lower (CHR ''o'') = True" "is_digit_char (CHR ''o'') = False"
     "to_upper (CHR ''o'') = CHR ''O''"
  "is_upper (CHR ''p'') = False" "is_lower (CHR ''p'') = True" "is_digit_char (CHR ''p'') = False"
     "to_upper (CHR ''p'') = CHR ''P''"
  "is_upper (CHR ''q'') = False" "is_lower (CHR ''q'') = True" "is_digit_char (CHR ''q'') = False"
     "to_upper (CHR ''q'') = CHR ''Q''"
  "is_upper (CHR ''r'') = False" "is_lower (CHR ''r'') = True" "is_digit_char (CHR ''r'') = False"
     "to_upper (CHR ''r'') = CHR ''R''"
  "is_upper (CHR ''s'') = False" "is_lower (CHR ''s'') = True" "is_digit_char (CHR ''s'') = False"
     "to_upper (CHR ''s'') = CHR ''S''"
  "is_upper (CHR ''t'') = False" "is_lower (CHR ''t'') = True" "is_digit_char (CHR ''t'') = False"
     "to_upper (CHR ''t'') = CHR ''T''"
  "is_upper (CHR ''u'') = False" "is_lower (CHR ''u'') = True" "is_digit_char (CHR ''u'') = False"
     "to_upper (CHR ''u'') = CHR ''U''"
  "is_upper (CHR ''v'') = False" "is_lower (CHR ''v'') = True" "is_digit_char (CHR ''v'') = False"
     "to_upper (CHR ''v'') = CHR ''V''"
  "is_upper (CHR ''w'') = False" "is_lower (CHR ''w'') = True" "is_digit_char (CHR ''w'') = False"
     "to_upper (CHR ''w'') = CHR ''W''"
  "is_upper (CHR ''x'') = False" "is_lower (CHR ''x'') = True" "is_digit_char (CHR ''x'') = False"
     "to_upper (CHR ''x'') = CHR ''X''"
  "is_upper (CHR ''y'') = False" "is_lower (CHR ''y'') = True" "is_digit_char (CHR ''y'') = False"
     "to_upper (CHR ''y'') = CHR ''Y''"
  "is_upper (CHR ''z'') = False" "is_lower (CHR ''z'') = True" "is_digit_char (CHR ''z'') = False"
     "to_upper (CHR ''z'') = CHR ''Z''"
  "is_upper (CHR ''0'') = False" "is_lower (CHR ''0'') = False" "is_digit_char (CHR ''0'') = True"
     "to_upper (CHR ''0'') = CHR ''0''"
  "is_upper (CHR ''1'') = False" "is_lower (CHR ''1'') = False" "is_digit_char (CHR ''1'') = True"
     "to_upper (CHR ''1'') = CHR ''1''"
  "is_upper (CHR ''2'') = False" "is_lower (CHR ''2'') = False" "is_digit_char (CHR ''2'') = True"
     "to_upper (CHR ''2'') = CHR ''2''"
  "is_upper (CHR ''3'') = False" "is_lower (CHR ''3'') = False" "is_digit_char (CHR ''3'') = True"
     "to_upper (CHR ''3'') = CHR ''3''"
  "is_upper (CHR ''4'') = False" "is_lower (CHR ''4'') = False" "is_digit_char (CHR ''4'') = True"
     "to_upper (CHR ''4'') = CHR ''4''"
  "is_upper (CHR ''5'') = False" "is_lower (CHR ''5'') = False" "is_digit_char (CHR ''5'') = True"
     "to_upper (CHR ''5'') = CHR ''5''"
  "is_upper (CHR ''6'') = False" "is_lower (CHR ''6'') = False" "is_digit_char (CHR ''6'') = True"
     "to_upper (CHR ''6'') = CHR ''6''"
  "is_upper (CHR ''7'') = False" "is_lower (CHR ''7'') = False" "is_digit_char (CHR ''7'') = True"
     "to_upper (CHR ''7'') = CHR ''7''"
  "is_upper (CHR ''8'') = False" "is_lower (CHR ''8'') = False" "is_digit_char (CHR ''8'') = True"
     "to_upper (CHR ''8'') = CHR ''8''"
  "is_upper (CHR ''9'') = False" "is_lower (CHR ''9'') = False" "is_digit_char (CHR ''9'') = True"
     "to_upper (CHR ''9'') = CHR ''9''"
  by code_simp+
lemma reason_spellings: "map (\<lambda>e. canonical_spelling (te_identifier e)) reason_table = [''OK'',
     ''ACCEPTED_NEW'', ''ACCEPTED_SUPERSEDING'', ''ALREADY_PRESENT'',
     ''ACCEPTED_AUTHORITATIVE_OVERRIDE'', ''ACCEPTED_AFTER_RETIREMENT'', ''REJECTED_MALFORMED_NAME'',
     ''REJECTED_MALFORMED_VERSION'', ''REJECTED_MALFORMED_FEATURE'', ''REJECTED_MALFORMED_LIMIT'',
     ''REJECTED_MALFORMED_DOCUMENT'', ''REJECTED_OVERSIZED_INPUT'', ''REJECTED_TRUNCATED_INPUT'',
     ''REJECTED_DUPLICATE_KEY'', ''REJECTED_INVALID_UTF8'', ''REJECTED_NESTING_TOO_DEEP'',
     ''REJECTED_UNEXPECTED_FIELD'', ''REJECTED_MISSING_FIELD'', ''REJECTED_TRAILING_GARBAGE'',
     ''REJECTED_UNKNOWN_CAPABILITY_KIND'', ''REJECTED_UNKNOWN_FEATURE_CODE'',
     ''REJECTED_UNKNOWN_LIMIT_CODE'', ''REJECTED_FEATURE_NOT_IN_KIND'', ''REJECTED_LIMIT_NOT_IN_KIND'',
     ''REJECTED_LIMIT_UNIT_INVALID'', ''REJECTED_LIMIT_UNIT_SCALE_INVALID'',
     ''REJECTED_NEGATIVE_LIMIT'', ''REJECTED_LIMIT_SCALE_NOT_PERMITTED'',
     ''REJECTED_UNSUPPORTED_SEMANTIC_VERSION'', ''REJECTED_ZERO_INCARNATION'',
     ''REJECTED_UNKNOWN_SOURCE'', ''REJECTED_SOURCE_REVOKED'', ''REJECTED_SOURCE_UNTRUSTED'',
     ''REJECTED_AUTHORITY_INSUFFICIENT'', ''REJECTED_GENERATION_REGRESSION'',
     ''REJECTED_GENERATION_COLLISION'', ''REJECTED_SUPERSEDED_GENERATION'',
     ''REJECTED_STALE_OBSERVATION'', ''REJECTED_FUTURE_OBSERVATION'',
     ''REJECTED_VALIDITY_WINDOW_INVERTED'', ''REJECTED_RETIRED_STREAM'',
     ''REJECTED_DEVICE_INCARNATION_FENCED'', ''REJECTED_EPOCH_OUT_OF_RANGE'',
     ''REJECTED_RULE_GENERATION_OUT_OF_RANGE'', ''REJECTED_FEATURE_BUDGET_EXCEEDED'',
     ''REJECTED_LIMIT_BUDGET_EXCEEDED'', ''REJECTED_RECORD_BUDGET_EXHAUSTED'',
     ''REJECTED_HISTORY_BUDGET_EXHAUSTED'', ''REJECTED_STREAM_BUDGET_EXHAUSTED'',
     ''REJECTED_DEVICE_BUDGET_EXHAUSTED'', ''REJECTED_BEYOND_RETENTION_HORIZON'',
     ''UNKNOWN_NO_EVIDENCE'', ''UNKNOWN_STALE_EVIDENCE'', ''UNKNOWN_CONFLICTING_EVIDENCE'',
     ''UNKNOWN_EVIDENCE_EVICTED'', ''UNKNOWN_FENCED_EVIDENCE'', ''UNKNOWN_UNIT_MISMATCH'',
     ''UNKNOWN_INEXACT_UNIT_CONVERSION'', ''UNKNOWN_LIMIT_NOT_REPORTED'',
     ''UNKNOWN_DEVICE_NOT_REGISTERED'', ''UNKNOWN_INCARNATION_NOT_CURRENT'',
     ''UNKNOWN_SOURCE_NOT_CONFIGURED'', ''UNKNOWN_POLICY_NOT_CONFIGURED'',
     ''UNKNOWN_CAPABILITY_RETIRED'', ''UNKNOWN_RULE_GENERATION_MISMATCH'',
     ''UNKNOWN_FIRMWARE_GENERATION_ABSENT'', ''UNKNOWN_RUNTIME_GENERATION_ABSENT'',
     ''UNKNOWN_TRUNCATED_HISTORY'', ''INCOMPATIBLE_VERSION_TOO_LOW'', ''INCOMPATIBLE_FEATURE_ABSENT'',
     ''INCOMPATIBLE_LIMIT_BELOW_REQUIREMENT'', ''INCOMPATIBLE_FIRMWARE_GENERATION_TOO_LOW'',
     ''INCOMPATIBLE_RUNTIME_GENERATION_TOO_LOW'', ''INCOMPATIBLE_CAPABILITY_RETIRED'',
     ''INCOMPATIBLE_DEVICE_REINCARNATED'', ''INCOMPATIBLE_SOURCE_REVOKED'',
     ''CONFLICT_EQUAL_AUTHORITY'', ''CONFLICT_OUTRANKED'', ''CONFLICT_RESOLVED_BY_AUTHORITY'',
     ''CONFLICT_RESOLVED_BY_RESOLUTION'', ''CONFLICT_UNRESOLVED'', ''EVICTED_SUPERSEDED'',
     ''EVICTED_RETIRED'', ''EVICTED_BUDGET_PRESSURE'', ''EVICTION_RECORDED'', ''EXPORT_TRUNCATED'',
     ''EXPORT_COMPLETE'', ''STORE_NOT_FOUND'', ''STORE_EMPTY_NEW'', ''STORE_HEADER_CORRUPT'',
     ''STORE_VERSION_INCOMPATIBLE'', ''STORE_SEMANTIC_MISMATCH'', ''STORE_PAYLOAD_CORRUPT'',
     ''STORE_TORN_TAIL'', ''STORE_JOURNAL_CORRUPT'', ''STORE_FOOTER_MISSING'', ''STORE_OVERSIZED'',
     ''STORE_WRITE_FAILED'', ''STORE_READ_FAILED'', ''STORE_SYNC_FAILED'', ''STORE_EPOCH_REPLAY'',
     ''STORE_BOOT_REPLAY'', ''STORE_INCARNATION_REPLAY'', ''STORE_GENERATION_REPLAY'',
     ''STORE_ROTATION_PERFORMED'', ''STORE_COMMIT_DURABLE'', ''RECOVERY_CLEAN_OPEN'',
     ''RECOVERY_TORN_TAIL_TRUNCATED'', ''RECOVERY_TRAILING_CORRUPT_DROPPED'', ''RECOVERY_REFUSED'',
     ''RECOVERY_REBUILT_FROM_SNAPSHOT'', ''RECOVERY_JOURNAL_REPLAYED'', ''PROTOCOL_FRAME_TOO_LARGE'',
     ''PROTOCOL_FRAME_MALFORMED'', ''PROTOCOL_VERSION_UNSUPPORTED'', ''PROTOCOL_CHECKSUM_MISMATCH'',
     ''PROTOCOL_SEQUENCE_VIOLATION'', ''PROTOCOL_UNKNOWN_OPCODE'', ''PROTOCOL_CONNECTION_LIMIT'',
     ''PROTOCOL_BACKPRESSURE'', ''PROTOCOL_SHUTDOWN_IN_PROGRESS'', ''PROTOCOL_REQUEST_ID_REPLAY'',
     ''TRANSPORT_CLOSED'', ''TRANSPORT_UNAVAILABLE'', ''TRANSPORT_LISTENING'', ''TRANSPORT_ACCEPTED'',
     ''CANCELLED'', ''CANCEL_TOO_LATE'', ''INTERNAL_INVARIANT_VIOLATED'']"
  by (simp add: reason_table_def canonical_spelling_def char_class)

lemma reason_spellings_distinct: "distinct (map (\<lambda>e. canonical_spelling (te_identifier e))
     reason_table)"
  unfolding reason_spellings
  by (rule distinct_by_permutation [where p = "[5, 4, 1, 2, 3, 126, 127, 76, 77, 78, 79, 80, 83, 82, 81,
     84, 86, 85, 73, 74, 69, 71, 70, 72, 75, 68, 128, 0, 119, 115, 118, 113, 112, 121, 116, 120, 117,
     114, 106, 111, 110, 109, 107, 108, 33, 50, 49, 41, 13, 42, 44, 22, 38, 35, 34, 47, 14, 45, 23, 27,
     24, 25, 10, 8, 9, 6, 7, 17, 26, 15, 11, 46, 40, 43, 31, 32, 37, 48, 36, 18, 12, 16, 19, 20, 21, 30,
     28, 39, 29, 101, 105, 88, 100, 95, 103, 89, 102, 94, 87, 96, 92, 98, 104, 91, 99, 93, 90, 97, 125,
     122, 124, 123, 63, 53, 59, 54, 55, 65, 60, 57, 58, 51, 62, 64, 66, 61, 52, 67, 56]"]) simp_all

lemma reason_from_iff: "reason_from raw = Some c \<longleftrightarrow> c = raw \<and> find_entry c \<noteq> None"
  by (auto simp: reason_from_def find_entry_iff)

lemma unlisted_is_failure: "find_entry c = None \<Longrightarrow> is_failure c"
  by (simp add: is_failure_def)

lemma canonicalize_reasons_set [simp]: "set (canonicalize_reasons rs) = set rs"
  by (simp add: canonicalize_reasons_def)

lemma canonicalize_reasons_sorted: "sorted_wrt (<) (canonicalize_reasons rs)"
  by (simp add: canonicalize_reasons_def remdups_adj_sorted)

lemma canonicalize_reasons_unique:
  assumes "set rs = set rs'"
  shows "canonicalize_reasons rs = canonicalize_reasons rs'"
  by (metis assms canonicalize_reasons_set canonicalize_reasons_sorted sorted_distinct_set_unique strict_sorted_iff)

lemma canonicalize_reasons_idem [simp]:
  "canonicalize_reasons (canonicalize_reasons rs) = canonicalize_reasons rs"
  by (rule canonicalize_reasons_unique) simp

lemma canonicalize_reasons_Nil [simp]: "canonicalize_reasons [] = []"
  by (simp add: canonicalize_reasons_def)

section \<open>Claims\<close>

text \<open>
  A text parses to a reason code exactly when the code is listed in the table and the text is its
  canonical spelling, so every code has one spelling and parsing inverts printing.
\<close>

theorem parse_reason_code_iff:
  "parse_reason_code t = Some c \<longleftrightarrow> find_entry c \<noteq> None \<and> reason_to_string c = t"
proof -
  have "parse_reason_code t = Some c \<longleftrightarrow>
      (\<exists>e \<in> set reason_table. te_code e = c \<and> canonical_spelling (te_identifier e) = t)"
    using find_key_iff [OF reason_spellings_distinct, of t] by (auto simp: parse_reason_code_def)
  also have "\<dots> \<longleftrightarrow> find_entry c \<noteq> None \<and> reason_to_string c = t"
    by (auto simp: find_entry_iff reason_to_string_def split: option.splits)
       (metis find_entry_iff option.discI option.inject)+
  finally show ?thesis .
qed

end
