(* ===== verification/Checked.thy ===== *)
theory Checked
  imports Prelude "HOL-Library.Signed_Division"
begin

text \<open>
  Checked arithmetic: \<open>include/ocreg/checked.hpp\<close>.

  The templates are instantiated at unsigned and at signed integer types; each instance is a
  definition over words of any width, the \<open>bool\<close> result with its out-parameter being an option. The
  signed guards compute with values that stay in range (\<open>max - b\<close> with \<open>b > 0\<close>, \<open>kMin / b\<close>), so they
  are written over \<open>sint\<close>; C++ division truncates, which is \<open>sdiv\<close>. The lemmas say that an operation
  succeeds exactly when the mathematical result is representable, and then returns it.
\<close>

section \<open>Unsigned types\<close>

definition checked_add :: "'a::len word \<Rightarrow> 'a word \<Rightarrow> 'a word option" where
  "checked_add a b = (if a > - 1 - b then None else Some (a + b))"

definition checked_sub :: "'a::len word \<Rightarrow> 'a word \<Rightarrow> 'a word option" where
  "checked_sub a b = (if a < b then None else Some (a - b))"

definition checked_mul :: "'a::len word \<Rightarrow> 'a word \<Rightarrow> 'a word option" where
  "checked_mul a b =
     (if a = 0 \<or> b = 0 then Some 0
      else if a > (- 1) div b then None
      else Some (a * b))"

definition checked_div :: "'a::len word \<Rightarrow> 'a word \<Rightarrow> 'a word option" where
  "checked_div a b = (if b = 0 then None else Some (a div b))"

text \<open>\<open>checked_narrow<To, From>\<close> for unsigned \<open>To\<close> and \<open>From\<close>.\<close>

definition checked_narrow :: "'b::len word \<Rightarrow> 'a::len word option" where
  "checked_narrow v = (if unat v > 2 ^ LENGTH('a) - 1 then None else Some (ucast v))"

definition fits_u32 :: "u64 \<Rightarrow> bool" where
  "fits_u32 v = (v \<le> 0xFFFFFFFF)"

section \<open>Signed types\<close>

definition smax :: "'a::len itself \<Rightarrow> int" where
  "smax _ = 2 ^ (LENGTH('a) - 1) - 1"

definition smin :: "'a::len itself \<Rightarrow> int" where
  "smin _ = - (2 ^ (LENGTH('a) - 1))"

definition schecked_add :: "'a::len word \<Rightarrow> 'a word \<Rightarrow> 'a word option" where
  "schecked_add a b =
     (if sint b > 0 \<and> sint a > smax TYPE('a) - sint b then None
      else if sint b < 0 \<and> sint a < smin TYPE('a) - sint b then None
      else Some (a + b))"

definition schecked_sub :: "'a::len word \<Rightarrow> 'a word \<Rightarrow> 'a word option" where
  "schecked_sub a b =
     (if sint b < 0 \<and> sint a > smax TYPE('a) + sint b then None
      else if sint b > 0 \<and> sint a < smin TYPE('a) + sint b then None
      else Some (a - b))"

definition schecked_mul :: "'a::len word \<Rightarrow> 'a word \<Rightarrow> 'a word option" where
  "schecked_mul a b =
     (if sint a = 0 \<or> sint b = 0 then Some 0
      else if sint a > 0 then
        (if sint b > 0
         then (if sint a > smax TYPE('a) sdiv sint b then None else Some (a * b))
         else (if sint b < smin TYPE('a) sdiv sint a then None else Some (a * b)))
      else
        (if sint b > 0
         then (if sint a < smin TYPE('a) sdiv sint b then None else Some (a * b))
         else (if sint a \<noteq> 0 \<and> sint b < smax TYPE('a) sdiv sint a then None else Some (a * b))))"

definition schecked_div :: "'a::len word \<Rightarrow> 'a word \<Rightarrow> 'a word option" where
  "schecked_div a b =
     (if sint b = 0 then None
      else if sint a = smin TYPE('a) \<and> sint b = - 1 then None
      else Some (word_of_int (sint a sdiv sint b)))"

section \<open>Bounded counter\<close>

record BoundedCounter =
  bc_value :: u64
  bc_limit :: u64

definition try_add :: "u64 \<Rightarrow> BoundedCounter \<Rightarrow> bool \<times> BoundedCounter" where
  "try_add amount c =
     (case checked_add (bc_value c) amount of
        None \<Rightarrow> (False, c)
      | Some nxt \<Rightarrow>
          if nxt > bc_limit c then (False, c) else (True, c\<lparr>bc_value := nxt\<rparr>))"

section \<open>Lemmas\<close>

lemma unat_max_word: "unat (- 1 :: 'a::len word) = 2 ^ LENGTH('a) - 1"
  by (simp add: unsigned_minus_1_eq_mask mask_eq_exp_minus_1)

lemma checked_add_guard: "a > - 1 - b \<longleftrightarrow> unat a + unat b \<ge> 2 ^ LENGTH('a)"
  for a b :: "'a::len word"
proof -
  have "b \<le> - 1" by simp
  then have "unat (- 1 - b) = 2 ^ LENGTH('a) - 1 - unat b"
    by (simp add: unat_sub unat_max_word)
  moreover have "unat b < 2 ^ LENGTH('a)" by simp
  ultimately show ?thesis
    unfolding word_less_nat_alt by linarith
qed

lemma checked_add_eq:
  "checked_add a b = (if unat a + unat b < 2 ^ LENGTH('a) then Some (a + b) else None)"
  for a b :: "'a::len word"
  unfolding checked_add_def checked_add_guard by (simp add: linorder_not_less)

lemma checked_add_Some_iff:
  "checked_add a b = Some c \<longleftrightarrow> unat a + unat b = unat c"
  for a b c :: "'a::len word"
proof -
  have "unat c < 2 ^ LENGTH('a)" by simp
  then show ?thesis
    by (metis checked_add_eq option.distinct(1) option.inject unat_add_lem word_unat_eq_iff)
qed

lemma checked_sub_Some_iff:
  "checked_sub a b = Some c \<longleftrightarrow> unat b + unat c = unat a"
  for a b c :: "'a::len word"
proof (cases "a < b")
  case True
  then show ?thesis by (auto simp: checked_sub_def word_less_nat_alt)
next
  case False
  then have le: "unat b \<le> unat a" by (simp add: word_less_nat_alt)
  then have "unat (a - b) = unat a - unat b" using False by (simp add: unat_sub linorder_not_less)
  with False le show ?thesis by (auto simp: checked_sub_def word_unat_eq_iff)
qed

lemma checked_mul_guard:
  fixes a b :: "'a::len word"
  assumes "b \<noteq> 0"
  shows "a > (- 1) div b \<longleftrightarrow> unat a * unat b \<ge> 2 ^ LENGTH('a)"
proof -
  let ?m = "2 ^ LENGTH('a) :: nat"
  have pos: "0 < unat b" using assms by (simp add: unat_gt_0)
  have m: "0 < ?m" by simp
  have "unat ((- 1) div b) = (?m - 1) div unat b"
    by (simp add: unat_div unat_max_word)
  then have "a > (- 1) div b \<longleftrightarrow> (?m - 1) div unat b < unat a"
    by (simp add: word_less_nat_alt)
  also have "\<dots> \<longleftrightarrow> ?m - 1 < unat a * unat b"
    by (rule div_less_iff_less_mult [OF pos])
  also have "\<dots> \<longleftrightarrow> ?m \<le> unat a * unat b"
    using m by linarith
  finally show ?thesis .
qed

lemma checked_mul_Some_iff:
  "checked_mul a b = Some c \<longleftrightarrow> unat a * unat b = unat c"
  for a b c :: "'a::len word"
proof (cases "a = 0 \<or> b = 0")
  case True
  then show ?thesis by (auto simp: checked_mul_def unat_0_iff [symmetric])
next
  case False
  then have eq: "checked_mul a b = (if unat a * unat b \<ge> 2 ^ LENGTH('a) then None else Some (a * b))"
    unfolding checked_mul_def using checked_mul_guard [of b a] by simp
  have "unat c < 2 ^ LENGTH('a)" by simp
  then show ?thesis
    unfolding eq by (metis linorder_not_less option.distinct(1) option.inject unat_mult_lem word_unat_eq_iff)
qed

lemma checked_narrow_Some_iff:
  fixes v :: "'b::len word" and w :: "'a::len word"
  shows "checked_narrow v = Some w \<longleftrightarrow> unat v = unat w"
proof -
  have "unat v \<le> 2 ^ LENGTH('a) - 1 \<longleftrightarrow> unat v < 2 ^ LENGTH('a)"
    using zero_less_power [of "2::nat" "LENGTH('a)"] by linarith
  moreover have "unat (ucast v :: 'a word) = unat v" if "unat v < 2 ^ LENGTH('a)"
    using that by (simp add: unsigned_ucast_eq take_bit_nat_eq_self)
  moreover have "unat w < 2 ^ LENGTH('a)" by simp
  ultimately show ?thesis
    unfolding checked_narrow_def by (metis linorder_not_less option.distinct(1) option.inject word_unat_eq_iff)
qed

lemma sint_bounds: "smin TYPE('a) \<le> sint a \<and> sint a \<le> smax TYPE('a)" for a :: "'a::len word"
  using sint_ge [of a] sint_lt [of a] by (simp add: smin_def smax_def)

lemma signed_in_range:
  assumes "smin TYPE('a::len) \<le> x" "x \<le> smax TYPE('a)"
  shows "signed_take_bit (LENGTH('a) - 1) x = x"
  using assms by (intro signed_take_bit_int_eq_self) (auto simp: smin_def smax_def)

text \<open>
  The shape shared by the signed operations: the guard accepts exactly the representable results,
  and the word operation agrees with the integer one up to the signed wrap.
\<close>

lemma signed_checked:
  fixes w c :: "'a::len word"
  assumes ok: "r = (if smin TYPE('a) \<le> x \<and> x \<le> smax TYPE('a) then Some w else None)"
    and w: "sint w = signed_take_bit (LENGTH('a) - 1) x"
  shows "r = Some c \<longleftrightarrow> x = sint c"
  using sint_bounds [of c] ok w signed_in_range [of x, where 'a = 'a]
  by (auto split: if_splits intro: signed_word_eqI)

lemma schecked_add_Some_iff: "schecked_add a b = Some c \<longleftrightarrow> sint a + sint b = sint c"
  for a b c :: "'a::len word"
proof (rule signed_checked)
  show "schecked_add a b = (if smin TYPE('a) \<le> sint a + sint b \<and> sint a + sint b \<le> smax TYPE('a)
      then Some (a + b) else None)"
    using sint_bounds [of a] by (auto simp: schecked_add_def)
qed (simp add: sint_word_ariths)

lemma schecked_sub_Some_iff: "schecked_sub a b = Some c \<longleftrightarrow> sint a - sint b = sint c"
  for a b c :: "'a::len word"
proof (rule signed_checked)
  show "schecked_sub a b = (if smin TYPE('a) \<le> sint a - sint b \<and> sint a - sint b \<le> smax TYPE('a)
      then Some (a - b) else None)"
    using sint_bounds [of a] by (auto simp: schecked_sub_def)
qed (simp add: sint_word_ariths)

text \<open>Truncating division against a positive magnitude, as the multiplication guards use it.\<close>

lemma sdiv_signs:
  fixes m k :: int
  assumes "0 \<le> m" "0 < k"
  shows "m sdiv k = m div k" "(- m) sdiv k = - (m div k)" "m sdiv (- k) = - (m div k)"
  using assms by (auto simp: signed_divide_int_def sgn_if)

lemma div_guard:
  fixes m k q :: int
  assumes "0 < k"
  shows "m div k < q \<longleftrightarrow> m < q * k"
proof -
  have "q * k \<le> m" if "q \<le> m div k"
  proof -
    have "q * k \<le> m div k * k" using that assms by (simp add: mult_right_mono)
    also have "\<dots> \<le> m" using assms by (simp add: minus_mod_eq_div_mult [symmetric])
    finally show ?thesis .
  qed
  moreover have "q \<le> m div k" if "q * k \<le> m"
    using zdiv_mono1 [OF that assms] assms by simp
  ultimately show ?thesis by (meson not_le)
qed

lemma schecked_mul_range:
  fixes a b :: "'a::len word"
  shows "schecked_mul a b =
    (if smin TYPE('a) \<le> sint a * sint b \<and> sint a * sint b \<le> smax TYPE('a)
     then Some (a * b) else None)"
proof -
  define M where "M = smax TYPE('a)"
  define x where "x = sint a"
  define y where "y = sint b"
  have M: "0 \<le> M" "smin TYPE('a) = - (M + 1)" by (simp_all add: M_def smax_def smin_def)
  note defs = schecked_mul_def x_def [symmetric] y_def [symmetric] M_def [symmetric]
  consider "x = 0 \<or> y = 0" | "0 < x" "0 < y" | "0 < x" "y < 0" | "x < 0" "0 < y" | "x < 0" "y < 0"
    by linarith
  then show ?thesis
  proof cases
    case 1
    moreover from 1 have "a * b = 0"
      unfolding x_def y_def by (metis mult_zero_left mult_zero_right signed_word_eqI sint_0)
    ultimately show ?thesis using M by (auto simp: defs)
  next
    case 2
    moreover from 2 M have "- (M + 1) \<le> x * y"
      by (metis add_nonneg_pos mult_pos_pos neg_le_0_iff_le order_less_imp_le order_trans zero_less_one)
    ultimately show ?thesis
      using M div_guard [of y M x] by (auto simp: defs sdiv_signs)
  next
    case 3
    moreover from 3 M have "x * y \<le> M" by (meson mult_pos_neg order_less_imp_le order_trans)
    moreover from 3 M have "(- (M + 1)) sdiv x = - ((M + 1) div x)" by (intro sdiv_signs) auto
    ultimately show ?thesis
      using M div_guard [of x "M + 1" "- y"] by (auto simp: defs mult.commute)
  next
    case 4
    moreover from 4 M have "x * y \<le> M" by (meson mult_neg_pos order_less_imp_le order_trans)
    moreover from 4 M have "(- (M + 1)) sdiv y = - ((M + 1) div y)" by (intro sdiv_signs) auto
    ultimately show ?thesis
      using M div_guard [of y "M + 1" "- x"] by (auto simp: defs mult.commute)
  next
    case 5
    moreover from 5 M have "- (M + 1) \<le> x * y"
      by (metis add_nonneg_pos mult_neg_neg neg_le_0_iff_le order_less_imp_le order_trans zero_less_one)
    moreover from 5 M have "M sdiv x = - (M div (- x))" using sdiv_signs(3) [of M "- x"] by simp
    ultimately show ?thesis
      using M div_guard [of "- x" M "- y"] by (auto simp: defs mult.commute)
  qed
qed

lemma schecked_mul_Some_iff: "schecked_mul a b = Some c \<longleftrightarrow> sint a * sint b = sint c"
  for a b c :: "'a::len word"
  by (rule signed_checked [OF schecked_mul_range]) (simp add: sint_word_ariths)

lemma try_add_bounded:
  assumes "bc_value c \<le> bc_limit c"
  shows "bc_value (snd (try_add n c)) \<le> bc_limit (snd (try_add n c))"
  using assms by (auto simp: try_add_def split: option.splits)

lemma checked_div_Some_iff: "checked_div a b = Some c \<longleftrightarrow> unat b \<noteq> 0 \<and> unat a div unat b = unat c"
  for a b c :: "'a::len word"
proof -
  have "b = 0 \<longleftrightarrow> unat b = 0" by (simp add: unat_eq_zero)
  moreover have "a div b = c \<longleftrightarrow> unat a div unat b = unat c" unfolding unat_div_distrib [symmetric] by (simp add: word_unat_eq_iff del: unat_div_distrib)
  ultimately show ?thesis by (simp add: checked_div_def)
qed

text \<open>The truncated quotient leaves the range in one case only.\<close>

lemma sdiv_range:
  fixes x y M :: int
  assumes "0 \<le> M" "- (M + 1) \<le> x" "x \<le> M" "y \<noteq> 0"
  shows "(- (M + 1) \<le> x sdiv y \<and> x sdiv y \<le> M) \<longleftrightarrow> \<not> (x = - (M + 1) \<and> y = - 1)"
proof -
  have le: "0 \<le> m div k \<and> m div k \<le> m" if "0 \<le> m" "0 < k" for m k :: int
  proof -
    have "m < (m + 1) * 1" by simp
    also have "\<dots> \<le> (m + 1) * k" using that by (intro mult_left_mono) auto
    finally show ?thesis using that div_guard [of k m "m + 1"] by (simp add: pos_imp_zdiv_nonneg_iff)
  qed
  consider "0 \<le> x" "0 < y" | "0 \<le> x" "y < 0" | "x < 0" "0 < y" | "x < 0" "y < 0" using assms(4) by linarith
  then show ?thesis
  proof cases
    case 1
    then show ?thesis using le [of x y] sdiv_signs(1) [of x y] assms by auto
  next
    case 2
    then show ?thesis using le [of x "- y"] sdiv_signs(3) [of x "- y"] assms by auto
  next
    case 3
    then show ?thesis using le [of "- x" y] sdiv_signs(2) [of "- x" y] assms by auto
  next
    case 4
    have q: "x sdiv y = (- x) div (- y)" using 4 by (simp add: signed_divide_int_def sgn_if)
    have "(- x) div (- y) < M + 1 \<longleftrightarrow> - x < (M + 1) * (- y)" using 4 by (intro div_guard) simp
    moreover have "- x < (M + 1) * (- y) \<longleftrightarrow> \<not> (x = - (M + 1) \<and> y = - 1)"
    proof (cases "y = - 1")
      case False
      have "- x < (M + 1) * 2" using assms by simp
      also have "\<dots> \<le> (M + 1) * (- y)" using False 4 assms(1) by (intro mult_left_mono) auto
      finally show ?thesis using False by simp
    qed (use assms in auto)
    ultimately show ?thesis using le [of "- x" "- y"] 4 assms unfolding q by auto
  qed
qed

lemma schecked_div_Some_iff: "schecked_div a b = Some c \<longleftrightarrow> sint b \<noteq> 0 \<and> sint a sdiv sint b = sint c"
  for a b c :: "'a::len word"
proof (cases "sint b = 0")
  case False
  define M where "M = smax TYPE('a)"
  have M: "0 \<le> M" "smin TYPE('a) = - (M + 1)" by (simp_all add: M_def smax_def smin_def)
  have r: "- (M + 1) \<le> sint a" "sint a \<le> M" using sint_bounds [of a] M by (simp_all add: M_def)
  have "schecked_div a b = (if smin TYPE('a) \<le> sint a sdiv sint b \<and> sint a sdiv sint b \<le> smax TYPE('a)
      then Some (word_of_int (sint a sdiv sint b)) else None)"
    using False sdiv_range [OF M(1) r False] unfolding schecked_div_def M_def [symmetric] M(2) by auto
  from signed_checked [OF this, of c] False show ?thesis by (simp add: sint_sbintrunc')
qed (simp add: schecked_div_def)

section \<open>Claims\<close>

text \<open>
  C39: the checked additions, subtractions, multiplications and divisions, unsigned and signed, at any width, return a
  value exactly when the mathematical result exists and fits the type, and then it is that result; no overflow
  ever wraps into a plausible value. Signed division truncates towards zero: it is refused for a zero divisor and for the
  one quotient that does not fit, the smallest number by minus one.
\<close>

theorem checked_arithmetic_exact:
  fixes a b c :: "'a::len word"
  shows "(checked_add a b = Some c \<longleftrightarrow> unat a + unat b = unat c)
    \<and> (checked_sub a b = Some c \<longleftrightarrow> unat b + unat c = unat a)
    \<and> (checked_mul a b = Some c \<longleftrightarrow> unat a * unat b = unat c)
    \<and> (checked_div a b = Some c \<longleftrightarrow> unat b \<noteq> 0 \<and> unat a div unat b = unat c)
    \<and> (schecked_add a b = Some c \<longleftrightarrow> sint a + sint b = sint c)
    \<and> (schecked_sub a b = Some c \<longleftrightarrow> sint a - sint b = sint c)
    \<and> (schecked_mul a b = Some c \<longleftrightarrow> sint a * sint b = sint c)
    \<and> (schecked_div a b = Some c \<longleftrightarrow> sint b \<noteq> 0 \<and> sint a sdiv sint b = sint c)"
  by (intro conjI checked_add_Some_iff checked_sub_Some_iff checked_mul_Some_iff checked_div_Some_iff
      schecked_add_Some_iff schecked_sub_Some_iff schecked_mul_Some_iff schecked_div_Some_iff)

end
