(* ===== verification/Units.thy ===== *)
theory Units
  imports Checked Strings
begin

text \<open>
  Exact physical units: \<open>include/ocreg/units.hpp\<close> and \<open>src/units.cpp\<close>.

  \<open>UnitCode\<close> is an open 16-bit enum (the decoder casts a raw value before it is checked), so it is a
  word; \<open>UnitScale\<close> and \<open>Dimension\<close> are datatypes. The 128-bit product is modelled both ways the
  source has it, with a 128-bit product and with four 32-bit partial products, and the exact
  division is the restoring long division of the portable branch. The lemmas show that the two
  products agree, that the division returns exactly the exact quotients, and hence that
  \<open>convert_exact\<close> and \<open>compare_exact\<close> are exact integer statements about the quantities.
\<close>

type_synonym UnitCode = u16

datatype UnitScale = Unity | Decimal | Binary

datatype Dimension =
  DimDimensionless | DimCount | DimData | DimDataRate | DimRate | DimTime | DimFrequency | DimRatio

record Unit =
  u_code :: UnitCode
  u_scale :: UnitScale
  u_exponent :: u8

abbreviation mk_unit :: "UnitCode \<Rightarrow> UnitScale \<Rightarrow> u8 \<Rightarrow> Unit" where
  "mk_unit c s e \<equiv> \<lparr>u_code = c, u_scale = s, u_exponent = e\<rparr>"

definition unity :: "UnitCode \<Rightarrow> Unit" where
  "unity c = mk_unit c Unity 0"

definition kMaxUnitExponent :: u8 where
  "kMaxUnitExponent = 6"

section \<open>The unit table\<close>

record UnitCodeInfo =
  uci_code :: UnitCode
  uci_name :: string
  uci_dimension :: Dimension
  uci_base_factor :: u64
  uci_decimal_scale :: bool
  uci_binary_scale :: bool

abbreviation (input) uci :: "UnitCode \<Rightarrow> string \<Rightarrow> Dimension \<Rightarrow> u64 \<Rightarrow> bool \<Rightarrow> bool \<Rightarrow> UnitCodeInfo" where
  "uci c n d f ds bs \<equiv> \<lparr>uci_code = c, uci_name = n, uci_dimension = d, uci_base_factor = f,
     uci_decimal_scale = ds, uci_binary_scale = bs\<rparr>"

text \<open>The enumerators of \<open>UnitCode\<close> in the order of \<open>kUnitCodes\<close>.\<close>

abbreviation (input) "UnitNone \<equiv> (0 :: UnitCode)"
abbreviation (input) "UnitCount \<equiv> (1 :: UnitCode)"
abbreviation (input) "UnitBit \<equiv> (2 :: UnitCode)"
abbreviation (input) "UnitByte \<equiv> (3 :: UnitCode)"
abbreviation (input) "UnitBitPerSecond \<equiv> (4 :: UnitCode)"
abbreviation (input) "UnitBytePerSecond \<equiv> (5 :: UnitCode)"
abbreviation (input) "UnitPacketPerSecond \<equiv> (6 :: UnitCode)"
abbreviation (input) "UnitNanoSecond \<equiv> (7 :: UnitCode)"
abbreviation (input) "UnitMicroSecond \<equiv> (8 :: UnitCode)"
abbreviation (input) "UnitMilliSecond \<equiv> (9 :: UnitCode)"
abbreviation (input) "UnitSecond \<equiv> (10 :: UnitCode)"
abbreviation (input) "UnitHertz \<equiv> (11 :: UnitCode)"
abbreviation (input) "UnitPartsPerMillion \<equiv> (12 :: UnitCode)"
abbreviation (input) "UnitPercent \<equiv> (13 :: UnitCode)"
abbreviation (input) "UnitOperationPerSecond \<equiv> (14 :: UnitCode)"

definition kUnitCodes :: "UnitCodeInfo list" where
  "kUnitCodes = [
     uci UnitNone ''none'' DimDimensionless 1 False False,
     uci UnitCount ''count'' DimCount 1 False False,
     uci UnitBit ''bit'' DimData 1 True True,
     uci UnitByte ''byte'' DimData 8 True True,
     uci UnitBitPerSecond ''bit_per_second'' DimDataRate 1 True True,
     uci UnitBytePerSecond ''byte_per_second'' DimDataRate 8 True True,
     uci UnitPacketPerSecond ''packet_per_second'' DimRate 1 True True,
     uci UnitOperationPerSecond ''operation_per_second'' DimRate 1 True False,
     uci UnitNanoSecond ''nanosecond'' DimTime 1 True False,
     uci UnitMicroSecond ''microsecond'' DimTime 1000 True False,
     uci UnitMilliSecond ''millisecond'' DimTime 1000000 True False,
     uci UnitSecond ''second'' DimTime 1000000000 True False,
     uci UnitHertz ''hertz'' DimFrequency 1 True False,
     uci UnitPartsPerMillion ''parts_per_million'' DimRatio 1 False False,
     uci UnitPercent ''percent'' DimRatio 10000 False False]"

definition find_code :: "UnitCode \<Rightarrow> UnitCodeInfo option" where
  "find_code c = find (\<lambda>i. uci_code i = c) kUnitCodes"

fun scale_loop :: "nat \<Rightarrow> u64 \<Rightarrow> u64 \<Rightarrow> u64 option" where
  "scale_loop 0 base result = Some result"
| "scale_loop (Suc i) base result =
     (case checked_mul result base of None \<Rightarrow> None | Some nxt \<Rightarrow> scale_loop i base nxt)"

definition scale_multiplier :: "UnitScale \<Rightarrow> u8 \<Rightarrow> u64 option" where
  "scale_multiplier s e = scale_loop (unat e) (if s = Decimal then 10 else 1024) 1"

definition unit_is_well_formed :: "Unit \<Rightarrow> bool" where
  "unit_is_well_formed u =
     (case find_code (u_code u) of
        None \<Rightarrow> False
      | Some info \<Rightarrow>
          if u_exponent u > kMaxUnitExponent then False
          else (case u_scale u of
                  Unity \<Rightarrow> u_exponent u = 0
                | Decimal \<Rightarrow> uci_decimal_scale info
                | Binary \<Rightarrow> uci_binary_scale info))"

definition dimension_of :: "UnitCode \<Rightarrow> Dimension" where
  "dimension_of c = (case find_code c of None \<Rightarrow> DimDimensionless | Some info \<Rightarrow> uci_dimension info)"

definition unit_scale_permitted :: "UnitCode \<Rightarrow> UnitScale \<Rightarrow> bool" where
  "unit_scale_permitted c s =
     (case find_code c of None \<Rightarrow> False
      | Some info \<Rightarrow> (case s of Unity \<Rightarrow> True | Decimal \<Rightarrow> uci_decimal_scale info
                                | Binary \<Rightarrow> uci_binary_scale info))"

definition factor_to_base :: "Unit \<Rightarrow> u64 option" where
  "factor_to_base u =
     (if \<not> unit_is_well_formed u then None
      else (case find_code (u_code u) of None \<Rightarrow> None
        | Some info \<Rightarrow>
            (case scale_multiplier (u_scale u) (u_exponent u) of None \<Rightarrow> None
             | Some m \<Rightarrow> checked_mul (uci_base_factor info) m)))"

section \<open>128-bit arithmetic\<close>

record U128 =
  hi :: u64
  lo :: u64

text \<open>The branch with a 128-bit type.\<close>

definition mul_u64 :: "u64 \<Rightarrow> u64 \<Rightarrow> U128" where
  "mul_u64 a b = (let product = (ucast a :: 128 word) * ucast b
                  in \<lparr>hi = ucast (drop_bit 64 product), lo = ucast product\<rparr>)"

text \<open>The branch with partial products.\<close>

definition mul_u64_portable :: "u64 \<Rightarrow> u64 \<Rightarrow> U128" where
  "mul_u64_portable a b =
     (let a_lo = a AND 0xFFFFFFFF; a_hi = drop_bit 32 a;
          b_lo = b AND 0xFFFFFFFF; b_hi = drop_bit 32 b;
          p0 = a_lo * b_lo; p1 = a_lo * b_hi; p2 = a_hi * b_lo; p3 = a_hi * b_hi;
          carry = drop_bit 32 (drop_bit 32 p0 + (p1 AND 0xFFFFFFFF) + (p2 AND 0xFFFFFFFF))
      in \<lparr>hi = p3 + drop_bit 32 p1 + drop_bit 32 p2 + carry,
          lo = p0 + push_bit 32 p1 + push_bit 32 p2\<rparr>)"

text \<open>
  The restoring long division: \<open>div_loop n\<close> has the bits below \<open>n\<close> left; \<open>None\<close> is the early
  \<open>return false\<close> on a quotient bit above position 63.
\<close>

fun div_loop :: "nat \<Rightarrow> U128 \<Rightarrow> u64 \<Rightarrow> u64 \<Rightarrow> u64 \<Rightarrow> (u64 \<times> u64) option" where
  "div_loop 0 v d remainder result = Some (remainder, result)"
| "div_loop (Suc n) v d remainder result =
     (let next_bit = (if n \<ge> 64 then drop_bit (n - 64) (hi v) AND 1 else drop_bit n (lo v) AND 1);
          carry = (drop_bit 63 remainder \<noteq> 0);
          remainder' = push_bit 1 remainder OR next_bit
      in if carry \<or> remainder' \<ge> d then
           (if n \<ge> 64 then None
            else div_loop n v d (remainder' - d) (result OR push_bit n 1))
         else div_loop n v d remainder' result)"

definition div_u128_exact :: "U128 \<Rightarrow> u64 \<Rightarrow> u64 option" where
  "div_u128_exact v d =
     (if d = 0 then None
      else if hi v \<ge> d then None
      else (case div_loop 128 v d 0 0 of
              None \<Rightarrow> None
            | Some (remainder, result) \<Rightarrow> if remainder \<noteq> 0 then None else Some result))"

section \<open>Conversion and comparison\<close>

definition convert_exact :: "i64 \<Rightarrow> Unit \<Rightarrow> Unit \<Rightarrow> i64 option" where
  "convert_exact v from to =
     (if \<not> unit_is_well_formed from \<or> \<not> unit_is_well_formed to then None
      else if dimension_of (u_code from) \<noteq> dimension_of (u_code to) then None
      else (case (factor_to_base from, factor_to_base to) of
        (Some from_factor, Some to_factor) \<Rightarrow>
          (let negative = (v <s 0);
               magnitude = (if negative then - (v + 1) + 1 else v)
           in (case div_u128_exact (mul_u64 magnitude from_factor) to_factor of
                 None \<Rightarrow> None
               | Some quot \<Rightarrow>
                   if quot > 0x7FFFFFFFFFFFFFFF then
                     (if \<not> (negative \<and> quot = 0x8000000000000000) then None
                      else Some 0x8000000000000000)
                   else Some (if negative then - quot else quot)))
      | _ \<Rightarrow> None))"

definition compare_signed :: "i64 \<Rightarrow> i64 \<Rightarrow> strong_ordering" where
  "compare_signed a b = spaceship (sint a) (sint b)"

definition compare_exact :: "i64 \<Rightarrow> Unit \<Rightarrow> i64 \<Rightarrow> Unit \<Rightarrow> strong_ordering option" where
  "compare_exact lhs lhs_unit rhs rhs_unit =
     (if lhs_unit = rhs_unit then Some (compare_signed lhs rhs)
      else (case convert_exact lhs lhs_unit rhs_unit of
        Some lhs_in_rhs \<Rightarrow> Some (compare_signed lhs_in_rhs rhs)
      | None \<Rightarrow>
          (case convert_exact rhs rhs_unit lhs_unit of
             Some rhs_in_lhs \<Rightarrow> Some (compare_signed lhs rhs_in_lhs)
           | None \<Rightarrow> None)))"

section \<open>Spellings\<close>

definition UnitCode_to_string :: "UnitCode \<Rightarrow> string" where
  "UnitCode_to_string c = (case find_code c of None \<Rightarrow> ''none'' | Some info \<Rightarrow> uci_name info)"

definition UnitScale_to_string :: "UnitScale \<Rightarrow> string" where
  "UnitScale_to_string s = (case s of Unity \<Rightarrow> ''unity'' | Decimal \<Rightarrow> ''dec'' | Binary \<Rightarrow> ''bin'')"

definition Dimension_to_string :: "Dimension \<Rightarrow> string" where
  "Dimension_to_string d = (case d of
       DimDimensionless \<Rightarrow> ''dimensionless'' | DimCount \<Rightarrow> ''count'' | DimData \<Rightarrow> ''data''
     | DimDataRate \<Rightarrow> ''data_rate'' | DimRate \<Rightarrow> ''rate'' | DimTime \<Rightarrow> ''time''
     | DimFrequency \<Rightarrow> ''frequency'' | DimRatio \<Rightarrow> ''ratio'')"

definition unit_to_string :: "Unit \<Rightarrow> string" where
  "unit_to_string u = UnitCode_to_string (u_code u)
     @ (if u_scale u \<noteq> Unity
        then CHR ''.'' # UnitScale_to_string (u_scale u) @ dec_string (unat (u_exponent u)) else [])"

definition parse_unit_code :: "string \<Rightarrow> UnitCode option" where
  "parse_unit_code t = map_option uci_code (find (\<lambda>i. uci_name i = t) kUnitCodes)"

text \<open>The suffix after the dot: a three-letter scale and a decimal exponent of one or two digits.\<close>

definition parse_unit_suffix :: "string \<Rightarrow> (UnitScale \<times> u8) option" where
  "parse_unit_suffix rest =
     (if length rest < 4 then None
      else (let scale_text = take 3 rest; exponent_text = drop 3 rest in
        case (if scale_text = ''dec'' then Some Decimal
              else if scale_text = ''bin'' then Some Binary else None) of
          None \<Rightarrow> None
        | Some scale \<Rightarrow>
            if exponent_text = [] \<or> length exponent_text > 2 then None
            else if \<not> list_all is_digit exponent_text then None
            else if dec_val exponent_text > unat kMaxUnitExponent then None
            else Some (scale, of_nat (dec_val exponent_text))))"

definition parse_unit :: "string \<Rightarrow> Unit option" where
  "parse_unit t =
     (if t = [] \<or> length t > 48 then None
      else (case split_at (CHR ''.'') t of (code_text, suffix) \<Rightarrow>
        (case parse_unit_code code_text of None \<Rightarrow> None | Some c \<Rightarrow>
          (case (case suffix of None \<Rightarrow> Some (Unity, 0) | Some rest \<Rightarrow> parse_unit_suffix rest) of
             None \<Rightarrow> None
           | Some (scale, e) \<Rightarrow>
               let candidate = mk_unit c scale e
               in if \<not> unit_is_well_formed candidate then None else Some candidate))))"

section \<open>The product and the division are exact\<close>

definition U128_val :: "U128 \<Rightarrow> nat" where
  "U128_val v = unat (hi v) * 2 ^ 64 + unat (lo v)"

lemma unat64: "unat (w :: u64) < 2 ^ 64"
  using unsigned_less [of w] by simp

lemma U128_val_inj: "U128_val v = U128_val w \<Longrightarrow> v = w"
proof -
  assume eq: "U128_val v = U128_val w"
  have "unat (lo v) < 2 ^ 64" "unat (lo w) < 2 ^ 64"
    using unsigned_less [of "lo v"] unsigned_less [of "lo w"] by simp_all
  moreover have "unat (hi v) = U128_val v div 2 ^ 64" "unat (lo v) = U128_val v mod 2 ^ 64"
    "unat (hi w) = U128_val w div 2 ^ 64" "unat (lo w) = U128_val w mod 2 ^ 64"
    using calculation by (simp_all add: U128_val_def)
  ultimately show "v = w" using eq by (simp add: word_unat_eq_iff)
qed

lemma U128_val_mul_u64: "U128_val (mul_u64 a b) = unat a * unat b"
proof -
  let ?p = "(ucast a :: 128 word) * ucast b"
  have la: "unat a < 2 ^ 64" "unat b < 2 ^ 64"
    using unsigned_less [of a] unsigned_less [of b] by simp_all
  have bound: "unat a * unat b < 2 ^ 64 * 2 ^ 64"
    using la by (intro mult_strict_mono) simp_all
  moreover have "unat (ucast a :: 128 word) = unat a" "unat (ucast b :: 128 word) = unat b"
    using la by (simp_all add: unsigned_ucast_eq take_bit_nat_eq_self)
  ultimately have up: "unat ?p = unat a * unat b"
    by (simp add: unat_word_ariths)
  have "unat (drop_bit 64 ?p) = unat ?p div 2 ^ 64"
    by (subst unat_drop_bit_eq) (rule drop_bit_eq_div)
  moreover have "unat ?p div 2 ^ 64 < 2 ^ 64"
    unfolding up using bound by (rule less_mult_imp_div_less)
  ultimately have "unat (ucast (drop_bit 64 ?p) :: u64) = unat ?p div 2 ^ 64"
    by (simp add: unsigned_ucast_eq take_bit_nat_eq_self)
  moreover have "unat (ucast ?p :: u64) = unat ?p mod 2 ^ 64"
    by (simp add: unsigned_ucast_eq take_bit_eq_mod)
  ultimately show ?thesis
    using up by (simp add: U128_val_def mul_u64_def Let_def)
qed

text \<open>The carry of the partial products, as an identity on natural numbers.\<close>

lemma partial_products:
  fixes M p0 p1 p2 :: nat
  assumes "0 < M"
  shows "(p0 + M * p1 + M * p2) div (M * M)
       = p1 div M + p2 div M + (p0 div M + p1 mod M + p2 mod M) div M"
proof -
  have "(p0 + M * p1 + M * p2) div (M * M) = ((p0 + M * (p1 + p2)) div M) div M"
    by (simp add: div_mult2_eq distrib_left add.assoc)
  also have "(p0 + M * (p1 + p2)) div M = p0 div M + (p1 + p2)"
    using assms by simp
  also have "p0 div M + (p1 + p2) = (p0 div M + p1 mod M + p2 mod M) + M * (p1 div M + p2 div M)"
    using mult_div_mod_eq [of M p1] mult_div_mod_eq [of M p2] by (simp add: distrib_left)
  also have "\<dots> div M = (p0 div M + p1 mod M + p2 mod M) div M + (p1 div M + p2 div M)"
    using assms by simp
  finally show ?thesis by simp
qed

lemma unat_low32: "unat (w AND 0xFFFFFFFF :: u64) = unat w mod 2 ^ 32"
proof -
  have "w AND 0xFFFFFFFF = take_bit 32 w"
    by (simp add: take_bit_eq_mask mask_eq_decr_exp)
  then show ?thesis by (simp only: unsigned_take_bit_eq) (simp add: take_bit_eq_mod)
qed

lemma unat_high32: "unat (drop_bit 32 w :: u64) = unat w div 2 ^ 32"
  by (subst unat_drop_bit_eq) (rule drop_bit_eq_div)

lemma unat_push32: "unat (push_bit 32 w :: u64) = (2 ^ 32 * unat w) mod 2 ^ 64"
  by (simp only: unsigned_push_bit_eq) (simp add: take_bit_eq_mod push_bit_eq_mult mult.commute)

lemma unat_add64: "unat (a + b :: u64) = (unat a + unat b) mod 2 ^ 64"
  by (simp add: unat_word_ariths)

lemma unat_mul_small:
  assumes "unat (a :: u64) < 2 ^ 32" "unat b < 2 ^ 32"
  shows "unat (a * b) = unat a * unat b"
proof -
  have "unat a * unat b < 2 ^ 32 * 2 ^ 32"
    using assms by (intro mult_strict_mono) simp_all
  then show ?thesis by (simp add: unat_word_ariths)
qed

lemma U128_val_mul_u64_portable: "U128_val (mul_u64_portable a b) = unat a * unat b"
proof -
  define M :: nat where "M = 2 ^ 32"
  define al ah bl bh where "al = unat a mod M" "ah = unat a div M" "bl = unat b mod M" "bh = unat b div M"
  have ub: "unat a < M * M" "unat b < M * M"
    using unsigned_less [of a] unsigned_less [of b] by (simp_all add: M_def)
  have "0 < M" by (simp add: M_def)
  then have lt: "al < M" "ah < M" "bl < M" "bh < M"
    using ub by (simp_all add: al_ah_bl_bh_def less_mult_imp_div_less)
  define p0 p1 p2 p3 where "p0 = al * bl" "p1 = al * bh" "p2 = ah * bl" "p3 = ah * bh"
  define c where "c = (p0 div M + p1 mod M + p2 mod M) div M"
  define X where "X = p0 + M * p1 + M * p2"
  have ab: "unat a = M * ah + al" "unat b = M * bh + bl"
    by (simp_all add: al_ah_bl_bh_def)
  have prod: "unat a * unat b = (M * M) * p3 + X"
    by (simp add: ab p0_p1_p2_p3_def X_def algebra_simps)
  have Xdiv: "X div (M * M) = p1 div M + p2 div M + c"
    using partial_products [of M p0 p1 p2] by (simp add: X_def c_def M_def)
  have hi_eq: "(unat a * unat b) div (M * M) = p3 + p1 div M + p2 div M + c"
    using Xdiv by (simp add: prod M_def)
  have hi_lt: "p3 + p1 div M + p2 div M + c < 2 ^ 64"
  proof -
    have "unat a * unat b < (M * M) * (M * M)" using ub \<open>0 < M\<close> by (intro mult_strict_mono) simp_all
    then have "(unat a * unat b) div (M * M) < M * M" using \<open>0 < M\<close> by (simp add: less_mult_imp_div_less)
    then show ?thesis using hi_eq by (simp add: M_def)
  qed
  have small: "al < 2 ^ 32" "ah < 2 ^ 32" "bl < 2 ^ 32" "bh < 2 ^ 32" using lt by (simp_all add: M_def)
  let ?al = "a AND 0xFFFFFFFF" and ?ah = "drop_bit 32 a"
    and ?bl = "b AND 0xFFFFFFFF" and ?bh = "drop_bit 32 b"
  have words: "unat ?al = al" "unat ?ah = ah" "unat ?bl = bl" "unat ?bh = bh"
    by (simp_all add: unat_low32 unat_high32 al_ah_bl_bh_def M_def)
  have ps: "unat (?al * ?bl) = p0" "unat (?al * ?bh) = p1" "unat (?ah * ?bl) = p2" "unat (?ah * ?bh) = p3"
    using small by (simp_all add: unat_mul_small words p0_p1_p2_p3_def)
  have ccase: "p0 div M + p1 mod M + p2 mod M < 2 ^ 64"
  proof -
    have "p0 < M * M" using lt by (simp add: p0_p1_p2_p3_def mult_strict_mono)
    then have "p0 div M < M" by (simp add: less_mult_imp_div_less)
    moreover have "p1 mod M < M" "p2 mod M < M" using lt(1) by simp_all
    ultimately show ?thesis by (simp add: M_def)
  qed
  define cw where "cw = drop_bit 32 (drop_bit 32 (?al * ?bl) + (?al * ?bh AND 0xFFFFFFFF) + (?ah * ?bl AND 0xFFFFFFFF))"
  have "unat (drop_bit 32 (?al * ?bl) + (?al * ?bh AND 0xFFFFFFFF) + (?ah * ?bl AND 0xFFFFFFFF))
      = p0 div M + p1 mod M + p2 mod M"
    using ccase by (simp only: unat_add64 unat_high32 unat_low32 ps M_def) (simp add: mod_simps)
  then have cw: "unat cw = c"
    unfolding cw_def unat_high32 c_def by (simp only: M_def)
  have hi_word: "hi (mul_u64_portable a b) = ?ah * ?bh + drop_bit 32 (?al * ?bh) + drop_bit 32 (?ah * ?bl) + cw"
    by (simp only: mul_u64_portable_def Let_def cw_def U128.simps)
  have hi_val: "unat (hi (mul_u64_portable a b)) = p3 + p1 div M + p2 div M + c"
    using hi_lt by (simp only: hi_word unat_add64 unat_high32 ps cw M_def) (simp add: mod_simps)
  have lo_val: "unat (lo (mul_u64_portable a b)) = X mod (M * M)"
    by (simp only: mul_u64_portable_def Let_def unat_add64 unat_push32 ps X_def M_def U128.simps) (simp add: mod_simps)
  show ?thesis
    using hi_val lo_val Xdiv mult_div_mod_eq [of "M * M" X]
    by (simp add: U128_val_def prod M_def algebra_simps)
qed

text \<open>One step of the long division: shift in the next bit of the dividend and subtract once if possible.\<close>

lemma unat_bit: "unat (drop_bit k w AND 1 :: u64) = unat w div 2 ^ k mod 2"
proof -
  have "unat (drop_bit k w) = unat w div 2 ^ k"
    by (subst unat_drop_bit_eq) (rule drop_bit_eq_div)
  moreover have "unat (2 :: u64) = 2" by simp
  ultimately show ?thesis by (simp only: and_one_eq unat_mod)
qed

lemma U128_bit:
  assumes "n < 128"
  shows "unat (if n \<ge> 64 then drop_bit (n - 64) (hi v) AND 1 else drop_bit n (lo v) AND 1)
       = (U128_val v div 2 ^ n) mod 2"
proof (cases "n \<ge> 64")
  case True
  then obtain k where n: "n = 64 + k" by (metis le_iff_add)
  have "unat (lo v) < 2 ^ 64" using unsigned_less [of "lo v"] by simp
  then have "U128_val v div 2 ^ n = unat (hi v) div 2 ^ k"
    by (simp add: n U128_val_def power_add div_mult2_eq)
  moreover have "unat (drop_bit k (hi v) AND 1) = (unat (hi v) div 2 ^ k) mod 2"
    by (rule unat_bit)
  ultimately show ?thesis using True n by simp
next
  case False
  then obtain k where k: "64 = n + Suc k" by (metis add_Suc_right less_iff_Suc_add not_le)
  have "U128_val v = (unat (hi v) * 2 ^ k * 2) * 2 ^ n + unat (lo v)"
  proof -
    have "(2 :: nat) ^ 64 = 2 ^ k * 2 * 2 ^ n" using k by (metis power_add power_Suc mult.commute)
    then show ?thesis by (simp add: U128_val_def)
  qed
  then have "U128_val v div 2 ^ n = unat (hi v) * 2 ^ k * 2 + unat (lo v) div 2 ^ n" by simp
  then have "U128_val v div 2 ^ n mod 2 = unat (lo v) div 2 ^ n mod 2" by simp
  moreover have "unat (drop_bit n (lo v) AND 1) = (unat (lo v) div 2 ^ n) mod 2"
    by (rule unat_bit)
  ultimately show ?thesis using False by simp
qed

text \<open>The shifted remainder modulo \<open>2^64\<close>, with the carry bit that left the register.\<close>

lemma shift_in:
  fixes r b :: u64
  assumes "unat b < 2"
  shows "unat (push_bit 1 r OR b) = (2 * unat r + unat b) mod 2 ^ 64"
    and "drop_bit 63 r \<noteq> 0 \<longleftrightarrow> 2 ^ 64 \<le> 2 * unat r + unat b"
proof -
  have "unat b = 0 \<or> unat b = 1" using assms by linarith
  then have b: "b = 0 \<or> b = 1" by (metis unat_0_iff unat_1 word_unat_eq_iff)
  have "\<not> bit (push_bit 1 r) n \<or> \<not> bit b n" for n
    using b by (cases "n = 0") (simp only: bit_push_bit_iff, simp, auto simp only: bit_1_iff bit_0_eq bot_apply bot_bool_def)
  then have "push_bit 1 r OR b = push_bit 1 r + b"
    by (intro disjunctive_add [symmetric])
  moreover have "unat (push_bit 1 r) = (2 * unat r) mod 2 ^ 64"
    by (simp only: unsigned_push_bit_eq) (simp add: take_bit_eq_mod push_bit_eq_mult mult.commute)
  ultimately show "unat (push_bit 1 r OR b) = (2 * unat r + unat b) mod 2 ^ 64"
    by (simp only: unat_add64) (simp add: mod_simps)
  have "drop_bit 63 r \<noteq> 0 \<longleftrightarrow> unat r div 2 ^ 63 \<noteq> 0"
    by (metis drop_bit_eq_div unat_0_iff unat_drop_bit_eq)
  also have "\<dots> \<longleftrightarrow> 2 ^ 63 \<le> unat r" by (simp add: div_eq_0_iff not_less)
  also have "\<dots> \<longleftrightarrow> 2 ^ 64 \<le> 2 * unat r + unat b" using assms by auto
  finally show "drop_bit 63 r \<noteq> 0 \<longleftrightarrow> 2 ^ 64 \<le> 2 * unat r + unat b" .
qed

lemma quotient_step:
  fixes V d r b :: nat
  assumes "r < d" "V = 2 * (d * q + r) + b" "b < 2" "V' = 2 * r + b"
  shows "V mod d = (if d \<le> V' then V' - d else V')" "V div d = 2 * q + (if d \<le> V' then 1 else 0)"
proof -
  have V: "V = (if d \<le> V' then d * (2 * q + 1) + (V' - d) else d * (2 * q) + V')"
    using assms by (simp add: algebra_simps)
  have lt: "d \<le> V' \<Longrightarrow> V' - d < d" using assms by simp
  show "V mod d = (if d \<le> V' then V' - d else V')"
  proof (cases "d \<le> V'")
    case True
    then have "V mod d = (V' - d) mod d" using V by (simp only: if_True mod_mult_self4)
    then show ?thesis using True lt by simp
  next
    case False
    then have "V mod d = V' mod d" using V by (simp only: if_False mod_mult_self4)
    then show ?thesis using False by simp
  qed
  show "V div d = 2 * q + (if d \<le> V' then 1 else 0)"
  proof (cases "d \<le> V'")
    case True
    then have "V div d = 2 * q + 1 + (V' - d) div d" 
      using V assms(1) by (metis div_mult_self4 not_less0)
    then show ?thesis using True lt by simp
  next
    case False
    then have "V div d = 2 * q + V' div d" using V assms(1) by (simp only: if_False) simp
    then show ?thesis using False by simp
  qed
qed

lemma U128_high:
  assumes "unat (hi v) < d" "64 \<le> n"
  shows "U128_val v div 2 ^ n div d = 0"
proof -
  obtain k where n: "n = 64 + k" using assms(2) by (metis le_iff_add)
  have "unat (lo v) < 2 ^ 64" using unsigned_less [of "lo v"] by simp
  then have "U128_val v div 2 ^ n = unat (hi v) div 2 ^ k"
    by (simp add: n U128_val_def power_add div_mult2_eq)
  also have "\<dots> < d" using assms(1) by (meson div_le_dividend le_less_trans)
  finally show ?thesis by simp
qed

text \<open>Setting a quotient bit below every bit that is set is an addition.\<close>

lemma or_quotient_bit:
  fixes res :: u64
  assumes "unat res = q * 2 ^ Suc n" "n < 64"
  shows "unat (res OR push_bit n 1) = (2 * q + 1) * 2 ^ n"
proof -
  have "\<not> bit (unat res) n" by (simp add: assms(1) bit_iff_odd)
  then have "\<not> bit res n" using assms(2) by (simp add: bit_unsigned_iff)
  then have "\<not> bit res i \<or> \<not> bit (push_bit n 1 :: u64) i" for i
    by (cases "i = n") (simp, simp only: bit_push_bit_iff bit_1_iff, simp)
  then have "res OR push_bit n 1 = res + push_bit n 1"
    by (intro disjunctive_add [symmetric])
  moreover have "unat (push_bit n 1 :: u64) = 2 ^ n"
    using assms(2) by (simp only: unsigned_push_bit_eq) (simp add: push_bit_eq_mult take_bit_nat_eq_self)
  moreover have "q * 2 ^ Suc n + 2 ^ n < 2 ^ 64"
  proof -
    obtain k where k: "64 = Suc n + k" using assms(2) by (metis Suc_leI le_iff_add)
    have pow: "(2 :: nat) ^ 64 = 2 ^ k * 2 ^ Suc n" by (metis k mult.commute power_add)
    have "unat res < 2 ^ 64" using unsigned_less [of res] by simp
    then have "q * 2 ^ Suc n < 2 ^ k * 2 ^ Suc n" by (simp only: assms(1) pow)
    then have "Suc q \<le> 2 ^ k" by simp
    then have "Suc q * 2 ^ Suc n \<le> 2 ^ 64" unfolding pow by (rule mult_le_mono1)
    moreover have "(0 :: nat) < 2 ^ n" by simp
    ultimately show ?thesis unfolding power_Suc mult_Suc by linarith
  qed
  ultimately have "unat (res OR push_bit n 1) = q * 2 ^ Suc n + 2 ^ n"
    by (simp only: unat_add64 assms(1) mod_less)
  then show ?thesis by simp
qed

text \<open>
  The loop invariant: with \<open>n\<close> bits left, the remainder register holds the remainder of the bits
  consumed so far, and the result register holds their quotient shifted to its place.
\<close>

lemma div_loop_exact:
  assumes "unat (hi v) < unat d" "n \<le> 128"
    "unat remainder = (U128_val v div 2 ^ n) mod unat d"
    "unat res = (U128_val v div 2 ^ n) div unat d * 2 ^ n"
  shows "\<exists>r q. div_loop n v d remainder res = Some (r, q)
       \<and> unat r = U128_val v mod unat d \<and> unat q = U128_val v div unat d"
  using assms
proof (induction n arbitrary: remainder res)
  case 0
  then show ?case by simp
next
  case (Suc n)
  let ?V = "\<lambda>n. U128_val v div 2 ^ n" and ?d = "unat d"
  define b where "b = (if n \<ge> 64 then drop_bit (n - 64) (hi v) AND 1 else drop_bit n (lo v) AND 1)"
  define r' where "r' = push_bit 1 remainder OR b"
  define full where "full = 2 * unat remainder + unat b"
  have d0: "0 < ?d" using Suc.prems(1) by simp
  have b: "unat b = ?V n mod 2" using U128_bit [of n v] Suc.prems(2) by (simp add: b_def)
  then have b2: "unat b < 2" by simp
  have half: "?V (Suc n) = ?V n div 2" by (metis div_mult2_eq power_Suc2)
  have split: "?V n = 2 * (?d * (?V (Suc n) div ?d) + unat remainder) + unat b"
    using mult_div_mod_eq [of 2 "?V n"] Suc.prems(3) by (simp only: half b mult_div_mod_eq)
  have rlt: "unat remainder < ?d" using Suc.prems(3) d0 by simp
  note step = quotient_step [OF rlt split b2 refl, folded full_def]
  have dlt: "?d < 2 ^ 64" using unsigned_less [of d] by simp
  have flt: "full < 2 * ?d" using rlt b2 by (simp add: full_def)
  have r'_val: "unat r' = full mod 2 ^ 64" and carry: "drop_bit 63 remainder \<noteq> 0 \<longleftrightarrow> 2 ^ 64 \<le> full"
    using shift_in [OF b2, of remainder] by (simp_all add: r'_def full_def)
  have test: "(drop_bit 63 remainder \<noteq> 0 \<or> r' \<ge> d) \<longleftrightarrow> ?d \<le> full"
    using carry dlt r'_val by (cases "2 ^ 64 \<le> full") (simp_all add: word_le_nat_alt)
  have unfold: "div_loop (Suc n) v d remainder res =
      (if ?d \<le> full then (if n \<ge> 64 then None else div_loop n v d (r' - d) (res OR push_bit n 1))
       else div_loop n v d r' res)"
    by (simp only: div_loop.simps Let_def test flip: b_def r'_def)
  show ?case
  proof (cases "?d \<le> full")
    case True
    have n: "n < 64"
    proof (rule ccontr)
      assume "\<not> n < 64"
      then have "?V n div ?d = 0" by (intro U128_high [OF Suc.prems(1)]) simp
      then show False using step(2) True by simp
    qed
    have "r' = of_nat full"
      using r'_val by (simp add: word_unat_eq_iff unat_of_nat)
    then have "r' - d = of_nat (full - ?d)"
      using True by (simp add: of_nat_diff)
    then have "unat (r' - d) = full - ?d"
      using flt dlt by (simp add: unat_of_nat take_bit_nat_eq_self)
    moreover have "unat (res OR push_bit n 1) = ?V n div ?d * 2 ^ n"
      using or_quotient_bit [OF Suc.prems(4) n] step(2) True by simp
    ultimately show ?thesis
      unfolding unfold using Suc.IH [of "r' - d" "res OR push_bit n 1"] Suc.prems(1) n step(1) True
      by (simp only: if_True if_False not_le) simp
  next
    case False
    then have "unat r' = ?V n mod ?d" using r'_val dlt step(1) by simp
    moreover have "unat res = ?V n div ?d * 2 ^ n"
      using Suc.prems(4) step(2) False by simp
    ultimately show ?thesis
      unfolding unfold using Suc.IH [of r' res] Suc.prems(1,2) False by simp
  qed
qed

lemma div_u128_exact_iff:
  "div_u128_exact v d = Some q \<longleftrightarrow> d \<noteq> 0 \<and> unat q * unat d = U128_val v"
proof (cases "unat (hi v) < unat d")
  case True
  then obtain r q' where loop: "div_loop 128 v d 0 0 = Some (r, q')"
    and r: "unat r = U128_val v mod unat d" and q': "unat q' = U128_val v div unat d"
  proof -
    have "unat (lo v) < 2 ^ 64" "unat (hi v) < 2 ^ 64"
      using unsigned_less [of "lo v"] unsigned_less [of "hi v"] by simp_all
    then have "U128_val v div 2 ^ 128 = 0" by (simp add: U128_val_def)
    then show ?thesis using div_loop_exact [OF True, of 128 0 0] that by auto
  qed
  have run: "div_u128_exact v d = (if r \<noteq> 0 then None else Some q')"
    using True loop by (auto simp: div_u128_exact_def word_less_nat_alt word_le_nat_alt)
  have d: "0 < unat d" using True by simp
  show ?thesis
  proof (cases "U128_val v mod unat d = 0")
    case True
    then have "U128_val v = unat q' * unat d" using q' by auto
    moreover have "r = 0" using True r by (simp add: unat_0_iff)
    ultimately show ?thesis using d run by (auto simp: word_unat_eq_iff)
  next
    case False
    then have "unat q * unat d \<noteq> U128_val v" by (metis mod_mult_self2_is_0)
    then show ?thesis using False r run by (auto simp: unat_0_iff)
  qed
next
  case False
  then have none: "div_u128_exact v d = None"
    by (simp add: div_u128_exact_def word_le_nat_alt)
  have "unat q * unat d < 2 ^ 64 * unat d \<or> unat d = 0"
    using unat64 [of q] by auto
  moreover have "2 ^ 64 * unat d \<le> U128_val v"
    using False by (simp add: U128_val_def)
  ultimately have "d \<noteq> 0 \<Longrightarrow> unat q * unat d \<noteq> U128_val v" by (metis not_less unat_0_iff)
  then show ?thesis using none by auto
qed

section \<open>Factors\<close>

text \<open>The factor of a unit as a number: the specification \<open>factor_to_base\<close> is measured against.\<close>

definition scale_base :: "UnitScale \<Rightarrow> nat" where
  "scale_base s = (if s = Decimal then 10 else 1024)"

definition unit_factor :: "Unit \<Rightarrow> nat" where
  "unit_factor u = (case find_code (u_code u) of None \<Rightarrow> 0
     | Some info \<Rightarrow> unat (uci_base_factor info) * scale_base (u_scale u) ^ unat (u_exponent u))"

lemma kUnitCodes_factors:
  "info \<in> set kUnitCodes \<Longrightarrow> 0 < unat (uci_base_factor info) \<and> unat (uci_base_factor info) \<le> 10 ^ 9
     \<and> (uci_binary_scale info \<longrightarrow> unat (uci_base_factor info) \<le> 8)"
  by (auto simp: kUnitCodes_def)

lemma find_code_mem: "find_code c = Some info \<Longrightarrow> info \<in> set kUnitCodes \<and> uci_code info = c"
  unfolding find_code_def by (drule find_Some_iff) simp

lemma scale_loop_power:
  assumes "0 < unat r" "unat r * unat base ^ n < 2 ^ 64" "0 < unat base"
  shows "\<exists>m. scale_loop n base r = Some m \<and> unat m = unat r * unat base ^ n"
  using assms
proof (induction n arbitrary: r)
  case 0
  then show ?case by simp
next
  case (Suc n)
  have "unat r * unat base * 1 \<le> unat r * unat base * unat base ^ n"
    using Suc.prems(3) by (intro mult_le_mono2) simp
  also have "\<dots> = unat r * unat base ^ Suc n" by simp
  finally have lt: "unat r * unat base < 2 ^ 64" using Suc.prems(2) by linarith
  then have val: "unat (r * base) = unat r * unat base"
    by (simp add: unat_word_ariths)
  then have mul: "checked_mul r base = Some (r * base)"
    by (simp add: checked_mul_Some_iff)
  have "unat (r * base) * unat base ^ n < 2 ^ 64" using Suc.prems(2) by (simp add: val mult.assoc)
  moreover have "0 < unat (r * base)" using Suc.prems(1,3) val by simp
  ultimately show ?case
    using Suc.IH [of "r * base"] Suc.prems(3) by (simp add: mul val mult.assoc)
qed

text \<open>Every well-formed unit has a factor: no scale of the table overflows 64 bits.\<close>

lemma factor_to_base_total:
  assumes "unit_is_well_formed u"
  shows "\<exists>f. factor_to_base u = Some f \<and> unat f = unit_factor u \<and> 0 < unit_factor u"
proof -
  obtain info where info: "find_code (u_code u) = Some info"
    using assms by (auto simp: unit_is_well_formed_def split: option.splits)
  let ?bf = "unat (uci_base_factor info)" and ?b = "if u_scale u = Decimal then 10 else 1024 :: u64"
  have e: "unat (u_exponent u) \<le> 6"
    using assms info
    by (auto simp: unit_is_well_formed_def kMaxUnitExponent_def word_le_nat_alt not_less split: if_splits)
  have bf: "0 < ?bf" "?bf \<le> 10 ^ 9" "uci_binary_scale info \<longrightarrow> ?bf \<le> 8"
    using kUnitCodes_factors find_code_mem [OF info] by auto
  have base: "unat ?b = scale_base (u_scale u)" by (simp add: scale_base_def)
  have bound: "?bf * scale_base (u_scale u) ^ unat (u_exponent u) < 2 ^ 64"
  proof (cases "u_scale u")
    case Unity
    then show ?thesis using assms info bf by (simp add: unit_is_well_formed_def split: if_splits)
  next
    case Decimal
    have "(10 :: nat) ^ unat (u_exponent u) \<le> 10 ^ 6" by (rule power_increasing [OF e]) simp
    then have "?bf * 10 ^ unat (u_exponent u) \<le> 10 ^ 9 * 10 ^ 6" by (rule mult_le_mono [OF bf(2)])
    then show ?thesis by (simp add: Decimal scale_base_def)
  next
    case Binary
    then have "?bf \<le> 8" using assms info bf by (simp add: unit_is_well_formed_def split: if_splits)
    moreover have "(1024 :: nat) ^ unat (u_exponent u) \<le> 1024 ^ 6" by (rule power_increasing [OF e]) simp
    ultimately have "?bf * 1024 ^ unat (u_exponent u) \<le> 8 * 1024 ^ 6" by (rule mult_le_mono)
    then show ?thesis by (simp add: Binary scale_base_def)
  qed
  have bpos: "0 < scale_base (u_scale u)" by (simp add: scale_base_def)
  have "1 * scale_base (u_scale u) ^ unat (u_exponent u) \<le> ?bf * scale_base (u_scale u) ^ unat (u_exponent u)"
    using bf by (intro mult_le_mono1) simp
  then have "scale_base (u_scale u) ^ unat (u_exponent u) < 2 ^ 64" using bound by linarith
  then obtain m where m: "scale_multiplier (u_scale u) (u_exponent u) = Some m"
    "unat m = scale_base (u_scale u) ^ unat (u_exponent u)"
    using scale_loop_power [of 1 ?b "unat (u_exponent u)"] bound bpos
    by (auto simp: scale_multiplier_def base)
  have val: "unat (uci_base_factor info * m) = ?bf * unat m"
    using bound m(2) by (simp add: unat_word_ariths)
  then have "checked_mul (uci_base_factor info) m = Some (uci_base_factor info * m)"
    by (simp add: checked_mul_Some_iff)
  then show ?thesis
    using assms info m bf(1) bpos val by (simp add: factor_to_base_def unit_factor_def)
qed

section \<open>Exact conversion\<close>

lemma sint_uint64:
  fixes v :: i64
  shows "sint v = (if uint v < 2 ^ 63 then uint v else uint v - 2 ^ 64)"
proof -
  have "sint v = (uint v + 2 ^ 63) mod 2 ^ 64 - 2 ^ 63"
    using int_word_sint [of "uint v", where 'a = 64] by simp
  moreover have "(uint v + 2 ^ 63) mod 2 ^ 64 = (if uint v < 2 ^ 63 then uint v + 2 ^ 63 else uint v - 2 ^ 63)"
  proof (cases "uint v < 2 ^ 63")
    case False
    then have "(uint v + 2 ^ 63) mod 2 ^ 64 = (uint v + 2 ^ 63 - 2 ^ 64) mod 2 ^ 64" by (metis minus_mod_self2)
    then show ?thesis using False uint_lt2p [of v] by simp
  qed (use uint_ge_0 [of v] in simp)
  ultimately show ?thesis by simp
qed

lemma unat_neg:
  assumes "sint (v :: i64) < 0"
  shows "unat (- v) = nat (- sint v)"
proof -
  have s: "sint v = uint v - 2 ^ 64" and pos: "2 ^ 63 \<le> uint v"
    using assms sint_uint64 [of v] uint_ge_0 [of v] by (auto split: if_splits)
  have "uint (- v) = (- uint v) mod 2 ^ 64" by (simp add: uint_word_ariths)
  also have "\<dots> = 2 ^ 64 - uint v"
    using pos uint_lt2p [of v] by (simp add: zmod_zminus1_eq_if)
  finally have "nat (uint (- v)) = nat (- sint v)" using s by simp
  then show ?thesis by simp
qed

lemma unat_nonneg:
  assumes "0 \<le> sint (v :: i64)"
  shows "unat v = nat (sint v)"
proof -
  have "sint v = uint v"
    using assms sint_uint64 [of v] uint_lt2p [of v] by (auto split: if_splits)
  then show ?thesis by simp
qed

definition magnitude :: "i64 \<Rightarrow> u64" where
  "magnitude v = (if v <s 0 then - (v + 1) + 1 else v)"

lemma unat_magnitude: "unat (magnitude v) = nat \<bar>sint v\<bar>"
  using unat_neg [of v] unat_nonneg [of v] by (auto simp: magnitude_def word_sless_alt)

text \<open>The signed reading of a quotient: the result of \<open>convert_exact\<close> carries the sign of its input.\<close>

definition sign_result :: "bool \<Rightarrow> u64 \<Rightarrow> i64 option" where
  "sign_result negative quot =
     (if quot > 0x7FFFFFFFFFFFFFFF then
        (if \<not> (negative \<and> quot = 0x8000000000000000) then None else Some 0x8000000000000000)
      else Some (if negative then - quot else quot))"

lemma unat_uint_cases: obtains n where "unat (q :: u64) = n" "uint q = int n"
  by simp

lemma sint_range: "- (2 ^ 63) \<le> sint (w :: i64) \<and> sint w < 2 ^ 63"
proof -
  obtain n where "unat w = n" "uint w = int n" by (rule unat_uint_cases)
  then show ?thesis using unat64 [of w] by (simp add: sint_uint64)
qed

lemma sint_small: "unat (q :: i64) < 2 ^ 63 \<Longrightarrow> sint q = int (unat q)"
  by (rule unat_uint_cases [of q]) (simp add: sint_uint64)

lemma sint_neg_small:
  assumes "unat (q :: i64) \<le> 2 ^ 63"
  shows "sint (- q) = - int (unat q)"
proof (cases "q = 0")
  case False
  have "uint (- q) = (- uint q) mod 2 ^ 64" by (simp add: uint_word_ariths)
  also have "\<dots> = 2 ^ 64 - uint q"
  proof -
    have "0 < uint q" using False uint_0_iff [of q] uint_ge_0 [of q] by linarith
    then show ?thesis using uint_lt2p [of q] by (simp add: zmod_zminus1_eq_if)
  qed
  finally show ?thesis
    using assms sint_uint64 [of "- q"] by (rule_tac unat_uint_cases [of q]) simp
qed simp

lemma sign_result_iff:
  assumes "neg \<longrightarrow> q \<noteq> 0"
  shows "sign_result neg q = Some w \<longleftrightarrow>
    int (unat q) = \<bar>sint w\<bar> \<and> (if neg then sint w < 0 else 0 \<le> sint w)"
proof -
  have big: "q > 0x7FFFFFFFFFFFFFFF \<longleftrightarrow> 2 ^ 63 \<le> unat q"
    by (auto simp: word_less_nat_alt)
  have min: "sint (0x8000000000000000 :: i64) = - (2 ^ 63)" by (simp add: sint_uint64)
  have eqmin: "q = 0x8000000000000000 \<longleftrightarrow> unat q = 2 ^ 63" by (simp add: word_unat_eq_iff)
  have same: "x = w \<longleftrightarrow> sint x = sint w" for x by (metis signed_word_eqI)
  have q0: "neg \<Longrightarrow> 0 < unat q" using assms by (simp add: unat_gt_0)
  obtain n where n: "unat q = n" "uint q = int n" by (rule unat_uint_cases)
  show ?thesis
    using sint_range [of w] q0 sint_small [of q] sint_neg_small [of q]
    by (simp add: sign_result_def big eqmin same min n) linarith
qed

lemma convert_exact_eq:
  assumes "unit_is_well_formed from" "unit_is_well_formed to"
    "dimension_of (u_code from) = dimension_of (u_code to)"
    "factor_to_base from = Some ff" "factor_to_base to = Some ft"
  shows "convert_exact v from to =
    Option.bind (div_u128_exact (mul_u64 (magnitude v) ff) ft) (sign_result (v <s 0))"
  using assms
  by (auto simp: convert_exact_def magnitude_def sign_result_def Let_def split: option.splits)

lemma abs_quotient_iff:
  fixes v w a b :: int
  assumes "0 < a" "0 < b"
  shows "w * b = v * a \<longleftrightarrow> \<bar>w\<bar> * b = \<bar>v\<bar> * a \<and> (if v < 0 then w < 0 else 0 \<le> w)"
proof -
  have "w * b = v * a \<Longrightarrow> (v < 0 \<longleftrightarrow> w < 0)"
    using assms by (metis mult_less_0_iff not_less_iff_gr_or_eq)
  then show ?thesis by (cases "v < 0"; cases "w < 0") auto
qed

lemma convert_exact_spec:
  "convert_exact v from to = Some w \<longleftrightarrow>
     unit_is_well_formed from \<and> unit_is_well_formed to
   \<and> dimension_of (u_code from) = dimension_of (u_code to)
   \<and> sint w * int (unit_factor to) = sint v * int (unit_factor from)"
proof (cases "unit_is_well_formed from \<and> unit_is_well_formed to
    \<and> dimension_of (u_code from) = dimension_of (u_code to)")
  case True
  obtain ff where ff: "factor_to_base from = Some ff" "unat ff = unit_factor from" "0 < unit_factor from"
    using factor_to_base_total True by blast
  obtain ft where ft: "factor_to_base to = Some ft" "unat ft = unit_factor to" "0 < unit_factor to"
    using factor_to_base_total True by blast
  have ft0: "ft \<noteq> 0" using ft(2,3) by auto
  let ?q = "\<lambda>q :: u64. unat q * unit_factor to = nat \<bar>sint v\<bar> * unit_factor from"
  have "convert_exact v from to = Some w \<longleftrightarrow>
    (\<exists>q. ?q q \<and> sign_result (v <s 0) q = Some w)"
    using True ff ft ft0
    by (simp add: convert_exact_eq bind_eq_Some_conv div_u128_exact_iff U128_val_mul_u64 unat_magnitude)
  also have "\<dots> \<longleftrightarrow> (\<exists>q. ?q q \<and> int (unat q) = \<bar>sint w\<bar> \<and> (if sint v < 0 then sint w < 0 else 0 \<le> sint w))"
  proof (rule iff_exI, rule conj_cong [OF refl])
    fix q assume "?q q"
    then have "v <s 0 \<longrightarrow> q \<noteq> 0" using ff(3) by (auto simp: word_sless_alt)
    then show "sign_result (v <s 0) q = Some w \<longleftrightarrow>
        int (unat q) = \<bar>sint w\<bar> \<and> (if sint v < 0 then sint w < 0 else 0 \<le> sint w)"
      by (simp add: sign_result_iff word_sless_alt)
  qed
  also have "\<dots> \<longleftrightarrow> \<bar>sint w\<bar> * int (unit_factor to) = \<bar>sint v\<bar> * int (unit_factor from)
      \<and> (if sint v < 0 then sint w < 0 else 0 \<le> sint w)"
  proof -
    have "unat (magnitude w) = nat \<bar>sint w\<bar>" by (rule unat_magnitude)
    then have m: "int (unat (magnitude w)) = \<bar>sint w\<bar>" by simp
    have qiff: "?q q \<longleftrightarrow> int (unat q) * int (unit_factor to) = \<bar>sint v\<bar> * int (unit_factor from)" for q
    proof -
      have "int (nat \<bar>sint v\<bar>) = \<bar>sint v\<bar>" by simp
      then show ?thesis by (simp only: of_nat_eq_iff [symmetric, where 'a = int] of_nat_mult)
    qed
    show ?thesis
      unfolding qiff
    proof (intro iffI)
      assume "\<bar>sint w\<bar> * int (unit_factor to) = \<bar>sint v\<bar> * int (unit_factor from)
        \<and> (if sint v < 0 then sint w < 0 else 0 \<le> sint w)"
      then show "\<exists>q :: u64. int (unat q) * int (unit_factor to) = \<bar>sint v\<bar> * int (unit_factor from)
          \<and> int (unat q) = \<bar>sint w\<bar> \<and> (if sint v < 0 then sint w < 0 else 0 \<le> sint w)"
        by (intro exI [of _ "magnitude w"]) (simp only: m simp_thms, elim conjE, assumption)
    qed (elim exE conjE, simp only: simp_thms)
  qed
  also have "\<dots> \<longleftrightarrow> sint w * int (unit_factor to) = sint v * int (unit_factor from)"
    by (rule abs_quotient_iff [symmetric]) (use ff(3) ft(3) in simp_all)
  finally show ?thesis using True by simp
qed (auto simp: convert_exact_def)

text \<open>
  \<open>convert_exact\<close> converts exactly or refuses. It returns \<open>w\<close> if and only if both units are in the
  table with an admissible scale, have the same dimension, and \<open>w\<close> units of \<open>to\<close> are precisely \<open>v\<close>
  units of \<open>from\<close>: the signed products with the units' factors are equal over the integers. Nothing is
  rounded, no intermediate product or scale wraps, and every representable exact result is found,
  including the most negative one.
\<close>

theorem convert_exact_iff:
  "convert_exact v from to = Some w \<longleftrightarrow>
     unit_is_well_formed from \<and> unit_is_well_formed to
   \<and> dimension_of (u_code from) = dimension_of (u_code to)
   \<and> sint w * int (unit_factor to) = sint v * int (unit_factor from)"
  by (rule convert_exact_spec)

lemma spaceship_mult: "0 < (c :: int) \<Longrightarrow> spaceship (a * c) (b * c) = spaceship a b"
  by (simp add: spaceship_def)

lemma compare_exact_quantities:
  assumes "compare_exact a ua b ub = Some ord" "unit_is_well_formed ua"
  shows "ord = spaceship (sint a * int (unit_factor ua)) (sint b * int (unit_factor ub))
       \<and> unit_is_well_formed ub \<and> dimension_of (u_code ua) = dimension_of (u_code ub)"
proof -
  have pos: "unit_is_well_formed u \<Longrightarrow> 0 < int (unit_factor u)" for u
    using factor_to_base_total [of u] by auto
  consider (same) "ua = ub" "ord = compare_signed a b"
    | (left) w where "convert_exact a ua ub = Some w" "ord = compare_signed w b"
    | (right) w where "convert_exact b ub ua = Some w" "ord = compare_signed a w"
    using assms(1) by (auto simp: compare_exact_def split: if_splits option.splits)
  then show ?thesis
  proof cases
    case same
    then show ?thesis using assms(2) pos [of ua] by (simp add: compare_signed_def spaceship_mult)
  next
    case left
    then have "unit_is_well_formed ub" "dimension_of (u_code ua) = dimension_of (u_code ub)"
      "sint w * int (unit_factor ub) = sint a * int (unit_factor ua)"
      by (simp_all add: convert_exact_spec)
    then show ?thesis using left pos [of ub] by (metis compare_signed_def spaceship_mult)
  next
    case right
    then have "unit_is_well_formed ub" "dimension_of (u_code ub) = dimension_of (u_code ua)"
      "sint w * int (unit_factor ua) = sint b * int (unit_factor ub)"
      by (simp_all add: convert_exact_spec)
    then show ?thesis using right assms(2) pos [of ua] by (metis compare_signed_def spaceship_mult)
  qed
qed

text \<open>
  \<open>compare_exact\<close> orders two quantities exactly or refuses. When it answers and the two units are
  well formed (it does not look inside equal units), the answer is the order of the two quantities
  over the integers, each value times its unit's factor; it answers whenever the units are equal.
\<close>

theorem compare_exact_sound:
  assumes "compare_exact a ua b ub = Some ord" "unit_is_well_formed ua"
  shows "ord = spaceship (sint a * int (unit_factor ua)) (sint b * int (unit_factor ub))
       \<and> unit_is_well_formed ub \<and> dimension_of (u_code ua) = dimension_of (u_code ub)"
  using assms by (rule compare_exact_quantities)

theorem compare_exact_sound_witness:
  "compare_exact 2 (mk_unit UnitByte Binary 1) 16384 (unity UnitBit) = Some EQ
   \<and> unit_is_well_formed (mk_unit UnitByte Binary 1)
   \<and> EQ = spaceship (sint (2 :: i64) * int (unit_factor (mk_unit UnitByte Binary 1)))
                    (sint (16384 :: i64) * int (unit_factor (unity UnitBit)))"
proof -
  have a: "compare_exact 2 (mk_unit UnitByte Binary 1) 16384 (unity UnitBit) = Some EQ" by code_simp
  have b: "unit_is_well_formed (mk_unit UnitByte Binary 1)" by code_simp
  show ?thesis using compare_exact_sound [OF a b] a b by blast
qed

section \<open>Spellings round trip\<close>

text \<open>The well-formed units, enumerated.\<close>

definition all_units :: "Unit list" where
  "all_units = filter unit_is_well_formed
     (concat (map (\<lambda>i. concat (map (\<lambda>s. map (mk_unit (uci_code i) s) [0, 1, 2, 3, 4, 5, 6])
        [Unity, Decimal, Binary])) kUnitCodes))"

lemma exponent_cases: "(e :: u8) \<le> 6 \<Longrightarrow> e \<in> set [0, 1, 2, 3, 4, 5, 6]"
proof -
  assume "e \<le> 6"
  then have "unat e \<le> 6" by (simp add: word_le_nat_alt)
  then have "unat e = 0 \<or> unat e = 1 \<or> unat e = 2 \<or> unat e = 3 \<or> unat e = 4 \<or> unat e = 5 \<or> unat e = 6"
    by linarith
  then show ?thesis by (elim disjE) (simp_all add: word_unat_eq_iff)
qed

lemma product_mem:
  "i \<in> set is \<Longrightarrow> s \<in> set ss \<Longrightarrow> e \<in> set es \<Longrightarrow>
   f i s e \<in> set (concat (map (\<lambda>i. concat (map (\<lambda>s. map (f i s) es) ss)) is))"
  by auto

lemma all_units_iff: "u \<in> set all_units \<longleftrightarrow> unit_is_well_formed u"
proof
  assume wf: "unit_is_well_formed u"
  then obtain info where info: "find_code (u_code u) = Some info" and e: "u_exponent u \<le> 6"
    by (auto simp: unit_is_well_formed_def kMaxUnitExponent_def not_less split: option.splits if_splits)
  have info': "info \<in> set kUnitCodes" "u_code u = uci_code info" using find_code_mem [OF info] by simp_all
  have s: "u_scale u \<in> set [Unity, Decimal, Binary]" by (cases "u_scale u") simp_all
  have "u = mk_unit (uci_code info) (u_scale u) (u_exponent u)" using info'(2) by simp
  then show "u \<in> set all_units"
    using product_mem [where f = "\<lambda>i. mk_unit (uci_code i)", OF info'(1) s exponent_cases [OF e]] wf
    unfolding all_units_def set_filter by (simp only: mem_Collect_eq simp_thms)
qed (simp add: all_units_def)

lemma parse_all_units: "list_all (\<lambda>u. parse_unit (unit_to_string u) = Some u) all_units"
  by code_simp

text \<open>
  Every well-formed unit survives printing and parsing, and \<open>parse_unit\<close> accepts only well-formed
  units; so printing is injective on well-formed units.
\<close>

theorem parse_unit_roundtrip:
  "(unit_is_well_formed u \<longrightarrow> parse_unit (unit_to_string u) = Some u)
   \<and> (parse_unit t = Some u \<longrightarrow> unit_is_well_formed u)"
  using parse_all_units
  by (auto simp: list_all_iff all_units_iff parse_unit_def Let_def split: if_splits option.splits prod.splits)

theorem parse_unit_roundtrip_witness:
  "unit_is_well_formed (mk_unit UnitBit Binary 3) \<and> unit_to_string (mk_unit UnitBit Binary 3) = ''bit.bin3''
   \<and> parse_unit ''bit.bin3'' = Some (mk_unit UnitBit Binary 3)"
proof -
  have a: "unit_is_well_formed (mk_unit UnitBit Binary 3)" by code_simp
  have b: "unit_to_string (mk_unit UnitBit Binary 3) = ''bit.bin3''" by code_simp
  show ?thesis using parse_unit_roundtrip [of "mk_unit UnitBit Binary 3"] a b by simp
qed

end
