(* ===== verification/Catalog.thy ===== *)
theory Catalog
  imports Reason Units
begin

text \<open>
  The closed capability catalog: \<open>include/ocreg/catalog.hpp\<close> and \<open>src/catalog.cpp\<close>.

  \<open>CapabilityKind\<close> is a closed enumeration (every decoder goes through \<open>capability_kind_from_code\<close>),
  so it is a datatype; feature and limit codes are open 32-bit enums that are checked against the
  tables, so they are words. A \<open>FeatureSet\<close> is its vector \<open>codes_\<close>, a \<open>LimitSet\<close> its vector
  \<open>values_\<close>; \<open>std::binary_search\<close> is the bisection it is specified to be.

  The lemmas show that the tables are keyed (codes and spellings occur once), exactly which inputs
  \<open>make\<close> accepts and with which reason it refuses the others, that the search decides membership, and
  that the comparison operators are lexicographic orders.
\<close>

type_synonym FeatureCode = u32
type_synonym LimitCode = u32

datatype CapabilityKind =
    PacketClassification
  | ChecksumOffload
  | TlsRecordCrypto
  | IpsecEsp
  | RdmaTransport
  | OvsDatapath
  | ProgrammablePipeline
  | CompressionOffload
  | BulkCrypto
  | Timestamping
  | VirtualSwitch
  | StorageOffload
  | DmaEngine
  | FlowSteering

definition kind_code :: "CapabilityKind \<Rightarrow> u16" where
  "kind_code k = (case k of
       PacketClassification \<Rightarrow> 1
     | ChecksumOffload \<Rightarrow> 2
     | TlsRecordCrypto \<Rightarrow> 3
     | IpsecEsp \<Rightarrow> 4
     | RdmaTransport \<Rightarrow> 5
     | OvsDatapath \<Rightarrow> 6
     | ProgrammablePipeline \<Rightarrow> 7
     | CompressionOffload \<Rightarrow> 8
     | BulkCrypto \<Rightarrow> 9
     | Timestamping \<Rightarrow> 10
     | VirtualSwitch \<Rightarrow> 11
     | StorageOffload \<Rightarrow> 12
     | DmaEngine \<Rightarrow> 13
     | FlowSteering \<Rightarrow> 14)"

definition kMaxFeaturesPerRecord :: nat where "kMaxFeaturesPerRecord = 64"
definition kMaxLimitsPerRecord :: nat where "kMaxLimitsPerRecord = 64"

text \<open>The enumerators of \<open>FeatureCode\<close> and \<open>LimitCode\<close>.\<close>

abbreviation (input) ClassifyL2Ethertype :: FeatureCode where "ClassifyL2Ethertype \<equiv> 1"
abbreviation (input) ClassifyL3Ipv4 :: FeatureCode where "ClassifyL3Ipv4 \<equiv> 2"
abbreviation (input) ClassifyL3Ipv6 :: FeatureCode where "ClassifyL3Ipv6 \<equiv> 3"
abbreviation (input) ClassifyL4TcpUdp :: FeatureCode where "ClassifyL4TcpUdp \<equiv> 4"
abbreviation (input) ClassifyTunnelVxlan :: FeatureCode where "ClassifyTunnelVxlan \<equiv> 5"
abbreviation (input) ClassifyTunnelGeneve :: FeatureCode where "ClassifyTunnelGeneve \<equiv> 6"
abbreviation (input) ClassifyInnerHeader :: FeatureCode where "ClassifyInnerHeader \<equiv> 7"
abbreviation (input) ClassifyMpls :: FeatureCode where "ClassifyMpls \<equiv> 8"
abbreviation (input) ChecksumIpv4HeaderTx :: FeatureCode where "ChecksumIpv4HeaderTx \<equiv> 20"
abbreviation (input) ChecksumIpv4HeaderRx :: FeatureCode where "ChecksumIpv4HeaderRx \<equiv> 21"
abbreviation (input) ChecksumL4Tx :: FeatureCode where "ChecksumL4Tx \<equiv> 22"
abbreviation (input) ChecksumL4Rx :: FeatureCode where "ChecksumL4Rx \<equiv> 23"
abbreviation (input) ChecksumOuterL4 :: FeatureCode where "ChecksumOuterL4 \<equiv> 24"
abbreviation (input) ChecksumLargeReceiveOffload :: FeatureCode where "ChecksumLargeReceiveOffload \<equiv> 25"
abbreviation (input) ChecksumReceiveCoalescing :: FeatureCode where "ChecksumReceiveCoalescing \<equiv> 26"
abbreviation (input) Tls12 :: FeatureCode where "Tls12 \<equiv> 40"
abbreviation (input) Tls13 :: FeatureCode where "Tls13 \<equiv> 41"
abbreviation (input) TlsAesGcm128 :: FeatureCode where "TlsAesGcm128 \<equiv> 42"
abbreviation (input) TlsAesGcm256 :: FeatureCode where "TlsAesGcm256 \<equiv> 43"
abbreviation (input) TlsChacha20Poly1305 :: FeatureCode where "TlsChacha20Poly1305 \<equiv> 44"
abbreviation (input) TlsRecordAlignment :: FeatureCode where "TlsRecordAlignment \<equiv> 45"
abbreviation (input) TlsKeyUpdate :: FeatureCode where "TlsKeyUpdate \<equiv> 46"
abbreviation (input) IpsecEspTransport :: FeatureCode where "IpsecEspTransport \<equiv> 60"
abbreviation (input) IpsecEspTunnel :: FeatureCode where "IpsecEspTunnel \<equiv> 61"
abbreviation (input) IpsecAesGcm128 :: FeatureCode where "IpsecAesGcm128 \<equiv> 62"
abbreviation (input) IpsecAesGcm256 :: FeatureCode where "IpsecAesGcm256 \<equiv> 63"
abbreviation (input) IpsecAesCbcSha256 :: FeatureCode where "IpsecAesCbcSha256 \<equiv> 64"
abbreviation (input) IpsecAntiReplay :: FeatureCode where "IpsecAntiReplay \<equiv> 65"
abbreviation (input) IpsecNatTraversal :: FeatureCode where "IpsecNatTraversal \<equiv> 66"
abbreviation (input) RdmaRoceV1 :: FeatureCode where "RdmaRoceV1 \<equiv> 80"
abbreviation (input) RdmaRoceV2 :: FeatureCode where "RdmaRoceV2 \<equiv> 81"
abbreviation (input) RdmaIwrap :: FeatureCode where "RdmaIwrap \<equiv> 82"
abbreviation (input) RdmaReliableConnection :: FeatureCode where "RdmaReliableConnection \<equiv> 83"
abbreviation (input) RdmaUnreliableDatagram :: FeatureCode where "RdmaUnreliableDatagram \<equiv> 84"
abbreviation (input) RdmaAtomicOperations :: FeatureCode where "RdmaAtomicOperations \<equiv> 85"
abbreviation (input) RdmaMemoryWindows :: FeatureCode where "RdmaMemoryWindows \<equiv> 86"
abbreviation (input) RdmaScatterGather :: FeatureCode where "RdmaScatterGather \<equiv> 87"
abbreviation (input) OvsKernelDatapath :: FeatureCode where "OvsKernelDatapath \<equiv> 100"
abbreviation (input) OvsUserspaceDatapath :: FeatureCode where "OvsUserspaceDatapath \<equiv> 101"
abbreviation (input) OvsConntrack :: FeatureCode where "OvsConntrack \<equiv> 102"
abbreviation (input) OvsMeter :: FeatureCode where "OvsMeter \<equiv> 103"
abbreviation (input) OvsTunnelVxlan :: FeatureCode where "OvsTunnelVxlan \<equiv> 104"
abbreviation (input) OvsTunnelGeneve :: FeatureCode where "OvsTunnelGeneve \<equiv> 105"
abbreviation (input) OvsRecirculation :: FeatureCode where "OvsRecirculation \<equiv> 106"
abbreviation (input) PipelineP4_16 :: FeatureCode where "PipelineP4_16 \<equiv> 120"
abbreviation (input) PipelineP4_14 :: FeatureCode where "PipelineP4_14 \<equiv> 121"
abbreviation (input) PipelinePsaArchitecture :: FeatureCode where "PipelinePsaArchitecture \<equiv> 122"
abbreviation (input) PipelineV1ModelArchitecture :: FeatureCode where "PipelineV1ModelArchitecture \<equiv> 123"
abbreviation (input) PipelineParserState :: FeatureCode where "PipelineParserState \<equiv> 124"
abbreviation (input) PipelineRegisterArray :: FeatureCode where "PipelineRegisterArray \<equiv> 125"
abbreviation (input) PipelineMeterArray :: FeatureCode where "PipelineMeterArray \<equiv> 126"
abbreviation (input) PipelineDigestExport :: FeatureCode where "PipelineDigestExport \<equiv> 127"
abbreviation (input) PipelineExternFunction :: FeatureCode where "PipelineExternFunction \<equiv> 128"
abbreviation (input) CompressionDeflate :: FeatureCode where "CompressionDeflate \<equiv> 140"
abbreviation (input) CompressionLz4 :: FeatureCode where "CompressionLz4 \<equiv> 141"
abbreviation (input) CompressionZstd :: FeatureCode where "CompressionZstd \<equiv> 142"
abbreviation (input) CompressionSnappy :: FeatureCode where "CompressionSnappy \<equiv> 143"
abbreviation (input) CompressionStateless :: FeatureCode where "CompressionStateless \<equiv> 144"
abbreviation (input) CompressionStateful :: FeatureCode where "CompressionStateful \<equiv> 145"
abbreviation (input) CryptoAesCbc128 :: FeatureCode where "CryptoAesCbc128 \<equiv> 160"
abbreviation (input) CryptoAesCbc256 :: FeatureCode where "CryptoAesCbc256 \<equiv> 161"
abbreviation (input) CryptoAesXts256 :: FeatureCode where "CryptoAesXts256 \<equiv> 162"
abbreviation (input) CryptoAesGcm128 :: FeatureCode where "CryptoAesGcm128 \<equiv> 163"
abbreviation (input) CryptoAesGcm256 :: FeatureCode where "CryptoAesGcm256 \<equiv> 164"
abbreviation (input) CryptoSha1Hmac :: FeatureCode where "CryptoSha1Hmac \<equiv> 165"
abbreviation (input) CryptoSha256Hmac :: FeatureCode where "CryptoSha256Hmac \<equiv> 166"
abbreviation (input) CryptoChacha20Poly1305 :: FeatureCode where "CryptoChacha20Poly1305 \<equiv> 167"
abbreviation (input) CryptoKeyWrap :: FeatureCode where "CryptoKeyWrap \<equiv> 168"
abbreviation (input) TimestampPtpV2 :: FeatureCode where "TimestampPtpV2 \<equiv> 180"
abbreviation (input) TimestampHardwareTx :: FeatureCode where "TimestampHardwareTx \<equiv> 181"
abbreviation (input) TimestampHardwareRx :: FeatureCode where "TimestampHardwareRx \<equiv> 182"
abbreviation (input) TimestampOneStep :: FeatureCode where "TimestampOneStep \<equiv> 183"
abbreviation (input) TimestampTwoStep :: FeatureCode where "TimestampTwoStep \<equiv> 184"
abbreviation (input) TimestampPhc :: FeatureCode where "TimestampPhc \<equiv> 185"
abbreviation (input) VirtualSwitchSriovVf :: FeatureCode where "VirtualSwitchSriovVf \<equiv> 200"
abbreviation (input) VirtualSwitchVirtioNet :: FeatureCode where "VirtualSwitchVirtioNet \<equiv> 201"
abbreviation (input) VirtualSwitchVdpa :: FeatureCode where "VirtualSwitchVdpa \<equiv> 202"
abbreviation (input) VirtualSwitchMacLearning :: FeatureCode where "VirtualSwitchMacLearning \<equiv> 203"
abbreviation (input) VirtualSwitchVlanTagging :: FeatureCode where "VirtualSwitchVlanTagging \<equiv> 204"
abbreviation (input) VirtualSwitchPortMirroring :: FeatureCode where "VirtualSwitchPortMirroring \<equiv> 205"
abbreviation (input) VirtualSwitchLagBonding :: FeatureCode where "VirtualSwitchLagBonding \<equiv> 206"
abbreviation (input) StorageNvmeTcp :: FeatureCode where "StorageNvmeTcp \<equiv> 220"
abbreviation (input) StorageNvmeRdma :: FeatureCode where "StorageNvmeRdma \<equiv> 221"
abbreviation (input) StorageIscsi :: FeatureCode where "StorageIscsi \<equiv> 222"
abbreviation (input) StorageT10Dif :: FeatureCode where "StorageT10Dif \<equiv> 223"
abbreviation (input) StorageErasureCoding :: FeatureCode where "StorageErasureCoding \<equiv> 224"
abbreviation (input) StorageReplication :: FeatureCode where "StorageReplication \<equiv> 225"
abbreviation (input) DmaDescriptorRing :: FeatureCode where "DmaDescriptorRing \<equiv> 240"
abbreviation (input) DmaScatterGather :: FeatureCode where "DmaScatterGather \<equiv> 241"
abbreviation (input) DmaInterruptCoalescing :: FeatureCode where "DmaInterruptCoalescing \<equiv> 242"
abbreviation (input) DmaAtomicTransfer :: FeatureCode where "DmaAtomicTransfer \<equiv> 243"
abbreviation (input) FlowSteeringRss :: FeatureCode where "FlowSteeringRss \<equiv> 260"
abbreviation (input) FlowSteeringRssHashIpv4 :: FeatureCode where "FlowSteeringRssHashIpv4 \<equiv> 261"
abbreviation (input) FlowSteeringRssHashIpv6 :: FeatureCode where "FlowSteeringRssHashIpv6 \<equiv> 262"
abbreviation (input) FlowSteeringFlowDirector :: FeatureCode where "FlowSteeringFlowDirector \<equiv> 263"
abbreviation (input) FlowSteeringTcFlower :: FeatureCode where "FlowSteeringTcFlower \<equiv> 264"
abbreviation (input) FlowSteeringActionMark :: FeatureCode where "FlowSteeringActionMark \<equiv> 265"
abbreviation (input) FlowSteeringActionMirror :: FeatureCode where "FlowSteeringActionMirror \<equiv> 266"
abbreviation (input) FlowSteeringActionDrop :: FeatureCode where "FlowSteeringActionDrop \<equiv> 267"

abbreviation (input) ClassifierEntries :: LimitCode where "ClassifierEntries \<equiv> 1"
abbreviation (input) ClassifierEntriesIpv6 :: LimitCode where "ClassifierEntriesIpv6 \<equiv> 2"
abbreviation (input) AclRules :: LimitCode where "AclRules \<equiv> 3"
abbreviation (input) FlowTableEntries :: LimitCode where "FlowTableEntries \<equiv> 4"
abbreviation (input) MeterCount :: LimitCode where "MeterCount \<equiv> 5"
abbreviation (input) RegisterCells :: LimitCode where "RegisterCells \<equiv> 6"
abbreviation (input) ParserStates :: LimitCode where "ParserStates \<equiv> 7"
abbreviation (input) ParserDepth :: LimitCode where "ParserDepth \<equiv> 8"
abbreviation (input) Bandwidth :: LimitCode where "Bandwidth \<equiv> 9"
abbreviation (input) PacketRate :: LimitCode where "PacketRate \<equiv> 10"
abbreviation (input) ConntrackEntries :: LimitCode where "ConntrackEntries \<equiv> 11"
abbreviation (input) TlsSessions :: LimitCode where "TlsSessions \<equiv> 12"
abbreviation (input) IpsecSecurityAssociations :: LimitCode where "IpsecSecurityAssociations \<equiv> 13"
abbreviation (input) RdmaQueuePairs :: LimitCode where "RdmaQueuePairs \<equiv> 14"
abbreviation (input) RdmaCompletionQueues :: LimitCode where "RdmaCompletionQueues \<equiv> 15"
abbreviation (input) RdmaMemoryRegionBytes :: LimitCode where "RdmaMemoryRegionBytes \<equiv> 16"
abbreviation (input) DmaChannels :: LimitCode where "DmaChannels \<equiv> 17"
abbreviation (input) DmaDescriptorDepth :: LimitCode where "DmaDescriptorDepth \<equiv> 18"
abbreviation (input) MaximumTransmissionUnit :: LimitCode where "MaximumTransmissionUnit \<equiv> 19"
abbreviation (input) MaximumRecordSize :: LimitCode where "MaximumRecordSize \<equiv> 20"
abbreviation (input) CryptoThroughput :: LimitCode where "CryptoThroughput \<equiv> 21"
abbreviation (input) CompressionThroughput :: LimitCode where "CompressionThroughput \<equiv> 22"
abbreviation (input) CompressionRatio :: LimitCode where "CompressionRatio \<equiv> 23"
abbreviation (input) Latency :: LimitCode where "Latency \<equiv> 24"
abbreviation (input) Jitter :: LimitCode where "Jitter \<equiv> 25"
abbreviation (input) PhcClockAccuracy :: LimitCode where "PhcClockAccuracy \<equiv> 26"
abbreviation (input) TimestampResolution :: LimitCode where "TimestampResolution \<equiv> 27"
abbreviation (input) VirtualFunctions :: LimitCode where "VirtualFunctions \<equiv> 28"
abbreviation (input) QueueCount :: LimitCode where "QueueCount \<equiv> 29"
abbreviation (input) ReceiveQueues :: LimitCode where "ReceiveQueues \<equiv> 30"
abbreviation (input) TransmitQueues :: LimitCode where "TransmitQueues \<equiv> 31"
abbreviation (input) StorageIops :: LimitCode where "StorageIops \<equiv> 32"
abbreviation (input) StorageThroughput :: LimitCode where "StorageThroughput \<equiv> 33"
abbreviation (input) NvmeQueueDepth :: LimitCode where "NvmeQueueDepth \<equiv> 34"
abbreviation (input) ErasureCodeFragments :: LimitCode where "ErasureCodeFragments \<equiv> 35"
abbreviation (input) SharedMemoryBytes :: LimitCode where "SharedMemoryBytes \<equiv> 36"
abbreviation (input) FirmwareImageBytes :: LimitCode where "FirmwareImageBytes \<equiv> 37"

record FeatureInfo =
  fi_code :: FeatureCode
  fi_name :: string
  fi_kind_mask :: u16

record LimitInfo =
  li_code :: LimitCode
  li_name :: string
  li_kind_mask :: u16
  li_unit :: UnitCode
  li_decimal_scale_permitted :: bool
  li_binary_scale_permitted :: bool

abbreviation (input) fi :: "FeatureCode \<Rightarrow> string \<Rightarrow> u16 \<Rightarrow> FeatureInfo" where
  "fi c n m \<equiv> \<lparr>fi_code = c, fi_name = n, fi_kind_mask = m\<rparr>"

abbreviation (input) li :: "LimitCode \<Rightarrow> string \<Rightarrow> u16 \<Rightarrow> UnitCode \<Rightarrow> bool \<Rightarrow> bool \<Rightarrow> LimitInfo" where
  "li c n m u d b \<equiv> \<lparr>li_code = c, li_name = n, li_kind_mask = m, li_unit = u,
     li_decimal_scale_permitted = d, li_binary_scale_permitted = b\<rparr>"

definition kind_bit :: "CapabilityKind \<Rightarrow> u16" where
  "kind_bit k = push_bit (unat (kind_code k - 1)) 1"

text \<open>The kind masks of the tables.\<close>

abbreviation (input) kPC :: u16 where "kPC \<equiv> kind_bit PacketClassification"
abbreviation (input) kCO :: u16 where "kCO \<equiv> kind_bit ChecksumOffload"
abbreviation (input) kTLS :: u16 where "kTLS \<equiv> kind_bit TlsRecordCrypto"
abbreviation (input) kIPSEC :: u16 where "kIPSEC \<equiv> kind_bit IpsecEsp"
abbreviation (input) kRDMA :: u16 where "kRDMA \<equiv> kind_bit RdmaTransport"
abbreviation (input) kOVS :: u16 where "kOVS \<equiv> kind_bit OvsDatapath"
abbreviation (input) kPP :: u16 where "kPP \<equiv> kind_bit ProgrammablePipeline"
abbreviation (input) kCOMP :: u16 where "kCOMP \<equiv> kind_bit CompressionOffload"
abbreviation (input) kCRYPTO :: u16 where "kCRYPTO \<equiv> kind_bit BulkCrypto"
abbreviation (input) kTS :: u16 where "kTS \<equiv> kind_bit Timestamping"
abbreviation (input) kVS :: u16 where "kVS \<equiv> kind_bit VirtualSwitch"
abbreviation (input) kSTOR :: u16 where "kSTOR \<equiv> kind_bit StorageOffload"
abbreviation (input) kDMA :: u16 where "kDMA \<equiv> kind_bit DmaEngine"
abbreviation (input) kFS :: u16 where "kFS \<equiv> kind_bit FlowSteering"
abbreviation (input) kAllKinds :: u16 where
  "kAllKinds \<equiv> kPC OR kCO OR kTLS OR kIPSEC OR kRDMA OR kOVS OR kPP OR kCOMP OR kCRYPTO OR kTS
     OR kVS OR kSTOR OR kDMA OR kFS"

definition kKinds :: "CapabilityKind list" where
  "kKinds = [PacketClassification, ChecksumOffload, TlsRecordCrypto, IpsecEsp, RdmaTransport, OvsDatapath, ProgrammablePipeline, CompressionOffload, BulkCrypto, Timestamping, VirtualSwitch, StorageOffload, DmaEngine, FlowSteering]"

text \<open>
  \<open>kFeatures\<close> is declared with 101 elements and has 99 initialisers, so its last two entries are value
  initialised: code 0, empty name, no kinds.
\<close>

definition kFeatures :: "FeatureInfo list" where
  "kFeatures = [
     fi ClassifyL2Ethertype ''classify_l2_ethertype'' kPC,
     fi ClassifyL3Ipv4 ''classify_l3_ipv4'' kPC,
     fi ClassifyL3Ipv6 ''classify_l3_ipv6'' kPC,
     fi ClassifyL4TcpUdp ''classify_l4_tcp_udp'' kPC,
     fi ClassifyTunnelVxlan ''classify_tunnel_vxlan'' kPC,
     fi ClassifyTunnelGeneve ''classify_tunnel_geneve'' kPC,
     fi ClassifyInnerHeader ''classify_inner_header'' kPC,
     fi ClassifyMpls ''classify_mpls'' kPC,
     fi ChecksumIpv4HeaderTx ''checksum_ipv4_header_tx'' kCO,
     fi ChecksumIpv4HeaderRx ''checksum_ipv4_header_rx'' kCO,
     fi ChecksumL4Tx ''checksum_l4_tx'' kCO,
     fi ChecksumL4Rx ''checksum_l4_rx'' kCO,
     fi ChecksumOuterL4 ''checksum_outer_l4'' kCO,
     fi ChecksumLargeReceiveOffload ''checksum_large_receive_offload'' kCO,
     fi ChecksumReceiveCoalescing ''checksum_receive_coalescing'' kCO,
     fi Tls12 ''tls_1_2'' kTLS,
     fi Tls13 ''tls_1_3'' kTLS,
     fi TlsAesGcm128 ''tls_aes_gcm_128'' kTLS,
     fi TlsAesGcm256 ''tls_aes_gcm_256'' kTLS,
     fi TlsChacha20Poly1305 ''tls_chacha20_poly1305'' kTLS,
     fi TlsRecordAlignment ''tls_record_alignment'' kTLS,
     fi TlsKeyUpdate ''tls_key_update'' kTLS,
     fi IpsecEspTransport ''ipsec_esp_transport'' kIPSEC,
     fi IpsecEspTunnel ''ipsec_esp_tunnel'' kIPSEC,
     fi IpsecAesGcm128 ''ipsec_aes_gcm_128'' kIPSEC,
     fi IpsecAesGcm256 ''ipsec_aes_gcm_256'' kIPSEC,
     fi IpsecAesCbcSha256 ''ipsec_aes_cbc_sha256'' kIPSEC,
     fi IpsecAntiReplay ''ipsec_anti_replay'' kIPSEC,
     fi IpsecNatTraversal ''ipsec_nat_traversal'' kIPSEC,
     fi RdmaRoceV1 ''rdma_roce_v1'' kRDMA,
     fi RdmaRoceV2 ''rdma_roce_v2'' kRDMA,
     fi RdmaIwrap ''rdma_iwarp'' kRDMA,
     fi RdmaReliableConnection ''rdma_reliable_connection'' kRDMA,
     fi RdmaUnreliableDatagram ''rdma_unreliable_datagram'' kRDMA,
     fi RdmaAtomicOperations ''rdma_atomic_operations'' kRDMA,
     fi RdmaMemoryWindows ''rdma_memory_windows'' kRDMA,
     fi RdmaScatterGather ''rdma_scatter_gather'' kRDMA,
     fi OvsKernelDatapath ''ovs_kernel_datapath'' kOVS,
     fi OvsUserspaceDatapath ''ovs_userspace_datapath'' kOVS,
     fi OvsConntrack ''ovs_conntrack'' kOVS,
     fi OvsMeter ''ovs_meter'' kOVS,
     fi OvsTunnelVxlan ''ovs_tunnel_vxlan'' kOVS,
     fi OvsTunnelGeneve ''ovs_tunnel_geneve'' kOVS,
     fi OvsRecirculation ''ovs_recirculation'' kOVS,
     fi PipelineP4_16 ''pipeline_p4_16'' kPP,
     fi PipelineP4_14 ''pipeline_p4_14'' kPP,
     fi PipelinePsaArchitecture ''pipeline_psa_architecture'' kPP,
     fi PipelineV1ModelArchitecture ''pipeline_v1model_architecture'' kPP,
     fi PipelineParserState ''pipeline_parser_state'' kPP,
     fi PipelineRegisterArray ''pipeline_register_array'' kPP,
     fi PipelineMeterArray ''pipeline_meter_array'' kPP,
     fi PipelineDigestExport ''pipeline_digest_export'' kPP,
     fi PipelineExternFunction ''pipeline_extern_function'' kPP,
     fi CompressionDeflate ''compression_deflate'' kCOMP,
     fi CompressionLz4 ''compression_lz4'' kCOMP,
     fi CompressionZstd ''compression_zstd'' kCOMP,
     fi CompressionSnappy ''compression_snappy'' kCOMP,
     fi CompressionStateless ''compression_stateless'' kCOMP,
     fi CompressionStateful ''compression_stateful'' kCOMP,
     fi CryptoAesCbc128 ''crypto_aes_cbc_128'' kCRYPTO,
     fi CryptoAesCbc256 ''crypto_aes_cbc_256'' kCRYPTO,
     fi CryptoAesXts256 ''crypto_aes_xts_256'' kCRYPTO,
     fi CryptoAesGcm128 ''crypto_aes_gcm_128'' kCRYPTO,
     fi CryptoAesGcm256 ''crypto_aes_gcm_256'' kCRYPTO,
     fi CryptoSha1Hmac ''crypto_sha1_hmac'' kCRYPTO,
     fi CryptoSha256Hmac ''crypto_sha256_hmac'' kCRYPTO,
     fi CryptoChacha20Poly1305 ''crypto_chacha20_poly1305'' kCRYPTO,
     fi CryptoKeyWrap ''crypto_key_wrap'' kCRYPTO,
     fi TimestampPtpV2 ''timestamp_ptp_v2'' kTS,
     fi TimestampHardwareTx ''timestamp_hardware_tx'' kTS,
     fi TimestampHardwareRx ''timestamp_hardware_rx'' kTS,
     fi TimestampOneStep ''timestamp_one_step'' kTS,
     fi TimestampTwoStep ''timestamp_two_step'' kTS,
     fi TimestampPhc ''timestamp_phc'' kTS,
     fi VirtualSwitchSriovVf ''virtual_switch_sriov_vf'' kVS,
     fi VirtualSwitchVirtioNet ''virtual_switch_virtio_net'' kVS,
     fi VirtualSwitchVdpa ''virtual_switch_vdpa'' kVS,
     fi VirtualSwitchMacLearning ''virtual_switch_mac_learning'' kVS,
     fi VirtualSwitchVlanTagging ''virtual_switch_vlan_tagging'' kVS,
     fi VirtualSwitchPortMirroring ''virtual_switch_port_mirroring'' kVS,
     fi VirtualSwitchLagBonding ''virtual_switch_lag_bonding'' kVS,
     fi StorageNvmeTcp ''storage_nvme_tcp'' kSTOR,
     fi StorageNvmeRdma ''storage_nvme_rdma'' kSTOR,
     fi StorageIscsi ''storage_iscsi'' kSTOR,
     fi StorageT10Dif ''storage_t10_dif'' kSTOR,
     fi StorageErasureCoding ''storage_erasure_coding'' kSTOR,
     fi StorageReplication ''storage_replication'' kSTOR,
     fi DmaDescriptorRing ''dma_descriptor_ring'' kDMA,
     fi DmaScatterGather ''dma_scatter_gather'' kDMA,
     fi DmaInterruptCoalescing ''dma_interrupt_coalescing'' kDMA,
     fi DmaAtomicTransfer ''dma_atomic_transfer'' kDMA,
     fi FlowSteeringRss ''flow_steering_rss'' kFS,
     fi FlowSteeringRssHashIpv4 ''flow_steering_rss_hash_ipv4'' kFS,
     fi FlowSteeringRssHashIpv6 ''flow_steering_rss_hash_ipv6'' kFS,
     fi FlowSteeringFlowDirector ''flow_steering_flow_director'' kFS,
     fi FlowSteeringTcFlower ''flow_steering_tc_flower'' kFS,
     fi FlowSteeringActionMark ''flow_steering_action_mark'' kFS,
     fi FlowSteeringActionMirror ''flow_steering_action_mirror'' kFS,
     fi FlowSteeringActionDrop ''flow_steering_action_drop'' kFS,
     fi 0 '''' 0, fi 0 '''' 0]"

definition kLimits :: "LimitInfo list" where
  "kLimits = [
     li ClassifierEntries ''classifier_entries'' (kPC OR kFS OR kOVS) UnitCount False False,
     li ClassifierEntriesIpv6 ''classifier_entries_ipv6'' (kPC OR kFS OR kOVS) UnitCount False False,
     li AclRules ''acl_rules'' (kPC OR kFS OR kOVS) UnitCount False False,
     li FlowTableEntries ''flow_table_entries'' (kOVS OR kFS OR kPP) UnitCount False False,
     li MeterCount ''meter_count'' (kOVS OR kPP OR kFS) UnitCount False False,
     li RegisterCells ''register_cells'' kPP UnitCount False False,
     li ParserStates ''parser_states'' kPP UnitCount False False,
     li ParserDepth ''parser_depth'' kPP UnitCount False False,
     li Bandwidth ''bandwidth'' (kPC OR kCO OR kTLS OR kIPSEC OR kRDMA OR kOVS OR kVS OR kFS OR kDMA OR kCRYPTO OR kCOMP OR kSTOR) UnitBitPerSecond True True,
     li PacketRate ''packet_rate'' (kPC OR kCO OR kOVS OR kFS OR kVS) UnitPacketPerSecond True True,
     li ConntrackEntries ''conntrack_entries'' (kOVS OR kVS OR kFS) UnitCount False False,
     li TlsSessions ''tls_sessions'' kTLS UnitCount False False,
     li IpsecSecurityAssociations ''ipsec_security_associations'' kIPSEC UnitCount False False,
     li RdmaQueuePairs ''rdma_queue_pairs'' kRDMA UnitCount False False,
     li RdmaCompletionQueues ''rdma_completion_queues'' kRDMA UnitCount False False,
     li RdmaMemoryRegionBytes ''rdma_memory_region_bytes'' kRDMA UnitByte True True,
     li DmaChannels ''dma_channels'' kDMA UnitCount False False,
     li DmaDescriptorDepth ''dma_descriptor_depth'' kDMA UnitCount False False,
     li MaximumTransmissionUnit ''maximum_transmission_unit'' (kPC OR kCO OR kTLS OR kIPSEC OR kOVS OR kVS OR kFS) UnitByte False False,
     li MaximumRecordSize ''maximum_record_size'' kTLS UnitByte True True,
     li CryptoThroughput ''crypto_throughput'' (kCRYPTO OR kIPSEC OR kTLS) UnitBytePerSecond True True,
     li CompressionThroughput ''compression_throughput'' kCOMP UnitBytePerSecond True True,
     li CompressionRatio ''compression_ratio'' kCOMP UnitPercent False False,
     li Latency ''latency'' kAllKinds UnitNanoSecond True False,
     li Jitter ''jitter'' kAllKinds UnitNanoSecond True False,
     li PhcClockAccuracy ''phc_clock_accuracy'' kTS UnitNanoSecond True False,
     li TimestampResolution ''timestamp_resolution'' kTS UnitNanoSecond True False,
     li VirtualFunctions ''virtual_functions'' (kVS OR kPC OR kFS) UnitCount False False,
     li QueueCount ''queue_count'' (kRDMA OR kVS OR kCO OR kDMA) UnitCount False False,
     li ReceiveQueues ''receive_queues'' (kCO OR kVS OR kFS OR kRDMA) UnitCount False False,
     li TransmitQueues ''transmit_queues'' (kCO OR kVS OR kFS OR kRDMA) UnitCount False False,
     li StorageIops ''storage_iops'' kSTOR UnitOperationPerSecond True False,
     li StorageThroughput ''storage_throughput'' kSTOR UnitBytePerSecond True True,
     li NvmeQueueDepth ''nvme_queue_depth'' kSTOR UnitCount False False,
     li ErasureCodeFragments ''erasure_code_fragments'' kSTOR UnitCount False False,
     li SharedMemoryBytes ''shared_memory_bytes'' (kRDMA OR kDMA OR kPP OR kVS) UnitByte True True,
     li FirmwareImageBytes ''firmware_image_bytes'' kAllKinds UnitByte True True]"

section \<open>Lookups\<close>

definition CapabilityKind_to_string :: "CapabilityKind \<Rightarrow> string" where
  "CapabilityKind_to_string k = (case k of
       PacketClassification \<Rightarrow> ''packet_classification''
     | ChecksumOffload \<Rightarrow> ''checksum_offload''
     | TlsRecordCrypto \<Rightarrow> ''tls_record_crypto''
     | IpsecEsp \<Rightarrow> ''ipsec_esp''
     | RdmaTransport \<Rightarrow> ''rdma_transport''
     | OvsDatapath \<Rightarrow> ''ovs_datapath''
     | ProgrammablePipeline \<Rightarrow> ''programmable_pipeline''
     | CompressionOffload \<Rightarrow> ''compression_offload''
     | BulkCrypto \<Rightarrow> ''bulk_crypto''
     | Timestamping \<Rightarrow> ''timestamping''
     | VirtualSwitch \<Rightarrow> ''virtual_switch''
     | StorageOffload \<Rightarrow> ''storage_offload''
     | DmaEngine \<Rightarrow> ''dma_engine''
     | FlowSteering \<Rightarrow> ''flow_steering'')"

definition feature_info :: "FeatureCode \<Rightarrow> FeatureInfo option" where
  "feature_info c = find (\<lambda>i. fi_code i = c) kFeatures"

definition limit_info :: "LimitCode \<Rightarrow> LimitInfo option" where
  "limit_info c = find (\<lambda>i. li_code i = c) kLimits"

definition FeatureCode_to_string :: "FeatureCode \<Rightarrow> string" where
  "FeatureCode_to_string c = (case feature_info c of None \<Rightarrow> ''unknown'' | Some i \<Rightarrow> fi_name i)"

definition LimitCode_to_string :: "LimitCode \<Rightarrow> string" where
  "LimitCode_to_string c = (case limit_info c of None \<Rightarrow> ''unknown'' | Some i \<Rightarrow> li_name i)"

definition parse_capability_kind :: "string \<Rightarrow> CapabilityKind option" where
  "parse_capability_kind t = find (\<lambda>k. CapabilityKind_to_string k = t) kKinds"

definition parse_feature_code :: "string \<Rightarrow> FeatureCode option" where
  "parse_feature_code t = map_option fi_code (find (\<lambda>i. fi_name i = t) kFeatures)"

definition parse_limit_code :: "string \<Rightarrow> LimitCode option" where
  "parse_limit_code t = map_option li_code (find (\<lambda>i. li_name i = t) kLimits)"

definition capability_kind_from_code :: "u16 \<Rightarrow> CapabilityKind option" where
  "capability_kind_from_code raw = find (\<lambda>k. kind_code k = raw) kKinds"

definition feature_from_code :: "u32 \<Rightarrow> FeatureCode option" where
  "feature_from_code raw = map_option fi_code (find (\<lambda>i. fi_code i = raw) kFeatures)"

definition limit_from_code :: "u32 \<Rightarrow> LimitCode option" where
  "limit_from_code raw = map_option li_code (find (\<lambda>i. li_code i = raw) kLimits)"

definition feature_allowed_for :: "FeatureCode \<Rightarrow> CapabilityKind \<Rightarrow> bool" where
  "feature_allowed_for c k =
     (case feature_info c of None \<Rightarrow> False | Some i \<Rightarrow> fi_kind_mask i AND kind_bit k \<noteq> 0)"

definition limit_allowed_for :: "LimitCode \<Rightarrow> CapabilityKind \<Rightarrow> bool" where
  "limit_allowed_for c k =
     (case limit_info c of None \<Rightarrow> False | Some i \<Rightarrow> li_kind_mask i AND kind_bit k \<noteq> 0)"

definition canonical_unit_for :: "LimitCode \<Rightarrow> Unit option" where
  "canonical_unit_for c = (case limit_info c of None \<Rightarrow> None | Some i \<Rightarrow> Some (unity (li_unit i)))"

definition unit_valid_for_limit :: "LimitCode \<Rightarrow> Unit \<Rightarrow> bool" where
  "unit_valid_for_limit c u =
     (case limit_info c of None \<Rightarrow> False
      | Some i \<Rightarrow>
          if u_code u \<noteq> li_unit i then False
          else if \<not> unit_is_well_formed u then False
          else (case u_scale u of
                  Unity \<Rightarrow> u_exponent u = 0
                | Decimal \<Rightarrow> li_decimal_scale_permitted i
                | Binary \<Rightarrow> li_binary_scale_permitted i))"

section \<open>Feature sets\<close>

type_synonym FeatureSet = "FeatureCode list"

text \<open>The validation loop over the sorted codes; \<open>prev\<close> is the preceding element, if any.\<close>

fun feature_scan :: "CapabilityKind \<Rightarrow> FeatureCode option \<Rightarrow> FeatureCode list \<Rightarrow> ReasonCode option" where
  "feature_scan kind prev [] = None"
| "feature_scan kind prev (c # cs) =
     (if prev = Some c then Some RejectedDuplicateKey
      else if \<not> feature_allowed_for c kind then
        Some (if feature_info c = None then RejectedUnknownFeatureCode else RejectedFeatureNotInKind)
      else feature_scan kind (Some c) cs)"

definition FeatureSet_make :: "FeatureCode list \<Rightarrow> CapabilityKind \<Rightarrow> ReasonCode + FeatureSet" where
  "FeatureSet_make codes kind =
     (if length codes > kMaxFeaturesPerRecord then Inl RejectedFeatureBudgetExceeded
      else (let sorted = sort codes in
        case feature_scan kind None sorted of Some r \<Rightarrow> Inl r | None \<Rightarrow> Inr sorted))"

definition FeatureSet_from_validated :: "FeatureCode list \<Rightarrow> FeatureSet" where
  "FeatureSet_from_validated codes = remdups_adj (sort codes)"

text \<open>\<open>std::lower_bound\<close> as the bisection over \<open>[first, first + len)\<close>.\<close>

function lower_bound_loop :: "'a::linorder list \<Rightarrow> 'a \<Rightarrow> nat \<Rightarrow> nat \<Rightarrow> nat" where
  "lower_bound_loop xs x first len =
     (if len = 0 then first
      else (let half = len div 2; middle = first + half in
        if xs ! middle < x then lower_bound_loop xs x (middle + 1) (len - half - 1)
        else lower_bound_loop xs x first half))"
  by pat_completeness auto
termination
  by (relation "measure (\<lambda>(xs, x, first, len). len)") (auto simp: Let_def)

declare lower_bound_loop.simps [simp del]

definition binary_search :: "'a::linorder list \<Rightarrow> 'a \<Rightarrow> bool" where
  "binary_search xs x =
     (let i = lower_bound_loop xs x 0 (length xs) in i \<noteq> length xs \<and> \<not> x < xs ! i)"

definition FeatureSet_contains :: "FeatureSet \<Rightarrow> FeatureCode \<Rightarrow> bool" where
  "FeatureSet_contains s c = binary_search s c"

definition FeatureSet_contains_all :: "FeatureSet \<Rightarrow> FeatureSet \<Rightarrow> bool" where
  "FeatureSet_contains_all s required = list_all (FeatureSet_contains s) required"

fun FeatureSet_compare :: "FeatureSet \<Rightarrow> FeatureSet \<Rightarrow> strong_ordering" where
  "FeatureSet_compare (x # a) (y # b) =
     (if x \<noteq> y then (if x < y then LT else GT) else FeatureSet_compare a b)"
| "FeatureSet_compare a b = spaceship (length a) (length b)"

section \<open>Limit sets\<close>

record LimitValue =
  lv_code :: LimitCode
  lv_unit :: Unit
  lv_value :: i64

abbreviation mk_limit :: "LimitCode \<Rightarrow> Unit \<Rightarrow> i64 \<Rightarrow> LimitValue" where
  "mk_limit c u v \<equiv> \<lparr>lv_code = c, lv_unit = u, lv_value = v\<rparr>"

type_synonym LimitSet = "LimitValue list"

fun limit_scan :: "CapabilityKind \<Rightarrow> LimitCode option \<Rightarrow> LimitValue list \<Rightarrow> ReasonCode option" where
  "limit_scan kind prev [] = None"
| "limit_scan kind prev (v # vs) =
     (if prev = Some (lv_code v) then Some RejectedDuplicateKey
      else (case limit_info (lv_code v) of
        None \<Rightarrow> Some RejectedUnknownLimitCode
      | Some info \<Rightarrow>
          if \<not> limit_allowed_for (lv_code v) kind then Some RejectedLimitNotInKind
          else if lv_value v <s 0 then Some RejectedNegativeLimit
          else if u_code (lv_unit v) \<noteq> li_unit info then Some RejectedLimitUnitInvalid
          else if \<not> unit_is_well_formed (lv_unit v) then Some RejectedLimitUnitScaleInvalid
          else if \<not> unit_valid_for_limit (lv_code v) (lv_unit v) then Some RejectedLimitScaleNotPermitted
          else limit_scan kind (Some (lv_code v)) vs))"

definition LimitSet_make :: "LimitValue list \<Rightarrow> CapabilityKind \<Rightarrow> ReasonCode + LimitSet" where
  "LimitSet_make values kind =
     (if length values > kMaxLimitsPerRecord then Inl RejectedLimitBudgetExceeded
      else (let sorted = sort_key lv_code values in
        case limit_scan kind None sorted of Some r \<Rightarrow> Inl r | None \<Rightarrow> Inr sorted))"

text \<open>\<open>std::unique\<close> with equality of codes keeps the first of each run.\<close>

fun unique_by :: "('a \<Rightarrow> 'k) \<Rightarrow> 'a list \<Rightarrow> 'a list" where
  "unique_by f (x # y # xs) = (if f x = f y then unique_by f (x # xs) else x # unique_by f (y # xs))"
| "unique_by f xs = xs"

definition LimitSet_from_validated :: "LimitValue list \<Rightarrow> LimitSet" where
  "LimitSet_from_validated values = unique_by lv_code (sort_key lv_code values)"

definition LimitSet_find :: "LimitSet \<Rightarrow> LimitCode \<Rightarrow> LimitValue option" where
  "LimitSet_find s c = find (\<lambda>v. lv_code v = c) s"

definition UnitScale_code :: "UnitScale \<Rightarrow> u8" where
  "UnitScale_code s = (case s of Unity \<Rightarrow> 0 | Decimal \<Rightarrow> 1 | Binary \<Rightarrow> 2)"

definition Unit_compare :: "Unit \<Rightarrow> Unit \<Rightarrow> strong_ordering" where
  "Unit_compare a b =
     (if u_code a \<noteq> u_code b then (if u_code a < u_code b then LT else GT)
      else if u_scale a \<noteq> u_scale b then
        (if UnitScale_code (u_scale a) < UnitScale_code (u_scale b) then LT else GT)
      else spaceship (u_exponent a) (u_exponent b))"

fun LimitSet_compare :: "LimitSet \<Rightarrow> LimitSet \<Rightarrow> strong_ordering" where
  "LimitSet_compare (x # a) (y # b) =
     (if lv_code x \<noteq> lv_code y then (if lv_code x < lv_code y then LT else GT)
      else if lv_unit x \<noteq> lv_unit y then
        (if Unit_compare (lv_unit x) (lv_unit y) = LT then LT else GT)
      else if lv_value x \<noteq> lv_value y then
        (if lv_value x <s lv_value y then LT else GT)
      else LimitSet_compare a b)"
| "LimitSet_compare a b = spaceship (length a) (length b)"

section \<open>The tables are keyed\<close>

lemma kKinds_UNIV: "set kKinds = UNIV"
proof -
  have "k \<in> set kKinds" for k by (cases k) (simp_all add: kKinds_def)
  then show ?thesis by blast
qed

lemma capability_kind_from_code_kind_code [simp]: "capability_kind_from_code (kind_code k) = Some k"
  by (cases k) (simp_all add: capability_kind_from_code_def kKinds_def kind_code_def)

lemma kind_code_inj [simp]: "kind_code a = kind_code b \<longleftrightarrow> a = b"
  by (metis capability_kind_from_code_kind_code option.inject)

lemma capability_kind_from_code_iff: "capability_kind_from_code raw = Some k \<longleftrightarrow> kind_code k = raw"
proof
  assume "capability_kind_from_code raw = Some k"
  then show "kind_code k = raw"
    unfolding capability_kind_from_code_def by (drule_tac find_Some_iff) simp
qed auto

lemma parse_capability_kind_iff: "parse_capability_kind t = Some k \<longleftrightarrow> CapabilityKind_to_string k = t"
proof
  assume "parse_capability_kind t = Some k"
  then show "CapabilityKind_to_string k = t"
    unfolding parse_capability_kind_def by (drule_tac find_Some_iff) simp
next
  have "parse_capability_kind (CapabilityKind_to_string k) = Some k" by (cases k; hypsubst; code_simp)
  then show "CapabilityKind_to_string k = t \<Longrightarrow> parse_capability_kind t = Some k" by blast
qed

lemma kFeatures_split: "kFeatures = take 99 kFeatures @ [fi 0 '''' 0, fi 0 '''' 0]"
  by code_simp

lemma kFeatures_codes_distinct: "distinct (map fi_code (take 100 kFeatures))"
proof -
  have "successively (<) (rotate 99 (map fi_code (take 100 kFeatures)))" by code_simp
  then have "distinct (rotate 99 (map fi_code (take 100 kFeatures)))"
    by (simp add: successively_conv_sorted_wrt strict_sorted_iff)
  then show ?thesis by simp
qed

lemma kFeatures_names: "map fi_name (take 100 kFeatures) = [
     ''classify_l2_ethertype'', ''classify_l3_ipv4'', ''classify_l3_ipv6'',
     ''classify_l4_tcp_udp'', ''classify_tunnel_vxlan'', ''classify_tunnel_geneve'',
     ''classify_inner_header'', ''classify_mpls'', ''checksum_ipv4_header_tx'',
     ''checksum_ipv4_header_rx'', ''checksum_l4_tx'', ''checksum_l4_rx'',
     ''checksum_outer_l4'', ''checksum_large_receive_offload'',
     ''checksum_receive_coalescing'', ''tls_1_2'', ''tls_1_3'', ''tls_aes_gcm_128'',
     ''tls_aes_gcm_256'', ''tls_chacha20_poly1305'', ''tls_record_alignment'',
     ''tls_key_update'', ''ipsec_esp_transport'', ''ipsec_esp_tunnel'', ''ipsec_aes_gcm_128'',
     ''ipsec_aes_gcm_256'', ''ipsec_aes_cbc_sha256'', ''ipsec_anti_replay'',
     ''ipsec_nat_traversal'', ''rdma_roce_v1'', ''rdma_roce_v2'', ''rdma_iwarp'',
     ''rdma_reliable_connection'', ''rdma_unreliable_datagram'', ''rdma_atomic_operations'',
     ''rdma_memory_windows'', ''rdma_scatter_gather'', ''ovs_kernel_datapath'',
     ''ovs_userspace_datapath'', ''ovs_conntrack'', ''ovs_meter'', ''ovs_tunnel_vxlan'',
     ''ovs_tunnel_geneve'', ''ovs_recirculation'', ''pipeline_p4_16'', ''pipeline_p4_14'',
     ''pipeline_psa_architecture'', ''pipeline_v1model_architecture'',
     ''pipeline_parser_state'', ''pipeline_register_array'', ''pipeline_meter_array'',
     ''pipeline_digest_export'', ''pipeline_extern_function'', ''compression_deflate'',
     ''compression_lz4'', ''compression_zstd'', ''compression_snappy'',
     ''compression_stateless'', ''compression_stateful'', ''crypto_aes_cbc_128'',
     ''crypto_aes_cbc_256'', ''crypto_aes_xts_256'', ''crypto_aes_gcm_128'',
     ''crypto_aes_gcm_256'', ''crypto_sha1_hmac'', ''crypto_sha256_hmac'',
     ''crypto_chacha20_poly1305'', ''crypto_key_wrap'', ''timestamp_ptp_v2'',
     ''timestamp_hardware_tx'', ''timestamp_hardware_rx'', ''timestamp_one_step'',
     ''timestamp_two_step'', ''timestamp_phc'', ''virtual_switch_sriov_vf'',
     ''virtual_switch_virtio_net'', ''virtual_switch_vdpa'', ''virtual_switch_mac_learning'',
     ''virtual_switch_vlan_tagging'', ''virtual_switch_port_mirroring'',
     ''virtual_switch_lag_bonding'', ''storage_nvme_tcp'', ''storage_nvme_rdma'',
     ''storage_iscsi'', ''storage_t10_dif'', ''storage_erasure_coding'',
     ''storage_replication'', ''dma_descriptor_ring'', ''dma_scatter_gather'',
     ''dma_interrupt_coalescing'', ''dma_atomic_transfer'', ''flow_steering_rss'',
     ''flow_steering_rss_hash_ipv4'', ''flow_steering_rss_hash_ipv6'',
     ''flow_steering_flow_director'', ''flow_steering_tc_flower'',
     ''flow_steering_action_mark'', ''flow_steering_action_mirror'',
     ''flow_steering_action_drop'', '''']"
  by (simp add: kFeatures_def)

lemma kFeatures_names_distinct: "distinct (map fi_name (take 100 kFeatures))"
  unfolding kFeatures_names
  by (rule distinct_by_permutation [where p = "[99, 9, 8, 11, 10, 13, 12, 14, 6, 0, 1, 2, 3, 7, 5, 4, 53, 54, 56, 58, 57, 55, 59, 60, 62, 63, 61, 66, 67, 64, 65, 90, 87, 89, 88, 98, 96, 97, 94, 91, 92, 93, 95, 26, 24, 25, 27, 22, 23, 28, 39, 37, 40, 43, 42, 41, 38, 51, 52, 50, 45, 44, 48, 46, 49, 47, 34, 31, 35, 32, 29, 30, 36, 33, 85, 83, 82, 81, 86, 84, 70, 69, 71, 73, 68, 72, 15, 16, 17, 18, 19, 21, 20, 80, 77, 79, 74, 76, 75, 78]"]) simp_all

lemma kLimits_codes_distinct: "distinct (map li_code kLimits)"
proof -
  have "successively (<) (map li_code kLimits)" by code_simp
  then show ?thesis by (simp add: successively_conv_sorted_wrt strict_sorted_iff)
qed

lemma kLimits_names: "map li_name kLimits = [
     ''classifier_entries'', ''classifier_entries_ipv6'', ''acl_rules'',
     ''flow_table_entries'', ''meter_count'', ''register_cells'', ''parser_states'',
     ''parser_depth'', ''bandwidth'', ''packet_rate'', ''conntrack_entries'', ''tls_sessions'',
     ''ipsec_security_associations'', ''rdma_queue_pairs'', ''rdma_completion_queues'',
     ''rdma_memory_region_bytes'', ''dma_channels'', ''dma_descriptor_depth'',
     ''maximum_transmission_unit'', ''maximum_record_size'', ''crypto_throughput'',
     ''compression_throughput'', ''compression_ratio'', ''latency'', ''jitter'',
     ''phc_clock_accuracy'', ''timestamp_resolution'', ''virtual_functions'', ''queue_count'',
     ''receive_queues'', ''transmit_queues'', ''storage_iops'', ''storage_throughput'',
     ''nvme_queue_depth'', ''erasure_code_fragments'', ''shared_memory_bytes'',
     ''firmware_image_bytes'']"
  by (simp add: kLimits_def)

lemma kLimits_names_distinct: "distinct (map li_name kLimits)"
  unfolding kLimits_names
  by (rule distinct_by_permutation [where p = "[2, 8, 0, 1, 22, 21, 10, 20, 16, 17, 34, 36, 3, 12, 24, 23, 19, 18, 4, 33, 9, 7, 6, 25, 28, 14, 15, 13, 29, 5, 35, 31, 32, 26, 11, 30, 27]"]) simp_all

lemma kFeatures_len: "length kFeatures = 101"
  by (simp add: kFeatures_def)

lemma find_kFeatures: "find P kFeatures = find P (take 100 kFeatures)"
proof -
  have "take 100 kFeatures = take 99 kFeatures @ [fi 0 '''' 0]"
    by (subst (1) kFeatures_split) (simp add: kFeatures_len)
  moreover have "find P (xs @ [x, x]) = find P (xs @ [x])" for xs and x :: FeatureInfo
    by (induction xs) auto
  ultimately show ?thesis by (metis kFeatures_split)
qed

lemma set_kFeatures: "set kFeatures = set (take 100 kFeatures)"
proof -
  have "set (xs @ [x, x]) = set (xs @ [x])" for xs and x :: FeatureInfo by simp
  moreover have "take 100 kFeatures = take 99 kFeatures @ [fi 0 '''' 0]"
    by (subst (1) kFeatures_split) (simp add: kFeatures_len)
  ultimately show ?thesis by (metis kFeatures_split)
qed

lemma feature_info_iff: "feature_info c = Some i \<longleftrightarrow> i \<in> set kFeatures \<and> fi_code i = c"
  unfolding feature_info_def find_kFeatures set_kFeatures by (rule find_key_iff [OF kFeatures_codes_distinct])

lemma limit_info_iff: "limit_info c = Some i \<longleftrightarrow> i \<in> set kLimits \<and> li_code i = c"
  unfolding limit_info_def by (rule find_key_iff [OF kLimits_codes_distinct])

lemma parse_feature_code_spec:
  "parse_feature_code t = Some c \<longleftrightarrow> (\<exists>i. feature_info c = Some i \<and> fi_name i = t)"
proof -
  have "parse_feature_code t = Some c \<longleftrightarrow> (\<exists>i. find (\<lambda>i. fi_name i = t) (take 100 kFeatures) = Some i \<and> fi_code i = c)"
    by (simp add: parse_feature_code_def find_kFeatures)
  then show ?thesis
    unfolding find_key_iff [OF kFeatures_names_distinct] feature_info_iff set_kFeatures by blast
qed

lemma parse_limit_code_spec:
  "parse_limit_code t = Some c \<longleftrightarrow> (\<exists>i. limit_info c = Some i \<and> li_name i = t)"
  unfolding parse_limit_code_def limit_info_iff map_option_eq_Some find_key_iff [OF kLimits_names_distinct]
  by blast

text \<open>
  The three catalog enumerations and their spellings correspond one to one: a text parses to a
  kind, a feature or a limit exactly when it is the canonical spelling of that (listed) code, so
  parsing inverts printing and no two codes share a spelling.
\<close>

theorem catalog_spellings_iff:
  "(parse_capability_kind t = Some k \<longleftrightarrow> t = CapabilityKind_to_string k)
   \<and> (parse_feature_code t = Some c \<longleftrightarrow> feature_info c \<noteq> None \<and> t = FeatureCode_to_string c)
   \<and> (parse_limit_code t = Some l \<longleftrightarrow> limit_info l \<noteq> None \<and> t = LimitCode_to_string l)"
  by (auto simp: parse_capability_kind_iff parse_feature_code_spec parse_limit_code_spec
        FeatureCode_to_string_def LimitCode_to_string_def)

lemma feature_from_code_iff: "feature_from_code raw = Some c \<longleftrightarrow> c = raw \<and> feature_info c \<noteq> None"
  by (auto simp: feature_from_code_def feature_info_iff feature_info_def [symmetric])

lemma limit_from_code_iff: "limit_from_code raw = Some c \<longleftrightarrow> c = raw \<and> limit_info c \<noteq> None"
  by (auto simp: limit_from_code_def limit_info_iff limit_info_def [symmetric])

text \<open>
  The reserved feature code 0 is a member of the table. The array has two more elements than
  initialisers, so the empty text parses to feature 0, the raw code 0 is accepted as a feature, and a
  set containing it is refused as a feature of the wrong kind instead of as an unknown feature.
\<close>

theorem reserved_feature_zero_listed:
  "parse_feature_code [] = Some 0 \<and> feature_from_code 0 = Some 0
   \<and> FeatureSet_make [0] kind = Inl RejectedFeatureNotInKind"
proof -
  have i: "feature_info 0 = Some (fi 0 [] 0)" by code_simp
  then show ?thesis
    by (auto simp: parse_feature_code_spec feature_from_code_iff FeatureSet_make_def
          kMaxFeaturesPerRecord_def feature_allowed_for_def)
qed

section \<open>Membership by bisection\<close>

lemma lower_bound_loop_invariant:
  assumes "sorted xs" "first + len \<le> length xs"
    "\<forall>i < first. xs ! i < x" "\<forall>i. first + len \<le> i \<and> i < length xs \<longrightarrow> x \<le> xs ! i"
  shows "lower_bound_loop xs x first len \<le> length xs
    \<and> (\<forall>i < lower_bound_loop xs x first len. xs ! i < x)
    \<and> (\<forall>i. lower_bound_loop xs x first len \<le> i \<and> i < length xs \<longrightarrow> x \<le> xs ! i)"
  using assms
proof (induction xs x first len rule: lower_bound_loop.induct)
  case (1 xs x first len)
  show ?case
  proof (cases "len = 0")
    case True
    then show ?thesis using "1.prems" by (subst (1 2 3) lower_bound_loop.simps) simp
  next
    case False
    define m where "m = first + len div 2"
    have m: "m < length xs" "first \<le> m" "m < first + len" using False "1.prems"(2) by (auto simp: m_def)
    show ?thesis
    proof (cases "xs ! m < x")
      case True
      have "\<forall>i < m + 1. xs ! i < x"
        using True m "1.prems"(1) by (metis Suc_eq_plus1 leI less_Suc_eq_le order.strict_trans1 sorted_nth_mono)
      moreover have "m + 1 + (len - len div 2 - 1) = first + len" using False by (simp add: m_def)
      moreover have "lower_bound_loop xs x first len = lower_bound_loop xs x (m + 1) (len - len div 2 - 1)"
        using False True by (subst lower_bound_loop.simps) (simp add: m_def Let_def)
      ultimately show ?thesis
        using "1.IH"(1) [OF False refl refl] "1.prems" True by (simp add: m_def)
    next
      case ge: False
      have "\<forall>i. m \<le> i \<and> i < length xs \<longrightarrow> x \<le> xs ! i"
        using ge m "1.prems"(1) by (metis leI order.trans sorted_nth_mono)
      moreover have "lower_bound_loop xs x first len = lower_bound_loop xs x first (len div 2)"
        using False ge by (subst lower_bound_loop.simps) (simp add: m_def Let_def)
      ultimately show ?thesis
        using "1.IH"(2) [OF False refl refl] "1.prems" ge m by (simp add: m_def)
    qed
  qed
qed

lemma binary_search_iff:
  assumes "sorted xs"
  shows "binary_search xs x \<longleftrightarrow> x \<in> set xs"
proof -
  define i where "i = lower_bound_loop xs x 0 (length xs)"
  have i: "i \<le> length xs" "\<forall>j < i. xs ! j < x" "\<forall>j. i \<le> j \<and> j < length xs \<longrightarrow> x \<le> xs ! j"
    unfolding i_def using lower_bound_loop_invariant [OF assms, of 0 "length xs" x]
    by (metis add_0 le_refl leD not_less0)+
  have "x \<in> set xs \<Longrightarrow> i \<noteq> length xs \<and> \<not> x < xs ! i"
  proof -
    assume "x \<in> set xs"
    then obtain j where j: "j < length xs" "xs ! j = x" by (meson in_set_conv_nth)
    then have "i \<le> j" using i(2) by (metis leI less_irrefl)
    then show ?thesis using assms i(1) j by (metis leD order.strict_trans1 sorted_nth_mono)
  qed
  moreover have "i \<noteq> length xs \<and> \<not> x < xs ! i \<Longrightarrow> x \<in> set xs"
  proof -
    assume h: "i \<noteq> length xs \<and> \<not> x < xs ! i"
    then have "i < length xs" using i(1) by simp
    moreover have "xs ! i = x" using h i(3) calculation by (simp add: order.antisym)
    ultimately show ?thesis by auto
  qed
  ultimately show ?thesis unfolding binary_search_def Let_def i_def [symmetric] by blast
qed

section \<open>What \<open>make\<close> accepts\<close>

lemma sort_strict_distinct: "sorted_wrt (<) (sort xs) \<longleftrightarrow> distinct xs"
  by (simp add: strict_sorted_iff)

lemma feature_scan_None:
  assumes "sorted cs" "\<forall>p. prev = Some p \<longrightarrow> (\<forall>c \<in> set cs. p \<le> c)"
  shows "feature_scan kind prev cs = None \<longleftrightarrow>
    distinct cs \<and> (\<forall>c \<in> set cs. feature_allowed_for c kind \<and> prev \<noteq> Some c)"
  using assms
proof (induction kind prev cs rule: feature_scan.induct)
  case (2 kind prev c cs)
  have "feature_scan kind (Some c) cs = None \<longleftrightarrow> distinct cs \<and> (\<forall>d \<in> set cs. feature_allowed_for d kind \<and> Some c \<noteq> Some d)"
    if "prev \<noteq> Some c" "feature_allowed_for c kind"
    using "2.IH" [OF that(1)] that "2.prems" by simp
  moreover have "d \<noteq> c \<Longrightarrow> d \<in> set cs \<Longrightarrow> prev \<noteq> Some d" for d
    using "2.prems" by fastforce
  ultimately show ?case using "2.prems" by auto
qed simp

definition FeatureSet_wf :: "CapabilityKind \<Rightarrow> FeatureSet \<Rightarrow> bool" where
  "FeatureSet_wf kind s = (sorted_wrt (<) s \<and> length s \<le> kMaxFeaturesPerRecord
     \<and> list_all (\<lambda>c. feature_allowed_for c kind) s)"

lemma FeatureSet_make_spec:
  "FeatureSet_make codes kind = Inr s \<longleftrightarrow>
     length codes \<le> kMaxFeaturesPerRecord \<and> distinct codes
   \<and> (\<forall>c \<in> set codes. feature_allowed_for c kind) \<and> s = sort codes"
  using feature_scan_None [of "sort codes" None kind]
  by (auto simp: FeatureSet_make_def Let_def split: option.splits)

lemma FeatureSet_make_wf: "FeatureSet_make codes kind = Inr s \<Longrightarrow> FeatureSet_wf kind s \<and> set s = set codes"
  by (auto simp: FeatureSet_make_spec FeatureSet_wf_def list_all_iff sort_strict_distinct)

lemma FeatureSet_make_wf_id: "FeatureSet_wf kind s \<Longrightarrow> FeatureSet_make s kind = Inr s"
  by (auto simp: FeatureSet_make_spec FeatureSet_wf_def list_all_iff strict_sorted_iff sorted_sort_id)

lemma FeatureSet_contains_iff: "sorted s \<Longrightarrow> FeatureSet_contains s c \<longleftrightarrow> c \<in> set s"
  by (simp add: FeatureSet_contains_def binary_search_iff)

lemma FeatureSet_contains_all_iff: "sorted s \<Longrightarrow> FeatureSet_contains_all s r \<longleftrightarrow> set r \<subseteq> set s"
  by (auto simp: FeatureSet_contains_all_def FeatureSet_contains_iff list_all_iff)

text \<open>
  \<open>FeatureSet::make\<close> accepts exactly the duplicate-free lists of at most 64 features that the table
  allows for the kind, and yields them sorted; on the set it builds, the binary search decides
  membership and \<open>contains_all\<close> decides inclusion.
\<close>

theorem FeatureSet_make_contains:
  "(FeatureSet_make codes kind = Inr s \<longleftrightarrow>
      length codes \<le> kMaxFeaturesPerRecord \<and> distinct codes
    \<and> (\<forall>c \<in> set codes. feature_allowed_for c kind) \<and> s = sort codes)
   \<and> (FeatureSet_make codes kind = Inr s \<longrightarrow>
        (FeatureSet_contains s c \<longleftrightarrow> c \<in> set codes)
      \<and> (FeatureSet_contains_all s required \<longleftrightarrow> set required \<subseteq> set codes))"
  by (auto simp: FeatureSet_make_spec FeatureSet_contains_iff FeatureSet_contains_all_iff)

theorem FeatureSet_make_contains_witness:
  "FeatureSet_make [Tls13, Tls12] TlsRecordCrypto = Inr [Tls12, Tls13]
   \<and> FeatureSet_contains [Tls12, Tls13] Tls13 \<and> FeatureSet_contains_all [Tls12, Tls13] [Tls13]"
proof -
  have a: "FeatureSet_make [Tls13, Tls12] TlsRecordCrypto = Inr [Tls12, Tls13]" by code_simp
  show ?thesis
    using FeatureSet_make_contains [of "[Tls13, Tls12]" TlsRecordCrypto "[Tls12, Tls13]" Tls13 "[Tls13]"] a
    by simp
qed

lemma FeatureSet_compare_spaceship: "FeatureSet_compare a b = spaceship a b"
proof (induction a b rule: FeatureSet_compare.induct, goal_cases)
  case (1 x a y b)
  then show ?case by (auto simp: spaceship_Cons spaceship_def)
next
  case (2 b)
  show ?case by (cases b) (simp_all add: spaceship_def)
next
  case (3 a)
  show ?case by (cases a) (simp_all add: spaceship_def)
qed

text \<open>The admissibility of one limit, as the scan checks it.\<close>

definition limit_ok :: "CapabilityKind \<Rightarrow> LimitValue \<Rightarrow> bool" where
  "limit_ok kind v = (limit_allowed_for (lv_code v) kind \<and> 0 \<le> sint (lv_value v)
     \<and> unit_valid_for_limit (lv_code v) (lv_unit v))"

lemma limit_scan_Cons:
  "limit_scan kind prev (v # vs) = None \<longleftrightarrow>
     prev \<noteq> Some (lv_code v) \<and> limit_ok kind v \<and> limit_scan kind (Some (lv_code v)) vs = None"
  by (auto simp: limit_ok_def limit_allowed_for_def unit_valid_for_limit_def word_sless_alt
        split: option.splits)

lemma limit_scan_None:
  assumes "sorted (map lv_code vs)" "\<forall>p. prev = Some p \<longrightarrow> (\<forall>v \<in> set vs. p \<le> lv_code v)"
  shows "limit_scan kind prev vs = None \<longleftrightarrow>
    distinct (map lv_code vs) \<and> (\<forall>v \<in> set vs. limit_ok kind v \<and> prev \<noteq> Some (lv_code v))"
  using assms
proof (induction vs arbitrary: prev)
  case (Cons v vs)
  have ih: "limit_scan kind (Some (lv_code v)) vs = None \<longleftrightarrow>
      distinct (map lv_code vs) \<and> (\<forall>w \<in> set vs. limit_ok kind w \<and> Some (lv_code v) \<noteq> Some (lv_code w))"
    using Cons.prems by (intro Cons.IH) auto
  have "lv_code d \<noteq> lv_code v \<Longrightarrow> d \<in> set vs \<Longrightarrow> prev \<noteq> Some (lv_code d)" for d
    using Cons.prems by fastforce
  then show ?case
    unfolding limit_scan_Cons ih by auto
qed simp

definition LimitSet_wf :: "CapabilityKind \<Rightarrow> LimitSet \<Rightarrow> bool" where
  "LimitSet_wf kind s = (sorted_wrt (<) (map lv_code s) \<and> length s \<le> kMaxLimitsPerRecord
     \<and> list_all (limit_ok kind) s)"

lemma LimitSet_make_spec:
  "LimitSet_make values kind = Inr s \<longleftrightarrow>
     length values \<le> kMaxLimitsPerRecord \<and> distinct (map lv_code values)
   \<and> (\<forall>v \<in> set values. limit_ok kind v) \<and> s = sort_key lv_code values"
proof -
  have "mset (map lv_code (sort_key lv_code values)) = mset (map lv_code values)" by simp
  then have "distinct (map lv_code (sort_key lv_code values)) = distinct (map lv_code values)"
    by (rule mset_eq_imp_distinct_iff)
  then show ?thesis
    using limit_scan_None [of "sort_key lv_code values" None kind]
    by (auto simp: LimitSet_make_def Let_def split: option.splits)
qed

lemma LimitSet_make_wf:
  assumes "LimitSet_make values kind = Inr s"
  shows "LimitSet_wf kind s \<and> set s = set values"
proof -
  have "mset (map lv_code (sort_key lv_code values)) = mset (map lv_code values)" by simp
  then have "distinct (map lv_code (sort_key lv_code values)) = distinct (map lv_code values)"
    by (rule mset_eq_imp_distinct_iff)
  then show ?thesis
    using assms by (auto simp: LimitSet_make_spec LimitSet_wf_def list_all_iff strict_sorted_iff)
qed

lemma LimitSet_find_iff:
  "distinct (map lv_code s) \<Longrightarrow> LimitSet_find s c = Some v \<longleftrightarrow> v \<in> set s \<and> lv_code v = c"
  unfolding LimitSet_find_def by (rule find_key_iff)

text \<open>A limit that passes has a unit with an exact factor, in the dimension of the limit's unit.\<close>

lemma limit_ok_unit:
  assumes "limit_ok kind v"
  shows "unit_is_well_formed (lv_unit v)
    \<and> (\<exists>u. canonical_unit_for (lv_code v) = Some u \<and> dimension_of (u_code u) = dimension_of (u_code (lv_unit v)))"
  using assms
  by (auto simp: limit_ok_def unit_valid_for_limit_def canonical_unit_for_def unity_def
        split: option.splits if_splits)

text \<open>
  \<open>LimitSet::make\<close> accepts exactly the lists of at most 64 limits with pairwise distinct codes in
  which every limit is allowed for the kind, is not negative and carries an admissible unit; the set it
  builds is sorted by code, \<open>find\<close> returns precisely the value asserted for a code, and every unit in it
  is well formed, so that two values of the same limit are always comparable exactly.
\<close>

theorem LimitSet_make_find:
  "(LimitSet_make values kind = Inr s \<longleftrightarrow>
      length values \<le> kMaxLimitsPerRecord \<and> distinct (map lv_code values)
    \<and> (\<forall>v \<in> set values. limit_ok kind v) \<and> s = sort_key lv_code values)
   \<and> (LimitSet_make values kind = Inr s \<longrightarrow>
        (LimitSet_find s c = Some v \<longleftrightarrow> v \<in> set values \<and> lv_code v = c)
      \<and> (v \<in> set values \<longrightarrow> unit_is_well_formed (lv_unit v)))"
proof -
  have "LimitSet_make values kind = Inr s \<Longrightarrow>
      (LimitSet_find s c = Some v \<longleftrightarrow> v \<in> set values \<and> lv_code v = c)
    \<and> (v \<in> set values \<longrightarrow> unit_is_well_formed (lv_unit v))"
    using LimitSet_make_wf [of "values" kind s]
    by (auto simp: LimitSet_wf_def strict_sorted_iff LimitSet_find_iff list_all_iff dest: limit_ok_unit)
  then show ?thesis by (simp add: LimitSet_make_spec)
qed

theorem LimitSet_make_find_witness:
  "LimitSet_make [mk_limit TlsSessions (unity UnitCount) 7] TlsRecordCrypto
     = Inr [mk_limit TlsSessions (unity UnitCount) 7]
   \<and> LimitSet_find [mk_limit TlsSessions (unity UnitCount) 7] TlsSessions
     = Some (mk_limit TlsSessions (unity UnitCount) 7)"
proof -
  have a: "LimitSet_make [mk_limit TlsSessions (unity UnitCount) 7] TlsRecordCrypto
     = Inr [mk_limit TlsSessions (unity UnitCount) 7]" by code_simp
  show ?thesis
    using LimitSet_make_find [of "[mk_limit TlsSessions (unity UnitCount) 7]" TlsRecordCrypto
        "[mk_limit TlsSessions (unity UnitCount) 7]" TlsSessions "mk_limit TlsSessions (unity UnitCount) 7"] a
    by simp
qed

section \<open>The comparison operators are lexicographic\<close>

definition Unit_key :: "Unit \<Rightarrow> u16 \<times> u8 \<times> u8" where
  "Unit_key u = (u_code u, UnitScale_code (u_scale u), u_exponent u)"

definition LimitValue_key :: "LimitValue \<Rightarrow> u32 \<times> (u16 \<times> u8 \<times> u8) \<times> int" where
  "LimitValue_key v = (lv_code v, Unit_key (lv_unit v), sint (lv_value v))"

lemma UnitScale_code_inj [simp]: "UnitScale_code a = UnitScale_code b \<longleftrightarrow> a = b"
  by (cases a; cases b) (simp_all add: UnitScale_code_def)

lemma Unit_key_inj [simp]: "Unit_key a = Unit_key b \<longleftrightarrow> a = b"
  by (cases a; cases b) (auto simp: Unit_key_def)

lemma LimitValue_key_inj [simp]: "LimitValue_key a = LimitValue_key b \<longleftrightarrow> a = b"
  by (cases a; cases b) (auto simp: LimitValue_key_def intro: signed_word_eqI)

lemma Unit_compare_spaceship: "Unit_compare a b = spaceship (Unit_key a) (Unit_key b)"
  by (auto simp: Unit_compare_def Unit_key_def spaceship_Pair spaceship_def)

lemma LimitSet_compare_spaceship:
  "LimitSet_compare a b = spaceship (map LimitValue_key a) (map LimitValue_key b)"
proof (induction a b rule: LimitSet_compare.induct, goal_cases)
  case (1 x a y b)
  have sint: "sint (lv_value x) = sint (lv_value y) \<longleftrightarrow> lv_value x = lv_value y"
    by (metis signed_word_eqI)
  show ?case
    using 1
    by (auto simp: spaceship_Cons LimitValue_key_def spaceship_Pair Unit_compare_spaceship sint
          word_sless_alt) (auto simp: spaceship_def sint)
next
  case (2 b)
  show ?case by (cases b) (simp_all add: spaceship_def)
next
  case (3 a)
  show ?case by (cases a) (simp_all add: spaceship_def)
qed

end
