(* ===== verification/Hash.thy ===== *)
theory Hash
  imports Catalog
begin

text \<open>
  Digests and checksums: \<open>include/ocreg/hash.hpp\<close> and \<open>src/hash.cpp\<close>.

  The streaming \<open>Sha256\<close> object is a record with the fields of the class (the 64-byte buffer with
  whatever stale bytes it holds, the fill count, the wrapping byte counter, the \<open>finished_\<close> flag); the
  loops are the functions \<open>process_blocks\<close>, \<open>sched\<close> and the fold of \<open>round_step\<close>. \<open>sha256_ref\<close> is the
  padded one-shot definition of the function. The lemmas show that every sequence of updates followed
  by \<open>finish\<close> yields the reference digest of the concatenated input; that the table-driven CRC-32C is
  the bit-serial one and detects every change confined to one byte; and that \<open>hex\<close> and \<open>parse\<close> are
  mutually inverse.
\<close>

section \<open>Bytes of strings\<close>

definition char_byte :: "char \<Rightarrow> u8" where
  "char_byte c = of_nat (of_char c)"

definition byte_char :: "u8 \<Rightarrow> char" where
  "byte_char b = char_of (unat b)"

definition str_bytes :: "string \<Rightarrow> bytes" where
  "str_bytes s = map char_byte s"

definition bytes_str :: "bytes \<Rightarrow> string" where
  "bytes_str b = map byte_char b"

lemma byte_char_char_byte [simp]: "byte_char (char_byte c) = c"
  by (simp add: byte_char_def char_byte_def unat_of_nat)

lemma char_byte_byte_char [simp]: "char_byte (byte_char b) = b"
proof -
  have "unat b < 256" using unsigned_less [of b] by simp
  then show ?thesis by (simp add: byte_char_def char_byte_def)
qed

lemma bytes_str_str_bytes [simp]: "bytes_str (str_bytes s) = s"
  by (simp add: bytes_str_def str_bytes_def o_def)

lemma str_bytes_bytes_str [simp]: "str_bytes (bytes_str b) = b"
  by (simp add: bytes_str_def str_bytes_def o_def)

lemma length_str_bytes [simp]: "length (str_bytes s) = length s"
  by (simp add: str_bytes_def)

lemma length_bytes_str [simp]: "length (bytes_str b) = length b"
  by (simp add: bytes_str_def)

lemma str_bytes_inj [simp]: "str_bytes s = str_bytes t \<longleftrightarrow> s = t"
  by (metis bytes_str_str_bytes)

section \<open>SHA-256\<close>

definition rotr :: "u32 \<Rightarrow> nat \<Rightarrow> u32" where
  "rotr v s = drop_bit s v OR push_bit ((32 - s) mod 32) v"

definition kSha256K :: "u32 list" where
  "kSha256K = [
    0x428A2F98, 0x71374491, 0xB5C0FBCF, 0xE9B5DBA5, 0x3956C25B,
    0x59F111F1, 0x923F82A4, 0xAB1C5ED5, 0xD807AA98, 0x12835B01,
    0x243185BE, 0x550C7DC3, 0x72BE5D74, 0x80DEB1FE, 0x9BDC06A7,
    0xC19BF174, 0xE49B69C1, 0xEFBE4786, 0x0FC19DC6, 0x240CA1CC,
    0x2DE92C6F, 0x4A7484AA, 0x5CB0A9DC, 0x76F988DA, 0x983E5152,
    0xA831C66D, 0xB00327C8, 0xBF597FC7, 0xC6E00BF3, 0xD5A79147,
    0x06CA6351, 0x14292967, 0x27B70A85, 0x2E1B2138, 0x4D2C6DFC,
    0x53380D13, 0x650A7354, 0x766A0ABB, 0x81C2C92E, 0x92722C85,
    0xA2BFE8A1, 0xA81A664B, 0xC24B8B70, 0xC76C51A3, 0xD192E819,
    0xD6990624, 0xF40E3585, 0x106AA070, 0x19A4C116, 0x1E376C08,
    0x2748774C, 0x34B0BCB5, 0x391C0CB3, 0x4ED8AA4A, 0x5B9CCA4F,
    0x682E6FF3, 0x748F82EE, 0x78A5636F, 0x84C87814, 0x8CC70208,
    0x90BEFFFA, 0xA4506CEB, 0xBEF9A3F7, 0xC67178F2]"

fun block_words :: "bytes \<Rightarrow> u32 list" where
  "block_words (a # b # c # d # rest) =
     (push_bit 24 (ucast a) OR push_bit 16 (ucast b) OR push_bit 8 (ucast c) OR ucast d) # block_words rest"
| "block_words _ = []"

definition sched_next :: "u32 list \<Rightarrow> u32" where
  "sched_next w =
     (let i = length w; x = w ! (i - 15); y = w ! (i - 2);
          sigma0 = rotr x 7 XOR rotr x 18 XOR drop_bit 3 x;
          sigma1 = rotr y 17 XOR rotr y 19 XOR drop_bit 10 y
      in w ! (i - 16) + sigma0 + w ! (i - 7) + sigma1)"

primrec sched :: "nat \<Rightarrow> u32 list \<Rightarrow> u32 list" where
  "sched 0 w = w"
| "sched (Suc n) w = sched n (w @ [sched_next w])"

text \<open>The eight working variables \<open>a .. h\<close>.\<close>

type_synonym sha_vars = "u32 \<times> u32 \<times> u32 \<times> u32 \<times> u32 \<times> u32 \<times> u32 \<times> u32"

fun round_step :: "sha_vars \<Rightarrow> u32 \<times> u32 \<Rightarrow> sha_vars" where
  "round_step (a, b, c, d, e, f, g, h) (k, w) =
     (let big_sigma1 = rotr e 6 XOR rotr e 11 XOR rotr e 25;
          choice = (e AND f) XOR (NOT e AND g);
          temp1 = h + big_sigma1 + choice + k + w;
          big_sigma0 = rotr a 2 XOR rotr a 13 XOR rotr a 22;
          majority = (a AND b) XOR (a AND c) XOR (b AND c);
          temp2 = big_sigma0 + majority
      in (temp1 + temp2, a, b, c, d + temp1, e, f, g))"

fun add_vars :: "sha_vars \<Rightarrow> sha_vars \<Rightarrow> sha_vars" where
  "add_vars (a, b, c, d, e, f, g, h) (a', b', c', d', e', f', g', h') =
     (a + a', b + b', c + c', d + d', e + e', f + f', g + g', h + h')"

definition compress :: "sha_vars \<Rightarrow> bytes \<Rightarrow> sha_vars" where
  "compress st block = add_vars st (foldl round_step st (zip kSha256K (sched 48 (block_words block))))"

record Sha256 =
  sha_state :: sha_vars
  sha_buffer :: bytes
  sha_buffered :: nat
  sha_total_bytes :: u64
  sha_finished :: bool

definition sha_iv :: sha_vars where
  "sha_iv = (0x6A09E667, 0xBB67AE85, 0x3C6EF372, 0xA54FF53A, 0x510E527F, 0x9B05688C, 0x1F83D9AB, 0x5BE0CD19)"

definition Sha256_init :: Sha256 where
  "Sha256_init = \<lparr>sha_state = sha_iv, sha_buffer = replicate 64 0, sha_buffered = 0, sha_total_bytes = 0, sha_finished = False\<rparr>"

text \<open>\<open>while (remaining >= 64)\<close>: compress whole blocks straight from the input.\<close>

function process_blocks :: "sha_vars \<Rightarrow> bytes \<Rightarrow> sha_vars \<times> bytes" where
  "process_blocks st m =
     (if length m < 64 then (st, m) else process_blocks (compress st (take 64 m)) (drop 64 m))"
  by pat_completeness auto
termination
  by (relation "measure (length \<circ> snd)") auto

declare process_blocks.simps [simp del]

text \<open>Writing bytes into the buffer from an index on.\<close>

definition write_at :: "nat \<Rightarrow> bytes \<Rightarrow> bytes \<Rightarrow> bytes" where
  "write_at i new buf = take i buf @ new @ drop (i + length new) buf"

definition Sha256_update :: "Sha256 \<Rightarrow> bytes \<Rightarrow> Sha256" where
  "Sha256_update s data =
     (if sha_finished s \<or> data = [] then s
      else (let s = s\<lparr>sha_total_bytes := sha_total_bytes s + of_nat (length data)\<rparr> in
        if sha_buffered s \<noteq> 0 then
          (let room = 64 - sha_buffered s; n = min (length data) room;
               s = s\<lparr>sha_buffer := write_at (sha_buffered s) (take n data) (sha_buffer s), sha_buffered := sha_buffered s + n\<rparr>
           in if sha_buffered s < 64 then s
              else (let (st, rest) = process_blocks (compress (sha_state s) (sha_buffer s)) (drop n data)
                    in s\<lparr>sha_state := st, sha_buffer := write_at 0 rest (sha_buffer s), sha_buffered := length rest\<rparr>))
        else (let (st, rest) = process_blocks (sha_state s) data
              in s\<lparr>sha_state := st, sha_buffer := write_at 0 rest (sha_buffer s), sha_buffered := length rest\<rparr>)))"

definition Sha256_update_byte :: "Sha256 \<Rightarrow> u8 \<Rightarrow> Sha256" where
  "Sha256_update_byte s b =
     (if sha_finished s then s
      else (let s = s\<lparr>sha_buffer := (sha_buffer s)[sha_buffered s := b], sha_buffered := sha_buffered s + 1,
                      sha_total_bytes := sha_total_bytes s + 1\<rparr>
            in if sha_buffered s = 64 then s\<lparr>sha_state := compress (sha_state s) (sha_buffer s), sha_buffered := 0\<rparr> else s))"

text \<open>\<open>update_u16\<close>, \<open>update_u32\<close>, \<open>update_u64\<close>: the bytes of the value from the most significant one down.\<close>

definition Sha256_update_u16 :: "Sha256 \<Rightarrow> u16 \<Rightarrow> Sha256" where
  "Sha256_update_u16 s v = foldl Sha256_update_byte s [ucast (drop_bit 8 v), ucast (v AND 0xFF)]"

definition Sha256_update_u32 :: "Sha256 \<Rightarrow> u32 \<Rightarrow> Sha256" where
  "Sha256_update_u32 s v = foldl Sha256_update_byte s
     [ucast (drop_bit 24 v), ucast (drop_bit 16 v), ucast (drop_bit 8 v), ucast (v AND 0xFF)]"

definition Sha256_update_u64 :: "Sha256 \<Rightarrow> u64 \<Rightarrow> Sha256" where
  "Sha256_update_u64 s v = foldl Sha256_update_byte s
     [ucast (drop_bit 56 v), ucast (drop_bit 48 v), ucast (drop_bit 40 v), ucast (drop_bit 32 v),
      ucast (drop_bit 24 v), ucast (drop_bit 16 v), ucast (drop_bit 8 v), ucast (v AND 0xFF)]"

definition Sha256_update_bytes :: "Sha256 \<Rightarrow> bytes \<Rightarrow> Sha256" where
  "Sha256_update_bytes s data = Sha256_update (Sha256_update_u32 s (of_nat (length data))) data"

fun serialize_vars :: "sha_vars \<Rightarrow> bytes" where
  "serialize_vars (a, b, c, d, e, f, g, h) =
     concat (map (\<lambda>w. [ucast (drop_bit 24 w), ucast (drop_bit 16 w), ucast (drop_bit 8 w), ucast (w AND 0xFF)])
       [a, b, c, d, e, f, g, h])"

type_synonym Digest256 = bytes

definition kDigestBytes :: nat where "kDigestBytes = 32"

definition Sha256_finish :: "Sha256 \<Rightarrow> Digest256 \<times> Sha256" where
  "Sha256_finish s =
     (let s = (if sha_finished s then s
        else (let bit_length = push_bit 3 (sha_total_bytes s);
                  s = s\<lparr>sha_buffer := (sha_buffer s)[sha_buffered s := 0x80], sha_buffered := sha_buffered s + 1\<rparr>;
                  s = (if sha_buffered s > 56 then
                         (let buf = write_at (sha_buffered s) (replicate (64 - sha_buffered s) 0) (sha_buffer s)
                          in s\<lparr>sha_buffer := buf, sha_state := compress (sha_state s) buf, sha_buffered := 0\<rparr>)
                       else s);
                  buf = write_at (sha_buffered s) (replicate (56 - sha_buffered s) 0) (sha_buffer s);
                  buf = write_at 56 (map (\<lambda>i. ucast (drop_bit (56 - i * 8) bit_length)) [0..<8]) buf
              in s\<lparr>sha_buffer := buf, sha_state := compress (sha_state s) buf, sha_buffered := 0, sha_finished := True\<rparr>))
      in (serialize_vars (sha_state s), s))"

definition Digest256_of :: "bytes \<Rightarrow> Digest256" where
  "Digest256_of data = fst (Sha256_finish (Sha256_update Sha256_init data))"

definition catalog_fingerprint :: u32 where
  "catalog_fingerprint =
     (let h = Sha256_update_u32 Sha256_init 14;
          h = foldl (\<lambda>h k. Sha256_update_bytes (Sha256_update_u16 h (kind_code k))
                (str_bytes (CapabilityKind_to_string k))) h kKinds;
          h = Sha256_update_u32 h (of_nat (length kFeatures));
          h = foldl (\<lambda>h i. Sha256_update_u16 (Sha256_update_bytes (Sha256_update_u32 h (fi_code i))
                (str_bytes (fi_name i))) (fi_kind_mask i)) h kFeatures;
          h = Sha256_update_u32 h (of_nat (length kLimits));
          h = foldl (\<lambda>h i. Sha256_update_byte (Sha256_update_byte (Sha256_update_u16 (Sha256_update_u16
                (Sha256_update_bytes (Sha256_update_u32 h (li_code i)) (str_bytes (li_name i)))
                (li_kind_mask i)) (li_unit i)) (if li_decimal_scale_permitted i then 1 else 0))
                (if li_binary_scale_permitted i then 1 else 0)) h kLimits;
          bytes = fst (Sha256_finish h)
      in push_bit 24 (ucast (bytes ! 0)) OR push_bit 16 (ucast (bytes ! 1))
         OR push_bit 8 (ucast (bytes ! 2)) OR ucast (bytes ! 3))"

section \<open>Hexadecimal digests\<close>

definition hex_digit_value :: "char \<Rightarrow> u8" where
  "hex_digit_value c =
     (if of_char c \<ge> (48 :: nat) \<and> of_char c \<le> (57 :: nat) then char_byte c - 48
      else if of_char c \<ge> (97 :: nat) \<and> of_char c \<le> (102 :: nat) then char_byte c - 97 + 10
      else 0xFF)"

definition kHexDigits :: string where
  "kHexDigits = ''0123456789abcdef''"

fun parse_hex_pairs :: "string \<Rightarrow> bytes option" where
  "parse_hex_pairs (a # b # rest) =
     (let h = hex_digit_value a; l = hex_digit_value b in
      if h = 0xFF \<or> l = 0xFF then None
      else map_option (\<lambda>bs. (push_bit 4 h OR l) # bs) (parse_hex_pairs rest))"
| "parse_hex_pairs _ = Some []"

definition Digest256_parse :: "string \<Rightarrow> Digest256 option" where
  "Digest256_parse hex = (if length hex \<noteq> kDigestBytes * 2 then None else parse_hex_pairs hex)"

definition Digest256_hex :: "Digest256 \<Rightarrow> string" where
  "Digest256_hex d = concat (map (\<lambda>b. [kHexDigits ! unat (drop_bit 4 b AND 0x0F), kHexDigits ! unat (b AND 0x0F)]) d)"

definition Digest256_is_zero :: "Digest256 \<Rightarrow> bool" where
  "Digest256_is_zero d = list_all (\<lambda>b. b = 0) d"

section \<open>CRC-32C and FNV-1a\<close>

definition crc_bit :: "u32 \<Rightarrow> u32" where
  "crc_bit crc = (if crc AND 1 \<noteq> 0 then drop_bit 1 crc XOR 0x82F63B78 else drop_bit 1 crc)"

definition make_crc32c_table :: "u32 list" where
  "make_crc32c_table = map (\<lambda>i. (crc_bit ^^ 8) (of_nat i)) [0..<256]"

definition crc32c_update_byte :: "u32 \<Rightarrow> u8 \<Rightarrow> u32" where
  "crc32c_update_byte crc b = (make_crc32c_table ! unat ((crc XOR ucast b) AND 0xFF)) XOR drop_bit 8 crc"

definition Crc32c_update :: "u32 \<Rightarrow> bytes \<Rightarrow> u32" where
  "Crc32c_update st data = foldl crc32c_update_byte st data"

definition Crc32c_value :: "u32 \<Rightarrow> u32" where
  "Crc32c_value st = st XOR 0xFFFFFFFF"

definition crc32c :: "bytes \<Rightarrow> u32" where
  "crc32c data = Crc32c_value (Crc32c_update 0xFFFFFFFF data)"

definition fnv1a64 :: "bytes \<Rightarrow> u64" where
  "fnv1a64 data = foldl (\<lambda>h b. (h XOR ucast b) * 1099511628211) 14695981039346656037 data"

section \<open>Streaming agrees with the one-shot definition\<close>

lemma process_blocks_short [simp]: "length m < 64 \<Longrightarrow> process_blocks st m = (st, m)"
  by (simp add: process_blocks.simps)

lemma process_blocks_block:
  "length b = 64 \<Longrightarrow> process_blocks st (b @ m) = process_blocks (compress st b) m"
  by (subst process_blocks.simps) simp

lemma process_blocks_append:
  "process_blocks st a = (st', r) \<Longrightarrow> process_blocks st (a @ b) = process_blocks st' (r @ b)"
proof (induction st a rule: process_blocks.induct)
  case (1 st m)
  show ?case
  proof (cases "length m < 64")
    case False
    then have "process_blocks st (m @ b) = process_blocks (compress st (take 64 m)) (drop 64 m @ b)"
      by (subst process_blocks.simps) simp
    then show ?thesis using 1 False by (metis process_blocks.simps)
  qed (use 1 in simp)
qed

lemma process_blocks_remainder: "process_blocks st m = (st', r) \<Longrightarrow> length r = length m mod 64"
proof (induction st m rule: process_blocks.induct)
  case (1 st m)
  show ?case
  proof (cases "length m < 64")
    case False
    then have "length r = length (drop 64 m) mod 64" using 1 by (metis process_blocks.simps)
    then show ?thesis using False by (simp add: le_mod_geq)
  qed (use 1 in simp)
qed

text \<open>The state of a hasher that has absorbed the message \<open>m\<close>.\<close>

definition absorbed :: "Sha256 \<Rightarrow> bytes \<Rightarrow> bool" where
  "absorbed s m = (\<not> sha_finished s \<and> length (sha_buffer s) = 64 \<and> sha_buffered s < 64
     \<and> sha_total_bytes s = of_nat (length m)
     \<and> process_blocks sha_iv m = (sha_state s, take (sha_buffered s) (sha_buffer s)))"

lemma absorbed_init: "absorbed Sha256_init []"
  by (simp add: absorbed_def Sha256_init_def)

lemma write_at_props:
  assumes "i + length new \<le> length buf"
  shows "length (write_at i new buf) = length buf"
    and "take (i + length new) (write_at i new buf) = take i buf @ new"
  using assms by (simp_all add: write_at_def)

lemma absorbed_update: 
  assumes "absorbed s m"
  shows "absorbed (Sha256_update s d) (m @ d)"
proof (cases "d = []")
  case True
  then show ?thesis using assms by (simp add: Sha256_update_def)
next
  case False
  let ?b = "take (sha_buffered s) (sha_buffer s)"
  have len: "length ?b = sha_buffered s" and fin: "\<not> sha_finished s" and lt: "sha_buffered s < 64"
    and buf: "length (sha_buffer s) = 64"
    using assms by (auto simp: absorbed_def)
  have cat: "process_blocks sha_iv (m @ d) = process_blocks (sha_state s) (?b @ d)"
    using assms by (intro process_blocks_append) (simp add: absorbed_def)
  show ?thesis
  proof (cases "sha_buffered s = 0")
    case True
    obtain st r where pr: "process_blocks (sha_state s) d = (st, r)" by (metis surj_pair)
    then have "length r < 64" using process_blocks_remainder by fastforce
    then show ?thesis
      using assms False True pr cat write_at_props [of 0 r "sha_buffer s"]
      by (simp add: absorbed_def Sha256_update_def Let_def)
  next
    case nz: False
    let ?n = "min (length d) (64 - sha_buffered s)"
    let ?buf = "write_at (sha_buffered s) (take ?n d) (sha_buffer s)"
    have wp: "length ?buf = 64" "take (sha_buffered s + ?n) ?buf = ?b @ take ?n d"
      using write_at_props [of "sha_buffered s" "take ?n d" "sha_buffer s"] buf lt by simp_all
    show ?thesis
    proof (cases "sha_buffered s + ?n < 64")
      case True
      then have n: "?n = length d" "sha_buffered s + length d < 64" using lt by auto
      then show ?thesis
        using assms False nz wp cat len
        by (simp add: absorbed_def Sha256_update_def Let_def)
    next
      case full: False
      then have n: "sha_buffered s + ?n = 64" using lt by simp
      have bufeq: "?buf = ?b @ take ?n d" using wp n by simp
      obtain st r where pr: "process_blocks (compress (sha_state s) ?buf) (drop ?n d) = (st, r)" by (metis surj_pair)
      then have r: "length r < 64" using process_blocks_remainder by fastforce
      have "?b @ d = ?buf @ drop ?n d" using bufeq by simp
      then have "process_blocks (sha_state s) (?b @ d) = (st, r)"
        using pr wp(1) by (simp only: process_blocks_block)
      then show ?thesis
        using assms False nz full r pr cat wp(1) n write_at_props [of 0 r ?buf]
        by (simp add: absorbed_def Sha256_update_def Let_def)
    qed
  qed
qed

definition sha_pad :: "bytes \<Rightarrow> bytes" where
  "sha_pad m = m @ 0x80 # replicate ((119 - length m mod 64) mod 64) 0 @ be_bytes 8 (of_nat (8 * length m) :: u64)"

definition sha256_ref :: "bytes \<Rightarrow> Digest256" where
  "sha256_ref m = serialize_vars (fst (process_blocks sha_iv (sha_pad m)))"

lemma length_bytes_be:
  "map (\<lambda>i. ucast (drop_bit (56 - i * 8) (L :: u64))) [0..<8] = be_bytes 8 L"
proof -
  have "be_bytes (Suc (Suc (Suc (Suc (Suc (Suc (Suc (Suc 0)))))))) L = be_bytes 8 L" by (simp add: numeral_eq_Suc)
  moreover have "[0..<8] = [0, 1, 2, 3, 4, 5, 6, 7 :: nat]" by (simp add: upt_rec)
  ultimately show ?thesis by (simp add: drop_bit_drop_bit)
qed

lemma take_put_byte: "k < length buf \<Longrightarrow> take (Suc k) (buf[k := x]) = take k buf @ [x]"
  by (simp add: take_Suc_conv_app_nth)

lemma write_tail:
  assumes "length buf = 64" "k \<le> 56" "length L8 = 8"
  shows "write_at 56 L8 (write_at k (replicate (56 - k) 0) buf) = take k buf @ replicate (56 - k) 0 @ L8"
  using assms by (simp add: write_at_def)

lemma absorbed_finish:
  assumes "absorbed s m"
  shows "fst (Sha256_finish s) = sha256_ref m"
proof -
  let ?k = "sha_buffered s" and ?buf = "sha_buffer s" and ?L = "be_bytes 8 (of_nat (8 * length m) :: u64)"
  define r where "r = take ?k ?buf"
  have fin: "\<not> sha_finished s" and len: "length ?buf = 64" and lt: "?k < 64" and r: "length r = ?k"
    and total: "push_bit 3 (sha_total_bytes s) = of_nat (8 * length m)"
    using assms by (auto simp: absorbed_def r_def push_bit_eq_mult)
  have proc: "process_blocks sha_iv m = (sha_state s, r)" using assms by (simp add: absorbed_def r_def)
  have k: "?k = length m mod 64" using process_blocks_remainder [OF proc] r by simp
  have pad: "process_blocks sha_iv (sha_pad m)
      = process_blocks (sha_state s) (r @ 0x80 # replicate ((119 - ?k) mod 64) 0 @ ?L)"
    unfolding sha_pad_def k by (rule process_blocks_append [OF proc])
  have first: "take (Suc ?k) (?buf[?k := 0x80]) = r @ [0x80]" using lt len by (simp add: take_put_byte r_def)
  have one: "process_blocks st b = (compress st b, [])" if "length b = 64" for st b
    using process_blocks_block [OF that, of st "[]"] by simp
  show ?thesis
  proof (cases "?k < 56")
    case True
    let ?B = "r @ 0x80 # replicate (55 - ?k) 0 @ ?L"
    have "write_at 56 ?L (write_at (Suc ?k) (replicate (56 - Suc ?k) 0) (?buf[?k := 0x80])) = ?B"
      using write_tail [of "?buf[?k := 0x80]" "Suc ?k" ?L] True len first by simp
    then have "fst (Sha256_finish s) = serialize_vars (compress (sha_state s) ?B)"
      using fin True by (simp add: Sha256_finish_def Let_def total length_bytes_be)
    moreover have "(119 - ?k) mod 64 = 55 - ?k" using True by (simp add: mod_if)
    ultimately show ?thesis
      using one [of ?B] r True by (simp add: sha256_ref_def pad)
  next
    case False
    let ?B1 = "r @ 0x80 # replicate (63 - ?k) 0" and ?B2 = "replicate 56 0 @ ?L"
    have b1: "write_at (Suc ?k) (replicate (64 - Suc ?k) 0) (?buf[?k := 0x80]) = ?B1"
      using first lt len by (simp add: write_at_def)
    have b2: "write_at 56 ?L (write_at 0 (replicate 56 0) b) = ?B2" if "length b = 64" for b
      using that by (simp add: write_at_def)
    have l1: "length ?B1 = 64" using r lt by simp
    have "fst (Sha256_finish s) = serialize_vars (compress (compress (sha_state s) ?B1) ?B2)"
      using fin False b1 b2 [OF l1] by (simp add: Sha256_finish_def Let_def total length_bytes_be)
    moreover have "r @ 0x80 # replicate ((119 - ?k) mod 64) 0 @ ?L = ?B1 @ ?B2"
    proof -
      have eq: "(119 - ?k) mod 64 = (63 - ?k) + 56" using False lt by simp
      have "replicate ((119 - ?k) mod 64) (0 :: u8) = replicate (63 - ?k) 0 @ replicate 56 0"
        unfolding eq by (rule replicate_add)
      then show ?thesis by simp
    qed
    ultimately show ?thesis
      using process_blocks_block [OF l1, of "sha_state s" ?B2] one [of ?B2] by (simp add: sha256_ref_def pad)
  qed
qed

lemma absorbed_update_byte:
  assumes "absorbed s m"
  shows "absorbed (Sha256_update_byte s b) (m @ [b])"
proof -
  let ?k = "sha_buffered s" and ?buf = "sha_buffer s"
  have fin: "\<not> sha_finished s" and len: "length ?buf = 64" and lt: "?k < 64"
    using assms by (auto simp: absorbed_def)
  have first: "take (Suc ?k) (?buf[?k := b]) = take ?k ?buf @ [b]" using lt len by (simp add: take_put_byte)
  have cat: "process_blocks sha_iv (m @ [b]) = process_blocks (sha_state s) (take ?k ?buf @ [b])"
    using assms by (intro process_blocks_append) (simp add: absorbed_def)
  show ?thesis
  proof (cases "Suc ?k = 64")
    case True
    then have "?buf[?k := b] = take ?k ?buf @ [b]" using first len by simp
    moreover have "process_blocks (sha_state s) (?buf[?k := b]) = (compress (sha_state s) (?buf[?k := b]), [])"
      using process_blocks_block [of "?buf[?k := b]" "sha_state s" "[]"] len by simp
    ultimately show ?thesis
      using assms True cat by (simp add: absorbed_def Sha256_update_byte_def Let_def)
  next
    case False
    then have "length (take ?k ?buf @ [b]) < 64" using lt len by simp
    then show ?thesis
      using assms False cat first by (simp add: absorbed_def Sha256_update_byte_def Let_def)
  qed
qed

text \<open>The fixed-width updates absorb the big-endian bytes of the value.\<close>

lemma absorbed_update_list: "absorbed s m \<Longrightarrow> absorbed (foldl Sha256_update_byte s bs) (m @ bs)"
proof (induction bs arbitrary: s m)
  case (Cons b bs)
  then show ?case using absorbed_update_byte [of s m b] Cons.IH [of "Sha256_update_byte s b" "m @ [b]"] by simp
qed simp

lemma ucast_low_byte: "ucast (v AND 0xFF :: 'a::len word) = (ucast v :: u8)" if "8 \<le> LENGTH('a)"
proof -
  have "v AND 0xFF = take_bit 8 v" by (simp add: take_bit_eq_mask mask_eq_exp_minus_1)
  then show ?thesis using that by (intro bit_word_eqI) (auto simp: bit_simps)
qed

lemma be_bytes_unroll:
  "be_bytes 2 (v :: u16) = [ucast (drop_bit 8 v), ucast (v AND 0xFF)]"
  "be_bytes 4 (w :: u32) = [ucast (drop_bit 24 w), ucast (drop_bit 16 w), ucast (drop_bit 8 w), ucast (w AND 0xFF)]"
  "be_bytes 8 (x :: u64) = [ucast (drop_bit 56 x), ucast (drop_bit 48 x), ucast (drop_bit 40 x), ucast (drop_bit 32 x),
      ucast (drop_bit 24 x), ucast (drop_bit 16 x), ucast (drop_bit 8 x), ucast (x AND 0xFF)]"
proof -
  have n: "(2 :: nat) = Suc (Suc 0)" "(4 :: nat) = Suc (Suc (Suc (Suc 0)))"
    "(8 :: nat) = Suc (Suc (Suc (Suc (Suc (Suc (Suc (Suc 0)))))))" by simp_all
  show "be_bytes 2 v = [ucast (drop_bit 8 v), ucast (v AND 0xFF)]"
    by (subst n(1)) (simp add: ucast_low_byte)
  show "be_bytes 4 w = [ucast (drop_bit 24 w), ucast (drop_bit 16 w), ucast (drop_bit 8 w), ucast (w AND 0xFF)]"
    by (subst n(2)) (simp add: ucast_low_byte drop_bit_drop_bit)
  show "be_bytes 8 x = [ucast (drop_bit 56 x), ucast (drop_bit 48 x), ucast (drop_bit 40 x), ucast (drop_bit 32 x),
      ucast (drop_bit 24 x), ucast (drop_bit 16 x), ucast (drop_bit 8 x), ucast (x AND 0xFF)]"
    by (subst n(3)) (simp add: ucast_low_byte drop_bit_drop_bit)
qed

lemma absorbed_updates:
  assumes "absorbed s m"
  shows "absorbed (Sha256_update_u16 s v) (m @ be_bytes 2 v)"
    and "absorbed (Sha256_update_u32 s w) (m @ be_bytes 4 w)"
    and "absorbed (Sha256_update_u64 s x) (m @ be_bytes 8 x)"
    and "absorbed (Sha256_update_bytes s d) (m @ be_bytes 4 (of_nat (length d) :: u32) @ d)"
proof -
  show u32: "absorbed (Sha256_update_u32 s w) (m @ be_bytes 4 w)" for w
    unfolding Sha256_update_u32_def be_bytes_unroll by (rule absorbed_update_list [OF assms])
  show "absorbed (Sha256_update_u16 s v) (m @ be_bytes 2 v)" "absorbed (Sha256_update_u64 s x) (m @ be_bytes 8 x)"
    unfolding Sha256_update_u16_def Sha256_update_u64_def be_bytes_unroll
    by (rule absorbed_update_list [OF assms])+
  show "absorbed (Sha256_update_bytes s d) (m @ be_bytes 4 (of_nat (length d) :: u32) @ d)"
    using absorbed_update [OF u32, of "of_nat (length d)" d] by (simp add: Sha256_update_bytes_def)
qed

text \<open>
  C37: the streaming SHA-256 is the function of the concatenated input: whatever way a message is cut
  into pieces (across block boundaries, with empty pieces), updating with the pieces in turn and
  finishing yields the padded one-shot digest of the concatenation, and \<open>Digest256::of\<close> is that digest.
\<close>

theorem Sha256_streaming:
  "fst (Sha256_finish (foldl Sha256_update Sha256_init pieces)) = sha256_ref (concat pieces)
   \<and> Digest256_of m = sha256_ref m"
proof -
  have "absorbed s m \<Longrightarrow> absorbed (foldl Sha256_update s pieces) (m @ concat pieces)" for s m
  proof (induction pieces arbitrary: s m)
    case (Cons p ps)
    then show ?case
      using absorbed_update [of s m p] Cons.IH [of "Sha256_update s p" "m @ p"] by simp
  qed simp
  from absorbed_finish [OF this [OF absorbed_init]] absorbed_finish [OF absorbed_update [OF absorbed_init, of m]]
  show ?thesis by (simp add: Digest256_of_def)
qed

lemma length_serialize_vars [simp]: "length (serialize_vars v) = 32"
  by (cases v rule: serialize_vars.cases) simp

lemma length_finish [simp]: "length (fst (Sha256_finish s)) = 32"
  by (simp add: Sha256_finish_def Let_def)

section \<open>The CRC table is the bit-serial CRC\<close>

definition crc_poly :: u32 where "crc_poly = 0x82F63B78"

lemma crc_bit_eq: "crc_bit c = drop_bit 1 c XOR (if bit c 0 then crc_poly else 0)"
  by (simp add: crc_bit_def crc_poly_def and_one_eq bit_0 odd_iff_mod_2_eq_one even_iff_mod_2_eq_zero)

lemma crc_bit_xor: "crc_bit (a XOR b) = crc_bit a XOR crc_bit b"
  unfolding crc_bit_eq by (rule bit_word_eqI) (auto simp: bit_simps)

lemma crc_bits_xor: "(crc_bit ^^ n) (a XOR b) = (crc_bit ^^ n) a XOR (crc_bit ^^ n) b"
  by (induction n) (simp_all add: crc_bit_xor)

lemma xor_cancel [simp]: "p XOR q = r XOR q \<longleftrightarrow> p = r" for p q r :: "'a::len word"
  by (metis xor.assoc xor.right_neutral xor_self_eq)

lemma crc_bit_push:
  assumes "0 < k" "k \<le> 8"
  shows "crc_bit (push_bit k (drop_bit 8 c)) = push_bit (k - 1) (drop_bit 8 c)"
proof -
  have "\<not> bit (push_bit k (drop_bit 8 c)) 0" using assms(1) by (simp add: bit_push_bit_iff)
  moreover have "drop_bit 1 (push_bit k (drop_bit 8 c)) = push_bit (k - 1) (drop_bit 8 c)"
    using assms by (intro bit_word_eqI) (auto simp: bit_simps dest: bit_imp_le_length)
  ultimately show ?thesis unfolding crc_bit_eq by simp
qed

lemma crc_bits_shift: "n \<le> 8 \<Longrightarrow> (crc_bit ^^ n) (push_bit n (drop_bit 8 c)) = drop_bit 8 c"
proof (induction n)
  case (Suc n)
  have "crc_bit (push_bit (Suc n) (drop_bit 8 c)) = push_bit n (drop_bit 8 c)"
    using crc_bit_push [of "Suc n" c] Suc.prems by simp
  then show ?case using Suc by (simp add: funpow_swap1 del: push_bit_Suc)
qed simp

lemma low_high_split: "c = (c AND 0xFF) XOR push_bit 8 (drop_bit 8 c)" for c :: u32
proof -
  have "c AND 0xFF = take_bit 8 c" by (simp add: take_bit_eq_mask mask_eq_exp_minus_1)
  then show ?thesis
    by (intro bit_word_eqI) (auto simp: bit_simps)
qed

lemma crc32c_update_byte_serial: "crc32c_update_byte crc b = (crc_bit ^^ 8) (crc XOR ucast b)"
proof -
  define x where "x = crc XOR ucast b"
  have "x AND 0xFF = take_bit 8 x" by (simp add: take_bit_eq_mask mask_eq_exp_minus_1)
  moreover have "unat (take_bit 8 x) < 2 ^ 8"
    by (simp only: unsigned_take_bit_eq) (rule take_bit_nat_less_exp)
  ultimately have "unat (x AND 0xFF) < 256" by simp
  then have table: "make_crc32c_table ! unat (x AND 0xFF) = (crc_bit ^^ 8) (x AND 0xFF)"
    by (simp add: make_crc32c_table_def)
  have high: "drop_bit 8 x = drop_bit 8 crc"
    unfolding x_def by (rule bit_word_eqI) (auto simp: bit_simps dest: bit_imp_le_length)
  have "(crc_bit ^^ 8) x = (crc_bit ^^ 8) (x AND 0xFF) XOR drop_bit 8 x"
    by (subst low_high_split) (simp only: crc_bits_xor crc_bits_shift order_refl)
  then show ?thesis by (simp add: crc32c_update_byte_def table high flip: x_def)
qed

text \<open>The step is invertible: the bit shifted out is the top bit of the result.\<close>

lemma crc_bit_inj: "crc_bit a = crc_bit b \<longleftrightarrow> a = b"
proof
  assume eq: "crc_bit a = crc_bit b"
  have top: "bit (crc_bit c) 31 \<longleftrightarrow> bit c 0" for c
    by (auto simp: crc_bit_eq bit_simps crc_poly_def dest: bit_imp_le_length)
  then have low: "bit a 0 \<longleftrightarrow> bit b 0" using eq by metis
  then have "drop_bit 1 a = drop_bit 1 b"
    using eq unfolding crc_bit_eq by (simp split: if_splits)
  then have high: "bit a (Suc n) \<longleftrightarrow> bit b (Suc n)" for n
    by (metis bit_drop_bit_eq comp_apply plus_1_eq_Suc)
  show "a = b" by (rule bit_word_eqI) (metis low high not0_implies_Suc)
qed simp

lemma crc_bits_inj: "(crc_bit ^^ n) a = (crc_bit ^^ n) b \<longleftrightarrow> a = b"
  by (induction n) (simp_all add: crc_bit_inj)

lemma Crc32c_update_inj: "Crc32c_update a d = Crc32c_update b d \<longleftrightarrow> a = b"
  unfolding Crc32c_update_def
  by (induction d arbitrary: a b) (simp_all add: crc32c_update_byte_serial crc_bits_inj)

lemma Crc32c_update_append: "Crc32c_update s (a @ b) = Crc32c_update (Crc32c_update s a) b"
  by (simp add: Crc32c_update_def)

text \<open>Two inputs that differ in exactly one byte have different checksums.\<close>

lemma crc32c_one_byte: "crc32c (a @ x # b) = crc32c (a @ y # b) \<longleftrightarrow> x = y"
proof -
  have byte: "p XOR ucast x = p XOR ucast y \<longleftrightarrow> x = y" for p :: u32
  proof
    assume "p XOR ucast x = p XOR ucast y"
    then have "(ucast x :: u32) = ucast y" by (metis xor_cancel xor.commute)
    moreover have "ucast (ucast z :: u32) = z" for z :: u8 by (rule bit_word_eqI) (simp add: bit_simps)
    ultimately show "x = y" by metis
  qed simp
  have split: "Crc32c_update s (a @ z # b) = Crc32c_update (Crc32c_update s (a @ [z])) b" for s z
    using Crc32c_update_append [of s "a @ [z]" b] by simp
  have "crc32c (a @ x # b) = crc32c (a @ y # b) \<longleftrightarrow>
      Crc32c_update 0xFFFFFFFF (a @ [x]) = Crc32c_update 0xFFFFFFFF (a @ [y])"
    unfolding crc32c_def Crc32c_value_def split xor_cancel Crc32c_update_inj by (rule refl)
  also have "\<dots> \<longleftrightarrow> x = y"
    by (simp add: Crc32c_update_def crc32c_update_byte_serial crc_bits_inj byte)
  finally show ?thesis .
qed

definition crc32c_serial :: "bytes \<Rightarrow> u32" where
  "crc32c_serial data = foldl (\<lambda>crc b. (crc_bit ^^ 8) (crc XOR ucast b)) 0xFFFFFFFF data XOR 0xFFFFFFFF"

text \<open>
  C38: the table-driven CRC-32C is the bit-serial CRC with polynomial \<open>0x82F63B78\<close>, can be computed
  piecewise, and detects every corruption confined to one byte of a frame: two frames that differ in
  exactly one byte never have the same checksum.
\<close>

theorem crc32c_serial_detects:
  "crc32c data = crc32c_serial data
   \<and> Crc32c_value (Crc32c_update (Crc32c_update 0xFFFFFFFF a) b) = crc32c (a @ b)
   \<and> (crc32c (a @ x # b) = crc32c (a @ y # b) \<longleftrightarrow> x = y)"
proof -
  have "crc32c_update_byte = (\<lambda>crc b. (crc_bit ^^ 8) (crc XOR ucast b))"
    by (intro ext) (rule crc32c_update_byte_serial)
  then show ?thesis
    using crc32c_one_byte [of a x b y] by (simp add: crc32c_def crc32c_serial_def Crc32c_value_def Crc32c_update_def)
qed

section \<open>Hexadecimal round trip\<close>

definition hex_pair :: "u8 \<Rightarrow> string" where
  "hex_pair b = [kHexDigits ! unat (drop_bit 4 b AND 0x0F), kHexDigits ! unat (b AND 0x0F)]"

lemma Digest256_hex_eq: "Digest256_hex d = concat (map hex_pair d)"
  by (simp add: Digest256_hex_def hex_pair_def [abs_def])

lemma hex_digits_table:
  "list_all (\<lambda>n. hex_digit_value (kHexDigits ! n) = of_nat n
     \<and> kHexDigits ! n = char_of (if n < 10 then 48 + n else 87 + n)) [0..<16]"
  by code_simp

lemma hex_digit_nth:
  assumes "n < 16"
  shows "hex_digit_value (kHexDigits ! n) = of_nat n" "kHexDigits ! n = char_of (if n < 10 then 48 + n else 87 + n)"
  using hex_digits_table assms unfolding list_all_iff by (metis atLeastLessThan_iff set_upt zero_le)+

lemma nibbles:
  fixes b :: u8
  shows "unat (drop_bit 4 b AND 0x0F) < 16" "unat (b AND 0x0F) < 16"
    "push_bit 4 (drop_bit 4 b AND 0x0F) OR (b AND 0x0F) = b"
proof -
  have m: "w AND 0x0F = take_bit 4 w" for w :: u8 by (simp add: take_bit_eq_mask mask_eq_exp_minus_1)
  have lt: "unat (take_bit 4 w) < 2 ^ 4" for w :: u8
    by (simp only: unsigned_take_bit_eq) (rule take_bit_nat_less_exp)
  show "unat (drop_bit 4 b AND 0x0F) < 16" "unat (b AND 0x0F) < 16"
    using lt [of "drop_bit 4 b"] lt [of b] by (simp_all only: m) simp_all
  show "push_bit 4 (drop_bit 4 b AND 0x0F) OR (b AND 0x0F) = b"
    unfolding m by (rule bit_word_eqI) (auto simp: bit_simps)
qed

lemma hex_pair_values:
  "hex_digit_value (hex_pair b ! 0) \<noteq> 0xFF \<and> hex_digit_value (hex_pair b ! 1) \<noteq> 0xFF
   \<and> push_bit 4 (hex_digit_value (hex_pair b ! 0)) OR hex_digit_value (hex_pair b ! 1) = b"
proof -
  have ff: "w \<noteq> 0xFF" if "unat w < 16" for w :: u8 using that by auto
  have "hex_digit_value (hex_pair b ! 0) = drop_bit 4 b AND 0x0F" "hex_digit_value (hex_pair b ! 1) = b AND 0x0F"
    using hex_digit_nth(1) [OF nibbles(1)] hex_digit_nth(1) [OF nibbles(2)] by (simp_all add: hex_pair_def)
  then show ?thesis using nibbles [of b] ff by metis
qed

lemma parse_hex_pairs_hex [simp]: "parse_hex_pairs (Digest256_hex d) = Some d"
proof (induction d)
  case Nil
  then show ?case by (simp add: Digest256_hex_eq)
next
  case (Cons b d)
  then show ?case using hex_pair_values [of b] by (simp add: Digest256_hex_eq hex_pair_def Let_def)
qed

lemma length_Digest256_hex [simp]: "length (Digest256_hex d) = 2 * length d"
  by (induction d) (simp_all add: Digest256_hex_eq hex_pair_def)

lemma hex_digit_char:
  assumes "hex_digit_value c \<noteq> 0xFF"
  shows "unat (hex_digit_value c) < 16" "kHexDigits ! unat (hex_digit_value c) = c"
proof -
  let ?n = "of_char c :: nat"
  have c: "char_of ?n = c" by simp
  have "unat (hex_digit_value c) < 16 \<and> kHexDigits ! unat (hex_digit_value c) = c"
  proof (cases "48 \<le> ?n \<and> ?n \<le> 57")
    case True
    define d where "d = ?n - 48"
    have d: "?n = 48 + d" "d < 10" using True by (auto simp: d_def)
    have "hex_digit_value c = of_nat d" using True d(1) by (simp add: hex_digit_value_def char_byte_def)
    then have "unat (hex_digit_value c) = d" using d(2) by (simp add: unat_of_nat)
    then show ?thesis using d c hex_digit_nth(2) [of d] by simp
  next
    case False
    then have r: "97 \<le> ?n \<and> ?n \<le> 102" using assms by (auto simp: hex_digit_value_def split: if_splits)
    define d where "d = ?n - 87"
    have d: "?n = 87 + d" "10 \<le> d" "d < 16" using r by (auto simp: d_def)
    have "hex_digit_value c = of_nat d" using False r d(1) by (simp add: hex_digit_value_def char_byte_def)
    then have "unat (hex_digit_value c) = d" using d(3) by (simp add: unat_of_nat)
    then show ?thesis using d c hex_digit_nth(2) [of d] by simp
  qed
  then show "unat (hex_digit_value c) < 16" "kHexDigits ! unat (hex_digit_value c) = c" by simp_all
qed

lemma pack_nibbles:
  fixes h l :: u8
  assumes "unat h < 16" "unat l < 16"
  shows "drop_bit 4 (push_bit 4 h OR l) AND 0x0F = h" "(push_bit 4 h OR l) AND 0x0F = l"
proof -
  have m: "w AND 0x0F = take_bit 4 w" for w :: u8 by (simp add: take_bit_eq_mask mask_eq_exp_minus_1)
  have small: "take_bit 4 w = w" if "unat w < 16" for w :: u8
  proof -
    have "unat (take_bit 4 w) = unat w"
      using that by (simp only: unsigned_take_bit_eq) (simp add: take_bit_nat_eq_self)
    then show ?thesis by (simp only: word_unat_eq_iff)
  qed
  have hb: "bit h n \<Longrightarrow> n < 4" and lb: "bit l n \<Longrightarrow> n < 4" for n
    using small [OF assms(1)] small [OF assms(2)] by (metis bit_take_bit_iff)+
  show "drop_bit 4 (push_bit 4 h OR l) AND 0x0F = h" "(push_bit 4 h OR l) AND 0x0F = l"
    unfolding m by (rule bit_word_eqI, auto simp: bit_simps dest: hb lb)+
qed

lemma parse_hex_pairs_Some:
  "parse_hex_pairs t = Some d \<Longrightarrow> even (length t) \<Longrightarrow> Digest256_hex d = t \<and> length d * 2 = length t"
proof (induction t arbitrary: d rule: parse_hex_pairs.induct)
  case (1 a b rest)
  let ?h = "hex_digit_value a" and ?l = "hex_digit_value b"
  obtain ds where ds: "parse_hex_pairs rest = Some ds" "d = (push_bit 4 ?h OR ?l) # ds"
    and v: "?h \<noteq> 0xFF" "?l \<noteq> 0xFF"
    using "1.prems"(1) by (auto simp: Let_def split: if_splits)
  have "Digest256_hex ds = rest \<and> length ds * 2 = length rest"
    using "1.IH" [OF refl refl] v ds(1) "1.prems"(2) by auto
  moreover have "hex_pair (push_bit 4 ?h OR ?l) = [a, b]"
    using hex_digit_char [OF v(1)] hex_digit_char [OF v(2)] by (simp only: hex_pair_def pack_nibbles)
  ultimately show ?case using ds(2) by (simp add: Digest256_hex_eq)
qed (auto simp: Digest256_hex_eq)

text \<open>
  \<open>Digest256::parse\<close> and \<open>hex\<close> are mutually inverse: a text parses to a digest exactly when it is
  the 64-character lower-case spelling of that 32-byte digest, so a digest has a single spelling.
\<close>

theorem Digest256_parse_iff:
  "Digest256_parse t = Some d \<longleftrightarrow> length d = kDigestBytes \<and> t = Digest256_hex d"
  by (auto simp: Digest256_parse_def kDigestBytes_def dest!: parse_hex_pairs_Some)

end
