(* ===== verification/Evidence.thy ===== *)
theory Evidence
  imports Names SemVers Hash
begin

text \<open>
  The evidence model: \<open>include/ocreg/evidence.hpp\<close>, \<open>src/evidence.cpp\<close> and the identities of
  \<open>include/ocreg/strong.hpp\<close>.

  The closed enumerations are datatypes (every decoder checks the raw value), the identities that key
  the registry's maps are single-constructor datatypes with an instance of \<open>linorder\<close> that is the
  source's \<open>operator<=>\<close>, and the records are records. A \<open>Strong\<close> scalar is its 64-bit word, whose
  zero is the unset value. Content-derived ids are digests; a \<open>CapabilityEvidence\<close> carries the cached
  id that \<open>id()\<close> reads and \<open>refresh_id\<close> writes.
\<close>

section \<open>Identity scalars\<close>

type_synonym RegistryEpoch = u64
type_synonym RuleGeneration = u64
type_synonym StoreGeneration = u64
type_synonym BootEpoch = u64
type_synonym IncarnationId = u64
type_synonym SourceIncarnationCounter = u64
type_synonym RecordGeneration = u64
type_synonym Tick = u64
type_synonym PolicyRevision = u64
type_synonym FirmwareGeneration = u64
type_synonym RuntimeGeneration = u64

type_synonym ProviderId = Name
type_synonym DeviceModelId = Name
type_synonym DeviceSerialId = Name
type_synonym SourceId = Name

type_synonym EvidenceId = Digest256
type_synonym DecisionId = Digest256
type_synonym ConflictId = Digest256
type_synonym ResolutionId = Digest256

definition is_unset :: "u64 \<Rightarrow> bool" where
  "is_unset v = (v = 0)"

definition kMaxDeviceUnitIndex :: u32 where
  "kMaxDeviceUnitIndex = 4095"

section \<open>Enumerations\<close>

datatype SourceKind = SyntheticSource | AdjacentRuntimeSource | DeviceSelfReportSource
  | OperatorDeclaration | ImportedBundle

datatype AuthorityRank = RankNone | RankSynthetic | RankImported | RankAdjacentRuntime
  | RankDeviceSelfReport | RankOperator

datatype SourceTrustState = Trusted | Untrusted | Revoked

datatype EvidenceLifecycle = LifecycleAdmitted | LifecycleRejected | LifecycleRetired

datatype EvidenceState = StateActive | StateSuperseded | StateRetired | StateRejected | StateFenced
  | StateStale | StateOutranked | StateEvicted

definition SourceKind_code :: "SourceKind \<Rightarrow> u16" where
  "SourceKind_code k = (case k of SyntheticSource \<Rightarrow> 1 | AdjacentRuntimeSource \<Rightarrow> 2
     | DeviceSelfReportSource \<Rightarrow> 3 | OperatorDeclaration \<Rightarrow> 4 | ImportedBundle \<Rightarrow> 5)"

definition AuthorityRank_code :: "AuthorityRank \<Rightarrow> u16" where
  "AuthorityRank_code r = (case r of RankNone \<Rightarrow> 0 | RankSynthetic \<Rightarrow> 1 | RankImported \<Rightarrow> 2
     | RankAdjacentRuntime \<Rightarrow> 3 | RankDeviceSelfReport \<Rightarrow> 4 | RankOperator \<Rightarrow> 5)"

definition SourceTrustState_code :: "SourceTrustState \<Rightarrow> u16" where
  "SourceTrustState_code t = (case t of Trusted \<Rightarrow> 1 | Untrusted \<Rightarrow> 2 | Revoked \<Rightarrow> 3)"

definition EvidenceLifecycle_code :: "EvidenceLifecycle \<Rightarrow> u16" where
  "EvidenceLifecycle_code l = (case l of LifecycleAdmitted \<Rightarrow> 1 | LifecycleRejected \<Rightarrow> 2
     | LifecycleRetired \<Rightarrow> 3)"

definition EvidenceState_code :: "EvidenceState \<Rightarrow> u16" where
  "EvidenceState_code s = (case s of StateActive \<Rightarrow> 1 | StateSuperseded \<Rightarrow> 2 | StateRetired \<Rightarrow> 3
     | StateRejected \<Rightarrow> 4 | StateFenced \<Rightarrow> 5 | StateStale \<Rightarrow> 6 | StateOutranked \<Rightarrow> 7 | StateEvicted \<Rightarrow> 8)"

definition SourceKind_to_string :: "SourceKind \<Rightarrow> string" where
  "SourceKind_to_string k = (case k of SyntheticSource \<Rightarrow> ''synthetic''
     | AdjacentRuntimeSource \<Rightarrow> ''adjacent_runtime'' | DeviceSelfReportSource \<Rightarrow> ''device_self_report''
     | OperatorDeclaration \<Rightarrow> ''operator_declaration'' | ImportedBundle \<Rightarrow> ''imported_bundle'')"

definition AuthorityRank_to_string :: "AuthorityRank \<Rightarrow> string" where
  "AuthorityRank_to_string r = (case r of RankNone \<Rightarrow> ''none'' | RankSynthetic \<Rightarrow> ''synthetic''
     | RankImported \<Rightarrow> ''imported'' | RankAdjacentRuntime \<Rightarrow> ''adjacent_runtime''
     | RankDeviceSelfReport \<Rightarrow> ''device_self_report'' | RankOperator \<Rightarrow> ''operator'')"

definition SourceTrustState_to_string :: "SourceTrustState \<Rightarrow> string" where
  "SourceTrustState_to_string t = (case t of Trusted \<Rightarrow> ''trusted'' | Untrusted \<Rightarrow> ''untrusted''
     | Revoked \<Rightarrow> ''revoked'')"

definition EvidenceState_to_string :: "EvidenceState \<Rightarrow> string" where
  "EvidenceState_to_string s = (case s of StateActive \<Rightarrow> ''active'' | StateSuperseded \<Rightarrow> ''superseded''
     | StateRetired \<Rightarrow> ''retired'' | StateRejected \<Rightarrow> ''rejected'' | StateFenced \<Rightarrow> ''fenced''
     | StateStale \<Rightarrow> ''stale'' | StateOutranked \<Rightarrow> ''outranked'' | StateEvicted \<Rightarrow> ''evicted'')"

definition EvidenceLifecycle_to_string :: "EvidenceLifecycle \<Rightarrow> string" where
  "EvidenceLifecycle_to_string l = (case l of LifecycleAdmitted \<Rightarrow> ''admitted''
     | LifecycleRejected \<Rightarrow> ''rejected'' | LifecycleRetired \<Rightarrow> ''retired'')"

definition parse_source_kind :: "string \<Rightarrow> SourceKind option" where
  "parse_source_kind t = find (\<lambda>c. SourceKind_to_string c = t)
     [SyntheticSource, AdjacentRuntimeSource, DeviceSelfReportSource, OperatorDeclaration, ImportedBundle]"

definition parse_authority_rank :: "string \<Rightarrow> AuthorityRank option" where
  "parse_authority_rank t = find (\<lambda>c. AuthorityRank_to_string c = t)
     [RankNone, RankSynthetic, RankImported, RankAdjacentRuntime, RankDeviceSelfReport, RankOperator]"

definition parse_source_trust_state :: "string \<Rightarrow> SourceTrustState option" where
  "parse_source_trust_state t = find (\<lambda>c. SourceTrustState_to_string c = t) [Trusted, Untrusted, Revoked]"

definition parse_evidence_state :: "string \<Rightarrow> EvidenceState option" where
  "parse_evidence_state t = find (\<lambda>c. EvidenceState_to_string c = t)
     [StateActive, StateSuperseded, StateRetired, StateRejected, StateFenced, StateStale, StateOutranked,
      StateEvicted]"

definition parse_evidence_lifecycle :: "string \<Rightarrow> EvidenceLifecycle option" where
  "parse_evidence_lifecycle t = find (\<lambda>c. EvidenceLifecycle_to_string c = t)
     [LifecycleAdmitted, LifecycleRejected, LifecycleRetired]"

lemma parse_by_find:
  assumes "\<And>c. c \<in> set cs" "\<And>a b. f a = f b \<Longrightarrow> a = b"
  shows "find (\<lambda>c. f c = t) cs = Some k \<longleftrightarrow> f k = t"
proof
  show "find (\<lambda>c. f c = t) cs = Some k \<Longrightarrow> f k = t" by (drule find_Some_iff) simp
  assume k: "f k = t"
  then have "find (\<lambda>c. f c = t) cs \<noteq> None" using assms(1) [of k] by (auto simp: find_None_iff)
  then obtain k' where k': "find (\<lambda>c. f c = t) cs = Some k'" by blast
  then have "f k' = t" by (drule_tac find_Some_iff) simp
  then have "k' = k" using assms(2) k by simp
  then show "find (\<lambda>c. f c = t) cs = Some k" using k' by simp
qed

lemma parse_source_kind_iff: "parse_source_kind t = Some k \<longleftrightarrow> SourceKind_to_string k = t"
  unfolding parse_source_kind_def
proof (rule parse_by_find)
  show "c \<in> set [SyntheticSource, AdjacentRuntimeSource, DeviceSelfReportSource, OperatorDeclaration, ImportedBundle]" for c
    by (cases c) simp_all
  show "SourceKind_to_string a = SourceKind_to_string b \<Longrightarrow> a = b" for a b
    by (cases a; cases b) (simp_all add: SourceKind_to_string_def)
qed

lemma parse_authority_rank_iff: "parse_authority_rank t = Some k \<longleftrightarrow> AuthorityRank_to_string k = t"
  unfolding parse_authority_rank_def
proof (rule parse_by_find)
  show "c \<in> set [RankNone, RankSynthetic, RankImported, RankAdjacentRuntime, RankDeviceSelfReport, RankOperator]" for c
    by (cases c) simp_all
  show "AuthorityRank_to_string a = AuthorityRank_to_string b \<Longrightarrow> a = b" for a b
    by (cases a; cases b) (simp_all add: AuthorityRank_to_string_def)
qed

lemma parse_source_trust_state_iff: "parse_source_trust_state t = Some k \<longleftrightarrow> SourceTrustState_to_string k = t"
  unfolding parse_source_trust_state_def
proof (rule parse_by_find)
  show "c \<in> set [Trusted, Untrusted, Revoked]" for c by (cases c) simp_all
  show "SourceTrustState_to_string a = SourceTrustState_to_string b \<Longrightarrow> a = b" for a b
    by (cases a; cases b) (simp_all add: SourceTrustState_to_string_def)
qed

lemma parse_evidence_state_iff: "parse_evidence_state t = Some k \<longleftrightarrow> EvidenceState_to_string k = t"
  unfolding parse_evidence_state_def
proof (rule parse_by_find)
  show "c \<in> set [StateActive, StateSuperseded, StateRetired, StateRejected, StateFenced, StateStale, StateOutranked,
      StateEvicted]" for c
    by (cases c) simp_all
  show "EvidenceState_to_string a = EvidenceState_to_string b \<Longrightarrow> a = b" for a b
    by (cases a; cases b) (simp_all add: EvidenceState_to_string_def)
qed

lemma parse_evidence_lifecycle_iff: "parse_evidence_lifecycle t = Some k \<longleftrightarrow> EvidenceLifecycle_to_string k = t"
  unfolding parse_evidence_lifecycle_def
proof (rule parse_by_find)
  show "c \<in> set [LifecycleAdmitted, LifecycleRejected, LifecycleRetired]" for c by (cases c) simp_all
  show "EvidenceLifecycle_to_string a = EvidenceLifecycle_to_string b \<Longrightarrow> a = b" for a b
    by (cases a; cases b) (simp_all add: EvidenceLifecycle_to_string_def)
qed

text \<open>
  The evidence enumerations and their spellings correspond one to one: each parser accepts exactly
  the canonical spelling of each value, so every kind, rank, trust state, evidence state and lifecycle
  survives printing and parsing.
\<close>

theorem evidence_spellings_iff:
  "(parse_source_kind t = Some a \<longleftrightarrow> SourceKind_to_string a = t)
   \<and> (parse_authority_rank t = Some b \<longleftrightarrow> AuthorityRank_to_string b = t)
   \<and> (parse_source_trust_state t = Some c \<longleftrightarrow> SourceTrustState_to_string c = t)
   \<and> (parse_evidence_state t = Some d \<longleftrightarrow> EvidenceState_to_string d = t)
   \<and> (parse_evidence_lifecycle t = Some e \<longleftrightarrow> EvidenceLifecycle_to_string e = t)"
  by (simp add: parse_source_kind_iff parse_authority_rank_iff parse_source_trust_state_iff
        parse_evidence_state_iff parse_evidence_lifecycle_iff)

text \<open>Authorities are ordered by their numeric value.\<close>

lemma AuthorityRank_code_inj [simp]: "AuthorityRank_code a = AuthorityRank_code b \<longleftrightarrow> a = b"
  by (cases a; cases b) (simp_all add: AuthorityRank_code_def)

instantiation AuthorityRank :: linorder
begin

definition "a \<le> b \<longleftrightarrow> AuthorityRank_code a \<le> AuthorityRank_code b"

definition "a < b \<longleftrightarrow> AuthorityRank_code a < AuthorityRank_code b"

instance
proof
  fix a b :: AuthorityRank
  show "a \<le> b \<Longrightarrow> b \<le> a \<Longrightarrow> a = b"
    by (metis AuthorityRank_code_inj less_eq_AuthorityRank_def order.antisym)
qed (auto simp: less_eq_AuthorityRank_def less_AuthorityRank_def simp del: AuthorityRank_code_inj)

end

section \<open>Identities\<close>

datatype DeviceIdentity = DeviceIdentity
  (di_provider: ProviderId) (di_model: DeviceModelId) (di_unit_index: u32) (di_serial: "DeviceSerialId option")

definition DeviceIdentity_key :: "DeviceIdentity \<Rightarrow> string \<times> string \<times> u32 \<times> string option" where
  "DeviceIdentity_key d = (di_provider d, di_model d, di_unit_index d, di_serial d)"

definition DeviceIdentity_compare :: "DeviceIdentity \<Rightarrow> DeviceIdentity \<Rightarrow> strong_ordering" where
  "DeviceIdentity_compare a b =
     (if di_provider a \<noteq> di_provider b then Name_compare (di_provider a) (di_provider b)
      else if di_model a \<noteq> di_model b then Name_compare (di_model a) (di_model b)
      else if di_unit_index a \<noteq> di_unit_index b then spaceship (di_unit_index a) (di_unit_index b)
      else (case (di_serial a, di_serial b) of
              (Some x, Some y) \<Rightarrow> Name_compare x y
            | (Some x, None) \<Rightarrow> GT
            | (None, Some y) \<Rightarrow> LT
            | (None, None) \<Rightarrow> EQ))"

lemma DeviceIdentity_key_inj [simp]: "DeviceIdentity_key a = DeviceIdentity_key b \<longleftrightarrow> a = b"
  by (cases a; cases b) (simp add: DeviceIdentity_key_def)

instantiation DeviceIdentity :: linorder
begin

definition "a \<le> b \<longleftrightarrow> DeviceIdentity_key a \<le> DeviceIdentity_key b"

definition "a < b \<longleftrightarrow> DeviceIdentity_key a < DeviceIdentity_key b"

instance
proof
  fix a b :: DeviceIdentity
  show "a \<le> b \<Longrightarrow> b \<le> a \<Longrightarrow> a = b"
    by (metis DeviceIdentity_key_inj less_eq_DeviceIdentity_def order.antisym)
qed (auto simp: less_eq_DeviceIdentity_def less_DeviceIdentity_def simp del: DeviceIdentity_key_inj)

end

datatype DeviceIncarnationRef = DeviceIncarnationRef (dr_device: DeviceIdentity) (dr_incarnation: IncarnationId)

definition DeviceIncarnationRef_key :: "DeviceIncarnationRef \<Rightarrow> DeviceIdentity \<times> u64" where
  "DeviceIncarnationRef_key d = (dr_device d, dr_incarnation d)"

definition DeviceIncarnationRef_compare :: "DeviceIncarnationRef \<Rightarrow> DeviceIncarnationRef \<Rightarrow> strong_ordering" where
  "DeviceIncarnationRef_compare a b =
     (if dr_device a \<noteq> dr_device b then DeviceIdentity_compare (dr_device a) (dr_device b)
      else spaceship (dr_incarnation a) (dr_incarnation b))"

lemma DeviceIncarnationRef_key_inj [simp]: "DeviceIncarnationRef_key a = DeviceIncarnationRef_key b \<longleftrightarrow> a = b"
  by (cases a; cases b) (simp add: DeviceIncarnationRef_key_def)

instantiation DeviceIncarnationRef :: linorder
begin

definition "a \<le> b \<longleftrightarrow> DeviceIncarnationRef_key a \<le> DeviceIncarnationRef_key b"

definition "a < b \<longleftrightarrow> DeviceIncarnationRef_key a < DeviceIncarnationRef_key b"

instance
proof
  fix a b :: DeviceIncarnationRef
  show "a \<le> b \<Longrightarrow> b \<le> a \<Longrightarrow> a = b"
    by (metis DeviceIncarnationRef_key_inj less_eq_DeviceIncarnationRef_def order.antisym)
qed (auto simp: less_eq_DeviceIncarnationRef_def less_DeviceIncarnationRef_def simp del: DeviceIncarnationRef_key_inj)

end

datatype SourceIncarnation = SourceIncarnation (si_source: SourceId) (si_counter: SourceIncarnationCounter)

definition SourceIncarnation_compare :: "SourceIncarnation \<Rightarrow> SourceIncarnation \<Rightarrow> strong_ordering" where
  "SourceIncarnation_compare a b =
     (if si_source a \<noteq> si_source b then Name_compare (si_source a) (si_source b)
      else spaceship (si_counter a) (si_counter b))"

datatype EvidenceKey = EvidenceKey
  (key_device: DeviceIncarnationRef) (key_kind: CapabilityKind) (key_source: SourceId)

definition EvidenceKey_key :: "EvidenceKey \<Rightarrow> DeviceIncarnationRef \<times> u16 \<times> string" where
  "EvidenceKey_key k = (key_device k, kind_code (key_kind k), key_source k)"

definition EvidenceKey_compare :: "EvidenceKey \<Rightarrow> EvidenceKey \<Rightarrow> strong_ordering" where
  "EvidenceKey_compare a b =
     (if key_device a \<noteq> key_device b then DeviceIncarnationRef_compare (key_device a) (key_device b)
      else if key_kind a \<noteq> key_kind b then
        (if kind_code (key_kind a) < kind_code (key_kind b) then LT else GT)
      else Name_compare (key_source a) (key_source b))"

lemma EvidenceKey_key_inj [simp]: "EvidenceKey_key a = EvidenceKey_key b \<longleftrightarrow> a = b"
  by (cases a; cases b) (simp add: EvidenceKey_key_def)

instantiation EvidenceKey :: linorder
begin

definition "a \<le> b \<longleftrightarrow> EvidenceKey_key a \<le> EvidenceKey_key b"

definition "a < b \<longleftrightarrow> EvidenceKey_key a < EvidenceKey_key b"

instance
proof
  fix a b :: EvidenceKey
  show "a \<le> b \<Longrightarrow> b \<le> a \<Longrightarrow> a = b"
    by (metis EvidenceKey_key_inj less_eq_EvidenceKey_def order.antisym)
qed (auto simp: less_eq_EvidenceKey_def less_EvidenceKey_def simp del: EvidenceKey_key_inj)

end

text \<open>Capability kinds are ordered by their code, as \<open>std::map<CapabilityKind, ...>\<close> orders them.\<close>

instantiation CapabilityKind :: linorder
begin

definition "a \<le> b \<longleftrightarrow> kind_code a \<le> kind_code b"

definition "a < b \<longleftrightarrow> kind_code a < kind_code b"

instance
proof
  fix a b :: CapabilityKind
  show "a \<le> b \<Longrightarrow> b \<le> a \<Longrightarrow> a = b"
    by (metis kind_code_inj less_eq_CapabilityKind_def order.antisym)
qed (auto simp: less_eq_CapabilityKind_def less_CapabilityKind_def simp del: kind_code_inj)

end

text \<open>The comparison operators are the instances' orders.\<close>

lemma spaceship_key: "(\<And>a b. a < b \<longleftrightarrow> key a < key b) \<Longrightarrow> (\<And>a b. key a = key b \<longleftrightarrow> a = b) \<Longrightarrow>
    spaceship a b = spaceship (key a) (key b)"
  by (auto simp: spaceship_def)

lemma DeviceIdentity_compare_spaceship: "DeviceIdentity_compare a b = spaceship a b"
proof -
  have "spaceship a b = spaceship (DeviceIdentity_key a) (DeviceIdentity_key b)"
    by (rule spaceship_key) (simp_all add: less_DeviceIdentity_def)
  then show ?thesis
    by (auto simp: DeviceIdentity_compare_def DeviceIdentity_key_def Name_compare_def spaceship_Pair
          split: option.splits) (auto simp: spaceship_def)
qed

lemma DeviceIncarnationRef_compare_spaceship: "DeviceIncarnationRef_compare a b = spaceship a b"
proof -
  have "spaceship a b = spaceship (DeviceIncarnationRef_key a) (DeviceIncarnationRef_key b)"
    by (rule spaceship_key) (simp_all add: less_DeviceIncarnationRef_def)
  then show ?thesis
    by (auto simp: DeviceIncarnationRef_compare_def DeviceIncarnationRef_key_def spaceship_Pair
          DeviceIdentity_compare_spaceship)
qed

text \<open>
  The registry's map keys are totally ordered by the source's comparison operators: comparing two
  stream keys field by field (device, then kind code, then source, an absent serial before a present
  one) is a linear order consistent with equality, so a \<open>std::map\<close> over them has exactly one iteration
  order.
\<close>

theorem EvidenceKey_compare_linear:
  "EvidenceKey_compare a b = spaceship a b \<and> DeviceIdentity_compare d e = spaceship d e
   \<and> (EvidenceKey_compare a b = EQ \<longleftrightarrow> a = b)"
proof -
  have "spaceship a b = spaceship (EvidenceKey_key a) (EvidenceKey_key b)"
    by (rule spaceship_key) (simp_all add: less_EvidenceKey_def)
  then have "EvidenceKey_compare a b = spaceship a b"
    by (auto simp: EvidenceKey_compare_def EvidenceKey_key_def spaceship_Pair Name_compare_def
          DeviceIncarnationRef_compare_spaceship) (auto simp: spaceship_def)
  then show ?thesis by (simp add: DeviceIdentity_compare_spaceship)
qed

section \<open>Records\<close>

record CapabilityEvidence =
  e_key :: EvidenceKey
  e_source_incarnation :: SourceIncarnation
  e_capability_version :: SemVer
  e_features :: FeatureSet
  e_limits :: LimitSet
  e_firmware_version :: "SemVer option"
  e_firmware_generation :: FirmwareGeneration
  e_runtime_version :: "SemVer option"
  e_runtime_generation :: RuntimeGeneration
  e_observed_at :: Tick
  e_valid_until :: "Tick option"
  e_generation :: RecordGeneration
  e_authority :: AuthorityRank
  e_epoch_at_ingest :: RegistryEpoch
  e_boot_at_ingest :: BootEpoch
  e_policy_revision :: PolicyRevision
  e_id_cache :: Digest256

record StoredEvidence =
  s_evidence :: CapabilityEvidence
  s_lifecycle :: EvidenceLifecycle
  s_admission_reason :: ReasonCode
  s_admitted_at :: Tick
  s_retired_at :: "Tick option"
  s_retirement_reason :: ReasonCode

definition evidence_id :: "CapabilityEvidence \<Rightarrow> EvidenceId" where
  "evidence_id e = e_id_cache e"

definition stored_id :: "StoredEvidence \<Rightarrow> EvidenceId" where
  "stored_id s = evidence_id (s_evidence s)"

record RetirementRecord =
  rr_key :: EvidenceKey
  rr_generation :: RecordGeneration
  rr_retired_at :: Tick
  rr_reason :: ReasonCode
  rr_epoch :: RegistryEpoch
  rr_policy_revision :: PolicyRevision
  rr_authority :: AuthorityRank

record ConflictGroup =
  cg_id :: ConflictId
  cg_device :: DeviceIncarnationRef
  cg_kind :: CapabilityKind
  cg_authority :: AuthorityRank
  cg_members :: "EvidenceId list"
  cg_generations :: "RecordGeneration list"
  cg_observed_first :: Tick
  cg_observed_last :: Tick

record ConflictResolution =
  cr_id :: ResolutionId
  cr_conflict :: ConflictId
  cr_chosen :: EvidenceId
  cr_rejected_members :: "EvidenceId list"
  cr_resolver :: SourceId
  cr_resolved_at :: Tick
  cr_epoch :: RegistryEpoch

record EvictionEntry =
  ev_id :: EvidenceId
  ev_key :: EvidenceKey
  ev_generation :: RecordGeneration
  ev_state_at_eviction :: EvidenceState
  ev_reason :: ReasonCode
  ev_evicted_at :: Tick

end
