(* ===== verification/Policy.thy ===== *)
theory Policy
  imports Evidence
begin

text \<open>
  The data of the registry's interface: policies, requests, outcomes and the durable state of
  \<open>include/ocreg/registry.hpp\<close>, the requirements and decisions of \<open>include/ocreg/decision.hpp\<close>, and the
  spellings and the lab policy of \<open>src/registry.cpp\<close>.

  Bounds (\<open>std::size_t\<close>) are natural numbers; counters, ticks and generations are 64-bit words.
\<close>

section \<open>Policies\<close>

datatype BootPolicy = ConservativeFence | CarryForwardWithinFreshness

datatype ClockMode = Manual | SystemMonotonic

record RegistryLimits =
  max_devices :: nat
  max_incarnations_per_device :: nat
  max_streams :: nat
  max_records :: nat
  max_records_per_stream :: nat
  max_tombstones :: nat
  max_conflict_groups :: nat
  max_resolutions :: nat
  max_eviction_ledger :: nat
  max_sources :: nat
  max_decisions :: nat
  max_features_per_record :: nat
  max_limits_per_record :: nat
  max_limits_per_requirement :: nat
  max_required_features :: nat

definition default_limits :: RegistryLimits where
  "default_limits = \<lparr>max_devices = 4096, max_incarnations_per_device = 64, max_streams = 65536,
     max_records = 262144, max_records_per_stream = 64, max_tombstones = 65536,
     max_conflict_groups = 16384, max_resolutions = 16384, max_eviction_ledger = 65536,
     max_sources = 1024, max_decisions = 8192, max_features_per_record = kMaxFeaturesPerRecord,
     max_limits_per_record = kMaxLimitsPerRecord, max_limits_per_requirement = kMaxLimitsPerRecord,
     max_required_features = kMaxFeaturesPerRecord\<rparr>"

record SourcePolicy =
  sp_id :: SourceId
  sp_kind :: SourceKind
  sp_authority :: AuthorityRank
  sp_trust :: SourceTrustState
  sp_max_age :: Tick
  sp_durable_across_boot :: bool

record RegistryPolicy =
  p_sources :: "SourcePolicy list"
  p_require_configured_source :: bool
  p_refuse_untrusted_sources :: bool
  p_boot_policy :: BootPolicy
  p_clock_mode :: ClockMode
  p_retention_horizon :: Tick
  p_max_future_skew :: Tick
  p_default_max_age :: Tick
  p_limits :: RegistryLimits
  p_rule_generation :: RuleGeneration
  p_policy_name :: string

definition find_source :: "RegistryPolicy \<Rightarrow> SourceId \<Rightarrow> SourcePolicy option" where
  "find_source policy sid = find (\<lambda>s. sp_id s = sid) (p_sources policy)"

text \<open>\<open>std::sort\<close> of the sources; \<open>SourcePolicy::operator<=>\<close> compares the ids.\<close>

definition sort_sources :: "SourcePolicy list \<Rightarrow> SourcePolicy list" where
  "sort_sources xs = sort_key sp_id xs"

definition BootPolicy_to_string :: "BootPolicy \<Rightarrow> string" where
  "BootPolicy_to_string p = (case p of ConservativeFence \<Rightarrow> ''conservative_fence''
     | CarryForwardWithinFreshness \<Rightarrow> ''carry_forward_within_freshness'')"

definition ClockMode_to_string :: "ClockMode \<Rightarrow> string" where
  "ClockMode_to_string m = (case m of Manual \<Rightarrow> ''manual'' | SystemMonotonic \<Rightarrow> ''system_monotonic'')"

definition parse_boot_policy :: "string \<Rightarrow> BootPolicy option" where
  "parse_boot_policy t = (if t = ''conservative_fence'' then Some ConservativeFence
     else if t = ''carry_forward_within_freshness'' then Some CarryForwardWithinFreshness else None)"

definition parse_clock_mode :: "string \<Rightarrow> ClockMode option" where
  "parse_clock_mode t = (if t = ''manual'' then Some Manual
     else if t = ''system_monotonic'' then Some SystemMonotonic else None)"

definition lab_source :: "string \<Rightarrow> SourceKind \<Rightarrow> AuthorityRank \<Rightarrow> Tick \<Rightarrow> bool \<Rightarrow> SourcePolicy list" where
  "lab_source sid kind authority max_age durable =
     (case Name_parse sid of None \<Rightarrow> []
      | Some parsed \<Rightarrow> [\<lparr>sp_id = parsed, sp_kind = kind, sp_authority = authority, sp_trust = Trusted,
          sp_max_age = max_age, sp_durable_across_boot = durable\<rparr>])"

definition make_lab_policy :: RegistryPolicy where
  "make_lab_policy = \<lparr>p_sources = sort_sources
       (lab_source ''fixture-sim'' SyntheticSource RankSynthetic 1000000000 False
        @ lab_source ''topology-relay'' AdjacentRuntimeSource RankAdjacentRuntime 2000000000 False
        @ lab_source ''driver-selfreport'' DeviceSelfReportSource RankDeviceSelfReport 1000000000 False
        @ lab_source ''bundle-import'' ImportedBundle RankImported 60000000000 False
        @ lab_source ''operator-declared'' OperatorDeclaration RankOperator 0 True),
     p_require_configured_source = True, p_refuse_untrusted_sources = True,
     p_boot_policy = ConservativeFence, p_clock_mode = Manual, p_retention_horizon = 0, p_max_future_skew = 0,
     p_default_max_age = 1000000000, p_limits = default_limits, p_rule_generation = 1,
     p_policy_name = ''ocreg-lab-v1''\<rparr>"

section \<open>Requests and outcomes\<close>

record AdmissionRequest =
  ar_device :: DeviceIncarnationRef
  ar_kind :: CapabilityKind
  ar_source :: SourceIncarnation
  ar_capability_version :: SemVer
  ar_features :: FeatureSet
  ar_limits :: LimitSet
  ar_firmware_version :: "SemVer option"
  ar_firmware_generation :: FirmwareGeneration
  ar_runtime_version :: "SemVer option"
  ar_runtime_generation :: RuntimeGeneration
  ar_observed_at :: Tick
  ar_valid_until :: "Tick option"
  ar_generation :: RecordGeneration

record AdmissionOutcome =
  ao_id :: EvidenceId
  ao_state :: EvidenceState
  ao_reason :: ReasonCode
  ao_idempotent :: bool
  ao_superseded :: "EvidenceId list"
  ao_evicted :: "EvidenceId list"
  ao_conflict :: "ConflictId option"
  ao_stream_generation :: RecordGeneration
  ao_conflicts_opened :: u64

record RetirementRequest =
  rq_device :: DeviceIncarnationRef
  rq_kind :: CapabilityKind
  rq_source :: SourceId
  rq_generation :: RecordGeneration
  rq_retired_at :: Tick
  rq_reason :: ReasonCode

record RetirementOutcome =
  ro_key :: EvidenceKey
  ro_generation :: RecordGeneration
  ro_reason :: ReasonCode
  ro_idempotent :: bool
  ro_retired :: "EvidenceId list"
  ro_evicted :: "EvidenceId list"

section \<open>Requirements and decisions\<close>

datatype DecisionKind = Compatible | Incompatible | Unknown | Conflicted

definition DecisionKind_code :: "DecisionKind \<Rightarrow> u16" where
  "DecisionKind_code k = (case k of Compatible \<Rightarrow> 1 | Incompatible \<Rightarrow> 2 | Unknown \<Rightarrow> 3 | Conflicted \<Rightarrow> 4)"

definition DecisionKind_to_string :: "DecisionKind \<Rightarrow> string" where
  "DecisionKind_to_string k = (case k of Compatible \<Rightarrow> ''compatible'' | Incompatible \<Rightarrow> ''incompatible''
     | Unknown \<Rightarrow> ''unknown'' | Conflicted \<Rightarrow> ''conflicted'')"

definition parse_decision_kind :: "string \<Rightarrow> DecisionKind option" where
  "parse_decision_kind t = find (\<lambda>c. DecisionKind_to_string c = t) [Compatible, Incompatible, Unknown, Conflicted]"

record LimitRequirement =
  lr_code :: LimitCode
  lr_unit :: Unit
  lr_minimum :: i64

record CapabilityRequirement =
  cq_device :: DeviceIncarnationRef
  cq_capability :: CapabilityKind
  cq_version :: VersionRequirement
  required_features :: FeatureSet
  required_limits :: "LimitRequirement list"
  minimum_firmware_version :: "SemVer option"
  minimum_firmware_generation :: "FirmwareGeneration option"
  minimum_runtime_version :: "SemVer option"
  minimum_runtime_generation :: "RuntimeGeneration option"
  max_evidence_age :: Tick

record EvidenceStateFact =
  ef_id :: EvidenceId
  ef_lifecycle :: EvidenceLifecycle
  ef_state :: EvidenceState
  ef_reason :: ReasonCode
  ef_observed_at :: Tick
  ef_age :: Tick
  ef_authority :: AuthorityRank
  ef_generation :: RecordGeneration
  ef_source_incarnation :: SourceIncarnation
  ef_capability_version :: SemVer
  ef_features :: FeatureSet
  ef_limits :: LimitSet
  ef_firmware_version :: "SemVer option"
  ef_runtime_version :: "SemVer option"

record CompatibilityDecision =
  d_id :: DecisionId
  d_kind :: DecisionKind
  d_device :: DeviceIncarnationRef
  d_capability :: CapabilityKind
  d_requirement :: CapabilityRequirement
  d_reasons :: "ReasonCode list"
  d_evidence :: "EvidenceId list"
  d_evidence_facts :: "EvidenceStateFact list"
  d_selected :: "EvidenceId option"
  d_conflict :: "ConflictId option"
  d_selected_authority :: AuthorityRank
  d_rule_generation :: RuleGeneration
  d_registry_epoch :: RegistryEpoch
  d_policy_revision :: PolicyRevision
  d_evaluated_at :: Tick

section \<open>Queries and durable state\<close>

record CapabilityQuery =
  q_device :: DeviceIncarnationRef
  q_kind :: CapabilityKind
  q_max_evidence_age :: Tick
  q_include_history :: bool

record QueryResult =
  qr_kind :: DecisionKind
  qr_device :: DeviceIncarnationRef
  qr_kind_requested :: CapabilityKind
  qr_reasons :: "ReasonCode list"
  qr_facts :: "EvidenceStateFact list"
  qr_selected :: "EvidenceId option"
  qr_conflict :: "ConflictId option"
  qr_rule_generation :: RuleGeneration
  qr_registry_epoch :: RegistryEpoch
  qr_policy_revision :: PolicyRevision
  qr_evaluated_at :: Tick

record Explanation =
  ex_decision :: CompatibilityDecision
  ex_involved_sources :: "SourcePolicy list"
  ex_conflict :: "ConflictGroup option"
  ex_resolution :: "ConflictResolution option"
  ex_decision_available :: bool
  ex_reason :: ReasonCode

text \<open>\<open>RegistryStats\<close> of \<open>decision.hpp\<close>.\<close>

record RegistryStats =
  st_devices :: u64
  st_incarnations :: u64
  st_streams :: u64
  st_records_total :: u64
  st_records_active :: u64
  st_records_superseded :: u64
  st_records_retired :: u64
  st_records_rejected :: u64
  st_records_fenced :: u64
  st_records_stale :: u64
  st_records_outranked :: u64
  st_records_evicted :: u64
  st_conflicts_open :: u64
  st_conflicts_resolved :: u64
  st_tombstones :: u64
  st_resolutions :: u64
  st_eviction_ledger_dropped :: u64
  st_conflicts_dropped :: u64
  st_resolutions_dropped :: u64
  st_tombstones_dropped :: u64
  st_decisions_emitted :: u64
  st_decisions_evicted :: u64
  st_admissions_accepted :: u64
  st_admissions_idempotent :: u64
  st_admissions_rejected :: u64
  st_retirements_accepted :: u64
  st_retirements_rejected :: u64
  st_registry_epoch :: RegistryEpoch
  st_rule_generation :: RuleGeneration
  st_policy_revision :: PolicyRevision
  st_boot_epoch :: BootEpoch
  st_logical_tick :: Tick

record DeviceIncarnationEntry =
  ie_device :: DeviceIdentity
  ie_current :: IncarnationId
  ie_history :: "IncarnationId list"

record RegistryCounters =
  admissions_accepted :: u64
  admissions_idempotent :: u64
  admissions_rejected :: u64
  retirements_accepted :: u64
  retirements_rejected :: u64
  decisions_emitted :: u64
  decisions_evicted :: u64
  conflicts_resolved :: u64
  evictions_total :: u64
  eviction_ledger_dropped :: u64
  conflicts_dropped :: u64
  resolutions_dropped :: u64
  tombstones_dropped :: u64

definition zero_counters :: RegistryCounters where
  "zero_counters = \<lparr>admissions_accepted = 0, admissions_idempotent = 0, admissions_rejected = 0,
     retirements_accepted = 0, retirements_rejected = 0, decisions_emitted = 0, decisions_evicted = 0,
     conflicts_resolved = 0, evictions_total = 0, eviction_ledger_dropped = 0, conflicts_dropped = 0,
     resolutions_dropped = 0, tombstones_dropped = 0\<rparr>"

record RegistryState =
  rs_policy :: RegistryPolicy
  rs_epoch :: RegistryEpoch
  rs_rule_generation :: RuleGeneration
  rs_policy_revision :: PolicyRevision
  rs_boot_epoch :: BootEpoch
  rs_store_generation :: StoreGeneration
  rs_logical_tick :: Tick
  rs_next_incarnation :: u64
  rs_incarnations :: "DeviceIncarnationEntry list"
  rs_records :: "StoredEvidence list"
  rs_tombstones :: "RetirementRecord list"
  rs_conflicts :: "ConflictGroup list"
  rs_resolutions :: "ConflictResolution list"
  rs_evictions :: "EvictionEntry list"
  rs_counters :: RegistryCounters

datatype RecoveryClass = CleanOpen | TornTailTruncated | TrailingCorruptDropped | RebuiltFromSnapshot
  | JournalReplayed | Refused

definition RecoveryClass_to_string :: "RecoveryClass \<Rightarrow> string" where
  "RecoveryClass_to_string c = (case c of CleanOpen \<Rightarrow> ''clean_open''
     | TornTailTruncated \<Rightarrow> ''torn_tail_truncated'' | TrailingCorruptDropped \<Rightarrow> ''trailing_corrupt_dropped''
     | RebuiltFromSnapshot \<Rightarrow> ''rebuilt_from_snapshot'' | JournalReplayed \<Rightarrow> ''journal_replayed''
     | Refused \<Rightarrow> ''refused'')"

definition parse_recovery_class :: "string \<Rightarrow> RecoveryClass option" where
  "parse_recovery_class t = find (\<lambda>c. RecoveryClass_to_string c = t)
     [CleanOpen, TornTailTruncated, TrailingCorruptDropped, RebuiltFromSnapshot, JournalReplayed, Refused]"

record RecoverySummary =
  classification :: RecoveryClass
  rec_reason :: ReasonCode
  records_adopted :: u64
  records_fenced :: u64
  records_carried_forward :: u64
  tombstones_adopted :: u64
  conflicts_adopted :: u64
  resolutions_adopted :: u64
  evictions_adopted :: u64
  journal_records_replayed :: u64
  journal_records_dropped :: u64
  bytes_discarded :: u64
  rec_snapshot_generation :: u64
  rec_previous_boot_epoch :: BootEpoch
  rec_boot_epoch :: BootEpoch
  rec_notes :: "ReasonCode list"

section \<open>Lookup and spellings\<close>

lemma find_source_id: "find_source p sid = Some s \<Longrightarrow> sp_id s = sid \<and> s \<in> set (p_sources p)"
  unfolding find_source_def by (drule find_Some_iff) simp

lemma find_source_iff:
  "distinct (map sp_id (p_sources p)) \<Longrightarrow> find_source p sid = Some s \<longleftrightarrow> s \<in> set (p_sources p) \<and> sp_id s = sid"
  unfolding find_source_def by (rule find_key_iff)

lemma sort_sources_props [simp]:
  "set (sort_sources xs) = set xs" "sorted (map sp_id (sort_sources xs))" "length (sort_sources xs) = length xs"
  by (simp_all add: sort_sources_def)

lemma lab_names:
  "Name_parse ''fixture-sim'' = Some ''fixture-sim''"
  "Name_parse ''topology-relay'' = Some ''topology-relay''"
  "Name_parse ''driver-selfreport'' = Some ''driver-selfreport''"
  "Name_parse ''bundle-import'' = Some ''bundle-import''"
  "Name_parse ''operator-declared'' = Some ''operator-declared''"
  by code_simp+

lemma lab_sources: "p_sources make_lab_policy =
  [\<lparr>sp_id = ''bundle-import'', sp_kind = ImportedBundle, sp_authority = RankImported, sp_trust = Trusted,
     sp_max_age = 60000000000, sp_durable_across_boot = False\<rparr>,
   \<lparr>sp_id = ''driver-selfreport'', sp_kind = DeviceSelfReportSource, sp_authority = RankDeviceSelfReport,
     sp_trust = Trusted, sp_max_age = 1000000000, sp_durable_across_boot = False\<rparr>,
   \<lparr>sp_id = ''fixture-sim'', sp_kind = SyntheticSource, sp_authority = RankSynthetic, sp_trust = Trusted,
     sp_max_age = 1000000000, sp_durable_across_boot = False\<rparr>,
   \<lparr>sp_id = ''operator-declared'', sp_kind = OperatorDeclaration, sp_authority = RankOperator,
     sp_trust = Trusted, sp_max_age = 0, sp_durable_across_boot = True\<rparr>,
   \<lparr>sp_id = ''topology-relay'', sp_kind = AdjacentRuntimeSource, sp_authority = RankAdjacentRuntime,
     sp_trust = Trusted, sp_max_age = 2000000000, sp_durable_across_boot = False\<rparr>]"
  by (simp add: make_lab_policy_def sort_sources_def lab_source_def lab_names)

text \<open>
  The lab policy the tools ship is well formed: its sources are strictly sorted by canonical names
  (so each is found by its id), only the operator source is durable across a restart and never stale,
  and every spelling of a boot policy, clock mode, decision kind and recovery class parses back.
\<close>

theorem make_lab_policy_wf:
  "sorted_wrt (<) (map sp_id (p_sources make_lab_policy))
   \<and> list_all (\<lambda>s. Name_parse (sp_id s) = Some (sp_id s)) (p_sources make_lab_policy)
   \<and> list_all (\<lambda>s. (sp_durable_across_boot s \<longleftrightarrow> sp_kind s = OperatorDeclaration)
        \<and> (sp_max_age s = 0 \<longleftrightarrow> sp_kind s = OperatorDeclaration)) (p_sources make_lab_policy)
   \<and> length (p_sources make_lab_policy) = 5
   \<and> (parse_boot_policy t = Some bp \<longleftrightarrow> BootPolicy_to_string bp = t)
   \<and> (parse_clock_mode t = Some cm \<longleftrightarrow> ClockMode_to_string cm = t)
   \<and> (parse_decision_kind t = Some dk \<longleftrightarrow> DecisionKind_to_string dk = t)
   \<and> (parse_recovery_class t = Some rc \<longleftrightarrow> RecoveryClass_to_string rc = t)"
proof (intro conjI)
  show "sorted_wrt (<) (map sp_id (p_sources make_lab_policy))"
    by (simp add: lab_sources)
  show "list_all (\<lambda>s. Name_parse (sp_id s) = Some (sp_id s)) (p_sources make_lab_policy)"
    by (simp add: lab_sources lab_names)
  show "list_all (\<lambda>s. (sp_durable_across_boot s \<longleftrightarrow> sp_kind s = OperatorDeclaration)
        \<and> (sp_max_age s = 0 \<longleftrightarrow> sp_kind s = OperatorDeclaration)) (p_sources make_lab_policy)"
    by (simp add: lab_sources)
  show "length (p_sources make_lab_policy) = 5" by (simp add: lab_sources)
  show "parse_boot_policy t = Some bp \<longleftrightarrow> BootPolicy_to_string bp = t"
    by (cases bp) (auto simp: parse_boot_policy_def BootPolicy_to_string_def)
  show "parse_clock_mode t = Some cm \<longleftrightarrow> ClockMode_to_string cm = t"
    by (cases cm) (auto simp: parse_clock_mode_def ClockMode_to_string_def)
  show "parse_decision_kind t = Some dk \<longleftrightarrow> DecisionKind_to_string dk = t"
    unfolding parse_decision_kind_def
  proof (rule parse_by_find)
    show "c \<in> set [Compatible, Incompatible, Unknown, Conflicted]" for c by (cases c) simp_all
    show "DecisionKind_to_string a = DecisionKind_to_string b \<Longrightarrow> a = b" for a b
      by (cases a; cases b) (simp_all add: DecisionKind_to_string_def)
  qed
  show "parse_recovery_class t = Some rc \<longleftrightarrow> RecoveryClass_to_string rc = t"
    unfolding parse_recovery_class_def
  proof (rule parse_by_find)
    show "c \<in> set [CleanOpen, TornTailTruncated, TrailingCorruptDropped, RebuiltFromSnapshot, JournalReplayed, Refused]" for c
      by (cases c) simp_all
    show "RecoveryClass_to_string a = RecoveryClass_to_string b \<Longrightarrow> a = b" for a b
      by (cases a; cases b) (simp_all add: RecoveryClass_to_string_def)
  qed
qed

end
