(* ===== verification/Compat.thy ===== *)
theory Compat
  imports Policy
begin

text \<open>
  The compatibility comparison: \<open>src/compat.cpp\<close> and \<open>src/compat_internal.hpp\<close>.

  \<open>compare_requirement\<close> collects a reason for every part of a requirement that the evidence does not
  meet or cannot settle, then classifies. The specification below says what it means for one part to be
  met, positively unmet or undecided, as statements about versions, sets and exact quantities; the
  claims show that the result is Compatible exactly when every part is met and Incompatible exactly
  when some part is positively unmet.
\<close>

record ComparisonResult =
  c_kind :: DecisionKind
  c_reasons :: "ReasonCode list"

definition compare_limit :: "LimitRequirement \<Rightarrow> CapabilityEvidence \<Rightarrow> ReasonCode list" where
  "compare_limit required e =
     (case LimitSet_find (e_limits e) (lr_code required) of
        None \<Rightarrow> [UnknownLimitNotReported]
      | Some reported \<Rightarrow>
          if dimension_of (u_code (lv_unit reported)) \<noteq> dimension_of (u_code (lr_unit required))
          then [UnknownUnitMismatch]
          else (case compare_exact (lv_value reported) (lv_unit reported) (lr_minimum required) (lr_unit required) of
                  None \<Rightarrow> [UnknownInexactUnitConversion]
                | Some ord \<Rightarrow> if ord = LT then [IncompatibleLimitBelowRequirement] else []))"

definition compare_min_version :: "SemVer option \<Rightarrow> SemVer option \<Rightarrow> ReasonCode \<Rightarrow> ReasonCode \<Rightarrow> ReasonCode list" where
  "compare_min_version required reported absent too_low =
     (case required of None \<Rightarrow> []
      | Some m \<Rightarrow> (case reported of None \<Rightarrow> [absent]
                   | Some v \<Rightarrow> if precedence_compare v m = LT then [too_low] else []))"

definition compare_min_generation :: "u64 option \<Rightarrow> u64 \<Rightarrow> ReasonCode \<Rightarrow> ReasonCode \<Rightarrow> ReasonCode list" where
  "compare_min_generation required reported absent too_low =
     (case required of None \<Rightarrow> []
      | Some m \<Rightarrow> if is_unset reported then [absent] else if reported < m then [too_low] else [])"

text \<open>The reasons in the order the body appends them.\<close>

definition requirement_reasons :: "CapabilityRequirement \<Rightarrow> CapabilityEvidence \<Rightarrow> ReasonCode list" where
  "requirement_reasons r e =
     (if \<not> satisfied_by (cq_version r) (e_capability_version e) then [IncompatibleVersionTooLow] else [])
     @ concat (map (\<lambda>c. if \<not> FeatureSet_contains (e_features e) c then [IncompatibleFeatureAbsent] else [])
         (required_features r))
     @ concat (map (\<lambda>l. compare_limit l e) (required_limits r))
     @ compare_min_version (minimum_firmware_version r) (e_firmware_version e)
         UnknownFirmwareGenerationAbsent IncompatibleFirmwareGenerationTooLow
     @ compare_min_generation (minimum_firmware_generation r) (e_firmware_generation e)
         UnknownFirmwareGenerationAbsent IncompatibleFirmwareGenerationTooLow
     @ compare_min_version (minimum_runtime_version r) (e_runtime_version e)
         UnknownRuntimeGenerationAbsent IncompatibleRuntimeGenerationTooLow
     @ compare_min_generation (minimum_runtime_generation r) (e_runtime_generation e)
         UnknownRuntimeGenerationAbsent IncompatibleRuntimeGenerationTooLow"

definition compare_requirement :: "CapabilityRequirement \<Rightarrow> CapabilityEvidence \<Rightarrow> ComparisonResult" where
  "compare_requirement r e =
     (let reasons = canonicalize_reasons (requirement_reasons r e) in
      if list_ex (\<lambda>c. category_of c = ReasonCategory.Incompatible) reasons
      then \<lparr>c_kind = DecisionKind.Incompatible, c_reasons = reasons\<rparr>
      else if list_ex (\<lambda>c. category_of c = UnknownCategory) reasons
      then \<lparr>c_kind = Unknown, c_reasons = reasons\<rparr>
      else \<lparr>c_kind = Compatible, c_reasons = reasons\<rparr>)"

section \<open>What it means for a part of a requirement to be met\<close>

definition quantity :: "i64 \<Rightarrow> Unit \<Rightarrow> int" where
  "quantity v u = sint v * int (unit_factor u)"

definition limit_met :: "LimitRequirement \<Rightarrow> CapabilityEvidence \<Rightarrow> bool" where
  "limit_met l e = (\<exists>v ord. LimitSet_find (e_limits e) (lr_code l) = Some v
     \<and> dimension_of (u_code (lv_unit v)) = dimension_of (u_code (lr_unit l))
     \<and> compare_exact (lv_value v) (lv_unit v) (lr_minimum l) (lr_unit l) = Some ord \<and> ord \<noteq> LT)"

definition limit_unmet :: "LimitRequirement \<Rightarrow> CapabilityEvidence \<Rightarrow> bool" where
  "limit_unmet l e = (\<exists>v. LimitSet_find (e_limits e) (lr_code l) = Some v
     \<and> dimension_of (u_code (lv_unit v)) = dimension_of (u_code (lr_unit l))
     \<and> compare_exact (lv_value v) (lv_unit v) (lr_minimum l) (lr_unit l) = Some LT)"

definition version_met :: "SemVer option \<Rightarrow> SemVer option \<Rightarrow> bool" where
  "version_met required reported =
     (\<forall>m. required = Some m \<longrightarrow> (\<exists>v. reported = Some v \<and> precedence_compare v m \<noteq> LT))"

definition version_unmet :: "SemVer option \<Rightarrow> SemVer option \<Rightarrow> bool" where
  "version_unmet required reported =
     (\<exists>m v. required = Some m \<and> reported = Some v \<and> precedence_compare v m = LT)"

definition generation_met :: "u64 option \<Rightarrow> u64 \<Rightarrow> bool" where
  "generation_met required reported = (\<forall>m. required = Some m \<longrightarrow> reported \<noteq> 0 \<and> m \<le> reported)"

definition generation_unmet :: "u64 option \<Rightarrow> u64 \<Rightarrow> bool" where
  "generation_unmet required reported = (\<exists>m. required = Some m \<and> reported \<noteq> 0 \<and> reported < m)"

definition requirement_met :: "CapabilityRequirement \<Rightarrow> CapabilityEvidence \<Rightarrow> bool" where
  "requirement_met r e \<longleftrightarrow>
     satisfied_by (cq_version r) (e_capability_version e)
   \<and> set (required_features r) \<subseteq> set (e_features e)
   \<and> (\<forall>l \<in> set (required_limits r). limit_met l e)
   \<and> version_met (minimum_firmware_version r) (e_firmware_version e)
   \<and> generation_met (minimum_firmware_generation r) (e_firmware_generation e)
   \<and> version_met (minimum_runtime_version r) (e_runtime_version e)
   \<and> generation_met (minimum_runtime_generation r) (e_runtime_generation e)"

definition requirement_unmet :: "CapabilityRequirement \<Rightarrow> CapabilityEvidence \<Rightarrow> bool" where
  "requirement_unmet r e \<longleftrightarrow>
     \<not> satisfied_by (cq_version r) (e_capability_version e)
   \<or> \<not> set (required_features r) \<subseteq> set (e_features e)
   \<or> (\<exists>l \<in> set (required_limits r). limit_unmet l e)
   \<or> version_unmet (minimum_firmware_version r) (e_firmware_version e)
   \<or> generation_unmet (minimum_firmware_generation r) (e_firmware_generation e)
   \<or> version_unmet (minimum_runtime_version r) (e_runtime_version e)
   \<or> generation_unmet (minimum_runtime_generation r) (e_runtime_generation e)"

lemma compare_categories:
  "category_of IncompatibleVersionTooLow = ReasonCategory.Incompatible"
  "category_of IncompatibleFeatureAbsent = ReasonCategory.Incompatible"
  "category_of IncompatibleLimitBelowRequirement = ReasonCategory.Incompatible"
  "category_of IncompatibleFirmwareGenerationTooLow = ReasonCategory.Incompatible"
  "category_of IncompatibleRuntimeGenerationTooLow = ReasonCategory.Incompatible"
  "category_of UnknownLimitNotReported = UnknownCategory"
  "category_of UnknownUnitMismatch = UnknownCategory"
  "category_of UnknownInexactUnitConversion = UnknownCategory"
  "category_of UnknownFirmwareGenerationAbsent = UnknownCategory"
  "category_of UnknownRuntimeGenerationAbsent = UnknownCategory"
  by code_simp+

text \<open>The reason lists of the parts: empty exactly when the part is met, and of which category.\<close>

definition has_category :: "ReasonCategory \<Rightarrow> ReasonCode list \<Rightarrow> bool" where
  "has_category k rs = (\<exists>c \<in> set rs. category_of c = k)"

lemma has_category_simps [simp]:
  "\<not> has_category k []" "has_category k (xs @ ys) \<longleftrightarrow> has_category k xs \<or> has_category k ys"
  "has_category k (concat xss) \<longleftrightarrow> (\<exists>xs \<in> set xss. has_category k xs)"
  by (auto simp: has_category_def)

lemma compare_limit_parts:
  "has_category ReasonCategory.Incompatible (compare_limit l e) \<longleftrightarrow> limit_unmet l e"
  "compare_limit l e = [] \<longleftrightarrow> limit_met l e"
  "c \<in> set (compare_limit l e) \<Longrightarrow> category_of c \<in> {ReasonCategory.Incompatible, UnknownCategory}"
  by (auto simp: compare_limit_def limit_unmet_def limit_met_def has_category_def compare_categories
        split: option.splits if_splits)

lemma compare_min_version_parts:
  assumes "category_of absent = UnknownCategory" "category_of low = ReasonCategory.Incompatible"
  shows "has_category ReasonCategory.Incompatible (compare_min_version r v absent low) \<longleftrightarrow> version_unmet r v"
    and "compare_min_version r v absent low = [] \<longleftrightarrow> version_met r v"
    and "c \<in> set (compare_min_version r v absent low) \<Longrightarrow> category_of c \<in> {ReasonCategory.Incompatible, UnknownCategory}"
  using assms
  by (auto simp: compare_min_version_def version_unmet_def version_met_def has_category_def
        split: option.splits if_splits)

lemma compare_min_generation_parts:
  assumes "category_of absent = UnknownCategory" "category_of low = ReasonCategory.Incompatible"
  shows "has_category ReasonCategory.Incompatible (compare_min_generation r g absent low) \<longleftrightarrow> generation_unmet r g"
    and "compare_min_generation r g absent low = [] \<longleftrightarrow> generation_met r g"
    and "c \<in> set (compare_min_generation r g absent low) \<Longrightarrow> category_of c \<in> {ReasonCategory.Incompatible, UnknownCategory}"
  using assms
  by (auto simp: compare_min_generation_def generation_unmet_def generation_met_def has_category_def is_unset_def
        split: option.splits if_splits)

lemma feature_reasons:
  "has_category k (concat (map (\<lambda>c. if \<not> P c then [r] else []) cs)) \<longleftrightarrow> category_of r = k \<and> (\<exists>c \<in> set cs. \<not> P c)"
  by (induction cs) (auto simp: has_category_def)

lemma single_reason: "has_category k (if b then [r] else []) \<longleftrightarrow> b \<and> category_of r = k"
  by (simp add: has_category_def)

lemmas part_lemmas = compare_limit_parts compare_min_version_parts compare_min_generation_parts compare_categories

lemma requirement_reasons_categories:
  "c \<in> set (requirement_reasons r e) \<Longrightarrow> category_of c \<in> {ReasonCategory.Incompatible, UnknownCategory}"
  unfolding requirement_reasons_def set_append Un_iff
  by (elim disjE) (auto simp: compare_categories split: if_splits dest: part_lemmas(3)
       compare_min_version_parts(3) [rotated 2] compare_min_generation_parts(3) [rotated 2])

lemma requirement_reasons_unmet:
  assumes "sorted (e_features e)"
  shows "has_category ReasonCategory.Incompatible (requirement_reasons r e) \<longleftrightarrow> requirement_unmet r e"
  unfolding requirement_reasons_def requirement_unmet_def has_category_simps(1,2) feature_reasons single_reason
  using assms by (simp add: part_lemmas FeatureSet_contains_iff) blast

lemma requirement_reasons_met:
  assumes "sorted (e_features e)"
  shows "requirement_reasons r e = [] \<longleftrightarrow> requirement_met r e"
  unfolding requirement_reasons_def requirement_met_def append_is_Nil_conv concat_eq_Nil_conv
  using assms
  by (simp add: part_lemmas FeatureSet_contains_iff) auto

lemma compare_requirement_kind:
  "c_kind (compare_requirement r e) =
     (if has_category ReasonCategory.Incompatible (requirement_reasons r e) then DecisionKind.Incompatible
      else if requirement_reasons r e \<noteq> [] then Unknown else Compatible)"
proof -
  have ex: "list_ex (\<lambda>c. category_of c = k) (canonicalize_reasons rs) \<longleftrightarrow> has_category k rs" for k rs
    by (simp add: list_ex_iff has_category_def)
  have "requirement_reasons r e \<noteq> [] \<longleftrightarrow>
      has_category ReasonCategory.Incompatible (requirement_reasons r e) \<or> has_category UnknownCategory (requirement_reasons r e)"
  proof
    assume "requirement_reasons r e \<noteq> []"
    then obtain c where "c \<in> set (requirement_reasons r e)" by (meson last_in_set)
    then show "has_category ReasonCategory.Incompatible (requirement_reasons r e) \<or> has_category UnknownCategory (requirement_reasons r e)"
      using requirement_reasons_categories unfolding has_category_def by fastforce
  qed (auto simp: has_category_def)
  then show ?thesis by (auto simp: compare_requirement_def Let_def ex)
qed

lemma compare_requirement_spec:
  assumes "sorted (e_features e)"
  shows "c_kind (compare_requirement r e) = Compatible \<longleftrightarrow> requirement_met r e"
    and "c_kind (compare_requirement r e) = DecisionKind.Incompatible \<longleftrightarrow> requirement_unmet r e"
    and "c_kind (compare_requirement r e) \<noteq> Conflicted"
  using requirement_reasons_met [OF assms, of r] requirement_reasons_unmet [OF assms, of r]
  by (auto simp: compare_requirement_kind)

lemma LimitSet_find_found: "LimitSet_find ls c = Some v \<Longrightarrow> v \<in> set ls \<and> lv_code v = c"
  unfolding LimitSet_find_def by (induction ls) (auto split: if_splits)

lemma limit_met_quantity:
  assumes "limit_met l e" "unit_is_well_formed (lr_unit l)"
  shows "\<exists>v \<in> set (e_limits e). lv_code v = lr_code l \<and> quantity (lr_minimum l) (lr_unit l) \<le> quantity (lv_value v) (lv_unit v)"
proof -
  obtain v ord where v: "LimitSet_find (e_limits e) (lr_code l) = Some v"
    and c: "compare_exact (lv_value v) (lv_unit v) (lr_minimum l) (lr_unit l) = Some ord" "ord \<noteq> LT"
    using assms(1) unfolding limit_met_def by blast
  have wf: "unit_is_well_formed (lv_unit v)"
    using c(1) assms(2) by (auto simp: compare_exact_def convert_exact_spec split: if_splits option.splits)
  have "ord = spaceship (quantity (lv_value v) (lv_unit v)) (quantity (lr_minimum l) (lr_unit l))"
    using compare_exact_quantities [OF c(1) wf] by (simp add: quantity_def)
  then have "quantity (lr_minimum l) (lr_unit l) \<le> quantity (lv_value v) (lv_unit v)"
    using c(2) by (auto simp: not_less)
  moreover have "v \<in> set (e_limits e)" "lv_code v = lr_code l"
    using LimitSet_find_found [OF v] by simp_all
  ultimately show ?thesis by blast
qed

text \<open>
  C35: the comparison is exact. For evidence with a canonical feature set, the answer is Compatible if and
  only if every part of the requirement is met: the version interval, every required feature, every
  required limit by an exact unit comparison, and every minimum version and generation that is asked for.
  It is Incompatible if and only if some part is positively unmet; a limit or version that is not
  reported, a unit of another dimension and an inexact conversion leave it Unknown, never a success and
  never zero.
\<close>

theorem compare_requirement_exact:
  assumes "sorted (e_features e)"
  shows "(c_kind (compare_requirement r e) = Compatible \<longleftrightarrow> requirement_met r e)
    \<and> (c_kind (compare_requirement r e) = DecisionKind.Incompatible \<longleftrightarrow> requirement_unmet r e)
    \<and> (c_kind (compare_requirement r e) = Unknown \<longleftrightarrow> \<not> requirement_met r e \<and> \<not> requirement_unmet r e)"
  using compare_requirement_spec [OF assms, of r] by (cases "c_kind (compare_requirement r e)") auto

definition sample_evidence :: CapabilityEvidence where
  "sample_evidence = \<lparr>e_key = EvidenceKey (DeviceIncarnationRef (DeviceIdentity ''acme'' ''x1'' 0 None) 1)
       TlsRecordCrypto ''fixture-sim'',
     e_source_incarnation = SourceIncarnation ''fixture-sim'' 1, e_capability_version = mk_semver 1 2 0 [] [],
     e_features = [Tls12, Tls13], e_limits = [mk_limit TlsSessions (unity UnitCount) 7],
     e_firmware_version = None, e_firmware_generation = 0, e_runtime_version = None, e_runtime_generation = 0,
     e_observed_at = 5, e_valid_until = None, e_generation = 1, e_authority = RankSynthetic,
     e_epoch_at_ingest = 1, e_boot_at_ingest = 1, e_policy_revision = 1, e_id_cache = []\<rparr>"

definition sample_requirement :: "i64 \<Rightarrow> CapabilityRequirement" where
  "sample_requirement sessions =
     \<lparr>cq_device = DeviceIncarnationRef (DeviceIdentity ''acme'' ''x1'' 0 None) 1, cq_capability = TlsRecordCrypto,
      cq_version = \<lparr>minimum = mk_semver 1 0 0 [] [], maximum_exclusive = None\<rparr>,
      required_features = [Tls13],
      required_limits = [\<lparr>lr_code = TlsSessions, lr_unit = unity UnitCount, lr_minimum = sessions\<rparr>],
      minimum_firmware_version = None, minimum_firmware_generation = None, minimum_runtime_version = None,
      minimum_runtime_generation = None, max_evidence_age = 0\<rparr>"

theorem compare_requirement_exact_witness:
  "requirement_met (sample_requirement 7) sample_evidence
   \<and> requirement_unmet (sample_requirement 8) sample_evidence"
proof -
  have s: "sorted (e_features sample_evidence)" by code_simp
  have a: "c_kind (compare_requirement (sample_requirement 7) sample_evidence) = Compatible" by code_simp
  have b: "c_kind (compare_requirement (sample_requirement 8) sample_evidence) = DecisionKind.Incompatible" by code_simp
  show ?thesis using compare_requirement_exact [OF s, of "sample_requirement 7"] a
      compare_requirement_exact [OF s, of "sample_requirement 8"] b by blast
qed

text \<open>
  C36: a Compatible answer guarantees everything that was required. The version requirement is satisfied and every required
  feature is reported; every required limit is reported, and where its unit is well formed the reported value has an exact
  quantity (value times unit factor, over the integers) at least the required one; a required firmware or runtime version
  or generation is reported and not below the minimum. So a requirement on something the evidence does not report is never
  answered Compatible.
\<close>

theorem compatible_guarantees_quantities:
  assumes "sorted (e_features e)" "c_kind (compare_requirement r e) = Compatible"
  shows "satisfied_by (cq_version r) (e_capability_version e) \<and> set (required_features r) \<subseteq> set (e_features e)
    \<and> (\<forall>l \<in> set (required_limits r). (\<exists>v \<in> set (e_limits e). lv_code v = lr_code l)
        \<and> (unit_is_well_formed (lr_unit l) \<longrightarrow> (\<exists>v \<in> set (e_limits e). lv_code v = lr_code l
              \<and> quantity (lr_minimum l) (lr_unit l) \<le> quantity (lv_value v) (lv_unit v))))
    \<and> (\<forall>m. minimum_firmware_version r = Some m \<longrightarrow> (\<exists>v. e_firmware_version e = Some v \<and> precedence_compare v m \<noteq> LT))
    \<and> (\<forall>m. minimum_runtime_version r = Some m \<longrightarrow> (\<exists>v. e_runtime_version e = Some v \<and> precedence_compare v m \<noteq> LT))
    \<and> (\<forall>m. minimum_firmware_generation r = Some m \<longrightarrow> e_firmware_generation e \<noteq> 0 \<and> m \<le> e_firmware_generation e)
    \<and> (\<forall>m. minimum_runtime_generation r = Some m \<longrightarrow> e_runtime_generation e \<noteq> 0 \<and> m \<le> e_runtime_generation e)"
proof -
  have met: "requirement_met r e" using compare_requirement_spec(1) [OF assms(1)] assms(2) by blast
  have found: "\<exists>v \<in> set (e_limits e). lv_code v = lr_code l" if "limit_met l e" for l
    using that LimitSet_find_found unfolding limit_met_def by blast
  have "limit_met l e" if "l \<in> set (required_limits r)" for l using met that by (simp add: requirement_met_def)
  then show ?thesis using met found limit_met_quantity by (simp add: requirement_met_def version_met_def generation_met_def)
qed

theorem compatible_guarantees_quantities_witness:
  "satisfied_by (cq_version (sample_requirement 7)) (e_capability_version sample_evidence)
   \<and> (\<exists>v \<in> set (e_limits sample_evidence). lv_code v = TlsSessions
     \<and> quantity 7 (unity UnitCount) \<le> quantity (lv_value v) (lv_unit v))"
proof -
  have s: "sorted (e_features sample_evidence)" by code_simp
  have c: "c_kind (compare_requirement (sample_requirement 7) sample_evidence) = Compatible" by code_simp
  have u: "unit_is_well_formed (unity UnitCount)" by code_simp
  have l: "\<lparr>lr_code = TlsSessions, lr_unit = unity UnitCount, lr_minimum = 7\<rparr> \<in> set (required_limits (sample_requirement 7))"
    by (simp add: sample_requirement_def)
  from compatible_guarantees_quantities [OF s c] l u show ?thesis by fastforce
qed

end
