(* ===== verification/Codec.thy ===== *)
theory Codec
  imports Policy
begin

text \<open>
  The canonical binary codec: \<open>include/ocreg/codec.hpp\<close> and the primitive, value and evidence codecs of
  \<open>src/codec.cpp\<close>.

  An encoder is the byte string it appends to the \<open>Writer\<close>. A decoder is a function from the remaining
  input to a reason or a value with the rest: the \<open>Reader\<close> of the source, whose failure is sticky and
  keeps the first reason, is modelled as it is (record \<open>Reader\<close>), and the primitives are shown to run
  exactly as the decoders do, so that composing decoders with \<open>dbind\<close> is running the code between one
  successful read and the next.

  Two interfaces: \<open>codec\<close> (decoding inverts encoding on well-formed values and only yields those) and its
  extension \<open>canonical_codec\<close> (moreover the bytes consumed are exactly the canonical encoding). They are
  interpreted on every codec below; values containing a version satisfy the first but not the second.
\<close>

section \<open>Decoders\<close>

type_synonym 'a decoder = "bytes \<Rightarrow> ReasonCode + ('a \<times> bytes)"

definition dret :: "'a \<Rightarrow> 'a decoder" where
  "dret v bs = Inr (v, bs)"

definition dfail :: "ReasonCode \<Rightarrow> 'a decoder" where
  "dfail r bs = Inl r"

definition dbind :: "'a decoder \<Rightarrow> ('a \<Rightarrow> 'b decoder) \<Rightarrow> 'b decoder" where
  "dbind d f bs = (case d bs of Inl r \<Rightarrow> Inl r | Inr (a, rest) \<Rightarrow> f a rest)"

definition dguard :: "bool \<Rightarrow> ReasonCode \<Rightarrow> unit decoder" where
  "dguard b r = (if b then dret () else dfail r)"

definition doption :: "'a option \<Rightarrow> ReasonCode \<Rightarrow> 'a decoder" where
  "doption x r = (case x of None \<Rightarrow> dfail r | Some v \<Rightarrow> dret v)"

definition d_take :: "nat \<Rightarrow> bytes decoder" where
  "d_take n bs = (if n > length bs then Inl RejectedTruncatedInput else Inr (take n bs, drop n bs))"

lemma dbind_Inr [simp]:
  "dbind d f bs = Inr (v, rest) \<longleftrightarrow> (\<exists>a r. d bs = Inr (a, r) \<and> f a r = Inr (v, rest))"
  by (auto simp: dbind_def split: sum.splits)

lemma dret_simps [simp]: "dret v bs = Inr (w, rest) \<longleftrightarrow> v = w \<and> bs = rest" "dfail r bs \<noteq> Inr p"
  by (auto simp: dret_def dfail_def)

lemma dguard_Inr [simp]: "dguard b r bs = Inr (u, rest) \<longleftrightarrow> b \<and> rest = bs"
  by (auto simp: dguard_def)

lemma doption_Inr [simp]: "doption x r bs = Inr (v, rest) \<longleftrightarrow> x = Some v \<and> rest = bs"
  by (auto simp: doption_def split: option.splits)

lemma d_take_append [simp]: "n = length a \<Longrightarrow> d_take n (a @ rest) = Inr (a, rest)"
  by (simp add: d_take_def)

lemma d_take_Inr: "d_take n bs = Inr (v, rest) \<longleftrightarrow> bs = v @ rest \<and> length v = n"
  by (auto simp: d_take_def)

section \<open>Writer and the primitive decoders\<close>

definition w_u8 :: "u8 \<Rightarrow> bytes" where "w_u8 v = [v]"
definition w_u16 :: "u16 \<Rightarrow> bytes" where "w_u16 v = be_bytes 2 v"
definition w_u32 :: "u32 \<Rightarrow> bytes" where "w_u32 v = be_bytes 4 v"
definition w_u64 :: "u64 \<Rightarrow> bytes" where "w_u64 v = be_bytes 8 v"
definition w_bytes :: "bytes \<Rightarrow> bytes" where "w_bytes v = w_u32 (of_nat (length v)) @ v"
definition w_str :: "string \<Rightarrow> bytes" where "w_str v = w_u32 (of_nat (length v)) @ str_bytes v"
definition w_name :: "Name \<Rightarrow> bytes" where "w_name v = w_u8 (of_nat (length v)) @ str_bytes v"
definition w_digest :: "Digest256 \<Rightarrow> bytes" where "w_digest d = d"
definition w_boolean :: "bool \<Rightarrow> bytes" where "w_boolean b = w_u8 (if b then 1 else 0)"

definition w_optional :: "('a \<Rightarrow> bytes) \<Rightarrow> 'a option \<Rightarrow> bytes" where
  "w_optional enc x = (case x of None \<Rightarrow> w_u8 0 | Some v \<Rightarrow> w_u8 1 @ enc v)"

definition w_list :: "('a \<Rightarrow> bytes) \<Rightarrow> 'a list \<Rightarrow> bytes" where
  "w_list enc xs = w_u32 (of_nat (length xs)) @ concat (map enc xs)"

definition d_u8 :: "u8 decoder" where "d_u8 = dbind (d_take 1) (\<lambda>b. dret (be_word b))"
definition d_u16 :: "u16 decoder" where "d_u16 = dbind (d_take 2) (\<lambda>b. dret (be_word b))"
definition d_u32 :: "u32 decoder" where "d_u32 = dbind (d_take 4) (\<lambda>b. dret (be_word b))"
definition d_u64 :: "u64 decoder" where "d_u64 = dbind (d_take 8) (\<lambda>b. dret (be_word b))"

definition d_boolean :: "bool decoder" where
  "d_boolean = dbind d_u8 (\<lambda>raw. dbind (dguard (raw \<le> 1) RejectedMalformedDocument) (\<lambda>_. dret (raw = 1)))"

definition d_bytes :: "bytes decoder" where
  "d_bytes = dbind d_u32 (\<lambda>n. d_take (unat n))"

definition d_name :: "Name decoder" where
  "d_name = dbind d_u8 (\<lambda>n.
     dbind (dguard (\<not> (n = 0 \<or> unat n > kMaxNameLength)) RejectedMalformedName) (\<lambda>_.
     dbind (d_take (unat n)) (\<lambda>b. doption (Name_parse (bytes_str b)) RejectedMalformedName)))"

definition d_digest :: "Digest256 decoder" where
  "d_digest = d_take kDigestBytes"

definition d_reason :: "ReasonCode decoder" where
  "d_reason = dbind d_u16 (\<lambda>raw. doption (reason_from raw) RejectedMalformedDocument)"

definition d_optional :: "'a decoder \<Rightarrow> 'a option decoder" where
  "d_optional d = dbind d_u8 (\<lambda>flag. if flag = 0 then dret None
     else if flag \<noteq> 1 then dfail RejectedMalformedDocument else dbind d (\<lambda>v. dret (Some v)))"

fun d_times :: "nat \<Rightarrow> 'a decoder \<Rightarrow> 'a list decoder" where
  "d_times 0 d = dret []"
| "d_times (Suc n) d = dbind d (\<lambda>x. dbind (d_times n d) (\<lambda>xs. dret (x # xs)))"

definition kMaxCollectionEntries :: nat where "kMaxCollectionEntries = 1048576"

text \<open>A counted collection whose count is bounded before anything is read.\<close>

definition d_list :: "nat \<Rightarrow> ReasonCode \<Rightarrow> 'a decoder \<Rightarrow> 'a list decoder" where
  "d_list bound oversized d = dbind d_u32 (\<lambda>count.
     dbind (dguard (unat count \<le> bound) oversized) (\<lambda>_. d_times (unat count) d))"

text \<open>
  The loops that read a canonical set: each entry's code must exceed its predecessor's; \<open>prev\<close> is the code
  of the last entry read, if there is one.
\<close>

fun d_ascending :: "('a \<Rightarrow> u32) \<Rightarrow> 'a decoder \<Rightarrow> nat \<Rightarrow> u32 option \<Rightarrow> 'a list decoder" where
  "d_ascending key d 0 prev = dret []"
| "d_ascending key d (Suc n) prev = dbind d (\<lambda>x.
     dbind (dguard (case prev of None \<Rightarrow> True | Some p \<Rightarrow> p < key x) RejectedDuplicateKey) (\<lambda>_.
     dbind (d_ascending key d n (Some (key x))) (\<lambda>xs. dret (x # xs))))"

section \<open>The Reader is the decoder\<close>

record Reader =
  r_data :: bytes
  r_position :: nat
  r_ok :: bool
  r_reason :: ReasonCode

definition Reader_init :: "bytes \<Rightarrow> Reader" where
  "Reader_init data = \<lparr>r_data = data, r_position = 0, r_ok = True, r_reason = Ok\<rparr>"

definition Reader_fail :: "ReasonCode \<Rightarrow> Reader \<Rightarrow> Reader" where
  "Reader_fail c r = (if r_ok r then r\<lparr>r_ok := False, r_reason := c\<rparr> else r)"

definition Reader_remaining :: "Reader \<Rightarrow> nat" where
  "Reader_remaining r = (if r_position r \<le> length (r_data r) then length (r_data r) - r_position r else 0)"

definition Reader_require :: "nat \<Rightarrow> Reader \<Rightarrow> bool \<times> Reader" where
  "Reader_require n r =
     (if \<not> r_ok r then (False, r)
      else if n > Reader_remaining r then (False, Reader_fail RejectedTruncatedInput r)
      else (True, r))"

text \<open>The bytes at the position, read by index as the source does.\<close>

definition Reader_read :: "nat \<Rightarrow> Reader \<Rightarrow> bytes \<times> Reader" where
  "Reader_read n r = (case Reader_require n r of
       (False, r) \<Rightarrow> ([], r)
     | (True, r) \<Rightarrow> (map (\<lambda>i. r_data r ! (r_position r + i)) [0..<n], r\<lparr>r_position := r_position r + n\<rparr>))"

definition Reader_u8 :: "Reader \<Rightarrow> u8 \<times> Reader" where
  "Reader_u8 r = (case Reader_read 1 r of (b, r) \<Rightarrow> (be_word b, r))"

definition Reader_u16 :: "Reader \<Rightarrow> u16 \<times> Reader" where
  "Reader_u16 r = (case Reader_read 2 r of (b, r) \<Rightarrow> (be_word b, r))"

definition Reader_u32 :: "Reader \<Rightarrow> u32 \<times> Reader" where
  "Reader_u32 r = (case Reader_read 4 r of (b, r) \<Rightarrow> (be_word b, r))"

definition Reader_u64 :: "Reader \<Rightarrow> u64 \<times> Reader" where
  "Reader_u64 r = (case Reader_read 8 r of (b, r) \<Rightarrow> (be_word b, r))"

definition Reader_bytes :: "Reader \<Rightarrow> bytes \<times> Reader" where
  "Reader_bytes r = (case Reader_u32 r of (n, r) \<Rightarrow> if \<not> r_ok r then ([], r) else Reader_read (unat n) r)"

definition rest_of :: "Reader \<Rightarrow> bytes" where
  "rest_of r = drop (r_position r) (r_data r)"

text \<open>
  A reader operation follows a decoder: on a reader that is still good it fails with the decoder's
  reason, or yields the decoder's value and leaves the decoder's rest; on a failed reader it changes
  nothing.
\<close>

definition agrees :: "'a decoder \<Rightarrow> Reader \<Rightarrow> 'a \<times> Reader \<Rightarrow> bool" where
  "agrees d r res =
     (if r_ok r then
        (case d (rest_of r) of
           Inl c \<Rightarrow> \<not> r_ok (snd res) \<and> r_reason (snd res) = c
         | Inr (v, rest) \<Rightarrow> r_ok (snd res) \<and> fst res = v \<and> rest_of (snd res) = rest
             \<and> r_data (snd res) = r_data r \<and> r_position (snd res) \<le> length (r_data r))
      else snd res = r)"

definition follows :: "(Reader \<Rightarrow> 'a \<times> Reader) \<Rightarrow> 'a decoder \<Rightarrow> bool" where
  "follows op d = (\<forall>r. r_position r \<le> length (r_data r) \<longrightarrow> agrees d r (op r))"

lemma follows_read: "follows (Reader_read n) (d_take n)"
proof -
  have "map (\<lambda>i. xs ! (p + i)) [0..<n] = take n (drop p xs)" if "p + n \<le> length xs" for p and xs :: bytes
    using that by (intro nth_equalityI) (auto simp: nth_drop)
  then show ?thesis
    by (auto simp: follows_def agrees_def Reader_read_def Reader_require_def Reader_remaining_def Reader_fail_def
          rest_of_def d_take_def add.commute [of n])
qed

lemma follows_map:
  assumes "follows op d"
  shows "follows (\<lambda>r. case op r of (b, r) \<Rightarrow> (f b, r)) (dbind d (\<lambda>b. dret (f b)))"
  unfolding follows_def
proof (intro allI impI)
  fix r :: Reader assume pos: "r_position r \<le> length (r_data r)"
  obtain b r' where op: "op r = (b, r')" by force
  have "agrees d r (b, r')" using assms pos op unfolding follows_def by metis
  then show "agrees (dbind d (\<lambda>b. dret (f b))) r (case op r of (b, r) \<Rightarrow> (f b, r))"
    by (auto simp: agrees_def op dbind_def dret_def split: if_splits sum.splits)
qed

lemma follows_bind:
  assumes "follows op d" "\<And>v. follows (f v) (g v)"
  shows "follows (\<lambda>r. case op r of (v, r) \<Rightarrow> if \<not> r_ok r then (z, r) else f v r) (dbind d g)"
  unfolding follows_def
proof (intro allI impI)
  fix r :: Reader assume pos: "r_position r \<le> length (r_data r)"
  obtain b r' where op: "op r = (b, r')" by force
  have h: "agrees d r (b, r')" using assms(1) pos op unfolding follows_def by metis
  show "agrees (dbind d g) r (case op r of (v, r) \<Rightarrow> if \<not> r_ok r then (z, r) else f v r)"
  proof (cases "r_ok r \<and> r_ok r'")
    case True
    then obtain rest where d: "d (rest_of r) = Inr (b, rest)" "rest_of r' = rest" "r_data r' = r_data r"
      "r_position r' \<le> length (r_data r')"
      using h by (auto simp: agrees_def split: sum.splits)
    have "agrees (g b) r' (f b r')" using assms(2) d(4) unfolding follows_def by metis
    then show ?thesis using True d(1-3) by (auto simp: agrees_def op dbind_def split: sum.splits)
  next
    case False
    then show ?thesis using h by (auto simp: agrees_def op dbind_def split: if_splits sum.splits)
  qed
qed

text \<open>
  C40: the Reader's primitive reads are the decoders' primitives: a read on a good reader returns the
  decoder's value and advances past exactly the bytes consumed, or fails with the decoder's reason (a
  declared length beyond the input is a truncation); a read on a failed reader changes nothing and keeps
  the first reason.
\<close>

theorem Reader_follows_decoder:
  "follows Reader_u8 d_u8 \<and> follows Reader_u16 d_u16 \<and> follows Reader_u32 d_u32 \<and> follows Reader_u64 d_u64
   \<and> follows Reader_bytes d_bytes"
proof (intro conjI)
  have u32: "follows Reader_u32 d_u32"
    unfolding Reader_u32_def [abs_def] d_u32_def by (rule follows_map [OF follows_read])
  show "follows Reader_u8 d_u8" "follows Reader_u16 d_u16" "follows Reader_u64 d_u64"
    unfolding Reader_u8_def [abs_def] d_u8_def Reader_u16_def [abs_def] d_u16_def Reader_u64_def [abs_def] d_u64_def
    by (rule follows_map [OF follows_read])+
  show "follows Reader_bytes d_bytes"
    unfolding Reader_bytes_def [abs_def] d_bytes_def by (rule follows_bind [OF u32 follows_read])
  show "follows Reader_u32 d_u32" by (rule u32)
qed

section \<open>Interfaces\<close>

locale codec =
  fixes enc :: "'a \<Rightarrow> bytes" and dec :: "'a decoder" and wf :: "'a \<Rightarrow> bool"
  assumes dec_enc: "wf v \<Longrightarrow> dec (enc v @ rest) = Inr (v, rest)"
    and dec_wf: "dec bs = Inr (v, rest) \<Longrightarrow> wf v"
begin

lemma enc_prefix_free:
  assumes "wf v" "wf w" "enc v @ a = enc w @ b"
  shows "v = w \<and> a = b"
proof -
  have "Inr (v, a) = (Inr (w, b) :: ReasonCode + ('a \<times> bytes))"
    using dec_enc [OF assms(1), of a] dec_enc [OF assms(2), of b] unfolding assms(3) by (rule trans [OF sym])
  then show ?thesis by simp
qed

lemma enc_inj: "wf v \<Longrightarrow> wf w \<Longrightarrow> enc v = enc w \<Longrightarrow> v = w"
  using enc_prefix_free [of v w "[]" "[]"] by simp

lemma dec_reencode: "dec bs = Inr (v, rest) \<Longrightarrow> dec (enc v @ rest') = Inr (v, rest')"
  using dec_enc dec_wf by blast

end

locale canonical_codec = codec +
  assumes dec_exact: "dec bs = Inr (v, rest) \<Longrightarrow> bs = enc v @ rest"
begin

lemma dec_iff: "dec bs = Inr (v, rest) \<longleftrightarrow> wf v \<and> bs = enc v @ rest"
  using dec_enc dec_wf dec_exact by blast

lemma dec_unique: "dec bs = Inr (v, rest) \<Longrightarrow> dec bs' = Inr (v, rest) \<Longrightarrow> bs = bs'"
  using dec_exact by metis

end

lemma canonical_codecI:
  assumes "\<And>bs v rest. dec bs = Inr (v, rest) \<longleftrightarrow> ok v \<and> bs = enc v @ rest"
  shows "canonical_codec enc dec ok"
  by unfold_locales (auto simp: assms)

named_theorems codec_iffs \<open>decoders of canonical codecs\<close>

lemma d_u8_iff [codec_iffs]: "d_u8 bs = Inr (v, rest) \<longleftrightarrow> bs = w_u8 v @ rest"
proof -
  have one: "be_word [b] = (b :: u8)" for b by (simp add: be_word_def)
  show ?thesis
    by (auto simp: d_u8_def w_u8_def d_take_Inr length_Suc_conv one)
qed

lemma d_u16_iff [codec_iffs]: "d_u16 bs = Inr (v, rest) \<longleftrightarrow> bs = w_u16 v @ rest"
  by (auto simp: d_u16_def w_u16_def d_take_Inr be_bytes_be_word)

lemma d_u32_iff [codec_iffs]: "d_u32 bs = Inr (v, rest) \<longleftrightarrow> bs = w_u32 v @ rest"
  by (auto simp: d_u32_def w_u32_def d_take_Inr be_bytes_be_word)

lemma d_u64_iff [codec_iffs]: "d_u64 bs = Inr (v, rest) \<longleftrightarrow> bs = w_u64 v @ rest"
  by (auto simp: d_u64_def w_u64_def d_take_Inr be_bytes_be_word)

lemma primitive_enc [simp]:
  "d_u8 (w_u8 a @ rest) = Inr (a, rest)" "d_u16 (w_u16 b @ rest) = Inr (b, rest)"
  "d_u32 (w_u32 c @ rest) = Inr (c, rest)" "d_u64 (w_u64 d @ rest) = Inr (d, rest)"
  by (simp_all add: codec_iffs)

lemma byte_le_1: "raw \<le> 1 \<longleftrightarrow> raw = 0 \<or> raw = (1 :: u8)"
  by (auto simp: word_le_nat_alt word_unat_eq_iff)

lemma d_boolean_iff [codec_iffs]: "d_boolean bs = Inr (v, rest) \<longleftrightarrow> bs = w_boolean v @ rest"
proof
  assume "d_boolean bs = Inr (v, rest)"
  then show "bs = w_boolean v @ rest" by (auto simp: d_boolean_def w_boolean_def codec_iffs byte_le_1)
qed (auto simp: d_boolean_def w_boolean_def byte_le_1)

lemma d_digest_iff [codec_iffs]: "d_digest bs = Inr (v, rest) \<longleftrightarrow> length v = kDigestBytes \<and> bs = w_digest v @ rest"
  by (auto simp: d_digest_def w_digest_def d_take_Inr)

lemma d_reason_iff [codec_iffs]: "d_reason bs = Inr (v, rest) \<longleftrightarrow> find_entry v \<noteq> None \<and> bs = w_u16 v @ rest"
proof
  assume "d_reason bs = Inr (v, rest)"
  then show "find_entry v \<noteq> None \<and> bs = w_u16 v @ rest" by (auto simp: d_reason_def codec_iffs reason_from_iff)
qed (auto simp: d_reason_def reason_from_iff)

definition Name_wf :: "Name \<Rightarrow> bool" where
  "Name_wf n = (Name_parse n = Some n)"

lemma Name_wf_length: "Name_wf n \<Longrightarrow> n \<noteq> [] \<and> length n \<le> kMaxNameLength"
  by (simp add: Name_wf_def Name_parse_def split: if_splits)

lemma d_name_iff [codec_iffs]: "d_name bs = Inr (v, rest) \<longleftrightarrow> Name_wf v \<and> bs = w_name v @ rest"
proof
  assume "d_name bs = Inr (v, rest)"
  then show "Name_wf v \<and> bs = w_name v @ rest"
    by (auto simp: d_name_def codec_iffs d_take_Inr w_name_def Name_wf_def dest: Name_parse_id)
next
  assume h: "Name_wf v \<and> bs = w_name v @ rest"
  then have len: "v \<noteq> []" "length v \<le> 48" using Name_wf_length by (auto simp: kMaxNameLength_def)
  then have "unat (of_nat (length v) :: u8) = length v" by (simp add: unat_of_nat)
  moreover have "(of_nat (length v) :: u8) \<noteq> 0" using calculation len(1) by (metis length_0_conv unat_0)
  ultimately show "d_name bs = Inr (v, rest)"
    using h len by (simp add: d_name_def w_name_def Name_wf_def kMaxNameLength_def d_take_append)
qed

lemma primitive_enc2 [simp]:
  "d_boolean (w_boolean a @ rest) = Inr (a, rest)"
  "length b = kDigestBytes \<Longrightarrow> d_digest (w_digest b @ rest) = Inr (b, rest)"
  "find_entry c \<noteq> None \<Longrightarrow> d_reason (w_u16 c @ rest) = Inr (c, rest)"
  "Name_wf d \<Longrightarrow> d_name (w_name d @ rest) = Inr (d, rest)"
  by (simp_all add: codec_iffs)

lemma d_optional_enc:
  assumes "\<And>v rest. ok v \<Longrightarrow> d (enc v @ rest) = Inr (v, rest)" "pred_option ok x"
  shows "d_optional d (w_optional enc x @ rest) = Inr (x, rest)"
  using assms by (cases x) (simp_all add: d_optional_def w_optional_def)

lemma d_optional_wf:
  assumes "\<And>bs v rest. d bs = Inr (v, rest) \<Longrightarrow> ok v" "d_optional d bs = Inr (x, rest)"
  shows "pred_option ok x"
  using assms by (cases x) (auto simp: d_optional_def split: if_splits)

lemma d_optional_exact:
  assumes "\<And>bs v rest. d bs = Inr (v, rest) \<Longrightarrow> bs = enc v @ rest" "d_optional d bs = Inr (x, rest)"
  shows "bs = w_optional enc x @ rest"
  using assms(2) by (auto simp: d_optional_def w_optional_def codec_iffs split: if_splits dest!: assms(1))

lemma d_times_enc:
  assumes "\<And>v rest. ok v \<Longrightarrow> d (enc v @ rest) = Inr (v, rest)" "list_all ok xs" "n = length xs"
  shows "d_times n d (concat (map enc xs) @ rest) = Inr (xs, rest)"
  using assms(2,3) by (induction xs arbitrary: n) (simp_all add: assms(1))

lemma d_times_wf:
  assumes "\<And>bs v rest. d bs = Inr (v, rest) \<Longrightarrow> ok v" "d_times n d bs = Inr (xs, rest)"
  shows "list_all ok xs \<and> length xs = n"
  using assms(2) by (induction n arbitrary: xs bs) (auto dest: assms(1))

lemma d_times_exact:
  assumes "\<And>bs v rest. d bs = Inr (v, rest) \<Longrightarrow> bs = enc v @ rest" "d_times n d bs = Inr (xs, rest)"
  shows "bs = concat (map enc xs) @ rest"
  using assms(2)
proof (induction n arbitrary: xs bs)
  case (Suc n)
  then show ?case by (fastforce dest: assms(1))
qed simp

lemma length_u32 [simp]: "n < 2 ^ 32 \<Longrightarrow> unat (of_nat n :: u32) = n"
  by (simp add: unat_of_nat)

lemma d_list_enc:
  assumes "\<And>v rest. ok v \<Longrightarrow> d (enc v @ rest) = Inr (v, rest)" "bound < 2 ^ 32" "list_all ok xs" "length xs \<le> bound"
  shows "d_list bound c d (w_list enc xs @ rest) = Inr (xs, rest)"
  using assms d_times_enc [of ok d enc xs "length xs" rest] by (simp add: d_list_def w_list_def)

lemma d_list_wf:
  assumes "\<And>bs v rest. d bs = Inr (v, rest) \<Longrightarrow> ok v" "d_list bound c d bs = Inr (xs, rest)"
  shows "list_all ok xs \<and> length xs \<le> bound"
  using assms(2) by (auto simp: d_list_def dest: d_times_wf [of d ok, rotated] assms(1))

lemma d_list_exact:
  assumes "\<And>bs v rest. d bs = Inr (v, rest) \<Longrightarrow> bs = enc v @ rest" "d_list bound c d bs = Inr (xs, rest)"
  shows "bs = w_list enc xs @ rest"
proof -
  obtain n r where n: "bs = w_u32 n @ r" "d_times (unat n) d r = Inr (xs, rest)"
    using assms(2) by (auto simp: d_list_def codec_iffs)
  have "length xs = unat n" using d_times_wf [of d "\<lambda>_. True", OF _ n(2)] by simp
  then show ?thesis using n d_times_exact [OF assms(1) n(2)] by (simp add: w_list_def)
qed

definition above :: "('a \<Rightarrow> u32) \<Rightarrow> u32 option \<Rightarrow> 'a list \<Rightarrow> bool" where
  "above key prev xs = (sorted_wrt (<) (map key xs)
     \<and> (case prev of None \<Rightarrow> True | Some p \<Rightarrow> \<forall>x \<in> set xs. p < key x))"

lemma above_Cons: "above key prev (x # xs) \<longleftrightarrow>
    (case prev of None \<Rightarrow> True | Some p \<Rightarrow> p < key x) \<and> above key (Some (key x)) xs"
  by (auto simp: above_def split: option.splits dest: order.strict_trans)

lemma d_ascending_enc:
  assumes "\<And>v rest. ok v \<Longrightarrow> d (enc v @ rest) = Inr (v, rest)" "list_all ok xs" "above key prev xs" "n = length xs"
  shows "d_ascending key d n prev (concat (map enc xs) @ rest) = Inr (xs, rest)"
  using assms(2-4) by (induction xs arbitrary: n prev) (simp_all add: assms(1) above_Cons)

lemma d_ascending_wf:
  assumes "\<And>bs v rest. d bs = Inr (v, rest) \<Longrightarrow> ok v" "d_ascending key d n prev bs = Inr (xs, rest)"
  shows "list_all ok xs \<and> above key prev xs \<and> length xs = n"
  using assms(2)
proof (induction n arbitrary: xs bs prev)
  case 0
  then show ?case by (simp add: above_def split: option.splits)
next
  case (Suc n)
  then obtain x r xs' where x: "d bs = Inr (x, r)" "case prev of None \<Rightarrow> True | Some p \<Rightarrow> p < key x"
    "d_ascending key d n (Some (key x)) r = Inr (xs', rest)" "xs = x # xs'" by auto
  then show ?case using Suc.IH [OF x(3)] assms(1) [OF x(1)] by (simp add: above_Cons)
qed

lemma d_ascending_exact:
  assumes "\<And>bs v rest. d bs = Inr (v, rest) \<Longrightarrow> bs = enc v @ rest" "d_ascending key d n prev bs = Inr (xs, rest)"
  shows "bs = concat (map enc xs) @ rest"
  using assms(2)
proof (induction n arbitrary: xs bs prev)
  case (Suc n)
  then show ?case by (fastforce dest: assms(1))
qed simp

section \<open>Closed enumerations\<close>

definition read_enum :: "(u16 \<Rightarrow> 'a option) \<Rightarrow> ReasonCode \<Rightarrow> 'a decoder" where
  "read_enum convert failure = dbind d_u16 (\<lambda>raw. doption (convert raw) failure)"

definition source_kind_from :: "u16 \<Rightarrow> SourceKind option" where
  "source_kind_from raw = (if raw = 1 then Some SyntheticSource else if raw = 2 then Some AdjacentRuntimeSource
     else if raw = 3 then Some DeviceSelfReportSource else if raw = 4 then Some OperatorDeclaration
     else if raw = 5 then Some ImportedBundle else None)"

definition authority_from :: "u16 \<Rightarrow> AuthorityRank option" where
  "authority_from raw = (if raw > 5 then None else if raw = 0 then Some RankNone
     else if raw = 1 then Some RankSynthetic else if raw = 2 then Some RankImported
     else if raw = 3 then Some RankAdjacentRuntime else if raw = 4 then Some RankDeviceSelfReport
     else Some RankOperator)"

definition trust_from :: "u16 \<Rightarrow> SourceTrustState option" where
  "trust_from raw = (if raw = 1 then Some Trusted else if raw = 2 then Some Untrusted
     else if raw = 3 then Some Revoked else None)"

definition lifecycle_from :: "u16 \<Rightarrow> EvidenceLifecycle option" where
  "lifecycle_from raw = (if raw = 1 then Some LifecycleAdmitted else if raw = 2 then Some LifecycleRejected
     else if raw = 3 then Some LifecycleRetired else None)"

definition evidence_state_from :: "u16 \<Rightarrow> EvidenceState option" where
  "evidence_state_from raw = (if raw = 1 then Some StateActive else if raw = 2 then Some StateSuperseded
     else if raw = 3 then Some StateRetired else if raw = 4 then Some StateRejected
     else if raw = 5 then Some StateFenced else if raw = 6 then Some StateStale
     else if raw = 7 then Some StateOutranked else if raw = 8 then Some StateEvicted else None)"

definition decision_kind_from :: "u16 \<Rightarrow> DecisionKind option" where
  "decision_kind_from raw = (if raw = 1 then Some Compatible else if raw = 2 then Some DecisionKind.Incompatible
     else if raw = 3 then Some Unknown else if raw = 4 then Some Conflicted else None)"

definition BootPolicy_code :: "BootPolicy \<Rightarrow> u16" where
  "BootPolicy_code p = (case p of ConservativeFence \<Rightarrow> 1 | CarryForwardWithinFreshness \<Rightarrow> 2)"

definition ClockMode_code :: "ClockMode \<Rightarrow> u16" where
  "ClockMode_code m = (case m of Manual \<Rightarrow> 1 | SystemMonotonic \<Rightarrow> 2)"

definition boot_policy_from :: "u16 \<Rightarrow> BootPolicy option" where
  "boot_policy_from raw = (if raw = 1 then Some ConservativeFence
     else if raw = 2 then Some CarryForwardWithinFreshness else None)"

definition clock_mode_from :: "u16 \<Rightarrow> ClockMode option" where
  "clock_mode_from raw = (if raw = 1 then Some Manual else if raw = 2 then Some SystemMonotonic else None)"

lemma u16_le_5: "\<not> (raw :: u16) > 5 \<Longrightarrow> raw = 0 \<or> raw = 1 \<or> raw = 2 \<or> raw = 3 \<or> raw = 4 \<or> raw = 5"
  by (simp add: word_less_nat_alt word_unat_eq_iff) linarith

lemma enum_from_iffs:
  "source_kind_from raw = Some a \<longleftrightarrow> raw = SourceKind_code a"
  "authority_from raw = Some b \<longleftrightarrow> raw = AuthorityRank_code b"
  "trust_from raw = Some c \<longleftrightarrow> raw = SourceTrustState_code c"
  "lifecycle_from raw = Some d \<longleftrightarrow> raw = EvidenceLifecycle_code d"
  "evidence_state_from raw = Some e \<longleftrightarrow> raw = EvidenceState_code e"
  "decision_kind_from raw = Some f \<longleftrightarrow> raw = DecisionKind_code f"
  "boot_policy_from raw = Some g \<longleftrightarrow> raw = BootPolicy_code g"
  "clock_mode_from raw = Some h \<longleftrightarrow> raw = ClockMode_code h"
proof -
  show "authority_from raw = Some b \<longleftrightarrow> raw = AuthorityRank_code b"
  proof (cases "raw > 5")
    case True
    then show ?thesis by (cases b) (auto simp: authority_from_def AuthorityRank_code_def)
  next
    case False
    then show ?thesis using u16_le_5 [OF False]
      by (cases b) (auto simp: authority_from_def AuthorityRank_code_def)
  qed
  show "source_kind_from raw = Some a \<longleftrightarrow> raw = SourceKind_code a"
    by (cases a) (auto simp: source_kind_from_def SourceKind_code_def)
  show "trust_from raw = Some c \<longleftrightarrow> raw = SourceTrustState_code c"
    by (cases c) (auto simp: trust_from_def SourceTrustState_code_def)
  show "lifecycle_from raw = Some d \<longleftrightarrow> raw = EvidenceLifecycle_code d"
    by (cases d) (auto simp: lifecycle_from_def EvidenceLifecycle_code_def)
  show "evidence_state_from raw = Some e \<longleftrightarrow> raw = EvidenceState_code e"
    by (cases e) (auto simp: evidence_state_from_def EvidenceState_code_def)
  show "decision_kind_from raw = Some f \<longleftrightarrow> raw = DecisionKind_code f"
    by (cases f) (auto simp: decision_kind_from_def DecisionKind_code_def)
  show "boot_policy_from raw = Some g \<longleftrightarrow> raw = BootPolicy_code g"
    by (cases g) (auto simp: boot_policy_from_def BootPolicy_code_def)
  show "clock_mode_from raw = Some h \<longleftrightarrow> raw = ClockMode_code h"
    by (cases h) (auto simp: clock_mode_from_def ClockMode_code_def)
qed

lemma read_enum_iff:
  "(\<And>raw v. conv raw = Some v \<longleftrightarrow> raw = code v) \<Longrightarrow> read_enum conv c bs = Inr (v, rest) \<longleftrightarrow> bs = w_u16 (code v) @ rest"
  by (auto simp: read_enum_def codec_iffs)

lemma enum_iffs [codec_iffs]:
  "read_enum source_kind_from r bs = Inr (a, rest) \<longleftrightarrow> bs = w_u16 (SourceKind_code a) @ rest"
  "read_enum authority_from r bs = Inr (b, rest) \<longleftrightarrow> bs = w_u16 (AuthorityRank_code b) @ rest"
  "read_enum trust_from r bs = Inr (c, rest) \<longleftrightarrow> bs = w_u16 (SourceTrustState_code c) @ rest"
  "read_enum lifecycle_from r bs = Inr (d, rest) \<longleftrightarrow> bs = w_u16 (EvidenceLifecycle_code d) @ rest"
  "read_enum evidence_state_from r bs = Inr (e, rest) \<longleftrightarrow> bs = w_u16 (EvidenceState_code e) @ rest"
  "read_enum boot_policy_from r bs = Inr (g, rest) \<longleftrightarrow> bs = w_u16 (BootPolicy_code g) @ rest"
  "read_enum clock_mode_from r bs = Inr (h, rest) \<longleftrightarrow> bs = w_u16 (ClockMode_code h) @ rest"
  by (rule read_enum_iff, simp add: enum_from_iffs)+

definition decode_kind :: "CapabilityKind decoder" where
  "decode_kind = dbind d_u16 (\<lambda>raw. doption (capability_kind_from_code raw) RejectedUnknownCapabilityKind)"

definition decode_feature_code :: "FeatureCode decoder" where
  "decode_feature_code = dbind d_u32 (\<lambda>raw. doption (feature_from_code raw) RejectedUnknownFeatureCode)"

definition decode_limit_code :: "LimitCode decoder" where
  "decode_limit_code = dbind d_u32 (\<lambda>raw. doption (limit_from_code raw) RejectedUnknownLimitCode)"

lemma code_iffs [codec_iffs]:
  "decode_kind bs = Inr (k, rest) \<longleftrightarrow> bs = w_u16 (kind_code k) @ rest"
  "decode_feature_code bs = Inr (f, rest) \<longleftrightarrow> feature_info f \<noteq> None \<and> bs = w_u32 f @ rest"
  "decode_limit_code bs = Inr (l, rest) \<longleftrightarrow> limit_info l \<noteq> None \<and> bs = w_u32 l @ rest"
  unfolding decode_kind_def decode_feature_code_def decode_limit_code_def dbind_Inr doption_Inr codec_iffs
    capability_kind_from_code_iff feature_from_code_iff limit_from_code_iff
  by auto

lemma enum_enc [simp]:
  "read_enum source_kind_from r (w_u16 (SourceKind_code a) @ rest) = Inr (a, rest)"
  "read_enum authority_from r (w_u16 (AuthorityRank_code b) @ rest) = Inr (b, rest)"
  "read_enum trust_from r (w_u16 (SourceTrustState_code c) @ rest) = Inr (c, rest)"
  "read_enum lifecycle_from r (w_u16 (EvidenceLifecycle_code d) @ rest) = Inr (d, rest)"
  "read_enum evidence_state_from r (w_u16 (EvidenceState_code e) @ rest) = Inr (e, rest)"
  "read_enum boot_policy_from r (w_u16 (BootPolicy_code g) @ rest) = Inr (g, rest)"
  "read_enum clock_mode_from r (w_u16 (ClockMode_code h) @ rest) = Inr (h, rest)"
  "decode_kind (w_u16 (kind_code k) @ rest) = Inr (k, rest)"
  "feature_info f \<noteq> None \<Longrightarrow> decode_feature_code (w_u32 f @ rest) = Inr (f, rest)"
  "limit_info l \<noteq> None \<Longrightarrow> decode_limit_code (w_u32 l @ rest) = Inr (l, rest)"
  by (simp_all add: enum_iffs code_iffs)

section \<open>Versions, units, feature and limit sets\<close>

definition encode_SemVer :: "SemVer \<Rightarrow> bytes" where
  "encode_SemVer v = w_u32 (major v) @ w_u32 (minor v) @ w_u32 (patch v) @ w_str (prerelease v) @ w_str (build v)"

definition decode_SemVer :: "SemVer decoder" where
  "decode_SemVer = dbind d_u32 (\<lambda>a. dbind d_u32 (\<lambda>b. dbind d_u32 (\<lambda>c. dbind d_bytes (\<lambda>p. dbind d_bytes (\<lambda>q.
     dbind (dguard (\<not> (length p > kMaxSemVerQualifierLength \<or> length q > kMaxSemVerQualifierLength)) RejectedOversizedInput) (\<lambda>_.
       let t = SemVer_str (mk_semver a b c [] []);
           t = (if p \<noteq> [] then t @ CHR ''-'' # bytes_str p else t);
           t = (if q \<noteq> [] then t @ CHR ''+'' # bytes_str q else t)
       in doption (SemVer_parse t) RejectedMalformedVersion))))))"

definition encode_Unit :: "Unit \<Rightarrow> bytes" where
  "encode_Unit u = w_u16 (u_code u) @ w_u8 (UnitScale_code (u_scale u)) @ w_u8 (u_exponent u)"

definition decode_Unit :: "Unit decoder" where
  "decode_Unit = dbind d_u16 (\<lambda>code. dbind d_u8 (\<lambda>scale. dbind d_u8 (\<lambda>exponent.
     dbind (dguard (\<not> scale > UnitScale_code Binary) RejectedLimitUnitScaleInvalid) (\<lambda>_.
       let parsed = mk_unit code (if scale = 0 then Unity else if scale = 1 then Decimal else Binary) exponent
       in dbind (dguard (unit_is_well_formed parsed) RejectedLimitUnitInvalid) (\<lambda>_. dret parsed)))))"

definition encode_FeatureSet :: "FeatureSet \<Rightarrow> bytes" where
  "encode_FeatureSet s = w_list w_u32 s"

definition decode_FeatureSet :: "FeatureSet decoder" where
  "decode_FeatureSet = dbind d_u32 (\<lambda>n.
     dbind (dguard (unat n \<le> kMaxFeaturesPerRecord) RejectedFeatureBudgetExceeded) (\<lambda>_.
     dbind (d_ascending (\<lambda>c. c) decode_feature_code (unat n) None) (\<lambda>codes. dret (FeatureSet_from_validated codes))))"

definition encode_LimitValue :: "LimitValue \<Rightarrow> bytes" where
  "encode_LimitValue v = w_u32 (lv_code v) @ encode_Unit (lv_unit v) @ w_u64 (lv_value v)"

text \<open>The checks shared by a limit and a required limit.\<close>

definition check_limit :: "LimitCode \<Rightarrow> Unit \<Rightarrow> i64 \<Rightarrow> unit decoder" where
  "check_limit code unit value =
     (if value <s 0 then dfail RejectedNegativeLimit
      else (case limit_info code of None \<Rightarrow> dfail RejectedUnknownLimitCode
        | Some info \<Rightarrow>
            if u_code unit \<noteq> li_unit info then dfail RejectedLimitUnitInvalid
            else if \<not> unit_valid_for_limit code unit then dfail RejectedLimitScaleNotPermitted
            else dret ()))"

definition decode_LimitValue :: "LimitValue decoder" where
  "decode_LimitValue = dbind decode_limit_code (\<lambda>code. dbind decode_Unit (\<lambda>u. dbind d_u64 (\<lambda>v.
     dbind (check_limit code u v) (\<lambda>_. dret (mk_limit code u v)))))"

definition encode_LimitSet :: "LimitSet \<Rightarrow> bytes" where
  "encode_LimitSet s = w_list encode_LimitValue s"

definition decode_LimitSet :: "LimitSet decoder" where
  "decode_LimitSet = dbind d_u32 (\<lambda>n.
     dbind (dguard (unat n \<le> kMaxLimitsPerRecord) RejectedLimitBudgetExceeded) (\<lambda>_.
     dbind (d_ascending lv_code decode_LimitValue (unat n) None) (\<lambda>values. dret (LimitSet_from_validated values))))"

definition FeatureSet_canonical_order_ok :: "FeatureSet \<Rightarrow> bool" where
  "FeatureSet_canonical_order_ok s = successively (<) s"

definition LimitSet_canonical_order_ok :: "LimitSet \<Rightarrow> bool" where
  "LimitSet_canonical_order_ok s = successively (<) (map lv_code s)"

subsection \<open>Versions\<close>

lemma d_bytes_str [simp]: "length t < 2 ^ 32 \<Longrightarrow> d_bytes (w_str t @ rest) = Inr (str_bytes t, rest)"
  by (simp add: d_bytes_def w_str_def)

lemma decode_SemVer_enc [simp]:
  assumes "semver_wf v"
  shows "decode_SemVer (encode_SemVer v @ rest) = Inr (v, rest)"
proof -
  have q: "length (prerelease v) \<le> kMaxSemVerQualifierLength" "length (build v) \<le> kMaxSemVerQualifierLength"
    using assms by (auto simp: semver_wf_def parse_identifiers_def split: if_splits)
  then have l: "length (prerelease v) < 2 ^ 32" "length (build v) < 2 ^ 32"
    by (simp_all add: kMaxSemVerQualifierLength_def)
  have nil: "str_bytes t = [] \<longleftrightarrow> t = []" for t by (simp add: str_bytes_def)
  have "SemVer_parse (SemVer_str v) = Some v" using assms by (rule SemVer_str_parse)
  then show ?thesis
    using q l
    by (cases "prerelease v = []"; cases "build v = []")
      (simp_all add: decode_SemVer_def encode_SemVer_def Let_def nil SemVer_str_def dbind_def dguard_def dret_def doption_def)
qed

lemma decode_SemVer_wf: "decode_SemVer bs = Inr (v, rest) \<Longrightarrow> semver_wf v"
  by (auto simp: decode_SemVer_def Let_def dest: SemVer_parse_wf)

interpretation SemVer_codec: codec encode_SemVer decode_SemVer semver_wf
  by unfold_locales (simp_all add: decode_SemVer_wf)

text \<open>
  The version decoder is not canonical. A prerelease field that contains a plus sign is re-parsed as a
  prerelease and build metadata, so two different byte strings decode to the same version, although the
  encoding is meant to be the only representation of a value.
\<close>

theorem decode_SemVer_alias:
  "\<exists>bs bs' v. bs \<noteq> bs' \<and> decode_SemVer bs = Inr (v, []) \<and> decode_SemVer bs' = Inr (v, [])
     \<and> v = mk_semver 1 0 0 ''a'' ''b''"
proof (intro exI conjI)
  let ?a = "w_u32 1 @ w_u32 0 @ w_u32 0 @ w_str ''a'' @ w_str ''b''"
  let ?b = "w_u32 1 @ w_u32 0 @ w_u32 0 @ w_str ''a+b'' @ w_str []"
  let ?v = "mk_semver 1 0 0 ''a'' ''b''"
  have wf: "semver_wf ?v" by code_simp
  have "w_u32 1 \<noteq> w_u32 3" using primitive_enc(3) [of 1 "[]"] primitive_enc(3) [of 3 "[]"] by auto
  then show "?a \<noteq> ?b" by (auto simp: w_str_def w_u32_def)
  show "decode_SemVer ?a = Inr (?v, [])"
    using decode_SemVer_enc [OF wf, of "[]"] by (simp add: encode_SemVer_def)
  have "SemVer_parse (core_str 1 0 0 @ ''-a+b'') = Some ?v"
    using SemVer_str_parse [OF wf] by (simp add: SemVer_str_def)
  then show "decode_SemVer ?b = Inr (?v, [])"
    using d_bytes_str [of "[]" "[]"]
    by (simp add: decode_SemVer_def Let_def SemVer_str_def kMaxSemVerQualifierLength_def str_bytes_def
          bytes_str_def)
qed simp

subsection \<open>Units\<close>

lemma unit_scale_codes:
  "\<not> scale > UnitScale_code Binary \<Longrightarrow> UnitScale_code (if scale = 0 then Unity else if scale = 1 then Decimal else Binary) = scale"
proof -
  assume "\<not> scale > UnitScale_code Binary"
  then have "unat scale = 0 \<or> unat scale = 1 \<or> unat scale = 2"
    by (simp add: UnitScale_code_def word_less_nat_alt) linarith
  then have "scale = 0 \<or> scale = 1 \<or> scale = 2" by (simp add: word_unat_eq_iff)
  then show ?thesis by (auto simp: UnitScale_code_def)
qed

lemma decode_Unit_iff [codec_iffs]:
  "decode_Unit bs = Inr (u, rest) \<longleftrightarrow> unit_is_well_formed u \<and> bs = encode_Unit u @ rest"
proof
  assume "decode_Unit bs = Inr (u, rest)"
  then show "unit_is_well_formed u \<and> bs = encode_Unit u @ rest"
    unfolding decode_Unit_def encode_Unit_def Let_def dbind_Inr codec_iffs dguard_Inr dret_simps
    by (elim exE conjE) (hypsubst, simp add: unit_scale_codes)
next
  assume "unit_is_well_formed u \<and> bs = encode_Unit u @ rest"
  then show "decode_Unit bs = Inr (u, rest)"
    by (cases u; cases "u_scale u") (simp_all add: decode_Unit_def encode_Unit_def Let_def UnitScale_code_def)
qed

lemma encode_Unit_dec [simp]: "unit_is_well_formed u \<Longrightarrow> decode_Unit (encode_Unit u @ rest) = Inr (u, rest)"
  by (simp add: decode_Unit_iff)

subsection \<open>Feature and limit sets\<close>

definition FeatureSet_ok :: "FeatureSet \<Rightarrow> bool" where
  "FeatureSet_ok s = (sorted_wrt (<) s \<and> length s \<le> kMaxFeaturesPerRecord \<and> list_all (\<lambda>c. feature_info c \<noteq> None) s)"

definition limit_value_ok :: "LimitCode \<Rightarrow> Unit \<Rightarrow> i64 \<Rightarrow> bool" where
  "limit_value_ok code u v = (unit_valid_for_limit code u \<and> 0 \<le> sint v)"

definition LimitSet_ok :: "LimitSet \<Rightarrow> bool" where
  "LimitSet_ok s = (sorted_wrt (<) (map lv_code s) \<and> length s \<le> kMaxLimitsPerRecord
     \<and> list_all (\<lambda>v. limit_value_ok (lv_code v) (lv_unit v) (lv_value v)) s)"

lemma above_None: "above key None xs \<longleftrightarrow> sorted_wrt (<) (map key xs)"
  by (simp add: above_def)

lemma strict_sorted_remdups_adj: "sorted_wrt (<) (xs :: 'a::linorder list) \<Longrightarrow> remdups_adj (sort xs) = xs"
  by (simp add: strict_sorted_iff sorted_sort_id remdups_adj_distinct)

lemma decode_FeatureSet_iff [codec_iffs]:
  "decode_FeatureSet bs = Inr (s, rest) \<longleftrightarrow> FeatureSet_ok s \<and> bs = encode_FeatureSet s @ rest"
proof
  assume "decode_FeatureSet bs = Inr (s, rest)"
  then obtain n r codes where h: "bs = w_u32 n @ r" "unat n \<le> kMaxFeaturesPerRecord"
    "d_ascending (\<lambda>c. c) decode_feature_code (unat n) None r = Inr (codes, rest)"
    "s = FeatureSet_from_validated codes"
    by (auto simp: decode_FeatureSet_def codec_iffs)
  have w: "list_all (\<lambda>c. feature_info c \<noteq> None) codes \<and> above (\<lambda>c. c) None codes \<and> length codes = unat n"
    by (rule d_ascending_wf [OF _ h(3)]) (simp add: code_iffs)
  have "r = concat (map w_u32 codes) @ rest" by (rule d_ascending_exact [OF _ h(3)]) (simp add: code_iffs)
  moreover have "s = codes"
    using w h(4) by (simp add: FeatureSet_from_validated_def above_None strict_sorted_remdups_adj)
  ultimately show "FeatureSet_ok s \<and> bs = encode_FeatureSet s @ rest"
    using w h(1,2) by (simp add: FeatureSet_ok_def encode_FeatureSet_def w_list_def above_None)
next
  assume h: "FeatureSet_ok s \<and> bs = encode_FeatureSet s @ rest"
  then have "d_ascending (\<lambda>c. c) decode_feature_code (length s) None (concat (map w_u32 s) @ rest) = Inr (s, rest)"
    by (intro d_ascending_enc [where ok = "\<lambda>c. feature_info c \<noteq> None"]) (simp_all add: FeatureSet_ok_def above_None)
  then show "decode_FeatureSet bs = Inr (s, rest)"
    using h by (simp add: decode_FeatureSet_def encode_FeatureSet_def w_list_def FeatureSet_ok_def
        kMaxFeaturesPerRecord_def FeatureSet_from_validated_def strict_sorted_remdups_adj)
qed

lemma check_limit_Inr [simp]:
  "check_limit code u v bs = Inr (x, rest) \<longleftrightarrow> limit_value_ok code u v \<and> rest = bs"
  by (auto simp: check_limit_def limit_value_ok_def unit_valid_for_limit_def word_sless_alt split: option.splits)

lemma unit_valid_for_limit_ok: "unit_valid_for_limit code u \<Longrightarrow> unit_is_well_formed u \<and> limit_info code \<noteq> None"
  by (auto simp: unit_valid_for_limit_def split: option.splits if_splits)

lemma decode_LimitValue_iff [codec_iffs]:
  "decode_LimitValue bs = Inr (v, rest) \<longleftrightarrow>
     limit_value_ok (lv_code v) (lv_unit v) (lv_value v) \<and> bs = encode_LimitValue v @ rest"
  by (cases v) (auto simp: decode_LimitValue_def encode_LimitValue_def codec_iffs limit_value_ok_def
      dest: unit_valid_for_limit_ok)

lemma unique_by_strict: "sorted_wrt (<) (map f xs) \<Longrightarrow> unique_by f (sort_key f xs) = xs" for f :: "'a \<Rightarrow> 'b::linorder"
proof -
  assume s: "sorted_wrt (<) (map f xs)"
  then have "sort_key f xs = xs" by (simp add: strict_sorted_iff sort_key_id_if_sorted)
  moreover have "unique_by f xs = xs"
    using s by (induction f xs rule: unique_by.induct) auto
  ultimately show ?thesis by simp
qed

lemma decode_LimitSet_iff [codec_iffs]:
  "decode_LimitSet bs = Inr (s, rest) \<longleftrightarrow> LimitSet_ok s \<and> bs = encode_LimitSet s @ rest"
proof
  let ?ok = "\<lambda>v. limit_value_ok (lv_code v) (lv_unit v) (lv_value v)"
  assume "decode_LimitSet bs = Inr (s, rest)"
  then obtain n r vs where h: "bs = w_u32 n @ r" "unat n \<le> kMaxLimitsPerRecord"
    "d_ascending lv_code decode_LimitValue (unat n) None r = Inr (vs, rest)" "s = LimitSet_from_validated vs"
    by (auto simp: decode_LimitSet_def codec_iffs)
  have w: "list_all ?ok vs \<and> above lv_code None vs \<and> length vs = unat n"
    by (rule d_ascending_wf [OF _ h(3)]) (simp add: decode_LimitValue_iff)
  have "r = concat (map encode_LimitValue vs) @ rest"
    by (rule d_ascending_exact [OF _ h(3)]) (simp add: decode_LimitValue_iff)
  moreover have "s = vs" using w h(4) by (simp add: LimitSet_from_validated_def above_None unique_by_strict)
  ultimately show "LimitSet_ok s \<and> bs = encode_LimitSet s @ rest"
    using w h(1,2) by (simp add: LimitSet_ok_def encode_LimitSet_def w_list_def above_None)
next
  let ?ok = "\<lambda>v. limit_value_ok (lv_code v) (lv_unit v) (lv_value v)"
  assume h: "LimitSet_ok s \<and> bs = encode_LimitSet s @ rest"
  then have "d_ascending lv_code decode_LimitValue (length s) None (concat (map encode_LimitValue s) @ rest) = Inr (s, rest)"
    by (intro d_ascending_enc [where ok = ?ok]) (simp_all add: LimitSet_ok_def above_None decode_LimitValue_iff)
  then show "decode_LimitSet bs = Inr (s, rest)"
    using h by (simp add: decode_LimitSet_def encode_LimitSet_def w_list_def LimitSet_ok_def
        kMaxLimitsPerRecord_def LimitSet_from_validated_def unique_by_strict)
qed

lemma set_enc [simp]:
  "FeatureSet_ok s \<Longrightarrow> decode_FeatureSet (encode_FeatureSet s @ rest) = Inr (s, rest)"
  "limit_value_ok (lv_code v) (lv_unit v) (lv_value v) \<Longrightarrow> decode_LimitValue (encode_LimitValue v @ rest) = Inr (v, rest)"
  "LimitSet_ok l \<Longrightarrow> decode_LimitSet (encode_LimitSet l @ rest) = Inr (l, rest)"
  by (simp_all add: codec_iffs)

interpretation Unit_codec: canonical_codec encode_Unit decode_Unit unit_is_well_formed
  by (rule canonical_codecI) (rule decode_Unit_iff)

interpretation FeatureSet_codec: canonical_codec encode_FeatureSet decode_FeatureSet FeatureSet_ok
  by (rule canonical_codecI) (rule decode_FeatureSet_iff)

interpretation LimitSet_codec: canonical_codec encode_LimitSet decode_LimitSet LimitSet_ok
  by (rule canonical_codecI) (rule decode_LimitSet_iff)

end
