(* ===== verification/EvidenceCodec.thy ===== *)
theory EvidenceCodec
  imports Codec
begin

text \<open>
  The codecs of identities, evidence and the records of the durable state of \<open>src/codec.cpp\<close>, and the
  content id of \<open>src/evidence.cpp\<close>.

  Each record has a well-formedness predicate (\<open>..._ok\<close>) that is exactly what its decoder accepts. Decoding
  inverts encoding on those values; where no version is contained the bytes are moreover canonical.
\<close>

section \<open>Identities and evidence\<close>


definition encode_device_identity :: "DeviceIdentity \<Rightarrow> bytes" where
  "encode_device_identity d = w_name (di_provider d) @ w_name (di_model d) @ w_u32 (di_unit_index d)
     @ w_optional w_name (di_serial d)"

definition decode_device_identity :: "DeviceIdentity decoder" where
  "decode_device_identity = dbind d_name (\<lambda>p. dbind d_name (\<lambda>m. dbind d_u32 (\<lambda>i.
     dbind (dguard (\<not> i > kMaxDeviceUnitIndex) RejectedMalformedDocument) (\<lambda>_.
     dbind (d_optional d_name) (\<lambda>s. dret (DeviceIdentity p m i s))))))"

definition encode_device_ref :: "DeviceIncarnationRef \<Rightarrow> bytes" where
  "encode_device_ref d = encode_device_identity (dr_device d) @ w_u64 (dr_incarnation d)"

definition decode_device_ref :: "DeviceIncarnationRef decoder" where
  "decode_device_ref = dbind decode_device_identity (\<lambda>d. dbind d_u64 (\<lambda>i.
     dbind (dguard (\<not> is_unset i) RejectedZeroIncarnation) (\<lambda>_. dret (DeviceIncarnationRef d i))))"

definition encode_source_incarnation :: "SourceIncarnation \<Rightarrow> bytes" where
  "encode_source_incarnation s = w_name (si_source s) @ w_u64 (si_counter s)"

definition decode_source_incarnation :: "SourceIncarnation decoder" where
  "decode_source_incarnation = dbind d_name (\<lambda>s. dbind d_u64 (\<lambda>c. dret (SourceIncarnation s c)))"

definition encode_evidence_key :: "EvidenceKey \<Rightarrow> bytes" where
  "encode_evidence_key k = encode_device_ref (key_device k) @ w_u16 (kind_code (key_kind k)) @ w_name (key_source k)"

definition decode_evidence_key :: "EvidenceKey decoder" where
  "decode_evidence_key = dbind decode_device_ref (\<lambda>d. dbind decode_kind (\<lambda>k. dbind d_name (\<lambda>s. dret (EvidenceKey d k s))))"

definition encode_evidence :: "CapabilityEvidence \<Rightarrow> bytes" where
  "encode_evidence e = encode_evidence_key (e_key e)
     @ encode_source_incarnation (e_source_incarnation e)
     @ encode_SemVer (e_capability_version e)
     @ encode_FeatureSet (e_features e)
     @ encode_LimitSet (e_limits e)
     @ w_optional encode_SemVer (e_firmware_version e)
     @ w_u64 (e_firmware_generation e)
     @ w_optional encode_SemVer (e_runtime_version e)
     @ w_u64 (e_runtime_generation e)
     @ w_u64 (e_observed_at e)
     @ w_optional w_u64 (e_valid_until e)
     @ w_u64 (e_generation e)
     @ w_u16 (AuthorityRank_code (e_authority e))
     @ w_u64 (e_epoch_at_ingest e)
     @ w_u64 (e_boot_at_ingest e)
     @ w_u64 (e_policy_revision e)"

text \<open>\<open>compute_digest\<close> and \<open>refresh_id\<close> of \<open>src/evidence.cpp\<close>: the id is the digest of the canonical bytes.\<close>

definition compute_digest :: "CapabilityEvidence \<Rightarrow> EvidenceId" where
  "compute_digest e = Digest256_of (encode_evidence e)"

definition refresh_id :: "CapabilityEvidence \<Rightarrow> CapabilityEvidence" where
  "refresh_id e = e\<lparr>e_id_cache := compute_digest e\<rparr>"

text \<open>The first feature or limit outside the declared kind refuses the record.\<close>

definition check_membership :: "FeatureCode list \<Rightarrow> LimitCode list \<Rightarrow> CapabilityKind \<Rightarrow> unit decoder" where
  "check_membership features limits kind =
     (if \<exists>c \<in> set features. \<not> feature_allowed_for c kind then dfail RejectedFeatureNotInKind
      else if \<exists>c \<in> set limits. \<not> limit_allowed_for c kind then dfail RejectedLimitNotInKind
      else dret ())"

definition window_ok :: "Tick option \<Rightarrow> Tick \<Rightarrow> bool" where
  "window_ok valid_until observed_at = (case valid_until of None \<Rightarrow> True | Some u \<Rightarrow> \<not> u < observed_at)"

definition decode_evidence :: "CapabilityEvidence decoder" where
  "decode_evidence =
     dbind decode_evidence_key (\<lambda>key.
     dbind decode_source_incarnation (\<lambda>source.
     dbind decode_SemVer (\<lambda>version.
     dbind decode_FeatureSet (\<lambda>features.
     dbind decode_LimitSet (\<lambda>limits.
     dbind (d_optional decode_SemVer) (\<lambda>firmware.
     dbind d_u64 (\<lambda>firmware_generation.
     dbind (d_optional decode_SemVer) (\<lambda>runtime.
     dbind d_u64 (\<lambda>runtime_generation.
     dbind d_u64 (\<lambda>observed_at.
     dbind (d_optional d_u64) (\<lambda>valid_until.
     dbind d_u64 (\<lambda>generation.
     dbind (read_enum authority_from RejectedMalformedDocument) (\<lambda>authority.
     dbind d_u64 (\<lambda>epoch.
     dbind d_u64 (\<lambda>boot.
     dbind d_u64 (\<lambda>revision.
     dbind (dguard (\<not> is_unset generation) RejectedGenerationRegression) (\<lambda>_.
     dbind (dguard (window_ok valid_until observed_at) RejectedValidityWindowInverted) (\<lambda>_.
     dbind (check_membership features (map lv_code limits) (key_kind key)) (\<lambda>_.
     dret (refresh_id \<lparr>e_key = key, e_source_incarnation = source, e_capability_version = version,
       e_features = features, e_limits = limits, e_firmware_version = firmware,
       e_firmware_generation = firmware_generation, e_runtime_version = runtime,
       e_runtime_generation = runtime_generation, e_observed_at = observed_at, e_valid_until = valid_until,
       e_generation = generation, e_authority = authority, e_epoch_at_ingest = epoch, e_boot_at_ingest = boot,
       e_policy_revision = revision, e_id_cache = []\<rparr>))))))))))))))))))))"

definition encode_stored :: "StoredEvidence \<Rightarrow> bytes" where
  "encode_stored s = encode_evidence (s_evidence s)
     @ w_u16 (EvidenceLifecycle_code (s_lifecycle s))
     @ w_u16 (s_admission_reason s)
     @ w_u64 (s_admitted_at s)
     @ w_optional w_u64 (s_retired_at s)
     @ w_u16 (s_retirement_reason s)"

definition decode_stored :: "StoredEvidence decoder" where
  "decode_stored =
     dbind decode_evidence (\<lambda>evidence.
     dbind (read_enum lifecycle_from RejectedMalformedDocument) (\<lambda>lifecycle.
     dbind d_reason (\<lambda>admission_reason.
     dbind d_u64 (\<lambda>admitted_at.
     dbind (d_optional d_u64) (\<lambda>retired_at.
     dbind d_reason (\<lambda>retirement_reason.
     dbind (dguard (\<not> (lifecycle = LifecycleRetired \<and> retired_at = None)) RejectedMalformedDocument) (\<lambda>_.
     dret \<lparr>s_evidence = evidence, s_lifecycle = lifecycle, s_admission_reason = admission_reason,
       s_admitted_at = admitted_at, s_retired_at = retired_at, s_retirement_reason = retirement_reason\<rparr>)))))))"

definition encode_retirement :: "RetirementRecord \<Rightarrow> bytes" where
  "encode_retirement t = encode_evidence_key (rr_key t) @ w_u64 (rr_generation t) @ w_u64 (rr_retired_at t)
     @ w_u16 (rr_reason t) @ w_u64 (rr_epoch t) @ w_u64 (rr_policy_revision t)
     @ w_u16 (AuthorityRank_code (rr_authority t))"

definition decode_retirement :: "RetirementRecord decoder" where
  "decode_retirement =
     dbind decode_evidence_key (\<lambda>key. dbind d_u64 (\<lambda>generation. dbind d_u64 (\<lambda>retired_at. dbind d_reason (\<lambda>reason.
     dbind d_u64 (\<lambda>epoch. dbind d_u64 (\<lambda>revision.
     dbind (read_enum authority_from RejectedMalformedDocument) (\<lambda>authority.
     dbind (dguard (\<not> is_unset generation) RejectedGenerationRegression) (\<lambda>_.
     dret \<lparr>rr_key = key, rr_generation = generation, rr_retired_at = retired_at, rr_reason = reason,
       rr_epoch = epoch, rr_policy_revision = revision, rr_authority = authority\<rparr>))))))))"

definition encode_conflict :: "ConflictGroup \<Rightarrow> bytes" where
  "encode_conflict g = w_digest (cg_id g) @ encode_device_ref (cg_device g) @ w_u16 (kind_code (cg_kind g))
     @ w_u16 (AuthorityRank_code (cg_authority g)) @ w_list w_digest (cg_members g)
     @ w_list w_u64 (cg_generations g) @ w_u64 (cg_observed_first g) @ w_u64 (cg_observed_last g)"

definition decode_conflict :: "ConflictGroup decoder" where
  "decode_conflict =
     dbind d_digest (\<lambda>cid. dbind decode_device_ref (\<lambda>device. dbind decode_kind (\<lambda>kind.
     dbind (read_enum authority_from RejectedMalformedDocument) (\<lambda>authority.
     dbind (d_list kMaxCollectionEntries RejectedOversizedInput d_digest) (\<lambda>members.
     dbind d_u32 (\<lambda>generation_count.
     dbind (dguard (\<not> (unat generation_count > kMaxCollectionEntries \<or> unat generation_count \<noteq> length members))
       RejectedMalformedDocument) (\<lambda>_.
     dbind (d_times (unat generation_count) d_u64) (\<lambda>generations.
     dbind d_u64 (\<lambda>first. dbind d_u64 (\<lambda>last.
     dret \<lparr>cg_id = cid, cg_device = device, cg_kind = kind, cg_authority = authority, cg_members = members,
       cg_generations = generations, cg_observed_first = first, cg_observed_last = last\<rparr>))))))))))"

definition encode_resolution :: "ConflictResolution \<Rightarrow> bytes" where
  "encode_resolution r = w_digest (cr_id r) @ w_digest (cr_conflict r) @ w_digest (cr_chosen r)
     @ w_list w_digest (cr_rejected_members r) @ w_name (cr_resolver r) @ w_u64 (cr_resolved_at r)
     @ w_u64 (cr_epoch r)"

definition decode_resolution :: "ConflictResolution decoder" where
  "decode_resolution =
     dbind d_digest (\<lambda>rid. dbind d_digest (\<lambda>conflict. dbind d_digest (\<lambda>chosen.
     dbind (d_list kMaxCollectionEntries RejectedOversizedInput d_digest) (\<lambda>rejected.
     dbind d_name (\<lambda>resolver. dbind d_u64 (\<lambda>resolved_at. dbind d_u64 (\<lambda>epoch.
     dret \<lparr>cr_id = rid, cr_conflict = conflict, cr_chosen = chosen, cr_rejected_members = rejected,
       cr_resolver = resolver, cr_resolved_at = resolved_at, cr_epoch = epoch\<rparr>)))))))"

definition encode_eviction :: "EvictionEntry \<Rightarrow> bytes" where
  "encode_eviction e = w_digest (ev_id e) @ encode_evidence_key (ev_key e) @ w_u64 (ev_generation e)
     @ w_u16 (EvidenceState_code (ev_state_at_eviction e)) @ w_u16 (ev_reason e) @ w_u64 (ev_evicted_at e)"

definition decode_eviction :: "EvictionEntry decoder" where
  "decode_eviction =
     dbind d_digest (\<lambda>eid. dbind decode_evidence_key (\<lambda>key. dbind d_u64 (\<lambda>generation.
     dbind (read_enum evidence_state_from RejectedMalformedDocument) (\<lambda>state.
     dbind d_reason (\<lambda>reason. dbind d_u64 (\<lambda>evicted_at.
     dret \<lparr>ev_id = eid, ev_key = key, ev_generation = generation, ev_state_at_eviction = state,
       ev_reason = reason, ev_evicted_at = evicted_at\<rparr>))))))"

section \<open>What the decoders accept\<close>

definition device_identity_ok :: "DeviceIdentity \<Rightarrow> bool" where
  "device_identity_ok d \<longleftrightarrow> Name_wf (di_provider d) \<and> Name_wf (di_model d)
     \<and> di_unit_index d \<le> kMaxDeviceUnitIndex \<and> pred_option Name_wf (di_serial d)"

definition device_ref_ok :: "DeviceIncarnationRef \<Rightarrow> bool" where
  "device_ref_ok d \<longleftrightarrow> device_identity_ok (dr_device d) \<and> dr_incarnation d \<noteq> 0"

definition source_incarnation_ok :: "SourceIncarnation \<Rightarrow> bool" where
  "source_incarnation_ok s \<longleftrightarrow> Name_wf (si_source s)"

definition evidence_key_ok :: "EvidenceKey \<Rightarrow> bool" where
  "evidence_key_ok k \<longleftrightarrow> device_ref_ok (key_device k) \<and> Name_wf (key_source k)"

definition digest_ok :: "Digest256 \<Rightarrow> bool" where
  "digest_ok d \<longleftrightarrow> length d = kDigestBytes"

definition evidence_ok :: "CapabilityEvidence \<Rightarrow> bool" where
  "evidence_ok e \<longleftrightarrow> evidence_key_ok (e_key e) \<and> source_incarnation_ok (e_source_incarnation e)
     \<and> semver_wf (e_capability_version e) \<and> FeatureSet_wf (key_kind (e_key e)) (e_features e)
     \<and> LimitSet_wf (key_kind (e_key e)) (e_limits e) \<and> pred_option semver_wf (e_firmware_version e)
     \<and> pred_option semver_wf (e_runtime_version e) \<and> window_ok (e_valid_until e) (e_observed_at e)
     \<and> e_generation e \<noteq> 0 \<and> e_id_cache e = compute_digest e"

definition stored_ok :: "StoredEvidence \<Rightarrow> bool" where
  "stored_ok s \<longleftrightarrow> evidence_ok (s_evidence s) \<and> find_entry (s_admission_reason s) \<noteq> None
     \<and> find_entry (s_retirement_reason s) \<noteq> None
     \<and> \<not> (s_lifecycle s = LifecycleRetired \<and> s_retired_at s = None)"

definition retirement_ok :: "RetirementRecord \<Rightarrow> bool" where
  "retirement_ok t \<longleftrightarrow> evidence_key_ok (rr_key t) \<and> rr_generation t \<noteq> 0 \<and> find_entry (rr_reason t) \<noteq> None"

definition conflict_ok :: "ConflictGroup \<Rightarrow> bool" where
  "conflict_ok g \<longleftrightarrow> digest_ok (cg_id g) \<and> device_ref_ok (cg_device g) \<and> list_all digest_ok (cg_members g)
     \<and> length (cg_members g) \<le> kMaxCollectionEntries \<and> length (cg_generations g) = length (cg_members g)"

definition resolution_ok :: "ConflictResolution \<Rightarrow> bool" where
  "resolution_ok r \<longleftrightarrow> digest_ok (cr_id r) \<and> digest_ok (cr_conflict r) \<and> digest_ok (cr_chosen r)
     \<and> list_all digest_ok (cr_rejected_members r) \<and> length (cr_rejected_members r) \<le> kMaxCollectionEntries
     \<and> Name_wf (cr_resolver r)"

definition eviction_ok :: "EvictionEntry \<Rightarrow> bool" where
  "eviction_ok e \<longleftrightarrow> digest_ok (ev_id e) \<and> evidence_key_ok (ev_key e) \<and> find_entry (ev_reason e) \<noteq> None"

section \<open>Canonical codecs\<close>

lemma d_optional_iff:
  "(\<And>bs v rest. d bs = Inr (v, rest) \<longleftrightarrow> ok v \<and> bs = enc v @ rest) \<Longrightarrow>
   d_optional d bs = Inr (x, rest) \<longleftrightarrow> pred_option ok x \<and> bs = w_optional enc x @ rest"
  using d_optional_enc [of ok d enc] d_optional_wf [of d ok] d_optional_exact [of d enc] by metis

lemma d_list_iff:
  "(\<And>bs v rest. d bs = Inr (v, rest) \<longleftrightarrow> ok v \<and> bs = enc v @ rest) \<Longrightarrow> bound < 2 ^ 32 \<Longrightarrow>
   d_list bound c d bs = Inr (xs, rest) \<longleftrightarrow> (list_all ok xs \<and> length xs \<le> bound) \<and> bs = w_list enc xs @ rest"
  using d_list_enc [of ok d enc bound] d_list_wf [of d ok bound c] d_list_exact [of d enc bound c] by metis

lemma optional_iffs [codec_iffs]:
  "d_optional d_name bs = Inr (x, rest) \<longleftrightarrow> pred_option Name_wf x \<and> bs = w_optional w_name x @ rest"
  "d_optional d_u64 bs = Inr (y, rest) \<longleftrightarrow> bs = w_optional w_u64 y @ rest"
  using d_optional_iff [of d_u64 "\<lambda>_. True" w_u64] by (simp_all add: d_optional_iff codec_iffs option.pred_True)

lemma collection_iffs [codec_iffs]:
  "d_list kMaxCollectionEntries c d_digest bs = Inr (xs, rest) \<longleftrightarrow>
     (list_all digest_ok xs \<and> length xs \<le> kMaxCollectionEntries) \<and> bs = w_list w_digest xs @ rest"
  "d_list kMaxCollectionEntries c d_u64 bs = Inr (ys, rest) \<longleftrightarrow>
     length ys \<le> kMaxCollectionEntries \<and> bs = w_list w_u64 ys @ rest"
  using d_list_iff [of d_digest digest_ok w_digest kMaxCollectionEntries]
    d_list_iff [of d_u64 "\<lambda>_. True" w_u64 kMaxCollectionEntries]
  by (simp_all add: codec_iffs digest_ok_def kMaxCollectionEntries_def list.pred_True)

lemma decode_device_identity_iff [codec_iffs]:
  "decode_device_identity bs = Inr (d, rest) \<longleftrightarrow> device_identity_ok d \<and> bs = encode_device_identity d @ rest"
  by (cases d) (auto simp: decode_device_identity_def encode_device_identity_def device_identity_ok_def codec_iffs not_less)

lemma decode_device_ref_iff [codec_iffs]:
  "decode_device_ref bs = Inr (d, rest) \<longleftrightarrow> device_ref_ok d \<and> bs = encode_device_ref d @ rest"
  by (cases d) (auto simp: decode_device_ref_def encode_device_ref_def device_ref_ok_def is_unset_def codec_iffs)

lemma decode_source_incarnation_iff [codec_iffs]:
  "decode_source_incarnation bs = Inr (s, rest) \<longleftrightarrow> source_incarnation_ok s \<and> bs = encode_source_incarnation s @ rest"
  by (cases s) (auto simp: decode_source_incarnation_def encode_source_incarnation_def source_incarnation_ok_def codec_iffs)

lemma decode_evidence_key_iff [codec_iffs]:
  "decode_evidence_key bs = Inr (k, rest) \<longleftrightarrow> evidence_key_ok k \<and> bs = encode_evidence_key k @ rest"
  by (cases k) (auto simp: decode_evidence_key_def encode_evidence_key_def evidence_key_ok_def codec_iffs)

lemma decode_retirement_iff [codec_iffs]:
  "decode_retirement bs = Inr (t, rest) \<longleftrightarrow> retirement_ok t \<and> bs = encode_retirement t @ rest"
  by (cases t) (auto simp: decode_retirement_def encode_retirement_def retirement_ok_def is_unset_def codec_iffs)

lemma decode_resolution_iff [codec_iffs]:
  "decode_resolution bs = Inr (r, rest) \<longleftrightarrow> resolution_ok r \<and> bs = encode_resolution r @ rest"
  by (cases r) (auto simp: decode_resolution_def encode_resolution_def resolution_ok_def digest_ok_def codec_iffs)

lemma decode_eviction_iff [codec_iffs]:
  "decode_eviction bs = Inr (e, rest) \<longleftrightarrow> eviction_ok e \<and> bs = encode_eviction e @ rest"
  by (cases e) (auto simp: decode_eviction_def encode_eviction_def eviction_ok_def digest_ok_def codec_iffs)

lemma decode_conflict_iff [codec_iffs]:
  "decode_conflict bs = Inr (g, rest) \<longleftrightarrow> conflict_ok g \<and> bs = encode_conflict g @ rest"
proof
  assume "decode_conflict bs = Inr (g, rest)"
  then obtain n r1 r2 where h: "bs = w_digest (cg_id g) @ encode_device_ref (cg_device g) @ w_u16 (kind_code (cg_kind g))
      @ w_u16 (AuthorityRank_code (cg_authority g)) @ w_list w_digest (cg_members g) @ w_u32 n @ r1"
    and ok: "digest_ok (cg_id g)" "device_ref_ok (cg_device g)" "list_all digest_ok (cg_members g)"
      "length (cg_members g) \<le> kMaxCollectionEntries" "unat n = length (cg_members g)"
    and g: "d_times (unat n) d_u64 r1 = Inr (cg_generations g, r2)"
      "r2 = w_u64 (cg_observed_first g) @ w_u64 (cg_observed_last g) @ rest"
    by (auto simp: decode_conflict_def codec_iffs digest_ok_def)
  have "r1 = concat (map w_u64 (cg_generations g)) @ r2"
    by (rule d_times_exact [OF _ g(1)]) (simp add: codec_iffs)
  moreover have len: "length (cg_generations g) = unat n"
    using d_times_wf [of d_u64 "\<lambda>_. True", OF _ g(1)] by simp
  moreover have "n = of_nat (length (cg_members g))" by (simp flip: ok(5))
  ultimately show "conflict_ok g \<and> bs = encode_conflict g @ rest"
    using h ok g(2) by (simp add: conflict_ok_def encode_conflict_def w_list_def [of w_u64])
next
  assume h: "conflict_ok g \<and> bs = encode_conflict g @ rest"
  have t: "d_times (length (cg_members g)) d_u64 (concat (map w_u64 (cg_generations g)) @ r) = Inr (cg_generations g, r)" for r
    using h by (intro d_times_enc [where ok = "\<lambda>_. True"]) (simp_all add: conflict_ok_def list.pred_True)
  have m: "d_list kMaxCollectionEntries c d_digest (w_list w_digest (cg_members g) @ r) = Inr (cg_members g, r)" for c r
    using h by (simp add: codec_iffs conflict_ok_def)
  have d: "decode_device_ref (encode_device_ref (cg_device g) @ r) = Inr (cg_device g, r)" for r
    using h by (simp add: codec_iffs conflict_ok_def)
  show "decode_conflict bs = Inr (g, rest)"
    using h t m d by (simp add: decode_conflict_def encode_conflict_def conflict_ok_def w_list_def [of w_u64]
        digest_ok_def kMaxCollectionEntries_def)
qed

interpretation device_ref_codec: canonical_codec encode_device_ref decode_device_ref device_ref_ok
  by (rule canonical_codecI) (rule decode_device_ref_iff)

interpretation key_codec: canonical_codec encode_evidence_key decode_evidence_key evidence_key_ok
  by (rule canonical_codecI) (rule decode_evidence_key_iff)

interpretation retirement_codec: canonical_codec encode_retirement decode_retirement retirement_ok
  by (rule canonical_codecI) (rule decode_retirement_iff)

interpretation conflict_codec: canonical_codec encode_conflict decode_conflict conflict_ok
  by (rule canonical_codecI) (rule decode_conflict_iff)

interpretation resolution_codec: canonical_codec encode_resolution decode_resolution resolution_ok
  by (rule canonical_codecI) (rule decode_resolution_iff)

interpretation eviction_codec: canonical_codec encode_eviction decode_eviction eviction_ok
  by (rule canonical_codecI) (rule decode_eviction_iff)

text \<open>
  The records of the durable state without versions have exactly one encoding: a device, a stream key,
  a tombstone, a conflict group, a resolution or an eviction entry decodes from some bytes if and only if
  it is well formed and the bytes begin with its canonical encoding. No other byte string yields it, no two
  values share an encoding, and no encoding is a prefix of another's.
\<close>

theorem durable_records_canonical:
  "(decode_device_ref bs = Inr (d, rest) \<longleftrightarrow> device_ref_ok d \<and> bs = encode_device_ref d @ rest)
   \<and> (decode_evidence_key bs = Inr (k, rest) \<longleftrightarrow> evidence_key_ok k \<and> bs = encode_evidence_key k @ rest)
   \<and> (decode_retirement bs = Inr (t, rest) \<longleftrightarrow> retirement_ok t \<and> bs = encode_retirement t @ rest)
   \<and> (decode_conflict bs = Inr (g, rest) \<longleftrightarrow> conflict_ok g \<and> bs = encode_conflict g @ rest)
   \<and> (decode_resolution bs = Inr (r, rest) \<longleftrightarrow> resolution_ok r \<and> bs = encode_resolution r @ rest)
   \<and> (decode_eviction bs = Inr (e, rest) \<longleftrightarrow> eviction_ok e \<and> bs = encode_eviction e @ rest)"
  by (simp add: device_ref_codec.dec_iff key_codec.dec_iff retirement_codec.dec_iff conflict_codec.dec_iff
        resolution_codec.dec_iff eviction_codec.dec_iff)

section \<open>Evidence\<close>

lemma check_membership_Inr [simp]:
  "check_membership fs ls kind bs = Inr (x, rest) \<longleftrightarrow>
     (\<forall>c \<in> set fs. feature_allowed_for c kind) \<and> (\<forall>c \<in> set ls. limit_allowed_for c kind) \<and> rest = bs"
  by (auto simp: check_membership_def)

lemma FeatureSet_wf_ok: "FeatureSet_wf kind s \<longleftrightarrow> FeatureSet_ok s \<and> (\<forall>c \<in> set s. feature_allowed_for c kind)"
  by (auto simp: FeatureSet_wf_def FeatureSet_ok_def list_all_iff feature_allowed_for_def split: option.splits)

lemma LimitSet_wf_ok: "LimitSet_wf kind s \<longleftrightarrow> LimitSet_ok s \<and> (\<forall>v \<in> set s. limit_allowed_for (lv_code v) kind)"
  by (auto simp: LimitSet_wf_def LimitSet_ok_def list_all_iff limit_ok_def limit_value_ok_def)

lemma optional_semver:
  "pred_option semver_wf x \<Longrightarrow> d_optional decode_SemVer (w_optional encode_SemVer x @ rest) = Inr (x, rest)"
  "d_optional decode_SemVer bs = Inr (x, rest) \<Longrightarrow> pred_option semver_wf x"
  using d_optional_enc [of semver_wf decode_SemVer encode_SemVer x rest]
    d_optional_wf [of decode_SemVer semver_wf bs x rest] decode_SemVer_wf by auto

lemma optional_tick [simp]: "d_optional d_u64 (w_optional w_u64 x @ rest) = Inr (x, rest)"
  by (simp add: codec_iffs)

lemma identity_enc [simp]:
  "device_identity_ok i \<Longrightarrow> decode_device_identity (encode_device_identity i @ rest) = Inr (i, rest)"
  "device_ref_ok d \<Longrightarrow> decode_device_ref (encode_device_ref d @ rest) = Inr (d, rest)"
  "source_incarnation_ok s \<Longrightarrow> decode_source_incarnation (encode_source_incarnation s @ rest) = Inr (s, rest)"
  "evidence_key_ok k \<Longrightarrow> decode_evidence_key (encode_evidence_key k @ rest) = Inr (k, rest)"
  by (simp_all add: codec_iffs)

text \<open>The id does not depend on the cached id, so refreshing twice changes nothing.\<close>

lemma compute_digest_cache [simp]: "compute_digest (e\<lparr>e_id_cache := x\<rparr>) = compute_digest e"
  by (simp add: compute_digest_def encode_evidence_def)

lemma refresh_id_id: "e_id_cache e = compute_digest e \<Longrightarrow> refresh_id (e\<lparr>e_id_cache := x\<rparr>) = e"
  by (simp add: refresh_id_def)

lemma decode_evidence_enc [simp]:
  assumes "evidence_ok e"
  shows "decode_evidence (encode_evidence e @ rest) = Inr (e, rest)"
proof -
  let ?raw = "e\<lparr>e_id_cache := []\<rparr>"
  have "decode_evidence (encode_evidence e @ rest) = Inr (refresh_id ?raw, rest)"
    using assms
    by (cases e) (simp add: decode_evidence_def encode_evidence_def evidence_ok_def optional_semver(1)
        FeatureSet_wf_ok LimitSet_wf_ok is_unset_def)
  then show ?thesis using assms by (simp add: refresh_id_id evidence_ok_def)
qed

lemma parts_ok:
  "decode_evidence_key bs = Inr (k, rest) \<Longrightarrow> evidence_key_ok k"
  "decode_source_incarnation bs = Inr (s, rest) \<Longrightarrow> source_incarnation_ok s"
  "decode_FeatureSet bs = Inr (f, rest) \<Longrightarrow> FeatureSet_ok f"
  "decode_LimitSet bs = Inr (l, rest) \<Longrightarrow> LimitSet_ok l"
  by (simp_all add: codec_iffs)

lemma evidence_ok_refresh:
  "evidence_ok (refresh_id e) \<longleftrightarrow> evidence_key_ok (e_key e) \<and> source_incarnation_ok (e_source_incarnation e)
     \<and> semver_wf (e_capability_version e) \<and> FeatureSet_wf (key_kind (e_key e)) (e_features e)
     \<and> LimitSet_wf (key_kind (e_key e)) (e_limits e) \<and> pred_option semver_wf (e_firmware_version e)
     \<and> pred_option semver_wf (e_runtime_version e) \<and> window_ok (e_valid_until e) (e_observed_at e)
     \<and> e_generation e \<noteq> 0"
  by (simp add: evidence_ok_def refresh_id_def)

lemma decode_evidence_ok: "decode_evidence bs = Inr (e, rest) \<Longrightarrow> evidence_ok e"
  unfolding decode_evidence_def dbind_Inr dret_simps dguard_Inr check_membership_Inr
  apply (elim exE conjE)
  apply (drule parts_ok decode_SemVer_wf optional_semver(2))+
  apply hypsubst
  apply (simp add: evidence_ok_refresh FeatureSet_wf_ok LimitSet_wf_ok is_unset_def)
  done

lemma decode_stored_enc [simp]: "stored_ok s \<Longrightarrow> decode_stored (encode_stored s @ rest) = Inr (s, rest)"
  by (cases s) (auto simp: decode_stored_def encode_stored_def stored_ok_def)

lemma decode_stored_ok: "decode_stored bs = Inr (s, rest) \<Longrightarrow> stored_ok s"
  by (auto simp: decode_stored_def stored_ok_def codec_iffs dest: decode_evidence_ok)

interpretation evidence_codec: codec encode_evidence decode_evidence evidence_ok
  by unfold_locales (simp_all add: decode_evidence_ok)

interpretation stored_codec: codec encode_stored decode_stored stored_ok
  by unfold_locales (simp_all add: decode_stored_ok)

end
