(* ===== verification/StateCodec.thy ===== *)
theory StateCodec
  imports EvidenceCodec
begin

text \<open>
  The codecs of the policy, the durable registry state, the requirements and the requests of
  \<open>src/codec.cpp\<close>.

  The decoder of a state ends with cross-field checks: a state whose declared bounds cannot hold its own
  contents, or whose sources are not strictly sorted, is refused. \<open>state_ok\<close> is exactly what it accepts.
\<close>

section \<open>Policies\<close>

definition encode_source_policy :: "SourcePolicy \<Rightarrow> bytes" where
  "encode_source_policy s = w_name (sp_id s) @ w_u16 (SourceKind_code (sp_kind s))
     @ w_u16 (AuthorityRank_code (sp_authority s)) @ w_u16 (SourceTrustState_code (sp_trust s))
     @ w_u64 (sp_max_age s) @ w_boolean (sp_durable_across_boot s)"

definition decode_source_policy :: "SourcePolicy decoder" where
  "decode_source_policy =
     dbind d_name (\<lambda>sid. dbind (read_enum source_kind_from RejectedMalformedDocument) (\<lambda>kind.
     dbind (read_enum authority_from RejectedMalformedDocument) (\<lambda>authority.
     dbind (read_enum trust_from RejectedMalformedDocument) (\<lambda>trust.
     dbind d_u64 (\<lambda>max_age. dbind d_boolean (\<lambda>durable.
     dret \<lparr>sp_id = sid, sp_kind = kind, sp_authority = authority, sp_trust = trust, sp_max_age = max_age,
       sp_durable_across_boot = durable\<rparr>))))))"

text \<open>A \<open>std::size_t\<close> bound travels as 64 bits; on a 64-bit target narrowing it never fails.\<close>

definition w_size :: "nat \<Rightarrow> bytes" where
  "w_size n = w_u64 (of_nat n)"

definition d_size :: "nat decoder" where
  "d_size = dbind d_u64 (\<lambda>raw. dret (unat raw))"

definition encode_limits :: "RegistryLimits \<Rightarrow> bytes" where
  "encode_limits l = w_size (max_devices l) @ w_size (max_incarnations_per_device l) @ w_size (max_streams l)
     @ w_size (max_records l) @ w_size (max_records_per_stream l) @ w_size (max_tombstones l)
     @ w_size (max_conflict_groups l) @ w_size (max_resolutions l) @ w_size (max_eviction_ledger l)
     @ w_size (max_sources l) @ w_size (max_decisions l) @ w_size (max_features_per_record l)
     @ w_size (max_limits_per_record l) @ w_size (max_limits_per_requirement l) @ w_size (max_required_features l)"

definition decode_limits :: "RegistryLimits decoder" where
  "decode_limits =
     dbind d_size (\<lambda>devices. dbind d_size (\<lambda>incarnations. dbind d_size (\<lambda>streams. dbind d_size (\<lambda>records.
     dbind d_size (\<lambda>per_stream. dbind d_size (\<lambda>tombstones. dbind d_size (\<lambda>conflicts. dbind d_size (\<lambda>resolutions.
     dbind d_size (\<lambda>ledger. dbind d_size (\<lambda>sources. dbind d_size (\<lambda>decisions. dbind d_size (\<lambda>features.
     dbind d_size (\<lambda>limits. dbind d_size (\<lambda>per_requirement. dbind d_size (\<lambda>required_features.
     dret \<lparr>max_devices = devices, max_incarnations_per_device = incarnations, max_streams = streams,
       max_records = records, max_records_per_stream = per_stream, max_tombstones = tombstones,
       max_conflict_groups = conflicts, max_resolutions = resolutions, max_eviction_ledger = ledger,
       max_sources = sources, max_decisions = decisions, max_features_per_record = features,
       max_limits_per_record = limits, max_limits_per_requirement = per_requirement,
       max_required_features = required_features\<rparr>)))))))))))))))"

definition encode_registry_policy :: "RegistryPolicy \<Rightarrow> bytes" where
  "encode_registry_policy p = w_list encode_source_policy (p_sources p)
     @ w_boolean (p_require_configured_source p) @ w_boolean (p_refuse_untrusted_sources p)
     @ w_u16 (BootPolicy_code (p_boot_policy p)) @ w_u16 (ClockMode_code (p_clock_mode p))
     @ w_u64 (p_retention_horizon p) @ w_u64 (p_max_future_skew p) @ w_u64 (p_default_max_age p)
     @ encode_limits (p_limits p) @ w_u64 (p_rule_generation p) @ w_str (p_policy_name p)"

definition decode_registry_policy :: "RegistryPolicy decoder" where
  "decode_registry_policy =
     dbind (d_list kMaxCollectionEntries RejectedOversizedInput decode_source_policy) (\<lambda>sources.
     dbind d_boolean (\<lambda>require. dbind d_boolean (\<lambda>refuse.
     dbind (read_enum boot_policy_from RejectedMalformedDocument) (\<lambda>boot.
     dbind (read_enum clock_mode_from RejectedMalformedDocument) (\<lambda>clock.
     dbind d_u64 (\<lambda>horizon. dbind d_u64 (\<lambda>skew. dbind d_u64 (\<lambda>max_age.
     dbind decode_limits (\<lambda>limits. dbind d_u64 (\<lambda>rule. dbind d_bytes (\<lambda>name.
     dbind (dguard (\<not> length name > 128) RejectedOversizedInput) (\<lambda>_.
     dret \<lparr>p_sources = sources, p_require_configured_source = require, p_refuse_untrusted_sources = refuse,
       p_boot_policy = boot, p_clock_mode = clock, p_retention_horizon = horizon, p_max_future_skew = skew,
       p_default_max_age = max_age, p_limits = limits, p_rule_generation = rule,
       p_policy_name = bytes_str name\<rparr>))))))))))))"

section \<open>Counters and incarnations\<close>

definition encode_counters :: "RegistryCounters \<Rightarrow> bytes" where
  "encode_counters c = w_u64 (admissions_accepted c) @ w_u64 (admissions_idempotent c) @ w_u64 (admissions_rejected c)
     @ w_u64 (retirements_accepted c) @ w_u64 (retirements_rejected c) @ w_u64 (decisions_emitted c)
     @ w_u64 (decisions_evicted c) @ w_u64 (conflicts_resolved c) @ w_u64 (evictions_total c)
     @ w_u64 (eviction_ledger_dropped c) @ w_u64 (conflicts_dropped c) @ w_u64 (resolutions_dropped c)
     @ w_u64 (tombstones_dropped c)"

definition decode_counters :: "RegistryCounters decoder" where
  "decode_counters =
     dbind d_u64 (\<lambda>accepted. dbind d_u64 (\<lambda>idempotent. dbind d_u64 (\<lambda>rejected. dbind d_u64 (\<lambda>retired.
     dbind d_u64 (\<lambda>retire_rejected. dbind d_u64 (\<lambda>emitted. dbind d_u64 (\<lambda>evicted. dbind d_u64 (\<lambda>resolved.
     dbind d_u64 (\<lambda>total. dbind d_u64 (\<lambda>ledger. dbind d_u64 (\<lambda>conflicts. dbind d_u64 (\<lambda>resolutions.
     dbind d_u64 (\<lambda>tombstones.
     dret \<lparr>admissions_accepted = accepted, admissions_idempotent = idempotent, admissions_rejected = rejected,
       retirements_accepted = retired, retirements_rejected = retire_rejected, decisions_emitted = emitted,
       decisions_evicted = evicted, conflicts_resolved = resolved, evictions_total = total,
       eviction_ledger_dropped = ledger, conflicts_dropped = conflicts, resolutions_dropped = resolutions,
       tombstones_dropped = tombstones\<rparr>)))))))))))))"

definition encode_incarnation_entry :: "DeviceIncarnationEntry \<Rightarrow> bytes" where
  "encode_incarnation_entry e = encode_device_identity (ie_device e) @ w_u64 (ie_current e)
     @ w_list w_u64 (ie_history e)"

definition decode_incarnation_entry :: "DeviceIncarnationEntry decoder" where
  "decode_incarnation_entry =
     dbind decode_device_identity (\<lambda>device. dbind d_u64 (\<lambda>current.
     dbind (d_list kMaxCollectionEntries RejectedOversizedInput d_u64) (\<lambda>history.
     dret \<lparr>ie_device = device, ie_current = current, ie_history = history\<rparr>)))"

section \<open>Registry state\<close>

definition kStoreFormatVersion :: u32 where "kStoreFormatVersion = 1"

definition encode_state :: "RegistryState \<Rightarrow> bytes" where
  "encode_state s = w_u32 kStoreFormatVersion @ encode_registry_policy (rs_policy s)
     @ w_u64 (rs_epoch s) @ w_u64 (rs_rule_generation s) @ w_u64 (rs_policy_revision s)
     @ w_u64 (rs_boot_epoch s) @ w_u64 (rs_store_generation s) @ w_u64 (rs_logical_tick s)
     @ w_u64 (rs_next_incarnation s)
     @ w_list encode_incarnation_entry (rs_incarnations s)
     @ w_list encode_stored (rs_records s)
     @ w_list encode_retirement (rs_tombstones s)
     @ w_list encode_conflict (rs_conflicts s)
     @ w_list encode_resolution (rs_resolutions s)
     @ w_list encode_eviction (rs_evictions s)
     @ encode_counters (rs_counters s)"

definition read_collection :: "'a decoder \<Rightarrow> 'a list decoder" where
  "read_collection d = d_list kMaxCollectionEntries RejectedOversizedInput d"

definition decode_state :: "RegistryState decoder" where
  "decode_state =
     dbind d_u32 (\<lambda>format. dbind (dguard (format = kStoreFormatVersion) StoreVersionIncompatible) (\<lambda>_.
     dbind decode_registry_policy (\<lambda>policy.
     dbind d_u64 (\<lambda>epoch. dbind d_u64 (\<lambda>rule. dbind d_u64 (\<lambda>revision. dbind d_u64 (\<lambda>boot.
     dbind d_u64 (\<lambda>generation. dbind d_u64 (\<lambda>tick. dbind d_u64 (\<lambda>next.
     dbind (dguard (next \<noteq> 0) RejectedZeroIncarnation) (\<lambda>_.
     dbind (read_collection decode_incarnation_entry) (\<lambda>incarnations.
     dbind (read_collection decode_stored) (\<lambda>records.
     dbind (read_collection decode_retirement) (\<lambda>tombstones.
     dbind (read_collection decode_conflict) (\<lambda>conflicts.
     dbind (read_collection decode_resolution) (\<lambda>resolutions.
     dbind (read_collection decode_eviction) (\<lambda>evictions.
     dbind decode_counters (\<lambda>counters.
     dbind (dguard (\<not> length records > max_records (p_limits policy)) StoreSemanticMismatch) (\<lambda>_.
     dbind (dguard (\<not> length tombstones > max_tombstones (p_limits policy)) StoreSemanticMismatch) (\<lambda>_.
     dbind (dguard (successively (<) (map sp_id (p_sources policy))) StoreSemanticMismatch) (\<lambda>_.
     dret \<lparr>rs_policy = policy, rs_epoch = epoch, rs_rule_generation = rule, rs_policy_revision = revision,
       rs_boot_epoch = boot, rs_store_generation = generation, rs_logical_tick = tick, rs_next_incarnation = next,
       rs_incarnations = incarnations, rs_records = records, rs_tombstones = tombstones, rs_conflicts = conflicts,
       rs_resolutions = resolutions, rs_evictions = evictions, rs_counters = counters\<rparr>)))))))))))))))))))))"

definition state_digest :: "RegistryState \<Rightarrow> Digest256" where
  "state_digest s = Digest256_of (encode_state s)"

section \<open>Requirements and requests\<close>

definition encode_LimitRequirement :: "LimitRequirement \<Rightarrow> bytes" where
  "encode_LimitRequirement l = w_u32 (lr_code l) @ encode_Unit (lr_unit l) @ w_u64 (lr_minimum l)"

definition decode_LimitRequirement :: "LimitRequirement decoder" where
  "decode_LimitRequirement = dbind decode_limit_code (\<lambda>code. dbind decode_Unit (\<lambda>u. dbind d_u64 (\<lambda>v.
     dbind (check_limit code u v) (\<lambda>_. dret \<lparr>lr_code = code, lr_unit = u, lr_minimum = v\<rparr>))))"

definition encode_requirement :: "CapabilityRequirement \<Rightarrow> bytes" where
  "encode_requirement q = encode_device_ref (cq_device q) @ w_u16 (kind_code (cq_capability q))
     @ encode_SemVer (minimum (cq_version q)) @ w_optional encode_SemVer (maximum_exclusive (cq_version q))
     @ encode_FeatureSet (required_features q) @ w_list encode_LimitRequirement (required_limits q)
     @ w_optional encode_SemVer (minimum_firmware_version q) @ w_optional w_u64 (minimum_firmware_generation q)
     @ w_optional encode_SemVer (minimum_runtime_version q) @ w_optional w_u64 (minimum_runtime_generation q)
     @ w_u64 (max_evidence_age q)"

definition decode_requirement :: "CapabilityRequirement decoder" where
  "decode_requirement =
     dbind decode_device_ref (\<lambda>device. dbind decode_kind (\<lambda>capability.
     dbind decode_SemVer (\<lambda>low. dbind (d_optional decode_SemVer) (\<lambda>high.
     dbind decode_FeatureSet (\<lambda>features.
     dbind d_u32 (\<lambda>n. dbind (dguard (unat n \<le> kMaxLimitsPerRecord) RejectedLimitBudgetExceeded) (\<lambda>_.
     dbind (d_ascending lr_code decode_LimitRequirement (unat n) None) (\<lambda>limits.
     dbind (d_optional decode_SemVer) (\<lambda>fw. dbind (d_optional d_u64) (\<lambda>fwg.
     dbind (d_optional decode_SemVer) (\<lambda>rt. dbind (d_optional d_u64) (\<lambda>rtg.
     dbind d_u64 (\<lambda>age.
     dbind (check_membership features (map lr_code limits) capability) (\<lambda>_.
     dret \<lparr>cq_device = device, cq_capability = capability, cq_version = \<lparr>minimum = low, maximum_exclusive = high\<rparr>,
       required_features = features, required_limits = limits, minimum_firmware_version = fw,
       minimum_firmware_generation = fwg, minimum_runtime_version = rt, minimum_runtime_generation = rtg,
       max_evidence_age = age\<rparr>))))))))))))))"

text \<open>\<open>Status\<close>: the flag \<open>failed\<close> is not part of the encoding.\<close>

definition encode_status :: "ReasonCode \<times> string \<Rightarrow> bytes" where
  "encode_status s = w_u16 (fst s) @ w_str (snd s)"

definition decode_status :: "(ReasonCode \<times> string) decoder" where
  "decode_status = dbind d_reason (\<lambda>c. dbind d_bytes (\<lambda>detail.
     dbind (dguard (\<not> length detail > 4096) RejectedOversizedInput) (\<lambda>_. dret (c, bytes_str detail))))"

definition encode_admission :: "AdmissionRequest \<Rightarrow> bytes" where
  "encode_admission a = encode_device_ref (ar_device a) @ w_u16 (kind_code (ar_kind a))
     @ encode_source_incarnation (ar_source a) @ encode_SemVer (ar_capability_version a)
     @ encode_FeatureSet (ar_features a) @ encode_LimitSet (ar_limits a)
     @ w_optional encode_SemVer (ar_firmware_version a) @ w_u64 (ar_firmware_generation a)
     @ w_optional encode_SemVer (ar_runtime_version a) @ w_u64 (ar_runtime_generation a)
     @ w_u64 (ar_observed_at a) @ w_optional w_u64 (ar_valid_until a) @ w_u64 (ar_generation a)"

definition decode_admission :: "AdmissionRequest decoder" where
  "decode_admission =
     dbind decode_device_ref (\<lambda>device. dbind decode_kind (\<lambda>kind. dbind decode_source_incarnation (\<lambda>source.
     dbind decode_SemVer (\<lambda>version. dbind decode_FeatureSet (\<lambda>features. dbind decode_LimitSet (\<lambda>limits.
     dbind (d_optional decode_SemVer) (\<lambda>fw. dbind d_u64 (\<lambda>fwg.
     dbind (d_optional decode_SemVer) (\<lambda>rt. dbind d_u64 (\<lambda>rtg.
     dbind d_u64 (\<lambda>observed. dbind (d_optional d_u64) (\<lambda>valid. dbind d_u64 (\<lambda>generation.
     dbind (dguard (\<not> is_unset generation) RejectedGenerationRegression) (\<lambda>_.
     dbind (dguard (window_ok valid observed) RejectedValidityWindowInverted) (\<lambda>_.
     dret \<lparr>ar_device = device, ar_kind = kind, ar_source = source, ar_capability_version = version,
       ar_features = features, ar_limits = limits, ar_firmware_version = fw, ar_firmware_generation = fwg,
       ar_runtime_version = rt, ar_runtime_generation = rtg, ar_observed_at = observed, ar_valid_until = valid,
       ar_generation = generation\<rparr>)))))))))))))))"

definition encode_retirement_request :: "RetirementRequest \<Rightarrow> bytes" where
  "encode_retirement_request q = encode_device_ref (rq_device q) @ w_u16 (kind_code (rq_kind q))
     @ w_name (rq_source q) @ w_u64 (rq_generation q) @ w_u64 (rq_retired_at q) @ w_u16 (rq_reason q)"

definition decode_retirement_request :: "RetirementRequest decoder" where
  "decode_retirement_request =
     dbind decode_device_ref (\<lambda>device. dbind decode_kind (\<lambda>kind. dbind d_name (\<lambda>source.
     dbind d_u64 (\<lambda>generation. dbind d_u64 (\<lambda>retired_at. dbind d_reason (\<lambda>reason.
     dbind (dguard (\<not> is_unset generation) RejectedGenerationRegression) (\<lambda>_.
     dret \<lparr>rq_device = device, rq_kind = kind, rq_source = source, rq_generation = generation,
       rq_retired_at = retired_at, rq_reason = reason\<rparr>)))))))"

section \<open>What the decoders accept\<close>

definition source_policy_ok :: "SourcePolicy \<Rightarrow> bool" where
  "source_policy_ok s \<longleftrightarrow> Name_wf (sp_id s)"

definition size_ok :: "nat \<Rightarrow> bool" where
  "size_ok n \<longleftrightarrow> n < 2 ^ 64"

definition limits_ok :: "RegistryLimits \<Rightarrow> bool" where
  "limits_ok l \<longleftrightarrow> size_ok (max_devices l) \<and> size_ok (max_incarnations_per_device l) \<and> size_ok (max_streams l)
     \<and> size_ok (max_records l) \<and> size_ok (max_records_per_stream l) \<and> size_ok (max_tombstones l)
     \<and> size_ok (max_conflict_groups l) \<and> size_ok (max_resolutions l) \<and> size_ok (max_eviction_ledger l)
     \<and> size_ok (max_sources l) \<and> size_ok (max_decisions l) \<and> size_ok (max_features_per_record l)
     \<and> size_ok (max_limits_per_record l) \<and> size_ok (max_limits_per_requirement l) \<and> size_ok (max_required_features l)"

definition policy_ok :: "RegistryPolicy \<Rightarrow> bool" where
  "policy_ok p \<longleftrightarrow> list_all source_policy_ok (p_sources p) \<and> length (p_sources p) \<le> kMaxCollectionEntries
     \<and> limits_ok (p_limits p) \<and> length (p_policy_name p) \<le> 128"

definition incarnation_entry_ok :: "DeviceIncarnationEntry \<Rightarrow> bool" where
  "incarnation_entry_ok e \<longleftrightarrow> device_identity_ok (ie_device e) \<and> length (ie_history e) \<le> kMaxCollectionEntries"

definition collection_ok :: "('a \<Rightarrow> bool) \<Rightarrow> 'a list \<Rightarrow> bool" where
  "collection_ok ok xs \<longleftrightarrow> list_all ok xs \<and> length xs \<le> kMaxCollectionEntries"

definition state_ok :: "RegistryState \<Rightarrow> bool" where
  "state_ok s \<longleftrightarrow> policy_ok (rs_policy s) \<and> rs_next_incarnation s \<noteq> 0
     \<and> collection_ok incarnation_entry_ok (rs_incarnations s) \<and> collection_ok stored_ok (rs_records s)
     \<and> collection_ok retirement_ok (rs_tombstones s) \<and> collection_ok conflict_ok (rs_conflicts s)
     \<and> collection_ok resolution_ok (rs_resolutions s) \<and> collection_ok eviction_ok (rs_evictions s)
     \<and> length (rs_records s) \<le> max_records (p_limits (rs_policy s))
     \<and> length (rs_tombstones s) \<le> max_tombstones (p_limits (rs_policy s))
     \<and> sorted_wrt (<) (map sp_id (p_sources (rs_policy s)))"

definition limit_requirement_ok :: "LimitRequirement \<Rightarrow> bool" where
  "limit_requirement_ok l \<longleftrightarrow> limit_value_ok (lr_code l) (lr_unit l) (lr_minimum l)"

definition requirement_ok :: "CapabilityRequirement \<Rightarrow> bool" where
  "requirement_ok q \<longleftrightarrow> device_ref_ok (cq_device q) \<and> semver_wf (minimum (cq_version q))
     \<and> pred_option semver_wf (maximum_exclusive (cq_version q)) \<and> FeatureSet_wf (cq_capability q) (required_features q)
     \<and> list_all limit_requirement_ok (required_limits q) \<and> length (required_limits q) \<le> kMaxLimitsPerRecord
     \<and> sorted_wrt (<) (map lr_code (required_limits q))
     \<and> (\<forall>l \<in> set (required_limits q). limit_allowed_for (lr_code l) (cq_capability q))
     \<and> pred_option semver_wf (minimum_firmware_version q) \<and> pred_option semver_wf (minimum_runtime_version q)"

definition admission_ok :: "AdmissionRequest \<Rightarrow> bool" where
  "admission_ok a \<longleftrightarrow> device_ref_ok (ar_device a) \<and> source_incarnation_ok (ar_source a)
     \<and> semver_wf (ar_capability_version a) \<and> FeatureSet_ok (ar_features a) \<and> LimitSet_ok (ar_limits a)
     \<and> pred_option semver_wf (ar_firmware_version a) \<and> pred_option semver_wf (ar_runtime_version a)
     \<and> window_ok (ar_valid_until a) (ar_observed_at a) \<and> ar_generation a \<noteq> 0"

definition retirement_request_ok :: "RetirementRequest \<Rightarrow> bool" where
  "retirement_request_ok q \<longleftrightarrow> device_ref_ok (rq_device q) \<and> Name_wf (rq_source q) \<and> rq_generation q \<noteq> 0
     \<and> find_entry (rq_reason q) \<noteq> None"

section \<open>Policies, counters and incarnations are canonical\<close>

lemma decode_source_policy_iff [codec_iffs]:
  "decode_source_policy bs = Inr (s, rest) \<longleftrightarrow> source_policy_ok s \<and> bs = encode_source_policy s @ rest"
  by (cases s) (auto simp: decode_source_policy_def encode_source_policy_def source_policy_ok_def codec_iffs)

lemma d_size_iff [codec_iffs]: "d_size bs = Inr (n, rest) \<longleftrightarrow> size_ok n \<and> bs = w_size n @ rest"
proof
  assume "d_size bs = Inr (n, rest)"
  then obtain w where "bs = w_u64 w @ rest" "n = unat w" by (auto simp: d_size_def codec_iffs)
  then show "size_ok n \<and> bs = w_size n @ rest" using unat64 [of w] by (simp add: size_ok_def w_size_def)
next
  assume "size_ok n \<and> bs = w_size n @ rest"
  then show "d_size bs = Inr (n, rest)" by (simp add: d_size_def w_size_def size_ok_def unat_of_nat)
qed

lemma decode_limits_iff [codec_iffs]:
  "decode_limits bs = Inr (l, rest) \<longleftrightarrow> limits_ok l \<and> bs = encode_limits l @ rest"
proof
  assume "decode_limits bs = Inr (l, rest)"
  then show "limits_ok l \<and> bs = encode_limits l @ rest"
    unfolding decode_limits_def dbind_Inr dret_simps d_size_iff
    by (elim exE conjE) (hypsubst, simp add: limits_ok_def encode_limits_def)
next
  have d: "size_ok n \<Longrightarrow> d_size (w_size n @ r) = Inr (n, r)" for n r by (simp add: d_size_iff)
  assume "limits_ok l \<and> bs = encode_limits l @ rest"
  then show "decode_limits bs = Inr (l, rest)"
    by (cases l) (simp add: decode_limits_def encode_limits_def limits_ok_def d)
qed

lemma decode_counters_iff [codec_iffs]:
  "decode_counters bs = Inr (c, rest) \<longleftrightarrow> bs = encode_counters c @ rest"
proof
  assume "decode_counters bs = Inr (c, rest)"
  then show "bs = encode_counters c @ rest"
    unfolding decode_counters_def dbind_Inr dret_simps d_u64_iff
    by (elim exE conjE) (hypsubst, simp add: encode_counters_def)
next
  assume "bs = encode_counters c @ rest"
  then show "decode_counters bs = Inr (c, rest)"
    by (cases c) (simp add: decode_counters_def encode_counters_def)
qed

lemma decode_incarnation_entry_iff [codec_iffs]:
  "decode_incarnation_entry bs = Inr (e, rest) \<longleftrightarrow> incarnation_entry_ok e \<and> bs = encode_incarnation_entry e @ rest"
  by (cases e) (auto simp: decode_incarnation_entry_def encode_incarnation_entry_def incarnation_entry_ok_def codec_iffs)

lemma d_bytes_iff: "d_bytes bs = Inr (v, rest) \<longleftrightarrow> length v < 2 ^ 32 \<and> bs = w_str (bytes_str v) @ rest"
proof
  assume "d_bytes bs = Inr (v, rest)"
  then obtain n where "bs = w_u32 n @ v @ rest" "length v = unat n"
    by (auto simp: d_bytes_def codec_iffs d_take_Inr)
  then show "length v < 2 ^ 32 \<and> bs = w_str (bytes_str v) @ rest"
    using unsigned_less [of n, where 'a = nat] by (simp add: w_str_def)
next
  assume "length v < 2 ^ 32 \<and> bs = w_str (bytes_str v) @ rest"
  then show "d_bytes bs = Inr (v, rest)" using d_bytes_str [of "bytes_str v" rest] by simp
qed

lemma read_collection_iff:
  "(\<And>bs v rest. d bs = Inr (v, rest) \<longleftrightarrow> ok v \<and> bs = enc v @ rest) \<Longrightarrow>
   read_collection d bs = Inr (xs, rest) \<longleftrightarrow> collection_ok ok xs \<and> bs = w_list enc xs @ rest"
  using d_list_iff [of d ok enc kMaxCollectionEntries RejectedOversizedInput bs xs rest]
  by (simp add: read_collection_def collection_ok_def kMaxCollectionEntries_def)

lemma d_list_source_policy_iff:
  "d_list kMaxCollectionEntries c decode_source_policy bs = Inr (xs, rest) \<longleftrightarrow>
     (list_all source_policy_ok xs \<and> length xs \<le> kMaxCollectionEntries) \<and> bs = w_list encode_source_policy xs @ rest"
  by (rule d_list_iff) (simp_all add: decode_source_policy_iff kMaxCollectionEntries_def)

lemma decode_registry_policy_iff [codec_iffs]:
  "decode_registry_policy bs = Inr (p, rest) \<longleftrightarrow> policy_ok p \<and> bs = encode_registry_policy p @ rest"
proof
  assume "decode_registry_policy bs = Inr (p, rest)"
  then show "policy_ok p \<and> bs = encode_registry_policy p @ rest"
    unfolding decode_registry_policy_def dbind_Inr dret_simps dguard_Inr d_list_source_policy_iff d_boolean_iff
      enum_iffs d_u64_iff decode_limits_iff d_bytes_iff
    by (elim exE conjE) (hypsubst, simp add: policy_ok_def encode_registry_policy_def)
next
  assume h: "policy_ok p \<and> bs = encode_registry_policy p @ rest"
  then have "d_list kMaxCollectionEntries c decode_source_policy (w_list encode_source_policy (p_sources p) @ r)
      = Inr (p_sources p, r)" for c r
    by (simp add: d_list_source_policy_iff policy_ok_def)
  moreover have "decode_limits (encode_limits (p_limits p) @ r) = Inr (p_limits p, r)" for r
    using h by (simp add: decode_limits_iff policy_ok_def)
  ultimately show "decode_registry_policy bs = Inr (p, rest)"
    using h by (cases p) (simp add: decode_registry_policy_def encode_registry_policy_def policy_ok_def)
qed

interpretation policy_codec: canonical_codec encode_registry_policy decode_registry_policy policy_ok
  by (rule canonical_codecI) (rule decode_registry_policy_iff)

interpretation incarnation_codec: canonical_codec encode_incarnation_entry decode_incarnation_entry incarnation_entry_ok
  by (rule canonical_codecI) (rule decode_incarnation_entry_iff)

section \<open>The state round trip\<close>

lemma collection_enc:
  "(\<And>v rest. ok v \<Longrightarrow> d (enc v @ rest) = Inr (v, rest)) \<Longrightarrow> collection_ok ok xs \<Longrightarrow>
   read_collection d (w_list enc xs @ rest) = Inr (xs, rest)"
  unfolding read_collection_def collection_ok_def
  by (rule d_list_enc [where ok = ok]) (simp_all add: kMaxCollectionEntries_def)

lemma collection_dec:
  "(\<And>bs v rest. d bs = Inr (v, rest) \<Longrightarrow> ok v) \<Longrightarrow> read_collection d bs = Inr (xs, rest) \<Longrightarrow> collection_ok ok xs"
  unfolding read_collection_def collection_ok_def by (rule d_list_wf)

lemma state_collections_enc [simp]:
  "collection_ok incarnation_entry_ok a \<Longrightarrow>
     read_collection decode_incarnation_entry (w_list encode_incarnation_entry a @ rest) = Inr (a, rest)"
  "collection_ok stored_ok b \<Longrightarrow> read_collection decode_stored (w_list encode_stored b @ rest) = Inr (b, rest)"
  "collection_ok retirement_ok c \<Longrightarrow> read_collection decode_retirement (w_list encode_retirement c @ rest) = Inr (c, rest)"
  "collection_ok conflict_ok d \<Longrightarrow> read_collection decode_conflict (w_list encode_conflict d @ rest) = Inr (d, rest)"
  "collection_ok resolution_ok e \<Longrightarrow> read_collection decode_resolution (w_list encode_resolution e @ rest) = Inr (e, rest)"
  "collection_ok eviction_ok f \<Longrightarrow> read_collection decode_eviction (w_list encode_eviction f @ rest) = Inr (f, rest)"
  by (erule collection_enc [rotated], simp add: codec_iffs)+

lemma state_collections_dec:
  "read_collection decode_incarnation_entry bs = Inr (a, rest) \<Longrightarrow> collection_ok incarnation_entry_ok a"
  "read_collection decode_stored bs = Inr (b, rest) \<Longrightarrow> collection_ok stored_ok b"
  "read_collection decode_retirement bs = Inr (c, rest) \<Longrightarrow> collection_ok retirement_ok c"
  "read_collection decode_conflict bs = Inr (d, rest) \<Longrightarrow> collection_ok conflict_ok d"
  "read_collection decode_resolution bs = Inr (e, rest) \<Longrightarrow> collection_ok resolution_ok e"
  "read_collection decode_eviction bs = Inr (f, rest) \<Longrightarrow> collection_ok eviction_ok f"
  by (erule collection_dec [rotated], simp add: codec_iffs decode_stored_ok)+

lemma successively_less: "successively (<) xs \<longleftrightarrow> sorted_wrt (<) xs" for xs :: "'a::order list"
  by (rule successively_iff_sorted_wrt_strong) auto

lemma policy_state_enc [simp]:
  "policy_ok p \<Longrightarrow> decode_registry_policy (encode_registry_policy p @ rest) = Inr (p, rest)"
  "decode_counters (encode_counters c @ rest) = Inr (c, rest)"
  by (simp_all add: codec_iffs)

lemma decode_state_enc:
  assumes "state_ok s"
  shows "decode_state (encode_state s @ rest) = Inr (s, rest)"
  using assms
  by (cases s) (simp add: decode_state_def encode_state_def state_ok_def successively_less)

lemma decode_policy_ok: "decode_registry_policy bs = Inr (p, rest) \<Longrightarrow> policy_ok p"
  by (simp add: codec_iffs)

lemma decode_state_ok: "decode_state bs = Inr (s, rest) \<Longrightarrow> state_ok s"
  unfolding decode_state_def dbind_Inr dret_simps dguard_Inr successively_less
  apply (elim exE conjE)
  apply (drule decode_policy_ok state_collections_dec)+
  apply hypsubst
  apply (simp add: state_ok_def)
  done

interpretation state_codec: codec encode_state decode_state state_ok
  by unfold_locales (simp_all add: decode_state_enc decode_state_ok)

text \<open>
  C26: the durable state round trips. Encoding a state within its own bounds and decoding the bytes gives
  the state back, whatever follows it; what decodes is always such a state (every record, tombstone,
  conflict, resolution and eviction well formed, no more records and tombstones than the policy declares,
  the sources strictly sorted); and two such states have the same bytes only if they are equal, so the
  state digest commits to the whole state.
\<close>

theorem state_roundtrip:
  "(state_ok s \<longrightarrow> decode_state (encode_state s @ rest) = Inr (s, rest))
   \<and> (decode_state bs = Inr (t, rest') \<longrightarrow> state_ok t)
   \<and> (state_ok s \<and> state_ok t \<and> encode_state s = encode_state t \<longrightarrow> s = t)"
  using state_codec.dec_enc state_codec.dec_wf state_codec.enc_inj by blast

definition empty_state :: RegistryState where
  "empty_state = \<lparr>rs_policy = make_lab_policy, rs_epoch = 1, rs_rule_generation = 1, rs_policy_revision = 1,
     rs_boot_epoch = 1, rs_store_generation = 0, rs_logical_tick = 0, rs_next_incarnation = 1,
     rs_incarnations = [], rs_records = [], rs_tombstones = [], rs_conflicts = [], rs_resolutions = [],
     rs_evictions = [], rs_counters = zero_counters\<rparr>"

lemma empty_state_ok: "state_ok empty_state"
proof -
  have "list_all source_policy_ok (p_sources make_lab_policy)"
    by (simp add: lab_sources source_policy_ok_def Name_wf_def lab_names)
  moreover have "limits_ok (p_limits make_lab_policy)"
    by (simp add: make_lab_policy_def default_limits_def limits_ok_def size_ok_def kMaxFeaturesPerRecord_def
        kMaxLimitsPerRecord_def)
  moreover have "length (p_policy_name make_lab_policy) \<le> 128" by (simp add: make_lab_policy_def)
  moreover have "sorted_wrt (<) (map sp_id (p_sources make_lab_policy))"
    by (simp add: lab_sources List_Lexorder.list_less_def less_char_def)
  moreover have "length (p_sources make_lab_policy) = 5" by (simp add: lab_sources)
  ultimately show ?thesis
    by (simp add: empty_state_def state_ok_def policy_ok_def collection_ok_def kMaxCollectionEntries_def)
qed

theorem state_roundtrip_witness: "decode_state (encode_state empty_state) = Inr (empty_state, [])"
  using state_roundtrip [of empty_state "[]" "[]" empty_state "[]"] empty_state_ok by simp

text \<open>
  A state that does not hold its own bounds is not decodable: bytes with another format version are
  refused with \<open>StoreVersionIncompatible\<close>, and the encoding of a state that is well formed except that it
  carries more records or tombstones than its policy's limits, or sources out of order, is refused with
  \<open>StoreSemanticMismatch\<close> after everything was read.
\<close>

theorem decode_state_refuses:
  "(v \<noteq> kStoreFormatVersion \<longrightarrow> decode_state (w_u32 v @ bs) = Inl StoreVersionIncompatible)
   \<and> (policy_ok (rs_policy s) \<and> rs_next_incarnation s \<noteq> 0
      \<and> collection_ok incarnation_entry_ok (rs_incarnations s) \<and> collection_ok stored_ok (rs_records s)
      \<and> collection_ok retirement_ok (rs_tombstones s) \<and> collection_ok conflict_ok (rs_conflicts s)
      \<and> collection_ok resolution_ok (rs_resolutions s) \<and> collection_ok eviction_ok (rs_evictions s)
      \<and> (max_records (p_limits (rs_policy s)) < length (rs_records s)
         \<or> max_tombstones (p_limits (rs_policy s)) < length (rs_tombstones s)
         \<or> \<not> sorted_wrt (<) (map sp_id (p_sources (rs_policy s))))
      \<longrightarrow> decode_state (encode_state s @ rest) = Inl StoreSemanticMismatch)"
proof (intro conjI impI)
  assume "v \<noteq> kStoreFormatVersion"
  then show "decode_state (w_u32 v @ bs) = Inl StoreVersionIncompatible"
    by (simp add: decode_state_def dbind_def dguard_def dfail_def)
next
  assume h: "policy_ok (rs_policy s) \<and> rs_next_incarnation s \<noteq> 0
      \<and> collection_ok incarnation_entry_ok (rs_incarnations s) \<and> collection_ok stored_ok (rs_records s)
      \<and> collection_ok retirement_ok (rs_tombstones s) \<and> collection_ok conflict_ok (rs_conflicts s)
      \<and> collection_ok resolution_ok (rs_resolutions s) \<and> collection_ok eviction_ok (rs_evictions s)
      \<and> (max_records (p_limits (rs_policy s)) < length (rs_records s)
         \<or> max_tombstones (p_limits (rs_policy s)) < length (rs_tombstones s)
         \<or> \<not> sorted_wrt (<) (map sp_id (p_sources (rs_policy s))))"
  then show "decode_state (encode_state s @ rest) = Inl StoreSemanticMismatch"
    by (auto simp: decode_state_def encode_state_def dbind_def dguard_def dfail_def dret_def successively_less)
qed

theorem decode_state_refuses_witness:
  "decode_state (w_u32 2) = Inl StoreVersionIncompatible"
  using decode_state_refuses [of 2 "[]"] by (simp add: kStoreFormatVersion_def)

section \<open>Requirements and requests round trip\<close>

lemma decode_LimitRequirement_iff [codec_iffs]:
  "decode_LimitRequirement bs = Inr (l, rest) \<longleftrightarrow> limit_requirement_ok l \<and> bs = encode_LimitRequirement l @ rest"
  by (cases l) (auto simp: decode_LimitRequirement_def encode_LimitRequirement_def limit_requirement_ok_def
      limit_value_ok_def codec_iffs dest: unit_valid_for_limit_ok)

lemma required_limits_enc:
  "list_all limit_requirement_ok ls \<Longrightarrow> sorted_wrt (<) (map lr_code ls) \<Longrightarrow>
   d_ascending lr_code decode_LimitRequirement (length ls) None (concat (map encode_LimitRequirement ls) @ rest) = Inr (ls, rest)"
  by (rule d_ascending_enc [where ok = limit_requirement_ok]) (simp_all add: above_None codec_iffs)

lemma required_limits_dec:
  "d_ascending lr_code decode_LimitRequirement n None bs = Inr (ls, rest) \<Longrightarrow>
   list_all limit_requirement_ok ls \<and> sorted_wrt (<) (map lr_code ls) \<and> length ls = n"
  using d_ascending_wf [of decode_LimitRequirement limit_requirement_ok lr_code n None bs ls rest]
  by (simp add: above_None codec_iffs)

lemma decode_requirement_enc:
  assumes "requirement_ok q"
  shows "decode_requirement (encode_requirement q @ rest) = Inr (q, rest)"
proof -
  have len: "unat (of_nat (length (required_limits q)) :: u32) = length (required_limits q)"
    using assms by (simp add: requirement_ok_def kMaxLimitsPerRecord_def)
  have ls: "d_ascending lr_code decode_LimitRequirement (length (required_limits q)) None
      (concat (map encode_LimitRequirement (required_limits q)) @ r) = Inr (required_limits q, r)" for r
    using assms by (intro required_limits_enc) (simp_all add: requirement_ok_def)
  show ?thesis
    using assms len ls
    by (cases q; cases "cq_version q") (simp add: decode_requirement_def encode_requirement_def requirement_ok_def w_list_def
        optional_semver(1) FeatureSet_wf_ok)
qed

lemma decode_device_ok: "decode_device_ref bs = Inr (d, rest) \<Longrightarrow> device_ref_ok d"
  by (simp add: codec_iffs)

lemma decode_requirement_ok: "decode_requirement bs = Inr (q, rest) \<Longrightarrow> requirement_ok q"
  unfolding decode_requirement_def dbind_Inr dret_simps dguard_Inr check_membership_Inr
  apply (elim exE conjE)
  apply (drule decode_device_ok parts_ok decode_SemVer_wf optional_semver(2) required_limits_dec)+
  apply hypsubst
  apply (simp add: requirement_ok_def FeatureSet_wf_ok)
  done

lemma decode_admission_enc: "admission_ok a \<Longrightarrow> decode_admission (encode_admission a @ rest) = Inr (a, rest)"
  by (cases a) (simp add: decode_admission_def encode_admission_def admission_ok_def optional_semver(1) is_unset_def)

lemma decode_admission_ok: "decode_admission bs = Inr (a, rest) \<Longrightarrow> admission_ok a"
  unfolding decode_admission_def dbind_Inr dret_simps dguard_Inr
  apply (elim exE conjE)
  apply (drule decode_device_ok parts_ok decode_SemVer_wf optional_semver(2))+
  apply hypsubst
  apply (simp add: admission_ok_def is_unset_def)
  done

lemma decode_retirement_request_iff [codec_iffs]:
  "decode_retirement_request bs = Inr (q, rest) \<longleftrightarrow> retirement_request_ok q \<and> bs = encode_retirement_request q @ rest"
  by (cases q) (auto simp: decode_retirement_request_def encode_retirement_request_def retirement_request_ok_def
      is_unset_def codec_iffs)

interpretation requirement_codec: codec encode_requirement decode_requirement requirement_ok
  by unfold_locales (simp_all add: decode_requirement_enc decode_requirement_ok)

interpretation admission_codec: codec encode_admission decode_admission admission_ok
  by unfold_locales (simp_all add: decode_admission_enc decode_admission_ok)

interpretation retirement_request_codec: canonical_codec encode_retirement_request decode_retirement_request retirement_request_ok
  by (rule canonical_codecI) (rule decode_retirement_request_iff)

text \<open>
  The requests round trip. An admission request, a retirement request and a requirement that the codec
  accepts is recovered from its encoding, whatever follows, and encodings are prefix free; evidence
  decoded from bytes always carries the digest of its canonical encoding as its id.
\<close>

theorem requests_roundtrip:
  "(admission_ok a \<longrightarrow> decode_admission (encode_admission a @ rest) = Inr (a, rest))
   \<and> (retirement_request_ok q \<longrightarrow> decode_retirement_request (encode_retirement_request q @ rest) = Inr (q, rest))
   \<and> (requirement_ok r \<longrightarrow> decode_requirement (encode_requirement r @ rest) = Inr (r, rest))
   \<and> (requirement_ok r \<and> requirement_ok r' \<and> encode_requirement r @ x = encode_requirement r' @ y \<longrightarrow> r = r' \<and> x = y)
   \<and> (decode_evidence bs = Inr (e, rest) \<longrightarrow> e_id_cache e = Digest256_of (encode_evidence e))"
  using admission_codec.dec_enc retirement_request_codec.dec_enc requirement_codec.dec_enc
    requirement_codec.enc_prefix_free decode_evidence_ok
  unfolding evidence_ok_def compute_digest_def by blast

theorem requests_roundtrip_witness:
  "\<exists>q. retirement_request_ok q \<and> decode_retirement_request (encode_retirement_request q) = Inr (q, [])"
proof -
  let ?q = "\<lparr>rq_device = DeviceIncarnationRef (DeviceIdentity ''fixture-sim'' ''bundle-import'' 0 None) 1,
    rq_kind = TlsRecordCrypto, rq_source = ''fixture-sim'', rq_generation = 1, rq_retired_at = 0, rq_reason = Ok\<rparr>"
  have "find_entry Ok \<noteq> None" by code_simp
  then have ok: "retirement_request_ok ?q"
    by (simp add: retirement_request_ok_def device_ref_ok_def device_identity_ok_def Name_wf_def lab_names)
  then have "decode_retirement_request (encode_retirement_request ?q @ []) = Inr (?q, [])"
    using requests_roundtrip [where q = ?q and rest = "[]"] by blast
  then show ?thesis using ok by auto
qed

end
