(* ===== verification/World.thy ===== *)
theory World
  imports StateCodec
begin

text \<open>
  The state of the registry: \<open>World\<close> and \<open>Registry::Impl\<close> of \<open>src/registry.cpp\<close>, its lookups, enumerations,
  the conversion from and to the durable state, and construction.

  A stream is what one source said about one capability of one device incarnation. The nested
  \<open>std::map\<close>s are ordered maps, so enumerating them gives the canonical order. \<open>streams_of\<close> is the common
  shape of the three nested loops; the interface \<open>keyed_view\<close> states how lookups, writes and
  enumerations interact and is interpreted on the streams and on the tombstones of the world.
\<close>

section \<open>Data\<close>

record Stream =
  st_records :: "StoredEvidence list"
  st_max_generation :: RecordGeneration

record GroupState =
  g_streams :: "(SourceId, Stream) omap"
  g_tombstones :: "(SourceId, RetirementRecord) omap"

type_synonym KindMap = "(CapabilityKind, GroupState) omap"
type_synonym World = "(DeviceIncarnationRef, KindMap) omap"

definition empty_stream :: Stream where
  "empty_stream = \<lparr>st_records = [], st_max_generation = 0\<rparr>"

definition empty_group :: GroupState where
  "empty_group = \<lparr>g_streams = [], g_tombstones = []\<rparr>"

record Impl =
  i_policy :: RegistryPolicy
  i_epoch :: RegistryEpoch
  i_rule_generation :: RuleGeneration
  i_policy_revision :: PolicyRevision
  i_boot_epoch :: BootEpoch
  i_store_generation :: StoreGeneration
  i_logical_tick :: Tick
  i_next_incarnation :: u64
  i_incarnations :: "(DeviceIdentity, DeviceIncarnationEntry) omap"
  i_world :: World
  i_total_records :: nat
  i_conflicts :: "ConflictGroup list"
  i_resolutions :: "ConflictResolution list"
  i_evictions :: "EvictionEntry list"
  i_counters :: RegistryCounters
  i_decisions :: "(DecisionId, CompatibilityDecision) omap"
  i_decision_order :: "DecisionId list"

definition generation_less :: "StoredEvidence \<Rightarrow> StoredEvidence \<Rightarrow> bool" where
  "generation_less a b =
     (if e_generation (s_evidence a) \<noteq> e_generation (s_evidence b)
      then e_generation (s_evidence a) < e_generation (s_evidence b)
      else stored_id a < stored_id b)"

section \<open>Lookups and writes\<close>

definition find_device :: "Impl \<Rightarrow> DeviceIdentity \<Rightarrow> DeviceIncarnationEntry option" where
  "find_device i device = map_of (i_incarnations i) device"

definition find_kind_map :: "World \<Rightarrow> DeviceIncarnationRef \<Rightarrow> KindMap option" where
  "find_kind_map w device = map_of w device"

definition find_group :: "World \<Rightarrow> DeviceIncarnationRef \<Rightarrow> CapabilityKind \<Rightarrow> GroupState option" where
  "find_group w device kind = (case find_kind_map w device of None \<Rightarrow> None | Some kinds \<Rightarrow> map_of kinds kind)"

definition find_stream :: "World \<Rightarrow> EvidenceKey \<Rightarrow> Stream option" where
  "find_stream w key = (case find_group w (key_device key) (key_kind key) of None \<Rightarrow> None
     | Some g \<Rightarrow> map_of (g_streams g) (key_source key))"

definition find_tombstone :: "World \<Rightarrow> EvidenceKey \<Rightarrow> RetirementRecord option" where
  "find_tombstone w key = (case find_group w (key_device key) (key_kind key) of None \<Rightarrow> None
     | Some g \<Rightarrow> map_of (g_tombstones g) (key_source key))"

text \<open>\<open>world.groups[device][kind]\<close> read and written; reading an absent slot creates it.\<close>

definition ensure_group :: "World \<Rightarrow> DeviceIncarnationRef \<Rightarrow> CapabilityKind \<Rightarrow> GroupState" where
  "ensure_group w device kind = om_get empty_group kind (om_get [] device w)"

definition put_group :: "DeviceIncarnationRef \<Rightarrow> CapabilityKind \<Rightarrow> GroupState \<Rightarrow> World \<Rightarrow> World" where
  "put_group device kind g w = om_put device (om_put kind g (om_get [] device w)) w"

definition put_stream :: "EvidenceKey \<Rightarrow> Stream \<Rightarrow> World \<Rightarrow> World" where
  "put_stream key s w = (let g = ensure_group w (key_device key) (key_kind key)
     in put_group (key_device key) (key_kind key) (g\<lparr>g_streams := om_put (key_source key) s (g_streams g)\<rparr>) w)"

definition put_tombstone :: "EvidenceKey \<Rightarrow> RetirementRecord \<Rightarrow> World \<Rightarrow> World" where
  "put_tombstone key t w = (let g = ensure_group w (key_device key) (key_kind key)
     in put_group (key_device key) (key_kind key) (g\<lparr>g_tombstones := om_put (key_source key) t (g_tombstones g)\<rparr>) w)"

definition find_conflict :: "ConflictGroup list \<Rightarrow> DeviceIncarnationRef \<Rightarrow> CapabilityKind \<Rightarrow> ConflictGroup option" where
  "find_conflict table device kind = find (\<lambda>g. cg_device g = device \<and> cg_kind g = kind) table"

definition find_resolution :: "ConflictResolution list \<Rightarrow> ConflictId \<Rightarrow> ConflictResolution option" where
  "find_resolution table cid = find (\<lambda>r. cr_conflict r = cid) table"

section \<open>Enumeration\<close>

definition streams_of :: "World \<Rightarrow> (EvidenceKey \<times> Stream) list" where
  "streams_of w = concat (map (\<lambda>(device, kinds). concat (map (\<lambda>(kind, group).
     map (\<lambda>(sid, stream). (EvidenceKey device kind sid, stream)) (g_streams group)) kinds)) w)"

definition flatten_records :: "World \<Rightarrow> StoredEvidence list" where
  "flatten_records w = concat (map (\<lambda>(key, stream). st_records stream) (streams_of w))"

definition tombstones_of :: "World \<Rightarrow> (EvidenceKey \<times> RetirementRecord) list" where
  "tombstones_of w = concat (map (\<lambda>(device, kinds). concat (map (\<lambda>(kind, group).
     map (\<lambda>(sid, t). (EvidenceKey device kind sid, t)) (g_tombstones group)) kinds)) w)"

definition flatten_tombstones :: "World \<Rightarrow> RetirementRecord list" where
  "flatten_tombstones w = sort_key (\<lambda>t. (rr_key t, rr_generation t)) (map snd (tombstones_of w))"

definition count_streams :: "World \<Rightarrow> nat" where
  "count_streams w = length (streams_of w)"

definition group_keys :: "World \<Rightarrow> DeviceIncarnationRef list" where
  "group_keys w = map fst (filter (\<lambda>(device, kinds). kinds \<noteq> []) w)"

section \<open>From and to the durable state\<close>

definition max_generation_of :: "StoredEvidence list \<Rightarrow> RecordGeneration" where
  "max_generation_of records = fold (\<lambda>r highest. if e_generation (s_evidence r) > highest
     then e_generation (s_evidence r) else highest) records 0"

definition adopt_record :: "StoredEvidence \<Rightarrow> World \<Rightarrow> World" where
  "adopt_record r w =
     (let key = e_key (s_evidence r);
          stream = (case find_stream w key of None \<Rightarrow> empty_stream | Some s \<Rightarrow> s);
          stream = (if e_generation (s_evidence r) > st_max_generation stream
                    then stream\<lparr>st_max_generation := e_generation (s_evidence r)\<rparr> else stream)
      in put_stream key (stream\<lparr>st_records := st_records stream @ [r]\<rparr>) w)"

definition sort_records :: "StoredEvidence list \<Rightarrow> StoredEvidence list" where
  "sort_records rs = sort_key (\<lambda>r. (e_generation (s_evidence r), stored_id r)) rs"

definition map_streams :: "(Stream \<Rightarrow> Stream) \<Rightarrow> World \<Rightarrow> World" where
  "map_streams f w = map (\<lambda>(device, kinds). (device, map (\<lambda>(kind, g).
     (kind, g\<lparr>g_streams := map (\<lambda>(sid, s). (sid, f s)) (g_streams g)\<rparr>)) kinds)) w"

definition adopt_world :: "StoredEvidence list \<Rightarrow> RetirementRecord list \<Rightarrow> World" where
  "adopt_world records tombstones =
     fold (\<lambda>t. put_tombstone (rr_key t) t) tombstones
       (map_streams (\<lambda>s. s\<lparr>st_records := sort_records (st_records s)\<rparr>) (fold adopt_record records []))"

definition sort_policy :: "RegistryPolicy \<Rightarrow> RegistryPolicy" where
  "sort_policy p = p\<lparr>p_sources := sort_sources (p_sources p)\<rparr>"

definition adopt :: "RegistryState \<Rightarrow> Impl" where
  "adopt s =
     \<lparr>i_policy = sort_policy (rs_policy s),
      i_epoch = rs_epoch s,
      i_rule_generation = rs_rule_generation s,
      i_policy_revision = rs_policy_revision s,
      i_boot_epoch = rs_boot_epoch s,
      i_store_generation = rs_store_generation s,
      i_logical_tick = rs_logical_tick s,
      i_next_incarnation = (if rs_next_incarnation s = 0 then 1 else rs_next_incarnation s),
      i_incarnations = fold (\<lambda>e. om_put (ie_device e) e) (rs_incarnations s) [],
      i_world = adopt_world (rs_records s) (rs_tombstones s),
      i_total_records = length (rs_records s),
      i_conflicts = sort_key cg_id (rs_conflicts s),
      i_resolutions = sort_key cr_id (rs_resolutions s),
      i_evictions = rs_evictions s,
      i_counters = rs_counters s,
      i_decisions = [],
      i_decision_order = []\<rparr>"

definition to_state :: "Impl \<Rightarrow> RegistryState" where
  "to_state i =
     \<lparr>rs_policy = i_policy i,
      rs_epoch = i_epoch i,
      rs_rule_generation = i_rule_generation i,
      rs_policy_revision = i_policy_revision i,
      rs_boot_epoch = i_boot_epoch i,
      rs_store_generation = i_store_generation i,
      rs_logical_tick = i_logical_tick i,
      rs_next_incarnation = i_next_incarnation i,
      rs_incarnations = om_vals (i_incarnations i),
      rs_records = flatten_records (i_world i),
      rs_tombstones = flatten_tombstones (i_world i),
      rs_conflicts = i_conflicts i,
      rs_resolutions = i_resolutions i,
      rs_evictions = i_evictions i,
      rs_counters = i_counters i\<rparr>"

text \<open>The constructors.\<close>

definition Registry_init :: "RegistryPolicy \<Rightarrow> Impl" where
  "Registry_init policy =
     \<lparr>i_policy = sort_policy policy, i_epoch = 1, i_rule_generation = p_rule_generation policy,
      i_policy_revision = 1, i_boot_epoch = 1, i_store_generation = 0, i_logical_tick = 0, i_next_incarnation = 1,
      i_incarnations = [], i_world = [], i_total_records = 0, i_conflicts = [], i_resolutions = [],
      i_evictions = [], i_counters = zero_counters, i_decisions = [], i_decision_order = []\<rparr>"

definition Registry_restored :: "RegistryPolicy \<Rightarrow> RegistryState \<Rightarrow> Impl" where
  "Registry_restored policy restored =
     (adopt restored)\<lparr>i_policy := sort_policy policy, i_rule_generation := p_rule_generation policy\<rparr>"

definition bump_policy_revision :: "Impl \<Rightarrow> Impl" where
  "bump_policy_revision i = i\<lparr>i_policy_revision := i_policy_revision i + 1, i_epoch := i_epoch i + 1\<rparr>"

section \<open>Well-formed worlds\<close>

definition group_wf :: "GroupState \<Rightarrow> bool" where
  "group_wf g \<longleftrightarrow> om_wf (g_streams g) \<and> om_wf (g_tombstones g)"

definition world_wf :: "World \<Rightarrow> bool" where
  "world_wf w \<longleftrightarrow> om_wf w \<and> (\<forall>(d, kinds) \<in> set w. om_wf kinds \<and> (\<forall>(k, g) \<in> set kinds. group_wf g))"

lemma set_om_put: "om_wf m \<Longrightarrow> set (om_put k v m) = insert (k, v) {p \<in> set m. fst p \<noteq> k}"
  by (rule set_eqI) (simp add: om_wf_map_of_iff [symmetric] split_paired_all, auto simp flip: om_wf_map_of_iff)

lemma om_get_cases: "om_wf m \<Longrightarrow> om_get d k m = d \<or> (k, om_get d k m) \<in> set m"
  by (auto simp: om_get_def om_wf_map_of_iff split: option.splits)

lemma group_wf_empty [simp]: "group_wf empty_group"
  by (simp add: group_wf_def empty_group_def)

lemma world_wf_Nil [simp]: "world_wf []"
  by (simp add: world_wf_def)

lemma world_wf_get: "world_wf w \<Longrightarrow> om_wf (om_get [] d w) \<and> (\<forall>(k, g) \<in> set (om_get [] d w). group_wf g)"
  using om_get_cases [of w "[]" d] by (fastforce simp: world_wf_def)

lemma ensure_group_wf: "world_wf w \<Longrightarrow> group_wf (ensure_group w d k)"
  using world_wf_get [of w d] om_get_cases [of "om_get [] d w" empty_group k] by (fastforce simp: ensure_group_def)

lemma world_wf_put_group: "world_wf w \<Longrightarrow> group_wf g \<Longrightarrow> world_wf (put_group d k g w)"
  using world_wf_get [of w d] by (auto simp: world_wf_def put_group_def set_om_put)

lemma find_group_put_group [simp]:
  "find_group (put_group d k g w) d' k' = (if d' = d \<and> k' = k then Some g else find_group w d' k')"
  by (auto simp: find_group_def find_kind_map_def put_group_def om_get_def split: option.splits)

lemma ensure_group_find: "ensure_group w d k = (case find_group w d k of None \<Rightarrow> empty_group | Some g \<Rightarrow> g)"
  by (simp add: ensure_group_def find_group_def find_kind_map_def om_get_def split: option.splits)

lemma find_stream_put_stream [simp]: "find_stream (put_stream key s w) = (find_stream w)(key \<mapsto> s)"
  by (rule ext, rename_tac key', case_tac key', cases key)
    (auto simp: find_stream_def put_stream_def Let_def ensure_group_find empty_group_def split: option.splits)

lemma find_tombstone_put_stream [simp]: "find_tombstone (put_stream key s w) = find_tombstone w"
  by (rule ext) (auto simp: find_tombstone_def put_stream_def Let_def ensure_group_find empty_group_def split: option.splits)

lemma find_tombstone_put_tombstone [simp]: "find_tombstone (put_tombstone key t w) = (find_tombstone w)(key \<mapsto> t)"
  by (rule ext, rename_tac key', case_tac key', cases key)
    (auto simp: find_tombstone_def put_tombstone_def Let_def ensure_group_find empty_group_def split: option.splits)

lemma find_stream_put_tombstone [simp]: "find_stream (put_tombstone key t w) = find_stream w"
  by (rule ext) (auto simp: find_stream_def put_tombstone_def Let_def ensure_group_find empty_group_def split: option.splits)

lemma world_wf_puts [simp]:
  "world_wf w \<Longrightarrow> world_wf (put_stream key s w)" "world_wf w \<Longrightarrow> world_wf (put_tombstone key t w)"
  using ensure_group_wf [of w "key_device key" "key_kind key"]
  by (auto simp: put_stream_def put_tombstone_def Let_def group_wf_def intro!: world_wf_put_group)

section \<open>The flat view of the nested maps\<close>

lemma concat_sorted:
  assumes "om_wf m" "\<And>k v. (k, v) \<in> set m \<Longrightarrow> sorted_wrt R (f k v)"
    "\<And>k v k' v' x y. k < k' \<Longrightarrow> (k, v) \<in> set m \<Longrightarrow> (k', v') \<in> set m \<Longrightarrow> x \<in> set (f k v) \<Longrightarrow> y \<in> set (f k' v') \<Longrightarrow> R x y"
  shows "sorted_wrt R (concat (map (\<lambda>(k, v). f k v) m))"
  using assms
proof (induction m)
  case (Cons p m)
  obtain k v where p: "p = (k, v)" by force
  have "sorted_wrt R (concat (map (\<lambda>(k, v). f k v) m))"
  proof (rule Cons.IH)
    show "om_wf m" using Cons.prems(1) by (simp add: p om_wf_Cons)
  qed (use Cons.prems(2) in simp, rule Cons.prems(3), simp_all)
  moreover have "\<forall>x \<in> set (f k v). \<forall>y \<in> set (concat (map (\<lambda>(k, v). f k v) m)). R x y"
    using Cons.prems(1) Cons.prems(3) [of k _ v] by (fastforce simp: p om_wf_Cons)
  ultimately show ?case using Cons.prems(2) [of k v] by (simp add: p sorted_wrt_append)
qed simp

text \<open>The shape shared by streams and tombstones: the entries of every group, keyed by the full key.\<close>

definition flat :: "(GroupState \<Rightarrow> (SourceId, 'a) omap) \<Rightarrow> World \<Rightarrow> (EvidenceKey \<times> 'a) list" where
  "flat f w = concat (map (\<lambda>(device, kinds). concat (map (\<lambda>(kind, group).
     map (\<lambda>(sid, x). (EvidenceKey device kind sid, x)) (f group)) kinds)) w)"

lemma less_EvidenceKey: "EvidenceKey d k s < EvidenceKey d' k' s' \<longleftrightarrow>
    d < d' \<or> d = d' \<and> (k < k' \<or> k = k' \<and> s < s')"
  by (auto simp: less_EvidenceKey_def EvidenceKey_key_def less_CapabilityKind_def)

lemma flat_set: "(key, x) \<in> set (flat f w) \<longleftrightarrow>
    (\<exists>kinds g. (key_device key, kinds) \<in> set w \<and> (key_kind key, g) \<in> set kinds \<and> (key_source key, x) \<in> set (f g))"
  by (cases key) (fastforce simp: flat_def)

lemma flat_wf:
  assumes "world_wf w" "\<And>g. group_wf g \<Longrightarrow> om_wf (f g)"
  shows "om_wf (flat f w)"
proof -
  let ?R = "\<lambda>p q :: EvidenceKey \<times> 'a. fst p < fst q"
  have g: "sorted_wrt ?R (map (\<lambda>(sid, x). (EvidenceKey d k sid, x)) (f g))" if "group_wf g" for d k g
    using assms(2) [OF that]
    by (simp add: om_wf_def sorted_wrt_map case_prod_unfold less_EvidenceKey)
  have k: "sorted_wrt ?R (concat (map (\<lambda>(kind, group). map (\<lambda>(sid, x). (EvidenceKey d kind sid, x)) (f group)) kinds))"
    if "om_wf kinds" "\<forall>(k, g) \<in> set kinds. group_wf g" for d kinds
    using that g by (intro concat_sorted) (auto simp: less_EvidenceKey)
  have "sorted_wrt ?R (flat f w)"
    unfolding flat_def using assms(1) k
    by (rule_tac concat_sorted) (auto simp: world_wf_def less_EvidenceKey)
  then show ?thesis by (simp add: om_wf_def sorted_wrt_map)
qed

lemma find_group_iff:
  "world_wf w \<Longrightarrow> find_group w d k = Some g \<longleftrightarrow> (\<exists>kinds. (d, kinds) \<in> set w \<and> (k, g) \<in> set kinds)"
proof -
  assume w: "world_wf w"
  then have a: "(d, kinds) \<in> set w \<longleftrightarrow> map_of w d = Some kinds" for kinds
    by (simp add: world_wf_def om_wf_map_of_iff)
  have b: "(k, g) \<in> set kinds \<longleftrightarrow> map_of kinds k = Some g" if "map_of w d = Some kinds" for kinds
  proof -
    have "(d, kinds) \<in> set w" using that by (rule map_of_SomeD)
    then have "om_wf kinds" using w by (auto simp: world_wf_def)
    then show ?thesis by (simp add: om_wf_map_of_iff)
  qed
  show ?thesis by (auto simp: a b find_group_def find_kind_map_def split: option.splits)
qed

lemma find_group_wf: "world_wf w \<Longrightarrow> find_group w d k = Some g \<Longrightarrow> group_wf g"
  using find_group_iff [of w d k g] by (auto simp: world_wf_def)

lemma flat_lookup:
  assumes "world_wf w" "\<And>g. group_wf g \<Longrightarrow> om_wf (f g)"
  shows "map_of (flat f w) key = (case find_group w (key_device key) (key_kind key) of None \<Rightarrow> None
    | Some g \<Rightarrow> map_of (f g) (key_source key))"
proof -
  have f: "om_wf (f g)" if "find_group w d k = Some g" for d k g
    using assms find_group_wf [OF assms(1) that] by blast
  have wf: "om_wf (flat f w)" using assms by (rule flat_wf)
  have "map_of (flat f w) key = Some x \<longleftrightarrow>
      (\<exists>g. find_group w (key_device key) (key_kind key) = Some g \<and> (key_source key, x) \<in> set (f g))" for x
    unfolding om_wf_map_of_iff [OF wf] flat_set find_group_iff [OF assms(1)] by blast
  then have iff: "map_of (flat f w) key = Some x \<longleftrightarrow>
      (\<exists>g. find_group w (key_device key) (key_kind key) = Some g \<and> map_of (f g) (key_source key) = Some x)" for x
    using f om_wf_map_of_iff by metis
  show ?thesis
  proof (cases "map_of (flat f w) key")
    case None
    then show ?thesis using iff by (cases "find_group w (key_device key) (key_kind key)") (simp, metis not_None_eq option.simps(5))
  next
    case (Some x)
    then show ?thesis using iff [of x] by auto
  qed
qed

lemma om_sum_put:
  fixes f :: "('k::linorder \<times> 'v) \<Rightarrow> nat"
  assumes "om_wf m"
  shows "sum_list (map f (om_put k v m)) + (case map_of m k of None \<Rightarrow> 0 | Some v0 \<Rightarrow> f (k, v0))
    = sum_list (map f m) + f (k, v)"
  using assms
proof (induction m)
  case (Cons p m)
  obtain k' v' where p: "p = (k', v')" by force
  have "map_of m k = None" if "k \<le> k'"
    using Cons.prems that by (force simp: p om_wf_Cons map_of_eq_None_iff)
  then show ?case using Cons by (auto simp: p om_wf_Cons)
qed simp

text \<open>
  The interface between the nested world and the operations on it: a keyed view is an ordered map of the
  full keys, lookups agree with it, and a write is a write of the view.
\<close>

locale keyed_view =
  fixes view :: "'w \<Rightarrow> (EvidenceKey \<times> 'v) list"
    and lookup :: "'w \<Rightarrow> EvidenceKey \<Rightarrow> 'v option"
    and put :: "EvidenceKey \<Rightarrow> 'v \<Rightarrow> 'w \<Rightarrow> 'w"
    and ok :: "'w \<Rightarrow> bool"
  assumes view_wf: "ok w \<Longrightarrow> om_wf (view w)"
    and view_lookup: "ok w \<Longrightarrow> map_of (view w) = lookup w"
    and lookup_put: "lookup (put k v w) = (lookup w)(k \<mapsto> v)"
    and ok_put: "ok w \<Longrightarrow> ok (put k v w)"
begin

lemma view_mem: "ok w \<Longrightarrow> (k, v) \<in> set (view w) \<longleftrightarrow> lookup w k = Some v"
  using view_wf view_lookup om_wf_map_of_iff by metis

lemma view_put: "ok w \<Longrightarrow> view (put k v w) = om_put k v (view w)"
  by (rule om.entries_canonical) (simp_all add: view_wf ok_put view_lookup lookup_put)

lemma view_distinct: "ok w \<Longrightarrow> distinct (map fst (view w))"
  by (rule om_wf_distinct) (rule view_wf)

lemma view_eqI: "ok w \<Longrightarrow> ok w' \<Longrightarrow> lookup w = lookup w' \<Longrightarrow> view w = view w'"
  by (rule om.entries_canonical) (simp_all add: view_wf view_lookup)

lemma view_sum_put:
  fixes f :: "EvidenceKey \<times> 'v \<Rightarrow> nat"
  assumes "ok w"
  shows "sum_list (map f (view (put k v w))) + (case lookup w k of None \<Rightarrow> 0 | Some v0 \<Rightarrow> f (k, v0))
    = sum_list (map f (view w)) + f (k, v)"
  using om_sum_put [OF view_wf [OF assms], of f k v] by (simp add: view_put assms view_lookup)

end

lemma streams_of_flat: "streams_of w = flat g_streams w"
  by (simp add: streams_of_def flat_def)

lemma tombstones_of_flat: "tombstones_of w = flat g_tombstones w"
  by (simp add: tombstones_of_def flat_def)

interpretation streams: keyed_view streams_of find_stream put_stream world_wf
proof unfold_locales
  fix w assume w: "world_wf w"
  show "om_wf (streams_of w)" unfolding streams_of_flat using w by (rule flat_wf) (simp add: group_wf_def)
  show "map_of (streams_of w) = find_stream w"
    unfolding streams_of_flat find_stream_def using w by (intro ext flat_lookup) (simp_all add: group_wf_def)
qed simp_all

interpretation tombs: keyed_view tombstones_of find_tombstone put_tombstone world_wf
proof unfold_locales
  fix w assume w: "world_wf w"
  show "om_wf (tombstones_of w)" unfolding tombstones_of_flat using w by (rule flat_wf) (simp add: group_wf_def)
  show "map_of (tombstones_of w) = find_tombstone w"
    unfolding tombstones_of_flat find_tombstone_def using w by (intro ext flat_lookup) (simp_all add: group_wf_def)
qed simp_all

lemma streams_put_tombstone [simp]: "world_wf w \<Longrightarrow> streams_of (put_tombstone key t w) = streams_of w"
  by (rule streams.view_eqI) simp_all

lemma tombstones_put_stream [simp]: "world_wf w \<Longrightarrow> tombstones_of (put_stream key s w) = tombstones_of w"
  by (rule tombs.view_eqI) simp_all

definition record_count :: "World \<Rightarrow> nat" where
  "record_count w = sum_list (map (\<lambda>(key, s). length (st_records s)) (streams_of w))"

lemma record_count_flatten: "record_count w = length (flatten_records w)"
  by (simp add: record_count_def flatten_records_def length_concat case_prod_unfold comp_def)

lemma record_count_put:
  "world_wf w \<Longrightarrow> record_count (put_stream key s w)
     + (case find_stream w key of None \<Rightarrow> 0 | Some s0 \<Rightarrow> length (st_records s0))
   = record_count w + length (st_records s)"
  using streams.view_sum_put [of w "\<lambda>(key, s). length (st_records s)" key s] by (simp add: record_count_def split: option.splits)

lemma record_count_put_tombstone [simp]: "world_wf w \<Longrightarrow> record_count (put_tombstone key t w) = record_count w"
  by (simp add: record_count_def split: option.splits)

end
