(* ===== verification/Derive.thy ===== *)
theory Derive
  imports World Compat
begin

text \<open>
  State derivation: \<open>effective_max_age\<close>, \<open>observed_age\<close>, \<open>records_differ\<close>, \<open>compute_conflict_id\<close>,
  \<open>Impl::classify\<close> and \<open>Impl::derive\<close> of \<open>src/registry.cpp\<close>.

  The state of a record is never stored: it is derived from the record, its stream, the policy, the
  device table and the clock. The lemmas characterise when a record is active, and the live records of a
  group as the active ones of the highest authority.
\<close>

definition kApiGeneration :: u16 where "kApiGeneration = 1"

definition effective_max_age :: "RegistryPolicy \<Rightarrow> SourcePolicy option \<Rightarrow> Tick \<Rightarrow> Tick" where
  "effective_max_age policy source override_age =
     (if override_age \<noteq> 0 then override_age
      else (case source of None \<Rightarrow> p_default_max_age policy
        | Some s \<Rightarrow> if sp_max_age s \<noteq> 0 then sp_max_age s
            else if sp_kind s = OperatorDeclaration then 0 else p_default_max_age policy))"

definition observed_age :: "Tick \<Rightarrow> Tick \<Rightarrow> Tick" where
  "observed_age now observed_at =
     (if now \<le> observed_at then 0
      else (case checked_sub now observed_at of None \<Rightarrow> 0 | Some delta \<Rightarrow> delta))"

definition records_differ :: "CapabilityEvidence \<Rightarrow> CapabilityEvidence \<Rightarrow> bool" where
  "records_differ l r \<longleftrightarrow> e_capability_version l \<noteq> e_capability_version r \<or> e_features l \<noteq> e_features r
     \<or> e_limits l \<noteq> e_limits r \<or> e_firmware_version l \<noteq> e_firmware_version r
     \<or> e_firmware_generation l \<noteq> e_firmware_generation r \<or> e_runtime_version l \<noteq> e_runtime_version r
     \<or> e_runtime_generation l \<noteq> e_runtime_generation r"

definition compute_conflict_id :: "DeviceIncarnationRef \<Rightarrow> CapabilityKind \<Rightarrow> EvidenceId list \<Rightarrow> ConflictId" where
  "compute_conflict_id device kind members =
     Digest256_of (w_u16 kApiGeneration @ encode_device_ref device @ w_u16 (kind_code kind) @ w_list w_digest members)"

record DerivedFact =
  f_record :: StoredEvidence
  f_state :: EvidenceState
  f_reason :: ReasonCode
  f_age :: Tick

record Derivation =
  dv_facts :: "DerivedFact list"
  dv_live :: "StoredEvidence list"
  dv_live_ids :: "EvidenceId list"
  dv_live_authority :: AuthorityRank
  dv_disagrees :: bool
  dv_conflict :: "ConflictId option"

definition fenced_source :: "RegistryPolicy \<Rightarrow> SourcePolicy \<Rightarrow> bool" where
  "fenced_source policy s \<longleftrightarrow> sp_trust s = Revoked \<or> sp_trust s = Untrusted \<and> p_refuse_untrusted_sources policy"

definition classify :: "Impl \<Rightarrow> StoredEvidence \<Rightarrow> Stream \<Rightarrow> SourcePolicy option \<Rightarrow> DeviceIncarnationRef \<Rightarrow> Tick \<Rightarrow> Tick
    \<Rightarrow> EvidenceState \<times> ReasonCode" where
  "classify i r stream source device now max_age_override =
     (let e = s_evidence r in
      if s_lifecycle r = LifecycleRejected then (StateRejected, s_admission_reason r)
      else if s_lifecycle r = LifecycleRetired then (StateRetired, s_retirement_reason r)
      else if st_max_generation stream \<noteq> 0 \<and> e_generation e < st_max_generation stream
        then (StateSuperseded, RejectedSupersededGeneration)
      else if (case find_device i (dr_device device) of None \<Rightarrow> True
                 | Some entry \<Rightarrow> ie_current entry \<noteq> dr_incarnation device)
        then (StateFenced, UnknownIncarnationNotCurrent)
      else (case source of None \<Rightarrow> (StateFenced, UnknownSourceNotConfigured)
        | Some s \<Rightarrow>
            if sp_trust s = Revoked then (StateFenced, IncompatibleSourceRevoked)
            else if sp_trust s = Untrusted \<and> p_refuse_untrusted_sources (i_policy i)
              then (StateFenced, RejectedSourceUntrusted)
            else if e_boot_at_ingest e > i_boot_epoch i then (StateFenced, StoreBootReplay)
            else if e_boot_at_ingest e < i_boot_epoch i \<and> \<not> sp_durable_across_boot s
                \<and> p_boot_policy (i_policy i) = ConservativeFence
              then (StateFenced, UnknownFencedEvidence)
            else (let bound = effective_max_age (i_policy i) source max_age_override in
              if bound \<noteq> 0 \<and> observed_age now (e_observed_at e) > bound then (StateStale, UnknownStaleEvidence)
              else if (case e_valid_until e of None \<Rightarrow> False | Some u \<Rightarrow> now > u) then (StateStale, UnknownStaleEvidence)
              else (StateActive, AcceptedNew))))"

text \<open>The facts of a group in stream order, before outranking.\<close>

definition raw_facts :: "Impl \<Rightarrow> DeviceIncarnationRef \<Rightarrow> GroupState \<Rightarrow> Tick \<Rightarrow> Tick \<Rightarrow> DerivedFact list" where
  "raw_facts i device g now max_age_override =
     concat (map (\<lambda>(sid, stream). let source = find_source (i_policy i) sid in
       map (\<lambda>r. case classify i r stream source device now max_age_override of (state, reason) \<Rightarrow>
              \<lparr>f_record = r, f_state = state, f_reason = reason,
               f_age = observed_age now (e_observed_at (s_evidence r))\<rparr>) (st_records stream))
       (g_streams g))"

definition fact_authority :: "DerivedFact \<Rightarrow> AuthorityRank" where
  "fact_authority f = e_authority (s_evidence (f_record f))"

definition highest_authority :: "DerivedFact list \<Rightarrow> AuthorityRank" where
  "highest_authority facts = fold (\<lambda>f highest. if f_state f = StateActive \<and> fact_authority f > highest
     then fact_authority f else highest) facts RankNone"

definition outrank :: "AuthorityRank \<Rightarrow> DerivedFact \<Rightarrow> DerivedFact" where
  "outrank highest f = (if f_state f = StateActive \<and> fact_authority f < highest
     then f\<lparr>f_state := StateOutranked, f_reason := ConflictOutranked\<rparr> else f)"

definition disagrees :: "StoredEvidence list \<Rightarrow> bool" where
  "disagrees live = (case live of [] \<Rightarrow> False
     | first # rest \<Rightarrow> list_ex (\<lambda>r. records_differ (s_evidence first) (s_evidence r)) rest)"

definition empty_derivation :: Derivation where
  "empty_derivation = \<lparr>dv_facts = [], dv_live = [], dv_live_ids = [], dv_live_authority = RankNone,
     dv_disagrees = False, dv_conflict = None\<rparr>"

definition derive :: "Impl \<Rightarrow> DeviceIncarnationRef \<Rightarrow> CapabilityKind \<Rightarrow> Tick \<Rightarrow> Tick \<Rightarrow> Derivation" where
  "derive i device kind now max_age_override =
     (case find_group (i_world i) device kind of None \<Rightarrow> empty_derivation
      | Some g \<Rightarrow>
          let raw = raw_facts i device g now max_age_override;
              highest = highest_authority raw;
              facts = map (outrank highest) raw;
              live = sort_key stored_id (map f_record (filter (\<lambda>f. f_state f = StateActive) facts));
              ids = map stored_id live
          in \<lparr>dv_facts = sort_key (\<lambda>f. stored_id (f_record f)) facts, dv_live = live, dv_live_ids = ids,
              dv_live_authority = highest, dv_disagrees = disagrees live,
              dv_conflict = (if disagrees live then Some (compute_conflict_id device kind ids) else None)\<rparr>)"

section \<open>When a record is active\<close>

definition device_current :: "Impl \<Rightarrow> DeviceIncarnationRef \<Rightarrow> bool" where
  "device_current i device \<longleftrightarrow> (\<exists>entry. find_device i (dr_device device) = Some entry \<and> ie_current entry = dr_incarnation device)"

definition fresh :: "Impl \<Rightarrow> SourcePolicy \<Rightarrow> CapabilityEvidence \<Rightarrow> Tick \<Rightarrow> Tick \<Rightarrow> bool" where
  "fresh i s e now max_age_override \<longleftrightarrow>
     (effective_max_age (i_policy i) (Some s) max_age_override = 0
      \<or> unat now - unat (e_observed_at e) \<le> unat (effective_max_age (i_policy i) (Some s) max_age_override))
     \<and> (\<forall>u. e_valid_until e = Some u \<longrightarrow> now \<le> u)"

definition boot_admissible :: "Impl \<Rightarrow> SourcePolicy \<Rightarrow> CapabilityEvidence \<Rightarrow> bool" where
  "boot_admissible i s e \<longleftrightarrow> e_boot_at_ingest e \<le> i_boot_epoch i
     \<and> (e_boot_at_ingest e = i_boot_epoch i \<or> sp_durable_across_boot s \<or> p_boot_policy (i_policy i) \<noteq> ConservativeFence)"

definition active_conditions :: "Impl \<Rightarrow> StoredEvidence \<Rightarrow> Stream \<Rightarrow> SourcePolicy option \<Rightarrow> DeviceIncarnationRef \<Rightarrow> Tick \<Rightarrow> Tick \<Rightarrow> bool" where
  "active_conditions i r stream source device now max_age_override \<longleftrightarrow>
     s_lifecycle r = LifecycleAdmitted
     \<and> st_max_generation stream \<le> e_generation (s_evidence r)
     \<and> device_current i device
     \<and> (\<exists>s. source = Some s \<and> \<not> fenced_source (i_policy i) s \<and> boot_admissible i s (s_evidence r)
          \<and> fresh i s (s_evidence r) now max_age_override)"

lemma observed_age_unat: "unat (observed_age now observed) = unat now - unat observed"
proof (cases "now \<le> observed")
  case True
  then show ?thesis by (simp add: observed_age_def word_le_nat_alt)
next
  case False
  then have "unat observed \<le> unat now" by (simp add: word_le_nat_alt)
  moreover have "checked_sub now observed = Some (now - observed)"
    using False by (simp add: checked_sub_def not_le)
  ultimately show ?thesis using False by (simp add: observed_age_def unat_sub_if')
qed

lemma device_current_case:
  "(case find_device i (dr_device device) of None \<Rightarrow> True | Some entry \<Rightarrow> ie_current entry \<noteq> dr_incarnation device)
     \<longleftrightarrow> \<not> device_current i device"
  by (simp add: device_current_def split: option.splits)

lemma stale_case:
  "(bound \<noteq> 0 \<and> observed_age now observed > bound) \<or> (case until of None \<Rightarrow> False | Some u \<Rightarrow> now > u) \<longleftrightarrow>
   \<not> ((bound = 0 \<or> unat now - unat observed \<le> unat bound) \<and> (\<forall>u. until = Some u \<longrightarrow> now \<le> u))"
  by (auto simp: word_less_nat_alt observed_age_unat not_le split: option.splits)

lemma classify_early:
  "s_lifecycle r = LifecycleRejected \<Longrightarrow> fst (classify i r stream source device now mo) = StateRejected"
  "s_lifecycle r = LifecycleRetired \<Longrightarrow> fst (classify i r stream source device now mo) = StateRetired"
  "s_lifecycle r = LifecycleAdmitted \<Longrightarrow> e_generation (s_evidence r) < st_max_generation stream \<Longrightarrow>
     fst (classify i r stream source device now mo) = StateSuperseded"
  "s_lifecycle r = LifecycleAdmitted \<Longrightarrow> st_max_generation stream \<le> e_generation (s_evidence r) \<Longrightarrow>
     \<not> device_current i device \<or> source = None \<Longrightarrow> fst (classify i r stream source device now mo) = StateFenced"
  by (auto simp: classify_def Let_def device_current_case split: option.splits)

lemma classify_late:
  assumes "s_lifecycle r = LifecycleAdmitted" "st_max_generation stream \<le> e_generation (s_evidence r)"
    "device_current i device"
  shows "fst (classify i r stream (Some s) device now mo) =
    (if fenced_source (i_policy i) s \<or> \<not> boot_admissible i s (s_evidence r) then StateFenced
     else if \<not> fresh i s (s_evidence r) now mo then StateStale else StateActive)"
proof -
  have gen: "\<not> (st_max_generation stream \<noteq> 0 \<and> e_generation (s_evidence r) < st_max_generation stream)"
    using assms(2) by auto
  have boot: "boot_admissible i s (s_evidence r) \<longleftrightarrow> \<not> e_boot_at_ingest (s_evidence r) > i_boot_epoch i
      \<and> \<not> (e_boot_at_ingest (s_evidence r) < i_boot_epoch i \<and> \<not> sp_durable_across_boot s
        \<and> p_boot_policy (i_policy i) = ConservativeFence)"
    by (auto simp: boot_admissible_def)
  have fr: "fresh i s (s_evidence r) now mo \<longleftrightarrow>
      \<not> (effective_max_age (i_policy i) (Some s) mo \<noteq> 0
         \<and> observed_age now (e_observed_at (s_evidence r)) > effective_max_age (i_policy i) (Some s) mo)
      \<and> \<not> (case e_valid_until (s_evidence r) of None \<Rightarrow> False | Some u \<Rightarrow> now > u)"
    unfolding fresh_def using stale_case by blast
  show ?thesis
    unfolding boot fr fenced_source_def
    by (simp only: classify_def Let_def device_current_case assms(1,3) gen option.simps if_True if_False
        EvidenceLifecycle.distinct not_True_eq_False)
      (cases "e_boot_at_ingest (s_evidence r)" "i_boot_epoch i" rule: linorder_cases, simp_all)
qed

lemma classify_active_iff:
  "fst (classify i r stream source device now mo) = StateActive \<longleftrightarrow> active_conditions i r stream source device now mo"
proof (cases "s_lifecycle r = LifecycleAdmitted \<and> st_max_generation stream \<le> e_generation (s_evidence r) \<and> device_current i device")
  case True
  then show ?thesis
    using classify_early(4) [where i = i and r = r and stream = stream and source = source and device = device and now = now and mo = mo]
    by (cases source) (auto simp: classify_late active_conditions_def)
next
  case False
  then show ?thesis
    using classify_early [where i = i and r = r and stream = stream and source = source and device = device and now = now and mo = mo]
    by (cases "s_lifecycle r"; cases "st_max_generation stream \<le> e_generation (s_evidence r)")
      (auto simp: active_conditions_def not_le)
qed

section \<open>The live records of a group\<close>

text \<open>A record of the group that satisfies every condition of activity.\<close>

definition active_in :: "Impl \<Rightarrow> DeviceIncarnationRef \<Rightarrow> CapabilityKind \<Rightarrow> Tick \<Rightarrow> Tick \<Rightarrow> StoredEvidence \<Rightarrow> bool" where
  "active_in i device kind now mo r \<longleftrightarrow> (\<exists>g sid stream. find_group (i_world i) device kind = Some g
     \<and> (sid, stream) \<in> set (g_streams g) \<and> r \<in> set (st_records stream)
     \<and> active_conditions i r stream (find_source (i_policy i) sid) device now mo)"

lemma raw_facts_set:
  "f \<in> set (raw_facts i device g now mo) \<longleftrightarrow> (\<exists>sid stream r. (sid, stream) \<in> set (g_streams g) \<and> r \<in> set (st_records stream)
     \<and> f = \<lparr>f_record = r, f_state = fst (classify i r stream (find_source (i_policy i) sid) device now mo),
            f_reason = snd (classify i r stream (find_source (i_policy i) sid) device now mo),
            f_age = observed_age now (e_observed_at (s_evidence r))\<rparr>)"
  unfolding raw_facts_def Let_def case_prod_unfold set_concat set_map UN_iff image_iff Bex_def split_paired_Ex fst_conv snd_conv
  by (rule iffI; elim exE conjE; hypsubst?; force)

lemma raw_active:
  assumes "find_group (i_world i) device kind = Some g"
  shows "(\<exists>f \<in> set (raw_facts i device g now mo). f_record f = r \<and> f_state f = StateActive) \<longleftrightarrow> active_in i device kind now mo r"
proof
  assume "\<exists>f \<in> set (raw_facts i device g now mo). f_record f = r \<and> f_state f = StateActive"
  then show "active_in i device kind now mo r"
    using assms by (auto simp: raw_facts_set active_in_def classify_active_iff; blast)
next
  assume "active_in i device kind now mo r"
  then obtain sid stream where *: "(sid, stream) \<in> set (g_streams g)" "r \<in> set (st_records stream)"
    "fst (classify i r stream (find_source (i_policy i) sid) device now mo) = StateActive"
    using assms by (auto simp: active_in_def classify_active_iff)
  then show "\<exists>f \<in> set (raw_facts i device g now mo). f_record f = r \<and> f_state f = StateActive"
    unfolding Bex_def raw_facts_set by (intro exI conjI) (auto intro: *)
qed

lemma RankNone_least [simp]: "RankNone \<le> a"
  by (cases a) (simp_all add: less_eq_AuthorityRank_def AuthorityRank_code_def)

definition raise_rank :: "DerivedFact \<Rightarrow> AuthorityRank \<Rightarrow> AuthorityRank" where
  "raise_rank f h = (if f_state f = StateActive \<and> fact_authority f > h then fact_authority f else h)"

lemma raise_rank_bounds:
  "h \<le> raise_rank f h" "f_state f = StateActive \<Longrightarrow> fact_authority f \<le> raise_rank f h"
  "raise_rank f h = h \<or> f_state f = StateActive \<and> fact_authority f = raise_rank f h"
  by (auto simp: raise_rank_def)

lemma fold_raise_rank:
  "h \<le> fold raise_rank fs h \<and> (\<forall>f \<in> set fs. f_state f = StateActive \<longrightarrow> fact_authority f \<le> fold raise_rank fs h)
     \<and> (fold raise_rank fs h = h \<or> (\<exists>f \<in> set fs. f_state f = StateActive \<and> fact_authority f = fold raise_rank fs h))"
proof (induction fs arbitrary: h)
  case (Cons f fs)
  show ?case
    using Cons.IH [of "raise_rank f h"] raise_rank_bounds(1) [of h f] raise_rank_bounds(2) [of f h] raise_rank_bounds(3) [of f h]
    by (auto intro: order_trans)
qed simp

lemma highest_authority_bound:
  "f \<in> set fs \<Longrightarrow> f_state f = StateActive \<Longrightarrow> fact_authority f \<le> highest_authority fs"
  "highest_authority fs = RankNone \<or> (\<exists>f \<in> set fs. f_state f = StateActive \<and> fact_authority f = highest_authority fs)"
proof -
  have eq: "highest_authority fs = fold raise_rank fs RankNone"
    by (simp add: highest_authority_def raise_rank_def [abs_def])
  show "f \<in> set fs \<Longrightarrow> f_state f = StateActive \<Longrightarrow> fact_authority f \<le> highest_authority fs"
    "highest_authority fs = RankNone \<or> (\<exists>f \<in> set fs. f_state f = StateActive \<and> fact_authority f = highest_authority fs)"
    using fold_raise_rank [of RankNone fs] by (auto simp: eq)
qed

lemma outrank_simps [simp]:
  "f_record (outrank h f) = f_record f"
  "f_state (outrank h f) = StateActive \<longleftrightarrow> f_state f = StateActive \<and> \<not> fact_authority f < h"
  "f_state (outrank h f) = StateOutranked \<longleftrightarrow> f_state f = StateOutranked \<or> f_state f = StateActive \<and> fact_authority f < h"
  by (auto simp: outrank_def)

lemma live_set:
  assumes "find_group (i_world i) device kind = Some g"
  shows "set (dv_live (derive i device kind now mo)) =
    {r. active_in i device kind now mo r \<and> e_authority (s_evidence r) = highest_authority (raw_facts i device g now mo)}"
proof -
  let ?raw = "raw_facts i device g now mo"
  have "f_state f = StateActive \<and> \<not> fact_authority f < highest_authority ?raw \<longleftrightarrow>
      f_state f = StateActive \<and> fact_authority f = highest_authority ?raw" if "f \<in> set ?raw" for f
    using highest_authority_bound(1) [OF that] by auto
  then have "set (dv_live (derive i device kind now mo)) =
      {r. \<exists>f \<in> set ?raw. f_record f = r \<and> f_state f = StateActive \<and> e_authority (s_evidence r) = highest_authority ?raw}"
    using assms by (auto simp: derive_def Let_def fact_authority_def image_def)
  then show ?thesis using raw_active [OF assms] by blast
qed

lemma highest_authority_active:
  assumes "find_group (i_world i) device kind = Some g"
  shows "active_in i device kind now mo r \<Longrightarrow> e_authority (s_evidence r) \<le> highest_authority (raw_facts i device g now mo)"
    and "active_in i device kind now mo r \<Longrightarrow>
      \<exists>r'. active_in i device kind now mo r' \<and> e_authority (s_evidence r') = highest_authority (raw_facts i device g now mo)"
proof -
  assume "active_in i device kind now mo r"
  then obtain f where f: "f \<in> set (raw_facts i device g now mo)" "f_record f = r" "f_state f = StateActive"
    using raw_active [OF assms] by blast
  show le: "e_authority (s_evidence r) \<le> highest_authority (raw_facts i device g now mo)"
    using highest_authority_bound(1) [OF f(1,3)] by (simp add: fact_authority_def f(2))
  show "\<exists>r'. active_in i device kind now mo r' \<and> e_authority (s_evidence r') = highest_authority (raw_facts i device g now mo)"
  proof (cases "highest_authority (raw_facts i device g now mo) = RankNone")
    case True
    then show ?thesis using le \<open>active_in i device kind now mo r\<close> by (intro exI [of _ r]) (simp add: order_antisym)
  next
    case False
    then obtain f' where "f' \<in> set (raw_facts i device g now mo)" "f_state f' = StateActive"
      "fact_authority f' = highest_authority (raw_facts i device g now mo)"
      using highest_authority_bound(2) by blast
    then show ?thesis using raw_active [OF assms] unfolding fact_authority_def by blast
  qed
qed

lemma derive_None [simp]:
  "find_group (i_world i) device kind = None \<Longrightarrow> derive i device kind now mo = empty_derivation"
  by (simp add: derive_def)

lemma live_iff:
  "r \<in> set (dv_live (derive i device kind now mo)) \<longleftrightarrow> active_in i device kind now mo r
     \<and> (\<forall>r'. active_in i device kind now mo r' \<longrightarrow> e_authority (s_evidence r') \<le> e_authority (s_evidence r))"
proof (cases "find_group (i_world i) device kind")
  case None
  then show ?thesis by (simp add: empty_derivation_def active_in_def)
next
  case (Some g)
  show ?thesis
    unfolding live_set [OF Some] mem_Collect_eq
    using highest_authority_active(1) [OF Some, of now mo] highest_authority_active(2) [OF Some, of now mo r]
    by (metis order_antisym)
qed

lemma live_empty_iff: "dv_live (derive i device kind now mo) = [] \<longleftrightarrow> (\<nexists>r. active_in i device kind now mo r)"
proof (cases "find_group (i_world i) device kind")
  case None
  then show ?thesis by (simp add: empty_derivation_def active_in_def)
next
  case (Some g)
  then show ?thesis using live_set [OF Some, of now mo] highest_authority_active(2) [OF Some, of now mo]
    by (metis (mono_tags, lifting) empty_iff empty_set last_in_set mem_Collect_eq)
qed

text \<open>What a record reports; two records differ when their reports do.\<close>

definition report :: "StoredEvidence \<Rightarrow> SemVer \<times> FeatureSet \<times> LimitSet \<times> SemVer option \<times> FirmwareGeneration \<times> SemVer option \<times> RuntimeGeneration" where
  "report r = (let e = s_evidence r in (e_capability_version e, e_features e, e_limits e, e_firmware_version e,
     e_firmware_generation e, e_runtime_version e, e_runtime_generation e))"

lemma records_differ_report: "records_differ (s_evidence a) (s_evidence b) \<longleftrightarrow> report a \<noteq> report b"
  by (auto simp: records_differ_def report_def Let_def)

lemma disagrees_iff: "disagrees live \<longleftrightarrow> (\<exists>a \<in> set live. \<exists>b \<in> set live. records_differ (s_evidence a) (s_evidence b))"
  unfolding records_differ_report by (cases live) (auto simp: disagrees_def list_ex_iff records_differ_report, metis)

text \<open>
  C10: the live records are exactly the active records of the highest authority. A record is live if and
  only if it is admitted, of its stream's newest generation, on the device's current incarnation, from a
  configured source that is neither revoked nor refused as untrusted, of an admissible boot, within its
  freshness bound and its validity window (with ages computed over the integers), and no other such record
  of the group has a higher authority; the group is in conflict if and only if two live records differ in
  what they report. Nothing is live when nothing is active.
\<close>

theorem derive_live_exact:
  "(r \<in> set (dv_live (derive i device kind now mo)) \<longleftrightarrow> active_in i device kind now mo r
      \<and> \<not> (\<exists>r'. active_in i device kind now mo r' \<and> e_authority (s_evidence r) < e_authority (s_evidence r')))
   \<and> (dv_disagrees (derive i device kind now mo) \<longleftrightarrow>
      (\<exists>a \<in> set (dv_live (derive i device kind now mo)). \<exists>b \<in> set (dv_live (derive i device kind now mo)).
         records_differ (s_evidence a) (s_evidence b)))
   \<and> (dv_live (derive i device kind now mo) = [] \<longleftrightarrow> \<not> (\<exists>r. active_in i device kind now mo r))"
proof -
  have "dv_disagrees (derive i device kind now mo) = disagrees (dv_live (derive i device kind now mo))"
    by (simp add: derive_def Let_def empty_derivation_def disagrees_def split: option.splits)
  then show ?thesis using live_iff live_empty_iff disagrees_iff by (auto simp: not_less)
qed

end
