(* ===== verification/Conflicts.thy ===== *)
theory Conflicts
  imports Derive
begin

text \<open>
  Conflict groups and resolutions of \<open>src/registry.cpp\<close>: \<open>refresh_conflict\<close>, \<open>refresh_all_conflicts\<close>,
  \<open>push_resolution\<close>, \<open>resolve_conflict\<close> and \<open>conflict_for\<close>.

  Recomputing the table keeps exactly the groups that disagree, up to the configured bound, and counts the
  ones it had to leave out. Nothing else of the registry changes.
\<close>

fun erase_first :: "('a \<Rightarrow> bool) \<Rightarrow> 'a list \<Rightarrow> 'a list" where
  "erase_first P [] = []"
| "erase_first P (x # xs) = (if P x then xs else x # erase_first P xs)"

fun replace_first :: "('a \<Rightarrow> bool) \<Rightarrow> 'a \<Rightarrow> 'a list \<Rightarrow> 'a list" where
  "replace_first P v [] = []"
| "replace_first P v (x # xs) = (if P x then v # xs else x # replace_first P v xs)"

definition is_group :: "DeviceIncarnationRef \<Rightarrow> CapabilityKind \<Rightarrow> ConflictGroup \<Rightarrow> bool" where
  "is_group device kind g \<longleftrightarrow> cg_device g = device \<and> cg_kind g = kind"

text \<open>The group a derivation with a disagreement reports.\<close>

definition observed :: "StoredEvidence \<Rightarrow> Tick" where
  "observed r = e_observed_at (s_evidence r)"

definition conflict_group :: "DeviceIncarnationRef \<Rightarrow> CapabilityKind \<Rightarrow> Derivation \<Rightarrow> ConflictGroup" where
  "conflict_group device kind d =
     \<lparr>cg_id = the (dv_conflict d), cg_device = device, cg_kind = kind, cg_authority = dv_live_authority d,
      cg_members = sort (map stored_id (dv_live d)),
      cg_generations = map (\<lambda>r. e_generation (s_evidence r)) (dv_live d),
      cg_observed_first = fold (\<lambda>r t. if observed r < t then observed r else t) (dv_live d) (observed (hd (dv_live d))),
      cg_observed_last = fold (\<lambda>r t. if observed r > t then observed r else t) (dv_live d) (observed (hd (dv_live d)))\<rparr>"

definition refresh_conflict :: "DeviceIncarnationRef \<Rightarrow> CapabilityKind \<Rightarrow> Tick \<Rightarrow> Impl \<Rightarrow> Impl" where
  "refresh_conflict device kind now i =
     (let d = derive i device kind now 0;
          existing = find_conflict (i_conflicts i) device kind
      in if \<not> dv_disagrees d
         then (case existing of None \<Rightarrow> i
                | Some _ \<Rightarrow> i\<lparr>i_conflicts := erase_first (is_group device kind) (i_conflicts i)\<rparr>)
         else (let group = conflict_group device kind d in
           case existing of
             Some previous \<Rightarrow>
               (let table = replace_first (is_group device kind) group (i_conflicts i)
                in i\<lparr>i_conflicts := (if cg_id previous \<noteq> cg_id group then sort_key cg_id table else table)\<rparr>)
           | None \<Rightarrow>
               if length (i_conflicts i) \<ge> max_conflict_groups (p_limits (i_policy i))
               then i\<lparr>i_counters := (i_counters i)\<lparr>conflicts_dropped := conflicts_dropped (i_counters i) + 1\<rparr>\<rparr>
               else i\<lparr>i_conflicts := sort_key cg_id (i_conflicts i @ [group])\<rparr>))"

definition conflict_targets :: "World \<Rightarrow> (DeviceIncarnationRef \<times> CapabilityKind) list" where
  "conflict_targets w = concat (map (\<lambda>device. case find_kind_map w device of None \<Rightarrow> []
     | Some kinds \<Rightarrow> map (\<lambda>(kind, unused). (device, kind)) kinds) (group_keys w))"

definition refresh_all_conflicts :: "Tick \<Rightarrow> Impl \<Rightarrow> Impl" where
  "refresh_all_conflicts now i =
     fold (\<lambda>(device, kind). refresh_conflict device kind now) (conflict_targets (i_world i)) (i\<lparr>i_conflicts := []\<rparr>)"

definition push_resolution :: "ConflictResolution \<Rightarrow> Impl \<Rightarrow> Impl" where
  "push_resolution resolution i =
     (if \<exists>r \<in> set (i_resolutions i). cr_id r = cr_id resolution
      then i\<lparr>i_resolutions := replace_first (\<lambda>r. cr_id r = cr_id resolution) resolution (i_resolutions i)\<rparr>
      else (let full = length (i_resolutions i) \<ge> max_resolutions (p_limits (i_policy i));
                table = (if full then tl (i_resolutions i) else i_resolutions i);
                counters = (if full then (i_counters i)\<lparr>resolutions_dropped := resolutions_dropped (i_counters i) + 1\<rparr>
                            else i_counters i)
            in i\<lparr>i_resolutions := sort_key cr_id (table @ [resolution]), i_counters := counters\<rparr>))"

definition resolution_digest :: "ConflictResolution \<Rightarrow> ResolutionId" where
  "resolution_digest r = Digest256_of (w_u16 kApiGeneration @ w_digest (cr_conflict r) @ w_digest (cr_chosen r)
     @ w_list w_digest (cr_rejected_members r) @ w_name (cr_resolver r) @ w_u64 (cr_resolved_at r))"

definition find_last :: "('a \<Rightarrow> bool) \<Rightarrow> 'a list \<Rightarrow> 'a option" where
  "find_last P xs = find P (rev xs)"

definition resolve_conflict :: "ConflictId \<Rightarrow> EvidenceId \<Rightarrow> SourceId \<Rightarrow> Tick \<Rightarrow> Impl \<Rightarrow> Impl \<times> ConflictResolution outcome" where
  "resolve_conflict conflict chosen resolver now i =
     (case find_last (\<lambda>g. cg_id g = conflict) (i_conflicts i) of
        None \<Rightarrow> (i, Failure ConflictUnresolved ''conflict group is not known'')
      | Some grp \<Rightarrow>
          if chosen \<notin> set (cg_members grp)
          then (i, Failure ConflictUnresolved ''chosen record is not a member'')
          else (let policy = find_source (i_policy i) resolver in
            if p_require_configured_source (i_policy i) \<and> policy = None
            then (i, Failure RejectedUnknownSource ''resolver has no policy entry'')
            else if (case policy of None \<Rightarrow> False | Some p \<Rightarrow> sp_trust p \<noteq> Trusted)
            then (i, Failure RejectedSourceUntrusted ''resolver is not trusted'')
            else (let draft = \<lparr>cr_id = [], cr_conflict = conflict, cr_chosen = chosen,
                     cr_rejected_members = filter (\<lambda>m. m \<noteq> chosen) (cg_members grp), cr_resolver = resolver,
                     cr_resolved_at = now, cr_epoch = i_epoch i\<rparr>;
                   resolution = draft\<lparr>cr_id := resolution_digest draft\<rparr>;
                   i' = push_resolution resolution i
                in (i'\<lparr>i_counters := (i_counters i')\<lparr>conflicts_resolved := conflicts_resolved (i_counters i') + 1\<rparr>\<rparr>,
                    Success Ok resolution))))"

definition conflict_for :: "DeviceIncarnationRef \<Rightarrow> CapabilityKind \<Rightarrow> Tick \<Rightarrow> Impl \<Rightarrow> ConflictGroup outcome" where
  "conflict_for device kind now i =
     (let d = derive i device kind now 0 in
      if \<not> dv_disagrees d \<or> dv_conflict d = None
      then Failure ConflictUnresolved ''no equal-authority disagreement is present''
      else (case find (\<lambda>g. cg_id g = the (dv_conflict d)) (i_conflicts i) of
              Some g \<Rightarrow> Success Ok g
            | None \<Rightarrow> Success Ok (conflict_group device kind d)))"

section \<open>Frames\<close>

lemma derive_cong:
  assumes "i_world i = i_world j" "i_policy i = i_policy j" "i_incarnations i = i_incarnations j"
    "i_boot_epoch i = i_boot_epoch j"
  shows "derive i = derive j"
proof -
  have "classify i = classify j"
    by (intro ext) (simp only: classify_def find_device_def assms)
  then show ?thesis
    by (intro ext) (simp only: derive_def raw_facts_def assms)
qed

lemma refresh_conflict_frame [frame_simps, simp]:
  "i_policy (refresh_conflict d k now i) = i_policy i" "i_epoch (refresh_conflict d k now i) = i_epoch i"
  "i_rule_generation (refresh_conflict d k now i) = i_rule_generation i"
  "i_policy_revision (refresh_conflict d k now i) = i_policy_revision i"
  "i_boot_epoch (refresh_conflict d k now i) = i_boot_epoch i"
  "i_store_generation (refresh_conflict d k now i) = i_store_generation i"
  "i_logical_tick (refresh_conflict d k now i) = i_logical_tick i"
  "i_next_incarnation (refresh_conflict d k now i) = i_next_incarnation i"
  "i_incarnations (refresh_conflict d k now i) = i_incarnations i" "i_world (refresh_conflict d k now i) = i_world i"
  "i_total_records (refresh_conflict d k now i) = i_total_records i"
  "i_resolutions (refresh_conflict d k now i) = i_resolutions i" "i_evictions (refresh_conflict d k now i) = i_evictions i"
  "i_decisions (refresh_conflict d k now i) = i_decisions i" "i_decision_order (refresh_conflict d k now i) = i_decision_order i"
  by (simp_all add: refresh_conflict_def Let_def split: option.splits)

lemma derive_refresh [simp]: "derive (refresh_conflict d k now i) = derive i"
  by (rule derive_cong) simp_all

text \<open>Every field but the conflict table and the counters survives a fold of refreshes.\<close>

definition refresh_over :: "(DeviceIncarnationRef \<times> CapabilityKind) list \<Rightarrow> Tick \<Rightarrow> Impl \<Rightarrow> Impl" where
  "refresh_over ts now = fold (\<lambda>(device, kind). refresh_conflict device kind now) ts"

lemma refresh_over_frame [frame_simps, simp]:
  "i_policy (refresh_over ts now i) = i_policy i" "i_epoch (refresh_over ts now i) = i_epoch i"
  "i_rule_generation (refresh_over ts now i) = i_rule_generation i"
  "i_policy_revision (refresh_over ts now i) = i_policy_revision i"
  "i_boot_epoch (refresh_over ts now i) = i_boot_epoch i"
  "i_store_generation (refresh_over ts now i) = i_store_generation i"
  "i_logical_tick (refresh_over ts now i) = i_logical_tick i"
  "i_next_incarnation (refresh_over ts now i) = i_next_incarnation i"
  "i_incarnations (refresh_over ts now i) = i_incarnations i" "i_world (refresh_over ts now i) = i_world i"
  "i_total_records (refresh_over ts now i) = i_total_records i"
  "i_resolutions (refresh_over ts now i) = i_resolutions i" "i_evictions (refresh_over ts now i) = i_evictions i"
  "i_decisions (refresh_over ts now i) = i_decisions i" "i_decision_order (refresh_over ts now i) = i_decision_order i"
  by (induction ts arbitrary: i) (simp_all add: refresh_over_def case_prod_unfold)

lemma refresh_all_over: "refresh_all_conflicts now i = refresh_over (conflict_targets (i_world i)) now (i\<lparr>i_conflicts := []\<rparr>)"
  by (simp add: refresh_all_conflicts_def refresh_over_def)

lemma refresh_all_frame [frame_simps, simp]:
  "i_policy (refresh_all_conflicts now i) = i_policy i" "i_epoch (refresh_all_conflicts now i) = i_epoch i"
  "i_rule_generation (refresh_all_conflicts now i) = i_rule_generation i"
  "i_policy_revision (refresh_all_conflicts now i) = i_policy_revision i"
  "i_boot_epoch (refresh_all_conflicts now i) = i_boot_epoch i"
  "i_store_generation (refresh_all_conflicts now i) = i_store_generation i"
  "i_logical_tick (refresh_all_conflicts now i) = i_logical_tick i"
  "i_next_incarnation (refresh_all_conflicts now i) = i_next_incarnation i"
  "i_incarnations (refresh_all_conflicts now i) = i_incarnations i" "i_world (refresh_all_conflicts now i) = i_world i"
  "i_total_records (refresh_all_conflicts now i) = i_total_records i"
  "i_resolutions (refresh_all_conflicts now i) = i_resolutions i" "i_evictions (refresh_all_conflicts now i) = i_evictions i"
  "i_decisions (refresh_all_conflicts now i) = i_decisions i" "i_decision_order (refresh_all_conflicts now i) = i_decision_order i"
  by (simp_all add: refresh_all_over)

lemma derive_refresh_all [simp]: "derive (refresh_all_conflicts now i) = derive i"
  by (rule derive_cong) simp_all

section \<open>The recomputed table\<close>

lemma find_conflict_None: "find_conflict table d k = None \<longleftrightarrow> (\<forall>g \<in> set table. (cg_device g, cg_kind g) \<noteq> (d, k))"
  by (auto simp: find_conflict_def find_None_iff)

lemma conflict_group_keys [simp]:
  "cg_device (conflict_group d k dv) = d" "cg_kind (conflict_group d k dv) = k"
  by (simp_all add: conflict_group_def)

definition disagreeing :: "Impl \<Rightarrow> Tick \<Rightarrow> DeviceIncarnationRef \<times> CapabilityKind \<Rightarrow> bool" where
  "disagreeing i now t \<longleftrightarrow> dv_disagrees (derive i (fst t) (snd t) now 0)"

definition group_at :: "Impl \<Rightarrow> Tick \<Rightarrow> DeviceIncarnationRef \<times> CapabilityKind \<Rightarrow> ConflictGroup" where
  "group_at i now t = conflict_group (fst t) (snd t) (derive i (fst t) (snd t) now 0)"

definition conflict_bound :: "Impl \<Rightarrow> nat" where
  "conflict_bound i = max_conflict_groups (p_limits (i_policy i))"

lemma refresh_conflict_new:
  assumes "find_conflict (i_conflicts i) d k = None"
  shows "refresh_conflict d k now i =
    (if \<not> disagreeing i now (d, k) then i
     else if conflict_bound i \<le> length (i_conflicts i)
       then i\<lparr>i_counters := (i_counters i)\<lparr>conflicts_dropped := conflicts_dropped (i_counters i) + 1\<rparr>\<rparr>
     else i\<lparr>i_conflicts := sort_key cg_id (i_conflicts i @ [group_at i now (d, k)])\<rparr>)"
  using assms by (simp add: refresh_conflict_def Let_def disagreeing_def group_at_def conflict_bound_def)

lemma refresh_over_table:
  assumes "distinct ts" "i_conflicts i = []"
  shows "mset (i_conflicts (refresh_over ts now i)) = mset (map (group_at i now) (take (conflict_bound i) (filter (disagreeing i now) ts)))
    \<and> sorted (map cg_id (i_conflicts (refresh_over ts now i)))
    \<and> i_counters (refresh_over ts now i) = (i_counters i)\<lparr>conflicts_dropped := conflicts_dropped (i_counters i)
        + of_nat (length (filter (disagreeing i now) ts) - conflict_bound i)\<rparr>"
  using assms(1)
proof (induction ts rule: rev_induct)
  case Nil
  show ?case using assms(2) by (simp add: refresh_over_def)
next
  case (snoc t ts)
  let ?j = "refresh_over ts now i"
  obtain d k where t: "t = (d, k)" by force
  have step: "refresh_over (ts @ [t]) now i = refresh_conflict d k now ?j"
    by (simp add: refresh_over_def t)
  have IH: "mset (i_conflicts ?j) = mset (map (group_at i now) (take (conflict_bound i) (filter (disagreeing i now) ts)))"
    "sorted (map cg_id (i_conflicts ?j))"
    "i_counters ?j = (i_counters i)\<lparr>conflicts_dropped := conflicts_dropped (i_counters i)
        + of_nat (length (filter (disagreeing i now) ts) - conflict_bound i)\<rparr>"
    using snoc by simp_all
  have same: "disagreeing ?j = disagreeing i" "group_at ?j = group_at i" "conflict_bound ?j = conflict_bound i"
    using derive_cong [of ?j i] by (simp_all add: disagreeing_def [abs_def] group_at_def [abs_def] conflict_bound_def fun_eq_iff)
  have len: "length (i_conflicts ?j) = min (length (filter (disagreeing i now) ts)) (conflict_bound i)"
    using IH(1) mset_eq_length [OF IH(1)] by (simp add: min.commute)
  have "set (i_conflicts ?j) \<subseteq> group_at i now ` set ts"
    using mset_eq_setD [OF IH(1)] by (auto dest: in_set_takeD)
  moreover have "(d, k) \<notin> set ts" using snoc.prems by (simp add: t)
  ultimately have none: "find_conflict (i_conflicts ?j) d k = None"
    unfolding find_conflict_None by (fastforce simp: group_at_def)
  show ?case
    unfolding step refresh_conflict_new [OF none] same
    using IH len by (auto simp: t min_def Suc_diff_le of_nat_Suc add.assoc)
qed

lemma conflict_targets_set:
  assumes "world_wf w"
  shows "set (conflict_targets w) = {(d, k). find_group w d k \<noteq> None}" "distinct (conflict_targets w)"
proof -
  have dist: "distinct (map fst w)" using assms by (simp add: world_wf_def om_wf_distinct)
  have kinds: "om_wf kinds" if "find_kind_map w d = Some kinds" for d kinds
    using assms that map_of_SomeD unfolding world_wf_def find_kind_map_def by fastforce
  have mem: "d \<in> set (group_keys w) \<longleftrightarrow> (\<exists>kinds. find_kind_map w d = Some kinds \<and> kinds \<noteq> [])" for d
    using dist by (force simp: group_keys_def find_kind_map_def dest: map_of_SomeD)
  show "set (conflict_targets w) = {(d, k). find_group w d k \<noteq> None}"
  proof (rule set_eqI, clarify)
    fix d k
    have "(d, k) \<in> set (conflict_targets w) \<longleftrightarrow> (\<exists>kinds. find_kind_map w d = Some kinds \<and> kinds \<noteq> [] \<and> k \<in> fst ` set kinds)"
    proof
      assume "(d, k) \<in> set (conflict_targets w)"
      then show "\<exists>kinds. find_kind_map w d = Some kinds \<and> kinds \<noteq> [] \<and> k \<in> fst ` set kinds"
        unfolding conflict_targets_def set_concat set_map UN_iff image_iff Bex_def
        by (elim exE conjE) (auto simp: mem split: option.splits intro: rev_image_eqI)
    next
      assume "\<exists>kinds. find_kind_map w d = Some kinds \<and> kinds \<noteq> [] \<and> k \<in> fst ` set kinds"
      then obtain kinds where kinds: "find_kind_map w d = Some kinds" "kinds \<noteq> []" "k \<in> fst ` set kinds" by blast
      then have "d \<in> set (group_keys w)" using mem by blast
      then show "(d, k) \<in> set (conflict_targets w)"
        using kinds unfolding conflict_targets_def set_concat set_map UN_iff
        by (intro bexI [OF _ imageI]) auto
    qed
    also have "\<dots> \<longleftrightarrow> find_group w d k \<noteq> None"
      by (cases "find_kind_map w d") (auto simp: find_group_def map_of_eq_None_iff simp del: not_None_eq)
    finally show "(d, k) \<in> set (conflict_targets w) \<longleftrightarrow> (d, k) \<in> {(d, k). find_group w d k \<noteq> None}" by simp
  qed
  have "distinct (concat (map (\<lambda>device. case find_kind_map w device of None \<Rightarrow> []
      | Some kinds \<Rightarrow> map (\<lambda>(kind, unused). (device, kind)) kinds) ds))" if "distinct ds" for ds
    using that
  proof (induction ds)
    case (Cons d ds)
    have "distinct (case find_kind_map w d of None \<Rightarrow> [] | Some kinds \<Rightarrow> map (\<lambda>(kind, unused). (d, kind)) kinds)"
      using kinds [of d] om_wf_distinct
      by (fastforce simp: distinct_map inj_on_def case_prod_unfold split: option.splits)
    then show ?case using Cons by (auto split: option.splits)
  qed simp
  moreover have "distinct (group_keys w)" unfolding group_keys_def using dist by (rule distinct_map_filter)
  ultimately show "distinct (conflict_targets w)" unfolding conflict_targets_def by blast
qed

lemma disagreeing_target: "disagreeing i now (d, k) \<Longrightarrow> find_group (i_world i) d k \<noteq> None"
  by (cases "find_group (i_world i) d k") (simp_all add: disagreeing_def empty_derivation_def)

lemma length_filter_card: "distinct xs \<Longrightarrow> length (filter P xs) = card {x \<in> set xs. P x}"
  using distinct_card [of "filter P xs"] by (simp add: distinct_filter)

lemma disagreeing_targets:
  assumes "world_wf (i_world i)"
  shows "{t. disagreeing i now t} = {t \<in> set (conflict_targets (i_world i)). disagreeing i now t}"
    and "card {t. disagreeing i now t} = length (filter (disagreeing i now) (conflict_targets (i_world i)))"
proof -
  show set: "{t. disagreeing i now t} = {t \<in> set (conflict_targets (i_world i)). disagreeing i now t}"
    using conflict_targets_set(1) [OF assms] by (auto dest: disagreeing_target)
  show "card {t. disagreeing i now t} = length (filter (disagreeing i now) (conflict_targets (i_world i)))"
    by (subst set) (rule length_filter_card [OF conflict_targets_set(2) [OF assms], symmetric])
qed

lemma refresh_all_table:
  fixes i :: Impl and now :: Tick
  assumes "world_wf (i_world i)"
  defines "ts \<equiv> filter (disagreeing i now) (conflict_targets (i_world i))"
  shows "mset (i_conflicts (refresh_all_conflicts now i)) = mset (map (group_at i now) (take (conflict_bound i) ts))"
    and "sorted (map cg_id (i_conflicts (refresh_all_conflicts now i)))"
    and "i_counters (refresh_all_conflicts now i) = (i_counters i)\<lparr>conflicts_dropped := conflicts_dropped (i_counters i)
        + of_nat (length ts - conflict_bound i)\<rparr>"
proof -
  let ?j = "i\<lparr>i_conflicts := []\<rparr>"
  have same: "disagreeing ?j = disagreeing i" "group_at ?j = group_at i" "conflict_bound ?j = conflict_bound i"
    using derive_cong [of ?j i] by (simp_all add: disagreeing_def [abs_def] group_at_def [abs_def] conflict_bound_def fun_eq_iff)
  show "mset (i_conflicts (refresh_all_conflicts now i)) = mset (map (group_at i now) (take (conflict_bound i) ts))"
    "sorted (map cg_id (i_conflicts (refresh_all_conflicts now i)))"
    "i_counters (refresh_all_conflicts now i) = (i_counters i)\<lparr>conflicts_dropped := conflicts_dropped (i_counters i)
        + of_nat (length ts - conflict_bound i)\<rparr>"
    using refresh_over_table [OF conflict_targets_set(2) [OF assms(1)], of ?j now]
    by (simp_all add: refresh_all_over ts_def same)
qed

text \<open>
  C20: recomputing the conflict table is exact and accounted for. The table is sorted by id, has at most one
  group per device incarnation and kind, every group in it is what its live records report now, and every
  group that disagrees is in it or is counted: the table holds as many of the disagreeing groups as the
  bound allows and \<open>conflicts_dropped\<close> grows by exactly the number left out. When they all fit none is missing.
\<close>

theorem refresh_all_conflicts_exact:
  fixes i :: Impl and now :: Tick
  assumes "world_wf (i_world i)"
  defines "i' \<equiv> refresh_all_conflicts now i"
    and "D \<equiv> {t. disagreeing i now t}"
  shows "sorted (map cg_id (i_conflicts i'))
    \<and> distinct (map (\<lambda>g. (cg_device g, cg_kind g)) (i_conflicts i'))
    \<and> length (i_conflicts i') = min (card D) (max_conflict_groups (p_limits (i_policy i)))
    \<and> set (i_conflicts i') \<subseteq> group_at i now ` D
    \<and> (card D \<le> max_conflict_groups (p_limits (i_policy i)) \<longrightarrow> set (i_conflicts i') = group_at i now ` D)
    \<and> conflicts_dropped (i_counters i') = conflicts_dropped (i_counters i)
        + of_nat (card D - max_conflict_groups (p_limits (i_policy i)))"
proof -
  let ?ts = "filter (disagreeing i now) (conflict_targets (i_world i))"
  note table = refresh_all_table [OF assms(1), of now, folded i'_def]
  have D: "D = set ?ts" "card D = length ?ts"
    using disagreeing_targets [OF assms(1), of now] unfolding D_def by auto
  have keys: "map (\<lambda>g. (cg_device g, cg_kind g)) (map (group_at i now) ts) = ts" for ts
    by (induction ts) (simp_all add: group_at_def)
  have "distinct (take (conflict_bound i) ?ts)"
    using conflict_targets_set(2) [OF assms(1)] by simp
  then have "distinct (map (\<lambda>g. (cg_device g, cg_kind g)) (map (group_at i now) (take (conflict_bound i) ?ts)))"
    unfolding keys .
  moreover have "mset (map (\<lambda>g. (cg_device g, cg_kind g)) (i_conflicts i'))
      = mset (map (\<lambda>g. (cg_device g, cg_kind g)) (map (group_at i now) (take (conflict_bound i) ?ts)))"
    using table(1) by (metis mset_map)
  ultimately have dist: "distinct (map (\<lambda>g. (cg_device g, cg_kind g)) (i_conflicts i'))"
    using mset_eq_imp_distinct_iff by blast
  have len: "length (i_conflicts i') = min (card D) (conflict_bound i)"
    using mset_eq_length [OF table(1)] by (simp add: D(2) min.commute)
  have sub: "set (i_conflicts i') = group_at i now ` set (take (conflict_bound i) ?ts)"
    using mset_eq_setD [OF table(1)] by simp
  then have "set (i_conflicts i') \<subseteq> group_at i now ` D"
    unfolding D(1) by (simp only:) (intro image_mono set_take_subset)
  moreover have "card D \<le> conflict_bound i \<Longrightarrow> set (i_conflicts i') = group_at i now ` D"
    unfolding D(2) unfolding sub D(1) by simp
  moreover have "conflicts_dropped (i_counters i') = conflicts_dropped (i_counters i) + of_nat (card D - conflict_bound i)"
    unfolding table(3) D(2) by simp
  ultimately show ?thesis using table(2) dist len unfolding conflict_bound_def by blast
qed

theorem refresh_all_conflicts_exact_witness:
  "i_conflicts (refresh_all_conflicts 5 (Registry_init make_lab_policy)) = []
   \<and> conflicts_dropped (i_counters (refresh_all_conflicts 5 (Registry_init make_lab_policy))) = 0"
proof -
  have "world_wf (i_world (Registry_init make_lab_policy))" by (simp add: Registry_init_def)
  moreover have D: "{t. disagreeing (Registry_init make_lab_policy) 5 t} = {}"
    by (auto simp: disagreeing_def Registry_init_def empty_derivation_def find_group_def find_kind_map_def)
  moreover have "conflicts_dropped (i_counters (Registry_init make_lab_policy)) = 0"
    by (simp add: Registry_init_def zero_counters_def)
  ultimately show ?thesis
    using refresh_all_conflicts_exact [of "Registry_init make_lab_policy" 5] unfolding D by simp
qed

section \<open>Resolutions\<close>

lemma replace_first_find:
  "\<exists>x \<in> set xs. P x \<Longrightarrow> Q v \<Longrightarrow> find Q xs = None \<Longrightarrow> find Q (replace_first P v xs) = Some v"
  by (induction xs) (auto split: if_splits)

lemma find_sort_unique:
  "\<forall>x \<in> set xs. \<not> Q x \<Longrightarrow> Q v \<Longrightarrow> find Q (sort_key f (xs @ [v])) = Some v"
proof -
  assume *: "\<forall>x \<in> set xs. \<not> Q x" "Q v"
  have "find Q (sort_key f (xs @ [v])) \<noteq> None"
    using * by (auto simp: find_None_iff)
  then obtain y where y: "find Q (sort_key f (xs @ [v])) = Some y" by blast
  then have "y \<in> set xs \<union> {v}" "Q y" using find_Some_iff [OF y] by auto
  then show ?thesis using * y by auto
qed

lemma push_resolution_find:
  assumes "find_resolution (i_resolutions i) (cr_conflict r) = None"
  shows "find_resolution (i_resolutions (push_resolution r i)) (cr_conflict r) = Some r"
proof -
  have none: "\<forall>x \<in> set (i_resolutions i). cr_conflict x \<noteq> cr_conflict r"
    using assms by (auto simp: find_resolution_def find_None_iff)
  then have "\<forall>x \<in> set (tl (i_resolutions i)). cr_conflict x \<noteq> cr_conflict r"
    by (cases "i_resolutions i") simp_all
  then show ?thesis
    using none assms by (auto simp: push_resolution_def Let_def find_resolution_def intro!: replace_first_find find_sort_unique)
qed

lemma resolve_conflict_Success:
  "resolve_conflict conflict chosen resolver now i = (i', Success c res) \<longleftrightarrow>
   (\<exists>grp. find_last (\<lambda>g. cg_id g = conflict) (i_conflicts i) = Some grp \<and> chosen \<in> set (cg_members grp)
     \<and> (p_require_configured_source (i_policy i) \<longrightarrow> find_source (i_policy i) resolver \<noteq> None)
     \<and> (\<forall>p. find_source (i_policy i) resolver = Some p \<longrightarrow> sp_trust p = Trusted)
     \<and> (let draft = \<lparr>cr_id = [], cr_conflict = conflict, cr_chosen = chosen,
              cr_rejected_members = filter (\<lambda>m. m \<noteq> chosen) (cg_members grp), cr_resolver = resolver,
              cr_resolved_at = now, cr_epoch = i_epoch i\<rparr>;
            j = push_resolution res i
        in res = draft\<lparr>cr_id := resolution_digest draft\<rparr> \<and> c = Ok
          \<and> i' = j\<lparr>i_counters := (i_counters j)\<lparr>conflicts_resolved := conflicts_resolved (i_counters j) + 1\<rparr>\<rparr>))"
  by (auto simp: resolve_conflict_def Let_def split: option.splits if_splits)

text \<open>
  A resolution settles exactly the conflict it names. When it succeeds, the conflict is known, the chosen
  record is one of its members and every other member is recorded as rejected, the resolver is configured
  where the policy demands it and trusted; and where the conflict had no resolution before, this one is the
  one that later evaluations find. A refusal leaves the registry unchanged.
\<close>

theorem resolve_conflict_settles:
  "(resolve_conflict conflict chosen resolver now i = (i', Success c res) \<longrightarrow>
      (\<exists>grp \<in> set (i_conflicts i). cg_id grp = conflict \<and> cr_chosen res \<in> set (cg_members grp)
         \<and> set (cr_rejected_members res) = set (cg_members grp) - {cr_chosen res})
      \<and> cr_conflict res = conflict \<and> cr_chosen res = chosen
      \<and> (p_require_configured_source (i_policy i) \<longrightarrow>
           (\<exists>p. find_source (i_policy i) resolver = Some p \<and> sp_trust p = Trusted))
      \<and> (find_resolution (i_resolutions i) conflict = None \<longrightarrow>
           find_resolution (i_resolutions i') conflict = Some res)
      \<and> i_world i' = i_world i \<and> i_conflicts i' = i_conflicts i)
   \<and> (resolve_conflict conflict chosen resolver now i = (i', Failure f detail) \<longrightarrow> i' = i)"
proof (intro conjI impI)
  assume "resolve_conflict conflict chosen resolver now i = (i', Success c res)"
  then obtain grp where grp: "find_last (\<lambda>g. cg_id g = conflict) (i_conflicts i) = Some grp" "chosen \<in> set (cg_members grp)"
    and pol: "p_require_configured_source (i_policy i) \<longrightarrow> find_source (i_policy i) resolver \<noteq> None"
      "\<forall>p. find_source (i_policy i) resolver = Some p \<longrightarrow> sp_trust p = Trusted"
    and res: "cr_conflict res = conflict" "cr_chosen res = chosen"
      "cr_rejected_members res = filter (\<lambda>m. m \<noteq> chosen) (cg_members grp)"
    and i': "i_resolutions i' = i_resolutions (push_resolution res i)" "i_world i' = i_world (push_resolution res i)"
      "i_conflicts i' = i_conflicts (push_resolution res i)"
    unfolding resolve_conflict_Success Let_def by (elim exE conjE) auto
  have "grp \<in> set (i_conflicts i)" "cg_id grp = conflict"
    using grp(1) find_Some_iff unfolding find_last_def by fastforce+
  then show "\<exists>grp \<in> set (i_conflicts i). cg_id grp = conflict \<and> cr_chosen res \<in> set (cg_members grp)
         \<and> set (cr_rejected_members res) = set (cg_members grp) - {cr_chosen res}"
    using grp(2) res by (intro bexI [of _ grp]) auto
  show "cr_conflict res = conflict" "cr_chosen res = chosen" by (fact res)+
  show "\<exists>p. find_source (i_policy i) resolver = Some p \<and> sp_trust p = Trusted"
    if "p_require_configured_source (i_policy i)" using that pol by auto
  show "find_resolution (i_resolutions i') conflict = Some res" if "find_resolution (i_resolutions i) conflict = None"
    using push_resolution_find [of i res] that by (simp add: i' res)
  show "i_world i' = i_world i" "i_conflicts i' = i_conflicts i"
    by (simp_all add: i' push_resolution_def Let_def)
next
  assume "resolve_conflict conflict chosen resolver now i = (i', Failure f detail)"
  then show "i' = i" by (auto simp: resolve_conflict_def Let_def split: option.splits if_splits)
qed

definition sample_conflict :: ConflictGroup where
  "sample_conflict = \<lparr>cg_id = [7], cg_device = key_device (e_key sample_evidence), cg_kind = TlsRecordCrypto,
     cg_authority = RankSynthetic, cg_members = [[1], [2]], cg_generations = [1, 1], cg_observed_first = 5,
     cg_observed_last = 5\<rparr>"

theorem resolve_conflict_settles_witness:
  "\<exists>i' res. resolve_conflict [7] [1] ''operator-declared'' 9 ((Registry_init make_lab_policy)\<lparr>i_conflicts := [sample_conflict]\<rparr>)
      = (i', Success Ok res) \<and> find_resolution (i_resolutions i') [7] = Some res \<and> set (cr_rejected_members res) = {[2]}"
proof -
  let ?i = "(Registry_init make_lab_policy)\<lparr>i_conflicts := [sample_conflict]\<rparr>"
  have src: "find_source (i_policy ?i) ''operator-declared'' = Some \<lparr>sp_id = ''operator-declared'', sp_kind = OperatorDeclaration,
      sp_authority = RankOperator, sp_trust = Trusted, sp_max_age = 0, sp_durable_across_boot = True\<rparr>"
    by (simp add: find_source_def Registry_init_def sort_policy_def sort_sources_def lab_sources)
  obtain i' res where r: "resolve_conflict [7] [1] ''operator-declared'' 9 ?i = (i', Success Ok res)"
    using src by (simp add: resolve_conflict_def find_last_def sample_conflict_def Let_def)
  have none: "find_resolution (i_resolutions ?i) [7] = None"
    by (simp add: find_resolution_def Registry_init_def)
  show ?thesis
    using resolve_conflict_settles [of "[7]" "[1]" "''operator-declared''" 9 ?i i' Ok res] r none
    by (auto simp: sample_conflict_def)
qed

end
