(* ===== verification/Eviction.thy ===== *)
theory Eviction
  imports Conflicts
begin

text \<open>
  Eviction under the record budgets, of \<open>src/registry.cpp\<close>: \<open>eviction_priority\<close>, \<open>pick_eviction_candidate\<close>,
  \<open>apply_eviction\<close> and \<open>enforce_budget\<close>.

  The two loops of \<open>enforce_budget\<close> are recursive functions with termination proofs: every turn removes one
  record. The lemmas show that the candidate is the least evictable record, and that removing it never
  changes which evidence is live.
\<close>

definition eviction_priority :: "Impl \<Rightarrow> EvidenceKey \<Rightarrow> Stream \<Rightarrow> StoredEvidence \<Rightarrow> Tick \<Rightarrow> nat" where
  "eviction_priority i key stream r now =
     (let e = s_evidence r in
      if s_lifecycle r = LifecycleRejected then 0
      else if s_lifecycle r = LifecycleRetired then 4
      else if st_max_generation stream \<noteq> 0 \<and> e_generation e < st_max_generation stream then 1
      else if (case find_device i (dr_device (key_device key)) of None \<Rightarrow> True
                 | Some entry \<Rightarrow> ie_current entry \<noteq> dr_incarnation (key_device key)) then 2
      else (case find_source (i_policy i) (key_source key) of None \<Rightarrow> 2
        | Some s \<Rightarrow>
            if sp_trust s = Revoked then 2
            else if sp_trust s = Untrusted \<and> p_refuse_untrusted_sources (i_policy i) then 2
            else if e_boot_at_ingest e > i_boot_epoch i then 2
            else if e_boot_at_ingest e < i_boot_epoch i \<and> \<not> sp_durable_across_boot s
                \<and> p_boot_policy (i_policy i) = ConservativeFence then 2
            else (let bound = effective_max_age (i_policy i) (Some s) 0 in
              if bound \<noteq> 0 \<and> observed_age now (e_observed_at e) > bound then 3
              else if (case e_valid_until e of None \<Rightarrow> False | Some u \<Rightarrow> now > u) then 3
              else 5)))"

record EvictionCandidate =
  ec_key :: EvidenceKey
  ec_id :: EvidenceId
  ec_priority :: nat
  ec_observed_at :: Tick

definition evictable :: "Impl \<Rightarrow> EvidenceKey \<Rightarrow> Stream \<Rightarrow> StoredEvidence \<Rightarrow> Tick \<Rightarrow> bool" where
  "evictable i key stream r now =
     (let priority = eviction_priority i key stream r now in
      if priority = 5
      then (case find (\<lambda>f. stored_id (f_record f) = stored_id r)
                   (dv_facts (derive i (key_device key) (key_kind key) now 0)) of
              None \<Rightarrow> False | Some f \<Rightarrow> f_state f = StateOutranked)
      else priority \<le> 4)"

definition better :: "EvictionCandidate \<Rightarrow> EvictionCandidate option \<Rightarrow> bool" where
  "better c out = (case out of None \<Rightarrow> True
     | Some best \<Rightarrow> ec_priority c < ec_priority best
        \<or> ec_priority c = ec_priority best \<and> ec_observed_at c < ec_observed_at best
        \<or> ec_priority c = ec_priority best \<and> ec_observed_at c = ec_observed_at best \<and> ec_id c < ec_id best)"

definition candidate_of :: "Impl \<Rightarrow> EvidenceKey \<Rightarrow> Stream \<Rightarrow> StoredEvidence \<Rightarrow> Tick \<Rightarrow> EvictionCandidate" where
  "candidate_of i key stream r now = \<lparr>ec_key = key, ec_id = stored_id r,
     ec_priority = eviction_priority i key stream r now, ec_observed_at = e_observed_at (s_evidence r)\<rparr>"

definition pick_eviction_candidate :: "Impl \<Rightarrow> EvidenceKey option \<Rightarrow> EvidenceId option \<Rightarrow> Tick \<Rightarrow> EvictionCandidate option" where
  "pick_eviction_candidate i restrict_key forbidden now =
     fold (\<lambda>(key, stream) out.
       if restrict_key \<noteq> None \<and> restrict_key \<noteq> Some key then out
       else fold (\<lambda>r out.
              if forbidden = Some (stored_id r) then out
              else if \<not> evictable i key stream r now then out
              else if better (candidate_of i key stream r now) out then Some (candidate_of i key stream r now)
              else out) (st_records stream) out) (streams_of (i_world i)) None"

definition eviction_entry :: "EvidenceKey \<Rightarrow> Stream \<Rightarrow> StoredEvidence \<Rightarrow> Tick \<Rightarrow> EvictionEntry" where
  "eviction_entry key stream r now =
     (let state = (if s_lifecycle r = LifecycleRetired then StateRetired
                   else if s_lifecycle r = LifecycleRejected then StateRejected
                   else if e_generation (s_evidence r) < st_max_generation stream then StateSuperseded
                   else StateOutranked)
      in \<lparr>ev_id = stored_id r, ev_key = key, ev_generation = e_generation (s_evidence r), ev_state_at_eviction = state,
          ev_reason = (if state = StateRetired then EvictedRetired
                       else if state = StateSuperseded then EvictedSuperseded else EvictedBudgetPressure),
          ev_evicted_at = now\<rparr>)"

text \<open>
  A full ledger drops its front. (A bound of zero with an empty ledger makes the code erase from an empty
  deque, which has no defined result; the model keeps the empty ledger there.)
\<close>

definition record_eviction :: "EvictionEntry \<Rightarrow> Impl \<Rightarrow> Impl" where
  "record_eviction entry i =
     (let full = length (i_evictions i) \<ge> max_eviction_ledger (p_limits (i_policy i));
          c = (i_counters i)\<lparr>evictions_total := evictions_total (i_counters i) + 1\<rparr>
      in i\<lparr>i_evictions := (if full then tl (i_evictions i) else i_evictions i) @ [entry],
           i_counters := (if full then c\<lparr>eviction_ledger_dropped := eviction_ledger_dropped c + 1\<rparr> else c)\<rparr>)"

definition remove_record :: "EvidenceId \<Rightarrow> Stream \<Rightarrow> Stream" where
  "remove_record rid stream =
     (let records = erase_first (\<lambda>r. stored_id r = rid) (st_records stream)
      in \<lparr>st_records = records, st_max_generation = max_generation_of records\<rparr>)"

definition apply_eviction :: "EvictionCandidate \<Rightarrow> Tick \<Rightarrow> Impl \<Rightarrow> EvidenceId list \<Rightarrow> (Impl \<times> EvidenceId list) option" where
  "apply_eviction c now i out =
     (case find_stream (i_world i) (ec_key c) of None \<Rightarrow> None
      | Some stream \<Rightarrow> (case find (\<lambda>r. stored_id r = ec_id c) (st_records stream) of None \<Rightarrow> None
          | Some r \<Rightarrow>
              let entry = eviction_entry (ec_key c) stream r now;
                  j = record_eviction entry i
              in Some (j\<lparr>i_world := put_stream (ec_key c) (remove_record (ec_id c) stream) (i_world i),
                         i_total_records := i_total_records i - 1\<rparr>, out @ [ev_id entry])))"

section \<open>Candidates\<close>

text \<open>The candidates in the order the loops visit them.\<close>

definition candidates :: "Impl \<Rightarrow> EvidenceKey option \<Rightarrow> EvidenceId option \<Rightarrow> Tick \<Rightarrow> EvictionCandidate list" where
  "candidates i restrict_key forbidden now = concat (map (\<lambda>(key, stream).
     if restrict_key \<noteq> None \<and> restrict_key \<noteq> Some key then []
     else map (\<lambda>r. candidate_of i key stream r now)
       (filter (\<lambda>r. forbidden \<noteq> Some (stored_id r) \<and> evictable i key stream r now) (st_records stream)))
     (streams_of (i_world i)))"

definition keep_better :: "EvictionCandidate \<Rightarrow> EvictionCandidate option \<Rightarrow> EvictionCandidate option" where
  "keep_better c out = (if better c out then Some c else out)"

definition candidate_rank :: "EvictionCandidate \<Rightarrow> nat \<times> Tick \<times> EvidenceId" where
  "candidate_rank c = (ec_priority c, ec_observed_at c, ec_id c)"

lemma better_rank: "better c (Some b) \<longleftrightarrow> candidate_rank c < candidate_rank b"
  by (auto simp: better_def candidate_rank_def)

lemma fold_keep_better_stream:
  "fold (\<lambda>r out. if forbidden = Some (stored_id r) then out else if \<not> evictable i key stream r now then out
      else if better (candidate_of i key stream r now) out then Some (candidate_of i key stream r now) else out) rs out
   = fold keep_better (map (\<lambda>r. candidate_of i key stream r now)
       (filter (\<lambda>r. forbidden \<noteq> Some (stored_id r) \<and> evictable i key stream r now) rs)) out"
  by (induction rs arbitrary: out) (simp_all add: keep_better_def)

lemma pick_candidates: "pick_eviction_candidate i restrict_key forbidden now = fold keep_better (candidates i restrict_key forbidden now) None"
proof -
  have "fold (\<lambda>(key, stream) out.
       if restrict_key \<noteq> None \<and> restrict_key \<noteq> Some key then out
       else fold (\<lambda>r out.
              if forbidden = Some (stored_id r) then out
              else if \<not> evictable i key stream r now then out
              else if better (candidate_of i key stream r now) out then Some (candidate_of i key stream r now)
              else out) (st_records stream) out) ss out
     = fold keep_better (concat (map (\<lambda>(key, stream).
         if restrict_key \<noteq> None \<and> restrict_key \<noteq> Some key then []
         else map (\<lambda>r. candidate_of i key stream r now)
           (filter (\<lambda>r. forbidden \<noteq> Some (stored_id r) \<and> evictable i key stream r now) (st_records stream))) ss)) out" for ss out
    by (induction ss arbitrary: out) (auto simp: fold_keep_better_stream)
  then show ?thesis by (simp add: pick_eviction_candidate_def candidates_def)
qed

lemma fold_keep_better:
  "fold keep_better cs (Some b) = Some c \<Longrightarrow> c \<in> insert b (set cs) \<and> (\<forall>x \<in> insert b (set cs). candidate_rank c \<le> candidate_rank x)"
proof (induction cs arbitrary: b)
  case (Cons x cs)
  have keep: "keep_better x (Some b) = (if candidate_rank x < candidate_rank b then Some x else Some b)"
    by (simp add: keep_better_def better_rank)
  show ?case
  proof (cases "candidate_rank x < candidate_rank b")
    case True
    then have "fold keep_better cs (Some x) = Some c" using Cons.prems keep by simp
    then show ?thesis using Cons.IH [of x] True by force
  next
    case False
    then have "fold keep_better cs (Some b) = Some c" using Cons.prems keep by simp
    then show ?thesis using Cons.IH [of b] False by force
  qed
qed simp

lemma fold_keep_better_Some: "\<exists>c. fold keep_better cs (Some b) = Some c"
  by (induction cs arbitrary: b) (simp_all add: keep_better_def)

lemma fold_keep_better_None: "fold keep_better (c # cs) None = fold keep_better cs (Some c)"
  by (simp add: keep_better_def better_def)

lemma pick_None_iff: "pick_eviction_candidate i restrict_key forbidden now = None \<longleftrightarrow> candidates i restrict_key forbidden now = []"
proof (cases "candidates i restrict_key forbidden now")
  case (Cons c cs)
  then show ?thesis
    unfolding pick_candidates Cons fold_keep_better_None using fold_keep_better_Some [of cs c] by auto
qed (simp add: pick_candidates)

lemma pick_Some_least:
  assumes "pick_eviction_candidate i restrict_key forbidden now = Some c"
  shows "c \<in> set (candidates i restrict_key forbidden now)"
    "x \<in> set (candidates i restrict_key forbidden now) \<Longrightarrow> candidate_rank c \<le> candidate_rank x"
proof -
  obtain b cs where cs: "candidates i restrict_key forbidden now = b # cs"
    using assms pick_None_iff [of i restrict_key forbidden now] by (cases "candidates i restrict_key forbidden now") auto
  then have "fold keep_better cs (Some b) = Some c"
    using assms by (simp only: pick_candidates cs fold_keep_better_None)
  from fold_keep_better [OF this] show "c \<in> set (candidates i restrict_key forbidden now)"
    "x \<in> set (candidates i restrict_key forbidden now) \<Longrightarrow> candidate_rank c \<le> candidate_rank x"
    by (auto simp: cs)
qed

lemma candidates_set:
  "c \<in> set (candidates i restrict_key forbidden now) \<longleftrightarrow> (\<exists>key stream r. (key, stream) \<in> set (streams_of (i_world i))
     \<and> (restrict_key = None \<or> restrict_key = Some key) \<and> r \<in> set (st_records stream)
     \<and> forbidden \<noteq> Some (stored_id r) \<and> evictable i key stream r now \<and> c = candidate_of i key stream r now)"
  by (fastforce simp: candidates_def split: if_splits)

lemma candidate_of_simps [simp]:
  "ec_key (candidate_of i key stream r now) = key" "ec_id (candidate_of i key stream r now) = stored_id r"
  "ec_priority (candidate_of i key stream r now) = eviction_priority i key stream r now"
  by (simp_all add: candidate_of_def)

lemma pick_restricted: "pick_eviction_candidate i (Some key) forbidden now = Some c \<Longrightarrow> ec_key c = key"
  using pick_Some_least(1) candidates_set by fastforce

section \<open>The loops\<close>

lemma erase_first_length: "\<exists>x \<in> set xs. P x \<Longrightarrow> Suc (length (erase_first P xs)) = length xs"
proof (induction xs)
  case (Cons x xs)
  then show ?case by (cases "P x") simp_all
qed simp

lemma erase_first_shorter: "find P xs = Some r \<Longrightarrow> length (erase_first P xs) < length xs"
  by (induction xs) (auto split: if_splits)

lemma record_eviction_frame [simp]:
  "i_world (record_eviction e i) = i_world i" "i_policy (record_eviction e i) = i_policy i"
  "i_total_records (record_eviction e i) = i_total_records i" "i_incarnations (record_eviction e i) = i_incarnations i"
  "i_boot_epoch (record_eviction e i) = i_boot_epoch i" "i_conflicts (record_eviction e i) = i_conflicts i"
  "i_resolutions (record_eviction e i) = i_resolutions i" "i_epoch (record_eviction e i) = i_epoch i"
  "i_rule_generation (record_eviction e i) = i_rule_generation i" "i_policy_revision (record_eviction e i) = i_policy_revision i"
  "i_store_generation (record_eviction e i) = i_store_generation i" "i_logical_tick (record_eviction e i) = i_logical_tick i"
  "i_next_incarnation (record_eviction e i) = i_next_incarnation i" "i_decisions (record_eviction e i) = i_decisions i"
  "i_decision_order (record_eviction e i) = i_decision_order i"
  by (simp_all add: record_eviction_def Let_def)

lemma apply_eviction_Some:
  "apply_eviction c now i out = Some (i', out') \<longleftrightarrow> (\<exists>stream r. find_stream (i_world i) (ec_key c) = Some stream
     \<and> find (\<lambda>r. stored_id r = ec_id c) (st_records stream) = Some r
     \<and> i' = (record_eviction (eviction_entry (ec_key c) stream r now) i)
         \<lparr>i_world := put_stream (ec_key c) (remove_record (ec_id c) stream) (i_world i), i_total_records := i_total_records i - 1\<rparr>
     \<and> out' = out @ [stored_id r])"
proof (cases "find_stream (i_world i) (ec_key c)")
  case (Some stream)
  have id: "ev_id (eviction_entry k s r t) = stored_id r" for k s r t by (simp add: eviction_entry_def Let_def)
  show ?thesis
  proof (cases "find (\<lambda>r. stored_id r = ec_id c) (st_records stream)")
    case None
    then show ?thesis using Some by (simp add: apply_eviction_def)
  next
    case (Some r)
    then show ?thesis using \<open>find_stream (i_world i) (ec_key c) = Some stream\<close>
      by (simp add: apply_eviction_def Let_def id) blast
  qed
qed (simp add: apply_eviction_def)

lemma apply_eviction_frame:
  assumes "apply_eviction c now i out = Some (i', out')"
  shows "i_policy i' = i_policy i" "i_incarnations i' = i_incarnations i" "i_boot_epoch i' = i_boot_epoch i"
    "i_total_records i' = i_total_records i - 1"
  using assms by (auto simp: apply_eviction_Some)

function evict_global :: "EvidenceId \<Rightarrow> Tick \<Rightarrow> Impl \<Rightarrow> EvidenceId list \<Rightarrow> bool \<times> Impl \<times> EvidenceId list" where
  "evict_global keep_id now i evicted =
     (if i_total_records i > max_records (p_limits (i_policy i))
      then (case pick_eviction_candidate i None (Some keep_id) now of None \<Rightarrow> (False, i, evicted)
            | Some c \<Rightarrow> (case apply_eviction c now i evicted of None \<Rightarrow> (False, i, evicted)
                | Some (i', evicted') \<Rightarrow> evict_global keep_id now i' evicted'))
      else (True, i, evicted))"
  by pat_completeness auto

termination
  by (relation "measure (\<lambda>(keep_id, now, i, evicted). i_total_records i)") (auto dest: apply_eviction_frame(4))

definition stream_length :: "World \<Rightarrow> EvidenceKey \<Rightarrow> nat" where
  "stream_length w key = (case find_stream w key of None \<Rightarrow> 0 | Some s \<Rightarrow> length (st_records s))"

lemma apply_eviction_length:
  "apply_eviction c now i out = Some (i', out') \<Longrightarrow> stream_length (i_world i') (ec_key c) < stream_length (i_world i) (ec_key c)"
  by (auto simp: apply_eviction_Some stream_length_def remove_record_def Let_def erase_first_shorter)

function evict_stream :: "EvidenceKey \<Rightarrow> EvidenceId \<Rightarrow> Tick \<Rightarrow> Impl \<Rightarrow> EvidenceId list \<Rightarrow> bool \<times> Impl \<times> EvidenceId list" where
  "evict_stream keep_key keep_id now i evicted =
     (case find_stream (i_world i) keep_key of None \<Rightarrow> (True, i, evicted)
      | Some stream \<Rightarrow>
          if length (st_records stream) \<le> max_records_per_stream (p_limits (i_policy i)) then (True, i, evicted)
          else (case pick_eviction_candidate i (Some keep_key) (Some keep_id) now of None \<Rightarrow> (False, i, evicted)
                | Some c \<Rightarrow> (case apply_eviction c now i evicted of None \<Rightarrow> (False, i, evicted)
                    | Some (i', evicted') \<Rightarrow> evict_stream keep_key keep_id now i' evicted')))"
  by pat_completeness auto

termination
  by (relation "measure (\<lambda>(keep_key, keep_id, now, i, evicted). stream_length (i_world i) keep_key)")
    (auto dest!: apply_eviction_length pick_restricted)

declare evict_global.simps [simp del] evict_stream.simps [simp del]

definition enforce_budget :: "EvidenceKey \<Rightarrow> EvidenceId \<Rightarrow> Tick \<Rightarrow> Impl \<Rightarrow> bool \<times> Impl \<times> EvidenceId list" where
  "enforce_budget keep_key keep_id now i =
     (case evict_global keep_id now i [] of (ok, i', evicted) \<Rightarrow>
        if ok then evict_stream keep_key keep_id now i' evicted else (False, i', evicted))"

section \<open>The invariant of streams\<close>

lemma max_generation_fold:
  "h \<le> fold (\<lambda>r highest. if e_generation (s_evidence r) > highest then e_generation (s_evidence r) else highest) rs h
   \<and> (\<forall>r \<in> set rs. e_generation (s_evidence r)
        \<le> fold (\<lambda>r highest. if e_generation (s_evidence r) > highest then e_generation (s_evidence r) else highest) rs h)
   \<and> (fold (\<lambda>r highest. if e_generation (s_evidence r) > highest then e_generation (s_evidence r) else highest) rs h = h
      \<or> (\<exists>r \<in> set rs. e_generation (s_evidence r)
          = fold (\<lambda>r highest. if e_generation (s_evidence r) > highest then e_generation (s_evidence r) else highest) rs h))"
proof (induction rs arbitrary: h)
  case (Cons r rs)
  show ?case
    using Cons.IH [of "if e_generation (s_evidence r) > h then e_generation (s_evidence r) else h"]
    by (cases "e_generation (s_evidence r) > h") (auto intro: order_trans)
qed simp

lemma max_generation_bounds:
  "r \<in> set rs \<Longrightarrow> e_generation (s_evidence r) \<le> max_generation_of rs"
  "max_generation_of rs = 0 \<or> (\<exists>r \<in> set rs. e_generation (s_evidence r) = max_generation_of rs)"
  using max_generation_fold [of 0 rs] unfolding max_generation_of_def by blast+

lemma max_generation_mono: "set rs \<subseteq> set rs' \<Longrightarrow> max_generation_of rs \<le> max_generation_of rs'"
  using max_generation_bounds(2) [of rs] max_generation_bounds(1) [of _ rs'] by (metis subsetD word_zero_le)

definition record_rank :: "StoredEvidence \<Rightarrow> RecordGeneration \<times> EvidenceId" where
  "record_rank r = (e_generation (s_evidence r), stored_id r)"

definition admitted_in :: "StoredEvidence list \<Rightarrow> RecordGeneration \<Rightarrow> bool" where
  "admitted_in rs g \<longleftrightarrow> (\<exists>r \<in> set rs. s_lifecycle r = LifecycleAdmitted \<and> e_generation (s_evidence r) = g)"

text \<open>
  What every stream of a registry satisfies: its records carry its key and a generation, are ordered as
  \<open>generation_less\<close> orders them with distinct ids, \<open>max_generation\<close> is the greatest of their generations,
  and if any record is admitted then one of the greatest generation is.
\<close>

definition stream_ok :: "EvidenceKey \<Rightarrow> Stream \<Rightarrow> bool" where
  "stream_ok key s \<longleftrightarrow>
     (\<forall>r \<in> set (st_records s). e_key (s_evidence r) = key \<and> e_generation (s_evidence r) \<noteq> 0)
   \<and> sorted (map record_rank (st_records s)) \<and> distinct (map stored_id (st_records s))
   \<and> st_max_generation s = max_generation_of (st_records s)
   \<and> ((\<exists>g. admitted_in (st_records s) g) \<longrightarrow> admitted_in (st_records s) (st_max_generation s))"

definition world_inv :: "World \<Rightarrow> bool" where
  "world_inv w \<longleftrightarrow> world_wf w \<and> (\<forall>key s. find_stream w key = Some s \<longrightarrow> stream_ok key s)
     \<and> (\<forall>key t. find_tombstone w key = Some t \<longrightarrow> rr_key t = key \<and> rr_generation t \<noteq> 0)"

lemma world_inv_put_stream: "world_inv w \<Longrightarrow> stream_ok key s \<Longrightarrow> world_inv (put_stream key s w)"
  by (auto simp: world_inv_def)

lemma generation_less_rank: "generation_less a b \<longleftrightarrow> record_rank a < record_rank b"
  by (auto simp: generation_less_def record_rank_def)

lemma erase_first_id:
  assumes "distinct (map stored_id rs)" "r \<in> set rs"
  shows "erase_first (\<lambda>x. stored_id x = stored_id r) rs = filter (\<lambda>x. x \<noteq> r) rs"
    and "find (\<lambda>x. stored_id x = stored_id r) rs = Some r"
proof -
  show "find (\<lambda>x. stored_id x = stored_id r) rs = Some r" using assms find_key_iff by fastforce
  show "erase_first (\<lambda>x. stored_id x = stored_id r) rs = filter (\<lambda>x. x \<noteq> r) rs"
    using assms
  proof (induction rs)
    case (Cons x rs)
    show ?case
    proof (cases "stored_id x = stored_id r")
      case True
      then have "x = r" using Cons.prems by (metis distinct.simps(2) image_eqI list.set_map list.simps(9) set_ConsD)
      moreover have "r \<notin> set rs" using Cons.prems True by (auto simp: image_iff)
      moreover from this have "filter (\<lambda>x. x \<noteq> r) rs = rs" by (induction rs) auto
      ultimately show ?thesis by simp
    next
      case False
      then show ?thesis using Cons by auto
    qed
  qed simp
qed

section \<open>Priorities are the derived states\<close>

definition state_priority :: "EvidenceState \<Rightarrow> nat" where
  "state_priority s = (case s of StateRejected \<Rightarrow> 0 | StateSuperseded \<Rightarrow> 1 | StateFenced \<Rightarrow> 2 | StateStale \<Rightarrow> 3
     | StateRetired \<Rightarrow> 4 | _ \<Rightarrow> 5)"

lemma eviction_priority_state:
  "eviction_priority i key stream r now =
     state_priority (fst (classify i r stream (find_source (i_policy i) (key_source key)) (key_device key) now 0))"
proof -
  have states: "state_priority StateRejected = 0" "state_priority StateSuperseded = 1" "state_priority StateFenced = 2"
    "state_priority StateStale = 3" "state_priority StateRetired = 4" "state_priority StateActive = 5"
    by (simp_all add: state_priority_def)
  show ?thesis
    by (cases "find_source (i_policy i) (key_source key)")
      (simp_all only: eviction_priority_def classify_def Let_def option.case if_distrib [of fst]
        if_distrib [of state_priority] fst_conv states)
qed

lemma classify_states: "fst (classify i r stream source device now mo) \<noteq> StateOutranked"
  "fst (classify i r stream source device now mo) \<noteq> StateEvicted"
  by (auto simp: classify_def Let_def split: option.splits if_splits)

lemma priority_5_active:
  "eviction_priority i key stream r now = 5 \<longleftrightarrow>
     active_conditions i r stream (find_source (i_policy i) (key_source key)) (key_device key) now 0"
  using classify_states [of i r stream "find_source (i_policy i) (key_source key)" "key_device key" now 0]
  unfolding eviction_priority_state classify_active_iff [symmetric]
  by (cases "fst (classify i r stream (find_source (i_policy i) (key_source key)) (key_device key) now 0)")
    (auto simp: state_priority_def)

lemma priority_superseded:
  "s_lifecycle r = LifecycleAdmitted \<Longrightarrow> e_generation (s_evidence r) < st_max_generation stream \<Longrightarrow>
     eviction_priority i key stream r now = 1"
  by (auto simp: eviction_priority_def Let_def)

lemma priority_low:
  "eviction_priority i key stream r now \<le> 1 \<Longrightarrow> s_lifecycle r = LifecycleRejected
     \<or> s_lifecycle r = LifecycleAdmitted \<and> e_generation (s_evidence r) < st_max_generation stream"
  by (cases "s_lifecycle r") (auto simp: eviction_priority_def Let_def split: if_splits option.splits)

section \<open>One eviction\<close>

definition unique_ids :: "World \<Rightarrow> bool" where
  "unique_ids w \<longleftrightarrow> (\<forall>k1 s1 r1 k2 s2 r2. find_stream w k1 = Some s1 \<and> r1 \<in> set (st_records s1)
     \<and> find_stream w k2 = Some s2 \<and> r2 \<in> set (st_records s2) \<and> stored_id r1 = stored_id r2 \<longrightarrow> k1 = k2 \<and> r1 = r2)"

definition newest :: "World \<Rightarrow> EvidenceId \<Rightarrow> bool" where
  "newest w keep \<longleftrightarrow> (\<forall>key s r. find_stream w key = Some s \<and> r \<in> set (st_records s) \<and> stored_id r = keep
     \<longrightarrow> e_generation (s_evidence r) = st_max_generation s)"

lemma pick_record:
  assumes "world_wf (i_world i)" "pick_eviction_candidate i restrict_key (Some keep) now = Some c"
  obtains s r where "find_stream (i_world i) (ec_key c) = Some s" "r \<in> set (st_records s)" "stored_id r = ec_id c"
    "stored_id r \<noteq> keep" "evictable i (ec_key c) s r now"
    "\<And>r'. r' \<in> set (st_records s) \<Longrightarrow> stored_id r' \<noteq> keep \<Longrightarrow> evictable i (ec_key c) s r' now \<Longrightarrow>
       eviction_priority i (ec_key c) s r now \<le> eviction_priority i (ec_key c) s r' now"
proof -
  obtain key s r where *: "(key, s) \<in> set (streams_of (i_world i))" "restrict_key = None \<or> restrict_key = Some key"
    "r \<in> set (st_records s)" "keep \<noteq> stored_id r" "evictable i key s r now" "c = candidate_of i key s r now"
    using pick_Some_least(1) [OF assms(2)] unfolding candidates_set by auto
  have "eviction_priority i key s r now \<le> eviction_priority i key s r' now"
    if "r' \<in> set (st_records s)" "stored_id r' \<noteq> keep" "evictable i key s r' now" for r'
  proof -
    have "candidate_of i key s r' now \<in> set (candidates i restrict_key (Some keep) now)"
      unfolding candidates_set using * that by blast
    from pick_Some_least(2) [OF assms(2) this] show ?thesis by (auto simp: candidate_rank_def *(6))
  qed
  then show ?thesis using that [of s r] * assms(1) by (auto simp: streams.view_mem)
qed

lemma removal_keeps_newest:
  assumes ok: "stream_ok key s" and r: "r \<in> set (st_records s)"
    and least: "\<And>r'. r' \<in> set (st_records s) \<Longrightarrow> stored_id r' \<noteq> keep \<Longrightarrow> evictable i key s r' now \<Longrightarrow>
       eviction_priority i key s r now \<le> eviction_priority i key s r' now"
    and keep: "\<And>r'. r' \<in> set (st_records s) \<Longrightarrow> stored_id r' = keep \<Longrightarrow> e_generation (s_evidence r') = st_max_generation s"
    and r': "r' \<in> set (st_records s)" "r' \<noteq> r" "s_lifecycle r' = LifecycleAdmitted"
  shows "\<exists>r'' \<in> set (st_records s). r'' \<noteq> r \<and> s_lifecycle r'' = LifecycleAdmitted \<and> e_generation (s_evidence r'') = st_max_generation s"
proof (cases "e_generation (s_evidence r') = st_max_generation s")
  case True
  then show ?thesis using r' by blast
next
  case False
  have le: "e_generation (s_evidence r') \<le> st_max_generation s"
    using ok max_generation_bounds(1) [OF r'(1)] by (simp add: stream_ok_def)
  then have lt: "e_generation (s_evidence r') < st_max_generation s" using False by simp
  then have "stored_id r' \<noteq> keep" using keep [OF r'(1)] by auto
  moreover have "evictable i key s r' now" "eviction_priority i key s r' now = 1"
    using priority_superseded [OF r'(3) lt] by (simp_all add: evictable_def)
  ultimately have "eviction_priority i key s r now \<le> 1" using least [OF r'(1)] by simp
  then have not: "\<not> (s_lifecycle r = LifecycleAdmitted \<and> e_generation (s_evidence r) = st_max_generation s)"
    using priority_low by fastforce
  have "admitted_in (st_records s) (e_generation (s_evidence r'))" using r' unfolding admitted_in_def by blast
  then have "admitted_in (st_records s) (st_max_generation s)" using ok unfolding stream_ok_def by blast
  then show ?thesis using not unfolding admitted_in_def by metis
qed

lemma remove_record_eq:
  assumes "stream_ok key s" "r \<in> set (st_records s)"
  shows "remove_record (stored_id r) s = \<lparr>st_records = filter (\<lambda>x. x \<noteq> r) (st_records s),
    st_max_generation = max_generation_of (filter (\<lambda>x. x \<noteq> r) (st_records s))\<rparr>"
  using assms erase_first_id(1) [of "st_records s" r] by (simp add: remove_record_def stream_ok_def Let_def)

lemma removal_max:
  assumes ok: "stream_ok key s"
    and nw: "\<exists>r'' \<in> set (st_records s). r'' \<noteq> r \<and> s_lifecycle r'' = LifecycleAdmitted \<and> e_generation (s_evidence r'') = st_max_generation s"
  shows "max_generation_of (filter (\<lambda>x. x \<noteq> r) (st_records s)) = st_max_generation s"
proof (rule order_antisym)
  show "max_generation_of (filter (\<lambda>x. x \<noteq> r) (st_records s)) \<le> st_max_generation s"
    using ok max_generation_mono [of "filter (\<lambda>x. x \<noteq> r) (st_records s)" "st_records s"] by (simp add: stream_ok_def)
  show "st_max_generation s \<le> max_generation_of (filter (\<lambda>x. x \<noteq> r) (st_records s))"
    using nw max_generation_bounds(1) [of _ "filter (\<lambda>x. x \<noteq> r) (st_records s)"] by fastforce
qed

lemma removal_stream_ok:
  assumes ok: "stream_ok key s" and r: "r \<in> set (st_records s)"
    and nw: "\<And>r'. r' \<in> set (st_records s) \<Longrightarrow> r' \<noteq> r \<Longrightarrow> s_lifecycle r' = LifecycleAdmitted \<Longrightarrow>
      \<exists>r'' \<in> set (st_records s). r'' \<noteq> r \<and> s_lifecycle r'' = LifecycleAdmitted \<and> e_generation (s_evidence r'') = st_max_generation s"
  shows "stream_ok key (remove_record (stored_id r) s)"
proof -
  let ?rs = "filter (\<lambda>x. x \<noteq> r) (st_records s)"
  have "admitted_in ?rs (max_generation_of ?rs)" if "admitted_in ?rs g" for g
  proof -
    from that nw obtain r'' where r'': "r'' \<in> set (st_records s)" "r'' \<noteq> r" "s_lifecycle r'' = LifecycleAdmitted"
      "e_generation (s_evidence r'') = st_max_generation s" unfolding admitted_in_def by force
    then have "max_generation_of ?rs = st_max_generation s" by (intro removal_max [OF ok]) blast
    then show ?thesis using r'' unfolding admitted_in_def by auto
  qed
  moreover have "sorted (map record_rank ?rs)" "distinct (map stored_id ?rs)"
    using ok by (simp_all add: stream_ok_def sorted_filter distinct_map_filter)
  ultimately show ?thesis
    using ok by (auto simp: remove_record_eq [OF ok r] stream_ok_def)
qed

lemma active_in_stream:
  assumes "world_wf (i_world i)"
  shows "active_in i d k now mo r \<longleftrightarrow> (\<exists>sid s. find_stream (i_world i) (EvidenceKey d k sid) = Some s
    \<and> r \<in> set (st_records s) \<and> active_conditions i r s (find_source (i_policy i) sid) d now mo)"
proof -
  have "(sid, s) \<in> set (g_streams g) \<longleftrightarrow> map_of (g_streams g) sid = Some s" if "find_group (i_world i) d k = Some g" for g sid s
    using find_group_wf [OF assms that] by (simp add: group_wf_def om_wf_map_of_iff)
  note mem = this
  show ?thesis
  proof (cases "find_group (i_world i) d k")
    case (Some g)
    then show ?thesis by (simp add: active_in_def find_stream_def mem)
  qed (simp add: active_in_def find_stream_def)
qed

lemma outranked_not_live:
  assumes "f \<in> set (dv_facts (derive i d k now mo))" "f_state f = StateOutranked"
  shows "f_record f \<notin> set (dv_live (derive i d k now mo))"
proof (cases "find_group (i_world i) d k")
  case None
  then show ?thesis by (simp add: empty_derivation_def)
next
  case (Some g)
  let ?raw = "raw_facts i d g now mo"
  from assms(1) obtain f0 where f0: "f0 \<in> set ?raw" "f = outrank (highest_authority ?raw) f0"
    using Some by (auto simp: derive_def Let_def)
  have "f_state f0 \<noteq> StateOutranked" using f0(1) classify_states by (auto simp: raw_facts_set)
  then have "fact_authority f0 < highest_authority ?raw" using assms(2) f0(2) by simp
  then have "e_authority (s_evidence (f_record f)) \<noteq> highest_authority ?raw"
    using f0(2) by (auto simp: fact_authority_def)
  then show ?thesis using live_set [OF Some] by simp
qed

lemma facts_records:
  assumes "world_wf (i_world i)" "f \<in> set (dv_facts (derive i d k now mo))"
  shows "\<exists>sid s. find_stream (i_world i) (EvidenceKey d k sid) = Some s \<and> f_record f \<in> set (st_records s)"
proof (cases "find_group (i_world i) d k")
  case None
  then show ?thesis using assms by (simp add: empty_derivation_def)
next
  case (Some g)
  then obtain sid s where "(sid, s) \<in> set (g_streams g)" "f_record f \<in> set (st_records s)"
    using assms(2) by (auto simp: derive_def Let_def raw_facts_set)
  then show ?thesis using Some find_group_wf [OF assms(1) Some]
    by (auto simp: find_stream_def group_wf_def om_wf_map_of_iff)
qed

lemma evictable_not_live:
  assumes "world_wf (i_world i)" "unique_ids (i_world i)" "find_stream (i_world i) key = Some s" "r \<in> set (st_records s)"
    "evictable i key s r now"
  shows "r \<notin> set (dv_live (derive i (key_device key) (key_kind key) now 0))"
proof (cases "eviction_priority i key s r now = 5")
  case True
  then obtain f where f: "find (\<lambda>f. stored_id (f_record f) = stored_id r)
      (dv_facts (derive i (key_device key) (key_kind key) now 0)) = Some f" "f_state f = StateOutranked"
    using assms(5) by (auto simp: evictable_def split: option.splits)
  then have mem: "f \<in> set (dv_facts (derive i (key_device key) (key_kind key) now 0))" "stored_id (f_record f) = stored_id r"
    using find_Some_iff [OF f(1)] by auto
  then have "f_record f = r"
    using facts_records [OF assms(1) mem(1)] assms(2,3,4) unfolding unique_ids_def by blast
  then show ?thesis using outranked_not_live [OF mem(1) f(2)] by simp
next
  case False
  have "\<not> active_in i (key_device key) (key_kind key) now 0 r"
  proof
    assume "active_in i (key_device key) (key_kind key) now 0 r"
    then obtain sid s' where *: "find_stream (i_world i) (EvidenceKey (key_device key) (key_kind key) sid) = Some s'"
      "r \<in> set (st_records s')" "active_conditions i r s' (find_source (i_policy i) sid) (key_device key) now 0"
      unfolding active_in_stream [OF assms(1)] by blast
    then have "EvidenceKey (key_device key) (key_kind key) sid = key"
      using assms(2,3,4) unfolding unique_ids_def by metis
    then show False using * False assms(3) by (cases key) (simp add: priority_5_active)
  qed
  then show ?thesis by (simp add: live_iff)
qed

text \<open>A derivation whose active records are those of another but one that is not live has the same live records.\<close>

lemma live_without:
  assumes "\<And>x. active_in j d k now mo x \<longleftrightarrow> active_in i d k now mo x \<and> x \<noteq> r"
    and "r \<notin> set (dv_live (derive i d k now mo))"
  shows "set (dv_live (derive j d k now mo)) = set (dv_live (derive i d k now mo))"
proof (cases "active_in i d k now mo r")
  case True
  then obtain r0 where "active_in i d k now mo r0" "e_authority (s_evidence r) < e_authority (s_evidence r0)"
    using assms(2) unfolding live_iff by auto
  then show ?thesis using assms(1) by (intro set_eqI) (unfold live_iff, metis leD less_le_trans order_less_le)
next
  case False
  then show ?thesis using assms(1) by (intro set_eqI) (unfold live_iff, metis)
qed

definition same_live :: "Tick \<Rightarrow> Impl \<Rightarrow> Impl \<Rightarrow> bool" where
  "same_live now i j \<longleftrightarrow> (\<forall>d k. set (dv_live (derive j d k now 0)) = set (dv_live (derive i d k now 0))
     \<and> dv_disagrees (derive j d k now 0) = dv_disagrees (derive i d k now 0))"

lemma dv_disagrees_live: "dv_disagrees (derive i d k now mo) = disagrees (dv_live (derive i d k now mo))"
  by (simp add: derive_def Let_def empty_derivation_def disagrees_def split: option.splits)

lemma same_liveI: "(\<And>d k. set (dv_live (derive j d k now 0)) = set (dv_live (derive i d k now 0))) \<Longrightarrow> same_live now i j"
  by (simp add: same_live_def dv_disagrees_live disagrees_iff)

lemma active_conditions_cong:
  "i_policy i = i_policy j \<Longrightarrow> i_incarnations i = i_incarnations j \<Longrightarrow> i_boot_epoch i = i_boot_epoch j \<Longrightarrow>
   (st_max_generation s \<le> e_generation (s_evidence r) \<longleftrightarrow> st_max_generation s' \<le> e_generation (s_evidence r)) \<or> s_lifecycle r \<noteq> LifecycleAdmitted \<Longrightarrow>
   active_conditions i r s source d now mo \<longleftrightarrow> active_conditions j r s' source d now mo"
  by (auto simp: active_conditions_def device_current_def find_device_def boot_admissible_def fresh_def)

text \<open>The state the budget loops work on.\<close>

definition budget_inv :: "EvidenceId \<Rightarrow> Impl \<Rightarrow> bool" where
  "budget_inv keep i \<longleftrightarrow> world_inv (i_world i) \<and> unique_ids (i_world i) \<and> newest (i_world i) keep
     \<and> i_total_records i = record_count (i_world i)"

text \<open>One turn: the record \<open>r\<close> of the stream at \<open>key\<close> is removed.\<close>

definition removes :: "EvidenceKey \<Rightarrow> StoredEvidence \<Rightarrow> Impl \<Rightarrow> Impl \<Rightarrow> bool" where
  "removes key r i i' \<longleftrightarrow> (\<exists>s. find_stream (i_world i) key = Some s \<and> r \<in> set (st_records s)
     \<and> find_stream (i_world i') = (find_stream (i_world i))(key \<mapsto> remove_record (stored_id r) s))"

lemma eviction_turn:
  assumes inv: "budget_inv keep i" and pick: "pick_eviction_candidate i restrict_key (Some keep) now = Some c"
    and ap: "apply_eviction c now i out = Some (i', out')"
  obtains r s where "find_stream (i_world i) (ec_key c) = Some s" "r \<in> set (st_records s)" "stored_id r \<noteq> keep"
    "evictable i (ec_key c) s r now" "out' = out @ [stored_id r]" "stream_ok (ec_key c) (remove_record (stored_id r) s)"
    "i_world i' = put_stream (ec_key c) (remove_record (stored_id r) s) (i_world i)"
    "\<And>r'. r' \<in> set (st_records s) \<Longrightarrow> r' \<noteq> r \<Longrightarrow> s_lifecycle r' = LifecycleAdmitted \<Longrightarrow>
       st_max_generation (remove_record (stored_id r) s) = st_max_generation s"
proof -
  have w: "world_wf (i_world i)" using inv by (simp add: budget_inv_def world_inv_def)
  obtain s r where *: "find_stream (i_world i) (ec_key c) = Some s" "r \<in> set (st_records s)" "stored_id r = ec_id c"
    "stored_id r \<noteq> keep" "evictable i (ec_key c) s r now"
    and least: "\<And>r'. r' \<in> set (st_records s) \<Longrightarrow> stored_id r' \<noteq> keep \<Longrightarrow> evictable i (ec_key c) s r' now \<Longrightarrow>
       eviction_priority i (ec_key c) s r now \<le> eviction_priority i (ec_key c) s r' now"
    using pick_record [OF w pick] by metis
  have ok: "stream_ok (ec_key c) s" using inv *(1) by (simp add: budget_inv_def world_inv_def)
  have keep: "\<And>r'. r' \<in> set (st_records s) \<Longrightarrow> stored_id r' = keep \<Longrightarrow> e_generation (s_evidence r') = st_max_generation s"
    using inv *(1) unfolding budget_inv_def newest_def by blast
  have nw: "\<exists>r'' \<in> set (st_records s). r'' \<noteq> r \<and> s_lifecycle r'' = LifecycleAdmitted
      \<and> e_generation (s_evidence r'') = st_max_generation s"
    if "r' \<in> set (st_records s)" "r' \<noteq> r" "s_lifecycle r' = LifecycleAdmitted" for r'
    using ok *(2) least keep that by (rule removal_keeps_newest)
  have "find (\<lambda>r. stored_id r = ec_id c) (st_records s) = Some r"
    using erase_first_id(2) [of "st_records s" r] ok *(2,3) by (simp add: stream_ok_def)
  then have "i_world i' = put_stream (ec_key c) (remove_record (stored_id r) s) (i_world i)" "out' = out @ [stored_id r]"
    using ap *(1,3) by (auto simp: apply_eviction_Some)
  moreover have "stream_ok (ec_key c) (remove_record (stored_id r) s)"
    using nw by (rule removal_stream_ok [OF ok *(2)])
  moreover have "st_max_generation (remove_record (stored_id r) s) = st_max_generation s"
    if "r' \<in> set (st_records s)" "r' \<noteq> r" "s_lifecycle r' = LifecycleAdmitted" for r'
    using removal_max [OF ok nw [OF that]] by (simp add: remove_record_eq [OF ok *(2)])
  ultimately show ?thesis using that * by blast
qed

lemma eviction_turn_live:
  assumes inv: "budget_inv keep i" and pick: "pick_eviction_candidate i restrict_key (Some keep) now = Some c"
    and ap: "apply_eviction c now i out = Some (i', out')"
  shows "same_live now i i'"
proof (rule same_liveI)
  fix d k
  obtain r s where s: "find_stream (i_world i) (ec_key c) = Some s" "r \<in> set (st_records s)" "evictable i (ec_key c) s r now"
    and w': "i_world i' = put_stream (ec_key c) (remove_record (stored_id r) s) (i_world i)"
    and mx: "\<And>r'. r' \<in> set (st_records s) \<Longrightarrow> r' \<noteq> r \<Longrightarrow> s_lifecycle r' = LifecycleAdmitted \<Longrightarrow>
       st_max_generation (remove_record (stored_id r) s) = st_max_generation s"
    using eviction_turn [OF assms] by metis
  note frame = apply_eviction_frame [OF ap]
  have w: "world_wf (i_world i)" and u: "unique_ids (i_world i)" and ok: "stream_ok (ec_key c) s"
    using inv s(1) by (simp_all add: budget_inv_def world_inv_def)
  have recs: "set (st_records (remove_record (stored_id r) s)) = set (st_records s) - {r}"
    by (auto simp: remove_record_eq [OF ok s(2)])
  have only: "x = r \<Longrightarrow> find_stream (i_world i) key = Some s' \<Longrightarrow> x \<in> set (st_records s') \<Longrightarrow> key = ec_key c" for x key s'
    using u s(1,2) unfolding unique_ids_def by blast
  have w2: "world_wf (i_world i')" by (simp add: w' w)
  have here: "active_conditions i' x (remove_record (stored_id r) s) source d now 0 = active_conditions i x s source d now 0"
    if "x \<in> set (st_records s)" "x \<noteq> r" for x source
    using mx [OF that] frame by (intro active_conditions_cong) auto
  have there: "active_conditions i' x s' source d now 0 = active_conditions i x s' source d now 0" for x s' source
    using frame by (intro active_conditions_cong) auto
  have act: "active_in i' d k now 0 x \<longleftrightarrow> active_in i d k now 0 x \<and> x \<noteq> r" for x
  proof
    assume "active_in i' d k now 0 x"
    then obtain sid s' where a: "find_stream (i_world i') (EvidenceKey d k sid) = Some s'" "x \<in> set (st_records s')"
      "active_conditions i' x s' (find_source (i_policy i) sid) d now 0"
      unfolding active_in_stream [OF w2] frame(1) by blast
    show "active_in i d k now 0 x \<and> x \<noteq> r"
    proof (cases "EvidenceKey d k sid = ec_key c")
      case True
      then have "s' = remove_record (stored_id r) s" using a(1) by (simp add: w')
      then show ?thesis using a(2,3) True s(1) recs here [of x] by (auto simp: active_in_stream [OF w])
    next
      case False
      then have "find_stream (i_world i) (EvidenceKey d k sid) = Some s'" using a(1) by (simp add: w')
      then show ?thesis using a(2,3) False only there by (auto simp: active_in_stream [OF w])
    qed
  next
    assume "active_in i d k now 0 x \<and> x \<noteq> r"
    then obtain sid s' where a: "find_stream (i_world i) (EvidenceKey d k sid) = Some s'" "x \<in> set (st_records s')"
      "active_conditions i x s' (find_source (i_policy i) sid) d now 0" "x \<noteq> r"
      unfolding active_in_stream [OF w] by blast
    show "active_in i' d k now 0 x"
    proof (cases "EvidenceKey d k sid = ec_key c")
      case True
      then have "s' = s" using a(1) s(1) by simp
      then show ?thesis using a True recs here [of x] frame(1) by (auto simp: active_in_stream [OF w2] w')
    next
      case False
      then show ?thesis using a there frame(1) by (auto simp: active_in_stream [OF w2] w')
    qed
  qed
  show "set (dv_live (derive i' d k now 0)) = set (dv_live (derive i d k now 0))"
  proof (cases "(d, k) = (key_device (ec_key c), key_kind (ec_key c))")
    case True
    then show ?thesis using live_without [OF act] evictable_not_live [OF w u s] by simp
  next
    case False
    then have "\<not> active_in i d k now 0 r" using only [of r] by (auto simp: active_in_stream [OF w])
    then show ?thesis using live_without [OF act] live_iff by blast
  qed
qed

text \<open>With unambiguous ids, the evictable records are exactly those that are not live.\<close>

lemma evictable_iff_not_live:
  assumes w: "world_wf (i_world i)" and u: "unique_ids (i_world i)"
    and s: "find_stream (i_world i) key = Some s" "r \<in> set (st_records s)"
  shows "evictable i key s r now \<longleftrightarrow> r \<notin> set (dv_live (derive i (key_device key) (key_kind key) now 0))"
proof
  assume "evictable i key s r now"
  then show "r \<notin> set (dv_live (derive i (key_device key) (key_kind key) now 0))" by (rule evictable_not_live [OF w u s])
next
  assume dead: "r \<notin> set (dv_live (derive i (key_device key) (key_kind key) now 0))"
  show "evictable i key s r now"
  proof (cases "eviction_priority i key s r now = 5")
    case False
    have "state_priority st \<le> 5" for st by (cases st) (simp_all add: state_priority_def)
    then have "eviction_priority i key s r now \<le> 5" unfolding eviction_priority_state .
    then show ?thesis using False by (simp add: evictable_def Let_def)
  next
    case True
    obtain g where g: "find_group (i_world i) (key_device key) (key_kind key) = Some g" "map_of (g_streams g) (key_source key) = Some s"
      using s(1) by (auto simp: find_stream_def split: option.splits)
    let ?d = "derive i (key_device key) (key_kind key) now 0" and ?raw = "raw_facts i (key_device key) g now 0"
    have act: "active_conditions i r s (find_source (i_policy i) (key_source key)) (key_device key) now 0"
      using True priority_5_active by blast
    have ai: "active_in i (key_device key) (key_kind key) now 0 r"
      unfolding active_in_stream [OF w] using s act by (intro exI [of _ "key_source key"] exI [of _ s]) (cases key, simp)
    then have lt: "e_authority (s_evidence r) < highest_authority ?raw"
      using dead live_set [OF g(1)] highest_authority_active(1) [OF g(1) ai] by auto
    have state: "f_state f = StateOutranked" if f: "f \<in> set (dv_facts ?d)" "stored_id (f_record f) = stored_id r" for f
    proof -
      obtain f0 where f0: "f0 \<in> set ?raw" "f = outrank (highest_authority ?raw) f0"
        using f(1) g(1) by (auto simp: derive_def Let_def)
      then obtain sid s' r' where r': "(sid, s') \<in> set (g_streams g)" "r' \<in> set (st_records s')" "f_record f0 = r'"
        "f_state f0 = fst (classify i r' s' (find_source (i_policy i) sid) (key_device key) now 0)"
        unfolding raw_facts_set by auto
      have fs: "find_stream (i_world i) (EvidenceKey (key_device key) (key_kind key) sid) = Some s'"
        using r'(1) g(1) find_group_wf [OF w g(1)] by (simp add: find_stream_def group_wf_def om_wf_map_of_iff)
      have "stored_id r' = stored_id r" using f(2) f0(2) r'(3) by simp
      then have "EvidenceKey (key_device key) (key_kind key) sid = key" "r' = r"
        using u fs r'(2) s unfolding unique_ids_def by blast+
      moreover from this have "sid = key_source key" by (metis EvidenceKey.sel(3))
      ultimately have "f_state f0 = StateActive" "f_record f0 = r"
        using r'(3,4) act fs s(1) by (auto simp: classify_active_iff)
      then show ?thesis using lt f0(2) by (simp add: fact_authority_def)
    qed
    obtain f0 where "f0 \<in> set ?raw" "f_record f0 = r" using ai raw_active [OF g(1)] by blast
    then have "\<exists>f \<in> set (dv_facts ?d). stored_id (f_record f) = stored_id r"
      using g(1) by (auto simp: derive_def Let_def)
    then obtain f where "find (\<lambda>f. stored_id (f_record f) = stored_id r) (dv_facts ?d) = Some f"
      by (metis (mono_tags, lifting) find_None_iff not_None_eq)
    then show ?thesis using True state find_Some_iff by (fastforce simp: evictable_def)
  qed
qed

section \<open>Sequences of evictions\<close>

inductive evicts :: "EvidenceId \<Rightarrow> Tick \<Rightarrow> Impl \<Rightarrow> EvidenceId list \<Rightarrow> Impl \<Rightarrow> bool" for keep now where
  evicts_nothing: "evicts keep now i [] i"
| evicts_turn: "pick_eviction_candidate i restrict_key (Some keep) now = Some c \<Longrightarrow>
    apply_eviction c now i [] = Some (i1, [x]) \<Longrightarrow> evicts keep now i1 ev i' \<Longrightarrow> evicts keep now i (x # ev) i'"

lemma evicts_append: "evicts keep now i ev j \<Longrightarrow> evicts keep now j ev' k \<Longrightarrow> evicts keep now i (ev @ ev') k"
  by (induction rule: evicts.induct) (auto intro: evicts.intros)

definition record_at :: "World \<Rightarrow> EvidenceKey \<Rightarrow> StoredEvidence \<Rightarrow> bool" where
  "record_at w key r \<longleftrightarrow> (\<exists>s. find_stream w key = Some s \<and> r \<in> set (st_records s))"

lemma apply_eviction_out:
  "apply_eviction c now i out = Some (i', out') \<Longrightarrow> \<exists>x. out' = out @ [x] \<and> apply_eviction c now i [] = Some (i', [x])"
  unfolding apply_eviction_Some by auto

lemma same_live_trans: "same_live now i j \<Longrightarrow> same_live now j k \<Longrightarrow> same_live now i k"
  by (simp add: same_live_def)

lemma turn_budget_inv:
  assumes inv: "budget_inv keep i" and pick: "pick_eviction_candidate i restrict_key (Some keep) now = Some c"
    and ap: "apply_eviction c now i out = Some (i', out')"
  shows "budget_inv keep i'" "find_tombstone (i_world i') = find_tombstone (i_world i)"
    "Suc (record_count (i_world i')) = record_count (i_world i)"
    "\<exists>x. out' = out @ [x] \<and> x \<noteq> keep \<and> (\<forall>key r. record_at (i_world i') key r \<longleftrightarrow> record_at (i_world i) key r \<and> stored_id r \<noteq> x)"
proof -
  obtain r s where s: "find_stream (i_world i) (ec_key c) = Some s" "r \<in> set (st_records s)" "stored_id r \<noteq> keep"
    and out: "out' = out @ [stored_id r]" and ok': "stream_ok (ec_key c) (remove_record (stored_id r) s)"
    and w': "i_world i' = put_stream (ec_key c) (remove_record (stored_id r) s) (i_world i)"
    using eviction_turn [OF assms] by metis
  have w: "world_wf (i_world i)" and u: "unique_ids (i_world i)" and ok: "stream_ok (ec_key c) s" and n: "newest (i_world i) keep"
    using inv s(1) by (simp_all add: budget_inv_def world_inv_def)
  have recs: "set (st_records (remove_record (stored_id r) s)) = set (st_records s) - {r}"
    by (auto simp: remove_record_eq [OF ok s(2)])
  have fs: "find_stream (i_world i') = (find_stream (i_world i))(ec_key c \<mapsto> remove_record (stored_id r) s)"
    by (simp add: w')
  have len: "Suc (length (st_records (remove_record (stored_id r) s))) = length (st_records s)"
    using s(2) by (auto simp: remove_record_def Let_def intro!: erase_first_length)
  show rc: "Suc (record_count (i_world i')) = record_count (i_world i)"
    using record_count_put [OF w, of "ec_key c" "remove_record (stored_id r) s"] len s(1) by (simp add: w')
  show "find_tombstone (i_world i') = find_tombstone (i_world i)" by (simp add: w')
  have "world_inv (i_world i')"
    unfolding w' using inv ok' by (intro world_inv_put_stream) (simp_all add: budget_inv_def)
  moreover have "unique_ids (i_world i')"
    using u s(1) recs unfolding unique_ids_def fs by (auto split: if_splits) blast+
  moreover have "newest (i_world i') keep"
    unfolding newest_def
  proof (intro allI impI, elim conjE)
    fix key s' x assume a: "find_stream (i_world i') key = Some s'" "x \<in> set (st_records s')" "stored_id x = keep"
    show "e_generation (s_evidence x) = st_max_generation s'"
    proof (cases "key = ec_key c")
      case True
      then have s': "s' = remove_record (stored_id r) s" using a(1) by (simp add: fs)
      have "e_generation (s_evidence x) = st_max_generation s" using n s(1) a(2,3) recs s' unfolding newest_def by blast
      moreover have "e_generation (s_evidence x) \<le> st_max_generation s'" "st_max_generation s' \<le> st_max_generation s"
        using ok ok' a(2) max_generation_bounds(1) max_generation_mono recs unfolding s' stream_ok_def by (metis, metis Diff_subset)
      ultimately show ?thesis by simp
    next
      case False
      then show ?thesis using a n unfolding newest_def fs by auto
    qed
  qed
  ultimately show "budget_inv keep i'"
    using rc inv apply_eviction_frame(4) [OF ap] by (auto simp: budget_inv_def)
  have "record_at (i_world i') key x \<longleftrightarrow> record_at (i_world i) key x \<and> stored_id x \<noteq> stored_id r" for key x
    using u s(1,2) recs unfolding record_at_def fs unique_ids_def by (auto split: if_splits; metis)
  then show "\<exists>x. out' = out @ [x] \<and> x \<noteq> keep \<and> (\<forall>key r. record_at (i_world i') key r \<longleftrightarrow> record_at (i_world i) key r \<and> stored_id r \<noteq> x)"
    using out s(3) by blast
qed

lemma evicts_sound:
  assumes "evicts keep now i ev i'" "budget_inv keep i"
  shows "budget_inv keep i' \<and> same_live now i i' \<and> find_tombstone (i_world i') = find_tombstone (i_world i)
    \<and> record_count (i_world i') + length ev = record_count (i_world i) \<and> keep \<notin> set ev
    \<and> (\<forall>key r. record_at (i_world i') key r \<longleftrightarrow> record_at (i_world i) key r \<and> stored_id r \<notin> set ev)
    \<and> i_policy i' = i_policy i \<and> i_incarnations i' = i_incarnations i \<and> i_boot_epoch i' = i_boot_epoch i"
  using assms
proof (induction rule: evicts.induct)
  case (evicts_nothing i)
  then show ?case by (simp add: same_live_def)
next
  case (evicts_turn i restrict_key c i1 x ev i')
  note turn = turn_budget_inv [OF evicts_turn.prems evicts_turn.hyps(1,2)]
  have x: "x \<noteq> keep" "\<forall>key r. record_at (i_world i1) key r \<longleftrightarrow> record_at (i_world i) key r \<and> stored_id r \<noteq> x"
    using turn(4) by auto
  show ?case
    using evicts_turn.IH [OF turn(1)] turn(2,3) x apply_eviction_frame [OF evicts_turn.hyps(2)]
      same_live_trans [OF eviction_turn_live [OF evicts_turn.prems evicts_turn.hyps(1,2)]] by auto
qed

lemma pick_apply:
  assumes "world_wf (i_world i)" "pick_eviction_candidate i restrict_key (Some keep) now = Some c"
  shows "apply_eviction c now i out \<noteq> None"
proof -
  obtain s r where s: "find_stream (i_world i) (ec_key c) = Some s" "r \<in> set (st_records s)" "stored_id r = ec_id c"
    using pick_record [OF assms] by metis
  then have "find (\<lambda>r. stored_id r = ec_id c) (st_records s) \<noteq> None" by (auto simp: find_None_iff)
  then show ?thesis using s(1) by (auto simp: apply_eviction_def Let_def)
qed

lemma evict_global_evicts:
  assumes "evict_global keep now i out = (ok, i', out')" "budget_inv keep i"
  shows "\<exists>ev. out' = out @ ev \<and> evicts keep now i ev i' \<and> (ok \<longrightarrow> i_total_records i' \<le> max_records (p_limits (i_policy i')))
    \<and> (\<not> ok \<longrightarrow> max_records (p_limits (i_policy i')) < i_total_records i' \<and> pick_eviction_candidate i' None (Some keep) now = None)"
  using assms
proof (induction keep now i out rule: evict_global.induct)
  case (1 keep now i out)
  show ?case
  proof (cases "i_total_records i > max_records (p_limits (i_policy i))")
    case False
    then show ?thesis using "1.prems" by (auto simp: evict_global.simps [of keep now i out] intro: evicts.intros)
  next
    case big: True
    show ?thesis
    proof (cases "pick_eviction_candidate i None (Some keep) now")
      case None
      then show ?thesis using "1.prems" big by (auto simp: evict_global.simps [of keep now i out] intro: evicts.intros)
    next
      case (Some c)
      obtain i1 out1 where ap: "apply_eviction c now i out = Some (i1, out1)"
        using pick_apply [OF _ Some, of out] "1.prems"(2) by (auto simp: budget_inv_def world_inv_def)
      obtain x where x: "out1 = out @ [x]" "apply_eviction c now i [] = Some (i1, [x])" using apply_eviction_out [OF ap] by blast
      have rec: "evict_global keep now i1 out1 = (ok, i', out')"
        using "1.prems"(1) big Some ap by (simp add: evict_global.simps [of keep now i out])
      have "budget_inv keep i1" by (rule turn_budget_inv(1) [OF "1.prems"(2) Some ap])
      from "1.IH" [OF big Some ap _ rec this] obtain ev where "out' = out1 @ ev" "evicts keep now i1 ev i'"
        "ok \<longrightarrow> i_total_records i' \<le> max_records (p_limits (i_policy i'))"
        "\<not> ok \<longrightarrow> max_records (p_limits (i_policy i')) < i_total_records i' \<and> pick_eviction_candidate i' None (Some keep) now = None"
        by auto
      then show ?thesis using evicts_turn [OF Some x(2)] x(1) by (intro exI [of _ "x # ev"]) auto
    qed
  qed
qed

lemma evict_stream_evicts:
  assumes "evict_stream key keep now i out = (ok, i', out')" "budget_inv keep i"
  shows "\<exists>ev. out' = out @ ev \<and> evicts keep now i ev i'
    \<and> (ok \<longrightarrow> stream_length (i_world i') key \<le> max_records_per_stream (p_limits (i_policy i')))
    \<and> (\<not> ok \<longrightarrow> max_records_per_stream (p_limits (i_policy i')) < stream_length (i_world i') key
        \<and> pick_eviction_candidate i' (Some key) (Some keep) now = None)"
  using assms
proof (induction key keep now i out rule: evict_stream.induct)
  case (1 key keep now i out)
  show ?case
  proof (cases "find_stream (i_world i) key")
    case None
    then show ?thesis using "1.prems" by (auto simp: evict_stream.simps [of key keep now i out] stream_length_def intro: evicts.intros)
  next
    case (Some s)
    note s = this
    show ?thesis
    proof (cases "length (st_records s) \<le> max_records_per_stream (p_limits (i_policy i))")
      case True
      then show ?thesis using "1.prems" s by (auto simp: evict_stream.simps [of key keep now i out] stream_length_def intro: evicts.intros)
    next
      case big: False
      show ?thesis
      proof (cases "pick_eviction_candidate i (Some key) (Some keep) now")
        case None
        then show ?thesis using "1.prems" s big
          by (auto simp: evict_stream.simps [of key keep now i out] stream_length_def intro: evicts.intros)
      next
        case (Some c)
        obtain i1 out1 where ap: "apply_eviction c now i out = Some (i1, out1)"
          using pick_apply [OF _ Some, of out] "1.prems"(2) by (auto simp: budget_inv_def world_inv_def)
        obtain x where x: "out1 = out @ [x]" "apply_eviction c now i [] = Some (i1, [x])" using apply_eviction_out [OF ap] by blast
        have rec: "evict_stream key keep now i1 out1 = (ok, i', out')"
          using "1.prems"(1) s big Some ap by (simp add: evict_stream.simps [of key keep now i out])
        have "budget_inv keep i1" by (rule turn_budget_inv(1) [OF "1.prems"(2) Some ap])
        from "1.IH" [OF s big Some ap _ rec this] obtain ev where "out' = out1 @ ev" "evicts keep now i1 ev i'"
          "ok \<longrightarrow> stream_length (i_world i') key \<le> max_records_per_stream (p_limits (i_policy i'))"
          "\<not> ok \<longrightarrow> max_records_per_stream (p_limits (i_policy i')) < stream_length (i_world i') key
             \<and> pick_eviction_candidate i' (Some key) (Some keep) now = None"
          by auto
        then show ?thesis using evicts_turn [OF Some x(2)] x(1) by (intro exI [of _ "x # ev"]) auto
      qed
    qed
  qed
qed

section \<open>Properties\<close>

lemma no_candidate_live:
  assumes "world_wf (i_world i)" "unique_ids (i_world i)" "pick_eviction_candidate i restrict_key (Some keep) now = None"
    "restrict_key = None \<or> restrict_key = Some key" "record_at (i_world i) key r" "stored_id r \<noteq> keep"
  shows "r \<in> set (dv_live (derive i (key_device key) (key_kind key) now 0))"
proof -
  obtain s where s: "find_stream (i_world i) key = Some s" "r \<in> set (st_records s)" using assms(5) by (auto simp: record_at_def)
  have "candidate_of i key s r now \<notin> set (candidates i restrict_key (Some keep) now)" using assms(3) by (simp add: pick_None_iff)
  then have "\<not> evictable i key s r now"
    using s assms(1,4,6) unfolding candidates_set streams.view_mem [OF assms(1)] by blast
  then show ?thesis using evictable_iff_not_live [OF assms(1,2) s] by simp
qed

lemma enforce_budget_spec:
  assumes "budget_inv keep_id i" "enforce_budget keep_key keep_id now i = (ok, i', evicted)"
  shows "budget_inv keep_id i' \<and> same_live now i i'
    \<and> record_count (i_world i') + length evicted = record_count (i_world i) \<and> keep_id \<notin> set evicted
    \<and> (\<forall>key r. record_at (i_world i') key r \<longleftrightarrow> record_at (i_world i) key r \<and> stored_id r \<notin> set evicted)
    \<and> (ok \<longrightarrow> record_count (i_world i') \<le> max_records (p_limits (i_policy i))
         \<and> stream_length (i_world i') keep_key \<le> max_records_per_stream (p_limits (i_policy i)))
    \<and> (\<not> ok \<longrightarrow> (\<forall>r. record_at (i_world i') keep_key r \<and> stored_id r \<noteq> keep_id \<longrightarrow>
         r \<in> set (dv_live (derive i' (key_device keep_key) (key_kind keep_key) now 0))))"
proof -
  obtain ok1 i1 ev1 where g: "evict_global keep_id now i [] = (ok1, i1, ev1)" by (cases "evict_global keep_id now i []")
  have e1: "evicts keep_id now i ev1 i1" "ok1 \<longrightarrow> i_total_records i1 \<le> max_records (p_limits (i_policy i1))"
    "\<not> ok1 \<longrightarrow> pick_eviction_candidate i1 None (Some keep_id) now = None"
    using evict_global_evicts [OF g assms(1)] by auto
  note s1 = evicts_sound [OF e1(1) assms(1)]
  show ?thesis
  proof (cases ok1)
    case False
    then have "ok = False" "i' = i1" "evicted = ev1" using assms(2) g by (simp_all add: enforce_budget_def)
    then show ?thesis using s1 no_candidate_live [of i1 None keep_id now keep_key] e1(3) False
      by (auto simp: budget_inv_def world_inv_def)
  next
    case True
    then have g2: "evict_stream keep_key keep_id now i1 ev1 = (ok, i', evicted)" using assms(2) g by (simp add: enforce_budget_def)
    obtain ev2 where e2: "evicted = ev1 @ ev2" "evicts keep_id now i1 ev2 i'"
      "ok \<longrightarrow> stream_length (i_world i') keep_key \<le> max_records_per_stream (p_limits (i_policy i'))"
      "\<not> ok \<longrightarrow> pick_eviction_candidate i' (Some keep_key) (Some keep_id) now = None"
      using evict_stream_evicts [OF g2] s1 by blast
    have s2: "evicts keep_id now i evicted i'" using evicts_append [OF e1(1) e2(2)] e2(1) by simp
    note s = evicts_sound [OF s2 assms(1)]
    have "record_count (i_world i') \<le> record_count (i_world i1)"
      using evicts_sound [OF e2(2)] s1 by auto
    then have "record_count (i_world i') \<le> max_records (p_limits (i_policy i))"
      using e1(2) True s1 by (auto simp: budget_inv_def)
    then show ?thesis using s e2(3,4) no_candidate_live [of i' "Some keep_key" keep_id now keep_key]
      by (auto simp: budget_inv_def world_inv_def)
  qed
qed

text \<open>Only the records, their number, the ledger and its counters change.\<close>

definition only_records :: "Impl \<Rightarrow> Impl \<Rightarrow> bool" where
  "only_records i j \<longleftrightarrow> j = i\<lparr>i_world := i_world j, i_total_records := i_total_records j, i_evictions := i_evictions j,
     i_counters := i_counters j\<rparr>"

lemma only_records_refl [simp]: "only_records i i"
  by (simp add: only_records_def)

lemma only_records_trans: "only_records i j \<Longrightarrow> only_records j k \<Longrightarrow> only_records i k"
  by (cases i; cases j; cases k) (simp add: only_records_def)

lemma apply_eviction_shape: "apply_eviction c now i out = Some (i', out') \<Longrightarrow> only_records i i'"
  by (cases i) (auto simp: apply_eviction_Some record_eviction_def Let_def only_records_def)

lemma evicts_shape: "evicts keep now i ev i' \<Longrightarrow> only_records i i'"
  by (induction rule: evicts.induct) (auto intro: only_records_trans dest: apply_eviction_shape)

lemma only_records_frame:
  assumes "only_records i j"
  shows "i_policy j = i_policy i" "i_epoch j = i_epoch i" "i_rule_generation j = i_rule_generation i"
    "i_policy_revision j = i_policy_revision i" "i_boot_epoch j = i_boot_epoch i"
    "i_store_generation j = i_store_generation i" "i_logical_tick j = i_logical_tick i"
    "i_next_incarnation j = i_next_incarnation i" "i_incarnations j = i_incarnations i"
    "i_conflicts j = i_conflicts i" "i_resolutions j = i_resolutions i" "i_decisions j = i_decisions i"
    "i_decision_order j = i_decision_order i"
  using assms by (cases i; cases j; simp add: only_records_def)+

lemma enforce_budget_shape:
  assumes "budget_inv keep_id i" "enforce_budget keep_key keep_id now i = (ok, i', evicted)"
  shows "only_records i i'"
    "find_tombstone (i_world i') = find_tombstone (i_world i)"
proof -
  obtain ok1 i1 ev1 where g: "evict_global keep_id now i [] = (ok1, i1, ev1)" by (cases "evict_global keep_id now i []")
  have e1: "evicts keep_id now i ev1 i1" using evict_global_evicts [OF g assms(1)] by auto
  have "\<exists>ev. evicts keep_id now i ev i'"
  proof (cases ok1)
    case False
    then show ?thesis using assms(2) g e1 by (auto simp: enforce_budget_def)
  next
    case True
    then have "evict_stream keep_key keep_id now i1 ev1 = (ok, i', evicted)" using assms(2) g by (simp add: enforce_budget_def)
    from evict_stream_evicts [OF this] evicts_sound [OF e1 assms(1)] show ?thesis using evicts_append [OF e1] by blast
  qed
  then show "only_records i i'"
    "find_tombstone (i_world i') = find_tombstone (i_world i)"
    using evicts_shape evicts_sound [OF _ assms(1)] by blast+
qed

text \<open>
  C15: enforcing the record budgets is safe, exact and complete. The live evidence of every group, and whether
  it disagrees, is the same before and after; exactly the records named in the eviction list are gone and the
  incoming record is never among them. On success both bounds hold. On failure every other record of the
  incoming record's stream is live: only live evidence is left to evict, which is never done. (The ids of the
  stored records are unambiguous and the incoming record is the newest of its stream.)
\<close>

theorem enforce_budget_correct:
  assumes "budget_inv keep_id i" "enforce_budget keep_key keep_id now i = (ok, i', evicted)"
  shows "budget_inv keep_id i' \<and> same_live now i i'
    \<and> record_count (i_world i') + length evicted = record_count (i_world i) \<and> keep_id \<notin> set evicted
    \<and> (\<forall>key r. record_at (i_world i') key r \<longleftrightarrow> record_at (i_world i) key r \<and> stored_id r \<notin> set evicted)
    \<and> (ok \<longrightarrow> record_count (i_world i') \<le> max_records (p_limits (i_policy i))
         \<and> stream_length (i_world i') keep_key \<le> max_records_per_stream (p_limits (i_policy i)))
    \<and> (\<not> ok \<longrightarrow> (\<forall>r. record_at (i_world i') keep_key r \<and> stored_id r \<noteq> keep_id \<longrightarrow>
         r \<in> set (dv_live (derive i' (key_device keep_key) (key_kind keep_key) now 0))))"
  by (rule enforce_budget_spec [OF assms])

definition sample_stored :: "RecordGeneration \<Rightarrow> EvidenceId \<Rightarrow> StoredEvidence" where
  "sample_stored g rid = \<lparr>s_evidence = sample_evidence\<lparr>e_generation := g, e_id_cache := rid\<rparr>,
     s_lifecycle = LifecycleAdmitted, s_admission_reason = AcceptedNew, s_admitted_at = 5, s_retired_at = None,
     s_retirement_reason = Ok\<rparr>"

definition sample_key :: EvidenceKey where "sample_key = e_key sample_evidence"

definition sample_stream :: Stream where
  "sample_stream = \<lparr>st_records = [sample_stored 1 [1], sample_stored 2 [2]], st_max_generation = 2\<rparr>"

definition sample_impl :: "nat \<Rightarrow> Impl" where
  "sample_impl cap = (Registry_init (make_lab_policy\<lparr>p_limits := default_limits\<lparr>max_records := cap\<rparr>\<rparr>))
     \<lparr>i_incarnations := [(dr_device (key_device sample_key),
         \<lparr>ie_device = dr_device (key_device sample_key), ie_current = 1, ie_history = [1]\<rparr>)],
      i_world := put_stream sample_key sample_stream [], i_total_records := 2\<rparr>"

lemma sample_find: "find_stream (i_world (sample_impl b)) = [sample_key \<mapsto> sample_stream]"
  "find_tombstone (i_world (sample_impl b)) = Map.empty"
proof -
  have "find_stream [] = Map.empty" "find_tombstone [] = Map.empty"
    by (rule ext, simp add: find_stream_def find_tombstone_def find_group_def find_kind_map_def)+
  then show "find_stream (i_world (sample_impl b)) = [sample_key \<mapsto> sample_stream]" "find_tombstone (i_world (sample_impl b)) = Map.empty"
    by (simp_all add: sample_impl_def)
qed

lemma sample_budget_inv: "budget_inv [2] (sample_impl b)" "record_count (i_world (sample_impl b)) = 2"
proof -
  have wf: "world_wf (i_world (sample_impl b))" by (simp add: sample_impl_def)
  have ok: "stream_ok sample_key sample_stream"
    by (simp add: stream_ok_def sample_stream_def sample_stored_def sample_key_def record_rank_def stored_id_def
        evidence_id_def sample_evidence_def max_generation_of_def admitted_in_def)
  show rc: "record_count (i_world (sample_impl b)) = 2"
    using record_count_put [of "[]" sample_key sample_stream]
    by (simp add: sample_impl_def record_count_def streams_of_def sample_stream_def find_stream_def find_group_def find_kind_map_def)
  show "budget_inv [2] (sample_impl b)"
    using wf ok rc unfolding budget_inv_def world_inv_def unique_ids_def newest_def sample_find
    by (auto simp: sample_impl_def sample_stream_def sample_stored_def stored_id_def evidence_id_def split: if_splits)
qed

theorem enforce_budget_correct_witness:
  "\<exists>ok i' evicted. enforce_budget sample_key [2] 5 (sample_impl 1) = (ok, i', evicted)
     \<and> record_count (i_world i') + length evicted = 2 \<and> [2] \<notin> set evicted \<and> same_live 5 (sample_impl 1) i'"
proof -
  obtain ok i' evicted where e: "enforce_budget sample_key [2] 5 (sample_impl 1) = (ok, i', evicted)"
    by (cases "enforce_budget sample_key [2] 5 (sample_impl 1)")
  then show ?thesis using enforce_budget_correct [OF sample_budget_inv(1) e] sample_budget_inv(2) by auto
qed

text \<open>
  C16: the eviction order agrees with the derived states. A record's priority is the rank of the state the
  derivation gives it (rejected, superseded, fenced, stale, retired, active), and, where ids are unambiguous,
  the records that may be evicted are exactly those that are not live.
\<close>

theorem eviction_order_matches_states:
  assumes "world_wf (i_world i)" "unique_ids (i_world i)" "find_stream (i_world i) key = Some s" "r \<in> set (st_records s)"
  shows "eviction_priority i key s r now =
      state_priority (fst (classify i r s (find_source (i_policy i) (key_source key)) (key_device key) now 0))
    \<and> (evictable i key s r now \<longleftrightarrow> r \<notin> set (dv_live (derive i (key_device key) (key_kind key) now 0)))"
  using eviction_priority_state evictable_iff_not_live [OF assms] by blast

theorem eviction_order_matches_states_witness:
  "evictable (sample_impl 1) sample_key sample_stream (sample_stored 1 [1]) 5 \<longleftrightarrow>
     sample_stored 1 [1] \<notin> set (dv_live (derive (sample_impl 1) (key_device sample_key) (key_kind sample_key) 5 0))"
proof -
  have "world_wf (i_world (sample_impl 1))" "unique_ids (i_world (sample_impl 1))"
    using sample_budget_inv(1) [of 1] by (simp_all add: budget_inv_def world_inv_def)
  moreover have "find_stream (i_world (sample_impl 1)) sample_key = Some sample_stream" by (simp add: sample_find)
  moreover have "sample_stored 1 [1] \<in> set (st_records sample_stream)" by (simp add: sample_stream_def)
  ultimately show ?thesis by (rule eviction_order_matches_states [THEN conjunct2])
qed

end
