(* ===== verification/Admission.thy ===== *)
theory Admission
  imports Eviction
begin

text \<open>
  Admission of evidence: \<open>feature_set_valid\<close>, \<open>limit_set_valid\<close> and \<open>Registry::admit\<close> of \<open>src/registry.cpp\<close>.

  The phases of \<open>admit\<close> are definitions of their own: the checks of the request, the registration of the
  device incarnation, and the three endings once the stream is known (already present; regression or
  collision; a new generation, with the budget and its rollback).
\<close>

section \<open>Validation\<close>

fun check_features :: "CapabilityKind \<Rightarrow> FeatureCode list \<Rightarrow> bool \<times> ReasonCode" where
  "check_features kind [] = (True, Ok)"
| "check_features kind (c # cs) =
     (if feature_info c = None then (False, RejectedUnknownFeatureCode)
      else if \<not> feature_allowed_for c kind then (False, RejectedFeatureNotInKind)
      else check_features kind cs)"

definition feature_set_valid :: "FeatureSet \<Rightarrow> CapabilityKind \<Rightarrow> bool \<times> ReasonCode" where
  "feature_set_valid s kind =
     (if length s > kMaxFeaturesPerRecord then (False, RejectedFeatureBudgetExceeded)
      else if \<not> FeatureSet_canonical_order_ok s then (False, RejectedDuplicateKey)
      else check_features kind s)"

fun check_limits :: "CapabilityKind \<Rightarrow> LimitValue list \<Rightarrow> bool \<times> ReasonCode" where
  "check_limits kind [] = (True, Ok)"
| "check_limits kind (v # vs) =
     (case limit_info (lv_code v) of None \<Rightarrow> (False, RejectedUnknownLimitCode)
      | Some info \<Rightarrow>
          if \<not> limit_allowed_for (lv_code v) kind then (False, RejectedLimitNotInKind)
          else if sint (lv_value v) < 0 then (False, RejectedNegativeLimit)
          else if u_code (lv_unit v) \<noteq> li_unit info then (False, RejectedLimitUnitInvalid)
          else if \<not> unit_is_well_formed (lv_unit v) then (False, RejectedLimitUnitScaleInvalid)
          else if \<not> unit_valid_for_limit (lv_code v) (lv_unit v) then (False, RejectedLimitScaleNotPermitted)
          else check_limits kind vs)"

definition limit_set_valid :: "LimitSet \<Rightarrow> CapabilityKind \<Rightarrow> bool \<times> ReasonCode" where
  "limit_set_valid s kind =
     (if length s > kMaxLimitsPerRecord then (False, RejectedLimitBudgetExceeded)
      else if \<not> LimitSet_canonical_order_ok s then (False, RejectedDuplicateKey)
      else check_limits kind s)"

text \<open>The checks of a request, in order; the first that fails gives the refusal.\<close>

definition admission_refusal :: "Impl \<Rightarrow> AdmissionRequest \<Rightarrow> Tick \<Rightarrow> (ReasonCode \<times> string) option" where
  "admission_refusal i q now =
     (let policy = i_policy i; source = find_source policy (si_source (ar_source q)) in
      if is_unset (ar_generation q)
        then Some (RejectedGenerationRegression, ''stream generation must be non-zero'')
      else if (case ar_valid_until q of None \<Rightarrow> False | Some u \<Rightarrow> u < ar_observed_at q)
        then Some (RejectedValidityWindowInverted, ''valid_until precedes observed_at'')
      else if ar_observed_at q > now \<and> ar_observed_at q - now > p_max_future_skew policy
        then Some (RejectedFutureObservation, ''observation is ahead of the logical clock'')
      else if p_retention_horizon policy \<noteq> 0 \<and> now \<noteq> 0 \<and> observed_age now (ar_observed_at q) > p_retention_horizon policy
        then Some (RejectedBeyondRetentionHorizon, ''observation is outside the retention horizon'')
      else if source = None \<and> p_require_configured_source policy
        then Some (RejectedUnknownSource, ''source has no policy entry'')
      else if (case source of None \<Rightarrow> False | Some s \<Rightarrow> sp_trust s = Revoked)
        then Some (RejectedSourceRevoked, ''source is revoked'')
      else if (case source of None \<Rightarrow> False | Some s \<Rightarrow> sp_trust s = Untrusted \<and> p_refuse_untrusted_sources policy)
        then Some (RejectedSourceUntrusted, ''source is untrusted'')
      else if length (ar_features q) > max_features_per_record (p_limits policy)
          \<or> length (ar_limits q) > max_limits_per_record (p_limits policy)
        then Some (RejectedFeatureBudgetExceeded, ''record exceeds the configured width bound'')
      else (case feature_set_valid (ar_features q) (ar_kind q) of (False, reason) \<Rightarrow> Some (reason, ''feature set rejected'')
            | (True, _) \<Rightarrow> (case limit_set_valid (ar_limits q) (ar_kind q) of
                  (False, reason) \<Rightarrow> Some (reason, ''limit set rejected'') | (True, _) \<Rightarrow> None)))"

section \<open>Registration of the device incarnation\<close>

definition raise_next_incarnation :: "IncarnationId \<Rightarrow> Impl \<Rightarrow> Impl" where
  "raise_next_incarnation inc i = (if i_next_incarnation i \<le> inc then i\<lparr>i_next_incarnation := inc + 1\<rparr> else i)"

definition register_device :: "DeviceIncarnationRef \<Rightarrow> Impl \<Rightarrow> ReasonCode \<times> string + Impl" where
  "register_device dev i =
     (let inc = dr_incarnation dev in
      case find_device i (dr_device dev) of
        None \<Rightarrow>
          if length (i_incarnations i) \<ge> max_devices (p_limits (i_policy i))
          then Inl (RejectedDeviceBudgetExhausted, ''device bound reached'')
          else Inr (raise_next_incarnation inc (i\<lparr>i_incarnations :=
            om_put (dr_device dev) \<lparr>ie_device = dr_device dev, ie_current = inc, ie_history = [inc]\<rparr> (i_incarnations i)\<rparr>))
      | Some entry \<Rightarrow>
          if inc \<notin> set (ie_history entry)
          then (if length (ie_history entry) \<ge> max_incarnations_per_device (p_limits (i_policy i))
                then Inl (RejectedDeviceBudgetExhausted, ''incarnation bound reached'')
                else Inr (raise_next_incarnation inc (i\<lparr>i_incarnations :=
                  om_put (dr_device dev) (entry\<lparr>ie_history := sort (ie_history entry @ [inc])\<rparr>) (i_incarnations i)\<rparr>)))
          else Inr (raise_next_incarnation inc i))"

section \<open>The endings\<close>

definition request_key :: "AdmissionRequest \<Rightarrow> EvidenceKey" where
  "request_key q = EvidenceKey (ar_device q) (ar_kind q) (si_source (ar_source q))"

definition make_evidence :: "Impl \<Rightarrow> AdmissionRequest \<Rightarrow> CapabilityEvidence" where
  "make_evidence i q = refresh_id \<lparr>e_key = request_key q, e_source_incarnation = ar_source q,
     e_capability_version = ar_capability_version q, e_features = ar_features q, e_limits = ar_limits q,
     e_firmware_version = ar_firmware_version q, e_firmware_generation = ar_firmware_generation q,
     e_runtime_version = ar_runtime_version q, e_runtime_generation = ar_runtime_generation q,
     e_observed_at = ar_observed_at q, e_valid_until = ar_valid_until q, e_generation = ar_generation q,
     e_authority = (case find_source (i_policy i) (si_source (ar_source q)) of None \<Rightarrow> RankNone | Some s \<Rightarrow> sp_authority s),
     e_epoch_at_ingest = i_epoch i, e_boot_at_ingest = i_boot_epoch i, e_policy_revision = i_policy_revision i,
     e_id_cache = []\<rparr>"

definition default_outcome :: AdmissionOutcome where
  "default_outcome = \<lparr>ao_id = [], ao_state = StateRejected, ao_reason = Ok, ao_idempotent = False, ao_superseded = [],
     ao_evicted = [], ao_conflict = None, ao_stream_generation = 0, ao_conflicts_opened = 0\<rparr>"

definition count_rejected :: "Impl \<Rightarrow> Impl" where
  "count_rejected i = i\<lparr>i_counters := (i_counters i)\<lparr>admissions_rejected := admissions_rejected (i_counters i) + 1\<rparr>\<rparr>"

definition count_accepted :: "Impl \<Rightarrow> Impl" where
  "count_accepted i = i\<lparr>i_counters := (i_counters i)\<lparr>admissions_accepted := admissions_accepted (i_counters i) + 1\<rparr>\<rparr>"

definition count_idempotent :: "Impl \<Rightarrow> Impl" where
  "count_idempotent i = i\<lparr>i_counters := (i_counters i)\<lparr>admissions_idempotent := admissions_idempotent (i_counters i) + 1\<rparr>\<rparr>"

text \<open>The state of a record in the derived facts: the last match wins.\<close>

definition state_in :: "DerivedFact list \<Rightarrow> EvidenceId \<Rightarrow> EvidenceState" where
  "state_in facts rid = fold (\<lambda>f st. if stored_id (f_record f) = rid then f_state f else st) facts StateRejected"

definition stored_as :: "CapabilityEvidence \<Rightarrow> EvidenceLifecycle \<Rightarrow> ReasonCode \<Rightarrow> Tick \<Rightarrow> StoredEvidence" where
  "stored_as e lifecycle reason now = \<lparr>s_evidence = e, s_lifecycle = lifecycle, s_admission_reason = reason,
     s_admitted_at = now, s_retired_at = None, s_retirement_reason = Ok\<rparr>"

definition admit_present :: "EvidenceKey \<Rightarrow> EvidenceId \<Rightarrow> Stream \<Rightarrow> Tick \<Rightarrow> Impl \<Rightarrow> Impl \<times> AdmissionOutcome outcome" where
  "admit_present key incoming stream now i =
     (count_idempotent i, Success Ok (default_outcome\<lparr>ao_id := incoming, ao_reason := AlreadyPresent, ao_idempotent := True,
        ao_stream_generation := st_max_generation stream,
        ao_state := state_in (dv_facts (derive i (key_device key) (key_kind key) now 0)) incoming\<rparr>))"

definition admit_refused :: "EvidenceKey \<Rightarrow> CapabilityEvidence \<Rightarrow> Stream \<Rightarrow> Tick \<Rightarrow> Impl \<Rightarrow> Impl \<times> AdmissionOutcome outcome" where
  "admit_refused key e stream now i =
     (let reason = (if e_generation e < st_max_generation stream then RejectedSupersededGeneration
                    else RejectedGenerationCollision);
          rejected = stored_as e LifecycleRejected reason now;
          i = count_rejected i;
          i' = (if length (st_records stream) < max_records_per_stream (p_limits (i_policy i))
                   \<and> i_total_records i < max_records (p_limits (i_policy i))
                then refresh_conflict (key_device key) (key_kind key) now
                  (i\<lparr>i_world := put_stream key (stream\<lparr>st_records := insert_before generation_less rejected (st_records stream)\<rparr>)
                       (i_world i),
                     i_total_records := i_total_records i + 1\<rparr>)
                else i)
      in (i', Success Ok (default_outcome\<lparr>ao_id := evidence_id e, ao_state := StateRejected, ao_reason := reason,
            ao_stream_generation := st_max_generation stream\<rparr>)))"

text \<open>The rollback: the incoming record goes, then its stream and its group where they are empty.\<close>

definition erase_group :: "DeviceIncarnationRef \<Rightarrow> CapabilityKind \<Rightarrow> World \<Rightarrow> World" where
  "erase_group device kind w = (case find_kind_map w device of None \<Rightarrow> w
     | Some kinds \<Rightarrow> (let kinds' = om_del kind kinds in if kinds' = [] then om_del device w else om_put device kinds' w))"

definition rollback :: "EvidenceKey \<Rightarrow> EvidenceId \<Rightarrow> Impl \<Rightarrow> Impl" where
  "rollback key incoming i =
     (case find_group (i_world i) (key_device key) (key_kind key) of None \<Rightarrow> i
      | Some g \<Rightarrow>
          let stream = om_get empty_stream (key_source key) (g_streams g);
              found = (\<exists>r \<in> set (st_records stream). stored_id r = incoming);
              stream' = remove_record incoming stream;
              streams = om_put (key_source key) stream' (g_streams g);
              streams' = (if st_records stream' = [] then om_del (key_source key) streams else streams);
              w = put_group (key_device key) (key_kind key) (g\<lparr>g_streams := streams'\<rparr>) (i_world i)
          in i\<lparr>i_world := (if streams' = [] \<and> g_tombstones g = [] then erase_group (key_device key) (key_kind key) w else w),
               i_total_records := (if found then i_total_records i - 1 else i_total_records i)\<rparr>)"

definition admit_new :: "EvidenceKey \<Rightarrow> CapabilityEvidence \<Rightarrow> Stream \<Rightarrow> Tick \<Rightarrow> Impl \<Rightarrow> Impl \<times> AdmissionOutcome outcome" where
  "admit_new key e stream now i =
     (let previous_max = st_max_generation stream;
          reason = (if previous_max = 0 then AcceptedNew else AcceptedSuperseding);
          records = insert_before generation_less (stored_as e LifecycleAdmitted reason now) (st_records stream);
          i1 = i\<lparr>i_world := put_stream key \<lparr>st_records = records, st_max_generation = e_generation e\<rparr> (i_world i),
                 i_total_records := i_total_records i + 1\<rparr>;
          superseded = (if previous_max \<noteq> 0
            then sort (map stored_id (filter (\<lambda>r. e_generation (s_evidence r) < e_generation e) records)) else [])
      in case enforce_budget key (evidence_id e) now i1 of (ok, i2, evicted) \<Rightarrow>
           if \<not> ok
           then (count_rejected (rollback key (evidence_id e) i2),
                 Failure RejectedRecordBudgetExhausted ''no evictable record exists to satisfy the record budget'')
           else (let i3 = refresh_conflict (key_device key) (key_kind key) now (count_accepted i2);
                     d = derive i3 (key_device key) (key_kind key) now 0
                 in (i3, Success Ok (default_outcome\<lparr>ao_id := evidence_id e, ao_reason := reason,
                       ao_stream_generation := e_generation e, ao_superseded := superseded, ao_evicted := evicted,
                       ao_state := state_in (dv_facts d) (evidence_id e),
                       ao_conflict := (if dv_disagrees d then dv_conflict d else None)\<rparr>))))"

definition reject_admission :: "Impl \<Rightarrow> ReasonCode \<Rightarrow> string \<Rightarrow> Impl \<times> AdmissionOutcome outcome" where
  "reject_admission i reason detail = (count_rejected i, Failure reason detail)"

text \<open>The part of \<open>admit\<close> that follows the registration: bounds, tombstone, then the three endings.\<close>

definition admit_registered :: "AdmissionRequest \<Rightarrow> Tick \<Rightarrow> Impl \<Rightarrow> Impl \<times> AdmissionOutcome outcome" where
  "admit_registered q now i =
     (let key = request_key q in
      if find_stream (i_world i) key = None \<and> count_streams (i_world i) \<ge> max_streams (p_limits (i_policy i))
      then reject_admission i RejectedStreamBudgetExhausted ''stream bound reached''
      else if (case find_tombstone (i_world i) key of None \<Rightarrow> False | Some t \<Rightarrow> rr_generation t \<ge> ar_generation q)
      then reject_admission i RejectedRetiredStream ''stream is retired at this generation or later''
      else (let e = make_evidence i q;
                stream = (case find_stream (i_world i) key of None \<Rightarrow> empty_stream | Some s \<Rightarrow> s);
                i = i\<lparr>i_world := put_stream key stream (i_world i)\<rparr>
            in if \<exists>r \<in> set (st_records stream). stored_id r = evidence_id e
               then admit_present key (evidence_id e) stream now i
               else if st_max_generation stream \<noteq> 0 \<and> ar_generation q \<le> st_max_generation stream
               then admit_refused key e stream now i
               else admit_new key e stream now i))"

definition admit :: "AdmissionRequest \<Rightarrow> Tick \<Rightarrow> Impl \<Rightarrow> Impl \<times> AdmissionOutcome outcome" where
  "admit q now i =
     (case admission_refusal i q now of Some (reason, detail) \<Rightarrow> reject_admission i reason detail
      | None \<Rightarrow> (case register_device (ar_device q) i of Inl (reason, detail) \<Rightarrow> reject_admission i reason detail
          | Inr i' \<Rightarrow> admit_registered q now i'))"

section \<open>Streams with one record more\<close>

lemma max_generation_eqI:
  "\<forall>r \<in> set rs. e_generation (s_evidence r) \<le> g \<Longrightarrow> \<exists>r \<in> set rs. e_generation (s_evidence r) = g \<Longrightarrow> max_generation_of rs = g"
  using max_generation_bounds(1) [of _ rs] max_generation_bounds(2) [of rs] by (metis order_antisym word_zero_le)

lemma stream_ok_empty [simp]: "stream_ok key empty_stream"
  by (simp add: stream_ok_def empty_stream_def max_generation_of_def admitted_in_def)

lemma stored_as_simps [simp]:
  "s_evidence (stored_as e l reason now) = e" "s_lifecycle (stored_as e l reason now) = l"
  "stored_id (stored_as e l reason now) = evidence_id e"
  by (simp_all add: stored_as_def stored_id_def)

lemma insert_record_sorted:
  "sorted (map record_rank rs) \<Longrightarrow> sorted (map record_rank (insert_before generation_less r rs))"
  by (rule sorted_insert_before) (simp_all add: generation_less_rank)

lemma stream_ok_insert_new:
  assumes ok: "stream_ok key s" and e: "e_key e = key" "e_generation e \<noteq> 0" "st_max_generation s < e_generation e"
    and fresh: "evidence_id e \<notin> stored_id ` set (st_records s)"
  shows "stream_ok key \<lparr>st_records = insert_before generation_less (stored_as e LifecycleAdmitted reason now) (st_records s),
    st_max_generation = e_generation e\<rparr>"
proof -
  have "e_generation (s_evidence r) \<le> e_generation e" if "r \<in> set (st_records s)" for r
    using ok e(3) max_generation_bounds(1) [OF that] by (auto simp: stream_ok_def)
  then have "max_generation_of (insert_before generation_less (stored_as e LifecycleAdmitted reason now) (st_records s)) = e_generation e"
    by (intro max_generation_eqI) auto
  then show ?thesis using ok e fresh
    by (auto simp: stream_ok_def insert_record_sorted distinct_insert_before admitted_in_def)
qed

lemma stream_ok_insert_rejected:
  assumes ok: "stream_ok key s" and e: "e_key e = key" "e_generation e \<noteq> 0" "e_generation e \<le> st_max_generation s"
    and fresh: "evidence_id e \<notin> stored_id ` set (st_records s)"
  shows "stream_ok key (s\<lparr>st_records := insert_before generation_less (stored_as e LifecycleRejected reason now) (st_records s)\<rparr>)"
proof -
  have "st_max_generation s \<noteq> 0" using e(2,3) by (metis word_le_0_iff)
  then have "\<exists>r \<in> set (st_records s). e_generation (s_evidence r) = st_max_generation s"
    using ok max_generation_bounds(2) [of "st_records s"] by (simp add: stream_ok_def)
  moreover have "\<forall>r \<in> set (st_records s). e_generation (s_evidence r) \<le> st_max_generation s"
    using ok max_generation_bounds(1) by (auto simp: stream_ok_def)
  ultimately have "max_generation_of (insert_before generation_less (stored_as e LifecycleRejected reason now) (st_records s)) = st_max_generation s"
    using e(3) by (intro max_generation_eqI) auto
  then show ?thesis using ok e fresh
    by (auto simp: stream_ok_def insert_record_sorted distinct_insert_before admitted_in_def)
qed

lemma unique_ids_put:
  assumes "unique_ids w" "stream_ok key s"
    and "\<And>r k r'. r \<in> set (st_records s) \<Longrightarrow> record_at w k r' \<Longrightarrow> k \<noteq> key \<Longrightarrow> stored_id r \<noteq> stored_id r'"
  shows "unique_ids (put_stream key s w)"
proof -
  have inj: "r = r'" if "r \<in> set (st_records s)" "r' \<in> set (st_records s)" "stored_id r = stored_id r'" for r r'
    using assms(2) that by (auto simp: stream_ok_def distinct_map inj_on_def)
  show ?thesis
    unfolding unique_ids_def find_stream_put_stream
  proof (intro allI impI, elim conjE)
    fix k1 s1 r1 k2 s2 r2
    assume a: "((find_stream w)(key \<mapsto> s)) k1 = Some s1" "r1 \<in> set (st_records s1)"
      "((find_stream w)(key \<mapsto> s)) k2 = Some s2" "r2 \<in> set (st_records s2)" "stored_id r1 = stored_id r2"
    show "k1 = k2 \<and> r1 = r2"
    proof (cases "k1 = key"; cases "k2 = key")
      assume "k1 = key" "k2 = key"
      then show ?thesis using a inj by simp
    next
      assume "k1 = key" "k2 \<noteq> key"
      then show ?thesis using a assms(3) [of r1 k2 r2] by (simp add: record_at_def)
    next
      assume "k1 \<noteq> key" "k2 = key"
      then show ?thesis using a assms(3) [of r2 k1 r1] by (simp add: record_at_def)
    next
      assume "k1 \<noteq> key" "k2 \<noteq> key"
      then show ?thesis using a assms(1) unfolding unique_ids_def by (metis fun_upd_other)
    qed
  qed
qed

section \<open>Erasing\<close>

lemma om_sum_del:
  fixes f :: "('k::linorder \<times> 'v) \<Rightarrow> nat"
  assumes "om_wf m"
  shows "sum_list (map f (om_del k m)) + (case map_of m k of None \<Rightarrow> 0 | Some v \<Rightarrow> f (k, v)) = sum_list (map f m)"
  using assms
proof (induction m)
  case (Cons p m)
  obtain k' v' where p: "p = (k', v')" by force
  have "map_of m k = None" if "k = k'" using Cons.prems that by (force simp: p om_wf_Cons map_of_eq_None_iff)
  moreover have "om_del k m = m" if "map_of m k = None"
    using that by (auto simp: om_del_def filter_id_conv map_of_eq_None_iff)
  ultimately show ?case using Cons by (auto simp: p om_wf_Cons om_del_def)
qed (simp add: om_del_def)

lemma record_count_del:
  assumes "world_wf w" "world_wf w'" "find_stream w' = (find_stream w)(key := None)"
  shows "record_count w' + (case find_stream w key of None \<Rightarrow> 0 | Some s \<Rightarrow> length (st_records s)) = record_count w"
proof -
  have "streams_of w' = om_del key (streams_of w)"
    using assms by (intro om.entries_canonical) (simp_all add: streams.view_wf streams.view_lookup)
  then show ?thesis
    using om_sum_del [OF streams.view_wf [OF assms(1)], of "\<lambda>(key, s). length (st_records s)" key] assms(1)
    by (simp add: record_count_def streams.view_lookup split: option.splits)
qed

lemma set_om_del: "set (om_del k m) = {p \<in> set m. fst p \<noteq> k}"
  by (auto simp: om_del_def)

lemma world_wf_erase_group: "world_wf w \<Longrightarrow> world_wf (erase_group d k w)"
  unfolding world_wf_def erase_group_def find_kind_map_def Let_def
  by (auto simp: set_om_put set_om_del split: option.splits dest!: map_of_SomeD)

lemma find_group_erase_group:
  "find_group (erase_group d k w) d' k' = (if (d', k') = (d, k) then None else find_group w d' k')"
proof (cases "find_kind_map w d")
  case (Some kinds)
  have "map_of kinds k' = None" if "om_del k kinds = []" "k' \<noteq> k"
  proof -
    have "map_of (om_del k kinds) k' = None" by (simp only: that(1)) simp
    then show ?thesis using that(2) by simp
  qed
  then show ?thesis using Some by (auto simp: erase_group_def find_group_def find_kind_map_def Let_def)
qed (auto simp: erase_group_def find_group_def find_kind_map_def)

lemma world_wf_if: "world_wf a \<Longrightarrow> world_wf b \<Longrightarrow> world_wf (if c then a else b)"
  by simp

text \<open>The rollback of a stream whose only record is the incoming one erases the stream.\<close>

lemma rollback_alone:
  assumes w: "world_wf (i_world i)" and s: "find_stream (i_world i) key = Some s" "st_records s = [r]" "stored_id r = incoming"
    and total: "i_total_records i = record_count (i_world i)"
  shows "world_wf (i_world (rollback key incoming i))"
    "find_stream (i_world (rollback key incoming i)) = (find_stream (i_world i))(key := None)"
    "find_tombstone (i_world (rollback key incoming i)) = find_tombstone (i_world i)"
    "i_total_records (rollback key incoming i) = record_count (i_world (rollback key incoming i))"
    "only_records i (rollback key incoming i)"
proof -
  obtain g where g: "find_group (i_world i) (key_device key) (key_kind key) = Some g" "map_of (g_streams g) (key_source key) = Some s"
    using s(1) by (auto simp: find_stream_def split: option.splits)
  let ?streams = "om_del (key_source key) (om_put (key_source key) (remove_record incoming s) (g_streams g))"
  let ?w = "put_group (key_device key) (key_kind key) (g\<lparr>g_streams := ?streams\<rparr>) (i_world i)"
  let ?w' = "if ?streams = [] \<and> g_tombstones g = [] then erase_group (key_device key) (key_kind key) ?w else ?w"
  have empty: "st_records (remove_record incoming s) = []" by (simp add: remove_record_def s)
  have rb: "rollback key incoming i = i\<lparr>i_world := ?w', i_total_records := i_total_records i - 1\<rparr>"
    using g s by (simp add: rollback_def Let_def om_get_def empty)
  have gwf: "group_wf (g\<lparr>g_streams := ?streams\<rparr>)" using find_group_wf [OF w g(1)] by (simp add: group_wf_def)
  have wd: "i_world (rollback key incoming i) = ?w'" unfolding rb by simp
  have w1: "world_wf ?w" by (rule world_wf_put_group [OF w gwf])
  have wf1: "world_wf ?w'" by (rule world_wf_if [OF world_wf_erase_group [OF w1] w1])
  show wf': "world_wf (i_world (rollback key incoming i))"
    unfolding wd by (rule wf1)
  have lookup: "map_of ?streams = (map_of (g_streams g))(key_source key := None)" by simp
  have none: "map_of (g_streams g) x = None" if "?streams = []" "x \<noteq> key_source key" for x
  proof -
    have "map_of ?streams x = None" by (simp only: that(1)) simp
    then show ?thesis using that(2) by simp
  qed
  show fs: "find_stream (i_world (rollback key incoming i)) = (find_stream (i_world i))(key := None)"
  proof
    fix k
    show "find_stream (i_world (rollback key incoming i)) k = ((find_stream (i_world i))(key := None)) k"
      using g(1) none [of "key_source k"] unfolding rb
      by (cases k; cases key) (auto simp: find_stream_def find_group_erase_group)
  qed
  show "find_tombstone (i_world (rollback key incoming i)) = find_tombstone (i_world i)"
  proof
    fix k
    show "find_tombstone (i_world (rollback key incoming i)) k = find_tombstone (i_world i) k"
      using g(1) unfolding rb by (auto simp: find_tombstone_def find_group_erase_group)
  qed
  show "i_total_records (rollback key incoming i) = record_count (i_world (rollback key incoming i))"
    using record_count_del [OF w wf' fs] s total by (simp add: rb)
  show "only_records i (rollback key incoming i)" by (simp add: rb only_records_def)
qed

section \<open>The invariant of the registry\<close>

definition devices_ok :: "Impl \<Rightarrow> bool" where
  "devices_ok i \<longleftrightarrow> om_wf (i_incarnations i) \<and> (\<forall>d entry. map_of (i_incarnations i) d = Some entry \<longrightarrow>
     ie_device entry = d \<and> ie_current entry \<in> set (ie_history entry) \<and> sorted (ie_history entry))"

definition decisions_ok :: "Impl \<Rightarrow> bool" where
  "decisions_ok i \<longleftrightarrow> om_wf (i_decisions i) \<and> distinct (i_decision_order i)
     \<and> set (i_decision_order i) = fst ` set (i_decisions i)"

definition tables_ok :: "Impl \<Rightarrow> bool" where
  "tables_ok i \<longleftrightarrow> sorted (map cg_id (i_conflicts i)) \<and> distinct (map (\<lambda>g. (cg_device g, cg_kind g)) (i_conflicts i))
     \<and> sorted (map cr_id (i_resolutions i)) \<and> distinct (map cr_id (i_resolutions i))"

definition registry_inv :: "Impl \<Rightarrow> bool" where
  "registry_inv i \<longleftrightarrow> world_inv (i_world i) \<and> unique_ids (i_world i) \<and> i_total_records i = record_count (i_world i)
     \<and> devices_ok i \<and> decisions_ok i \<and> tables_ok i"

text \<open>
  The content hash does not collide on the incoming evidence: a stored record of the same id is in the
  stream the evidence belongs to.
\<close>

definition collision_free :: "Impl \<Rightarrow> AdmissionRequest \<Rightarrow> bool" where
  "collision_free i q \<longleftrightarrow> (\<forall>key r. record_at (i_world i) key r \<and> stored_id r = evidence_id (make_evidence i q) \<longrightarrow> key = request_key q)"

lemma distinct_map_sort_key: "distinct (map f (sort_key g xs)) \<longleftrightarrow> distinct (map f xs)"
  by (rule mset_eq_imp_distinct_iff) simp

lemma map_replace_first: "find P xs = Some y \<Longrightarrow> f v = f y \<Longrightarrow> map f (replace_first P v xs) = map f xs"
  by (induction xs) (auto split: if_splits)

lemma map_erase_first: "set (erase_first P xs) \<subseteq> set xs" "sorted (map f xs) \<Longrightarrow> sorted (map f (erase_first P xs))"
  "distinct (map g xs) \<Longrightarrow> distinct (map g (erase_first P xs))"
proof -
  have sub: "set (erase_first P xs) \<subseteq> set xs" for xs by (induction xs) auto
  show "set (erase_first P xs) \<subseteq> set xs" by (rule sub)
  show "sorted (map f xs) \<Longrightarrow> sorted (map f (erase_first P xs))"
    by (induction xs) (use sub in fastforce)+
  show "distinct (map g xs) \<Longrightarrow> distinct (map g (erase_first P xs))"
    by (induction xs) (use sub in fastforce)+
qed

lemma find_conflict_Some:
  "find_conflict t d k = Some g \<Longrightarrow> find (is_group d k) t = Some g \<and> cg_device g = d \<and> cg_kind g = k"
  using find_Some_iff [of "is_group d k" t g] by (simp add: find_conflict_def is_group_def [abs_def])

lemma tables_ok_refresh: "tables_ok i \<Longrightarrow> tables_ok (refresh_conflict d k now i)"
proof -
  let ?keys = "\<lambda>g. (cg_device g, cg_kind g)"
  assume ok: "tables_ok i"
  then have sc: "sorted (map cg_id (i_conflicts i))" and dc: "distinct (map ?keys (i_conflicts i))" by (simp_all add: tables_ok_def)
  have "sorted (map cg_id (i_conflicts (refresh_conflict d k now i))) \<and> distinct (map ?keys (i_conflicts (refresh_conflict d k now i)))"
  proof (cases "find_conflict (i_conflicts i) d k")
    case None
    have "distinct (map ?keys (i_conflicts i @ [group_at i now (d, k)]))"
      using dc None by (auto simp: find_conflict_None group_at_def)
    then show ?thesis using sc dc by (auto simp: refresh_conflict_new [OF None] distinct_map_sort_key simp del: map_append)
  next
    case (Some old)
    note old = find_conflict_Some [OF Some]
    let ?new = "conflict_group d k (derive i d k now 0)"
    let ?t = "replace_first (is_group d k) ?new (i_conflicts i)"
    have keys: "map ?keys ?t = map ?keys (i_conflicts i)" using old by (intro map_replace_first) auto
    have "distinct (map ?keys (sort_key cg_id ?t))" unfolding distinct_map_sort_key keys by (rule dc)
    moreover have "cg_id old = cg_id ?new \<Longrightarrow> map cg_id ?t = map cg_id (i_conflicts i)"
      using map_replace_first [OF conjunct1 [OF old], of cg_id ?new] by simp
    ultimately show ?thesis
      using sc dc Some by (auto simp: refresh_conflict_def Let_def keys intro: map_erase_first(2,3))
  qed
  then show ?thesis using ok by (simp add: tables_ok_def)
qed

lemma only_records_ok:
  assumes "only_records i j"
  shows "devices_ok j = devices_ok i" "decisions_ok j = decisions_ok i" "tables_ok j = tables_ok i"
  using only_records_frame [OF assms] by (simp_all add: devices_ok_def decisions_ok_def tables_ok_def)

lemma registry_inv_records:
  "registry_inv i \<Longrightarrow> only_records i j \<Longrightarrow> world_inv (i_world j) \<Longrightarrow> unique_ids (i_world j) \<Longrightarrow>
   i_total_records j = record_count (i_world j) \<Longrightarrow> registry_inv j"
  by (simp add: registry_inv_def only_records_ok)

lemma registry_inv_refresh [simp]: "registry_inv i \<Longrightarrow> registry_inv (refresh_conflict d k now i)"
  by (simp add: registry_inv_def tables_ok_refresh) (simp add: devices_ok_def decisions_ok_def)

lemma registry_inv_counters [simp]: "registry_inv (i_counters_update f i) \<longleftrightarrow> registry_inv i"
  by (simp add: registry_inv_def devices_ok_def decisions_ok_def tables_ok_def)

lemma registry_inv_counts [simp]:
  "registry_inv (count_rejected i) \<longleftrightarrow> registry_inv i" "registry_inv (count_accepted i) \<longleftrightarrow> registry_inv i"
  "registry_inv (count_idempotent i) \<longleftrightarrow> registry_inv i"
  by (simp_all add: count_rejected_def count_accepted_def count_idempotent_def)

lemma count_frames [simp]:
  "i_world (count_rejected i) = i_world i" "i_world (count_accepted i) = i_world i" "i_world (count_idempotent i) = i_world i"
  "i_policy (count_rejected i) = i_policy i" "i_policy (count_accepted i) = i_policy i" "i_policy (count_idempotent i) = i_policy i"
  "i_total_records (count_rejected i) = i_total_records i" "i_total_records (count_accepted i) = i_total_records i"
  "i_incarnations (count_rejected i) = i_incarnations i" "i_incarnations (count_accepted i) = i_incarnations i"
  "i_incarnations (count_idempotent i) = i_incarnations i"
  "i_boot_epoch (count_rejected i) = i_boot_epoch i" "i_boot_epoch (count_accepted i) = i_boot_epoch i"
  "i_boot_epoch (count_idempotent i) = i_boot_epoch i" "i_epoch (count_accepted i) = i_epoch i"
  "i_policy_revision (count_accepted i) = i_policy_revision i" "i_next_incarnation (count_accepted i) = i_next_incarnation i"
  by (simp_all add: count_rejected_def count_accepted_def count_idempotent_def)

lemma derive_counts [simp]:
  "derive (count_rejected i) = derive i" "derive (count_accepted i) = derive i" "derive (count_idempotent i) = derive i"
  by (rule derive_cong; simp)+

lemma unique_ids_D:
  "unique_ids w \<Longrightarrow> record_at w k1 r1 \<Longrightarrow> record_at w k2 r2 \<Longrightarrow> stored_id r1 = stored_id r2 \<Longrightarrow> k1 = k2 \<and> r1 = r2"
  unfolding unique_ids_def record_at_def by blast

text \<open>Writing a stream back, or an empty one where there was none, changes nothing that is observed.\<close>

lemma registry_inv_put_stream:
  assumes inv: "registry_inv i" and ok: "stream_ok key s"
    and fresh: "\<And>r k r'. r \<in> set (st_records s) \<Longrightarrow> record_at (i_world i) k r' \<Longrightarrow> k \<noteq> key \<Longrightarrow> stored_id r \<noteq> stored_id r'"
    and total: "t + stream_length (i_world i) key = i_total_records i + length (st_records s)"
  shows "registry_inv (i\<lparr>i_world := put_stream key s (i_world i), i_total_records := t\<rparr>)"
proof (rule registry_inv_records [OF inv])
  let ?j = "i\<lparr>i_world := put_stream key s (i_world i), i_total_records := t\<rparr>"
  show "only_records i ?j" by (simp add: only_records_def)
  show "world_inv (i_world ?j)" using inv ok by (simp add: registry_inv_def world_inv_put_stream)
  show "unique_ids (i_world ?j)" using inv ok fresh by (simp add: registry_inv_def unique_ids_put)
  have "world_wf (i_world i)" using inv by (simp add: registry_inv_def world_inv_def)
  from record_count_put [OF this, of key s] total inv show "i_total_records ?j = record_count (i_world ?j)"
    by (simp add: registry_inv_def stream_length_def split: option.splits)
qed

definition stream_at :: "World \<Rightarrow> EvidenceKey \<Rightarrow> Stream" where
  "stream_at w key = (case find_stream w key of None \<Rightarrow> empty_stream | Some s \<Rightarrow> s)"

lemma stream_at_facts:
  assumes "registry_inv i"
  shows "stream_ok key (stream_at (i_world i) key)"
    "r \<in> set (st_records (stream_at (i_world i) key)) \<longleftrightarrow> record_at (i_world i) key r"
    "stream_length (i_world i) key = length (st_records (stream_at (i_world i) key))"
  using assms
  by (auto simp: stream_at_def registry_inv_def world_inv_def record_at_def stream_length_def empty_stream_def split: option.splits)
    (simp add: stream_ok_empty [unfolded empty_stream_def])

lemma ensured_inv:
  assumes "registry_inv i"
  shows "registry_inv (i\<lparr>i_world := put_stream key (stream_at (i_world i) key) (i_world i)\<rparr>)"
proof -
  have "registry_inv (i\<lparr>i_world := put_stream key (stream_at (i_world i) key) (i_world i), i_total_records := i_total_records i\<rparr>)"
  proof (rule registry_inv_put_stream [OF assms stream_at_facts(1) [OF assms]])
    show "stored_id r \<noteq> stored_id r'" if "r \<in> set (st_records (stream_at (i_world i) key))" "record_at (i_world i) k r'" "k \<noteq> key" for r k r'
      using that assms stream_at_facts(2) [OF assms] unique_ids_D unfolding registry_inv_def by metis
  qed (simp add: stream_at_facts(3) [OF assms])
  then show ?thesis by simp
qed

lemma live_generation:
  assumes "world_wf (i_world i)" "r \<in> set (dv_live (derive i d k now mo))"
  shows "\<exists>sid s. find_stream (i_world i) (EvidenceKey d k sid) = Some s \<and> r \<in> set (st_records s)
    \<and> s_lifecycle r = LifecycleAdmitted \<and> st_max_generation s \<le> e_generation (s_evidence r)"
  using assms(2) unfolding live_iff active_in_stream [OF assms(1)] active_conditions_def by blast

section \<open>A new generation\<close>

definition with_new :: "EvidenceKey \<Rightarrow> CapabilityEvidence \<Rightarrow> Stream \<Rightarrow> Tick \<Rightarrow> Impl \<Rightarrow> Impl" where
  "with_new key e s now i = i\<lparr>i_world := put_stream key \<lparr>st_records = insert_before generation_less
       (stored_as e LifecycleAdmitted (if st_max_generation s = 0 then AcceptedNew else AcceptedSuperseding) now) (st_records s),
     st_max_generation = e_generation e\<rparr> (i_world i), i_total_records := i_total_records i + 1\<rparr>"

definition id_unused :: "World \<Rightarrow> EvidenceId \<Rightarrow> bool" where
  "id_unused w rid \<longleftrightarrow> (\<forall>k r. record_at w k r \<longrightarrow> stored_id r \<noteq> rid)"

lemma record_at_put: "record_at (put_stream key s w) k r \<longleftrightarrow> (if k = key then r \<in> set (st_records s) else record_at w k r)"
  by (simp add: record_at_def)

lemma with_new_record_at:
  assumes "find_stream (i_world i) key = Some s"
  shows "record_at (i_world (with_new key e s now i)) k r \<longleftrightarrow> record_at (i_world i) k r
    \<or> k = key \<and> r = stored_as e LifecycleAdmitted (if st_max_generation s = 0 then AcceptedNew else AcceptedSuperseding) now"
proof -
  have "r \<in> set (st_records s) \<longleftrightarrow> record_at (i_world i) key r" for r using assms by (simp add: record_at_def)
  then show ?thesis by (auto simp: with_new_def record_at_put)
qed

lemma with_new_inv:
  assumes inv: "registry_inv i" and s: "find_stream (i_world i) key = Some s"
    and e: "e_key e = key" "e_generation e \<noteq> 0" "st_max_generation s < e_generation e"
    and unused: "id_unused (i_world i) (evidence_id e)"
  shows "registry_inv (with_new key e s now i)" "budget_inv (evidence_id e) (with_new key e s now i)"
proof -
  have fresh: "record_at (i_world i) k r \<Longrightarrow> stored_id r \<noteq> evidence_id e" for k r
    using unused by (simp add: id_unused_def)
  let ?r = "stored_as e LifecycleAdmitted (if st_max_generation s = 0 then AcceptedNew else AcceptedSuperseding) now"
  let ?s = "\<lparr>st_records = insert_before generation_less ?r (st_records s), st_max_generation = e_generation e\<rparr>"
  have at: "r \<in> set (st_records s) \<longleftrightarrow> record_at (i_world i) key r" for r using s by (simp add: record_at_def)
  have ok: "stream_ok key s" and u: "unique_ids (i_world i)" using inv s by (simp_all add: registry_inv_def world_inv_def)
  have "evidence_id e \<notin> stored_id ` set (st_records s)" using fresh [of key] at by (metis imageE)
  then have ok': "stream_ok key ?s" by (rule stream_ok_insert_new [OF ok e])
  show inv': "registry_inv (with_new key e s now i)"
    unfolding with_new_def
  proof (rule registry_inv_put_stream [OF inv ok'])
    show "stored_id x \<noteq> stored_id r'" if "x \<in> set (st_records ?s)" "record_at (i_world i) k r'" "k \<noteq> key" for x k r'
      using that fresh [of k r'] unique_ids_D [OF u, of key x k r'] at by auto
    show "i_total_records i + 1 + stream_length (i_world i) key = i_total_records i + length (st_records ?s)"
      using s by (simp add: stream_length_def)
  qed
  have "newest (i_world (with_new key e s now i)) (evidence_id e)"
    unfolding newest_def
  proof (intro allI impI, elim conjE)
    fix k s' r assume a: "find_stream (i_world (with_new key e s now i)) k = Some s'" "r \<in> set (st_records s')" "stored_id r = evidence_id e"
    then have "record_at (i_world (with_new key e s now i)) k r" by (auto simp: record_at_def)
    then have "k = key \<and> r = ?r" using a(3) fresh with_new_record_at [OF s] by blast
    then show "e_generation (s_evidence r) = st_max_generation s'" using a(1) by (auto simp: with_new_def)
  qed
  then show "budget_inv (evidence_id e) (with_new key e s now i)"
    using inv' by (simp add: budget_inv_def registry_inv_def)
qed

lemma distinct_single:
  assumes "distinct xs" "\<And>x. x \<in> set xs \<Longrightarrow> x = a" "a \<in> set xs"
  shows "xs = [a]"
proof -
  have "set xs = {a}" using assms(2,3) by blast
  moreover from this have "length xs = 1" using distinct_card [OF assms(1)] by simp
  ultimately show ?thesis by (cases xs) auto
qed

lemma budget_failure_alone:
  assumes inv: "registry_inv i" and s: "find_stream (i_world i) key = Some s"
    and e: "e_key e = key" "e_generation e \<noteq> 0" "st_max_generation s < e_generation e"
    and unused: "id_unused (i_world i) (evidence_id e)"
    and fail: "enforce_budget key (evidence_id e) now (with_new key e s now i) = (False, i2, evicted)"
  shows "\<exists>s2 r0. find_stream (i_world i2) key = Some s2 \<and> st_records s2 = [r0] \<and> stored_id r0 = evidence_id e"
proof -
  have fresh: "record_at (i_world i) k r \<Longrightarrow> stored_id r \<noteq> evidence_id e" for k r
    using unused by (simp add: id_unused_def)
  let ?i1 = "with_new key e s now i"
  let ?r = "stored_as e LifecycleAdmitted (if st_max_generation s = 0 then AcceptedNew else AcceptedSuperseding) now"
  note spec = enforce_budget_spec [OF with_new_inv(2) [OF inv s e unused] fail]
  have w2: "world_wf (i_world i2)" "unique_ids (i_world i2)" "world_inv (i_world i2)" "newest (i_world i2) (evidence_id e)"
    using conjunct1 [OF spec] by (auto simp: budget_inv_def world_inv_def)
  have sub: "record_at (i_world i2) k x \<Longrightarrow> record_at (i_world ?i1) k x" for k x using spec by blast
  have live2: "record_at (i_world i2) key x \<Longrightarrow> stored_id x \<noteq> evidence_id e \<Longrightarrow>
      x \<in> set (dv_live (derive i2 (key_device key) (key_kind key) now 0))" for x using spec by blast
  have "record_at (i_world ?i1) key ?r" using with_new_record_at [OF s] by blast
  moreover have "stored_id ?r \<notin> set evicted" using spec by (simp only: stored_as_simps) blast
  ultimately have r2: "record_at (i_world i2) key ?r" using spec by blast
  then obtain s2 where s2: "find_stream (i_world i2) key = Some s2" "?r \<in> set (st_records s2)" by (auto simp: record_at_def)
  have top: "st_max_generation s2 = e_generation e" using w2(4) s2 unfolding newest_def by fastforce
  have only: "x = ?r" if x: "x \<in> set (st_records s2)" for x
  proof (rule ccontr)
    assume "x \<noteq> ?r"
    have at2: "record_at (i_world i2) key x" using s2(1) x by (auto simp: record_at_def)
    then have at1: "record_at (i_world i) key x" using sub [OF at2] with_new_record_at [OF s] \<open>x \<noteq> ?r\<close> by blast
    then have "x \<in> set (dv_live (derive i2 (key_device key) (key_kind key) now 0))" using live2 [OF at2] fresh by blast
    then obtain sid s' where l: "find_stream (i_world i2) (EvidenceKey (key_device key) (key_kind key) sid) = Some s'"
      "x \<in> set (st_records s')" "st_max_generation s' \<le> e_generation (s_evidence x)" using live_generation [OF w2(1)] by blast
    have "record_at (i_world i2) (EvidenceKey (key_device key) (key_kind key) sid) x" using l(1,2) by (auto simp: record_at_def)
    then have "EvidenceKey (key_device key) (key_kind key) sid = key" using unique_ids_D [OF w2(2) _ at2] by blast
    then have "s' = s2" using l(1) s2(1) by simp
    then have "e_generation e \<le> e_generation (s_evidence x)" using l(3) top by simp
    moreover have "stream_ok key s" using inv s by (simp add: registry_inv_def world_inv_def)
    then have "e_generation (s_evidence x) \<le> st_max_generation s"
      using at1 s max_generation_bounds(1) [of x "st_records s"] by (auto simp: record_at_def stream_ok_def)
    ultimately show False using e(3) by simp
  qed
  have "distinct (st_records s2)" using w2(3) s2(1) by (auto simp: world_inv_def stream_ok_def distinct_map)
  then have "st_records s2 = [?r]" using only s2(2) by (rule distinct_single)
  then show ?thesis using s2(1) by auto
qed

lemma admit_new_eq:
  "admit_new key e s now i = (case enforce_budget key (evidence_id e) now (with_new key e s now i) of (ok, i2, evicted) \<Rightarrow>
     if \<not> ok then (count_rejected (rollback key (evidence_id e) i2),
        Failure RejectedRecordBudgetExhausted ''no evictable record exists to satisfy the record budget'')
     else (let i3 = refresh_conflict (key_device key) (key_kind key) now (count_accepted i2);
               d = derive i3 (key_device key) (key_kind key) now 0
           in (i3, Success Ok (default_outcome\<lparr>ao_id := evidence_id e,
                 ao_reason := (if st_max_generation s = 0 then AcceptedNew else AcceptedSuperseding),
                 ao_stream_generation := e_generation e,
                 ao_superseded := (if st_max_generation s \<noteq> 0 then sort (map stored_id (filter
                    (\<lambda>r. e_generation (s_evidence r) < e_generation e) (insert_before generation_less
                      (stored_as e LifecycleAdmitted (if st_max_generation s = 0 then AcceptedNew else AcceptedSuperseding) now)
                      (st_records s)))) else []),
                 ao_evicted := evicted, ao_state := state_in (dv_facts d) (evidence_id e),
                 ao_conflict := (if dv_disagrees d then dv_conflict d else None)\<rparr>))))"
  by (simp add: admit_new_def with_new_def Let_def)

lemma budget_kept_inv:
  assumes "registry_inv i" "budget_inv keep i" "enforce_budget key keep now i = (ok, i', ev)"
  shows "registry_inv i'"
  using enforce_budget_spec [OF assms(2,3)] enforce_budget_shape(1) [OF assms(2,3)]
  by (intro registry_inv_records [OF assms(1)]) (auto simp: budget_inv_def)

lemma admit_new_inv:
  assumes inv: "registry_inv i" and s: "find_stream (i_world i) key = Some s"
    and e: "e_key e = key" "e_generation e \<noteq> 0" "st_max_generation s < e_generation e"
    and unused: "id_unused (i_world i) (evidence_id e)"
  shows "registry_inv (fst (admit_new key e s now i))"
proof -
  obtain ok i2 evicted where b: "enforce_budget key (evidence_id e) now (with_new key e s now i) = (ok, i2, evicted)"
    by (cases "enforce_budget key (evidence_id e) now (with_new key e s now i)")
  note wn = with_new_inv [OF inv s e unused]
  have inv2: "registry_inv i2" by (rule budget_kept_inv [OF wn b])
  show ?thesis
  proof (cases ok)
    case True
    then show ?thesis using inv2 by (simp add: admit_new_eq b Let_def)
  next
    case False
    then have "enforce_budget key (evidence_id e) now (with_new key e s now i) = (False, i2, evicted)" using b by simp
    from budget_failure_alone [OF inv s e unused this]
    obtain s2 r0 where s2: "find_stream (i_world i2) key = Some s2" "st_records s2 = [r0]" "stored_id r0 = evidence_id e"
      by blast
    have w2: "world_wf (i_world i2)" "i_total_records i2 = record_count (i_world i2)"
      using inv2 by (simp_all add: registry_inv_def world_inv_def)
    note rb = rollback_alone [OF w2(1) s2 w2(2)]
    have "registry_inv (rollback key (evidence_id e) i2)"
    proof (rule registry_inv_records [OF inv2 rb(5)])
      show "world_inv (i_world (rollback key (evidence_id e) i2))"
        using inv2 rb(1,2,3) by (auto simp: registry_inv_def world_inv_def split: if_splits)
      show "unique_ids (i_world (rollback key (evidence_id e) i2))"
        using inv2 unfolding registry_inv_def unique_ids_def rb(2) by (metis fun_upd_apply option.distinct(1))
    qed (rule rb(4))
    then show ?thesis using False by (simp add: admit_new_eq b)
  qed
qed

lemma admit_refused_inv:
  assumes inv: "registry_inv i" and s: "find_stream (i_world i) key = Some s"
    and e: "e_key e = key" "e_generation e \<noteq> 0" "e_generation e \<le> st_max_generation s"
    and unused: "id_unused (i_world i) (evidence_id e)"
  shows "registry_inv (fst (admit_refused key e s now i))"
proof -
  have at: "r \<in> set (st_records s) \<longleftrightarrow> record_at (i_world i) key r" for r using s by (simp add: record_at_def)
  have ok: "stream_ok key s" and u: "unique_ids (i_world i)" using inv s by (simp_all add: registry_inv_def world_inv_def)
  have "evidence_id e \<notin> stored_id ` set (st_records s)" using unused at unfolding id_unused_def by (metis imageE)
  note ok' = stream_ok_insert_rejected [OF ok e this]
  have "registry_inv ((count_rejected i)\<lparr>i_world := put_stream key (s\<lparr>st_records := insert_before generation_less
      (stored_as e LifecycleRejected reason now) (st_records s)\<rparr>) (i_world (count_rejected i)), i_total_records := i_total_records (count_rejected i) + 1\<rparr>)" for reason
  proof (rule registry_inv_put_stream)
    show "registry_inv (count_rejected i)" using inv by simp
    show "stored_id x \<noteq> stored_id r'" if "x \<in> set (st_records (s\<lparr>st_records := insert_before generation_less
        (stored_as e LifecycleRejected reason now) (st_records s)\<rparr>))" "record_at (i_world (count_rejected i)) k r'" "k \<noteq> key" for x k r'
    proof -
      have "stored_id r' \<noteq> evidence_id e" using that(2) unused by (simp add: id_unused_def)
      then show ?thesis using that unique_ids_D [OF u, of key x k r'] at by auto
    qed
    show "i_total_records (count_rejected i) + 1 + stream_length (i_world (count_rejected i)) key =
      i_total_records (count_rejected i) + length (st_records (s\<lparr>st_records := insert_before generation_less
        (stored_as e LifecycleRejected reason now) (st_records s)\<rparr>))"
      using s by (simp add: stream_length_def)
  qed (rule ok')
  then show ?thesis using inv by (simp add: admit_refused_def Let_def)
qed

section \<open>The whole operation\<close>

lemma raise_next_frame [simp]:
  "i_world (raise_next_incarnation n i) = i_world i" "i_policy (raise_next_incarnation n i) = i_policy i"
  "i_incarnations (raise_next_incarnation n i) = i_incarnations i" "i_total_records (raise_next_incarnation n i) = i_total_records i"
  "i_epoch (raise_next_incarnation n i) = i_epoch i" "i_boot_epoch (raise_next_incarnation n i) = i_boot_epoch i"
  "i_policy_revision (raise_next_incarnation n i) = i_policy_revision i" "i_conflicts (raise_next_incarnation n i) = i_conflicts i"
  "i_resolutions (raise_next_incarnation n i) = i_resolutions i" "i_decisions (raise_next_incarnation n i) = i_decisions i"
  "i_decision_order (raise_next_incarnation n i) = i_decision_order i" "i_evictions (raise_next_incarnation n i) = i_evictions i"
  "i_counters (raise_next_incarnation n i) = i_counters i"
  by (simp_all add: raise_next_incarnation_def)

lemma register_device_frame:
  assumes "register_device dev i = Inr j"
  shows "i_world j = i_world i" "i_policy j = i_policy i" "i_epoch j = i_epoch i" "i_boot_epoch j = i_boot_epoch i"
    "i_policy_revision j = i_policy_revision i" "i_total_records j = i_total_records i" "i_conflicts j = i_conflicts i"
    "i_counters j = i_counters i"
  using assms by (auto simp: register_device_def Let_def split: option.splits if_splits)

lemma devices_ok_put:
  assumes "devices_ok i" "ie_device entry = d" "ie_current entry \<in> set (ie_history entry)" "sorted (ie_history entry)"
    "i_incarnations j = om_put d entry (i_incarnations i)"
  shows "devices_ok j"
  using assms by (auto simp: devices_ok_def)

lemma register_device_inv:
  assumes "registry_inv i" "register_device dev i = Inr j"
  shows "registry_inv j"
proof -
  have d: "devices_ok i" using assms(1) by (simp add: registry_inv_def)
  have "devices_ok j"
  proof (cases "find_device i (dr_device dev)")
    case None
    then have "i_incarnations j = om_put (dr_device dev) \<lparr>ie_device = dr_device dev, ie_current = dr_incarnation dev,
        ie_history = [dr_incarnation dev]\<rparr> (i_incarnations i)"
      using assms(2) by (auto simp: register_device_def Let_def split: if_splits)
    then show ?thesis by (rule devices_ok_put [OF d, rotated 3]) simp_all
  next
    case (Some entry)
    then have ok: "ie_device entry = dr_device dev" "ie_current entry \<in> set (ie_history entry)" "sorted (ie_history entry)"
      using d by (auto simp: devices_ok_def find_device_def)
    have "i_incarnations j = i_incarnations i \<or> i_incarnations j =
        om_put (dr_device dev) (entry\<lparr>ie_history := sort (ie_history entry @ [dr_incarnation dev])\<rparr>) (i_incarnations i)"
      using assms(2) Some by (auto simp: register_device_def Let_def split: if_splits)
    then show ?thesis
    proof
      assume "i_incarnations j = i_incarnations i"
      then show ?thesis using d by (simp add: devices_ok_def)
    next
      assume "i_incarnations j = om_put (dr_device dev) (entry\<lparr>ie_history := sort (ie_history entry @ [dr_incarnation dev])\<rparr>) (i_incarnations i)"
      then show ?thesis by (rule devices_ok_put [OF d, rotated 3]) (simp_all add: ok)
    qed
  qed
  moreover have "i_resolutions j = i_resolutions i" "i_decisions j = i_decisions i" "i_decision_order j = i_decision_order i"
    using assms(2) by (auto simp: register_device_def Let_def split: option.splits if_splits)
  ultimately show ?thesis
    using assms(1) register_device_frame [OF assms(2)] by (simp add: registry_inv_def decisions_ok_def tables_ok_def)
qed

lemma make_evidence_simps [simp]:
  "e_key (make_evidence i q) = request_key q" "e_generation (make_evidence i q) = ar_generation q"
  "e_features (make_evidence i q) = ar_features q"
  by (simp_all add: make_evidence_def refresh_id_def)

lemma make_evidence_cong:
  "i_policy i = i_policy j \<Longrightarrow> i_epoch i = i_epoch j \<Longrightarrow> i_boot_epoch i = i_boot_epoch j \<Longrightarrow> i_policy_revision i = i_policy_revision j \<Longrightarrow>
   make_evidence i q = make_evidence j q"
  by (simp add: make_evidence_def)

lemma admission_refusal_None:
  "admission_refusal i q now = None \<Longrightarrow> ar_generation q \<noteq> 0"
  by (auto simp: admission_refusal_def Let_def is_unset_def split: if_splits)

lemma set_valid_reasons:
  "check_features kind cs = (False, reason) \<Longrightarrow> reason \<in> {RejectedUnknownFeatureCode, RejectedFeatureNotInKind}"
  "check_limits kind vs = (False, reason) \<Longrightarrow> reason \<in> {RejectedUnknownLimitCode, RejectedLimitNotInKind, RejectedNegativeLimit,
     RejectedLimitUnitInvalid, RejectedLimitUnitScaleInvalid, RejectedLimitScaleNotPermitted}"
  by (induction cs, auto split: if_splits) (induction vs, auto split: if_splits option.splits)

lemma admission_refusal_reason:
  "admission_refusal i q now = Some (reason, detail) \<Longrightarrow> reason \<noteq> RejectedRecordBudgetExhausted"
  by (auto simp: admission_refusal_def Let_def feature_set_valid_def limit_set_valid_def
      split: if_splits option.splits prod.splits bool.splits dest: set_valid_reasons)

lemma register_device_reason: "register_device dev i = Inl (reason, detail) \<Longrightarrow> reason = RejectedDeviceBudgetExhausted"
  by (auto simp: register_device_def Let_def split: if_splits option.splits)

definition ensured :: "EvidenceKey \<Rightarrow> Impl \<Rightarrow> Impl" where
  "ensured key i = i\<lparr>i_world := put_stream key (stream_at (i_world i) key) (i_world i)\<rparr>"

lemma ensured_facts:
  "find_stream (i_world (ensured key i)) = (find_stream (i_world i))(key \<mapsto> stream_at (i_world i) key)"
  "record_at (i_world (ensured key i)) k r \<longleftrightarrow> record_at (i_world i) k r"
  "find_tombstone (i_world (ensured key i)) = find_tombstone (i_world i)"
  "i_policy (ensured key i) = i_policy i" "i_incarnations (ensured key i) = i_incarnations i"
  by (auto simp: ensured_def record_at_def stream_at_def empty_stream_def split: option.splits)

text \<open>How an admission ends: refused before the stream is touched, or one of the three endings.\<close>

lemma admit_endings:
  assumes inv: "registry_inv i" and cf: "collision_free i q"
  obtains (early) reason detail i' where "admit q now i = (count_rejected i', Failure reason detail)"
      "registry_inv i'" "i_world i' = i_world i" "reason \<noteq> RejectedRecordBudgetExhausted"
  | (later) j e s where "register_device (ar_device q) i = Inr j" "e = make_evidence i q" "s = stream_at (i_world i) (request_key q)"
      "registry_inv (ensured (request_key q) j)" "i_world j = i_world i" "e = make_evidence j q"
      "e_key e = request_key q" "e_generation e = ar_generation q" "e_generation e \<noteq> 0" "stream_ok (request_key q) s"
      "\<And>t. find_tombstone (i_world i) (request_key q) = Some t \<Longrightarrow> rr_generation t < ar_generation q"
      "(\<exists>r \<in> set (st_records s). stored_id r = evidence_id e)
         \<and> admit q now i = admit_present (request_key q) (evidence_id e) s now (ensured (request_key q) j)
       \<or> id_unused (i_world (ensured (request_key q) j)) (evidence_id e)
         \<and> (e_generation e \<le> st_max_generation s
              \<and> admit q now i = admit_refused (request_key q) e s now (ensured (request_key q) j)
            \<or> st_max_generation s < e_generation e
              \<and> admit q now i = admit_new (request_key q) e s now (ensured (request_key q) j))"
proof (cases "admission_refusal i q now")
  case (Some p)
  obtain reason detail where p: "p = (reason, detail)" by force
  show thesis
    by (rule early [of i reason detail])
      (use Some p inv admission_refusal_reason in \<open>auto simp: admit_def reject_admission_def\<close>)
next
  case None
  note gen = admission_refusal_None [OF None]
  have pos: "0 < ar_generation q" using gen by (simp add: word_neq_0_conv)
  show thesis
  proof (cases "register_device (ar_device q) i")
    case (Inl p)
    obtain reason detail where p: "p = (reason, detail)" by force
    show thesis
      by (rule early [of i reason detail])
        (use None Inl p inv register_device_reason in \<open>fastforce simp: admit_def reject_admission_def\<close>)+
  next
    case (Inr j)
    note fr = register_device_frame [OF Inr]
    have invj: "registry_inv j" by (rule register_device_inv [OF inv Inr])
    let ?key = "request_key q" and ?e = "make_evidence i q" and ?s = "stream_at (i_world i) (request_key q)"
    have e: "make_evidence j q = ?e" using fr by (intro make_evidence_cong) simp_all
    have run: "admit q now i = admit_registered q now j" using None Inr by (simp add: admit_def)
    have sj: "?s = stream_at (i_world j) ?key" by (simp add: fr)
    consider (streams) "find_stream (i_world j) ?key = None" "count_streams (i_world j) \<ge> max_streams (p_limits (i_policy j))"
      | (tomb) "\<not> (find_stream (i_world j) ?key = None \<and> count_streams (i_world j) \<ge> max_streams (p_limits (i_policy j)))"
          "\<exists>t. find_tombstone (i_world j) ?key = Some t \<and> ar_generation q \<le> rr_generation t"
      | (go) "\<not> (find_stream (i_world j) ?key = None \<and> count_streams (i_world j) \<ge> max_streams (p_limits (i_policy j)))"
          "\<And>t. find_tombstone (i_world j) ?key = Some t \<Longrightarrow> rr_generation t < ar_generation q"
      by (meson not_le)
    then show thesis
    proof cases
      case streams
      then have eq: "admit q now i = (count_rejected j, Failure RejectedStreamBudgetExhausted ''stream bound reached'')"
        by (simp add: run admit_registered_def reject_admission_def)
      show thesis by (rule early [OF eq invj fr(1)]) simp
    next
      case tomb
      then have eq: "admit q now i = (count_rejected j, Failure RejectedRetiredStream ''stream is retired at this generation or later'')"
        unfolding run admit_registered_def reject_admission_def Let_def by (elim exE conjE) (simp only: if_False if_True option.case)
      show thesis by (rule early [OF eq invj fr(1)]) simp
    next
      case go
      have tc: "\<not> (case find_tombstone (i_world j) ?key of None \<Rightarrow> False | Some t \<Rightarrow> rr_generation t \<ge> ar_generation q)"
        using go(2) by (cases "find_tombstone (i_world j) ?key") (simp_all add: not_le)
      have unfold: "admit q now i = (if \<exists>r \<in> set (st_records ?s). stored_id r = evidence_id ?e
          then admit_present ?key (evidence_id ?e) ?s now (ensured ?key j)
          else if st_max_generation ?s \<noteq> 0 \<and> ar_generation q \<le> st_max_generation ?s
          then admit_refused ?key ?e ?s now (ensured ?key j) else admit_new ?key ?e ?s now (ensured ?key j))"
        by (simp only: run admit_registered_def Let_def go(1) tc if_False stream_at_def [symmetric] ensured_def e sj)
      have unused: "id_unused (i_world (ensured ?key j)) (evidence_id ?e)" if "\<not> (\<exists>r \<in> set (st_records ?s). stored_id r = evidence_id ?e)"
        using that cf stream_at_facts(2) [OF inv] unfolding id_unused_def ensured_facts(2) fr(1) collision_free_def by blast
      have "registry_inv (ensured ?key j)" using ensured_inv [OF invj] by (simp add: ensured_def)
      then show thesis
        using Inr gen pos go(2) unused fr(1) stream_at_facts(1) [OF inv] unfold e
        by (intro later [of j ?e ?s]) (auto simp: not_le)
    qed
  qed
qed

end
