(* ===== verification/AdmissionProps.thy ===== *)
theory AdmissionProps
  imports Admission
begin

text \<open>
  What an admission does to the registry: the invariant it keeps, what acceptance stores, what a refusal
  leaves alone, what a refusal for lack of budget costs, and that admitting twice is admitting once.
\<close>

lemma new_ending:
  assumes inv: "registry_inv i" and s: "find_stream (i_world i) key = Some s"
    and e: "e_key e = key" "e_generation e \<noteq> 0" "st_max_generation s < e_generation e"
    and unused: "id_unused (i_world i) (evidence_id e)"
    and b: "enforce_budget key (evidence_id e) now (with_new key e s now i) = (True, i2, evicted)"
  defines "r0 \<equiv> stored_as e LifecycleAdmitted (if st_max_generation s = 0 then AcceptedNew else AcceptedSuperseding) now"
  shows "record_at (i_world i2) key r0" "st_max_generation (stream_at (i_world i2) key) = e_generation e"
    "\<And>r. record_at (i_world i2) key r \<Longrightarrow> stored_id r \<noteq> evidence_id e \<Longrightarrow> e_generation (s_evidence r) < e_generation e"
    "\<And>k r. record_at (i_world i2) k r \<longleftrightarrow> (record_at (i_world i) k r \<or> k = key \<and> r = r0) \<and> stored_id r \<notin> set evicted"
    "record_count (i_world i2) \<le> max_records (p_limits (i_policy i))"
    "stream_length (i_world i2) key \<le> max_records_per_stream (p_limits (i_policy i))"
    "registry_inv i2" "find_tombstone (i_world i2) = find_tombstone (i_world i)" "only_records i i2"
proof -
  note wn = with_new_inv [OF inv s e unused]
  note spec = enforce_budget_spec [OF wn(2) b]
  note at = with_new_record_at [OF s, of e now, folded r0_def]
  have pol: "i_policy (with_new key e s now i) = i_policy i" by (simp add: with_new_def)
  have kept: "evidence_id e \<notin> set evicted" using spec by blast
  have rid: "stored_id r0 = evidence_id e" by (simp add: r0_def)
  show sub: "record_at (i_world i2) k r \<longleftrightarrow> (record_at (i_world i) k r \<or> k = key \<and> r = r0) \<and> stored_id r \<notin> set evicted" for k r
    using spec at by blast
  show r0: "record_at (i_world i2) key r0" using sub kept rid by simp
  show inv2: "registry_inv i2" by (rule budget_kept_inv [OF wn b])
  have bi: "newest (i_world i2) (evidence_id e)" using conjunct1 [OF spec] by (simp add: budget_inv_def)
  have old: "e_generation (s_evidence r) < e_generation e" if "record_at (i_world i) key r" for r
  proof -
    have "stream_ok key s" using inv s by (simp add: registry_inv_def world_inv_def)
    then have "e_generation (s_evidence r) \<le> st_max_generation s"
      using that s max_generation_bounds(1) [of r "st_records s"] by (auto simp: record_at_def stream_ok_def)
    then show ?thesis using e(3) by simp
  qed
  show "e_generation (s_evidence r) < e_generation e" if "record_at (i_world i2) key r" "stored_id r \<noteq> evidence_id e" for r
    using that sub old rid by blast
  show "st_max_generation (stream_at (i_world i2) key) = e_generation e"
    using r0 bi rid unfolding newest_def record_at_def stream_at_def by (fastforce simp: r0_def)
  show "record_count (i_world i2) \<le> max_records (p_limits (i_policy i))"
    "stream_length (i_world i2) key \<le> max_records_per_stream (p_limits (i_policy i))" using spec by (simp_all add: pol)
  show "find_tombstone (i_world i2) = find_tombstone (i_world i)"
    using enforce_budget_shape(2) [OF wn(2) b] by (simp add: with_new_def)
  have "only_records i (with_new key e s now i)" by (simp add: with_new_def only_records_def)
  then show "only_records i i2" using enforce_budget_shape(1) [OF wn(2) b] only_records_trans by blast
qed

lemma admit_new_Success:
  "admit_new key e s now i = (i', Success c out) \<Longrightarrow>
   \<exists>i2 evicted. enforce_budget key (evidence_id e) now (with_new key e s now i) = (True, i2, evicted)
     \<and> i' = refresh_conflict (key_device key) (key_kind key) now (count_accepted i2) \<and> c = Ok
     \<and> ao_id out = evidence_id e \<and> ao_evicted out = evicted \<and> \<not> ao_idempotent out
     \<and> ao_reason out = (if st_max_generation s = 0 then AcceptedNew else AcceptedSuperseding)"
  unfolding admit_new_eq Let_def
  by (cases "enforce_budget key (evidence_id e) now (with_new key e s now i)")
    (auto simp: default_outcome_def split: if_splits)

lemma admit_new_Failure:
  "admit_new key e s now i = (i', Failure reason detail) \<Longrightarrow>
   \<exists>i2 evicted. enforce_budget key (evidence_id e) now (with_new key e s now i) = (False, i2, evicted)
     \<and> i' = count_rejected (rollback key (evidence_id e) i2) \<and> reason = RejectedRecordBudgetExhausted"
  unfolding admit_new_eq Let_def
  by (cases "enforce_budget key (evidence_id e) now (with_new key e s now i)") (auto split: if_splits)

lemma refused_outcome:
  "admit_refused key e s now i = (i', out) \<Longrightarrow> \<exists>o'. out = Success Ok o' \<and> \<not> ao_idempotent o'
     \<and> ao_reason o' \<in> {RejectedSupersededGeneration, RejectedGenerationCollision} \<and> ao_state o' = StateRejected"
  by (auto simp: admit_refused_def Let_def default_outcome_def)

lemma ensured_stream [simp]: "i_world j = w \<Longrightarrow> find_stream (i_world (ensured key j)) key = Some (stream_at w key)"
  by (simp add: ensured_facts)

text \<open>Admission keeps the invariant of the registry, whatever the request.\<close>

lemma admit_inv:
  assumes "registry_inv i" "collision_free i q"
  shows "registry_inv (fst (admit q now i))"
  using assms
proof (rule admit_endings [where now = now])
  fix reason detail i' assume "admit q now i = (count_rejected i', Failure reason detail)" "registry_inv i'"
  then show ?thesis by simp
next
  fix j e s
  assume s: "s = stream_at (i_world i) (request_key q)" "i_world j = i_world i" and inv: "registry_inv (ensured (request_key q) j)"
    and e: "e_key e = request_key q" "e_generation e \<noteq> 0"
    and run: "(\<exists>r \<in> set (st_records s). stored_id r = evidence_id e)
         \<and> admit q now i = admit_present (request_key q) (evidence_id e) s now (ensured (request_key q) j)
       \<or> id_unused (i_world (ensured (request_key q) j)) (evidence_id e)
         \<and> (e_generation e \<le> st_max_generation s
              \<and> admit q now i = admit_refused (request_key q) e s now (ensured (request_key q) j)
            \<or> st_max_generation s < e_generation e
              \<and> admit q now i = admit_new (request_key q) e s now (ensured (request_key q) j))"
  have fs: "find_stream (i_world (ensured (request_key q) j)) (request_key q) = Some s" using s by simp
  from run show ?thesis
    using inv admit_refused_inv [OF inv fs e] admit_new_inv [OF inv fs e] by (auto simp: admit_present_def)
qed

section \<open>What an admission leaves alone\<close>

definition stamps :: "Impl \<Rightarrow> RegistryPolicy \<times> RegistryEpoch \<times> PolicyRevision \<times> BootEpoch
    \<times> (DeviceIdentity, DeviceIncarnationEntry) omap \<times> u64" where
  "stamps i = (i_policy i, i_epoch i, i_policy_revision i, i_boot_epoch i, i_incarnations i, i_next_incarnation i)"

lemma apply_eviction_stamps: "apply_eviction c now i out = Some (i', out') \<Longrightarrow> stamps i' = stamps i"
  by (auto simp: apply_eviction_Some stamps_def)

lemma evict_global_stamps: "evict_global keep now i ev = (ok, i', ev') \<Longrightarrow> stamps i' = stamps i"
proof (induction keep now i ev arbitrary: ok i' ev' rule: evict_global.induct)
  case (1 keep now i ev)
  from 1(2) 1(1) show ?case
    by (subst (asm) evict_global.simps) (auto dest: apply_eviction_stamps split: if_splits option.splits)
qed

lemma evict_stream_stamps: "evict_stream key keep now i ev = (ok, i', ev') \<Longrightarrow> stamps i' = stamps i"
proof (induction key keep now i ev arbitrary: ok i' ev' rule: evict_stream.induct)
  case (1 key keep now i ev)
  from 1(2) 1(1) show ?case
    by (subst (asm) evict_stream.simps) (auto dest: apply_eviction_stamps split: if_splits option.splits)
qed

lemma enforce_budget_stamps: "enforce_budget key keep now i = (ok, i', ev) \<Longrightarrow> stamps i' = stamps i"
  by (auto simp: enforce_budget_def dest!: evict_global_stamps evict_stream_stamps split: prod.splits if_splits)

lemma simple_stamps [simp]:
  "stamps (count_rejected i) = stamps i" "stamps (count_accepted i) = stamps i" "stamps (count_idempotent i) = stamps i"
  "stamps (i\<lparr>i_world := w\<rparr>) = stamps i" "stamps (i\<lparr>i_total_records := n\<rparr>) = stamps i" "stamps (refresh_conflict d k now i) = stamps i"
  "stamps (refresh_all_conflicts now i) = stamps i" "stamps (rollback key rid i) = stamps i" "stamps (with_new key e s now i) = stamps i"
  by (simp_all add: stamps_def count_rejected_def count_accepted_def count_idempotent_def rollback_def with_new_def Let_def split: option.splits)

lemma admit_new_stamps: "stamps (fst (admit_new key e s now i)) = stamps i"
proof -
  obtain ok i2 ev where b: "enforce_budget key (evidence_id e) now (with_new key e s now i) = (ok, i2, ev)"
    by (cases "enforce_budget key (evidence_id e) now (with_new key e s now i)")
  show ?thesis using enforce_budget_stamps [OF b] by (simp add: admit_new_eq b Let_def)
qed

lemma admit_registered_stamps: "stamps (fst (admit_registered q now j)) = stamps j"
  by (simp add: admit_registered_def reject_admission_def admit_present_def admit_refused_def admit_new_stamps Let_def)

lemma admit_stamps:
  "i_policy (fst (admit q now i)) = i_policy i" "i_epoch (fst (admit q now i)) = i_epoch i"
  "i_policy_revision (fst (admit q now i)) = i_policy_revision i" "i_boot_epoch (fst (admit q now i)) = i_boot_epoch i"
proof -
  have "stamps (fst (admit q now i)) = stamps i
      \<or> (\<exists>j. register_device (ar_device q) i = Inr j \<and> stamps (fst (admit q now i)) = stamps j)"
    using admit_registered_stamps by (simp add: admit_def reject_admission_def split: option.splits sum.splits prod.splits)
  then show "i_policy (fst (admit q now i)) = i_policy i" "i_epoch (fst (admit q now i)) = i_epoch i"
    "i_policy_revision (fst (admit q now i)) = i_policy_revision i" "i_boot_epoch (fst (admit q now i)) = i_boot_epoch i"
    using register_device_frame by (auto simp: stamps_def)
qed

text \<open>Registration never changes the current incarnation of a device that is already registered.\<close>

lemma register_device_keeps:
  assumes "register_device dev i = Inr j"
  shows "find_device i d = Some e \<Longrightarrow> \<exists>e'. find_device j d = Some e' \<and> ie_current e' = ie_current e" "find_device j (dr_device dev) \<noteq> None"
  using assms
  by (auto simp: register_device_def raise_next_incarnation_def find_device_def Let_def split: option.splits if_splits)

lemma admit_devices:
  "i_incarnations (fst (admit q now i)) = i_incarnations i
   \<or> (\<exists>j. register_device (ar_device q) i = Inr j \<and> i_incarnations (fst (admit q now i)) = i_incarnations j)"
  using admit_registered_stamps by (auto simp: admit_def reject_admission_def stamps_def count_rejected_def split: option.splits sum.splits prod.splits)

lemma admit_keeps_current:
  assumes "find_device i d = Some e"
  shows "\<exists>e'. find_device (fst (admit q now i)) d = Some e' \<and> ie_current e' = ie_current e"
  using admit_devices [of q now i] register_device_keeps(1) [OF _ assms, of "ar_device q"] assms by (auto simp: find_device_def)

text \<open>Every record belongs to an incarnation in the history of a registered device.\<close>

definition records_owned :: "Impl \<Rightarrow> bool" where
  "records_owned i \<longleftrightarrow> (\<forall>key r. record_at (i_world i) key r \<longrightarrow>
     (\<exists>entry. find_device i (dr_device (key_device key)) = Some entry \<and> dr_incarnation (key_device key) \<in> set (ie_history entry)))"

text \<open>No device is forgotten and its history only grows.\<close>

definition devices_kept :: "Impl \<Rightarrow> Impl \<Rightarrow> bool" where
  "devices_kept i j \<longleftrightarrow> (\<forall>d entry. find_device i d = Some entry \<longrightarrow>
     (\<exists>entry'. find_device j d = Some entry' \<and> set (ie_history entry) \<subseteq> set (ie_history entry')))"

lemma devices_kept_refl [simp]: "i_incarnations j = i_incarnations i \<Longrightarrow> devices_kept i j"
  by (auto simp: devices_kept_def find_device_def)

lemma register_device_grows:
  assumes "register_device dev i = Inr j"
  shows "devices_kept i j" "\<exists>entry. find_device j (dr_device dev) = Some entry \<and> dr_incarnation dev \<in> set (ie_history entry)"
  using assms
  by (auto simp: devices_kept_def register_device_def raise_next_incarnation_def find_device_def Let_def split: option.splits if_splits)

lemma records_owned_current:
  assumes "records_owned i" "record_at (i_world i) key r"
    "\<And>d entry. find_device i d = Some entry \<Longrightarrow> \<exists>entry'. find_device j d = Some entry' \<and> ie_current entry' = ie_current entry"
  shows "device_current j (key_device key) \<longleftrightarrow> device_current i (key_device key)"
proof -
  obtain entry where e: "find_device i (dr_device (key_device key)) = Some entry" using assms(1,2) unfolding records_owned_def by blast
  from assms(3) [OF this] e show ?thesis by (auto simp: device_current_def)
qed

text \<open>The records of one stream that are active, and what their activity depends on.\<close>

definition active_at :: "Impl \<Rightarrow> EvidenceKey \<Rightarrow> Tick \<Rightarrow> Tick \<Rightarrow> StoredEvidence \<Rightarrow> bool" where
  "active_at i key t mo r \<longleftrightarrow> record_at (i_world i) key r
     \<and> active_conditions i r (stream_at (i_world i) key) (find_source (i_policy i) (key_source key)) (key_device key) t mo"

lemma active_in_at:
  assumes "world_wf (i_world i)"
  shows "active_in i d k t mo r \<longleftrightarrow> (\<exists>sid. active_at i (EvidenceKey d k sid) t mo r)"
proof -
  have "(\<exists>s. find_stream w k = Some s \<and> r \<in> set (st_records s) \<and> P s) \<longleftrightarrow> record_at w k r \<and> P (stream_at w k)" for w k r P
    by (cases "find_stream w k") (auto simp: record_at_def stream_at_def)
  then show ?thesis unfolding active_in_stream [OF assms] active_at_def by simp
qed

lemma active_at_cong:
  assumes "i_policy j = i_policy i" "i_boot_epoch j = i_boot_epoch i"
    and cur: "record_at (i_world i) key r \<Longrightarrow> device_current j (key_device key) \<longleftrightarrow> device_current i (key_device key)"
    and recs: "s_lifecycle r = LifecycleAdmitted \<Longrightarrow> record_at (i_world j) key r \<longleftrightarrow> record_at (i_world i) key r"
    and gens: "st_max_generation (stream_at (i_world j) key) = st_max_generation (stream_at (i_world i) key)"
  shows "active_at j key t mo r \<longleftrightarrow> active_at i key t mo r"
  using cur recs unfolding active_at_def active_conditions_def gens fresh_def boot_admissible_def assms(1,2) by blast

lemma live_cong: "(\<And>r. active_in j d k t mo r \<longleftrightarrow> active_in i d k t mo r) \<Longrightarrow>
    set (dv_live (derive j d k t mo)) = set (dv_live (derive i d k t mo))"
  by (auto simp: live_iff)

section \<open>Sample registries\<close>

definition sample_request :: "RecordGeneration \<Rightarrow> AdmissionRequest" where
  "sample_request g = \<lparr>ar_device = key_device sample_key, ar_kind = TlsRecordCrypto, ar_source = SourceIncarnation ''fixture-sim'' 1,
     ar_capability_version = mk_semver 1 2 0 [] [], ar_features = [Tls12, Tls13],
     ar_limits = [mk_limit TlsSessions (unity UnitCount) 7], ar_firmware_version = None, ar_firmware_generation = 0,
     ar_runtime_version = None, ar_runtime_generation = 0, ar_observed_at = 5, ar_valid_until = None, ar_generation = g\<rparr>"

lemma enforce_budget_within:
  "i_total_records i \<le> max_records (p_limits (i_policy i)) \<Longrightarrow> stream_length (i_world i) key \<le> max_records_per_stream (p_limits (i_policy i)) \<Longrightarrow>
   enforce_budget key keep now i = (True, i, [])"
  by (auto simp: enforce_budget_def evict_global.simps [of keep now i] evict_stream.simps [of key keep now i] stream_length_def
      split: option.splits)

abbreviation lab :: Impl where "lab \<equiv> Registry_init make_lab_policy"

lemma lab_facts: "i_world lab = []" "find_stream [] k = None" "find_tombstone [] k = None" "\<not> record_at [] k r" "registry_inv lab"
  "i_total_records lab = 0" "i_policy lab = sort_policy make_lab_policy" "i_incarnations lab = []"
proof -
  show fs: "find_stream [] k = None" for k by (simp add: find_stream_def find_group_def find_kind_map_def)
  show ft: "find_tombstone [] k = None" for k by (simp add: find_tombstone_def find_group_def find_kind_map_def)
  show "\<not> record_at [] k r" by (simp add: record_at_def fs)
  show "registry_inv lab"
    by (simp add: registry_inv_def world_inv_def unique_ids_def Registry_init_def fs ft record_count_def streams_of_def
        devices_ok_def decisions_ok_def tables_ok_def)
qed (simp_all add: Registry_init_def)

lemma lab_collision_free: "collision_free lab q"
  by (simp add: collision_free_def lab_facts)

lemma lab_limits: "p_limits (i_policy lab) = default_limits"
  by (simp add: Registry_init_def sort_policy_def make_lab_policy_def)

lemma lab_policy:
  "find_source (i_policy lab) ''fixture-sim'' = Some \<lparr>sp_id = ''fixture-sim'', sp_kind = SyntheticSource,
     sp_authority = RankSynthetic, sp_trust = Trusted, sp_max_age = 1000000000, sp_durable_across_boot = False\<rparr>"
  "p_max_future_skew (i_policy lab) = 0" "p_retention_horizon (i_policy lab) = 0"
  by (simp add: find_source_def Registry_init_def sort_policy_def sort_sources_def lab_sources)
    (simp_all add: Registry_init_def sort_policy_def make_lab_policy_def)

lemma sample_not_refused: "admission_refusal lab (sample_request 1) 5 = None"
proof -
  have "feature_set_valid [Tls12, Tls13] TlsRecordCrypto = (True, Ok)"
    "limit_set_valid [mk_limit TlsSessions (unity UnitCount) 7] TlsRecordCrypto = (True, Ok)" by code_simp+
  then show ?thesis
    by (simp add: admission_refusal_def Let_def sample_request_def lab_policy lab_limits default_limits_def is_unset_def
        kMaxFeaturesPerRecord_def kMaxLimitsPerRecord_def)
qed

lemma sample_admitted:
  "\<exists>i' out. admit (sample_request 1) 5 lab = (i', Success Ok out) \<and> ao_reason out = AcceptedNew"
proof -
  let ?q = "sample_request 1"
  have a: "admission_refusal lab ?q 5 = None" by (rule sample_not_refused)
  obtain j where j0: "register_device (ar_device ?q) lab = Inr j"
    by (simp add: register_device_def Let_def find_device_def lab_facts(8) lab_limits default_limits_def)
  have j: "i_world j = []" "i_total_records j = 0" "i_policy j = i_policy lab"
    using register_device_frame [OF j0] lab_facts(1,6) by simp_all
  have st: "stream_at [] k = empty_stream" for k by (simp add: stream_at_def lab_facts)
  let ?e = "make_evidence j ?q" and ?i = "j\<lparr>i_world := put_stream (request_key ?q) empty_stream []\<rparr>"
  have b: "enforce_budget (request_key ?q) (evidence_id ?e) 5 (with_new (request_key ?q) ?e empty_stream 5 ?i)
      = (True, with_new (request_key ?q) ?e empty_stream 5 ?i, [])"
    by (rule enforce_budget_within)
      (simp_all add: with_new_def j lab_limits default_limits_def stream_length_def empty_stream_def lab_facts(2))
  have "admit ?q 5 lab = admit_new (request_key ?q) ?e empty_stream 5 ?i"
    using a j0 j by (simp add: admit_def admit_registered_def Let_def lab_facts(2,3) lab_limits default_limits_def
        count_streams_def streams_of_def) (simp add: empty_stream_def)
  moreover have "st_max_generation empty_stream = 0" by (simp add: empty_stream_def)
  ultimately show ?thesis unfolding admit_new_eq b by (simp add: Let_def default_outcome_def)
qed

lemma sample_registry_inv: "registry_inv (sample_impl b)"
proof -
  have "devices_ok (sample_impl b)" "decisions_ok (sample_impl b)" "tables_ok (sample_impl b)"
    by (simp_all add: devices_ok_def decisions_ok_def tables_ok_def sample_impl_def Registry_init_def om_wf_def)
  then show ?thesis using sample_budget_inv(1) [of b] by (simp add: registry_inv_def budget_inv_def)
qed

lemma sample_request_key: "request_key (sample_request g) = sample_key"
  by (simp add: request_key_def sample_request_def sample_key_def sample_evidence_def)

lemma length_evidence_id: "length (evidence_id (make_evidence i q)) = 32"
  by (simp add: make_evidence_def refresh_id_def evidence_id_def compute_digest_def Digest256_of_def)

lemma sample_collision_free: "collision_free (sample_impl b) (sample_request g)"
  by (auto simp: collision_free_def record_at_def sample_find sample_request_key split: if_splits)

lemma sample_owned: "records_owned (sample_impl b)"
proof -
  have "dr_incarnation (key_device sample_key) = 1" by (simp add: sample_key_def sample_evidence_def)
  moreover have "find_device (sample_impl b) (dr_device (key_device sample_key)) =
      Some \<lparr>ie_device = dr_device (key_device sample_key), ie_current = 1, ie_history = [1]\<rparr>" by (simp add: find_device_def sample_impl_def)
  ultimately show ?thesis by (auto simp: records_owned_def record_at_def sample_find split: if_splits)
qed

lemma sample_source: "find_source (i_policy (sample_impl b)) ''fixture-sim'' = Some \<lparr>sp_id = ''fixture-sim'', sp_kind = SyntheticSource,
     sp_authority = RankSynthetic, sp_trust = Trusted, sp_max_age = 1000000000, sp_durable_across_boot = False\<rparr>"
  by (simp add: find_source_def sample_impl_def Registry_init_def sort_policy_def sort_sources_def lab_sources)

lemma sample_policy: "p_max_future_skew (i_policy (sample_impl b)) = 0" "p_retention_horizon (i_policy (sample_impl b)) = 0"
  "p_limits (i_policy (sample_impl b)) = default_limits\<lparr>max_records := b\<rparr>"
  by (simp_all add: sample_impl_def Registry_init_def sort_policy_def make_lab_policy_def)

lemma sample_active:
  "active_in (sample_impl b) (key_device sample_key) TlsRecordCrypto 5 0 r \<longleftrightarrow> r = sample_stored 2 [2]"
proof -
  have w: "world_wf (i_world (sample_impl b))" using sample_registry_inv [of b] by (simp add: registry_inv_def world_inv_def)
  have key: "EvidenceKey (key_device sample_key) TlsRecordCrypto sid = sample_key \<longleftrightarrow> sid = ''fixture-sim''" for sid
    by (simp add: sample_key_def sample_evidence_def)
  have sid: "find_stream (i_world (sample_impl b)) (EvidenceKey (key_device sample_key) TlsRecordCrypto sid) = Some s
      \<longleftrightarrow> sid = ''fixture-sim'' \<and> s = sample_stream" for sid s
    by (auto simp: sample_find key split: if_splits)
  have dev: "device_current (sample_impl b) (key_device sample_key)"
    by (simp add: device_current_def find_device_def sample_impl_def sample_key_def sample_evidence_def)
  have boot: "i_boot_epoch (sample_impl b) = 1" by (simp add: sample_impl_def Registry_init_def)
  have one: "active_conditions (sample_impl b) (sample_stored 2 [2]) sample_stream (find_source (i_policy (sample_impl b)) ''fixture-sim'')
      (key_device sample_key) 5 0"
    unfolding active_conditions_def sample_source
    by (simp add: dev boot fenced_source_def boot_admissible_def fresh_def sample_stream_def sample_stored_def sample_evidence_def
        effective_max_age_def)
  have two: "\<not> active_conditions (sample_impl b) (sample_stored 1 [1]) sample_stream so (key_device sample_key) 5 0" for so
    by (simp add: active_conditions_def sample_stream_def sample_stored_def word_le_nat_alt)
  have "set (st_records sample_stream) = {sample_stored 1 [1], sample_stored 2 [2]}" by (simp add: sample_stream_def)
  then show ?thesis unfolding active_in_stream [OF w] sid using one two by auto
qed

lemma sample_live: "r \<in> set (dv_live (derive (sample_impl b) (key_device sample_key) TlsRecordCrypto 5 0)) \<longleftrightarrow> r = sample_stored 2 [2]"
  by (auto simp: live_iff sample_active)

lemma sample_runs: "admit (sample_request 3) 5 (sample_impl b) = admit_new sample_key (make_evidence (sample_impl b) (sample_request 3))
    sample_stream 5 (ensured sample_key (raise_next_incarnation 1 (sample_impl b)))"
proof -
  let ?i = "sample_impl b" and ?q = "sample_request 3"
  have valid: "feature_set_valid [Tls12, Tls13] TlsRecordCrypto = (True, Ok)"
    "limit_set_valid [mk_limit TlsSessions (unity UnitCount) 7] TlsRecordCrypto = (True, Ok)" by code_simp+
  have a: "admission_refusal ?i ?q 5 = None"
    using valid by (simp add: admission_refusal_def Let_def sample_request_def sample_source sample_policy default_limits_def is_unset_def
        kMaxFeaturesPerRecord_def kMaxLimitsPerRecord_def)
  have inc: "dr_incarnation (key_device sample_key) = 1" by (simp add: sample_key_def sample_evidence_def)
  have r: "register_device (ar_device ?q) ?i = Inr (raise_next_incarnation 1 ?i)"
    by (simp add: register_device_def Let_def find_device_def sample_request_def sample_impl_def inc)
  have "stored_id r \<noteq> evidence_id (make_evidence i q)" if "r \<in> set (st_records sample_stream)" for r i q
  proof -
    have "length (stored_id r) = 1" using that by (auto simp: sample_stream_def sample_stored_def stored_id_def evidence_id_def)
    then show ?thesis using length_evidence_id [of i q] by auto
  qed
  moreover have "make_evidence (raise_next_incarnation 1 ?i) ?q = make_evidence ?i ?q" by (rule make_evidence_cong) simp_all
  moreover have "ar_generation ?q = 3" by (simp add: sample_request_def)
  moreover have "st_max_generation sample_stream = 2" by (simp add: sample_stream_def)
  ultimately show ?thesis
    by (simp add: admit_def a r admit_registered_def Let_def sample_request_key sample_find ensured_def stream_at_def)
qed

lemma sample_superseded: "\<exists>i' out. admit (sample_request 3) 5 (sample_impl 9) = (i', Success Ok out) \<and> ao_reason out = AcceptedSuperseding"
proof -
  let ?i = "sample_impl 9" and ?e = "make_evidence (sample_impl 9) (sample_request 3)"
  let ?j = "ensured sample_key (raise_next_incarnation 1 ?i)"
  have "i_total_records ?j = 2" "i_policy ?j = i_policy ?i" by (simp_all add: ensured_def) (simp add: sample_impl_def)
  then have b: "enforce_budget sample_key (evidence_id ?e) 5 (with_new sample_key ?e sample_stream 5 ?j)
      = (True, with_new sample_key ?e sample_stream 5 ?j, [])"
    by (intro enforce_budget_within) (simp_all add: with_new_def sample_policy default_limits_def stream_length_def sample_stream_def)
  have "st_max_generation sample_stream = 2" by (simp add: sample_stream_def)
  then show ?thesis unfolding sample_runs admit_new_eq b by (simp add: Let_def default_outcome_def)
qed

section \<open>Acceptance\<close>

lemma admit_accepted_run:
  assumes "registry_inv i" "collision_free i q" "admit q now i = (i', Success c out)"
    "ao_reason out \<in> {AcceptedNew, AcceptedSuperseding}"
  obtains j s i2 evicted where
    "register_device (ar_device q) i = Inr j" "s = stream_at (i_world i) (request_key q)" "i_world j = i_world i"
    "registry_inv (ensured (request_key q) j)" "e_key (make_evidence i q) = request_key q"
    "e_generation (make_evidence i q) = ar_generation q" "e_generation (make_evidence i q) \<noteq> 0"
    "\<And>t. find_tombstone (i_world i) (request_key q) = Some t \<Longrightarrow> rr_generation t < ar_generation q"
    "id_unused (i_world (ensured (request_key q) j)) (evidence_id (make_evidence i q))"
    "st_max_generation s < e_generation (make_evidence i q)"
    "enforce_budget (request_key q) (evidence_id (make_evidence i q)) now
       (with_new (request_key q) (make_evidence i q) s now (ensured (request_key q) j)) = (True, i2, evicted)"
    "i' = refresh_conflict (ar_device q) (ar_kind q) now (count_accepted i2)"
    "ao_id out = evidence_id (make_evidence i q)" "ao_evicted out = evicted"
    "ao_reason out = (if st_max_generation s = 0 then AcceptedNew else AcceptedSuperseding)"
  using assms(1,2)
proof (rule admit_endings [where now = now])
  fix reason detail j assume "admit q now i = (count_rejected j, Failure reason detail)"
  then show thesis using assms(3) by simp
next
  fix j e s
  assume reg: "register_device (ar_device q) i = Inr j" and e0: "e = make_evidence i q"
    and s: "s = stream_at (i_world i) (request_key q)" "i_world j = i_world i" and inv: "registry_inv (ensured (request_key q) j)"
    and e: "e_key e = request_key q" "e_generation e = ar_generation q" "e_generation e \<noteq> 0"
    and tomb: "\<And>t. find_tombstone (i_world i) (request_key q) = Some t \<Longrightarrow> rr_generation t < ar_generation q"
    and run: "(\<exists>r \<in> set (st_records s). stored_id r = evidence_id e)
         \<and> admit q now i = admit_present (request_key q) (evidence_id e) s now (ensured (request_key q) j)
       \<or> id_unused (i_world (ensured (request_key q) j)) (evidence_id e)
         \<and> (e_generation e \<le> st_max_generation s
              \<and> admit q now i = admit_refused (request_key q) e s now (ensured (request_key q) j)
            \<or> st_max_generation s < e_generation e
              \<and> admit q now i = admit_new (request_key q) e s now (ensured (request_key q) j))"
  let ?key = "request_key q" and ?i = "ensured (request_key q) j"
  have "admit_present ?key (evidence_id e) s now ?i \<noteq> (i', Success c out)"
    using assms(4) by (auto simp: admit_present_def default_outcome_def)
  moreover have "admit_refused ?key e s now ?i \<noteq> (i', Success c out)"
    using assms(4) refused_outcome by fastforce
  ultimately have new: "id_unused (i_world ?i) (evidence_id e)" "st_max_generation s < e_generation e"
    "admit_new ?key e s now ?i = (i', Success c out)" using run assms(3) by auto
  obtain i2 evicted where b: "enforce_budget ?key (evidence_id e) now (with_new ?key e s now ?i) = (True, i2, evicted)"
    and i': "i' = refresh_conflict (key_device ?key) (key_kind ?key) now (count_accepted i2)"
    and out: "ao_id out = evidence_id e" "ao_evicted out = evicted"
      "ao_reason out = (if st_max_generation s = 0 then AcceptedNew else AcceptedSuperseding)"
    using admit_new_Success [OF new(3)] by blast
  have "key_device ?key = ar_device q" "key_kind ?key = ar_kind q" by (simp_all add: request_key_def)
  then show thesis
    by (intro that [of j s i2 evicted] reg s inv e [unfolded e0] tomb new(1,2) [unfolded e0] b [unfolded e0]
        out [unfolded e0] i' [unfolded \<open>key_device ?key = _\<close> \<open>key_kind ?key = _\<close>])
qed

lemma admit_accepted_facts:
  assumes "registry_inv i" "collision_free i q" "admit q now i = (i', Success c out)"
    "ao_reason out \<in> {AcceptedNew, AcceptedSuperseding}"
  shows "record_at (i_world i') (request_key q) (stored_as (make_evidence i q) LifecycleAdmitted (ao_reason out) now)
    \<and> st_max_generation (stream_at (i_world i') (request_key q)) = ar_generation q
    \<and> (\<forall>r. record_at (i_world i') (request_key q) r \<and> stored_id r \<noteq> ao_id out \<longrightarrow> e_generation (s_evidence r) < ar_generation q)
    \<and> (\<forall>t. find_tombstone (i_world i') (request_key q) = Some t \<longrightarrow> rr_generation t < ar_generation q)
    \<and> (\<forall>k r. record_at (i_world i') k r \<longleftrightarrow> (record_at (i_world i) k r
         \<or> k = request_key q \<and> r = stored_as (make_evidence i q) LifecycleAdmitted (ao_reason out) now) \<and> stored_id r \<notin> set (ao_evicted out))
    \<and> record_count (i_world i') \<le> max_records (p_limits (i_policy i))
    \<and> stream_length (i_world i') (request_key q) \<le> max_records_per_stream (p_limits (i_policy i))"
proof (rule admit_accepted_run [OF assms])
  fix j s i2 evicted
  let ?key = "request_key q" and ?i = "ensured (request_key q) j" and ?e = "make_evidence i q"
  assume reg: "register_device (ar_device q) i = Inr j" and s: "s = stream_at (i_world i) ?key" "i_world j = i_world i"
    and inv: "registry_inv ?i" and e: "e_key ?e = ?key" "e_generation ?e = ar_generation q" "e_generation ?e \<noteq> 0"
    and tomb: "\<And>t. find_tombstone (i_world i) ?key = Some t \<Longrightarrow> rr_generation t < ar_generation q"
    and new: "id_unused (i_world ?i) (evidence_id ?e)" "st_max_generation s < e_generation ?e"
    and b: "enforce_budget ?key (evidence_id ?e) now (with_new ?key ?e s now ?i) = (True, i2, evicted)"
    and i': "i' = refresh_conflict (ar_device q) (ar_kind q) now (count_accepted i2)"
    and out: "ao_id out = evidence_id ?e" "ao_evicted out = evicted"
      "ao_reason out = (if st_max_generation s = 0 then AcceptedNew else AcceptedSuperseding)"
  have fs: "find_stream (i_world ?i) ?key = Some s" using s by simp
  note n = new_ending [OF inv fs e(1,3) new(2,1) b, folded out(3)]
  have w: "i_world i' = i_world i2" by (simp add: i')
  have same: "record_at (i_world ?i) k r = record_at (i_world i) k r" for k r by (simp add: ensured_facts s(2))
  have pol: "i_policy ?i = i_policy i" using register_device_frame(2) [OF reg] by (simp add: ensured_facts)
  have t: "find_tombstone (i_world i2) = find_tombstone (i_world i)" using n(8) by (simp add: ensured_facts s(2))
  show ?thesis
    unfolding w out(1,2) t using n(1-6) tomb unfolding e(2) same pol by blast
qed

text \<open>The live records after an acceptance, compared with those before.\<close>

lemma accepted_active:
  assumes inv: "world_inv (i_world i)" and wf: "world_wf (i_world w)" and w: "w = with_new (e_key e) e s now (ensured (e_key e) j)"
    and j: "i_world j = i_world i" "i_policy j = i_policy i" "i_boot_epoch j = i_boot_epoch i" and s: "s = stream_at (i_world i) (e_key e)"
    and new: "st_max_generation s < e_generation e"
    and cur: "\<forall>key r. record_at (i_world i) key r \<longrightarrow> device_current j (key_device key) = device_current i (key_device key)"
  shows "(d, k) \<noteq> (key_device (e_key e), key_kind (e_key e)) \<Longrightarrow> active_in w d k t mo r \<longleftrightarrow> active_in i d k t mo r"
    "active_in i d k t mo r \<Longrightarrow> e_key (s_evidence r) \<noteq> e_key e \<Longrightarrow> active_in w d k t mo r"
    "active_in w d k t mo r \<Longrightarrow> active_in i d k t mo r \<or> s_evidence r = e"
proof -
  have wi: "world_wf (i_world i)" using inv by (simp add: world_inv_def)
  let ?r = "stored_as e LifecycleAdmitted (if st_max_generation s = 0 then AcceptedNew else AcceptedSuperseding) now"
  have fs: "find_stream (i_world (ensured (e_key e) j)) (e_key e) = Some s" using j s by simp
  note at = with_new_record_at [OF fs, of e now, folded w, unfolded ensured_facts(2) j(1)]
  have frame: "i_policy w = i_policy i" "i_boot_epoch w = i_boot_epoch i" "device_current w = device_current j"
    using j by (simp_all add: w with_new_def ensured_def device_current_def find_device_def fun_eq_iff)
  have other: "active_at w key t mo r \<longleftrightarrow> active_at i key t mo r" if key: "key \<noteq> e_key e" for key r
  proof (rule active_at_cong)
    show "st_max_generation (stream_at (i_world w) key) = st_max_generation (stream_at (i_world i) key)"
      using key j(1) by (simp add: w with_new_def stream_at_def ensured_def)
  qed (use at key cur frame in auto)
  show "(d, k) \<noteq> (key_device (e_key e), key_kind (e_key e)) \<Longrightarrow> active_in w d k t mo r \<longleftrightarrow> active_in i d k t mo r"
    unfolding active_in_at [OF wi] active_in_at [OF wf] by (metis other EvidenceKey.sel(1,2))
  show "active_in w d k t mo r" if a: "active_in i d k t mo r" "e_key (s_evidence r) \<noteq> e_key e"
  proof -
    obtain sid where sid: "active_at i (EvidenceKey d k sid) t mo r" using a(1) active_in_at [OF wi] by blast
    have "e_key (s_evidence r) = EvidenceKey d k sid"
      using sid inv by (auto simp: active_at_def record_at_def world_inv_def stream_ok_def)
    then show ?thesis using sid other a(2) active_in_at [OF wf] by metis
  qed
  show "active_in i d k t mo r \<or> s_evidence r = e" if a: "active_in w d k t mo r"
  proof -
    obtain sid where sid: "active_at w (EvidenceKey d k sid) t mo r" using a active_in_at [OF wf] by blast
    have "r = ?r" if key: "EvidenceKey d k sid = e_key e"
    proof (rule ccontr)
      assume "r \<noteq> ?r"
      then have r: "r \<in> set (st_records s)" using sid at [of "e_key e" r] by (auto simp: active_at_def key s record_at_def stream_at_def)
      then have "stream_ok (e_key e) s" using inv by (auto simp: s stream_at_def world_inv_def empty_stream_def split: option.splits)
      then have "e_generation (s_evidence r) \<le> st_max_generation s" using r max_generation_bounds(1) by (simp add: stream_ok_def)
      moreover have "e_generation e \<le> e_generation (s_evidence r)"
        using sid by (simp add: active_at_def key active_conditions_def stream_at_def w with_new_def)
      ultimately show False using new by simp
    qed
    then show ?thesis using sid other active_in_at [OF wi] by (cases "EvidenceKey d k sid = e_key e") (auto simp: stored_as_def)
  qed
qed

lemma admit_accepted_live:
  assumes "registry_inv i" "collision_free i q" "records_owned i" "admit q now i = (i', Success c out)"
    "ao_reason out \<in> {AcceptedNew, AcceptedSuperseding}"
  shows "(d, k) \<noteq> (ar_device q, ar_kind q) \<Longrightarrow> set (dv_live (derive i' d k now 0)) = set (dv_live (derive i d k now 0))"
    "r \<in> set (dv_live (derive i d k now 0)) \<Longrightarrow> e_key (s_evidence r) \<noteq> request_key q \<Longrightarrow>
      e_authority (make_evidence i q) \<le> e_authority (s_evidence r) \<Longrightarrow> r \<in> set (dv_live (derive i' d k now 0))"
proof -
  obtain j s i2 evicted where reg: "register_device (ar_device q) i = Inr j" and s: "s = stream_at (i_world i) (request_key q)" "i_world j = i_world i"
    and inv: "registry_inv (ensured (request_key q) j)"
    and e: "e_key (make_evidence i q) = request_key q" "e_generation (make_evidence i q) \<noteq> 0"
    and new: "id_unused (i_world (ensured (request_key q) j)) (evidence_id (make_evidence i q))" "st_max_generation s < e_generation (make_evidence i q)"
    and b: "enforce_budget (request_key q) (evidence_id (make_evidence i q)) now
       (with_new (request_key q) (make_evidence i q) s now (ensured (request_key q) j)) = (True, i2, evicted)"
    and i': "i' = refresh_conflict (ar_device q) (ar_kind q) now (count_accepted i2)"
    by (rule admit_accepted_run [OF assms(1,2,4,5)])
  let ?e = "make_evidence i q" and ?w = "with_new (request_key q) (make_evidence i q) s now (ensured (request_key q) j)"
  have fs: "find_stream (i_world (ensured (request_key q) j)) (request_key q) = Some s" using s by simp
  note wn = with_new_inv [OF inv fs e new(2,1)]
  have live: "set (dv_live (derive i' d k now 0)) = set (dv_live (derive ?w d k now 0))" for d k
    using enforce_budget_spec [OF wn(2) b] unfolding i' by (simp add: same_live_def derive_cong [of "count_accepted i2" i2])
  have wi: "world_inv (i_world i)" and ww: "world_wf (i_world ?w)" using assms(1) wn(1) by (simp_all add: registry_inv_def world_inv_def)
  have fr: "i_policy j = i_policy i" "i_boot_epoch j = i_boot_epoch i" using register_device_frame [OF reg] by simp_all
  have cur: "\<forall>key r. record_at (i_world i) key r \<longrightarrow> device_current j (key_device key) = device_current i (key_device key)"
    using records_owned_current [OF assms(3) _ register_device_keeps(1) [OF reg]] by blast
  note act = accepted_active [where e = ?e, unfolded e(1), OF wi ww refl s(2) fr s(1) new(2) cur]
  show "set (dv_live (derive i' d k now 0)) = set (dv_live (derive i d k now 0))" if "(d, k) \<noteq> (ar_device q, ar_kind q)"
    unfolding live using act(1) that by (intro live_cong) (simp add: request_key_def)
  show "r \<in> set (dv_live (derive i' d k now 0))" if "r \<in> set (dv_live (derive i d k now 0))" "e_key (s_evidence r) \<noteq> request_key q"
    "e_authority ?e \<le> e_authority (s_evidence r)"
    using that act(2,3) unfolding live live_iff by metis
qed

text \<open>
  C11: an accepted admission stores exactly the evidence of the request and harms nothing else. Take a registry
  that satisfies its invariant and whose records all belong to registered devices, as in every registry the
  program can reach. The new record is admitted under the request's key, becomes the stream's newest generation
  (every other record of the stream is older and every tombstone of it is below), no other record appears
  anywhere and only the records named as evicted are gone; both record bounds and the invariant hold afterwards.
  At the time of the admission the live records of every other group are exactly those before; in the request's
  own group a live record of another source stays live unless the new evidence has a higher authority than it.
\<close>

theorem admit_accepts:
  assumes "registry_inv i" "collision_free i q" "records_owned i" "admit q now i = (i', Success c out)"
    "ao_reason out \<in> {AcceptedNew, AcceptedSuperseding}"
  shows "record_at (i_world i') (request_key q) (stored_as (make_evidence i q) LifecycleAdmitted (ao_reason out) now)
    \<and> st_max_generation (stream_at (i_world i') (request_key q)) = ar_generation q
    \<and> (\<forall>r. record_at (i_world i') (request_key q) r \<and> stored_id r \<noteq> ao_id out \<longrightarrow> e_generation (s_evidence r) < ar_generation q)
    \<and> (\<forall>t. find_tombstone (i_world i') (request_key q) = Some t \<longrightarrow> rr_generation t < ar_generation q)
    \<and> (\<forall>k r. record_at (i_world i') k r \<longleftrightarrow> (record_at (i_world i) k r
         \<or> k = request_key q \<and> r = stored_as (make_evidence i q) LifecycleAdmitted (ao_reason out) now) \<and> stored_id r \<notin> set (ao_evicted out))
    \<and> record_count (i_world i') \<le> max_records (p_limits (i_policy i))
    \<and> stream_length (i_world i') (request_key q) \<le> max_records_per_stream (p_limits (i_policy i))
    \<and> registry_inv i'
    \<and> (\<forall>d k. (d, k) \<noteq> (ar_device q, ar_kind q) \<longrightarrow> set (dv_live (derive i' d k now 0)) = set (dv_live (derive i d k now 0)))
    \<and> (\<forall>r. r \<in> set (dv_live (derive i (ar_device q) (ar_kind q) now 0)) \<and> e_key (s_evidence r) \<noteq> request_key q
         \<and> e_authority (make_evidence i q) \<le> e_authority (s_evidence r)
         \<longrightarrow> r \<in> set (dv_live (derive i' (ar_device q) (ar_kind q) now 0)))"
proof -
  have "registry_inv i'" using admit_inv [OF assms(1,2), of now] assms(4) by simp
  then show ?thesis
    using admit_accepted_facts [OF assms(1,2,4,5)] admit_accepted_live [OF assms] by (intro conjI) blast+
qed

theorem admit_accepts_witness:
  "\<exists>i' out. admit (sample_request 3) 5 (sample_impl 9) = (i', Success Ok out) \<and> registry_inv i'
     \<and> record_at (i_world i') sample_key (stored_as (make_evidence (sample_impl 9) (sample_request 3)) LifecycleAdmitted AcceptedSuperseding 5)
     \<and> st_max_generation (stream_at (i_world i') sample_key) = 3"
proof -
  obtain i' out where a: "admit (sample_request 3) 5 (sample_impl 9) = (i', Success Ok out)" "ao_reason out = AcceptedSuperseding"
    using sample_superseded by blast
  have "ar_generation (sample_request 3) = 3" by (simp add: sample_request_def)
  then show ?thesis
    using a admit_accepts [OF sample_registry_inv sample_collision_free sample_owned a(1)] unfolding sample_request_key by auto
qed

section \<open>Refusals\<close>

lemma refused_effect:
  assumes inv: "registry_inv i" and s: "find_stream (i_world i) key = Some s"
  shows "s_lifecycle r \<noteq> LifecycleRejected \<Longrightarrow> record_at (i_world (fst (admit_refused key e s now i))) k r \<longleftrightarrow> record_at (i_world i) k r"
    "find_tombstone (i_world (fst (admit_refused key e s now i))) = find_tombstone (i_world i)"
    "st_max_generation (stream_at (i_world (fst (admit_refused key e s now i))) k) = st_max_generation (stream_at (i_world i) k)"
proof -
  have at: "r \<in> set (st_records s) \<longleftrightarrow> record_at (i_world i) key r" for r using s by (simp add: record_at_def)
  have st: "stream_at (i_world i) key = s" using s by (simp add: stream_at_def)
  show "s_lifecycle r \<noteq> LifecycleRejected \<Longrightarrow> record_at (i_world (fst (admit_refused key e s now i))) k r \<longleftrightarrow> record_at (i_world i) k r"
    by (auto simp: admit_refused_def Let_def record_at_put at)
  show "find_tombstone (i_world (fst (admit_refused key e s now i))) = find_tombstone (i_world i)"
    by (simp add: admit_refused_def Let_def)
  show "st_max_generation (stream_at (i_world (fst (admit_refused key e s now i))) k) = st_max_generation (stream_at (i_world i) k)"
    using s by (simp add: admit_refused_def Let_def stream_at_def)
qed

lemma admit_refusal_records:
  assumes "registry_inv i" "collision_free i q" "admit q now i = (i', result)"
    "case result of Success c out \<Rightarrow> ao_reason out \<notin> {AcceptedNew, AcceptedSuperseding}
       | Failure reason detail \<Rightarrow> reason \<noteq> RejectedRecordBudgetExhausted"
  shows "(\<forall>k r. s_lifecycle r \<noteq> LifecycleRejected \<longrightarrow> (record_at (i_world i') k r \<longleftrightarrow> record_at (i_world i) k r))
    \<and> find_tombstone (i_world i') = find_tombstone (i_world i)
    \<and> (\<forall>k. st_max_generation (stream_at (i_world i') k) = st_max_generation (stream_at (i_world i) k))"
  using assms(1,2)
proof (rule admit_endings [where now = now])
  fix reason detail j assume "admit q now i = (count_rejected j, Failure reason detail)" "i_world j = i_world i"
  then show ?thesis using assms(3) by auto
next
  fix j e s
  assume s: "s = stream_at (i_world i) (request_key q)" "i_world j = i_world i" and inv: "registry_inv (ensured (request_key q) j)"
    and run: "(\<exists>r \<in> set (st_records s). stored_id r = evidence_id e)
         \<and> admit q now i = admit_present (request_key q) (evidence_id e) s now (ensured (request_key q) j)
       \<or> id_unused (i_world (ensured (request_key q) j)) (evidence_id e)
         \<and> (e_generation e \<le> st_max_generation s
              \<and> admit q now i = admit_refused (request_key q) e s now (ensured (request_key q) j)
            \<or> st_max_generation s < e_generation e
              \<and> admit q now i = admit_new (request_key q) e s now (ensured (request_key q) j))"
  let ?key = "request_key q" and ?i = "ensured (request_key q) j"
  have fs: "find_stream (i_world ?i) ?key = Some s" using s by simp
  have "admit_new ?key e s now ?i \<noteq> (i', result)"
    using assms(4) admit_new_Success [of ?key e s now ?i i'] admit_new_Failure [of ?key e s now ?i i']
    by (cases result) (auto split: if_splits)
  then have i': "i' = count_idempotent ?i \<or> i' = fst (admit_refused ?key e s now ?i)"
    using run assms(3) by (auto simp: admit_present_def) (metis fst_conv)
  have same: "record_at (i_world ?i) k r = record_at (i_world i) k r" "find_tombstone (i_world ?i) = find_tombstone (i_world i)"
    "st_max_generation (stream_at (i_world ?i) k) = st_max_generation (stream_at (i_world i) k)" for k r
    by (auto simp: ensured_facts s(2) stream_at_def)
  show ?thesis using i' refused_effect [OF inv fs] unfolding same by (elim disjE) (simp_all add: same)
qed

text \<open>
  C13: a refused request is harmless. Take a registry that satisfies its invariant and in which every record
  belongs to a registered device, as in every registry the program can reach. Whenever an admission neither
  accepts a new generation nor fails for lack of budget (that is: any other failure, a regression or collision,
  or evidence that is already present), no admitted or retired record and no tombstone appears, disappears or
  changes, no stream's newest generation moves and no registered device gets another current incarnation; so
  in every group, at every time and for every age limit, exactly the same records are live as before. At most
  a rejected record is kept for later explanation and the request's device is registered.
\<close>

theorem admit_refusal_harmless:
  assumes "registry_inv i" "collision_free i q" "records_owned i" "admit q now i = (i', result)"
    "case result of Success c out \<Rightarrow> ao_reason out \<notin> {AcceptedNew, AcceptedSuperseding}
       | Failure reason detail \<Rightarrow> reason \<noteq> RejectedRecordBudgetExhausted"
  shows "(\<forall>k r. s_lifecycle r \<noteq> LifecycleRejected \<longrightarrow> (record_at (i_world i') k r \<longleftrightarrow> record_at (i_world i) k r))
    \<and> find_tombstone (i_world i') = find_tombstone (i_world i)
    \<and> (\<forall>k. st_max_generation (stream_at (i_world i') k) = st_max_generation (stream_at (i_world i) k))
    \<and> (\<forall>d entry. find_device i d = Some entry \<longrightarrow> (\<exists>entry'. find_device i' d = Some entry' \<and> ie_current entry' = ie_current entry))
    \<and> (\<forall>d k t mo. set (dv_live (derive i' d k t mo)) = set (dv_live (derive i d k t mo)))"
proof -
  have i': "i' = fst (admit q now i)" using assms(4) by simp
  note recs = admit_refusal_records [OF assms(1,2,4,5)]
  have wf: "world_wf (i_world i)" "world_wf (i_world i')"
    using assms(1) admit_inv [OF assms(1,2), of now] by (simp_all add: i' registry_inv_def world_inv_def)
  have "active_at i' key t mo r \<longleftrightarrow> active_at i key t mo r" for key t mo r
  proof (rule active_at_cong)
    show "device_current i' (key_device key) \<longleftrightarrow> device_current i (key_device key)" if "record_at (i_world i) key r"
      using records_owned_current [OF assms(3) that admit_keeps_current] by (simp add: i')
  qed (use recs in \<open>auto simp: i' admit_stamps\<close>)
  then have "active_in i' d k t mo r \<longleftrightarrow> active_in i d k t mo r" for d k t mo r
    by (simp add: active_in_at [OF wf(1)] active_in_at [OF wf(2)])
  then show ?thesis using recs admit_keeps_current [of i _ _ q now] live_cong [of i' _ _ _ _ i] by (simp add: i')
qed

theorem admit_refusal_harmless_witness:
  "sample_stored 2 [2] \<in> set (dv_live (derive (fst (admit (sample_request 0) 5 (sample_impl 9))) (key_device sample_key) TlsRecordCrypto 5 0))"
proof -
  have run: "admit (sample_request 0) 5 (sample_impl 9)
      = (count_rejected (sample_impl 9), Failure RejectedGenerationRegression ''stream generation must be non-zero'')"
    by (simp add: admit_def admission_refusal_def Let_def sample_request_def is_unset_def reject_admission_def)
  show ?thesis
    using sample_live [of "sample_stored 2 [2]" 9] admit_refusal_harmless [OF sample_registry_inv sample_collision_free sample_owned run] by (simp add: run)
qed

text \<open>
  C14: what a refusal for lack of budget costs. When an admission fails with \<open>RejectedRecordBudgetExhausted\<close>,
  the stream it was for is gone: the evictions that were tried first had already removed every older record
  of that stream, the rollback then removes the incoming one, and nothing restores the others.
\<close>

theorem admit_budget_failure_erases_stream:
  assumes "registry_inv i" "collision_free i q" "admit q now i = (i', Failure RejectedRecordBudgetExhausted detail)"
  shows "find_stream (i_world i') (request_key q) = None \<and> (\<forall>r. \<not> record_at (i_world i') (request_key q) r)"
  using assms(1,2)
proof (rule admit_endings [where now = now])
  fix reason detail' j assume "admit q now i = (count_rejected j, Failure reason detail')" "reason \<noteq> RejectedRecordBudgetExhausted"
  then show ?thesis using assms(3) by simp
next
  fix j e s
  assume s: "s = stream_at (i_world i) (request_key q)" "i_world j = i_world i" and inv: "registry_inv (ensured (request_key q) j)"
    and e: "e_key e = request_key q" "e_generation e \<noteq> 0"
    and run: "(\<exists>r \<in> set (st_records s). stored_id r = evidence_id e)
         \<and> admit q now i = admit_present (request_key q) (evidence_id e) s now (ensured (request_key q) j)
       \<or> id_unused (i_world (ensured (request_key q) j)) (evidence_id e)
         \<and> (e_generation e \<le> st_max_generation s
              \<and> admit q now i = admit_refused (request_key q) e s now (ensured (request_key q) j)
            \<or> st_max_generation s < e_generation e
              \<and> admit q now i = admit_new (request_key q) e s now (ensured (request_key q) j))"
  let ?key = "request_key q" and ?i = "ensured (request_key q) j"
  have fs: "find_stream (i_world ?i) ?key = Some s" using s by simp
  have not_refused: "admit_refused ?key e s now ?i \<noteq> (i', Failure RejectedRecordBudgetExhausted detail)"
    using refused_outcome by fastforce
  have new: "id_unused (i_world ?i) (evidence_id e)" "st_max_generation s < e_generation e"
    "admit_new ?key e s now ?i = (i', Failure RejectedRecordBudgetExhausted detail)"
    using run assms(3) not_refused by (auto simp: admit_present_def)
  obtain i2 evicted where b: "enforce_budget ?key (evidence_id e) now (with_new ?key e s now ?i) = (False, i2, evicted)"
    and i': "i' = count_rejected (rollback ?key (evidence_id e) i2)" using admit_new_Failure [OF new(3)] by blast
  obtain s2 r0 where s2: "find_stream (i_world i2) ?key = Some s2" "st_records s2 = [r0]" "stored_id r0 = evidence_id e"
    using budget_failure_alone [OF inv fs e new(2,1) b] by blast
  have inv2: "registry_inv i2" by (rule budget_kept_inv [OF with_new_inv [OF inv fs e new(2,1)] b])
  then have "find_stream (i_world i') ?key = None"
    using rollback_alone(2) [OF _ s2] by (simp add: i' registry_inv_def world_inv_def)
  then show ?thesis by (simp add: record_at_def)
qed

lemma record_at_count: "world_wf w \<Longrightarrow> record_at w k r \<Longrightarrow> record_count w \<noteq> 0"
proof -
  assume "world_wf w" "record_at w k r"
  then obtain s where "(k, s) \<in> set (streams_of w)" "r \<in> set (st_records s)" by (auto simp: record_at_def streams.view_mem)
  then have "\<exists>p \<in> set (streams_of w). (case p of (key, s) \<Rightarrow> length (st_records s)) \<noteq> 0" by force
  then show ?thesis by (auto simp: record_count_def)
qed

theorem admit_budget_failure_erases_stream_witness:
  "\<exists>i' detail. admit (sample_request 3) 5 (sample_impl 0) = (i', Failure RejectedRecordBudgetExhausted detail)
     \<and> record_at (i_world (sample_impl 0)) sample_key (sample_stored 2 [2]) \<and> find_stream (i_world i') sample_key = None"
proof -
  let ?i = "sample_impl 0" and ?q = "sample_request 3"
  have "\<exists>i' detail. admit ?q 5 ?i = (i', Failure RejectedRecordBudgetExhausted detail)"
  proof (cases "admit ?q 5 ?i")
    case (Pair i' result)
    have bound: "max_records (p_limits (i_policy ?i)) = 0" by (simp add: sample_policy)
    show ?thesis
    proof (cases result)
      case (Failure reason detail)
      then show ?thesis using Pair admit_new_Failure unfolding sample_runs by blast
    next
      case (Success c out)
      note run = Pair [unfolded Success]
      have acc: "ao_reason out \<in> {AcceptedNew, AcceptedSuperseding}"
        using run admit_new_Success unfolding sample_runs by fastforce
      have "record_at (i_world i') (request_key ?q) (stored_as (make_evidence ?i ?q) LifecycleAdmitted (ao_reason out) 5)
          \<and> record_count (i_world i') \<le> 0"
        using admit_accepted_facts [OF sample_registry_inv sample_collision_free run acc] bound by auto
      moreover have "world_wf (i_world i')" using admit_inv [OF sample_registry_inv sample_collision_free, of 3 5 0] run
        by (simp add: registry_inv_def world_inv_def)
      ultimately show ?thesis using record_at_count by blast
    qed
  qed
  then obtain i' detail where run: "admit ?q 5 ?i = (i', Failure RejectedRecordBudgetExhausted detail)" by blast
  have "record_at (i_world ?i) sample_key (sample_stored 2 [2])" by (simp add: record_at_def sample_find sample_stream_def)
  then show ?thesis
    using admit_budget_failure_erases_stream [OF sample_registry_inv sample_collision_free run] run by (auto simp: sample_request_key)
qed

section \<open>Admitting twice\<close>

lemma om_put_same: "om_wf m \<Longrightarrow> map_of m k = Some v \<Longrightarrow> om_put k v m = m"
  by (rule om.entries_canonical) (auto simp: fun_upd_idem)

lemma put_stream_same:
  assumes "world_wf w" "find_stream w key = Some s"
  shows "put_stream key s w = w"
proof -
  obtain kinds g where k: "map_of w (key_device key) = Some kinds" "map_of kinds (key_kind key) = Some g"
    "map_of (g_streams g) (key_source key) = Some s"
    using assms(2) by (auto simp: find_stream_def find_group_def find_kind_map_def split: option.splits)
  have "find_group w (key_device key) (key_kind key) = Some g" using k by (simp add: find_group_def find_kind_map_def)
  then have wf: "om_wf (g_streams g)" using find_group_wf [OF assms(1)] by (simp add: group_wf_def)
  have "(key_device key, kinds) \<in> set w" using k(1) by (rule map_of_SomeD)
  then have "om_wf w" "om_wf kinds" using assms(1) by (auto simp: world_wf_def)
  then show ?thesis using k wf by (simp add: put_stream_def Let_def ensure_group_def om_get_def put_group_def om_put_same)
qed

lemma register_device_again:
  assumes "register_device dev i = Inr j" "i_incarnations k = i_incarnations j" "i_next_incarnation k = i_next_incarnation j"
  shows "register_device dev k = Inr k"
proof -
  obtain entry where entry: "find_device j (dr_device dev) = Some entry" "dr_incarnation dev \<in> set (ie_history entry)"
    using assms(1) by (auto simp: register_device_def Let_def find_device_def split: option.splits if_splits)
  have "i_next_incarnation j \<le> dr_incarnation dev \<Longrightarrow> i_next_incarnation j = dr_incarnation dev + 1"
    using assms(1) by (auto simp: register_device_def Let_def raise_next_incarnation_def split: option.splits if_splits)
  then have "raise_next_incarnation (dr_incarnation dev) k = k"
    by (simp add: raise_next_incarnation_def flip: assms(3))
  then show ?thesis using entry assms(2) by (simp add: register_device_def Let_def find_device_def)
qed

lemma admission_refusal_cong: "i_policy i = i_policy j \<Longrightarrow> admission_refusal i q now = admission_refusal j q now"
  by (simp add: admission_refusal_def)

text \<open>
  Admission is idempotent. Sending an accepted request again, at the same tick, succeeds with
  \<open>AlreadyPresent\<close> and the same id; of the whole registry only the counter of idempotent admissions moves.
\<close>

theorem admit_idempotent:
  assumes "registry_inv i" "collision_free i q" "admit q now i = (i', Success c out)"
    "ao_reason out \<in> {AcceptedNew, AcceptedSuperseding}"
  shows "\<exists>out'. admit q now i' = (count_idempotent i', Success Ok out') \<and> ao_idempotent out'
    \<and> ao_id out' = ao_id out \<and> ao_reason out' = AlreadyPresent"
  using assms(1,2)
proof (rule admit_endings [where now = now])
  fix reason detail j assume "admit q now i = (count_rejected j, Failure reason detail)"
  then show ?thesis using assms(3) by simp
next
  fix j e s
  assume reg: "register_device (ar_device q) i = Inr j" and e0: "e = make_evidence i q" "e = make_evidence j q"
    and s: "s = stream_at (i_world i) (request_key q)" "i_world j = i_world i" and inv: "registry_inv (ensured (request_key q) j)"
    and e: "e_key e = request_key q" "e_generation e = ar_generation q" "e_generation e \<noteq> 0"
    and tomb: "\<And>t. find_tombstone (i_world i) (request_key q) = Some t \<Longrightarrow> rr_generation t < ar_generation q"
    and run: "(\<exists>r \<in> set (st_records s). stored_id r = evidence_id e)
         \<and> admit q now i = admit_present (request_key q) (evidence_id e) s now (ensured (request_key q) j)
       \<or> id_unused (i_world (ensured (request_key q) j)) (evidence_id e)
         \<and> (e_generation e \<le> st_max_generation s
              \<and> admit q now i = admit_refused (request_key q) e s now (ensured (request_key q) j)
            \<or> st_max_generation s < e_generation e
              \<and> admit q now i = admit_new (request_key q) e s now (ensured (request_key q) j))"
  let ?key = "request_key q" and ?i = "ensured (request_key q) j"
  have fs: "find_stream (i_world ?i) ?key = Some s" using s by simp
  have "admit_present ?key (evidence_id e) s now ?i \<noteq> (i', Success c out)"
    using assms(4) by (auto simp: admit_present_def default_outcome_def)
  moreover have "admit_refused ?key e s now ?i \<noteq> (i', Success c out)"
    using assms(4) refused_outcome by fastforce
  ultimately have new: "id_unused (i_world ?i) (evidence_id e)" "st_max_generation s < e_generation e"
    "admit_new ?key e s now ?i = (i', Success c out)" using run assms(3) by auto
  obtain i2 evicted where b: "enforce_budget ?key (evidence_id e) now (with_new ?key e s now ?i) = (True, i2, evicted)"
    and i': "i' = refresh_conflict (key_device ?key) (key_kind ?key) now (count_accepted i2)" and out: "ao_id out = evidence_id e"
    using admit_new_Success [OF new(3)] by blast
  note n = new_ending [OF inv fs e(1,3) new(2,1) b]
  have fr: "i_policy i2 = i_policy j" "i_epoch i2 = i_epoch j" "i_boot_epoch i2 = i_boot_epoch j" "i_policy_revision i2 = i_policy_revision j"
    "i_incarnations i2 = i_incarnations j" "i_next_incarnation i2 = i_next_incarnation j"
    using only_records_frame [OF n(9)] by (simp_all add: ensured_def)
  have fr': "i_policy i' = i_policy i2" "i_epoch i' = i_epoch i2" "i_boot_epoch i' = i_boot_epoch i2" "i_policy_revision i' = i_policy_revision i2"
    "i_incarnations i' = i_incarnations i2" "i_next_incarnation i' = i_next_incarnation i2" "i_world i' = i_world i2"
    by (simp_all add: i')
  have "admission_refusal i q now = None"
    using assms(3) by (cases "admission_refusal i q now") (auto simp: admit_def reject_admission_def)
  then have a: "admission_refusal i' q now = None"
    using admission_refusal_cong [of i' i q now] fr fr' register_device_frame(2) [OF reg] by simp
  have r: "register_device (ar_device q) i' = Inr i'" using register_device_again [OF reg] fr fr' by simp
  obtain s2 r0 where s2: "find_stream (i_world i') ?key = Some s2" "r0 \<in> set (st_records s2)" "stored_id r0 = evidence_id e"
    using n(1) by (auto simp: record_at_def fr'(7))
  have w': "world_wf (i_world i')" using n(7) by (simp add: fr'(7) registry_inv_def world_inv_def)
  have same: "i'\<lparr>i_world := put_stream ?key s2 (i_world i')\<rparr> = i'" using put_stream_same [OF w' s2(1)] by simp
  have ev: "make_evidence i' q = e" unfolding e0(2) using fr fr' by (intro make_evidence_cong) simp_all
  have t: "\<not> (case find_tombstone (i_world i') ?key of None \<Rightarrow> False | Some t \<Rightarrow> rr_generation t \<ge> ar_generation q)"
    using n(8) tomb by (auto simp: fr'(7) ensured_facts s(2) not_le split: option.splits)
  have "admit q now i' = admit_present ?key (evidence_id e) s2 now i'"
    using s2 t by (auto simp: admit_def a r admit_registered_def Let_def ev same)
  then show ?thesis by (simp add: admit_present_def default_outcome_def out)
qed

theorem admit_idempotent_witness:
  "\<exists>i' out out'. admit (sample_request 1) 5 lab = (i', Success Ok out) \<and> admit (sample_request 1) 5 i' = (count_idempotent i', Success Ok out') \<and> ao_idempotent out'"
proof -
  obtain i' out where a: "admit (sample_request 1) 5 lab = (i', Success Ok out)" "ao_reason out = AcceptedNew"
    using sample_admitted by blast
  then show ?thesis using admit_idempotent [OF lab_facts(5) lab_collision_free a(1)] by auto
qed

end
