(* ===== verification/Mutations.thy ===== *)
theory Mutations
  imports AdmissionProps
begin

text \<open>
  The other mutations of \<open>src/registry.cpp\<close>: tombstones and \<open>Registry::retire\<close>, device incarnations, source
  policies, rule generation, epoch, clock and limits.

  Each keeps the invariant of the registry. Retirement fences its stream, revocation its source and a new
  incarnation every older one.
\<close>

section \<open>Retirement\<close>

definition del_tombstone :: "EvidenceKey \<Rightarrow> World \<Rightarrow> World" where
  "del_tombstone key w = (let g = ensure_group w (key_device key) (key_kind key)
     in put_group (key_device key) (key_kind key) (g\<lparr>g_tombstones := om_del (key_source key) (g_tombstones g)\<rparr>) w)"

definition oldest_tombstone :: "(EvidenceKey \<times> RetirementRecord) list \<Rightarrow> (EvidenceKey \<times> Tick) option" where
  "oldest_tombstone ts = fold (\<lambda>(key, t) oldest. case oldest of None \<Rightarrow> Some (key, rr_retired_at t)
     | Some (_, at) \<Rightarrow> if rr_retired_at t < at then Some (key, rr_retired_at t) else oldest) ts None"

definition push_tombstone :: "RetirementRecord \<Rightarrow> Impl \<Rightarrow> Impl" where
  "push_tombstone t i =
     (if (case find_tombstone (i_world i) (rr_key t) of None \<Rightarrow> False
            | Some slot \<Rightarrow> rr_generation slot \<ge> rr_generation t \<and> key_source (rr_key slot) \<noteq> [])
      then i
      else (let w = put_tombstone (rr_key t) t (i_world i); i = i\<lparr>i_world := w\<rparr> in
        if length (tombstones_of w) > max_tombstones (p_limits (i_policy i))
        then (case oldest_tombstone (tombstones_of w) of None \<Rightarrow> i
              | Some (key, _) \<Rightarrow>
                  if key \<noteq> rr_key t
                  then i\<lparr>i_world := del_tombstone key w,
                         i_counters := (i_counters i)\<lparr>tombstones_dropped := tombstones_dropped (i_counters i) + 1\<rparr>\<rparr>
                  else i)
        else i))"

definition retires :: "RecordGeneration \<Rightarrow> StoredEvidence \<Rightarrow> bool" where
  "retires g r \<longleftrightarrow> e_generation (s_evidence r) \<le> g \<and> s_lifecycle r = LifecycleAdmitted"

definition retire_record :: "RecordGeneration \<Rightarrow> ReasonCode \<Rightarrow> Tick \<Rightarrow> StoredEvidence \<Rightarrow> StoredEvidence" where
  "retire_record g reason now r = (if retires g r
     then r\<lparr>s_lifecycle := LifecycleRetired, s_retired_at := Some now, s_retirement_reason := reason\<rparr> else r)"

definition retirement_key :: "RetirementRequest \<Rightarrow> EvidenceKey" where
  "retirement_key q = EvidenceKey (rq_device q) (rq_kind q) (rq_source q)"

definition count_retirement :: "bool \<Rightarrow> Impl \<Rightarrow> Impl" where
  "count_retirement accepted i = i\<lparr>i_counters := (if accepted
     then (i_counters i)\<lparr>retirements_accepted := retirements_accepted (i_counters i) + 1\<rparr>
     else (i_counters i)\<lparr>retirements_rejected := retirements_rejected (i_counters i) + 1\<rparr>)\<rparr>"

definition retire :: "RetirementRequest \<Rightarrow> Tick \<Rightarrow> Impl \<Rightarrow> Impl \<times> RetirementOutcome outcome" where
  "retire q now i =
     (let key = retirement_key q;
          reject = (\<lambda>reason detail. (count_retirement False i, Failure reason detail));
          tombstone = find_tombstone (i_world i) key;
          source = find_source (i_policy i) (rq_source q)
      in
      if is_unset (rq_generation q)
        then reject RejectedGenerationRegression ''retirement generation must be non-zero''
      else if source = None \<and> p_require_configured_source (i_policy i)
        then reject RejectedUnknownSource ''source has no policy entry''
      else if find_device i (dr_device (rq_device q)) = None
        then reject RejectedDeviceIncarnationFenced ''device is not registered''
      else if (case tombstone of None \<Rightarrow> False | Some t \<Rightarrow> rr_generation t = rq_generation q)
        then (count_retirement True i, Success Ok \<lparr>ro_key = key, ro_generation = rq_generation q,
                ro_reason = AlreadyPresent, ro_idempotent = True, ro_retired = [], ro_evicted = []\<rparr>)
      else if (case tombstone of None \<Rightarrow> False | Some t \<Rightarrow> rr_generation t > rq_generation q)
        then reject RejectedSupersededGeneration ''a later retirement already fences this stream''
      else (case find_stream (i_world i) key of
          None \<Rightarrow> reject UnknownNoEvidence ''stream holds no records''
        | Some stream \<Rightarrow>
            if st_max_generation stream \<noteq> 0 \<and> rq_generation q \<le> st_max_generation stream
            then reject RejectedSupersededGeneration ''retirement generation must exceed the newest admitted generation''
            else (let reason = (if rq_reason q = Ok then UnknownCapabilityRetired else rq_reason q);
                      t = \<lparr>rr_key = key, rr_generation = rq_generation q, rr_retired_at = now, rr_reason = reason,
                           rr_epoch = i_epoch i, rr_policy_revision = i_policy_revision i,
                           rr_authority = (case source of None \<Rightarrow> RankNone | Some s \<Rightarrow> sp_authority s)\<rparr>;
                      records = map (retire_record (rq_generation q) reason now) (st_records stream);
                      retired = sort (map stored_id (filter (retires (rq_generation q)) (st_records stream)));
                      i1 = i\<lparr>i_world := put_stream key (stream\<lparr>st_records := records\<rparr>) (i_world i)\<rparr>;
                      i2 = count_retirement True (push_tombstone t i1)
                  in (refresh_conflict (key_device key) (key_kind key) now i2,
                      Success Ok \<lparr>ro_key = key, ro_generation = rq_generation q, ro_reason = reason,
                        ro_idempotent = False, ro_retired = retired, ro_evicted = []\<rparr>))))"

section \<open>Device incarnations\<close>

definition take_incarnation :: "Impl \<Rightarrow> IncarnationId \<times> Impl" where
  "take_incarnation i = (let n = (if i_next_incarnation i = 0 then 1 else i_next_incarnation i)
     in (n, i\<lparr>i_next_incarnation := n + 1\<rparr>))"

definition begin_device_incarnation :: "DeviceIdentity \<Rightarrow> Tick \<Rightarrow> Impl \<Rightarrow> Impl \<times> IncarnationId outcome" where
  "begin_device_incarnation device now i =
     (case find_device i device of
        None \<Rightarrow>
          if length (i_incarnations i) \<ge> max_devices (p_limits (i_policy i))
          then (i, Failure RejectedDeviceBudgetExhausted ''device bound reached'')
          else (case take_incarnation i of (n, i) \<Rightarrow>
            (bump_policy_revision (i\<lparr>i_incarnations := om_put device
               \<lparr>ie_device = device, ie_current = n, ie_history = [n]\<rparr> (i_incarnations i)\<rparr>), Success Ok n))
      | Some entry \<Rightarrow>
          if length (ie_history entry) \<ge> max_incarnations_per_device (p_limits (i_policy i))
          then (i, Failure RejectedDeviceBudgetExhausted ''incarnation bound reached'')
          else (case take_incarnation i of (n, i) \<Rightarrow>
            (refresh_all_conflicts now (bump_policy_revision (i\<lparr>i_incarnations := om_put device
               (entry\<lparr>ie_current := n, ie_history := sort (ie_history entry @ [n])\<rparr>) (i_incarnations i)\<rparr>)), Success Ok n)))"

definition set_device_incarnation :: "DeviceIdentity \<Rightarrow> IncarnationId \<Rightarrow> Tick \<Rightarrow> Impl \<Rightarrow> Impl \<times> IncarnationId outcome" where
  "set_device_incarnation device inc now i =
     (if is_unset inc then (i, Failure RejectedZeroIncarnation ''incarnation must be non-zero'')
      else (case find_device i device of
        None \<Rightarrow>
          if length (i_incarnations i) \<ge> max_devices (p_limits (i_policy i))
          then (i, Failure RejectedDeviceBudgetExhausted ''device bound reached'')
          else (refresh_all_conflicts now (bump_policy_revision (raise_next_incarnation inc (i\<lparr>i_incarnations :=
             om_put device \<lparr>ie_device = device, ie_current = inc, ie_history = [inc]\<rparr> (i_incarnations i)\<rparr>))), Success Ok inc)
      | Some entry \<Rightarrow>
          if inc \<notin> set (ie_history entry) \<and> length (ie_history entry) \<ge> max_incarnations_per_device (p_limits (i_policy i))
          then (i, Failure RejectedDeviceBudgetExhausted ''incarnation bound reached'')
          else (let entry' = (if inc \<notin> set (ie_history entry)
                              then entry\<lparr>ie_history := sort (ie_history entry @ [inc])\<rparr> else entry);
                    i1 = raise_next_incarnation inc (i\<lparr>i_incarnations := om_put device entry' (i_incarnations i)\<rparr>)
                in if ie_current entry' = inc then (i1, Success Ok inc)
                   else (refresh_all_conflicts now (bump_policy_revision (i1\<lparr>i_incarnations :=
                      om_put device (entry'\<lparr>ie_current := inc\<rparr>) (i_incarnations i1)\<rparr>)), Success Ok inc))))"

definition current_incarnation :: "DeviceIdentity \<Rightarrow> Impl \<Rightarrow> IncarnationId outcome" where
  "current_incarnation device i = (case find_device i device of
     None \<Rightarrow> Failure UnknownDeviceNotRegistered ''device is not registered'' | Some entry \<Rightarrow> Success Ok (ie_current entry))"

section \<open>Sources\<close>

fun update_first :: "('a \<Rightarrow> bool) \<Rightarrow> ('a \<Rightarrow> 'a) \<Rightarrow> 'a list \<Rightarrow> 'a list" where
  "update_first P f [] = []"
| "update_first P f (x # xs) = (if P x then f x # xs else x # update_first P f xs)"

definition update_last :: "('a \<Rightarrow> bool) \<Rightarrow> ('a \<Rightarrow> 'a) \<Rightarrow> 'a list \<Rightarrow> 'a list" where
  "update_last P f xs = rev (update_first P f (rev xs))"

text \<open>
  The common body of \<open>revoke_source\<close>, \<open>restore_source\<close> and \<open>set_source_authority\<close>: the loop leaves the target
  pointing at the last matching entry.
\<close>

definition change_source :: "SourceId \<Rightarrow> (SourcePolicy \<Rightarrow> bool) \<Rightarrow> (SourcePolicy \<Rightarrow> SourcePolicy) \<Rightarrow> Tick \<Rightarrow> Impl \<Rightarrow> Impl \<times> bool outcome" where
  "change_source source unchanged change now i =
     (case find_last (\<lambda>s. sp_id s = source) (p_sources (i_policy i)) of
        None \<Rightarrow> (i, Failure UnknownSourceNotConfigured ''source has no policy entry'')
      | Some target \<Rightarrow>
          if unchanged target then (i, Success AlreadyPresent True)
          else (refresh_all_conflicts now (bump_policy_revision (i\<lparr>i_policy := (i_policy i)\<lparr>p_sources :=
                  update_last (\<lambda>s. sp_id s = source) change (p_sources (i_policy i))\<rparr>\<rparr>)), Success AcceptedNew True))"

definition revoke_source :: "SourceId \<Rightarrow> Tick \<Rightarrow> Impl \<Rightarrow> Impl \<times> bool outcome" where
  "revoke_source source = change_source source (\<lambda>s. sp_trust s = Revoked) (\<lambda>s. s\<lparr>sp_trust := Revoked\<rparr>)"

definition restore_source :: "SourceId \<Rightarrow> Tick \<Rightarrow> Impl \<Rightarrow> Impl \<times> bool outcome" where
  "restore_source source = change_source source (\<lambda>s. sp_trust s = Trusted) (\<lambda>s. s\<lparr>sp_trust := Trusted\<rparr>)"

definition set_source_authority :: "SourceId \<Rightarrow> AuthorityRank \<Rightarrow> Tick \<Rightarrow> Impl \<Rightarrow> Impl \<times> bool outcome" where
  "set_source_authority source authority =
     change_source source (\<lambda>s. sp_authority s = authority) (\<lambda>s. s\<lparr>sp_authority := authority\<rparr>)"

definition upsert_source_policy :: "SourcePolicy \<Rightarrow> Tick \<Rightarrow> Impl \<Rightarrow> Impl \<times> SourcePolicy outcome" where
  "upsert_source_policy policy now i =
     (if sp_id policy = [] then (i, Failure RejectedMalformedName ''source id is empty'')
      else (let policy = (if sp_kind policy = OperatorDeclaration \<and> sp_authority policy < RankOperator
                          then policy\<lparr>sp_authority := RankOperator\<rparr> else policy);
                sources = p_sources (i_policy i);
                apply_sources = (\<lambda>s. refresh_all_conflicts now (bump_policy_revision (i\<lparr>i_policy := (i_policy i)\<lparr>p_sources := s\<rparr>\<rparr>)))
            in if \<exists>s \<in> set sources. sp_id s = sp_id policy
               then (apply_sources (replace_first (\<lambda>s. sp_id s = sp_id policy) policy sources), Success Ok policy)
               else if length sources \<ge> max_sources (p_limits (i_policy i))
               then (i, Failure RejectedAuthorityInsufficient ''source bound reached'')
               else (apply_sources (sort_sources (sources @ [policy])), Success Ok policy)))"

section \<open>Rule generation, epoch, clock and limits\<close>

definition set_rule_generation :: "RuleGeneration \<Rightarrow> Impl \<Rightarrow> Impl \<times> bool outcome" where
  "set_rule_generation g i =
     (if is_unset g then (i, Failure RejectedRuleGenerationOutOfRange ''generation must be non-zero'')
      else if g < i_rule_generation i
        then (i, Failure RejectedRuleGenerationOutOfRange ''rule generation must not move backwards'')
      else if g = i_rule_generation i then (i, Success AlreadyPresent True)
      else (bump_policy_revision (i\<lparr>i_rule_generation := g, i_policy := (i_policy i)\<lparr>p_rule_generation := g\<rparr>\<rparr>), Success AcceptedNew True))"

definition advance_epoch :: "Impl \<Rightarrow> Impl \<times> bool outcome" where
  "advance_epoch i = (bump_policy_revision i, Success AcceptedNew True)"

definition set_logical_tick :: "Tick \<Rightarrow> Impl \<Rightarrow> Impl \<times> bool outcome" where
  "set_logical_tick now i =
     (if now < i_logical_tick i then (i, Failure RejectedStaleObservation ''logical clock must be monotonic'')
      else (i\<lparr>i_logical_tick := now\<rparr>, Success Ok True))"

definition set_limits :: "RegistryLimits \<Rightarrow> Impl \<Rightarrow> Impl" where
  "set_limits limits i = bump_policy_revision (i\<lparr>i_policy := (i_policy i)\<lparr>p_limits := limits\<rparr>\<rparr>)"

section \<open>The invariant\<close>

lemma registry_inv_cong:
  assumes "registry_inv i" "i_world j = i_world i" "i_total_records j = i_total_records i" "devices_ok j"
    "i_decisions j = i_decisions i" "i_decision_order j = i_decision_order i" "i_conflicts j = i_conflicts i"
    "i_resolutions j = i_resolutions i"
  shows "registry_inv j"
  using assms by (simp add: registry_inv_def decisions_ok_def tables_ok_def)

lemma devices_ok_cong: "i_incarnations j = i_incarnations i \<Longrightarrow> devices_ok j = devices_ok i"
  by (simp add: devices_ok_def)

lemma bump_frame [frame_simps, simp]:
  "i_world (bump_policy_revision i) = i_world i" "i_policy (bump_policy_revision i) = i_policy i"
  "i_incarnations (bump_policy_revision i) = i_incarnations i" "i_total_records (bump_policy_revision i) = i_total_records i"
  "i_decisions (bump_policy_revision i) = i_decisions i" "i_decision_order (bump_policy_revision i) = i_decision_order i"
  "i_conflicts (bump_policy_revision i) = i_conflicts i" "i_resolutions (bump_policy_revision i) = i_resolutions i"
  "i_boot_epoch (bump_policy_revision i) = i_boot_epoch i" "i_rule_generation (bump_policy_revision i) = i_rule_generation i"
  "i_counters (bump_policy_revision i) = i_counters i" "i_logical_tick (bump_policy_revision i) = i_logical_tick i"
  "i_evictions (bump_policy_revision i) = i_evictions i" "i_next_incarnation (bump_policy_revision i) = i_next_incarnation i"
  "i_store_generation (bump_policy_revision i) = i_store_generation i"
  "i_epoch (bump_policy_revision i) = i_epoch i + 1" "i_policy_revision (bump_policy_revision i) = i_policy_revision i + 1"
  by (simp_all add: bump_policy_revision_def)

lemma registry_inv_bump [simp]: "registry_inv (bump_policy_revision i) \<longleftrightarrow> registry_inv i"
  by (simp add: registry_inv_def devices_ok_def decisions_ok_def tables_ok_def)

lemma registry_inv_policy [simp]:
  "registry_inv (i\<lparr>i_policy := p\<rparr>) \<longleftrightarrow> registry_inv i" "registry_inv (i\<lparr>i_logical_tick := t\<rparr>) \<longleftrightarrow> registry_inv i"
  "registry_inv (i\<lparr>i_rule_generation := g\<rparr>) \<longleftrightarrow> registry_inv i"
  "registry_inv (i\<lparr>i_next_incarnation := n\<rparr>) \<longleftrightarrow> registry_inv i"
  by (simp_all add: registry_inv_def devices_ok_def decisions_ok_def tables_ok_def)

lemma registry_inv_raise [simp]: "registry_inv (raise_next_incarnation n i) \<longleftrightarrow> registry_inv i"
  by (simp add: raise_next_incarnation_def)

lemma registry_inv_refresh_over: "registry_inv i \<Longrightarrow> registry_inv (refresh_over ts now i)"
  by (induction ts arbitrary: i) (auto simp: refresh_over_def)

lemma registry_inv_refresh_all [simp]: "registry_inv i \<Longrightarrow> registry_inv (refresh_all_conflicts now i)"
  unfolding refresh_all_over
  by (rule registry_inv_refresh_over) (simp add: registry_inv_def devices_ok_def decisions_ok_def tables_ok_def)

lemma registry_inv_device:
  assumes "registry_inv i" "ie_device entry = d" "ie_current entry \<in> set (ie_history entry)" "sorted (ie_history entry)"
  shows "registry_inv (i\<lparr>i_incarnations := om_put d entry (i_incarnations i)\<rparr>)"
proof (rule registry_inv_cong [OF assms(1)])
  have "devices_ok i" using assms(1) by (simp add: registry_inv_def)
  then show "devices_ok (i\<lparr>i_incarnations := om_put d entry (i_incarnations i)\<rparr>)"
    using assms(2-4) by (rule devices_ok_put) simp
qed simp_all

lemma find_device_ok: "registry_inv i \<Longrightarrow> find_device i d = Some entry \<Longrightarrow>
    ie_device entry = d \<and> ie_current entry \<in> set (ie_history entry) \<and> sorted (ie_history entry)"
  by (simp add: registry_inv_def devices_ok_def find_device_def)

lemma take_incarnation_inv: "take_incarnation i = (n, j) \<Longrightarrow> registry_inv i \<Longrightarrow> registry_inv j \<and> i_incarnations j = i_incarnations i"
  by (auto simp: take_incarnation_def Let_def)

lemma begin_device_incarnation_inv:
  assumes inv: "registry_inv i"
  shows "registry_inv (fst (begin_device_incarnation d now i))"
proof -
  obtain n j where t: "take_incarnation i = (n, j)" by force
  note j = take_incarnation_inv [OF t inv]
  show ?thesis
  proof (cases "find_device i d")
    case None
    have "registry_inv (j\<lparr>i_incarnations := om_put d \<lparr>ie_device = d, ie_current = n, ie_history = [n]\<rparr> (i_incarnations j)\<rparr>)"
      using j by (intro registry_inv_device) simp_all
    then show ?thesis using None inv by (simp add: begin_device_incarnation_def t)
  next
    case (Some entry)
    have "registry_inv (j\<lparr>i_incarnations := om_put d (entry\<lparr>ie_current := n, ie_history := sort (ie_history entry @ [n])\<rparr>) (i_incarnations j)\<rparr>)"
      using j find_device_ok [OF inv Some] by (intro registry_inv_device) simp_all
    then show ?thesis using Some inv by (simp add: begin_device_incarnation_def t)
  qed
qed

lemma if_both: "P a \<Longrightarrow> P b \<Longrightarrow> P (if c then a else b)"
  by simp

lemma set_device_incarnation_inv: "registry_inv i \<Longrightarrow> registry_inv (fst (set_device_incarnation d inc now i))"
proof (cases "find_device i d")
  case None
  assume inv: "registry_inv i"
  have "registry_inv (i\<lparr>i_incarnations := om_put d \<lparr>ie_device = d, ie_current = inc, ie_history = [inc]\<rparr> (i_incarnations i)\<rparr>)"
    using inv by (intro registry_inv_device) simp_all
  then show ?thesis using inv None by (simp add: set_device_incarnation_def)
next
  case (Some entry)
  assume inv: "registry_inv i"
  note ok = find_device_ok [OF inv Some]
  let ?e = "if inc \<notin> set (ie_history entry) then entry\<lparr>ie_history := sort (ie_history entry @ [inc])\<rparr> else entry"
  have e: "ie_device ?e = d" "ie_current ?e \<in> set (ie_history ?e)" "sorted (ie_history ?e)" "inc \<in> set (ie_history ?e)"
    using ok by auto
  have 1: "registry_inv (raise_next_incarnation inc (i\<lparr>i_incarnations := om_put d ?e (i_incarnations i)\<rparr>))"
    using registry_inv_device [OF inv e(1,2,3)] by simp
  have 2: "registry_inv ((raise_next_incarnation inc (i\<lparr>i_incarnations := om_put d ?e (i_incarnations i)\<rparr>))
      \<lparr>i_incarnations := om_put d (?e\<lparr>ie_current := inc\<rparr>)
        (i_incarnations (raise_next_incarnation inc (i\<lparr>i_incarnations := om_put d ?e (i_incarnations i)\<rparr>)))\<rparr>)"
    using e by (intro registry_inv_device [OF 1]) simp_all
  show ?thesis
    unfolding set_device_incarnation_def Some option.case Let_def if_distrib [of fst] fst_conv
    by (intro if_both [where P = registry_inv] inv 1 registry_inv_refresh_all [OF registry_inv_bump [THEN iffD2, OF 2]])
qed

lemma change_source_inv: "registry_inv i \<Longrightarrow> registry_inv (fst (change_source s u c now i))"
  by (auto simp: change_source_def split: option.splits)

lemma source_ops_inv:
  "registry_inv i \<Longrightarrow> registry_inv (fst (revoke_source s now i))"
  "registry_inv i \<Longrightarrow> registry_inv (fst (restore_source s now i))"
  "registry_inv i \<Longrightarrow> registry_inv (fst (set_source_authority s a now i))"
  "registry_inv i \<Longrightarrow> registry_inv (fst (upsert_source_policy p now i))"
  by (simp_all add: revoke_source_def restore_source_def set_source_authority_def change_source_inv upsert_source_policy_def Let_def)

lemma settings_inv:
  "registry_inv i \<Longrightarrow> registry_inv (fst (set_rule_generation g i))" "registry_inv i \<Longrightarrow> registry_inv (fst (advance_epoch i))"
  "registry_inv i \<Longrightarrow> registry_inv (fst (set_logical_tick t i))" "registry_inv i \<Longrightarrow> registry_inv (set_limits l i)"
  by (simp_all add: set_rule_generation_def advance_epoch_def set_logical_tick_def set_limits_def)

lemma resolve_conflict_inv: "registry_inv i \<Longrightarrow> registry_inv (fst (resolve_conflict c e r now i))"
proof -
  assume inv: "registry_inv i"
  have "registry_inv (push_resolution r i)" for r
  proof -
    have s: "sorted (map cr_id (i_resolutions i))" "distinct (map cr_id (i_resolutions i))"
      using inv by (simp_all add: registry_inv_def tables_ok_def)
    have "sorted (map cr_id (i_resolutions (push_resolution r i))) \<and> distinct (map cr_id (i_resolutions (push_resolution r i)))"
    proof (cases "\<exists>x \<in> set (i_resolutions i). cr_id x = cr_id r")
      case True
      then obtain y where y: "find (\<lambda>x. cr_id x = cr_id r) (i_resolutions i) = Some y"
        by (metis (mono_tags, lifting) find_None_iff not_None_eq)
      then have "map cr_id (replace_first (\<lambda>x. cr_id x = cr_id r) r (i_resolutions i)) = map cr_id (i_resolutions i)"
        using find_Some_iff [OF y] by (intro map_replace_first [OF y]) simp
      then show ?thesis using True s by (simp add: push_resolution_def)
    next
      case False
      have "distinct (map cr_id (tl (i_resolutions i) @ [r]))" "distinct (map cr_id (i_resolutions i @ [r]))"
        using s(2) False by (cases "i_resolutions i"; force)+
      then show ?thesis using False by (auto simp: push_resolution_def Let_def distinct_map_sort_key simp del: map_append)
    qed
    then show ?thesis
      using inv by (auto simp: registry_inv_def tables_ok_def devices_ok_def decisions_ok_def push_resolution_def Let_def)
  qed
  then show ?thesis using inv by (auto simp: resolve_conflict_def Let_def split: option.splits)
qed

section \<open>Retirement fences a stream\<close>

lemma find_del_tombstone [simp]:
  "find_tombstone (del_tombstone key w) = (find_tombstone w)(key := None)"
  "find_stream (del_tombstone key w) = find_stream w"
proof -
  show "find_tombstone (del_tombstone key w) = (find_tombstone w)(key := None)"
    by (rule ext, rename_tac key', case_tac key', cases key)
      (auto simp: find_tombstone_def del_tombstone_def Let_def ensure_group_find empty_group_def split: option.splits)
  show "find_stream (del_tombstone key w) = find_stream w"
    by (rule ext) (auto simp: find_stream_def del_tombstone_def Let_def ensure_group_find empty_group_def split: option.splits)
qed

lemma world_wf_del_tombstone [simp]: "world_wf w \<Longrightarrow> world_wf (del_tombstone key w)"
  using ensure_group_wf [of w "key_device key" "key_kind key"]
  by (auto simp: del_tombstone_def Let_def group_wf_def intro!: world_wf_put_group)

lemma record_count_streams: "world_wf w \<Longrightarrow> world_wf w' \<Longrightarrow> find_stream w' = find_stream w \<Longrightarrow> record_count w' = record_count w"
  using streams.view_eqI [of w' w] by (simp add: record_count_def)

lemma push_tombstone_effect:
  shows "find_stream (i_world (push_tombstone t i)) = find_stream (i_world i)"
    "world_wf (i_world i) \<Longrightarrow> world_wf (i_world (push_tombstone t i))"
    "i_total_records (push_tombstone t i) = i_total_records i" "i_incarnations (push_tombstone t i) = i_incarnations i"
    "i_decisions (push_tombstone t i) = i_decisions i" "i_decision_order (push_tombstone t i) = i_decision_order i"
    "i_conflicts (push_tombstone t i) = i_conflicts i" "i_resolutions (push_tombstone t i) = i_resolutions i"
    "i_policy (push_tombstone t i) = i_policy i"
    "find_tombstone (i_world (push_tombstone t i)) k = Some t' \<Longrightarrow> t' = t \<and> k = rr_key t \<or> find_tombstone (i_world i) k = Some t'"
  by (auto simp: push_tombstone_def Let_def split: option.splits if_splits)

lemma push_tombstone_stored:
  assumes "\<And>slot. find_tombstone (i_world i) (rr_key t) = Some slot \<Longrightarrow> rr_generation slot < rr_generation t"
  shows "find_tombstone (i_world (push_tombstone t i)) (rr_key t) = Some t"
proof -
  have "\<not> (case find_tombstone (i_world i) (rr_key t) of None \<Rightarrow> False
      | Some slot \<Rightarrow> rr_generation slot \<ge> rr_generation t \<and> key_source (rr_key slot) \<noteq> [])"
    using assms by (auto simp: not_le split: option.splits)
  then show ?thesis by (auto simp: push_tombstone_def Let_def split: option.splits)
qed

lemma push_tombstone_inv:
  assumes "registry_inv i" "rr_generation t \<noteq> 0"
  shows "registry_inv (push_tombstone t i)"
proof -
  note e = push_tombstone_effect [where t = t and i = i]
  have w: "world_wf (i_world i)" using assms(1) by (simp add: registry_inv_def world_inv_def)
  have "world_inv (i_world (push_tombstone t i))"
    using assms e(2) [OF w] e(10) unfolding registry_inv_def world_inv_def e(1) by blast
  moreover have "record_count (i_world (push_tombstone t i)) = record_count (i_world i)"
    by (rule record_count_streams [OF w e(2) [OF w] e(1)])
  moreover have "unique_ids (i_world (push_tombstone t i)) = unique_ids (i_world i)" unfolding unique_ids_def e(1) ..
  ultimately show ?thesis
    using assms(1) by (simp add: registry_inv_def e(3-8) devices_ok_def decisions_ok_def tables_ok_def)
qed

lemma retire_record_simps [simp]:
  "s_evidence (retire_record g reason now r) = s_evidence r" "stored_id (retire_record g reason now r) = stored_id r"
  by (simp_all add: retire_record_def stored_id_def)

lemma retire_stream_ok:
  assumes ok: "stream_ok key s" and above: "st_max_generation s \<le> g"
  shows "stream_ok key (s\<lparr>st_records := map (retire_record g reason now) (st_records s)\<rparr>)"
    "\<forall>r \<in> set (map (retire_record g reason now) (st_records s)). s_lifecycle r \<noteq> LifecycleAdmitted"
proof -
  have le: "e_generation (s_evidence r) \<le> g" if "r \<in> set (st_records s)" for r
    using ok above max_generation_bounds(1) [OF that] by (auto simp: stream_ok_def)
  show none: "\<forall>r \<in> set (map (retire_record g reason now) (st_records s)). s_lifecycle r \<noteq> LifecycleAdmitted"
    using le by (auto simp: retire_record_def retires_def)
  have ranks: "map record_rank (map (retire_record g reason now) rs) = map record_rank rs"
    "map stored_id (map (retire_record g reason now) rs) = map stored_id rs"
    "max_generation_of (map (retire_record g reason now) rs) = max_generation_of rs" for rs
    by (simp_all add: record_rank_def max_generation_of_def fold_map comp_def cong: if_cong)
  show "stream_ok key (s\<lparr>st_records := map (retire_record g reason now) (st_records s)\<rparr>)"
    using ok none ranks [of "st_records s"] unfolding stream_ok_def admitted_in_def by (simp del: map_map)
qed

text \<open>The accepted ending of a retirement.\<close>

lemma retire_Success:
  assumes "retire q now i = (i', Success c out)" "\<not> ro_idempotent out"
  obtains s t reason where "find_stream (i_world i) (retirement_key q) = Some s" "st_max_generation s < rq_generation q"
    "rr_key t = retirement_key q" "rr_generation t = rq_generation q" "rq_generation q \<noteq> 0"
    "\<And>slot. find_tombstone (i_world i) (retirement_key q) = Some slot \<Longrightarrow> rr_generation slot < rq_generation q"
    "i' = refresh_conflict (rq_device q) (rq_kind q) now (count_retirement True (push_tombstone t
        (i\<lparr>i_world := put_stream (retirement_key q) (s\<lparr>st_records := map (retire_record (rq_generation q) reason now) (st_records s)\<rparr>) (i_world i)\<rparr>)))"
    "ro_retired out = sort (map stored_id (filter (retires (rq_generation q)) (st_records s)))"
proof -
  let ?key = "retirement_key q"
  have gen: "rq_generation q \<noteq> 0" using assms(1) by (auto simp: retire_def Let_def is_unset_def split: if_splits)
  have tomb: "rr_generation slot < rq_generation q" if "find_tombstone (i_world i) ?key = Some slot" for slot
    using assms that by (auto simp: retire_def Let_def split: if_splits)
  obtain s where s: "find_stream (i_world i) ?key = Some s"
    using assms by (auto simp: retire_def Let_def split: if_splits option.splits)
  have "st_max_generation s < rq_generation q"
    using assms s gen by (auto simp: retire_def Let_def not_le word_gt_0 split: if_splits option.splits)
  moreover have "\<exists>t reason. rr_key t = ?key \<and> rr_generation t = rq_generation q
    \<and> i' = refresh_conflict (rq_device q) (rq_kind q) now (count_retirement True (push_tombstone t
        (i\<lparr>i_world := put_stream ?key (s\<lparr>st_records := map (retire_record (rq_generation q) reason now) (st_records s)\<rparr>) (i_world i)\<rparr>)))
    \<and> ro_retired out = sort (map stored_id (filter (retires (rq_generation q)) (st_records s)))"
    using assms s unfolding retire_def Let_def
    by (intro exI [of _ "\<lparr>rr_key = ?key, rr_generation = rq_generation q, rr_retired_at = now,
          rr_reason = (if rq_reason q = Ok then UnknownCapabilityRetired else rq_reason q), rr_epoch = i_epoch i,
          rr_policy_revision = i_policy_revision i,
          rr_authority = (case find_source (i_policy i) (rq_source q) of None \<Rightarrow> RankNone | Some s \<Rightarrow> sp_authority s)\<rparr>"]
        exI [of _ "if rq_reason q = Ok then UnknownCapabilityRetired else rq_reason q"])
      (auto simp: retirement_key_def split: if_splits)
  ultimately show thesis using that s gen tomb by blast
qed

lemma count_retirement_frame [simp]:
  "i_world (count_retirement b i) = i_world i" "registry_inv (count_retirement b i) \<longleftrightarrow> registry_inv i"
  by (simp_all add: count_retirement_def)

lemma retired_inv:
  assumes inv: "registry_inv i" and s: "find_stream (i_world i) key = Some s" and g: "st_max_generation s < g"
  shows "registry_inv (i\<lparr>i_world := put_stream key (s\<lparr>st_records := map (retire_record g reason now) (st_records s)\<rparr>) (i_world i)\<rparr>)"
proof -
  have ok: "stream_ok key s" and u: "unique_ids (i_world i)" using inv s by (simp_all add: registry_inv_def world_inv_def)
  have "registry_inv (i\<lparr>i_world := put_stream key (s\<lparr>st_records := map (retire_record g reason now) (st_records s)\<rparr>) (i_world i),
      i_total_records := i_total_records i\<rparr>)"
  proof (rule registry_inv_put_stream [OF inv retire_stream_ok(1) [OF ok]])
    show "st_max_generation s \<le> g" using g by simp
    show "stored_id x \<noteq> stored_id r'" if "x \<in> set (st_records (s\<lparr>st_records := map (retire_record g reason now) (st_records s)\<rparr>))"
      "record_at (i_world i) k r'" "k \<noteq> key" for x k r'
      using that s unique_ids_D [OF u, of key _ k r'] by (auto simp: record_at_def)
  qed (use s in \<open>simp add: stream_length_def\<close>)
  then show ?thesis by simp
qed

lemma retire_inv: "registry_inv i \<Longrightarrow> registry_inv (fst (retire q now i))"
proof -
  assume inv: "registry_inv i"
  obtain i' result where r: "retire q now i = (i', result)" by force
  show ?thesis
  proof (cases "\<exists>c out. result = Success c out \<and> \<not> ro_idempotent out")
    case True
    then obtain c out where "retire q now i = (i', Success c out)" "\<not> ro_idempotent out" using r by blast
    then obtain s t reason where *: "find_stream (i_world i) (retirement_key q) = Some s" "st_max_generation s < rq_generation q"
      "rr_generation t = rq_generation q" "rq_generation q \<noteq> 0"
      "i' = refresh_conflict (rq_device q) (rq_kind q) now (count_retirement True (push_tombstone t
        (i\<lparr>i_world := put_stream (retirement_key q) (s\<lparr>st_records := map (retire_record (rq_generation q) reason now) (st_records s)\<rparr>) (i_world i)\<rparr>)))"
      by (rule retire_Success) blast
    show ?thesis using push_tombstone_inv [OF retired_inv [OF inv *(1,2)]] *(3,4) by (simp add: r *(5))
  next
    case False
    then have "i' = count_retirement False i \<or> i' = count_retirement True i"
      using r by (auto simp: retire_def Let_def split: if_splits option.splits)
    then show ?thesis using inv by (auto simp: r)
  qed
qed

lemma admit_Success_tombstone:
  assumes "registry_inv i" "collision_free i q" "admit q now i = (i', Success c out)" "find_tombstone (i_world i) (request_key q) = Some t"
  shows "rr_generation t < ar_generation q"
  using assms(1,2)
proof (rule admit_endings [where now = now])
  fix reason detail j assume "admit q now i = (count_rejected j, Failure reason detail)"
  then show ?thesis using assms(3) by simp
qed (use assms(4) in blast)

text \<open>
  C17: retirement fences its stream. After an accepted retirement none of the stream's records is admitted any
  more (exactly the admitted ones were retired and are listed), a tombstone of the requested generation stands,
  every other stream is untouched, and from then on every admission into the stream at that generation or below
  fails, whatever it carries.
\<close>

theorem retire_fences:
  assumes "registry_inv i" "retire q now i = (i', Success c out)" "\<not> ro_idempotent out"
  shows "(\<forall>r. record_at (i_world i') (retirement_key q) r \<longrightarrow> s_lifecycle r \<noteq> LifecycleAdmitted)
    \<and> set (ro_retired out) = stored_id ` {r. record_at (i_world i) (retirement_key q) r \<and> s_lifecycle r = LifecycleAdmitted}
    \<and> (\<exists>t. find_tombstone (i_world i') (retirement_key q) = Some t \<and> rr_generation t = rq_generation q)
    \<and> (\<forall>k r. k \<noteq> retirement_key q \<longrightarrow> (record_at (i_world i') k r \<longleftrightarrow> record_at (i_world i) k r))
    \<and> (\<forall>q2 now2. request_key q2 = retirement_key q \<and> ar_generation q2 \<le> rq_generation q \<and> collision_free i' q2 \<longrightarrow>
         (\<exists>j reason detail. admit q2 now2 i' = (j, Failure reason detail)))"
proof -
  let ?key = "retirement_key q"
  obtain s t reason where s: "find_stream (i_world i) ?key = Some s" "st_max_generation s < rq_generation q"
    and t: "rr_key t = ?key" "rr_generation t = rq_generation q"
    and slot: "\<And>slot. find_tombstone (i_world i) ?key = Some slot \<Longrightarrow> rr_generation slot < rq_generation q"
    and i': "i' = refresh_conflict (rq_device q) (rq_kind q) now (count_retirement True (push_tombstone t
        (i\<lparr>i_world := put_stream ?key (s\<lparr>st_records := map (retire_record (rq_generation q) reason now) (st_records s)\<rparr>) (i_world i)\<rparr>)))"
    and out: "ro_retired out = sort (map stored_id (filter (retires (rq_generation q)) (st_records s)))"
    using assms(2,3) by (rule retire_Success) blast
  have ok: "stream_ok ?key s" using assms(1) s(1) by (simp add: registry_inv_def world_inv_def)
  have fs: "find_stream (i_world i') = (find_stream (i_world i))(?key \<mapsto> s\<lparr>st_records := map (retire_record (rq_generation q) reason now) (st_records s)\<rparr>)"
    by (simp add: i' push_tombstone_effect(1))
  have ft: "find_tombstone (i_world i') ?key = Some t"
    using push_tombstone_stored [of "i\<lparr>i_world := put_stream ?key (s\<lparr>st_records := map (retire_record (rq_generation q) reason now) (st_records s)\<rparr>) (i_world i)\<rparr>" t]
      slot by (simp add: i' t)
  have "retires (rq_generation q) r \<longleftrightarrow> s_lifecycle r = LifecycleAdmitted" if "r \<in> set (st_records s)" for r
    using ok s(2) max_generation_bounds(1) [OF that] by (auto simp: retires_def stream_ok_def)
  then have "set (ro_retired out) = stored_id ` {r. record_at (i_world i) ?key r \<and> s_lifecycle r = LifecycleAdmitted}"
    using s(1) by (auto simp: out record_at_def)
  moreover have "\<forall>r. record_at (i_world i') ?key r \<longrightarrow> s_lifecycle r \<noteq> LifecycleAdmitted"
    using retire_stream_ok(2) [OF ok, of "rq_generation q" reason now] s(2) by (auto simp: record_at_def fs)
  moreover have "\<exists>j reason detail. admit q2 now2 i' = (j, Failure reason detail)"
    if "request_key q2 = ?key" "ar_generation q2 \<le> rq_generation q" "collision_free i' q2" for q2 now2
  proof (cases "admit q2 now2 i'")
    case (Pair j result)
    have inv': "registry_inv i'" using retire_inv [OF assms(1), of q now] assms(2) by simp
    show ?thesis
    proof (cases result)
      case (Success c2 out2)
      have "rr_generation t < ar_generation q2"
        using admit_Success_tombstone [OF inv' that(3) Pair [unfolded Success]] ft that(1) by simp
      then show ?thesis using that(2) t(2) by simp
    qed (use Pair in blast)
  qed
  ultimately show ?thesis using ft t(2) by (auto simp: record_at_def fs)
qed

definition sample_retirement :: "RecordGeneration \<Rightarrow> RetirementRequest" where
  "sample_retirement g = \<lparr>rq_device = key_device sample_key, rq_kind = TlsRecordCrypto, rq_source = ''fixture-sim'',
     rq_generation = g, rq_retired_at = 9, rq_reason = Ok\<rparr>"

theorem retire_fences_witness:
  "\<exists>i' out. retire (sample_retirement 3) 9 (sample_impl 5) = (i', Success Ok out) \<and> set (ro_retired out) = {[1], [2]}
     \<and> (\<exists>t. find_tombstone (i_world i') sample_key = Some t \<and> rr_generation t = 3)"
proof -
  let ?i = "sample_impl 5" and ?q = "sample_retirement 3"
  have key: "retirement_key ?q = sample_key"
    by (simp add: retirement_key_def sample_retirement_def sample_key_def sample_evidence_def)
  have dev: "find_device ?i (dr_device (key_device sample_key)) \<noteq> None" by (simp add: find_device_def sample_impl_def)
  have q: "rq_device ?q = key_device sample_key" "rq_source ?q = ''fixture-sim''" "rq_generation ?q = 3"
    by (simp_all add: sample_retirement_def)
  obtain i' out where r: "retire ?q 9 ?i = (i', Success Ok out)" "\<not> ro_idempotent out"
    using dev by (simp add: retire_def Let_def key q sample_find sample_source is_unset_def sample_stream_def)
  have "{r. record_at (i_world ?i) sample_key r \<and> s_lifecycle r = LifecycleAdmitted} = {sample_stored 1 [1], sample_stored 2 [2]}"
    by (auto simp: record_at_def sample_find sample_stream_def sample_stored_def)
  then show ?thesis
    using retire_fences [OF sample_registry_inv r] r(1) unfolding key
    by (auto simp: sample_stored_def stored_id_def evidence_id_def sample_retirement_def)
qed

section \<open>Incarnations and revocation fence\<close>

lemma find_device_refresh_all [simp]: "find_device (refresh_all_conflicts now i) = find_device i"
  by (rule ext) (simp add: find_device_def)

lemma incarnation_set:
  "begin_device_incarnation dev now i = (i', Success c n) \<Longrightarrow> \<exists>e. find_device i' dev = Some e \<and> ie_current e = n"
  "set_device_incarnation dev inc now i = (i', Success c n) \<Longrightarrow> n = inc \<and> (\<exists>e. find_device i' dev = Some e \<and> ie_current e = inc)"
proof -
  show "\<exists>e. find_device i' dev = Some e \<and> ie_current e = n" if "begin_device_incarnation dev now i = (i', Success c n)"
    using that by (auto simp: begin_device_incarnation_def find_device_def split: option.splits if_splits prod.splits)
  assume *: "set_device_incarnation dev inc now i = (i', Success c n)"
  show "n = inc \<and> (\<exists>e. find_device i' dev = Some e \<and> ie_current e = inc)"
  proof (cases "find_device i dev")
    case None
    then show ?thesis using * by (auto simp: set_device_incarnation_def find_device_def split: if_splits)
  next
    case (Some entry)
    then show ?thesis using * by (auto simp: set_device_incarnation_def Let_def find_device_def split: if_splits)
  qed
qed

text \<open>The counter of incarnation ids is ahead of every id a device has had.\<close>

definition ids_below :: "Impl \<Rightarrow> bool" where
  "ids_below i \<longleftrightarrow> (\<forall>d entry. find_device i d = Some entry \<longrightarrow> (\<forall>n \<in> set (ie_history entry). n < i_next_incarnation i))"

lemma ids_below_cong: "i_incarnations j = i_incarnations i \<Longrightarrow> i_next_incarnation j = i_next_incarnation i \<Longrightarrow> ids_below j \<longleftrightarrow> ids_below i"
  by (simp add: ids_below_def find_device_def)

lemma ids_below_put:
  assumes "ids_below i" "find_device j = (find_device i)(d \<mapsto> entry)" "i_next_incarnation i \<le> i_next_incarnation j"
    "\<And>n. n \<in> set (ie_history entry) \<Longrightarrow> n < i_next_incarnation j"
  shows "ids_below j"
  using assms unfolding ids_below_def by (fastforce split: if_splits)

lemma raise_next_above: "inc \<noteq> -1 \<Longrightarrow> inc < i_next_incarnation (raise_next_incarnation inc i)"
  "inc \<noteq> -1 \<Longrightarrow> i_next_incarnation i \<le> i_next_incarnation (raise_next_incarnation inc i)"
  "i_next_incarnation (raise_next_incarnation (-1) i) = 0"
proof -
  assume "inc \<noteq> -1"
  then have "inc < inc + 1" using inc_less_eq_self_iff_eq [of inc] by auto
  then show "inc < i_next_incarnation (raise_next_incarnation inc i)" "i_next_incarnation i \<le> i_next_incarnation (raise_next_incarnation inc i)"
    by (auto simp: raise_next_incarnation_def)
qed (simp add: raise_next_incarnation_def)

lemma begin_device_incarnation_run:
  assumes "begin_device_incarnation dev now i = (i', Success c n)"
  shows "n = (if i_next_incarnation i = 0 then 1 else i_next_incarnation i)" "i_next_incarnation i' = n + 1" "i_world i' = i_world i"
    "find_device i' = (find_device i)(dev \<mapsto> case find_device i dev of
        None \<Rightarrow> \<lparr>ie_device = dev, ie_current = n, ie_history = [n]\<rparr>
      | Some entry \<Rightarrow> entry\<lparr>ie_current := n, ie_history := sort (ie_history entry @ [n])\<rparr>)"
  using assms by (auto simp: begin_device_incarnation_def take_incarnation_def find_device_def fun_eq_iff Let_def split: option.splits if_splits)

lemma begin_device_incarnation_new:
  assumes b: "begin_device_incarnation dev now i = (i', Success c n)" and below: "ids_below i"
  shows "find_device i d = Some entry \<Longrightarrow> n \<notin> set (ie_history entry)" "n \<noteq> -1 \<Longrightarrow> ids_below i'"
proof -
  note run = begin_device_incarnation_run [OF b]
  have old: "m < n" if "find_device i d = Some entry" "m \<in> set (ie_history entry)" for d entry m
  proof -
    have "m < i_next_incarnation i" using that below by (auto simp: ids_below_def)
    then show ?thesis using run(1) by (simp split: if_splits)
  qed
  then show "find_device i d = Some entry \<Longrightarrow> n \<notin> set (ie_history entry)" by blast
  assume "n \<noteq> -1"
  then have "n < n + 1" using inc_less_eq_self_iff_eq [of n] by auto
  moreover have "i_next_incarnation i \<le> n" using run(1) by simp
  ultimately show "ids_below i'"
    using less_trans [OF old] by (intro ids_below_put [OF below run(4)]) (auto simp: run(2) split: option.splits)
qed

text \<open>
  C18: a device has one current incarnation and everything else is fenced. After \<open>begin_device_incarnation\<close>
  succeeds the id it returns is not zero and is the current one, and no evidence of any other incarnation of the device is live,
  at any time, for any kind and any freshness override. Where the counter of ids is ahead of every recorded
  incarnation (as it is until it wraps around), the id was never one of any device, and, every record being of a recorded
  incarnation, the device has no live evidence at all until some is admitted for the new incarnation; the counter
  stays ahead unless the id was the last one, \<open>2 ^ 64 - 1\<close>. An explicit \<open>set_device_incarnation\<close> makes the
  given incarnation, which may be an earlier one, the current one and fences every other in the same way.
\<close>

theorem incarnation_fences:
  "(begin_device_incarnation dev now i = (i', Success c n) \<longrightarrow>
      n \<noteq> 0 \<and> current_incarnation dev i' = Success Ok n
      \<and> (\<forall>inc k t mo. inc \<noteq> n \<longrightarrow> dv_live (derive i' (DeviceIncarnationRef dev inc) k t mo) = [])
      \<and> (ids_below i \<longrightarrow> (\<forall>d entry. find_device i d = Some entry \<longrightarrow> n \<notin> set (ie_history entry)))
      \<and> (ids_below i \<and> records_owned i \<and> registry_inv i \<longrightarrow>
           (\<forall>k t mo. dv_live (derive i' (DeviceIncarnationRef dev n) k t mo) = []))
      \<and> (ids_below i \<and> n \<noteq> -1 \<longrightarrow> ids_below i'))
   \<and> (set_device_incarnation dev n now i = (i', Success c n) \<longrightarrow>
      current_incarnation dev i' = Success Ok n
      \<and> (\<forall>inc k t mo. inc \<noteq> n \<longrightarrow> dv_live (derive i' (DeviceIncarnationRef dev inc) k t mo) = []))"
proof -
  have fenced: "dv_live (derive i' (DeviceIncarnationRef dev inc) k t mo) = []"
    if "find_device i' dev = Some e" "ie_current e = n" "inc \<noteq> n" for e inc k t mo
    using that by (auto simp: live_empty_iff active_in_def active_conditions_def device_current_def)
  have none: "dv_live (derive i' (DeviceIncarnationRef dev n) k t mo) = []"
    if b: "begin_device_incarnation dev now i = (i', Success c n)" and a: "ids_below i" "records_owned i" "registry_inv i" for k t mo
  proof (rule ccontr)
    note run = begin_device_incarnation_run [OF b]
    have wf: "world_wf (i_world i')" using a(3) by (simp add: run(3) registry_inv_def world_inv_def)
    assume "dv_live (derive i' (DeviceIncarnationRef dev n) k t mo) \<noteq> []"
    then obtain sid r where "record_at (i_world i) (EvidenceKey (DeviceIncarnationRef dev n) k sid) r"
      by (auto simp: live_empty_iff active_in_at [OF wf] active_at_def run(3))
    then obtain entry where "find_device i dev = Some entry" "n \<in> set (ie_history entry)" using a(2) by (fastforce simp: records_owned_def)
    then show False using begin_device_incarnation_new(1) [OF b a(1)] by blast
  qed
  have now: "current_incarnation dev i' = Success Ok n \<and>
      (\<forall>inc k t mo. inc \<noteq> n \<longrightarrow> dv_live (derive i' (DeviceIncarnationRef dev inc) k t mo) = [])"
    if e: "\<exists>e. find_device i' dev = Some e \<and> ie_current e = n"
    using e fenced by (auto simp: current_incarnation_def)
  show ?thesis
  proof (rule conjI; rule impI)
    assume b: "begin_device_incarnation dev now i = (i', Success c n)"
    have "n \<noteq> 0" using begin_device_incarnation_run(1) [OF b] by simp
    then show "n \<noteq> 0 \<and> current_incarnation dev i' = Success Ok n
      \<and> (\<forall>inc k t mo. inc \<noteq> n \<longrightarrow> dv_live (derive i' (DeviceIncarnationRef dev inc) k t mo) = [])
      \<and> (ids_below i \<longrightarrow> (\<forall>d entry. find_device i d = Some entry \<longrightarrow> n \<notin> set (ie_history entry)))
      \<and> (ids_below i \<and> records_owned i \<and> registry_inv i \<longrightarrow>
           (\<forall>k t mo. dv_live (derive i' (DeviceIncarnationRef dev n) k t mo) = []))
      \<and> (ids_below i \<and> n \<noteq> -1 \<longrightarrow> ids_below i')"
      using now [OF incarnation_set(1) [OF b]] begin_device_incarnation_new [OF b] none [OF b] by simp
  next
    assume "set_device_incarnation dev n now i = (i', Success c n)"
    then show "current_incarnation dev i' = Success Ok n
      \<and> (\<forall>inc k t mo. inc \<noteq> n \<longrightarrow> dv_live (derive i' (DeviceIncarnationRef dev inc) k t mo) = [])"
      using now incarnation_set(2) by blast
  qed
qed

theorem incarnation_fences_witness:
  "\<exists>i' n. begin_device_incarnation (dr_device (key_device sample_key)) 9 ((sample_impl 5)\<lparr>i_next_incarnation := 2\<rparr>) = (i', Success Ok n)
     \<and> current_incarnation (dr_device (key_device sample_key)) i' = Success Ok n \<and> n \<noteq> 1 \<and> ids_below i'
     \<and> dv_live (derive i' (DeviceIncarnationRef (dr_device (key_device sample_key)) 1) TlsRecordCrypto 9 0) = []"
proof -
  let ?i = "(sample_impl 5)\<lparr>i_next_incarnation := 2\<rparr>" and ?dev = "dr_device (key_device sample_key)"
  obtain i' n where run: "begin_device_incarnation ?dev 9 ?i = (i', Success Ok n)"
    by (simp add: begin_device_incarnation_def find_device_def sample_impl_def Registry_init_def take_incarnation_def
        sort_policy_def default_limits_def)
  have entry: "find_device ?i ?dev = Some \<lparr>ie_device = ?dev, ie_current = 1, ie_history = [1]\<rparr>" by (simp add: find_device_def sample_impl_def)
  have below: "ids_below ?i" by (simp add: ids_below_def find_device_def sample_impl_def)
  have "n = 2" using begin_device_incarnation_run(1) [OF run] by simp
  then show ?thesis
    using incarnation_fences [of ?dev 9 ?i i' Ok n] run below entry by auto
qed

text \<open>
  Incarnation ids can come around. The largest id may be installed like any other; the counter is then past its end, and
  the next incarnation that begins is given the id 1, whoever had it before.
\<close>

theorem incarnation_ids_wrap:
  assumes "set_device_incarnation dev (-1) now i = (i1, Success c m)" "begin_device_incarnation dev' now' i1 = (i2, Success c' n)"
  shows "n = 1"
proof -
  have "i_next_incarnation i1 = 0"
    using assms(1) raise_next_above(3) by (auto simp: set_device_incarnation_def Let_def split: option.splits if_splits)
  then show ?thesis using begin_device_incarnation_run(1) [OF assms(2)] by simp
qed

lemma map_update_first: "(\<And>x. f (g x) = f x) \<Longrightarrow> map f (update_first P g xs) = map f xs"
  by (induction xs) simp_all

lemma find_update_first: "find P xs = Some t \<Longrightarrow> g t \<in> set (update_first P g xs)"
  by (induction xs) (auto split: if_splits)

lemma find_last_key: "distinct (map f xs) \<Longrightarrow> find_last (\<lambda>x. f x = k) xs = Some t \<longleftrightarrow> t \<in> set xs \<and> f t = k"
  unfolding find_last_def using find_key_iff [of f "rev xs" k t] by (simp add: rev_map [symmetric])

lemma update_last_find:
  assumes "distinct (map f xs)" "find_last (\<lambda>x. f x = k) xs = Some t" "\<And>x. f (g x) = f x"
  shows "find (\<lambda>x. f x = k) (update_last (\<lambda>x. f x = k) g xs) = Some (g t)"
proof -
  have keys: "map f (update_last (\<lambda>x. f x = k) g xs) = map f xs"
    unfolding update_last_def rev_map [symmetric] map_update_first [of f g, OF assms(3)] by (simp add: rev_map)
  have "g t \<in> set (update_last (\<lambda>x. f x = k) g xs)"
    using find_update_first assms(2) unfolding find_last_def update_last_def by fastforce
  moreover have "f (g t) = k" using assms(2,3) find_last_key [OF assms(1)] by auto
  ultimately show ?thesis using find_key_iff [of f "update_last (\<lambda>x. f x = k) g xs"] assms(1) keys by simp
qed

text \<open>
  C19: revocation fences a source. Where source ids are unambiguous, after \<open>revoke_source\<close> succeeds the source is
  found revoked, no record of its streams is live at any time, and every admission from it fails.
\<close>

theorem revoke_source_fences:
  assumes "registry_inv i" "distinct (map sp_id (p_sources (i_policy i)))" "revoke_source src now i = (i', Success c b)"
  shows "(\<exists>s. find_source (i_policy i') src = Some s \<and> sp_trust s = Revoked)
    \<and> (\<forall>d k t mo. \<forall>r \<in> set (dv_live (derive i' d k t mo)). key_source (e_key (s_evidence r)) \<noteq> src)
    \<and> (\<forall>q t. si_source (ar_source q) = src \<longrightarrow> (\<exists>j reason detail. admit q t i' = (j, Failure reason detail)))"
proof -
  obtain target where t: "find_last (\<lambda>s. sp_id s = src) (p_sources (i_policy i)) = Some target"
    using assms(3) by (auto simp: revoke_source_def change_source_def split: option.splits)
  have src: "\<exists>s. find_source (i_policy i') src = Some s \<and> sp_trust s = Revoked"
  proof (cases "sp_trust target = Revoked")
    case True
    then have "i' = i" using assms(3) t by (simp add: revoke_source_def change_source_def)
    then show ?thesis using True t find_source_iff [OF assms(2)] find_last_key [OF assms(2)] by blast
  next
    case False
    then have "i_policy i' = (i_policy i)\<lparr>p_sources := update_last (\<lambda>s. sp_id s = src) (\<lambda>s. s\<lparr>sp_trust := Revoked\<rparr>) (p_sources (i_policy i))\<rparr>"
      using assms(3) t by (auto simp: revoke_source_def change_source_def)
    then show ?thesis using update_last_find [OF assms(2) t, of "\<lambda>s. s\<lparr>sp_trust := Revoked\<rparr>"] by (simp add: find_source_def)
  qed
  have inv': "registry_inv i'" using source_ops_inv(1) [OF assms(1), of src now] assms(3) by simp
  have w': "world_wf (i_world i')" using inv' by (simp add: registry_inv_def world_inv_def)
  have "key_source (e_key (s_evidence r)) \<noteq> src" if live: "r \<in> set (dv_live (derive i' d k t mo))" for d k t mo r
  proof -
    obtain sid s where s: "find_stream (i_world i') (EvidenceKey d k sid) = Some s" "r \<in> set (st_records s)"
      "active_conditions i' r s (find_source (i_policy i') sid) d t mo"
      using live unfolding live_iff active_in_stream [OF w'] by blast
    then have "sid \<noteq> src" using src by (auto simp: active_conditions_def fenced_source_def)
    moreover have "e_key (s_evidence r) = EvidenceKey d k sid"
      using inv' s(1,2) by (auto simp: registry_inv_def world_inv_def stream_ok_def)
    ultimately show ?thesis by simp
  qed
  moreover have "\<exists>j reason detail. admit q t i' = (j, Failure reason detail)" if "si_source (ar_source q) = src" for q t
  proof -
    have "admission_refusal i' q t \<noteq> None" using src that by (auto simp: admission_refusal_def Let_def)
    then show ?thesis by (auto simp: admit_def reject_admission_def)
  qed
  ultimately show ?thesis using src by blast
qed

theorem revoke_source_fences_witness:
  "\<exists>i'. revoke_source ''fixture-sim'' 9 (sample_impl 5) = (i', Success AcceptedNew True)
     \<and> (\<exists>s. find_source (i_policy i') ''fixture-sim'' = Some s \<and> sp_trust s = Revoked)"
proof -
  let ?i = "sample_impl 5"
  have src: "p_sources (i_policy ?i) = p_sources make_lab_policy"
    by (simp add: sample_impl_def Registry_init_def sort_policy_def sort_sources_def lab_sources)
  have d: "distinct (map sp_id (p_sources (i_policy ?i)))" by (simp add: src lab_sources)
  obtain i' where r: "revoke_source ''fixture-sim'' 9 ?i = (i', Success AcceptedNew True)"
    by (simp add: revoke_source_def change_source_def src lab_sources find_last_def)
  show ?thesis using revoke_source_fences [OF sample_registry_inv d r] r by blast
qed

end
