(* ===== verification/Queries.thy ===== *)
theory Queries
  imports Mutations
begin

text \<open>
  The questions the registry answers, of \<open>src/registry.cpp\<close>: \<open>query\<close>, \<open>evaluate\<close> with the store of decisions,
  \<open>explain\<close> and \<open>stats\<close>, and the digests of requirements and decisions.

  An evaluation is Compatible exactly when the authoritative evidence of the current incarnation meets every
  part of the requirement; it is remembered for \<open>explain\<close> in a bounded store.
\<close>

section \<open>Digests\<close>

definition requirement_digest :: "CapabilityRequirement \<Rightarrow> Digest256" where
  "requirement_digest q = Digest256_of (w_u16 kApiGeneration @ encode_requirement q)"

definition decision_digest :: "CompatibilityDecision \<Rightarrow> DecisionId" where
  "decision_digest d = Digest256_of (w_u16 kApiGeneration @ encode_requirement (d_requirement d)
     @ w_u16 (DecisionKind_code (d_kind d)) @ w_u64 (d_rule_generation d) @ w_u64 (d_registry_epoch d)
     @ w_u64 (d_policy_revision d) @ w_u64 (d_evaluated_at d) @ w_list w_u16 (d_reasons d) @ w_list w_digest (d_evidence d)
     @ w_optional w_digest (d_selected d) @ w_optional w_digest (d_conflict d)
     @ w_u16 (AuthorityRank_code (d_selected_authority d)))"

section \<open>Query\<close>

definition state_fact :: "DerivedFact \<Rightarrow> EvidenceStateFact" where
  "state_fact f = (let e = s_evidence (f_record f) in
     \<lparr>ef_id = stored_id (f_record f), ef_lifecycle = s_lifecycle (f_record f), ef_state = f_state f, ef_reason = f_reason f,
      ef_observed_at = e_observed_at e, ef_age = f_age f, ef_authority = e_authority e, ef_generation = e_generation e,
      ef_source_incarnation = e_source_incarnation e, ef_capability_version = e_capability_version e,
      ef_features = e_features e, ef_limits = e_limits e, ef_firmware_version = e_firmware_version e,
      ef_runtime_version = e_runtime_version e\<rparr>)"

definition saw :: "EvidenceState \<Rightarrow> DerivedFact list \<Rightarrow> bool" where
  "saw st facts = list_ex (\<lambda>f. f_state f = st) facts"

definition saw_evicted :: "Impl \<Rightarrow> DeviceIncarnationRef \<Rightarrow> CapabilityKind \<Rightarrow> bool" where
  "saw_evicted i device kind = list_ex (\<lambda>ev. key_device (ev_key ev) = device \<and> key_kind (ev_key ev) = kind) (i_evictions i)"

definition note_if :: "bool \<Rightarrow> ReasonCode \<Rightarrow> ReasonCode list" where
  "note_if c reason = (if c then [reason] else [])"

definition historical :: "DerivedFact \<Rightarrow> bool" where
  "historical f \<longleftrightarrow> f_state f = StateSuperseded \<or> f_state f = StateRejected"

definition query :: "CapabilityQuery \<Rightarrow> Tick \<Rightarrow> Impl \<Rightarrow> QueryResult outcome" where
  "query q now i =
     (case find_device i (dr_device (q_device q)) of
        None \<Rightarrow> Failure UnknownDeviceNotRegistered ''device incarnation is not registered''
      | Some entry \<Rightarrow>
          let d = derive i (q_device q) (q_kind q) now (q_max_evidence_age q);
              facts = dv_facts d;
              base = note_if (ie_current entry \<noteq> dr_incarnation (q_device q)) UnknownIncarnationNotCurrent;
              r1 = base @ note_if (saw StateRetired facts) UnknownCapabilityRetired
                 @ note_if (saw StateSuperseded facts \<or> saw StateStale facts) UnknownStaleEvidence
                 @ note_if (saw StateFenced facts) UnknownFencedEvidence
                 @ note_if (saw StateOutranked facts) UnknownConflictingEvidence;
              r2 = r1 @ note_if (saw StateRejected facts \<and> r1 = []) RejectedSupersededGeneration;
              r3 = r2 @ note_if (r2 = [] \<and> saw_evicted i (q_device q) (q_kind q)) UnknownEvidenceEvicted;
              r4 = r3 @ note_if (r3 = []) UnknownNoEvidence;
              answer = (if dv_disagrees d then (Conflicted, None, dv_conflict d, base @ [ConflictEqualAuthority])
                        else if dv_live d \<noteq> [] then (Compatible, Some (stored_id (hd (dv_live d))), None, base @ [AcceptedNew])
                        else (Unknown, None, None, r4))
          in (case answer of (kind, selected, conflict, reasons) \<Rightarrow> Success Ok
               \<lparr>qr_kind = kind, qr_device = q_device q, qr_kind_requested = q_kind q,
                qr_reasons = canonicalize_reasons reasons,
                qr_facts = map state_fact (filter (\<lambda>f. q_include_history q \<or> \<not> historical f) facts),
                qr_selected = selected, qr_conflict = conflict, qr_rule_generation = i_rule_generation i,
                qr_registry_epoch = i_epoch i, qr_policy_revision = i_policy_revision i, qr_evaluated_at = now\<rparr>))"

section \<open>Decisions\<close>

fun drop_decisions :: "nat \<Rightarrow> DecisionId list \<Rightarrow> (DecisionId, CompatibilityDecision) omap \<Rightarrow> u64
    \<Rightarrow> DecisionId list \<times> (DecisionId, CompatibilityDecision) omap \<times> u64" where
  "drop_decisions cap [] decisions evicted = ([], decisions, evicted)"
| "drop_decisions cap (oldest # order) decisions evicted =
     (if length decisions \<ge> cap
      then drop_decisions cap order (om_del oldest decisions)
        (if map_of decisions oldest \<noteq> None then evicted + 1 else evicted)
      else (oldest # order, decisions, evicted))"

definition push_decision :: "CompatibilityDecision \<Rightarrow> Impl \<Rightarrow> Impl" where
  "push_decision d i =
     (if map_of (i_decisions i) (d_id d) \<noteq> None then i\<lparr>i_decisions := om_put (d_id d) d (i_decisions i)\<rparr>
      else (case drop_decisions (max_decisions (p_limits (i_policy i))) (i_decision_order i) (i_decisions i)
                  (decisions_evicted (i_counters i)) of
              (order, decisions, evicted) \<Rightarrow>
                i\<lparr>i_decisions := om_put (d_id d) d decisions, i_decision_order := order @ [d_id d],
                  i_counters := (i_counters i)\<lparr>decisions_evicted := evicted\<rparr>\<rparr>))"

definition finish :: "CompatibilityDecision \<Rightarrow> Impl \<Rightarrow> Impl \<times> CompatibilityDecision" where
  "finish draft i =
     (let d = draft\<lparr>d_reasons := canonicalize_reasons (d_reasons draft), d_evidence := sort (d_evidence draft)\<rparr>;
          d = d\<lparr>d_id := decision_digest d\<rparr>;
          i = push_decision d i
      in (i\<lparr>i_counters := (i_counters i)\<lparr>decisions_emitted := decisions_emitted (i_counters i) + 1\<rparr>\<rparr>, d))"

definition draft_decision :: "CapabilityRequirement \<Rightarrow> Tick \<Rightarrow> Impl \<Rightarrow> CompatibilityDecision" where
  "draft_decision q now i =
     \<lparr>d_id = [], d_kind = Unknown, d_device = cq_device q, d_capability = cq_capability q, d_requirement = q,
      d_reasons = [], d_evidence = [], d_evidence_facts = [], d_selected = None, d_conflict = None,
      d_selected_authority = RankNone, d_rule_generation = i_rule_generation i, d_registry_epoch = i_epoch i,
      d_policy_revision = i_policy_revision i, d_evaluated_at = now\<rparr>"

text \<open>What a derivation without a selected record is answered with.\<close>

definition undecided :: "Derivation \<Rightarrow> CapabilityRequirement \<Rightarrow> Impl \<Rightarrow> CompatibilityDecision \<Rightarrow> CompatibilityDecision" where
  "undecided d q i draft =
     (let facts = dv_facts d;
          r1 = d_reasons draft @ note_if (saw StateRetired facts) UnknownCapabilityRetired
             @ note_if (saw StateSuperseded facts \<or> saw StateOutranked facts \<or> saw StateRejected facts) UnknownStaleEvidence
             @ note_if (saw StateStale facts) UnknownStaleEvidence
             @ note_if (saw StateFenced facts) UnknownFencedEvidence;
          r2 = r1 @ note_if (r1 = [] \<and> saw_evicted i (cq_device q) (cq_capability q)) UnknownEvidenceEvicted;
          r3 = r2 @ note_if (r2 = []) UnknownNoEvidence
      in draft\<lparr>d_kind := Unknown, d_reasons := r3\<rparr>)"

definition decided :: "CapabilityRequirement \<Rightarrow> StoredEvidence \<Rightarrow> CompatibilityDecision \<Rightarrow> CompatibilityDecision" where
  "decided q selected draft =
     (let comparison = compare_requirement q (s_evidence selected)
      in draft\<lparr>d_selected := Some (stored_id selected), d_selected_authority := e_authority (s_evidence selected),
               d_kind := c_kind comparison, d_reasons := d_reasons draft @ c_reasons comparison\<rparr>)"

definition evaluate :: "CapabilityRequirement \<Rightarrow> Tick \<Rightarrow> Impl \<Rightarrow> Impl \<times> CompatibilityDecision" where
  "evaluate q now i =
     (let draft = draft_decision q now i in
      case find_device i (dr_device (cq_device q)) of
        None \<Rightarrow> finish (draft\<lparr>d_reasons := [UnknownDeviceNotRegistered]\<rparr>) i
      | Some entry \<Rightarrow>
          let d = derive i (cq_device q) (cq_capability q) now (max_evidence_age q);
              draft = draft\<lparr>d_evidence_facts := map state_fact (dv_facts d),
                            d_evidence := map (\<lambda>f. stored_id (f_record f)) (dv_facts d),
                            d_reasons := note_if (ie_current entry \<noteq> dr_incarnation (cq_device q)) UnknownIncarnationNotCurrent\<rparr>
          in if dv_disagrees d
             then (let draft = draft\<lparr>d_conflict := dv_conflict d\<rparr> in
               case (case dv_conflict d of None \<Rightarrow> None | Some c \<Rightarrow> find_resolution (i_resolutions i) c) of
                 None \<Rightarrow> finish (draft\<lparr>d_kind := Conflicted, d_reasons := d_reasons draft @ [ConflictEqualAuthority]\<rparr>) i
               | Some resolution \<Rightarrow>
                   (case find_last (\<lambda>r. stored_id r = cr_chosen resolution) (dv_live d) of
                      None \<Rightarrow> finish (draft\<lparr>d_kind := Conflicted, d_reasons := d_reasons draft
                                @ [ConflictResolvedByResolution, ConflictEqualAuthority]\<rparr>) i
                    | Some selected \<Rightarrow>
                        finish (decided q selected (draft\<lparr>d_reasons := d_reasons draft @ [ConflictResolvedByResolution]\<rparr>)) i))
             else (case dv_live d of [] \<Rightarrow> finish (undecided d q i draft) i
                   | selected # _ \<Rightarrow> finish (decided q selected draft) i))"

section \<open>Explanations and statistics\<close>

definition explain :: "DecisionId \<Rightarrow> Impl \<Rightarrow> Explanation outcome" where
  "explain did i =
     (case map_of (i_decisions i) did of
        None \<Rightarrow> Failure UnknownNoEvidence ''decision is not retained in the bounded explanation store''
      | Some d \<Rightarrow>
          let sources = remdups_adj (sort (map (\<lambda>f. si_source (ef_source_incarnation f)) (d_evidence_facts d)))
          in Success Ok
            \<lparr>ex_decision = d,
             ex_involved_sources = List.map_filter (find_source (i_policy i)) sources,
             ex_conflict = (case d_conflict d of None \<Rightarrow> None | Some c \<Rightarrow> find_last (\<lambda>g. cg_id g = c) (i_conflicts i)),
             ex_resolution = (case d_conflict d of None \<Rightarrow> None | Some c \<Rightarrow> find_resolution (i_resolutions i) c),
             ex_decision_available = True, ex_reason = Ok\<rparr>)"

text \<open>The derived facts of every group, in the order of the nested loops.\<close>

definition all_facts :: "Impl \<Rightarrow> Tick \<Rightarrow> DerivedFact list" where
  "all_facts i now = concat (map (\<lambda>(device, kinds). concat (map (\<lambda>(kind, unused). dv_facts (derive i device kind now 0)) kinds))
     (i_world i))"

definition count_state :: "EvidenceState \<Rightarrow> DerivedFact list \<Rightarrow> u64" where
  "count_state st facts = of_nat (length (filter (\<lambda>f. f_state f = st) facts))"

definition stats :: "Tick \<Rightarrow> Impl \<Rightarrow> RegistryStats" where
  "stats now i =
     (let facts = all_facts i now; c = i_counters i in
      \<lparr>st_devices = of_nat (length (i_incarnations i)),
       st_incarnations = of_nat (sum_list (map (\<lambda>(device, entry). length (ie_history entry)) (i_incarnations i))),
       st_streams = of_nat (count_streams (i_world i)),
       st_records_total = of_nat (i_total_records i),
       st_records_active = count_state StateActive facts,
       st_records_superseded = count_state StateSuperseded facts,
       st_records_retired = count_state StateRetired facts,
       st_records_rejected = count_state StateRejected facts,
       st_records_fenced = count_state StateFenced facts,
       st_records_stale = count_state StateStale facts,
       st_records_outranked = count_state StateOutranked facts,
       st_records_evicted = evictions_total c + count_state StateEvicted facts,
       st_conflicts_open = of_nat (length (i_conflicts i)),
       st_conflicts_resolved = conflicts_resolved c,
       st_tombstones = of_nat (length (flatten_tombstones (i_world i))),
       st_resolutions = of_nat (length (i_resolutions i)),
       st_eviction_ledger_dropped = eviction_ledger_dropped c,
       st_conflicts_dropped = conflicts_dropped c,
       st_resolutions_dropped = resolutions_dropped c,
       st_tombstones_dropped = tombstones_dropped c,
       st_decisions_emitted = decisions_emitted c,
       st_decisions_evicted = decisions_evicted c,
       st_admissions_accepted = admissions_accepted c,
       st_admissions_idempotent = admissions_idempotent c,
       st_admissions_rejected = admissions_rejected c,
       st_retirements_accepted = retirements_accepted c,
       st_retirements_rejected = retirements_rejected c,
       st_registry_epoch = i_epoch i,
       st_rule_generation = i_rule_generation i,
       st_policy_revision = i_policy_revision i,
       st_boot_epoch = i_boot_epoch i,
       st_logical_tick = i_logical_tick i\<rparr>)"

section \<open>Evaluation decides exactly\<close>

definition all_evidence :: "(CapabilityEvidence \<Rightarrow> bool) \<Rightarrow> Impl \<Rightarrow> bool" where
  "all_evidence P i \<longleftrightarrow> (\<forall>k r. record_at (i_world i) k r \<longrightarrow> P (s_evidence r))"

definition canonical_features :: "CapabilityEvidence \<Rightarrow> bool" where
  "canonical_features e \<longleftrightarrow> sorted (e_features e)"

text \<open>The live records for a requirement, and the one of them that speaks for the group.\<close>

definition live_for :: "CapabilityRequirement \<Rightarrow> Tick \<Rightarrow> Impl \<Rightarrow> StoredEvidence set" where
  "live_for q now i = set (dv_live (derive i (cq_device q) (cq_capability q) now (max_evidence_age q)))"

definition in_conflict :: "CapabilityRequirement \<Rightarrow> Tick \<Rightarrow> Impl \<Rightarrow> bool" where
  "in_conflict q now i \<longleftrightarrow> (\<exists>a \<in> live_for q now i. \<exists>b \<in> live_for q now i. report a \<noteq> report b)"

definition speaks_for :: "CapabilityRequirement \<Rightarrow> Tick \<Rightarrow> Impl \<Rightarrow> StoredEvidence \<Rightarrow> bool" where
  "speaks_for q now i r \<longleftrightarrow> r \<in> live_for q now i
     \<and> (if in_conflict q now i
        then \<exists>c res. dv_conflict (derive i (cq_device q) (cq_capability q) now (max_evidence_age q)) = Some c
               \<and> find_resolution (i_resolutions i) c = Some res \<and> cr_chosen res = stored_id r
        else \<forall>r' \<in> live_for q now i. stored_id r \<le> stored_id r')"

definition selection :: "CapabilityRequirement \<Rightarrow> Tick \<Rightarrow> Impl \<Rightarrow> StoredEvidence option" where
  "selection q now i =
     (let d = derive i (cq_device q) (cq_capability q) now (max_evidence_age q) in
      if dv_disagrees d
      then (case (case dv_conflict d of None \<Rightarrow> None | Some c \<Rightarrow> find_resolution (i_resolutions i) c) of None \<Rightarrow> None
            | Some res \<Rightarrow> find_last (\<lambda>r. stored_id r = cr_chosen res) (dv_live d))
      else (case dv_live d of [] \<Rightarrow> None | r # _ \<Rightarrow> Some r))"

lemma live_record_at:
  assumes "world_wf (i_world i)" "r \<in> set (dv_live (derive i d k now mo))"
  shows "\<exists>sid. record_at (i_world i) (EvidenceKey d k sid) r"
  using live_generation [OF assms] unfolding record_at_def by blast

lemma disagrees_in_conflict:
  "dv_disagrees (derive i (cq_device q) (cq_capability q) now (max_evidence_age q)) = in_conflict q now i"
  by (simp add: dv_disagrees_live disagrees_iff in_conflict_def live_for_def records_differ_report)

lemma live_sorted: "sorted (map stored_id (dv_live (derive i d k now mo)))"
  by (simp add: derive_def Let_def empty_derivation_def split: option.splits)

lemma selection_iff:
  assumes inv: "registry_inv i"
  shows "selection q now i = Some r \<longleftrightarrow> speaks_for q now i r"
proof -
  let ?d = "derive i (cq_device q) (cq_capability q) now (max_evidence_age q)"
  have w: "world_wf (i_world i)" and u: "unique_ids (i_world i)" using inv by (simp_all add: registry_inv_def world_inv_def)
  have inj: "a = b" if "a \<in> set (dv_live ?d)" "b \<in> set (dv_live ?d)" "stored_id a = stored_id b" for a b
    using live_record_at [OF w] unique_ids_D [OF u] that by blast
  show ?thesis
  proof (cases "in_conflict q now i")
    case True
    have fl: "find_last (\<lambda>x. stored_id x = cid) (dv_live ?d) = Some r \<longleftrightarrow> r \<in> set (dv_live ?d) \<and> stored_id r = cid" for cid
    proof
      assume "find_last (\<lambda>x. stored_id x = cid) (dv_live ?d) = Some r"
      then show "r \<in> set (dv_live ?d) \<and> stored_id r = cid" unfolding find_last_def using find_Some_iff by fastforce
    next
      assume r: "r \<in> set (dv_live ?d) \<and> stored_id r = cid"
      then obtain x where x: "find (\<lambda>x. stored_id x = cid) (rev (dv_live ?d)) = Some x"
        by (metis (mono_tags, lifting) find_None_iff not_None_eq set_rev)
      then show "find_last (\<lambda>x. stored_id x = cid) (dv_live ?d) = Some r"
        using find_Some_iff [OF x] inj [of x r] r by (simp add: find_last_def)
    qed
    have sp: "speaks_for q now i r \<longleftrightarrow> r \<in> set (dv_live ?d)
        \<and> (\<exists>c res. dv_conflict ?d = Some c \<and> find_resolution (i_resolutions i) c = Some res \<and> cr_chosen res = stored_id r)"
      using True by (simp add: speaks_for_def live_for_def)
    show ?thesis
    proof (cases "dv_conflict ?d")
      case None
      then show ?thesis using True by (simp add: sp selection_def disagrees_in_conflict)
    next
      case c: (Some c)
      show ?thesis
      proof (cases "find_resolution (i_resolutions i) c")
        case None
        then show ?thesis using True c by (simp add: sp selection_def disagrees_in_conflict)
      next
        case (Some res)
        then show ?thesis using True c by (simp add: sp selection_def disagrees_in_conflict fl eq_commute [of "cr_chosen res"])
      qed
    qed
  next
    case False
    show ?thesis
    proof (cases "dv_live ?d")
      case Nil
      then show ?thesis using False by (simp add: selection_def Let_def disagrees_in_conflict speaks_for_def live_for_def)
    next
      case (Cons a rest)
      have least: "\<forall>x \<in> set (dv_live ?d). stored_id a \<le> stored_id x"
        using live_sorted [of i "cq_device q" "cq_capability q" now "max_evidence_age q"] by (simp add: Cons)
      have "speaks_for q now i r \<longleftrightarrow> r = a"
      proof
        assume "speaks_for q now i r"
        then have r: "r \<in> set (dv_live ?d)" "stored_id r \<le> stored_id a" using False Cons by (auto simp: speaks_for_def live_for_def)
        then have "stored_id r = stored_id a" using least by (meson order_antisym)
        then show "r = a" using inj r(1) Cons by simp
      next
        assume "r = a"
        then show "speaks_for q now i r" using False least Cons by (simp add: speaks_for_def live_for_def)
      qed
      then show ?thesis using False Cons by (auto simp: selection_def Let_def disagrees_in_conflict)
    qed
  qed
qed

lemma finish_simps [simp]:
  "d_kind (snd (finish draft i)) = d_kind draft" "d_selected (snd (finish draft i)) = d_selected draft"
  "d_reasons (snd (finish draft i)) = canonicalize_reasons (d_reasons draft)"
  by (simp_all add: finish_def Let_def)

lemma evaluate_selection:
  "d_kind (snd (evaluate q now i)) = (case selection q now i of Some r \<Rightarrow> c_kind (compare_requirement q (s_evidence r))
     | None \<Rightarrow> if in_conflict q now i then Conflicted else Unknown)
   \<and> d_selected (snd (evaluate q now i)) = map_option stored_id (selection q now i)
   \<and> sorted_wrt (<) (d_reasons (snd (evaluate q now i)))"
proof (cases "find_device i (dr_device (cq_device q))")
  case None
  then have "dv_live (derive i (cq_device q) (cq_capability q) now (max_evidence_age q)) = []"
    by (simp add: live_empty_iff active_in_def active_conditions_def device_current_def)
  then show ?thesis
    using None by (simp add: evaluate_def draft_decision_def selection_def Let_def disagrees_in_conflict in_conflict_def live_for_def
        canonicalize_reasons_sorted)
next
  case (Some entry)
  show ?thesis
    unfolding evaluate_def Let_def Some option.case
    by (auto simp: selection_def Let_def disagrees_in_conflict decided_def undecided_def draft_decision_def canonicalize_reasons_sorted
        split: option.splits list.splits)
qed

lemma evaluate_decides:
  assumes "registry_inv i" "all_evidence canonical_features i" "evaluate q now i = (i', d)"
  shows "(d_kind d = Compatible \<longleftrightarrow> (\<exists>r. speaks_for q now i r \<and> requirement_met q (s_evidence r)))
    \<and> (d_kind d = DecisionKind.Incompatible \<longleftrightarrow> (\<exists>r. speaks_for q now i r \<and> requirement_unmet q (s_evidence r)))
    \<and> (d_kind d = Conflicted \<longleftrightarrow> in_conflict q now i \<and> \<not> (\<exists>r. speaks_for q now i r))
    \<and> (\<forall>rid. d_selected d = Some rid \<longleftrightarrow> (\<exists>r. speaks_for q now i r \<and> stored_id r = rid))
    \<and> sorted_wrt (<) (d_reasons d)"
proof -
  have ev: "d_kind d = (case selection q now i of Some r \<Rightarrow> c_kind (compare_requirement q (s_evidence r))
      | None \<Rightarrow> if in_conflict q now i then Conflicted else Unknown)"
    "d_selected d = map_option stored_id (selection q now i)" "sorted_wrt (<) (d_reasons d)"
    using evaluate_selection [of q now i] assms(3) by simp_all
  have sel: "selection q now i = Some r \<longleftrightarrow> speaks_for q now i r" for r by (rule selection_iff [OF assms(1)])
  show ?thesis
  proof (cases "selection q now i")
    case None
    then have "\<not> (\<exists>r. speaks_for q now i r)" using sel by simp
    then show ?thesis using ev None by auto
  next
    case (Some r)
    then have only: "speaks_for q now i x \<longleftrightarrow> x = r" for x using sel [of x] by (simp add: eq_commute [of x])
    have "r \<in> live_for q now i" using only by (auto simp: speaks_for_def)
    moreover have "world_wf (i_world i)" using assms(1) by (simp add: registry_inv_def world_inv_def)
    ultimately have "canonical_features (s_evidence r)"
      using live_record_at assms(2) unfolding live_for_def all_evidence_def by blast
    then have "sorted (e_features (s_evidence r))" by (simp add: canonical_features_def)
    note spec = compare_requirement_spec [OF this, of q]
    show ?thesis using ev Some only spec by simp
  qed
qed

text \<open>
  C9: an evaluation is exact. It answers Compatible if and only if some live record of the requested device
  incarnation speaks for the group (the record of the least id when all live records agree, the one a
  resolution chose when they do not) and meets every part of the requirement; Incompatible if and only if that
  record positively fails one; Conflicted if and only if live records disagree and no resolution settles it;
  and Unknown in every remaining case, in particular with no live evidence. The record it names is that
  record, and its reasons are in canonical order.
\<close>

theorem evaluate_exact:
  assumes "registry_inv i" "all_evidence canonical_features i" "evaluate q now i = (i', d)"
  shows "(d_kind d = Compatible \<longleftrightarrow> (\<exists>r. speaks_for q now i r \<and> requirement_met q (s_evidence r)))
    \<and> (d_kind d = DecisionKind.Incompatible \<longleftrightarrow> (\<exists>r. speaks_for q now i r \<and> requirement_unmet q (s_evidence r)))
    \<and> (d_kind d = Conflicted \<longleftrightarrow> in_conflict q now i \<and> \<not> (\<exists>r. speaks_for q now i r))
    \<and> (\<forall>rid. d_selected d = Some rid \<longleftrightarrow> (\<exists>r. speaks_for q now i r \<and> stored_id r = rid))
    \<and> sorted_wrt (<) (d_reasons d)"
  by (rule evaluate_decides [OF assms])

theorem evaluate_exact_witness:
  "\<exists>i' d. evaluate (sample_requirement 7) 5 (sample_impl 5) = (i', d) \<and> d_kind d = Compatible \<and> d_selected d = Some [2]"
proof -
  let ?q = "sample_requirement 7" and ?i = "sample_impl 5" and ?r = "sample_stored 2 [2]"
  obtain i' d where e: "evaluate ?q 5 ?i = (i', d)" by fastforce
  have can: "all_evidence canonical_features ?i"
    by (auto simp: all_evidence_def canonical_features_def record_at_def sample_find sample_stream_def sample_stored_def
        sample_evidence_def split: if_splits)
  have q: "cq_device ?q = key_device sample_key" "cq_capability ?q = TlsRecordCrypto" "max_evidence_age ?q = 0"
    by (simp_all add: sample_requirement_def sample_key_def sample_evidence_def)
  have "x \<in> live_for ?q 5 ?i \<longleftrightarrow> x = ?r" for x
    unfolding live_for_def q live_iff sample_active by auto
  then have live: "live_for ?q 5 ?i = {?r}" by auto
  then have s: "speaks_for ?q 5 ?i ?r" by (simp add: speaks_for_def in_conflict_def)
  have "c_kind (compare_requirement ?q (s_evidence ?r)) = Compatible" by code_simp
  moreover have "sorted (e_features (s_evidence ?r))" by code_simp
  ultimately have m: "requirement_met ?q (s_evidence ?r)" using compare_requirement_spec by blast
  have "stored_id ?r = [2]" by (simp add: sample_stored_def stored_id_def evidence_id_def)
  then show ?thesis using evaluate_exact [OF sample_registry_inv can e] s m e by metis
qed

section \<open>Decisions are remembered\<close>

lemma om_wf_length: "om_wf m \<Longrightarrow> length m = card (fst ` set m)"
  by (metis distinct_card length_map list.set_map om_wf_distinct)

lemma drop_decisions_spec:
  assumes "om_wf m" "distinct order" "set order = fst ` set m" "drop_decisions cap order m ev = (order', m', ev')"
  shows "\<exists>n. n = min (length order) (length order + 1 - cap) \<and> order' = drop n order
    \<and> m' = filter (\<lambda>p. fst p \<in> set order') m \<and> ev' = ev + of_nat n"
  using assms
proof (induction order arbitrary: m ev)
  case Nil
  then show ?case by simp
next
  case (Cons a order)
  have len: "length m = Suc (length order)" using om_wf_length [OF Cons.prems(1)] Cons.prems(2,3) by (metis distinct_card length_Cons)
  show ?case
  proof (cases "cap \<le> length m")
    case True
    have found: "map_of m a \<noteq> None" using Cons.prems(3) by (auto simp: map_of_eq_None_iff)
    then have d: "drop_decisions cap order (om_del a m) (ev + 1) = (order', m', ev')" using True Cons.prems(4) by simp
    have s: "set order = fst ` set (om_del a m)" using Cons.prems(2,3) by (auto simp: om_del_def)
    obtain n where n: "n = min (length order) (length order + 1 - cap)" "order' = drop n order"
      "m' = filter (\<lambda>p. fst p \<in> set order') (om_del a m)" "ev' = ev + 1 + of_nat n"
      using Cons.IH [OF om_wf_del [OF Cons.prems(1)] _ s d] Cons.prems(2) by auto
    have "filter (\<lambda>p. fst p \<in> set order') (om_del a m) = filter (\<lambda>p. fst p \<in> set order') m"
      using Cons.prems(2) set_drop_subset [of n order] by (auto simp: om_del_def n(2) intro!: filter_cong)
    then show ?thesis using n True by (intro exI [of _ "Suc n"]) (simp add: len Suc_diff_le)
  next
    case False
    then have e: "order' = a # order" "m' = m" "ev' = ev" using Cons.prems(4) by auto
    have "filter (\<lambda>p. fst p \<in> set order') m = m" using e(1) Cons.prems(3) by (auto intro!: filter_True)
    then show ?thesis using e False len by simp
  qed
qed

lemma push_decision_cases:
  assumes "decisions_ok i"
  obtains (again) "d_id d \<in> set (i_decision_order i)"
      "push_decision d i = i\<lparr>i_decisions := om_put (d_id d) d (i_decisions i)\<rparr>"
    | (new) n where "d_id d \<notin> set (i_decision_order i)"
      "n = min (length (i_decision_order i)) (length (i_decision_order i) + 1 - max_decisions (p_limits (i_policy i)))"
      "push_decision d i = i\<lparr>i_decisions := om_put (d_id d) d (filter (\<lambda>p. fst p \<in> set (drop n (i_decision_order i))) (i_decisions i)),
         i_decision_order := drop n (i_decision_order i) @ [d_id d],
         i_counters := (i_counters i)\<lparr>decisions_evicted := decisions_evicted (i_counters i) + of_nat n\<rparr>\<rparr>"
proof (cases "map_of (i_decisions i) (d_id d)")
  case None
  have ok: "om_wf (i_decisions i)" "distinct (i_decision_order i)" "set (i_decision_order i) = fst ` set (i_decisions i)"
    using assms by (simp_all add: decisions_ok_def)
  obtain order' m' ev' where dd: "drop_decisions (max_decisions (p_limits (i_policy i))) (i_decision_order i) (i_decisions i)
      (decisions_evicted (i_counters i)) = (order', m', ev')" by (metis prod_cases3)
  have "d_id d \<notin> set (i_decision_order i)" using None ok(3) by (simp add: map_of_eq_None_iff)
  then show thesis using drop_decisions_spec [OF ok dd] None dd by (intro new) (auto simp: push_decision_def)
next
  case (Some e)
  have "d_id d \<in> fst ` set (i_decisions i)" using map_of_SomeD [OF Some] by force
  then have "d_id d \<in> set (i_decision_order i)" using assms by (simp add: decisions_ok_def)
  then show thesis using Some by (intro again) (simp_all add: push_decision_def)
qed

lemma map_of_filter_keys: "map_of (filter (\<lambda>p. fst p \<in> S) m) c = (if c \<in> S then map_of m c else None)"
  by (induction m) auto

lemma om_wf_filter: "om_wf m \<Longrightarrow> om_wf (filter P m)"
  by (simp add: om_wf_def sorted_wrt_map sorted_wrt_filter)

text \<open>What a push does to the store: it stays consistent and bounded, and forgets only its oldest decisions.\<close>

definition decision_store :: "Impl \<Rightarrow> DecisionId \<Rightarrow> CompatibilityDecision option" where
  "decision_store i = map_of (i_decisions i)"

definition decision_capacity :: "Impl \<Rightarrow> nat" where
  "decision_capacity i = max 1 (max_decisions (p_limits (i_policy i)))"

lemma push_decision_spec:
  assumes ok: "decisions_ok i"
  shows "decisions_ok (push_decision d i)
    \<and> (\<exists>n. decision_store (push_decision d i) = (decision_store i |` set (drop n (i_decision_order i))) (d_id d \<mapsto> d)
        \<and> (length (i_decision_order i) < max_decisions (p_limits (i_policy i)) \<longrightarrow> n = 0))
    \<and> (length (i_decision_order i) \<le> decision_capacity i \<longrightarrow> length (i_decision_order (push_decision d i)) \<le> decision_capacity i)"
  using ok
proof (cases rule: push_decision_cases [of i d])
  case again
  have dom: "set (i_decision_order i) = fst ` set (i_decisions i)" using ok by (simp add: decisions_ok_def)
  then have "map_of (i_decisions i) c = None" if "c \<notin> set (i_decision_order i)" for c using that by (simp add: map_of_eq_None_iff)
  then have "decision_store (push_decision d i) = (decision_store i |` set (drop 0 (i_decision_order i))) (d_id d \<mapsto> d)"
    by (auto simp: again(2) decision_store_def restrict_map_def)
  moreover have "decisions_ok (push_decision d i)"
    using ok again(1) by (auto simp: again(2) decisions_ok_def fst_set_om_put)
  moreover have "i_decision_order (push_decision d i) = i_decision_order i" by (simp add: again(2))
  ultimately show ?thesis by metis
next
  case (new n)
  let ?keep = "set (drop n (i_decision_order i))"
  have o: "om_wf (i_decisions i)" "distinct (i_decision_order i)" "set (i_decision_order i) = fst ` set (i_decisions i)"
    using ok by (simp_all add: decisions_ok_def)
  have sub: "?keep \<subseteq> set (i_decision_order i)" by (rule set_drop_subset)
  have "fst ` set (filter (\<lambda>p. fst p \<in> ?keep) (i_decisions i)) = ?keep" using o(3) sub by auto
  then have "decisions_ok (push_decision d i)"
    using o new(1) sub by (auto simp: new(3) decisions_ok_def fst_set_om_put om_wf_filter)
  moreover have "decision_store (push_decision d i) = (decision_store i |` ?keep) (d_id d \<mapsto> d)"
    by (auto simp: new(3) decision_store_def restrict_map_def map_of_filter_keys)
  moreover have "length (i_decision_order i) < max_decisions (p_limits (i_policy i)) \<longrightarrow> n = 0" using new(2) by simp
  moreover have "length (i_decision_order (push_decision d i)) \<le> decision_capacity i"
    using new(2) by (simp add: new(3) decision_capacity_def)
  ultimately show ?thesis by blast
qed

lemma evaluate_is_finish: "\<exists>draft. evaluate q now i = finish draft i"
  by (auto simp: evaluate_def Let_def split: option.splits list.splits)

lemma finish_frame:
  assumes "finish draft i = (i', d)"
  shows "i' = (push_decision d i)\<lparr>i_counters := (i_counters (push_decision d i))\<lparr>decisions_emitted :=
     decisions_emitted (i_counters (push_decision d i)) + 1\<rparr>\<rparr>"
  using assms by (auto simp: finish_def Let_def)

lemma push_decision_frame:
  "push_decision d i = i\<lparr>i_decisions := i_decisions (push_decision d i), i_decision_order := i_decision_order (push_decision d i),
     i_counters := i_counters (push_decision d i)\<rparr>"
  by (simp add: push_decision_def split: prod.splits)

lemma evaluate_push:
  assumes "evaluate q now i = (i', d)"
  shows "i_decisions i' = i_decisions (push_decision d i)" "i_decision_order i' = i_decision_order (push_decision d i)"
    "i' = i\<lparr>i_decisions := i_decisions i', i_decision_order := i_decision_order i', i_counters := i_counters i'\<rparr>"
proof -
  obtain draft where "finish draft i = (i', d)" using evaluate_is_finish [of q now i] assms by metis
  note f = finish_frame [OF this]
  show "i_decisions i' = i_decisions (push_decision d i)" "i_decision_order i' = i_decision_order (push_decision d i)"
    by (simp_all add: f)
  show "i' = i\<lparr>i_decisions := i_decisions i', i_decision_order := i_decision_order i', i_counters := i_counters i'\<rparr>"
    unfolding f by (subst push_decision_frame) simp
qed

lemma evaluate_inv: "registry_inv i \<Longrightarrow> registry_inv (fst (evaluate q now i))"
proof -
  assume inv: "registry_inv i"
  obtain i' d where e: "evaluate q now i = (i', d)" by fastforce
  note p = evaluate_push [OF e]
  have "decisions_ok (push_decision d i)" using push_decision_spec inv by (simp add: registry_inv_def)
  then have "decisions_ok i'" by (simp add: decisions_ok_def p(1,2))
  moreover have "devices_ok i' = devices_ok i" "tables_ok i' = tables_ok i" "i_world i' = i_world i" "i_total_records i' = i_total_records i"
    by (subst p(3), simp add: devices_ok_def tables_ok_def)+
  ultimately show "registry_inv (fst (evaluate q now i))" using inv e by (simp add: registry_inv_def)
qed

text \<open>
  C21: a decision is remembered, and remembering forgets only the oldest. After an evaluation \<open>explain\<close>
  answers with exactly the decision that was returned; the other decisions retained are those retained before
  less a prefix of the order of arrival, empty while the store is below its bound; the store never exceeds the
  bound (one decision when the bound is zero); and nothing else of the registry changes but the counters.
\<close>

theorem evaluate_remembered:
  assumes "registry_inv i" "evaluate q now i = (i', d)" "length (i_decision_order i) \<le> decision_capacity i"
  shows "(\<exists>x. explain (d_id d) i' = Success Ok x \<and> ex_decision x = d)
    \<and> (\<exists>n. decision_store i' = (decision_store i |` set (drop n (i_decision_order i))) (d_id d \<mapsto> d)
        \<and> (length (i_decision_order i) < max_decisions (p_limits (i_policy i)) \<longrightarrow> n = 0))
    \<and> length (i_decisions i') \<le> decision_capacity i
    \<and> (\<exists>m ord c. i' = i\<lparr>i_decisions := m, i_decision_order := ord, i_counters := c\<rparr>)"
proof -
  note p = evaluate_push [OF assms(2)]
  have ok: "decisions_ok i" using assms(1) by (simp add: registry_inv_def)
  note s = push_decision_spec [OF ok, of d]
  have st: "decision_store i' = decision_store (push_decision d i)" by (simp add: decision_store_def p(1))
  then have "decision_store i' (d_id d) = Some d" using s by auto
  then have ex: "\<exists>x. explain (d_id d) i' = Success Ok x \<and> ex_decision x = d" by (simp add: explain_def decision_store_def)
  have "decisions_ok (push_decision d i)" using s by simp
  then have "length (i_decisions i') = length (i_decision_order (push_decision d i))"
    unfolding decisions_ok_def p(1) by (metis distinct_card om_wf_length)
  then have "length (i_decisions i') \<le> decision_capacity i" using s assms(3) by simp
  then show ?thesis using ex s p(3) unfolding st by blast
qed

theorem evaluate_remembered_witness:
  "\<exists>i' d. evaluate (sample_requirement 7) 5 (sample_impl 5) = (i', d) \<and> decision_store i' = [d_id d \<mapsto> d]"
proof -
  obtain i' d where e: "evaluate (sample_requirement 7) 5 (sample_impl 5) = (i', d)" by fastforce
  have "length (i_decision_order (sample_impl 5)) \<le> decision_capacity (sample_impl 5)" "decision_store (sample_impl 5) = Map.empty"
    by (simp_all add: sample_impl_def Registry_init_def decision_store_def)
  then show ?thesis using evaluate_remembered [OF sample_registry_inv e] e by auto
qed

section \<open>Statistics partition the records\<close>

lemma length_filter_states:
  "length facts = (\<Sum>st \<leftarrow> [StateActive, StateSuperseded, StateRetired, StateRejected, StateFenced, StateStale, StateOutranked, StateEvicted].
     length (filter (\<lambda>f. f_state f = st) facts))"
proof (induction facts)
  case (Cons f facts)
  then show ?case by (cases "f_state f") simp_all
qed simp

lemma classify_not_evicted: "fst (classify i r stream source device now mo) \<noteq> StateEvicted"
  by (simp add: classify_def Let_def split: option.splits)

lemma derive_records:
  assumes "find_group (i_world i) d k = Some g"
  shows "mset (map f_record (dv_facts (derive i d k now mo))) = mset (concat (map (\<lambda>(sid, s). st_records s) (g_streams g)))"
    and "f \<in> set (dv_facts (derive i d k now mo)) \<Longrightarrow> f_state f \<noteq> StateEvicted"
proof -
  have "map f_record (map (outrank a) xs) = map f_record xs" for a xs by (simp add: outrank_def)
  moreover have "map f_record (raw_facts i d g now mo) = concat (map (\<lambda>(sid, s). st_records s) (g_streams g))"
    by (simp add: raw_facts_def map_concat comp_def case_prod_unfold Let_def)
  ultimately show "mset (map f_record (dv_facts (derive i d k now mo))) = mset (concat (map (\<lambda>(sid, s). st_records s) (g_streams g)))"
    using assms by (simp add: derive_def Let_def del: map_map) (metis mset_map)
  show "f \<in> set (dv_facts (derive i d k now mo)) \<Longrightarrow> f_state f \<noteq> StateEvicted"
    using assms classify_not_evicted by (auto simp: derive_def Let_def outrank_def raw_facts_set split: if_splits)
qed

lemma concat_flatten: "concat (concat xs) = concat (map concat xs)"
  by (induction xs) simp_all

lemma all_facts_records:
  assumes "world_wf (i_world i)"
  shows "mset (map f_record (all_facts i now)) = mset (flatten_records (i_world i))"
    and "f \<in> set (all_facts i now) \<Longrightarrow> f_state f \<noteq> StateEvicted"
proof -
  have g: "find_group (i_world i) d k = Some g" if "(d, kinds) \<in> set (i_world i)" "(k, g) \<in> set kinds" for d kinds k g
    using find_group_iff [OF assms] that by blast
  have flat: "flatten_records (i_world i) = concat (map (\<lambda>(d, kinds). concat (map (\<lambda>(k, g). concat (map (\<lambda>(sid, s). st_records s)
      (g_streams g))) kinds)) (i_world i))"
    by (simp add: flatten_records_def streams_of_def map_concat concat_flatten comp_def case_prod_unfold)
  have one: "image_mset f_record (mset (dv_facts (derive i d k now 0))) = sum_list (map (mset \<circ> (\<lambda>p. st_records (snd p))) (g_streams g))"
    if "(d, kinds) \<in> set (i_world i)" "(k, g) \<in> set kinds" for d kinds k g
    using derive_records(1) [OF g [OF that], of now 0] by (simp add: mset_concat case_prod_unfold)
  show "mset (map f_record (all_facts i now)) = mset (flatten_records (i_world i))"
    unfolding flat all_facts_def map_concat mset_concat
    by (rule arg_cong [where f = sum_list])
      (auto simp: map_concat mset_concat case_prod_unfold intro!: arg_cong [where f = sum_list] one)
  show "f \<in> set (all_facts i now) \<Longrightarrow> f_state f \<noteq> StateEvicted"
    using derive_records(2) [OF g] by (fastforce simp: all_facts_def)
qed

lemma stats_states:
  assumes "world_wf (i_world i)"
  shows "of_nat (record_count (i_world i)) = count_state StateActive (all_facts i now) + count_state StateSuperseded (all_facts i now)
      + count_state StateRetired (all_facts i now) + count_state StateRejected (all_facts i now) + count_state StateFenced (all_facts i now)
      + count_state StateStale (all_facts i now) + count_state StateOutranked (all_facts i now)"
    and "count_state StateEvicted (all_facts i now) = 0"
proof -
  have "length (map f_record (all_facts i now)) = length (flatten_records (i_world i))"
    using all_facts_records(1) [OF assms, of now] by (metis size_mset)
  then have len: "record_count (i_world i) = length (all_facts i now)" by (simp add: record_count_flatten)
  have none: "filter (\<lambda>f. f_state f = StateEvicted) (all_facts i now) = []"
    using all_facts_records(2) [OF assms] by (simp add: filter_empty_conv)
  then show "count_state StateEvicted (all_facts i now) = 0" by (simp add: count_state_def)
  show "of_nat (record_count (i_world i)) = count_state StateActive (all_facts i now) + count_state StateSuperseded (all_facts i now)
      + count_state StateRetired (all_facts i now) + count_state StateRejected (all_facts i now) + count_state StateFenced (all_facts i now)
      + count_state StateStale (all_facts i now) + count_state StateOutranked (all_facts i now)"
    unfolding len using arg_cong [OF length_filter_states [of "all_facts i now"], of "of_nat :: nat \<Rightarrow> u64"] none
    by (simp add: count_state_def add.assoc)
qed

text \<open>
  The statistics account for every record exactly once. The seven state counters of \<open>stats\<close> add up to
  the total, each stored record is behind exactly one derived fact, and the evicted counter is that of the
  evictions made so far: no record that is still held is counted as evicted.
\<close>

theorem stats_partition:
  assumes "registry_inv i"
  shows "st_records_total (stats now i) = st_records_active (stats now i) + st_records_superseded (stats now i)
      + st_records_retired (stats now i) + st_records_rejected (stats now i) + st_records_fenced (stats now i)
      + st_records_stale (stats now i) + st_records_outranked (stats now i)
    \<and> mset (map f_record (all_facts i now)) = mset (flatten_records (i_world i))
    \<and> st_records_evicted (stats now i) = evictions_total (i_counters i)"
proof -
  have w: "world_wf (i_world i)" "i_total_records i = record_count (i_world i)"
    using assms by (simp_all add: registry_inv_def world_inv_def)
  show ?thesis using stats_states [OF w(1), of now] all_facts_records(1) [OF w(1), of now] w(2) by (simp add: stats_def Let_def)
qed

theorem stats_partition_witness:
  "st_records_total (stats 5 (sample_impl 5)) = 2 \<and> st_records_evicted (stats 5 (sample_impl 5)) = 0
   \<and> length (all_facts (sample_impl 5) 5) = 2"
proof -
  have "mset (map f_record (all_facts (sample_impl 5) 5)) = mset (flatten_records (i_world (sample_impl 5)))"
    "st_records_evicted (stats 5 (sample_impl 5)) = evictions_total (i_counters (sample_impl 5))"
    using stats_partition [OF sample_registry_inv, of 5 5] by simp_all
  moreover from this(1) have "length (map f_record (all_facts (sample_impl 5) 5)) = 2"
    using sample_budget_inv(2) [of 5] by (metis record_count_flatten size_mset)
  moreover have "st_records_total (stats 5 (sample_impl 5)) = 2" "evictions_total (i_counters (sample_impl 5)) = 0"
    by (simp_all add: stats_def Let_def sample_impl_def Registry_init_def zero_counters_def)
  ultimately show ?thesis by simp
qed

end
