(* ===== verification/Restart.thy ===== *)
theory Restart
  imports Queries
begin

text \<open>
  Restarting the registry from its durable state, of \<open>src/registry.cpp\<close>: \<open>adopt_state\<close>, \<open>snapshot_state\<close> and
  the list accessors.

  A snapshot loses nothing: adopting it gives a registry with the same durable state, the same streams that
  hold records and the same tombstones. A restart begins a new boot epoch, and under the conservative policy
  only evidence of sources declared durable is live after it.
\<close>

section \<open>Adopting a state\<close>

definition highest_observed :: "StoredEvidence list \<Rightarrow> Tick" where
  "highest_observed records = fold (\<lambda>r highest. if e_observed_at (s_evidence r) > highest
     then e_observed_at (s_evidence r) else highest) records 0"

definition default_summary :: RecoverySummary where
  "default_summary = \<lparr>classification = CleanOpen, rec_reason = RecoveryCleanOpen, records_adopted = 0, records_fenced = 0,
     records_carried_forward = 0, tombstones_adopted = 0, conflicts_adopted = 0, resolutions_adopted = 0,
     evictions_adopted = 0, journal_records_replayed = 0, journal_records_dropped = 0, bytes_discarded = 0,
     rec_snapshot_generation = 0, rec_previous_boot_epoch = 0, rec_boot_epoch = 0, rec_notes = []\<rparr>"

text \<open>The registry after the state is adopted, up to the tick it resumes at and the conflict table.\<close>

definition adopted :: "RegistryState \<Rightarrow> Impl \<Rightarrow> Impl" where
  "adopted state i =
     (let configured = i_policy i;
          j = adopt state;
          j = (if p_sources (rs_policy state) = [] then j\<lparr>i_policy := configured\<rparr> else j)
      in bump_policy_revision (j\<lparr>i_rule_generation := p_rule_generation (i_policy j), i_boot_epoch := rs_boot_epoch state + 1\<rparr>))"

definition resume_tick :: "RegistryState \<Rightarrow> Tick \<Rightarrow> Tick" where
  "resume_tick state now =
     (let resume = rs_logical_tick state;
          resume = (if now > resume then now else resume)
      in if highest_observed (rs_records state) > resume then highest_observed (rs_records state) else resume)"

definition adopt_state :: "RegistryState \<Rightarrow> Tick \<Rightarrow> Impl \<Rightarrow> Impl \<times> RecoverySummary outcome" where
  "adopt_state state now i =
     (let j = (adopted state i)\<lparr>i_logical_tick := resume_tick state now\<rparr>;
          k = refresh_all_conflicts (i_logical_tick j) j;
          facts = all_facts k (i_logical_tick j);
          fenced = count_state StateFenced facts;
          (class, reason) = (if fenced > 0 then (RebuiltFromSnapshot, RecoveryRebuiltFromSnapshot)
                             else (CleanOpen, RecoveryCleanOpen))
      in (k, Success Ok (default_summary
           \<lparr>rec_previous_boot_epoch := rs_boot_epoch state, rec_snapshot_generation := rs_store_generation state,
            records_adopted := of_nat (i_total_records j),
            tombstones_adopted := of_nat (length (flatten_tombstones (i_world j))),
            resolutions_adopted := of_nat (length (i_resolutions j)),
            evictions_adopted := of_nat (length (i_evictions j)),
            rec_boot_epoch := i_boot_epoch j,
            conflicts_adopted := of_nat (length (i_conflicts k)),
            records_fenced := fenced,
            records_carried_forward := count_state StateActive facts + count_state StateOutranked facts,
            classification := class, rec_reason := reason, rec_notes := canonicalize_reasons [reason]\<rparr>)))"

section \<open>Accessors\<close>

definition snapshot_state :: "Impl \<Rightarrow> RegistryState outcome" where
  "snapshot_state i = Success Ok (to_state i)"

definition Registry_state_digest :: "Impl \<Rightarrow> Digest256" where
  "Registry_state_digest i = state_digest (to_state i)"

definition eviction_ledger :: "Impl \<Rightarrow> EvictionEntry list" where
  "eviction_ledger i = i_evictions i"

definition records :: "Impl \<Rightarrow> StoredEvidence list" where
  "records i = flatten_records (i_world i)"

definition tombstones :: "Impl \<Rightarrow> RetirementRecord list" where
  "tombstones i = flatten_tombstones (i_world i)"

definition incarnations :: "Impl \<Rightarrow> DeviceIncarnationEntry list" where
  "incarnations i = om_vals (i_incarnations i)"

definition resolutions :: "Impl \<Rightarrow> ConflictResolution list" where
  "resolutions i = i_resolutions i"

definition conflict_groups :: "Impl \<Rightarrow> ConflictGroup list" where
  "conflict_groups i = i_conflicts i"

section \<open>The world a state rebuilds\<close>

abbreviation records_at :: "World \<Rightarrow> EvidenceKey \<Rightarrow> StoredEvidence list" where
  "records_at w key \<equiv> st_records (stream_at w key)"

definition of_key :: "EvidenceKey \<Rightarrow> StoredEvidence list \<Rightarrow> StoredEvidence list" where
  "of_key key rs = filter (\<lambda>r. e_key (s_evidence r) = key) rs"

lemma Stream_updates: "s\<lparr>st_records := rs\<rparr> = \<lparr>st_records = rs, st_max_generation = st_max_generation s\<rparr>"
  "s\<lparr>st_max_generation := g, st_records := rs\<rparr> = \<lparr>st_records = rs, st_max_generation = g\<rparr>"
  by simp_all

lemma adopt_record_find:
  "find_stream (adopt_record r w) = (find_stream w)(e_key (s_evidence r) \<mapsto>
     \<lparr>st_records = records_at w (e_key (s_evidence r)) @ [r],
      st_max_generation = (if e_generation (s_evidence r) > st_max_generation (stream_at w (e_key (s_evidence r)))
        then e_generation (s_evidence r) else st_max_generation (stream_at w (e_key (s_evidence r))))\<rparr>)"
  by (simp add: adopt_record_def Let_def stream_at_def Stream_updates split: option.splits)

lemma adopt_record_frame [simp]: "world_wf w \<Longrightarrow> world_wf (adopt_record r w)"
  "find_tombstone (adopt_record r w) = find_tombstone w"
  by (simp_all add: adopt_record_def Let_def)

lemma adopt_records_find:
  "find_stream (fold adopt_record rs w) key = (if of_key key rs = [] then find_stream w key
     else Some \<lparr>st_records = records_at w key @ of_key key rs,
       st_max_generation = fold (\<lambda>r highest. if e_generation (s_evidence r) > highest then e_generation (s_evidence r) else highest)
         (of_key key rs) (st_max_generation (stream_at w key))\<rparr>)"
proof (induction rs arbitrary: w)
  case (Cons r rs)
  show ?case
  proof (cases "e_key (s_evidence r) = key")
    case True
    then show ?thesis using Cons.IH [of "adopt_record r w"] by (simp add: of_key_def adopt_record_find stream_at_def)
  next
    case False
    then show ?thesis using Cons.IH [of "adopt_record r w"] by (simp add: of_key_def adopt_record_find stream_at_def)
  qed
qed (simp add: of_key_def)

lemma adopt_records_frame: "world_wf w \<Longrightarrow> world_wf (fold adopt_record rs w)"
  "find_tombstone (fold adopt_record rs w) = find_tombstone w"
  by (induction rs arbitrary: w) simp_all

lemma map_of_map_snd: "map_of (map (\<lambda>(k, v). (k, f v)) m) k = map_option f (map_of m k)"
  by (induction m) auto

lemma map_streams_find: "find_stream (map_streams f w) key = map_option f (find_stream w key)"
  "find_tombstone (map_streams f w) key = find_tombstone w key"
  by (auto simp: find_stream_def find_tombstone_def find_group_def find_kind_map_def map_streams_def map_of_map_snd
      split: option.splits)

lemma om_wf_map_snd: "om_wf (map (\<lambda>(k, v). (k, f v)) m) = om_wf m"
  by (simp add: om_wf_def comp_def case_prod_unfold)

lemma map_streams_wf: "world_wf w \<Longrightarrow> world_wf (map_streams f w)"
  by (force simp: world_wf_def map_streams_def om_wf_map_snd group_wf_def)

lemma put_tombstones_find:
  "find_tombstone (fold (\<lambda>t. put_tombstone (rr_key t) t) ts w) = find_tombstone w ++ map_of (rev (map (\<lambda>t. (rr_key t, t)) ts))"
  "find_stream (fold (\<lambda>t. put_tombstone (rr_key t) t) ts w) = find_stream w"
  by (induction ts arbitrary: w) (simp_all add: map_add_upd_left map_add_def fun_eq_iff split: option.splits)

lemma put_tombstones_wf: "world_wf w \<Longrightarrow> world_wf (fold (\<lambda>t. put_tombstone (rr_key t) t) ts w)"
  by (induction ts arbitrary: w) simp_all

lemma adopt_world_find:
  "find_stream (adopt_world rs ts) key = (if of_key key rs = [] then None
     else Some \<lparr>st_records = sort_records (of_key key rs), st_max_generation = max_generation_of (of_key key rs)\<rparr>)"
proof -
  have none: "find_stream [] key = None" by (simp add: find_stream_def find_group_def find_kind_map_def)
  then have at: "stream_at [] key = empty_stream" by (simp add: stream_at_def)
  show ?thesis
    by (simp add: adopt_world_def put_tombstones_find map_streams_find adopt_records_find none at max_generation_of_def
        empty_stream_def)
qed

lemma adopt_world_wf: "world_wf (adopt_world rs ts)"
  by (simp add: adopt_world_def put_tombstones_wf map_streams_wf adopt_records_frame)

lemma map_of_rev_distinct: "distinct (map fst m) \<Longrightarrow> map_of (rev m) = map_of m"
  by (subst map_of_inject_set) (simp_all add: rev_map [symmetric])

lemma adopt_world_tombstones:
  assumes "distinct (map rr_key ts)"
  shows "find_tombstone (adopt_world rs ts) key = map_of (map (\<lambda>t. (rr_key t, t)) ts) key"
proof -
  have "find_tombstone [] key = None" by (simp add: find_tombstone_def find_group_def find_kind_map_def)
  then show ?thesis
    using assms by (simp add: adopt_world_def put_tombstones_find map_streams_find adopt_records_frame map_add_def comp_def
        map_of_rev_distinct split: option.splits)
qed

section \<open>A snapshot loses nothing\<close>

lemma of_key_concat:
  assumes "distinct (map fst m)" "\<And>k s r. (k, s) \<in> set m \<Longrightarrow> r \<in> set (st_records s) \<Longrightarrow> e_key (s_evidence r) = k"
  shows "of_key key (concat (map (\<lambda>(k, s). st_records s) m)) = (case map_of m key of None \<Rightarrow> [] | Some s \<Rightarrow> st_records s)"
  using assms
proof (induction m)
  case (Cons p m)
  obtain k s where p: "p = (k, s)" by force
  have ih: "of_key key (concat (map (\<lambda>(k, s). st_records s) m)) = (case map_of m key of None \<Rightarrow> [] | Some s \<Rightarrow> st_records s)"
    using Cons by (auto simp: p)
  have s: "of_key key (st_records s) = (if k = key then st_records s else [])"
    using Cons.prems(2) [of k s] by (auto simp: of_key_def p filter_empty_conv)
  have "k = key \<Longrightarrow> map_of m key = None" using Cons.prems(1) by (auto simp: p map_of_eq_None_iff)
  then show ?case using ih s by (auto simp: p of_key_def)
qed (simp add: of_key_def)

lemma of_key_flatten:
  assumes "world_inv w"
  shows "of_key key (flatten_records w) = records_at w key"
proof -
  have w: "world_wf w" using assms by (simp add: world_inv_def)
  have "e_key (s_evidence r) = k" if "(k, s) \<in> set (streams_of w)" "r \<in> set (st_records s)" for k s r
    using that assms streams.view_mem [OF w] by (auto simp: world_inv_def stream_ok_def)
  from of_key_concat [OF streams.view_distinct [OF w] this] show ?thesis
    by (simp add: flatten_records_def streams.view_lookup [OF w] stream_at_def empty_stream_def split: option.splits)
qed

lemma flatten_tombstones_view:
  assumes "world_inv w"
  shows "flatten_tombstones w = map snd (tombstones_of w)" "map (\<lambda>t. (rr_key t, t)) (flatten_tombstones w) = tombstones_of w"
proof -
  have w: "world_wf w" using assms by (simp add: world_inv_def)
  have k: "rr_key t = k" if "(k, t) \<in> set (tombstones_of w)" for k t
    using that assms tombs.view_mem [OF w] by (auto simp: world_inv_def)
  have keys: "map (\<lambda>t. (rr_key t, t)) (map snd (tombstones_of w)) = tombstones_of w"
    using k by (auto simp: comp_def intro!: map_idI)
  have "sorted_wrt (<) (map fst (tombstones_of w))" using tombs.view_wf [OF w] by (simp add: om_wf_def)
  then have "sorted_wrt (\<lambda>a b. fst a < fst b) (map (\<lambda>t. (rr_key t, t)) (map snd (tombstones_of w)))"
    unfolding keys by (simp add: sorted_wrt_map)
  then have "sorted_wrt (\<lambda>a b. rr_key a < rr_key b) (map snd (tombstones_of w))" by (simp add: sorted_wrt_map)
  then have "sorted (map (\<lambda>t. (rr_key t, rr_generation t)) (map snd (tombstones_of w)))"
    unfolding sorted_wrt_map by (rule sorted_wrt_mono_rel [rotated]) (auto simp: less_eq_prod_def)
  then show "flatten_tombstones w = map snd (tombstones_of w)" by (simp only: flatten_tombstones_def sort_key_id_if_sorted)
  then show "map (\<lambda>t. (rr_key t, t)) (flatten_tombstones w) = tombstones_of w" using keys by simp
qed

definition rebuilt :: "World \<Rightarrow> World" where
  "rebuilt w = adopt_world (flatten_records w) (flatten_tombstones w)"

lemma rebuilt_find:
  assumes "world_inv w"
  shows "find_stream (rebuilt w) key = (if records_at w key = [] then None else find_stream w key)"
    and "find_tombstone (rebuilt w) = find_tombstone w"
proof -
  have w: "world_wf w" using assms by (simp add: world_inv_def)
  have rank: "record_rank = (\<lambda>r. (e_generation (s_evidence r), stored_id r))" by (rule ext) (simp add: record_rank_def)
  have "sort_records (st_records s) = st_records s \<and> max_generation_of (st_records s) = st_max_generation s"
    if "find_stream w key = Some s" for s
    using that assms by (simp add: world_inv_def stream_ok_def sort_records_def rank sort_key_id_if_sorted)
  then show "find_stream (rebuilt w) key = (if records_at w key = [] then None else find_stream w key)"
    by (auto simp: rebuilt_def adopt_world_find of_key_flatten [OF assms] stream_at_def empty_stream_def split: option.splits)
  have "distinct (map rr_key (flatten_tombstones w))"
    using tombs.view_distinct [OF w] arg_cong [OF flatten_tombstones_view(2) [OF assms], of "map fst"] by (simp add: comp_def)
  then show "find_tombstone (rebuilt w) = find_tombstone w"
    by (rule_tac ext) (simp add: rebuilt_def adopt_world_tombstones flatten_tombstones_view(2) [OF assms] tombs.view_lookup [OF w])
qed

lemma rebuilt_wf: "world_wf (rebuilt w)"
  by (simp add: rebuilt_def adopt_world_wf)

lemma record_at_rebuilt: "world_inv w \<Longrightarrow> record_at (rebuilt w) key r \<longleftrightarrow> record_at w key r"
  by (auto simp: record_at_def rebuilt_find stream_at_def split: if_splits)

lemma map_of_filter_snd: "distinct (map fst m) \<Longrightarrow> map_of (filter (\<lambda>p. P (snd p)) m) k = (case map_of m k of None \<Rightarrow> None
    | Some v \<Rightarrow> if P v then Some v else None)"
  by (induction m) (auto simp: map_of_eq_None_iff image_iff split: option.splits dest: map_of_SomeD)

lemma rebuilt_views:
  assumes "world_inv w"
  shows "streams_of (rebuilt w) = filter (\<lambda>p. st_records (snd p) \<noteq> []) (streams_of w)" "tombstones_of (rebuilt w) = tombstones_of w"
proof -
  have w: "world_wf w" using assms by (simp add: world_inv_def)
  show "tombstones_of (rebuilt w) = tombstones_of w"
    by (rule tombs.view_eqI [OF rebuilt_wf w rebuilt_find(2) [OF assms]])
  have f: "om_wf (filter P (streams_of w))" for P using streams.view_wf [OF w] by (rule om_wf_filter)
  have "map_of (streams_of (rebuilt w)) = map_of (filter (\<lambda>p. st_records (snd p) \<noteq> []) (streams_of w))"
    by (rule ext) (simp add: streams.view_lookup [OF rebuilt_wf] map_of_filter_snd [OF streams.view_distinct [OF w], where P = "\<lambda>s. st_records s \<noteq> []"]
        streams.view_lookup [OF w] rebuilt_find(1) [OF assms] stream_at_def empty_stream_def split: option.splits)
  then show "streams_of (rebuilt w) = filter (\<lambda>p. st_records (snd p) \<noteq> []) (streams_of w)"
    using om.entries_canonical [OF streams.view_wf [OF rebuilt_wf] f] by blast
qed

lemma concat_map_filter: "concat (map f (filter (\<lambda>p. f p \<noteq> []) m)) = concat (map f m)"
  by (induction m) auto

lemma rebuilt_flat:
  assumes "world_inv w"
  shows "flatten_records (rebuilt w) = flatten_records w" "flatten_tombstones (rebuilt w) = flatten_tombstones w"
    "record_count (rebuilt w) = record_count w" "world_inv (rebuilt w)" "unique_ids (rebuilt w) = unique_ids w"
proof -
  show fr: "flatten_records (rebuilt w) = flatten_records w"
    using concat_map_filter [of "\<lambda>p. st_records (snd p)"] by (simp add: flatten_records_def rebuilt_views [OF assms] case_prod_unfold)
  then show "record_count (rebuilt w) = record_count w" by (simp add: record_count_flatten)
  show "flatten_tombstones (rebuilt w) = flatten_tombstones w" by (simp add: flatten_tombstones_def rebuilt_views [OF assms])
  show "world_inv (rebuilt w)"
    using assms rebuilt_wf by (auto simp: world_inv_def rebuilt_find [OF assms] split: if_splits)
  show "unique_ids (rebuilt w) = unique_ids w"
    using record_at_rebuilt [OF assms] unfolding record_at_def by (auto simp: unique_ids_def; meson)
qed

lemma adopt_incarnations:
  fixes m :: "(DeviceIdentity, DeviceIncarnationEntry) omap"
  assumes "om_wf m" "\<And>d e. map_of m d = Some e \<Longrightarrow> ie_device e = d"
  shows "fold (\<lambda>e. om_put (ie_device e) e) (om_vals m) [] = m"
proof -
  have f: "om_wf (fold (\<lambda>e. om_put (ie_device e) e) es m0)
      \<and> map_of (fold (\<lambda>e. om_put (ie_device e) e) es m0) = map_of m0 ++ map_of (rev (map (\<lambda>e. (ie_device e, e)) es))" if "om_wf m0"
    for es and m0 :: "(DeviceIdentity, DeviceIncarnationEntry) omap"
    using that by (induction es arbitrary: m0) (simp_all add: map_add_upd_left map_add_def fun_eq_iff split: option.splits)
  have "ie_device e = d" if "(d, e) \<in> set m" for d e using assms that om_wf_map_of_iff [OF assms(1)] by blast
  then have "map (\<lambda>e. (ie_device e, e)) (om_vals m) = m" by (auto simp: om_vals_def comp_def intro!: map_idI)
  then have "map_of (fold (\<lambda>e. om_put (ie_device e) e) (om_vals m) []) = map_of m"
    using f [of "[]" "om_vals m"] map_of_rev_distinct [OF om_wf_distinct [OF assms(1)]] by simp
  then show ?thesis using om.entries_canonical [of _ m] f [of "[]" "om_vals m"] assms(1) by simp
qed

definition durable_inv :: "Impl \<Rightarrow> bool" where
  "durable_inv i \<longleftrightarrow> registry_inv i \<and> sorted (map sp_id (p_sources (i_policy i))) \<and> i_next_incarnation i \<noteq> 0"

lemma adopt_to_state:
  assumes "registry_inv i"
  shows "i_world (adopt (to_state i)) = rebuilt (i_world i)" "i_total_records (adopt (to_state i)) = i_total_records i"
    "i_incarnations (adopt (to_state i)) = i_incarnations i" "i_conflicts (adopt (to_state i)) = i_conflicts i"
    "i_resolutions (adopt (to_state i)) = i_resolutions i"
proof -
  have inv: "devices_ok i" "tables_ok i" "i_total_records i = record_count (i_world i)" using assms by (simp_all add: registry_inv_def)
  show "i_world (adopt (to_state i)) = rebuilt (i_world i)" by (simp add: adopt_def to_state_def rebuilt_def)
  show "i_total_records (adopt (to_state i)) = i_total_records i"
    using inv(3) by (simp add: adopt_def to_state_def record_count_flatten)
  show "i_incarnations (adopt (to_state i)) = i_incarnations i"
    using inv(1) adopt_incarnations [of "i_incarnations i"] by (simp add: adopt_def to_state_def devices_ok_def)
  show "i_conflicts (adopt (to_state i)) = i_conflicts i" "i_resolutions (adopt (to_state i)) = i_resolutions i"
    using inv(2) by (simp_all add: adopt_def to_state_def tables_ok_def sort_key_id_if_sorted)
qed

lemma adopt_inv: "registry_inv i \<Longrightarrow> registry_inv (adopt (to_state i))"
  using rebuilt_flat [of "i_world i"]
  by (simp add: registry_inv_def [of "adopt (to_state i)"] adopt_to_state devices_ok_def tables_ok_def decisions_ok_def)
    (auto simp: registry_inv_def devices_ok_def tables_ok_def adopt_def om_wf_def)

lemma adopt_lossless:
  assumes "durable_inv i"
  shows "to_state (adopt (to_state i)) = to_state i"
proof -
  have inv: "registry_inv i" "world_inv (i_world i)" "sorted (map sp_id (p_sources (i_policy i)))" "i_next_incarnation i \<noteq> 0"
    using assms by (simp_all add: durable_inv_def registry_inv_def)
  have "sort_policy (i_policy i) = i_policy i" using inv(3) by (simp add: sort_policy_def sort_sources_def sort_key_id_if_sorted)
  then show ?thesis
    using inv(4) adopt_to_state [OF inv(1)] rebuilt_flat(1,2) [OF inv(2)]
    by (simp add: to_state_def [of "adopt (to_state i)"]) (simp add: to_state_def adopt_def)
qed

text \<open>
  A snapshot loses nothing. Adopting the durable state of a registry gives a registry of the same durable
  state (hence the same state digest), that satisfies the invariant, holds exactly the same records in the same
  streams and the same tombstones; only streams that hold no record and the retained decisions are gone.
\<close>

theorem snapshot_lossless:
  assumes "durable_inv i"
  shows "to_state (adopt (to_state i)) = to_state i
    \<and> Registry_state_digest (adopt (to_state i)) = Registry_state_digest i
    \<and> registry_inv (adopt (to_state i))
    \<and> (\<forall>key r. record_at (i_world (adopt (to_state i))) key r \<longleftrightarrow> record_at (i_world i) key r)
    \<and> find_tombstone (i_world (adopt (to_state i))) = find_tombstone (i_world i)"
proof -
  have inv: "registry_inv i" "world_inv (i_world i)" using assms by (simp_all add: durable_inv_def registry_inv_def)
  show ?thesis
    using adopt_lossless [OF assms] adopt_inv [OF inv(1)] record_at_rebuilt [OF inv(2)] rebuilt_find(2) [OF inv(2)]
    by (simp add: Registry_state_digest_def adopt_to_state [OF inv(1)])
qed

lemma sample_durable_inv: "durable_inv (sample_impl b)"
  using sample_registry_inv [of b]
  by (simp add: durable_inv_def sample_impl_def Registry_init_def sort_policy_def sort_sources_def)

theorem snapshot_lossless_witness:
  "to_state (adopt (to_state (sample_impl 5))) = to_state (sample_impl 5)
   \<and> record_at (i_world (adopt (to_state (sample_impl 5)))) sample_key (sample_stored 2 [2])"
proof -
  have "record_at (i_world (sample_impl 5)) sample_key (sample_stored 2 [2])"
    by (simp add: record_at_def sample_find sample_stream_def)
  then show ?thesis using snapshot_lossless [OF sample_durable_inv [of 5]] by blast
qed

section \<open>What a restart fences\<close>

lemma adopt_state_shape:
  assumes "adopt_state state now i = (i', Success c out)"
  shows "i' = refresh_all_conflicts (resume_tick state now) ((adopted state i)\<lparr>i_logical_tick := resume_tick state now\<rparr>)"
  using assms by (simp add: adopt_state_def Let_def split: prod.splits if_splits)

lemma adopt_state_total: "\<exists>i' out. adopt_state state now i = (i', Success Ok out)"
  by (simp add: adopt_state_def Let_def case_prod_unfold)

lemma adopted_frame:
  "i_boot_epoch (adopted state i) = rs_boot_epoch state + 1" "i_world (adopted state i) = adopt_world (rs_records state) (rs_tombstones state)"
  "i_incarnations (adopted state i) = i_incarnations (adopt state)" "i_epoch (adopted state i) = rs_epoch state + 1"
  "i_policy (adopted state i) = (if p_sources (rs_policy state) = [] then i_policy i else sort_policy (rs_policy state))"
  "i_logical_tick (adopted state i) = rs_logical_tick state" "i_total_records (adopted state i) = length (rs_records state)"
  by (simp_all add: adopted_def Let_def bump_policy_revision_def adopt_def)

lemma fold_higher:
  fixes f :: "'a \<Rightarrow> 'b::linorder"
  shows "x \<le> fold (\<lambda>r h. if f r > h then f r else h) rs x \<and> (\<forall>r \<in> set rs. f r \<le> fold (\<lambda>r h. if f r > h then f r else h) rs x)"
proof (induction rs arbitrary: x)
  case (Cons r rs)
  show ?case
  proof (cases "f r > x")
    case True
    then show ?thesis using Cons.IH [of "f r"] by simp (meson less_imp_le order_trans)
  next
    case False
    then show ?thesis using Cons.IH [of x] by simp (meson not_less order_trans)
  qed
qed simp

lemma resume_tick_bounds:
  "rs_logical_tick state \<le> resume_tick state now \<and> now \<le> resume_tick state now
     \<and> (\<forall>r \<in> set (rs_records state). e_observed_at (s_evidence r) \<le> resume_tick state now)"
  using fold_higher [of 0 "\<lambda>r. e_observed_at (s_evidence r)" "rs_records state"]
  by (fastforce simp: resume_tick_def Let_def highest_observed_def [symmetric])

lemma adopt_world_records: "record_at (adopt_world rs ts) key r \<Longrightarrow> r \<in> set rs"
  by (auto simp: record_at_def adopt_world_find sort_records_def of_key_def split: if_splits)

text \<open>
  C8: a restart is conservative. The new registry runs in the next boot epoch, in the next registry epoch and at
  a tick that is behind neither the state, nor the caller's clock, nor any observation it holds; and under
  the conservative boot policy every live record of every group comes from a source configured as durable
  across boots, so all other evidence is fenced until it is observed again.
\<close>

theorem restart_fences:
  assumes "adopt_state state now i = (i', Success c out)"
    and "\<forall>r \<in> set (rs_records state). e_boot_at_ingest (s_evidence r) \<le> rs_boot_epoch state"
    and "rs_boot_epoch state < rs_boot_epoch state + 1"
  shows "i_boot_epoch i' = rs_boot_epoch state + 1 \<and> i_epoch i' = rs_epoch state + 1
    \<and> rs_logical_tick state \<le> i_logical_tick i' \<and> now \<le> i_logical_tick i'
    \<and> (\<forall>r \<in> set (rs_records state). e_observed_at (s_evidence r) \<le> i_logical_tick i')
    \<and> (p_boot_policy (i_policy i') = ConservativeFence \<longrightarrow>
       (\<forall>d k t mo r. r \<in> set (dv_live (derive i' d k t mo)) \<longrightarrow>
         (\<exists>s. find_source (i_policy i') (key_source (e_key (s_evidence r))) = Some s \<and> sp_durable_across_boot s)))"
proof -
  have f: "i_boot_epoch i' = rs_boot_epoch state + 1" "i_epoch i' = rs_epoch state + 1" "i_logical_tick i' = resume_tick state now"
    "i_world i' = adopt_world (rs_records state) (rs_tombstones state)"
    by (simp_all add: adopt_state_shape [OF assms(1)] refresh_all_frame adopted_frame)
  have wf: "world_wf (i_world i')" by (simp add: f adopt_world_wf)
  have "\<exists>s. find_source (i_policy i') (key_source (e_key (s_evidence r))) = Some s \<and> sp_durable_across_boot s"
    if policy: "p_boot_policy (i_policy i') = ConservativeFence" and live: "r \<in> set (dv_live (derive i' d k t mo))" for d k t mo r
  proof -
    obtain sid s where s: "find_stream (i_world i') (EvidenceKey d k sid) = Some s" "r \<in> set (st_records s)"
      "active_conditions i' r s (find_source (i_policy i') sid) d t mo"
      using live unfolding live_iff active_in_stream [OF wf] by blast
    have "record_at (adopt_world (rs_records state) (rs_tombstones state)) (EvidenceKey d k sid) r" using s by (auto simp: record_at_def f)
    then have mem: "r \<in> set (rs_records state)" by (rule adopt_world_records)
    have "e_key (s_evidence r) = EvidenceKey d k sid"
      using s(1,2) by (auto simp: f adopt_world_find sort_records_def of_key_def split: if_splits)
    moreover obtain so where so: "find_source (i_policy i') sid = Some so" "boot_admissible i' so (s_evidence r)"
      using s(3) by (auto simp: active_conditions_def)
    moreover have "e_boot_at_ingest (s_evidence r) \<noteq> i_boot_epoch i'" using assms(2,3) mem by (auto simp: f not_less)
    ultimately show ?thesis using policy by (auto simp: boot_admissible_def)
  qed
  then show ?thesis using f resume_tick_bounds [of state now] by auto
qed

lemma sample_records: "r \<in> set (flatten_records (i_world (sample_impl b))) \<longleftrightarrow> r = sample_stored 1 [1] \<or> r = sample_stored 2 [2]"
proof -
  have w: "world_wf (i_world (sample_impl b))" using sample_registry_inv [of b] by (simp add: registry_inv_def world_inv_def)
  have "(k, s) \<in> set (streams_of (i_world (sample_impl b))) \<longleftrightarrow> k = sample_key \<and> s = sample_stream" for k s
    by (auto simp: streams.view_mem [OF w] sample_find split: if_splits)
  then have "set (streams_of (i_world (sample_impl b))) = {(sample_key, sample_stream)}" by auto
  then show ?thesis by (simp add: flatten_records_def sample_stream_def)
qed

theorem restart_fences_witness:
  "\<exists>i' c out. adopt_state (to_state (sample_impl 5)) 9 (sample_impl 5) = (i', Success c out) \<and> i_boot_epoch i' = 2
     \<and> (\<forall>t. dv_live (derive i' (key_device sample_key) TlsRecordCrypto t 0) = [])"
proof -
  let ?i = "sample_impl 5"
  obtain i' c out where a: "adopt_state (to_state ?i) 9 ?i = (i', Success c out)"
    using adopt_state_total by blast
  have boot: "rs_boot_epoch (to_state ?i) = 1" by (simp add: to_state_def sample_impl_def Registry_init_def)
  have old: "\<forall>r \<in> set (rs_records (to_state ?i)). e_boot_at_ingest (s_evidence r) \<le> rs_boot_epoch (to_state ?i)"
    unfolding boot by (auto simp: to_state_def sample_records sample_stored_def sample_evidence_def)
  have less: "rs_boot_epoch (to_state ?i) < rs_boot_epoch (to_state ?i) + 1" by (simp add: boot)
  have pol: "i_policy i' = i_policy ?i"
    by (simp add: adopt_state_shape [OF a] refresh_all_frame adopted_frame to_state_def sample_impl_def Registry_init_def sort_policy_def
        sort_sources_def lab_sources)
  have cf: "p_boot_policy (i_policy i') = ConservativeFence"
    by (simp add: pol sample_impl_def Registry_init_def sort_policy_def make_lab_policy_def)
  note r = restart_fences [OF a old less]
  have "False" if live: "r \<in> set (dv_live (derive i' (key_device sample_key) TlsRecordCrypto t 0))" for r t
  proof -
    have w: "world_wf (i_world i')" by (simp add: adopt_state_shape [OF a] refresh_all_frame adopted_frame adopt_world_wf)
    have "r \<in> set (rs_records (to_state ?i))"
      using live_record_at [OF w live] adopt_world_records
      by (auto simp: adopt_state_shape [OF a] refresh_all_frame adopted_frame)
    then have "key_source (e_key (s_evidence r)) = ''fixture-sim''"
      by (auto simp: to_state_def sample_records sample_stored_def sample_evidence_def)
    then show False using r live cf sample_source [of 5] pol by fastforce
  qed
  then have "dv_live (derive i' (key_device sample_key) TlsRecordCrypto t 0) = []" for t
    by (metis list.set_intros(1) neq_Nil_conv)
  then show ?thesis using a r boot by auto
qed

lemma registry_inv_adopted:
  assumes "registry_inv i"
  shows "registry_inv (adopted (to_state i) j)"
  using adopt_inv [OF assms]
  by (simp add: adopted_def Let_def bump_policy_revision_def registry_inv_def devices_ok_def decisions_ok_def tables_ok_def)

lemma adopt_state_inv:
  assumes "registry_inv i"
  shows "registry_inv (fst (adopt_state (to_state i) now j))"
proof -
  obtain i' out where a: "adopt_state (to_state i) now j = (i', Success Ok out)" using adopt_state_total by blast
  have "registry_inv ((adopted (to_state i) j)\<lparr>i_logical_tick := resume_tick (to_state i) now\<rparr>)"
    using registry_inv_adopted [OF assms, of j] by (simp add: registry_inv_def devices_ok_def decisions_ok_def tables_ok_def)
  then show ?thesis using a by (simp add: adopt_state_shape [OF a] registry_inv_refresh_all)
qed

end
