(* ===== verification/Registry.thy ===== *)
theory Registry
  imports Restart
begin

text \<open>
  The registry as a transition system: every public mutation of \<open>src/registry.cpp\<close> is a step, and so is a
  restart from the registry's own snapshot. What holds in every reachable registry is proved by rule induction
  and then carried to the questions it answers.
\<close>

section \<open>Steps\<close>

text \<open>
  One step is one call under the exclusive lock. An admission step assumes that its content hash does not collide
  with the id of a record of another stream, a restart step that the boot counter does not wrap around.
\<close>

inductive step :: "Impl \<Rightarrow> Impl \<Rightarrow> bool" where
  admits: "collision_free i q \<Longrightarrow> step i (fst (admit q now i))"
| retires_stream: "step i (fst (retire q now i))"
| begins_incarnation: "step i (fst (begin_device_incarnation d now i))"
| sets_incarnation: "step i (fst (set_device_incarnation d n now i))"
| revokes: "step i (fst (revoke_source s now i))"
| restores: "step i (fst (restore_source s now i))"
| sets_authority: "step i (fst (set_source_authority s a now i))"
| upserts: "step i (fst (upsert_source_policy p now i))"
| resolves: "step i (fst (resolve_conflict c chosen s now i))"
| sets_rule_generation: "step i (fst (set_rule_generation g i))"
| advances_epoch: "step i (fst (advance_epoch i))"
| ticks: "step i (fst (set_logical_tick now i))"
| sets_limits: "step i (set_limits l i)"
| evaluates: "step i (fst (evaluate q now i))"
| restarts: "i_boot_epoch i < i_boot_epoch i + 1 \<Longrightarrow> step i (fst (adopt_state (to_state i) now j))"

inductive_cases step_cases: "step i i'"

definition reachable :: "RegistryPolicy \<Rightarrow> Impl \<Rightarrow> bool" where
  "reachable p i \<longleftrightarrow> step\<^sup>*\<^sup>* (Registry_init p) i"

lemma reachable_induct:
  assumes "reachable p i" "P (Registry_init p)" "\<And>i i'. P i \<Longrightarrow> step i i' \<Longrightarrow> P i'"
  shows "P i"
  using assms(1) unfolding reachable_def by (induction rule: rtranclp_induct) (auto intro: assms(2,3))

section \<open>Where records come from\<close>

text \<open>What admission establishes of a record's evidence, and no later step can change.\<close>

definition evidence_sound :: "CapabilityEvidence \<Rightarrow> bool" where
  "evidence_sound e \<longleftrightarrow> e_id_cache e = compute_digest e \<and> e_generation e \<noteq> 0
     \<and> fst (feature_set_valid (e_features e) (key_kind (e_key e))) \<and> fst (limit_set_valid (e_limits e) (key_kind (e_key e)))
     \<and> (\<forall>u. e_valid_until e = Some u \<longrightarrow> e_observed_at e \<le> u) \<and> si_source (e_source_incarnation e) = key_source (e_key e)"

definition evidence_kept :: "World \<Rightarrow> World \<Rightarrow> bool" where
  "evidence_kept w w' \<longleftrightarrow> (\<forall>k r'. record_at w' k r' \<longrightarrow> (\<exists>r. record_at w k r \<and> s_evidence r = s_evidence r'))"

lemma evidence_kept_refl [simp]: "evidence_kept w w"
  by (auto simp: evidence_kept_def)

lemma evidence_kept_all: "evidence_kept (i_world i) (i_world i') \<Longrightarrow> all_evidence P i \<Longrightarrow> all_evidence P i'"
  unfolding evidence_kept_def all_evidence_def by metis

lemma refresh_id_cache: "e_id_cache (refresh_id e) = compute_digest (refresh_id e)"
  by (simp add: refresh_id_def)

lemma make_evidence_sound:
  assumes "admission_refusal i q now = None"
  shows "evidence_sound (make_evidence i q)"
proof -
  have "ar_generation q \<noteq> 0" using assms by (rule admission_refusal_None)
  moreover have "fst (feature_set_valid (ar_features q) (ar_kind q))" "fst (limit_set_valid (ar_limits q) (ar_kind q))"
    "\<forall>u. ar_valid_until q = Some u \<longrightarrow> ar_observed_at q \<le> u"
    using assms by (auto simp: admission_refusal_def Let_def not_less split: if_splits option.splits prod.splits bool.splits)
  moreover have "e_id_cache (make_evidence i q) = compute_digest (make_evidence i q)"
    unfolding make_evidence_def by (rule refresh_id_cache)
  moreover have "e_features (make_evidence i q) = ar_features q" "e_limits (make_evidence i q) = ar_limits q"
    "e_key (make_evidence i q) = request_key q" "e_generation (make_evidence i q) = ar_generation q"
    "e_valid_until (make_evidence i q) = ar_valid_until q" "e_observed_at (make_evidence i q) = ar_observed_at q"
    "e_source_incarnation (make_evidence i q) = ar_source q"
    by (simp_all add: make_evidence_def refresh_id_def)
  ultimately show ?thesis by (simp add: evidence_sound_def request_key_def)
qed

lemma record_at_refresh_conflict [simp]: "record_at (i_world (refresh_conflict d k now i)) = record_at (i_world i)"
  by (simp add: refresh_conflict_frame)

lemma admit_new_records:
  assumes inv: "registry_inv i" and s: "find_stream (i_world i) key = Some s"
    and e: "e_key e = key" "e_generation e \<noteq> 0" "st_max_generation s < e_generation e"
    and unused: "id_unused (i_world i) (evidence_id e)"
    and r': "record_at (i_world (fst (admit_new key e s now i))) k r'"
  shows "record_at (i_world i) k r' \<or> s_evidence r' = e"
proof -
  obtain ok i2 ev where b: "enforce_budget key (evidence_id e) now (with_new key e s now i) = (ok, i2, ev)"
    by (cases "enforce_budget key (evidence_id e) now (with_new key e s now i)")
  note spec = enforce_budget_spec [OF with_new_inv(2) [OF inv s e unused] b]
  have sub: "record_at (i_world i2) k x \<Longrightarrow> record_at (i_world i) k x \<or> s_evidence x = e" for k x
    using spec with_new_record_at [OF s] by auto
  show ?thesis
  proof (cases ok)
    case True
    then show ?thesis using r' sub [of k r'] by (simp add: admit_new_eq b Let_def)
  next
    case False
    then have b': "enforce_budget key (evidence_id e) now (with_new key e s now i) = (False, i2, ev)" using b by simp
    obtain s2 r0 where s2: "find_stream (i_world i2) key = Some s2" "st_records s2 = [r0]" "stored_id r0 = evidence_id e"
      using budget_failure_alone [OF inv s e unused b'] by blast
    have bi: "world_wf (i_world i2)" "i_total_records i2 = record_count (i_world i2)"
      using conjunct1 [OF spec] by (simp_all add: budget_inv_def world_inv_def)
    have "record_at (i_world i2) k r'"
      using r' False rollback_alone(2) [OF bi(1) s2 bi(2)] by (auto simp: admit_new_eq b record_at_def split: if_splits)
    then show ?thesis by (rule sub)
  qed
qed

lemma admit_records:
  assumes inv: "registry_inv i" and cf: "collision_free i q" and r': "record_at (i_world (fst (admit q now i))) k r'"
  shows "record_at (i_world i) k r' \<or> s_evidence r' = make_evidence i q \<and> admission_refusal i q now = None"
proof (cases "admission_refusal i q now")
  case (Some p)
  then show ?thesis using r' by (simp add: admit_def reject_admission_def split: prod.splits)
next
  case None
  show ?thesis using inv cf
  proof (cases rule: admit_endings [where now = now])
    case (early reason detail i')
    then show ?thesis using r' by simp
  next
    case (later j e s)
    let ?key = "request_key q"
    have st: "find_stream (i_world (ensured ?key j)) ?key = Some s" using later by (simp add: ensured_facts)
    have rec: "record_at (i_world (ensured ?key j)) k x \<longleftrightarrow> record_at (i_world i) k x" for k x using later by (simp add: ensured_facts)
    from later(12) show ?thesis
    proof (elim disjE conjE)
      assume "admit q now i = admit_present ?key (evidence_id e) s now (ensured ?key j)"
      then show ?thesis using r' rec by (simp add: admit_present_def)
    next
      assume "admit q now i = admit_refused ?key e s now (ensured ?key j)"
      moreover have "record_at (i_world i) ?key x" if "x \<in> set (st_records s)" for x
        using that st rec [of ?key x] by (simp add: record_at_def)
      ultimately show ?thesis using r' rec None later(2)
        by (auto simp: admit_refused_def Let_def record_at_put split: if_splits)
    next
      assume a: "admit q now i = admit_new ?key e s now (ensured ?key j)" "id_unused (i_world (ensured ?key j)) (evidence_id e)"
        "st_max_generation s < e_generation e"
      show ?thesis
        using admit_new_records [OF later(4) st later(7,9) a(3,2), of now k r'] r' a(1) rec None later(2) by auto
    qed
  qed
qed

section \<open>Epochs and policies\<close>

lemma retire_effect:
  "evidence_kept (i_world i) (i_world (fst (retire q now i))) \<and> stamps (fst (retire q now i)) = stamps i"
proof -
  obtain i' result where r: "retire q now i = (i', result)" by force
  show ?thesis
  proof (cases "\<exists>c out. result = Success c out \<and> \<not> ro_idempotent out")
    case True
    then obtain c out where "retire q now i = (i', Success c out)" "\<not> ro_idempotent out" using r by blast
    then obtain s t reason where *: "find_stream (i_world i) (retirement_key q) = Some s"
      "i' = refresh_conflict (rq_device q) (rq_kind q) now (count_retirement True (push_tombstone t
        (i\<lparr>i_world := put_stream (retirement_key q) (s\<lparr>st_records := map (retire_record (rq_generation q) reason now) (st_records s)\<rparr>) (i_world i)\<rparr>)))"
      by (rule retire_Success) blast
    have "s_evidence (retire_record g reason now x) = s_evidence x" for g reason now x by (simp add: retire_record_def)
    moreover have "stamps (count_retirement True (push_tombstone t j)) = stamps j" for j
      by (simp add: stamps_def count_retirement_def push_tombstone_def Let_def split: option.splits)
    ultimately show ?thesis
      using *(1) by (auto simp: r *(2) evidence_kept_def record_at_def push_tombstone_effect(1) split: if_splits)
  next
    case False
    then have "i' = count_retirement False i \<or> i' = count_retirement True i"
      using r by (auto simp: retire_def Let_def split: if_splits option.splits)
    then show ?thesis by (auto simp: r stamps_def count_retirement_def)
  qed
qed

section \<open>What every step keeps\<close>

text \<open>
  The steps that neither admit nor restart: they keep the evidence of every record, the boot epoch, and raise
  the epoch and the policy revision together.
\<close>

definition quiet :: "Impl \<Rightarrow> Impl \<Rightarrow> bool" where
  "quiet i i' \<longleftrightarrow> evidence_kept (i_world i) (i_world i') \<and> i_boot_epoch i' = i_boot_epoch i
     \<and> i_epoch i' - i_epoch i = i_policy_revision i' - i_policy_revision i"

lemma quietI: "i_world i' = i_world i \<Longrightarrow> i_boot_epoch i' = i_boot_epoch i
    \<Longrightarrow> i_epoch i' = i_epoch i \<and> i_policy_revision i' = i_policy_revision i
      \<or> i_epoch i' = i_epoch i + 1 \<and> i_policy_revision i' = i_policy_revision i + 1 \<Longrightarrow> quiet i i'"
  by (auto simp: quiet_def)

lemma quiet_retire: "quiet i (fst (retire q now i))"
  using retire_effect [of i q now] by (simp add: quiet_def stamps_def)

lemma raise_next_stamps [simp]: "i_epoch (raise_next_incarnation n i) = i_epoch i" "i_policy_revision (raise_next_incarnation n i) = i_policy_revision i"
  "i_boot_epoch (raise_next_incarnation n i) = i_boot_epoch i" "i_world (raise_next_incarnation n i) = i_world i"
  by (simp_all add: raise_next_incarnation_def)

lemma quiet_incarnations: "quiet i (fst (begin_device_incarnation d now i))" "quiet i (fst (set_device_incarnation d n now i))"
  by (rule quietI; auto simp: begin_device_incarnation_def set_device_incarnation_def take_incarnation_def Let_def split: option.splits)+

lemma quiet_sources: "quiet i (fst (revoke_source s now i))" "quiet i (fst (restore_source s now i))"
  "quiet i (fst (set_source_authority s a now i))" "quiet i (fst (upsert_source_policy p now i))"
  by (rule quietI; auto simp: revoke_source_def restore_source_def set_source_authority_def change_source_def upsert_source_policy_def Let_def
      split: option.splits)+

lemma quiet_settings: "quiet i (fst (set_rule_generation g i))" "quiet i (fst (advance_epoch i))" "quiet i (fst (set_logical_tick now i))"
  "quiet i (set_limits l i)"
  by (rule quietI; auto simp: set_rule_generation_def advance_epoch_def set_logical_tick_def set_limits_def)+

lemma quiet_resolve: "quiet i (fst (resolve_conflict c chosen s now i))"
  by (rule quietI; auto simp: resolve_conflict_def push_resolution_def Let_def split: option.splits)

lemma quiet_evaluate: "quiet i (fst (evaluate q now i))"
proof -
  obtain i' d where e: "evaluate q now i = (i', d)" by fastforce
  have "i_world i' = i_world i" "i_boot_epoch i' = i_boot_epoch i" "i_epoch i' = i_epoch i" "i_policy_revision i' = i_policy_revision i"
    by (subst evaluate_push(3) [OF e], simp)+
  then show ?thesis unfolding e fst_conv by (intro quietI) simp_all
qed

lemmas quiet_steps = quiet_retire quiet_incarnations quiet_sources quiet_settings quiet_resolve quiet_evaluate

text \<open>The invariant of a reachable registry.\<close>

definition lifetime_inv :: "Impl \<Rightarrow> bool" where
  "lifetime_inv i \<longleftrightarrow> registry_inv i \<and> all_evidence evidence_sound i
     \<and> all_evidence (\<lambda>e. e_boot_at_ingest e \<le> i_boot_epoch i) i \<and> i_epoch i = i_policy_revision i"

lemma lifetime_quiet: "lifetime_inv i \<Longrightarrow> quiet i i' \<Longrightarrow> registry_inv i' \<Longrightarrow> lifetime_inv i'"
  unfolding lifetime_inv_def quiet_def by (auto intro: evidence_kept_all)

lemma lifetime_admit:
  assumes inv: "lifetime_inv i" and cf: "collision_free i q"
  shows "lifetime_inv (fst (admit q now i))"
proof -
  have reg: "registry_inv i" using inv by (simp add: lifetime_inv_def)
  have all: "all_evidence P (fst (admit q now i))"
    if "all_evidence P i" "admission_refusal i q now = None \<Longrightarrow> P (make_evidence i q)" for P
    using that admit_records [OF reg cf] unfolding all_evidence_def by metis
  have "e_boot_at_ingest (make_evidence i q) \<le> i_boot_epoch i" by (simp add: make_evidence_def refresh_id_def)
  then show ?thesis
    using inv admit_inv [OF reg cf] all [of evidence_sound] all [of "\<lambda>e. e_boot_at_ingest e \<le> i_boot_epoch i"] make_evidence_sound
      admit_stamps [of q now i]
    by (simp add: lifetime_inv_def)
qed

lemma lifetime_restart:
  assumes inv: "lifetime_inv i" and boot: "i_boot_epoch i < i_boot_epoch i + 1"
  shows "lifetime_inv (fst (adopt_state (to_state i) now j))"
proof -
  have reg: "registry_inv i" "world_inv (i_world i)" using inv by (simp_all add: lifetime_inv_def registry_inv_def)
  obtain i' out where a: "adopt_state (to_state i) now j = (i', Success Ok out)" using adopt_state_total by blast
  have w: "i_world i' = rebuilt (i_world i)" "i_boot_epoch i' = i_boot_epoch i + 1" "i_epoch i' = i_epoch i + 1"
      "i_policy_revision i' = i_policy_revision i + 1"
    by (simp_all add: adopt_state_shape [OF a] adopted_def Let_def adopt_def to_state_def rebuilt_def)
  have all: "all_evidence P i \<Longrightarrow> all_evidence P i'" for P by (simp add: all_evidence_def w record_at_rebuilt [OF reg(2)])
  have "all_evidence (\<lambda>e. e_boot_at_ingest e \<le> i_boot_epoch i') i'"
    using all [of "\<lambda>e. e_boot_at_ingest e \<le> i_boot_epoch i"] inv boot unfolding lifetime_inv_def all_evidence_def w
    by (meson less_imp_le order_trans)
  then show ?thesis using adopt_state_inv [OF reg(1), of now j] inv all [of evidence_sound] by (simp add: a lifetime_inv_def w)
qed

lemma lifetime_step: "step i i' \<Longrightarrow> lifetime_inv i \<Longrightarrow> lifetime_inv i'"
proof (induction rule: step.induct)
  case (admits i q now)
  then show ?case by (intro lifetime_admit)
next
  case (restarts i now j)
  then show ?case by (intro lifetime_restart)
qed (rule lifetime_quiet, assumption, rule quiet_steps,
    simp add: lifetime_inv_def retire_inv begin_device_incarnation_inv set_device_incarnation_inv source_ops_inv settings_inv
      resolve_conflict_inv evaluate_inv)+

lemma lifetime_init: "lifetime_inv (Registry_init p)"
  by (simp add: lifetime_inv_def registry_inv_def world_inv_def unique_ids_def devices_ok_def decisions_ok_def tables_ok_def
      all_evidence_def record_at_def Registry_init_def find_stream_def find_tombstone_def find_group_def find_kind_map_def record_count_def
      streams_of_def om_wf_def)

lemma lifetime_reachable: "reachable p i \<Longrightarrow> lifetime_inv i"
  by (erule reachable_induct) (auto intro: lifetime_init lifetime_step)

section \<open>Devices\<close>

text \<open>
  What every step does to the device table: no device is forgotten, no history shrinks, and, as long as the counter of
  incarnation ids does not wrap around to zero, it stays ahead of every recorded id.
\<close>

definition devices_step :: "Impl \<Rightarrow> Impl \<Rightarrow> bool" where
  "devices_step i i' \<longleftrightarrow> devices_kept i i' \<and> (ids_below i \<and> i_next_incarnation i' \<noteq> 0 \<longrightarrow> ids_below i')"

lemma devices_same: "i_incarnations i' = i_incarnations i \<Longrightarrow> i_next_incarnation i' = i_next_incarnation i \<Longrightarrow> devices_step i i'"
  by (simp add: devices_step_def ids_below_cong [of i' i])

lemma devices_put:
  assumes "find_device i' = (find_device i)(d \<mapsto> entry')"
    "\<And>entry. find_device i d = Some entry \<Longrightarrow> set (ie_history entry) \<subseteq> set (ie_history entry')"
    "i_next_incarnation i' \<noteq> 0 \<Longrightarrow> ids_below i \<Longrightarrow> i_next_incarnation i \<le> i_next_incarnation i' \<and> (\<forall>n \<in> set (ie_history entry'). n < i_next_incarnation i')"
  shows "devices_step i i'"
  using assms ids_below_put [OF _ assms(1)] by (auto simp: devices_step_def devices_kept_def)

lemma devices_raise:
  assumes "find_device i' = (find_device i)(d \<mapsto> entry')" "i_next_incarnation i' = i_next_incarnation (raise_next_incarnation inc i)"
    "\<And>entry. find_device i d = Some entry \<Longrightarrow> set (ie_history entry) \<subseteq> set (ie_history entry')"
    "\<And>n. n \<in> set (ie_history entry') \<Longrightarrow> n = inc \<or> (\<exists>entry. find_device i d = Some entry \<and> n \<in> set (ie_history entry))"
  shows "devices_step i i'"
proof (rule devices_put [OF assms(1,3)])
  assume i: "i_next_incarnation i' \<noteq> 0" "ids_below i"
  then have "inc \<noteq> -1" using raise_next_above(3) [of i] assms(2) by auto
  note above = raise_next_above(1,2) [OF this, of i, folded assms(2)]
  then show "i_next_incarnation i \<le> i_next_incarnation i' \<and> (\<forall>n \<in> set (ie_history entry'). n < i_next_incarnation i')"
    using assms(4) i(2) unfolding ids_below_def by (fastforce dest: less_le_trans)
qed

lemma devices_register: "register_device dev i = Inr j \<Longrightarrow> devices_step i j"
proof (cases "find_device i (dr_device dev)")
  case None
  assume "register_device dev i = Inr j"
  then show ?thesis using None
    by (intro devices_raise [of j i "dr_device dev" "\<lparr>ie_device = dr_device dev, ie_current = dr_incarnation dev, ie_history = [dr_incarnation dev]\<rparr>" "dr_incarnation dev"])
      (auto simp: register_device_def Let_def find_device_def fun_eq_iff raise_next_incarnation_def split: if_splits)
next
  case (Some entry)
  assume r: "register_device dev i = Inr j"
  let ?inc = "dr_incarnation dev"
  show ?thesis
  proof (cases "?inc \<in> set (ie_history entry)")
    case True
    then have j: "j = raise_next_incarnation ?inc i" using r Some by (simp add: register_device_def Let_def)
    have "ids_below i \<Longrightarrow> j = i" using True Some by (force simp: j raise_next_incarnation_def ids_below_def not_le [symmetric])
    moreover have "devices_kept i j" by (simp add: j)
    ultimately show ?thesis by (auto simp: devices_step_def)
  next
    case False
    then show ?thesis using r Some
      by (intro devices_raise [of j i "dr_device dev" "entry\<lparr>ie_history := sort (ie_history entry @ [?inc])\<rparr>" ?inc])
        (auto simp: register_device_def Let_def find_device_def fun_eq_iff raise_next_incarnation_def split: if_splits)
  qed
qed

lemma devices_incarnations: "devices_step i (fst (begin_device_incarnation d now i))" "devices_step i (fst (set_device_incarnation d inc now i))"
proof -
  obtain i' result where b: "begin_device_incarnation d now i = (i', result)" by fastforce
  show "devices_step i (fst (begin_device_incarnation d now i))"
  proof (cases result)
    case (Failure reason detail)
    then have "i' = i" using b by (auto simp: begin_device_incarnation_def take_incarnation_def Let_def split: option.splits if_splits)
    then show ?thesis by (simp add: b devices_same)
  next
    case (Success c n)
    note run = b [unfolded Success]
    have "devices_kept i i'"
      by (auto simp: devices_kept_def begin_device_incarnation_run(4) [OF run] split: option.splits)
    moreover have "i_next_incarnation i' \<noteq> 0 \<Longrightarrow> n \<noteq> -1" using begin_device_incarnation_run(2) [OF run] by auto
    ultimately show ?thesis using begin_device_incarnation_new(2) [OF run] by (auto simp: devices_step_def b)
  qed
  show "devices_step i (fst (set_device_incarnation d inc now i))"
  proof (cases "find_device i d")
    case None
    let ?entry = "\<lparr>ie_device = d, ie_current = inc, ie_history = [inc]\<rparr>"
    have "find_device (fst (set_device_incarnation d inc now i)) = (find_device i)(d \<mapsto> ?entry)
        \<and> i_next_incarnation (fst (set_device_incarnation d inc now i)) = i_next_incarnation (raise_next_incarnation inc i)
      \<or> fst (set_device_incarnation d inc now i) = i"
      using None by (auto simp: set_device_incarnation_def raise_next_incarnation_def find_device_def fun_eq_iff)
    then show ?thesis using None devices_raise [of "fst (set_device_incarnation d inc now i)" i d ?entry inc] devices_same [of i i] by auto
  next
    case (Some entry)
    let ?h = "if inc \<in> set (ie_history entry) then ie_history entry else sort (ie_history entry @ [inc])"
    let ?entry = "entry\<lparr>ie_current := inc, ie_history := ?h\<rparr>"
    have "find_device (fst (set_device_incarnation d inc now i)) = (find_device i)(d \<mapsto> ?entry)
        \<and> i_next_incarnation (fst (set_device_incarnation d inc now i)) = i_next_incarnation (raise_next_incarnation inc i)
      \<or> fst (set_device_incarnation d inc now i) = i"
      using Some by (cases entry) (auto simp: set_device_incarnation_def Let_def raise_next_incarnation_def find_device_def fun_eq_iff)
    then show ?thesis
      using Some devices_raise [of "fst (set_device_incarnation d inc now i)" i d ?entry inc] devices_same [of i i] by (auto split: if_splits)
  qed
qed

lemma devices_admit: "devices_step i (fst (admit q now i))"
proof -
  have early: "devices_step i (count_rejected i)" by (rule devices_same) (simp_all add: count_rejected_def)
  show ?thesis
  proof (cases "admission_refusal i q now = None \<and> (\<exists>j. register_device (ar_device q) i = Inr j)")
    case False
    then have "fst (admit q now i) = count_rejected i"
      by (auto simp: admit_def reject_admission_def split: option.splits sum.splits prod.splits)
    then show ?thesis using early by simp
  next
    case True
    then obtain j where j: "admission_refusal i q now = None" "register_device (ar_device q) i = Inr j" by blast
    then show ?thesis using devices_register [OF j(2)] admit_registered_stamps [of q now j]
      by (simp add: admit_def stamps_def devices_step_def devices_kept_def find_device_def ids_below_def)
  qed
qed

lemma devices_restart:
  assumes "registry_inv i"
  shows "devices_step i (fst (adopt_state (to_state i) now j))"
proof -
  obtain i' out where a: "adopt_state (to_state i) now j = (i', Success Ok out)" using adopt_state_total by blast
  have inc: "i_incarnations i' = i_incarnations i"
    by (simp add: adopt_state_shape [OF a] adopted_frame adopt_to_state [OF assms])
  have "i_next_incarnation i' = (if i_next_incarnation i = 0 then 1 else i_next_incarnation i)"
    by (simp add: adopt_state_shape [OF a] adopted_def Let_def adopt_def to_state_def)
  then show ?thesis using inc by (auto simp: a devices_step_def ids_below_def find_device_def)
qed

lemma devices_step_step: "step i i' \<Longrightarrow> registry_inv i \<Longrightarrow> devices_step i i'"
proof (induction rule: step.induct)
  case (retires_stream i q now)
  have "stamps (fst (retire q now i)) = stamps i" using retire_effect by blast
  then show ?case by (intro devices_same) (simp_all add: stamps_def)
next
  case (evaluates i q now)
  obtain i' d where e: "evaluate q now i = (i', d)" by fastforce
  have "i_incarnations i' = i_incarnations i" "i_next_incarnation i' = i_next_incarnation i"
    by (subst evaluate_push(3) [OF e], simp)+
  then show ?case by (simp add: e devices_same)
next
  case (restarts i now j)
  then show ?case by (intro devices_restart)
qed (simp_all add: devices_admit devices_incarnations,
    (rule devices_same;
      auto simp: revoke_source_def restore_source_def set_source_authority_def change_source_def upsert_source_policy_def
        set_rule_generation_def advance_epoch_def set_logical_tick_def set_limits_def resolve_conflict_def push_resolution_def Let_def
        split: option.splits)+)

text \<open>In every reachable registry each record is of a recorded incarnation of a registered device.\<close>

lemma records_owned_kept: "evidence_kept (i_world i) (i_world i') \<Longrightarrow> devices_kept i i' \<Longrightarrow> records_owned i \<Longrightarrow> records_owned i'"
  unfolding records_owned_def evidence_kept_def devices_kept_def by (meson subsetD)

lemma quiet_evidence: "quiet i i' \<Longrightarrow> evidence_kept (i_world i) (i_world i')"
  by (simp add: quiet_def)

lemma records_owned_admit:
  assumes inv: "registry_inv i" and cf: "collision_free i q" and at: "records_owned i"
  shows "records_owned (fst (admit q now i))"
  unfolding records_owned_def
proof (intro allI impI)
  let ?i = "fst (admit q now i)"
  fix k r assume r: "record_at (i_world ?i) k r"
  have kept: "devices_kept i ?i" using devices_admit by (simp add: devices_step_def)
  have key: "e_key (s_evidence r) = k"
    using r admit_inv [OF inv cf, of now] by (auto simp: registry_inv_def world_inv_def stream_ok_def record_at_def)
  from admit_records [OF inv cf r]
  show "\<exists>entry. find_device ?i (dr_device (key_device k)) = Some entry \<and> dr_incarnation (key_device k) \<in> set (ie_history entry)"
  proof (elim disjE conjE)
    assume "record_at (i_world i) k r"
    then show ?thesis using at kept unfolding records_owned_def devices_kept_def by (meson subsetD)
  next
    assume new: "s_evidence r = make_evidence i q" "admission_refusal i q now = None"
    then have k: "key_device k = ar_device q" using key by (auto simp: make_evidence_def refresh_id_def request_key_def)
    show ?thesis
    proof (cases "register_device (ar_device q) i")
      case (Inl p)
      then have "record_at (i_world i) k r" using r new(2) by (auto simp: admit_def reject_admission_def split: prod.splits)
      then show ?thesis using at kept unfolding records_owned_def devices_kept_def by (meson subsetD)
    next
      case (Inr j)
      have "i_incarnations ?i = i_incarnations j"
        using admit_registered_stamps [of q now j] Inr new(2) by (simp add: admit_def stamps_def)
      then show ?thesis using register_device_grows(2) [OF Inr] by (simp add: k find_device_def)
    qed
  qed
qed

lemma records_owned_step: "step i i' \<Longrightarrow> lifetime_inv i \<Longrightarrow> records_owned i \<Longrightarrow> records_owned i'"
proof (frule devices_step_step)
  show "lifetime_inv i \<Longrightarrow> registry_inv i" by (simp add: lifetime_inv_def)
  assume d: "devices_step i i'"
  show "records_owned i'" if s: "step i i'" "lifetime_inv i" "records_owned i"
    using s d
  proof (induction rule: step.induct)
    case (admits i q now)
    then show ?case by (intro records_owned_admit) (simp_all add: lifetime_inv_def)
  next
    case (restarts i now j)
    have w: "world_inv (i_world i)" using restarts by (simp add: lifetime_inv_def registry_inv_def)
    obtain i' out where a: "adopt_state (to_state i) now j = (i', Success Ok out)" using adopt_state_total by blast
    have "i_world i' = rebuilt (i_world i)" by (simp add: adopt_state_shape [OF a] adopted_def Let_def adopt_def to_state_def rebuilt_def)
    then have "evidence_kept (i_world i) (i_world i')" by (auto simp: evidence_kept_def record_at_rebuilt [OF w])
    then show ?case using records_owned_kept restarts by (simp add: a devices_step_def)
  qed (rule records_owned_kept, rule quiet_evidence, rule quiet_steps, simp add: devices_step_def, assumption)+
qed

lemma records_owned_reachable: "reachable p i \<Longrightarrow> records_owned i"
proof -
  assume "reachable p i"
  then have "lifetime_inv i \<and> records_owned i"
  proof (rule reachable_induct)
    show "lifetime_inv (Registry_init p) \<and> records_owned (Registry_init p)"
      using lifetime_init by (simp add: records_owned_def record_at_def Registry_init_def find_stream_def find_group_def find_kind_map_def)
  qed (auto intro: lifetime_step records_owned_step)
  then show ?thesis ..
qed

text \<open>Until the counter of incarnation ids wraps around, it is ahead of every recorded id.\<close>

lemma ids_below_reachable:
  assumes "(\<lambda>i i'. step i i' \<and> i_next_incarnation i' \<noteq> 0)\<^sup>*\<^sup>* (Registry_init p) i"
  shows "lifetime_inv i \<and> ids_below i"
  using assms
proof (induction rule: rtranclp_induct)
  case base
  show ?case using lifetime_init by (simp add: ids_below_def find_device_def Registry_init_def)
next
  case (step i i')
  then have "devices_step i i'" by (intro devices_step_step) (simp_all add: lifetime_inv_def)
  then show ?case using step lifetime_step by (auto simp: devices_step_def)
qed

section \<open>Properties of reachable registries\<close>

text \<open>
  C2: what holds in every registry that can be reached from a fresh one by any sequence of calls, refused ones
  and restarts from its own snapshot included: the structural invariant (streams ordered, ids unique, record
  count exact, tables sorted); every record is stored under the SHA-256 digest of its content, in the stream
  of its key, with features and limits valid for its kind and an ordered validity window; no record is stamped
  with a boot epoch of the future; every record is of a recorded incarnation of a registered device; and the registry
  epoch and the policy revision move together.
\<close>

theorem reachable_registry_inv:
  assumes "reachable p i"
  shows "registry_inv i
    \<and> (\<forall>k r. record_at (i_world i) k r \<longrightarrow> e_key (s_evidence r) = k \<and> stored_id r = compute_digest (s_evidence r)
         \<and> evidence_sound (s_evidence r) \<and> e_boot_at_ingest (s_evidence r) \<le> i_boot_epoch i)
    \<and> records_owned i \<and> i_epoch i = i_policy_revision i"
proof -
  have inv: "lifetime_inv i" using assms by (rule lifetime_reachable)
  have "e_key (s_evidence r) = k" if "record_at (i_world i) k r" for k r
    using that inv by (auto simp: lifetime_inv_def registry_inv_def world_inv_def stream_ok_def record_at_def)
  then show ?thesis
    using inv records_owned_reachable [OF assms] by (auto simp: lifetime_inv_def all_evidence_def evidence_sound_def stored_id_def evidence_id_def)
qed

lemma sample_reachable: "reachable make_lab_policy (fst (admit (sample_request 1) 5 lab))"
  unfolding reachable_def using admits [OF lab_collision_free] by auto

theorem reachable_registry_inv_witness:
  "\<exists>r. record_at (i_world (fst (admit (sample_request 1) 5 lab))) (request_key (sample_request 1)) r
     \<and> stored_id r = compute_digest (s_evidence r)"
proof -
  obtain i' out where a: "admit (sample_request 1) 5 lab = (i', Success Ok out)" "ao_reason out = AcceptedNew"
    using sample_admitted by blast
  have "record_at (i_world i') (request_key (sample_request 1)) (stored_as (make_evidence lab (sample_request 1)) LifecycleAdmitted (ao_reason out) 5)"
    using conjunct1 [OF admit_accepted_facts [OF lab_facts(5) lab_collision_free a(1)]] a(2) by simp
  then show ?thesis using reachable_registry_inv [OF sample_reachable] a by auto
qed

lemma sound_canonical: "evidence_sound e \<Longrightarrow> canonical_features e"
  by (auto simp: evidence_sound_def canonical_features_def feature_set_valid_def FeatureSet_canonical_order_ok_def successively_less
      strict_sorted_imp_sorted split: if_splits)

lemma reachable_live:
  assumes inv: "lifetime_inv i" and live: "r \<in> set (dv_live (derive i d k now mo))"
  shows "\<exists>sid s. record_at (i_world i) (EvidenceKey d k sid) r \<and> stored_id r = compute_digest (s_evidence r)
    \<and> s_lifecycle r = LifecycleAdmitted \<and> device_current i d \<and> find_source (i_policy i) sid = Some s
    \<and> \<not> fenced_source (i_policy i) s \<and> boot_admissible i s (s_evidence r) \<and> fresh i s (s_evidence r) now mo"
proof -
  have w: "world_wf (i_world i)" using inv by (simp add: lifetime_inv_def registry_inv_def world_inv_def)
  obtain sid st where st: "find_stream (i_world i) (EvidenceKey d k sid) = Some st" "r \<in> set (st_records st)"
    "active_conditions i r st (find_source (i_policy i) sid) d now mo"
    using live unfolding live_iff active_in_stream [OF w] by blast
  then have rec: "record_at (i_world i) (EvidenceKey d k sid) r" by (auto simp: record_at_def)
  then have "stored_id r = compute_digest (s_evidence r)"
    using inv by (simp add: lifetime_inv_def all_evidence_def evidence_sound_def stored_id_def evidence_id_def)
  then show ?thesis using rec st(3) unfolding active_conditions_def by blast
qed

text \<open>
  C1: a Compatible answer is always backed. In every reachable registry, if an evaluation answers Compatible then
  the record it names is stored for that device incarnation and capability under the digest of its own content,
  was admitted and not retired, the incarnation is the device's current one, its source is configured and not
  fenced by policy, the record survived the boot policy and is fresh at the evaluation tick, and it meets
  every part of the requirement. The registry after the evaluation is reachable too.
\<close>

theorem compatible_is_backed:
  assumes "reachable p i" "evaluate q now i = (i', d)"
  shows "reachable p i' \<and> (d_kind d = Compatible \<longrightarrow> (\<exists>r sid s. record_at (i_world i) (EvidenceKey (cq_device q) (cq_capability q) sid) r
    \<and> d_selected d = Some (compute_digest (s_evidence r)) \<and> s_lifecycle r = LifecycleAdmitted \<and> device_current i (cq_device q)
    \<and> find_source (i_policy i) sid = Some s \<and> \<not> fenced_source (i_policy i) s \<and> boot_admissible i s (s_evidence r)
    \<and> fresh i s (s_evidence r) now (max_evidence_age q) \<and> requirement_met q (s_evidence r)))"
proof -
  have inv: "lifetime_inv i" using assms(1) by (rule lifetime_reachable)
  have reg: "registry_inv i" "all_evidence canonical_features i"
    using inv sound_canonical by (auto simp: lifetime_inv_def all_evidence_def)
  have "step i i'" using evaluates [of i q now] assms(2) by simp
  then have reach: "reachable p i'" using assms(1) unfolding reachable_def by (rule rtranclp.rtrancl_into_rtrancl [rotated])
  note dec = evaluate_decides [OF reg assms(2)]
  note kind = conjunct1 [OF dec]
    and sel = dec [THEN conjunct2, THEN conjunct2, THEN conjunct2, THEN conjunct1]
  have "\<exists>r sid s. record_at (i_world i) (EvidenceKey (cq_device q) (cq_capability q) sid) r
    \<and> d_selected d = Some (compute_digest (s_evidence r)) \<and> s_lifecycle r = LifecycleAdmitted \<and> device_current i (cq_device q)
    \<and> find_source (i_policy i) sid = Some s \<and> \<not> fenced_source (i_policy i) s \<and> boot_admissible i s (s_evidence r)
    \<and> fresh i s (s_evidence r) now (max_evidence_age q) \<and> requirement_met q (s_evidence r)" if compatible: "d_kind d = Compatible"
  proof -
    obtain r where r: "speaks_for q now i r" "requirement_met q (s_evidence r)" using kind compatible by blast
    then have live: "r \<in> set (dv_live (derive i (cq_device q) (cq_capability q) now (max_evidence_age q)))"
      by (simp add: speaks_for_def live_for_def)
    have "d_selected d = Some (stored_id r)" using sel r(1) by blast
    moreover obtain sid s where "record_at (i_world i) (EvidenceKey (cq_device q) (cq_capability q) sid) r"
        "stored_id r = compute_digest (s_evidence r)" "s_lifecycle r = LifecycleAdmitted" "device_current i (cq_device q)"
        "find_source (i_policy i) sid = Some s" "\<not> fenced_source (i_policy i) s" "boot_admissible i s (s_evidence r)"
        "fresh i s (s_evidence r) now (max_evidence_age q)"
      using reachable_live [OF inv live] by blast
    ultimately show ?thesis using r(2) by (intro exI [of _ r] exI [of _ sid] exI [of _ s]) simp
  qed
  then show ?thesis using reach by blast
qed

lemma sample_made:
  fixes e defines "e \<equiv> make_evidence lab (sample_request 1)"
  shows "e_generation e = 1" "e_boot_at_ingest e = 1" "e_observed_at e = 5" "e_valid_until e = None"
    "e_features e = e_features sample_evidence" "e_limits e = e_limits sample_evidence"
    "e_capability_version e = e_capability_version sample_evidence" "e_firmware_version e = None" "e_runtime_version e = None"
    "e_firmware_generation e = 0" "e_runtime_generation e = 0"
  by (simp_all add: e_def make_evidence_def refresh_id_def sample_request_def Registry_init_def sample_evidence_def)

lemma sample_first:
  assumes a: "admit (sample_request 1) 5 lab = (i', Success Ok out)" "ao_reason out = AcceptedNew"
  defines "R \<equiv> stored_as (make_evidence lab (sample_request 1)) LifecycleAdmitted AcceptedNew 5"
  shows "record_at (i_world i') k r \<longleftrightarrow> k = request_key (sample_request 1) \<and> r = R"
    and "r \<in> set (dv_live (derive i' (key_device sample_key) TlsRecordCrypto 5 0)) \<longleftrightarrow> r = R"
proof -
  note f = admit_accepted_facts [OF lab_facts(5) lab_collision_free a(1), unfolded a(2)]
  have one: "record_at (i_world i') (request_key (sample_request 1)) R" using conjunct1 [OF f] by (simp add: R_def)
  have all: "\<forall>k r. record_at (i_world i') k r \<longleftrightarrow> (record_at (i_world lab) k r \<or> k = request_key (sample_request 1) \<and> r = R)
      \<and> stored_id r \<notin> set (ao_evicted out)"
    using f unfolding R_def by simp
  show rec: "record_at (i_world i') k r \<longleftrightarrow> k = request_key (sample_request 1) \<and> r = R" for k r
    using one all by (auto simp: lab_facts)
  show "r \<in> set (dv_live (derive i' (key_device sample_key) TlsRecordCrypto 5 0)) \<longleftrightarrow> r = R"
  proof -
    have w: "world_wf (i_world i')"
      using admit_inv [OF lab_facts(5) lab_collision_free, of "sample_request 1" 5] a(1) by (simp add: registry_inv_def world_inv_def)
    have key: "request_key (sample_request 1) = EvidenceKey (key_device sample_key) TlsRecordCrypto ''fixture-sim''"
      by (simp add: request_key_def sample_request_def)
    obtain s where s: "find_stream (i_world i') (request_key (sample_request 1)) = Some s" "R \<in> set (st_records s)"
      using one by (auto simp: record_at_def)
    obtain j where j: "register_device (ar_device (sample_request 1)) lab = Inr j"
      by (simp add: register_device_def Let_def find_device_def lab_facts(8) lab_limits default_limits_def)
    have "stamps i' = stamps j"
      using admit_registered_stamps [of "sample_request 1" 5 j] a(1) sample_not_refused j by (simp add: admit_def)
    moreover have "i_incarnations j = [(dr_device (key_device sample_key), \<lparr>ie_device = dr_device (key_device sample_key), ie_current = 1, ie_history = [1]\<rparr>)]"
      using j by (auto simp: register_device_def Let_def find_device_def lab_facts(8) lab_limits default_limits_def sample_request_def
          raise_next_incarnation_def sample_key_def sample_evidence_def)
    ultimately have dev: "device_current i' (key_device sample_key)"
      by (simp add: device_current_def find_device_def stamps_def sample_key_def sample_evidence_def)
    have pol: "i_policy i' = i_policy lab" "i_boot_epoch i' = 1"
      using admit_stamps [of "sample_request 1" 5 lab] a(1) by (simp_all add: Registry_init_def)
    have gen: "st_max_generation s = 1" using f s(1) by (simp add: stream_at_def sample_request_def)
    have "s_evidence R = make_evidence lab (sample_request 1)" "s_lifecycle R = LifecycleAdmitted" by (simp_all add: R_def)
    moreover have "fenced_source (i_policy i') x = False" if "sp_trust x = Trusted" for x using that by (simp add: fenced_source_def)
    ultimately have "active_conditions i' R s (find_source (i_policy i') ''fixture-sim'') (key_device sample_key) 5 0"
      by (simp add: active_conditions_def gen dev pol lab_policy boot_admissible_def fresh_def sample_made)
        (simp add: sample_request_def)
    then have "active_in i' (key_device sample_key) TlsRecordCrypto 5 0 x \<longleftrightarrow> x = R" for x
      unfolding active_in_stream [OF w] using s rec [of _ x] key by (auto simp: record_at_def)
    then show ?thesis by (auto simp: live_iff)
  qed
qed

theorem compatible_is_backed_witness:
  "\<exists>i' d. evaluate (sample_requirement 7) 5 (fst (admit (sample_request 1) 5 lab)) = (i', d) \<and> d_kind d = Compatible
     \<and> d_selected d = Some (compute_digest (make_evidence lab (sample_request 1))) \<and> reachable make_lab_policy i'"
proof -
  let ?q = "sample_requirement 7"
  obtain i out where a: "admit (sample_request 1) 5 lab = (i, Success Ok out)" "ao_reason out = AcceptedNew"
    using sample_admitted by blast
  obtain i' d where e: "evaluate ?q 5 i = (i', d)" by fastforce
  define R where "R = stored_as (make_evidence lab (sample_request 1)) LifecycleAdmitted AcceptedNew 5"
  have reach: "reachable make_lab_policy i" using sample_reachable a by simp
  have inv: "lifetime_inv i" using reach by (rule lifetime_reachable)
  have reg: "registry_inv i" "all_evidence canonical_features i"
    using inv sound_canonical by (auto simp: lifetime_inv_def all_evidence_def)
  have q: "cq_device ?q = key_device sample_key" "cq_capability ?q = TlsRecordCrypto" "max_evidence_age ?q = 0"
    by (simp_all add: sample_requirement_def sample_key_def sample_evidence_def)
  have live: "live_for ?q 5 i = {R}" using sample_first(2) [OF a] by (auto simp: live_for_def q R_def)
  then have s: "speaks_for ?q 5 i R" by (simp add: speaks_for_def in_conflict_def)
  have ev: "s_evidence R = make_evidence lab (sample_request 1)" by (simp add: R_def)
  have "c_kind (compare_requirement ?q sample_evidence) = Compatible" "sorted (e_features sample_evidence)" by code_simp+
  then have "requirement_met ?q sample_evidence" using compare_requirement_spec by blast
  then have "requirement_met ?q (s_evidence R)" unfolding ev requirement_met_def limit_met_def sample_made
    by (simp add: sample_evidence_def)
  then have "d_kind d = Compatible" using conjunct1 [OF evaluate_decides [OF reg e]] s by blast
  moreover obtain r sid where "record_at (i_world i) (EvidenceKey (cq_device ?q) (cq_capability ?q) sid) r"
      "d_selected d = Some (compute_digest (s_evidence r))"
    using compatible_is_backed [OF reach e] calculation by blast
  moreover from this(1) have "r = R" using sample_first(1) [OF a] by (simp add: R_def)
  ultimately show ?thesis using compatible_is_backed [OF reach e] e a ev by simp
qed

end
