(* ===== verification/StoreFormat.thy ===== *)
theory StoreFormat
  imports StateCodec Derive
begin

text \<open>
  The on-disk formats of \<open>include/ocreg/persist.hpp\<close> and \<open>src/persist.cpp\<close>: the snapshot header, the journal
  frames and the scan that recovers what a journal holds.

  Offsets and lengths are naturals (\<open>std::size_t\<close> of data that is in memory); every field is a word of its width.
  Reading at an offset is only done where the source has checked the length first.
\<close>

section \<open>Constants and options\<close>

definition kSnapshotMagic :: u32 where "kSnapshotMagic = 0x4F435253"
definition kSnapshotFooterMagic :: u32 where "kSnapshotFooterMagic = 0x4F435246"
definition kJournalMagic :: u32 where "kJournalMagic = 0x4F434A52"
definition kSnapshotHeaderSize :: nat where "kSnapshotHeaderSize = 112"
definition kSnapshotFooterSize :: nat where "kSnapshotFooterSize = 32"
definition kJournalHeaderSize :: nat where "kJournalHeaderSize = 72"
definition kJournalTrailerSize :: nat where "kJournalTrailerSize = 8"

lemmas store_sizes = kSnapshotHeaderSize_def kSnapshotFooterSize_def kJournalHeaderSize_def kJournalTrailerSize_def

datatype JournalKind = JStateSnapshot | JAdmission | JRetirement | JSourcePolicyChange | JSourceRevocation
  | JRuleGenerationChange | JEpochAdvance | JConflictResolution | JDeviceIncarnation | JLimitChange

definition JournalKind_code :: "JournalKind \<Rightarrow> u16" where
  "JournalKind_code k = (case k of JStateSnapshot \<Rightarrow> 1 | JAdmission \<Rightarrow> 2 | JRetirement \<Rightarrow> 3 | JSourcePolicyChange \<Rightarrow> 4
     | JSourceRevocation \<Rightarrow> 5 | JRuleGenerationChange \<Rightarrow> 6 | JEpochAdvance \<Rightarrow> 7 | JConflictResolution \<Rightarrow> 8
     | JDeviceIncarnation \<Rightarrow> 9 | JLimitChange \<Rightarrow> 10)"

definition JournalKind_to_string :: "JournalKind \<Rightarrow> string" where
  "JournalKind_to_string k = (case k of JStateSnapshot \<Rightarrow> ''state_snapshot'' | JAdmission \<Rightarrow> ''admission''
     | JRetirement \<Rightarrow> ''retirement'' | JSourcePolicyChange \<Rightarrow> ''source_policy_change''
     | JSourceRevocation \<Rightarrow> ''source_revocation'' | JRuleGenerationChange \<Rightarrow> ''rule_generation_change''
     | JEpochAdvance \<Rightarrow> ''epoch_advance'' | JConflictResolution \<Rightarrow> ''conflict_resolution''
     | JDeviceIncarnation \<Rightarrow> ''device_incarnation'' | JLimitChange \<Rightarrow> ''limit_change'')"

text \<open>\<open>static_cast<JournalKind>\<close> of a code already known to be in range.\<close>

definition journal_kind_of :: "u16 \<Rightarrow> JournalKind" where
  "journal_kind_of c = (if c = 1 then JStateSnapshot else if c = 2 then JAdmission else if c = 3 then JRetirement
     else if c = 4 then JSourcePolicyChange else if c = 5 then JSourceRevocation else if c = 6 then JRuleGenerationChange
     else if c = 7 then JEpochAdvance else if c = 8 then JConflictResolution else if c = 9 then JDeviceIncarnation
     else JLimitChange)"

record StoreLimits =
  max_snapshot_bytes :: nat
  max_journal_entry_bytes :: nat
  max_journal_bytes :: nat
  max_journal_entries :: nat
  max_replay_entries :: nat

definition default_store_limits :: StoreLimits where
  "default_store_limits = \<lparr>max_snapshot_bytes = 64 * 1024 * 1024, max_journal_entry_bytes = 1024 * 1024,
     max_journal_bytes = 16 * 1024 * 1024, max_journal_entries = 65536, max_replay_entries = 65536\<rparr>"

section \<open>Fixed-width fields\<close>

definition get_u16 :: "bytes \<Rightarrow> nat \<Rightarrow> u16" where "get_u16 data off = be_word (take 2 (drop off data))"
definition get_u32 :: "bytes \<Rightarrow> nat \<Rightarrow> u32" where "get_u32 data off = be_word (take 4 (drop off data))"
definition get_u64 :: "bytes \<Rightarrow> nat \<Rightarrow> u64" where "get_u64 data off = be_word (take 8 (drop off data))"

definition ReasonCategory_code :: "ReasonCategory \<Rightarrow> u8" where
  "ReasonCategory_code c = (case c of Acceptance \<Rightarrow> 0 | Idempotent \<Rightarrow> 1 | Rejection \<Rightarrow> 2 | UnknownCategory \<Rightarrow> 3 | ReasonCategory.Incompatible \<Rightarrow> 4
     | Conflict \<Rightarrow> 5 | Persistence \<Rightarrow> 6 | Recovery \<Rightarrow> 7 | Accounting \<Rightarrow> 8 | Transport \<Rightarrow> 9 | Cancellation \<Rightarrow> 10)"

definition reason_table_fingerprint :: u32 where
  "reason_table_fingerprint =
     (let h = foldl (\<lambda>h e. Sha256_update_byte (Sha256_update_byte (Sha256_update_bytes (Sha256_update_u16 h (te_code e))
                (str_bytes (canonical_spelling (te_identifier e)))) (ReasonCategory_code (te_category e)))
                (if te_failure e then 1 else 0)) Sha256_init reason_table;
          bytes = fst (Sha256_finish h)
      in push_bit 24 (ucast (bytes ! 0)) OR push_bit 16 (ucast (bytes ! 1)) OR push_bit 8 (ucast (bytes ! 2)) OR ucast (bytes ! 3))"

section \<open>Snapshot headers\<close>

record SnapshotHeader =
  sh_format_version :: u32
  sh_header_size :: u32
  sh_flags :: u32
  sh_api_generation :: u32
  sh_catalog_fingerprint :: u32
  sh_reason_fingerprint :: u32
  sh_payload_len :: u64
  sh_created_at :: u64
  sh_store_generation :: u64
  sh_registry_epoch :: u64
  sh_rule_generation :: u64
  sh_boot_epoch :: u64
  sh_payload_digest :: Digest256

definition header_prefix :: "SnapshotHeader \<Rightarrow> bytes" where
  "header_prefix h = w_u32 kSnapshotMagic @ w_u32 (sh_format_version h) @ w_u32 (sh_header_size h) @ w_u32 (sh_flags h)
     @ w_u32 (sh_api_generation h) @ w_u32 (sh_catalog_fingerprint h) @ w_u32 (sh_reason_fingerprint h)
     @ w_u64 (sh_payload_len h) @ w_u64 (sh_created_at h) @ w_u64 (sh_store_generation h) @ w_u64 (sh_registry_epoch h)
     @ w_u64 (sh_rule_generation h) @ w_u64 (sh_boot_epoch h) @ w_digest (sh_payload_digest h)"

definition serialize_header :: "SnapshotHeader \<Rightarrow> bytes" where
  "serialize_header h = header_prefix h @ w_u32 (crc32c (header_prefix h))"

definition parse_header :: "bytes \<Rightarrow> ReasonCode + SnapshotHeader" where
  "parse_header data =
     (if length data < kSnapshotHeaderSize then Inl StoreHeaderCorrupt
      else if get_u32 data 0 \<noteq> kSnapshotMagic then Inl StoreHeaderCorrupt
      else if crc32c (take (kSnapshotHeaderSize - 4) data) \<noteq> get_u32 data (kSnapshotHeaderSize - 4) then Inl StoreHeaderCorrupt
      else if get_u32 data 4 \<noteq> kStoreFormatVersion then Inl StoreVersionIncompatible
      else if get_u32 data 8 \<noteq> of_nat kSnapshotHeaderSize then Inl StoreHeaderCorrupt
      else if get_u32 data 12 \<noteq> 0 then Inl StoreSemanticMismatch
      else if get_u32 data 16 \<noteq> ucast kApiGeneration then Inl StoreVersionIncompatible
      else if get_u32 data 20 \<noteq> catalog_fingerprint then Inl StoreSemanticMismatch
      else if get_u32 data 24 \<noteq> reason_table_fingerprint then Inl StoreSemanticMismatch
      else Inr \<lparr>sh_format_version = get_u32 data 4, sh_header_size = get_u32 data 8, sh_flags = get_u32 data 12,
        sh_api_generation = get_u32 data 16, sh_catalog_fingerprint = get_u32 data 20, sh_reason_fingerprint = get_u32 data 24,
        sh_payload_len = get_u64 data 28, sh_created_at = get_u64 data 36, sh_store_generation = get_u64 data 44,
        sh_registry_epoch = get_u64 data 52, sh_rule_generation = get_u64 data 60, sh_boot_epoch = get_u64 data 68,
        sh_payload_digest = take kDigestBytes (drop 76 data)\<rparr>)"

section \<open>Journal frames\<close>

record JournalHeader =
  jh_format_version :: u16
  jh_kind :: JournalKind
  jh_sequence :: u64
  jh_created_at :: u64
  jh_store_generation :: u64
  jh_payload_len :: u32
  jh_payload_digest :: Digest256

definition journal_prefix :: "JournalHeader \<Rightarrow> bytes" where
  "journal_prefix h = w_u32 kJournalMagic @ w_u16 (jh_format_version h) @ w_u16 (JournalKind_code (jh_kind h))
     @ w_u64 (jh_sequence h) @ w_u64 (jh_created_at h) @ w_u64 (jh_store_generation h) @ w_u32 (jh_payload_len h)
     @ w_digest (jh_payload_digest h)"

definition serialize_journal_header :: "JournalHeader \<Rightarrow> bytes" where
  "serialize_journal_header h = journal_prefix h @ w_u32 (crc32c (journal_prefix h))"

definition parse_journal_header :: "bytes \<Rightarrow> ReasonCode + JournalHeader" where
  "parse_journal_header data =
     (if get_u32 data 0 \<noteq> kJournalMagic then Inl StoreJournalCorrupt
      else if crc32c (take (kJournalHeaderSize - 4) data) \<noteq> get_u32 data (kJournalHeaderSize - 4) then Inl StoreJournalCorrupt
      else if get_u16 data 4 \<noteq> ucast kStoreFormatVersion then Inl StoreVersionIncompatible
      else if get_u16 data 6 < 1 \<or> get_u16 data 6 > JournalKind_code JLimitChange then Inl StoreJournalCorrupt
      else Inr \<lparr>jh_format_version = get_u16 data 4, jh_kind = journal_kind_of (get_u16 data 6), jh_sequence = get_u64 data 8,
        jh_created_at = get_u64 data 16, jh_store_generation = get_u64 data 24, jh_payload_len = get_u32 data 32,
        jh_payload_digest = take kDigestBytes (drop 36 data)\<rparr>)"

section \<open>Scanning a journal\<close>

record JournalScan =
  valid_bytes :: nat
  entries_seen :: nat
  entries_valid :: nat
  entries_dropped :: nat
  scan_bytes_discarded :: nat
  truncated_tail :: bool
  corrupt :: bool
  scan_reason :: ReasonCode
  last_snapshot_payload :: bytes
  last_snapshot_generation :: u64
  scan_notes :: "ReasonCode list"

definition fresh_scan :: JournalScan where
  "fresh_scan = \<lparr>valid_bytes = 0, entries_seen = 0, entries_valid = 0, entries_dropped = 0, scan_bytes_discarded = 0,
     truncated_tail = False, corrupt = False, scan_reason = Ok, last_snapshot_payload = [], last_snapshot_generation = 0,
     scan_notes = []\<rparr>"

definition torn :: "nat \<Rightarrow> JournalScan \<Rightarrow> JournalScan" where
  "torn remaining scan = scan\<lparr>truncated_tail := True, scan_bytes_discarded := scan_bytes_discarded scan + remaining\<rparr>"

definition broken :: "ReasonCode \<Rightarrow> nat \<Rightarrow> JournalScan \<Rightarrow> JournalScan" where
  "broken reason remaining scan = scan\<lparr>corrupt := True, scan_reason := reason,
     scan_bytes_discarded := scan_bytes_discarded scan + remaining\<rparr>"

definition applied :: "JournalHeader \<Rightarrow> bytes \<Rightarrow> nat \<Rightarrow> JournalScan \<Rightarrow> JournalScan" where
  "applied h payload position scan =
     (let scan = scan\<lparr>entries_valid := entries_valid scan + 1\<rparr>;
          scan = (if jh_kind h = JStateSnapshot \<and> jh_store_generation h \<ge> last_snapshot_generation scan
                  then scan\<lparr>last_snapshot_generation := jh_store_generation h, last_snapshot_payload := payload\<rparr> else scan)
      in scan\<lparr>valid_bytes := position\<rparr>)"

definition frame_total :: "JournalHeader \<Rightarrow> nat" where
  "frame_total h = kJournalHeaderSize + unat (jh_payload_len h) + kJournalTrailerSize"

text \<open>The loop; \<open>rest\<close> is the data from \<open>position\<close> on.\<close>

function scan_loop :: "StoreLimits \<Rightarrow> nat \<Rightarrow> bytes \<Rightarrow> u64 \<Rightarrow> u64 \<Rightarrow> JournalScan \<Rightarrow> JournalScan" where
  "scan_loop limits position rest previous_sequence previous_generation scan =
     (if rest = [] then scan
      else if length rest < kJournalHeaderSize then torn (length rest) scan
      else (case parse_journal_header rest of Inl reason \<Rightarrow> broken reason (length rest) scan
        | Inr h \<Rightarrow>
            let scan = scan\<lparr>entries_seen := entries_seen scan + 1\<rparr>;
                payload = take (unat (jh_payload_len h)) (drop kJournalHeaderSize rest);
                next = scan_loop limits (position + frame_total h) (drop (frame_total h) rest)
            in if unat (jh_payload_len h) > max_journal_entry_bytes limits then broken StoreOversized (length rest) scan
               else if length rest < frame_total h then torn (length rest) scan
               else if crc32c payload \<noteq> get_u32 rest (kJournalHeaderSize + unat (jh_payload_len h))
                 then broken StorePayloadCorrupt (length rest) scan
               else if Digest256_of payload \<noteq> jh_payload_digest h then broken StorePayloadCorrupt (length rest) scan
               else if jh_sequence h \<le> previous_sequence \<and> entries_valid scan > 0
                 then next previous_sequence previous_generation (scan\<lparr>scan_notes := scan_notes scan @ [ProtocolSequenceViolation]\<rparr>)
               else if jh_store_generation h < previous_generation
                 then next previous_sequence previous_generation (scan\<lparr>scan_notes := scan_notes scan @ [StoreGenerationReplay]\<rparr>)
               else next (jh_sequence h) (jh_store_generation h) (applied h payload (position + frame_total h) scan)))"
  by pat_completeness auto

termination
  by (relation "measure (\<lambda>(limits, position, rest, ps, pg, scan). length rest)") (auto simp: frame_total_def kJournalTrailerSize_def)

declare scan_loop.simps [simp del]

definition scan_journal :: "bytes \<Rightarrow> StoreLimits \<Rightarrow> JournalScan" where
  "scan_journal data limits =
     (let scan = scan_loop limits 0 data 0 0 fresh_scan;
          scan = scan\<lparr>entries_dropped := entries_seen scan - entries_valid scan\<rparr>
      in if \<not> corrupt scan \<and> \<not> truncated_tail scan then scan\<lparr>scan_reason := RecoveryCleanOpen\<rparr> else scan)"

section \<open>Headers read back\<close>

lemma length_fields [simp]: "length (w_u8 a) = 1" "length (w_u16 b) = 2" "length (w_u32 c) = 4" "length (w_u64 d) = 8" "length (w_digest e) = length e"
  by (simp_all add: w_u8_def w_u16_def w_u32_def w_u64_def w_digest_def)

lemma length_Digest256_of [simp]: "length (Digest256_of data) = kDigestBytes"
  by (simp add: Digest256_of_def kDigestBytes_def)

text \<open>A field at an offset is the field that was written there.\<close>

lemma get_field:
  "length p = off \<Longrightarrow> get_u16 (p @ w_u16 a @ r) off = a" "length p = off \<Longrightarrow> get_u32 (p @ w_u32 b @ r) off = b"
  "length p = off \<Longrightarrow> get_u64 (p @ w_u64 c @ r) off = c" "length p = off \<Longrightarrow> get_u32 (p @ w_u32 b) off = b"
  by (simp_all add: get_u16_def get_u32_def get_u64_def w_u16_def w_u32_def w_u64_def)

lemma length_header_prefix: "length (sh_payload_digest h) = kDigestBytes \<Longrightarrow> length (header_prefix h) = 108"
  by (simp add: header_prefix_def kDigestBytes_def)

lemma length_journal_prefix: "length (jh_payload_digest h) = kDigestBytes \<Longrightarrow> length (journal_prefix h) = 68"
  by (simp add: journal_prefix_def kDigestBytes_def)

definition header_ok :: "SnapshotHeader \<Rightarrow> bool" where
  "header_ok h \<longleftrightarrow> sh_format_version h = kStoreFormatVersion \<and> sh_header_size h = of_nat kSnapshotHeaderSize \<and> sh_flags h = 0
     \<and> sh_api_generation h = ucast kApiGeneration \<and> sh_catalog_fingerprint h = catalog_fingerprint
     \<and> sh_reason_fingerprint h = reason_table_fingerprint \<and> length (sh_payload_digest h) = kDigestBytes"

definition journal_header_ok :: "JournalHeader \<Rightarrow> bool" where
  "journal_header_ok h \<longleftrightarrow> jh_format_version h = ucast kStoreFormatVersion \<and> length (jh_payload_digest h) = kDigestBytes"

lemma header_fields:
  assumes "length (sh_payload_digest h) = kDigestBytes"
  shows "get_u32 (header_prefix h @ r) 0 = kSnapshotMagic" "get_u32 (header_prefix h @ r) 4 = sh_format_version h"
    "get_u32 (header_prefix h @ r) 8 = sh_header_size h" "get_u32 (header_prefix h @ r) 12 = sh_flags h"
    "get_u32 (header_prefix h @ r) 16 = sh_api_generation h" "get_u32 (header_prefix h @ r) 20 = sh_catalog_fingerprint h"
    "get_u32 (header_prefix h @ r) 24 = sh_reason_fingerprint h" "get_u64 (header_prefix h @ r) 28 = sh_payload_len h"
    "get_u64 (header_prefix h @ r) 36 = sh_created_at h" "get_u64 (header_prefix h @ r) 44 = sh_store_generation h"
    "get_u64 (header_prefix h @ r) 52 = sh_registry_epoch h" "get_u64 (header_prefix h @ r) 60 = sh_rule_generation h"
    "get_u64 (header_prefix h @ r) 68 = sh_boot_epoch h" "take kDigestBytes (drop 76 (header_prefix h @ r)) = sh_payload_digest h"
  using assms by (simp_all add: header_prefix_def get_u32_def get_u64_def w_u32_def w_u64_def w_digest_def)

lemma journal_fields:
  assumes "length (jh_payload_digest h) = kDigestBytes"
  shows "get_u32 (journal_prefix h @ r) 0 = kJournalMagic" "get_u16 (journal_prefix h @ r) 4 = jh_format_version h"
    "get_u16 (journal_prefix h @ r) 6 = JournalKind_code (jh_kind h)" "get_u64 (journal_prefix h @ r) 8 = jh_sequence h"
    "get_u64 (journal_prefix h @ r) 16 = jh_created_at h" "get_u64 (journal_prefix h @ r) 24 = jh_store_generation h"
    "get_u32 (journal_prefix h @ r) 32 = jh_payload_len h" "take kDigestBytes (drop 36 (journal_prefix h @ r)) = jh_payload_digest h"
  using assms by (simp_all add: journal_prefix_def get_u16_def get_u32_def get_u64_def w_u16_def w_u32_def w_u64_def w_digest_def)

lemma parse_serialize_header:
  assumes "header_ok h"
  shows "parse_header (serialize_header h @ rest) = Inr h"
proof -
  have len: "length (sh_payload_digest h) = kDigestBytes" using assms by (simp add: header_ok_def)
  note f = header_fields [OF len, of "w_u32 (crc32c (header_prefix h)) @ rest"]
  have crc: "get_u32 (header_prefix h @ w_u32 (crc32c (header_prefix h)) @ rest) 108 = crc32c (header_prefix h)"
    by (rule get_field) (rule length_header_prefix [OF len])
  show ?thesis
    using assms length_header_prefix [OF len] f crc by (simp add: parse_header_def serialize_header_def store_sizes header_ok_def)
qed

lemma journal_kind_of_code: "journal_kind_of (JournalKind_code k) = k" "JournalKind_code k \<noteq> 0" "JournalKind_code k \<le> JournalKind_code JLimitChange"
  by (cases k; simp add: journal_kind_of_def JournalKind_code_def)+

lemma parse_serialize_journal_header:
  assumes "journal_header_ok h"
  shows "parse_journal_header (serialize_journal_header h @ rest) = Inr h"
proof -
  have len: "length (jh_payload_digest h) = kDigestBytes" using assms by (simp add: journal_header_ok_def)
  note f = journal_fields [OF len, of "w_u32 (crc32c (journal_prefix h)) @ rest"]
  have crc: "get_u32 (journal_prefix h @ w_u32 (crc32c (journal_prefix h)) @ rest) 68 = crc32c (journal_prefix h)"
    by (rule get_field) (rule length_journal_prefix [OF len])
  show ?thesis
    using assms length_journal_prefix [OF len] f crc journal_kind_of_code [of "jh_kind h"]
    by (simp add: parse_journal_header_def serialize_journal_header_def store_sizes journal_header_ok_def not_less)
qed

section \<open>What a journal says\<close>

text \<open>A committed entry and the bytes \<open>append\<close> writes for it.\<close>

record JournalEntry =
  en_kind :: JournalKind
  en_sequence :: u64
  en_created_at :: u64
  en_generation :: u64
  en_payload :: bytes

definition entry_header :: "JournalEntry \<Rightarrow> JournalHeader" where
  "entry_header e = \<lparr>jh_format_version = ucast kStoreFormatVersion, jh_kind = en_kind e, jh_sequence = en_sequence e,
     jh_created_at = en_created_at e, jh_store_generation = en_generation e, jh_payload_len = of_nat (length (en_payload e)),
     jh_payload_digest = Digest256_of (en_payload e)\<rparr>"

definition frame :: "JournalEntry \<Rightarrow> bytes" where
  "frame e = serialize_journal_header (entry_header e) @ en_payload e @ w_u32 (crc32c (en_payload e)) @ w_u32 0"

definition entry_fits :: "StoreLimits \<Rightarrow> JournalEntry \<Rightarrow> bool" where
  "entry_fits limits e \<longleftrightarrow> length (en_payload e) \<le> max_journal_entry_bytes limits \<and> length (en_payload e) < 2 ^ 32"

lemma entry_header_ok [simp]: "journal_header_ok (entry_header e)"
  by (simp add: journal_header_ok_def entry_header_def)

lemma length_journal_header [simp]: "length (serialize_journal_header (entry_header e)) = 72"
  by (simp add: serialize_journal_header_def length_journal_prefix entry_header_def)

lemma length_frame [simp]: "length (frame e) = 80 + length (en_payload e)"
  by (simp add: frame_def)

lemma frame_not_Nil [simp]: "frame e \<noteq> []"
  by (metis length_frame add_is_0 list.size(3) zero_neq_numeral)

lemma frame_total_entry: "entry_fits limits e \<Longrightarrow> frame_total (entry_header e) = length (frame e)"
  by (simp add: frame_total_def store_sizes entry_header_def entry_fits_def unat_of_nat)

lemma payload_len_entry: "entry_fits limits e \<Longrightarrow> unat (jh_payload_len (entry_header e)) = length (en_payload e)"
  by (simp add: entry_header_def entry_fits_def unat_of_nat)

definition seen :: "JournalScan \<Rightarrow> JournalScan" where
  "seen scan = scan\<lparr>entries_seen := entries_seen scan + 1\<rparr>"

text \<open>One whole frame at the front of the data.\<close>

lemma scan_frame:
  assumes fits: "entry_fits limits e"
  shows "scan_loop limits pos (frame e @ rest) ps pg scan =
    (if en_sequence e \<le> ps \<and> entries_valid scan > 0
     then scan_loop limits (pos + length (frame e)) rest ps pg ((seen scan)\<lparr>scan_notes := scan_notes scan @ [ProtocolSequenceViolation]\<rparr>)
     else if en_generation e < pg
     then scan_loop limits (pos + length (frame e)) rest ps pg ((seen scan)\<lparr>scan_notes := scan_notes scan @ [StoreGenerationReplay]\<rparr>)
     else scan_loop limits (pos + length (frame e)) rest (en_sequence e) (en_generation e)
       (applied (entry_header e) (en_payload e) (pos + length (frame e)) (seen scan)))"
proof -
  let ?data = "frame e @ rest"
  have ne: "?data \<noteq> []" using frame_not_Nil by simp
  have parse: "parse_journal_header ?data = Inr (entry_header e)"
    by (simp add: frame_def parse_serialize_journal_header)
  note len = payload_len_entry [OF fits] and tot = frame_total_entry [OF fits]
  have pay: "take (length (en_payload e)) (drop 72 ?data) = en_payload e" by (simp add: frame_def)
  have crc: "get_u32 ?data (72 + length (en_payload e)) = crc32c (en_payload e)"
    by (simp add: frame_def get_u32_def w_u32_def)
  have small: "length (en_payload e) \<le> max_journal_entry_bytes limits" using fits by (simp add: entry_fits_def)
  have dig: "jh_payload_digest (entry_header e) = Digest256_of (en_payload e)" "jh_sequence (entry_header e) = en_sequence e"
    "jh_store_generation (entry_header e) = en_generation e" by (simp_all add: entry_header_def)
  have d: "drop (length (frame e)) ?data = rest" "\<not> length ?data < 72" "\<not> length ?data < length (frame e)" by simp_all
  show ?thesis
    by (subst scan_loop.simps) (simp add: parse len tot pay crc leD [OF small] dig ne d store_sizes Let_def seen_def
      del: drop_append take_append length_frame length_append append_is_Nil_conv)
qed

text \<open>A frame cut short anywhere before its end.\<close>

lemma scan_torn_frame:
  assumes fits: "entry_fits limits e" and n: "0 < n" "n < length (frame e)"
  shows "scan_loop limits pos (take n (frame e)) ps pg scan = torn n (if n < kJournalHeaderSize then scan else seen scan)"
proof (cases "n < kJournalHeaderSize")
  case True
  have ne: "take n (frame e) \<noteq> []" using n by simp
  have "length (take n (frame e)) = n" using n(2) by simp
  then show ?thesis using True ne by (subst scan_loop.simps) simp
next
  case False
  then obtain m where m: "take n (frame e) = serialize_journal_header (entry_header e) @ m"
    by (simp add: frame_def store_sizes)
  have parse: "parse_journal_header (take n (frame e)) = Inr (entry_header e)"
    by (simp add: m parse_serialize_journal_header)
  note len = payload_len_entry [OF fits] and tot = frame_total_entry [OF fits]
  have small: "length (en_payload e) \<le> max_journal_entry_bytes limits" using fits by (simp add: entry_fits_def)
  have l: "length (take n (frame e)) = n" using n(2) by simp
  have ne: "take n (frame e) \<noteq> []" using n l by auto
  show ?thesis using False n by (subst scan_loop.simps) (simp add: parse len tot leD [OF small] l ne seen_def Let_def not_less)
qed

text \<open>A journal as one binding of the store writes it: sequences ascend, generations never fall.\<close>

definition journal_of :: "JournalEntry list \<Rightarrow> bytes" where
  "journal_of es = concat (map frame es)"

lemma journal_of_simps [simp]: "journal_of [] = []" "journal_of (es @ fs) = journal_of es @ journal_of fs"
  by (simp_all add: journal_of_def)

lemma journal_of_Cons: "journal_of (e # es) = frame e @ journal_of es"
  by (simp add: journal_of_def)

fun ascending :: "u64 \<Rightarrow> u64 \<Rightarrow> JournalEntry list \<Rightarrow> bool" where
  "ascending ps pg [] = True"
| "ascending ps pg (e # es) = (ps < en_sequence e \<and> pg \<le> en_generation e \<and> ascending (en_sequence e) (en_generation e) es)"

definition last_sequence :: "u64 \<Rightarrow> JournalEntry list \<Rightarrow> u64" where
  "last_sequence ps es = (if es = [] then ps else en_sequence (last es))"

definition last_generation :: "u64 \<Rightarrow> JournalEntry list \<Rightarrow> u64" where
  "last_generation pg es = (if es = [] then pg else en_generation (last es))"

fun replayed :: "nat \<Rightarrow> JournalEntry list \<Rightarrow> JournalScan \<Rightarrow> JournalScan" where
  "replayed pos [] scan = scan"
| "replayed pos (e # es) scan =
     replayed (pos + length (frame e)) es (applied (entry_header e) (en_payload e) (pos + length (frame e)) (seen scan))"

lemma scan_journal_of:
  assumes "list_all (entry_fits limits) es" "ascending ps pg es"
  shows "scan_loop limits pos (journal_of es @ rest) ps pg scan =
    scan_loop limits (pos + length (journal_of es)) rest (last_sequence ps es) (last_generation pg es) (replayed pos es scan)"
  using assms
proof (induction es arbitrary: pos ps pg scan)
  case (Cons e es)
  then have e: "entry_fits limits e" "ps < en_sequence e" "pg \<le> en_generation e" "ascending (en_sequence e) (en_generation e) es"
    "list_all (entry_fits limits) es" by simp_all
  have ns: "\<not> en_sequence e \<le> ps" "\<not> en_generation e < pg" using e(2,3) by (simp_all add: not_le not_less)
  have "scan_loop limits pos (journal_of (e # es) @ rest) ps pg scan =
    scan_loop limits (pos + length (frame e)) (journal_of es @ rest) (en_sequence e) (en_generation e)
       (applied (entry_header e) (en_payload e) (pos + length (frame e)) (seen scan))"
    by (simp add: journal_of_Cons scan_frame [OF e(1)] ns del: length_frame)
  also have "\<dots> = scan_loop limits (pos + length (journal_of (e # es))) rest (last_sequence (en_sequence e) es)
      (last_generation (en_generation e) es) (replayed pos (e # es) scan)"
    using Cons.IH [OF e(5,4)] by (simp add: journal_of_Cons add.assoc)
  finally show ?case by (simp add: last_sequence_def last_generation_def)
qed (simp add: journal_of_def last_sequence_def last_generation_def)

end
