(* ===== verification/Store.thy ===== *)
theory Store
  imports StoreFormat Restart
begin

text \<open>
  The store of \<open>src/persist.cpp\<close>: opening, binding, snapshots, journal appends, commits and compaction.

  The three files of a store are the fields of a \<open>Disk\<close>. What the operating system may refuse is a parameter of each
  operation, the record \<open>Io\<close>: it says which calls of that operation fail and how many bytes a failed write left behind,
  so a crash in the middle of an operation is an \<open>Io\<close> whose writes stop early. Byte and entry counts are naturals
  (sizes of files that exist); the sequence number keeps its 64 bits.
\<close>

section \<open>Files and faults\<close>

record Disk =
  dk_snapshot :: "bytes option"
  dk_journal :: "bytes option"
  dk_temp :: "bytes option"

datatype ReadFault = SizeUnavailable | OpenFails | ShortRead

text \<open>
  \<open>ShortWrite n\<close>: \<open>fwrite\<close> reports a short count. \<open>SyncFails n\<close>: the buffered write is accepted, and the flush or
  \<open>fsync\<close> fails, which only a caller that synchronises notices. In both cases the first \<open>n\<close> bytes reach the file.
\<close>

datatype WriteFault = CannotOpen | ShortWrite nat | SyncFails nat

record Io =
  io_stat_snapshot :: bool
  io_stat_journal :: bool
  io_stat_temp :: bool
  io_remove_temp :: bool
  io_read_snapshot :: "ReadFault option"
  io_read_journal :: "ReadFault option"
  io_resize_journal :: bool
  io_create_journal :: bool
  io_write_temp :: "WriteFault option"
  io_rename :: bool
  io_remove_snapshot :: bool
  io_rename_again :: bool
  io_append :: "WriteFault option"

definition no_faults :: Io where
  "no_faults = \<lparr>io_stat_snapshot = True, io_stat_journal = True, io_stat_temp = True, io_remove_temp = True,
     io_read_snapshot = None, io_read_journal = None, io_resize_journal = True, io_create_journal = True,
     io_write_temp = None, io_rename = True, io_remove_snapshot = True, io_rename_again = True, io_append = None\<rparr>"

definition journal_path :: "string \<Rightarrow> string" where "journal_path base = base @ ''.ocregjournal''"
definition temp_path :: "string \<Rightarrow> string" where "temp_path base = base @ ''.ocregtmp''"

definition read_whole_file :: "ReadFault option \<Rightarrow> string \<Rightarrow> bytes \<Rightarrow> nat \<Rightarrow> bytes outcome" where
  "read_whole_file fault path contents max_bytes =
     (if fault = Some SizeUnavailable then Failure StoreReadFailed ''file size unavailable''
      else if length contents > max_bytes then Failure StoreOversized ''file exceeds the configured bound''
      else if fault = Some OpenFails then Failure StoreReadFailed path
      else if contents \<noteq> [] \<and> fault = Some ShortRead then Failure StoreReadFailed ''short read''
      else Success Ok contents)"

text \<open>Opening a file with what it keeps (\<open>base\<close>: nothing for \<open>wb\<close>, the old contents for \<open>ab\<close>), \<open>write_all\<close> and \<open>sync\<close>.\<close>

definition write_file :: "WriteFault option \<Rightarrow> string \<Rightarrow> string \<Rightarrow> string \<Rightarrow> bool \<Rightarrow> bytes option \<Rightarrow> bytes \<Rightarrow> bytes
    \<Rightarrow> (ReasonCode \<times> string) option \<times> bytes option" where
  "write_file fault path write_failed sync_failed sync old base data =
     (case fault of None \<Rightarrow> (None, Some (base @ data))
      | Some CannotOpen \<Rightarrow> (Some (StoreReadFailed, path), old)
      | Some (ShortWrite n) \<Rightarrow> (Some (StoreWriteFailed, write_failed), Some (base @ take n data))
      | Some (SyncFails n) \<Rightarrow> (if sync then Some (StoreSyncFailed, sync_failed) else None, Some (base @ take n data)))"

record StoreOptions =
  base_path :: string
  so_limits :: StoreLimits
  sync_on_commit :: bool
  compact_after_entries :: nat

definition default_store_options :: "string \<Rightarrow> StoreOptions" where
  "default_store_options base = \<lparr>base_path = base, so_limits = default_store_limits, sync_on_commit = True, compact_after_entries = 4096\<rparr>"

record CommitToken =
  ct_generation :: StoreGeneration
  ct_sequence :: u64
  ct_bytes :: nat
  ct_payload_digest :: Digest256
  ct_synchronised :: bool

record OpenReport =
  or_reason :: ReasonCode
  or_existed :: bool
  or_snapshot_present :: bool
  or_journal_present :: bool
  or_snapshot_bytes :: nat
  or_journal_bytes :: nat
  or_bytes_discarded :: nat
  or_journal_entries_scanned :: nat
  or_journal_entries_valid :: nat
  or_journal_entries_dropped :: nat
  or_stale_temp_removed :: bool
  or_classification :: RecoveryClass
  or_state :: RegistryState

record StoreImpl =
  si_options :: StoreOptions
  si_sequence :: u64
  si_entry_count :: nat
  si_journal_size :: nat
  si_written :: nat
  si_generation :: StoreGeneration

definition default_policy :: RegistryPolicy where
  "default_policy = \<lparr>p_sources = [], p_require_configured_source = True, p_refuse_untrusted_sources = True,
     p_boot_policy = ConservativeFence, p_clock_mode = Manual, p_retention_horizon = 0, p_max_future_skew = 0,
     p_default_max_age = 0, p_limits = default_limits, p_rule_generation = 1, p_policy_name = []\<rparr>"

definition default_state :: RegistryState where
  "default_state = \<lparr>rs_policy = default_policy, rs_epoch = 0, rs_rule_generation = 0, rs_policy_revision = 0,
     rs_boot_epoch = 0, rs_store_generation = 0, rs_logical_tick = 0, rs_next_incarnation = 1,
     rs_incarnations = [], rs_records = [], rs_tombstones = [], rs_conflicts = [], rs_resolutions = [],
     rs_evictions = [], rs_counters = zero_counters\<rparr>"

definition default_report :: OpenReport where
  "default_report = \<lparr>or_reason = StoreEmptyNew, or_existed = False, or_snapshot_present = False, or_journal_present = False,
     or_snapshot_bytes = 0, or_journal_bytes = 0, or_bytes_discarded = 0, or_journal_entries_scanned = 0,
     or_journal_entries_valid = 0, or_journal_entries_dropped = 0, or_stale_temp_removed = False,
     or_classification = CleanOpen, or_state = default_state\<rparr>"

section \<open>Opening\<close>

text \<open>The payload of a snapshot or of a journal entry, decoded by a \<open>Reader\<close> that must end up at its end.\<close>

definition decode_payload :: "bytes \<Rightarrow> string \<Rightarrow> string \<Rightarrow> RegistryState outcome" where
  "decode_payload payload rejected trailing =
     (case decode_state payload of Inl reason \<Rightarrow> Failure reason rejected
      | Inr (decoded, rest) \<Rightarrow> if rest \<noteq> [] then Failure StoreSemanticMismatch trailing else Success Ok decoded)"

definition check_snapshot :: "bytes \<Rightarrow> RegistryState outcome" where
  "check_snapshot data =
     (case parse_header data of Inl reason \<Rightarrow> Failure reason ''snapshot header rejected''
      | Inr header \<Rightarrow>
         if length data < kSnapshotHeaderSize + kSnapshotFooterSize
           then Failure StoreTornTail ''snapshot is shorter than header plus footer''
         else if sh_payload_len header \<noteq> of_nat (length data) - of_nat kSnapshotHeaderSize - of_nat kSnapshotFooterSize
           then Failure StoreTornTail ''snapshot payload length disagrees with size''
         else
          (let footer_offset = kSnapshotHeaderSize + unat (sh_payload_len header) in
           if length data < footer_offset + kSnapshotFooterSize then Failure StoreFooterMissing ''snapshot footer is absent''
           else if get_u32 data footer_offset \<noteq> kSnapshotFooterMagic then Failure StoreFooterMissing ''snapshot footer magic mismatch''
           else if crc32c (take 24 (drop footer_offset data)) \<noteq> get_u32 data (footer_offset + 24)
             then Failure StorePayloadCorrupt ''snapshot footer checksum mismatch''
           else if get_u32 data (footer_offset + 28) \<noteq> 0 then Failure StoreSemanticMismatch ''snapshot footer reserved field set''
           else if get_u64 data (footer_offset + 4) \<noteq> sh_payload_len header
             then Failure StoreTornTail ''snapshot footer length mismatch''
           else
            (let payload = take (unat (sh_payload_len header)) (drop kSnapshotHeaderSize data) in
             if crc32c payload \<noteq> get_u32 data (footer_offset + 12) then Failure StorePayloadCorrupt ''snapshot payload CRC mismatch''
             else if Digest256_of payload \<noteq> sh_payload_digest header
               then Failure StorePayloadCorrupt ''snapshot payload digest mismatch''
             else decode_payload payload ''snapshot payload rejected'' ''snapshot payload has trailing bytes'')))"

text \<open>The state and \<open>have_state\<close> are one option: \<open>None\<close> while nothing has been recovered.\<close>

definition open_snapshot :: "Io \<Rightarrow> StoreOptions \<Rightarrow> bytes \<Rightarrow> OpenReport \<Rightarrow> (OpenReport \<times> RegistryState option) outcome" where
  "open_snapshot io options contents rep =
     (case read_whole_file (io_read_snapshot io) (base_path options) contents (max_snapshot_bytes (so_limits options)) of
        Failure reason detail \<Rightarrow> Failure reason detail
      | Success _ data \<Rightarrow>
         (case check_snapshot data of Failure reason detail \<Rightarrow> Failure reason detail
          | Success _ state \<Rightarrow> Success Ok (rep\<lparr>or_snapshot_bytes := length data, or_journal_entries_valid := 0\<rparr>, Some state)))"

definition replay_journal :: "JournalScan \<Rightarrow> OpenReport \<Rightarrow> RegistryState option \<Rightarrow> (OpenReport \<times> RegistryState option) outcome" where
  "replay_journal scan rep state =
     (if last_snapshot_payload scan \<noteq> [] then
       (case decode_payload (last_snapshot_payload scan) ''journal snapshot payload rejected'' ''journal payload has trailing bytes'' of
          Failure reason detail \<Rightarrow> Failure reason detail
        | Success _ decoded \<Rightarrow>
            let snapshot_generation = (case state of None \<Rightarrow> 0 | Some s \<Rightarrow> rs_store_generation s) in
            if state = None \<or> last_snapshot_generation scan \<ge> snapshot_generation
            then Success Ok (rep\<lparr>or_journal_entries_valid := entries_valid scan\<rparr>, Some decoded)
            else Success Ok (rep\<lparr>or_journal_entries_dropped := or_journal_entries_dropped rep + entries_valid scan,
                                   or_journal_entries_valid := 0\<rparr>, state))
      else Success Ok (rep\<lparr>or_journal_entries_valid := entries_valid scan\<rparr>, state))"

definition classify_scan :: "JournalScan \<Rightarrow> OpenReport \<Rightarrow> OpenReport" where
  "classify_scan scan rep =
     (if corrupt scan then rep\<lparr>or_classification := (if truncated_tail scan then TornTailTruncated else TrailingCorruptDropped),
                                  or_reason := scan_reason scan\<rparr>
      else if truncated_tail scan then rep\<lparr>or_classification := TornTailTruncated, or_reason := StoreTornTail\<rparr>
      else if entries_valid scan > 0 then rep\<lparr>or_classification := JournalReplayed, or_reason := RecoveryJournalReplayed\<rparr>
      else rep\<lparr>or_classification := CleanOpen, or_reason := RecoveryCleanOpen\<rparr>)"

definition open_journal :: "Io \<Rightarrow> StoreOptions \<Rightarrow> bytes \<Rightarrow> OpenReport \<Rightarrow> RegistryState option \<Rightarrow> Disk
    \<Rightarrow> (OpenReport \<times> RegistryState option) outcome \<times> Disk" where
  "open_journal io options contents rep state disk =
     (case read_whole_file (io_read_journal io) (journal_path (base_path options)) contents (max_journal_bytes (so_limits options) + kJournalHeaderSize) of
        Failure reason detail \<Rightarrow> (Failure reason detail, disk)
      | Success _ data \<Rightarrow>
         let scan = scan_journal data (so_limits options);
             rep = rep\<lparr>or_journal_bytes := length data, or_journal_entries_scanned := entries_seen scan,
               or_journal_entries_dropped := entries_dropped scan, or_bytes_discarded := scan_bytes_discarded scan\<rparr>
         in case replay_journal scan rep state of Failure reason detail \<Rightarrow> (Failure reason detail, disk)
            | Success _ (rep, state) \<Rightarrow>
               if scan_bytes_discarded scan > 0 \<and> \<not> io_resize_journal io
               then (Failure StoreWriteFailed ''journal tail could not be truncated'', disk)
               else let cut = scan_bytes_discarded scan > 0;
                        rep = (if cut then rep\<lparr>or_journal_bytes := valid_bytes scan\<rparr> else rep);
                        disk = (if cut then disk\<lparr>dk_journal := Some (take (valid_bytes scan) data)\<rparr> else disk)
                    in (Success Ok (classify_scan scan rep, state), disk))"

definition sweep_temp :: "Io \<Rightarrow> OpenReport \<Rightarrow> Disk \<Rightarrow> OpenReport \<times> Disk" where
  "sweep_temp io rep disk =
     (if dk_temp disk \<noteq> None \<and> io_stat_temp io \<and> io_remove_temp io
      then (rep\<lparr>or_stale_temp_removed := True\<rparr>, disk\<lparr>dk_temp := None\<rparr>) else (rep, disk))"

definition conclude :: "OpenReport \<Rightarrow> RegistryState option \<Rightarrow> OpenReport outcome" where
  "conclude rep state =
     (case state of Some s \<Rightarrow> Success Ok (rep\<lparr>or_state := s\<rparr>)
      | None \<Rightarrow> if or_existed rep
          then Failure (if or_reason rep = StoreEmptyNew \<or> or_reason rep = Ok then RecoveryRefused else or_reason rep)
                 ''store exists but holds no recoverable state''
          else Success Ok (rep\<lparr>or_state := default_state\<rparr>))"

definition Store_open :: "Io \<Rightarrow> StoreOptions \<Rightarrow> Disk \<Rightarrow> OpenReport outcome \<times> Disk" where
  "Store_open io options disk =
     (if base_path options = [] then (Failure StoreNotFound ''store base path is empty'', disk)
      else
       (let snapshot_exists = (dk_snapshot disk \<noteq> None \<and> io_stat_snapshot io);
            journal_exists = (dk_journal disk \<noteq> None \<and> io_stat_journal io);
            (rep, disk) = sweep_temp io default_report disk;
            rep = rep\<lparr>or_existed := snapshot_exists \<or> journal_exists, or_snapshot_present := snapshot_exists,
              or_journal_present := journal_exists\<rparr>
        in case (if snapshot_exists then open_snapshot io options (the (dk_snapshot disk)) rep else Success Ok (rep, None)) of
             Failure reason detail \<Rightarrow> (Failure reason detail, disk)
           | Success _ (rep, state) \<Rightarrow>
              (case (if journal_exists then open_journal io options (the (dk_journal disk)) rep state disk
                     else (Success Ok (rep\<lparr>or_classification := CleanOpen,
                             or_reason := (if snapshot_exists then RecoveryCleanOpen else StoreEmptyNew)\<rparr>, state), disk)) of
                 (Failure reason detail, disk) \<Rightarrow> (Failure reason detail, disk)
               | (Success _ (rep, state), disk) \<Rightarrow> (conclude rep state, disk))))"

section \<open>Binding, writing and committing\<close>

definition Store_bind :: "Io \<Rightarrow> StoreOptions \<Rightarrow> Disk \<Rightarrow> StoreImpl outcome" where
  "Store_bind io options disk =
     (if base_path options = [] then Failure StoreNotFound ''store base path is empty''
      else Success Ok \<lparr>si_options = options, si_sequence = 0, si_entry_count = 0,
        si_journal_size = (case dk_journal disk of Some j \<Rightarrow> if io_stat_journal io then length j else 0 | None \<Rightarrow> 0),
        si_written = 0, si_generation = 0\<rparr>)"

definition snapshot_header :: "RegistryState \<Rightarrow> Tick \<Rightarrow> bytes \<Rightarrow> SnapshotHeader" where
  "snapshot_header state now payload =
     \<lparr>sh_format_version = kStoreFormatVersion, sh_header_size = of_nat kSnapshotHeaderSize, sh_flags = 0,
      sh_api_generation = ucast kApiGeneration, sh_catalog_fingerprint = catalog_fingerprint,
      sh_reason_fingerprint = reason_table_fingerprint, sh_payload_len = of_nat (length payload), sh_created_at = now,
      sh_store_generation = rs_store_generation state, sh_registry_epoch = rs_epoch state,
      sh_rule_generation = rs_rule_generation state, sh_boot_epoch = rs_boot_epoch state,
      sh_payload_digest = Digest256_of payload\<rparr>"

definition footer_prefix :: "RegistryState \<Rightarrow> bytes \<Rightarrow> bytes" where
  "footer_prefix state payload = w_u32 kSnapshotFooterMagic @ w_u64 (of_nat (length payload)) @ w_u32 (crc32c payload)
     @ w_u64 (of_nat (length (rs_records state)))"

definition snapshot_bytes :: "RegistryState \<Rightarrow> Tick \<Rightarrow> bytes" where
  "snapshot_bytes state now =
     (let payload = encode_state state
      in serialize_header (snapshot_header state now payload) @ payload @ footer_prefix state payload
         @ w_u32 (crc32c (footer_prefix state payload)) @ w_u32 0)"

text \<open>Moving the temporary file over the snapshot: with \<open>sync_on_commit\<close> a failed rename removes the target and retries.\<close>

definition install_snapshot :: "Io \<Rightarrow> bool \<Rightarrow> Disk \<Rightarrow> bool \<times> Disk" where
  "install_snapshot io sync disk =
     (if io_rename io then (True, disk\<lparr>dk_snapshot := dk_temp disk, dk_temp := None\<rparr>)
      else if sync then
       (let disk = (if io_remove_snapshot io then disk\<lparr>dk_snapshot := None\<rparr> else disk)
        in if io_rename_again io then (True, disk\<lparr>dk_snapshot := dk_temp disk, dk_temp := None\<rparr>) else (False, disk))
      else (False, disk))"

definition write_snapshot :: "Io \<Rightarrow> RegistryState \<Rightarrow> Tick \<Rightarrow> StoreImpl \<times> Disk \<Rightarrow> CommitToken outcome \<times> StoreImpl \<times> Disk" where
  "write_snapshot io state now = (\<lambda>(store, disk).
     let options = si_options store; file_bytes = snapshot_bytes state now
     in if length (encode_state state) > max_snapshot_bytes (so_limits options)
        then (Failure StoreOversized ''encoded state exceeds the snapshot bound'', store, disk)
        else
         (let (fault, temp) = write_file (io_write_temp io) (temp_path (base_path options)) ''snapshot payload write failed''
                ''snapshot synchronisation failed'' (sync_on_commit options) (dk_temp disk) [] file_bytes;
              disk = disk\<lparr>dk_temp := temp\<rparr>
          in case fault of Some (reason, detail) \<Rightarrow> (Failure reason detail, store, disk)
             | None \<Rightarrow>
                (case install_snapshot io (sync_on_commit options) disk of
                   (False, disk) \<Rightarrow> (Failure StoreWriteFailed ''snapshot rename failed'', store, disk)
                 | (True, disk) \<Rightarrow>
                    (Success Ok \<lparr>ct_generation = rs_store_generation state, ct_sequence = si_sequence store,
                       ct_bytes = length file_bytes, ct_payload_digest = Digest256_of (encode_state state),
                       ct_synchronised = sync_on_commit options\<rparr>,
                     store\<lparr>si_written := si_written store + length file_bytes\<rparr>, disk))))"

definition next_entry :: "StoreImpl \<Rightarrow> JournalKind \<Rightarrow> bytes \<Rightarrow> Tick \<Rightarrow> JournalEntry" where
  "next_entry store kind payload now = \<lparr>en_kind = kind, en_sequence = si_sequence store + 1, en_created_at = now,
     en_generation = si_generation store, en_payload = payload\<rparr>"

definition append_entry :: "Io \<Rightarrow> JournalKind \<Rightarrow> bytes \<Rightarrow> Tick \<Rightarrow> StoreImpl \<times> Disk \<Rightarrow> CommitToken outcome \<times> StoreImpl \<times> Disk" where
  "append_entry io kind payload now = (\<lambda>(store, disk).
     let options = si_options store; limits = so_limits options; entry = next_entry store kind payload now
     in if length payload > max_journal_entry_bytes limits
        then (Failure StoreOversized ''journal entry exceeds the entry bound'', store, disk)
        else if si_journal_size store + length payload + kJournalHeaderSize + kJournalTrailerSize > max_journal_bytes limits
        then (Failure StoreRotationPerformed ''journal byte bound reached'', store, disk)
        else if si_entry_count store \<ge> max_journal_entries limits
        then (Failure StoreRotationPerformed ''journal entry bound reached'', store, disk)
        else
         (let old = (case dk_journal disk of None \<Rightarrow> [] | Some j \<Rightarrow> j);
              (fault, journal) = write_file (io_append io) (journal_path (base_path options)) ''journal append failed''
                ''journal synchronisation failed'' (sync_on_commit options) (dk_journal disk) old (frame entry);
              disk = disk\<lparr>dk_journal := journal\<rparr>
          in case fault of Some (reason, detail) \<Rightarrow> (Failure reason detail, store, disk)
             | None \<Rightarrow>
                (Success Ok \<lparr>ct_generation = si_generation store, ct_sequence = en_sequence entry,
                   ct_bytes = length (frame entry), ct_payload_digest = Digest256_of payload,
                   ct_synchronised = sync_on_commit options\<rparr>,
                 store\<lparr>si_sequence := en_sequence entry, si_entry_count := si_entry_count store + 1,
                   si_journal_size := si_journal_size store + length (frame entry),
                   si_written := si_written store + length (frame entry)\<rparr>, disk)))"

text \<open>Truncation creates the journal when it is not there.\<close>

definition truncate_journal :: "Io \<Rightarrow> Disk \<Rightarrow> bool \<times> Disk" where
  "truncate_journal io disk =
     (let done = (if dk_journal disk = None \<or> \<not> io_stat_journal io then io_create_journal io else io_resize_journal io)
      in (done, if done then disk\<lparr>dk_journal := Some []\<rparr> else disk))"

definition reset_journal :: "StoreImpl \<Rightarrow> StoreImpl" where
  "reset_journal store = store\<lparr>si_entry_count := 0, si_journal_size := 0\<rparr>"

text \<open>A snapshot followed by a truncation, the common part of rotation and compaction.\<close>

definition rotate_store :: "Io \<Rightarrow> RegistryState \<Rightarrow> Tick \<Rightarrow> string \<Rightarrow> StoreImpl \<times> Disk \<Rightarrow> CommitToken outcome \<times> StoreImpl \<times> Disk" where
  "rotate_store io state now failed sd =
     (case write_snapshot io state now sd of
        (Failure reason detail, store, disk) \<Rightarrow> (Failure reason detail, store, disk)
      | (Success c token, store, disk) \<Rightarrow>
         (case truncate_journal io disk of
            (False, disk) \<Rightarrow> (Failure StoreWriteFailed failed, store, disk)
          | (True, disk) \<Rightarrow> (Success c token, reset_journal store, disk)))"

definition commit :: "Io \<Rightarrow> RegistryState \<Rightarrow> Tick \<Rightarrow> ReasonCode list \<Rightarrow> StoreImpl \<times> Disk
    \<Rightarrow> CommitToken outcome \<times> ReasonCode list \<times> StoreImpl \<times> Disk" where
  "commit io state now notes = (\<lambda>(store, disk).
     let store = store\<lparr>si_generation := rs_store_generation state\<rparr>;
         options = si_options store;
         payload = encode_state state
     in if length payload > max_journal_entry_bytes (so_limits options)
        then
         (case write_snapshot io state now (store, disk) of
            (Failure reason detail, store, disk) \<Rightarrow> (Failure reason detail, notes, store, disk)
          | (Success c token, store, disk) \<Rightarrow>
             (case truncate_journal io disk of
                (False, disk) \<Rightarrow> (Failure StoreWriteFailed ''journal rotation failed'',
                                  notes @ [StoreCommitDurable, StoreRotationPerformed], store, disk)
              | (True, disk) \<Rightarrow> (Success c token, canonicalize_reasons (notes @ [StoreCommitDurable, StoreRotationPerformed]),
                                 reset_journal store, disk)))
        else
         (case append_entry io JStateSnapshot payload now (store, disk) of
            (Failure reason detail, store, disk) \<Rightarrow> (Failure reason detail, notes, store, disk)
          | (Success c token, store, disk) \<Rightarrow>
             (let notes = notes @ [StoreCommitDurable]
              in if compact_after_entries options \<noteq> 0 \<and> si_entry_count store \<ge> compact_after_entries options
                 then (case rotate_store io state now ''journal rotation failed'' (store, disk) of
                         (Failure reason detail, store, disk) \<Rightarrow> (Failure reason detail, notes, store, disk)
                       | (Success _ _, store, disk) \<Rightarrow>
                           (Success c token, canonicalize_reasons (notes @ [StoreRotationPerformed]), store, disk))
                 else (Success c token, canonicalize_reasons notes, store, disk))))"

definition compact :: "Io \<Rightarrow> RegistryState \<Rightarrow> Tick \<Rightarrow> StoreImpl \<times> Disk \<Rightarrow> CommitToken outcome \<times> StoreImpl \<times> Disk" where
  "compact io state now sd = rotate_store io state now ''journal truncation failed'' sd"

definition load_state :: "Io \<Rightarrow> StoreOptions \<Rightarrow> RecoverySummary \<Rightarrow> Disk \<Rightarrow> RegistryState outcome \<times> RecoverySummary \<times> Disk" where
  "load_state io options summary disk =
     (case Store_open io options disk of
        (Failure reason detail, disk) \<Rightarrow> (Failure reason detail, summary\<lparr>classification := Refused, rec_reason := reason\<rparr>, disk)
      | (Success _ value, disk) \<Rightarrow>
         let notes = rec_notes summary
               @ (if or_journal_entries_dropped value > 0 then [RecoveryTrailingCorruptDropped] else [])
               @ (if or_bytes_discarded value > 0 then [RecoveryTornTailTruncated] else []);
             summary = summary\<lparr>classification := or_classification value, rec_reason := or_reason value,
               journal_records_replayed := of_nat (or_journal_entries_valid value),
               journal_records_dropped := of_nat (or_journal_entries_dropped value),
               bytes_discarded := of_nat (or_bytes_discarded value),
               records_adopted := of_nat (length (rs_records (or_state value))),
               tombstones_adopted := of_nat (length (rs_tombstones (or_state value))),
               rec_snapshot_generation := rs_store_generation (or_state value),
               rec_boot_epoch := rs_boot_epoch (or_state value), rec_notes := canonicalize_reasons notes\<rparr>
         in (Success Ok (or_state value), summary, disk))"

section \<open>Snapshots read back\<close>

lemma snapshot_header_ok: "header_ok (snapshot_header state now payload)"
  by (simp add: header_ok_def snapshot_header_def)

lemma length_serialize_header [simp]: "length (serialize_header (snapshot_header state now payload)) = 112"
  by (simp add: serialize_header_def length_header_prefix snapshot_header_def)

lemma length_footer_prefix [simp]: "length (footer_prefix state payload) = 24"
  by (simp add: footer_prefix_def)

lemma length_snapshot_bytes: "length (snapshot_bytes state now) = length (encode_state state) + 144"
  by (simp add: snapshot_bytes_def Let_def)

lemma encode_state_not_Nil [simp]: "encode_state s \<noteq> []"
  by (simp add: encode_state_def w_u32_def flip: length_greater_0_conv)

lemma get_after: "get_u32 (p @ r) (length p + k) = get_u32 r k" "get_u64 (p @ r) (length p + k) = get_u64 r k"
  by (simp_all add: get_u32_def get_u64_def)

lemma footer_fields:
  "get_u32 (footer_prefix s p @ w_u32 c @ w_u32 z) 0 = kSnapshotFooterMagic" "get_u32 (footer_prefix s p @ w_u32 c @ w_u32 z) 24 = c"
  "get_u32 (footer_prefix s p @ w_u32 c @ w_u32 z) 28 = z" "get_u64 (footer_prefix s p @ w_u32 c @ w_u32 z) 4 = of_nat (length p)"
  "get_u32 (footer_prefix s p @ w_u32 c @ w_u32 z) 12 = crc32c p"
  by (simp_all add: footer_prefix_def get_u32_def get_u64_def w_u32_def w_u64_def)

lemma decode_payload_encode: "state_ok s \<Longrightarrow> decode_payload (encode_state s) rejected trailing = Success Ok s"
  using state_codec.dec_enc [of s "[]"] by (simp add: decode_payload_def)

lemma check_snapshot_bytes:
  assumes "state_ok s" "length (encode_state s) + 144 < 2 ^ 64"
  shows "check_snapshot (snapshot_bytes s now) = Success Ok s"
proof -
  let ?p = "encode_state s"
  let ?h = "snapshot_header s now ?p"
  let ?f = "footer_prefix s ?p @ w_u32 (crc32c (footer_prefix s ?p)) @ w_u32 0"
  let ?d = "serialize_header ?h @ ?p @ ?f"
  have d: "snapshot_bytes s now = ?d" by (simp add: snapshot_bytes_def Let_def)
  have len: "length ?d = length ?p + 144" using length_snapshot_bytes [of s now] by (simp add: d)
  have pl: "sh_payload_len ?h = of_nat (length ?p)" "unat (sh_payload_len ?h) = length ?p" "sh_payload_digest ?h = Digest256_of ?p"
    using assms(2) by (simp_all add: snapshot_header_def unat_of_nat)
  have off: "get_u32 ?d (112 + length ?p + k) = get_u32 ?f k" "get_u64 ?d (112 + length ?p + k) = get_u64 ?f k" for k
    using get_after [of "serialize_header ?h @ ?p" ?f k] by simp_all
  have pay: "take (length ?p) (drop 112 ?d) = ?p" "take 24 (drop (112 + length ?p) ?d) = footer_prefix s ?p" by simp_all
  have size: "of_nat (length ?p + 144) - 112 - 32 = (of_nat (length ?p) :: u64)" by simp
  have len64: "unat (of_nat (length ?p) :: u64) = length ?p" using assms(2) by (simp add: unat_of_nat)
  have foot: "get_u32 ?d (112 + length ?p) = kSnapshotFooterMagic" "get_u32 ?d (136 + length ?p) = crc32c (footer_prefix s ?p)"
    "get_u32 ?d (140 + length ?p) = 0" "get_u64 ?d (116 + length ?p) = of_nat (length ?p)" "get_u32 ?d (124 + length ?p) = crc32c ?p"
    using off(1) [of 0] off(1) [of 24] off(1) [of 28] off(2) [of 4] off(1) [of 12] by (simp_all add: footer_fields add.commute)
  show ?thesis
    unfolding d check_snapshot_def parse_serialize_header [OF snapshot_header_ok] store_sizes
    by (simp add: len pl(1,3) len64 foot pay size decode_payload_encode [OF assms(1)] Let_def
        del: length_append drop_append take_append)
qed

section \<open>What an open recovers\<close>

text \<open>A commit as the journal records it: its sequence number, its tick and its state.\<close>

definition entry_of :: "u64 \<times> Tick \<times> RegistryState \<Rightarrow> JournalEntry" where
  "entry_of = (\<lambda>(q, now, s). \<lparr>en_kind = JStateSnapshot, en_sequence = q, en_created_at = now,
     en_generation = rs_store_generation s, en_payload = encode_state s\<rparr>)"

abbreviation commit_state :: "u64 \<times> Tick \<times> RegistryState \<Rightarrow> RegistryState" where "commit_state c \<equiv> snd (snd c)"

lemma entry_of_fields [simp]: "en_kind (entry_of c) = JStateSnapshot" "en_sequence (entry_of c) = fst c"
  "en_generation (entry_of c) = rs_store_generation (commit_state c)" "en_payload (entry_of c) = encode_state (commit_state c)"
  by (simp_all add: entry_of_def split_beta)

lemma entry_header_fields [simp]: "jh_kind (entry_header e) = en_kind e" "jh_store_generation (entry_header e) = en_generation e"
  by (simp_all add: entry_header_def)

lemma applied_commit:
  assumes "last_snapshot_generation scan \<le> rs_store_generation (commit_state c)"
  shows "applied (entry_header (entry_of c)) (en_payload (entry_of c)) position (seen scan) =
    scan\<lparr>entries_seen := entries_seen scan + 1, entries_valid := entries_valid scan + 1, valid_bytes := position,
      last_snapshot_generation := rs_store_generation (commit_state c), last_snapshot_payload := encode_state (commit_state c)\<rparr>"
  using assms by (simp add: applied_def Let_def seen_def)

lemma replayed_commits:
  assumes "ascending ps (last_snapshot_generation scan) (map entry_of cs)" "cs \<noteq> []"
  shows "replayed pos (map entry_of cs) scan =
    scan\<lparr>entries_seen := entries_seen scan + length cs, entries_valid := entries_valid scan + length cs,
      valid_bytes := pos + length (journal_of (map entry_of cs)),
      last_snapshot_generation := rs_store_generation (commit_state (last cs)), last_snapshot_payload := encode_state (commit_state (last cs))\<rparr>"
  using assms
proof (induction cs arbitrary: pos ps scan)
  case (Cons c cs)
  let ?scan = "applied (entry_header (entry_of c)) (en_payload (entry_of c)) (pos + length (frame (entry_of c))) (seen scan)"
  have a: "last_snapshot_generation scan \<le> rs_store_generation (commit_state c)" using Cons.prems by simp
  note step = applied_commit [OF a, of "pos + length (frame (entry_of c))"]
  show ?case
  proof (cases "cs = []")
    case True
    then show ?thesis using step by (simp add: journal_of_Cons)
  next
    case False
    have "ascending (fst c) (last_snapshot_generation ?scan) (map entry_of cs)"
      using Cons.prems(1) unfolding step by simp
    from Cons.IH [OF this False, of "pos + length (frame (entry_of c))"] show ?thesis
      using False step by (simp add: journal_of_Cons add.assoc)
  qed
qed simp

text \<open>What an interrupted append leaves: a strict prefix of a frame.\<close>

definition torn_tail :: "StoreLimits \<Rightarrow> bytes \<Rightarrow> bool" where
  "torn_tail limits tail \<longleftrightarrow> (\<exists>e n. entry_fits limits e \<and> n < length (frame e) \<and> tail = take n (frame e))"

lemma torn_tailI: "entry_fits limits e \<Longrightarrow> n < length (frame e) \<Longrightarrow> torn_tail limits (take n (frame e))"
  unfolding torn_tail_def by blast

lemma scan_tail:
  assumes "torn_tail limits tail"
  shows "scan_loop limits pos tail ps pg scan =
    (if tail = [] then scan else torn (length tail) (if length tail < kJournalHeaderSize then scan else seen scan))"
proof -
  from assms obtain e n where e: "entry_fits limits e" "n < length (frame e)" "tail = take n (frame e)"
    unfolding torn_tail_def by blast
  show ?thesis
  proof (cases "n = 0")
    case True
    then show ?thesis using e(3) by (subst scan_loop.simps) simp
  next
    case False
    have "length tail = n" "tail \<noteq> []" using e(2,3) False by simp_all
    then show ?thesis using scan_torn_frame [OF e(1) _ e(2), of pos ps pg scan] False by (simp add: e(3))
  qed
qed

definition commits_ok :: "StoreLimits \<Rightarrow> (u64 \<times> Tick \<times> RegistryState) list \<Rightarrow> bool" where
  "commits_ok limits cs \<longleftrightarrow> list_all (\<lambda>c. state_ok (commit_state c) \<and> entry_fits limits (entry_of c)) cs \<and> ascending 0 0 (map entry_of cs)"

lemma fresh_scan_fields [simp]: "valid_bytes fresh_scan = 0" "entries_seen fresh_scan = 0" "entries_valid fresh_scan = 0"
  "entries_dropped fresh_scan = 0" "scan_bytes_discarded fresh_scan = 0" "\<not> truncated_tail fresh_scan" "\<not> corrupt fresh_scan"
  "last_snapshot_payload fresh_scan = []" "last_snapshot_generation fresh_scan = 0"
  by (simp_all add: fresh_scan_def)

lemma scan_commits:
  assumes ok: "commits_ok limits cs" and tail: "torn_tail limits tail"
  defines "scan \<equiv> scan_journal (journal_of (map entry_of cs) @ tail) limits"
  shows "entries_valid scan = length cs" "scan_bytes_discarded scan = length tail" "\<not> corrupt scan" "truncated_tail scan \<longleftrightarrow> tail \<noteq> []"
    "valid_bytes scan = length (journal_of (map entry_of cs))"
    "last_snapshot_payload scan = (if cs = [] then [] else encode_state (commit_state (last cs)))"
    "cs \<noteq> [] \<Longrightarrow> last_snapshot_generation scan = rs_store_generation (commit_state (last cs))"
    "entries_dropped scan = (if length tail < kJournalHeaderSize then 0 else 1)"
proof -
  have "list_all (entry_fits limits) (map entry_of cs)" and asc: "ascending 0 0 (map entry_of cs)"
    using ok by (auto simp: commits_ok_def list_all_iff)
  note loop = scan_journal_of [OF this, of 0 tail fresh_scan]
  have asc': "ascending 0 (last_snapshot_generation fresh_scan) (map entry_of cs)" using asc by simp
  note re = replayed_commits [OF asc', of 0]
  note all = scan_def scan_journal_def loop scan_tail [OF tail] Let_def torn_def seen_def
  show "entries_valid scan = length cs" "scan_bytes_discarded scan = length tail" "\<not> corrupt scan" "truncated_tail scan \<longleftrightarrow> tail \<noteq> []"
    "valid_bytes scan = length (journal_of (map entry_of cs))"
    "last_snapshot_payload scan = (if cs = [] then [] else encode_state (commit_state (last cs)))"
    "entries_dropped scan = (if length tail < kJournalHeaderSize then 0 else 1)"
    by (cases "cs = []"; simp add: all re store_sizes)+
  show "last_snapshot_generation scan = rs_store_generation (commit_state (last cs))" if "cs \<noteq> []"
    using that by (simp add: all re)
qed

text \<open>The state a store holds: the last commit, unless the snapshot file is of a later generation.\<close>

definition held :: "(RegistryState \<times> Tick) option \<Rightarrow> (u64 \<times> Tick \<times> RegistryState) list \<Rightarrow> RegistryState option" where
  "held base cs = (if cs = [] then map_option fst base
     else if \<forall>(s, t) \<in> set_option base. rs_store_generation s \<le> rs_store_generation (commit_state (last cs))
     then Some (commit_state (last cs)) else map_option fst base)"

definition files :: "Disk \<Rightarrow> (RegistryState \<times> Tick) option \<Rightarrow> (u64 \<times> Tick \<times> RegistryState) list \<Rightarrow> bytes \<Rightarrow> bool" where
  "files disk base cs tail \<longleftrightarrow> dk_snapshot disk = map_option (\<lambda>(s, t). snapshot_bytes s t) base
     \<and> (case dk_journal disk of None \<Rightarrow> cs = [] \<and> tail = [] | Some j \<Rightarrow> j = journal_of (map entry_of cs) @ tail)"

definition fits_snapshot :: "StoreLimits \<Rightarrow> RegistryState \<Rightarrow> bool" where
  "fits_snapshot limits s \<longleftrightarrow> state_ok s \<and> length (encode_state s) + 144 \<le> max_snapshot_bytes limits"

definition contents_ok :: "StoreLimits \<Rightarrow> (RegistryState \<times> Tick) option \<Rightarrow> (u64 \<times> Tick \<times> RegistryState) list \<Rightarrow> bool" where
  "contents_ok limits base cs \<longleftrightarrow> (\<forall>(s, t) \<in> set_option base. fits_snapshot limits s) \<and> commits_ok limits cs"

text \<open>Options as the code relies on them: sizes of the machine's width, and entry lengths that fit their 32-bit field.\<close>

definition options_ok :: "StoreOptions \<Rightarrow> bool" where
  "options_ok options \<longleftrightarrow> base_path options \<noteq> [] \<and> max_snapshot_bytes (so_limits options) < 2 ^ 64
     \<and> max_journal_entry_bytes (so_limits options) < 2 ^ 32"

lemma open_snapshot_fits:
  assumes "options_ok options" "fits_snapshot (so_limits options) s"
  shows "open_snapshot no_faults options (snapshot_bytes s t) rep =
    Success Ok (rep\<lparr>or_snapshot_bytes := length (snapshot_bytes s t), or_journal_entries_valid := 0\<rparr>, Some s)"
  using assms check_snapshot_bytes [of s t]
  by (simp add: open_snapshot_def read_whole_file_def no_faults_def fits_snapshot_def options_ok_def length_snapshot_bytes)

definition merged :: "RegistryState option \<Rightarrow> (u64 \<times> Tick \<times> RegistryState) list \<Rightarrow> RegistryState option" where
  "merged state cs = (if cs = [] then state
     else if state = None \<or> rs_store_generation (the state) \<le> rs_store_generation (commit_state (last cs))
     then Some (commit_state (last cs)) else state)"

lemma merged_held: "merged (map_option fst base) cs = held base cs"
  by (cases base) (auto simp: merged_def held_def)

text \<open>A scan that found the commits \<open>cs\<close> and discarded \<open>d\<close> bytes.\<close>

definition scanned :: "JournalScan \<Rightarrow> (u64 \<times> Tick \<times> RegistryState) list \<Rightarrow> nat \<Rightarrow> bool" where
  "scanned scan cs d \<longleftrightarrow> entries_valid scan = length cs \<and> scan_bytes_discarded scan = d
     \<and> valid_bytes scan = length (journal_of (map entry_of cs))
     \<and> last_snapshot_payload scan = (if cs = [] then [] else encode_state (commit_state (last cs)))
     \<and> (cs \<noteq> [] \<longrightarrow> last_snapshot_generation scan = rs_store_generation (commit_state (last cs)))"

lemma replay_scanned:
  assumes ok: "commits_ok limits cs" and scan: "scanned scan cs d"
  shows "\<exists>rep'. replay_journal scan rep state = Success Ok (rep', merged state cs) \<and> or_existed rep' = or_existed rep
    \<and> or_bytes_discarded rep' = or_bytes_discarded rep \<and> or_stale_temp_removed rep' = or_stale_temp_removed rep"
proof (cases "cs = []")
  case True
  then show ?thesis using scan by (simp add: scanned_def replay_journal_def merged_def)
next
  case False
  have "state_ok (commit_state (last cs))" using ok False by (simp add: commits_ok_def list_all_iff)
  then show ?thesis using False scan
    by (cases state) (auto simp: scanned_def replay_journal_def merged_def decode_payload_encode Let_def)
qed

definition cut :: "(u64 \<times> Tick \<times> RegistryState) list \<Rightarrow> nat \<Rightarrow> bytes \<Rightarrow> bytes" where
  "cut cs d j = (if d > 0 then take (length (journal_of (map entry_of cs))) j else j)"

definition classes :: "JournalScan \<Rightarrow> RecoveryClass \<times> ReasonCode" where
  "classes scan = (or_classification (classify_scan scan default_report), or_reason (classify_scan scan default_report))"

lemma classify_scan_fields: "(or_classification (classify_scan scan rep), or_reason (classify_scan scan rep)) = classes scan"
  "or_existed (classify_scan scan rep) = or_existed rep" "or_bytes_discarded (classify_scan scan rep) = or_bytes_discarded rep"
  "or_stale_temp_removed (classify_scan scan rep) = or_stale_temp_removed rep"
  by (simp_all add: classes_def classify_scan_def)

lemma open_journal_scanned:
  assumes ok: "commits_ok (so_limits options) cs" and scan: "scanned (scan_journal j (so_limits options)) cs d"
    and size: "length j \<le> max_journal_bytes (so_limits options) + 72"
  shows "\<exists>rep'. open_journal no_faults options j rep state disk =
      (Success Ok (rep', merged state cs), if d > 0 then disk\<lparr>dk_journal := Some (cut cs d j)\<rparr> else disk)
    \<and> or_existed rep' = or_existed rep \<and> or_bytes_discarded rep' = d \<and> or_stale_temp_removed rep' = or_stale_temp_removed rep
    \<and> (or_classification rep', or_reason rep') = classes (scan_journal j (so_limits options))"
proof -
  let ?scan = "scan_journal j (so_limits options)"
  let ?rep = "rep\<lparr>or_journal_bytes := length j, or_journal_entries_scanned := entries_seen ?scan,
    or_journal_entries_dropped := entries_dropped ?scan, or_bytes_discarded := scan_bytes_discarded ?scan\<rparr>"
  have d: "scan_bytes_discarded ?scan = d" "valid_bytes ?scan = length (journal_of (map entry_of cs))" using scan by (simp_all add: scanned_def)
  obtain rep1 where r: "replay_journal ?scan ?rep state = Success Ok (rep1, merged state cs)" "or_existed rep1 = or_existed rep"
    "or_bytes_discarded rep1 = d" "or_stale_temp_removed rep1 = or_stale_temp_removed rep"
    using replay_scanned [OF ok scan, of ?rep state] d(1) by auto
  have read: "read_whole_file (io_read_journal no_faults) p j (max_journal_bytes (so_limits options) + kJournalHeaderSize) = Success Ok j" for p
    using size by (simp add: read_whole_file_def no_faults_def store_sizes)
  have io: "io_resize_journal no_faults" by (simp add: no_faults_def)
  show ?thesis
    unfolding open_journal_def read outcome.case Let_def r(1)
    using r(2-4) d by (auto simp: io classify_scan_fields cut_def)
qed

lemma open_scanned:
  assumes o: "options_ok options" and snap: "dk_snapshot disk = map_option (\<lambda>(s, t). snapshot_bytes s t) base"
    and ok: "contents_ok (so_limits options) base cs"
    and journal: "case dk_journal disk of None \<Rightarrow> cs = [] \<and> d = 0
      | Some j \<Rightarrow> scanned (scan_journal j (so_limits options)) cs d \<and> length j \<le> max_journal_bytes (so_limits options) + 72"
  shows "\<exists>rep disk'. Store_open no_faults options disk = (conclude rep (held base cs), disk')
    \<and> dk_snapshot disk' = dk_snapshot disk \<and> dk_temp disk' = None \<and> dk_journal disk' = map_option (cut cs d) (dk_journal disk)
    \<and> or_existed rep = (dk_snapshot disk \<noteq> None \<or> dk_journal disk \<noteq> None) \<and> or_bytes_discarded rep = d
    \<and> or_stale_temp_removed rep = (dk_temp disk \<noteq> None)
    \<and> (\<forall>j. dk_journal disk = Some j \<longrightarrow> (or_classification rep, or_reason rep) = classes (scan_journal j (so_limits options)))"
proof -
  define disk0 where "disk0 = disk\<lparr>dk_temp := None\<rparr>"
  define rep0 where "rep0 = (if dk_temp disk \<noteq> None then default_report\<lparr>or_stale_temp_removed := True\<rparr> else default_report)"
  have sweep: "sweep_temp no_faults default_report disk = (rep0, disk0)"
    by (auto simp: sweep_temp_def no_faults_def rep0_def disk0_def)
  have rep0_fields: "or_bytes_discarded rep0 = 0" "or_stale_temp_removed rep0 = (dk_temp disk \<noteq> None)"
    by (simp_all add: rep0_def default_report_def)
  let ?rep = "rep0\<lparr>or_existed := dk_snapshot disk \<noteq> None \<or> dk_journal disk \<noteq> None, or_snapshot_present := dk_snapshot disk \<noteq> None,
    or_journal_present := dk_journal disk \<noteq> None\<rparr>"
  obtain rep1 where r1: "(if dk_snapshot disk \<noteq> None then open_snapshot no_faults options (the (dk_snapshot disk)) ?rep else Success Ok (?rep, None))
      = Success Ok (rep1, map_option fst base)" "or_existed rep1 = (dk_snapshot disk \<noteq> None \<or> dk_journal disk \<noteq> None)"
      "or_bytes_discarded rep1 = 0" "or_stale_temp_removed rep1 = (dk_temp disk \<noteq> None)"
    using snap ok o rep0_fields by (cases base) (auto simp: contents_ok_def open_snapshot_fits)
  have io: "io_stat_snapshot no_faults" "io_stat_journal no_faults" by (simp_all add: no_faults_def)
  have b: "base_path options \<noteq> []" "commits_ok (so_limits options) cs" using o ok by (simp_all add: options_ok_def contents_ok_def)
  have keep: "dk_snapshot disk0 = dk_snapshot disk" "dk_journal disk0 = dk_journal disk" by (simp_all add: disk0_def)
  show ?thesis
  proof (cases "dk_journal disk")
    case None
    then have h: "held base cs = map_option fst base" "d = 0" using journal by (simp_all add: held_def)
    let ?rep = "rep1\<lparr>or_classification := CleanOpen, or_reason := (if dk_snapshot disk \<noteq> None then RecoveryCleanOpen else StoreEmptyNew)\<rparr>"
    have "Store_open no_faults options disk = (conclude ?rep (held base cs), disk0)"
      using None r1(1) unfolding h(1) by (cases "dk_snapshot disk") (auto simp: Store_open_def b sweep io keep)
    then show ?thesis using None r1(2-4) h(2)
      by (intro exI [of _ ?rep] exI [of _ disk0]) (simp add: keep disk0_def)
  next
    case (Some j)
    then have j: "scanned (scan_journal j (so_limits options)) cs d" "length j \<le> max_journal_bytes (so_limits options) + 72"
      using journal by simp_all
    let ?disk = "if d > 0 then disk0\<lparr>dk_journal := Some (cut cs d j)\<rparr> else disk0"
    obtain rep2 where r2: "open_journal no_faults options j rep1 (map_option fst base) disk0 = (Success Ok (rep2, held base cs), ?disk)"
        "or_existed rep2 = or_existed rep1" "or_bytes_discarded rep2 = d" "or_stale_temp_removed rep2 = or_stale_temp_removed rep1"
        "(or_classification rep2, or_reason rep2) = classes (scan_journal j (so_limits options))"
      using open_journal_scanned [OF b(2) j, of rep1 "map_option fst base" disk0] unfolding merged_held by blast
    have "Store_open no_faults options disk = (conclude rep2 (held base cs), ?disk)"
      using Some r1(1) r2(1) by (cases "dk_snapshot disk") (simp_all add: Store_open_def b sweep io keep)
    then show ?thesis using Some r1(2,4) r2(2-5) by (auto simp: disk0_def cut_def)
  qed
qed

lemma scanned_commits:
  "commits_ok limits cs \<Longrightarrow> torn_tail limits tail \<Longrightarrow> scanned (scan_journal (journal_of (map entry_of cs) @ tail) limits) cs (length tail)"
  using scan_commits [of limits cs tail] by (simp add: scanned_def)

text \<open>Opening the files of a store: commits, and possibly the beginning of one more.\<close>

lemma open_recovers_files:
  assumes o: "options_ok options" and f: "files disk base cs tail" and ok: "contents_ok (so_limits options) base cs"
    and tail: "torn_tail (so_limits options) tail"
    and size: "length (journal_of (map entry_of cs) @ tail) \<le> max_journal_bytes (so_limits options) + 72"
  shows "\<exists>rep disk'. Store_open no_faults options disk = (conclude rep (held base cs), disk') \<and> files disk' base cs [] \<and> dk_temp disk' = None
    \<and> or_existed rep = (dk_snapshot disk \<noteq> None \<or> dk_journal disk \<noteq> None) \<and> or_bytes_discarded rep = length tail
    \<and> (dk_journal disk' = None \<longleftrightarrow> dk_journal disk = None)
    \<and> (tail \<noteq> [] \<longrightarrow> or_classification rep = TornTailTruncated \<and> or_reason rep = StoreTornTail)"
proof -
  have c: "commits_ok (so_limits options) cs" using ok by (simp add: contents_ok_def)
  have j: "case dk_journal disk of None \<Rightarrow> cs = [] \<and> length tail = 0
      | Some j \<Rightarrow> scanned (scan_journal j (so_limits options)) cs (length tail) \<and> length j \<le> max_journal_bytes (so_limits options) + 72"
    using f size scanned_commits [OF c tail] by (auto simp: files_def split: option.splits)
  have snap: "dk_snapshot disk = map_option (\<lambda>(s, t). snapshot_bytes s t) base" using f by (simp add: files_def)
  have "classes (scan_journal (journal_of (map entry_of cs) @ tail) (so_limits options)) = (TornTailTruncated, StoreTornTail)" if "tail \<noteq> []"
    using scan_commits(3,4) [OF c tail] that by (simp add: classes_def classify_scan_def)
  with open_scanned [OF o snap ok j] f show ?thesis
    by (fastforce simp: files_def cut_def split: option.splits)
qed

section \<open>What a commit leaves behind\<close>

definition recoverable :: "StoreOptions \<Rightarrow> Disk \<Rightarrow> RegistryState option \<Rightarrow> bool" where
  "recoverable options disk state \<longleftrightarrow> (\<exists>base cs tail. files disk base cs tail \<and> contents_ok (so_limits options) base cs
     \<and> torn_tail (so_limits options) tail \<and> length (journal_of (map entry_of cs) @ tail) \<le> max_journal_bytes (so_limits options) + 72
     \<and> held base cs = state)"

lemma recoverable_open:
  assumes "options_ok options" "recoverable options disk (Some s)"
  shows "\<exists>rep disk'. Store_open no_faults options disk = (Success Ok rep, disk') \<and> or_state rep = s"
  using assms open_recovers_files unfolding recoverable_def conclude_def by fastforce

text \<open>No stored generation is above \<open>g\<close>.\<close>

definition bounded_by :: "(RegistryState \<times> Tick) option \<Rightarrow> (u64 \<times> Tick \<times> RegistryState) list \<Rightarrow> u64 \<Rightarrow> bool" where
  "bounded_by base cs g \<longleftrightarrow> (\<forall>(s, t) \<in> set_option base. rs_store_generation s \<le> g) \<and> last_generation 0 (map entry_of cs) \<le> g"

text \<open>A bound store whose counters agree with its files.\<close>

definition synced :: "StoreImpl \<Rightarrow> Disk \<Rightarrow> (RegistryState \<times> Tick) option \<Rightarrow> (u64 \<times> Tick \<times> RegistryState) list \<Rightarrow> bool" where
  "synced store disk base cs \<longleftrightarrow> options_ok (si_options store) \<and> sync_on_commit (si_options store) \<and> files disk base cs []
     \<and> contents_ok (so_limits (si_options store)) base cs
     \<and> si_journal_size store = length (journal_of (map entry_of cs))
     \<and> si_journal_size store \<le> max_journal_bytes (so_limits (si_options store))
     \<and> last_sequence 0 (map entry_of cs) \<le> si_sequence store"

definition store_ready :: "StoreImpl \<Rightarrow> Disk \<Rightarrow> u64 \<Rightarrow> RegistryState option \<Rightarrow> bool" where
  "store_ready store disk g state \<longleftrightarrow> (\<exists>base cs. synced store disk base cs \<and> bounded_by base cs g \<and> held base cs = state)"

lemma torn_tail_Nil [simp]: "torn_tail limits []"
proof -
  have "entry_fits limits \<lparr>en_kind = JStateSnapshot, en_sequence = 0, en_created_at = 0, en_generation = 0, en_payload = []\<rparr>"
    by (simp add: entry_fits_def)
  from torn_tailI [OF this, of 0] show ?thesis by simp
qed

lemma synced_recoverable: "synced store disk base cs \<Longrightarrow> recoverable (si_options store) disk (held base cs)"
  unfolding synced_def recoverable_def by (intro exI [of _ base] exI [of _ cs] exI [of _ "[]"]) simp

lemma ascending_append: "ascending ps pg (es @ [e]) \<longleftrightarrow> ascending ps pg es \<and> last_sequence ps es < en_sequence e \<and> last_generation pg es \<le> en_generation e"
proof (induction es arbitrary: ps pg)
  case (Cons a es)
  then show ?case by (cases es) (auto simp: last_sequence_def last_generation_def)
qed (auto simp: last_sequence_def last_generation_def)

definition safe_rename :: "Io \<Rightarrow> bool" where
  "safe_rename io \<longleftrightarrow> io_rename io \<or> \<not> io_remove_snapshot io \<or> io_rename_again io"

lemma write_snapshot_cases:
  assumes w: "write_snapshot io s now (store, disk) = (out, store', disk')" and sync: "sync_on_commit (si_options store)"
  obtains (failed) "\<not> outcome_ok out" "store' = store" "dk_journal disk' = dk_journal disk"
      "dk_snapshot disk' = dk_snapshot disk \<or> dk_snapshot disk' = None \<and> \<not> safe_rename io"
  | (written) "outcome_ok out" "dk_snapshot disk' = Some (snapshot_bytes s now)" "dk_journal disk' = dk_journal disk"
      "store' = store\<lparr>si_written := si_written store + length (snapshot_bytes s now)\<rparr>"
  using w sync
  by (auto simp: write_snapshot_def Let_def write_file_def install_snapshot_def safe_rename_def
      split: if_splits option.splits WriteFault.splits prod.splits bool.splits)

lemma append_entry_cases:
  assumes a: "append_entry io kind payload now (store, disk) = (out, store', disk')" and sync: "sync_on_commit (si_options store)"
  defines "entry \<equiv> next_entry store kind payload now" and "old \<equiv> (case dk_journal disk of None \<Rightarrow> [] | Some j \<Rightarrow> j)"
  obtains (refused) "\<not> outcome_ok out" "store' = store" "disk' = disk"
  | (torn) n where "\<not> outcome_ok out" "store' = store" "disk' = disk\<lparr>dk_journal := Some (old @ take n (frame entry))\<rparr>"
      "length payload \<le> max_journal_entry_bytes (so_limits (si_options store))"
      "si_journal_size store + length (frame entry) \<le> max_journal_bytes (so_limits (si_options store))"
  | (appended) "outcome_ok out" "disk' = disk\<lparr>dk_journal := Some (old @ frame entry)\<rparr>"
      "store' = store\<lparr>si_sequence := si_sequence store + 1, si_entry_count := si_entry_count store + 1,
         si_journal_size := si_journal_size store + length (frame entry), si_written := si_written store + length (frame entry)\<rparr>"
      "length payload \<le> max_journal_entry_bytes (so_limits (si_options store))"
      "si_journal_size store + length (frame entry) \<le> max_journal_bytes (so_limits (si_options store))"
proof -
  let ?L = "so_limits (si_options store)"
  let ?room = "length payload \<le> max_journal_entry_bytes ?L \<and> si_journal_size store + length (frame entry) \<le> max_journal_bytes ?L
    \<and> si_entry_count store < max_journal_entries ?L"
  have len: "length (frame entry) = length payload + 80" "en_sequence entry = si_sequence store + 1" by (simp_all add: entry_def next_entry_def)
  note d = append_entry_def Let_def write_file_def store_sizes len entry_def [symmetric] old_def [symmetric]
  show thesis
  proof (cases ?room)
    case False
    then have "\<not> outcome_ok out \<and> store' = store \<and> disk' = disk"
      using a by (auto simp: d simp del: length_frame split: if_splits)
    then show thesis using refused by blast
  next
    case True
    then show thesis
    proof (cases "io_append io")
      case None
      with True a show thesis by (intro appended) (auto simp: d simp del: length_frame)
    next
      case (Some fault)
      show thesis
      proof (cases fault)
        case CannotOpen
        with True Some a show thesis by (intro refused) (auto simp: d simp del: length_frame)
      next
        case (ShortWrite n)
        with True Some a show thesis by (intro torn [of n]) (auto simp: d simp del: length_frame)
      next
        case (SyncFails n)
        with True Some a sync show thesis by (intro torn [of n]) (auto simp: d simp del: length_frame)
      qed
    qed
  qed
qed

lemma less_plus_one: "(x :: 'a::len word) \<noteq> - 1 \<Longrightarrow> x < x + 1"
  using unatSuc [of x] by (simp add: word_less_nat_alt add.commute [of 1] eq_neg_iff_add_eq_0)

lemma truncate_journal_cases:
  obtains "truncate_journal io disk = (True, disk\<lparr>dk_journal := Some []\<rparr>)" | "truncate_journal io disk = (False, disk)"
  by (cases "fst (truncate_journal io disk)") (auto simp: truncate_journal_def Let_def)

lemma synced_journal: "synced store disk base cs \<Longrightarrow> (case dk_journal disk of None \<Rightarrow> [] | Some j \<Rightarrow> j) = journal_of (map entry_of cs)"
  by (auto simp: synced_def files_def split: option.splits)

lemma synced_append:
  fixes now :: Tick
  assumes r: "synced store disk base cs" and b: "bounded_by base cs (rs_store_generation s)" and s: "state_ok s"
    and q: "si_sequence store \<noteq> - 1" and g: "si_generation store = rs_store_generation s"
    and fit: "length (encode_state s) \<le> max_journal_entry_bytes (so_limits (si_options store))"
  defines "c \<equiv> (si_sequence store + 1, now, s)"
  shows "next_entry store JStateSnapshot (encode_state s) now = entry_of c" "entry_fits (so_limits (si_options store)) (entry_of c)"
    "commits_ok (so_limits (si_options store)) (cs @ [c])" "held base (cs @ [c]) = Some s"
    "bounded_by base (cs @ [c]) (rs_store_generation s)" "last_sequence 0 (map entry_of (cs @ [c])) = si_sequence store + 1"
proof -
  show "next_entry store JStateSnapshot (encode_state s) now = entry_of c"
    using g by (simp add: next_entry_def entry_of_def c_def)
  show f: "entry_fits (so_limits (si_options store)) (entry_of c)"
    using fit r by (simp add: entry_fits_def c_def synced_def options_ok_def)
  have "si_sequence store < si_sequence store + 1" using q by (rule less_plus_one)
  then have "last_sequence 0 (map entry_of cs) < si_sequence store + 1" using r by (auto simp: synced_def)
  then show "commits_ok (so_limits (si_options store)) (cs @ [c])"
    using r b f s by (simp add: synced_def contents_ok_def commits_ok_def ascending_append c_def bounded_by_def)
  show "held base (cs @ [c]) = Some s" "bounded_by base (cs @ [c]) (rs_store_generation s)"
    using b by (simp_all add: held_def c_def bounded_by_def last_generation_def)
  show "last_sequence 0 (map entry_of (cs @ [c])) = si_sequence store + 1" by (simp add: last_sequence_def c_def)
qed

lemma held_newer:
  assumes "bounded_by base cs (rs_store_generation s)"
  shows "held (Some (s, now)) cs = held base cs \<or> held (Some (s, now)) cs = Some s"
  using assms by (cases base) (auto simp: held_def bounded_by_def)

text \<open>Rotation: a snapshot of the newest state, then an empty journal.\<close>

lemma rotate_outcome:
  assumes r: "synced store disk base cs" and b: "bounded_by base cs (rs_store_generation s)" and fit: "fits_snapshot (so_limits (si_options store)) s"
    and io: "safe_rename io" and rot: "rotate_store io s now failed (store, disk) = (out, store', disk')"
  shows "(recoverable (si_options store) disk' (held base cs) \<or> recoverable (si_options store) disk' (Some s))
    \<and> (outcome_ok out \<longrightarrow> store_ready store' disk' (rs_store_generation s) (Some s) \<and> si_options store' = si_options store)"
proof -
  have sync: "sync_on_commit (si_options store)" using r by (simp add: synced_def)
  obtain out1 store1 disk1 where w: "write_snapshot io s now (store, disk) = (out1, store1, disk1)" by (cases "write_snapshot io s now (store, disk)")
  from w sync show ?thesis
  proof (cases rule: write_snapshot_cases)
    case failed
    have "disk' = disk1" "\<not> outcome_ok out" using rot w failed(1) by (auto simp: rotate_store_def split: outcome.splits)
    moreover have "dk_snapshot disk1 = dk_snapshot disk" using failed(4) io by blast
    then have "recoverable (si_options store) disk1 (held base cs)"
      using synced_recoverable [OF r] failed(3) by (simp add: recoverable_def files_def)
    ultimately show ?thesis by simp
  next
    case written
    let ?base = "Some (s, now)"
    have new: "files disk1 ?base cs []" using r written by (simp add: synced_def files_def)
    have ok: "contents_ok (so_limits (si_options store)) ?base cs" using r fit by (simp add: synced_def contents_ok_def)
    have size: "length (journal_of (map entry_of cs) @ []) \<le> max_journal_bytes (so_limits (si_options store)) + 72" using r by (simp add: synced_def)
    show ?thesis
    proof (cases rule: truncate_journal_cases [of io disk1])
      case 2
      then have "disk' = disk1" "\<not> outcome_ok out"
        using rot w written(1) by (auto simp: rotate_store_def split: outcome.splits)
      moreover have "recoverable (si_options store) disk1 (held ?base cs)"
        using new ok size torn_tail_Nil unfolding recoverable_def by blast
      ultimately show ?thesis using held_newer [OF b, of now] by auto
    next
      case 1
      then have d: "disk' = disk1\<lparr>dk_journal := Some []\<rparr>" "store' = reset_journal store1"
        using rot w written(1) by (auto simp: rotate_store_def split: outcome.splits)
      have "files disk' ?base [] []" using new d by (simp add: files_def)
      then have "synced store' disk' ?base []"
        using r ok d(2) written(4) by (simp add: synced_def contents_ok_def commits_ok_def last_sequence_def reset_journal_def)
      moreover have "bounded_by ?base [] (rs_store_generation s)" "held ?base [] = Some s" by (simp_all add: bounded_by_def held_def last_generation_def)
      ultimately have "store_ready store' disk' (rs_store_generation s) (Some s)" unfolding store_ready_def by blast
      moreover have "si_options store' = si_options store" using d(2) written(4) by (simp add: reset_journal_def)
      moreover have "recoverable (si_options store) disk' (Some s)"
        using synced_recoverable [OF \<open>synced store' disk' ?base []\<close>] calculation(2) by (simp add: held_def)
      ultimately show ?thesis by simp
    qed
  qed
qed

lemma bounded_by_mono: "bounded_by base cs g \<Longrightarrow> g \<le> g' \<Longrightarrow> bounded_by base cs g'"
  unfolding bounded_by_def by fastforce

lemma commit_oversize:
  assumes "length (encode_state s) > max_journal_entry_bytes (so_limits (si_options store))"
  shows "\<exists>notes'. commit io s now notes (store, disk) =
    (case rotate_store io s now ''journal rotation failed'' (store\<lparr>si_generation := rs_store_generation s\<rparr>, disk) of (out, sd) \<Rightarrow> (out, notes', sd))"
  using assms by (auto simp: commit_def rotate_store_def Let_def split: outcome.splits prod.splits bool.splits)

lemma commit_journaled:
  assumes "length (encode_state s) \<le> max_journal_entry_bytes (so_limits (si_options store))"
  shows "\<exists>notes'. commit io s now notes (store, disk) =
    (case append_entry io JStateSnapshot (encode_state s) now (store\<lparr>si_generation := rs_store_generation s\<rparr>, disk) of (out, store', disk') \<Rightarrow>
      if outcome_ok out \<and> compact_after_entries (si_options store) \<noteq> 0 \<and> si_entry_count store' \<ge> compact_after_entries (si_options store)
      then (case rotate_store io s now ''journal rotation failed'' (store', disk') of (out', sd) \<Rightarrow> (if outcome_ok out' then out else out', notes', sd))
      else (out, notes', store', disk'))"
proof (cases "append_entry io JStateSnapshot (encode_state s) now (store\<lparr>si_generation := rs_store_generation s\<rparr>, disk)")
  case (fields out store' disk')
  show ?thesis
    using assms fields
    by (cases "compact_after_entries (si_options store) \<noteq> 0 \<and> si_entry_count store' \<ge> compact_after_entries (si_options store)")
      (auto simp: commit_def Let_def split: outcome.splits prod.splits)
qed

lemma recoverable_torn:
  assumes r: "synced store disk base cs" and e: "entry_fits (so_limits (si_options store)) e" and n: "n < length (frame e)"
    and room: "si_journal_size store + length (frame e) \<le> max_journal_bytes (so_limits (si_options store))"
  shows "recoverable (si_options store) (disk\<lparr>dk_journal := Some (journal_of (map entry_of cs) @ take n (frame e))\<rparr>) (held base cs)"
  unfolding recoverable_def
  using r n room torn_tailI [OF e n]
  by (intro exI [of _ base] exI [of _ cs] exI [of _ "take n (frame e)"]) (auto simp: synced_def files_def)

lemma commit_outcome:
  assumes ready: "store_ready store disk g h" and g: "g \<le> rs_store_generation s" and fit: "fits_snapshot (so_limits (si_options store)) s"
    and q: "si_sequence store \<noteq> - 1" and io: "safe_rename io" and com: "commit io s now notes (store, disk) = (out, notes', store', disk')"
  shows "(recoverable (si_options store) disk' h \<or> recoverable (si_options store) disk' (Some s))
    \<and> (outcome_ok out \<longrightarrow> store_ready store' disk' (rs_store_generation s) (Some s) \<and> si_options store' = si_options store)"
proof -
  define st where "st = store\<lparr>si_generation := rs_store_generation s\<rparr>"
  obtain base cs where r: "synced st disk base cs" and b: "bounded_by base cs (rs_store_generation s)" and h: "held base cs = h"
    using ready bounded_by_mono [OF _ g] by (auto simp: store_ready_def st_def synced_def)
  have opt: "si_options st = si_options store" "si_sequence st \<noteq> - 1" "si_generation st = rs_store_generation s" "sync_on_commit (si_options st)"
    using q r by (simp_all add: st_def synced_def)
  have fit': "fits_snapshot (so_limits (si_options st)) s" and s: "state_ok s" using fit opt(1) by (simp_all add: fits_snapshot_def)
  show ?thesis
  proof (cases "length (encode_state s) \<le> max_journal_entry_bytes (so_limits (si_options store))")
    case False
    then have "\<exists>ns. commit io s now notes (store, disk) = (case rotate_store io s now ''journal rotation failed'' (st, disk) of (out, sd) \<Rightarrow> (out, ns, sd))"
      unfolding st_def by (intro commit_oversize) simp
    then have "rotate_store io s now ''journal rotation failed'' (st, disk) = (out, store', disk')"
      unfolding com by (cases "rotate_store io s now ''journal rotation failed'' (st, disk)") auto
    from rotate_outcome [OF r b fit' io this] show ?thesis using h opt(1) by simp
  next
    case True
    note ap = synced_append [OF r b s opt(2,3), of now, unfolded opt(1), OF True]
    let ?c = "(si_sequence st + 1, now, s)"
    obtain out1 store1 disk1 where a: "append_entry io JStateSnapshot (encode_state s) now (st, disk) = (out1, store1, disk1)"
      by (cases "append_entry io JStateSnapshot (encode_state s) now (st, disk)")
    have shape: "if outcome_ok out1 \<and> compact_after_entries (si_options store) \<noteq> 0 \<and> si_entry_count store1 \<ge> compact_after_entries (si_options store)
        then \<exists>out2. rotate_store io s now ''journal rotation failed'' (store1, disk1) = (out2, store', disk') \<and> (outcome_ok out \<longrightarrow> outcome_ok out2)
        else out = out1 \<and> store' = store1 \<and> disk' = disk1"
      using commit_journaled [OF True, of io now "notes" disk] com a
      by (cases "rotate_store io s now ''journal rotation failed'' (store1, disk1)") (auto simp: st_def split: if_splits)
    from a opt(4) show ?thesis
    proof (cases rule: append_entry_cases)
      case refused
      then have "\<not> outcome_ok out" "disk' = disk" using shape by auto
      then show ?thesis using synced_recoverable [OF r] h opt(1) by simp
    next
      case (torn n)
      then have d: "\<not> outcome_ok out" "disk' = disk\<lparr>dk_journal := Some (journal_of (map entry_of cs) @ take n (frame (entry_of ?c)))\<rparr>"
        using shape ap(1) synced_journal [OF r] by auto
      show ?thesis
      proof (cases "n < length (frame (entry_of ?c))")
        case True
        then show ?thesis using recoverable_torn [OF r _ True] ap(1,2) torn(5) d h opt(1) by simp
      next
        case False
        then have "disk' = disk\<lparr>dk_journal := Some (journal_of (map entry_of (cs @ [?c])))\<rparr>" using d(2) by (simp add: journal_of_def)
        then have "recoverable (si_options st) disk' (held base (cs @ [?c]))"
          using r ap(1,3) torn(5) unfolding recoverable_def
          by (intro exI [of _ base] exI [of _ "cs @ [?c]"] exI [of _ "[]"]) (auto simp: synced_def files_def contents_ok_def journal_of_def opt(1))
        then show ?thesis using ap(4) d(1) opt(1) by simp
      qed
    next
      case appended
      have d: "disk1 = disk\<lparr>dk_journal := Some (journal_of (map entry_of (cs @ [?c])))\<rparr>"
        using appended(2) ap(1) synced_journal [OF r] by (simp add: journal_of_def)
      have sy: "synced store1 disk1 base (cs @ [?c])"
        using r appended(3,5) ap(1,3,6) d by (auto simp: synced_def files_def contents_ok_def journal_of_def opt(1))
      have o1: "si_options store1 = si_options store" using appended(3) opt(1) by simp
      show ?thesis
      proof (cases "compact_after_entries (si_options store) \<noteq> 0 \<and> si_entry_count store1 \<ge> compact_after_entries (si_options store)")
        case True
        then obtain out2 where rot: "rotate_store io s now ''journal rotation failed'' (store1, disk1) = (out2, store', disk')" "outcome_ok out \<longrightarrow> outcome_ok out2"
          using shape appended(1) by auto
        from rotate_outcome [OF sy ap(5) _ io rot(1)] show ?thesis using rot(2) ap(4) fit o1 by auto
      next
        case False
        then have "out = out1" "store' = store1" "disk' = disk1" using shape by auto
        moreover have "store_ready store1 disk1 (rs_store_generation s) (Some s)" using sy ap(4,5) unfolding store_ready_def by blast
        ultimately show ?thesis using synced_recoverable [OF sy] ap(4) o1 by simp
      qed
    qed
  qed
qed

lemma bind_ready:
  assumes "options_ok options" "sync_on_commit options" "files disk base [] []" "contents_ok (so_limits options) base []" "bounded_by base [] g"
    "Store_bind no_faults options disk = Success c store"
  shows "store_ready store disk g (map_option fst base)"
proof -
  have "synced store disk base []"
    using assms by (auto simp: synced_def Store_bind_def options_ok_def files_def last_sequence_def split: option.splits if_splits)
  then show ?thesis using assms(5) unfolding store_ready_def by (intro exI [of _ base] exI [of _ "[]"]) (simp add: held_def)
qed

text \<open>
  C6: a commit is durable and atomic. Take a bound store whose counters agree with its files and which holds the
  state \<open>h\<close>, and commit a well-formed state that fits the snapshot bound, under any pattern of I/O faults in which the
  snapshot rename does not fail twice. If the commit is acknowledged, opening the files gives exactly the committed
  state, discards nothing, and the store is ready for the next commit. If it is not (a fault or a crash at any byte),
  opening gives the committed state or the one before, never a mixture and never a refusal.
\<close>

theorem commit_durable_atomic:
  assumes "store_ready store disk g (Some s0)" "g \<le> rs_store_generation s" "fits_snapshot (so_limits (si_options store)) s"
    "si_sequence store \<noteq> - 1" "safe_rename io" "commit io s now notes (store, disk) = (out, notes', store', disk')"
  shows "\<exists>rep disk''. Store_open no_faults (si_options store) disk' = (Success Ok rep, disk'') \<and> or_state rep \<in> {s0, s}
     \<and> (outcome_ok out \<longrightarrow> or_state rep = s \<and> store_ready store' disk' (rs_store_generation s) (Some s))"
proof -
  have o: "options_ok (si_options store)" using assms(1) by (auto simp: store_ready_def synced_def)
  note c = commit_outcome [OF assms]
  show ?thesis
  proof (cases "outcome_ok out")
    case True
    then have r: "store_ready store' disk' (rs_store_generation s) (Some s)" "si_options store' = si_options store" using c by auto
    then have "recoverable (si_options store) disk' (Some s)" using synced_recoverable by (fastforce simp: store_ready_def)
    from recoverable_open [OF o this] show ?thesis using r(1) by auto
  next
    case False
    then show ?thesis using c recoverable_open [OF o] by fastforce
  qed
qed

definition journal_room :: "StoreImpl \<Rightarrow> RegistryState \<Rightarrow> bool" where
  "journal_room store s \<longleftrightarrow> si_journal_size store + length (encode_state s) + 80 \<le> max_journal_bytes (so_limits (si_options store))
     \<and> si_entry_count store < max_journal_entries (so_limits (si_options store))"

lemma write_no_faults: "outcome_ok (fst (write_snapshot no_faults s now (store, disk)))
    \<longleftrightarrow> length (encode_state s) \<le> max_snapshot_bytes (so_limits (si_options store))"
  by (simp add: write_snapshot_def Let_def write_file_def install_snapshot_def no_faults_def not_less)

lemma rotate_no_faults: "outcome_ok (fst (rotate_store no_faults s now failed (store, disk)))
    \<longleftrightarrow> length (encode_state s) \<le> max_snapshot_bytes (so_limits (si_options store))"
  using write_no_faults [of s now store disk]
  by (auto simp: rotate_store_def truncate_journal_def no_faults_def split: outcome.splits prod.splits)

lemma append_no_faults:
  fixes kind :: JournalKind and now :: Tick and disk :: Disk
  assumes "length payload \<le> max_journal_entry_bytes (so_limits (si_options store))"
  defines "a \<equiv> append_entry no_faults kind payload now (store, disk)"
    and "room \<equiv> si_journal_size store + length payload + 80 \<le> max_journal_bytes (so_limits (si_options store))
      \<and> si_entry_count store < max_journal_entries (so_limits (si_options store))"
  shows "outcome_ok (fst a) \<longleftrightarrow> room"
    "room \<Longrightarrow> si_entry_count (fst (snd a)) = si_entry_count store + 1 \<and> si_options (fst (snd a)) = si_options store"
    "\<not> room \<Longrightarrow> \<exists>detail. a = (Failure StoreRotationPerformed detail, store, disk)"
  using assms(1) by (auto simp: a_def room_def append_entry_def Let_def write_file_def no_faults_def store_sizes)

lemma commit_no_faults:
  "(outcome_ok (fst (commit no_faults s now notes (store, disk))) \<longleftrightarrow>
     (let limits = so_limits (si_options store); rotation = compact_after_entries (si_options store);
          size = length (encode_state s)
      in if size > max_journal_entry_bytes limits then size \<le> max_snapshot_bytes limits
         else journal_room store s \<and> (rotation \<noteq> 0 \<and> rotation \<le> si_entry_count store + 1 \<longrightarrow> size \<le> max_snapshot_bytes limits)))
   \<and> (\<not> length (encode_state s) > max_journal_entry_bytes (so_limits (si_options store)) \<and> \<not> journal_room store s \<longrightarrow>
       (\<exists>detail store'. commit no_faults s now notes (store, disk) = (Failure StoreRotationPerformed detail, notes, store', disk)))"
proof (cases "length (encode_state s) > max_journal_entry_bytes (so_limits (si_options store))")
  case True
  obtain ns where "commit no_faults s now notes (store, disk) =
      (case rotate_store no_faults s now ''journal rotation failed'' (store\<lparr>si_generation := rs_store_generation s\<rparr>, disk) of (out, sd) \<Rightarrow> (out, ns, sd))"
    using commit_oversize [OF True] by blast
  then show ?thesis using True by (simp add: rotate_no_faults split_beta)
next
  case False
  let ?st = "store\<lparr>si_generation := rs_store_generation s\<rparr>"
  let ?a = "append_entry no_faults JStateSnapshot (encode_state s) now (?st, disk)"
  have room: "outcome_ok (fst ?a) \<longleftrightarrow> journal_room store s"
    "journal_room store s \<Longrightarrow> si_entry_count (fst (snd ?a)) = si_entry_count store + 1 \<and> si_options (fst (snd ?a)) = si_options store"
    "\<not> journal_room store s \<Longrightarrow> \<exists>detail. ?a = (Failure StoreRotationPerformed detail, ?st, disk)"
    using append_no_faults [of "encode_state s" ?st JStateSnapshot now disk] False by (simp_all add: journal_room_def)
  show ?thesis
  proof (cases "journal_room store s")
    case True
    obtain out store' disk' where a: "?a = (out, store', disk')" by (cases ?a)
    obtain ns where "commit no_faults s now notes (store, disk) =
      (if compact_after_entries (si_options store) \<noteq> 0 \<and> si_entry_count store + 1 \<ge> compact_after_entries (si_options store)
      then (case rotate_store no_faults s now ''journal rotation failed'' (store', disk') of (out', sd) \<Rightarrow> (if outcome_ok out' then out else out', ns, sd))
      else (out, ns, store', disk'))" "outcome_ok out"
      using commit_journaled [of s store no_faults now "notes" disk] False room(1,2) True a by auto
    then show ?thesis using True False room(2) a by (simp add: split_beta rotate_no_faults)
  next
    case no: False
    then show ?thesis using room(3) False by (fastforce simp: commit_def Let_def)
  qed
qed

text \<open>
  C23: which commits are acknowledged when no I/O fails. A state larger than a journal entry may be is acknowledged exactly when
  it fits the snapshot bound. Any other is acknowledged exactly when the journal has room for one more entry of its size
  and, if that entry makes the rotation due, the state fits the snapshot bound as well. With no room in the journal the
  commit fails with \<open>StoreRotationPerformed\<close> and changes no file, although nothing was rotated and the state may fit a snapshot.
\<close>

theorem commit_acknowledged:
  "(outcome_ok (fst (commit no_faults s now notes (store, disk))) \<longleftrightarrow>
     (let limits = so_limits (si_options store); rotation = compact_after_entries (si_options store);
          size = length (encode_state s)
      in if size > max_journal_entry_bytes limits then size \<le> max_snapshot_bytes limits
         else journal_room store s \<and> (rotation \<noteq> 0 \<and> rotation \<le> si_entry_count store + 1 \<longrightarrow> size \<le> max_snapshot_bytes limits)))
   \<and> (\<not> length (encode_state s) > max_journal_entry_bytes (so_limits (si_options store)) \<and> \<not> journal_room store s \<longrightarrow>
       (\<exists>detail store'. commit no_faults s now notes (store, disk) = (Failure StoreRotationPerformed detail, notes, store', disk)))"
  by (rule commit_no_faults)

text \<open>Sample stores for the witnesses.\<close>

definition sample_options :: StoreOptions where
  "sample_options = default_store_options ''db''"

definition sample_state :: "u64 \<Rightarrow> RegistryState" where
  "sample_state g = default_state\<lparr>rs_store_generation := g\<rparr>"

definition sample_disk :: "u64 \<Rightarrow> Disk" where
  "sample_disk g = \<lparr>dk_snapshot = Some (snapshot_bytes (sample_state g) 0), dk_journal = None, dk_temp = None\<rparr>"

definition sample_store :: StoreImpl where
  "sample_store = \<lparr>si_options = sample_options, si_sequence = 0, si_entry_count = 0, si_journal_size = 0, si_written = 0, si_generation = 0\<rparr>"

lemma sample_state_ok: "state_ok (sample_state g)"
  by (simp add: sample_state_def default_state_def default_policy_def state_ok_def policy_ok_def collection_ok_def default_limits_def limits_ok_def
      size_ok_def kMaxFeaturesPerRecord_def kMaxLimitsPerRecord_def kMaxCollectionEntries_def)

lemma sample_state_size: "length (encode_state (sample_state g)) = 354"
  by (simp add: sample_state_def default_state_def default_policy_def encode_state_def encode_registry_policy_def encode_limits_def encode_counters_def
      w_list_def w_size_def w_str_def w_boolean_def)

lemma sample_fits: "fits_snapshot (so_limits sample_options) (sample_state g)" "options_ok sample_options"
  by (simp_all add: fits_snapshot_def sample_state_ok sample_state_size sample_options_def default_store_options_def default_store_limits_def options_ok_def)

lemma sample_ready: "store_ready sample_store (sample_disk g) g (Some (sample_state g))"
proof -
  have "files (sample_disk g) (Some (sample_state g, 0)) [] []" by (simp add: files_def sample_disk_def)
  then have "synced sample_store (sample_disk g) (Some (sample_state g, 0)) []"
    using sample_fits by (simp add: synced_def sample_store_def contents_ok_def commits_ok_def last_sequence_def)
      (simp add: sample_options_def default_store_options_def)
  moreover have "bounded_by (Some (sample_state g, 0)) [] g" by (simp add: bounded_by_def last_generation_def sample_state_def)
  ultimately show ?thesis unfolding store_ready_def by (intro exI [of _ "Some (sample_state g, 0)"] exI [of _ "[]"]) (simp add: held_def)
qed

lemma sample_acknowledged: "outcome_ok (fst (commit no_faults (sample_state g) now notes (sample_store, disk)))"
  by (simp add: commit_no_faults sample_state_size sample_store_def sample_options_def default_store_options_def default_store_limits_def journal_room_def Let_def)

theorem commit_acknowledged_witness:
  "outcome_ok (fst (commit no_faults (sample_state 2) 7 [] (sample_store, sample_disk 1)))
   \<and> (\<exists>detail store'. commit no_faults (sample_state 2) 7 [] (sample_store\<lparr>si_entry_count := 65536\<rparr>, sample_disk 1)
        = (Failure StoreRotationPerformed detail, [], store', sample_disk 1))"
  using commit_acknowledged [of "sample_state 2" 7 "[]" sample_store "sample_disk 1"]
    commit_acknowledged [of "sample_state 2" 7 "[]" "sample_store\<lparr>si_entry_count := 65536\<rparr>" "sample_disk 1"]
  by (simp add: sample_state_size sample_store_def sample_options_def default_store_options_def default_store_limits_def journal_room_def)

theorem commit_durable_atomic_witness:
  "\<exists>rep disk''. Store_open no_faults sample_options (snd (snd (snd (commit no_faults (sample_state 2) 7 [] (sample_store, sample_disk 1)))))
      = (Success Ok rep, disk'') \<and> or_state rep = sample_state 2"
proof -
  have q: "safe_rename no_faults" "si_sequence sample_store \<noteq> - 1" "si_options sample_store = sample_options" "1 \<le> rs_store_generation (sample_state 2)"
    by (simp_all add: safe_rename_def no_faults_def sample_store_def sample_state_def)
  obtain out ns st d where c: "commit no_faults (sample_state 2) 7 [] (sample_store, sample_disk 1) = (out, ns, st, d)"
    by (cases "commit no_faults (sample_state 2) 7 [] (sample_store, sample_disk 1)")
  have "outcome_ok out" using sample_acknowledged [of 2 7 "[]" "sample_disk 1"] by (simp add: c)
  then show ?thesis
    using commit_durable_atomic [OF sample_ready q(4) _ q(2,1) c] sample_fits q(3) by (auto simp: c)
qed

section \<open>Acknowledged commits that are lost\<close>

lemma ascending_last: "ascending ps pg es \<Longrightarrow> es \<noteq> [] \<Longrightarrow> ps < last_sequence ps es"
proof (induction es arbitrary: ps pg)
  case (Cons e es)
  then show ?case by (cases es) (auto simp: last_sequence_def dest: less_trans)
qed simp

lemma scan_loop_Nil [simp]: "scan_loop limits pos [] ps pg scan = scan"
  by (subst scan_loop.simps) simp

text \<open>An intact entry whose sequence number does not advance is skipped.\<close>

lemma scanned_skipped:
  assumes ok: "commits_ok limits cs" and ne: "cs \<noteq> []" and e: "entry_fits limits e" and q: "en_sequence e \<le> last_sequence 0 (map entry_of cs)"
  shows "scanned (scan_journal (journal_of (map entry_of cs) @ frame e) limits) cs 0"
proof -
  have fits: "list_all (entry_fits limits) (map entry_of cs)" and asc: "ascending 0 0 (map entry_of cs)"
    using ok by (auto simp: commits_ok_def list_all_iff)
  have asc': "ascending 0 (last_snapshot_generation fresh_scan) (map entry_of cs)" using asc by simp
  note re = replayed_commits [OF asc' ne, of 0]
  show ?thesis
    unfolding scan_journal_def scan_journal_of [OF fits asc, of 0 "frame e" fresh_scan]
    using scan_frame [OF e, of 0 "[]"] ne q by (simp add: scan_frame [OF e, of _ "[]", simplified] re Let_def scanned_def seen_def)
qed

text \<open>Bytes that do not start with the journal magic end the scan, and everything from there on is discarded.\<close>

lemma scanned_garbage:
  assumes ok: "commits_ok limits cs" and tail: "72 \<le> length tail" "get_u32 tail 0 \<noteq> kJournalMagic"
  shows "scanned (scan_journal (journal_of (map entry_of cs) @ tail) limits) cs (length tail)"
proof -
  have fits: "list_all (entry_fits limits) (map entry_of cs)" and asc: "ascending 0 0 (map entry_of cs)"
    using ok by (auto simp: commits_ok_def list_all_iff)
  have asc': "ascending 0 (last_snapshot_generation fresh_scan) (map entry_of cs)" using asc by simp
  have loop: "scan_loop limits pos tail ps pg scan = broken StoreJournalCorrupt (length tail) scan" for pos ps pg scan
    using tail by (subst scan_loop.simps) (auto simp: parse_journal_header_def store_sizes)
  show ?thesis
    unfolding scan_journal_def scan_journal_of [OF fits asc, of 0 tail fresh_scan] loop
    using replayed_commits [OF asc', of 0] by (cases "cs = []") (simp_all add: Let_def scanned_def broken_def)
qed

lemma frame_magic: "\<exists>r. frame e = [0x4F, 0x43, 0x4A, 0x52] @ r"
proof -
  have "w_u32 kJournalMagic = [0x4F, 0x43, 0x4A, 0x52]" by code_simp
  then show ?thesis by (simp add: frame_def serialize_journal_header_def journal_prefix_def)
qed

lemma magic_after_torn:
  assumes "0 < n" "n < 4"
  shows "get_u32 (take n (frame e) @ frame e') 0 \<noteq> kJournalMagic"
proof -
  obtain r r' where f: "frame e = [0x4F, 0x43, 0x4A, 0x52] @ r" "frame e' = [0x4F, 0x43, 0x4A, 0x52] @ r'" using frame_magic by metis
  have "n = 1 \<or> n = 2 \<or> n = 3" using assms by auto
  moreover have "be_word [0x4F, 0x4F, 0x43, 0x4A] \<noteq> kJournalMagic" "be_word [0x4F, 0x43, 0x4F, 0x43] \<noteq> kJournalMagic"
    "be_word [0x4F, 0x43, 0x4A, 0x4F] \<noteq> kJournalMagic" by code_simp+
  ultimately show ?thesis by (auto simp: f get_u32_def eval_nat_numeral)
qed

definition no_rotation :: "StoreImpl \<Rightarrow> bool" where
  "no_rotation store \<longleftrightarrow> compact_after_entries (si_options store) = 0 \<or> si_entry_count store + 1 < compact_after_entries (si_options store)"

lemma commit_appends:
  assumes size: "length (encode_state s) \<le> max_journal_entry_bytes (so_limits (si_options store))"
    and room: "journal_room store s" "no_rotation store" "sync_on_commit (si_options store)"
    and com: "commit no_faults s now notes (store, disk) = (out, ns, store', disk')"
  shows "outcome_ok out" "disk' = disk\<lparr>dk_journal := Some ((case dk_journal disk of None \<Rightarrow> [] | Some j \<Rightarrow> j)
    @ frame (next_entry (store\<lparr>si_generation := rs_store_generation s\<rparr>) JStateSnapshot (encode_state s) now))\<rparr>"
proof -
  let ?st = "store\<lparr>si_generation := rs_store_generation s\<rparr>"
  obtain out1 store1 disk1 where a: "append_entry no_faults JStateSnapshot (encode_state s) now (?st, disk) = (out1, store1, disk1)"
    by (cases "append_entry no_faults JStateSnapshot (encode_state s) now (?st, disk)")
  have r: "outcome_ok out1" "si_entry_count store1 = si_entry_count store + 1"
    using append_no_faults [of "encode_state s" ?st JStateSnapshot now disk] size room(1) a by (simp_all add: journal_room_def)
  have "\<exists>ns. commit no_faults s now notes (store, disk) = (out1, ns, store1, disk1)"
    using commit_journaled [OF size, of no_faults now "notes" disk] a r room(2) by (auto simp: no_rotation_def)
  then have same: "out = out1" "disk' = disk1" using com by simp_all
  have sync: "sync_on_commit (si_options ?st)" using room(3) by simp
  show "outcome_ok out" using same r by simp
  from a sync show "disk' = disk\<lparr>dk_journal := Some ((case dk_journal disk of None \<Rightarrow> [] | Some j \<Rightarrow> j)
    @ frame (next_entry ?st JStateSnapshot (encode_state s) now))\<rparr>"
    by (cases rule: append_entry_cases) (use r same in simp_all)
qed

lemma open_journal_bytes:
  assumes o: "options_ok options" and f: "files disk base cs []" and ok: "contents_ok (so_limits options) base cs"
    and h: "held base cs = Some s0" and scan: "scanned (scan_journal j (so_limits options)) cs d"
    and size: "length j \<le> max_journal_bytes (so_limits options) + 72"
  shows "\<exists>rep disk'. Store_open no_faults options (disk\<lparr>dk_journal := Some j\<rparr>) = (Success Ok rep, disk') \<and> or_state rep = s0"
proof -
  have snap: "dk_snapshot (disk\<lparr>dk_journal := Some j\<rparr>) = map_option (\<lambda>(s, t). snapshot_bytes s t) base" using f by (simp add: files_def)
  from open_scanned [OF o snap ok, of d] scan size h show ?thesis by (fastforce simp: conclude_def)
qed

lemma rebound_commit_skipped:
  assumes "options_ok options" "sync_on_commit options" "files disk base cs []" "contents_ok (so_limits options) base cs" "cs \<noteq> []"
    "Store_bind no_faults options disk = Success c store" "length (encode_state s) \<le> max_journal_entry_bytes (so_limits options)"
    "journal_room store s" "no_rotation store" "held base cs = Some s0"
    "commit no_faults s now notes (store, disk) = (out, ns, store', disk')"
  shows "outcome_ok out \<and> (\<exists>rep disk''. Store_open no_faults options disk' = (Success Ok rep, disk'') \<and> or_state rep = s0)"
proof -
  have st: "si_options store = options" "si_sequence store = 0" "journal_of (map entry_of cs) = (case dk_journal disk of None \<Rightarrow> [] | Some j \<Rightarrow> j)"
    "si_journal_size store = length (journal_of (map entry_of cs))"
    using assms(1,3,5,6) by (auto simp: Store_bind_def options_ok_def files_def no_faults_def split: if_splits option.splits)
  let ?e = "next_entry (store\<lparr>si_generation := rs_store_generation s\<rparr>) JStateSnapshot (encode_state s) now"
  have com: "outcome_ok out" "disk' = disk\<lparr>dk_journal := Some (journal_of (map entry_of cs) @ frame ?e)\<rparr>"
    using commit_appends [OF _ assms(8,9) _ assms(11)] assms(2,7) st(1,3) by simp_all
  have ok: "commits_ok (so_limits options) cs" using assms(4) by (simp add: contents_ok_def)
  have "0 < last_sequence 0 (map entry_of cs)" using ok assms(5) ascending_last by (auto simp: commits_ok_def)
  then have "1 \<le> last_sequence 0 (map entry_of cs)" by (simp add: word_le_nat_alt word_less_nat_alt)
  then have q: "en_sequence ?e \<le> last_sequence 0 (map entry_of cs)" using st(2) by (simp add: next_entry_def)
  have e: "entry_fits (so_limits options) ?e" using assms(1,7) by (simp add: entry_fits_def options_ok_def next_entry_def)
  have "length (journal_of (map entry_of cs) @ frame ?e) \<le> max_journal_bytes (so_limits options) + 72"
    using assms(8) st(1,4) by (simp add: journal_room_def next_entry_def)
  from open_journal_bytes [OF assms(1,3,4,10) scanned_skipped [OF ok assms(5) e q] this] show ?thesis using com by simp
qed

text \<open>
  C24: commits through a second binding are lost. \<open>Store::bind\<close> starts its sequence at 0 although the journal already
  holds entries, so the first commit of a process that binds an existing store is written with sequence 1 and, although
  it is acknowledged as durable, the next open skips it as a replay: the state recovered is the one before it.
\<close>

theorem rebound_commit_lost:
  assumes "options_ok options" "sync_on_commit options" "files disk base cs []" "contents_ok (so_limits options) base cs" "cs \<noteq> []"
    "Store_bind no_faults options disk = Success c store" "length (encode_state s) \<le> max_journal_entry_bytes (so_limits options)"
    "journal_room store s" "no_rotation store" "held base cs = Some s0"
    "commit no_faults s now notes (store, disk) = (out, ns, store', disk')"
  shows "outcome_ok out \<and> (\<exists>rep disk''. Store_open no_faults options disk' = (Success Ok rep, disk'') \<and> or_state rep = s0)"
  using assms by (rule rebound_commit_skipped)

definition sample_journal :: Disk where
  "sample_journal = \<lparr>dk_snapshot = None, dk_journal = Some (frame (entry_of (1, 3, sample_state 1))), dk_temp = None\<rparr>"

definition sample_rebound :: StoreImpl where
  "sample_rebound = sample_store\<lparr>si_journal_size := 434\<rparr>"

lemma sample_journal_files: "files sample_journal None [(1, 3, sample_state 1)] []" "contents_ok (so_limits sample_options) None [(1, 3, sample_state 1)]"
  "held None [(1, 3, sample_state 1)] = Some (sample_state 1)"
  "sync_on_commit sample_options" "length (encode_state (sample_state g)) \<le> max_journal_entry_bytes (so_limits sample_options)"
  by (simp_all add: files_def sample_journal_def journal_of_def contents_ok_def commits_ok_def entry_fits_def sample_state_ok sample_state_size
      sample_options_def default_store_options_def default_store_limits_def held_def)

lemma sample_room: "journal_room sample_rebound (sample_state g)" "no_rotation sample_rebound" "si_options sample_rebound = sample_options"
  by (simp_all add: journal_room_def no_rotation_def sample_rebound_def sample_state_size sample_store_def sample_options_def default_store_options_def
      default_store_limits_def)

theorem rebound_commit_lost_witness:
  "Store_bind no_faults sample_options sample_journal = Success Ok sample_rebound
   \<and> outcome_ok (fst (commit no_faults (sample_state 2) 9 [] (sample_rebound, sample_journal)))
   \<and> (\<exists>rep disk''. Store_open no_faults sample_options (snd (snd (snd (commit no_faults (sample_state 2) 9 [] (sample_rebound, sample_journal)))))
        = (Success Ok rep, disk'') \<and> or_state rep = sample_state 1)"
proof -
  have b: "Store_bind no_faults sample_options sample_journal = Success Ok sample_rebound"
    by (simp add: Store_bind_def sample_rebound_def sample_store_def sample_journal_def no_faults_def sample_state_size)
      (simp add: sample_options_def default_store_options_def)
  obtain out ns st d where c: "commit no_faults (sample_state 2) 9 [] (sample_rebound, sample_journal) = (out, ns, st, d)"
    by (cases "commit no_faults (sample_state 2) 9 [] (sample_rebound, sample_journal)")
  show ?thesis
    using rebound_commit_lost [OF sample_fits(2) sample_journal_files(4,1,2) _ b sample_journal_files(5) sample_room(1,2) sample_journal_files(3) c] b
    by (simp add: c)
qed

text \<open>
  C25: a failed append poisons the journal. When an append stops after one, two or three bytes, the commit fails, but the
  store keeps appending behind the fragment: the next commit of the same binding is acknowledged as durable, and the
  next open discards it together with the fragment and recovers the state before both.
\<close>

theorem failed_append_poisons:
  assumes s: "synced store disk base cs" and h: "held base cs = Some s0" and n: "0 < n" "n < 4"
    and one: "length (encode_state s1) \<le> max_journal_entry_bytes (so_limits (si_options store))" "journal_room store s1"
      "commit (no_faults\<lparr>io_append := Some (ShortWrite n)\<rparr>) s1 now1 notes1 (store, disk) = (out1, ns1, store1, disk1)"
    and two: "length (encode_state s2) \<le> max_journal_entry_bytes (so_limits (si_options store))" "journal_room store s2" "no_rotation store"
      "commit no_faults s2 now2 notes2 (store1, disk1) = (out2, ns2, store2, disk2)"
  shows "\<not> outcome_ok out1 \<and> outcome_ok out2
    \<and> (\<exists>rep disk'. Store_open no_faults (si_options store) disk2 = (Success Ok rep, disk') \<and> or_state rep = s0)"
proof -
  let ?e1 = "next_entry (store\<lparr>si_generation := rs_store_generation s1\<rparr>) JStateSnapshot (encode_state s1) now1"
  let ?old = "journal_of (map entry_of cs)"
  have old: "(case dk_journal disk of None \<Rightarrow> [] | Some j \<Rightarrow> j) = ?old" by (rule synced_journal [OF s])
  have first: "\<not> outcome_ok out1" "store1 = store\<lparr>si_generation := rs_store_generation s1\<rparr>"
    "disk1 = disk\<lparr>dk_journal := Some (?old @ take n (frame ?e1))\<rparr>"
    using one old by (auto simp: commit_def append_entry_def Let_def write_file_def store_sizes journal_room_def)
  let ?e2 = "next_entry (store1\<lparr>si_generation := rs_store_generation s2\<rparr>) JStateSnapshot (encode_state s2) now2"
  let ?tail = "take n (frame ?e1) @ frame ?e2"
  have opts: "si_options store1 = si_options store" "sync_on_commit (si_options store1)" "journal_room store1 s2" "no_rotation store1"
    "length (encode_state s2) \<le> max_journal_entry_bytes (so_limits (si_options store1))"
    using s two(1-3) by (simp_all add: first(2) synced_def journal_room_def no_rotation_def)
  note second = commit_appends [OF opts(5,3,4,2) two(4)]
  have d2: "disk2 = disk\<lparr>dk_journal := Some (?old @ ?tail)\<rparr>" using second(2) by (simp add: first(3))
  have sy: "options_ok (si_options store)" "files disk base cs []" "contents_ok (so_limits (si_options store)) base cs"
    "commits_ok (so_limits (si_options store)) cs" using s by (simp_all add: synced_def contents_ok_def)
  have "72 \<le> length ?tail" by simp
  from scanned_garbage [OF sy(4) this magic_after_torn [OF n]]
  have scan: "scanned (scan_journal (?old @ ?tail) (so_limits (si_options store))) cs (length ?tail)" .
  have "length (?old @ ?tail) \<le> max_journal_bytes (so_limits (si_options store)) + 72"
    using s two(2) n by (simp add: synced_def journal_room_def next_entry_def min_def)
  from open_journal_bytes [OF sy(1-3) h scan this] show ?thesis using first(1) second(1) d2 by simp
qed

definition sample_bound :: StoreImpl where
  "sample_bound = sample_rebound\<lparr>si_sequence := 1, si_entry_count := 1\<rparr>"

lemma sample_synced: "synced sample_bound sample_journal None [(1, 3, sample_state 1)]"
  using sample_journal_files(1,2,4) sample_fits(2)
  by (simp add: synced_def sample_bound_def sample_rebound_def sample_store_def journal_of_def sample_state_size last_sequence_def)
    (simp add: sample_options_def default_store_options_def default_store_limits_def)

theorem failed_append_poisons_witness:
  "let fault = no_faults\<lparr>io_append := Some (ShortWrite 2)\<rparr>;
       first = commit fault (sample_state 2) 9 [] (sample_bound, sample_journal);
       second = commit no_faults (sample_state 2) 9 [] (snd (snd first))
   in \<not> outcome_ok (fst first) \<and> outcome_ok (fst second)
      \<and> (\<exists>rep disk'. Store_open no_faults sample_options (snd (snd (snd second))) = (Success Ok rep, disk') \<and> or_state rep = sample_state 1)"
proof -
  have o: "si_options sample_bound = sample_options" by (simp add: sample_bound_def sample_room)
  have r: "journal_room sample_bound (sample_state 2)" "no_rotation sample_bound"
    by (simp_all add: journal_room_def no_rotation_def sample_bound_def sample_rebound_def sample_state_size sample_store_def sample_options_def
        default_store_options_def default_store_limits_def)
  have z: "length (encode_state (sample_state 2)) \<le> max_journal_entry_bytes (so_limits (si_options sample_bound))"
    using sample_journal_files(5) o by simp
  obtain out ns st d where c: "commit (no_faults\<lparr>io_append := Some (ShortWrite 2)\<rparr>) (sample_state 2) 9 [] (sample_bound, sample_journal) = (out, ns, st, d)"
    by (cases "commit (no_faults\<lparr>io_append := Some (ShortWrite 2)\<rparr>) (sample_state 2) 9 [] (sample_bound, sample_journal)")
  obtain out2 ns2 st2 d2 where c2: "commit no_faults (sample_state 2) 9 [] (st, d) = (out2, ns2, st2, d2)"
    by (cases "commit no_faults (sample_state 2) 9 [] (st, d)")
  show ?thesis
    using failed_append_poisons [OF sample_synced sample_journal_files(3) _ _ z r(1) c z r c2] o by (simp add: c c2 Let_def)
qed

section \<open>What an open may do\<close>

lemma default_state_ok: "state_ok default_state"
  using sample_state_ok [of 0] by (simp add: sample_state_def default_state_def)

lemma decode_payload_Success: "decode_payload payload r t = Success c s \<Longrightarrow> decode_state payload = Inr (s, [])"
  by (auto simp: decode_payload_def split: sum.splits prod.splits if_splits)

lemma check_snapshot_Success: "check_snapshot data = Success c s \<Longrightarrow> state_ok s"
  by (auto simp: check_snapshot_def Let_def dest!: decode_payload_Success state_codec.dec_wf split: sum.splits if_splits)

lemma read_whole_file_Success: "read_whole_file fault path contents bound = Success c data \<Longrightarrow> data = contents"
  by (auto simp: read_whole_file_def split: if_splits)

lemma open_snapshot_Success:
  assumes "open_snapshot io options contents rep = Success c (rep', state)"
  shows "or_existed rep' = or_existed rep \<and> (\<exists>s c'. state = Some s \<and> check_snapshot contents = Success c' s)"
  using assms by (auto simp: open_snapshot_def dest!: read_whole_file_Success split: outcome.splits)

lemma replay_journal_Success:
  assumes "replay_journal scan rep state = Success c (rep', state')"
  shows "or_existed rep' = or_existed rep \<and> (state' = state \<or> (\<exists>s. state' = Some s \<and> decode_state (last_snapshot_payload scan) = Inr (s, [])))"
  using assms by (auto simp: replay_journal_def Let_def dest!: decode_payload_Success split: outcome.splits if_splits)

lemma open_journal_effect:
  assumes "open_journal io options contents rep state disk = (out, disk')"
  shows "dk_snapshot disk' = dk_snapshot disk" "dk_journal disk' = dk_journal disk \<or> (\<exists>n. dk_journal disk' = Some (take n contents))"
    "out = Success c (rep', state') \<Longrightarrow> or_existed rep' = or_existed rep
       \<and> (state' = state \<or> (\<exists>s. state' = Some s \<and> decode_state (last_snapshot_payload (scan_journal contents (so_limits options))) = Inr (s, [])))"
  using assms
  by (auto simp: open_journal_def Let_def classify_scan_fields dest!: read_whole_file_Success replay_journal_Success
      split: outcome.splits prod.splits if_splits)

lemma sweep_temp_frame: "sweep_temp io rep disk = (rep', disk') \<Longrightarrow> dk_snapshot disk' = dk_snapshot disk \<and> dk_journal disk' = dk_journal disk"
  by (auto simp: sweep_temp_def split: if_splits)

lemma conclude_Success:
  assumes "conclude rep state = Success c rep'"
  shows "or_existed rep' = or_existed rep" "(\<exists>s. state = Some s \<and> or_state rep' = s) \<or> state = None \<and> \<not> or_existed rep \<and> or_state rep' = default_state"
  using assms by (auto simp: conclude_def split: option.splits if_splits)

text \<open>The two stages of an open, whichever files are there.\<close>

definition from_snapshot :: "Disk \<Rightarrow> RegistryState \<Rightarrow> bool" where
  "from_snapshot disk s \<longleftrightarrow> (\<exists>snap c. dk_snapshot disk = Some snap \<and> check_snapshot snap = Success c s)"

definition from_journal :: "StoreOptions \<Rightarrow> Disk \<Rightarrow> RegistryState \<Rightarrow> bool" where
  "from_journal options disk s \<longleftrightarrow>
     (\<exists>j. dk_journal disk = Some j \<and> decode_state (last_snapshot_payload (scan_journal j (so_limits options))) = Inr (s, []))"

lemma recovered_state_ok: "from_snapshot disk s \<or> from_journal options disk s \<Longrightarrow> state_ok s"
  by (auto simp: from_snapshot_def from_journal_def dest: check_snapshot_Success state_codec.dec_wf)

lemma take_whole: "\<exists>n. j = map_option (take n) j"
  by (cases j) (auto intro: exI [of _ "length (the j)"])

lemma Store_open_effect:
  assumes "Store_open io options disk = (out, disk')"
  shows "dk_snapshot disk' = dk_snapshot disk \<and> (\<exists>n. dk_journal disk' = map_option (take n) (dk_journal disk))
    \<and> (\<forall>c rep. out = Success c rep \<longrightarrow> from_snapshot disk (or_state rep) \<or> from_journal options disk (or_state rep)
        \<or> \<not> or_existed rep \<and> or_state rep = default_state)"
proof (cases "base_path options = []")
  case True
  then show ?thesis using assms take_whole by (auto simp: Store_open_def)
next
  case False
  let ?sx = "dk_snapshot disk \<noteq> None \<and> io_stat_snapshot io" and ?jx = "dk_journal disk \<noteq> None \<and> io_stat_journal io"
  obtain rep0 disk0 where sweep: "sweep_temp io default_report disk = (rep0, disk0)" by (cases "sweep_temp io default_report disk")
  have d0: "dk_snapshot disk0 = dk_snapshot disk" "dk_journal disk0 = dk_journal disk" using sweep_temp_frame [OF sweep] by simp_all
  note whole = take_whole [of "dk_journal disk"]
  let ?rep = "rep0\<lparr>or_existed := ?sx \<or> ?jx, or_snapshot_present := ?sx, or_journal_present := ?jx\<rparr>"
  define S where "S = (if ?sx then open_snapshot io options (the (dk_snapshot disk)) ?rep else Success Ok (?rep, None))"
  define J where "J = (\<lambda>rep state. if ?jx then open_journal io options (the (dk_journal disk)) rep state disk0
    else (Success Ok (rep\<lparr>or_classification := CleanOpen, or_reason := (if ?sx then RecoveryCleanOpen else StoreEmptyNew)\<rparr>, state), disk0))"
  have shape: "(out, disk') = (case S of Failure reason detail \<Rightarrow> (Failure reason detail, disk0)
      | Success _ (rep, state) \<Rightarrow> (case J rep state of (Failure reason detail, disk) \<Rightarrow> (Failure reason detail, disk)
          | (Success _ (rep, state), disk) \<Rightarrow> (conclude rep state, disk)))"
    by (simp only: assms [symmetric] Store_open_def False if_False sweep Let_def prod.case d0 S_def J_def)
  show ?thesis
  proof (cases S)
    case (Failure r d)
    then show ?thesis using shape d0 whole by simp
  next
    case (Success c1 p)
    obtain rep1 st1 where p: "p = (rep1, st1)" by (cases p)
    have st1: "st1 = None \<or> (\<exists>s. st1 = Some s \<and> from_snapshot disk s)"
      using Success p open_snapshot_Success [of io options "the (dk_snapshot disk)" ?rep c1 rep1 st1]
      by (auto simp: S_def from_snapshot_def split: if_splits)
    obtain jo disk1 where j: "J rep1 st1 = (jo, disk1)" by (cases "J rep1 st1")
    have disk1: "dk_snapshot disk1 = dk_snapshot disk" "\<exists>n. dk_journal disk1 = map_option (take n) (dk_journal disk)"
      using j open_journal_effect(1,2) [of io options "the (dk_journal disk)" rep1 st1 disk0 jo disk1] d0 whole
      by (auto simp: J_def split: if_splits)
    have st2: "st2 = None \<or> (\<exists>s. st2 = Some s \<and> (from_snapshot disk s \<or> from_journal options disk s))" if "jo = Success c2 (rep2, st2)" for c2 rep2 st2
      using j that st1 open_journal_effect(3) [of io options "the (dk_journal disk)" rep1 st1 disk0 jo disk1 c2 rep2 st2]
      by (auto simp: J_def from_journal_def split: if_splits)
    show ?thesis
    proof (cases jo)
      case (Failure r d)
      then show ?thesis using shape Success p j disk1 by simp
    next
      case j2: (Success c2 q)
      obtain rep2 st2 where q: "q = (rep2, st2)" by (cases q)
      have o: "out = conclude rep2 st2" "disk' = disk1" using shape Success p j j2 q by simp_all
      show ?thesis using disk1 st2 [of c2 rep2 st2] j2 q conclude_Success [of rep2 st2] unfolding o by fastforce
    qed
  qed
qed

text \<open>
  C22: recovery never fabricates and never resets. Whatever the files hold and whatever reads fail, an open leaves the
  snapshot file as it is and at most cuts the journal; the state a successful open reports is well formed, and when
  files were found it is the checked contents of the snapshot or the last accepted state entry of the journal.
\<close>

theorem open_never_fabricates:
  assumes "Store_open io options disk = (out, disk')"
  shows "dk_snapshot disk' = dk_snapshot disk \<and> (\<exists>n. dk_journal disk' = map_option (take n) (dk_journal disk))
    \<and> (\<forall>c rep. out = Success c rep \<longrightarrow> state_ok (or_state rep)
        \<and> (or_existed rep \<longrightarrow> from_snapshot disk (or_state rep) \<or> from_journal options disk (or_state rep)))"
  using Store_open_effect [OF assms] recovered_state_ok default_state_ok by metis

theorem open_never_fabricates_witness:
  "\<exists>out disk'. Store_open no_faults sample_options sample_journal = (out, disk') \<and> dk_snapshot disk' = None
    \<and> (\<exists>n. dk_journal disk' = Some (take n (frame (entry_of (1, 3, sample_state 1)))))"
proof -
  obtain out disk' where o: "Store_open no_faults sample_options sample_journal = (out, disk')"
    by (cases "Store_open no_faults sample_options sample_journal")
  show ?thesis using open_never_fabricates [OF o] o by (simp add: sample_journal_def)
qed

text \<open>
  An acknowledged snapshot may be unreadable: \<open>write_snapshot\<close> bounds the encoded state, \<open>open\<close> bounds the whole
  file, which is 144 bytes longer, so a state within 144 bytes of the bound is written and then refused.
\<close>

lemma snapshot_bound_gap:
  assumes "options_ok (si_options store)" "length (encode_state s) \<le> max_snapshot_bytes (so_limits (si_options store))"
    "max_snapshot_bytes (so_limits (si_options store)) < length (encode_state s) + 144"
    "write_snapshot no_faults s now (store, disk) = (out, store', disk')"
  shows "outcome_ok out \<and> (\<exists>detail disk''. Store_open no_faults (si_options store) disk' = (Failure StoreOversized detail, disk''))"
proof -
  have w: "outcome_ok out" "dk_snapshot disk' = Some (snapshot_bytes s now)" "dk_temp disk' = None"
    using assms(2,4) by (auto simp: write_snapshot_def Let_def write_file_def install_snapshot_def no_faults_def split: if_splits)
  have "read_whole_file (io_read_snapshot no_faults) p (snapshot_bytes s now) (max_snapshot_bytes (so_limits (si_options store)))
      = Failure StoreOversized ''file exceeds the configured bound''" for p
    using assms(3) by (simp add: read_whole_file_def length_snapshot_bytes no_faults_def)
  then show ?thesis using w assms(1)
    by (simp add: Store_open_def options_ok_def sweep_temp_def open_snapshot_def no_faults_def)
qed

text \<open>
  A crash in the very first commit leaves a store that no later open accepts: the journal exists, is cut back to
  nothing, and a store that exists without a recoverable state is refused, with the reason of a clean open.
\<close>

lemma first_commit_crash:
  assumes o: "options_ok options" and e: "entry_fits (so_limits options) e" and n: "0 < n" "n < length (frame e)"
    and size: "n \<le> max_journal_bytes (so_limits options) + 72"
  defines "crashed \<equiv> \<lparr>dk_snapshot = None, dk_journal = Some (take n (frame e)), dk_temp = None\<rparr>"
  shows "\<exists>d. Store_open no_faults options crashed = (Failure StoreTornTail d, crashed\<lparr>dk_journal := Some []\<rparr>)"
    "\<exists>d. Store_open no_faults options (crashed\<lparr>dk_journal := Some []\<rparr>) = (Failure RecoveryCleanOpen d, crashed\<lparr>dk_journal := Some []\<rparr>)"
proof -
  let ?none = "crashed\<lparr>dk_journal := Some []\<rparr>"
  have ok: "contents_ok (so_limits options) None []" by (simp add: contents_ok_def commits_ok_def)
  have h: "held None [] = None" by (simp add: held_def)
  have len: "length (take n (frame e)) = n" using n(2) by simp
  have f: "files crashed None [] (take n (frame e))" "files ?none None [] []" by (simp_all add: files_def crashed_def)
  obtain rep d where r: "Store_open no_faults options crashed = (conclude rep None, d)" "files d None [] []" "dk_temp d = None"
      "or_existed rep" "or_reason rep = StoreTornTail" "dk_journal d \<noteq> None"
    using open_recovers_files [OF o f(1) ok torn_tailI [OF e n(2)]] len n(1) size by (auto simp: h crashed_def)
  have "d = ?none" using r(2,3,6) by (cases d) (auto simp: files_def crashed_def)
  then show "\<exists>d. Store_open no_faults options crashed = (Failure StoreTornTail d, ?none)" using r by (simp add: conclude_def)
  have snap: "dk_snapshot ?none = map_option (\<lambda>(s, t). snapshot_bytes s t) None" by (simp add: crashed_def)
  have sc: "scanned (scan_journal [] (so_limits options)) [] 0" "classes (scan_journal [] (so_limits options)) = (CleanOpen, RecoveryCleanOpen)"
    by (simp_all add: scanned_def scan_journal_def Let_def classes_def classify_scan_def)
  obtain rep d where r: "Store_open no_faults options ?none = (conclude rep None, d)" "dk_snapshot d = None" "dk_temp d = None" "dk_journal d = Some []"
      "or_existed rep" "or_reason rep = RecoveryCleanOpen"
    using open_scanned [OF o snap ok, of 0] sc by (auto simp: h crashed_def cut_def)
  moreover have "d = ?none" using r(2-4) by (cases d) (simp add: crashed_def)
  ultimately show "\<exists>d. Store_open no_faults options ?none = (Failure RecoveryCleanOpen d, ?none)" by (simp add: conclude_def)
qed

end
