(* ===== verification/Json.thy ===== *)
theory Json
  imports Strings Reason
begin

text \<open>
  The strict JSON subset of \<open>include/ocreg/json.hpp\<close> and \<open>src/json.cpp\<close>.

  Text is a list of bytes (\<open>string\<close>). The parser's position is the text that is left, and its item counter is passed
  along; \<open>reason_\<close> is the left value of a result. \<open>parse_value\<close> counts its depth down from \<open>max_depth + 1\<close>, which is
  where \<open>depth > max_depth\<close> refuses, so its recursion is structural. The loops over array elements and object members
  take the length of the text that is left as a bound on their iterations: each iteration consumes a comma, and
  \<open>parse_reasons\<close> below shows that the bound is never what stops them. Integers are the 64-bit words of their
  two's-complement representation.
\<close>

section \<open>Values\<close>

record JsonLimits =
  jl_max_bytes :: nat
  jl_max_depth :: nat
  jl_max_items :: nat
  jl_max_string_bytes :: nat
  jl_max_key_bytes :: nat

definition default_json_limits :: JsonLimits where
  "default_json_limits = \<lparr>jl_max_bytes = 8 * 1024 * 1024, jl_max_depth = 32, jl_max_items = 262144,
     jl_max_string_bytes = 1024 * 1024, jl_max_key_bytes = 128\<rparr>"

datatype JsonValue = JNull | JBool bool | JInteger i64 | JString string
  | JArray "JsonValue list" | JObject "(string \<times> JsonValue) list"

text \<open>\<open>find\<close> and \<open>set\<close> use \<open>std::lower_bound\<close> on the members, which \<open>set\<close> keeps sorted by key.\<close>

definition json_find :: "JsonValue \<Rightarrow> string \<Rightarrow> JsonValue option" where
  "json_find v key = (case v of JObject ms \<Rightarrow> map_of ms key | _ \<Rightarrow> None)"

definition json_set :: "string \<Rightarrow> JsonValue \<Rightarrow> JsonValue \<Rightarrow> JsonValue" where
  "json_set key value v = (case v of JObject ms \<Rightarrow> JObject (om_put key value ms) | _ \<Rightarrow> v)"

definition json_push :: "JsonValue \<Rightarrow> JsonValue \<Rightarrow> JsonValue" where
  "json_push value v = (case v of JArray vs \<Rightarrow> JArray (vs @ [value]) | _ \<Rightarrow> v)"

section \<open>UTF-8\<close>

definition byte_of :: "char \<Rightarrow> u8" where
  "byte_of c = of_char c"

text \<open>The lead byte: how many bytes follow, and the bits of the code point it carries.\<close>

definition utf8_lead :: "u8 \<Rightarrow> (nat \<times> u32) option" where
  "utf8_lead byte =
     (if byte < 0x80 then Some (0, ucast byte)
      else if byte AND 0xE0 = 0xC0 then (if byte AND 0x1F < 2 then None else Some (1, ucast (byte AND 0x1F)))
      else if byte AND 0xF0 = 0xE0 then Some (2, ucast (byte AND 0x0F))
      else if byte AND 0xF8 = 0xF0 then Some (3, ucast (byte AND 0x07))
      else None)"

fun utf8_tail :: "string \<Rightarrow> u32 \<Rightarrow> u32 option" where
  "utf8_tail [] code_point = Some code_point"
| "utf8_tail (c # cs) code_point =
     (if byte_of c AND 0xC0 \<noteq> 0x80 then None
      else utf8_tail cs (push_bit 6 code_point OR ucast (byte_of c AND 0x3F)))"

definition code_point_ok :: "nat \<Rightarrow> u32 \<Rightarrow> bool" where
  "code_point_ok extra code_point \<longleftrightarrow> \<not> (extra = 2 \<and> code_point < 0x0800) \<and> \<not> (extra = 3 \<and> code_point < 0x10000)
     \<and> \<not> code_point > 0x10FFFF \<and> \<not> (code_point \<ge> 0xD800 \<and> code_point \<le> 0xDFFF)"

fun valid_utf8 :: "string \<Rightarrow> bool" where
  "valid_utf8 [] = True"
| "valid_utf8 (c # cs) =
     (case utf8_lead (byte_of c) of None \<Rightarrow> False
      | Some (extra, code_point) \<Rightarrow>
         if extra = 0 then valid_utf8 cs
         else if length cs < extra then False
         else (case utf8_tail (take extra cs) code_point of None \<Rightarrow> False
               | Some code_point \<Rightarrow> code_point_ok extra code_point \<and> valid_utf8 (drop extra cs)))"

definition char_bits :: "u32 \<Rightarrow> char" where
  "char_bits x = char_of (unat x)"

definition append_utf8 :: "u32 \<Rightarrow> string" where
  "append_utf8 cp =
     (if cp < 0x80 then [char_bits cp]
      else if cp < 0x800 then [char_bits (0xC0 OR drop_bit 6 cp), char_bits (0x80 OR (cp AND 0x3F))]
      else if cp < 0x10000
        then [char_bits (0xE0 OR drop_bit 12 cp), char_bits (0x80 OR (drop_bit 6 cp AND 0x3F)), char_bits (0x80 OR (cp AND 0x3F))]
      else [char_bits (0xF0 OR drop_bit 18 cp), char_bits (0x80 OR (drop_bit 12 cp AND 0x3F)),
            char_bits (0x80 OR (drop_bit 6 cp AND 0x3F)), char_bits (0x80 OR (cp AND 0x3F))])"

section \<open>The parser\<close>

definition json_space :: "char \<Rightarrow> bool" where
  "json_space c \<longleftrightarrow> c = CHR '' '' \<or> c = CHR 0x09 \<or> c = CHR 0x0A \<or> c = CHR 0x0D"

definition skip_whitespace :: "string \<Rightarrow> string" where
  "skip_whitespace text = dropWhile json_space text"

definition consume :: "char \<Rightarrow> string \<Rightarrow> ReasonCode + string" where
  "consume expected text = (case text of [] \<Rightarrow> Inl RejectedTruncatedInput
     | c # cs \<Rightarrow> if c = expected then Inr cs else Inl RejectedMalformedDocument)"

definition literal :: "string \<Rightarrow> string \<Rightarrow> ReasonCode + string" where
  "literal word text = (if length text < length word \<or> take (length word) text \<noteq> word then Inl RejectedMalformedDocument
     else Inr (drop (length word) text))"

definition hex_value :: "char \<Rightarrow> nat option" where
  "hex_value c =
     (if CHR ''0'' \<le> c \<and> c \<le> CHR ''9'' then Some (of_char c - 48)
      else if CHR ''a'' \<le> c \<and> c \<le> CHR ''f'' then Some (of_char c - 97 + 10)
      else if CHR ''A'' \<le> c \<and> c \<le> CHR ''F'' then Some (of_char c - 65 + 10) else None)"

fun hex_digits :: "string \<Rightarrow> u32 \<Rightarrow> u32 option" where
  "hex_digits [] v = Some v"
| "hex_digits (c # cs) v = (case hex_value c of None \<Rightarrow> None | Some d \<Rightarrow> hex_digits cs (push_bit 4 v OR of_nat d))"

definition parse_hex4 :: "string \<Rightarrow> ReasonCode + u32 \<times> string" where
  "parse_hex4 text =
     (if length text < 4 then Inl RejectedTruncatedInput
      else case hex_digits (take 4 text) 0 of None \<Rightarrow> Inl RejectedMalformedDocument | Some v \<Rightarrow> Inr (v, drop 4 text))"

text \<open>\<open>\u\<close> and what follows it, surrogate pairs included.\<close>

definition unicode_escape :: "string \<Rightarrow> ReasonCode + string \<times> string" where
  "unicode_escape text =
     (case parse_hex4 text of Inl reason \<Rightarrow> Inl reason
      | Inr (cp, rest) \<Rightarrow>
         if cp \<ge> 0xD800 \<and> cp \<le> 0xDBFF then
           (if length rest < 2 \<or> rest ! 0 \<noteq> CHR 0x5C \<or> rest ! 1 \<noteq> CHR ''u'' then Inl RejectedInvalidUtf8
            else case parse_hex4 (drop 2 rest) of Inl reason \<Rightarrow> Inl reason
              | Inr (low, rest) \<Rightarrow>
                 if low < 0xDC00 \<or> low > 0xDFFF then Inl RejectedInvalidUtf8
                 else Inr (append_utf8 (0x10000 + push_bit 10 (cp - 0xD800) + (low - 0xDC00)), rest))
         else if cp \<ge> 0xDC00 \<and> cp \<le> 0xDFFF then Inl RejectedInvalidUtf8
         else Inr (append_utf8 cp, rest))"

text \<open>What follows a backslash: the bytes it appends and the text that is left.\<close>

definition parse_escape :: "string \<Rightarrow> ReasonCode + string \<times> string" where
  "parse_escape text = (case text of [] \<Rightarrow> Inl RejectedTruncatedInput
     | e # rest \<Rightarrow>
        if e = CHR 0x22 then Inr ([CHR 0x22], rest) else if e = CHR 0x5C then Inr ([CHR 0x5C], rest)
        else if e = CHR ''/'' then Inr (''/'', rest) else if e = CHR ''b'' then Inr ([CHR 0x08], rest)
        else if e = CHR ''f'' then Inr ([CHR 0x0C], rest) else if e = CHR ''n'' then Inr ([CHR 0x0A], rest)
        else if e = CHR ''r'' then Inr ([CHR 0x0D], rest) else if e = CHR ''t'' then Inr ([CHR 0x09], rest)
        else if e = CHR ''u'' then unicode_escape rest
        else Inl RejectedMalformedDocument)"

lemma parse_hex4_shorter: "parse_hex4 text = Inr (v, rest) \<Longrightarrow> length rest < length text"
  by (auto simp: parse_hex4_def split: if_splits option.splits)

lemma unicode_escape_shorter: "unicode_escape text = Inr (s, rest) \<Longrightarrow> length rest < length text"
  by (auto simp: unicode_escape_def dest!: parse_hex4_shorter split: sum.splits if_splits prod.splits)

lemma parse_escape_shorter: "parse_escape text = Inr (s, rest) \<Longrightarrow> length rest < length text"
  by (auto simp: parse_escape_def dest!: unicode_escape_shorter split: list.splits if_splits)

function string_loop :: "JsonLimits \<Rightarrow> string \<Rightarrow> string \<Rightarrow> ReasonCode + string \<times> string" where
  "string_loop limits out [] = Inl RejectedTruncatedInput"
| "string_loop limits out (c # cs) =
     (if c = CHR 0x22 then Inr (out, cs)
      else if byte_of c < 0x20 then Inl RejectedMalformedDocument
      else if c \<noteq> CHR 0x5C then string_loop limits (out @ [c]) cs
      else case parse_escape cs of Inl reason \<Rightarrow> Inl reason
        | Inr (s, rest) \<Rightarrow> if length (out @ s) > jl_max_string_bytes limits then Inl RejectedOversizedInput
            else string_loop limits (out @ s) rest)"
  by pat_completeness auto

termination
  by (relation "measure (\<lambda>(limits, out, text). length text)") (auto dest!: parse_escape_shorter)

definition parse_string :: "JsonLimits \<Rightarrow> string \<Rightarrow> ReasonCode + string \<times> string" where
  "parse_string limits text = (case consume (CHR 0x22) text of Inl reason \<Rightarrow> Inl reason | Inr rest \<Rightarrow> string_loop limits [] rest)"

definition magnitude_of :: "string \<Rightarrow> u64" where
  "magnitude_of digits = foldl (\<lambda>m c. m * 10 + of_nat (digit_val c)) 0 digits"

definition kMaxPositive :: u64 where "kMaxPositive = 9223372036854775807"

definition parse_integer :: "string \<Rightarrow> ReasonCode + i64 \<times> string" where
  "parse_integer text =
     (let negative = (text \<noteq> [] \<and> hd text = CHR ''-'');
          body = (if negative then tl text else text);
          digits = takeWhile is_digit body;
          rest = dropWhile is_digit body
      in if digits = [] then Inl RejectedMalformedDocument
         else if length digits > 1 \<and> hd digits = CHR ''0'' then Inl RejectedMalformedDocument
         else if rest \<noteq> [] \<and> hd rest \<in> {CHR ''.'', CHR ''e'', CHR ''E''} then Inl RejectedMalformedDocument
         else if length digits > 19 then Inl RejectedOversizedInput
         else let magnitude = magnitude_of digits
              in if negative then
                   (if magnitude > kMaxPositive + 1 then Inl RejectedOversizedInput
                    else Inr (if magnitude = kMaxPositive + 1 then 0x8000000000000000 else - magnitude, rest))
                 else if magnitude > kMaxPositive then Inl RejectedOversizedInput
                 else Inr (magnitude, rest))"

type_synonym value_parser = "string \<Rightarrow> nat \<Rightarrow> ReasonCode + JsonValue \<times> string \<times> nat"

fun array_loop :: "value_parser \<Rightarrow> nat \<Rightarrow> JsonValue list \<Rightarrow> value_parser" where
  "array_loop pv 0 vs text items = Inl Ok"
| "array_loop pv (Suc n) vs text items =
     (case pv (skip_whitespace text) items of Inl reason \<Rightarrow> Inl reason
      | Inr (v, rest, items) \<Rightarrow>
         (case skip_whitespace rest of [] \<Rightarrow> Inl RejectedTruncatedInput
          | c # cs \<Rightarrow> if c = CHR '','' then array_loop pv n (vs @ [v]) cs items
                     else if c = CHR '']'' then Inr (JArray (vs @ [v]), cs, items)
                     else Inl RejectedMalformedDocument))"

definition parse_array :: "value_parser \<Rightarrow> value_parser" where
  "parse_array pv text items =
     (case skip_whitespace text of
        c # cs \<Rightarrow> if c = CHR '']'' then Inr (JArray [], cs, items) else array_loop pv (Suc (length (c # cs))) [] (c # cs) items
      | [] \<Rightarrow> array_loop pv 1 [] [] items)"

fun object_loop :: "JsonLimits \<Rightarrow> value_parser \<Rightarrow> nat \<Rightarrow> (string \<times> JsonValue) list \<Rightarrow> value_parser" where
  "object_loop limits pv 0 ms text items = Inl Ok"
| "object_loop limits pv (Suc n) ms text items =
     (case parse_string limits (skip_whitespace text) of Inl reason \<Rightarrow> Inl reason
      | Inr (key, rest) \<Rightarrow>
         if length key > jl_max_key_bytes limits then Inl RejectedOversizedInput
         else (case consume (CHR '':'') (skip_whitespace rest) of Inl reason \<Rightarrow> Inl reason
           | Inr rest \<Rightarrow>
              (case pv (skip_whitespace rest) items of Inl reason \<Rightarrow> Inl reason
               | Inr (v, rest, items) \<Rightarrow>
                  if map_of ms key \<noteq> None then Inl RejectedDuplicateKey
                  else (case skip_whitespace rest of [] \<Rightarrow> Inl RejectedTruncatedInput
                    | c # cs \<Rightarrow> if c = CHR '','' then object_loop limits pv n (om_put key v ms) cs items
                               else if c = CHR ''}'' then Inr (JObject (om_put key v ms), cs, items)
                               else Inl RejectedMalformedDocument))))"

definition parse_object :: "JsonLimits \<Rightarrow> value_parser \<Rightarrow> value_parser" where
  "parse_object limits pv text items =
     (case skip_whitespace text of
        c # cs \<Rightarrow> if c = CHR ''}'' then Inr (JObject [], cs, items) else object_loop limits pv (Suc (length (c # cs))) [] (c # cs) items
      | [] \<Rightarrow> object_loop limits pv 1 [] [] items)"

primrec parse_value :: "nat \<Rightarrow> JsonLimits \<Rightarrow> value_parser" where
  "parse_value 0 limits text items = Inl RejectedNestingTooDeep"
| "parse_value (Suc room) limits text items =
     (case text of [] \<Rightarrow> Inl RejectedTruncatedInput
      | c # cs \<Rightarrow>
         if items \<ge> jl_max_items limits then Inl RejectedOversizedInput
         else if c = CHR ''{'' then parse_object limits (parse_value room limits) cs (items + 1)
         else if c = CHR ''['' then parse_array (parse_value room limits) cs (items + 1)
         else if c = CHR 0x22 then map_sum id (\<lambda>(s, rest). (JString s, rest, items + 1)) (parse_string limits text)
         else if c = CHR ''t'' then map_sum id (\<lambda>rest. (JBool True, rest, items + 1)) (literal ''true'' text)
         else if c = CHR ''f'' then map_sum id (\<lambda>rest. (JBool False, rest, items + 1)) (literal ''false'' text)
         else if c = CHR ''n'' then map_sum id (\<lambda>rest. (JNull, rest, items + 1)) (literal ''null'' text)
         else map_sum id (\<lambda>(n, rest). (JInteger n, rest, items + 1)) (parse_integer text))"

definition parse_document :: "JsonLimits \<Rightarrow> string \<Rightarrow> ReasonCode + JsonValue" where
  "parse_document limits text =
     (if length text > jl_max_bytes limits then Inl RejectedOversizedInput
      else if \<not> valid_utf8 text then Inl RejectedInvalidUtf8
      else case parse_value (Suc (jl_max_depth limits)) limits (skip_whitespace text) 0 of Inl reason \<Rightarrow> Inl reason
        | Inr (v, rest, items) \<Rightarrow> if skip_whitespace rest \<noteq> [] then Inl RejectedTrailingGarbage else Inr v)"

definition JsonValue_parse :: "JsonLimits \<Rightarrow> string \<Rightarrow> JsonValue outcome" where
  "JsonValue_parse limits text = (case parse_document limits text of Inl reason \<Rightarrow> Failure reason ''canonical JSON rejected''
     | Inr v \<Rightarrow> Success Ok v)"

section \<open>The writer\<close>

definition kHexDigits :: string where "kHexDigits = ''0123456789abcdef''"

definition escape_char :: "char \<Rightarrow> string" where
  "escape_char c =
     (if c = CHR 0x22 then [CHR 0x5C, CHR 0x22] else if c = CHR 0x5C then [CHR 0x5C, CHR 0x5C]
      else if c = CHR 0x0A then [CHR 0x5C, CHR ''n''] else if c = CHR 0x0D then [CHR 0x5C, CHR ''r'']
      else if c = CHR 0x09 then [CHR 0x5C, CHR ''t''] else if c = CHR 0x08 then [CHR 0x5C, CHR ''b'']
      else if c = CHR 0x0C then [CHR 0x5C, CHR ''f'']
      else if byte_of c < 0x20
        then [CHR 0x5C, CHR ''u'', CHR ''0'', CHR ''0'', kHexDigits ! unat (drop_bit 4 (byte_of c) AND 0xF), kHexDigits ! unat (byte_of c AND 0xF)]
      else [c])"

definition json_escape :: "string \<Rightarrow> string" where
  "json_escape text = CHR 0x22 # concat (map escape_char text) @ [CHR 0x22]"

definition int_string :: "int \<Rightarrow> string" where
  "int_string n = (if n < 0 then CHR ''-'' # dec_string (nat (- n)) else dec_string (nat n))"

definition line_break :: "bool \<Rightarrow> nat \<Rightarrow> string" where
  "line_break pretty depth = (if pretty then CHR 0x0A # replicate (depth * 2) (CHR '' '') else [])"

fun join_comma :: "string list \<Rightarrow> string" where
  "join_comma [] = []"
| "join_comma [x] = x"
| "join_comma (x # y # xs) = x @ CHR '','' # join_comma (y # xs)"

fun dump_to :: "bool \<Rightarrow> nat \<Rightarrow> JsonValue \<Rightarrow> string" where
  "dump_to pretty depth JNull = ''null''"
| "dump_to pretty depth (JBool b) = (if b then ''true'' else ''false'')"
| "dump_to pretty depth (JInteger n) = int_string (sint n)"
| "dump_to pretty depth (JString s) = json_escape s"
| "dump_to pretty depth (JArray vs) =
     (if vs = [] then ''[]''
      else CHR ''['' # join_comma (map (\<lambda>v. line_break pretty (depth + 1) @ dump_to pretty (depth + 1) v) vs)
        @ line_break pretty depth @ '']'')"
| "dump_to pretty depth (JObject ms) =
     (if ms = [] then ''{}''
      else CHR ''{'' # join_comma (map (\<lambda>(k, v). line_break pretty (depth + 1) @ json_escape k @ CHR '':'' # (if pretty then '' '' else [])
             @ dump_to pretty (depth + 1) v) ms)
        @ line_break pretty depth @ ''}'')"

definition JsonValue_dump :: "bool \<Rightarrow> JsonValue \<Rightarrow> string" where
  "JsonValue_dump pretty v = dump_to pretty 0 v"

section \<open>Strings read back\<close>

lemma unat_byte_of: "unat (byte_of c) = of_char c"
proof -
  have "byte_of c = of_nat (of_char c)" by (simp only: byte_of_def of_nat_of_char)
  then show ?thesis by (simp add: unat_of_nat take_bit_eq_mod)
qed

lemma byte_of_char_of: "n < 256 \<Longrightarrow> byte_of (char_of n) = of_nat n"
  by (simp add: word_unat_eq_iff unat_byte_of unat_of_nat take_bit_eq_mod)

lemma byte_of_less: "byte_of c < 0x20 \<longleftrightarrow> (of_char c :: nat) < 32" "byte_of c < 0x80 \<longleftrightarrow> (of_char c :: nat) < 128"
  by (simp_all add: word_less_nat_alt unat_byte_of)

lemma control_char:
  assumes "byte_of c < 0x20"
  obtains n where "n \<in> set [0..<32]" "c = char_of (n :: nat)"
  using that [of "of_char c"] assms by (simp add: byte_of_less)

text \<open>The 32 control characters, one by one.\<close>

definition hex_pair :: "char \<Rightarrow> string" where
  "hex_pair c = [CHR ''0'', CHR ''0'', kHexDigits ! unat (drop_bit 4 (byte_of c) AND 0xF), kHexDigits ! unat (byte_of c AND 0xF)]"

lemma control_hex: "list_all (\<lambda>n. hex_digits (hex_pair (char_of (n :: nat))) 0 = Some (of_nat n) \<and> append_utf8 (of_nat n) = [char_of n]) [0..<32]"
  by code_simp

lemma unicode_escape_control:
  assumes "byte_of c < 0x20"
  shows "unicode_escape (hex_pair c @ t) = Inr ([c], t)"
proof -
  obtain n where n: "n \<in> set [0..<32]" "c = char_of (n :: nat)" using control_char [OF assms] .
  have h: "hex_digits (hex_pair c) 0 = Some (of_nat n)" "append_utf8 (of_nat n) = [c]"
    using control_hex n unfolding list_all_iff by (auto simp del: set_upt)
  have small: "\<not> 0xD800 \<le> (of_nat n :: u32)" "\<not> 0xDC00 \<le> (of_nat n :: u32)"
    using n(1) by (simp_all add: word_le_nat_alt unat_of_nat take_bit_eq_mod)
  have four: "take 4 (hex_pair c @ t) = hex_pair c" "drop 4 (hex_pair c @ t) = t" "\<not> length (hex_pair c @ t) < 4"
    by (simp_all add: hex_pair_def)
  show ?thesis
    by (simp only: unicode_escape_def parse_hex4_def four h if_False option.case sum.case prod.case small simp_thms)
qed

lemma string_loop_char:
  assumes "length out < jl_max_string_bytes limits"
  shows "string_loop limits out (escape_char c @ t) = string_loop limits (out @ [c]) t"
proof (cases "c \<in> {CHR 0x22, CHR 0x5C, CHR 0x0A, CHR 0x0D, CHR 0x09, CHR 0x08, CHR 0x0C}")
  case True
  then show ?thesis using assms by (auto simp: escape_char_def parse_escape_def byte_of_less)
next
  case False
  show ?thesis
  proof (cases "byte_of c < 0x20")
    case True
    then have "escape_char c = CHR 0x5C # CHR ''u'' # hex_pair c" using False by (simp add: escape_char_def hex_pair_def)
    then show ?thesis using assms unicode_escape_control [OF True] by (simp add: parse_escape_def byte_of_less)
  next
    case big: False
    then have "escape_char c = [c]" using False by (simp add: escape_char_def)
    then show ?thesis using False big by simp
  qed
qed

lemma string_loop_escaped:
  "length out + length s \<le> jl_max_string_bytes limits \<Longrightarrow>
   string_loop limits out (concat (map escape_char s) @ CHR 0x22 # rest) = Inr (out @ s, rest)"
proof (induction s arbitrary: out)
  case (Cons c s)
  then show ?case using Cons.IH [of "out @ [c]"] by (simp add: string_loop_char)
qed simp

lemma parse_string_escape:
  "length s \<le> jl_max_string_bytes limits \<Longrightarrow> parse_string limits (json_escape s @ rest) = Inr (s, rest)"
  by (simp add: parse_string_def json_escape_def consume_def string_loop_escaped)

section \<open>Integers read back\<close>

lemma magnitude_of_dec: "magnitude_of digits = of_nat (dec_val digits)"
proof (induction digits rule: rev_induct)
  case (snoc c digits)
  then show ?case by (simp add: magnitude_of_def)
qed (simp add: magnitude_of_def)

definition ends_number :: "string \<Rightarrow> bool" where
  "ends_number rest \<longleftrightarrow> (case rest of [] \<Rightarrow> True | c # cs \<Rightarrow> \<not> is_digit c \<and> c \<notin> {CHR ''.'', CHR ''e'', CHR ''E''})"

lemma takeWhile_dec:
  assumes "ends_number rest"
  shows "takeWhile is_digit (dec_string n @ rest) = dec_string n" "dropWhile is_digit (dec_string n @ rest) = rest"
  using dec_string_digits [of _ n] assms
  by (simp_all add: takeWhile_append2 dropWhile_append2 ends_number_def split: list.splits)

lemma dec_string_head: "hd (dec_string n @ rest) \<noteq> CHR ''-''"
  using dec_string_digits [of "hd (dec_string n)" n] by (auto simp: is_digit_def hd_append)

lemma dec_string_plain: "\<not> (1 < length (dec_string n) \<and> hd (dec_string n) = CHR ''0'')"
proof (cases "n = 0")
  case True
  have "dec_string 0 = ''0''" by (subst dec_string.simps) (simp add: digit_char_def)
  then show ?thesis using True by simp
next
  case False
  then show ?thesis using dec_string_no_leading_zero [of n] by auto
qed

text \<open>Nineteen digits never overflow the unsigned accumulator.\<close>

lemma parse_integer_digits:
  assumes "ends_number rest" "n < 10 ^ 19"
  shows "parse_integer (CHR ''-'' # dec_string n @ rest) =
      (if 2 ^ 63 < n then Inl RejectedOversizedInput
       else Inr (if n = 2 ^ 63 then 0x8000000000000000 else - of_nat n, rest))"
    "parse_integer (dec_string n @ rest) = (if 2 ^ 63 \<le> n then Inl RejectedOversizedInput else Inr (of_nat n, rest))"
proof -
  have len: "\<not> 19 < length (dec_string n)" using dec_string_length [of 19 n] assms(2) by simp
  have u: "unat (of_nat n :: u64) = n" using assms(2) by (simp add: unat_of_nat take_bit_eq_mod)
  have rest: "\<not> (rest \<noteq> [] \<and> hd rest \<in> {CHR ''.'', CHR ''e'', CHR ''E''})" using assms(1) by (cases rest) (auto simp: ends_number_def)
  have cmp: "kMaxPositive + 1 < (of_nat n :: u64) \<longleftrightarrow> 2 ^ 63 < n" "kMaxPositive < (of_nat n :: u64) \<longleftrightarrow> 2 ^ 63 \<le> n"
    "(of_nat n :: u64) = kMaxPositive + 1 \<longleftrightarrow> n = 2 ^ 63"
    unfolding kMaxPositive_def word_less_nat_alt word_unat_eq_iff u by (simp_all add: less_eq_Suc_le)
  note facts = takeWhile_dec [OF assms(1), of n] dec_string_plain [of n] len rest magnitude_of_dec dec_val_dec_string cmp
  show "parse_integer (CHR ''-'' # dec_string n @ rest) =
      (if 2 ^ 63 < n then Inl RejectedOversizedInput else Inr (if n = 2 ^ 63 then 0x8000000000000000 else - of_nat n, rest))"
    unfolding parse_integer_def Let_def by (simp only: list.sel list.distinct simp_thms if_True facts if_False dec_string_nonempty not_False_eq_True)
  show "parse_integer (dec_string n @ rest) = (if 2 ^ 63 \<le> n then Inl RejectedOversizedInput else Inr (of_nat n, rest))"
    unfolding parse_integer_def Let_def by (simp only: dec_string_head simp_thms facts if_False dec_string_nonempty)
qed

lemma parse_integer_int_string:
  assumes "ends_number rest"
  shows "parse_integer (int_string (sint (n :: i64)) @ rest) = Inr (n, rest)"
proof -
  have range: "- (2 ^ 63) \<le> sint n" "sint n < 2 ^ 63" using sint_greater_eq [of n] sint_less [of n] by simp_all
  have n: "of_int (sint n) = n" by simp
  show ?thesis
  proof (cases "sint n < 0")
    case True
    let ?k = "nat (- sint n)"
    have k: "?k < 10 ^ 19" "\<not> 2 ^ 63 < ?k" using range(1) by simp_all
    have m: "- of_nat ?k = n" using n True by (simp add: of_nat_nat)
    have "n = 0x8000000000000000" if "?k = 2 ^ 63" using m that by simp
    then show ?thesis using parse_integer_digits(1) [OF assms k(1)] True k(2) m by (auto simp: int_string_def)
  next
    case False
    let ?k = "nat (sint n)"
    have k: "?k < 10 ^ 19" "\<not> 2 ^ 63 \<le> ?k" using range(2) False by simp_all
    have "of_nat ?k = n" using n False by (simp add: of_nat_nat)
    then show ?thesis using parse_integer_digits(2) [OF assms k(1)] False k(2) by (simp add: int_string_def)
  qed
qed

section \<open>Documents read back\<close>

fun json_depth :: "JsonValue \<Rightarrow> nat" where
  "json_depth (JArray vs) = fold max (map (\<lambda>v. Suc (json_depth v)) vs) 0"
| "json_depth (JObject ms) = fold max (map (\<lambda>(k, v). Suc (json_depth v)) ms) 0"
| "json_depth v = 0"

fun json_items :: "JsonValue \<Rightarrow> nat" where
  "json_items (JArray vs) = Suc (sum_list (map json_items vs))"
| "json_items (JObject ms) = Suc (sum_list (map (\<lambda>(k, v). json_items v) ms))"
| "json_items v = 1"

fun json_strings :: "JsonValue \<Rightarrow> string list" where
  "json_strings (JString s) = [s]"
| "json_strings (JArray vs) = concat (map json_strings vs)"
| "json_strings (JObject ms) = concat (map (\<lambda>(k, v). k # json_strings v) ms)"
| "json_strings v = []"

fun json_sorted :: "JsonLimits \<Rightarrow> JsonValue \<Rightarrow> bool" where
  "json_sorted limits (JArray vs) = list_all (json_sorted limits) vs"
| "json_sorted limits (JObject ms) = (om_wf ms \<and> list_all (\<lambda>(k, v). length k \<le> jl_max_key_bytes limits \<and> json_sorted limits v) ms)"
| "json_sorted limits v = True"

lemma fold_max_le: "fold max xs (a::nat) \<le> b \<longleftrightarrow> a \<le> b \<and> (\<forall>x \<in> set xs. x \<le> b)"
  by (induction xs arbitrary: a) auto

lemma json_space_simps [simp]: "json_space (CHR '' '')" "json_space (CHR 0x0A)" "\<not> json_space (CHR '']'')" "\<not> json_space (CHR ''}'')"
  "\<not> json_space (CHR '','')" "\<not> json_space (CHR '':'')" "\<not> json_space (CHR 0x22)" "\<not> json_space (CHR ''['')" "\<not> json_space (CHR ''{'')"
  by (simp_all add: json_space_def)

lemma skip_line_break [simp]: "skip_whitespace (line_break pretty n @ t) = skip_whitespace t"
  by (auto simp: skip_whitespace_def line_break_def intro: dropWhile_append2)

lemma skip_nonspace [simp]: "\<not> json_space c \<Longrightarrow> skip_whitespace (c # t) = c # t"
  by (simp add: skip_whitespace_def)

lemma skip_space [simp]: "skip_whitespace (CHR '' '' # t) = skip_whitespace t"
  by (simp add: skip_whitespace_def)

lemma skip_Nil [simp]: "skip_whitespace [] = []"
  by (simp add: skip_whitespace_def)

lemma dump_head:
  obtains c t where "dump_to pretty d v = c # t" "\<not> json_space c" "c \<noteq> CHR '']''"
proof -
  have i: "\<exists>c t. int_string n = c # t \<and> \<not> json_space c \<and> c \<noteq> CHR '']''" for n
  proof -
    obtain c t where "dec_string (nat n) = c # t" by (cases "dec_string (nat n)") simp_all
    moreover have "is_digit c" using dec_string_digits [of c "nat n"] calculation by simp
    ultimately show ?thesis by (auto simp: int_string_def json_space_def is_digit_of_char)
  qed
  have "\<exists>c t. dump_to pretty d v = c # t \<and> \<not> json_space c \<and> c \<noteq> CHR '']''"
    by (cases v) (use i in \<open>simp_all add: json_space_def json_escape_def\<close>)
  then show thesis using that by blast
qed

lemma skip_dump [simp]: "skip_whitespace (dump_to pretty d v @ t) = dump_to pretty d v @ t"
  by (rule dump_head [of pretty d v]) simp

lemma join_comma_Cons: "join_comma (x # xs) = x @ (if xs = [] then [] else CHR '','' # join_comma xs)"
  by (cases xs) simp_all

lemma ends_number_break: "c \<in> {CHR '','', CHR '']'', CHR ''}''} \<Longrightarrow> ends_number (line_break pretty d @ c # rest)"
  by (auto simp: ends_number_def line_break_def is_digit_of_char)

lemma ends_number_comma [simp]: "ends_number (CHR '','' # rest)" "ends_number []"
  by (simp_all add: ends_number_def is_digit_of_char)

lemma array_loop_dump:
  assumes "\<And>v rest items. v \<in> set vs \<Longrightarrow> ends_number rest \<Longrightarrow> items + json_items v \<le> M \<Longrightarrow>
      pv (dump_to pretty d v @ rest) items = Inr (v, rest, items + json_items v)"
    "vs \<noteq> []" "length vs \<le> n" "items + sum_list (map json_items vs) \<le> M"
  shows "array_loop pv n acc (join_comma (map (\<lambda>v. line_break pretty d @ dump_to pretty d v) vs) @ line_break pretty d' @ CHR '']'' # rest) items
    = Inr (JArray (acc @ vs), rest, items + sum_list (map json_items vs))"
  using assms
proof (induction vs arbitrary: n acc items)
  case (Cons v vs)
  obtain m where n: "n = Suc m" "length vs \<le> m" using Cons.prems(3) by (cases n) simp_all
  define tail where "tail = (if vs = [] then line_break pretty d' @ CHR '']'' # rest
    else CHR '','' # join_comma (map (\<lambda>v. line_break pretty d @ dump_to pretty d v) vs) @ line_break pretty d' @ CHR '']'' # rest)"
  have shape: "join_comma (map (\<lambda>v. line_break pretty d @ dump_to pretty d v) (v # vs)) @ line_break pretty d' @ CHR '']'' # rest
      = line_break pretty d @ dump_to pretty d v @ tail"
    by (simp add: join_comma_Cons tail_def)
  have "ends_number tail" by (simp add: tail_def ends_number_break)
  then have pv: "pv (dump_to pretty d v @ tail) items = Inr (v, tail, items + json_items v)" using Cons.prems(1,4) by simp
  have step: "array_loop pv n acc (line_break pretty d @ dump_to pretty d v @ tail) items
    = (case skip_whitespace tail of [] \<Rightarrow> Inl RejectedTruncatedInput
       | c # cs \<Rightarrow> if c = CHR '','' then array_loop pv m (acc @ [v]) cs (items + json_items v)
                  else if c = CHR '']'' then Inr (JArray (acc @ [v]), cs, items + json_items v) else Inl RejectedMalformedDocument)"
    unfolding n(1) by (simp add: pv)
  show ?case
  proof (cases "vs = []")
    case True
    then show ?thesis unfolding shape step by (simp add: tail_def)
  next
    case False
    have "array_loop pv m (acc @ [v]) (join_comma (map (\<lambda>v. line_break pretty d @ dump_to pretty d v) vs) @ line_break pretty d' @ CHR '']'' # rest) (items + json_items v)
      = Inr (JArray ((acc @ [v]) @ vs), rest, items + json_items v + sum_list (map json_items vs))"
      using Cons.prems by (intro Cons.IH [OF _ False n(2)]) simp_all
    then show ?thesis using False unfolding shape step by (simp add: tail_def add.assoc)
  qed
qed simp

lemma om_put_last: "\<forall>k' \<in> fst ` set m. k' < k \<Longrightarrow> om_put k v m = m @ [(k, v)]"
  by (induction m) (auto dest: less_not_sym)

lemma skip_escape [simp]: "skip_whitespace (json_escape k @ t) = json_escape k @ t"
  by (simp add: json_escape_def)

definition dump_member :: "bool \<Rightarrow> nat \<Rightarrow> string \<times> JsonValue \<Rightarrow> string" where
  "dump_member pretty d = (\<lambda>(k, v). line_break pretty d @ json_escape k @ CHR '':'' # (if pretty then '' '' else []) @ dump_to pretty d v)"

lemma om_wf_append_Cons: "om_wf (a @ (k, v) # b) \<Longrightarrow> (\<forall>k' \<in> fst ` set a. k' < k) \<and> om_wf ((a @ [(k, v)]) @ b)"
  by (auto simp: om_wf_def sorted_wrt_append)

lemma object_loop_dump:
  assumes "\<And>k v rest items. (k, v) \<in> set ms \<Longrightarrow> ends_number rest \<Longrightarrow> items + json_items v \<le> M \<Longrightarrow>
      pv (dump_to pretty d v @ rest) items = Inr (v, rest, items + json_items v)"
    "ms \<noteq> []" "length ms \<le> n" "items + sum_list (map (json_items \<circ> snd) ms) \<le> M" "om_wf (acc @ ms)"
    "\<forall>k \<in> fst ` set ms. length k \<le> jl_max_key_bytes limits \<and> length k \<le> jl_max_string_bytes limits"
  shows "object_loop limits pv n acc (join_comma (map (dump_member pretty d) ms) @ line_break pretty d' @ CHR ''}'' # rest) items
    = Inr (JObject (acc @ ms), rest, items + sum_list (map (json_items \<circ> snd) ms))"
  using assms
proof (induction ms arbitrary: n acc items)
  case (Cons p ms)
  obtain k v where p: "p = (k, v)" by (cases p)
  obtain m where n: "n = Suc m" "length ms \<le> m" using Cons.prems(3) by (cases n) simp_all
  define tail where "tail = (if ms = [] then line_break pretty d' @ CHR ''}'' # rest
    else CHR '','' # join_comma (map (dump_member pretty d) ms) @ line_break pretty d' @ CHR ''}'' # rest)"
  have shape: "join_comma (map (dump_member pretty d) (p # ms)) @ line_break pretty d' @ CHR ''}'' # rest
      = line_break pretty d @ json_escape k @ CHR '':'' # (if pretty then '' '' else []) @ dump_to pretty d v @ tail"
    by (simp add: join_comma_Cons tail_def dump_member_def p)
  have "ends_number tail" by (simp add: tail_def ends_number_break)
  then have pv: "pv (dump_to pretty d v @ tail) items = Inr (v, tail, items + json_items v)" using Cons.prems(1) [of k v tail items] Cons.prems(4) p by simp
  have key: "length k \<le> jl_max_key_bytes limits" "length k \<le> jl_max_string_bytes limits" using Cons.prems(6) p by simp_all
  have wf: "\<forall>k' \<in> fst ` set acc. k' < k" "om_wf ((acc @ [(k, v)]) @ ms)" using om_wf_append_Cons [of acc k v ms] Cons.prems(5) p by simp_all
  have fresh: "map_of acc k = None" using wf(1) by (auto simp: map_of_eq_None_iff)
  note put = om_put_last [OF wf(1), of v]
  have sep: "skip_whitespace ((if pretty then '' '' else []) @ dump_to pretty d v @ tail) = dump_to pretty d v @ tail" by simp
  have step: "object_loop limits pv n acc (line_break pretty d @ json_escape k @ CHR '':'' # (if pretty then '' '' else []) @ dump_to pretty d v @ tail) items
    = (case skip_whitespace tail of [] \<Rightarrow> Inl RejectedTruncatedInput
       | c # cs \<Rightarrow> if c = CHR '','' then object_loop limits pv m (acc @ [(k, v)]) cs (items + json_items v)
                  else if c = CHR ''}'' then Inr (JObject (acc @ [(k, v)]), cs, items + json_items v) else Inl RejectedMalformedDocument)"
    unfolding n(1) object_loop.simps skip_line_break skip_escape parse_string_escape [OF key(2)] sum.case prod.case
    using key(1) by (simp add: consume_def sep pv fresh put cong: if_cong list.case_cong del: append.simps)
  show ?case
  proof (cases "ms = []")
    case True
    then show ?thesis unfolding shape step by (simp add: tail_def p)
  next
    case False
    have "object_loop limits pv m (acc @ [(k, v)]) (join_comma (map (dump_member pretty d) ms) @ line_break pretty d' @ CHR ''}'' # rest) (items + json_items v)
      = Inr (JObject ((acc @ [(k, v)]) @ ms), rest, items + json_items v + sum_list (map (json_items \<circ> snd) ms))"
      using Cons.prems wf(2) p by (intro Cons.IH [OF _ False n(2)]) auto
    then show ?thesis using False unfolding shape step by (simp add: tail_def add.assoc p comp_def)
  qed
qed simp

text \<open>The loops have enough iterations: every element but the last is followed by a comma, and no comma is skipped.\<close>

lemma skip_idem [simp]: "skip_whitespace (skip_whitespace t) = skip_whitespace t"
  by (simp add: skip_whitespace_def)

lemma commas_skip: "filter ((=) (CHR '','')) (skip_whitespace t) = filter ((=) (CHR '','')) t"
  by (induction t) (auto simp: skip_whitespace_def json_space_def)

lemma join_comma_length: "length xs \<le> Suc (length (skip_whitespace (join_comma xs @ t)))"
proof -
  have "length xs \<le> Suc (length (filter ((=) (CHR '','')) (join_comma xs)))"
    by (induction xs rule: join_comma.induct) auto
  also have "\<dots> \<le> Suc (length (filter ((=) (CHR '','')) (skip_whitespace (join_comma xs @ t))))" by (simp add: commas_skip)
  also have "\<dots> \<le> Suc (length (skip_whitespace (join_comma xs @ t)))" by simp
  finally show ?thesis .
qed

lemma array_loop_skip: "array_loop pv n vs (skip_whitespace t) items = array_loop pv n vs t items"
  by (cases n) simp_all

lemma object_loop_skip: "object_loop limits pv n ms (skip_whitespace t) items = object_loop limits pv n ms t items"
  by (cases n) simp_all

lemma parse_array_loop:
  assumes "\<And>cs. skip_whitespace t \<noteq> CHR '']'' # cs"
  shows "parse_array pv t items = array_loop pv (Suc (length (skip_whitespace t))) [] t items"
  using assms array_loop_skip [of pv _ "[]" t items] by (auto simp: parse_array_def simp del: array_loop.simps split: list.splits)

lemma parse_object_loop:
  assumes "\<And>cs. skip_whitespace t \<noteq> CHR ''}'' # cs"
  shows "parse_object limits pv t items = object_loop limits pv (Suc (length (skip_whitespace t))) [] t items"
  using assms object_loop_skip [of limits pv _ "[]" t items] by (auto simp: parse_object_def simp del: object_loop.simps split: list.splits)

lemma json_depth_Suc: "json_depth (JArray vs) \<le> d \<and> v \<in> set vs \<Longrightarrow> Suc (json_depth v) \<le> d"
  "json_depth (JObject ms) \<le> d \<and> (k, v) \<in> set ms \<Longrightarrow> Suc (json_depth v) \<le> d"
  by (auto simp: fold_max_le)

lemma member_map: "map (\<lambda>(k, v). line_break pretty d @ json_escape k @ CHR '':'' # (if pretty then '' '' else []) @ dump_to pretty d v) ms
    = map (dump_member pretty d) ms"
  by (simp add: dump_member_def)

lemma parse_value_dump:
  assumes "json_sorted limits v" "\<forall>s \<in> set (json_strings v). length s \<le> jl_max_string_bytes limits" "json_depth v \<le> room"
    "items + json_items v \<le> jl_max_items limits" "ends_number rest"
  shows "parse_value (Suc room) limits (dump_to pretty d v @ rest) items = Inr (v, rest, items + json_items v)"
  using assms
proof (induction v arbitrary: room items rest d)
  case (JInteger n)
  obtain c t where ct: "int_string (sint n) = c # t" "c = CHR ''-'' \<or> is_digit c"
  proof -
    obtain a b where "dec_string (nat (sint n)) = a # b" by (cases "dec_string (nat (sint n))") simp_all
    then show thesis using that [of "hd (int_string (sint n))" "tl (int_string (sint n))"] dec_string_digits [of a "nat (sint n)"]
      by (auto simp: int_string_def)
  qed
  have "c \<notin> {CHR ''{'', CHR ''['', CHR 0x22, CHR ''t'', CHR ''f'', CHR ''n''}" using ct(2) by (auto simp: is_digit_of_char)
  then show ?case using JInteger.prems(4) parse_integer_int_string [OF JInteger.prems(5), of n] by (simp add: ct(1))
next
  case (JString s)
  then show ?case using parse_string_escape [of s limits rest] by (simp add: json_escape_def)
next
  case (JArray vs)
  show ?case
  proof (cases "vs = []")
    case True
    then show ?thesis using JArray.prems(4) by (simp add: parse_array_def)
  next
    case False
    obtain r where r: "room = Suc r" using JArray.prems(3) False json_depth_Suc(1) [of vs room "hd vs"] by (cases room) auto
    let ?text = "join_comma (map (\<lambda>v. line_break pretty (d + 1) @ dump_to pretty (d + 1) v) vs) @ line_break pretty d @ CHR '']'' # rest"
    have IH: "parse_value room limits (dump_to pretty (d + 1) v @ rest') items' = Inr (v, rest', items' + json_items v)"
      if "v \<in> set vs" "ends_number rest'" "items' + json_items v \<le> jl_max_items limits" for v rest' items'
      unfolding r using that JArray.prems(1-3) r json_depth_Suc(1) [of vs room v]
      by (intro JArray.IH) (auto simp: list_all_iff)
    have loop: "array_loop (parse_value room limits) n [] ?text (items + 1) = Inr (JArray vs, rest, items + json_items (JArray vs))"
      if "length vs \<le> n" for n
      using array_loop_dump [where M = "jl_max_items limits" and items = "items + 1" and acc = "[]" and d' = d and rest = rest, OF IH False that] JArray.prems(4) by simp
    have len: "length vs \<le> Suc (length (skip_whitespace ?text))"
      using join_comma_length [of "map (\<lambda>v. line_break pretty (d + 1) @ dump_to pretty (d + 1) v) vs"] by simp
    have "skip_whitespace ?text \<noteq> CHR '']'' # cs" for cs
    proof -
      obtain v ws where vs: "vs = v # ws" using False by (cases vs) simp_all
      obtain c t where ct: "dump_to pretty (d + 1) v = c # t" "\<not> json_space c" "c \<noteq> CHR '']''" using dump_head .
      show ?thesis unfolding vs by (simp add: join_comma_Cons ct del: dump_to.simps) (use ct in simp)
    qed
    then have "parse_array (parse_value room limits) ?text (items + 1) = Inr (JArray vs, rest, items + json_items (JArray vs))"
      using parse_array_loop [of ?text] loop [OF len] by simp
    then show ?thesis using False JArray.prems(4) by simp
  qed
next
  case (JObject ms)
  show ?case
  proof (cases "ms = []")
    case True
    then show ?thesis using JObject.prems(4) by (simp add: parse_object_def)
  next
    case False
    obtain r where r: "room = Suc r" using JObject.prems(3) False json_depth_Suc(2) [of ms room "fst (hd ms)" "snd (hd ms)"] by (cases room) auto
    let ?text = "join_comma (map (dump_member pretty (d + 1)) ms) @ line_break pretty d @ CHR ''}'' # rest"
    have IH: "parse_value room limits (dump_to pretty (d + 1) v @ rest') items' = Inr (v, rest', items' + json_items v)"
      if "(k, v) \<in> set ms" "ends_number rest'" "items' + json_items v \<le> jl_max_items limits" for k v rest' items'
      unfolding r using that JObject.prems(1-3) r json_depth_Suc(2) [of ms room k v]
      by (intro JObject.IH [of "(k, v)"]) (auto simp: list_all_iff)
    have keys: "\<forall>k \<in> fst ` set ms. length k \<le> jl_max_key_bytes limits \<and> length k \<le> jl_max_string_bytes limits" "om_wf ([] @ ms)"
      using JObject.prems(1,2) by (auto simp: list_all_iff)
    have sum: "sum_list (map (json_items \<circ> snd) ms) = sum_list (map (\<lambda>(k, v). json_items v) ms)"
      by (rule arg_cong [of _ _ sum_list]) auto
    have loop: "object_loop limits (parse_value room limits) n [] ?text (items + 1) = Inr (JObject ms, rest, items + json_items (JObject ms))"
      if "length ms \<le> n" for n
      using object_loop_dump [where M = "jl_max_items limits" and items = "items + 1" and acc = "[]" and d' = d and rest = rest and limits = limits,
        OF IH False that] keys JObject.prems(4) by (simp add: sum)
    have len: "length ms \<le> Suc (length (skip_whitespace ?text))"
      using join_comma_length [of "map (dump_member pretty (d + 1)) ms"] by simp
    have "skip_whitespace ?text \<noteq> CHR ''}'' # cs" for cs
      using False by (cases ms) (auto simp: join_comma_Cons dump_member_def json_escape_def)
    then have "parse_object limits (parse_value room limits) ?text (items + 1) = Inr (JObject ms, rest, items + json_items (JObject ms))"
      using parse_object_loop [of ?text] loop [OF len] by simp
    then show ?thesis using False JObject.prems(4) unfolding dump_to.simps member_map by simp
  qed
qed (simp_all add: literal_def)

section \<open>Dumped text is valid UTF-8\<close>

lemma utf8_lead_ascii: "byte_of c < 0x80 \<Longrightarrow> utf8_lead (byte_of c) = Some (0, ucast (byte_of c))"
  by (simp add: utf8_lead_def)

lemma utf8_lead_extra: "utf8_lead (byte_of c) = Some (extra, cp) \<Longrightarrow> extra = 0 \<longleftrightarrow> byte_of c < 0x80"
  by (auto simp: utf8_lead_def split: if_splits)

lemma valid_utf8_append: "valid_utf8 a \<Longrightarrow> valid_utf8 b \<Longrightarrow> valid_utf8 (a @ b)"
proof (induction a rule: valid_utf8.induct)
  case (2 c cs)
  then show ?case by (auto split: option.splits prod.splits if_splits)
qed simp

lemma valid_utf8_ascii: "\<forall>c \<in> set s. byte_of c < 0x80 \<Longrightarrow> valid_utf8 s"
  by (induction s) (simp_all add: utf8_lead_ascii)

lemma utf8_tail_high: "utf8_tail cs cp = Some x \<Longrightarrow> c \<in> set cs \<Longrightarrow> \<not> byte_of c < 0x80"
proof (induction cs cp rule: utf8_tail.induct)
  case (2 d ds cp)
  have "\<not> byte_of d < 0x80" if "byte_of d AND 0xC0 = 0x80"
    using word_and_le2 [of "byte_of d" "0xC0"] that by (simp add: not_less)
  then show ?case using 2 by (auto split: if_splits)
qed simp

lemma escape_high: "\<not> byte_of c < 0x80 \<Longrightarrow> escape_char c = [c]"
proof -
  assume high: "\<not> byte_of c < 0x80"
  then have "c \<notin> {CHR 0x22, CHR 0x5C, CHR 0x0A, CHR 0x0D, CHR 0x09, CHR 0x08, CHR 0x0C}" "\<not> byte_of c < 0x20" by (auto simp: byte_of_less)
  then show ?thesis by (simp add: escape_char_def)
qed

lemma escape_high_list: "\<forall>c \<in> set cs. \<not> byte_of c < 0x80 \<Longrightarrow> concat (map escape_char cs) = cs"
  by (induction cs) (simp_all add: escape_high)

lemma hex_digit_ascii: "byte_of (kHexDigits ! unat (b AND 0xF :: u8)) < 0x80"
proof -
  have "b AND 0xF \<le> (0xF :: u8)" by (rule word_and_le1)
  then have "unat (b AND 0xF) < length kHexDigits" by (simp add: word_le_nat_alt kHexDigits_def)
  then have "kHexDigits ! unat (b AND 0xF) \<in> set kHexDigits" by (rule nth_mem)
  then show ?thesis by (auto simp: kHexDigits_def byte_of_less)
qed

lemma escape_ascii: "byte_of c < 0x80 \<Longrightarrow> d \<in> set (escape_char c) \<Longrightarrow> byte_of d < 0x80"
  using hex_digit_ascii by (auto simp: escape_char_def byte_of_less(2) split: if_splits)

lemma valid_utf8_escaped: "valid_utf8 s \<Longrightarrow> valid_utf8 (concat (map escape_char s))"
proof (induction s rule: valid_utf8.induct)
  case (2 c cs)
  from "2.prems" obtain extra cp where l: "utf8_lead (byte_of c) = Some (extra, cp)" by (auto split: option.splits)
  show ?case
  proof (cases "extra = 0")
    case True
    then have "byte_of c < 0x80" using utf8_lead_extra [OF l] by simp
    then have "valid_utf8 (escape_char c)" using escape_ascii by (intro valid_utf8_ascii) blast
    moreover have "valid_utf8 (concat (map escape_char cs))" using 2 l True by simp
    ultimately show ?thesis by (simp add: valid_utf8_append)
  next
    case False
    from "2.prems" l False obtain x where x: "extra \<le> length cs" "utf8_tail (take extra cs) cp = Some x" "code_point_ok extra x" "valid_utf8 (drop extra cs)"
      by (auto split: option.splits if_splits)
    have "concat (map escape_char (take extra cs @ drop extra cs)) = take extra cs @ concat (map escape_char (drop extra cs))"
      using escape_high_list [of "take extra cs"] utf8_tail_high [OF x(2)] by (simp del: append_take_drop_id)
    then have e: "concat (map escape_char (c # cs)) = c # take extra cs @ concat (map escape_char (drop extra cs))"
      using escape_high utf8_lead_extra [OF l] False by simp
    have "valid_utf8 (concat (map escape_char (drop extra cs)))" using "2.IH"(2) l False x by (simp add: not_less)
    then show ?thesis unfolding e using l False x by simp
  qed
qed simp

lemma ascii_simps [simp]: "byte_of (CHR 0x22) < 0x80" "byte_of (CHR '','') < 0x80" "byte_of (CHR '':'') < 0x80" "byte_of (CHR ''['') < 0x80"
  "byte_of (CHR '']'') < 0x80" "byte_of (CHR ''{'') < 0x80" "byte_of (CHR ''}'') < 0x80" "byte_of (CHR '' '') < 0x80" "byte_of (CHR 0x0A) < 0x80"
  "byte_of (CHR ''-'') < 0x80"
  by (simp_all add: byte_of_less)

lemma valid_utf8_Cons_ascii: "byte_of c < 0x80 \<Longrightarrow> valid_utf8 (c # s) = valid_utf8 s"
  by (simp add: utf8_lead_ascii)

lemma valid_utf8_json_escape: "valid_utf8 s \<Longrightarrow> valid_utf8 (json_escape s)"
  unfolding json_escape_def by (simp add: valid_utf8_Cons_ascii valid_utf8_append valid_utf8_escaped del: valid_utf8.simps(2))

lemma valid_utf8_join: "\<forall>x \<in> set xs. valid_utf8 x \<Longrightarrow> valid_utf8 (join_comma xs)"
  by (induction xs rule: join_comma.induct) (simp_all add: valid_utf8_append valid_utf8_Cons_ascii del: valid_utf8.simps(2))

lemma valid_utf8_line_break: "valid_utf8 (line_break pretty d)"
  by (rule valid_utf8_ascii) (auto simp: line_break_def)

lemma valid_utf8_int_string: "valid_utf8 (int_string n)"
proof (rule valid_utf8_ascii, intro ballI)
  fix c assume "c \<in> set (int_string n)"
  then have "c = CHR ''-'' \<or> is_digit c" by (auto simp: int_string_def dest: dec_string_digits split: if_splits)
  then show "byte_of c < 0x80" by (auto simp: is_digit_of_char byte_of_less)
qed

lemma valid_utf8_dump: "\<forall>s \<in> set (json_strings v). valid_utf8 s \<Longrightarrow> valid_utf8 (dump_to pretty d v)"
proof (induction v arbitrary: d)
  case (JArray vs)
  then have "valid_utf8 (join_comma (map (\<lambda>v. line_break pretty (d + 1) @ dump_to pretty (d + 1) v) vs))"
    by (intro valid_utf8_join) (auto intro!: valid_utf8_append valid_utf8_line_break)
  then show ?case
    by (auto intro!: valid_utf8_append valid_utf8_line_break simp: valid_utf8_Cons_ascii simp del: valid_utf8.simps(2))
next
  case (JObject ms)
  have "valid_utf8 (dump_member pretty (d + 1) p)" if "p \<in> set ms" for p
  proof -
    obtain k v where p: "p = (k, v)" by (cases p)
    have "\<forall>s \<in> set (k # json_strings v). valid_utf8 s" using JObject.prems that p by auto
    then have "valid_utf8 (json_escape k)" "valid_utf8 (dump_to pretty (d + 1) v)"
      using JObject.IH [of p v "d + 1"] that p by (simp_all add: valid_utf8_json_escape)
    then show ?thesis
      by (simp add: p dump_member_def valid_utf8_append valid_utf8_line_break valid_utf8_Cons_ascii del: valid_utf8.simps(2) dump_to.simps)
  qed
  then have "valid_utf8 (join_comma (map (dump_member pretty (d + 1)) ms))" by (intro valid_utf8_join) auto
  then show ?case
    unfolding dump_to.simps member_map
    by (auto intro!: valid_utf8_append valid_utf8_line_break simp: valid_utf8_Cons_ascii simp del: valid_utf8.simps(2))
qed (auto simp: valid_utf8_int_string valid_utf8_json_escape byte_of_less simp del: valid_utf8.simps(2) intro!: valid_utf8_ascii)

section \<open>What the parser accepts\<close>

definition json_fits :: "JsonLimits \<Rightarrow> bool \<Rightarrow> JsonValue \<Rightarrow> bool" where
  "json_fits limits pretty v \<longleftrightarrow> json_sorted limits v \<and> list_all (\<lambda>s. length s \<le> jl_max_string_bytes limits \<and> valid_utf8 s) (json_strings v)
     \<and> json_depth v \<le> jl_max_depth limits \<and> json_items v \<le> jl_max_items limits \<and> length (JsonValue_dump pretty v) \<le> jl_max_bytes limits"

lemma parse_dumped: "json_fits limits pretty v \<Longrightarrow> JsonValue_parse limits (JsonValue_dump pretty v) = Success Ok v"
proof -
  assume v: "json_fits limits pretty v"
  have "valid_utf8 (JsonValue_dump pretty v)"
    using v unfolding JsonValue_dump_def by (intro valid_utf8_dump) (simp add: json_fits_def list_all_iff)
  moreover have "parse_value (Suc (jl_max_depth limits)) limits (dump_to pretty 0 v @ []) 0 = Inr (v, [], 0 + json_items v)"
    using v by (intro parse_value_dump) (simp_all add: json_fits_def list_all_iff)
  moreover have "skip_whitespace (dump_to pretty 0 v) = dump_to pretty 0 v" using skip_dump [of pretty 0 v "[]"] by simp
  ultimately show ?thesis
    using v by (simp add: JsonValue_parse_def parse_document_def json_fits_def JsonValue_dump_def del: parse_value.simps)
qed

text \<open>
  C31: documents round trip. A value whose objects have sorted distinct keys and which stays within the limits is read
  back from its own text, compact or pretty-printed, exactly.
\<close>

theorem json_roundtrip:
  assumes "json_fits limits pretty v"
  shows "JsonValue_parse limits (JsonValue_dump pretty v) = Success Ok v"
  using assms by (rule parse_dumped)

definition sample_json :: JsonValue where
  "sample_json = JObject [(''a'', JArray [JInteger (- 5), JString [CHR 0x01, CHR 0xC3, CHR 0xA9]]), (''b'', JObject [])]"

definition sample_json_limits :: JsonLimits where
  "sample_json_limits = \<lparr>jl_max_bytes = 90, jl_max_depth = 3, jl_max_items = 9, jl_max_string_bytes = 9, jl_max_key_bytes = 9\<rparr>"

theorem json_roundtrip_witness: "JsonValue_parse sample_json_limits (JsonValue_dump True sample_json) = Success Ok sample_json"
proof -
  have "json_fits sample_json_limits True sample_json" by code_simp
  then show ?thesis by (rule json_roundtrip)
qed

definition json_reasons :: "ReasonCode list" where
  "json_reasons = [RejectedTruncatedInput, RejectedMalformedDocument, RejectedOversizedInput, RejectedNestingTooDeep,
     RejectedInvalidUtf8, RejectedDuplicateKey, RejectedTrailingGarbage]"

definition refusal :: "ReasonCode \<Rightarrow> bool" where
  "refusal r \<longleftrightarrow> r \<in> set json_reasons"

lemma refusals [simp]: "refusal RejectedTruncatedInput" "refusal RejectedMalformedDocument" "refusal RejectedOversizedInput"
  "refusal RejectedNestingTooDeep" "refusal RejectedInvalidUtf8" "refusal RejectedDuplicateKey" "refusal RejectedTrailingGarbage"
  by (simp_all add: refusal_def json_reasons_def)

text \<open>What a parser of a value promises, with room for nesting below \<open>room\<close>.\<close>

definition parsed :: "JsonLimits \<Rightarrow> nat \<Rightarrow> string \<Rightarrow> nat \<Rightarrow> ReasonCode + JsonValue \<times> string \<times> nat \<Rightarrow> bool" where
  "parsed limits room text items r = (case r of Inl c \<Rightarrow> refusal c
     | Inr (v, rest, items') \<Rightarrow> length rest < length text \<and> json_sorted limits v \<and> json_depth v < room
         \<and> items' = items + json_items v \<and> items' \<le> jl_max_items limits)"

lemma skip_length: "length (skip_whitespace t) \<le> length t"
  by (simp add: skip_whitespace_def length_dropWhile_le)

lemma parse_hex4_refusal: "parse_hex4 t = Inl r \<Longrightarrow> refusal r"
  by (auto simp: parse_hex4_def split: if_splits option.splits)

lemma unicode_escape_refusal: "unicode_escape t = Inl r \<Longrightarrow> refusal r"
  by (auto simp: unicode_escape_def dest: parse_hex4_refusal split: sum.splits if_splits prod.splits)

lemma parse_escape_refusal: "parse_escape t = Inl r \<Longrightarrow> refusal r"
  by (auto simp: parse_escape_def dest: unicode_escape_refusal split: list.splits if_splits)

definition shortened :: "string \<Rightarrow> ReasonCode + 'a \<times> string \<Rightarrow> bool" where
  "shortened t r = (case r of Inl c \<Rightarrow> refusal c | Inr (x, rest) \<Rightarrow> length rest < length t)"

lemma shortened_simps [simp]: "shortened t (Inl c) = refusal c" "shortened t (Inr (x, rest)) = (length rest < length t)"
  by (simp_all add: shortened_def)

lemma shortened_mono: "shortened t r \<Longrightarrow> length t \<le> length t' \<Longrightarrow> shortened t' r"
  by (auto simp: shortened_def split: sum.splits)

lemma string_loop_parsed: "shortened t (string_loop limits out t)"
proof (induction limits out t rule: string_loop.induct)
  case (2 limits out c cs)
  show ?case
  proof (cases "parse_escape cs")
    case (Inl r)
    then show ?thesis using 2(1) parse_escape_refusal [OF Inl] by (auto intro: shortened_mono)
  next
    case (Inr p)
    obtain s rest where p: "p = (s, rest)" by (cases p)
    have "length rest < length cs" using Inr p parse_escape_shorter by simp
    then have up: "shortened (c # cs) r" if "shortened rest r" for r :: "ReasonCode + string \<times> string"
      using that shortened_mono [of rest r "c # cs"] by simp
    have "string_loop limits out (c # cs) = string_loop limits (out @ s) rest \<and> shortened rest (string_loop limits (out @ s) rest)"
      if "c = CHR 0x5C" "\<not> jl_max_string_bytes limits < length (out @ s)"
      using 2(2) [of "(s, rest)" s rest] that Inr p by (simp add: byte_of_less)
    then show ?thesis using 2(1) Inr p up by (cases "c = CHR 0x5C") (auto simp: byte_of_less intro: shortened_mono)
  qed
qed simp

lemma parse_string_parsed: "shortened t (parse_string limits t)"
  using string_loop_parsed [of "tl t" limits "[]"]
  by (cases t) (auto simp: parse_string_def consume_def intro: shortened_mono)

lemma parse_integer_parsed: "shortened t (parse_integer t)"
proof -
  define body where "body = (if t \<noteq> [] \<and> hd t = CHR ''-'' then tl t else t)"
  have "length body \<le> length t" by (simp add: body_def)
  moreover have "length (dropWhile is_digit body) < length body" if "takeWhile is_digit body \<noteq> []"
    using that arg_cong [OF takeWhile_dropWhile_id [of is_digit body], of length] by (cases "takeWhile is_digit body") auto
  ultimately show ?thesis
    unfolding parse_integer_def Let_def body_def [symmetric] by fastforce
qed

lemma parsed_leaf:
  assumes "shortened t r" "\<And>x. json_items (f x) = 1 \<and> json_sorted limits (f x) \<and> json_depth (f x) = 0" "items < jl_max_items limits"
  shows "parsed limits (Suc room) t items (map_sum id (\<lambda>(x, rest). (f x, rest, items + 1)) r)"
  using assms by (cases r) (auto simp: parsed_def)

lemma array_loop_parsed:
  assumes pv: "\<And>t items. parsed limits room t items (pv t items)" and fuel: "length t < n"
    and acc: "list_all (json_sorted limits) acc" "\<forall>v \<in> set acc. json_depth v < room"
      "items = base + json_items (JArray acc)" "items \<le> jl_max_items limits"
  shows "case array_loop pv n acc t items of Inl c \<Rightarrow> refusal c
    | Inr (v, rest, items') \<Rightarrow> length rest < length t \<and> json_sorted limits v \<and> json_depth v \<le> room
        \<and> items' = base + json_items v \<and> items' \<le> jl_max_items limits"
  using fuel acc
proof (induction n arbitrary: acc t items)
  case (Suc n)
  have p: "parsed limits room (skip_whitespace t) items (pv (skip_whitespace t) items)" by (rule pv)
  show ?case
  proof (cases "pv (skip_whitespace t) items")
    case (Inl c)
    then show ?thesis using p by (simp add: parsed_def)
  next
    case (Inr q)
    obtain v rest items' where q: "q = (v, rest, items')" by (cases q)
    have v: "length rest < length t" "json_sorted limits v" "json_depth v < room" "items' = items + json_items v" "items' \<le> jl_max_items limits"
      using p Inr q skip_length [of t] by (auto simp: parsed_def)
    show ?thesis
    proof (cases "skip_whitespace rest")
      case Nil
      then show ?thesis using Inr q by simp
    next
      case (Cons c cs)
      have len: "length cs < length rest" using Cons skip_length [of rest] by simp
      have acc': "list_all (json_sorted limits) (acc @ [v])" "\<forall>w \<in> set (acc @ [v]). json_depth w < room"
        "items' = base + json_items (JArray (acc @ [v]))" using v Suc.prems by auto
      have new: "length cs < length t" "length cs < n" using len v(1) Suc.prems(1) by simp_all
      have depth: "json_depth (JArray (acc @ [v])) \<le> room" using acc'(2) by (auto simp: fold_max_le Suc_le_eq)
      show ?thesis using Suc.IH [OF new(2) acc' v(5)] acc' depth Inr q Cons new(1) v(5)
        by (auto split: sum.splits simp del: json_depth.simps json_items.simps)
    qed
  qed
qed simp

lemma om_put_fresh:
  assumes "map_of m k = None"
  shows "set (om_put k v m) = insert (k, v) (set m)" "sum_list (map f (om_put k v m)) = f (k, v) + (sum_list (map f m) :: nat)"
  using assms by (induction m) (auto split: if_splits)

lemma object_loop_parsed:
  assumes pv: "\<And>t items. parsed limits room t items (pv t items)" and fuel: "length t < n"
    and acc: "om_wf acc" "\<forall>(k, v) \<in> set acc. length k \<le> jl_max_key_bytes limits \<and> json_sorted limits v \<and> json_depth v < room"
      "items = base + json_items (JObject acc)" "items \<le> jl_max_items limits"
  shows "case object_loop limits pv n acc t items of Inl c \<Rightarrow> refusal c
    | Inr (v, rest, items') \<Rightarrow> length rest < length t \<and> json_sorted limits v \<and> json_depth v \<le> room
        \<and> items' = base + json_items v \<and> items' \<le> jl_max_items limits"
  using fuel acc
proof (induction n arbitrary: acc t items)
  case (Suc n)
  show ?case
  proof (cases "parse_string limits (skip_whitespace t)")
    case (Inl c)
    then show ?thesis using parse_string_parsed [of "skip_whitespace t" limits] by simp
  next
    case (Inr q)
    obtain key t1 where q: "q = (key, t1)" by (cases q)
    have t1: "length t1 < length t" using parse_string_parsed [of "skip_whitespace t" limits] skip_length [of t] Inr q by simp
    show ?thesis
    proof (cases "length key > jl_max_key_bytes limits \<or> (\<nexists>t2. consume (CHR '':'') (skip_whitespace t1) = Inr t2)")
      case True
      then show ?thesis using Inr q by (auto simp: consume_def split: list.splits if_splits)
    next
      case False
      then obtain t2 where t2: "consume (CHR '':'') (skip_whitespace t1) = Inr t2" and key: "length key \<le> jl_max_key_bytes limits" by auto
      have l2: "length t2 < length t1" using t2 skip_length [of t1] by (auto simp: consume_def split: list.splits if_splits)
      have p: "parsed limits room (skip_whitespace t2) items (pv (skip_whitespace t2) items)" by (rule pv)
      show ?thesis
      proof (cases "pv (skip_whitespace t2) items")
        case (Inl c)
        then show ?thesis using p Inr q t2 key by (simp add: parsed_def)
      next
        case pvr: (Inr r)
        obtain v rest items' where r: "r = (v, rest, items')" by (cases r)
        have v: "length rest < length t2" "json_sorted limits v" "json_depth v < room" "items' = items + json_items v" "items' \<le> jl_max_items limits"
          using p pvr r skip_length [of t2] by (auto simp: parsed_def)
        show ?thesis
        proof (cases "map_of acc key = None \<and> skip_whitespace rest \<noteq> []")
          case False
          then show ?thesis using Inr q t2 key pvr r by (auto split: list.splits)
        next
          case True
          then obtain c cs where cs: "skip_whitespace rest = c # cs" by (cases "skip_whitespace rest") auto
          let ?acc = "om_put key v acc"
          note fresh = om_put_fresh [OF conjunct1 [OF True]]
          have acc': "om_wf ?acc" "\<forall>(k, v) \<in> set ?acc. length k \<le> jl_max_key_bytes limits \<and> json_sorted limits v \<and> json_depth v < room"
            "items' = base + json_items (JObject ?acc)"
            using v key Suc.prems by (auto simp: fresh)
          have new: "length cs < length t" "length cs < n" using cs skip_length [of rest] v(1) l2 t1 Suc.prems(1) by simp_all
          have depth: "json_depth (JObject ?acc) \<le> room" using acc'(2) by (auto simp: fold_max_le Suc_le_eq)
          have sorted: "json_sorted limits (JObject ?acc)" using acc'(1,2) by (auto simp: list_all_iff)
          have "object_loop limits pv (Suc n) acc t items = (if c = CHR '','' then object_loop limits pv n ?acc cs items'
              else if c = CHR ''}'' then Inr (JObject ?acc, cs, items') else Inl RejectedMalformedDocument)"
            using Inr q t2 key pvr r cs True by simp
          then show ?thesis using Suc.IH [OF new(2) acc' v(5)] acc'(3) depth sorted new(1) v(5)
            by (auto split: sum.splits simp del: json_depth.simps json_items.simps json_sorted.simps object_loop.simps)
        qed
      qed
    qed
  qed
qed simp

lemma parse_value_parsed: "parsed limits room t items (parse_value room limits t items)"
proof (induction room arbitrary: t items)
  case 0
  then show ?case by (simp add: parsed_def)
next
  case (Suc room)
  show ?case
  proof (cases "t = [] \<or> items \<ge> jl_max_items limits")
    case True
    then show ?thesis by (cases t) (auto simp: parsed_def)
  next
    case False
    then obtain c cs where t: "t = c # cs" and it: "items < jl_max_items limits" by (cases t) auto
    have arr: "parsed limits (Suc room) t items (parse_array (parse_value room limits) cs (items + 1))"
    proof (cases "\<exists>ds. skip_whitespace cs = CHR '']'' # ds")
      case True
      then show ?thesis using skip_length [of cs] it t by (auto simp: parse_array_def parsed_def)
    next
      case no: False
      have "length (skip_whitespace cs) < Suc (length (skip_whitespace cs))" by simp
      from array_loop_parsed [where pv = "parse_value room limits" and acc = "[]" and base = items and items = "items + 1", OF Suc.IH this]
      show ?thesis using it no parse_array_loop [of cs "parse_value room limits" "items + 1"] skip_length [of cs] t
        array_loop_skip [of "parse_value room limits" "Suc (length (skip_whitespace cs))" "[]" cs "items + 1"]
        by (auto simp: parsed_def less_Suc_eq_le split: sum.splits simp del: array_loop.simps)
    qed
    have obj: "parsed limits (Suc room) t items (parse_object limits (parse_value room limits) cs (items + 1))"
    proof (cases "\<exists>ds. skip_whitespace cs = CHR ''}'' # ds")
      case True
      then show ?thesis using skip_length [of cs] it t by (auto simp: parse_object_def parsed_def)
    next
      case no: False
      have "length (skip_whitespace cs) < Suc (length (skip_whitespace cs))" by simp
      from object_loop_parsed [where pv = "parse_value room limits" and acc = "[]" and base = items and items = "items + 1" and limits = limits, OF Suc.IH this]
      show ?thesis using it no parse_object_loop [of cs limits "parse_value room limits" "items + 1"] skip_length [of cs] t
        object_loop_skip [of limits "parse_value room limits" "Suc (length (skip_whitespace cs))" "[]" cs "items + 1"]
        by (auto simp: parsed_def less_Suc_eq_le split: sum.splits simp del: object_loop.simps)
    qed
    have lit: "parsed limits (Suc room) t items (map_sum id (\<lambda>rest. (v, rest, items + 1)) (literal w t))"
      if "json_items v = 1" "json_depth v = 0" "json_sorted limits v" "w \<noteq> []" for v w
      using that it t by (auto simp: literal_def parsed_def intro!: diff_less)
    have str: "parsed limits (Suc room) t items (map_sum id (\<lambda>(s, rest). (JString s, rest, items + 1)) (parse_string limits t))"
      by (rule parsed_leaf [OF parse_string_parsed _ it]) simp
    have int: "parsed limits (Suc room) t items (map_sum id (\<lambda>(n, rest). (JInteger n, rest, items + 1)) (parse_integer t))"
      by (rule parsed_leaf [OF parse_integer_parsed _ it]) simp
    show ?thesis
      using arr obj str int it lit [of JNull "''null''"] lit [of "JBool True" "''true''"] lit [of "JBool False" "''false''"] unfolding t
      by (auto simp: not_le)
  qed
qed

text \<open>
  The parser always answers, within its limits. Whatever the text and the limits, the parser either refuses with
  one of the seven document reasons, so none of its loops is ever cut short by the iteration bound of the model, or
  returns a value whose objects have sorted, distinct, bounded keys and whose nesting and item count are within the limits.
\<close>

theorem json_parse_sound:
  "case JsonValue_parse limits text of
     Failure reason detail \<Rightarrow> reason \<in> set json_reasons
   | Success c v \<Rightarrow> c = Ok \<and> json_sorted limits v \<and> json_depth v \<le> jl_max_depth limits \<and> json_items v \<le> jl_max_items limits
       \<and> length text \<le> jl_max_bytes limits \<and> valid_utf8 text"
  using parse_value_parsed [of limits "Suc (jl_max_depth limits)" "skip_whitespace text" 0]
  by (auto simp: JsonValue_parse_def parse_document_def parsed_def refusal_def [symmetric] less_Suc_eq_le split: sum.splits simp del: parse_value.simps)

lemma string_loop_plain:
  "\<forall>c \<in> set s. escape_char c = [c] \<Longrightarrow> string_loop limits out (s @ CHR 0x22 # rest) = Inr (out @ s, rest)"
proof (induction s arbitrary: out)
  case (Cons c s)
  then have "c \<noteq> CHR 0x22" "c \<noteq> CHR 0x5C" "\<not> byte_of c < 0x20" by (auto simp: escape_char_def split: if_splits)
  then show ?case using Cons by simp
qed simp

text \<open>
  The string bound is not enforced on plain strings. \<open>max_string_bytes\<close> is only compared after an escape
  sequence, so a string without escapes is accepted whatever its length.
\<close>

theorem string_bound_ignored:
  assumes "\<forall>c \<in> set s. escape_char c = [c]" "valid_utf8 s" "length s + 2 \<le> jl_max_bytes limits" "1 \<le> jl_max_items limits"
  shows "JsonValue_parse limits (JsonValue_dump pretty (JString s)) = Success Ok (JString s)"
proof -
  have plain: "concat (map escape_char s) = s" using assms(1) by (induction s) simp_all
  have "valid_utf8 (CHR 0x22 # s @ [CHR 0x22])" using valid_utf8_json_escape [OF assms(2)] by (simp add: json_escape_def plain)
  then show ?thesis
    using assms string_loop_plain [of s limits "[]" "[]"]
    by (simp add: JsonValue_parse_def parse_document_def JsonValue_dump_def json_escape_def plain parse_string_def consume_def del: valid_utf8.simps)
qed

theorem string_bound_ignored_witness:
  "JsonValue_parse (default_json_limits\<lparr>jl_max_string_bytes := 0\<rparr>) (JsonValue_dump False (JString ''abc'')) = Success Ok (JString ''abc'')"
proof -
  have "\<forall>c \<in> set ''abc''. escape_char c = [c]" by (simp add: escape_char_def byte_of_less)
  moreover have "valid_utf8 ''abc''" by (rule valid_utf8_ascii) (simp add: byte_of_less)
  ultimately show ?thesis by (rule string_bound_ignored) (simp_all add: default_json_limits_def)
qed

end
