(* ===== verification/Documents.thy ===== *)
theory Documents
  imports StoreFormat Json
begin

text \<open>
  The values of a canonical document, of \<open>src/export.cpp\<close>: \<open>json_of\<close> for each type of the durable state and the
  \<open>read_...\<close> functions that take the values back from a parsed document.

  A reader of the source returns a flag, the value through a reference and the reason through another; here it is a
  result, \<open>Inl\<close> with the reason. Integers of a document are signed 64-bit, and an unsigned value is cast to them, so a
  value from \<open>2 ^ 63\<close> on is written as a negative number, which every reader refuses; the predicates \<open>doc_...\<close> say what
  a reader returns. The locale \<open>document_codec\<close> states what a pair of \<open>json_of\<close> and its reader promises, and is
  interpreted for every type.
\<close>

section \<open>Results\<close>

fun rbind :: "'e + 'a \<Rightarrow> ('a \<Rightarrow> 'e + 'b) \<Rightarrow> 'e + 'b" where
  "rbind (Inl e) f = Inl e"
| "rbind (Inr x) f = f x"

definition rguard :: "bool \<Rightarrow> 'e \<Rightarrow> 'e + unit" where
  "rguard b e = (if b then Inr () else Inl e)"

primrec rlist :: "('a \<Rightarrow> 'e + 'b) \<Rightarrow> 'a list \<Rightarrow> 'e + 'b list" where
  "rlist f [] = Inr []"
| "rlist f (x # xs) = rbind (f x) (\<lambda>y. rbind (rlist f xs) (\<lambda>ys. Inr (y # ys)))"

definition roption :: "'e \<Rightarrow> 'a option \<Rightarrow> 'e + 'a" where
  "roption e x = (case x of None \<Rightarrow> Inl e | Some y \<Rightarrow> Inr y)"

lemma rbind_Inr [simp]: "rbind r f = Inr y \<longleftrightarrow> (\<exists>x. r = Inr x \<and> f x = Inr y)"
  by (cases r) simp_all

lemma rguard_simps [simp]: "rguard b e = Inr u \<longleftrightarrow> b" "rguard True e = Inr ()" "rguard False e = Inl e"
  by (simp_all add: rguard_def)

lemma roption_simps [simp]: "roption e x = Inr y \<longleftrightarrow> x = Some y" "roption e (Some y) = Inr y"
  by (simp_all add: roption_def split: option.split)

lemma rlist_length: "rlist f xs = Inr ys \<Longrightarrow> length ys = length xs"
  by (induction xs arbitrary: ys) auto

section \<open>Values\<close>

text \<open>An object built by successive calls of \<open>set\<close>, and a member that is set only when it is present.\<close>

definition json_object :: "(string \<times> JsonValue) list \<Rightarrow> JsonValue" where
  "json_object ms = fold (\<lambda>(k, v). json_set k v) ms (JObject [])"

definition json_opt :: "string \<Rightarrow> JsonValue option \<Rightarrow> (string \<times> JsonValue) list" where
  "json_opt k x = (case x of None \<Rightarrow> [] | Some v \<Rightarrow> [(k, v)])"

definition json_size :: "nat \<Rightarrow> JsonValue" where
  "json_size n = JInteger (of_nat n)"

definition json_of_SemVer :: "SemVer \<Rightarrow> JsonValue" where
  "json_of_SemVer v = JString (SemVer_str v)"

definition json_of_Unit :: "Unit \<Rightarrow> JsonValue" where
  "json_of_Unit u = JString (unit_to_string u)"

definition json_of_kind :: "CapabilityKind \<Rightarrow> JsonValue" where
  "json_of_kind k = JString (CapabilityKind_to_string k)"

definition json_of_authority :: "AuthorityRank \<Rightarrow> JsonValue" where
  "json_of_authority a = JString (AuthorityRank_to_string a)"

definition json_of_reason :: "ReasonCode \<Rightarrow> JsonValue" where
  "json_of_reason c = JString (reason_to_string c)"

definition json_of_digest :: "Digest256 \<Rightarrow> JsonValue" where
  "json_of_digest d = JString (Digest256_hex d)"

definition json_of_FeatureSet :: "FeatureSet \<Rightarrow> JsonValue" where
  "json_of_FeatureSet s = JArray (map (\<lambda>c. JString (FeatureCode_to_string c)) s)"

definition json_of_limit :: "LimitValue \<Rightarrow> JsonValue" where
  "json_of_limit l = json_object [(''code'', JString (LimitCode_to_string (lv_code l))), (''unit'', json_of_Unit (lv_unit l)),
     (''value'', JInteger (lv_value l))]"

definition json_of_LimitSet :: "LimitSet \<Rightarrow> JsonValue" where
  "json_of_LimitSet s = JArray (map json_of_limit s)"

definition json_of_device :: "DeviceIdentity \<Rightarrow> JsonValue" where
  "json_of_device d = json_object ([(''provider'', JString (di_provider d)), (''model'', JString (di_model d)),
     (''unit_index'', JInteger (ucast (di_unit_index d)))] @ json_opt ''serial'' (map_option JString (di_serial d)))"

definition json_of_device_ref :: "DeviceIncarnationRef \<Rightarrow> JsonValue" where
  "json_of_device_ref d = json_object [(''device'', json_of_device (dr_device d)), (''incarnation'', JInteger (dr_incarnation d))]"

definition json_of_source_incarnation :: "SourceIncarnation \<Rightarrow> JsonValue" where
  "json_of_source_incarnation s = json_object [(''source'', JString (si_source s)), (''counter'', JInteger (si_counter s))]"

definition json_of_source_policy :: "SourcePolicy \<Rightarrow> JsonValue" where
  "json_of_source_policy s = json_object [(''id'', JString (sp_id s)), (''kind'', JString (SourceKind_to_string (sp_kind s))),
     (''authority'', json_of_authority (sp_authority s)), (''trust'', JString (SourceTrustState_to_string (sp_trust s))),
     (''max_age'', JInteger (sp_max_age s)), (''durable_across_boot'', JBool (sp_durable_across_boot s))]"

definition json_of_limits :: "RegistryLimits \<Rightarrow> JsonValue" where
  "json_of_limits l = json_object [(''max_conflict_groups'', json_size (max_conflict_groups l)),
     (''max_decisions'', json_size (max_decisions l)), (''max_devices'', json_size (max_devices l)),
     (''max_eviction_ledger'', json_size (max_eviction_ledger l)), (''max_features_per_record'', json_size (max_features_per_record l)),
     (''max_incarnations_per_device'', json_size (max_incarnations_per_device l)), (''max_limits_per_record'', json_size (max_limits_per_record l)),
     (''max_limits_per_requirement'', json_size (max_limits_per_requirement l)), (''max_records'', json_size (max_records l)),
     (''max_records_per_stream'', json_size (max_records_per_stream l)), (''max_required_features'', json_size (max_required_features l)),
     (''max_resolutions'', json_size (max_resolutions l)), (''max_sources'', json_size (max_sources l)),
     (''max_streams'', json_size (max_streams l)), (''max_tombstones'', json_size (max_tombstones l))]"

definition json_of_policy :: "RegistryPolicy \<Rightarrow> JsonValue" where
  "json_of_policy p = json_object [(''sources'', JArray (map json_of_source_policy (p_sources p))),
     (''require_configured_source'', JBool (p_require_configured_source p)),
     (''refuse_untrusted_sources'', JBool (p_refuse_untrusted_sources p)),
     (''boot_policy'', JString (BootPolicy_to_string (p_boot_policy p))), (''clock_mode'', JString (ClockMode_to_string (p_clock_mode p))),
     (''retention_horizon'', JInteger (p_retention_horizon p)), (''max_future_skew'', JInteger (p_max_future_skew p)),
     (''default_max_age'', JInteger (p_default_max_age p)), (''limits'', json_of_limits (p_limits p)),
     (''rule_generation'', JInteger (p_rule_generation p)), (''policy_name'', JString (p_policy_name p))]"

definition json_of_stored :: "StoredEvidence \<Rightarrow> JsonValue" where
  "json_of_stored s = (let e = s_evidence s in json_object ([(''id'', json_of_digest (evidence_id e)),
     (''device'', json_of_device_ref (key_device (e_key e))), (''capability_kind'', json_of_kind (key_kind (e_key e))),
     (''source'', json_of_source_incarnation (e_source_incarnation e)), (''capability_version'', json_of_SemVer (e_capability_version e)),
     (''features'', json_of_FeatureSet (e_features e)), (''limits'', json_of_LimitSet (e_limits e))]
     @ json_opt ''firmware_version'' (map_option json_of_SemVer (e_firmware_version e))
     @ [(''firmware_generation'', JInteger (e_firmware_generation e))]
     @ json_opt ''runtime_version'' (map_option json_of_SemVer (e_runtime_version e))
     @ [(''runtime_generation'', JInteger (e_runtime_generation e)), (''observed_at'', JInteger (e_observed_at e))]
     @ json_opt ''valid_until'' (map_option JInteger (e_valid_until e))
     @ [(''generation'', JInteger (e_generation e)), (''authority'', json_of_authority (e_authority e)),
        (''epoch_at_ingest'', JInteger (e_epoch_at_ingest e)), (''boot_at_ingest'', JInteger (e_boot_at_ingest e)),
        (''evidence_policy_revision'', JInteger (e_policy_revision e)),
        (''lifecycle'', JString (EvidenceLifecycle_to_string (s_lifecycle s))), (''admission_reason'', json_of_reason (s_admission_reason s)),
        (''admitted_at'', JInteger (s_admitted_at s))]
     @ json_opt ''retired_at'' (map_option JInteger (s_retired_at s))
     @ [(''retirement_reason'', json_of_reason (s_retirement_reason s))]))"

definition json_of_tombstone :: "RetirementRecord \<Rightarrow> JsonValue" where
  "json_of_tombstone t = json_object [(''device'', json_of_device_ref (key_device (rr_key t))),
     (''capability_kind'', json_of_kind (key_kind (rr_key t))), (''source'', JString (key_source (rr_key t))),
     (''generation'', JInteger (rr_generation t)), (''retired_at'', JInteger (rr_retired_at t)), (''reason'', json_of_reason (rr_reason t)),
     (''epoch'', JInteger (rr_epoch t)), (''policy_revision'', JInteger (rr_policy_revision t)), (''authority'', json_of_authority (rr_authority t))]"

definition json_of_conflict :: "ConflictGroup \<Rightarrow> JsonValue" where
  "json_of_conflict g = json_object [(''id'', json_of_digest (cg_id g)), (''device'', json_of_device_ref (cg_device g)),
     (''capability_kind'', json_of_kind (cg_kind g)), (''authority'', json_of_authority (cg_authority g)),
     (''members'', JArray (map json_of_digest (cg_members g))), (''generations'', JArray (map JInteger (cg_generations g))),
     (''observed_first'', JInteger (cg_observed_first g)), (''observed_last'', JInteger (cg_observed_last g))]"

definition json_of_resolution :: "ConflictResolution \<Rightarrow> JsonValue" where
  "json_of_resolution r = json_object [(''id'', json_of_digest (cr_id r)), (''conflict'', json_of_digest (cr_conflict r)),
     (''chosen'', json_of_digest (cr_chosen r)), (''rejected_members'', JArray (map json_of_digest (cr_rejected_members r))),
     (''resolver'', JString (cr_resolver r)), (''resolved_at'', JInteger (cr_resolved_at r)), (''epoch'', JInteger (cr_epoch r))]"

definition json_of_eviction :: "EvictionEntry \<Rightarrow> JsonValue" where
  "json_of_eviction e = json_object [(''id'', json_of_digest (ev_id e)), (''device'', json_of_device_ref (key_device (ev_key e))),
     (''capability_kind'', json_of_kind (key_kind (ev_key e))), (''source'', JString (key_source (ev_key e))),
     (''generation'', JInteger (ev_generation e)), (''state_at_eviction'', JString (EvidenceState_to_string (ev_state_at_eviction e))),
     (''reason'', json_of_reason (ev_reason e)), (''evicted_at'', JInteger (ev_evicted_at e))]"

definition json_of_incarnation_entry :: "DeviceIncarnationEntry \<Rightarrow> JsonValue" where
  "json_of_incarnation_entry e = json_object [(''device'', json_of_device (ie_device e)), (''current'', JInteger (ie_current e)),
     (''history'', JArray (map JInteger (ie_history e)))]"

definition json_of_counters :: "RegistryCounters \<Rightarrow> JsonValue" where
  "json_of_counters c = json_object [(''admissions_accepted'', JInteger (admissions_accepted c)),
     (''admissions_idempotent'', JInteger (admissions_idempotent c)), (''admissions_rejected'', JInteger (admissions_rejected c)),
     (''retirements_accepted'', JInteger (retirements_accepted c)), (''retirements_rejected'', JInteger (retirements_rejected c)),
     (''decisions_emitted'', JInteger (decisions_emitted c)), (''decisions_evicted'', JInteger (decisions_evicted c)),
     (''conflicts_resolved'', JInteger (conflicts_resolved c)), (''evictions_total'', JInteger (evictions_total c)),
     (''eviction_ledger_dropped'', JInteger (eviction_ledger_dropped c)), (''conflicts_dropped'', JInteger (conflicts_dropped c)),
     (''resolutions_dropped'', JInteger (resolutions_dropped c)), (''tombstones_dropped'', JInteger (tombstones_dropped c))]"

section \<open>Readers\<close>

definition is_object :: "JsonValue \<Rightarrow> bool" where
  "is_object v = (case v of JObject _ \<Rightarrow> True | _ \<Rightarrow> False)"

definition as_array :: "JsonValue \<Rightarrow> JsonValue list option" where
  "as_array v = (case v of JArray vs \<Rightarrow> Some vs | _ \<Rightarrow> None)"

definition as_string :: "JsonValue \<Rightarrow> string option" where
  "as_string v = (case v of JString s \<Rightarrow> Some s | _ \<Rightarrow> None)"

definition as_integer :: "JsonValue \<Rightarrow> i64 option" where
  "as_integer v = (case v of JInteger n \<Rightarrow> Some n | _ \<Rightarrow> None)"

definition as_bool :: "JsonValue \<Rightarrow> bool option" where
  "as_bool v = (case v of JBool b \<Rightarrow> Some b | _ \<Rightarrow> None)"

definition value_missing :: "JsonValue \<Rightarrow> string \<Rightarrow> bool" where
  "value_missing object key \<longleftrightarrow> json_find object key = None"

text \<open>A member that must be there, and the optional integer: \<open>out\<close> keeps its value when the member is missing.\<close>

definition read_member :: "JsonValue \<Rightarrow> string \<Rightarrow> ReasonCode + JsonValue" where
  "read_member object key = roption RejectedMissingField (json_find object key)"

definition read_string :: "JsonValue \<Rightarrow> string \<Rightarrow> ReasonCode + string" where
  "read_string object key = rbind (read_member object key) (\<lambda>v. roption RejectedMalformedDocument (as_string v))"

definition read_integer :: "JsonValue \<Rightarrow> string \<Rightarrow> bool \<Rightarrow> i64 \<Rightarrow> ReasonCode + i64" where
  "read_integer object key required out =
     (case json_find object key of None \<Rightarrow> if required then Inl RejectedMissingField else Inr out
      | Some v \<Rightarrow> roption RejectedMalformedDocument (as_integer v))"

definition read_bool :: "JsonValue \<Rightarrow> string \<Rightarrow> ReasonCode + bool" where
  "read_bool object key = rbind (read_member object key) (\<lambda>v. roption RejectedMalformedDocument (as_bool v))"

definition read_u64 :: "JsonValue \<Rightarrow> string \<Rightarrow> bool \<Rightarrow> u64 \<Rightarrow> ReasonCode + u64" where
  "read_u64 object key required out = rbind (read_integer object key required 0) (\<lambda>raw.
     if value_missing object key then Inr out else rbind (rguard (\<not> sint raw < 0) RejectedMalformedDocument) (\<lambda>_. Inr raw))"

text \<open>The recurring readers of an unsigned value, of one that may be missing, and of one that may not be zero.\<close>

definition read_natural :: "JsonValue \<Rightarrow> string \<Rightarrow> ReasonCode + u64" where
  "read_natural object key = rbind (read_integer object key True 0) (\<lambda>raw.
     rbind (rguard (\<not> sint raw < 0) RejectedMalformedDocument) (\<lambda>_. Inr raw))"

definition read_natural_opt :: "JsonValue \<Rightarrow> string \<Rightarrow> ReasonCode + u64 option" where
  "read_natural_opt object key = rbind (read_integer object key False 0) (\<lambda>raw.
     if value_missing object key then Inr None
     else rbind (rguard (\<not> sint raw < 0) RejectedMalformedDocument) (\<lambda>_. Inr (Some raw)))"

definition read_positive :: "ReasonCode \<Rightarrow> JsonValue \<Rightarrow> string \<Rightarrow> ReasonCode + u64" where
  "read_positive why object key = rbind (read_integer object key True 0) (\<lambda>raw.
     rbind (rguard (\<not> sint raw \<le> 0) why) (\<lambda>_. Inr raw))"

definition read_name :: "JsonValue \<Rightarrow> string \<Rightarrow> ReasonCode + Name" where
  "read_name object key = rbind (read_string object key) (\<lambda>t. roption RejectedMalformedName (Name_parse t))"

definition read_digest :: "JsonValue \<Rightarrow> string \<Rightarrow> ReasonCode + Digest256" where
  "read_digest object key = rbind (read_string object key) (\<lambda>t. roption RejectedMalformedDocument (Digest256_parse t))"

definition read_semver :: "JsonValue \<Rightarrow> string \<Rightarrow> ReasonCode + SemVer" where
  "read_semver object key = rbind (read_string object key) (\<lambda>t. roption RejectedMalformedVersion (SemVer_parse t))"

definition read_unit :: "JsonValue \<Rightarrow> string \<Rightarrow> ReasonCode + Unit" where
  "read_unit object key = rbind (read_string object key) (\<lambda>t. roption RejectedLimitUnitInvalid (parse_unit t))"

definition read_enum_text :: "JsonValue \<Rightarrow> string \<Rightarrow> (string \<Rightarrow> 'a option) \<Rightarrow> ReasonCode + 'a" where
  "read_enum_text object key parse = rbind (read_string object key) (\<lambda>t. roption RejectedMalformedDocument (parse t))"

definition require_object :: "JsonValue \<Rightarrow> ReasonCode + unit" where
  "require_object v = rguard (is_object v) RejectedMalformedDocument"

definition read_semver_opt :: "JsonValue \<Rightarrow> string \<Rightarrow> ReasonCode + SemVer option" where
  "read_semver_opt object key = (if value_missing object key then Inr None
     else rbind (read_semver object key) (\<lambda>v. Inr (Some v)))"

definition read_serial :: "JsonValue \<Rightarrow> ReasonCode + DeviceSerialId option" where
  "read_serial object = (case json_find object ''serial'' of None \<Rightarrow> Inr None
     | Some v \<Rightarrow> rbind (roption RejectedMalformedDocument (as_string v)) (\<lambda>t.
         rbind (roption RejectedMalformedName (Name_parse t)) (\<lambda>n. Inr (Some n))))"

definition read_device :: "JsonValue \<Rightarrow> ReasonCode + DeviceIdentity" where
  "read_device v = rbind (require_object v) (\<lambda>_. rbind (read_name v ''provider'') (\<lambda>provider.
     rbind (read_name v ''model'') (\<lambda>model. rbind (read_integer v ''unit_index'' True 0) (\<lambda>unit_index.
     rbind (rguard (\<not> (sint unit_index < 0 \<or> sint unit_index > uint kMaxDeviceUnitIndex)) RejectedMalformedDocument) (\<lambda>_.
     rbind (read_serial v) (\<lambda>serial. Inr (DeviceIdentity provider model (ucast unit_index) serial)))))))"

definition read_device_ref :: "JsonValue \<Rightarrow> ReasonCode + DeviceIncarnationRef" where
  "read_device_ref v = rbind (require_object v) (\<lambda>_. rbind (read_member v ''device'') (\<lambda>d. rbind (read_device d) (\<lambda>device.
     rbind (read_positive RejectedZeroIncarnation v ''incarnation'') (\<lambda>incarnation. Inr (DeviceIncarnationRef device incarnation)))))"

definition read_source_incarnation :: "JsonValue \<Rightarrow> ReasonCode + SourceIncarnation" where
  "read_source_incarnation v = rbind (require_object v) (\<lambda>_. rbind (read_name v ''source'') (\<lambda>source.
     rbind (read_natural v ''counter'') (\<lambda>counter. Inr (SourceIncarnation source counter))))"

definition read_feature :: "JsonValue \<Rightarrow> ReasonCode + FeatureCode" where
  "read_feature item = rbind (roption RejectedMalformedFeature (as_string item)) (\<lambda>t.
     roption RejectedUnknownFeatureCode (parse_feature_code t))"

definition read_features :: "CapabilityKind \<Rightarrow> JsonValue \<Rightarrow> ReasonCode + FeatureSet" where
  "read_features kind v = rbind (roption RejectedMalformedDocument (as_array v)) (\<lambda>items.
     rbind (rguard (\<not> length items > kMaxFeaturesPerRecord) RejectedFeatureBudgetExceeded) (\<lambda>_.
     rbind (rlist read_feature items) (\<lambda>codes. FeatureSet_make codes kind)))"

definition read_limit :: "JsonValue \<Rightarrow> ReasonCode + LimitValue" where
  "read_limit item = rbind (rguard (is_object item) RejectedMalformedLimit) (\<lambda>_. rbind (read_string item ''code'') (\<lambda>t.
     rbind (roption RejectedUnknownLimitCode (parse_limit_code t)) (\<lambda>code. rbind (read_unit item ''unit'') (\<lambda>u.
     rbind (read_integer item ''value'' True 0) (\<lambda>raw. rbind (rguard (\<not> sint raw < 0) RejectedNegativeLimit) (\<lambda>_.
     Inr \<lparr>lv_code = code, lv_unit = u, lv_value = raw\<rparr>))))))"

definition read_limits :: "CapabilityKind \<Rightarrow> JsonValue \<Rightarrow> ReasonCode + LimitSet" where
  "read_limits kind v = rbind (roption RejectedMalformedDocument (as_array v)) (\<lambda>items.
     rbind (rguard (\<not> length items > kMaxLimitsPerRecord) RejectedLimitBudgetExceeded) (\<lambda>_.
     rbind (rlist read_limit items) (\<lambda>values. LimitSet_make values kind)))"

text \<open>The evidence of a record; the id is refreshed from the content afterwards.\<close>

definition read_evidence :: "JsonValue \<Rightarrow> ReasonCode + CapabilityEvidence" where
  "read_evidence v = rbind (require_object v) (\<lambda>_.
     rbind (read_member v ''device'') (\<lambda>d. rbind (read_device_ref d) (\<lambda>device.
     rbind (read_enum_text v ''capability_kind'' parse_capability_kind) (\<lambda>kind.
     rbind (read_member v ''source'') (\<lambda>s. rbind (read_source_incarnation s) (\<lambda>source.
     rbind (read_semver v ''capability_version'') (\<lambda>version.
     rbind (read_member v ''features'') (\<lambda>f. rbind (read_features kind f) (\<lambda>features.
     rbind (read_member v ''limits'') (\<lambda>l. rbind (read_limits kind l) (\<lambda>limits.
     rbind (read_semver_opt v ''firmware_version'') (\<lambda>firmware. rbind (read_natural v ''firmware_generation'') (\<lambda>firmware_generation.
     rbind (read_semver_opt v ''runtime_version'') (\<lambda>runtime. rbind (read_natural v ''runtime_generation'') (\<lambda>runtime_generation.
     rbind (read_natural v ''observed_at'') (\<lambda>observed_at. rbind (read_natural_opt v ''valid_until'') (\<lambda>valid_until.
     rbind (read_positive RejectedGenerationRegression v ''generation'') (\<lambda>generation.
     rbind (read_enum_text v ''authority'' parse_authority_rank) (\<lambda>authority.
     rbind (read_natural v ''epoch_at_ingest'') (\<lambda>epoch. rbind (read_natural v ''boot_at_ingest'') (\<lambda>boot.
     rbind (read_natural v ''evidence_policy_revision'') (\<lambda>revision.
     Inr \<lparr>e_key = EvidenceKey device kind (si_source source), e_source_incarnation = source, e_capability_version = version,
       e_features = features, e_limits = limits, e_firmware_version = firmware, e_firmware_generation = firmware_generation,
       e_runtime_version = runtime, e_runtime_generation = runtime_generation, e_observed_at = observed_at,
       e_valid_until = valid_until, e_generation = generation, e_authority = authority, e_epoch_at_ingest = epoch,
       e_boot_at_ingest = boot, e_policy_revision = revision, e_id_cache = []\<rparr>))))))))))))))))))))))"

definition read_stored_evidence :: "JsonValue \<Rightarrow> ReasonCode + StoredEvidence" where
  "read_stored_evidence v = rbind (read_evidence v) (\<lambda>evidence.
     rbind (read_enum_text v ''lifecycle'' parse_evidence_lifecycle) (\<lambda>lifecycle.
     rbind (read_enum_text v ''admission_reason'' parse_reason_code) (\<lambda>admission_reason.
     rbind (read_natural v ''admitted_at'') (\<lambda>admitted_at. rbind (read_natural_opt v ''retired_at'') (\<lambda>retired_at.
     rbind (read_enum_text v ''retirement_reason'' parse_reason_code) (\<lambda>retirement_reason.
     rbind (rguard (\<not> (lifecycle = LifecycleRetired \<and> retired_at = None)) RejectedMissingField) (\<lambda>_.
     rbind (read_digest v ''id'') (\<lambda>declared. let evidence = refresh_id evidence in
     rbind (rguard (declared = compute_digest evidence) StorePayloadCorrupt) (\<lambda>_.
     Inr \<lparr>s_evidence = evidence, s_lifecycle = lifecycle, s_admission_reason = admission_reason, s_admitted_at = admitted_at,
       s_retired_at = retired_at, s_retirement_reason = retirement_reason\<rparr>)))))))))"

definition read_tombstone :: "JsonValue \<Rightarrow> ReasonCode + RetirementRecord" where
  "read_tombstone v = rbind (require_object v) (\<lambda>_. rbind (read_member v ''device'') (\<lambda>d. rbind (read_device_ref d) (\<lambda>device.
     rbind (read_enum_text v ''capability_kind'' parse_capability_kind) (\<lambda>kind. rbind (read_name v ''source'') (\<lambda>source.
     rbind (read_positive RejectedGenerationRegression v ''generation'') (\<lambda>generation.
     rbind (read_natural v ''retired_at'') (\<lambda>retired_at. rbind (read_enum_text v ''reason'' parse_reason_code) (\<lambda>reason.
     rbind (read_natural v ''epoch'') (\<lambda>epoch. rbind (read_natural v ''policy_revision'') (\<lambda>revision.
     rbind (read_enum_text v ''authority'' parse_authority_rank) (\<lambda>authority.
     Inr \<lparr>rr_key = EvidenceKey device kind source, rr_generation = generation, rr_retired_at = retired_at, rr_reason = reason,
       rr_epoch = epoch, rr_policy_revision = revision, rr_authority = authority\<rparr>)))))))))))"

text \<open>Arrays of digests and of positive integers.\<close>

definition read_array :: "ReasonCode \<Rightarrow> JsonValue \<Rightarrow> string \<Rightarrow> ReasonCode + JsonValue list" where
  "read_array why object key = roption why (case json_find object key of None \<Rightarrow> None | Some v \<Rightarrow> as_array v)"

definition read_digest_item :: "JsonValue \<Rightarrow> ReasonCode + Digest256" where
  "read_digest_item item = rbind (roption RejectedMalformedDocument (as_string item)) (\<lambda>t.
     roption RejectedMalformedDocument (Digest256_parse t))"

definition read_positive_item :: "ReasonCode \<Rightarrow> JsonValue \<Rightarrow> ReasonCode + u64" where
  "read_positive_item why item = rbind (roption why (as_integer item)) (\<lambda>raw.
     rbind (rguard (\<not> sint raw \<le> 0) why) (\<lambda>_. Inr raw))"

definition read_conflict :: "JsonValue \<Rightarrow> ReasonCode + ConflictGroup" where
  "read_conflict v = rbind (require_object v) (\<lambda>_. rbind (read_digest v ''id'') (\<lambda>cid.
     rbind (read_member v ''device'') (\<lambda>d. rbind (read_device_ref d) (\<lambda>device.
     rbind (read_enum_text v ''capability_kind'' parse_capability_kind) (\<lambda>kind.
     rbind (read_enum_text v ''authority'' parse_authority_rank) (\<lambda>authority.
     rbind (read_array RejectedMissingField v ''members'') (\<lambda>ms. rbind (rlist read_digest_item ms) (\<lambda>members.
     rbind (read_array RejectedMalformedDocument v ''generations'') (\<lambda>gs.
     rbind (rguard (length gs = length members) RejectedMalformedDocument) (\<lambda>_.
     rbind (rlist (read_positive_item RejectedMalformedDocument) gs) (\<lambda>generations.
     rbind (rguard (sorted members) RejectedMalformedDocument) (\<lambda>_.
     rbind (read_integer v ''observed_first'' True 0) (\<lambda>observed_first. rbind (read_integer v ''observed_last'' True 0) (\<lambda>observed_last.
     rbind (rguard (\<not> (sint observed_first < 0 \<or> sint observed_last < sint observed_first)) RejectedMalformedDocument) (\<lambda>_.
     Inr \<lparr>cg_id = cid, cg_device = device, cg_kind = kind, cg_authority = authority, cg_members = members, cg_generations = generations,
       cg_observed_first = observed_first, cg_observed_last = observed_last\<rparr>)))))))))))))))"

definition read_resolution :: "JsonValue \<Rightarrow> ReasonCode + ConflictResolution" where
  "read_resolution v = rbind (require_object v) (\<lambda>_. rbind (read_digest v ''id'') (\<lambda>rid. rbind (read_digest v ''conflict'') (\<lambda>conflict.
     rbind (read_digest v ''chosen'') (\<lambda>chosen. rbind (read_array RejectedMissingField v ''rejected_members'') (\<lambda>ms.
     rbind (rlist read_digest_item ms) (\<lambda>rejected. rbind (read_name v ''resolver'') (\<lambda>resolver.
     rbind (read_natural v ''resolved_at'') (\<lambda>resolved_at. rbind (read_natural v ''epoch'') (\<lambda>epoch.
     Inr \<lparr>cr_id = rid, cr_conflict = conflict, cr_chosen = chosen, cr_rejected_members = rejected, cr_resolver = resolver,
       cr_resolved_at = resolved_at, cr_epoch = epoch\<rparr>)))))))))"

definition read_eviction :: "JsonValue \<Rightarrow> ReasonCode + EvictionEntry" where
  "read_eviction v = rbind (require_object v) (\<lambda>_. rbind (read_digest v ''id'') (\<lambda>eid. rbind (read_member v ''device'') (\<lambda>d.
     rbind (read_device_ref d) (\<lambda>device. rbind (read_enum_text v ''capability_kind'' parse_capability_kind) (\<lambda>kind.
     rbind (read_name v ''source'') (\<lambda>source. rbind (read_positive RejectedGenerationRegression v ''generation'') (\<lambda>generation.
     rbind (read_enum_text v ''state_at_eviction'' parse_evidence_state) (\<lambda>state.
     rbind (read_enum_text v ''reason'' parse_reason_code) (\<lambda>reason. rbind (read_natural v ''evicted_at'') (\<lambda>evicted_at.
     Inr \<lparr>ev_id = eid, ev_key = EvidenceKey device kind source, ev_generation = generation, ev_state_at_eviction = state,
       ev_reason = reason, ev_evicted_at = evicted_at\<rparr>))))))))))"

definition read_incarnation_entry :: "JsonValue \<Rightarrow> ReasonCode + DeviceIncarnationEntry" where
  "read_incarnation_entry v = rbind (require_object v) (\<lambda>_. rbind (read_member v ''device'') (\<lambda>d. rbind (read_device d) (\<lambda>device.
     rbind (read_positive RejectedZeroIncarnation v ''current'') (\<lambda>current.
     rbind (read_array RejectedMissingField v ''history'') (\<lambda>hs. rbind (rguard (hs \<noteq> []) RejectedMissingField) (\<lambda>_.
     rbind (rlist (read_positive_item RejectedZeroIncarnation) hs) (\<lambda>history.
     rbind (rguard (sorted history) RejectedMalformedDocument) (\<lambda>_. rbind (rguard (current \<in> set history) RejectedMalformedDocument) (\<lambda>_.
     Inr \<lparr>ie_device = device, ie_current = current, ie_history = history\<rparr>)))))))))"

definition read_source_policy :: "JsonValue \<Rightarrow> ReasonCode + SourcePolicy" where
  "read_source_policy v = rbind (require_object v) (\<lambda>_. rbind (read_name v ''id'') (\<lambda>sid.
     rbind (read_enum_text v ''kind'' parse_source_kind) (\<lambda>kind. rbind (read_enum_text v ''authority'' parse_authority_rank) (\<lambda>authority.
     rbind (read_enum_text v ''trust'' parse_source_trust_state) (\<lambda>trust. rbind (read_natural v ''max_age'') (\<lambda>max_age.
     rbind (read_bool v ''durable_across_boot'') (\<lambda>durable.
     Inr \<lparr>sp_id = sid, sp_kind = kind, sp_authority = authority, sp_trust = trust, sp_max_age = max_age,
       sp_durable_across_boot = durable\<rparr>)))))))"

definition read_counters :: "JsonValue \<Rightarrow> ReasonCode + RegistryCounters" where
  "read_counters v = rbind (require_object v) (\<lambda>_.
     rbind (read_u64 v ''admissions_accepted'' True 0) (\<lambda>accepted. rbind (read_u64 v ''admissions_idempotent'' True 0) (\<lambda>idempotent.
     rbind (read_u64 v ''admissions_rejected'' True 0) (\<lambda>rejected. rbind (read_u64 v ''retirements_accepted'' True 0) (\<lambda>retired.
     rbind (read_u64 v ''retirements_rejected'' True 0) (\<lambda>retire_rejected. rbind (read_u64 v ''decisions_emitted'' True 0) (\<lambda>emitted.
     rbind (read_u64 v ''decisions_evicted'' True 0) (\<lambda>evicted. rbind (read_u64 v ''conflicts_resolved'' True 0) (\<lambda>resolved.
     rbind (read_u64 v ''evictions_total'' True 0) (\<lambda>total. rbind (read_u64 v ''eviction_ledger_dropped'' True 0) (\<lambda>ledger.
     rbind (read_u64 v ''conflicts_dropped'' True 0) (\<lambda>conflicts. rbind (read_u64 v ''resolutions_dropped'' True 0) (\<lambda>resolutions.
     rbind (read_u64 v ''tombstones_dropped'' True 0) (\<lambda>tombstones.
     Inr \<lparr>admissions_accepted = accepted, admissions_idempotent = idempotent, admissions_rejected = rejected,
       retirements_accepted = retired, retirements_rejected = retire_rejected, decisions_emitted = emitted,
       decisions_evicted = evicted, conflicts_resolved = resolved, evictions_total = total,
       eviction_ledger_dropped = ledger, conflicts_dropped = conflicts, resolutions_dropped = resolutions,
       tombstones_dropped = tombstones\<rparr>))))))))))))))"

section \<open>What the readers return\<close>

text \<open>An unsigned value that survives the cast to a signed one.\<close>

definition doc_u64 :: "u64 \<Rightarrow> bool" where
  "doc_u64 w \<longleftrightarrow> 0 \<le> sint w"

definition doc_id :: "u64 \<Rightarrow> bool" where
  "doc_id w \<longleftrightarrow> 0 < sint w"

definition doc_device_ref :: "DeviceIncarnationRef \<Rightarrow> bool" where
  "doc_device_ref d \<longleftrightarrow> device_identity_ok (dr_device d) \<and> doc_id (dr_incarnation d)"

definition doc_source_incarnation :: "SourceIncarnation \<Rightarrow> bool" where
  "doc_source_incarnation s \<longleftrightarrow> Name_wf (si_source s) \<and> doc_u64 (si_counter s)"

definition doc_evidence :: "CapabilityEvidence \<Rightarrow> bool" where
  "doc_evidence e \<longleftrightarrow> doc_device_ref (key_device (e_key e)) \<and> key_source (e_key e) = si_source (e_source_incarnation e)
     \<and> doc_source_incarnation (e_source_incarnation e) \<and> semver_wf (e_capability_version e)
     \<and> FeatureSet_wf (key_kind (e_key e)) (e_features e) \<and> LimitSet_wf (key_kind (e_key e)) (e_limits e)
     \<and> pred_option semver_wf (e_firmware_version e) \<and> doc_u64 (e_firmware_generation e)
     \<and> pred_option semver_wf (e_runtime_version e) \<and> doc_u64 (e_runtime_generation e)
     \<and> doc_u64 (e_observed_at e) \<and> pred_option doc_u64 (e_valid_until e) \<and> doc_id (e_generation e)
     \<and> doc_u64 (e_epoch_at_ingest e) \<and> doc_u64 (e_boot_at_ingest e) \<and> doc_u64 (e_policy_revision e)
     \<and> e_id_cache e = compute_digest e"

definition doc_stored :: "StoredEvidence \<Rightarrow> bool" where
  "doc_stored s \<longleftrightarrow> doc_evidence (s_evidence s) \<and> find_entry (s_admission_reason s) \<noteq> None \<and> doc_u64 (s_admitted_at s)
     \<and> pred_option doc_u64 (s_retired_at s) \<and> find_entry (s_retirement_reason s) \<noteq> None
     \<and> \<not> (s_lifecycle s = LifecycleRetired \<and> s_retired_at s = None)"

definition doc_tombstone :: "RetirementRecord \<Rightarrow> bool" where
  "doc_tombstone t \<longleftrightarrow> doc_device_ref (key_device (rr_key t)) \<and> Name_wf (key_source (rr_key t)) \<and> doc_id (rr_generation t)
     \<and> doc_u64 (rr_retired_at t) \<and> find_entry (rr_reason t) \<noteq> None \<and> doc_u64 (rr_epoch t) \<and> doc_u64 (rr_policy_revision t)"

definition doc_conflict :: "ConflictGroup \<Rightarrow> bool" where
  "doc_conflict g \<longleftrightarrow> digest_ok (cg_id g) \<and> doc_device_ref (cg_device g) \<and> list_all digest_ok (cg_members g) \<and> sorted (cg_members g)
     \<and> length (cg_generations g) = length (cg_members g) \<and> list_all doc_id (cg_generations g)
     \<and> doc_u64 (cg_observed_first g) \<and> sint (cg_observed_first g) \<le> sint (cg_observed_last g)"

definition doc_resolution :: "ConflictResolution \<Rightarrow> bool" where
  "doc_resolution r \<longleftrightarrow> digest_ok (cr_id r) \<and> digest_ok (cr_conflict r) \<and> digest_ok (cr_chosen r)
     \<and> list_all digest_ok (cr_rejected_members r) \<and> Name_wf (cr_resolver r) \<and> doc_u64 (cr_resolved_at r) \<and> doc_u64 (cr_epoch r)"

definition doc_eviction :: "EvictionEntry \<Rightarrow> bool" where
  "doc_eviction e \<longleftrightarrow> digest_ok (ev_id e) \<and> doc_device_ref (key_device (ev_key e)) \<and> Name_wf (key_source (ev_key e))
     \<and> doc_id (ev_generation e) \<and> find_entry (ev_reason e) \<noteq> None \<and> doc_u64 (ev_evicted_at e)"

definition doc_incarnation_entry :: "DeviceIncarnationEntry \<Rightarrow> bool" where
  "doc_incarnation_entry e \<longleftrightarrow> device_identity_ok (ie_device e) \<and> doc_id (ie_current e) \<and> list_all doc_id (ie_history e)
     \<and> sorted (ie_history e) \<and> ie_current e \<in> set (ie_history e)"

definition doc_source_policy :: "SourcePolicy \<Rightarrow> bool" where
  "doc_source_policy s \<longleftrightarrow> Name_wf (sp_id s) \<and> doc_u64 (sp_max_age s)"

definition doc_counters :: "RegistryCounters \<Rightarrow> bool" where
  "doc_counters c \<longleftrightarrow> list_all doc_u64 [admissions_accepted c, admissions_idempotent c, admissions_rejected c, retirements_accepted c,
     retirements_rejected c, decisions_emitted c, decisions_evicted c, conflicts_resolved c, evictions_total c,
     eviction_ledger_dropped c, conflicts_dropped c, resolutions_dropped c, tombstones_dropped c]"

section \<open>Reading back\<close>

named_theorems doc_iffs \<open>what a reader returns, as a condition on the document\<close>

lemma json_find_fold: "json_find (fold (\<lambda>(k, v). json_set k v) ms (JObject m)) k = (map_of m ++ map_of (rev ms)) k"
  by (induction ms arbitrary: m) (auto simp: json_find_def json_set_def map_add_def split: option.splits)

lemma json_find_object: "json_find (json_object ms) k = map_of (rev ms) k"
  by (simp add: json_object_def json_find_fold)

lemma case_option_id [simp]: "(case x of None \<Rightarrow> None | Some y \<Rightarrow> Some y) = x"
  by (cases x) simp_all

text \<open>A member of an object that was set by a list of calls, decided from the end of the list.\<close>

lemma json_find_simps [simp]:
  "json_find (json_object []) k = None"
  "json_find (json_object ((k', v) # ms)) k =
     (case json_find (json_object ms) k of None \<Rightarrow> if k = k' then Some v else None | Some w \<Rightarrow> Some w)"
  "json_find (json_object (ms @ ns)) k = (case json_find (json_object ns) k of None \<Rightarrow> json_find (json_object ms) k | Some w \<Rightarrow> Some w)"
  "json_find (json_object (json_opt k' x)) k = (if k = k' then x else None)"
  by (auto simp: json_find_object map_add_def json_opt_def split: option.splits)

lemma json_object_shape: "\<exists>m. json_object ms = JObject m \<and> om_wf m \<and> set m \<subseteq> set ms"
proof -
  have "om_wf m \<Longrightarrow> \<exists>m'. fold (\<lambda>(k, v). json_set k v) ms (JObject m) = JObject m' \<and> om_wf m' \<and> set m' \<subseteq> set m \<union> set ms" for m
  proof (induction ms arbitrary: m)
    case (Cons kv ms)
    obtain k v where kv: "kv = (k, v)" by (cases kv)
    from Cons.IH [of "om_put k v m"] Cons.prems obtain m' where
      "fold (\<lambda>(k, v). json_set k v) ms (JObject (om_put k v m)) = JObject m'" "om_wf m'" "set m' \<subseteq> set (om_put k v m) \<union> set ms" by blast
    moreover have "set (om_put k v m) \<subseteq> insert (k, v) (set m)" by (induction m) (auto split: if_splits)
    moreover have "json_set k v (JObject m) = JObject (om_put k v m)" by (simp add: json_set_def)
    ultimately show ?case by (auto simp: kv)
  qed auto
  from this [of "[]"] show ?thesis by (simp add: json_object_def om_wf_def)
qed

lemma is_object_object [simp]: "is_object (json_object ms)"
  using json_object_shape [of ms] by (auto simp: is_object_def)

lemma as_simps [simp]: "as_array (JArray vs) = Some vs" "as_string (JString s) = Some s" "as_integer (JInteger n) = Some n"
  "as_bool (JBool b) = Some b"
  by (simp_all add: as_array_def as_string_def as_integer_def as_bool_def)

lemma as_iffs [doc_iffs]: "as_array v = Some vs \<longleftrightarrow> v = JArray vs" "as_string v = Some s \<longleftrightarrow> v = JString s"
  "as_integer v = Some n \<longleftrightarrow> v = JInteger n" "as_bool v = Some b \<longleftrightarrow> v = JBool b"
  by (auto simp: as_array_def as_string_def as_integer_def as_bool_def split: JsonValue.splits)

lemma read_member_iff [doc_iffs]: "read_member v k = Inr x \<longleftrightarrow> json_find v k = Some x"
  by (simp add: read_member_def)

lemma read_primitive_iffs [doc_iffs]:
  "read_string v k = Inr t \<longleftrightarrow> json_find v k = Some (JString t)"
  "read_bool v k = Inr b \<longleftrightarrow> json_find v k = Some (JBool b)"
  "read_integer v k True out = Inr n \<longleftrightarrow> json_find v k = Some (JInteger n)"
  by (auto simp: read_string_def read_bool_def read_integer_def doc_iffs split: option.splits)

lemma read_natural_iffs [doc_iffs]:
  "read_natural v k = Inr n \<longleftrightarrow> json_find v k = Some (JInteger n) \<and> doc_u64 n"
  "read_u64 v k True out = Inr n \<longleftrightarrow> json_find v k = Some (JInteger n) \<and> doc_u64 n"
  "read_positive why v k = Inr n \<longleftrightarrow> json_find v k = Some (JInteger n) \<and> doc_id n"
  by (auto simp: read_natural_def read_u64_def read_positive_def value_missing_def doc_u64_def doc_id_def doc_iffs)

lemma read_natural_opt_iff [doc_iffs]:
  "read_natural_opt v k = Inr x \<longleftrightarrow> json_find v k = map_option JInteger x \<and> pred_option doc_u64 x"
  by (cases x) (auto simp: read_natural_opt_def read_integer_def value_missing_def doc_u64_def doc_iffs split: option.splits)

lemma Name_parse_wf_iff: "Name_parse t = Some n \<longleftrightarrow> n = t \<and> Name_wf n"
  by (auto simp: Name_wf_def Name_parse_Some_iff)

lemma read_text_iffs [doc_iffs]:
  "read_name v k = Inr n \<longleftrightarrow> json_find v k = Some (JString n) \<and> Name_wf n"
  "read_digest v k = Inr d \<longleftrightarrow> json_find v k = Some (json_of_digest d) \<and> digest_ok d"
  "read_semver v k = Inr s \<longleftrightarrow> json_find v k = Some (json_of_SemVer s) \<and> semver_wf s"
  "read_digest_item x = Inr d \<longleftrightarrow> x = json_of_digest d \<and> digest_ok d"
  "read_positive_item why x = Inr w \<longleftrightarrow> x = JInteger w \<and> doc_id w"
  using SemVer_parse_str SemVer_parse_wf SemVer_str_parse
  by (auto simp: read_name_def read_digest_def read_semver_def read_digest_item_def read_positive_item_def doc_id_def doc_iffs
      Name_parse_wf_iff Digest256_parse_iff digest_ok_def json_of_digest_def json_of_SemVer_def not_le)

lemma read_semver_opt_iff [doc_iffs]:
  "read_semver_opt v k = Inr x \<longleftrightarrow> json_find v k = map_option json_of_SemVer x \<and> pred_option semver_wf x"
  by (cases x) (auto simp: read_semver_opt_def value_missing_def doc_iffs)

lemma read_enum_text_iff: "read_enum_text v k p = Inr x \<longleftrightarrow> (\<exists>t. json_find v k = Some (JString t) \<and> p t = Some x)"
  by (simp add: read_enum_text_def doc_iffs)

lemma parse_boot_policy_iff: "parse_boot_policy t = Some b \<longleftrightarrow> t = BootPolicy_to_string b"
  by (cases b) (auto simp: parse_boot_policy_def BootPolicy_to_string_def)

lemma parse_clock_mode_iff: "parse_clock_mode t = Some m \<longleftrightarrow> t = ClockMode_to_string m"
  by (cases m) (auto simp: parse_clock_mode_def ClockMode_to_string_def)

lemma read_spelling_iffs [doc_iffs]:
  "read_enum_text v k parse_capability_kind = Inr kind \<longleftrightarrow> json_find v k = Some (json_of_kind kind)"
  "read_enum_text v k parse_authority_rank = Inr a \<longleftrightarrow> json_find v k = Some (json_of_authority a)"
  "read_enum_text v k parse_source_kind = Inr s \<longleftrightarrow> json_find v k = Some (JString (SourceKind_to_string s))"
  "read_enum_text v k parse_source_trust_state = Inr t \<longleftrightarrow> json_find v k = Some (JString (SourceTrustState_to_string t))"
  "read_enum_text v k parse_evidence_state = Inr e \<longleftrightarrow> json_find v k = Some (JString (EvidenceState_to_string e))"
  "read_enum_text v k parse_evidence_lifecycle = Inr l \<longleftrightarrow> json_find v k = Some (JString (EvidenceLifecycle_to_string l))"
  "read_enum_text v k parse_boot_policy = Inr b \<longleftrightarrow> json_find v k = Some (JString (BootPolicy_to_string b))"
  "read_enum_text v k parse_clock_mode = Inr m \<longleftrightarrow> json_find v k = Some (JString (ClockMode_to_string m))"
  "read_enum_text v k parse_reason_code = Inr c \<longleftrightarrow> json_find v k = Some (json_of_reason c) \<and> find_entry c \<noteq> None"
  unfolding read_enum_text_iff parse_boot_policy_iff parse_clock_mode_iff parse_capability_kind_iff parse_authority_rank_iff
    parse_source_kind_iff parse_source_trust_state_iff parse_evidence_state_iff parse_evidence_lifecycle_iff
    parse_reason_code_iff json_of_kind_def json_of_authority_def json_of_reason_def
  by blast+

text \<open>The readers as computations on a document whose members are known.\<close>

lemma parse_printed [simp]:
  "parse_capability_kind (CapabilityKind_to_string kind) = Some kind" "parse_authority_rank (AuthorityRank_to_string a) = Some a"
  "parse_source_kind (SourceKind_to_string s) = Some s" "parse_source_trust_state (SourceTrustState_to_string t) = Some t"
  "parse_evidence_state (EvidenceState_to_string e) = Some e" "parse_evidence_lifecycle (EvidenceLifecycle_to_string l) = Some l"
  "parse_boot_policy (BootPolicy_to_string b) = Some b" "parse_clock_mode (ClockMode_to_string m) = Some m"
  "find_entry c \<noteq> None \<Longrightarrow> parse_reason_code (reason_to_string c) = Some c"
  "digest_ok d \<Longrightarrow> Digest256_parse (Digest256_hex d) = Some d" "semver_wf v \<Longrightarrow> SemVer_parse (SemVer_str v) = Some v"
  "Name_wf n \<Longrightarrow> Name_parse n = Some n"
  unfolding parse_boot_policy_iff parse_clock_mode_iff parse_capability_kind_iff parse_authority_rank_iff
    parse_source_kind_iff parse_source_trust_state_iff parse_evidence_state_iff parse_evidence_lifecycle_iff
    parse_reason_code_iff Digest256_parse_iff digest_ok_def
  by (simp_all only: SemVer_str_parse Name_wf_def simp_thms)

lemmas read_defs = read_member_def read_string_def read_integer_def read_bool_def read_u64_def read_natural_def read_positive_def
  read_name_def read_digest_def read_semver_def read_enum_text_def require_object_def value_missing_def read_array_def
  read_digest_item_def read_positive_item_def

lemmas json_texts = json_of_kind_def json_of_authority_def json_of_reason_def json_of_digest_def json_of_SemVer_def

lemma doc_guards [simp]: "doc_u64 n \<Longrightarrow> \<not> sint n < 0" "doc_id n \<Longrightarrow> \<not> sint n \<le> 0"
  by (simp_all add: doc_u64_def doc_id_def)

text \<open>What a value and its reader promise: reading inverts writing, and a reader returns only values that can be written.\<close>

locale document_codec =
  fixes to_json :: "'a \<Rightarrow> JsonValue"
    and reader :: "JsonValue \<Rightarrow> ReasonCode + 'a"
    and ok :: "'a \<Rightarrow> bool"
  assumes read_json: "ok x \<Longrightarrow> reader (to_json x) = Inr x"
    and read_ok: "reader v = Inr x \<Longrightarrow> ok x"
begin

lemma read_list: "list_all ok xs \<Longrightarrow> rlist reader (map to_json xs) = Inr xs"
  by (induction xs) (simp_all add: read_json)

lemma read_list_ok: "rlist reader vs = Inr xs \<Longrightarrow> list_all ok xs"
  by (induction vs arbitrary: xs) (auto dest: read_ok)

lemma reread: "reader v = Inr x \<Longrightarrow> reader (to_json x) = Inr x"
  by (blast dest: read_ok intro: read_json)

lemma to_json_inj: "ok x \<Longrightarrow> ok y \<Longrightarrow> to_json x = to_json y \<Longrightarrow> x = y"
  by (metis read_json sum.inject(2))

end

lemma sint_unat: "0 \<le> sint w \<Longrightarrow> sint w = int (unat w)" for w :: i64
  using sint_uint64 [of w] uint_lt2p [of w] by (cases "uint w < 2 ^ 63") simp_all

lemma unat32: "unat (w :: u32) < 2 ^ 32"
  using unsigned_less [of w] by simp

lemma unat_ucast32: "unat (ucast x :: i64) = unat x" for x :: u32
  using unat32 [of x] by (simp add: unsigned_ucast_eq take_bit_nat_eq_self)

lemma sint_ucast32: "sint (ucast x :: i64) = uint x" for x :: u32
  using sint_small [of "ucast x"] unat32 [of x] by (simp add: unat_ucast32)

lemma ucast_unit_index: "ucast (ucast x :: i64) = x" for x :: u32
  using unat32 [of x] by (simp add: word_eq_iff_unsigned unsigned_ucast_eq take_bit_nat_eq_self take_bit_word_eq_self)

lemma ucast_unit_index_le:
  assumes "0 \<le> sint w" "sint w \<le> uint kMaxDeviceUnitIndex"
  shows "ucast (w :: i64) \<le> kMaxDeviceUnitIndex"
proof -
  have "int (unat w) \<le> 4095" using sint_unat [OF assms(1)] assms(2) by (simp add: kMaxDeviceUnitIndex_def)
  then have "unat w \<le> 4095" by presburger
  moreover from this have "unat (ucast w :: u32) = unat w" by (simp add: unsigned_ucast_eq take_bit_nat_eq_self)
  ultimately show ?thesis by (simp add: kMaxDeviceUnitIndex_def word_le_nat_alt)
qed

lemma read_device_codec: "document_codec json_of_device read_device device_identity_ok"
proof
  show "device_identity_ok d \<Longrightarrow> read_device (json_of_device d) = Inr d" for d
    by (cases d) (auto simp: read_device_def json_of_device_def require_object_def device_identity_ok_def read_serial_def doc_iffs
        word_le_def sint_ucast32 ucast_unit_index not_le Name_wf_def split: option.splits)
  show "read_device v = Inr d \<Longrightarrow> device_identity_ok d" for v d
    by (auto simp: read_device_def read_serial_def device_identity_ok_def Name_parse_wf_iff not_less doc_iffs
        intro: ucast_unit_index_le split: option.splits)
qed

interpretation device_doc: document_codec json_of_device read_device device_identity_ok
  by (rule read_device_codec)

interpretation device_ref_doc: document_codec json_of_device_ref read_device_ref doc_device_ref
proof
  show "doc_device_ref d \<Longrightarrow> read_device_ref (json_of_device_ref d) = Inr d" for d
    by (cases d) (simp add: read_device_ref_def json_of_device_ref_def require_object_def doc_device_ref_def doc_iffs device_doc.read_json)
  show "read_device_ref v = Inr d \<Longrightarrow> doc_device_ref d" for v d
    by (auto simp: read_device_ref_def doc_device_ref_def doc_iffs dest: device_doc.read_ok)
qed

interpretation source_incarnation_doc: document_codec json_of_source_incarnation read_source_incarnation doc_source_incarnation
proof
  show "doc_source_incarnation d \<Longrightarrow> read_source_incarnation (json_of_source_incarnation d) = Inr d" for d
    by (cases d) (simp add: read_source_incarnation_def json_of_source_incarnation_def require_object_def doc_source_incarnation_def doc_iffs)
  show "read_source_incarnation v = Inr d \<Longrightarrow> doc_source_incarnation d" for v d
    by (auto simp: read_source_incarnation_def doc_source_incarnation_def doc_iffs)
qed

lemma rlist_Inr: "(\<And>x. x \<in> set xs \<Longrightarrow> f (g x) = Inr x) \<Longrightarrow> rlist f (map g xs) = Inr xs"
  by (induction xs) simp_all

lemma rlist_all: "(\<And>x y. f x = Inr y \<Longrightarrow> P y) \<Longrightarrow> rlist f xs = Inr ys \<Longrightarrow> list_all P ys"
  by (induction xs arbitrary: ys) auto

interpretation features_doc: document_codec json_of_FeatureSet "read_features kind" "FeatureSet_wf kind" for kind
proof
  fix s assume s: "FeatureSet_wf kind s"
  have "rlist read_feature (map (\<lambda>c. JString (FeatureCode_to_string c)) s) = Inr s"
  proof (rule rlist_Inr)
    fix c assume "c \<in> set s"
    then obtain i where "feature_info c = Some i"
      using s by (auto simp: FeatureSet_wf_def list_all_iff feature_allowed_for_def split: option.splits)
    then show "read_feature (JString (FeatureCode_to_string c)) = Inr c"
      by (simp add: read_feature_def parse_feature_code_spec FeatureCode_to_string_def)
  qed
  then show "read_features kind (json_of_FeatureSet s) = Inr s"
    using s FeatureSet_make_wf_id [OF s] by (simp add: read_features_def json_of_FeatureSet_def FeatureSet_wf_def not_less)
next
  show "read_features kind v = Inr s \<Longrightarrow> FeatureSet_wf kind s" for v s
    by (auto simp: read_features_def dest: FeatureSet_make_wf)
qed

lemma read_limit_json:
  assumes "limit_ok kind l"
  shows "read_limit (json_of_limit l) = Inr l"
proof -
  from assms obtain i where i: "limit_info (lv_code l) = Some i" "unit_is_well_formed (lv_unit l)" "0 \<le> sint (lv_value l)"
    by (auto simp: limit_ok_def unit_valid_for_limit_def split: option.splits if_splits)
  then have "parse_unit (unit_to_string (lv_unit l)) = Some (lv_unit l)" using parse_unit_roundtrip [of "lv_unit l"] by simp
  moreover have "parse_limit_code (LimitCode_to_string (lv_code l)) = Some (lv_code l)"
    using i(1) by (simp add: parse_limit_code_spec LimitCode_to_string_def)
  ultimately show ?thesis
    using i(3) by (simp add: read_limit_def json_of_limit_def read_unit_def json_of_Unit_def doc_iffs)
qed

lemma LimitSet_make_wf_id: "LimitSet_wf kind s \<Longrightarrow> LimitSet_make s kind = Inr s"
  by (auto simp: LimitSet_make_spec LimitSet_wf_def list_all_iff strict_sorted_iff sort_key_id_if_sorted)

interpretation limits_doc: document_codec json_of_LimitSet "read_limits kind" "LimitSet_wf kind" for kind
proof
  fix s assume s: "LimitSet_wf kind s"
  then have "rlist read_limit (map json_of_limit s) = Inr s"
    by (intro rlist_Inr read_limit_json [of kind]) (simp add: LimitSet_wf_def list_all_iff)
  then show "read_limits kind (json_of_LimitSet s) = Inr s"
    using s LimitSet_make_wf_id [OF s] by (simp add: read_limits_def json_of_LimitSet_def LimitSet_wf_def not_less)
next
  show "read_limits kind v = Inr s \<Longrightarrow> LimitSet_wf kind s" for v s
    by (auto simp: read_limits_def dest: LimitSet_make_wf)
qed

lemma read_evidence_json:
  assumes "doc_evidence (s_evidence s)"
  shows "read_evidence (json_of_stored s) = Inr ((s_evidence s)\<lparr>e_id_cache := []\<rparr>)"
proof -
  let ?e = "s_evidence s" and ?v = "json_of_stored s"
  have k: "e_key ?e = EvidenceKey (key_device (e_key ?e)) (key_kind (e_key ?e)) (si_source (e_source_incarnation ?e))"
    using assms by (cases "e_key ?e") (simp add: doc_evidence_def)
  have f: "json_find ?v ''device'' = Some (json_of_device_ref (key_device (e_key ?e)))"
    "json_find ?v ''capability_kind'' = Some (json_of_kind (key_kind (e_key ?e)))"
    "json_find ?v ''source'' = Some (json_of_source_incarnation (e_source_incarnation ?e))"
    "json_find ?v ''capability_version'' = Some (json_of_SemVer (e_capability_version ?e))"
    "json_find ?v ''features'' = Some (json_of_FeatureSet (e_features ?e))"
    "json_find ?v ''limits'' = Some (json_of_LimitSet (e_limits ?e))"
    "json_find ?v ''firmware_version'' = map_option json_of_SemVer (e_firmware_version ?e)"
    "json_find ?v ''firmware_generation'' = Some (JInteger (e_firmware_generation ?e))"
    "json_find ?v ''runtime_version'' = map_option json_of_SemVer (e_runtime_version ?e)"
    "json_find ?v ''runtime_generation'' = Some (JInteger (e_runtime_generation ?e))"
    "json_find ?v ''observed_at'' = Some (JInteger (e_observed_at ?e))"
    "json_find ?v ''valid_until'' = map_option JInteger (e_valid_until ?e)"
    "json_find ?v ''generation'' = Some (JInteger (e_generation ?e))"
    "json_find ?v ''authority'' = Some (json_of_authority (e_authority ?e))"
    "json_find ?v ''epoch_at_ingest'' = Some (JInteger (e_epoch_at_ingest ?e))"
    "json_find ?v ''boot_at_ingest'' = Some (JInteger (e_boot_at_ingest ?e))"
    "json_find ?v ''evidence_policy_revision'' = Some (JInteger (e_policy_revision ?e))" "is_object ?v"
    by (auto simp: json_of_stored_def Let_def split: option.split)
  have o: "read_semver_opt ?v ''firmware_version'' = Inr (e_firmware_version ?e)"
    "read_semver_opt ?v ''runtime_version'' = Inr (e_runtime_version ?e)" "read_natural_opt ?v ''valid_until'' = Inr (e_valid_until ?e)"
    using assms by (simp_all add: read_semver_opt_iff read_natural_opt_iff f doc_evidence_def)
  show ?thesis
    using assms unfolding doc_evidence_def
    by (simp add: read_evidence_def read_defs json_texts f o device_ref_doc.read_json source_incarnation_doc.read_json
        features_doc.read_json limits_doc.read_json) (simp add: k [symmetric])
qed

lemma read_evidence_ok: "read_evidence v = Inr e \<Longrightarrow> doc_evidence (refresh_id e)"
  unfolding read_evidence_def rbind_Inr doc_iffs
  by (auto simp: doc_evidence_def refresh_id_def dest: device_ref_doc.read_ok source_incarnation_doc.read_ok
      features_doc.read_ok limits_doc.read_ok)

interpretation stored_doc: document_codec json_of_stored read_stored_evidence doc_stored
proof
  fix s assume s: "doc_stored s"
  let ?e = "s_evidence s" and ?v = "json_of_stored s"
  have f: "json_find ?v ''lifecycle'' = Some (JString (EvidenceLifecycle_to_string (s_lifecycle s)))"
    "json_find ?v ''admission_reason'' = Some (json_of_reason (s_admission_reason s))"
    "json_find ?v ''admitted_at'' = Some (JInteger (s_admitted_at s))" "json_find ?v ''retired_at'' = map_option JInteger (s_retired_at s)"
    "json_find ?v ''retirement_reason'' = Some (json_of_reason (s_retirement_reason s))"
    "json_find ?v ''id'' = Some (json_of_digest (evidence_id ?e))"
    by (auto simp: json_of_stored_def Let_def split: option.split)
  have e: "doc_evidence ?e" "e_id_cache ?e = compute_digest ?e" using s by (simp_all add: doc_stored_def doc_evidence_def)
  have "read_natural_opt ?v ''retired_at'' = Inr (s_retired_at s)" "digest_ok (compute_digest ?e)"
    using s by (simp_all add: read_natural_opt_iff f doc_stored_def digest_ok_def compute_digest_def)
  then show "read_stored_evidence ?v = Inr s"
    using s e unfolding doc_stored_def
    by (simp add: read_stored_evidence_def read_evidence_json read_defs json_texts f refresh_id_id evidence_id_def)
next
  show "read_stored_evidence v = Inr s \<Longrightarrow> doc_stored s" for v s
    unfolding read_stored_evidence_def Let_def rbind_Inr doc_iffs
    by (auto simp: doc_stored_def dest: read_evidence_ok)
qed

interpretation tombstone_doc: document_codec json_of_tombstone read_tombstone doc_tombstone
proof
  show "doc_tombstone t \<Longrightarrow> read_tombstone (json_of_tombstone t) = Inr t" for t
    by (cases t; cases "rr_key t") (simp add: read_tombstone_def json_of_tombstone_def doc_tombstone_def read_defs json_texts device_ref_doc.read_json)
  show "read_tombstone v = Inr t \<Longrightarrow> doc_tombstone t" for v t
    unfolding read_tombstone_def rbind_Inr doc_iffs by (auto simp: doc_tombstone_def dest: device_ref_doc.read_ok)
qed

interpretation digest_doc: document_codec json_of_digest read_digest_item digest_ok
  by unfold_locales (auto simp: doc_iffs)

interpretation positive_doc: document_codec JInteger "read_positive_item why" doc_id for why
  by unfold_locales (auto simp: doc_iffs)

interpretation conflict_doc: document_codec json_of_conflict read_conflict doc_conflict
proof
  show "doc_conflict g \<Longrightarrow> read_conflict (json_of_conflict g) = Inr g" for g
    using digest_doc.read_list [of "cg_members g"] positive_doc.read_list [of "cg_generations g" RejectedMalformedDocument]
    by (cases g) (simp add: read_conflict_def json_of_conflict_def doc_conflict_def read_defs json_texts device_ref_doc.read_json)
  show "read_conflict v = Inr g \<Longrightarrow> doc_conflict g" for v g
    unfolding read_conflict_def rbind_Inr doc_iffs
    by (auto simp: doc_conflict_def doc_u64_def not_less dest: device_ref_doc.read_ok digest_doc.read_list_ok positive_doc.read_list_ok rlist_length)
qed

interpretation resolution_doc: document_codec json_of_resolution read_resolution doc_resolution
proof
  show "doc_resolution r \<Longrightarrow> read_resolution (json_of_resolution r) = Inr r" for r
    using digest_doc.read_list [of "cr_rejected_members r"]
    by (cases r) (simp add: read_resolution_def json_of_resolution_def doc_resolution_def read_defs json_texts)
  show "read_resolution v = Inr r \<Longrightarrow> doc_resolution r" for v r
    unfolding read_resolution_def rbind_Inr doc_iffs by (auto simp: doc_resolution_def dest: digest_doc.read_list_ok)
qed

interpretation eviction_doc: document_codec json_of_eviction read_eviction doc_eviction
proof
  show "doc_eviction e \<Longrightarrow> read_eviction (json_of_eviction e) = Inr e" for e
    by (cases e; cases "ev_key e") (simp add: read_eviction_def json_of_eviction_def doc_eviction_def read_defs json_texts device_ref_doc.read_json)
  show "read_eviction v = Inr e \<Longrightarrow> doc_eviction e" for v e
    unfolding read_eviction_def rbind_Inr doc_iffs by (auto simp: doc_eviction_def dest: device_ref_doc.read_ok)
qed

interpretation incarnation_doc: document_codec json_of_incarnation_entry read_incarnation_entry doc_incarnation_entry
proof
  show "doc_incarnation_entry e \<Longrightarrow> read_incarnation_entry (json_of_incarnation_entry e) = Inr e" for e
    using positive_doc.read_list [of "ie_history e" RejectedZeroIncarnation]
    by (cases e) (auto simp: read_incarnation_entry_def json_of_incarnation_entry_def doc_incarnation_entry_def read_defs device_doc.read_json)
  show "read_incarnation_entry v = Inr e \<Longrightarrow> doc_incarnation_entry e" for v e
    unfolding read_incarnation_entry_def rbind_Inr doc_iffs
    by (auto simp: doc_incarnation_entry_def dest: device_doc.read_ok positive_doc.read_list_ok)
qed

interpretation source_policy_doc: document_codec json_of_source_policy read_source_policy doc_source_policy
proof
  show "doc_source_policy s \<Longrightarrow> read_source_policy (json_of_source_policy s) = Inr s" for s
    by (cases s) (simp add: read_source_policy_def json_of_source_policy_def doc_source_policy_def read_defs json_texts)
  show "read_source_policy v = Inr s \<Longrightarrow> doc_source_policy s" for v s
    unfolding read_source_policy_def rbind_Inr doc_iffs by (auto simp: doc_source_policy_def)
qed

interpretation counters_doc: document_codec json_of_counters read_counters doc_counters
proof
  show "doc_counters c \<Longrightarrow> read_counters (json_of_counters c) = Inr c" for c
    by (cases c) (simp add: read_counters_def json_of_counters_def doc_counters_def read_defs)
  show "read_counters v = Inr c \<Longrightarrow> doc_counters c" for v c
    unfolding read_counters_def rbind_Inr doc_iffs by (auto simp: doc_counters_def)
qed

end
