(* ===== verification/Export.thy ===== *)
theory Export
  imports Documents Store Restart
begin

text \<open>
  Canonical documents of \<open>include/ocreg/export.hpp\<close> and \<open>src/export.cpp\<close>: \<open>export_registry\<close>, \<open>import_document\<close>, and
  the policy and requirement documents.

  A refusal is a reason with its text. Reading a document is split into the blocks of \<open>import_document\<close>, in its order:
  the header, the generations, the policy, the collections and counters, the attribution of the records, the digest.
\<close>

section \<open>Exporting\<close>

record ExportOptions =
  include_history :: bool
  include_rejected :: bool
  include_evictions :: bool
  include_policy :: bool
  eo_pretty :: bool
  eo_max_records :: nat
  eo_max_bytes :: nat

definition default_export_options :: ExportOptions where
  "default_export_options = \<lparr>include_history = True, include_rejected = True, include_evictions = True, include_policy = True,
     eo_pretty = False, eo_max_records = 262144, eo_max_bytes = 64 * 1024 * 1024\<rparr>"

record ExportResult =
  er_document :: string
  er_digest :: Digest256
  records_written :: u64
  tombstones_written :: u64
  conflicts_written :: u64
  evictions_written :: u64
  er_truncated :: bool
  er_notes :: "ReasonCode list"

definition kFormatName :: string where "kFormatName = ''ocreg.canonical-state''"

definition kExportFormatVersion :: u32 where "kExportFormatVersion = 1"

text \<open>Which records the options keep, and the loop that writes them until the bound is reached.\<close>

definition record_kept :: "ExportOptions \<Rightarrow> StoredEvidence \<Rightarrow> bool" where
  "record_kept options r \<longleftrightarrow> \<not> (\<not> include_rejected options \<and> s_lifecycle r = LifecycleRejected)
     \<and> \<not> (s_lifecycle r \<noteq> LifecycleRejected \<and> \<not> include_history options \<and> s_lifecycle r \<noteq> LifecycleAdmitted)"

fun export_records :: "ExportOptions \<Rightarrow> nat \<Rightarrow> StoredEvidence list \<Rightarrow> StoredEvidence list \<times> bool" where
  "export_records options written [] = ([], False)"
| "export_records options written (r # rs) =
     (if \<not> record_kept options r then export_records options written rs
      else if written \<ge> eo_max_records options then ([], True)
      else let (kept, truncated) = export_records options (written + 1) rs in (r # kept, truncated))"

definition export_json :: "RegistryState \<Rightarrow> ExportOptions \<Rightarrow> Tick \<Rightarrow> JsonValue" where
  "export_json state options now =
     (let (records, truncated) = export_records options 0 (rs_records state) in
      json_object ([(''format'', JString kFormatName), (''format_version'', JInteger (ucast kExportFormatVersion)),
        (''api_generation'', JInteger (ucast kApiGeneration)), (''catalog_fingerprint'', JInteger (ucast catalog_fingerprint)),
        (''reason_table_fingerprint'', JInteger (ucast reason_table_fingerprint)), (''registry_epoch'', JInteger (rs_epoch state)),
        (''rule_generation'', JInteger (rs_rule_generation state)), (''policy_revision'', JInteger (rs_policy_revision state)),
        (''boot_epoch'', JInteger (rs_boot_epoch state)), (''store_generation'', JInteger (rs_store_generation state)),
        (''logical_tick'', JInteger (rs_logical_tick state)), (''exported_at'', JInteger now),
        (''next_incarnation'', JInteger (rs_next_incarnation state))]
        @ json_opt ''policy'' (if include_policy options then Some (json_of_policy (rs_policy state)) else None)
        @ [(''devices'', JArray (map json_of_incarnation_entry (rs_incarnations state))),
        (''evidence'', JArray (map json_of_stored records)), (''tombstones'', JArray (map json_of_tombstone (rs_tombstones state))),
        (''conflicts'', JArray (map json_of_conflict (rs_conflicts state))),
        (''resolutions'', JArray (map json_of_resolution (rs_resolutions state))),
        (''evictions'', JArray (if include_evictions options then map json_of_eviction (rs_evictions state) else [])),
        (''counters'', json_of_counters (rs_counters state)), (''state_digest'', json_of_digest (state_digest state)),
        (''truncated'', JBool truncated), (''notes'', JArray (map json_of_reason (if truncated then [ExportTruncated] else [])))]))"

definition export_registry :: "Impl \<Rightarrow> ExportOptions \<Rightarrow> Tick \<Rightarrow> ExportResult outcome" where
  "export_registry i options now =
     (case snapshot_state i of Failure reason detail \<Rightarrow> Failure reason detail
      | Success _ state \<Rightarrow>
         (let (records, truncated) = export_records options 0 (rs_records state);
              document = JsonValue_dump (eo_pretty options) (export_json state options now)
          in if length document > eo_max_bytes options
             then Failure RejectedOversizedInput ''canonical export exceeds the byte bound''
             else Success Ok \<lparr>er_document = document, er_digest = state_digest state,
               records_written = of_nat (length records), tombstones_written = of_nat (length (rs_tombstones state)),
               conflicts_written = of_nat (length (rs_conflicts state)),
               evictions_written = (if include_evictions options then of_nat (length (rs_evictions state)) else 0),
               er_truncated = truncated,
               er_notes = canonicalize_reasons ((if truncated then [ExportTruncated] else []) @ [ExportComplete])\<rparr>))"

definition export_digest :: "RegistryState \<Rightarrow> Digest256" where
  "export_digest state = state_digest state"

section \<open>Importing\<close>

type_synonym 'a checked = "(ReasonCode \<times> string) + 'a"

text \<open>A reader's reason with the text the caller adds, and a result as an outcome.\<close>

definition because :: "string \<Rightarrow> ReasonCode + 'a \<Rightarrow> 'a checked" where
  "because detail r = (case r of Inl reason \<Rightarrow> Inl (reason, detail) | Inr x \<Rightarrow> Inr x)"

definition outcome_of :: "'a checked \<Rightarrow> 'a outcome" where
  "outcome_of r = (case r of Inl (reason, detail) \<Rightarrow> Failure reason detail | Inr x \<Rightarrow> Success Ok x)"

record ImportResult =
  ir_state :: RegistryState
  ir_reason :: ReasonCode
  records_read :: u64
  tombstones_read :: u64
  conflicts_read :: u64
  evictions_read :: u64

definition import_header :: "JsonValue \<Rightarrow> unit checked" where
  "import_header root =
     rbind (rguard (is_object root) (RejectedMalformedDocument, ''document root must be an object'')) (\<lambda>_.
     rbind (because ''missing format'' (read_string root ''format'')) (\<lambda>format.
     rbind (rguard (format = kFormatName) (StoreSemanticMismatch, ''document format is not ocreg.canonical-state'')) (\<lambda>_.
     rbind (because ''missing format_version'' (read_integer root ''format_version'' True 0)) (\<lambda>format_version.
     rbind (rguard (format_version = ucast kExportFormatVersion) (StoreVersionIncompatible, ''document format version is not supported'')) (\<lambda>_.
     rbind (because ''missing api_generation'' (read_integer root ''api_generation'' True 0)) (\<lambda>api_generation.
     rbind (rguard (api_generation = ucast kApiGeneration) (StoreVersionIncompatible, ''document API generation is not supported'')) (\<lambda>_.
     rbind (because ''missing catalog_fingerprint'' (read_integer root ''catalog_fingerprint'' True 0)) (\<lambda>catalog.
     rbind (rguard (ucast catalog = catalog_fingerprint) (StoreSemanticMismatch, ''capability catalog generation differs'')) (\<lambda>_.
     rbind (because ''missing reason_table_fingerprint'' (read_integer root ''reason_table_fingerprint'' True 0)) (\<lambda>reasons.
     rbind (rguard (ucast reasons = reason_table_fingerprint) (StoreSemanticMismatch, ''reason table generation differs'')) (\<lambda>_.
     rbind (because ''missing truncated flag'' (read_bool root ''truncated'')) (\<lambda>truncated.
     rguard (\<not> truncated) (ExportTruncated, ''a truncated export is not a complete state'')))))))))))))"

definition import_generations :: "JsonValue \<Rightarrow> RegistryState checked" where
  "import_generations root =
     rbind (because ''missing registry_epoch'' (read_integer root ''registry_epoch'' True 0)) (\<lambda>registry_epoch.
     rbind (because ''missing rule_generation'' (read_integer root ''rule_generation'' True 0)) (\<lambda>rule_generation.
     rbind (because ''missing policy_revision'' (read_integer root ''policy_revision'' True 0)) (\<lambda>policy_revision.
     rbind (because ''missing boot_epoch'' (read_integer root ''boot_epoch'' True 0)) (\<lambda>boot_epoch.
     rbind (because ''missing store_generation'' (read_integer root ''store_generation'' True 0)) (\<lambda>store_generation.
     rbind (because ''missing logical_tick'' (read_integer root ''logical_tick'' True 0)) (\<lambda>logical_tick.
     rbind (because ''missing next_incarnation'' (read_integer root ''next_incarnation'' True 0)) (\<lambda>next_incarnation.
     rbind (rguard (\<not> (sint registry_epoch < 0 \<or> sint rule_generation \<le> 0 \<or> sint policy_revision < 0 \<or> sint boot_epoch < 0
         \<or> sint store_generation < 0 \<or> sint logical_tick < 0 \<or> sint next_incarnation \<le> 0))
       (RejectedEpochOutOfRange, ''document contains an impossible generation'')) (\<lambda>_.
     Inr (default_state\<lparr>rs_epoch := registry_epoch, rs_rule_generation := rule_generation, rs_policy_revision := policy_revision,
       rs_boot_epoch := boot_epoch, rs_store_generation := store_generation, rs_logical_tick := logical_tick,
       rs_next_incarnation := next_incarnation\<rparr>)))))))))"

text \<open>The parts of a policy that the two readers of policies share.\<close>

definition read_sources :: "JsonValue list \<Rightarrow> SourcePolicy list checked" where
  "read_sources items = rbind (because ''source policy rejected'' (rlist read_source_policy items)) (\<lambda>sources.
     let sources = sort_sources sources in
     rbind (rguard (distinct_adj (map sp_id sources)) (RejectedDuplicateKey, ''policy sources are not unique'')) (\<lambda>_. Inr sources))"

definition read_settings :: "JsonValue \<Rightarrow> RegistryPolicy \<Rightarrow> RegistryPolicy checked" where
  "read_settings v p =
     rbind (because ''policy field rejected'' (read_bool v ''require_configured_source'')) (\<lambda>require.
     rbind (because ''policy field rejected'' (read_bool v ''refuse_untrusted_sources'')) (\<lambda>refuse.
     rbind (because ''policy field rejected'' (read_enum_text v ''boot_policy'' parse_boot_policy)) (\<lambda>boot.
     rbind (because ''policy field rejected'' (read_enum_text v ''clock_mode'' parse_clock_mode)) (\<lambda>clock.
     rbind (because ''policy field rejected'' (read_integer v ''retention_horizon'' True 0)) (\<lambda>horizon.
     rbind (because ''policy field rejected'' (read_integer v ''max_future_skew'' True 0)) (\<lambda>skew.
     rbind (because ''policy field rejected'' (read_integer v ''default_max_age'' True 0)) (\<lambda>max_age.
     rbind (rguard (\<not> (sint horizon < 0 \<or> sint skew < 0 \<or> sint max_age < 0)) (RejectedMalformedDocument, ''negative policy duration'')) (\<lambda>_.
     rbind (because ''policy field rejected'' (read_string v ''policy_name'')) (\<lambda>name.
     Inr (p\<lparr>p_require_configured_source := require, p_refuse_untrusted_sources := refuse, p_boot_policy := boot, p_clock_mode := clock,
       p_retention_horizon := horizon, p_max_future_skew := skew, p_default_max_age := max_age, p_policy_name := name\<rparr>))))))))))"

definition read_limit_field :: "bool \<Rightarrow> JsonValue \<Rightarrow> string \<Rightarrow> nat \<Rightarrow> nat checked" where
  "read_limit_field required v key out =
     rbind (because ''limits field rejected'' (read_integer v key required 0)) (\<lambda>raw.
     if value_missing v key then Inr out
     else rbind (rguard (\<not> sint raw < 0) (RejectedOversizedInput, ''negative limit bound'')) (\<lambda>_. Inr (unat raw)))"

definition read_limit_fields :: "bool \<Rightarrow> JsonValue \<Rightarrow> RegistryLimits \<Rightarrow> RegistryLimits checked" where
  "read_limit_fields required v l =
     rbind (read_limit_field required v ''max_devices'' (max_devices l)) (\<lambda>devices.
     rbind (read_limit_field required v ''max_incarnations_per_device'' (max_incarnations_per_device l)) (\<lambda>incarnations.
     rbind (read_limit_field required v ''max_streams'' (max_streams l)) (\<lambda>streams.
     rbind (read_limit_field required v ''max_records'' (max_records l)) (\<lambda>records.
     rbind (read_limit_field required v ''max_records_per_stream'' (max_records_per_stream l)) (\<lambda>per_stream.
     rbind (read_limit_field required v ''max_tombstones'' (max_tombstones l)) (\<lambda>tombstones.
     rbind (read_limit_field required v ''max_conflict_groups'' (max_conflict_groups l)) (\<lambda>conflicts.
     rbind (read_limit_field required v ''max_resolutions'' (max_resolutions l)) (\<lambda>resolutions.
     rbind (read_limit_field required v ''max_eviction_ledger'' (max_eviction_ledger l)) (\<lambda>ledger.
     rbind (read_limit_field required v ''max_sources'' (max_sources l)) (\<lambda>sources.
     rbind (read_limit_field required v ''max_decisions'' (max_decisions l)) (\<lambda>decisions.
     rbind (read_limit_field required v ''max_features_per_record'' (max_features_per_record l)) (\<lambda>features.
     rbind (read_limit_field required v ''max_limits_per_record'' (max_limits_per_record l)) (\<lambda>limits.
     rbind (read_limit_field required v ''max_limits_per_requirement'' (max_limits_per_requirement l)) (\<lambda>per_requirement.
     rbind (read_limit_field required v ''max_required_features'' (max_required_features l)) (\<lambda>required_features.
     Inr \<lparr>max_devices = devices, max_incarnations_per_device = incarnations, max_streams = streams,
       max_records = records, max_records_per_stream = per_stream, max_tombstones = tombstones,
       max_conflict_groups = conflicts, max_resolutions = resolutions, max_eviction_ledger = ledger,
       max_sources = sources, max_decisions = decisions, max_features_per_record = features,
       max_limits_per_record = limits, max_limits_per_requirement = per_requirement,
       max_required_features = required_features\<rparr>)))))))))))))))"

definition import_policy :: "JsonValue \<Rightarrow> RegistryPolicy checked" where
  "import_policy root =
     rbind (roption (RejectedMissingField, ''missing policy object'')
       (case json_find root ''policy'' of None \<Rightarrow> None | Some p \<Rightarrow> if is_object p then Some p else None)) (\<lambda>policy.
     rbind (because ''missing policy sources'' (read_array RejectedMissingField policy ''sources'')) (\<lambda>items.
     rbind (read_sources items) (\<lambda>sources. rbind (read_settings policy (default_policy\<lparr>p_sources := sources\<rparr>)) (\<lambda>target.
     rbind (roption (RejectedMissingField, ''missing limits'')
       (case json_find policy ''limits'' of None \<Rightarrow> None | Some l \<Rightarrow> if is_object l then Some l else None)) (\<lambda>l.
     rbind (read_limit_fields True l default_limits) (\<lambda>limits.
     rbind (because ''policy field rejected'' (read_integer policy ''rule_generation'' True 0)) (\<lambda>rule.
     rbind (rguard (\<not> sint rule \<le> 0) (RejectedRuleGenerationOutOfRange, ''policy rule generation must be non-zero'')) (\<lambda>_.
     Inr (target\<lparr>p_limits := limits, p_rule_generation := rule\<rparr>)))))))))"

text \<open>A collection of the document: the array, then its elements one by one.\<close>

definition import_collection :: "JsonValue \<Rightarrow> string \<Rightarrow> string \<Rightarrow> string \<Rightarrow> (JsonValue \<Rightarrow> ReasonCode + 'a) \<Rightarrow> 'a list checked" where
  "import_collection root key missing rejected reader =
     rbind (because missing (read_array RejectedMissingField root key)) (\<lambda>items. because rejected (rlist reader items))"

definition attributed :: "DeviceIncarnationEntry list \<Rightarrow> StoredEvidence \<Rightarrow> bool" where
  "attributed entries r = (let d = key_device (e_key (s_evidence r)) in
     case find (\<lambda>entry. ie_device entry = dr_device d) entries of None \<Rightarrow> False
     | Some entry \<Rightarrow> dr_incarnation d \<in> set (ie_history entry))"

definition import_state :: "JsonValue \<Rightarrow> RegistryState checked" where
  "import_state root =
     rbind (import_header root) (\<lambda>_. rbind (import_generations root) (\<lambda>state. rbind (import_policy root) (\<lambda>policy.
     rbind (because ''missing evidence'' (read_array RejectedMissingField root ''evidence'')) (\<lambda>items.
     rbind (rguard (\<not> length items > max_records (p_limits policy)) (RejectedRecordBudgetExhausted, ''document exceeds the record bound'')) (\<lambda>_.
     rbind (because ''evidence record rejected'' (rlist read_stored_evidence items)) (\<lambda>records.
     rbind (import_collection root ''tombstones'' ''missing tombstones'' ''tombstone rejected'' read_tombstone) (\<lambda>tombstones.
     rbind (import_collection root ''conflicts'' ''missing conflicts'' ''conflict group rejected'' read_conflict) (\<lambda>conflicts.
     rbind (import_collection root ''resolutions'' ''missing resolutions'' ''conflict resolution rejected'' read_resolution) (\<lambda>resolutions.
     rbind (import_collection root ''evictions'' ''missing evictions'' ''eviction entry rejected'' read_eviction) (\<lambda>evictions.
     rbind (import_collection root ''devices'' ''missing devices'' ''device entry rejected'' read_incarnation_entry) (\<lambda>incarnations.
     let incarnations = sort_key ie_device incarnations in
     rbind (because ''missing counters'' (read_member root ''counters'')) (\<lambda>c.
     rbind (because ''counters rejected'' (read_counters c)) (\<lambda>counters.
     rbind (rguard (list_all (attributed incarnations) records)
       (RejectedDeviceIncarnationFenced, ''evidence references a device incarnation the document does not register'')) (\<lambda>_.
     let state = state\<lparr>rs_policy := policy, rs_records := records, rs_tombstones := tombstones, rs_conflicts := conflicts,
       rs_resolutions := resolutions, rs_evictions := evictions, rs_incarnations := incarnations, rs_counters := counters\<rparr> in
     rbind (because ''missing state_digest'' (read_digest root ''state_digest'')) (\<lambda>declared.
     rbind (rguard (declared = state_digest state)
       (StorePayloadCorrupt, ''declared state digest does not match the reconstructed state'')) (\<lambda>_. Inr state))))))))))))))))"

definition import_document :: "string \<Rightarrow> ImportResult outcome" where
  "import_document document =
     (case JsonValue_parse default_json_limits document of Failure reason detail \<Rightarrow> Failure reason detail
      | Success _ root \<Rightarrow> outcome_of (rbind (import_state root) (\<lambda>state.
          Inr \<lparr>ir_state = state, ir_reason = Ok, records_read = of_nat (length (rs_records state)),
            tombstones_read = of_nat (length (rs_tombstones state)), conflicts_read = of_nat (length (rs_conflicts state)),
            evictions_read = of_nat (length (rs_evictions state))\<rparr>)))"

section \<open>Policy documents\<close>

definition parse_policy_node :: "JsonValue \<Rightarrow> RegistryPolicy checked" where
  "parse_policy_node policy =
     rbind (because ''policy sources are required'' (read_array RejectedMissingField policy ''sources'')) (\<lambda>items.
     rbind (rguard (\<not> length items > 1024) (RejectedOversizedInput, ''too many policy sources'')) (\<lambda>_.
     rbind (read_sources items) (\<lambda>sources. rbind (read_settings policy (default_policy\<lparr>p_sources := sources\<rparr>)) (\<lambda>result.
     rbind (because ''policy field rejected'' (read_integer policy ''rule_generation'' True 0)) (\<lambda>rule.
     rbind (rguard (\<not> sint rule \<le> 0) (RejectedRuleGenerationOutOfRange, ''rule generation must be non-zero'')) (\<lambda>_.
     let result = result\<lparr>p_rule_generation := rule\<rparr> in
     (case json_find policy ''limits'' of None \<Rightarrow> Inr result
      | Some l \<Rightarrow> rbind (rguard (is_object l) (RejectedMalformedDocument, ''limits must be an object'')) (\<lambda>_.
          rbind (read_limit_fields False l default_limits) (\<lambda>limits. Inr (result\<lparr>p_limits := limits\<rparr>))))))))))"

definition parse_policy_document :: "string \<Rightarrow> RegistryPolicy outcome" where
  "parse_policy_document document =
     (case JsonValue_parse default_json_limits document of Failure reason detail \<Rightarrow> Failure reason detail
      | Success _ root \<Rightarrow> outcome_of
          (rbind (rguard (is_object root) (RejectedMalformedDocument, ''policy document root must be an object'')) (\<lambda>_.
           case json_find root ''policy'' of None \<Rightarrow> parse_policy_node root
           | Some nested \<Rightarrow> rbind (rguard (is_object nested) (RejectedMalformedDocument, ''policy member must be an object'')) (\<lambda>_.
               parse_policy_node nested))))"

definition policy_document :: "RegistryPolicy \<Rightarrow> JsonValue" where
  "policy_document policy = json_object [(''format'', JString ''ocreg.policy''),
     (''format_version'', JInteger (ucast kExportFormatVersion)), (''policy'', json_of_policy policy)]"

definition render_policy_document :: "RegistryPolicy \<Rightarrow> bool \<Rightarrow> string" where
  "render_policy_document policy pretty = JsonValue_dump pretty (policy_document policy)"

section \<open>Requirement documents\<close>

text \<open>The bound on the required limits is \<open>capacity() + 64\<close> of a vector that is still empty.\<close>

definition read_required_limit :: "CapabilityKind \<Rightarrow> JsonValue \<Rightarrow> LimitRequirement checked" where
  "read_required_limit kind item =
     rbind (rguard (is_object item) (RejectedMalformedLimit, ''limit entry must be an object'')) (\<lambda>_.
     rbind (because ''limit code rejected'' (read_string item ''code'')) (\<lambda>code_text.
     rbind (roption (RejectedUnknownLimitCode, code_text) (parse_limit_code code_text)) (\<lambda>code.
     rbind (because ''limit unit rejected'' (read_unit item ''unit'')) (\<lambda>u.
     rbind (because ''limit value rejected'' (read_integer item ''value'' True 0)) (\<lambda>raw.
     rbind (rguard (\<not> sint raw < 0) (RejectedNegativeLimit, ''limit value must be non-negative'')) (\<lambda>_.
     rbind (roption (RejectedUnknownLimitCode, code_text) (limit_info code)) (\<lambda>info.
     rbind (rguard (u_code u = li_unit info) (RejectedLimitUnitInvalid, code_text)) (\<lambda>_.
     rbind (rguard (unit_valid_for_limit code u) (RejectedLimitScaleNotPermitted, code_text)) (\<lambda>_.
     rbind (rguard (limit_allowed_for code kind) (RejectedLimitNotInKind, code_text)) (\<lambda>_.
     Inr \<lparr>lr_code = code, lr_unit = u, lr_minimum = raw\<rparr>))))))))))"

definition read_required_limits :: "CapabilityKind \<Rightarrow> JsonValue \<Rightarrow> LimitRequirement list checked" where
  "read_required_limits kind node =
     (case json_find node ''required_limits'' of None \<Rightarrow> Inr []
      | Some v \<Rightarrow>
         rbind (roption (RejectedMalformedDocument, ''required_limits must be an array'') (as_array v)) (\<lambda>items.
         rbind (rguard (\<not> length items > 64) (RejectedLimitBudgetExceeded, ''too many required limits'')) (\<lambda>_.
         rbind (rlist (read_required_limit kind) items) (\<lambda>limits. let limits = sort_key lr_code limits in
         rbind (rguard (successively (<) (map lr_code limits)) (RejectedDuplicateKey, ''duplicate required limit'')) (\<lambda>_. Inr limits)))))"

definition read_required_features :: "CapabilityKind \<Rightarrow> JsonValue \<Rightarrow> FeatureSet checked" where
  "read_required_features kind node = (case json_find node ''required_features'' of None \<Rightarrow> Inr []
     | Some v \<Rightarrow> because ''required features rejected'' (read_features kind v))"

text \<open>A non-negative integer that may be missing; both ways to refuse it give the same reason.\<close>

definition read_minimum :: "JsonValue \<Rightarrow> string \<Rightarrow> string \<Rightarrow> u64 option checked" where
  "read_minimum node key detail =
     (if value_missing node key then Inr None
      else (case read_integer node key True 0 of Inl _ \<Rightarrow> Inl (RejectedMalformedDocument, detail)
        | Inr raw \<Rightarrow> if sint raw < 0 then Inl (RejectedMalformedDocument, detail) else Inr (Some raw)))"

definition parse_requirement_node :: "JsonValue \<Rightarrow> CapabilityRequirement checked" where
  "parse_requirement_node node =
     rbind (rguard (is_object node) (RejectedMalformedDocument, ''requirement must be an object'')) (\<lambda>_.
     rbind (because ''requirement device is required'' (read_member node ''device'')) (\<lambda>d.
     rbind (because ''requirement device rejected'' (read_device_ref d)) (\<lambda>device.
     rbind (because ''capability kind rejected'' (read_enum_text node ''capability_kind'' parse_capability_kind)) (\<lambda>kind.
     rbind (roption (RejectedMissingField, ''requirement version is required'')
       (case json_find node ''version'' of None \<Rightarrow> None | Some v \<Rightarrow> if is_object v then Some v else None)) (\<lambda>version.
     rbind (because ''minimum version rejected'' (read_semver version ''minimum'')) (\<lambda>low.
     rbind (because ''maximum version rejected'' (read_semver_opt version ''maximum_exclusive'')) (\<lambda>high.
     rbind (read_required_features kind node) (\<lambda>features. rbind (read_required_limits kind node) (\<lambda>limits.
     rbind (because ''firmware version rejected'' (read_semver_opt node ''minimum_firmware_version'')) (\<lambda>firmware.
     rbind (read_minimum node ''minimum_firmware_generation'' ''firmware generation rejected'') (\<lambda>firmware_generation.
     rbind (because ''runtime version rejected'' (read_semver_opt node ''minimum_runtime_version'')) (\<lambda>runtime.
     rbind (read_minimum node ''minimum_runtime_generation'' ''runtime generation rejected'') (\<lambda>runtime_generation.
     rbind (read_minimum node ''max_evidence_age'' ''max_evidence_age rejected'') (\<lambda>age.
     Inr \<lparr>cq_device = device, cq_capability = kind, cq_version = \<lparr>minimum = low, maximum_exclusive = high\<rparr>,
       required_features = features, required_limits = limits, minimum_firmware_version = firmware,
       minimum_firmware_generation = firmware_generation, minimum_runtime_version = runtime,
       minimum_runtime_generation = runtime_generation,
       max_evidence_age = (case age of None \<Rightarrow> 0 | Some a \<Rightarrow> a)\<rparr>))))))))))))))"

definition parse_requirement_document :: "string \<Rightarrow> CapabilityRequirement outcome" where
  "parse_requirement_document document =
     (case JsonValue_parse default_json_limits document of Failure reason detail \<Rightarrow> Failure reason detail
      | Success _ root \<Rightarrow> outcome_of
          (rbind (rguard (is_object root) (RejectedMalformedDocument, ''requirement root must be an object'')) (\<lambda>_.
           parse_requirement_node (case json_find root ''requirement'' of None \<Rightarrow> root | Some nested \<Rightarrow> nested))))"

definition json_of_required_limit :: "LimitRequirement \<Rightarrow> JsonValue" where
  "json_of_required_limit l = json_object [(''code'', JString (LimitCode_to_string (lr_code l))), (''unit'', json_of_Unit (lr_unit l)),
     (''value'', JInteger (lr_minimum l))]"

definition json_of_version_requirement :: "VersionRequirement \<Rightarrow> JsonValue" where
  "json_of_version_requirement v = json_object ([(''minimum'', json_of_SemVer (minimum v))]
     @ json_opt ''maximum_exclusive'' (map_option json_of_SemVer (maximum_exclusive v)))"

definition json_of_requirement :: "CapabilityRequirement \<Rightarrow> JsonValue" where
  "json_of_requirement q = json_object ([(''device'', json_of_device_ref (cq_device q)),
     (''capability_kind'', json_of_kind (cq_capability q)), (''version'', json_of_version_requirement (cq_version q)),
     (''required_features'', json_of_FeatureSet (required_features q)),
     (''required_limits'', JArray (map json_of_required_limit (required_limits q)))]
     @ json_opt ''minimum_firmware_version'' (map_option json_of_SemVer (minimum_firmware_version q))
     @ json_opt ''minimum_firmware_generation'' (map_option JInteger (minimum_firmware_generation q))
     @ json_opt ''minimum_runtime_version'' (map_option json_of_SemVer (minimum_runtime_version q))
     @ json_opt ''minimum_runtime_generation'' (map_option JInteger (minimum_runtime_generation q))
     @ [(''max_evidence_age'', JInteger (max_evidence_age q))])"

definition requirement_document :: "CapabilityRequirement \<Rightarrow> JsonValue" where
  "requirement_document q = json_object [(''format'', JString ''ocreg.requirement''),
     (''format_version'', JInteger (ucast kExportFormatVersion)), (''requirement'', json_of_requirement q)]"

definition render_requirement_document :: "CapabilityRequirement \<Rightarrow> bool \<Rightarrow> string" where
  "render_requirement_document q pretty = JsonValue_dump pretty (requirement_document q)"

section \<open>What documents carry\<close>

definition doc_size :: "nat \<Rightarrow> bool" where
  "doc_size n \<longleftrightarrow> n < 2 ^ 63"

definition doc_limits :: "RegistryLimits \<Rightarrow> bool" where
  "doc_limits l \<longleftrightarrow> list_all doc_size [max_devices l, max_incarnations_per_device l, max_streams l, max_records l, max_records_per_stream l,
     max_tombstones l, max_conflict_groups l, max_resolutions l, max_eviction_ledger l, max_sources l, max_decisions l,
     max_features_per_record l, max_limits_per_record l, max_limits_per_requirement l, max_required_features l]"

definition doc_policy :: "RegistryPolicy \<Rightarrow> bool" where
  "doc_policy p \<longleftrightarrow> list_all doc_source_policy (p_sources p) \<and> sorted_wrt (<) (map sp_id (p_sources p)) \<and> doc_u64 (p_retention_horizon p)
     \<and> doc_u64 (p_max_future_skew p) \<and> doc_u64 (p_default_max_age p) \<and> doc_limits (p_limits p) \<and> doc_id (p_rule_generation p)"

definition doc_state :: "RegistryState \<Rightarrow> bool" where
  "doc_state s \<longleftrightarrow> doc_policy (rs_policy s) \<and> doc_u64 (rs_epoch s) \<and> doc_id (rs_rule_generation s) \<and> doc_u64 (rs_policy_revision s)
     \<and> doc_u64 (rs_boot_epoch s) \<and> doc_u64 (rs_store_generation s) \<and> doc_u64 (rs_logical_tick s) \<and> doc_id (rs_next_incarnation s)
     \<and> list_all doc_incarnation_entry (rs_incarnations s) \<and> sorted (map ie_device (rs_incarnations s))
     \<and> list_all doc_stored (rs_records s) \<and> length (rs_records s) \<le> max_records (p_limits (rs_policy s))
     \<and> list_all (attributed (rs_incarnations s)) (rs_records s) \<and> list_all doc_tombstone (rs_tombstones s)
     \<and> list_all doc_conflict (rs_conflicts s) \<and> list_all doc_resolution (rs_resolutions s) \<and> list_all doc_eviction (rs_evictions s)
     \<and> doc_counters (rs_counters s)"

definition doc_requirement :: "CapabilityRequirement \<Rightarrow> bool" where
  "doc_requirement q \<longleftrightarrow> doc_device_ref (cq_device q) \<and> semver_wf (minimum (cq_version q))
     \<and> pred_option semver_wf (maximum_exclusive (cq_version q)) \<and> FeatureSet_wf (cq_capability q) (required_features q)
     \<and> list_all (\<lambda>l. limit_requirement_ok l \<and> limit_allowed_for (lr_code l) (cq_capability q)) (required_limits q)
     \<and> length (required_limits q) \<le> 64 \<and> sorted_wrt (<) (map lr_code (required_limits q))
     \<and> pred_option semver_wf (minimum_firmware_version q) \<and> pred_option doc_u64 (minimum_firmware_generation q)
     \<and> pred_option semver_wf (minimum_runtime_version q) \<and> pred_option doc_u64 (minimum_runtime_generation q)
     \<and> doc_u64 (max_evidence_age q)"

section \<open>Reading what was written\<close>

lemma because_simps [simp]: "because detail r = Inr x \<longleftrightarrow> r = Inr x" "because detail (Inr x) = Inr x" "because detail (Inl e) = Inl (e, detail)"
  by (simp_all add: because_def split: sum.split)

lemma outcome_of_simps [simp]: "outcome_of r = Success c x \<longleftrightarrow> c = Ok \<and> r = Inr x" "outcome_of (Inr x) = Success Ok x"
  "outcome_of (Inl (e, detail)) = Failure e detail"
  by (auto simp: outcome_of_def split: sum.split prod.split)

lemma read_array_iff [doc_iffs]: "read_array why v k = Inr xs \<longleftrightarrow> json_find v k = Some (JArray xs)"
  by (auto simp: read_array_def doc_iffs split: option.splits)

lemma distinct_adj_sorted: "sorted xs \<Longrightarrow> distinct_adj xs \<longleftrightarrow> sorted_wrt (<) xs"
proof (induction xs)
  case (Cons x xs)
  then show ?case by (cases xs) (auto simp: distinct_adj_Cons)
qed simp

lemma doc_size_word [simp]: "doc_size n \<Longrightarrow> \<not> sint (of_nat n :: i64) < 0" "doc_size n \<Longrightarrow> unat (of_nat n :: i64) = n"
proof -
  assume n: "doc_size n"
  then show u: "unat (of_nat n :: i64) = n" by (simp add: doc_size_def unat_of_nat)
  show "\<not> sint (of_nat n :: i64) < 0" using sint_small [of "of_nat n"] n by (simp add: u doc_size_def)
qed

lemma doc_size_unat: "doc_u64 w \<Longrightarrow> doc_size (unat w)" for w :: u64
proof -
  assume "doc_u64 w"
  then have "int (unat w) < 2 ^ 63" using sint_unat [of w] sint_range [of w] unfolding doc_u64_def by metis
  then show ?thesis using of_nat_less_iff [of "unat w" "2 ^ 63", where 'a = int] by (simp add: doc_size_def)
qed

lemma read_limit_field_ok: "read_limit_field True v k out = Inr n \<Longrightarrow> doc_size n"
  by (auto simp: read_limit_field_def value_missing_def doc_iffs not_less doc_u64_def intro!: doc_size_unat)

lemma read_limit_field_optional: "doc_size out \<Longrightarrow> read_limit_field False v k out = Inr n \<Longrightarrow> doc_size n"
  by (auto simp: read_limit_field_def value_missing_def read_integer_def not_less doc_u64_def intro!: doc_size_unat split: if_splits option.splits)

lemma read_limit_fields_json: "doc_limits l \<Longrightarrow> read_limit_fields required (json_of_limits l) l' = Inr l"
  by (cases l) (simp add: read_limit_fields_def json_of_limits_def doc_limits_def read_limit_field_def json_size_def read_defs)

lemma read_limit_fields_ok: "read_limit_fields True v l = Inr l' \<Longrightarrow> doc_limits l'"
  unfolding read_limit_fields_def rbind_Inr by (auto simp: doc_limits_def dest: read_limit_field_ok)

lemma read_limit_fields_optional: "doc_limits l \<Longrightarrow> read_limit_fields False v l = Inr l' \<Longrightarrow> doc_limits l'"
  unfolding read_limit_fields_def rbind_Inr by (auto simp: doc_limits_def dest: read_limit_field_optional)

lemma read_sources_json:
  assumes "list_all doc_source_policy xs" "sorted_wrt (<) (map sp_id xs)"
  shows "read_sources (map json_of_source_policy xs) = Inr xs"
proof -
  have "sorted (map sp_id xs)" using assms(2) by (simp add: strict_sorted_iff)
  then show ?thesis
    using source_policy_doc.read_list [OF assms(1)] assms(2)
    by (simp add: read_sources_def sort_sources_def sort_key_id_if_sorted distinct_adj_sorted)
qed

lemma read_sources_ok: "read_sources items = Inr xs \<Longrightarrow> list_all doc_source_policy xs \<and> sorted_wrt (<) (map sp_id xs)"
  using distinct_adj_sorted [OF sort_sources_props(2)]
  by (auto simp: read_sources_def Let_def list_all_iff dest!: source_policy_doc.read_list_ok)

lemma import_policy_json:
  assumes "json_find root ''policy'' = Some (json_of_policy p)" "doc_policy p"
  shows "import_policy root = Inr p"
proof -
  have "is_object (json_of_policy p)" by (simp add: json_of_policy_def)
  moreover have "is_object (json_of_limits l)" for l by (simp add: json_of_limits_def)
  ultimately show ?thesis
    using assms
    by (cases p) (simp add: import_policy_def doc_policy_def json_of_policy_def read_defs read_sources_json read_settings_def read_limit_fields_json)
qed

lemma import_policy_ok: "import_policy root = Inr p \<Longrightarrow> doc_policy p"
  unfolding import_policy_def read_settings_def rbind_Inr because_simps
  by (auto simp: doc_policy_def doc_u64_def doc_id_def default_policy_def doc_iffs not_less not_le dest: read_sources_ok read_limit_fields_ok)

lemma export_records_all:
  "include_history options \<Longrightarrow> include_rejected options \<Longrightarrow> written + length rs \<le> eo_max_records options \<Longrightarrow>
   export_records options written rs = (rs, False)"
  by (induction rs arbitrary: written) (simp_all add: record_kept_def)

text \<open>An export that leaves nothing out.\<close>

definition complete_export :: "ExportOptions \<Rightarrow> RegistryState \<Rightarrow> bool" where
  "complete_export options state \<longleftrightarrow> include_history options \<and> include_rejected options \<and> include_evictions options
     \<and> include_policy options \<and> length (rs_records state) \<le> eo_max_records options"

lemma export_json_members:
  assumes "complete_export options s"
  shows "json_find (export_json s options now) ''format'' = Some (JString kFormatName)"
    "json_find (export_json s options now) ''format_version'' = Some (JInteger (ucast kExportFormatVersion))"
    "json_find (export_json s options now) ''api_generation'' = Some (JInteger (ucast kApiGeneration))"
    "json_find (export_json s options now) ''catalog_fingerprint'' = Some (JInteger (ucast catalog_fingerprint))"
    "json_find (export_json s options now) ''reason_table_fingerprint'' = Some (JInteger (ucast reason_table_fingerprint))"
    "json_find (export_json s options now) ''truncated'' = Some (JBool False)"
    "json_find (export_json s options now) ''registry_epoch'' = Some (JInteger (rs_epoch s))"
    "json_find (export_json s options now) ''rule_generation'' = Some (JInteger (rs_rule_generation s))"
    "json_find (export_json s options now) ''policy_revision'' = Some (JInteger (rs_policy_revision s))"
    "json_find (export_json s options now) ''boot_epoch'' = Some (JInteger (rs_boot_epoch s))"
    "json_find (export_json s options now) ''store_generation'' = Some (JInteger (rs_store_generation s))"
    "json_find (export_json s options now) ''logical_tick'' = Some (JInteger (rs_logical_tick s))"
    "json_find (export_json s options now) ''next_incarnation'' = Some (JInteger (rs_next_incarnation s))"
    "json_find (export_json s options now) ''policy'' = Some (json_of_policy (rs_policy s))"
    "json_find (export_json s options now) ''devices'' = Some (JArray (map json_of_incarnation_entry (rs_incarnations s)))"
    "json_find (export_json s options now) ''evidence'' = Some (JArray (map json_of_stored (rs_records s)))"
    "json_find (export_json s options now) ''tombstones'' = Some (JArray (map json_of_tombstone (rs_tombstones s)))"
    "json_find (export_json s options now) ''conflicts'' = Some (JArray (map json_of_conflict (rs_conflicts s)))"
    "json_find (export_json s options now) ''resolutions'' = Some (JArray (map json_of_resolution (rs_resolutions s)))"
    "json_find (export_json s options now) ''evictions'' = Some (JArray (map json_of_eviction (rs_evictions s)))"
    "json_find (export_json s options now) ''counters'' = Some (json_of_counters (rs_counters s))"
    "json_find (export_json s options now) ''state_digest'' = Some (json_of_digest (state_digest s))"
    "is_object (export_json s options now)"
  using assms by (simp_all add: export_json_def complete_export_def export_records_all)

lemma import_state_json:
  assumes "complete_export options s" "doc_state s"
  shows "import_state (export_json s options now) = Inr s"
proof -
  note m = export_json_members [OF assms(1), of now]
  let ?root = "export_json s options now"
  have header: "import_header ?root = Inr ()"
    by (simp add: import_header_def read_defs m ucast_unit_index)
  have generations: "import_generations ?root = Inr (default_state\<lparr>rs_epoch := rs_epoch s, rs_rule_generation := rs_rule_generation s,
      rs_policy_revision := rs_policy_revision s, rs_boot_epoch := rs_boot_epoch s, rs_store_generation := rs_store_generation s,
      rs_logical_tick := rs_logical_tick s, rs_next_incarnation := rs_next_incarnation s\<rparr>)"
    using assms(2) by (simp add: import_generations_def read_defs m doc_state_def)
  have so: "sort_key ie_device (rs_incarnations s) = rs_incarnations s"
    using assms(2) by (simp add: doc_state_def sort_key_id_if_sorted)
  have d: "digest_ok (state_digest s)" by (simp add: digest_ok_def state_digest_def)
  have st: "default_state\<lparr>rs_epoch := rs_epoch s, rs_rule_generation := rs_rule_generation s,
      rs_policy_revision := rs_policy_revision s, rs_boot_epoch := rs_boot_epoch s, rs_store_generation := rs_store_generation s,
      rs_logical_tick := rs_logical_tick s, rs_next_incarnation := rs_next_incarnation s, rs_policy := rs_policy s,
      rs_records := rs_records s, rs_tombstones := rs_tombstones s, rs_conflicts := rs_conflicts s, rs_resolutions := rs_resolutions s,
      rs_evictions := rs_evictions s, rs_incarnations := rs_incarnations s, rs_counters := rs_counters s\<rparr> = s"
    by (simp add: default_state_def)
  show ?thesis
    using assms(2) unfolding doc_state_def
    by (simp add: so d st import_state_def header generations import_policy_json [OF m(14)] import_collection_def read_defs json_of_digest_def m
        stored_doc.read_list tombstone_doc.read_list conflict_doc.read_list resolution_doc.read_list eviction_doc.read_list
        incarnation_doc.read_list counters_doc.read_json Let_def)
qed

lemma import_collection_Inr:
  "import_collection root key missing rejected reader = Inr xs \<longleftrightarrow> (\<exists>items. json_find root key = Some (JArray items) \<and> rlist reader items = Inr xs)"
  by (auto simp: import_collection_def doc_iffs)

lemma import_state_ok:
  assumes "import_state root = Inr s"
  shows "doc_state s" "json_find root ''state_digest'' = Some (json_of_digest (state_digest s))"
    "json_find root ''truncated'' = Some (JBool False)"
proof -
  from assms obtain g policy items records tombstones conflicts resolutions evictions entries c counters where
    h: "import_header root = Inr ()" "import_generations root = Inr g" "import_policy root = Inr policy"
    and i: "length items \<le> max_records (p_limits policy)" "rlist read_stored_evidence items = Inr records"
    and l: "import_collection root ''tombstones'' ''missing tombstones'' ''tombstone rejected'' read_tombstone = Inr tombstones"
      "import_collection root ''conflicts'' ''missing conflicts'' ''conflict group rejected'' read_conflict = Inr conflicts"
      "import_collection root ''resolutions'' ''missing resolutions'' ''conflict resolution rejected'' read_resolution = Inr resolutions"
      "import_collection root ''evictions'' ''missing evictions'' ''eviction entry rejected'' read_eviction = Inr evictions"
      "import_collection root ''devices'' ''missing devices'' ''device entry rejected'' read_incarnation_entry = Inr entries"
    and c: "read_counters c = Inr counters" "list_all (attributed (sort_key ie_device entries)) records"
    and d: "read_digest root ''state_digest'' = Inr (state_digest s)"
    and s: "s = g\<lparr>rs_policy := policy, rs_records := records, rs_tombstones := tombstones, rs_conflicts := conflicts,
       rs_resolutions := resolutions, rs_evictions := evictions, rs_incarnations := sort_key ie_device entries, rs_counters := counters\<rparr>"
    unfolding import_state_def Let_def rbind_Inr because_simps by (auto simp: not_less)
  have "doc_u64 (rs_epoch g) \<and> doc_id (rs_rule_generation g) \<and> doc_u64 (rs_policy_revision g) \<and> doc_u64 (rs_boot_epoch g)
      \<and> doc_u64 (rs_store_generation g) \<and> doc_u64 (rs_logical_tick g) \<and> doc_id (rs_next_incarnation g)"
    using h(2) unfolding import_generations_def rbind_Inr because_simps by (auto simp: doc_u64_def doc_id_def not_less not_le)
  moreover have "list_all doc_stored records" "length records = length items"
    using i(2) by (auto dest: stored_doc.read_list_ok rlist_length)
  moreover have "list_all doc_tombstone tombstones" "list_all doc_conflict conflicts" "list_all doc_resolution resolutions"
    "list_all doc_eviction evictions" "list_all doc_incarnation_entry entries" "doc_counters counters"
    using l c(1) unfolding import_collection_Inr
    by (auto dest: tombstone_doc.read_list_ok conflict_doc.read_list_ok resolution_doc.read_list_ok eviction_doc.read_list_ok
        incarnation_doc.read_list_ok counters_doc.read_ok)
  ultimately show "doc_state s"
    using import_policy_ok [OF h(3)] i(1) c(2) by (simp add: s doc_state_def list_all_iff)
  show "json_find root ''state_digest'' = Some (json_of_digest (state_digest s))" using d by (simp add: doc_iffs)
  show "json_find root ''truncated'' = Some (JBool False)"
    using h(1) unfolding import_header_def rbind_Inr because_simps doc_iffs by auto
qed

end
