(* ===== verification/DocumentShape.thy ===== *)
theory DocumentShape
  imports Export
begin

text \<open>
  The shape of the documents of \<open>src/export.cpp\<close>: every value that \<open>json_of\<close> makes has sorted distinct keys, a bounded
  depth and ASCII texts, so the only limits of the parser a document can pass are its bytes and its items.
\<close>

section \<open>Texts\<close>

definition text_ok :: "string \<Rightarrow> bool" where
  "text_ok s \<longleftrightarrow> length s \<le> 1024 \<and> list_all (\<lambda>c. (of_char c :: nat) < 128) s"

lemma text_ok_utf8: "text_ok s \<Longrightarrow> valid_utf8 s"
  by (rule valid_utf8_ascii) (simp add: text_ok_def byte_of_less list_all_iff)

lemma ascii_classes:
  "is_digit c \<Longrightarrow> (of_char c :: nat) < 128" "is_continuation c \<Longrightarrow> (of_char c :: nat) < 128" "is_alnum_dash c \<Longrightarrow> (of_char c :: nat) < 128"
  by (auto simp: is_digit_def is_continuation_def is_lower_alnum_def is_separator_def is_alnum_dash_def less_eq_char_def)

lemma text_ok_name: "Name_wf n \<Longrightarrow> text_ok n"
  by (auto simp: Name_wf_def Name_parse_Some_iff name_text_def text_ok_def list_all_iff ascii_classes)

lemma text_ok_kinds [simp]: "text_ok (CapabilityKind_to_string k)" "text_ok (AuthorityRank_to_string a)"
  "text_ok (SourceKind_to_string s)" "text_ok (SourceTrustState_to_string t)" "text_ok (EvidenceState_to_string e)"
  "text_ok (EvidenceLifecycle_to_string l)" "text_ok (BootPolicy_to_string b)" "text_ok (ClockMode_to_string m)"
         apply (cases k; simp add: CapabilityKind_to_string_def text_ok_def)
        apply (cases a; simp add: AuthorityRank_to_string_def text_ok_def)
       apply (cases s; simp add: SourceKind_to_string_def text_ok_def)
      apply (cases t; simp add: SourceTrustState_to_string_def text_ok_def)
     apply (cases e; simp add: EvidenceState_to_string_def text_ok_def)
    apply (cases l; simp add: EvidenceLifecycle_to_string_def text_ok_def)
   apply (cases b; simp add: BootPolicy_to_string_def text_ok_def)
  apply (cases m; simp add: ClockMode_to_string_def text_ok_def)
  done

text \<open>The same for a text of a table, in a form that evaluates fast.\<close>

definition table_text :: "string \<Rightarrow> bool" where
  "table_text s \<longleftrightarrow> list_all (\<lambda>c. \<not> digit7 c) s \<and> length s \<le> 64"

lemma table_text_ok: "table_text s \<Longrightarrow> text_ok s"
  by (auto simp: table_text_def text_ok_def list_all_iff of_char_def)

lemma table_texts:
  "list_all (\<lambda>i. table_text (fi_name i)) kFeatures" "list_all (\<lambda>i. table_text (li_name i)) kLimits"
  "list_all (\<lambda>u. table_text (unit_to_string u)) all_units"
  by code_simp+

lemma reason_texts: "list_all table_text (map (\<lambda>e. canonical_spelling (te_identifier e)) reason_table)"
  unfolding reason_spellings by code_simp

lemma text_ok_codes [simp]: "text_ok (FeatureCode_to_string c)" "text_ok (LimitCode_to_string l)" "text_ok (reason_to_string r)"
proof -
  have u: "text_ok ''unknown''" "text_ok ''UNKNOWN_REASON_CODE''" by (simp_all add: text_ok_def)
  show "text_ok (FeatureCode_to_string c)"
    using table_texts(1) u(1) by (auto simp: FeatureCode_to_string_def feature_info_iff list_all_iff intro!: table_text_ok split: option.split)
  show "text_ok (LimitCode_to_string l)"
    using table_texts(2) u(1) by (auto simp: LimitCode_to_string_def limit_info_iff list_all_iff intro!: table_text_ok split: option.split)
  show "text_ok (reason_to_string r)"
  proof (cases "find_entry r")
    case (Some e)
    then have "table_text (canonical_spelling (te_identifier e))"
      using reason_texts unfolding list_all_iff find_entry_iff set_map by blast
    then show ?thesis using Some by (simp add: reason_to_string_def table_text_ok)
  qed (simp add: reason_to_string_def u)
qed

lemma text_ok_unit: "unit_is_well_formed u \<Longrightarrow> text_ok (unit_to_string u)"
proof -
  assume "unit_is_well_formed u"
  then have "u \<in> set all_units" by (simp only: all_units_iff)
  with table_texts(3) have "table_text (unit_to_string u)" unfolding list_all_iff by (rule bspec)
  then show ?thesis by (rule table_text_ok)
qed

lemma split_dots_ascii:
  assumes "P (CHR ''.'')"
  shows "\<forall>i \<in> set (split_dots t). \<forall>c \<in> set i. P c \<Longrightarrow> \<forall>c \<in> set t. P c"
proof (induction t)
  case (Cons c t)
  obtain p ps where "split_dots t = p # ps" using split_dots_nonempty [of t] by (cases "split_dots t") blast+
  then show ?case using Cons assms by (cases "c = CHR ''.''") auto
qed simp

lemma text_ok_semver: "semver_wf v \<Longrightarrow> text_ok (SemVer_str v)"
proof -
  assume v: "semver_wf v"
  have d: "length (dec_string (unat x)) \<le> 10" "\<forall>c \<in> set (dec_string (unat x)). (of_char c :: nat) < 128" for x :: u32
    using dec_string_length [of 10 "unat x"] unat32 [of x] dec_string_digits [of _ "unat x"] by (auto simp: ascii_classes)
  have q: "length t \<le> 32 \<and> (\<forall>c \<in> set t. (of_char c :: nat) < 128)" if "t = [] \<or> parse_identifiers t b" for t b
    using that split_dots_ascii [of "\<lambda>c. (of_char c :: nat) < 128" t]
    by (auto simp: parse_identifiers_def identifier_ok_def list_all_iff kMaxSemVerQualifierLength_def ascii_classes split: if_splits)
  have "length (SemVer_str v) \<le> 1024"
    using d(1) [of "major v"] d(1) [of "minor v"] d(1) [of "patch v"] v q [of "prerelease v" True] q [of "build v" False]
    by (simp add: SemVer_str_def core_str_def semver_wf_def)
  then show ?thesis
    using d(2) v q [of "prerelease v" True] q [of "build v" False]
    by (auto simp: text_ok_def SemVer_str_def core_str_def semver_wf_def list_all_iff)
qed

lemma text_ok_digest: "digest_ok d \<Longrightarrow> text_ok (Digest256_hex d)"
proof -
  assume d: "digest_ok d"
  have "list_all (\<lambda>c. (of_char c :: nat) < 128) Hash.kHexDigits" "length Hash.kHexDigits = 16" by code_simp+
  moreover have "unat (x AND 0x0F) < 16" for x :: u8
  proof -
    have "x AND 0x0F \<le> 0x0F" by (rule word_and_le1)
    then show ?thesis by (simp add: word_le_nat_alt)
  qed
  ultimately have "\<forall>c \<in> set (Digest256_hex d). (of_char c :: nat) < 128"
    by (auto simp: Digest256_hex_def list_all_length)
  moreover have "length (Digest256_hex d) = 64"
    using d by (simp add: Digest256_hex_def length_concat digest_ok_def kDigestBytes_def comp_def sum_list_triv)
  ultimately show ?thesis by (simp add: text_ok_def list_all_iff)
qed

section \<open>Shapes\<close>

text \<open>A value of at most the given depth, with sorted keys and texts that the parser takes.\<close>

definition shaped :: "nat \<Rightarrow> JsonValue \<Rightarrow> bool" where
  "shaped d v \<longleftrightarrow> json_sorted default_json_limits v \<and> json_depth v \<le> d
     \<and> list_all (\<lambda>s. length s \<le> jl_max_string_bytes default_json_limits \<and> valid_utf8 s) (json_strings v)"

definition member_shaped :: "nat \<Rightarrow> string \<times> JsonValue \<Rightarrow> bool" where
  "member_shaped d m \<longleftrightarrow> text_ok (fst m) \<and> length (fst m) \<le> 64 \<and> shaped d (snd m)"

named_theorems shapes \<open>the shapes of the values of a document\<close>

lemma text_ok_length: "text_ok s \<Longrightarrow> length s \<le> jl_max_string_bytes default_json_limits"
  by (simp add: text_ok_def default_json_limits_def)

lemma shaped_leaf [shapes]: "shaped d (JInteger n)" "shaped d (JBool b)" "shaped d JNull" "shaped d (JArray [])"
  by (simp_all add: shaped_def)

lemma shaped_text [shapes]: "text_ok s \<Longrightarrow> shaped d (JString s)"
  by (simp add: shaped_def text_ok_length text_ok_utf8)

lemma shaped_mono: "shaped d v \<Longrightarrow> d \<le> d' \<Longrightarrow> shaped d' v"
  by (auto simp: shaped_def)

lemma shaped_array [shapes]: "list_all (shaped d) vs \<Longrightarrow> shaped (Suc d) (JArray vs)"
  by (auto simp: shaped_def list_all_iff fold_max_le)

lemma shaped_object [shapes]: "list_all (member_shaped d) ms \<Longrightarrow> shaped (Suc d) (json_object ms)"
proof -
  assume ms: "list_all (member_shaped d) ms"
  obtain m where m: "json_object ms = JObject m" "om_wf m" "set m \<subseteq> set ms" using json_object_shape [of ms] by blast
  have k: "length k \<le> jl_max_key_bytes default_json_limits" "text_ok k" "shaped d v" if "(k, v) \<in> set m" for k v
    using ms m(3) that by (force simp: list_all_iff member_shaped_def default_json_limits_def)+
  show ?thesis
    using m(2) k text_ok_length text_ok_utf8 unfolding m(1) shaped_def
    by (fastforce simp: list_all_iff fold_max_le)
qed

lemma members_append [shapes]: "list_all (member_shaped d) ms \<Longrightarrow> list_all (member_shaped d) ns \<Longrightarrow> list_all (member_shaped d) (ms @ ns)"
  by simp

lemma member_opt [shapes]: "text_ok k \<Longrightarrow> length k \<le> 64 \<Longrightarrow> pred_option (shaped d) x \<Longrightarrow> list_all (member_shaped d) (json_opt k x)"
  by (cases x) (simp_all add: json_opt_def member_shaped_def)

lemma text_ok_Cons: "text_ok (c # s) \<longleftrightarrow> (of_char c :: nat) < 128 \<and> length s \<le> 1023 \<and> list_all (\<lambda>c. (of_char c :: nat) < 128) s"
  by (auto simp: text_ok_def)

lemma shaped_texts [shapes]:
  "shaped d (json_of_kind k)" "shaped d (json_of_authority a)" "shaped d (json_of_reason r)" "digest_ok x \<Longrightarrow> shaped d (json_of_digest x)"
  "semver_wf v \<Longrightarrow> shaped d (json_of_SemVer v)" "unit_is_well_formed u \<Longrightarrow> shaped d (json_of_Unit u)"
  "shaped d (json_size m)"
  by (simp_all add: json_texts json_of_Unit_def json_size_def shapes text_ok_digest text_ok_semver text_ok_unit)

lemma shaped_option [shapes]: "pred_option (\<lambda>x. shaped d (f x)) x \<Longrightarrow> pred_option (shaped d) (map_option f x)"
  by (cases x) simp_all

lemma option_all_mono: "pred_option P x \<Longrightarrow> (\<And>y. P y \<Longrightarrow> Q y) \<Longrightarrow> pred_option Q x"
  by (cases x) simp_all

lemma shaped_device: "device_identity_ok d \<Longrightarrow> shaped 1 (json_of_device d)"
  unfolding json_of_device_def One_nat_def device_identity_ok_def
  by (intro shapes) (auto simp: member_shaped_def text_ok_Cons text_ok_name intro!: shapes elim!: option_all_mono)

lemma shaped_device_ref: "doc_device_ref d \<Longrightarrow> shaped 2 (json_of_device_ref d)"
  unfolding json_of_device_ref_def doc_device_ref_def numeral_2_eq_2
  by (intro shapes) (simp add: member_shaped_def text_ok_Cons text_ok_name shapes shaped_device [simplified])

lemma shaped_source_incarnation: "doc_source_incarnation s \<Longrightarrow> shaped 1 (json_of_source_incarnation s)"
  unfolding json_of_source_incarnation_def doc_source_incarnation_def One_nat_def
  by (intro shapes) (simp add: member_shaped_def text_ok_Cons text_ok_name shapes)

lemma shaped_features: "shaped 1 (json_of_FeatureSet s)"
  by (simp add: json_of_FeatureSet_def list_all_iff shapes)

lemma shaped_limits: "LimitSet_wf kind s \<Longrightarrow> shaped 2 (json_of_LimitSet s)"
  unfolding json_of_LimitSet_def numeral_2_eq_2
proof (intro shapes)
  assume "LimitSet_wf kind s"
  then have "unit_is_well_formed (lv_unit l)" if "l \<in> set s" for l
    using that by (auto simp: LimitSet_wf_def list_all_iff dest: limit_ok_unit)
  then show "list_all (shaped (Suc 0)) (map json_of_limit s)"
    by (auto simp: list_all_iff json_of_limit_def member_shaped_def text_ok_Cons text_ok_name shapes intro!: shapes)
qed

lemma shaped_stored: "doc_stored r \<Longrightarrow> shaped 3 (json_of_stored r)"
proof -
  assume r: "doc_stored r"
  let ?e = "s_evidence r"
  have l: "shaped 2 (json_of_LimitSet (e_limits ?e))" using r by (auto simp: doc_stored_def doc_evidence_def intro: shaped_limits)
  have f: "shaped 2 (json_of_FeatureSet s)" "doc_source_incarnation i \<Longrightarrow> shaped 2 (json_of_source_incarnation i)" for s i
    using shaped_mono [OF shaped_features, of 2] shaped_mono [OF shaped_source_incarnation, of _ 2] by simp_all
  have d: "digest_ok (evidence_id ?e)"
    using r by (simp add: doc_stored_def doc_evidence_def evidence_id_def digest_ok_def compute_digest_def)
  have "shaped (Suc 2) (json_of_stored r)"
    using r l d unfolding json_of_stored_def Let_def doc_stored_def doc_evidence_def
    by (intro shapes) (auto simp: member_shaped_def text_ok_Cons text_ok_name f shaped_device_ref intro!: shapes elim: option_all_mono)
  then show ?thesis by simp
qed

lemma shaped_tombstone: "doc_tombstone t \<Longrightarrow> shaped 3 (json_of_tombstone t)"
  unfolding json_of_tombstone_def doc_tombstone_def numeral_3_eq_3
  by (intro shapes) (simp add: member_shaped_def text_ok_Cons text_ok_name shapes shaped_device_ref [simplified numeral_2_eq_2])

lemma shaped_digests: "list_all digest_ok ds \<Longrightarrow> shaped 1 (JArray (map json_of_digest ds))"
  by (simp add: list_all_iff shapes)

lemma shaped_ids: "shaped 1 (JArray (map JInteger ns))"
  by (simp add: list_all_iff shapes)

lemma shaped_conflict: "doc_conflict g \<Longrightarrow> shaped 3 (json_of_conflict g)"
proof -
  assume g: "doc_conflict g"
  have "shaped 2 (JArray (map json_of_digest (cg_members g)))" "shaped 2 (JArray (map JInteger (cg_generations g)))"
    using g shaped_mono [OF shaped_digests, of _ 2] shaped_mono [OF shaped_ids, of 2] by (simp_all add: doc_conflict_def)
  then have "shaped (Suc 2) (json_of_conflict g)"
    using g unfolding json_of_conflict_def doc_conflict_def
    by (intro shapes) (simp add: member_shaped_def text_ok_Cons shapes shaped_device_ref)
  then show ?thesis by simp
qed

lemma shaped_resolution: "doc_resolution r \<Longrightarrow> shaped 3 (json_of_resolution r)"
proof -
  assume r: "doc_resolution r"
  have "shaped 2 (JArray (map json_of_digest (cr_rejected_members r)))"
    using r shaped_mono [OF shaped_digests, of _ 2] by (simp add: doc_resolution_def)
  then have "shaped (Suc 2) (json_of_resolution r)"
    using r unfolding json_of_resolution_def doc_resolution_def
    by (intro shapes) (simp add: member_shaped_def text_ok_Cons text_ok_name shapes)
  then show ?thesis by simp
qed

lemma shaped_eviction: "doc_eviction e \<Longrightarrow> shaped 3 (json_of_eviction e)"
  unfolding json_of_eviction_def doc_eviction_def numeral_3_eq_3
  by (intro shapes) (simp add: member_shaped_def text_ok_Cons text_ok_name shapes shaped_device_ref [simplified numeral_2_eq_2])

lemma shaped_incarnation_entry: "doc_incarnation_entry e \<Longrightarrow> shaped 3 (json_of_incarnation_entry e)"
proof -
  assume "doc_incarnation_entry e"
  then have "shaped (Suc 1) (json_of_incarnation_entry e)"
    unfolding json_of_incarnation_entry_def doc_incarnation_entry_def
    by (intro shapes) (simp add: member_shaped_def text_ok_Cons shapes shaped_device shaped_ids del: One_nat_def)
  then show ?thesis by (rule shaped_mono) simp
qed

lemma shaped_counters: "shaped 3 (json_of_counters c)"
proof -
  have "shaped (Suc 1) (json_of_counters c)"
    unfolding json_of_counters_def by (intro shapes) (simp add: member_shaped_def text_ok_Cons shapes)
  then show ?thesis by (rule shaped_mono) simp
qed

text \<open>The policy name is the one text that may be anything.\<close>

definition policy_name_ok :: "RegistryPolicy \<Rightarrow> bool" where
  "policy_name_ok p \<longleftrightarrow> length (p_policy_name p) \<le> jl_max_string_bytes default_json_limits \<and> valid_utf8 (p_policy_name p)"

lemma shaped_policy: "list_all doc_source_policy (p_sources p) \<Longrightarrow> policy_name_ok p \<Longrightarrow> shaped 3 (json_of_policy p)"
proof -
  assume p: "list_all doc_source_policy (p_sources p)" "policy_name_ok p"
  have "shaped 1 (json_of_source_policy s)" if "doc_source_policy s" for s
    using that unfolding json_of_source_policy_def doc_source_policy_def One_nat_def
    by (intro shapes) (simp add: member_shaped_def text_ok_Cons text_ok_name shapes)
  then have s: "shaped 2 (JArray (map json_of_source_policy (p_sources p)))"
    using p(1) shaped_array [of 1 "map json_of_source_policy (p_sources p)"] by (simp add: list_all_iff numeral_2_eq_2)
  have l: "shaped 2 (json_of_limits (p_limits p))"
    unfolding json_of_limits_def numeral_2_eq_2 by (intro shapes) (simp add: member_shaped_def text_ok_Cons shapes)
  have n: "shaped 2 (JString (p_policy_name p))" using p(2) by (simp add: shaped_def policy_name_ok_def)
  have "shaped (Suc 2) (json_of_policy p)"
    unfolding json_of_policy_def by (intro shapes) (simp add: member_shaped_def text_ok_Cons shapes s l n)
  then show ?thesis by simp
qed

lemma export_records_subset: "set (fst (export_records options n rs)) \<subseteq> set rs"
  by (induction options n rs rule: export_records.induct) (auto split: prod.splits)

lemma shaped_export: "doc_state s \<Longrightarrow> policy_name_ok (rs_policy s) \<Longrightarrow> shaped 5 (export_json s options now)"
proof -
  assume s: "doc_state s" and n: "policy_name_ok (rs_policy s)"
  obtain records truncated where r: "export_records options 0 (rs_records s) = (records, truncated)"
    by (cases "export_records options 0 (rs_records s)")
  then have rs: "list_all doc_stored records"
    using s export_records_subset [of options 0 "rs_records s"] by (auto simp: doc_state_def list_all_iff)
  have a: "shaped 4 (JArray (map f xs))" if "\<forall>x \<in> set xs. shaped 3 (f x)" for f :: "'z \<Rightarrow> JsonValue" and xs
    using that shaped_array [of 3 "map f xs"] by (simp add: list_all_iff)
  have p: "shaped 4 (json_of_policy (rs_policy s))" "shaped 4 (json_of_counters c)" for c
    using s n shaped_mono [OF shaped_policy, of "rs_policy s" 4] shaped_mono [OF shaped_counters, of 4]
    by (simp_all add: doc_state_def doc_policy_def)
  have "digest_ok (state_digest s)" by (simp add: digest_ok_def state_digest_def)
  then have "shaped (Suc 4) (export_json s options now)"
    using s rs unfolding export_json_def r Let_def prod.case doc_state_def list_all_iff
    by (intro shapes) (auto simp: member_shaped_def text_ok_Cons kFormatName_def p shaped_stored shaped_tombstone shaped_conflict
        shaped_resolution shaped_eviction shaped_incarnation_entry a shapes intro!: shapes)
  then show ?thesis by simp
qed

section \<open>Sizes\<close>

text \<open>Bounds on the items of an object and on the length of a compact text, from the values it is made of.\<close>

fun json_weight :: "JsonValue \<Rightarrow> nat" where
  "json_weight (JString s) = 2 + 6 * length s"
| "json_weight (JArray vs) = 2 + sum_list (map (\<lambda>v. json_weight v + 1) vs)"
| "json_weight (JObject ms) = 2 + sum_list (map (\<lambda>(k, v). 6 * length k + 4 + json_weight v) ms)"
| "json_weight v = 20"

lemma length_escape: "length (json_escape s) \<le> 2 + 6 * length s"
proof -
  have "length (concat (map escape_char s)) \<le> 6 * length s"
    by (induction s) (simp_all add: escape_char_def)
  then show ?thesis by (simp add: json_escape_def)
qed

lemma length_int_string: "length (int_string (sint n)) \<le> 20" for n :: i64
proof -
  have "\<bar>sint n\<bar> < 10 ^ 19" using sint_range [of n] by simp linarith
  then have "nat \<bar>sint n\<bar> < 10 ^ 19" by (simp add: nat_less_iff)
  then show ?thesis using dec_string_length [of 19 "nat \<bar>sint n\<bar>"] by (auto simp: int_string_def)
qed

lemma length_join:
  assumes "\<And>x. x \<in> set xs \<Longrightarrow> length (f x) + 1 \<le> g x"
  shows "length (join_comma (map f xs)) \<le> sum_list (map g xs)"
proof -
  have "length (join_comma ys) \<le> sum_list (map (\<lambda>y. length y + 1) ys)" for ys
    by (induction ys rule: join_comma.induct) simp_all
  from this [of "map f xs"] have "length (join_comma (map f xs)) \<le> sum_list (map (\<lambda>x. length (f x) + 1) xs)"
    by (simp add: comp_def)
  also have "\<dots> \<le> sum_list (map g xs)" using assms by (intro sum_list_mono) simp
  finally show ?thesis .
qed

lemma dump_weight: "length (dump_to False n v) \<le> json_weight v"
proof (induction "False" n v rule: dump_to.induct)
  case (3 n x)
  show ?case using length_int_string [of x] by simp
next
  case (4 n s)
  show ?case using length_escape [of s] by simp
next
  case (5 n vs)
  have "length (join_comma (map (\<lambda>v. line_break False (n + 1) @ dump_to False (n + 1) v) vs)) \<le> sum_list (map (\<lambda>v. json_weight v + 1) vs)"
  proof (rule length_join)
    fix x assume "x \<in> set vs"
    moreover from this have "vs \<noteq> []" by auto
    ultimately show "length (line_break False (n + 1) @ dump_to False (n + 1) x) + 1 \<le> json_weight x + 1"
      using 5 by (simp add: line_break_def)
  qed
  then show ?case by (simp add: line_break_def)
next
  case (6 n ms)
  have "length (join_comma (map (\<lambda>(k, v). line_break False (n + 1) @ json_escape k @ CHR '':'' # (if False then '' '' else [])
      @ dump_to False (n + 1) v) ms)) \<le> sum_list (map (\<lambda>(k, v). 6 * length k + 4 + json_weight v) ms)"
  proof (rule length_join)
    fix m assume m: "m \<in> set ms"
    obtain k v where kv: "m = (k, v)" by (cases m)
    have "length (dump_to False (n + 1) v) \<le> json_weight v" by (rule 6 [of m]) (use m kv in auto)
    then show "length (case m of (k, v) \<Rightarrow> line_break False (n + 1) @ json_escape k @ CHR '':'' # (if False then '' '' else [])
        @ dump_to False (n + 1) v) + 1 \<le> (case m of (k, v) \<Rightarrow> 6 * length k + 4 + json_weight v)"
      using length_escape [of k] by (simp add: kv line_break_def)
  qed
  then show ?case by (auto simp: line_break_def)
qed simp_all

lemma json_object_size:
  "json_items (json_object ms) \<le> 1 + sum_list (map (\<lambda>m. json_items (snd m)) ms)"
  "json_weight (json_object ms) \<le> 2 + sum_list (map (\<lambda>m. 6 * length (fst m) + 4 + json_weight (snd m)) ms)"
proof -
  have put: "sum_list (map (\<lambda>(k, v). g k v) (om_put k v m)) \<le> g k v + sum_list (map (\<lambda>(k, v). g k v) m)"
    for g :: "string \<Rightarrow> JsonValue \<Rightarrow> nat" and k v m
    by (induction m) auto
  have f: "\<exists>m'. fold (\<lambda>(k, v). json_set k v) ms (JObject m) = JObject m'
      \<and> sum_list (map (\<lambda>(k, v). g k v) m') \<le> sum_list (map (\<lambda>(k, v). g k v) m) + sum_list (map (\<lambda>x. g (fst x) (snd x)) ms)"
    for g :: "string \<Rightarrow> JsonValue \<Rightarrow> nat" and m
  proof (induction ms arbitrary: m)
    case (Cons kv ms)
    obtain k v where kv: "kv = (k, v)" by (cases kv)
    show ?case using Cons [of "om_put k v m"] put [of g k v m] by (auto simp: kv json_set_def)
  qed simp
  show "json_items (json_object ms) \<le> 1 + sum_list (map (\<lambda>m. json_items (snd m)) ms)"
    using f [of "[]" "\<lambda>k v. json_items v"] by (auto simp: json_object_def)
  show "json_weight (json_object ms) \<le> 2 + sum_list (map (\<lambda>m. 6 * length (fst m) + 4 + json_weight (snd m)) ms)"
    using f [of "[]" "\<lambda>k v. 6 * length k + 4 + json_weight v"] by (auto simp: json_object_def)
qed

end
