(* ===== verification/ExportProps.thy ===== *)
theory ExportProps
  imports DocumentShape
begin

text \<open>
  What documents guarantee, for \<open>src/export.cpp\<close>: a complete export is imported as the very state it was made from, an
  import returns only states a document can carry and whose digest the document declares, an incomplete export is refused,
  and policy and requirement documents read back. One gap is shown too: a state the importer accepts can be one that the
  store's decoder refuses.
\<close>

section \<open>Exports and imports\<close>

lemma export_registry_Success:
  "export_registry i options now = Success c r \<Longrightarrow>
   er_document r = JsonValue_dump (eo_pretty options) (export_json (to_state i) options now) \<and> c = Ok
     \<and> er_truncated r = snd (export_records options 0 (rs_records (to_state i)))"
  by (auto simp: export_registry_def snapshot_state_def Let_def split: prod.splits if_splits)

text \<open>
  The parser's bounds on a document that the writer does not enforce: it writes up to 64 MiB and any number of items.
\<close>

definition document_bounds :: "bool \<Rightarrow> JsonValue \<Rightarrow> bool" where
  "document_bounds pretty v \<longleftrightarrow> json_items v \<le> jl_max_items default_json_limits
     \<and> length (JsonValue_dump pretty v) \<le> jl_max_bytes default_json_limits"

lemma shaped_fits: "shaped d v \<Longrightarrow> d \<le> jl_max_depth default_json_limits \<Longrightarrow> document_bounds pretty v \<Longrightarrow> json_fits default_json_limits pretty v"
  by (auto simp: shaped_def document_bounds_def json_fits_def)

lemma export_parses:
  assumes "doc_state s" "policy_name_ok (rs_policy s)" "document_bounds pretty (export_json s options now)"
  shows "JsonValue_parse default_json_limits (JsonValue_dump pretty (export_json s options now)) = Success Ok (export_json s options now)"
  using shaped_export [OF assms(1,2)] assms(3) by (intro parse_dumped shaped_fits [of 5]) (simp_all add: default_json_limits_def)

text \<open>
  C32: an export is read back exactly. When the durable state of a registry consists of values a document can carry, a
  complete export of it, of at most 8 MiB and 262144 items, is imported as that very state, with the digest the export
  reported.
\<close>

theorem import_export:
  assumes "doc_state (to_state i)" "complete_export options (to_state i)" "policy_name_ok (i_policy i)"
    "document_bounds (eo_pretty options) (export_json (to_state i) options now)" "export_registry i options now = Success c r"
  shows "\<exists>result. import_document (er_document r) = Success Ok result \<and> ir_state result = to_state i \<and> ir_reason result = Ok
    \<and> er_digest r = state_digest (ir_state result)"
proof -
  have "er_digest r = state_digest (to_state i)"
    using assms(5) by (auto simp: export_registry_def snapshot_state_def Let_def split: prod.splits if_splits)
  moreover have "policy_name_ok (rs_policy (to_state i))" using assms(3) by (simp add: to_state_def)
  ultimately show ?thesis
    using export_registry_Success [OF assms(5)] export_parses [OF assms(1) _ assms(4)] import_state_json [OF assms(2,1)]
    by (simp add: import_document_def)
qed

text \<open>
  C33: an import is sound. Whatever text is accepted, the state it returns consists of values that a document can carry:
  names, versions, units, features and limits are well formed, every record has the id of its content, every record is of a
  registered device incarnation, sources and devices are sorted, and the record bound holds; and the document declares the
  digest of exactly that state.
\<close>

theorem import_sound:
  assumes "import_document document = Success c result"
  shows "c = Ok \<and> doc_state (ir_state result) \<and> (\<exists>root. JsonValue_parse default_json_limits document = Success Ok root
    \<and> json_find root ''state_digest'' = Some (json_of_digest (state_digest (ir_state result))))"
proof -
  from assms obtain k root where p: "JsonValue_parse default_json_limits document = Success k root" "c = Ok"
      "import_state root = Inr (ir_state result)"
    by (auto simp: import_document_def split: outcome.splits)
  moreover from p(1) have "k = Ok" by (auto simp: JsonValue_parse_def Let_def split: sum.splits if_splits)
  ultimately show ?thesis using import_state_ok [OF p(3)] by auto
qed

text \<open>
  An incomplete export never passes for a state. A document whose record bound was reached is refused as truncated, one
  without the policy for its missing policy.
\<close>

theorem incomplete_export_refused:
  assumes "export_registry i options now = Success c r" "doc_state (to_state i)" "policy_name_ok (i_policy i)"
    "document_bounds (eo_pretty options) (export_json (to_state i) options now)"
  shows "(er_truncated r \<longrightarrow> import_document (er_document r) = Failure ExportTruncated ''a truncated export is not a complete state'')
    \<and> (\<not> include_policy options \<longrightarrow> \<not> outcome_ok (import_document (er_document r)))"
proof -
  let ?root = "export_json (to_state i) options now"
  have "policy_name_ok (rs_policy (to_state i))" using assms(3) by (simp add: to_state_def)
  note e = export_registry_Success [OF assms(1)] export_parses [OF assms(2) this assms(4)]
  have f: "json_find ?root ''format'' = Some (JString kFormatName)"
    "json_find ?root ''format_version'' = Some (JInteger (ucast kExportFormatVersion))"
    "json_find ?root ''api_generation'' = Some (JInteger (ucast kApiGeneration))"
    "json_find ?root ''catalog_fingerprint'' = Some (JInteger (ucast catalog_fingerprint))"
    "json_find ?root ''reason_table_fingerprint'' = Some (JInteger (ucast reason_table_fingerprint))" "is_object ?root"
    "json_find ?root ''truncated'' = Some (JBool (er_truncated r))"
    using e(1) by (simp_all add: export_json_def split: prod.split)
  have t: "er_truncated r \<Longrightarrow> import_header ?root = Inl (ExportTruncated, ''a truncated export is not a complete state'')"
    by (simp add: import_header_def read_defs f ucast_unit_index)
  have "\<not> include_policy options \<Longrightarrow> import_policy ?root = Inl (RejectedMissingField, ''missing policy object'')"
    by (simp add: import_policy_def export_json_def roption_def split: prod.split)
  then have "\<not> include_policy options \<Longrightarrow> import_state ?root \<noteq> Inr s" for s
    unfolding import_state_def Let_def rbind_Inr by auto
  then have "\<not> include_policy options \<Longrightarrow> \<not> outcome_ok (import_document (er_document r))"
    using e by (cases "import_state ?root") (auto simp: import_document_def outcome_of_def outcome_ok_def)
  moreover have "er_truncated r \<Longrightarrow> import_document (er_document r) = Failure ExportTruncated ''a truncated export is not a complete state''"
    using e t by (simp add: import_document_def import_state_def)
  ultimately show ?thesis by blast
qed

lemma policy_name_refused:
  assumes "policy_ok (p\<lparr>p_policy_name := []\<rparr>)" "length (p_policy_name p) > 128" "length (p_policy_name p) < 2 ^ 32"
  shows "decode_registry_policy (encode_registry_policy p @ rest) = Inl RejectedOversizedInput"
proof -
  have "d_list kMaxCollectionEntries c decode_source_policy (w_list encode_source_policy (p_sources p) @ r) = Inr (p_sources p, r)" for c r
    using assms(1) by (simp add: d_list_source_policy_iff policy_ok_def)
  moreover have "decode_limits (encode_limits (p_limits p) @ r) = Inr (p_limits p, r)" for r
    using assms(1) by (simp add: decode_limits_iff policy_ok_def)
  ultimately show ?thesis
    using assms(2,3) by (simp add: decode_registry_policy_def encode_registry_policy_def dguard_def dfail_def dbind_def)
qed

text \<open>
  C34: an import can return what the store cannot read back. A policy name of more than 128 bytes is exported and imported
  without complaint, and the state so imported is refused by the decoder of the store's format: a registry that adopts it
  commits states that no later process can open.
\<close>

theorem import_accepts_undecodable:
  assumes "doc_state (to_state i)" "complete_export options (to_state i)" "policy_name_ok (i_policy i)"
    "document_bounds (eo_pretty options) (export_json (to_state i) options now)" "export_registry i options now = Success c r"
    "length (p_policy_name (i_policy i)) > 128" "length (p_sources (i_policy i)) \<le> kMaxCollectionEntries"
  shows "\<exists>result. import_document (er_document r) = Success Ok result
    \<and> decode_state (encode_state (ir_state result)) = Inl RejectedOversizedInput"
proof -
  let ?s = "to_state i"
  have n: "policy_name_ok (rs_policy ?s)" using assms(3) by (simp add: to_state_def)
  have p: "doc_policy (rs_policy ?s)" using assms(1) by (simp add: doc_state_def)
  have "doc_size n \<Longrightarrow> size_ok n" for n by (simp add: doc_size_def size_ok_def)
  then have "policy_ok ((rs_policy ?s)\<lparr>p_policy_name := []\<rparr>)"
    using p assms(7) by (auto simp: policy_ok_def doc_policy_def limits_ok_def doc_limits_def list_all_iff source_policy_ok_def
        doc_source_policy_def to_state_def)
  moreover have "length (p_policy_name (rs_policy ?s)) > 128" "length (p_policy_name (rs_policy ?s)) < 2 ^ 32"
    using assms(6) n by (simp_all add: policy_name_ok_def default_json_limits_def to_state_def)
  ultimately have d: "decode_registry_policy (encode_registry_policy (rs_policy ?s) @ rest) = Inl RejectedOversizedInput" for rest
    by (rule policy_name_refused)
  have "decode_state (encode_state ?s) = Inl RejectedOversizedInput"
    by (simp add: decode_state_def encode_state_def d dbind_def dguard_def dret_def)
  then show ?thesis
    using export_registry_Success [OF assms(5)] export_parses [OF assms(1) n assms(4)] import_state_json [OF assms(2,1)]
    by (simp add: import_document_def)
qed

section \<open>Policies and requirements\<close>

lemma parse_policy_node_json:
  assumes "doc_policy p" "length (p_sources p) \<le> 1024"
  shows "parse_policy_node (json_of_policy p) = Inr p"
proof -
  have "is_object (json_of_limits l)" for l by (simp add: json_of_limits_def)
  then show ?thesis
    using assms
    by (cases p) (simp add: parse_policy_node_def doc_policy_def json_of_policy_def read_defs read_sources_json read_settings_def
        read_limit_fields_json)
qed

lemma parse_policy_node_ok: "parse_policy_node v = Inr p \<Longrightarrow> doc_policy p"
proof -
  assume "parse_policy_node v = Inr p"
  then obtain items sources result rule where
    r: "read_sources items = Inr sources" "read_settings v (default_policy\<lparr>p_sources := sources\<rparr>) = Inr result" "\<not> sint rule \<le> 0"
    and p: "(case json_find v ''limits'' of None \<Rightarrow> Inr (result\<lparr>p_rule_generation := rule\<rparr>)
      | Some l \<Rightarrow> rbind (rguard (is_object l) (RejectedMalformedDocument, ''limits must be an object'')) (\<lambda>_.
          rbind (read_limit_fields False l default_limits) (\<lambda>limits. Inr (result\<lparr>p_rule_generation := rule, p_limits := limits\<rparr>)))) = Inr p"
    unfolding parse_policy_node_def Let_def rbind_Inr by auto
  have d: "doc_limits default_limits"
    by (simp add: doc_limits_def default_limits_def doc_size_def kMaxFeaturesPerRecord_def kMaxLimitsPerRecord_def)
  have s: "p_sources result = sources \<and> doc_u64 (p_retention_horizon result) \<and> doc_u64 (p_max_future_skew result)
      \<and> doc_u64 (p_default_max_age result) \<and> p_limits result = default_limits"
    using r(2) unfolding read_settings_def rbind_Inr because_simps by (auto simp: doc_u64_def default_policy_def not_less)
  from p obtain l where "doc_limits l" "p = result\<lparr>p_rule_generation := rule, p_limits := l\<rparr>"
    using s d read_limit_fields_optional [OF d] by (auto split: option.splits)
  then show ?thesis using read_sources_ok [OF r(1)] r(3) s by (simp add: doc_policy_def doc_id_def)
qed

text \<open>
  Policy documents read back. A policy that a document can carry, with at most 1024 sources, is parsed back exactly from
  the document rendered for it; and whatever policy a document gives is one that a document can carry, its sources sorted
  and without duplicates.
\<close>

theorem policy_document_roundtrip:
  assumes "doc_policy p" "length (p_sources p) \<le> 1024" "policy_name_ok p" "document_bounds pretty (policy_document p)"
  shows "parse_policy_document (render_policy_document p pretty) = Success Ok p
    \<and> (\<forall>document c q. parse_policy_document document = Success c q \<longrightarrow> c = Ok \<and> doc_policy q)"
proof -
  have "shaped 4 (policy_document p)"
    unfolding policy_document_def
    using shaped_object [of 3] shaped_policy [of p] assms(1,3) by (simp add: member_shaped_def text_ok_Cons shapes doc_policy_def)
  then have "json_fits default_json_limits pretty (policy_document p)"
    by (rule shaped_fits) (simp_all add: assms(4) default_json_limits_def)
  note parsed = parse_dumped [OF this]
  have "is_object (json_of_policy p)" by (simp add: json_of_policy_def)
  then have "parse_policy_document (render_policy_document p pretty) = Success Ok p"
    using parsed parse_policy_node_json [OF assms(1,2)]
    by (simp add: parse_policy_document_def render_policy_document_def) (simp add: policy_document_def)
  moreover have "c = Ok \<and> doc_policy q" if "parse_policy_document document = Success c q" for document c q
    using that by (auto simp: parse_policy_document_def dest: parse_policy_node_ok split: outcome.splits option.splits)
  ultimately show ?thesis by blast
qed

lemma read_required_limit_json:
  assumes "limit_requirement_ok l" "limit_allowed_for (lr_code l) kind"
  shows "read_required_limit kind (json_of_required_limit l) = Inr l"
proof -
  from assms obtain i where i: "limit_info (lr_code l) = Some i" "u_code (lr_unit l) = li_unit i" "unit_is_well_formed (lr_unit l)"
      "unit_valid_for_limit (lr_code l) (lr_unit l)" "0 \<le> sint (lr_minimum l)"
    by (auto simp: limit_requirement_ok_def limit_value_ok_def unit_valid_for_limit_def split: option.splits if_splits)
  then have "parse_unit (unit_to_string (lr_unit l)) = Some (lr_unit l)" using parse_unit_roundtrip [of "lr_unit l"] by simp
  moreover have "parse_limit_code (LimitCode_to_string (lr_code l)) = Some (lr_code l)"
    using i(1) by (simp add: parse_limit_code_spec LimitCode_to_string_def)
  ultimately show ?thesis
    using i assms(2) by (simp add: read_required_limit_def json_of_required_limit_def read_unit_def json_of_Unit_def read_defs)
qed

lemma read_required_limit_ok:
  "read_required_limit kind v = Inr l \<Longrightarrow> limit_requirement_ok l \<and> limit_allowed_for (lr_code l) kind"
  unfolding read_required_limit_def rbind_Inr by (auto simp: limit_requirement_ok_def limit_value_ok_def not_less)

lemma read_minimum_iff: "read_minimum v k detail = Inr x \<longleftrightarrow> json_find v k = map_option JInteger x \<and> pred_option doc_u64 x"
  by (cases x) (auto simp: read_minimum_def read_integer_def value_missing_def doc_u64_def roption_def as_integer_def
      split: option.splits JsonValue.splits if_splits)

lemma requirement_members:
  fixes q :: CapabilityRequirement
  shows "json_find (json_of_requirement q) ''device'' = Some (json_of_device_ref (cq_device q))"
    "json_find (json_of_requirement q) ''capability_kind'' = Some (json_of_kind (cq_capability q))"
    "json_find (json_of_requirement q) ''version'' = Some (json_of_version_requirement (cq_version q))"
    "json_find (json_of_requirement q) ''required_features'' = Some (json_of_FeatureSet (required_features q))"
    "json_find (json_of_requirement q) ''required_limits'' = Some (JArray (map json_of_required_limit (required_limits q)))"
    "json_find (json_of_requirement q) ''minimum_firmware_version'' = map_option json_of_SemVer (minimum_firmware_version q)"
    "json_find (json_of_requirement q) ''minimum_firmware_generation'' = map_option JInteger (minimum_firmware_generation q)"
    "json_find (json_of_requirement q) ''minimum_runtime_version'' = map_option json_of_SemVer (minimum_runtime_version q)"
    "json_find (json_of_requirement q) ''minimum_runtime_generation'' = map_option JInteger (minimum_runtime_generation q)"
    "json_find (json_of_requirement q) ''max_evidence_age'' = Some (JInteger (max_evidence_age q))" "is_object (json_of_requirement q)"
    "json_find (json_of_version_requirement v) ''minimum'' = Some (json_of_SemVer (minimum v))"
    "json_find (json_of_version_requirement v) ''maximum_exclusive'' = map_option json_of_SemVer (maximum_exclusive v)"
    "is_object (json_of_version_requirement v)"
  by (auto simp: json_of_requirement_def json_of_version_requirement_def split: option.split)

lemma parse_requirement_node_json:
  assumes "doc_requirement q"
  shows "parse_requirement_node (json_of_requirement q) = Inr q"
proof -
  let ?v = "json_of_requirement q" and ?w = "json_of_version_requirement (cq_version q)"
  have "sorted (map lr_code (required_limits q))" using assms by (simp add: doc_requirement_def strict_sorted_iff)
  moreover have "rlist (read_required_limit (cq_capability q)) (map json_of_required_limit (required_limits q)) = Inr (required_limits q)"
    by (rule rlist_Inr) (use assms in \<open>auto simp: doc_requirement_def list_all_iff intro: read_required_limit_json\<close>)
  ultimately have l: "read_required_limits (cq_capability q) ?v = Inr (required_limits q)"
    using assms by (simp add: read_required_limits_def requirement_members sort_key_id_if_sorted doc_requirement_def successively_less)
  have f: "read_required_features (cq_capability q) ?v = Inr (required_features q)"
    using assms by (simp add: read_required_features_def requirement_members features_doc.read_json doc_requirement_def)
  have o: "read_semver_opt ?w ''maximum_exclusive'' = Inr (maximum_exclusive (cq_version q))"
    "read_semver_opt ?v ''minimum_firmware_version'' = Inr (minimum_firmware_version q)"
    "read_semver_opt ?v ''minimum_runtime_version'' = Inr (minimum_runtime_version q)"
    "read_minimum ?v ''minimum_firmware_generation'' d = Inr (minimum_firmware_generation q)"
    "read_minimum ?v ''minimum_runtime_generation'' d = Inr (minimum_runtime_generation q)"
    "read_minimum ?v ''max_evidence_age'' d = Inr (Some (max_evidence_age q))" for d
    using assms by (simp_all add: read_semver_opt_iff read_minimum_iff requirement_members doc_requirement_def)
  show ?thesis
    using assms unfolding doc_requirement_def
    by (simp add: parse_requirement_node_def read_defs requirement_members device_ref_doc.read_json json_texts l f o)
qed

lemma parse_requirement_node_ok:
  assumes "parse_requirement_node v = Inr q"
  shows "doc_requirement q"
proof -
  have l: "list_all (\<lambda>l. limit_requirement_ok l \<and> limit_allowed_for (lr_code l) kind) limits \<and> length limits \<le> 64
      \<and> sorted_wrt (<) (map lr_code limits)" if "read_required_limits kind v = Inr limits" for kind limits
  proof -
    have "list_all (\<lambda>l. limit_requirement_ok l \<and> limit_allowed_for (lr_code l) kind) ls" if "rlist (read_required_limit kind) items = Inr ls" for items ls
      using that by (rule rlist_all [rotated]) (rule read_required_limit_ok)
    moreover have "\<exists>items ls. length items \<le> 64 \<and> rlist (read_required_limit kind) items = Inr ls \<and> limits = sort_key lr_code ls
        \<and> sorted_wrt (<) (map lr_code limits) \<or> limits = []"
      using that by (auto simp: read_required_limits_def successively_less Let_def not_less split: option.splits)
    ultimately show ?thesis using rlist_length [of "read_required_limit kind"] by (fastforce simp: list_all_iff)
  qed
  have age: "pred_option doc_u64 x \<Longrightarrow> doc_u64 (case x of None \<Rightarrow> 0 | Some a \<Rightarrow> a)" for x
    by (cases x) (simp_all add: doc_u64_def)
  have f: "FeatureSet_wf kind features" if "read_required_features kind v = Inr features" for kind features
    using that by (auto simp: read_required_features_def FeatureSet_wf_def dest: features_doc.read_ok split: option.splits)
  show ?thesis
    using assms unfolding parse_requirement_node_def rbind_Inr because_simps read_semver_opt_iff read_minimum_iff doc_iffs sum.inject
    apply (elim exE conjE)
    apply (drule l f device_ref_doc.read_ok)+
    apply hypsubst
    apply (simp add: doc_requirement_def age)
    done
qed

lemma shaped_requirement: "doc_requirement q \<Longrightarrow> shaped 4 (requirement_document q)"
proof -
  assume q: "doc_requirement q"
  have u: "unit_is_well_formed (lr_unit l)" if "l \<in> set (required_limits q)" for l
    using q that by (auto simp: doc_requirement_def list_all_iff limit_requirement_ok_def limit_value_ok_def unit_valid_for_limit_def
        split: option.splits if_splits)
  have "shaped 1 (json_of_required_limit l)" if "l \<in> set (required_limits q)" for l
    unfolding json_of_required_limit_def One_nat_def by (intro shapes) (simp add: member_shaped_def text_ok_Cons shapes u [OF that])
  then have l: "shaped 2 (JArray (map json_of_required_limit (required_limits q)))"
    using shaped_array [of 1] by (simp add: list_all_iff numeral_2_eq_2)
  have v: "shaped 2 (json_of_version_requirement (cq_version q))"
    using q unfolding json_of_version_requirement_def numeral_2_eq_2 doc_requirement_def
    by (intro shapes) (auto simp: member_shaped_def text_ok_Cons intro!: shapes elim!: option_all_mono)
  have "shaped (Suc 2) (json_of_requirement q)"
    using q unfolding json_of_requirement_def doc_requirement_def
    by (intro shapes) (auto simp: member_shaped_def text_ok_Cons l v shaped_device_ref shaped_mono [OF shaped_features] intro!: shapes
        elim!: option_all_mono)
  then have "shaped (Suc 3) (requirement_document q)"
    unfolding requirement_document_def by (intro shapes) (simp add: member_shaped_def text_ok_Cons shapes)
  then show ?thesis by simp
qed

text \<open>
  Requirement documents read back. A requirement that a document can carry is parsed back exactly from the document
  rendered for it; and whatever requirement a document gives is well formed: its features and limits belong to the
  capability, its limits are sorted and without duplicates.
\<close>

theorem requirement_document_roundtrip:
  assumes "doc_requirement q" "document_bounds pretty (requirement_document q)"
  shows "parse_requirement_document (render_requirement_document q pretty) = Success Ok q
    \<and> (\<forall>document c r. parse_requirement_document document = Success c r \<longrightarrow> c = Ok \<and> doc_requirement r)"
proof -
  have "json_fits default_json_limits pretty (requirement_document q)"
    by (rule shaped_fits [OF shaped_requirement]) (simp_all add: assms default_json_limits_def)
  from parse_dumped [OF this] have "parse_requirement_document (render_requirement_document q pretty) = Success Ok q"
    using parse_requirement_node_json [OF assms(1)]
    by (simp add: parse_requirement_document_def render_requirement_document_def) (simp add: requirement_document_def)
  moreover have "c = Ok \<and> doc_requirement r" if "parse_requirement_document document = Success c r" for document c r
    using that by (auto simp: parse_requirement_document_def dest: parse_requirement_node_ok split: outcome.splits)
  ultimately show ?thesis by blast
qed

section \<open>A fresh registry as a document\<close>

definition named_policy :: "nat \<Rightarrow> RegistryPolicy" where
  "named_policy n = default_policy\<lparr>p_policy_name := replicate n (CHR ''a'')\<rparr>"

definition fresh :: "nat \<Rightarrow> Impl" where
  "fresh n = Registry_init (named_policy n)"

lemma fresh_to_state: "to_state (fresh n) = default_state\<lparr>rs_policy := named_policy n, rs_epoch := 1, rs_rule_generation := 1,
    rs_policy_revision := 1, rs_boot_epoch := 1\<rparr>"
  by (simp add: fresh_def named_policy_def to_state_def Registry_init_def default_state_def sort_policy_def sort_sources_def default_policy_def
      flatten_records_def flatten_tombstones_def streams_of_def tombstones_of_def om_vals_def)

lemma fresh_policy: "i_policy (fresh n) = named_policy n"
  by (simp add: fresh_def Registry_init_def sort_policy_def sort_sources_def named_policy_def default_policy_def)

lemma named_policy_ok: "doc_policy (named_policy n)" "n \<le> 1000 \<Longrightarrow> policy_name_ok (named_policy n)"
proof -
  show "doc_policy (named_policy n)"
    by (simp add: doc_policy_def named_policy_def default_policy_def doc_u64_def doc_id_def doc_limits_def default_limits_def doc_size_def
        kMaxFeaturesPerRecord_def kMaxLimitsPerRecord_def)
  show "n \<le> 1000 \<Longrightarrow> policy_name_ok (named_policy n)"
    by (auto simp: policy_name_ok_def named_policy_def default_json_limits_def byte_of_less intro!: valid_utf8_ascii)
qed

lemma fresh_doc_state: "doc_state (to_state (fresh n))"
  by (simp add: fresh_to_state doc_state_def default_state_def named_policy_ok doc_u64_def doc_id_def doc_counters_def zero_counters_def)

lemma policy_size:
  assumes "p_sources p = []"
  shows "json_items (json_of_policy p) \<le> 40" "json_weight (json_of_policy p) \<le> 6000 + 6 * length (p_policy_name p)"
proof -
  have l: "json_items (json_of_limits l) \<le> 16" "json_weight (json_of_limits l) \<le> 3000" for l
    unfolding json_of_limits_def by (rule order_trans [OF json_object_size(1)], simp add: json_size_def,
        rule order_trans [OF json_object_size(2)], simp add: json_size_def)
  show "json_items (json_of_policy p) \<le> 40"
    unfolding json_of_policy_def by (rule order_trans [OF json_object_size(1)]) (simp add: assms, use l(1) [of "p_limits p"] in simp)
  have e: "length (BootPolicy_to_string b) \<le> 40" "length (ClockMode_to_string m) \<le> 40" for b m
    by (cases b; simp add: BootPolicy_to_string_def) (cases m; simp add: ClockMode_to_string_def)
  show "json_weight (json_of_policy p) \<le> 6000 + 6 * length (p_policy_name p)"
    unfolding json_of_policy_def
    by (rule order_trans [OF json_object_size(2)])
      (simp add: assms, use l(2) [of "p_limits p"] e(1) [of "p_boot_policy p"] e(2) [of "p_clock_mode p"] in simp)
qed

lemma json_digest_size: "digest_ok d \<Longrightarrow> json_weight (json_of_digest d) = 386"
  by (simp add: json_of_digest_def Digest256_hex_def length_concat digest_ok_def kDigestBytes_def comp_def sum_list_triv)

definition export_with :: "bool \<Rightarrow> ExportOptions" where
  "export_with b = default_export_options\<lparr>include_policy := b\<rparr>"

lemma fresh_size:
  "json_items (export_json (to_state (fresh n)) (export_with b) now) \<le> 200"
  "json_weight (export_json (to_state (fresh n)) (export_with b) now) \<le> 20000 + 6 * n"
proof -
  have p: "json_items (json_of_policy (named_policy n)) \<le> 40" "json_weight (json_of_policy (named_policy n)) \<le> 6000 + 6 * n"
    using policy_size [of "named_policy n"] by (simp_all add: named_policy_def default_policy_def)
  have c: "json_items (json_of_counters k) \<le> 20" "json_weight (json_of_counters k) \<le> 3000" for k
    unfolding json_of_counters_def by (rule order_trans [OF json_object_size(1)], simp, rule order_trans [OF json_object_size(2)], simp)
  have d: "json_weight (json_of_digest (state_digest s)) = 386" "json_items (json_of_digest x) = 1" for s x
    by (simp_all add: json_digest_size digest_ok_def state_digest_def) (simp add: json_of_digest_def)
  have o: "json_opt k (Some v) = [(k, v)]" "json_opt k None = []" for k v by (simp_all add: json_opt_def)
  let ?s = "to_state (fresh n)"
  have s: "export_records (export_with b) 0 (rs_records ?s) = ([], False)" "rs_policy ?s = named_policy n" "rs_incarnations ?s = []"
    "rs_tombstones ?s = []" "rs_conflicts ?s = []" "rs_resolutions ?s = []" "rs_evictions ?s = []"
    "include_policy (export_with b) = b" "include_evictions (export_with b)"
    by (simp_all add: fresh_to_state default_state_def default_export_options_def export_with_def)
  show "json_items (export_json ?s (export_with b) now) \<le> 200"
    unfolding export_json_def Let_def s(1) prod.case
    by (rule order_trans [OF json_object_size(1)]) (cases b; simp add: s o d, use p(1) c(1) [of "rs_counters ?s"] in simp)
  show "json_weight (export_json ?s (export_with b) now) \<le> 20000 + 6 * n"
    unfolding export_json_def Let_def s(1) prod.case
    by (rule order_trans [OF json_object_size(2)]) (cases b; simp add: s o d kFormatName_def, use p(2) c(2) [of "rs_counters ?s"] in simp)
qed

lemma compact_bounds: "json_items v \<le> 1000 \<Longrightarrow> json_weight v \<le> 100000 \<Longrightarrow> document_bounds False v \<and> length (JsonValue_dump False v) \<le> 100000"
  using dump_weight [of 0 v] by (simp add: document_bounds_def JsonValue_dump_def default_json_limits_def)

lemma fresh_export:
  assumes "n \<le> 1000"
  shows "document_bounds (eo_pretty (export_with b)) (export_json (to_state (fresh n)) (export_with b) now)"
    "\<exists>r. export_registry (fresh n) (export_with b) now = Success Ok r" "complete_export (export_with True) (to_state (fresh n))"
proof -
  have "document_bounds False (export_json (to_state (fresh n)) (export_with b) now)
      \<and> length (JsonValue_dump False (export_json (to_state (fresh n)) (export_with b) now)) \<le> 100000"
    using fresh_size [of n b now] assms by (intro compact_bounds) simp_all
  then show "document_bounds (eo_pretty (export_with b)) (export_json (to_state (fresh n)) (export_with b) now)"
      "\<exists>r. export_registry (fresh n) (export_with b) now = Success Ok r"
    by (simp_all add: export_registry_def snapshot_state_def default_export_options_def export_with_def Let_def split: prod.split)
  show "complete_export (export_with True) (to_state (fresh n))"
    by (simp add: complete_export_def default_export_options_def export_with_def fresh_to_state default_state_def)
qed

theorem import_export_witness:
  "\<exists>r result. export_registry (fresh 3) (export_with True) 7 = Success Ok r \<and> import_document (er_document r) = Success Ok result
     \<and> ir_state result = to_state (fresh 3)"
proof -
  obtain r where r: "export_registry (fresh 3) (export_with True) 7 = Success Ok r" using fresh_export(2) [of 3 True 7] by auto
  have "policy_name_ok (i_policy (fresh 3))" using named_policy_ok(2) [of 3] by (simp add: fresh_policy)
  from import_export [OF fresh_doc_state fresh_export(3) this fresh_export(1) r] r show ?thesis by auto
qed

theorem incomplete_export_refused_witness:
  "\<exists>r. export_registry (fresh 3) (export_with False) 7 = Success Ok r \<and> \<not> outcome_ok (import_document (er_document r))"
proof -
  obtain r where r: "export_registry (fresh 3) (export_with False) 7 = Success Ok r" using fresh_export(2) [of 3 False 7] by auto
  have "policy_name_ok (i_policy (fresh 3))" using named_policy_ok(2) [of 3] by (simp add: fresh_policy)
  from incomplete_export_refused [OF r fresh_doc_state this fresh_export(1)] r show ?thesis by (auto simp: export_with_def)
qed

theorem import_accepts_undecodable_witness:
  "\<exists>r result. export_registry (fresh 129) (export_with True) 7 = Success Ok r \<and> import_document (er_document r) = Success Ok result
     \<and> decode_state (encode_state (ir_state result)) = Inl RejectedOversizedInput"
proof -
  obtain r where r: "export_registry (fresh 129) (export_with True) 7 = Success Ok r" using fresh_export(2) [of 129 True 7] by auto
  have n: "policy_name_ok (i_policy (fresh 129))" using named_policy_ok(2) [of 129] by (simp add: fresh_policy)
  have "length (p_policy_name (i_policy (fresh 129))) > 128" "length (p_sources (i_policy (fresh 129))) \<le> kMaxCollectionEntries"
    by (simp_all add: fresh_policy named_policy_def default_policy_def)
  from import_accepts_undecodable [OF fresh_doc_state fresh_export(3) n fresh_export(1) r this] r show ?thesis by auto
qed

theorem import_sound_witness:
  "\<exists>r result. export_registry (fresh 3) (export_with True) 7 = Success Ok r \<and> import_document (er_document r) = Success Ok result
     \<and> doc_state (ir_state result)"
proof -
  obtain r where r: "export_registry (fresh 3) (export_with True) 7 = Success Ok r" using fresh_export(2) [of 3 True 7] by auto
  have "policy_name_ok (rs_policy (to_state (fresh 3)))" using named_policy_ok(2) [of 3] by (simp add: fresh_to_state default_state_def)
  with export_registry_Success [OF r] export_parses [OF fresh_doc_state _ fresh_export(1)] import_state_json [OF fresh_export(3) fresh_doc_state]
  obtain result where i: "import_document (er_document r) = Success Ok result" by (simp add: import_document_def)
  from import_sound [OF i] r i show ?thesis by blast
qed

theorem policy_document_roundtrip_witness:
  "parse_policy_document (render_policy_document (named_policy 3) False) = Success Ok (named_policy 3)"
proof -
  have "json_items (policy_document (named_policy 3)) \<le> 1000"
    unfolding policy_document_def
    by (rule order_trans [OF json_object_size(1)]) (use policy_size(1) [of "named_policy 3"] in \<open>simp add: named_policy_def default_policy_def\<close>)
  moreover have "json_weight (policy_document (named_policy 3)) \<le> 100000"
    unfolding policy_document_def
    by (rule order_trans [OF json_object_size(2)]) (use policy_size(2) [of "named_policy 3"] in \<open>simp add: named_policy_def default_policy_def\<close>)
  ultimately have b: "document_bounds False (policy_document (named_policy 3))" using compact_bounds by blast
  have "length (p_sources (named_policy 3)) \<le> 1024" "policy_name_ok (named_policy 3)"
    using named_policy_ok(2) [of 3] by (simp_all add: named_policy_def default_policy_def)
  with policy_document_roundtrip [OF named_policy_ok(1) _ _ b] show ?thesis by blast
qed

theorem requirement_document_roundtrip_witness:
  "parse_requirement_document (render_requirement_document (sample_requirement 5) False) = Success Ok (sample_requirement 5)"
proof -
  have "json_items (requirement_document (sample_requirement 5)) \<le> 40" "length (JsonValue_dump False (requirement_document (sample_requirement 5))) \<le> 600"
    by code_simp+
  then have "document_bounds False (requirement_document (sample_requirement 5))" by (simp add: document_bounds_def default_json_limits_def)
  moreover have "Name_wf ''acme''" "Name_wf ''x1''" "semver_wf (mk_semver 1 0 0 [] [])" "FeatureSet_wf TlsRecordCrypto [Tls13]"
    "unit_valid_for_limit TlsSessions (unity UnitCount)" "limit_allowed_for TlsSessions TlsRecordCrypto"
    by code_simp+
  then have "doc_requirement (sample_requirement 5)"
    by (simp add: doc_requirement_def sample_requirement_def doc_device_ref_def device_identity_ok_def doc_id_def doc_u64_def
        limit_requirement_ok_def limit_value_ok_def)
  ultimately show ?thesis using requirement_document_roundtrip by blast
qed

end
