(* ===== verification/Protocol.thy ===== *)
theory Protocol
  imports Export
begin

text \<open>
  The framed wire protocol of \<open>include/ocreg/protocol.hpp\<close> and \<open>src/protocol.cpp\<close>: opcodes, frame headers and
  whole frames. A header is 60 bytes: magic, version, flags, opcode, a reserved field, the request id, the payload's
  length and digest, and a CRC-32C of everything before it.
\<close>

section \<open>Opcodes\<close>

definition kProtocolVersion :: u32 where "kProtocolVersion = 1"
definition kFrameMagic :: u32 where "kFrameMagic = 0x4F435046"
definition kFrameHeaderSize :: nat where "kFrameHeaderSize = 60"
definition kMaxFramePayload :: nat where "kMaxFramePayload = 4 * 1024 * 1024"

datatype OpCode = OpPing | OpStats | OpAdmit | OpRetire | OpQuery | OpEvaluate | OpExplain | OpExport | OpRevokeSource
  | OpRestoreSource | OpSetSourceAuthority | OpUpsertSourcePolicy | OpBeginDeviceIncarnation | OpCurrentIncarnation
  | OpResolveConflict | OpEvictionLedger | OpSnapshot | OpShutdown

definition OpCode_code :: "OpCode \<Rightarrow> u16" where
  "OpCode_code c = (case c of OpPing \<Rightarrow> 1 | OpStats \<Rightarrow> 2 | OpAdmit \<Rightarrow> 3 | OpRetire \<Rightarrow> 4 | OpQuery \<Rightarrow> 5 | OpEvaluate \<Rightarrow> 6
     | OpExplain \<Rightarrow> 7 | OpExport \<Rightarrow> 8 | OpRevokeSource \<Rightarrow> 9 | OpRestoreSource \<Rightarrow> 10 | OpSetSourceAuthority \<Rightarrow> 11
     | OpUpsertSourcePolicy \<Rightarrow> 12 | OpBeginDeviceIncarnation \<Rightarrow> 13 | OpCurrentIncarnation \<Rightarrow> 14 | OpResolveConflict \<Rightarrow> 15
     | OpEvictionLedger \<Rightarrow> 16 | OpSnapshot \<Rightarrow> 17 | OpShutdown \<Rightarrow> 18)"

text \<open>\<open>static_cast<OpCode>\<close> of a code already known to be in range.\<close>

definition opcode_of :: "u16 \<Rightarrow> OpCode" where
  "opcode_of raw = (if raw = 1 then OpPing else if raw = 2 then OpStats else if raw = 3 then OpAdmit else if raw = 4 then OpRetire
     else if raw = 5 then OpQuery else if raw = 6 then OpEvaluate else if raw = 7 then OpExplain else if raw = 8 then OpExport
     else if raw = 9 then OpRevokeSource else if raw = 10 then OpRestoreSource else if raw = 11 then OpSetSourceAuthority
     else if raw = 12 then OpUpsertSourcePolicy else if raw = 13 then OpBeginDeviceIncarnation
     else if raw = 14 then OpCurrentIncarnation else if raw = 15 then OpResolveConflict else if raw = 16 then OpEvictionLedger
     else if raw = 17 then OpSnapshot else OpShutdown)"

definition opcode_from :: "u16 \<Rightarrow> OpCode option" where
  "opcode_from raw = (if raw < 1 \<or> raw > OpCode_code OpShutdown then None else Some (opcode_of raw))"

definition OpCode_to_string :: "OpCode \<Rightarrow> string" where
  "OpCode_to_string c = (case c of OpPing \<Rightarrow> ''ping'' | OpStats \<Rightarrow> ''stats'' | OpAdmit \<Rightarrow> ''admit'' | OpRetire \<Rightarrow> ''retire''
     | OpQuery \<Rightarrow> ''query'' | OpEvaluate \<Rightarrow> ''evaluate'' | OpExplain \<Rightarrow> ''explain'' | OpExport \<Rightarrow> ''export''
     | OpRevokeSource \<Rightarrow> ''revoke_source'' | OpRestoreSource \<Rightarrow> ''restore_source''
     | OpSetSourceAuthority \<Rightarrow> ''set_source_authority'' | OpUpsertSourcePolicy \<Rightarrow> ''upsert_source_policy''
     | OpBeginDeviceIncarnation \<Rightarrow> ''begin_device_incarnation'' | OpCurrentIncarnation \<Rightarrow> ''current_incarnation''
     | OpResolveConflict \<Rightarrow> ''resolve_conflict'' | OpEvictionLedger \<Rightarrow> ''eviction_ledger'' | OpSnapshot \<Rightarrow> ''snapshot''
     | OpShutdown \<Rightarrow> ''shutdown'')"

definition parse_opcode :: "string \<Rightarrow> OpCode option" where
  "parse_opcode t = find (\<lambda>c. OpCode_to_string c = t) (map (\<lambda>raw. opcode_of (of_nat raw)) [1..<19])"

section \<open>Frames\<close>

definition FlagResponse :: u16 where "FlagResponse = 1"
definition FlagFailure :: u16 where "FlagFailure = 2"
definition FlagFinal :: u16 where "FlagFinal = 4"

record FrameHeader =
  fh_version :: u16
  fh_flags :: u16
  fh_opcode :: OpCode
  fh_reserved :: u16
  fh_request_id :: u64
  fh_payload_len :: u32
  fh_payload_digest :: Digest256
  fh_header_crc :: u32

definition default_frame_header :: FrameHeader where
  "default_frame_header = \<lparr>fh_version = ucast kProtocolVersion, fh_flags = 0, fh_opcode = OpPing, fh_reserved = 0,
     fh_request_id = 0, fh_payload_len = 0, fh_payload_digest = replicate kDigestBytes 0, fh_header_crc = 0\<rparr>"

record Frame =
  f_header :: FrameHeader
  f_payload :: bytes

definition is_response :: "Frame \<Rightarrow> bool" where
  "is_response f \<longleftrightarrow> fh_flags (f_header f) AND FlagResponse \<noteq> 0"

definition Frame_is_failure :: "Frame \<Rightarrow> bool" where
  "Frame_is_failure f \<longleftrightarrow> fh_flags (f_header f) AND FlagFailure \<noteq> 0"

text \<open>The fields before the checksum.\<close>

definition frame_prefix :: "FrameHeader \<Rightarrow> bytes" where
  "frame_prefix h = w_u32 kFrameMagic @ w_u16 (fh_version h) @ w_u16 (fh_flags h) @ w_u16 (OpCode_code (fh_opcode h)) @ w_u16 0
     @ w_u64 (fh_request_id h) @ w_u32 (fh_payload_len h) @ w_digest (fh_payload_digest h)"

definition encode_frame_header :: "FrameHeader \<Rightarrow> bytes option" where
  "encode_frame_header h =
     (if unat (fh_payload_len h) > kMaxFramePayload then None
      else if fh_reserved h \<noteq> 0 then None
      else (case opcode_from (OpCode_code (fh_opcode h)) of None \<Rightarrow> None
        | Some verified \<Rightarrow>
            if verified \<noteq> fh_opcode h then None
            else let buffer = frame_prefix h; buffer = buffer @ w_u32 (crc32c buffer)
              in if length buffer \<noteq> kFrameHeaderSize then None else Some buffer))"

definition decode_frame_header :: "bytes \<Rightarrow> ReasonCode + FrameHeader" where
  "decode_frame_header data =
     (if get_u32 data 0 \<noteq> kFrameMagic then Inl ProtocolFrameMalformed
      else let stored_crc = get_u32 data (kFrameHeaderSize - 4) in
      if crc32c (take (kFrameHeaderSize - 4) data) \<noteq> stored_crc then Inl ProtocolChecksumMismatch
      else if get_u16 data 4 \<noteq> ucast kProtocolVersion then Inl ProtocolVersionUnsupported
      else if get_u16 data 10 \<noteq> 0 then Inl ProtocolFrameMalformed
      else (case opcode_from (get_u16 data 8) of None \<Rightarrow> Inl ProtocolUnknownOpcode
        | Some opcode \<Rightarrow>
            if unat (get_u32 data 20) > kMaxFramePayload then Inl ProtocolFrameTooLarge
            else Inr \<lparr>fh_version = get_u16 data 4, fh_flags = get_u16 data 6, fh_opcode = opcode, fh_reserved = get_u16 data 10,
              fh_request_id = get_u64 data 12, fh_payload_len = get_u32 data 20,
              fh_payload_digest = take kDigestBytes (drop 24 data), fh_header_crc = stored_crc\<rparr>))"

text \<open>The empty vector stands for a frame that is not representable. The length is cast to 32 bits.\<close>

definition serialize_frame :: "Frame \<Rightarrow> bytes" where
  "serialize_frame fr =
     (case encode_frame_header ((f_header fr)\<lparr>fh_payload_len := of_nat (length (f_payload fr)),
         fh_payload_digest := Digest256_of (f_payload fr)\<rparr>) of
        None \<Rightarrow> [] | Some bytes \<Rightarrow> bytes @ f_payload fr)"

section \<open>Opcodes and headers are canonical\<close>

lemma opcode_of_code [simp]: "opcode_of (OpCode_code c) = c" "opcode_from (OpCode_code c) = Some c"
  by (cases c; simp add: opcode_of_def opcode_from_def OpCode_code_def)+

lemma u16_opcode: "1 \<le> raw \<Longrightarrow> raw \<le> 18 \<Longrightarrow> OpCode_code (opcode_of raw) = raw" for raw :: u16
proof -
  assume "1 \<le> raw" "raw \<le> 18"
  then have "1 \<le> unat raw" "unat raw \<le> 18" by (simp_all add: word_le_nat_alt)
  then have "unat raw \<in> {1, 2, 3, 4, 5, 6, 7, 8, 9, 10, 11, 12, 13, 14, 15, 16, 17, 18}"
    by (simp only: insert_iff empty_iff) presburger
  moreover obtain n where "raw = of_nat n" "unat raw = n" by (rule that [of "unat raw"]) simp_all
  ultimately show "OpCode_code (opcode_of raw) = raw" by (auto simp: opcode_of_def OpCode_code_def)
qed

lemma opcode_from_iff: "opcode_from raw = Some c \<longleftrightarrow> raw = OpCode_code c"
proof
  assume "opcode_from raw = Some c"
  then have "\<not> raw < 1" "\<not> raw > OpCode_code OpShutdown" "c = opcode_of raw"
    unfolding opcode_from_def by (simp_all only: if_split_eq1 option.simps de_Morgan_disj) simp_all
  then show "raw = OpCode_code c" using u16_opcode [of raw] by (simp only: not_less) (simp add: OpCode_code_def)
qed simp

lemma parse_opcode_iff: "parse_opcode t = Some c \<longleftrightarrow> t = OpCode_to_string c"
proof
  assume "parse_opcode t = Some c"
  then show "t = OpCode_to_string c" by (auto simp: parse_opcode_def List.find_Some_iff)
next
  assume "t = OpCode_to_string c"
  then show "parse_opcode t = Some c"
    by (cases c) (simp_all add: parse_opcode_def upt_rec [of _ 19] upt_rec opcode_of_def OpCode_to_string_def)
qed

definition frame_header_ok :: "FrameHeader \<Rightarrow> bool" where
  "frame_header_ok h \<longleftrightarrow> fh_version h = ucast kProtocolVersion \<and> fh_reserved h = 0 \<and> unat (fh_payload_len h) \<le> kMaxFramePayload
     \<and> digest_ok (fh_payload_digest h) \<and> fh_header_crc h = crc32c (frame_prefix h)"

definition frame_bytes :: "FrameHeader \<Rightarrow> bytes" where
  "frame_bytes h = frame_prefix h @ w_u32 (crc32c (frame_prefix h))"

lemma length_frame_prefix: "digest_ok (fh_payload_digest h) \<Longrightarrow> length (frame_prefix h) = 56"
  by (simp add: frame_prefix_def digest_ok_def kDigestBytes_def)

lemma encode_frame_header_Some:
  assumes "digest_ok (fh_payload_digest h)"
  shows "encode_frame_header h = (if unat (fh_payload_len h) \<le> kMaxFramePayload \<and> fh_reserved h = 0 then Some (frame_bytes h) else None)"
  using length_frame_prefix [OF assms]
  by (simp add: encode_frame_header_def frame_bytes_def kFrameHeaderSize_def Let_def)

lemma frame_fields:
  assumes "digest_ok (fh_payload_digest h)"
  shows "get_u32 (frame_prefix h @ r) 0 = kFrameMagic" "get_u16 (frame_prefix h @ r) 4 = fh_version h"
    "get_u16 (frame_prefix h @ r) 6 = fh_flags h" "get_u16 (frame_prefix h @ r) 8 = OpCode_code (fh_opcode h)"
    "get_u16 (frame_prefix h @ r) 10 = 0" "get_u64 (frame_prefix h @ r) 12 = fh_request_id h"
    "get_u32 (frame_prefix h @ r) 20 = fh_payload_len h" "take kDigestBytes (drop 24 (frame_prefix h @ r)) = fh_payload_digest h"
  using assms by (simp_all add: frame_prefix_def get_u16_def get_u32_def get_u64_def w_u16_def w_u32_def w_u64_def w_digest_def digest_ok_def)

lemma decode_frame_bytes:
  assumes "digest_ok (fh_payload_digest h)"
  shows "decode_frame_header (frame_bytes h @ rest) =
    (if fh_version h \<noteq> ucast kProtocolVersion then Inl ProtocolVersionUnsupported
     else if unat (fh_payload_len h) > kMaxFramePayload then Inl ProtocolFrameTooLarge
     else Inr (h\<lparr>fh_reserved := 0, fh_header_crc := crc32c (frame_prefix h)\<rparr>))"
proof -
  note f = frame_fields [OF assms, of "w_u32 (crc32c (frame_prefix h)) @ rest"]
  have same: "h\<lparr>fh_reserved := 0, fh_header_crc := c\<rparr> = \<lparr>fh_version = fh_version h, fh_flags = fh_flags h, fh_opcode = fh_opcode h,
      fh_reserved = 0, fh_request_id = fh_request_id h, fh_payload_len = fh_payload_len h,
      fh_payload_digest = fh_payload_digest h, fh_header_crc = c\<rparr>" for c
    by (cases h) simp
  have crc: "get_u32 (frame_prefix h @ w_u32 (crc32c (frame_prefix h)) @ rest) 56 = crc32c (frame_prefix h)"
    by (rule get_field) (rule length_frame_prefix [OF assms])
  show ?thesis
    unfolding same using length_frame_prefix [OF assms] f crc
    by (simp add: decode_frame_header_def frame_bytes_def kFrameHeaderSize_def Let_def)
qed

text \<open>What a header is decoded from is exactly its encoding.\<close>

lemma decode_frame_header_exact:
  assumes "decode_frame_header data = Inr h" "length data = kFrameHeaderSize"
  shows "frame_header_ok h \<and> data = frame_bytes h"
proof -
  have len: "length data = 60" using assms(2) by (simp add: kFrameHeaderSize_def)
  have g: "get_u32 data 0 = kFrameMagic" "crc32c (take 56 data) = get_u32 data 56" "get_u16 data 4 = ucast kProtocolVersion"
    "get_u16 data 10 = 0" "get_u16 data 8 = OpCode_code (fh_opcode h)" "unat (get_u32 data 20) \<le> kMaxFramePayload"
    and h: "h = \<lparr>fh_version = get_u16 data 4, fh_flags = get_u16 data 6, fh_opcode = fh_opcode h, fh_reserved = 0,
      fh_request_id = get_u64 data 12, fh_payload_len = get_u32 data 20,
      fh_payload_digest = take kDigestBytes (drop 24 data), fh_header_crc = get_u32 data 56\<rparr>"
    using assms(1) by (auto simp: decode_frame_header_def Let_def kFrameHeaderSize_def opcode_from_iff split: if_splits option.splits)
  have w: "w_u32 (get_u32 data o4) = take 4 (drop o4 data)" if "o4 \<le> 56" for o4
    using that len by (simp add: w_u32_def get_u32_def be_bytes_be_word)
  have v: "w_u16 (get_u16 data o2) = take 2 (drop o2 data)" if "o2 \<le> 58" for o2
    using that len by (simp add: w_u16_def get_u16_def be_bytes_be_word)
  have u: "w_u64 (get_u64 data 12) = take 8 (drop 12 data)" using len by (simp add: w_u64_def get_u64_def be_bytes_be_word)
  have p: "frame_prefix h = take 4 data @ take 2 (drop 4 data) @ take 2 (drop 6 data) @ take 2 (drop 8 data) @ take 2 (drop 10 data)
      @ take 8 (drop 12 data) @ take 4 (drop 20 data) @ take 32 (drop 24 data)"
    unfolding frame_prefix_def g(5) [symmetric] g(1,4) [symmetric] using w [of 0] w [of 20] v [of 4] v [of 6] v [of 8] v [of 10] u
    by (subst (1 2 3 4 5) h) (simp add: w_digest_def kDigestBytes_def)
  also have "\<dots> = take (4 + (2 + (2 + (2 + (2 + (8 + (4 + 32))))))) data" by (simp only: take_add drop_drop) simp
  also have "\<dots> = take 56 data" by simp
  finally have p: "frame_prefix h = take 56 data" .
  have "data = take 56 data @ drop 56 data" by simp
  moreover have "drop 56 data = w_u32 (get_u32 data 56)" using w [of 56] len by simp
  ultimately have "data = frame_bytes h" using g(2) by (simp add: frame_bytes_def p)
  moreover have "frame_header_ok h"
    unfolding frame_header_ok_def p using g(2,3,6) len by (subst (1 2 3 4 5) h) (simp add: digest_ok_def kDigestBytes_def)
  ultimately show ?thesis by simp
qed

lemma frame_header_ok_bytes: "frame_header_ok h \<Longrightarrow> decode_frame_header (frame_bytes h @ rest) = Inr h"
  by (cases h) (auto simp: frame_header_ok_def decode_frame_bytes)

lemma length_frame_bytes: "digest_ok (fh_payload_digest h) \<Longrightarrow> length (frame_bytes h) = kFrameHeaderSize"
  by (simp add: frame_bytes_def length_frame_prefix kFrameHeaderSize_def)

text \<open>
  C27: frame headers are canonical. A block of 60 bytes is accepted as the header h exactly when h is a well-formed header of
  this protocol version and the block is the encoding of h: every accepted block re-encodes to itself, and every header
  that is written is read back.
\<close>

theorem frame_headers_canonical:
  assumes "length data = kFrameHeaderSize"
  shows "decode_frame_header data = Inr h \<longleftrightarrow> frame_header_ok h \<and> encode_frame_header h = Some data"
proof
  assume "decode_frame_header data = Inr h"
  with decode_frame_header_exact [OF this assms] show "frame_header_ok h \<and> encode_frame_header h = Some data"
    by (simp add: encode_frame_header_Some frame_header_ok_def)
next
  assume h: "frame_header_ok h \<and> encode_frame_header h = Some data"
  then have "data = frame_bytes h" by (auto simp: encode_frame_header_Some frame_header_ok_def split: if_splits)
  with h frame_header_ok_bytes [of h "[]"] show "decode_frame_header data = Inr h" by simp
qed

text \<open>A header whose checksum field is right, at any request id.\<close>

definition sample_header :: "u64 \<Rightarrow> FrameHeader" where
  "sample_header n = (let h = default_frame_header\<lparr>fh_request_id := n\<rparr> in h\<lparr>fh_header_crc := crc32c (frame_prefix h)\<rparr>)"

lemma sample_header_ok: "frame_header_ok (sample_header n)"
  by (simp add: sample_header_def frame_header_ok_def default_frame_header_def digest_ok_def Let_def frame_prefix_def)

theorem frame_headers_canonical_witness:
  "\<exists>data. length data = kFrameHeaderSize \<and> decode_frame_header data = Inr (sample_header 7) \<and> encode_frame_header (sample_header 7) = Some data"
proof -
  have d: "digest_ok (fh_payload_digest (sample_header 7))" using sample_header_ok by (simp add: frame_header_ok_def)
  have e: "encode_frame_header (sample_header 7) = Some (frame_bytes (sample_header 7))"
    using sample_header_ok [of 7] by (simp add: encode_frame_header_Some frame_header_ok_def)
  from frame_headers_canonical [OF length_frame_bytes [OF d], of "sample_header 7"] sample_header_ok e show ?thesis
    using length_frame_bytes [OF d] by blast
qed

section \<open>Corruption\<close>

lemma get_u32_update: "i < off \<Longrightarrow> get_u32 (data[i := b]) off = get_u32 data off"
  by (simp add: get_u32_def drop_update_cancel)

text \<open>
  C28: a corrupted header is never acted on. Changing any one byte of a header that is accepted makes it refused, as malformed
  or for its checksum.
\<close>

theorem frame_corruption_detected:
  assumes "decode_frame_header data = Inr h" "length data = kFrameHeaderSize" "i < kFrameHeaderSize" "b \<noteq> data ! i"
  shows "decode_frame_header (data[i := b]) \<in> {Inl ProtocolFrameMalformed, Inl ProtocolChecksumMismatch}"
proof -
  have len: "length data = 60" using assms(2) by (simp add: kFrameHeaderSize_def)
  have crc: "crc32c (take 56 data) = get_u32 data 56"
    using assms(1) by (auto simp: decode_frame_header_def Let_def kFrameHeaderSize_def split: if_splits)
  have "crc32c (take 56 (data[i := b])) \<noteq> get_u32 (data[i := b]) 56"
  proof (cases "i < 56")
    case True
    have d: "take 56 data = take i data @ data ! i # drop (Suc i) (take 56 data)"
      using id_take_nth_drop [of i "take 56 data"] True len by simp
    have "take 56 (data[i := b]) = take i data @ b # drop (Suc i) (take 56 data)"
      using upd_conv_take_nth_drop [of i "take 56 data" b] True len by (simp add: take_update_swap)
    with d crc32c_one_byte [of "take i data" b "drop (Suc i) (take 56 data)" "data ! i"] assms(4)
    have "crc32c (take 56 (data[i := b])) \<noteq> crc32c (take 56 data)" by simp
    with True crc show ?thesis by (simp add: get_u32_update)
  next
    case False
    then have i: "i - 56 < 4" using assms(3) by (simp add: kFrameHeaderSize_def)
    have upd: "take 4 (drop 56 (data[i := b])) = (drop 56 data)[i - 56 := b]" using False len by (simp add: drop_update_swap)
    have "(drop 56 data)[i - 56 := b] ! (i - 56) = b" "drop 56 data ! (i - 56) = data ! i" using False i len by simp_all
    then have "take 4 (drop 56 (data[i := b])) \<noteq> take 4 (drop 56 data)" unfolding upd using assms(4) len by auto
    moreover have "be_bytes 4 (be_word bs :: u32) = bs" if "length bs = 4" for bs using that by (simp add: be_bytes_be_word)
    moreover have "length (take 4 (drop 56 (data[i := b]))) = 4" "length (take 4 (drop 56 data)) = 4" using len by simp_all
    ultimately have "be_word (take 4 (drop 56 (data[i := b]))) \<noteq> (be_word (take 4 (drop 56 data)) :: u32)" by metis
    with False crc show ?thesis by (simp add: get_u32_def)
  qed
  then show ?thesis by (simp add: decode_frame_header_def Let_def kFrameHeaderSize_def)
qed

theorem frame_corruption_detected_witness:
  "decode_frame_header (frame_bytes (sample_header 7)) = Inr (sample_header 7) \<and>
   decode_frame_header ((frame_bytes (sample_header 7))[0 := 0]) \<in> {Inl ProtocolFrameMalformed, Inl ProtocolChecksumMismatch}"
proof -
  have d: "digest_ok (fh_payload_digest (sample_header 7))" using sample_header_ok by (simp add: frame_header_ok_def)
  have ok: "decode_frame_header (frame_bytes (sample_header 7)) = Inr (sample_header 7)"
    using frame_header_ok_bytes [OF sample_header_ok, of 7 "[]"] by simp
  have "frame_bytes (sample_header 7) ! 0 = 0x4F"
    by (simp add: frame_bytes_def frame_prefix_def w_u32_def kFrameMagic_def be_bytes_def nth_append)
  with frame_corruption_detected [OF ok length_frame_bytes [OF d], of 0 0] ok show ?thesis by (simp add: kFrameHeaderSize_def)
qed

section \<open>Whole frames\<close>

text \<open>A frame that fits is its header and its payload, and the header describes that payload.\<close>

definition sent_header :: "FrameHeader \<Rightarrow> bytes \<Rightarrow> FrameHeader" where
  "sent_header h payload = (let s = h\<lparr>fh_payload_len := of_nat (length payload), fh_payload_digest := Digest256_of payload\<rparr>
     in s\<lparr>fh_header_crc := crc32c (frame_prefix s)\<rparr>)"

lemma sent_header_simps [simp]:
  "fh_version (sent_header h p) = fh_version h" "fh_flags (sent_header h p) = fh_flags h" "fh_opcode (sent_header h p) = fh_opcode h"
  "fh_request_id (sent_header h p) = fh_request_id h" "fh_payload_digest (sent_header h p) = Digest256_of p"
  "length p \<le> kMaxFramePayload \<Longrightarrow> unat (fh_payload_len (sent_header h p)) = length p"
  by (simp_all add: sent_header_def Let_def kMaxFramePayload_def)

lemma serialize_frame_fits:
  assumes "length (f_payload f) \<le> kMaxFramePayload" "fh_reserved (f_header f) = 0" "fh_version (f_header f) = ucast kProtocolVersion"
  shows "\<exists>head. serialize_frame f = head @ f_payload f \<and> length head = kFrameHeaderSize
    \<and> decode_frame_header head = Inr (sent_header (f_header f) (f_payload f))"
proof -
  let ?h = "(f_header f)\<lparr>fh_payload_len := of_nat (length (f_payload f)), fh_payload_digest := Digest256_of (f_payload f)\<rparr>"
  have d: "digest_ok (fh_payload_digest ?h)" by (simp add: digest_ok_def)
  have n: "unat (fh_payload_len ?h) \<le> kMaxFramePayload" using assms(1) by (simp add: kMaxFramePayload_def)
  have "serialize_frame f = frame_bytes ?h @ f_payload f"
    using n assms(2) encode_frame_header_Some [OF d] by (simp add: serialize_frame_def)
  moreover have "decode_frame_header (frame_bytes ?h @ []) = Inr (sent_header (f_header f) (f_payload f))"
    unfolding decode_frame_bytes [OF d] using n assms(2,3) by (simp add: sent_header_def Let_def)
  ultimately show ?thesis using length_frame_bytes [OF d] by auto
qed

end
