(* ===== verification/Messages.thy ===== *)
theory Messages
  imports Protocol
begin

text \<open>
  The payloads of the wire protocol (\<open>include/ocreg/protocol.hpp\<close>, \<open>src/protocol.cpp\<close>): the envelope every answer travels
  in, the requests, and the answers of the registry. Each has a writer and a decoder over the primitives of \<open>Codec\<close>; the
  reader's failure is sticky, so reads that the code checks together are checked one by one here.
\<close>

section \<open>Envelope and requests\<close>

record ResponseEnvelope =
  rv_reason :: ReasonCode
  rv_detail :: string
  rv_body :: bytes

definition encode_envelope :: "ResponseEnvelope \<Rightarrow> bytes" where
  "encode_envelope v = w_u16 (rv_reason v) @ w_str (rv_detail v) @ w_bytes (rv_body v)"

definition decode_envelope :: "ResponseEnvelope decoder" where
  "decode_envelope = dbind d_reason (\<lambda>reason. dbind d_bytes (\<lambda>detail.
     dbind (dguard (\<not> length detail > 4096) RejectedOversizedInput) (\<lambda>_. dbind d_u32 (\<lambda>len.
     dbind (dguard (\<not> unat len > kMaxFramePayload) RejectedOversizedInput) (\<lambda>_. dbind (d_times (unat len) d_u8) (\<lambda>body.
     dret \<lparr>rv_reason = reason, rv_detail = bytes_str detail, rv_body = body\<rparr>))))))"

type_synonym NowRequest = Tick
type_synonym ExplainRequest = DecisionId

record QueryRequest =
  qq_query :: CapabilityQuery
  qq_now :: Tick

record EvaluateRequest =
  vq_requirement :: CapabilityRequirement
  vq_now :: Tick

record ExportRequest =
  xq_options :: ExportOptions
  xq_now :: Tick

record SourceRequest =
  sq_source :: SourceId
  sq_now :: Tick

record AuthorityRequest =
  aq_source :: SourceId
  aq_authority :: AuthorityRank
  aq_now :: Tick

record SourcePolicyRequest =
  pq_policy :: SourcePolicy
  pq_now :: Tick

record IncarnationRequest =
  iq_device :: DeviceIdentity
  iq_now :: Tick

record ResolveConflictRequest =
  kq_conflict :: ConflictId
  kq_chosen :: EvidenceId
  kq_resolver :: SourceId
  kq_now :: Tick

definition encode_now :: "NowRequest \<Rightarrow> bytes" where "encode_now = w_u64"
definition decode_now :: "NowRequest decoder" where "decode_now = d_u64"

definition encode_query_request :: "QueryRequest \<Rightarrow> bytes" where
  "encode_query_request v = encode_device_ref (q_device (qq_query v)) @ w_u16 (kind_code (q_kind (qq_query v)))
     @ w_u64 (q_max_evidence_age (qq_query v)) @ w_boolean (q_include_history (qq_query v)) @ w_u64 (qq_now v)"

definition decode_query_request :: "QueryRequest decoder" where
  "decode_query_request = dbind decode_device_ref (\<lambda>device. dbind decode_kind (\<lambda>kind. dbind d_u64 (\<lambda>age.
     dbind d_boolean (\<lambda>history. dbind d_u64 (\<lambda>now.
     dret \<lparr>qq_query = \<lparr>q_device = device, q_kind = kind, q_max_evidence_age = age, q_include_history = history\<rparr>, qq_now = now\<rparr>)))))"

definition encode_evaluate_request :: "EvaluateRequest \<Rightarrow> bytes" where
  "encode_evaluate_request v = encode_requirement (vq_requirement v) @ w_u64 (vq_now v)"

definition decode_evaluate_request :: "EvaluateRequest decoder" where
  "decode_evaluate_request = dbind decode_requirement (\<lambda>q. dbind d_u64 (\<lambda>now. dret \<lparr>vq_requirement = q, vq_now = now\<rparr>))"

definition encode_explain_request :: "ExplainRequest \<Rightarrow> bytes" where "encode_explain_request = w_digest"
definition decode_explain_request :: "ExplainRequest decoder" where "decode_explain_request = d_digest"

definition encode_export_request :: "ExportRequest \<Rightarrow> bytes" where
  "encode_export_request v = (let p = xq_options v in w_boolean (include_history p) @ w_boolean (include_rejected p)
     @ w_boolean (include_evictions p) @ w_boolean (include_policy p) @ w_boolean (eo_pretty p)
     @ w_size (eo_max_records p) @ w_size (eo_max_bytes p) @ w_u64 (xq_now v))"

definition decode_export_request :: "ExportRequest decoder" where
  "decode_export_request = dbind d_boolean (\<lambda>history. dbind d_boolean (\<lambda>rejected. dbind d_boolean (\<lambda>evictions.
     dbind d_boolean (\<lambda>policy. dbind d_boolean (\<lambda>pretty. dbind d_size (\<lambda>max_r. dbind d_size (\<lambda>max_b. dbind d_u64 (\<lambda>now.
     dret \<lparr>xq_options = \<lparr>include_history = history, include_rejected = rejected, include_evictions = evictions,
       include_policy = policy, eo_pretty = pretty, eo_max_records = max_r, eo_max_bytes = max_b\<rparr>, xq_now = now\<rparr>))))))))"

definition encode_source_request :: "SourceRequest \<Rightarrow> bytes" where
  "encode_source_request v = w_name (sq_source v) @ w_u64 (sq_now v)"

definition decode_source_request :: "SourceRequest decoder" where
  "decode_source_request = dbind d_name (\<lambda>s. dbind d_u64 (\<lambda>now. dret \<lparr>sq_source = s, sq_now = now\<rparr>))"

definition encode_authority_request :: "AuthorityRequest \<Rightarrow> bytes" where
  "encode_authority_request v = w_name (aq_source v) @ w_u16 (AuthorityRank_code (aq_authority v)) @ w_u64 (aq_now v)"

definition decode_authority_request :: "AuthorityRequest decoder" where
  "decode_authority_request = dbind d_name (\<lambda>s. dbind (read_enum authority_from RejectedMalformedDocument) (\<lambda>a.
     dbind d_u64 (\<lambda>now. dret \<lparr>aq_source = s, aq_authority = a, aq_now = now\<rparr>)))"

definition encode_source_policy_request :: "SourcePolicyRequest \<Rightarrow> bytes" where
  "encode_source_policy_request v = encode_source_policy (pq_policy v) @ w_u64 (pq_now v)"

definition decode_source_policy_request :: "SourcePolicyRequest decoder" where
  "decode_source_policy_request = dbind decode_source_policy (\<lambda>p. dbind d_u64 (\<lambda>now. dret \<lparr>pq_policy = p, pq_now = now\<rparr>))"

definition encode_incarnation_request :: "IncarnationRequest \<Rightarrow> bytes" where
  "encode_incarnation_request v = encode_device_identity (iq_device v) @ w_u64 (iq_now v)"

definition decode_incarnation_request :: "IncarnationRequest decoder" where
  "decode_incarnation_request = dbind decode_device_identity (\<lambda>d. dbind d_u64 (\<lambda>now. dret \<lparr>iq_device = d, iq_now = now\<rparr>))"

definition encode_resolve_request :: "ResolveConflictRequest \<Rightarrow> bytes" where
  "encode_resolve_request v = w_digest (kq_conflict v) @ w_digest (kq_chosen v) @ w_name (kq_resolver v) @ w_u64 (kq_now v)"

definition decode_resolve_request :: "ResolveConflictRequest decoder" where
  "decode_resolve_request = dbind d_digest (\<lambda>c. dbind d_digest (\<lambda>e. dbind d_name (\<lambda>s. dbind d_u64 (\<lambda>now.
     dret \<lparr>kq_conflict = c, kq_chosen = e, kq_resolver = s, kq_now = now\<rparr>))))"

section \<open>Answers\<close>

record BoolResponse =
  br_value :: bool
  br_reason :: ReasonCode

record IdResponse =
  idr_incarnation :: IncarnationId
  idr_reason :: ReasonCode

record ExportResponse =
  xr_document :: string
  xr_digest :: Digest256
  xr_truncated :: bool
  xr_notes :: "ReasonCode list"

record EvictionLedgerResponse =
  elr_entries :: "EvictionEntry list"
  elr_truncated :: bool

definition encode_bool_response :: "BoolResponse \<Rightarrow> bytes" where
  "encode_bool_response v = w_boolean (br_value v) @ w_u16 (br_reason v)"

definition decode_bool_response :: "BoolResponse decoder" where
  "decode_bool_response = dbind d_boolean (\<lambda>b. dbind d_reason (\<lambda>c. dret \<lparr>br_value = b, br_reason = c\<rparr>))"

definition encode_id_response :: "IdResponse \<Rightarrow> bytes" where
  "encode_id_response v = w_u64 (idr_incarnation v) @ w_u16 (idr_reason v)"

definition decode_id_response :: "IdResponse decoder" where
  "decode_id_response = dbind d_u64 (\<lambda>i. dbind d_reason (\<lambda>c. dret \<lparr>idr_incarnation = i, idr_reason = c\<rparr>))"

definition encode_export_response :: "ExportResponse \<Rightarrow> bytes" where
  "encode_export_response v = w_str (xr_document v) @ w_digest (xr_digest v) @ w_boolean (xr_truncated v) @ w_list w_u16 (xr_notes v)"

definition decode_export_response :: "ExportResponse decoder" where
  "decode_export_response = dbind d_bytes (\<lambda>document.
     dbind (dguard (\<not> length document > kMaxFramePayload) RejectedOversizedInput) (\<lambda>_.
     dbind d_digest (\<lambda>digest. dbind d_boolean (\<lambda>truncated. dbind (d_list 64 RejectedOversizedInput d_reason) (\<lambda>ns.
     dret \<lparr>xr_document = bytes_str document, xr_digest = digest, xr_truncated = truncated, xr_notes = ns\<rparr>)))))"

definition encode_ledger_response :: "EvictionLedgerResponse \<Rightarrow> bytes" where
  "encode_ledger_response v = w_boolean (elr_truncated v) @ w_list encode_eviction (elr_entries v)"

definition decode_ledger_response :: "EvictionLedgerResponse decoder" where
  "decode_ledger_response = dbind d_boolean (\<lambda>t. dbind (read_collection decode_eviction) (\<lambda>es.
     dret \<lparr>elr_entries = es, elr_truncated = t\<rparr>))"

definition encode_fact :: "EvidenceStateFact \<Rightarrow> bytes" where
  "encode_fact v = w_digest (ef_id v) @ w_u16 (EvidenceLifecycle_code (ef_lifecycle v)) @ w_u16 (EvidenceState_code (ef_state v))
     @ w_u16 (ef_reason v) @ w_u64 (ef_observed_at v) @ w_u64 (ef_age v) @ w_u16 (AuthorityRank_code (ef_authority v))
     @ w_u64 (ef_generation v) @ encode_source_incarnation (ef_source_incarnation v) @ encode_SemVer (ef_capability_version v)
     @ encode_FeatureSet (ef_features v) @ encode_LimitSet (ef_limits v) @ w_optional encode_SemVer (ef_firmware_version v)
     @ w_optional encode_SemVer (ef_runtime_version v)"

definition decode_fact :: "EvidenceStateFact decoder" where
  "decode_fact = dbind d_digest (\<lambda>fid. dbind d_u16 (\<lambda>lifecycle. dbind d_u16 (\<lambda>state.
     dbind (doption (lifecycle_from lifecycle) RejectedMalformedDocument) (\<lambda>l.
     dbind (doption (evidence_state_from state) RejectedMalformedDocument) (\<lambda>s.
     dbind d_reason (\<lambda>reason. dbind d_u64 (\<lambda>observed. dbind d_u64 (\<lambda>age.
     dbind (read_enum authority_from RejectedMalformedDocument) (\<lambda>authority. dbind d_u64 (\<lambda>generation.
     dbind decode_source_incarnation (\<lambda>source. dbind decode_SemVer (\<lambda>version. dbind decode_FeatureSet (\<lambda>features.
     dbind decode_LimitSet (\<lambda>limits. dbind (d_optional decode_SemVer) (\<lambda>fw. dbind (d_optional decode_SemVer) (\<lambda>rt.
     dret \<lparr>ef_id = fid, ef_lifecycle = l, ef_state = s, ef_reason = reason, ef_observed_at = observed, ef_age = age,
       ef_authority = authority, ef_generation = generation, ef_source_incarnation = source, ef_capability_version = version,
       ef_features = features, ef_limits = limits, ef_firmware_version = fw, ef_runtime_version = rt\<rparr>))))))))))))))))"

text \<open>The counted list of reason codes, put into canonical order after it is read.\<close>

definition decode_reasons :: "ReasonCode list decoder" where
  "decode_reasons = dbind (d_list 4096 RejectedOversizedInput d_reason) (\<lambda>rs. dret (canonicalize_reasons rs))"

definition encode_query_result :: "QueryResult \<Rightarrow> bytes" where
  "encode_query_result v = w_u16 (DecisionKind_code (qr_kind v)) @ encode_device_ref (qr_device v)
     @ w_u16 (kind_code (qr_kind_requested v)) @ w_list w_u16 (qr_reasons v) @ w_list encode_fact (qr_facts v)
     @ w_optional w_digest (qr_selected v) @ w_optional w_digest (qr_conflict v) @ w_u64 (qr_rule_generation v)
     @ w_u64 (qr_registry_epoch v) @ w_u64 (qr_policy_revision v) @ w_u64 (qr_evaluated_at v)"

definition decode_query_result :: "QueryResult decoder" where
  "decode_query_result = dbind (read_enum decision_kind_from RejectedMalformedDocument) (\<lambda>kind. dbind decode_device_ref (\<lambda>device.
     dbind decode_kind (\<lambda>requested. dbind decode_reasons (\<lambda>reasons. dbind (read_collection decode_fact) (\<lambda>facts.
     dbind (d_optional d_digest) (\<lambda>selected. dbind (d_optional d_digest) (\<lambda>conflict. dbind d_u64 (\<lambda>rule. dbind d_u64 (\<lambda>epoch.
     dbind d_u64 (\<lambda>revision. dbind d_u64 (\<lambda>evaluated.
     dret \<lparr>qr_kind = kind, qr_device = device, qr_kind_requested = requested, qr_reasons = reasons, qr_facts = facts,
       qr_selected = selected, qr_conflict = conflict, qr_rule_generation = rule, qr_registry_epoch = epoch,
       qr_policy_revision = revision, qr_evaluated_at = evaluated\<rparr>)))))))))))"

definition encode_decision :: "CompatibilityDecision \<Rightarrow> bytes" where
  "encode_decision v = w_digest (d_id v) @ w_u16 (DecisionKind_code (d_kind v)) @ encode_device_ref (d_device v)
     @ w_u16 (kind_code (d_capability v)) @ encode_requirement (d_requirement v) @ w_list w_u16 (d_reasons v)
     @ w_list w_digest (d_evidence v) @ w_list encode_fact (d_evidence_facts v) @ w_optional w_digest (d_selected v)
     @ w_optional w_digest (d_conflict v) @ w_u16 (AuthorityRank_code (d_selected_authority v)) @ w_u64 (d_rule_generation v)
     @ w_u64 (d_registry_epoch v) @ w_u64 (d_policy_revision v) @ w_u64 (d_evaluated_at v)"

definition decode_decision :: "CompatibilityDecision decoder" where
  "decode_decision = dbind d_digest (\<lambda>did. dbind (read_enum decision_kind_from RejectedMalformedDocument) (\<lambda>kind.
     dbind decode_device_ref (\<lambda>device. dbind decode_kind (\<lambda>capability. dbind decode_requirement (\<lambda>requirement.
     dbind decode_reasons (\<lambda>reasons. dbind (read_collection d_digest) (\<lambda>evidence. dbind (read_collection decode_fact) (\<lambda>facts.
     dbind (d_optional d_digest) (\<lambda>selected. dbind (d_optional d_digest) (\<lambda>conflict.
     dbind (read_enum authority_from RejectedMalformedDocument) (\<lambda>authority. dbind d_u64 (\<lambda>rule. dbind d_u64 (\<lambda>epoch.
     dbind d_u64 (\<lambda>revision. dbind d_u64 (\<lambda>evaluated.
     dret \<lparr>d_id = did, d_kind = kind, d_device = device, d_capability = capability, d_requirement = requirement,
       d_reasons = reasons, d_evidence = evidence, d_evidence_facts = facts, d_selected = selected, d_conflict = conflict,
       d_selected_authority = authority, d_rule_generation = rule, d_registry_epoch = epoch, d_policy_revision = revision,
       d_evaluated_at = evaluated\<rparr>)))))))))))))))"

definition encode_explanation :: "Explanation \<Rightarrow> bytes" where
  "encode_explanation v = encode_decision (ex_decision v) @ w_boolean (ex_decision_available v) @ w_u16 (ex_reason v)
     @ w_list encode_source_policy (ex_involved_sources v) @ w_optional encode_conflict (ex_conflict v)
     @ w_optional encode_resolution (ex_resolution v)"

definition decode_explanation :: "Explanation decoder" where
  "decode_explanation = dbind decode_decision (\<lambda>decision. dbind d_boolean (\<lambda>available. dbind d_reason (\<lambda>reason.
     dbind (d_list 4096 RejectedOversizedInput decode_source_policy) (\<lambda>sources. dbind (d_optional decode_conflict) (\<lambda>conflict.
     dbind (d_optional decode_resolution) (\<lambda>resolution.
     dret \<lparr>ex_decision = decision, ex_involved_sources = sources, ex_conflict = conflict, ex_resolution = resolution,
       ex_decision_available = available, ex_reason = reason\<rparr>))))))"

definition encode_admission_outcome :: "AdmissionOutcome \<Rightarrow> bytes" where
  "encode_admission_outcome v = w_digest (ao_id v) @ w_u16 (EvidenceState_code (ao_state v)) @ w_u16 (ao_reason v)
     @ w_boolean (ao_idempotent v) @ w_list w_digest (ao_superseded v) @ w_list w_digest (ao_evicted v)
     @ w_optional w_digest (ao_conflict v) @ w_u64 (ao_stream_generation v) @ w_u64 (ao_conflicts_opened v)"

definition decode_admission_outcome :: "AdmissionOutcome decoder" where
  "decode_admission_outcome = dbind d_digest (\<lambda>aid. dbind (read_enum evidence_state_from RejectedMalformedDocument) (\<lambda>state.
     dbind d_reason (\<lambda>reason. dbind d_boolean (\<lambda>idem. dbind (read_collection d_digest) (\<lambda>superseded.
     dbind (read_collection d_digest) (\<lambda>evicted. dbind (d_optional d_digest) (\<lambda>conflict. dbind d_u64 (\<lambda>generation.
     dbind d_u64 (\<lambda>opened.
     dret \<lparr>ao_id = aid, ao_state = state, ao_reason = reason, ao_idempotent = idem, ao_superseded = superseded,
       ao_evicted = evicted, ao_conflict = conflict, ao_stream_generation = generation, ao_conflicts_opened = opened\<rparr>)))))))))"

definition encode_retirement_outcome :: "RetirementOutcome \<Rightarrow> bytes" where
  "encode_retirement_outcome v = encode_evidence_key (ro_key v) @ w_u64 (ro_generation v) @ w_u16 (ro_reason v)
     @ w_boolean (ro_idempotent v) @ w_list w_digest (ro_retired v) @ w_list w_digest (ro_evicted v)"

definition decode_retirement_outcome :: "RetirementOutcome decoder" where
  "decode_retirement_outcome = dbind decode_evidence_key (\<lambda>key. dbind d_u64 (\<lambda>generation. dbind d_reason (\<lambda>reason.
     dbind d_boolean (\<lambda>idem. dbind (read_collection d_digest) (\<lambda>retired. dbind (read_collection d_digest) (\<lambda>evicted.
     dret \<lparr>ro_key = key, ro_generation = generation, ro_reason = reason, ro_idempotent = idem, ro_retired = retired,
       ro_evicted = evicted\<rparr>))))))"

text \<open>
  \<open>RegistryStats\<close>: 27 counters and five generations, each 64 bits wide. \<open>codec.cpp\<close> has a second copy of this pair.
  The fields are read in the order of the structure, named here \<open>f0\<close> to \<open>f31\<close>.
\<close>

definition encode_stats :: "RegistryStats \<Rightarrow> bytes" where
  "encode_stats v = w_u64 (st_devices v) @ w_u64 (st_incarnations v) @ w_u64 (st_streams v) @ w_u64 (st_records_total v) @
     w_u64 (st_records_active v) @ w_u64 (st_records_superseded v) @ w_u64 (st_records_retired v) @
     w_u64 (st_records_rejected v) @ w_u64 (st_records_fenced v) @ w_u64 (st_records_stale v) @
     w_u64 (st_records_outranked v) @ w_u64 (st_records_evicted v) @ w_u64 (st_conflicts_open v) @
     w_u64 (st_conflicts_resolved v) @ w_u64 (st_tombstones v) @ w_u64 (st_resolutions v) @
     w_u64 (st_eviction_ledger_dropped v) @ w_u64 (st_conflicts_dropped v) @ w_u64 (st_resolutions_dropped v) @
     w_u64 (st_tombstones_dropped v) @ w_u64 (st_decisions_emitted v) @ w_u64 (st_decisions_evicted v) @
     w_u64 (st_admissions_accepted v) @ w_u64 (st_admissions_idempotent v) @ w_u64 (st_admissions_rejected v) @
     w_u64 (st_retirements_accepted v) @ w_u64 (st_retirements_rejected v) @ w_u64 (st_registry_epoch v) @
     w_u64 (st_rule_generation v) @ w_u64 (st_policy_revision v) @ w_u64 (st_boot_epoch v) @ w_u64 (st_logical_tick v)"

definition decode_stats :: "RegistryStats decoder" where
  "decode_stats =
     dbind d_u64 (\<lambda>f0. dbind d_u64 (\<lambda>f1. dbind d_u64 (\<lambda>f2. dbind d_u64 (\<lambda>f3.
     dbind d_u64 (\<lambda>f4. dbind d_u64 (\<lambda>f5. dbind d_u64 (\<lambda>f6. dbind d_u64 (\<lambda>f7.
     dbind d_u64 (\<lambda>f8. dbind d_u64 (\<lambda>f9. dbind d_u64 (\<lambda>f10. dbind d_u64 (\<lambda>f11.
     dbind d_u64 (\<lambda>f12. dbind d_u64 (\<lambda>f13. dbind d_u64 (\<lambda>f14. dbind d_u64 (\<lambda>f15.
     dbind d_u64 (\<lambda>f16. dbind d_u64 (\<lambda>f17. dbind d_u64 (\<lambda>f18. dbind d_u64 (\<lambda>f19.
     dbind d_u64 (\<lambda>f20. dbind d_u64 (\<lambda>f21. dbind d_u64 (\<lambda>f22. dbind d_u64 (\<lambda>f23.
     dbind d_u64 (\<lambda>f24. dbind d_u64 (\<lambda>f25. dbind d_u64 (\<lambda>f26. dbind d_u64 (\<lambda>f27.
     dbind d_u64 (\<lambda>f28. dbind d_u64 (\<lambda>f29. dbind d_u64 (\<lambda>f30. dbind d_u64 (\<lambda>f31.
     dret \<lparr>st_devices = f0, st_incarnations = f1, st_streams = f2, st_records_total = f3, st_records_active = f4,
       st_records_superseded = f5, st_records_retired = f6, st_records_rejected = f7, st_records_fenced = f8,
       st_records_stale = f9, st_records_outranked = f10, st_records_evicted = f11, st_conflicts_open = f12,
       st_conflicts_resolved = f13, st_tombstones = f14, st_resolutions = f15, st_eviction_ledger_dropped = f16,
       st_conflicts_dropped = f17, st_resolutions_dropped = f18, st_tombstones_dropped = f19, st_decisions_emitted = f20,
       st_decisions_evicted = f21, st_admissions_accepted = f22, st_admissions_idempotent = f23,
       st_admissions_rejected = f24, st_retirements_accepted = f25, st_retirements_rejected = f26, st_registry_epoch = f27,
       st_rule_generation = f28, st_policy_revision = f29, st_boot_epoch = f30, st_logical_tick = f31\<rparr>))))))))))))))))))))))))))))))))"

section \<open>What can be sent\<close>

definition envelope_ok :: "ResponseEnvelope \<Rightarrow> bool" where
  "envelope_ok v \<longleftrightarrow> find_entry (rv_reason v) \<noteq> None \<and> length (rv_detail v) \<le> 4096 \<and> length (rv_body v) \<le> kMaxFramePayload"

definition query_request_ok :: "QueryRequest \<Rightarrow> bool" where
  "query_request_ok v \<longleftrightarrow> device_ref_ok (q_device (qq_query v))"

definition evaluate_request_ok :: "EvaluateRequest \<Rightarrow> bool" where
  "evaluate_request_ok v \<longleftrightarrow> requirement_ok (vq_requirement v)"

definition export_request_ok :: "ExportRequest \<Rightarrow> bool" where
  "export_request_ok v \<longleftrightarrow> size_ok (eo_max_records (xq_options v)) \<and> size_ok (eo_max_bytes (xq_options v))"

definition source_request_ok :: "SourceRequest \<Rightarrow> bool" where "source_request_ok v \<longleftrightarrow> Name_wf (sq_source v)"
definition authority_request_ok :: "AuthorityRequest \<Rightarrow> bool" where "authority_request_ok v \<longleftrightarrow> Name_wf (aq_source v)"
definition policy_request_ok :: "SourcePolicyRequest \<Rightarrow> bool" where "policy_request_ok v \<longleftrightarrow> source_policy_ok (pq_policy v)"
definition incarnation_request_ok :: "IncarnationRequest \<Rightarrow> bool" where "incarnation_request_ok v \<longleftrightarrow> device_identity_ok (iq_device v)"

definition resolve_request_ok :: "ResolveConflictRequest \<Rightarrow> bool" where
  "resolve_request_ok v \<longleftrightarrow> digest_ok (kq_conflict v) \<and> digest_ok (kq_chosen v) \<and> Name_wf (kq_resolver v)"

definition known_reason :: "ReasonCode \<Rightarrow> bool" where "known_reason c \<longleftrightarrow> find_entry c \<noteq> None"

definition bool_response_ok :: "BoolResponse \<Rightarrow> bool" where "bool_response_ok v \<longleftrightarrow> known_reason (br_reason v)"
definition id_response_ok :: "IdResponse \<Rightarrow> bool" where "id_response_ok v \<longleftrightarrow> known_reason (idr_reason v)"

definition export_response_ok :: "ExportResponse \<Rightarrow> bool" where
  "export_response_ok v \<longleftrightarrow> length (xr_document v) \<le> kMaxFramePayload \<and> digest_ok (xr_digest v)
     \<and> list_all known_reason (xr_notes v) \<and> length (xr_notes v) \<le> 64"

definition ledger_response_ok :: "EvictionLedgerResponse \<Rightarrow> bool" where
  "ledger_response_ok v \<longleftrightarrow> collection_ok eviction_ok (elr_entries v)"

definition fact_ok :: "EvidenceStateFact \<Rightarrow> bool" where
  "fact_ok v \<longleftrightarrow> digest_ok (ef_id v) \<and> known_reason (ef_reason v) \<and> source_incarnation_ok (ef_source_incarnation v)
     \<and> semver_wf (ef_capability_version v) \<and> FeatureSet_ok (ef_features v) \<and> LimitSet_ok (ef_limits v)
     \<and> pred_option semver_wf (ef_firmware_version v) \<and> pred_option semver_wf (ef_runtime_version v)"

definition reasons_ok :: "ReasonCode list \<Rightarrow> bool" where
  "reasons_ok rs \<longleftrightarrow> list_all known_reason rs \<and> length rs \<le> 4096 \<and> canonicalize_reasons rs = rs"

definition query_result_ok :: "QueryResult \<Rightarrow> bool" where
  "query_result_ok v \<longleftrightarrow> device_ref_ok (qr_device v) \<and> reasons_ok (qr_reasons v) \<and> collection_ok fact_ok (qr_facts v)
     \<and> pred_option digest_ok (qr_selected v) \<and> pred_option digest_ok (qr_conflict v)"

definition decision_ok :: "CompatibilityDecision \<Rightarrow> bool" where
  "decision_ok v \<longleftrightarrow> digest_ok (d_id v) \<and> device_ref_ok (d_device v) \<and> requirement_ok (d_requirement v) \<and> reasons_ok (d_reasons v)
     \<and> collection_ok digest_ok (d_evidence v) \<and> collection_ok fact_ok (d_evidence_facts v)
     \<and> pred_option digest_ok (d_selected v) \<and> pred_option digest_ok (d_conflict v)"

definition explanation_ok :: "Explanation \<Rightarrow> bool" where
  "explanation_ok v \<longleftrightarrow> decision_ok (ex_decision v) \<and> known_reason (ex_reason v) \<and> list_all source_policy_ok (ex_involved_sources v)
     \<and> length (ex_involved_sources v) \<le> 4096 \<and> pred_option conflict_ok (ex_conflict v) \<and> pred_option resolution_ok (ex_resolution v)"

definition admission_outcome_ok :: "AdmissionOutcome \<Rightarrow> bool" where
  "admission_outcome_ok v \<longleftrightarrow> digest_ok (ao_id v) \<and> known_reason (ao_reason v) \<and> collection_ok digest_ok (ao_superseded v)
     \<and> collection_ok digest_ok (ao_evicted v) \<and> pred_option digest_ok (ao_conflict v)"

definition retirement_outcome_ok :: "RetirementOutcome \<Rightarrow> bool" where
  "retirement_outcome_ok v \<longleftrightarrow> evidence_key_ok (ro_key v) \<and> known_reason (ro_reason v) \<and> collection_ok digest_ok (ro_retired v)
     \<and> collection_ok digest_ok (ro_evicted v)"

section \<open>Canonical messages\<close>

lemma d_times_u8 [codec_iffs]: "d_times n d_u8 bs = Inr (v, rest) \<longleftrightarrow> length v = n \<and> bs = v @ rest"
proof (induction n arbitrary: bs v)
  case (Suc n)
  show ?case
  proof
    assume "d_times (Suc n) d_u8 bs = Inr (v, rest)"
    then show "length v = Suc n \<and> bs = v @ rest" by (auto simp: codec_iffs Suc.IH w_u8_def)
  next
    assume "length v = Suc n \<and> bs = v @ rest"
    then show "d_times (Suc n) d_u8 bs = Inr (v, rest)"
      by (cases v) (simp_all add: codec_iffs Suc.IH w_u8_def)
  qed
qed auto

lemma bytes_str_length [simp]: "length (bytes_str b) = length b"
  by (simp add: bytes_str_def)

lemma decode_envelope_iff [codec_iffs]:
  "decode_envelope bs = Inr (v, rest) \<longleftrightarrow> envelope_ok v \<and> bs = encode_envelope v @ rest"
proof
  assume "decode_envelope bs = Inr (v, rest)"
  then show "envelope_ok v \<and> bs = encode_envelope v @ rest"
    by (auto simp: decode_envelope_def encode_envelope_def envelope_ok_def d_bytes_iff codec_iffs w_bytes_def)
next
  assume h: "envelope_ok v \<and> bs = encode_envelope v @ rest"
  then have "unat (of_nat (length (rv_body v)) :: u32) = length (rv_body v)" by (simp add: envelope_ok_def kMaxFramePayload_def)
  with h show "decode_envelope bs = Inr (v, rest)"
    by (cases v) (auto simp: decode_envelope_def encode_envelope_def envelope_ok_def codec_iffs w_bytes_def)
qed

lemma request_iffs [codec_iffs]:
  "decode_now bs = Inr (a, rest) \<longleftrightarrow> bs = encode_now a @ rest"
  "decode_query_request bs = Inr (b, rest) \<longleftrightarrow> query_request_ok b \<and> bs = encode_query_request b @ rest"
  "decode_explain_request bs = Inr (c, rest) \<longleftrightarrow> digest_ok c \<and> bs = encode_explain_request c @ rest"
  "decode_export_request bs = Inr (d, rest) \<longleftrightarrow> export_request_ok d \<and> bs = encode_export_request d @ rest"
  "decode_source_request bs = Inr (e, rest) \<longleftrightarrow> source_request_ok e \<and> bs = encode_source_request e @ rest"
  "decode_authority_request bs = Inr (f, rest) \<longleftrightarrow> authority_request_ok f \<and> bs = encode_authority_request f @ rest"
  "decode_source_policy_request bs = Inr (g, rest) \<longleftrightarrow> policy_request_ok g \<and> bs = encode_source_policy_request g @ rest"
  "decode_incarnation_request bs = Inr (h, rest) \<longleftrightarrow> incarnation_request_ok h \<and> bs = encode_incarnation_request h @ rest"
  "decode_resolve_request bs = Inr (i, rest) \<longleftrightarrow> resolve_request_ok i \<and> bs = encode_resolve_request i @ rest"
proof -
  show "decode_query_request bs = Inr (b, rest) \<longleftrightarrow> query_request_ok b \<and> bs = encode_query_request b @ rest"
    by (cases b; cases "qq_query b")
      (auto simp: decode_query_request_def encode_query_request_def query_request_ok_def codec_iffs)
  show "decode_export_request bs = Inr (d, rest) \<longleftrightarrow> export_request_ok d \<and> bs = encode_export_request d @ rest"
    by (cases d; cases "xq_options d")
      (auto simp: decode_export_request_def encode_export_request_def export_request_ok_def codec_iffs)
qed (cases e; cases f; cases g; cases h; cases i; auto simp: decode_now_def encode_now_def decode_explain_request_def
    encode_explain_request_def decode_source_request_def encode_source_request_def source_request_ok_def
    decode_authority_request_def encode_authority_request_def authority_request_ok_def decode_source_policy_request_def
    encode_source_policy_request_def policy_request_ok_def decode_incarnation_request_def encode_incarnation_request_def
    incarnation_request_ok_def decode_resolve_request_def encode_resolve_request_def resolve_request_ok_def digest_ok_def codec_iffs)+

lemma message_part_iffs [codec_iffs]:
  "read_enum decision_kind_from r bs = Inr (a, rest) \<longleftrightarrow> bs = w_u16 (DecisionKind_code a) @ rest"
  "d_optional d_digest bs = Inr (b, rest) \<longleftrightarrow> pred_option digest_ok b \<and> bs = w_optional w_digest b @ rest"
  "read_collection d_digest bs = Inr (c, rest) \<longleftrightarrow> collection_ok digest_ok c \<and> bs = w_list w_digest c @ rest"
  "read_collection decode_eviction bs = Inr (d, rest) \<longleftrightarrow> collection_ok eviction_ok d \<and> bs = w_list encode_eviction d @ rest"
  "n < 2 ^ 32 \<Longrightarrow> d_list n r d_reason bs = Inr (e, rest) \<longleftrightarrow> (list_all known_reason e \<and> length e \<le> n) \<and> bs = w_list w_u16 e @ rest"
  "d_optional decode_conflict bs = Inr (f, rest) \<longleftrightarrow> pred_option conflict_ok f \<and> bs = w_optional encode_conflict f @ rest"
  "d_optional decode_resolution bs = Inr (g, rest) \<longleftrightarrow> pred_option resolution_ok g \<and> bs = w_optional encode_resolution g @ rest"
  "d_list 4096 r decode_source_policy bs = Inr (h, rest) \<longleftrightarrow>
     (list_all source_policy_ok h \<and> length h \<le> 4096) \<and> bs = w_list encode_source_policy h @ rest"
  by (rule read_enum_iff d_optional_iff read_collection_iff d_list_iff;
      simp add: enum_from_iffs codec_iffs digest_ok_def known_reason_def)+

lemma response_iffs [codec_iffs]:
  "decode_bool_response bs = Inr (a, rest) \<longleftrightarrow> bool_response_ok a \<and> bs = encode_bool_response a @ rest"
  "decode_id_response bs = Inr (b, rest) \<longleftrightarrow> id_response_ok b \<and> bs = encode_id_response b @ rest"
  "decode_ledger_response bs = Inr (c, rest) \<longleftrightarrow> ledger_response_ok c \<and> bs = encode_ledger_response c @ rest"
  "decode_admission_outcome bs = Inr (d, rest) \<longleftrightarrow> admission_outcome_ok d \<and> bs = encode_admission_outcome d @ rest"
  "decode_retirement_outcome bs = Inr (e, rest) \<longleftrightarrow> retirement_outcome_ok e \<and> bs = encode_retirement_outcome e @ rest"
proof -
  show "decode_bool_response bs = Inr (a, rest) \<longleftrightarrow> bool_response_ok a \<and> bs = encode_bool_response a @ rest"
    by (cases a) (auto simp: decode_bool_response_def encode_bool_response_def bool_response_ok_def known_reason_def codec_iffs)
  show "decode_id_response bs = Inr (b, rest) \<longleftrightarrow> id_response_ok b \<and> bs = encode_id_response b @ rest"
    by (cases b) (auto simp: decode_id_response_def encode_id_response_def id_response_ok_def known_reason_def codec_iffs)
  show "decode_ledger_response bs = Inr (c, rest) \<longleftrightarrow> ledger_response_ok c \<and> bs = encode_ledger_response c @ rest"
    by (cases c) (auto simp: decode_ledger_response_def encode_ledger_response_def ledger_response_ok_def codec_iffs)
  show "decode_admission_outcome bs = Inr (d, rest) \<longleftrightarrow> admission_outcome_ok d \<and> bs = encode_admission_outcome d @ rest"
    by (cases d) (auto simp: decode_admission_outcome_def encode_admission_outcome_def admission_outcome_ok_def known_reason_def
        digest_ok_def codec_iffs)
  show "decode_retirement_outcome bs = Inr (e, rest) \<longleftrightarrow> retirement_outcome_ok e \<and> bs = encode_retirement_outcome e @ rest"
    by (cases e) (auto simp: decode_retirement_outcome_def encode_retirement_outcome_def retirement_outcome_ok_def known_reason_def
        codec_iffs)
qed

lemma decode_export_response_iff [codec_iffs]:
  "decode_export_response bs = Inr (v, rest) \<longleftrightarrow> export_response_ok v \<and> bs = encode_export_response v @ rest"
proof
  assume "decode_export_response bs = Inr (v, rest)"
  then show "export_response_ok v \<and> bs = encode_export_response v @ rest"
    by (auto simp: decode_export_response_def encode_export_response_def export_response_ok_def d_bytes_iff codec_iffs digest_ok_def)
next
  assume h: "export_response_ok v \<and> bs = encode_export_response v @ rest"
  then have "length (xr_document v) < 2 ^ 32" by (simp add: export_response_ok_def kMaxFramePayload_def)
  with h show "decode_export_response bs = Inr (v, rest)"
    by (cases v) (simp add: decode_export_response_def encode_export_response_def export_response_ok_def codec_iffs digest_ok_def)
qed

lemma decode_stats_iff [codec_iffs]: "decode_stats bs = Inr (v, rest) \<longleftrightarrow> bs = encode_stats v @ rest"
proof
  assume "decode_stats bs = Inr (v, rest)"
  then show "bs = encode_stats v @ rest"
    unfolding decode_stats_def dbind_Inr dret_simps d_u64_iff
    by (elim exE conjE) (hypsubst, simp add: encode_stats_def)
next
  assume "bs = encode_stats v @ rest"
  then show "decode_stats bs = Inr (v, rest)"
    by (cases v) (simp add: decode_stats_def encode_stats_def)
qed

section \<open>Answers with versions or reason lists\<close>

lemma message_part_enc [simp]:
  "read_enum decision_kind_from r (w_u16 (DecisionKind_code a) @ rest) = Inr (a, rest)"
  "pred_option digest_ok b \<Longrightarrow> d_optional d_digest (w_optional w_digest b @ rest) = Inr (b, rest)"
  "collection_ok digest_ok c \<Longrightarrow> read_collection d_digest (w_list w_digest c @ rest) = Inr (c, rest)"
  "list_all known_reason e \<Longrightarrow> length e \<le> 4096 \<Longrightarrow> d_list 4096 r d_reason (w_list w_u16 e @ rest) = Inr (e, rest)"
  "pred_option conflict_ok f \<Longrightarrow> d_optional decode_conflict (w_optional encode_conflict f @ rest) = Inr (f, rest)"
  "pred_option resolution_ok g \<Longrightarrow> d_optional decode_resolution (w_optional encode_resolution g @ rest) = Inr (g, rest)"
  "list_all source_policy_ok h \<Longrightarrow> length h \<le> 4096 \<Longrightarrow>
     d_list 4096 r decode_source_policy (w_list encode_source_policy h @ rest) = Inr (h, rest)"
  by (simp_all add: message_part_iffs)

lemma decode_fact_enc [simp]: "fact_ok v \<Longrightarrow> decode_fact (encode_fact v @ rest) = Inr (v, rest)"
  by (cases v) (simp add: decode_fact_def encode_fact_def fact_ok_def known_reason_def optional_semver(1) enum_from_iffs digest_ok_def)

lemma decode_fact_ok: "decode_fact bs = Inr (v, rest) \<Longrightarrow> fact_ok v"
  unfolding decode_fact_def dbind_Inr dret_simps doption_Inr d_digest_iff d_reason_iff
  apply (elim exE conjE)
  apply (drule parts_ok decode_SemVer_wf optional_semver(2))+
  apply hypsubst
  apply (simp add: fact_ok_def known_reason_def digest_ok_def)
  done

lemma facts_codec:
  "collection_ok fact_ok vs \<Longrightarrow> read_collection decode_fact (w_list encode_fact vs @ rest) = Inr (vs, rest)"
  "read_collection decode_fact bs = Inr (vs, rest) \<Longrightarrow> collection_ok fact_ok vs"
  by (erule collection_enc [rotated], simp) (erule collection_dec [rotated], erule decode_fact_ok)

lemma decode_reasons_enc [simp]: "reasons_ok rs \<Longrightarrow> decode_reasons (w_list w_u16 rs @ rest) = Inr (rs, rest)"
  by (simp add: decode_reasons_def reasons_ok_def)

lemma length_canonicalize_reasons: "length (canonicalize_reasons rs) \<le> length rs"
  unfolding canonicalize_reasons_def by (rule order_trans [OF remdups_adj_length]) simp

lemma decode_reasons_ok: "decode_reasons bs = Inr (rs, rest) \<Longrightarrow> reasons_ok rs"
proof -
  assume "decode_reasons bs = Inr (rs, rest)"
  then obtain raw where "list_all known_reason raw" "length raw \<le> 4096" "rs = canonicalize_reasons raw"
    by (auto simp: decode_reasons_def codec_iffs)
  then show "reasons_ok rs"
    using length_canonicalize_reasons [of raw] by (simp add: reasons_ok_def list_all_iff canonicalize_reasons_set)
qed

lemma query_result_codec:
  "query_result_ok v \<Longrightarrow> decode_query_result (encode_query_result v @ rest) = Inr (v, rest)"
  "decode_query_result bs = Inr (v, rest) \<Longrightarrow> query_result_ok v"
proof -
  assume "query_result_ok v"
  then show "decode_query_result (encode_query_result v @ rest) = Inr (v, rest)"
    by (cases v) (simp add: decode_query_result_def encode_query_result_def query_result_ok_def facts_codec(1))
next
  assume "decode_query_result bs = Inr (v, rest)"
  then show "query_result_ok v"
    unfolding decode_query_result_def dbind_Inr dret_simps message_part_iffs
    apply (elim exE conjE)
    apply (drule decode_device_ok decode_reasons_ok facts_codec(2))+
    apply hypsubst
    apply (simp add: query_result_ok_def)
    done
qed

lemma decision_codec:
  "decision_ok v \<Longrightarrow> decode_decision (encode_decision v @ rest) = Inr (v, rest)"
  "decode_decision bs = Inr (v, rest) \<Longrightarrow> decision_ok v"
proof -
  assume "decision_ok v"
  then show "decode_decision (encode_decision v @ rest) = Inr (v, rest)"
    by (cases v) (simp add: decode_decision_def encode_decision_def decision_ok_def facts_codec(1)
        decode_requirement_enc digest_ok_def)
next
  assume "decode_decision bs = Inr (v, rest)"
  then show "decision_ok v"
    unfolding decode_decision_def dbind_Inr dret_simps message_part_iffs d_digest_iff
    apply (elim exE conjE)
    apply (drule decode_device_ok decode_requirement_ok decode_reasons_ok facts_codec(2))+
    apply hypsubst
    apply (simp add: decision_ok_def digest_ok_def)
    done
qed

lemma explanation_codec:
  "explanation_ok v \<Longrightarrow> decode_explanation (encode_explanation v @ rest) = Inr (v, rest)"
  "decode_explanation bs = Inr (v, rest) \<Longrightarrow> explanation_ok v"
  by (cases v, simp add: decode_explanation_def encode_explanation_def explanation_ok_def decision_codec(1) known_reason_def)
    (auto simp: decode_explanation_def explanation_ok_def message_part_iffs known_reason_def d_reason_iff dest: decision_codec(2))

lemma evaluate_request_codec:
  "evaluate_request_ok v \<Longrightarrow> decode_evaluate_request (encode_evaluate_request v @ rest) = Inr (v, rest)"
  "decode_evaluate_request bs = Inr (v, rest) \<Longrightarrow> evaluate_request_ok v"
  by (cases v, simp add: decode_evaluate_request_def encode_evaluate_request_def evaluate_request_ok_def decode_requirement_enc)
    (auto simp: decode_evaluate_request_def evaluate_request_ok_def dest: decode_requirement_ok)

section \<open>Every message is a codec\<close>

interpretation envelope_codec: canonical_codec encode_envelope decode_envelope envelope_ok
  by (rule canonical_codecI) (rule codec_iffs)

interpretation query_request_codec: canonical_codec encode_query_request decode_query_request query_request_ok
  by (rule canonical_codecI) (rule codec_iffs)

interpretation export_request_codec: canonical_codec encode_export_request decode_export_request export_request_ok
  by (rule canonical_codecI) (rule codec_iffs)

interpretation resolve_request_codec: canonical_codec encode_resolve_request decode_resolve_request resolve_request_ok
  by (rule canonical_codecI) (rule codec_iffs)

interpretation export_response_codec: canonical_codec encode_export_response decode_export_response export_response_ok
  by (rule canonical_codecI) (rule codec_iffs)

interpretation ledger_response_codec: canonical_codec encode_ledger_response decode_ledger_response ledger_response_ok
  by (rule canonical_codecI) (rule codec_iffs)

interpretation admission_outcome_codec: canonical_codec encode_admission_outcome decode_admission_outcome admission_outcome_ok
  by (rule canonical_codecI) (rule codec_iffs)

interpretation retirement_outcome_codec: canonical_codec encode_retirement_outcome decode_retirement_outcome retirement_outcome_ok
  by (rule canonical_codecI) (rule codec_iffs)

interpretation stats_codec: canonical_codec encode_stats decode_stats "\<lambda>_. True"
  by (rule canonical_codecI) (simp add: codec_iffs)

interpretation fact_codec: codec encode_fact decode_fact fact_ok
  by unfold_locales (simp_all add: decode_fact_ok)

interpretation query_result_codec: codec encode_query_result decode_query_result query_result_ok
  by unfold_locales (rule query_result_codec, assumption)+

interpretation decision_codec: codec encode_decision decode_decision decision_ok
  by unfold_locales (rule decision_codec, assumption)+

interpretation explanation_codec: codec encode_explanation decode_explanation explanation_ok
  by unfold_locales (rule explanation_codec, assumption)+

interpretation evaluate_request_codec: codec encode_evaluate_request decode_evaluate_request evaluate_request_ok
  by unfold_locales (rule evaluate_request_codec, assumption)+

end
