(* ===== verification/Net.thy ===== *)
theory Net
  imports Prelude
begin

text \<open>
  The blocking transfers of \<open>src/net.cpp\<close>. The operating system is a parameter: what the coming calls of \<open>recv\<close> and
  \<open>send\<close> return is a list of events, and the loops of \<open>recv_exact\<close> and \<open>send_all\<close> run over it.
\<close>

section \<open>Events and transfers\<close>

datatype IoResult = IoOk | IoClosed | IoError

text \<open>
  What \<open>recv\<close> finds: bytes that have arrived (a call takes at most as many as it asked for, the rest stays for the next),
  an interrupted call, or an error. No bytes at all, and the end of the list, are the end of the stream.
\<close>

datatype RecvEvent = Arrived bytes | RecvInterrupted | RecvFailed

fun recv_exact :: "nat \<Rightarrow> RecvEvent list \<Rightarrow> IoResult \<times> bytes \<times> RecvEvent list" where
  "recv_exact n ev = (if n = 0 then (IoOk, [], ev) else
     (case ev of [] \<Rightarrow> (IoClosed, [], [])
      | RecvInterrupted # ev' \<Rightarrow> recv_exact n ev'
      | RecvFailed # ev' \<Rightarrow> (IoError, [], ev')
      | Arrived c # ev' \<Rightarrow>
          if c = [] then (IoClosed, [], ev')
          else if length c \<le> n then (let (r, b, rest) = recv_exact (n - length c) ev' in (r, c @ b, rest))
          else (IoOk, take n c, Arrived (drop n c) # ev')))"

text \<open>What \<open>send\<close> does: take some bytes, be interrupted, or fail. At the end of the list everything left is taken.\<close>

datatype SendEvent = Took nat | SendInterrupted | SendFailed

fun send_all :: "bytes \<Rightarrow> SendEvent list \<Rightarrow> bool \<times> bytes \<times> SendEvent list" where
  "send_all bs ev = (if bs = [] then (True, [], ev) else
     (case ev of [] \<Rightarrow> (True, bs, [])
      | SendInterrupted # ev' \<Rightarrow> send_all bs ev'
      | SendFailed # ev' \<Rightarrow> (False, [], ev')
      | Took k # ev' \<Rightarrow>
          if k = 0 then (False, [], ev')
          else (let (ok, sent, rest) = send_all (drop k bs) ev' in (ok, take k bs @ sent, rest))))"

declare recv_exact.simps [simp del] send_all.simps [simp del]

lemma recv_steps [simp]:
  "recv_exact 0 ev = (IoOk, [], ev)"
  "0 < n \<Longrightarrow> recv_exact n [] = (IoClosed, [], [])"
  "0 < n \<Longrightarrow> recv_exact n (RecvInterrupted # ev) = recv_exact n ev"
  "0 < n \<Longrightarrow> recv_exact n (RecvFailed # ev) = (IoError, [], ev)"
  "0 < n \<Longrightarrow> recv_exact n (Arrived c # ev) = (if c = [] then (IoClosed, [], ev)
     else if length c \<le> n then (let (r, b, rest) = recv_exact (n - length c) ev in (r, c @ b, rest))
     else (IoOk, take n c, Arrived (drop n c) # ev))"
  by (subst recv_exact.simps, simp)+

lemma send_steps [simp]:
  "send_all [] ev = (True, [], ev)"
  "bs \<noteq> [] \<Longrightarrow> send_all bs (SendInterrupted # ev) = send_all bs ev"
  "bs \<noteq> [] \<Longrightarrow> send_all bs (SendFailed # ev) = (False, [], ev)"
  "bs \<noteq> [] \<Longrightarrow> send_all bs (Took k # ev) = (if k = 0 then (False, [], ev)
     else (let (ok, sent, rest) = send_all (drop k bs) ev in (ok, take k bs @ sent, rest)))"
  "send_all bs [] = (True, bs, [])"
  by (subst send_all.simps, simp)+

section \<open>What arrives is the stream\<close>

text \<open>The bytes the peer sent before the stream ended.\<close>

fun stream :: "RecvEvent list \<Rightarrow> bytes" where
  "stream [] = []"
| "stream (RecvInterrupted # ev) = stream ev"
| "stream (RecvFailed # ev) = []"
| "stream (Arrived c # ev) = (if c = [] then [] else c @ stream ev)"

lemma recv_exact_stream:
  "n \<le> length (stream ev) \<Longrightarrow> \<exists>rest. recv_exact n ev = (IoOk, take n (stream ev), rest) \<and> stream rest = drop n (stream ev)"
proof (induction ev arbitrary: n)
  case (Cons e ev)
  show ?case
  proof (cases e)
    case (Arrived c)
    show ?thesis
    proof (cases "n = 0 \<or> c = []")
      case False
      then have "n - length c \<le> length (stream ev)" using Cons.prems Arrived by auto
      with Cons.IH [OF this] False Arrived show ?thesis by (auto simp: Let_def)
    qed (use Cons.prems Arrived in auto)
  qed (use Cons in \<open>cases "n = 0"; auto\<close>)+
qed simp_all

lemma recv_exact_short: "length (stream ev) < n \<Longrightarrow> fst (recv_exact n ev) \<noteq> IoOk"
proof (induction ev arbitrary: n)
  case (Cons e ev)
  then show ?case
  proof (cases e)
    case (Arrived c)
    then have "c \<noteq> [] \<Longrightarrow> length (stream ev) < n - length c" using Cons.prems by auto
    with Arrived Cons.prems Cons.IH [of "n - length c"] show ?thesis
      by (cases "c = []") (auto simp: Let_def split: prod.splits)
  qed (use Cons in auto)
qed simp_all

lemma recv_exact_Ok:
  "recv_exact n ev = (IoOk, b, rest) \<longleftrightarrow> n \<le> length (stream ev) \<and> b = take n (stream ev) \<and> rest = snd (snd (recv_exact n ev))"
  using recv_exact_stream [of n ev] recv_exact_short [of ev n] by (cases "n \<le> length (stream ev)") auto

lemma stream_after: "n \<le> length (stream ev) \<Longrightarrow> stream (snd (snd (recv_exact n ev))) = drop n (stream ev)"
  using recv_exact_stream [of n ev] by auto

text \<open>A transfer sends a prefix of its buffer, and reports success exactly when the prefix is everything.\<close>

lemma send_all_prefix: "send_all bs ev = (ok, sent, rest) \<Longrightarrow> \<exists>unsent. bs = sent @ unsent \<and> (ok \<longrightarrow> unsent = [])"
proof (induction ev arbitrary: bs ok sent rest)
  case (Cons e ev)
  show ?case
  proof (cases e)
    case (Took k)
    show ?thesis
    proof (cases "bs = [] \<or> k = 0")
      case False
      obtain ok' sent' rest' where s: "send_all (drop k bs) ev = (ok', sent', rest')" by (cases "send_all (drop k bs) ev")
      with Cons.IH [OF s] obtain u where "drop k bs = sent' @ u" "ok' \<longrightarrow> u = []" by blast
      moreover have "ok = ok'" "sent = take k bs @ sent'" using False Cons.prems s Took by (simp_all add: Let_def)
      ultimately show ?thesis by (metis append_take_drop_id append.assoc)
    qed (use Cons.prems Took in \<open>cases "bs = []"; auto\<close>)
  qed (use Cons in \<open>cases "bs = []"; auto\<close>)+
qed simp

end
