(* ===== verification/Service.thy ===== *)
theory Service
  imports Messages Registry Net
begin

text \<open>
  The service of \<open>include/ocreg/service.hpp\<close> and \<open>src/service.cpp\<close>: the dispatch of a request to the registry, the loop
  that serves a connection, and the acceptor and worker threads around it.

  The engine behind the service is the state \<open>Impl\<close> of the registry. A registry operation runs under the registry's own
  lock, so a dispatched request is one step. \<open>rv\<close> below is a response envelope.
\<close>

section \<open>State\<close>

type_synonym Socket = int

record ServerOptions =
  sv_bind_address :: string
  sv_port :: u16
  sv_max_connections :: nat
  sv_max_workers :: nat
  sv_max_frame_payload :: nat
  sv_max_queued_requests :: nat
  sv_max_requests_per_connection :: nat
  sv_max_export_bytes :: nat
  sv_reuse_address :: bool

definition default_server_options :: ServerOptions where
  "default_server_options = \<lparr>sv_bind_address = ''127.0.0.1'', sv_port = 0, sv_max_connections = 16, sv_max_workers = 4,
     sv_max_frame_payload = kMaxFramePayload, sv_max_queued_requests = 256, sv_max_requests_per_connection = 0,
     sv_max_export_bytes = 32 * 1024 * 1024, sv_reuse_address = True\<rparr>"

record Service =
  s_registry :: Impl
  s_options :: ServerOptions
  s_running :: bool
  s_stopping :: bool
  s_shutdown_flag :: bool
  s_queue :: "Socket list"
  s_active :: "Socket list"
  s_requests_served :: u64
  s_connections_accepted :: u64
  s_connections_refused :: u64
  s_frames_rejected :: u64
  s_bytes_read :: u64
  s_bytes_written :: u64
  s_shutdown_requests :: u64

definition Service_init :: "Impl \<Rightarrow> ServerOptions \<Rightarrow> Service" where
  "Service_init registry options = \<lparr>s_registry = registry, s_options = options, s_running = False, s_stopping = False,
     s_shutdown_flag = False, s_queue = [], s_active = [], s_requests_served = 0, s_connections_accepted = 0,
     s_connections_refused = 0, s_frames_rejected = 0, s_bytes_read = 0, s_bytes_written = 0, s_shutdown_requests = 0\<rparr>"

section \<open>Dispatch\<close>

definition failure_envelope :: "ReasonCode \<Rightarrow> string \<Rightarrow> ResponseEnvelope" where
  "failure_envelope reason detail = \<lparr>rv_reason = reason, rv_detail = detail, rv_body = []\<rparr>"

definition success_envelope :: "ReasonCode \<Rightarrow> bytes \<Rightarrow> ResponseEnvelope" where
  "success_envelope reason body = \<lparr>rv_reason = reason, rv_detail = [], rv_body = body\<rparr>"

text \<open>A request is taken only if it decodes and nothing follows it.\<close>

definition received :: "'a decoder \<Rightarrow> bytes \<Rightarrow> 'a option" where
  "received d payload = (case d payload of Inr (v, []) \<Rightarrow> Some v | _ \<Rightarrow> None)"

definition handle :: "'a decoder \<Rightarrow> string \<Rightarrow> ('a \<Rightarrow> Service \<Rightarrow> Service \<times> ResponseEnvelope) \<Rightarrow> bytes \<Rightarrow> Service
    \<Rightarrow> Service \<times> ResponseEnvelope" where
  "handle d refused f payload s = (case received d payload of
     None \<Rightarrow> (s, failure_envelope ProtocolFrameMalformed refused) | Some request \<Rightarrow> f request s)"

definition answer :: "'a outcome \<Rightarrow> (ReasonCode \<Rightarrow> 'a \<Rightarrow> ResponseEnvelope) \<Rightarrow> ResponseEnvelope" where
  "answer result f = (case result of Failure reason detail \<Rightarrow> failure_envelope reason detail | Success code v \<Rightarrow> f code v)"

definition change_registry :: "(Impl \<Rightarrow> Impl \<times> 'a) \<Rightarrow> ('a \<Rightarrow> ResponseEnvelope) \<Rightarrow> Service \<Rightarrow> Service \<times> ResponseEnvelope" where
  "change_registry f g s = (let (i, v) = f (s_registry s) in (s\<lparr>s_registry := i\<rparr>, g v))"

definition bool_envelope :: "ReasonCode \<Rightarrow> bool \<Rightarrow> ResponseEnvelope" where
  "bool_envelope code v = success_envelope Ok (encode_bool_response \<lparr>br_value = v, br_reason = code\<rparr>)"

definition id_envelope :: "ReasonCode \<Rightarrow> IncarnationId \<Rightarrow> ResponseEnvelope" where
  "id_envelope code v = success_envelope Ok (encode_id_response \<lparr>idr_incarnation = v, idr_reason = code\<rparr>)"

definition dispatch_export :: "ExportRequest \<Rightarrow> Impl \<Rightarrow> ResponseEnvelope" where
  "dispatch_export q i =
     (let options = xq_options q;
          options = (if eo_max_bytes options = 0 then options\<lparr>eo_max_bytes := kMaxFramePayload\<rparr> else options)
      in answer (export_registry i options (xq_now q)) (\<lambda>_ r. success_envelope Ok (encode_export_response
           \<lparr>xr_document = er_document r, xr_digest = er_digest r, xr_truncated = er_truncated r, xr_notes = er_notes r\<rparr>)))"

definition dispatch_begin_incarnation :: "IncarnationRequest \<Rightarrow> Service \<Rightarrow> Service \<times> ResponseEnvelope" where
  "dispatch_begin_incarnation q = change_registry (begin_device_incarnation (iq_device q) (iq_now q)) (\<lambda>r. answer r (\<lambda>_. id_envelope AcceptedNew))"

definition dispatch_current_incarnation :: "IncarnationRequest \<Rightarrow> Service \<Rightarrow> Service \<times> ResponseEnvelope" where
  "dispatch_current_incarnation q s = (s, answer (current_incarnation (iq_device q) (s_registry s)) (\<lambda>_. id_envelope Ok))"

definition dispatch_resolve :: "ResolveConflictRequest \<Rightarrow> Service \<Rightarrow> Service \<times> ResponseEnvelope" where
  "dispatch_resolve q = change_registry (resolve_conflict (kq_conflict q) (kq_chosen q) (kq_resolver q) (kq_now q))
     (\<lambda>r. answer r (\<lambda>_ v. success_envelope Ok (encode_resolution v)))"

definition dispatch_ledger :: "NowRequest \<Rightarrow> Service \<Rightarrow> Service \<times> ResponseEnvelope" where
  "dispatch_ledger q s = (s, success_envelope Ok (encode_ledger_response
     \<lparr>elr_entries = eviction_ledger (s_registry s), elr_truncated = False\<rparr>))"

definition dispatch_snapshot :: "NowRequest \<Rightarrow> Service \<Rightarrow> Service \<times> ResponseEnvelope" where
  "dispatch_snapshot q s = (s, success_envelope Ok (w_digest (Registry_state_digest (s_registry s))))"

definition dispatch_shutdown :: "NowRequest \<Rightarrow> Service \<Rightarrow> Service \<times> ResponseEnvelope" where
  "dispatch_shutdown q s = (s\<lparr>s_shutdown_requests := s_shutdown_requests s + 1, s_shutdown_flag := True\<rparr>, bool_envelope Ok True)"

definition dispatch :: "FrameHeader \<Rightarrow> bytes \<Rightarrow> Service \<Rightarrow> Service \<times> ResponseEnvelope" where
  "dispatch header payload s =
     (case fh_opcode header of
        OpPing \<Rightarrow> handle decode_now ''ping payload rejected'' (\<lambda>_ s. (s, bool_envelope Ok True)) payload s
      | OpStats \<Rightarrow> handle decode_now ''stats payload rejected''
          (\<lambda>now s. (s, success_envelope Ok (encode_stats (stats now (s_registry s))))) payload s
      | OpAdmit \<Rightarrow> handle decode_admission ''admission payload rejected''
          (\<lambda>q. change_registry (admit q (ar_observed_at q))
             (\<lambda>r. answer r (\<lambda>_ v. success_envelope (ao_reason v) (encode_admission_outcome v)))) payload s
      | OpRetire \<Rightarrow> handle decode_retirement_request ''retirement payload rejected''
          (\<lambda>q. change_registry (retire q (rq_retired_at q))
             (\<lambda>r. answer r (\<lambda>_ v. success_envelope (ro_reason v) (encode_retirement_outcome v)))) payload s
      | OpQuery \<Rightarrow> handle decode_query_request ''query payload rejected''
          (\<lambda>q s. (s, answer (query (qq_query q) (qq_now q) (s_registry s)) (\<lambda>_ v. success_envelope Ok (encode_query_result v)))) payload s
      | OpEvaluate \<Rightarrow> handle decode_evaluate_request ''evaluation payload rejected''
          (\<lambda>q. change_registry (evaluate (vq_requirement q) (vq_now q)) (\<lambda>d. success_envelope Ok (encode_decision d))) payload s
      | OpExplain \<Rightarrow> handle decode_explain_request ''explain payload rejected''
          (\<lambda>did s. (s, answer (explain did (s_registry s)) (\<lambda>_ v. success_envelope Ok (encode_explanation v)))) payload s
      | OpExport \<Rightarrow> handle decode_export_request ''export payload rejected''
          (\<lambda>q s. (s, dispatch_export q (s_registry s))) payload s
      | OpRevokeSource \<Rightarrow> handle decode_source_request ''revoke payload rejected''
          (\<lambda>q. change_registry (revoke_source (sq_source q) (sq_now q)) (\<lambda>r. answer r bool_envelope)) payload s
      | OpRestoreSource \<Rightarrow> handle decode_source_request ''restore payload rejected''
          (\<lambda>q. change_registry (restore_source (sq_source q) (sq_now q)) (\<lambda>r. answer r bool_envelope)) payload s
      | OpSetSourceAuthority \<Rightarrow> handle decode_authority_request ''authority payload rejected''
          (\<lambda>q. change_registry (set_source_authority (aq_source q) (aq_authority q) (aq_now q)) (\<lambda>r. answer r bool_envelope)) payload s
      | OpUpsertSourcePolicy \<Rightarrow> handle decode_source_policy_request ''policy payload rejected''
          (\<lambda>q. change_registry (upsert_source_policy (pq_policy q) (pq_now q))
             (\<lambda>r. answer r (\<lambda>_ v. success_envelope Ok (encode_source_policy v)))) payload s
      | OpBeginDeviceIncarnation \<Rightarrow> handle decode_incarnation_request ''incarnation payload rejected'' dispatch_begin_incarnation payload s
      | OpCurrentIncarnation \<Rightarrow> handle decode_incarnation_request ''incarnation payload rejected'' dispatch_current_incarnation payload s
      | OpResolveConflict \<Rightarrow> handle decode_resolve_request ''resolution payload rejected'' dispatch_resolve payload s
      | OpEvictionLedger \<Rightarrow> handle decode_now ''ledger payload rejected'' dispatch_ledger payload s
      | OpSnapshot \<Rightarrow> handle decode_now ''snapshot payload rejected'' dispatch_snapshot payload s
      | OpShutdown \<Rightarrow> handle decode_now ''shutdown payload rejected'' dispatch_shutdown payload s)"

lemmas dispatch_defs = dispatch_def dispatch_begin_incarnation_def dispatch_current_incarnation_def dispatch_resolve_def
  dispatch_ledger_def dispatch_snapshot_def dispatch_shutdown_def

section \<open>Serving a connection\<close>

record Wire =
  w_incoming :: "RecvEvent list"
  w_sends :: "SendEvent list"
  w_sent :: bytes

definition recv_wire :: "nat \<Rightarrow> Wire \<Rightarrow> bytes option \<times> Wire" where
  "recv_wire n w = (case recv_exact n (w_incoming w) of (r, b, rest) \<Rightarrow>
     (if r = IoOk then Some b else None, w\<lparr>w_incoming := rest\<rparr>))"

definition send_wire :: "bytes \<Rightarrow> Wire \<Rightarrow> bool \<times> Wire" where
  "send_wire bs w = (case send_all bs (w_sends w) of (ok, sent, rest) \<Rightarrow> (ok, w\<lparr>w_sends := rest, w_sent := w_sent w @ sent\<rparr>))"

definition reply_frame :: "OpCode \<Rightarrow> u64 \<Rightarrow> u16 \<Rightarrow> ResponseEnvelope \<Rightarrow> Frame" where
  "reply_frame opcode request_id flags rv = \<lparr>f_header = default_frame_header\<lparr>fh_opcode := opcode, fh_request_id := request_id,
     fh_flags := flags\<rparr>, f_payload = encode_envelope rv\<rparr>"

definition refuse_frame :: "OpCode \<Rightarrow> u64 \<Rightarrow> ReasonCode \<Rightarrow> string \<Rightarrow> Wire \<Rightarrow> Service \<Rightarrow> Wire \<times> Service" where
  "refuse_frame opcode request_id reason detail w s =
     (let reply = reply_frame opcode request_id (FlagResponse OR FlagFailure OR FlagFinal) (failure_envelope reason detail)
      in (snd (send_wire (serialize_frame reply) w), s\<lparr>s_frames_rejected := s_frames_rejected s + 1\<rparr>))"

text \<open>The reply to a dispatched request; an envelope over the frame bound is replaced by a refusal.\<close>

definition final_reply :: "ServerOptions \<Rightarrow> FrameHeader \<Rightarrow> ResponseEnvelope \<Rightarrow> Frame \<times> bool" where
  "final_reply options header rv =
     (let flags = (FlagResponse OR FlagFinal) OR (if is_failure (rv_reason rv) then FlagFailure else 0);
          reply = reply_frame (fh_opcode header) (fh_request_id header) flags rv
      in if length (f_payload reply) > sv_max_frame_payload options
         then (reply_frame (fh_opcode header) (fh_request_id header) (flags OR FlagFailure)
                 (failure_envelope ProtocolFrameTooLarge ''response exceeds the frame bound''), True)
         else (reply, False))"

text \<open>One turn of the loop: True when the loop goes on. \<open>served\<close> counts the requests of this connection so far.\<close>

definition serve_request :: "nat \<Rightarrow> Wire \<Rightarrow> Service \<Rightarrow> bool \<times> Wire \<times> Service" where
  "serve_request served w s =
     (case recv_wire kFrameHeaderSize w of (None, w) \<Rightarrow> (False, w, s)
      | (Some header_bytes, w) \<Rightarrow>
         (let s = s\<lparr>s_bytes_read := s_bytes_read s + of_nat kFrameHeaderSize\<rparr> in
          case decode_frame_header header_bytes of
            Inl reason \<Rightarrow> (False, refuse_frame (fh_opcode default_frame_header) (fh_request_id default_frame_header) reason
              ''frame header rejected'' w s)
          | Inr header \<Rightarrow>
              if unat (fh_payload_len header) > sv_max_frame_payload (s_options s)
              then (False, w, s\<lparr>s_frames_rejected := s_frames_rejected s + 1\<rparr>)
              else (case recv_wire (unat (fh_payload_len header)) w of (None, w) \<Rightarrow> (False, w, s)
                | (Some payload, w) \<Rightarrow>
                   (let s = s\<lparr>s_bytes_read := s_bytes_read s + of_nat (length payload)\<rparr> in
                    if Digest256_of payload \<noteq> fh_payload_digest header
                    then (False, refuse_frame (fh_opcode header) (fh_request_id header) ProtocolChecksumMismatch
                      ''payload digest mismatch'' w s)
                    else let (s, rv) = dispatch header payload s;
                             (reply, replaced) = final_reply (s_options s) header rv;
                             s = (if replaced then s\<lparr>s_frames_rejected := s_frames_rejected s + 1\<rparr> else s);
                             bytes = serialize_frame reply;
                             (sent, w) = send_wire bytes w
                         in if \<not> sent then (False, w, s)
                            else (\<not> (sv_max_requests_per_connection (s_options s) \<noteq> 0
                                   \<and> Suc served \<ge> sv_max_requests_per_connection (s_options s)), w,
                              s\<lparr>s_bytes_written := s_bytes_written s + of_nat (length bytes),
                                s_requests_served := s_requests_served s + 1\<rparr>)))))"

text \<open>The loop of \<open>serve_connection\<close>: every turn that goes on has consumed a header, so the loop ends.\<close>

lemma recv_wire_Some:
  "recv_wire n w = (Some b, w') \<longleftrightarrow> n \<le> length (stream (w_incoming w)) \<and> b = take n (stream (w_incoming w))
     \<and> w' = w\<lparr>w_incoming := snd (snd (recv_exact n (w_incoming w)))\<rparr>"
  using recv_exact_Ok [of n "w_incoming w"] recv_exact_short [of "w_incoming w" n]
  by (cases "recv_exact n (w_incoming w)") (auto simp: recv_wire_def)

lemma recv_wire_None: "recv_wire n w = (None, w') \<Longrightarrow> length (stream (w_incoming w)) < n \<and> w_sent w' = w_sent w \<and> w_sends w' = w_sends w"
  using recv_exact_stream [of n "w_incoming w"]
  by (cases "recv_exact n (w_incoming w)") (auto simp: recv_wire_def not_le [symmetric] split: if_splits)

lemma recv_wire_cases:
  "n \<le> length (stream (w_incoming w)) \<Longrightarrow> \<exists>w'. recv_wire n w = (Some (take n (stream (w_incoming w))), w')
     \<and> stream (w_incoming w') = drop n (stream (w_incoming w)) \<and> w_sent w' = w_sent w \<and> w_sends w' = w_sends w"
  "length (stream (w_incoming w)) < n \<Longrightarrow> \<exists>w'. recv_wire n w = (None, w') \<and> w_sent w' = w_sent w \<and> w_sends w' = w_sends w"
proof -
  assume "n \<le> length (stream (w_incoming w))"
  then show "\<exists>w'. recv_wire n w = (Some (take n (stream (w_incoming w))), w')
     \<and> stream (w_incoming w') = drop n (stream (w_incoming w)) \<and> w_sent w' = w_sent w \<and> w_sends w' = w_sends w"
    by (auto simp: recv_wire_Some stream_after)
next
  assume "length (stream (w_incoming w)) < n"
  then show "\<exists>w'. recv_wire n w = (None, w') \<and> w_sent w' = w_sent w \<and> w_sends w' = w_sends w"
    using recv_wire_None [of n w] recv_wire_Some [of n w]
    by (cases "recv_wire n w"; cases "fst (recv_wire n w)") auto
qed

lemma send_wire_frame [simp]: "send_wire bs w = (ok, w') \<Longrightarrow> w_incoming w' = w_incoming w"
  by (auto simp: send_wire_def split: prod.splits)

text \<open>The request at the front of what a peer sends: a complete frame whose header and payload digest are right.\<close>

definition next_frame :: "ServerOptions \<Rightarrow> bytes \<Rightarrow> (FrameHeader \<times> bytes) option" where
  "next_frame options bs =
     (if length bs < kFrameHeaderSize then None
      else (case decode_frame_header (take kFrameHeaderSize bs) of Inl _ \<Rightarrow> None
        | Inr h \<Rightarrow>
            (let n = unat (fh_payload_len h); payload = take n (drop kFrameHeaderSize bs) in
             if n > sv_max_frame_payload options \<or> length bs < kFrameHeaderSize + n \<or> Digest256_of payload \<noteq> fh_payload_digest h
             then None else Some (h, payload))))"

lemma dispatch_frame [simp]:
  "s_options (fst (dispatch h p s)) = s_options s" "s_stopping (fst (dispatch h p s)) = s_stopping s"
  "s_running (fst (dispatch h p s)) = s_running s" "s_queue (fst (dispatch h p s)) = s_queue s" "s_active (fst (dispatch h p s)) = s_active s"
  by (cases "fh_opcode h"; simp add: dispatch_defs handle_def change_registry_def split: option.split prod.split)+

text \<open>A turn with no such request ends the loop and leaves the registry alone.\<close>

lemma serve_request_refuses:
  assumes "next_frame (s_options s) (stream (w_incoming w)) = None" "serve_request n w s = (go_on, w', s')"
  shows "\<not> go_on \<and> s_registry s' = s_registry s \<and> s_shutdown_flag s' = s_shutdown_flag s \<and> s_options s' = s_options s
    \<and> s_stopping s' = s_stopping s \<and> s_queue s' = s_queue s \<and> s_active s' = s_active s"
proof (cases "length (stream (w_incoming w)) < kFrameHeaderSize")
  case True
  then obtain w1 where "recv_wire kFrameHeaderSize w = (None, w1)" using recv_wire_cases(2) by blast
  then show ?thesis using assms(2) by (simp add: serve_request_def)
next
  case False
  then obtain w1 where w1: "recv_wire kFrameHeaderSize w = (Some (take kFrameHeaderSize (stream (w_incoming w))), w1)"
      "stream (w_incoming w1) = drop kFrameHeaderSize (stream (w_incoming w))"
    using recv_wire_cases(1) [of kFrameHeaderSize w] by (auto simp: not_less)
  show ?thesis
  proof (cases "decode_frame_header (take kFrameHeaderSize (stream (w_incoming w)))")
    case (Inl r)
    then show ?thesis using assms(2) w1 by (auto simp: serve_request_def refuse_frame_def Let_def)
  next
    case (Inr h)
    let ?n = "unat (fh_payload_len h)"
    show ?thesis
    proof (cases "length (stream (w_incoming w1)) < ?n")
      case True
      then obtain w2 where "recv_wire ?n w1 = (None, w2)" using recv_wire_cases(2) by blast
      then show ?thesis using assms(2) w1 Inr by (auto simp: serve_request_def Let_def split: if_splits)
    next
      case short: False
      then obtain w2 where "recv_wire ?n w1 = (Some (take ?n (stream (w_incoming w1))), w2)"
        using recv_wire_cases(1) [of ?n w1] by (auto simp: not_less)
      moreover have "\<not> length (stream (w_incoming w)) < kFrameHeaderSize + ?n" using short False w1(2) by simp
      ultimately show ?thesis
        using assms False w1 Inr by (auto simp: serve_request_def next_frame_def refuse_frame_def Let_def split: if_splits)
    qed
  qed
qed

lemma dispatch_registry:
  assumes "s_registry s = s_registry t"
  shows "s_registry (fst (dispatch h p s)) = s_registry (fst (dispatch h p t)) \<and> snd (dispatch h p s) = snd (dispatch h p t)"
  by (cases "fh_opcode h"; simp add: dispatch_defs handle_def change_registry_def assms split: option.split prod.split)

definition reply_to :: "FrameHeader \<Rightarrow> bytes \<Rightarrow> Service \<Rightarrow> Frame" where
  "reply_to h p s = fst (final_reply (s_options s) h (snd (dispatch h p s)))"

text \<open>A turn with such a request applies it to the registry and sends its reply, or as much of it as the peer takes.\<close>

lemma serve_request_applies:
  assumes "next_frame (s_options s) (stream (w_incoming w)) = Some (h, p)" "serve_request n w s = (go_on, w', s')"
  shows "s_registry s' = s_registry (fst (dispatch h p s)) \<and> s_options s' = s_options s \<and> s_stopping s' = s_stopping s
    \<and> s_queue s' = s_queue s \<and> s_active s' = s_active s
    \<and> stream (w_incoming w') = drop (kFrameHeaderSize + length p) (stream (w_incoming w))
    \<and> (\<exists>sent unsent. serialize_frame (reply_to h p s) = sent @ unsent \<and> w_sent w' = w_sent w @ sent \<and> (go_on \<longrightarrow> unsent = []))
    \<and> (w_sends w = [] \<longrightarrow> w_sends w' = [] \<and> w_sent w' = w_sent w @ serialize_frame (reply_to h p s)
        \<and> go_on = (sv_max_requests_per_connection (s_options s) = 0 \<or> Suc n < sv_max_requests_per_connection (s_options s)))"
proof -
  let ?in = "stream (w_incoming w)" let ?n = "unat (fh_payload_len h)"
  have f: "\<not> length ?in < kFrameHeaderSize" "decode_frame_header (take kFrameHeaderSize ?in) = Inr h"
    "\<not> ?n > sv_max_frame_payload (s_options s)" "\<not> length ?in < kFrameHeaderSize + ?n" "p = take ?n (drop kFrameHeaderSize ?in)"
    "Digest256_of p = fh_payload_digest h"
    using assms(1) by (auto simp: next_frame_def Let_def split: if_splits sum.splits)
  obtain w1 where w1: "recv_wire kFrameHeaderSize w = (Some (take kFrameHeaderSize ?in), w1)"
      "stream (w_incoming w1) = drop kFrameHeaderSize ?in" "w_sent w1 = w_sent w" "w_sends w1 = w_sends w"
    using recv_wire_cases(1) [of kFrameHeaderSize w] f(1) by (auto simp: not_less)
  have "?n \<le> length (stream (w_incoming w1))" using f(4) w1(2) by simp
  from recv_wire_cases(1) [OF this] obtain w2 where w2: "recv_wire ?n w1 = (Some p, w2)"
      "stream (w_incoming w2) = drop (kFrameHeaderSize + ?n) ?in" "w_sent w2 = w_sent w" "w_sends w2 = w_sends w"
    using w1 f(5) by (auto simp: add.commute)
  define s0 where "s0 = s\<lparr>s_bytes_read := s_bytes_read s + of_nat kFrameHeaderSize + of_nat (length p)\<rparr>"
  obtain s1 rv where d: "dispatch h p s0 = (s1, rv)" by (cases "dispatch h p s0")
  have s1: "s_registry s1 = s_registry (fst (dispatch h p s))" "rv = snd (dispatch h p s)" "s_options s1 = s_options s"
      "s_stopping s1 = s_stopping s" "s_queue s1 = s_queue s" "s_active s1 = s_active s"
    using dispatch_registry [of s0 s h p] dispatch_frame [of h p s0, unfolded d fst_conv] d by (simp_all add: s0_def)
  obtain reply replaced where r: "final_reply (s_options s) h rv = (reply, replaced)" by (cases "final_reply (s_options s) h rv")
  then have reply: "reply = reply_to h p s" by (simp add: reply_to_def s1(2))
  obtain ok sent left where a: "send_all (serialize_frame reply) (w_sends w) = (ok, sent, left)"
    by (cases "send_all (serialize_frame reply) (w_sends w)")
  from send_all_prefix [OF a] obtain u where u: "serialize_frame reply = sent @ u" "ok \<longrightarrow> u = []" by blast
  have sw: "send_wire (serialize_frame reply) w2 = (ok, w2\<lparr>w_sends := left, w_sent := w_sent w @ sent\<rparr>)"
    using a w2(3,4) by (simp add: send_wire_def)
  have len: "length p = ?n" using f(4,5) by simp
  note assms(2) [unfolded serve_request_def Let_def]
  then have e: "(if \<not> ok then (False, w2\<lparr>w_sends := left, w_sent := w_sent w @ sent\<rparr>,
        if replaced then s1\<lparr>s_frames_rejected := s_frames_rejected s1 + 1\<rparr> else s1)
      else (\<not> (sv_max_requests_per_connection (s_options s) \<noteq> 0 \<and> sv_max_requests_per_connection (s_options s) \<le> Suc n),
        w2\<lparr>w_sends := left, w_sent := w_sent w @ sent\<rparr>,
        (if replaced then s1\<lparr>s_frames_rejected := s_frames_rejected s1 + 1\<rparr> else s1)
          \<lparr>s_bytes_written := s_bytes_written s1 + of_nat (length (serialize_frame reply)),
           s_requests_served := s_requests_served s1 + 1\<rparr>)) = (go_on, w', s')"
    using w1(1) f(2,3,6) w2(1) d r sw s1(3) by (simp add: s0_def ac_simps split: if_splits)
  have unhindered: "w_sends w = [] \<Longrightarrow> ok \<and> left = [] \<and> sent = serialize_frame reply" using a by simp
  have "s_registry s' = s_registry s1 \<and> s_options s' = s_options s1 \<and> s_stopping s' = s_stopping s1 \<and> s_queue s' = s_queue s1
      \<and> s_active s' = s_active s1 \<and> w' = w2\<lparr>w_sends := left, w_sent := w_sent w @ sent\<rparr> \<and> (go_on \<longrightarrow> ok)
      \<and> (ok \<longrightarrow> go_on = (sv_max_requests_per_connection (s_options s) = 0 \<or> Suc n < sv_max_requests_per_connection (s_options s)))"
    using e by (cases ok; cases replaced; simp; elim conjE; hypsubst; simp add: not_le)
  with s1 u w2(2) len reply unhindered show ?thesis by auto
qed

function serve_loop :: "nat \<Rightarrow> Wire \<Rightarrow> Service \<Rightarrow> Wire \<times> Service" where
  "serve_loop served w s = (if s_stopping s then (w, s) else
     (case serve_request served w s of (go_on, w', s') \<Rightarrow> if go_on then serve_loop (Suc served) w' s' else (w', s')))"
  by pat_completeness auto

lemma serve_request_consumes:
  assumes "serve_request n w s = (True, w', s')"
  shows "length (stream (w_incoming w')) < length (stream (w_incoming w))"
proof -
  obtain h p where f: "next_frame (s_options s) (stream (w_incoming w)) = Some (h, p)"
    using serve_request_refuses [OF _ assms] by (cases "next_frame (s_options s) (stream (w_incoming w))") auto
  then have "kFrameHeaderSize \<le> length (stream (w_incoming w))" by (auto simp: next_frame_def split: if_splits)
  then show ?thesis using serve_request_applies [OF f assms] by (simp add: kFrameHeaderSize_def)
qed

termination serve_loop
  by (relation "measure (\<lambda>(served, w, s). length (stream (w_incoming w)))") (auto dest: serve_request_consumes [OF sym])

declare serve_loop.simps [simp del]

definition serve_connection :: "Socket \<Rightarrow> Wire \<Rightarrow> Service \<Rightarrow> Wire \<times> Service" where
  "serve_connection socket w s = (let (w, s) = serve_loop 0 w s in (w, s\<lparr>s_active := removeAll socket (s_active s)\<rparr>))"

section \<open>A connection applies its valid frames in order\<close>

function valid_frames :: "ServerOptions \<Rightarrow> bytes \<Rightarrow> (FrameHeader \<times> bytes) list" where
  "valid_frames options bs = (case next_frame options bs of None \<Rightarrow> []
     | Some (h, p) \<Rightarrow> (h, p) # valid_frames options (drop (kFrameHeaderSize + length p) bs))"
  by pat_completeness auto

termination valid_frames
  by (relation "measure (\<lambda>(options, bs). length bs)")
    (auto simp: next_frame_def kFrameHeaderSize_def Let_def split: if_splits sum.splits)

declare valid_frames.simps [simp del]

definition registry_after :: "FrameHeader \<times> bytes \<Rightarrow> Impl \<Rightarrow> Impl" where
  "registry_after f i = s_registry (fst (dispatch (fst f) (snd f) (Service_init i default_server_options)))"

lemma registry_after_dispatch: "s_registry (fst (dispatch h p s)) = registry_after (h, p) (s_registry s)"
  unfolding registry_after_def using dispatch_registry [of s "Service_init (s_registry s) default_server_options" h p]
  by (simp add: Service_init_def)

lemma serve_loop_prefix:
  "serve_loop n w s = (w', s') \<Longrightarrow>
   (\<exists>k. s_registry s' = fold registry_after (take k (valid_frames (s_options s) (stream (w_incoming w)))) (s_registry s))
   \<and> (\<not> s_stopping s \<and> w_sends w = [] \<and> sv_max_requests_per_connection (s_options s) = 0 \<longrightarrow>
       s_registry s' = fold registry_after (valid_frames (s_options s) (stream (w_incoming w))) (s_registry s))"
proof (induction n w s arbitrary: w' s' rule: serve_loop.induct)
  case (1 n w s)
  show ?case
  proof (cases "s_stopping s")
    case True
    with "1.prems" have "s_registry s' = s_registry s" by (simp add: serve_loop.simps [of n w s])
    then show ?thesis using True by (auto intro: exI [of _ 0])
  next
    case False
    obtain g w1 s1 where r: "serve_request n w s = (g, w1, s1)" by (cases "serve_request n w s")
    show ?thesis
    proof (cases "next_frame (s_options s) (stream (w_incoming w))")
      case None
      then have "s_registry s' = s_registry s"
        using serve_request_refuses [OF None r] "1.prems" False r by (simp add: serve_loop.simps [of n w s])
      then show ?thesis using None by (auto intro: exI [of _ 0] simp: valid_frames.simps [of "s_options s" "stream (w_incoming w)"])
    next
      case (Some f)
      obtain h p where f: "f = (h, p)" by (cases f)
      note a = serve_request_applies [OF Some [unfolded f] r]
      have v: "valid_frames (s_options s) (stream (w_incoming w)) = (h, p) # valid_frames (s_options s1) (stream (w_incoming w1))"
        using Some f a by (simp add: valid_frames.simps [of "s_options s" "stream (w_incoming w)"])
      have i: "s_registry s1 = registry_after (h, p) (s_registry s)" using a by (simp add: registry_after_dispatch)
      show ?thesis
      proof (cases g)
        case True
        then have "serve_loop (Suc n) w1 s1 = (w', s')" using "1.prems" False r by (simp add: serve_loop.simps [of n w s])
        note ih = "1.IH" [OF False r [symmetric] refl True this]
        from ih obtain k where "s_registry s' = fold registry_after (take k (valid_frames (s_options s1) (stream (w_incoming w1)))) (s_registry s1)"
          by blast
        then have "s_registry s' = fold registry_after (take (Suc k) (valid_frames (s_options s) (stream (w_incoming w)))) (s_registry s)"
          by (simp add: v i)
        moreover have "s_options s1 = s_options s" "s_stopping s1 = s_stopping s" "w_sends w = [] \<Longrightarrow> w_sends w1 = []" using a by blast+
        then have "\<not> s_stopping s \<and> w_sends w = [] \<and> sv_max_requests_per_connection (s_options s) = 0 \<longrightarrow>
            s_registry s' = fold registry_after (valid_frames (s_options s) (stream (w_incoming w))) (s_registry s)"
          using conjunct2 [OF ih] by (simp add: v i)
        ultimately show ?thesis by blast
      next
        case stop: False
        then have "s' = s1" using "1.prems" False r by (simp add: serve_loop.simps [of n w s])
        then have "s_registry s' = fold registry_after (take 1 (valid_frames (s_options s) (stream (w_incoming w)))) (s_registry s)"
          by (simp add: v i)
        then show ?thesis using a stop by blast
      qed
    qed
  qed
qed

text \<open>
  C4: a connection is served as the sequence of its valid frames. Whatever bytes a peer sends and however the network splits
  them, the registry afterwards is the one that results from applying, in order, the requests of the first complete and
  uncorrupted frames, and nothing else; all of them, when the peer takes every reply and the options set no limit on the
  requests of a connection. The first frame that is incomplete, oversized or corrupt ends the connection.
\<close>

theorem serve_connection_refines:
  assumes "serve_connection socket w s = (w', s')" "frames = valid_frames (s_options s) (stream (w_incoming w))"
  shows "(\<exists>k. s_registry s' = fold registry_after (take k frames) (s_registry s))
    \<and> (\<not> s_stopping s \<and> w_sends w = [] \<and> sv_max_requests_per_connection (s_options s) = 0 \<longrightarrow>
        s_registry s' = fold registry_after frames (s_registry s))"
proof -
  obtain w1 s1 where "serve_loop 0 w s = (w1, s1)" by (cases "serve_loop 0 w s")
  then show ?thesis
    using serve_loop_prefix [of 0 w s w1 s1] assms by (auto simp: serve_connection_def)
qed

end
