(* ===== verification/ServiceProps.thy ===== *)
theory ServiceProps
  imports Service
begin

text \<open>
  The threads of \<open>src/service.cpp\<close> as a transition system over the service and the connections being served, and what
  holds in every state of it, for every interleaving of the acceptor, the workers and a stop.
\<close>

section \<open>Requests are registry steps\<close>

text \<open>The admission a frame carries has a content id that collides with no record of another stream.\<close>

definition no_collision :: "Impl \<Rightarrow> FrameHeader \<times> bytes \<Rightarrow> bool" where
  "no_collision i f \<longleftrightarrow> (fh_opcode (fst f) = OpAdmit \<longrightarrow>
     (case received decode_admission (snd f) of None \<Rightarrow> True | Some q \<Rightarrow> collision_free i q))"

lemma change_registry_fst [simp]: "s_registry (fst (change_registry f g s)) = fst (f (s_registry s))"
  by (simp add: change_registry_def split: prod.split)

lemma registry_after_steps:
  assumes "no_collision i f"
  shows "step\<^sup>*\<^sup>* i (registry_after f i)"
proof -
  obtain h p where f: "f = (h, p)" by (cases f)
  note s = r_into_rtranclp [of step]
  have init: "s_registry (Service_init i default_server_options) = i" by (simp add: Service_init_def)
  show ?thesis
    using assms unfolding f registry_after_def fst_conv snd_conv dispatch_defs handle_def
    by (cases "fh_opcode h")
      (auto simp: init no_collision_def split: option.split intro!: s intro: step.intros)
qed

section \<open>Threads\<close>

text \<open>What the acceptor does with an accepted socket.\<close>

definition accept_socket :: "Socket \<Rightarrow> Service \<Rightarrow> Service" where
  "accept_socket socket s =
     (if length (s_active s) + length (s_queue s) < sv_max_connections (s_options s)
      then s\<lparr>s_queue := s_queue s @ [socket], s_connections_accepted := s_connections_accepted s + 1\<rparr>
      else s\<lparr>s_connections_refused := s_connections_refused s + 1\<rparr>)"

text \<open>
  A woken worker takes the first queued socket; the connection is served unless the service is stopping, in which case it
  is closed at once and the worker leaves.
\<close>

definition take_socket :: "Service \<Rightarrow> (Socket option \<times> Service) option" where
  "take_socket s = (case s_queue s of [] \<Rightarrow> None
     | socket # rest \<Rightarrow>
        (let s = s\<lparr>s_queue := rest, s_active := s_active s @ [socket]\<rparr> in
         if s_stopping s then Some (None, s\<lparr>s_active := removeAll socket (s_active s)\<rparr>) else Some (Some socket, s)))"

text \<open>\<open>Service::start\<close>; \<open>listened\<close> is what \<open>listen_on\<close> returned.\<close>

definition Service_start :: "u16 outcome \<Rightarrow> Service \<Rightarrow> Service \<times> u16 outcome" where
  "Service_start listened s =
     (if s_running s then (s, Failure AlreadyPresent ''service is already running'')
      else let s = s\<lparr>s_stopping := False, s_shutdown_flag := False\<rparr> in
        (case listened of Failure reason detail \<Rightarrow> (s, Failure reason detail)
         | Success c port \<Rightarrow> (s\<lparr>s_running := True\<rparr>, Success Ok port)))"

definition worker_count :: "ServerOptions \<Rightarrow> nat" where
  "worker_count options = (if sv_max_workers options = 0 then 1 else sv_max_workers options)"

text \<open>The three critical sections of \<open>Service::stop\<close>: the flag, the sweep of the queue, and the end.\<close>

definition begin_stop :: "Service \<Rightarrow> Service" where
  "begin_stop s = (if s_stopping s then s else s\<lparr>s_stopping := True, s_running := False\<rparr>)"

definition sweep_queue :: "Service \<Rightarrow> Service" where
  "sweep_queue s = s\<lparr>s_queue := []\<rparr>"

definition wait_for_shutdown :: "Service \<Rightarrow> bool" where
  "wait_for_shutdown s \<longleftrightarrow> s_shutdown_flag s \<or> s_stopping s"

text \<open>
  The running system: the service, the connection each busy worker serves with the number of requests served on it, and
  the workers that wait. A handle that is in use is never handed out again by \<open>accept\<close>. The acceptor and the serving loop
  test the stop flag before they block, so a socket can still be queued and a request still be served after a stop began.
\<close>

record System =
  y_service :: Service
  y_serving :: "Socket \<Rightarrow> (nat \<times> Wire) option"
  y_idle :: nat

definition front :: "Wire \<Rightarrow> Service \<Rightarrow> (FrameHeader \<times> bytes) option" where
  "front w s = next_frame (s_options s) (stream (w_incoming w))"

inductive service_step :: "System \<Rightarrow> System \<Rightarrow> bool" where
  accepts: "socket \<notin> set (s_queue (y_service y)) \<union> set (s_active (y_service y)) \<Longrightarrow>
    service_step y (y\<lparr>y_service := accept_socket socket (y_service y)\<rparr>)"
| takes: "take_socket (y_service y) = Some (Some socket, s') \<Longrightarrow> 0 < y_idle y \<Longrightarrow>
    service_step y \<lparr>y_service = s', y_serving = (y_serving y)(socket \<mapsto> (0, w)), y_idle = y_idle y - 1\<rparr>"
| leaves: "take_socket (y_service y) = Some (None, s') \<Longrightarrow> 0 < y_idle y \<Longrightarrow>
    service_step y (y\<lparr>y_service := s', y_idle := y_idle y - 1\<rparr>)"
| turns: "y_serving y socket = Some (n, w) \<Longrightarrow>
    pred_option (no_collision (s_registry (y_service y))) (front w (y_service y)) \<Longrightarrow>
    serve_request n w (y_service y) = (True, w', s') \<Longrightarrow>
    service_step y (y\<lparr>y_service := s', y_serving := (y_serving y)(socket \<mapsto> (Suc n, w'))\<rparr>)"
| ends: "y_serving y socket = Some (n, w) \<Longrightarrow>
    s_stopping (y_service y) \<and> s' = y_service y
      \<or> pred_option (no_collision (s_registry (y_service y))) (front w (y_service y)) \<and> serve_request n w (y_service y) = (False, w', s') \<Longrightarrow>
    service_step y \<lparr>y_service = s'\<lparr>s_active := removeAll socket (s_active s')\<rparr>, y_serving = (y_serving y)(socket := None), y_idle = Suc (y_idle y)\<rparr>"
| stops: "service_step y (y\<lparr>y_service := begin_stop (y_service y)\<rparr>)"
| sweeps: "s_stopping (y_service y) \<Longrightarrow> service_step y (y\<lparr>y_service := sweep_queue (y_service y)\<rparr>)"

definition System_start :: "Impl \<Rightarrow> ServerOptions \<Rightarrow> System" where
  "System_start i options = \<lparr>y_service = (Service_init i options)\<lparr>s_running := True\<rparr>, y_serving = (\<lambda>_. None),
     y_idle = worker_count options\<rparr>"

definition system_inv :: "Impl \<Rightarrow> ServerOptions \<Rightarrow> System \<Rightarrow> bool" where
  "system_inv i options y \<longleftrightarrow> s_options (y_service y) = options \<and> step\<^sup>*\<^sup>* i (s_registry (y_service y))
     \<and> length (s_active (y_service y)) + length (s_queue (y_service y)) \<le> sv_max_connections options
     \<and> length (s_active (y_service y)) + y_idle y \<le> worker_count options
     \<and> dom (y_serving y) = set (s_active (y_service y)) \<and> distinct (s_active (y_service y) @ s_queue (y_service y))"

lemma serve_request_step:
  assumes "serve_request n w s = (g, w', s')" "pred_option (no_collision (s_registry s)) (front w s)"
  shows "step\<^sup>*\<^sup>* (s_registry s) (s_registry s') \<and> s_options s' = s_options s \<and> s_stopping s' = s_stopping s \<and> s_queue s' = s_queue s
    \<and> s_active s' = s_active s"
proof (cases "front w s")
  case None
  then show ?thesis using serve_request_refuses [OF _ assms(1)] by (simp add: front_def)
next
  case (Some f)
  obtain h p where f: "f = (h, p)" by (cases f)
  note a = serve_request_applies [OF Some [unfolded front_def f] assms(1)]
  have "no_collision (s_registry s) (h, p)" using assms(2) Some f by simp
  from registry_after_steps [OF this] a show ?thesis by (simp add: registry_after_dispatch)
qed

lemma system_start_inv: "system_inv i options (System_start i options)"
  by (simp add: system_inv_def System_start_def Service_init_def)

lemma take_socket_Some:
  assumes "take_socket s = Some (r, s')"
  shows "\<exists>socket rest. s_queue s = socket # rest \<and> s_queue s' = rest \<and> s_registry s' = s_registry s \<and> s_options s' = s_options s
    \<and> (if s_stopping s then r = None \<and> s_active s' = removeAll socket (s_active s) else r = Some socket \<and> s_active s' = s_active s @ [socket])"
  using assms by (auto simp: take_socket_def Let_def split: list.splits if_splits)

lemma removeAll_length: "x \<in> set xs \<Longrightarrow> Suc (length (removeAll x xs)) \<le> length xs"
  by (induction xs) (auto simp: le_SucI length_removeAll_less_eq)

lemma system_step_inv:
  assumes "service_step y y'" "system_inv i options y"
  shows "system_inv i options y'"
  using assms
proof cases
  case (takes socket s' w)
  from take_socket_Some [OF takes(2)] assms(2) takes show ?thesis by (auto simp: system_inv_def split: if_splits)
next
  case (leaves s')
  from take_socket_Some [OF leaves(2)] assms(2) leaves show ?thesis
    by (auto simp: system_inv_def split: if_splits)
next
  case (turns socket n w w' s')
  from serve_request_step [OF turns(4,3)] assms(2) turns(1,2) show ?thesis
    by (auto simp: system_inv_def dom_def insert_absorb)
next
  case (ends socket n w s' w')
  have "step\<^sup>*\<^sup>* (s_registry (y_service y)) (s_registry s') \<and> s_options s' = s_options (y_service y) \<and> s_queue s' = s_queue (y_service y)
      \<and> s_active s' = s_active (y_service y)"
    using ends(3) serve_request_step by blast
  moreover have "socket \<in> set (s_active (y_service y))" using assms(2) ends(2) by (auto simp: system_inv_def)
  ultimately show ?thesis
    using assms(2) ends(1) removeAll_length [of socket "s_active (y_service y)"]
    by (auto simp: system_inv_def intro: rtranclp_trans dest: distinct_removeAll)
qed (auto simp: system_inv_def accept_socket_def begin_stop_def sweep_queue_def)

text \<open>
  C3: the service keeps its bounds and the registry's invariant under every interleaving. In every state the acceptor, the
  workers and a stop can reach from a started service, no more connections are open than the options allow, no more are
  served than there are workers, every served connection is an active one, and the registry is one that the engine's own
  operations reach.
\<close>

theorem service_invariant:
  assumes "service_step\<^sup>*\<^sup>* (System_start i options) y" "reachable p i"
  shows "length (s_active (y_service y)) + length (s_queue (y_service y)) \<le> sv_max_connections options
    \<and> length (s_active (y_service y)) + y_idle y \<le> worker_count options
    \<and> dom (y_serving y) = set (s_active (y_service y)) \<and> reachable p (s_registry (y_service y))"
proof -
  from assms(1) have "system_inv i options y"
    by (induction rule: rtranclp_induct) (auto intro: system_start_inv system_step_inv)
  with assms(2) show ?thesis by (auto simp: system_inv_def reachable_def intro: rtranclp_trans)
qed

end
