(* ===== verification/RequestForms.thy ===== *)
theory RequestForms
  imports Messages
begin

text \<open>
  Which requests the decoders of \<open>src/codec.cpp\<close> refuse. A caller can put any limits, features, generation and
  validity window in a requirement or an admission request; its encoding is decoded back when the request
  satisfies the codec's conditions and refused in every other case, never taken for another request.
\<close>

section \<open>Encodings of a fixed length\<close>

lemma word_prefix [simp]: "w_u32 (a :: u32) @ r = w_u32 b @ s \<longleftrightarrow> a = b \<and> r = s" "w_u64 (c :: u64) @ r = w_u64 d @ s \<longleftrightarrow> c = d \<and> r = s"
  "w_u16 (e :: u16) @ r = w_u16 f @ s \<longleftrightarrow> e = f \<and> r = s" "w_u8 (g :: u8) @ r = w_u8 h @ s \<longleftrightarrow> g = h \<and> r = s"
  by (metis primitive_enc(3) Inr_inject prod.inject, metis primitive_enc(4) Inr_inject prod.inject,
      metis primitive_enc(2) Inr_inject prod.inject, metis primitive_enc(1) Inr_inject prod.inject)

lemma scale_code_inj: "UnitScale_code a = UnitScale_code b \<longleftrightarrow> a = b"
  by (cases a; cases b; simp)

lemma limit_prefix:
  "encode_Unit u @ r = encode_Unit u' @ s \<longleftrightarrow> u = u' \<and> r = s"
  "encode_LimitValue v @ r = encode_LimitValue v' @ s \<longleftrightarrow> v = v' \<and> r = s"
  "encode_LimitRequirement l @ r = encode_LimitRequirement l' @ s \<longleftrightarrow> l = l' \<and> r = s"
proof -
  show u: "encode_Unit u @ r = encode_Unit u' @ s \<longleftrightarrow> u = u' \<and> r = s" for u u' r s
    by (cases u; cases u') (auto simp: encode_Unit_def scale_code_inj)
  show "encode_LimitValue v @ r = encode_LimitValue v' @ s \<longleftrightarrow> v = v' \<and> r = s"
    by (cases v; cases v') (auto simp: encode_LimitValue_def u)
  show "encode_LimitRequirement l @ r = encode_LimitRequirement l' @ s \<longleftrightarrow> l = l' \<and> r = s"
    by (cases l; cases l') (auto simp: encode_LimitRequirement_def u)
qed

lemma concat_prefix:
  assumes "\<And>x y r s. enc x @ r = enc y @ s \<Longrightarrow> x = y \<and> r = s" "length xs = length ys" "concat (map enc xs) @ r = concat (map enc ys) @ s"
  shows "xs = ys \<and> r = s"
  using assms(2,3)
proof (induction xs ys rule: list_induct2)
  case (Cons x xs y ys)
  have "x = y \<and> concat (map enc xs) @ r = concat (map enc ys) @ s" by (rule assms(1)) (use Cons(3) in simp)
  then show ?case using Cons(2) by simp
qed simp

text \<open>A canonical set is read back or refused, whatever list was written.\<close>

lemma d_ascending_refuses:
  assumes iff: "\<And>bs v rest. d bs = Inr (v, rest) \<longleftrightarrow> ok v \<and> bs = enc v @ rest"
    and inj: "\<And>x y r s. enc x @ r = enc y @ s \<Longrightarrow> x = y \<and> r = s" and bad: "\<not> (list_all ok xs \<and> above key prev xs)"
  shows "isl (d_ascending key d (length xs) prev (concat (map enc xs) @ rest))"
proof (rule ccontr)
  assume "\<not> ?thesis"
  then obtain ys r where d: "d_ascending key d (length xs) prev (concat (map enc xs) @ rest) = Inr (ys, r)"
    by (cases "d_ascending key d (length xs) prev (concat (map enc xs) @ rest)") auto
  have "list_all ok ys \<and> above key prev ys \<and> length ys = length xs" by (rule d_ascending_wf [OF _ d]) (simp add: iff)
  moreover have "concat (map enc xs) @ rest = concat (map enc ys) @ r" by (rule d_ascending_exact [OF _ d]) (simp add: iff)
  ultimately show False using concat_prefix [of enc xs ys rest r, OF inj] bad by simp
qed

lemma isl_dbind:
  "d bs = Inr (v, r) \<Longrightarrow> isl (dbind d f bs) \<longleftrightarrow> isl (f v r)" "isl (d bs) \<Longrightarrow> isl (dbind d f bs)"
  by (auto simp: dbind_def isl_def)

lemma isl_guard: "\<not> b \<Longrightarrow> isl (dbind (dguard b c) f bs)"
  by (auto simp: dbind_def dguard_def dfail_def isl_def)

lemma of_nat_length: "length xs < 2 ^ 32 \<Longrightarrow> unat (of_nat (length xs) :: u32) = length xs"
  by (simp add: unat_of_nat)

lemma device_ref_refused: "device_identity_ok (dr_device d) \<Longrightarrow> \<not> device_ref_ok d \<Longrightarrow> isl (decode_device_ref (encode_device_ref d @ rest))"
  by (simp add: decode_device_ref_def encode_device_ref_def device_ref_ok_def isl_dbind(1) codec_iffs is_unset_def isl_guard)

lemma sets_refused:
  "length fs < 2 ^ 32 \<Longrightarrow> \<not> FeatureSet_ok fs \<Longrightarrow> isl (decode_FeatureSet (encode_FeatureSet fs @ rest))"
  "length ls < 2 ^ 32 \<Longrightarrow> \<not> LimitSet_ok ls \<Longrightarrow> isl (decode_LimitSet (encode_LimitSet ls @ rest))"
proof -
  assume f: "length fs < 2 ^ 32" "\<not> FeatureSet_ok fs"
  have "isl (d_ascending (\<lambda>c. c) decode_feature_code (length fs) None (concat (map w_u32 fs) @ rest))" if "length fs \<le> kMaxFeaturesPerRecord"
    by (rule d_ascending_refuses [where ok = "\<lambda>c. feature_info c \<noteq> None"]) (use f that in \<open>auto simp: codec_iffs FeatureSet_ok_def above_None\<close>)
  then show "isl (decode_FeatureSet (encode_FeatureSet fs @ rest))"
    using f(1) by (cases "length fs \<le> kMaxFeaturesPerRecord")
      (simp_all add: decode_FeatureSet_def encode_FeatureSet_def w_list_def isl_dbind isl_guard of_nat_length)
next
  assume f: "length ls < 2 ^ 32" "\<not> LimitSet_ok ls"
  have "isl (d_ascending lv_code decode_LimitValue (length ls) None (concat (map encode_LimitValue ls) @ rest))" if "length ls \<le> kMaxLimitsPerRecord"
    by (rule d_ascending_refuses [where ok = "\<lambda>v. limit_value_ok (lv_code v) (lv_unit v) (lv_value v)"])
      (use f that in \<open>auto simp: codec_iffs LimitSet_ok_def above_None limit_prefix\<close>)
  then show "isl (decode_LimitSet (encode_LimitSet ls @ rest))"
    using f(1) by (cases "length ls \<le> kMaxLimitsPerRecord")
      (simp_all add: decode_LimitSet_def encode_LimitSet_def w_list_def isl_dbind isl_guard of_nat_length)
qed

section \<open>Requirements\<close>

text \<open>
  What the types of \<open>CapabilityRequirement\<close> guarantee by themselves: names and versions are well formed and counts are
  representable. Its features and limits, their units, order and values, may be anything.
\<close>

definition requirement_form :: "CapabilityRequirement \<Rightarrow> bool" where
  "requirement_form q \<longleftrightarrow> device_identity_ok (dr_device (cq_device q)) \<and> semver_wf (minimum (cq_version q))
     \<and> pred_option semver_wf (maximum_exclusive (cq_version q)) \<and> pred_option semver_wf (minimum_firmware_version q)
     \<and> pred_option semver_wf (minimum_runtime_version q) \<and> length (required_features q) < 2 ^ 32 \<and> length (required_limits q) < 2 ^ 32"

lemma requirement_refused:
  assumes form: "requirement_form q" and bad: "\<not> requirement_ok q"
  shows "isl (decode_requirement (encode_requirement q @ rest))"
proof -
  let ?ls = "required_limits q"
  have lim: "isl (d_ascending lr_code decode_LimitRequirement (length ?ls) None (concat (map encode_LimitRequirement ?ls) @ r))"
    if "\<not> (list_all limit_requirement_ok ?ls \<and> sorted_wrt (<) (map lr_code ?ls))" for r
    by (rule d_ascending_refuses [where ok = limit_requirement_ok]) (use that in \<open>auto simp: codec_iffs above_None limit_prefix\<close>)
  note defs = decode_requirement_def encode_requirement_def w_list_def optional_semver(1)
  have len: "unat (of_nat (length ?ls) :: u32) = length ?ls" using form by (simp add: requirement_form_def of_nat_length)
  consider (device) "\<not> device_ref_ok (cq_device q)" | (features) "device_ref_ok (cq_device q)" "\<not> FeatureSet_ok (required_features q)"
    | (count) "device_ref_ok (cq_device q)" "FeatureSet_ok (required_features q)" "\<not> length ?ls \<le> kMaxLimitsPerRecord"
    | (limits) "device_ref_ok (cq_device q)" "FeatureSet_ok (required_features q)" "length ?ls \<le> kMaxLimitsPerRecord"
        "\<not> (list_all limit_requirement_ok ?ls \<and> sorted_wrt (<) (map lr_code ?ls))"
    | (member) "device_ref_ok (cq_device q)" "FeatureSet_ok (required_features q)" "length ?ls \<le> kMaxLimitsPerRecord"
        "list_all limit_requirement_ok ?ls" "sorted_wrt (<) (map lr_code ?ls)"
        "\<not> ((\<forall>c \<in> set (required_features q). feature_allowed_for c (cq_capability q)) \<and> (\<forall>l \<in> set ?ls. limit_allowed_for (lr_code l) (cq_capability q)))"
    using bad form by (auto simp: requirement_ok_def requirement_form_def FeatureSet_wf_ok)
  then show ?thesis
  proof cases
    case device
    then show ?thesis using form by (simp add: defs requirement_form_def isl_dbind device_ref_refused)
  next
    case features
    then show ?thesis using form by (simp add: defs requirement_form_def isl_dbind sets_refused)
  next
    case count
    then show ?thesis using form by (simp add: defs requirement_form_def isl_dbind isl_guard len)
  next
    case limits
    then show ?thesis using form by (simp add: defs requirement_form_def isl_dbind len lim)
  next
    case member
    then have "isl (check_membership (required_features q) (map lr_code ?ls) (cq_capability q) bs)" for bs
      by (auto simp: check_membership_def dfail_def)
    then show ?thesis using member form by (simp add: defs requirement_form_def isl_dbind len required_limits_enc)
  qed
qed

section \<open>Admission requests\<close>

definition admission_form :: "AdmissionRequest \<Rightarrow> bool" where
  "admission_form a \<longleftrightarrow> device_identity_ok (dr_device (ar_device a)) \<and> source_incarnation_ok (ar_source a)
     \<and> semver_wf (ar_capability_version a) \<and> pred_option semver_wf (ar_firmware_version a) \<and> pred_option semver_wf (ar_runtime_version a)
     \<and> length (ar_features a) < 2 ^ 32 \<and> length (ar_limits a) < 2 ^ 32"

lemma admission_refused:
  assumes form: "admission_form a" and bad: "\<not> admission_ok a"
  shows "isl (decode_admission (encode_admission a @ rest))"
proof -
  note defs = decode_admission_def encode_admission_def optional_semver(1) admission_form_def
  consider (device) "\<not> device_ref_ok (ar_device a)" | (features) "device_ref_ok (ar_device a)" "\<not> FeatureSet_ok (ar_features a)"
    | (limits) "device_ref_ok (ar_device a)" "FeatureSet_ok (ar_features a)" "\<not> LimitSet_ok (ar_limits a)"
    | (stamp) "device_ref_ok (ar_device a)" "FeatureSet_ok (ar_features a)" "LimitSet_ok (ar_limits a)"
        "ar_generation a = 0 \<or> \<not> window_ok (ar_valid_until a) (ar_observed_at a)"
    using bad form by (auto simp: admission_ok_def admission_form_def)
  then show ?thesis
  proof cases
    case device
    then show ?thesis using form by (simp add: defs isl_dbind device_ref_refused)
  next
    case features
    then show ?thesis using form by (simp add: defs isl_dbind sets_refused)
  next
    case limits
    then show ?thesis using form by (simp add: defs isl_dbind sets_refused)
  next
    case stamp
    have "isl (dbind (dguard (\<not> is_unset (ar_generation a)) c) (\<lambda>_. dbind (dguard (window_ok (ar_valid_until a) (ar_observed_at a)) c') f) bs)" for c c' f bs
      using stamp(4) by (auto simp: is_unset_def dbind_def dguard_def dfail_def dret_def isl_def)
    then show ?thesis using stamp(1-3) form by (simp add: defs isl_dbind)
  qed
qed

lemma requirement_ok_form: "requirement_ok q \<Longrightarrow> requirement_form q"
  by (auto simp: requirement_ok_def requirement_form_def device_ref_ok_def FeatureSet_wf_def kMaxFeaturesPerRecord_def kMaxLimitsPerRecord_def)

lemma admission_ok_form: "admission_ok a \<Longrightarrow> admission_form a"
  by (auto simp: admission_ok_def admission_form_def device_ref_ok_def FeatureSet_ok_def LimitSet_ok_def kMaxFeaturesPerRecord_def
      kMaxLimitsPerRecord_def)

text \<open>
  What is sent is what is read, or nothing. A requirement or an admission request that its types allow is decoded to itself
  when it satisfies the codec's conditions, and refused otherwise.
\<close>

theorem requests_read_or_refused:
  "(requirement_form q \<longrightarrow> (case decode_requirement (encode_requirement q @ rest) of
       Inr (v, r) \<Rightarrow> requirement_ok q \<and> v = q \<and> r = rest | Inl _ \<Rightarrow> \<not> requirement_ok q))
   \<and> (admission_form a \<longrightarrow> (case decode_admission (encode_admission a @ rest) of
       Inr (v, r) \<Rightarrow> admission_ok a \<and> v = a \<and> r = rest | Inl _ \<Rightarrow> \<not> admission_ok a))"
  using requirement_refused [of q rest] admission_refused [of a rest] decode_requirement_enc [of q rest] decode_admission_enc [of a rest]
  by (cases "requirement_ok q"; cases "admission_ok a") (auto simp: isl_def split: sum.splits)

end
