(* ===== verification/Client.thy ===== *)
theory Client
  imports ServiceProps RequestForms
begin

text \<open>
  The client of \<open>include/ocreg/client.hpp\<close> and \<open>src/client.cpp\<close>: one request at a time over a connected socket, its reply
  checked against the request, and a method per operation. The last section runs a client against the service.
\<close>

section \<open>One request and its reply\<close>

record ClientOptions =
  co_host :: string
  co_port :: u16
  co_max_frame_payload :: nat

record Client =
  cl_connected :: bool
  cl_max_frame_payload :: nat
  cl_next_request_id :: u64
  cl_wire :: Wire

text \<open>\<open>socket\<close> is what \<open>connect_to\<close> returned: the connection.\<close>

definition Client_connect :: "ClientOptions \<Rightarrow> Wire outcome \<Rightarrow> Client outcome" where
  "Client_connect options socket =
     (if co_port options = 0 then Failure TransportUnavailable ''port must be non-zero''
      else (case socket of Failure reason detail \<Rightarrow> Failure reason detail
        | Success c w \<Rightarrow> Success Ok \<lparr>cl_connected = True, cl_max_frame_payload = co_max_frame_payload options,
            cl_next_request_id = 1, cl_wire = w\<rparr>))"

definition read_frame :: "nat \<Rightarrow> FrameHeader \<Rightarrow> Wire \<Rightarrow> bytes outcome \<times> Wire" where
  "read_frame max_payload request w =
     (case recv_exact kFrameHeaderSize (w_incoming w) of (result, header_bytes, rest) \<Rightarrow>
      let w = w\<lparr>w_incoming := rest\<rparr> in
      if result = IoClosed then (Failure TransportClosed ''peer closed before replying'', w)
      else if result = IoError then (Failure TransportClosed ''header read failed'', w)
      else case decode_frame_header header_bytes of
        Inl reason \<Rightarrow> (Failure reason ''response header rejected'', w)
      | Inr header \<Rightarrow>
          if fh_flags header AND FlagResponse = 0 then (Failure ProtocolSequenceViolation ''reply is not a response'', w)
          else if fh_request_id header \<noteq> fh_request_id request
          then (Failure ProtocolSequenceViolation ''reply carries another request id'', w)
          else if fh_opcode header \<noteq> fh_opcode request then (Failure ProtocolSequenceViolation ''reply carries another opcode'', w)
          else if unat (fh_payload_len header) > max_payload then (Failure ProtocolFrameTooLarge ''reply payload exceeds the bound'', w)
          else (case recv_exact (unat (fh_payload_len header)) (w_incoming w) of (result, payload, rest) \<Rightarrow>
            let w = w\<lparr>w_incoming := rest\<rparr> in
            if result \<noteq> IoOk then (Failure TransportClosed ''reply body could not be read'', w)
            else if Digest256_of payload \<noteq> fh_payload_digest header
            then (Failure ProtocolChecksumMismatch ''reply payload digest mismatch'', w)
            else (Success Ok payload, w)))"

definition request_frame :: "OpCode \<Rightarrow> u64 \<Rightarrow> bytes \<Rightarrow> Frame" where
  "request_frame opcode request_id payload = \<lparr>f_header = default_frame_header\<lparr>fh_opcode := opcode, fh_request_id := request_id\<rparr>,
     f_payload = payload\<rparr>"

text \<open>What the caller gets from the payload of an accepted reply.\<close>

definition open_envelope :: "bytes \<Rightarrow> bytes outcome" where
  "open_envelope payload =
     (case decode_envelope payload of Inl reason \<Rightarrow> Failure reason ''response envelope rejected''
      | Inr (rv, rest) \<Rightarrow>
          if rest \<noteq> [] then Failure ProtocolFrameMalformed ''response envelope rejected''
          else if is_failure (rv_reason rv) then Failure (rv_reason rv) (rv_detail rv)
          else Success Ok (rv_body rv))"

definition call :: "OpCode \<Rightarrow> bytes \<Rightarrow> Client \<Rightarrow> bytes outcome \<times> Client" where
  "call opcode payload c =
     (if \<not> cl_connected c then (Failure TransportClosed ''client is not connected'', c)
      else if length payload > cl_max_frame_payload c then (Failure ProtocolFrameTooLarge ''request payload exceeds the bound'', c)
      else let request = request_frame opcode (cl_next_request_id c) payload;
               c = c\<lparr>cl_next_request_id := cl_next_request_id c + 1\<rparr>;
               bytes = serialize_frame request
           in if bytes = [] then (Failure ProtocolFrameMalformed ''request frame is not representable'', c)
              else case send_wire bytes (cl_wire c) of (sent, w) \<Rightarrow>
                if \<not> sent then (Failure TransportClosed ''request could not be sent'', c\<lparr>cl_wire := w\<rparr>)
                else case read_frame (cl_max_frame_payload c) (f_header request) w of (reply, w) \<Rightarrow>
                  ((case reply of Failure reason detail \<Rightarrow> Failure reason detail | Success _ payload \<Rightarrow> open_envelope payload),
                   c\<lparr>cl_wire := w\<rparr>))"

definition decode_body :: "'a decoder \<Rightarrow> bytes outcome \<Rightarrow> 'a outcome" where
  "decode_body d body =
     (case body of Failure reason detail \<Rightarrow> Failure reason detail
      | Success _ bytes \<Rightarrow> (case d bytes of Inl reason \<Rightarrow> Failure reason ''response body rejected''
          | Inr (v, rest) \<Rightarrow> if rest \<noteq> [] then Failure ProtocolFrameMalformed ''response body rejected'' else Success Ok v))"

definition ask :: "OpCode \<Rightarrow> bytes \<Rightarrow> 'a decoder \<Rightarrow> Client \<Rightarrow> 'a outcome \<times> Client" where
  "ask opcode payload d c = (case call opcode payload c of (body, c) \<Rightarrow> (decode_body d body, c))"

section \<open>Methods\<close>

definition Client_ping :: "Tick \<Rightarrow> Client \<Rightarrow> BoolResponse outcome \<times> Client" where
  "Client_ping now = ask OpPing (encode_now now) decode_bool_response"

definition Client_stats :: "Tick \<Rightarrow> Client \<Rightarrow> RegistryStats outcome \<times> Client" where
  "Client_stats now = ask OpStats (encode_now now) decode_stats"

definition Client_admit :: "AdmissionRequest \<Rightarrow> Tick \<Rightarrow> Client \<Rightarrow> AdmissionOutcome outcome \<times> Client" where
  "Client_admit request now = ask OpAdmit (encode_admission request) decode_admission_outcome"

definition Client_retire :: "RetirementRequest \<Rightarrow> Tick \<Rightarrow> Client \<Rightarrow> RetirementOutcome outcome \<times> Client" where
  "Client_retire request now = ask OpRetire (encode_retirement_request request) decode_retirement_outcome"

definition Client_query :: "CapabilityQuery \<Rightarrow> Tick \<Rightarrow> Client \<Rightarrow> QueryResult outcome \<times> Client" where
  "Client_query q now = ask OpQuery (encode_query_request \<lparr>qq_query = q, qq_now = now\<rparr>) decode_query_result"

definition Client_evaluate :: "CapabilityRequirement \<Rightarrow> Tick \<Rightarrow> Client \<Rightarrow> CompatibilityDecision outcome \<times> Client" where
  "Client_evaluate q now = ask OpEvaluate (encode_evaluate_request \<lparr>vq_requirement = q, vq_now = now\<rparr>) decode_decision"

record ExplanationResponse =
  epr_explanation :: Explanation
  epr_available :: bool
  epr_reason :: ReasonCode

definition Client_explain :: "DecisionId \<Rightarrow> Client \<Rightarrow> ExplanationResponse outcome \<times> Client" where
  "Client_explain did = ask OpExplain (encode_explain_request did)
     (dbind decode_explanation (\<lambda>v. dret \<lparr>epr_explanation = v, epr_available = True, epr_reason = Ok\<rparr>))"

definition Client_export_state :: "ExportOptions \<Rightarrow> Tick \<Rightarrow> Client \<Rightarrow> ExportResponse outcome \<times> Client" where
  "Client_export_state options now = ask OpExport (encode_export_request \<lparr>xq_options = options, xq_now = now\<rparr>) decode_export_response"

definition Client_revoke_source :: "SourceId \<Rightarrow> Tick \<Rightarrow> Client \<Rightarrow> BoolResponse outcome \<times> Client" where
  "Client_revoke_source source now = ask OpRevokeSource (encode_source_request \<lparr>sq_source = source, sq_now = now\<rparr>) decode_bool_response"

definition Client_restore_source :: "SourceId \<Rightarrow> Tick \<Rightarrow> Client \<Rightarrow> BoolResponse outcome \<times> Client" where
  "Client_restore_source source now = ask OpRestoreSource (encode_source_request \<lparr>sq_source = source, sq_now = now\<rparr>) decode_bool_response"

definition Client_set_source_authority :: "SourceId \<Rightarrow> AuthorityRank \<Rightarrow> Tick \<Rightarrow> Client \<Rightarrow> BoolResponse outcome \<times> Client" where
  "Client_set_source_authority source authority now = ask OpSetSourceAuthority
     (encode_authority_request \<lparr>aq_source = source, aq_authority = authority, aq_now = now\<rparr>) decode_bool_response"

definition Client_upsert_source_policy :: "SourcePolicy \<Rightarrow> Tick \<Rightarrow> Client \<Rightarrow> SourcePolicy outcome \<times> Client" where
  "Client_upsert_source_policy policy now = ask OpUpsertSourcePolicy
     (encode_source_policy_request \<lparr>pq_policy = policy, pq_now = now\<rparr>) decode_source_policy"

definition Client_begin_device_incarnation :: "DeviceIdentity \<Rightarrow> Tick \<Rightarrow> Client \<Rightarrow> IdResponse outcome \<times> Client" where
  "Client_begin_device_incarnation device now = ask OpBeginDeviceIncarnation
     (encode_incarnation_request \<lparr>iq_device = device, iq_now = now\<rparr>) decode_id_response"

definition Client_current_incarnation :: "DeviceIdentity \<Rightarrow> Tick \<Rightarrow> Client \<Rightarrow> IdResponse outcome \<times> Client" where
  "Client_current_incarnation device now = ask OpCurrentIncarnation
     (encode_incarnation_request \<lparr>iq_device = device, iq_now = now\<rparr>) decode_id_response"

definition Client_resolve_conflict :: "ResolveConflictRequest \<Rightarrow> Client \<Rightarrow> ConflictResolution outcome \<times> Client" where
  "Client_resolve_conflict request = ask OpResolveConflict (encode_resolve_request request) decode_resolution"

definition Client_eviction_ledger :: "Tick \<Rightarrow> Client \<Rightarrow> EvictionLedgerResponse outcome \<times> Client" where
  "Client_eviction_ledger now = ask OpEvictionLedger (encode_now now) decode_ledger_response"

definition Client_shutdown :: "Tick \<Rightarrow> Client \<Rightarrow> BoolResponse outcome \<times> Client" where
  "Client_shutdown now = ask OpShutdown (encode_now now) decode_bool_response"

section \<open>A client and the service\<close>

text \<open>
  One request of a client reaches the service and its reply reaches the client: the service's turn from \<open>s\<close> to \<open>s'\<close> receives
  exactly what the client sends, and the client receives exactly what the service sent, in whatever pieces.
\<close>

definition attached :: "Client \<Rightarrow> OpCode \<Rightarrow> bytes \<Rightarrow> Service \<Rightarrow> Service \<Rightarrow> bool" where
  "attached c opcode payload s s' \<longleftrightarrow> cl_connected c \<and> w_sends (cl_wire c) = [] \<and>
     (\<exists>n w go_on w'. stream (w_incoming w) = serialize_frame (request_frame opcode (cl_next_request_id c) payload) \<and> w_sends w = []
        \<and> w_sent w = [] \<and> serve_request n w s = (go_on, w', s') \<and> stream (w_incoming (cl_wire c)) = w_sent w')"

text \<open>The frame bounds of both sides, and a request within them. The shortest bound still holds every refusal of the service.\<close>

definition bounds_agree :: "Client \<Rightarrow> Service \<Rightarrow> bytes \<Rightarrow> bool" where
  "bounds_agree c s payload \<longleftrightarrow> sv_max_frame_payload (s_options s) \<le> kMaxFramePayload \<and> 128 \<le> sv_max_frame_payload (s_options s)
     \<and> sv_max_frame_payload (s_options s) \<le> cl_max_frame_payload c \<and> length payload \<le> sv_max_frame_payload (s_options s)"

abbreviation request_header :: "OpCode \<Rightarrow> FrameHeader" where
  "request_header opcode \<equiv> default_frame_header\<lparr>fh_opcode := opcode\<rparr>"

lemma dispatch_opcode: "fh_opcode h = fh_opcode h' \<Longrightarrow> dispatch h p s = dispatch h' p s"
  by (simp add: dispatch_defs)

lemma default_header_simps [simp]:
  "fh_reserved default_frame_header = 0" "fh_version default_frame_header = ucast kProtocolVersion" "fh_flags default_frame_header = 0"
  by (simp_all add: default_frame_header_def)

lemma next_frame_fits:
  assumes "length (f_payload f) \<le> sv_max_frame_payload options" "sv_max_frame_payload options \<le> kMaxFramePayload"
    "fh_reserved (f_header f) = 0" "fh_version (f_header f) = ucast kProtocolVersion"
  shows "next_frame options (serialize_frame f @ rest) = Some (sent_header (f_header f) (f_payload f), f_payload f)"
proof -
  have l: "length (f_payload f) \<le> kMaxFramePayload" using assms(1,2) by simp
  from serialize_frame_fits [OF this assms(3,4)] obtain head where "serialize_frame f = head @ f_payload f"
    "length head = kFrameHeaderSize" "decode_frame_header head = Inr (sent_header (f_header f) (f_payload f))" by blast
  then show ?thesis using l assms(1) by (simp add: next_frame_def Let_def)
qed

lemma read_frame_fits:
  assumes "stream (w_incoming w) = serialize_frame f" "length (f_payload f) \<le> bound" "length (f_payload f) \<le> kMaxFramePayload"
    "fh_reserved (f_header f) = 0" "fh_version (f_header f) = ucast kProtocolVersion" "fh_flags (f_header f) AND FlagResponse \<noteq> 0"
    "fh_request_id (f_header f) = fh_request_id request" "fh_opcode (f_header f) = fh_opcode request"
  shows "fst (read_frame bound request w) = Success Ok (f_payload f)"
proof -
  let ?in = "stream (w_incoming w)"
  from serialize_frame_fits [OF assms(3-5)] obtain head where h: "?in = head @ f_payload f"
    "length head = kFrameHeaderSize" "decode_frame_header head = Inr (sent_header (f_header f) (f_payload f))"
    unfolding assms(1) by blast
  have "kFrameHeaderSize \<le> length ?in" using h by simp
  from recv_exact_stream [OF this] obtain rest where r: "recv_exact kFrameHeaderSize (w_incoming w) = (IoOk, head, rest)" "stream rest = f_payload f"
    using h by auto
  have "length (f_payload f) \<le> length (stream rest)" using r by simp
  from recv_exact_stream [OF this] obtain rest' where "recv_exact (length (f_payload f)) rest = (IoOk, f_payload f, rest')" using r by auto
  then show ?thesis using r h(3) assms(2,3,6-8) by (simp add: read_frame_def)
qed

lemma too_large_known: "find_entry ProtocolFrameTooLarge \<noteq> None" "is_failure ProtocolFrameTooLarge"
  by code_simp+

text \<open>What a caller of the client gets of the envelope a request was answered with.\<close>

definition delivered :: "ServerOptions \<Rightarrow> ResponseEnvelope \<Rightarrow> bytes outcome" where
  "delivered options rv =
     (if length (encode_envelope rv) > sv_max_frame_payload options then Failure ProtocolFrameTooLarge ''response exceeds the frame bound''
      else if is_failure (rv_reason rv) then Failure (rv_reason rv) (rv_detail rv) else Success Ok (rv_body rv))"

lemma open_envelope_ok: "envelope_ok rv \<Longrightarrow> open_envelope (encode_envelope rv)
    = (if is_failure (rv_reason rv) then Failure (rv_reason rv) (rv_detail rv) else Success Ok (rv_body rv))"
  using envelope_codec.dec_enc [of rv "[]"] by (simp add: open_envelope_def)

lemma final_reply_delivers:
  assumes "envelope_ok rv \<or> sv_max_frame_payload options < length (encode_envelope rv)" "final_reply options h rv = (reply, replaced)" "42 \<le> sv_max_frame_payload options"
  shows "length (f_payload reply) \<le> sv_max_frame_payload options \<and> open_envelope (f_payload reply) = delivered options rv
    \<and> fh_flags (f_header reply) AND FlagResponse \<noteq> 0 \<and> fh_reserved (f_header reply) = 0
    \<and> fh_version (f_header reply) = ucast kProtocolVersion \<and> fh_request_id (f_header reply) = fh_request_id h \<and> fh_opcode (f_header reply) = fh_opcode h"
proof -
  let ?refusal = "failure_envelope ProtocolFrameTooLarge ''response exceeds the frame bound''"
  have "envelope_ok ?refusal" using too_large_known(1) by (simp add: envelope_ok_def failure_envelope_def)
  moreover have "length (encode_envelope ?refusal) = 42" by (simp add: encode_envelope_def failure_envelope_def w_str_def w_bytes_def str_bytes_def)
  moreover define x where "x = (if is_failure (rv_reason rv) then FlagFailure else 0)"
  then have "((FlagResponse OR FlagFinal) OR x) AND FlagResponse \<noteq> 0" "(((FlagResponse OR FlagFinal) OR x) OR FlagFailure) AND FlagResponse \<noteq> 0"
    by (simp_all add: FlagResponse_def FlagFinal_def FlagFailure_def)
  moreover have "reply = (if length (encode_envelope rv) > sv_max_frame_payload options
      then reply_frame (fh_opcode h) (fh_request_id h) (((FlagResponse OR FlagFinal) OR x) OR FlagFailure) ?refusal
      else reply_frame (fh_opcode h) (fh_request_id h) ((FlagResponse OR FlagFinal) OR x) rv)"
    using assms(2) unfolding final_reply_def x_def [symmetric] Let_def by (simp add: reply_frame_def split: if_splits)
  ultimately show ?thesis
    using assms(1,3) too_large_known(2) open_envelope_ok [of rv] open_envelope_ok [of ?refusal]
    by (cases "length (encode_envelope rv) > sv_max_frame_payload options") (simp_all add: reply_frame_def delivered_def, simp add: failure_envelope_def)
qed

lemma call_served:
  assumes "attached c opcode payload s s'" "bounds_agree c s payload" "snd (dispatch (request_header opcode) payload s) = rv"
    "envelope_ok rv \<or> sv_max_frame_payload (s_options s) < length (encode_envelope rv)"
  shows "fst (call opcode payload c) = delivered (s_options s) rv
    \<and> s_registry s' = s_registry (fst (dispatch (request_header opcode) payload s))"
proof -
  let ?f = "request_frame opcode (cl_next_request_id c) payload"
  let ?h = "sent_header (f_header ?f) payload"
  have b: "length payload \<le> sv_max_frame_payload (s_options s)" "sv_max_frame_payload (s_options s) \<le> kMaxFramePayload"
    "42 \<le> sv_max_frame_payload (s_options s)" "sv_max_frame_payload (s_options s) \<le> cl_max_frame_payload c"
    using assms(2) by (simp_all add: bounds_agree_def)
  obtain n w g w' where x: "cl_connected c" "w_sends (cl_wire c) = []" "stream (w_incoming w) = serialize_frame ?f" "w_sends w = []" "w_sent w = []"
      "serve_request n w s = (g, w', s')" "stream (w_incoming (cl_wire c)) = w_sent w'"
    using assms(1) by (auto simp: attached_def)
  have f: "f_payload ?f = payload" "fh_reserved (f_header ?f) = 0" "fh_version (f_header ?f) = ucast kProtocolVersion"
      "fh_opcode (f_header ?f) = opcode" "fh_request_id (f_header ?f) = cl_next_request_id c"
    by (simp_all add: request_frame_def)
  have "next_frame (s_options s) (stream (w_incoming w)) = Some (?h, payload)"
    using next_frame_fits [of ?f "s_options s" "[]"] b f x(3) by simp
  note a = serve_request_applies [OF this x(6)]
  note rv = assms(3) [symmetric]
  have d: "dispatch ?h payload s = dispatch (request_header opcode) payload s" by (rule dispatch_opcode) (simp add: f)
  obtain reply replaced where r: "final_reply (s_options s) ?h rv = (reply, replaced)" by (cases "final_reply (s_options s) ?h rv")
  then have reply: "reply = reply_to ?h payload s" by (simp add: reply_to_def d rv)
  note fd = final_reply_delivers [OF assms(4) r b(3)]
  have sent: "stream (w_incoming (cl_wire c)) = serialize_frame reply" using a x(4,5,7) reply by simp
  have "length (f_payload reply) \<le> kMaxFramePayload" "length (f_payload reply) \<le> cl_max_frame_payload c" using fd b by simp_all
  then have rf: "fst (read_frame (cl_max_frame_payload c) (f_header ?f) (w'')) = Success Ok (f_payload reply)"
    if "stream (w_incoming w'') = serialize_frame reply" for w''
    using read_frame_fits [of w'' reply] fd f that by simp
  have ne: "serialize_frame ?f \<noteq> []"
    using serialize_frame_fits [of ?f] b f by (auto simp: kFrameHeaderSize_def)
  define w0 where "w0 = (cl_wire c)\<lparr>w_sends := [], w_sent := w_sent (cl_wire c) @ serialize_frame ?f\<rparr>"
  have sw: "send_wire (serialize_frame ?f) (cl_wire c) = (True, w0)" using x(2) by (simp add: send_wire_def w0_def)
  obtain w3 where r3: "read_frame (cl_max_frame_payload c) (f_header ?f) w0 = (Success Ok (f_payload reply), w3)"
    using rf [of w0] sent by (cases "read_frame (cl_max_frame_payload c) (f_header ?f) w0") (simp add: w0_def)
  have "length payload \<le> cl_max_frame_payload c" using b by simp
  then have "fst (call opcode payload c) = open_envelope (f_payload reply)"
    using x(1) ne sw r3 by (simp add: call_def Let_def)
  then have "fst (call opcode payload c) = delivered (s_options s) rv" using fd by simp
  then show ?thesis using a d by simp
qed

section \<open>Remote calls are registry operations\<close>

text \<open>An answer that fits into a frame of the service.\<close>

definition answer_fits :: "Service \<Rightarrow> ResponseEnvelope \<Rightarrow> bool" where
  "answer_fits s rv \<longleftrightarrow> known_reason (rv_reason rv) \<and> length (rv_detail rv) \<le> 4096
     \<and> length (encode_envelope rv) \<le> sv_max_frame_payload (s_options s)"

lemma answer_fits_ok: "answer_fits s rv \<Longrightarrow> bounds_agree c s payload \<Longrightarrow> envelope_ok rv"
  by (auto simp: answer_fits_def bounds_agree_def envelope_ok_def known_reason_def encode_envelope_def w_bytes_def)

lemma decode_body_simps [simp]:
  "decode_body d (Failure reason detail) = Failure reason detail"
  "d bs = Inr (v, []) \<Longrightarrow> decode_body d (Success k bs) = Success Ok v"
  by (simp_all add: decode_body_def)

lemma ask_served:
  assumes "attached c opcode payload s s'" "bounds_agree c s payload" "snd (dispatch (request_header opcode) payload s) = rv" "answer_fits s rv"
  shows "fst (ask opcode payload d c) =
      (if is_failure (rv_reason rv) then Failure (rv_reason rv) (rv_detail rv) else decode_body d (Success Ok (rv_body rv)))
    \<and> s_registry s' = s_registry (fst (dispatch (request_header opcode) payload s))"
proof -
  have "envelope_ok rv" using answer_fits_ok assms by blast
  with call_served [OF assms(1-3)]
  have "fst (call opcode payload c) = delivered (s_options s) rv" "s_registry s' = s_registry (fst (dispatch (request_header opcode) payload s))"
    using assms(3) by simp_all
  then show ?thesis
    using assms(4) by (cases "call opcode payload c") (simp add: ask_def delivered_def answer_fits_def)
qed

lemma received_enc: "d bs = Inr (v, []) \<Longrightarrow> received d bs = Some v"
  by (simp add: received_def)

lemma opcode_header [simp]: "fh_opcode (request_header opcode) = opcode"
  by simp

lemma ok_not_failure: "\<not> is_failure Ok" "known_reason Ok"
  by (code_simp, unfold known_reason_def, code_simp)

lemma received_None: "isl (d bs) \<Longrightarrow> received d bs = None"
  by (auto simp: received_def split: sum.splits)

text \<open>A request that the service cannot decode is refused as malformed and the registry does not see it.\<close>

lemma malformed_served:
  assumes "attached c opcode payload s s'" "bounds_agree c s payload"
    "dispatch (request_header opcode) payload s = (s, failure_envelope ProtocolFrameMalformed refused)" "length refused \<le> 64"
  shows "fst (ask opcode payload d c) = Failure ProtocolFrameMalformed refused \<and> s_registry s' = s_registry s"
proof -
  have k: "find_entry ProtocolFrameMalformed \<noteq> None" "is_failure ProtocolFrameMalformed" by code_simp+
  have "length (encode_envelope (failure_envelope ProtocolFrameMalformed refused)) \<le> 128"
    using assms(4) by (simp add: encode_envelope_def failure_envelope_def w_str_def w_bytes_def str_bytes_def)
  then have "answer_fits s (failure_envelope ProtocolFrameMalformed refused)"
    using assms(2,4) k(1) by (simp add: answer_fits_def known_reason_def bounds_agree_def) (simp add: failure_envelope_def)
  with ask_served [OF assms(1,2) _ this, of d] assms(3) k(2) show ?thesis by (simp add: failure_envelope_def)
qed

text \<open>
  C5: an evaluation through a client is the registry's own, where the wire can carry it. Take a request that reaches the service
  whole and a reply that reaches the client whole, in whatever pieces, with a client that accepts the service's frames, and a
  requirement with well-formed names and versions. If the requirement satisfies the codec's conditions (features and limits
  known, belonging to the capability, strictly ascending and within their number; every limit with its own unit and a
  non-negative minimum; an incarnation other than zero) and the decision is well formed and fits a frame, the client returns
  exactly the decision that the registry's evaluation takes, and the registry changes exactly as that evaluation changes it.
  If the decision is too large for a frame, the registry has taken it but the client is told \<open>ProtocolFrameTooLarge\<close>. Any other
  requirement (one with a limit in another unit, or limits out of order, which the registry itself would answer) comes back as
  \<open>ProtocolFrameMalformed\<close> and the registry never sees it.
\<close>

theorem client_evaluate_exact:
  assumes "attached c OpEvaluate (encode_evaluate_request \<lparr>vq_requirement = q, vq_now = now\<rparr>) s s'"
    "bounds_agree c s (encode_evaluate_request \<lparr>vq_requirement = q, vq_now = now\<rparr>)" "requirement_form q"
    "evaluate q now (s_registry s) = (i', decision)"
  shows "(requirement_ok q \<and> decision_ok decision
        \<and> length (encode_envelope (success_envelope Ok (encode_decision decision))) \<le> sv_max_frame_payload (s_options s)
      \<longrightarrow> fst (Client_evaluate q now c) = Success Ok decision \<and> s_registry s' = i')
    \<and> (requirement_ok q
        \<and> sv_max_frame_payload (s_options s) < length (encode_envelope (success_envelope Ok (encode_decision decision)))
      \<longrightarrow> fst (Client_evaluate q now c) = Failure ProtocolFrameTooLarge ''response exceeds the frame bound'' \<and> s_registry s' = i')
    \<and> (\<not> requirement_ok q
      \<longrightarrow> fst (Client_evaluate q now c) = Failure ProtocolFrameMalformed ''evaluation payload rejected'' \<and> s_registry s' = s_registry s)"
proof (intro conjI impI; (elim conjE)?)
  let ?p = "encode_evaluate_request \<lparr>vq_requirement = q, vq_now = now\<rparr>" and ?rv = "success_envelope Ok (encode_decision decision)"
  have run: "dispatch (request_header OpEvaluate) ?p s = (s\<lparr>s_registry := i'\<rparr>, ?rv)" if "requirement_ok q"
  proof -
    have "received decode_evaluate_request ?p = Some \<lparr>vq_requirement = q, vq_now = now\<rparr>"
      using evaluate_request_codec.dec_enc [of "\<lparr>vq_requirement = q, vq_now = now\<rparr>" "[]"] that
      by (simp add: received_enc evaluate_request_ok_def)
    then show ?thesis using assms(4) by (simp add: dispatch_defs handle_def change_registry_def)
  qed
  {
    assume ok: "requirement_ok q" "decision_ok decision" "length (encode_envelope ?rv) \<le> sv_max_frame_payload (s_options s)"
    have "answer_fits s ?rv" using ok(3) ok_not_failure(2) by (simp add: answer_fits_def) (simp add: success_envelope_def)
    moreover have "decode_decision (encode_decision decision) = Inr (decision, [])" using decision_codec.dec_enc [OF ok(2), of "[]"] by simp
    ultimately have "fst (Client_evaluate q now c) = Success Ok decision \<and> s_registry s' = i'"
      using ask_served [OF assms(1,2) refl, of decode_decision] run [OF ok(1)] ok_not_failure(1)
      by (simp add: Client_evaluate_def) (simp add: success_envelope_def)
    then show "fst (Client_evaluate q now c) = Success Ok decision" "s_registry s' = i'" by simp_all
  }
  {
    assume big: "requirement_ok q" "sv_max_frame_payload (s_options s) < length (encode_envelope ?rv)"
    have "fst (call OpEvaluate ?p c) = delivered (s_options s) ?rv" "s_registry s' = i'"
      using call_served [OF assms(1,2), of ?rv] run [OF big(1)] big(2) by simp_all
    then show "fst (Client_evaluate q now c) = Failure ProtocolFrameTooLarge ''response exceeds the frame bound''" "s_registry s' = i'"
      using big(2) by (cases "call OpEvaluate ?p c"; simp add: Client_evaluate_def ask_def delivered_def)+
  }
  {
    assume bad: "\<not> requirement_ok q"
    have "isl (decode_evaluate_request ?p)"
      using requirement_refused [OF assms(3) bad] by (simp add: decode_evaluate_request_def encode_evaluate_request_def isl_dbind)
    then have "dispatch (request_header OpEvaluate) ?p s = (s, failure_envelope ProtocolFrameMalformed ''evaluation payload rejected'')"
      by (simp add: dispatch_defs handle_def received_None)
    from malformed_served [OF assms(1,2) this, of decode_decision]
    show "fst (Client_evaluate q now c) = Failure ProtocolFrameMalformed ''evaluation payload rejected''" "s_registry s' = s_registry s"
      by (simp_all add: Client_evaluate_def)
  }
qed

text \<open>Every refusal of an admission has a reason that counts as a failure.\<close>

lemma rejected_is_failure:
  "is_failure RejectedGenerationRegression" "is_failure RejectedValidityWindowInverted" "is_failure RejectedFutureObservation"
  "is_failure RejectedBeyondRetentionHorizon" "is_failure RejectedUnknownSource" "is_failure RejectedSourceRevoked"
  "is_failure RejectedSourceUntrusted" "is_failure RejectedFeatureBudgetExceeded" "is_failure RejectedDuplicateKey"
  "is_failure RejectedUnknownFeatureCode" "is_failure RejectedFeatureNotInKind" "is_failure RejectedLimitBudgetExceeded"
  "is_failure RejectedUnknownLimitCode" "is_failure RejectedLimitNotInKind" "is_failure RejectedNegativeLimit"
  "is_failure RejectedLimitUnitInvalid" "is_failure RejectedLimitUnitScaleInvalid" "is_failure RejectedDeviceBudgetExhausted"
  "is_failure RejectedStreamBudgetExhausted" "is_failure RejectedLimitScaleNotPermitted" "is_failure RejectedRetiredStream" "is_failure RejectedRecordBudgetExhausted"
  by code_simp+

lemma check_features_failure: "check_features kind fs = (False, r) \<Longrightarrow> is_failure r"
  by (induction kind fs rule: check_features.induct) (auto simp: rejected_is_failure split: if_splits option.splits)

lemma check_limits_failure: "check_limits kind ls = (False, r) \<Longrightarrow> is_failure r"
  by (induction kind ls rule: check_limits.induct) (auto simp: rejected_is_failure split: if_splits option.splits)

lemma admission_refusal_failure: "admission_refusal i q now = Some (r, d) \<Longrightarrow> is_failure r"
  by (auto simp: admission_refusal_def Let_def feature_set_valid_def limit_set_valid_def rejected_is_failure
      dest: check_features_failure check_limits_failure split: if_splits prod.splits bool.splits option.splits)

lemma admit_failure: "admit q now i = (i', Failure r d) \<Longrightarrow> is_failure r"
  by (auto simp: admit_def admit_registered_def reject_admission_def register_device_def admit_present_def admit_refused_def
      admit_new_def Let_def rejected_is_failure dest: admission_refusal_failure split: if_splits prod.splits option.splits sum.splits)

lemma admission_stamp_refused:
  "ar_generation q = 0 \<Longrightarrow> snd (admit q now i) = Failure RejectedGenerationRegression ''stream generation must be non-zero''"
  "ar_generation q \<noteq> 0 \<Longrightarrow> \<not> window_ok (ar_valid_until q) (ar_observed_at q) \<Longrightarrow>
    snd (admit q now i) = Failure RejectedValidityWindowInverted ''valid_until precedes observed_at''"
  by (auto simp: admit_def admission_refusal_def Let_def is_unset_def reject_admission_def window_ok_def split: option.splits)

text \<open>
  C12: an admission through a client is the registry's admission at the time of its own observation, where the wire can carry it.
  Take a request that reaches the service whole and a reply that reaches the client whole, in whatever pieces, with a client that
  accepts the service's frames, and an admission request with well-formed names and versions. If the request satisfies the
  codec's conditions (features and limits known, strictly ascending and within their number, every limit with its own unit and a
  non-negative value, an incarnation and a generation other than zero, a validity window that does not end before the
  observation) and the answer is well formed and fits a frame, then a refusal comes back with its reason and text, an accepted
  or repeated admission with its outcome, and an admission that the registry records as rejected as a failure with that reason,
  without the outcome. Any other request comes back as \<open>ProtocolFrameMalformed\<close> and the registry never sees it: so it is with a
  zero generation and with an inverted window, for which the registry has refusals of its own.
\<close>

theorem client_admit_exact:
  assumes "attached c OpAdmit (encode_admission q) s s'" "bounds_agree c s (encode_admission q)" "admission_form q"
    "admit q (ar_observed_at q) (s_registry s) = (i', result)"
  shows "(admission_ok q \<and> (\<forall>k v. result = Success k v \<longrightarrow> admission_outcome_ok v)
        \<and> answer_fits s (answer result (\<lambda>_ v. success_envelope (ao_reason v) (encode_admission_outcome v)))
      \<longrightarrow> fst (Client_admit q now c) = (case result of Failure reason detail \<Rightarrow> Failure reason detail
          | Success k v \<Rightarrow> if is_failure (ao_reason v) then Failure (ao_reason v) [] else Success Ok v) \<and> s_registry s' = i')
    \<and> (\<not> admission_ok q
      \<longrightarrow> fst (Client_admit q now c) = Failure ProtocolFrameMalformed ''admission payload rejected'' \<and> s_registry s' = s_registry s)
    \<and> (ar_generation q = 0
      \<longrightarrow> \<not> admission_ok q \<and> result = Failure RejectedGenerationRegression ''stream generation must be non-zero'')
    \<and> (ar_generation q \<noteq> 0 \<and> \<not> window_ok (ar_valid_until q) (ar_observed_at q)
      \<longrightarrow> \<not> admission_ok q \<and> result = Failure RejectedValidityWindowInverted ''valid_until precedes observed_at'')"
proof (intro conjI impI; (elim conjE)?)
  {
    assume ok: "admission_ok q" "\<forall>k v. result = Success k v \<longrightarrow> admission_outcome_ok v"
      "answer_fits s (answer result (\<lambda>_ v. success_envelope (ao_reason v) (encode_admission_outcome v)))"
    have r: "received decode_admission (encode_admission q) = Some q"
      using admission_codec.dec_enc [OF ok(1), of "[]"] by (simp add: received_enc)
    have d: "dispatch (request_header OpAdmit) (encode_admission q) s
        = (s\<lparr>s_registry := i'\<rparr>, answer result (\<lambda>_ v. success_envelope (ao_reason v) (encode_admission_outcome v)))"
      using r assms(4) by (simp add: dispatch_defs handle_def change_registry_def)
    have v: "decode_admission_outcome (encode_admission_outcome v) = Inr (v, [])" if "result = Success k v" for k v
      using admission_outcome_codec.dec_enc [of v "[]"] ok(2) that by simp
    have f: "is_failure reason" if "result = Failure reason detail" for reason detail
      using admit_failure assms(4) that by blast
    from ask_served [OF assms(1,2) _ ok(3), of decode_admission_outcome] d v f
    have "fst (Client_admit q now c) = (case result of Failure reason detail \<Rightarrow> Failure reason detail
        | Success k v \<Rightarrow> if is_failure (ao_reason v) then Failure (ao_reason v) [] else Success Ok v) \<and> s_registry s' = i'"
      by (cases result) (simp_all add: Client_admit_def answer_def success_envelope_def failure_envelope_def)
    then show "fst (Client_admit q now c) = (case result of Failure reason detail \<Rightarrow> Failure reason detail
        | Success k v \<Rightarrow> if is_failure (ao_reason v) then Failure (ao_reason v) [] else Success Ok v)" "s_registry s' = i'" by simp_all
  }
  {
    assume bad: "\<not> admission_ok q"
    have "isl (decode_admission (encode_admission q))" using admission_refused [OF assms(3) bad, of "[]"] by simp
    then have "dispatch (request_header OpAdmit) (encode_admission q) s = (s, failure_envelope ProtocolFrameMalformed ''admission payload rejected'')"
      by (simp add: dispatch_defs handle_def received_None)
    from malformed_served [OF assms(1,2) this, of decode_admission_outcome]
    show "fst (Client_admit q now c) = Failure ProtocolFrameMalformed ''admission payload rejected''" "s_registry s' = s_registry s"
      by (simp_all add: Client_admit_def)
  }
qed (use admission_stamp_refused [of q "ar_observed_at q" "s_registry s"] assms(4) in \<open>simp_all add: admission_ok_def\<close>)

text \<open>
  C30: an admission over the wire is never checked against a clock. The client discards its \<open>now\<close> and the service uses the
  observation's own time, so neither the bound on future observations nor the retention horizon refuses anything: a request
  that the registry refuses at the time it arrives, for being too far in the future, is not refused for that by the service.
\<close>

theorem wire_admission_skips_clock:
  assumes "received decode_admission payload = Some q" "fh_opcode h = OpAdmit"
  shows "dispatch h payload s = change_registry (admit q (ar_observed_at q))
      (\<lambda>r. answer r (\<lambda>_ v. success_envelope (ao_reason v) (encode_admission_outcome v))) s
    \<and> (\<forall>detail. admission_refusal (s_registry s) q (ar_observed_at q) \<noteq> Some (RejectedFutureObservation, detail)
        \<and> admission_refusal (s_registry s) q (ar_observed_at q) \<noteq> Some (RejectedBeyondRetentionHorizon, detail))
    \<and> (ar_observed_at q > now \<and> ar_observed_at q - now > p_max_future_skew (i_policy (s_registry s)) \<and> admission_ok q \<longrightarrow>
        admission_refusal (s_registry s) q now = Some (RejectedFutureObservation, ''observation is ahead of the logical clock''))"
proof -
  have "check_features kind fs \<noteq> (False, RejectedFutureObservation) \<and> check_features kind fs \<noteq> (False, RejectedBeyondRetentionHorizon)" for kind fs
    by (induction kind fs rule: check_features.induct) (auto split: if_splits option.splits)
  moreover have "check_limits kind ls \<noteq> (False, RejectedFutureObservation) \<and> check_limits kind ls \<noteq> (False, RejectedBeyondRetentionHorizon)" for kind ls
    by (induction kind ls rule: check_limits.induct) (auto split: if_splits option.splits)
  ultimately have "\<forall>detail. admission_refusal (s_registry s) q (ar_observed_at q) \<noteq> Some (RejectedFutureObservation, detail)
        \<and> admission_refusal (s_registry s) q (ar_observed_at q) \<noteq> Some (RejectedBeyondRetentionHorizon, detail)"
    by (auto simp: admission_refusal_def Let_def feature_set_valid_def limit_set_valid_def observed_age_def split: if_splits prod.splits bool.splits)
  moreover have "admission_ok q \<Longrightarrow> \<not> is_unset (ar_generation q) \<and> \<not> (case ar_valid_until q of None \<Rightarrow> False | Some u \<Rightarrow> u < ar_observed_at q)"
    by (auto simp: admission_ok_def is_unset_def window_ok_def split: option.splits)
  ultimately show ?thesis
    using assms by (auto simp: dispatch_defs handle_def admission_refusal_def Let_def)
qed

text \<open>
  C29: a refusal that is not a failure is lost on the wire. Asked for an unregistered device, the registry answers that the
  device is not registered; the service sends that refusal with a reason that does not count as a failure and an empty
  body, and the client, which takes it for a success, fails to decode the body: the caller gets \<open>RejectedTruncatedInput\<close> and
  never the registry's reason.
\<close>

theorem unknown_refusal_lost:
  assumes "attached c OpQuery (encode_query_request \<lparr>qq_query = q, qq_now = now\<rparr>) s s'"
    "bounds_agree c s (encode_query_request \<lparr>qq_query = q, qq_now = now\<rparr>)" "device_ref_ok (q_device q)"
    "find_device (s_registry s) (dr_device (q_device q)) = None"
  shows "query q now (s_registry s) = Failure UnknownDeviceNotRegistered ''device incarnation is not registered''
    \<and> fst (Client_query q now c) = Failure RejectedTruncatedInput ''response body rejected''"
proof -
  let ?p = "encode_query_request \<lparr>qq_query = q, qq_now = now\<rparr>"
  let ?rv = "failure_envelope UnknownDeviceNotRegistered ''device incarnation is not registered''"
  have qf: "query q now (s_registry s) = Failure UnknownDeviceNotRegistered ''device incarnation is not registered''"
    using assms(4) by (simp add: query_def)
  have "received decode_query_request ?p = Some \<lparr>qq_query = q, qq_now = now\<rparr>"
    using query_request_codec.dec_enc [of "\<lparr>qq_query = q, qq_now = now\<rparr>" "[]"] assms(3) by (simp add: received_enc query_request_ok_def)
  then have d: "dispatch (request_header OpQuery) ?p s = (s, ?rv)" using qf by (simp add: dispatch_defs handle_def answer_def)
  have k: "find_entry UnknownDeviceNotRegistered \<noteq> None" "\<not> is_failure UnknownDeviceNotRegistered" by code_simp+
  have "length (encode_envelope ?rv) = 46" by (simp add: encode_envelope_def failure_envelope_def w_str_def w_bytes_def str_bytes_def)
  then have "answer_fits s ?rv"
    using assms(2) k(1) by (simp add: answer_fits_def known_reason_def bounds_agree_def) (simp add: failure_envelope_def)
  moreover have "decode_query_result [] = Inl RejectedTruncatedInput"
    by (simp add: decode_query_result_def read_enum_def d_u16_def d_take_def dbind_def)
  ultimately show ?thesis
    using ask_served [OF assms(1,2), of ?rv decode_query_result] d k(2) qf
    by (simp add: Client_query_def) (simp add: failure_envelope_def decode_body_def)
qed

section \<open>Witnesses\<close>

definition sample_session :: "OpCode \<Rightarrow> bytes \<Rightarrow> Service \<Rightarrow> Client \<times> Service" where
  "sample_session opcode payload s =
     (let w = \<lparr>w_incoming = [Arrived (serialize_frame (request_frame opcode 1 payload))], w_sends = [], w_sent = []\<rparr>;
          (go_on, w', s') = serve_request 0 w s
      in (\<lparr>cl_connected = True, cl_max_frame_payload = kMaxFramePayload, cl_next_request_id = 1,
           cl_wire = \<lparr>w_incoming = [Arrived (w_sent w')], w_sends = [], w_sent = []\<rparr>\<rparr>, s'))"

lemma stream_single [simp]: "stream [Arrived bs] = bs"
  by simp

lemma sample_attached:
  assumes "sample_session opcode payload s = (c, s')"
  shows "attached c opcode payload s s' \<and> cl_max_frame_payload c = kMaxFramePayload"
proof -
  obtain g w' where r: "serve_request 0 \<lparr>w_incoming = [Arrived (serialize_frame (request_frame opcode 1 payload))], w_sends = [], w_sent = []\<rparr> s = (g, w', s')"
    "c = \<lparr>cl_connected = True, cl_max_frame_payload = kMaxFramePayload, cl_next_request_id = 1,
           cl_wire = \<lparr>w_incoming = [Arrived (w_sent w')], w_sends = [], w_sent = []\<rparr>\<rparr>"
    using assms by (auto simp: sample_session_def Let_def split: prod.splits)
  then show ?thesis unfolding attached_def by (auto simp del: stream.simps intro!: exI)
qed

abbreviation sample_device :: DeviceIncarnationRef where
  "sample_device \<equiv> DeviceIncarnationRef (DeviceIdentity ''acme'' ''x1'' 0 None) 1"

definition plain_requirement :: CapabilityRequirement where
  "plain_requirement = \<lparr>cq_device = sample_device, cq_capability = TlsRecordCrypto,
      cq_version = \<lparr>minimum = mk_semver 1 0 0 [] [], maximum_exclusive = None\<rparr>, required_features = [], required_limits = [],
      minimum_firmware_version = None, minimum_firmware_generation = None, minimum_runtime_version = None,
      minimum_runtime_generation = None, max_evidence_age = 0\<rparr>"

definition sample_server :: Service where
  "sample_server = Service_init (Registry_init default_policy) default_server_options"

lemma sample_device_ok: "device_ref_ok sample_device"
  by (simp add: device_ref_ok_def device_identity_ok_def) code_simp

lemma plain_requirement_ok: "requirement_ok plain_requirement"
  using sample_device_ok by (simp add: requirement_ok_def plain_requirement_def FeatureSet_wf_def) code_simp

theorem unknown_refusal_lost_witness:
  "\<exists>c s'. attached c OpQuery (encode_query_request \<lparr>qq_query = \<lparr>q_device = sample_device, q_kind = TlsRecordCrypto,
      q_max_evidence_age = 0, q_include_history = False\<rparr>, qq_now = 7\<rparr>) sample_server s'
    \<and> fst (Client_query \<lparr>q_device = sample_device, q_kind = TlsRecordCrypto, q_max_evidence_age = 0, q_include_history = False\<rparr> 7 c)
      = Failure RejectedTruncatedInput ''response body rejected''"
proof -
  let ?q = "\<lparr>q_device = sample_device, q_kind = TlsRecordCrypto, q_max_evidence_age = 0, q_include_history = False\<rparr>"
  let ?p = "encode_query_request \<lparr>qq_query = ?q, qq_now = 7\<rparr>"
  obtain c s' where "sample_session OpQuery ?p sample_server = (c, s')" by (cases "sample_session OpQuery ?p sample_server")
  note a = sample_attached [OF this]
  have "length ?p \<le> 100" by (simp add: encode_query_request_def encode_device_ref_def encode_device_identity_def w_name_def w_boolean_def w_optional_def str_bytes_def)
  then have "bounds_agree c sample_server ?p"
    using a by (simp add: bounds_agree_def sample_server_def Service_init_def default_server_options_def kMaxFramePayload_def)
  moreover have "find_device (s_registry sample_server) (dr_device (q_device ?q)) = None"
    by (simp add: sample_server_def Service_init_def Registry_init_def find_device_def)
  ultimately show ?thesis using unknown_refusal_lost [of c ?q 7 sample_server s'] a sample_device_ok by auto
qed

theorem client_admit_exact_witness:
  "\<exists>c s'. attached c OpAdmit (encode_admission (sample_request 1)) sample_server s'
    \<and> fst (Client_admit (sample_request 1) 9 c) = Failure RejectedUnknownSource ''source has no policy entry''
    \<and> s_registry s' = count_rejected (Registry_init default_policy)"
proof -
  let ?p = "encode_admission (sample_request 1)"
  obtain c s' where "sample_session OpAdmit ?p sample_server = (c, s')" by (cases "sample_session OpAdmit ?p sample_server")
  note a = sample_attached [OF this]
  have len: "length ?p \<le> 200"
    by (simp add: encode_admission_def sample_request_def sample_key_def sample_evidence_def encode_device_ref_def encode_device_identity_def
        encode_source_incarnation_def encode_SemVer_def encode_FeatureSet_def encode_LimitSet_def encode_LimitValue_def encode_Unit_def
        w_list_def w_str_def w_name_def w_boolean_def w_optional_def str_bytes_def)
  have b: "bounds_agree c sample_server ?p"
    using a len by (simp add: bounds_agree_def sample_server_def Service_init_def default_server_options_def kMaxFramePayload_def)
  have ok: "admission_ok (sample_request 1)"
    using sample_device_ok by (simp add: admission_ok_def sample_request_def sample_key_def sample_evidence_def) code_simp
  let ?r = "Failure RejectedUnknownSource ''source has no policy entry'' :: AdmissionOutcome outcome"
  have adm: "admit (sample_request 1) (ar_observed_at (sample_request 1)) (s_registry sample_server) = (count_rejected (Registry_init default_policy), ?r)"
    by (simp add: sample_server_def Service_init_def admit_def admission_refusal_def reject_admission_def Registry_init_def default_policy_def
        sample_request_def is_unset_def Let_def observed_age_def find_source_def sort_policy_def sort_sources_def find_last_def)
  have "find_entry RejectedUnknownSource \<noteq> None" by code_simp
  then have fits: "answer_fits sample_server (answer ?r (\<lambda>_ v. success_envelope (ao_reason v) (encode_admission_outcome v)))"
    by (simp add: answer_fits_def answer_def failure_envelope_def known_reason_def encode_envelope_def w_str_def w_bytes_def str_bytes_def
        sample_server_def Service_init_def default_server_options_def kMaxFramePayload_def)
  have "admission_form (sample_request 1)" using ok by (simp add: admission_ok_form)
  from client_admit_exact [OF _ b this adm, of s' 9] ok fits a show ?thesis by auto
qed

theorem client_evaluate_exact_witness:
  "\<exists>c s' i' d. attached c OpEvaluate (encode_evaluate_request \<lparr>vq_requirement = plain_requirement, vq_now = 7\<rparr>) sample_server s'
    \<and> evaluate plain_requirement 7 (s_registry sample_server) = (i', d)
    \<and> fst (Client_evaluate plain_requirement 7 c) = Success Ok d \<and> d_reasons d = [UnknownDeviceNotRegistered] \<and> s_registry s' = i'"
proof -
  let ?p = "encode_evaluate_request \<lparr>vq_requirement = plain_requirement, vq_now = 7\<rparr>"
  obtain c s' where "sample_session OpEvaluate ?p sample_server = (c, s')" by (cases "sample_session OpEvaluate ?p sample_server")
  note a = sample_attached [OF this]
  obtain i' d where e: "evaluate plain_requirement 7 (s_registry sample_server) = (i', d)" by fastforce
  have d: "d = (let x = (draft_decision plain_requirement 7 (s_registry sample_server))\<lparr>d_reasons := [UnknownDeviceNotRegistered]\<rparr>
      in x\<lparr>d_id := decision_digest x\<rparr>)"
    using e by (auto simp: evaluate_def finish_def sample_server_def Service_init_def Registry_init_def find_device_def Let_def
        canonicalize_reasons_def draft_decision_def)
  have req: "length (encode_requirement plain_requirement) \<le> 100"
    by (simp add: encode_requirement_def plain_requirement_def encode_device_ref_def encode_device_identity_def
        encode_SemVer_def encode_FeatureSet_def w_list_def w_str_def w_name_def w_boolean_def w_optional_def str_bytes_def)
  then have b: "bounds_agree c sample_server ?p"
    using a by (simp add: bounds_agree_def sample_server_def Service_init_def default_server_options_def kMaxFramePayload_def encode_evaluate_request_def)
  have k: "find_entry UnknownDeviceNotRegistered \<noteq> None" "find_entry Ok \<noteq> None" by code_simp+
  have dig: "length (decision_digest x) = 32" for x by (simp add: decision_digest_def kDigestBytes_def)
  have dok: "decision_ok d"
    using plain_requirement_ok k(1) dig
    by (simp add: d Let_def decision_ok_def draft_decision_def digest_ok_def kDigestBytes_def reasons_ok_def known_reason_def collection_ok_def
        canonicalize_reasons_def) (simp add: plain_requirement_def sample_device_ok)
  have "length (encode_decision d) \<le> 400"
    using req dig by (simp add: d Let_def encode_decision_def draft_decision_def w_list_def w_optional_def)
      (simp add: plain_requirement_def encode_device_ref_def encode_device_identity_def w_name_def w_optional_def w_boolean_def str_bytes_def)
  then have fits: "length (encode_envelope (success_envelope Ok (encode_decision d))) \<le> sv_max_frame_payload (s_options sample_server)"
    using k(2) by (simp add: success_envelope_def known_reason_def encode_envelope_def w_str_def w_bytes_def str_bytes_def
        sample_server_def Service_init_def default_server_options_def kMaxFramePayload_def)
  have "d_reasons d = [UnknownDeviceNotRegistered]" by (simp add: d Let_def)
  with client_evaluate_exact [OF _ b requirement_ok_form [OF plain_requirement_ok] e] plain_requirement_ok dok fits a e show ?thesis by blast
qed

theorem wire_admission_skips_clock_witness:
  "\<exists>q. received decode_admission (encode_admission q) = Some q \<and>
     admission_refusal (s_registry sample_server) q 7 = Some (RejectedFutureObservation, ''observation is ahead of the logical clock'') \<and>
     (\<forall>detail. admission_refusal (s_registry sample_server) q (ar_observed_at q) \<noteq> Some (RejectedFutureObservation, detail))"
proof -
  let ?q = "(sample_request 1)\<lparr>ar_observed_at := 1000000000\<rparr>"
  have ok: "admission_ok ?q"
    using sample_device_ok by (simp add: admission_ok_def sample_request_def sample_key_def sample_evidence_def) code_simp
  have r: "received decode_admission (encode_admission ?q) = Some ?q"
    using admission_codec.dec_enc [OF ok, of "[]"] by (simp add: received_enc)
  have "p_max_future_skew (i_policy (s_registry sample_server)) < 999999993"
    by (simp add: sample_server_def Service_init_def Registry_init_def default_policy_def sort_policy_def)
  with wire_admission_skips_clock [OF r, of "request_header OpAdmit" sample_server 7] r ok show ?thesis by (intro exI [of _ ?q]) auto
qed

text \<open>A peer that sends one ping and takes every reply.\<close>

definition ping_wire :: Wire where
  "ping_wire = \<lparr>w_incoming = [Arrived (serialize_frame (request_frame OpPing 1 (encode_now 7)))], w_sends = [], w_sent = []\<rparr>"

lemma ping_front: "\<exists>h. next_frame default_server_options (stream (w_incoming ping_wire)) = Some (h, encode_now 7) \<and> fh_opcode h = OpPing"
proof -
  let ?f = "request_frame OpPing 1 (encode_now 7)"
  have "next_frame default_server_options (serialize_frame ?f @ []) = Some (sent_header (f_header ?f) (encode_now 7), encode_now 7)"
    using next_frame_fits [of ?f default_server_options "[]"] by (simp add: request_frame_def default_server_options_def kMaxFramePayload_def encode_now_def)
  then show ?thesis by (simp add: ping_wire_def request_frame_def del: stream.simps)
qed

theorem serve_connection_refines_witness:
  "\<exists>w' s'. serve_connection 3 ping_wire sample_server = (w', s') \<and>
     s_registry s' = fold registry_after (valid_frames default_server_options (stream (w_incoming ping_wire))) (Registry_init default_policy)"
proof -
  obtain w' s' where c: "serve_connection 3 ping_wire sample_server = (w', s')" by fastforce
  with serve_connection_refines [OF c refl] show ?thesis
    by (simp add: sample_server_def Service_init_def ping_wire_def default_server_options_def del: stream.simps)
qed

theorem service_invariant_witness:
  "\<exists>y. service_step\<^sup>*\<^sup>* (System_start (Registry_init default_policy) default_server_options) y \<and> s_active (y_service y) = [3]
     \<and> y_serving y 3 \<noteq> None \<and> reachable default_policy (s_registry (y_service y))"
proof -
  let ?i = "Registry_init default_policy" let ?o = default_server_options
  define y0 where "y0 = System_start ?i ?o"
  define y1 where "y1 = y0\<lparr>y_service := accept_socket 3 (y_service y0)\<rparr>"
  define s2 where "s2 = (y_service y1)\<lparr>s_queue := [], s_active := [3]\<rparr>"
  define y2 where "y2 = \<lparr>y_service = s2, y_serving = (y_serving y1)(3 \<mapsto> (0, ping_wire)), y_idle = y_idle y1 - 1\<rparr>"
  have y1: "service_step y0 y1" unfolding y1_def
    by (rule service_step.accepts) (simp_all add: y0_def System_start_def Service_init_def)
  have "take_socket (y_service y1) = Some (Some 3, s2)"
    by (simp add: s2_def y1_def y0_def System_start_def Service_init_def accept_socket_def take_socket_def default_server_options_def)
  then have y2: "service_step y1 y2" unfolding y2_def
    by (rule service_step.takes) (simp add: y1_def y0_def System_start_def worker_count_def default_server_options_def)
  have s2: "s_options s2 = ?o" "\<not> s_stopping s2" "s_active s2 = [3]"
    by (simp_all add: s2_def y1_def y0_def System_start_def Service_init_def accept_socket_def)
  obtain h where f: "next_frame (s_options s2) (stream (w_incoming ping_wire)) = Some (h, encode_now 7)" "fh_opcode h = OpPing"
    using ping_front s2(1) by auto
  obtain g w' s' where r: "serve_request 0 ping_wire s2 = (g, w', s')" by (cases "serve_request 0 ping_wire s2")
  note a = serve_request_applies [OF f(1) r]
  have g: "g" using a s2(1) by (simp add: ping_wire_def default_server_options_def)
  let ?y3 = "y2\<lparr>y_service := s', y_serving := (y_serving y2)(3 \<mapsto> (Suc 0, w'))\<rparr>"
  have "service_step y2 ?y3"
    by (rule service_step.turns [where n = 0 and w = ping_wire])
      (use r g f s2 in \<open>simp_all add: y2_def front_def no_collision_def\<close>)
  with y1 y2 have run: "service_step\<^sup>*\<^sup>* (System_start ?i ?o) ?y3"
    unfolding y0_def by (meson rtranclp.rtrancl_refl rtranclp.rtrancl_into_rtrancl)
  have "reachable default_policy ?i" by (simp add: reachable_def)
  from service_invariant [OF run this] run a s2(3) show ?thesis by (intro exI [of _ ?y3]) simp
qed

end
