(* ===== verification/Tools.thy ===== *)
theory Tools
  imports Store Registry ExportProps Client
begin

text \<open>
  The shared helpers of the command line tools, \<open>tools/tool_support.hpp\<close>, and the inspection tool,
  \<open>tools/ocreg_cli.cpp\<close>.

  A command is a function of its arguments and of the files it finds. What it does is its exit code, the text it writes to
  either stream and the files it leaves: files are a map from paths to contents, and a store is the view of that map
  at its base path and the two derived paths. Which calls of the operating system fail is a parameter, one \<open>Io\<close> per
  library operation that touches files; writing to the standard streams does not fail.
\<close>

section \<open>Arguments\<close>

record Arguments =
  arg_command :: string
  arg_options :: "(string \<times> string) list"
  arg_positional :: "string list"

definition no_arguments :: Arguments where
  "no_arguments = \<lparr>arg_command = [], arg_options = [], arg_positional = []\<rparr>"

definition Arguments_get :: "string \<Rightarrow> Arguments \<Rightarrow> string option" where
  "Arguments_get name a = map_of (arg_options a) name"

definition Arguments_get_or :: "string \<Rightarrow> string \<Rightarrow> Arguments \<Rightarrow> string" where
  "Arguments_get_or name fallback a = (case Arguments_get name a of Some v \<Rightarrow> v | None \<Rightarrow> fallback)"

definition Arguments_flag :: "string \<Rightarrow> Arguments \<Rightarrow> bool" where
  "Arguments_flag name a \<longleftrightarrow> Arguments_get name a \<noteq> None"

definition is_option :: "string \<Rightarrow> bool" where
  "is_option token \<longleftrightarrow> take 2 token = ''--''"

definition add_option :: "string \<Rightarrow> string \<Rightarrow> Arguments \<Rightarrow> Arguments" where
  "add_option name value a = a\<lparr>arg_options := arg_options a @ [(name, value)]\<rparr>"

definition add_word :: "string \<Rightarrow> Arguments \<Rightarrow> Arguments" where
  "add_word token a = (if arg_command a = [] then a\<lparr>arg_command := token\<rparr>
     else a\<lparr>arg_positional := arg_positional a @ [token]\<rparr>)"

text \<open>The loop over the tokens after the program name; an option without an equals sign takes a following token that is none.\<close>

fun argument_loop :: "string list \<Rightarrow> Arguments \<Rightarrow> Arguments" where
  "argument_loop [] a = a"
| "argument_loop (token # tokens) a =
     (if \<not> is_option token then argument_loop tokens (add_word token a)
      else case split_at (CHR ''='') token of
        (name, Some value) \<Rightarrow> argument_loop tokens (add_option (drop 2 name) value a)
      | (name, None) \<Rightarrow>
          (case tokens of
             value # rest \<Rightarrow> if \<not> is_option value then argument_loop rest (add_option (drop 2 token) value a)
                             else argument_loop tokens (add_option (drop 2 token) [] a)
           | [] \<Rightarrow> add_option (drop 2 token) [] a))"

definition parse_arguments :: "string list \<Rightarrow> Arguments" where
  "parse_arguments argv = argument_loop (tl argv) no_arguments"

text \<open>The value and the flag \<open>ok\<close> are one option. The loop does not look for an overflow.\<close>

definition parse_unsigned :: "string \<Rightarrow> u64 option" where
  "parse_unsigned t = (if t = [] \<or> length t > 20 then None
     else if \<not> list_all is_digit t then None else Some (magnitude_of t))"

section \<open>Files and streams\<close>

type_synonym Files = "string \<Rightarrow> bytes option"

definition disk_at :: "string \<Rightarrow> Files \<Rightarrow> Disk" where
  "disk_at base fs = \<lparr>dk_snapshot = fs base, dk_journal = fs (journal_path base), dk_temp = fs (temp_path base)\<rparr>"

definition put_disk :: "string \<Rightarrow> Disk \<Rightarrow> Files \<Rightarrow> Files" where
  "put_disk base d fs = fs(base := dk_snapshot d, journal_path base := dk_journal d, temp_path base := dk_temp d)"

record Faults =
  ft_readable :: "string \<Rightarrow> bool"
  ft_load :: Io
  ft_bind :: Io
  ft_write :: Io

definition working :: Faults where
  "working = \<lparr>ft_readable = (\<lambda>path. True), ft_load = no_faults, ft_bind = no_faults, ft_write = no_faults\<rparr>"

record Run =
  exit_code :: int
  run_stdout :: string
  run_stderr :: string

definition kExitOk :: int where "kExitOk = 0"
definition kExitUsage :: int where "kExitUsage = 2"
definition kExitFailure :: int where "kExitFailure = 1"

lemmas exit_codes = kExitOk_def kExitUsage_def kExitFailure_def

definition line :: "string \<Rightarrow> string" where
  "line t = t @ [CHR 0x0A]"

definition read_text_file :: "Faults \<Rightarrow> string \<Rightarrow> Files \<Rightarrow> string option" where
  "read_text_file ft path fs = (if ft_readable ft path then map_option bytes_str (fs path) else None)"

text \<open>\<open>None\<close> for an \<open>ofstream\<close> that did not open; otherwise the bytes that reached the file, all of them when \<open>good()\<close>.\<close>

definition write_text_file :: "nat option \<Rightarrow> string \<Rightarrow> string \<Rightarrow> Files \<Rightarrow> bool \<times> Files" where
  "write_text_file written path t fs =
     (case written of None \<Rightarrow> (False, fs)
      | Some n \<Rightarrow> (length t \<le> n, fs(path \<mapsto> take n (str_bytes t))))"

definition print_error :: "ReasonCode \<Rightarrow> string \<Rightarrow> string" where
  "print_error reason detail = line (''error: '' @ reason_to_string reason @ (if detail = [] then [] else '': '' @ detail))"

text \<open>The three ways a command ends.\<close>

definition usage_error :: "string \<Rightarrow> Run" where
  "usage_error t = \<lparr>exit_code = kExitUsage, run_stdout = [], run_stderr = line t\<rparr>"

definition failed_with :: "string \<Rightarrow> Run" where
  "failed_with t = \<lparr>exit_code = kExitFailure, run_stdout = [], run_stderr = t\<rparr>"

definition answered :: "string \<Rightarrow> Run" where
  "answered t = \<lparr>exit_code = kExitOk, run_stdout = line t, run_stderr = []\<rparr>"

section \<open>The inspection tool\<close>

definition usage_text :: string where
  "usage_text = concat (map line [
     ''ocreg - Offload Capability Registry inspection tool'',
     [],
     ''usage: ocreg <command> [options]'',
     [],
     ''commands:'',
     ''  verify   --store PATH                          validate a store and report recovery'',
     ''  stats    --store PATH [--tick N]               print registry statistics'',
     ''  export   --store PATH [--pretty]               print the canonical state document'',
     ''  import   --store PATH --document FILE          create or replace a store from a document'',
     ''  ingest   --store PATH --document FILE          admit each record through the registry'',
     ''  query    --store PATH --provider P --model M --unit N --incarnation I --kind K'',
     ''                                                  [--tick N] [--history]'',
     ''  evaluate --store PATH --requirement FILE [--tick N]'',
     ''  explain  --store PATH --decision HEX           reprint a retained decision'',
     ''  remote-ping   --host H --port P'',
     ''  remote-stats  --host H --port P [--tick N]'',
     ''  remote-export --host H --port P [--pretty] [--tick N]'',
     [],
     ''Every command writes canonical JSON to stdout and exits non-zero on refusal.''])"

definition reason_array :: "ReasonCode list \<Rightarrow> JsonValue" where
  "reason_array reasons = JArray (map json_of_reason reasons)"

definition stats_to_json :: "RegistryStats \<Rightarrow> JsonValue" where
  "stats_to_json s = json_object (map (\<lambda>(k, v). (k, JInteger v))
     [(''admissions_accepted'', st_admissions_accepted s), (''admissions_idempotent'', st_admissions_idempotent s),
      (''admissions_rejected'', st_admissions_rejected s), (''retirements_accepted'', st_retirements_accepted s),
      (''retirements_rejected'', st_retirements_rejected s), (''devices'', st_devices s), (''incarnations'', st_incarnations s),
      (''streams'', st_streams s), (''records_total'', st_records_total s), (''records_active'', st_records_active s),
      (''records_superseded'', st_records_superseded s), (''records_retired'', st_records_retired s),
      (''records_rejected'', st_records_rejected s), (''records_fenced'', st_records_fenced s),
      (''records_stale'', st_records_stale s), (''records_outranked'', st_records_outranked s),
      (''records_evicted'', st_records_evicted s), (''eviction_ledger_dropped'', st_eviction_ledger_dropped s),
      (''conflicts_open'', st_conflicts_open s), (''conflicts_resolved'', st_conflicts_resolved s),
      (''conflicts_dropped'', st_conflicts_dropped s), (''tombstones'', st_tombstones s),
      (''tombstones_dropped'', st_tombstones_dropped s), (''resolutions'', st_resolutions s),
      (''resolutions_dropped'', st_resolutions_dropped s), (''decisions_emitted'', st_decisions_emitted s),
      (''decisions_evicted'', st_decisions_evicted s), (''registry_epoch'', st_registry_epoch s),
      (''rule_generation'', st_rule_generation s), (''policy_revision'', st_policy_revision s),
      (''boot_epoch'', st_boot_epoch s), (''logical_tick'', st_logical_tick s)])"

text \<open>\<open>StoreLoad\<close> is the outcome with the recovery summary; its fields after a refusal are never read.\<close>

definition load_store :: "Faults \<Rightarrow> string \<Rightarrow> Files \<Rightarrow> (RegistryState \<times> RecoverySummary) outcome \<times> Files" where
  "load_store ft path fs =
     (case load_state (ft_load ft) (default_store_options path) default_summary (disk_at path fs) of
        (Failure reason detail, summary, d) \<Rightarrow> (Failure reason detail, put_disk path d fs)
      | (Success _ state, summary, d) \<Rightarrow> (Success Ok (state, summary), put_disk path d fs))"

definition policy_from :: "Faults \<Rightarrow> Arguments \<Rightarrow> Files \<Rightarrow> RegistryPolicy" where
  "policy_from ft a fs =
     (case Arguments_get ''policy'' a of None \<Rightarrow> make_lab_policy
      | Some path \<Rightarrow> (case read_text_file ft path fs of None \<Rightarrow> make_lab_policy
          | Some document \<Rightarrow> (case parse_policy_document document of Failure _ _ \<Rightarrow> make_lab_policy | Success _ p \<Rightarrow> p)))"

definition tick_from :: "Arguments \<Rightarrow> Tick" where
  "tick_from a = (case Arguments_get ''tick'' a of None \<Rightarrow> 0
     | Some t \<Rightarrow> (case parse_unsigned t of None \<Rightarrow> 0 | Some value \<Rightarrow> value))"

definition report_json :: "OpenReport \<Rightarrow> JsonValue" where
  "report_json r = json_object
     [(''ok'', JBool True), (''recovery_class'', JString (RecoveryClass_to_string (or_classification r))),
      (''reason'', json_of_reason (or_reason r)), (''existed'', JBool (or_existed r)),
      (''snapshot_present'', JBool (or_snapshot_present r)), (''journal_present'', JBool (or_journal_present r)),
      (''snapshot_bytes'', json_size (or_snapshot_bytes r)), (''journal_bytes'', json_size (or_journal_bytes r)),
      (''bytes_discarded'', json_size (or_bytes_discarded r)),
      (''journal_entries_scanned'', json_size (or_journal_entries_scanned r)),
      (''journal_entries_valid'', json_size (or_journal_entries_valid r)),
      (''journal_entries_dropped'', json_size (or_journal_entries_dropped r)),
      (''record_count'', json_size (length (rs_records (or_state r)))),
      (''state_digest'', json_of_digest (state_digest (or_state r)))]"

definition command_verify :: "Faults \<Rightarrow> Arguments \<Rightarrow> Files \<Rightarrow> Run \<times> Files" where
  "command_verify ft a fs =
     (case Arguments_get ''store'' a of None \<Rightarrow> (usage_error ''verify requires --store'', fs)
      | Some store \<Rightarrow>
         (case Store_open (ft_load ft) (default_store_options store) (disk_at store fs) of
            (Failure reason detail, d) \<Rightarrow>
              (\<lparr>exit_code = kExitFailure, run_stdout = line (JsonValue_dump True (json_object
                  [(''ok'', JBool False), (''reason'', json_of_reason reason), (''detail'', JString detail)])), run_stderr = []\<rparr>,
               put_disk store d fs)
          | (Success _ value, d) \<Rightarrow> (answered (JsonValue_dump True (report_json value)), put_disk store d fs)))"

text \<open>Loading a store and adopting its state, the common beginning of the commands that ask a registry.\<close>

definition with_registry :: "Faults \<Rightarrow> Arguments \<Rightarrow> string \<Rightarrow> (Impl \<Rightarrow> Run) \<Rightarrow> Files \<Rightarrow> Run \<times> Files" where
  "with_registry ft a store body fs =
     (case load_store ft store fs of
        (Failure reason detail, fs) \<Rightarrow> (failed_with (print_error reason detail), fs)
      | (Success _ (state, summary), fs) \<Rightarrow>
         (case adopt_state state (tick_from a) (Registry_restored (rs_policy state) state) of
            (i, Failure reason detail) \<Rightarrow> (failed_with (print_error reason detail), fs)
          | (i, Success _ _) \<Rightarrow> (body i, fs)))"

definition command_stats :: "Faults \<Rightarrow> Arguments \<Rightarrow> Files \<Rightarrow> Run \<times> Files" where
  "command_stats ft a fs =
     (case Arguments_get ''store'' a of None \<Rightarrow> (usage_error ''stats requires --store'', fs)
      | Some store \<Rightarrow> with_registry ft a store (\<lambda>i. answered (JsonValue_dump True (stats_to_json (stats (tick_from a) i)))) fs)"

definition command_export :: "Faults \<Rightarrow> Arguments \<Rightarrow> Files \<Rightarrow> Run \<times> Files" where
  "command_export ft a fs =
     (case Arguments_get ''store'' a of None \<Rightarrow> (usage_error ''export requires --store'', fs)
      | Some store \<Rightarrow> with_registry ft a store (\<lambda>i.
          case export_registry i (default_export_options\<lparr>eo_pretty := Arguments_flag ''pretty'' a\<rparr>) (tick_from a) of
            Failure reason detail \<Rightarrow> failed_with (print_error reason detail)
          | Success _ r \<Rightarrow> answered (er_document r)) fs)"

text \<open>Binding a store and compacting it to one state, the end of \<open>import\<close> and \<open>ingest\<close>.\<close>

definition replace_store :: "Faults \<Rightarrow> string \<Rightarrow> RegistryState \<Rightarrow> Tick \<Rightarrow> (CommitToken \<Rightarrow> Run) \<Rightarrow> Files \<Rightarrow> Run \<times> Files" where
  "replace_store ft store state now body fs =
     (case Store_bind (ft_bind ft) (default_store_options store) (disk_at store fs) of
        Failure reason detail \<Rightarrow> (failed_with (print_error reason detail), fs)
      | Success _ bound \<Rightarrow>
         (case compact (ft_write ft) state now (bound, disk_at store fs) of
            (Failure reason detail, bound, d) \<Rightarrow> (failed_with (print_error reason detail), put_disk store d fs)
          | (Success _ token, bound, d) \<Rightarrow> (body token, put_disk store d fs)))"

text \<open>Reading and importing the document both commands are given.\<close>

definition with_document :: "Faults \<Rightarrow> string \<Rightarrow> string \<Rightarrow> (ImportResult \<Rightarrow> Run \<times> Files) \<Rightarrow> Files \<Rightarrow> Run \<times> Files" where
  "with_document ft command document body fs =
     (case read_text_file ft document fs of
        None \<Rightarrow> (failed_with (line (command @ '' could not read '' @ document)), fs)
      | Some t \<Rightarrow> (case import_document t of
            Failure reason detail \<Rightarrow> (failed_with (print_error reason detail), fs)
          | Success _ imported \<Rightarrow> body imported))"

text \<open>The state an import installs.\<close>

definition imported_state :: "Faults \<Rightarrow> Arguments \<Rightarrow> Files \<Rightarrow> RegistryState \<Rightarrow> RegistryState" where
  "imported_state ft a fs state =
     (let state = (if Arguments_flag ''policy'' a then state\<lparr>rs_policy := policy_from ft a fs\<rparr> else state)
      in state\<lparr>rs_store_generation := rs_store_generation state + 1\<rparr>)"

definition command_import :: "Faults \<Rightarrow> Arguments \<Rightarrow> Files \<Rightarrow> Run \<times> Files" where
  "command_import ft a fs =
     (case (Arguments_get ''store'' a, Arguments_get ''document'' a) of
        (Some store, Some document) \<Rightarrow>
          with_document ft ''import'' document (\<lambda>imported.
            let state = imported_state ft a fs (ir_state imported)
            in replace_store ft store state (tick_from a) (\<lambda>token. answered (JsonValue_dump True (json_object
                 [(''ok'', JBool True), (''records'', json_size (length (rs_records state))),
                  (''store_generation'', JInteger (rs_store_generation state)),
                  (''payload_digest'', json_of_digest (ct_payload_digest token))]))) fs) fs
      | _ \<Rightarrow> (usage_error ''import requires --store and --document'', fs))"


section \<open>Ingestion\<close>

fun install_layout :: "Tick \<Rightarrow> DeviceIncarnationEntry list \<Rightarrow> Impl \<Rightarrow> (ReasonCode \<times> string) + Impl" where
  "install_layout now [] i = Inr i"
| "install_layout now (entry # entries) i =
     (case set_device_incarnation (ie_device entry) (ie_current entry) now i of
        (i, Failure reason detail) \<Rightarrow> Inl (reason, detail)
      | (i, Success _ _) \<Rightarrow> install_layout now entries i)"

definition request_of :: "CapabilityEvidence \<Rightarrow> AdmissionRequest" where
  "request_of e = \<lparr>ar_device = key_device (e_key e), ar_kind = key_kind (e_key e), ar_source = e_source_incarnation e,
     ar_capability_version = e_capability_version e, ar_features = e_features e, ar_limits = e_limits e,
     ar_firmware_version = e_firmware_version e, ar_firmware_generation = e_firmware_generation e,
     ar_runtime_version = e_runtime_version e, ar_runtime_generation = e_runtime_generation e,
     ar_observed_at = e_observed_at e, ar_valid_until = e_valid_until e, ar_generation = e_generation e\<rparr>"

record Tally =
  tl_accepted :: u64
  tl_idempotent :: u64
  tl_refused :: u64
  tl_refusals :: "ReasonCode list"

definition no_tally :: Tally where
  "no_tally = \<lparr>tl_accepted = 0, tl_idempotent = 0, tl_refused = 0, tl_refusals = []\<rparr>"

definition count_refusal :: "ReasonCode \<Rightarrow> Tally \<Rightarrow> Tally" where
  "count_refusal reason t = t\<lparr>tl_refused := tl_refused t + 1, tl_refusals := tl_refusals t @ [reason]\<rparr>"

definition count_admission :: "AdmissionOutcome outcome \<Rightarrow> Tally \<Rightarrow> Tally" where
  "count_admission r t =
     (case r of Failure reason _ \<Rightarrow> count_refusal reason t
      | Success _ v \<Rightarrow> if ao_idempotent v then t\<lparr>tl_idempotent := tl_idempotent t + 1\<rparr>
          else if ao_state v = StateRejected then count_refusal (ao_reason v) t
          else t\<lparr>tl_accepted := tl_accepted t + 1\<rparr>)"

fun ingest_loop :: "Tick \<Rightarrow> StoredEvidence list \<Rightarrow> Impl \<times> Tally \<Rightarrow> Impl \<times> Tally" where
  "ingest_loop now [] it = it"
| "ingest_loop now (r # rs) (i, t) =
     (case admit (request_of (s_evidence r)) now i of (i, result) \<Rightarrow> ingest_loop now rs (i, count_admission result t))"

definition ingest_policy :: "Faults \<Rightarrow> Arguments \<Rightarrow> Files \<Rightarrow> RegistryState \<Rightarrow> RegistryPolicy" where
  "ingest_policy ft a fs source = (if Arguments_flag ''policy'' a then policy_from ft a fs else rs_policy source)"

definition command_ingest :: "Faults \<Rightarrow> Arguments \<Rightarrow> Files \<Rightarrow> Run \<times> Files" where
  "command_ingest ft a fs =
     (case (Arguments_get ''store'' a, Arguments_get ''document'' a) of
        (Some store, Some document) \<Rightarrow>
          with_document ft ''ingest'' document (\<lambda>imported.
            let source = ir_state imported;
                now = tick_from a
            in case install_layout now (rs_incarnations source) (Registry_init (ingest_policy ft a fs source)) of
                 Inl (reason, detail) \<Rightarrow> (failed_with (print_error reason detail), fs)
               | Inr i \<Rightarrow>
                  (case ingest_loop now (rs_records source) (i, no_tally) of (i, t) \<Rightarrow>
                   case snapshot_state i of
                     Failure reason detail \<Rightarrow> (failed_with (print_error reason detail), fs)
                   | Success _ state \<Rightarrow>
                      replace_store ft store (state\<lparr>rs_store_generation := rs_store_generation source + 1\<rparr>) now
                        (\<lambda>token. answered (JsonValue_dump True (json_object
                           [(''ok'', JBool True), (''accepted'', JInteger (tl_accepted t)),
                            (''idempotent'', JInteger (tl_idempotent t)), (''refused'', JInteger (tl_refused t)),
                            (''refusal_reasons'', reason_array (canonicalize_reasons (tl_refusals t))),
                            (''state_digest'', json_of_digest (Registry_state_digest i))]))) fs)) fs
      | _ \<Rightarrow> (usage_error ''ingest requires --store and --document'', fs))"

section \<open>Questions\<close>

definition parse_device :: "Arguments \<Rightarrow> DeviceIncarnationRef option" where
  "parse_device a =
     (case (Arguments_get ''provider'' a, Arguments_get ''model'' a, Arguments_get ''unit'' a, Arguments_get ''incarnation'' a) of
        (Some provider, Some model, Some unit, Some incarnation) \<Rightarrow>
          (case (Name_parse provider, Name_parse model) of
             (Some p, Some m) \<Rightarrow>
               (case parse_unsigned unit of None \<Rightarrow> None
                | Some unit_index \<Rightarrow>
                   (case parse_unsigned incarnation of None \<Rightarrow> None
                    | Some incarnation_id \<Rightarrow>
                       if incarnation_id = 0 then None
                       else Some (DeviceIncarnationRef (DeviceIdentity p m (ucast unit_index) None) incarnation_id)))
           | _ \<Rightarrow> None)
      | _ \<Rightarrow> None)"

definition query_fact_json :: "EvidenceStateFact \<Rightarrow> JsonValue" where
  "query_fact_json f = json_object
     [(''id'', json_of_digest (ef_id f)), (''state'', JString (EvidenceState_to_string (ef_state f))),
      (''reason'', json_of_reason (ef_reason f)), (''generation'', JInteger (ef_generation f)),
      (''observed_at'', JInteger (ef_observed_at f)), (''age'', JInteger (ef_age f)),
      (''authority'', json_of_authority (ef_authority f)), (''capability_version'', json_of_SemVer (ef_capability_version f))]"

definition query_json :: "QueryResult \<Rightarrow> JsonValue" where
  "query_json r = json_object
     ([(''decision'', JString (DecisionKind_to_string (qr_kind r))), (''reasons'', reason_array (qr_reasons r)),
       (''evidence'', JArray (map query_fact_json (qr_facts r)))]
      @ json_opt ''selected'' (map_option json_of_digest (qr_selected r))
      @ json_opt ''conflict'' (map_option json_of_digest (qr_conflict r)))"

definition command_query :: "Faults \<Rightarrow> Arguments \<Rightarrow> Files \<Rightarrow> Run \<times> Files" where
  "command_query ft a fs =
     (case (Arguments_get ''store'' a, Arguments_get ''kind'' a) of
        (Some store, Some kind_text) \<Rightarrow>
          (case parse_device a of None \<Rightarrow> (usage_error ''query requires --provider --model --unit --incarnation'', fs)
           | Some device \<Rightarrow>
              (case parse_capability_kind kind_text of None \<Rightarrow> (usage_error (''unknown capability kind: '' @ kind_text), fs)
               | Some kind \<Rightarrow> with_registry ft a store (\<lambda>i.
                   case query \<lparr>q_device = device, q_kind = kind, q_max_evidence_age = 0,
                          q_include_history = Arguments_flag ''history'' a\<rparr> (tick_from a) i of
                     Failure reason detail \<Rightarrow> failed_with (print_error reason detail)
                   | Success _ r \<Rightarrow> answered (JsonValue_dump True (query_json r))) fs))
      | _ \<Rightarrow> (usage_error ''query requires --store and --kind'', fs))"

definition decision_fact_json :: "EvidenceStateFact \<Rightarrow> JsonValue" where
  "decision_fact_json f = json_object
     [(''id'', json_of_digest (ef_id f)), (''state'', JString (EvidenceState_to_string (ef_state f))),
      (''reason'', json_of_reason (ef_reason f)), (''age'', JInteger (ef_age f)), (''authority'', json_of_authority (ef_authority f))]"

definition decision_json :: "CompatibilityDecision \<Rightarrow> JsonValue" where
  "decision_json d = json_object
     ([(''decision'', JString (DecisionKind_to_string (d_kind d))), (''decision_id'', json_of_digest (d_id d)),
       (''reasons'', reason_array (d_reasons d)), (''registry_epoch'', JInteger (d_registry_epoch d)),
       (''rule_generation'', JInteger (d_rule_generation d)), (''policy_revision'', JInteger (d_policy_revision d)),
       (''evaluated_at'', JInteger (d_evaluated_at d)), (''selected_authority'', json_of_authority (d_selected_authority d))]
      @ json_opt ''selected'' (map_option json_of_digest (d_selected d))
      @ json_opt ''conflict'' (map_option json_of_digest (d_conflict d))
      @ [(''evidence'', JArray (map decision_fact_json (d_evidence_facts d)))])"

definition command_evaluate :: "Faults \<Rightarrow> Arguments \<Rightarrow> Files \<Rightarrow> Run \<times> Files" where
  "command_evaluate ft a fs =
     (case (Arguments_get ''store'' a, Arguments_get ''requirement'' a) of
        (Some store, Some requirement_path) \<Rightarrow>
          (case read_text_file ft requirement_path fs of
             None \<Rightarrow> (failed_with (line (''evaluate could not read '' @ requirement_path)), fs)
           | Some t \<Rightarrow>
              (case parse_requirement_document t of
                 Failure reason detail \<Rightarrow> (failed_with (print_error reason detail), fs)
               | Success _ requirement \<Rightarrow> with_registry ft a store
                   (\<lambda>i. answered (JsonValue_dump True (decision_json (snd (evaluate requirement (tick_from a) i))))) fs))
      | _ \<Rightarrow> (usage_error ''evaluate requires --store and --requirement'', fs))"

definition explanation_json :: "Explanation outcome \<Rightarrow> JsonValue" where
  "explanation_json r =
     (case r of Failure reason _ \<Rightarrow> json_object [(''available'', JBool False), (''reason'', json_of_reason reason)]
      | Success _ e \<Rightarrow> json_object
          [(''available'', JBool True), (''reason'', json_of_reason Ok),
           (''decision'', JString (DecisionKind_to_string (d_kind (ex_decision e)))),
           (''reasons'', reason_array (d_reasons (ex_decision e))),
           (''evidence'', JArray (map json_of_digest (d_evidence (ex_decision e))))])"

definition command_explain :: "Faults \<Rightarrow> Arguments \<Rightarrow> Files \<Rightarrow> Run \<times> Files" where
  "command_explain ft a fs =
     (case (Arguments_get ''store'' a, Arguments_get ''decision'' a) of
        (Some store, Some decision_text) \<Rightarrow>
          (case Digest256_parse decision_text of
             None \<Rightarrow> (usage_error ''decision must be a 64 character lower-case hex digest'', fs)
           | Some digest \<Rightarrow> with_registry ft a store (\<lambda>i.
               let explanation = explain digest i
               in \<lparr>exit_code = (if outcome_ok explanation then kExitOk else kExitFailure),
                   run_stdout = line (JsonValue_dump True (explanation_json explanation)), run_stderr = []\<rparr>) fs)
      | _ \<Rightarrow> (usage_error ''explain requires --store and --decision'', fs))"

section \<open>Remote commands and the main program\<close>

definition default_client_options :: ClientOptions where
  "default_client_options = \<lparr>co_host = ''127.0.0.1'', co_port = 0, co_max_frame_payload = kMaxFramePayload\<rparr>"

text \<open>\<open>connect\<close> is what \<open>connect_to\<close> of \<open>net.cpp\<close> returns for a host and a port.\<close>

definition with_client :: "(string \<Rightarrow> u16 \<Rightarrow> Wire outcome) \<Rightarrow> Arguments \<Rightarrow> (Client \<Rightarrow> Tick \<Rightarrow> Run) \<Rightarrow> Run" where
  "with_client connect a body =
     (let host = Arguments_get_or ''host'' ''127.0.0.1'' a
      in case Arguments_get ''port'' a of None \<Rightarrow> usage_error ''a --port is required''
         | Some port_text \<Rightarrow>
            (case parse_unsigned port_text of None \<Rightarrow> usage_error ''port must be in 1..65535''
             | Some port \<Rightarrow>
                if port = 0 \<or> port > 65535 then usage_error ''port must be in 1..65535''
                else let options = default_client_options\<lparr>co_host := host, co_port := ucast port\<rparr>
                     in (case Client_connect options (connect host (ucast port)) of
                           Failure reason detail \<Rightarrow> failed_with (print_error reason detail)
                         | Success _ client \<Rightarrow> body client (tick_from a))))"

definition reply_run :: "('a \<Rightarrow> string) \<Rightarrow> 'a outcome \<Rightarrow> Run" where
  "reply_run show_reply reply = (case reply of Failure reason detail \<Rightarrow> failed_with (print_error reason detail)
     | Success _ v \<Rightarrow> answered (show_reply v))"

definition command_remote_ping :: "(string \<Rightarrow> u16 \<Rightarrow> Wire outcome) \<Rightarrow> Arguments \<Rightarrow> Run" where
  "command_remote_ping connect a = with_client connect a (\<lambda>client now.
     reply_run (\<lambda>r. JsonValue_dump True (json_object [(''pong'', JBool (br_value r))])) (fst (Client_ping now client)))"

definition command_remote_stats :: "(string \<Rightarrow> u16 \<Rightarrow> Wire outcome) \<Rightarrow> Arguments \<Rightarrow> Run" where
  "command_remote_stats connect a = with_client connect a (\<lambda>client now.
     reply_run (\<lambda>r. JsonValue_dump True (stats_to_json r)) (fst (Client_stats now client)))"

definition command_remote_export :: "(string \<Rightarrow> u16 \<Rightarrow> Wire outcome) \<Rightarrow> Arguments \<Rightarrow> Run" where
  "command_remote_export connect a = with_client connect a (\<lambda>client now.
     reply_run xr_document
       (fst (Client_export_state (default_export_options\<lparr>eo_pretty := Arguments_flag ''pretty'' a\<rparr>) now client)))"

definition cli_main :: "Faults \<Rightarrow> (string \<Rightarrow> u16 \<Rightarrow> Wire outcome) \<Rightarrow> string list \<Rightarrow> Files \<Rightarrow> Run \<times> Files" where
  "cli_main ft connect argv fs =
     (let a = parse_arguments argv; command = arg_command a
      in if command = [] \<or> command = ''help'' \<or> command = ''--help''
         then (\<lparr>exit_code = (if command = [] then kExitUsage else kExitOk), run_stdout = usage_text, run_stderr = []\<rparr>, fs)
         else if command = ''verify'' then command_verify ft a fs
         else if command = ''stats'' then command_stats ft a fs
         else if command = ''export'' then command_export ft a fs
         else if command = ''import'' then command_import ft a fs
         else if command = ''ingest'' then command_ingest ft a fs
         else if command = ''query'' then command_query ft a fs
         else if command = ''evaluate'' then command_evaluate ft a fs
         else if command = ''explain'' then command_explain ft a fs
         else if command = ''remote-ping'' then (command_remote_ping connect a, fs)
         else if command = ''remote-stats'' then (command_remote_stats connect a, fs)
         else if command = ''remote-export'' then (command_remote_export connect a, fs)
         else (\<lparr>exit_code = kExitUsage, run_stdout = usage_text, run_stderr = line (''unknown command: '' @ command)\<rparr>, fs))"

lemmas command_defs = command_verify_def command_stats_def command_export_def command_import_def command_ingest_def
  command_query_def command_evaluate_def command_explain_def command_remote_ping_def command_remote_stats_def
  command_remote_export_def

end
