(* ===== verification/ToolProps.thy ===== *)
theory ToolProps
  imports Tools
begin

text \<open>
  What the commands of the inspection tool do: numbers on the command line, the files each command may touch, exit codes,
  and what an import leaves for the commands that follow it.
\<close>

section \<open>Numbers and words on the command line\<close>

lemma parse_unsigned_Some_iff:
  "parse_unsigned t = Some v \<longleftrightarrow> t \<noteq> [] \<and> length t \<le> 20 \<and> list_all is_digit t \<and> v = of_nat (dec_val t)"
  by (auto simp: parse_unsigned_def magnitude_of_dec)

lemma parse_unsigned_short:
  assumes "parse_unsigned t = Some v" "length t < 20"
  shows "unat v = dec_val t"
proof -
  have "dec_val t < 10 ^ length t" using assms(1) dec_val_bound [of t] by (simp add: parse_unsigned_Some_iff list_all_iff)
  also have "\<dots> \<le> 10 ^ 19" using assms(2) by (intro power_increasing) simp_all
  also have "\<dots> < (2 ^ 64 :: nat)" by simp
  finally show ?thesis using assms(1) by (simp add: parse_unsigned_Some_iff unat_of_nat)
qed

lemma parse_unsigned_dec_string: "parse_unsigned (dec_string (unat (v :: u64))) = Some v"
proof -
  have "unat v < 10 ^ 20" by (rule less_trans [OF unsigned_less]) simp
  then have "length (dec_string (unat v)) \<le> 20" by (intro dec_string_length) simp_all
  then show ?thesis by (auto simp: parse_unsigned_Some_iff list_all_iff dest: dec_string_digits)
qed

text \<open>Twenty digits can exceed the 64 bits, and nothing checks it.\<close>

lemma parse_unsigned_wraps:
  "parse_unsigned ''18446744073709551617'' = Some 1" "parse_unsigned ''99999999999999999999'' = Some 0x6BC75E2D630FFFFF"
  by code_simp+

text \<open>A word that begins with two dashes is always taken for an option: the command is never \<open>--help\<close>.\<close>

lemma argument_loop_command:
  "\<not> is_option (arg_command a) \<Longrightarrow> \<not> is_option (arg_command (argument_loop tokens a))"
proof (induction tokens a rule: argument_loop.induct)
  case (2 token tokens a)
  have kept: "arg_command (add_option n v a) = arg_command a" for n v by (simp add: add_option_def)
  have named: "\<not> is_option token \<Longrightarrow> \<not> is_option (arg_command (add_word token a))" using 2(5) by (simp add: add_word_def)
  show ?case
  proof (cases "is_option token")
    case False
    then show ?thesis using 2(1) named by simp
  next
    case True
    obtain n r where s: "(n, r) = split_at (CHR ''='') token" by (cases "split_at (CHR ''='') token") simp
    have ih: "\<not> is_option (arg_command (argument_loop rest (add_option (drop 2 token) v a)))"
      if "r = None" "tokens = v # rest" "\<not> is_option v" for v rest
      using 2(2) [OF _ s that] 2(5) True kept by simp
    have ih': "\<not> is_option (arg_command (argument_loop tokens (add_option (drop 2 token) [] a)))"
      if "r = None" "tokens = v # rest" "is_option v" for v rest
      using 2(3) [OF _ s that(1,2)] that(3) 2(5) True kept by simp
    have ih'': "\<not> is_option (arg_command (argument_loop tokens (add_option (drop 2 n) v a)))" if "r = Some v" for v
      using 2(4) [OF _ s that] 2(5) True kept by simp
    show ?thesis
      using True ih ih' ih'' s [symmetric] 2(5) kept by (cases r; cases tokens) (simp_all del: argument_loop.simps add: argument_loop.simps(2) [of token])
  qed
qed simp

lemma help_option_is_no_command:
  "\<not> is_option (arg_command (parse_arguments argv))" "exit_code (fst (cli_main ft connect [program, ''--help''] fs)) = kExitUsage"
proof -
  show "\<not> is_option (arg_command (parse_arguments argv))"
    unfolding parse_arguments_def by (rule argument_loop_command) (simp add: is_option_def no_arguments_def)
  show "exit_code (fst (cli_main ft connect [program, ''--help''] fs)) = kExitUsage"
    by (simp add: cli_main_def parse_arguments_def is_option_def add_option_def no_arguments_def)
qed

section \<open>Files\<close>

lemma paths_distinct [simp]:
  "journal_path base \<noteq> base" "temp_path base \<noteq> base" "journal_path base \<noteq> temp_path base"
  "base \<noteq> journal_path base" "base \<noteq> temp_path base" "temp_path base \<noteq> journal_path base"
  by (simp_all add: journal_path_def temp_path_def)

lemma disk_at_put [simp]: "disk_at base (put_disk base d fs) = d"
  by (simp add: disk_at_def put_disk_def)

lemma put_disk_at [simp]: "put_disk base (disk_at base fs) fs = fs"
  by (auto simp: disk_at_def put_disk_def fun_eq_iff)

lemma put_disk_eq_iff: "put_disk base d fs = fs \<longleftrightarrow> d = disk_at base fs"
  by (metis disk_at_put put_disk_at)

text \<open>What opening a store may do to its files.\<close>

definition opened :: "string \<Rightarrow> Files \<Rightarrow> Files \<Rightarrow> bool" where
  "opened store fs fs' \<longleftrightarrow> (\<forall>path. path \<noteq> journal_path store \<and> path \<noteq> temp_path store \<longrightarrow> fs' path = fs path)
     \<and> (\<exists>n. fs' (journal_path store) = map_option (take n) (fs (journal_path store)))
     \<and> (fs' (temp_path store) = fs (temp_path store) \<or> fs' (temp_path store) = None)"

lemma opened_refl [simp]: "opened store fs fs"
  using take_whole by (simp add: opened_def)

lemma Store_open_temp: "Store_open io options disk = (out, disk') \<Longrightarrow> dk_temp disk' = dk_temp disk \<or> dk_temp disk' = None"
  by (auto simp: Store_open_def sweep_temp_def open_journal_def Let_def split: if_splits outcome.splits prod.splits)

lemma opened_open:
  assumes "Store_open io options (disk_at store fs) = (out, d)"
  shows "opened store fs (put_disk store d fs)"
  using Store_open_effect [OF assms] Store_open_temp [OF assms] by (auto simp: opened_def put_disk_def disk_at_def)

lemma opened_load:
  assumes "load_store ft store fs = (out, fs')"
  shows "opened store fs fs'"
proof -
  obtain o' d where o: "Store_open (ft_load ft) (default_store_options store) (disk_at store fs) = (o', d)"
    by (cases "Store_open (ft_load ft) (default_store_options store) (disk_at store fs)")
  have "fs' = put_disk store d fs"
    using assms o by (auto simp: load_store_def load_state_def Let_def split: outcome.splits)
  then show ?thesis using opened_open [OF o] by simp
qed

lemma opened_registry: "with_registry ft a store body fs = (r, fs') \<Longrightarrow> opened store fs fs'"
  by (auto simp: with_registry_def dest: opened_load split: prod.splits outcome.splits)

section \<open>Inspection changes nothing that matters\<close>

definition inspects :: "Arguments \<Rightarrow> Files \<Rightarrow> Files \<Rightarrow> bool" where
  "inspects a fs fs' \<longleftrightarrow> fs' = fs \<or> (\<exists>store. Arguments_get ''store'' a = Some store \<and> opened store fs fs')"

lemma inspects_refl [simp]: "inspects a fs fs"
  by (simp add: inspects_def)

lemma command_inspects:
  "command_verify ft a fs = (r, fs') \<Longrightarrow> inspects a fs fs'" "command_stats ft a fs = (r, fs') \<Longrightarrow> inspects a fs fs'"
  "command_export ft a fs = (r, fs') \<Longrightarrow> inspects a fs fs'" "command_query ft a fs = (r, fs') \<Longrightarrow> inspects a fs fs'"
  "command_evaluate ft a fs = (r, fs') \<Longrightarrow> inspects a fs fs'" "command_explain ft a fs = (r, fs') \<Longrightarrow> inspects a fs fs'"
  unfolding inspects_def command_verify_def command_stats_def command_export_def command_query_def command_evaluate_def command_explain_def
  by (auto dest: opened_registry opened_open split: option.splits outcome.splits prod.splits)

text \<open>
  The inspection commands are read-only up to recovery. Whatever the command line, the files and the faults are, a run of
  the tool whose command is neither \<open>import\<close> nor \<open>ingest\<close> leaves every file as it was, except that the journal of the
  store it names may have been cut to a prefix and that store's temporary file removed.
\<close>

theorem inspection_preserves_files:
  assumes "cli_main ft connect argv fs = (r, fs')" "arg_command (parse_arguments argv) \<notin> {''import'', ''ingest''}"
  shows "fs' = fs \<or> (\<exists>store. Arguments_get ''store'' (parse_arguments argv) = Some store
    \<and> (\<forall>path. path \<noteq> journal_path store \<and> path \<noteq> temp_path store \<longrightarrow> fs' path = fs path)
    \<and> (\<exists>n. fs' (journal_path store) = map_option (take n) (fs (journal_path store)))
    \<and> (fs' (temp_path store) = fs (temp_path store) \<or> fs' (temp_path store) = None))"
proof -
  have "inspects (parse_arguments argv) fs fs'"
    using assms by (auto simp: cli_main_def Let_def dest: command_inspects split: if_splits)
  then show ?thesis by (simp add: inspects_def opened_def)
qed

section \<open>Exit codes\<close>

text \<open>A run that ends well, or with an error on a file or a refusal, or with a usage error that touched nothing.\<close>

definition disciplined :: "Files \<Rightarrow> Run \<times> Files \<Rightarrow> bool" where
  "disciplined fs p \<longleftrightarrow> exit_code (fst p) \<in> {kExitOk, kExitFailure, kExitUsage}
     \<and> (exit_code (fst p) = kExitOk \<longrightarrow> run_stderr (fst p) = [] \<and> run_stdout (fst p) \<noteq> [])
     \<and> (exit_code (fst p) = kExitUsage \<longrightarrow> snd p = fs)"

lemma disciplined_simps [simp]:
  "disciplined fs (usage_error t, fs)" "disciplined fs (failed_with t, fs')" "disciplined fs (answered t, fs')"
  by (simp_all add: disciplined_def usage_error_def failed_with_def answered_def exit_codes line_def)

lemma disciplined_failure: "exit_code r = kExitFailure \<Longrightarrow> disciplined fs (r, fs')"
  by (simp add: disciplined_def exit_codes)

lemma disciplined_registry: "(\<And>i fs'. disciplined fs (body i, fs')) \<Longrightarrow> disciplined fs (with_registry ft a store body fs)"
  by (auto simp: with_registry_def split: prod.split outcome.split)

lemma disciplined_replace: "(\<And>token fs'. disciplined fs (body token, fs')) \<Longrightarrow> disciplined fs (replace_store ft store state now body fs)"
  by (auto simp: replace_store_def split: prod.split outcome.split)

lemma disciplined_document: "(\<And>imported. disciplined fs (body imported)) \<Longrightarrow> disciplined fs (with_document ft c document body fs)"
  by (auto simp: with_document_def split: option.split outcome.split)

lemma disciplined_client: "(\<And>c now. disciplined fs (body c now, fs)) \<Longrightarrow> disciplined fs (with_client connect a body, fs)"
  by (auto simp: with_client_def Let_def split: option.split outcome.split)

lemma disciplined_reply: "disciplined fs (reply_run f reply, fs')"
  by (simp add: reply_run_def split: outcome.split)

lemmas disciplined_intros = disciplined_registry disciplined_replace disciplined_document disciplined_client disciplined_reply

lemma disciplined_import: "disciplined fs (command_import ft a fs)"
  by (auto simp: command_import_def Let_def intro!: disciplined_intros split: option.split)

lemma disciplined_ingest: "disciplined fs (command_ingest ft a fs)"
  by (auto simp: command_ingest_def Let_def snapshot_state_def intro!: disciplined_intros split: option.split sum.split prod.split)

lemma disciplined_verify: "disciplined fs (command_verify ft a fs)"
  by (auto simp: command_verify_def intro!: disciplined_failure split: option.split outcome.split prod.split)

lemma disciplined_explain: "disciplined fs (command_explain ft a fs)"
proof -
  have "disciplined fs (\<lparr>exit_code = if outcome_ok e then kExitOk else kExitFailure, run_stdout = line t, run_stderr = []\<rparr>, fs')"
    for e :: "Explanation outcome" and t fs' by (simp add: disciplined_def exit_codes line_def)
  then show ?thesis by (auto simp: command_explain_def Let_def intro!: disciplined_registry split: option.split)
qed

lemma disciplined_questions:
  "disciplined fs (command_stats ft a fs)" "disciplined fs (command_export ft a fs)" "disciplined fs (command_query ft a fs)"
  "disciplined fs (command_evaluate ft a fs)"
  by (auto simp: command_stats_def command_export_def command_query_def command_evaluate_def intro!: disciplined_registry
      split: option.split outcome.split)

lemma disciplined_remote:
  "disciplined fs (command_remote_ping connect a, fs)" "disciplined fs (command_remote_stats connect a, fs)"
  "disciplined fs (command_remote_export connect a, fs)"
  by (auto simp: command_remote_ping_def command_remote_stats_def command_remote_export_def intro!: disciplined_intros)

text \<open>
  Exit codes mean what the usage text says. The tool ends with 0, 1 or 2; a run that ends with 0 has written something to
  the standard output and nothing to the error stream, and a run that ends with 2 has changed no file.
\<close>

theorem cli_exit_codes:
  assumes "cli_main ft connect argv fs = (r, fs')"
  shows "exit_code r \<in> {0, 1, 2} \<and> (exit_code r = 0 \<longrightarrow> run_stderr r = [] \<and> run_stdout r \<noteq> []) \<and> (exit_code r = 2 \<longrightarrow> fs' = fs)"
proof -
  have usage: "disciplined fs (\<lparr>exit_code = if c then kExitUsage else kExitOk, run_stdout = usage_text, run_stderr = []\<rparr>, fs)" for c
    by (simp add: disciplined_def exit_codes usage_text_def line_def)
  have unknown: "disciplined fs (\<lparr>exit_code = kExitUsage, run_stdout = usage_text, run_stderr = t\<rparr>, fs)" for t
    by (simp add: disciplined_def exit_codes)
  have "disciplined fs (cli_main ft connect argv fs)"
    unfolding cli_main_def Let_def
    using usage unknown disciplined_import disciplined_ingest disciplined_verify disciplined_explain disciplined_questions disciplined_remote
    by (simp split: if_split)
  then show ?thesis using assms by (auto simp: disciplined_def exit_codes)
qed

section \<open>Explanations do not survive\<close>

text \<open>
  \<open>explain\<close> never explains anything. Decisions are not part of the durable state, and the tool asks a registry that
  it has just rebuilt from a store; so although the usage text promises to reprint a retained decision, no store and no
  decision make the command end with 0.
\<close>

theorem explain_never_answers: "exit_code (fst (command_explain ft a fs)) \<noteq> kExitOk"
proof -
  have none: "i_decisions i = []" if "adopt_state s now j = (i, Success c x)" for s now j i c x
    using adopt_state_shape [OF that] by (simp add: adopted_def Let_def bump_policy_revision_def adopt_def)
  show ?thesis
    by (auto simp: command_explain_def with_registry_def Let_def usage_error_def failed_with_def exit_codes explain_def none
        split: option.split prod.split outcome.split)
qed

section \<open>Replacing a store\<close>

lemma compact_installs:
  assumes "compact io s now (store, disk) = (Success c token, store', disk')" "sync_on_commit (si_options store)"
  shows "dk_snapshot disk' = Some (snapshot_bytes s now) \<and> dk_journal disk' = Some [] \<and> ct_payload_digest token = Digest256_of (encode_state s)"
proof -
  obtain out1 store1 disk1 where w: "write_snapshot io s now (store, disk) = (out1, store1, disk1)"
    by (cases "write_snapshot io s now (store, disk)")
  have j: "outcome_ok out1" "dk_journal disk' = Some []" "dk_snapshot disk' = dk_snapshot disk1" "out1 = Success c token"
    using assms(1) w by (auto simp: compact_def rotate_store_def truncate_journal_def Let_def split: outcome.splits prod.splits bool.splits if_splits)
  have "ct_payload_digest token = Digest256_of (encode_state s)"
    using w j(4) by (auto simp: write_snapshot_def Let_def split: if_splits option.splits prod.splits bool.splits)
  with w assms(2) j show ?thesis by (cases rule: write_snapshot_cases) auto
qed

lemma default_options: "store \<noteq> [] \<Longrightarrow> options_ok (default_store_options store)" "sync_on_commit (default_store_options store)"
  "so_limits (default_store_options store) = default_store_limits" "base_path (default_store_options store) = store"
  by (simp_all add: options_ok_def default_store_options_def default_store_limits_def)

lemma load_recoverable:
  assumes "store \<noteq> []" "recoverable (default_store_options store) (disk_at store fs) (Some s)"
  shows "\<exists>summary fs'. load_store working store fs = (Success Ok (s, summary), fs')"
proof -
  from recoverable_open [OF default_options(1) [OF assms(1)] assms(2)] obtain rep d where
    "Store_open no_faults (default_store_options store) (disk_at store fs) = (Success Ok rep, d)" "or_state rep = s" by blast
  then show ?thesis by (simp add: load_store_def load_state_def working_def Let_def)
qed

lemma replaced_store:
  assumes "replace_store ft store s now body fs = (r, fs')" "exit_code r = kExitOk"
  shows "store \<noteq> [] \<and> dk_snapshot (disk_at store fs') = Some (snapshot_bytes s now) \<and> dk_journal (disk_at store fs') = Some []
    \<and> (\<exists>token. r = body token \<and> ct_payload_digest token = Digest256_of (encode_state s))"
proof -
  obtain bound where b: "Store_bind (ft_bind ft) (default_store_options store) (disk_at store fs) = Success Ok bound"
      "store \<noteq> []" "si_options bound = default_store_options store"
    using assms
    by (auto simp: replace_store_def Store_bind_def failed_with_def exit_codes default_options split: if_splits outcome.splits)
  obtain out bound' d where c: "compact (ft_write ft) s now (bound, disk_at store fs) = (out, bound', d)"
    by (cases "compact (ft_write ft) s now (bound, disk_at store fs)")
  obtain k token where o: "out = Success k token"
    using assms b c by (cases out) (auto simp: replace_store_def failed_with_def exit_codes)
  have "r = body token" "fs' = put_disk store d fs" using assms(1) b(1) c o by (simp_all add: replace_store_def)
  then show ?thesis using compact_installs [of "ft_write ft" s now bound "disk_at store fs" k token bound' d] c o b default_options(2) by auto
qed

lemma replaced_loads:
  assumes "replace_store ft store s now body fs = (r, fs')" "exit_code r = kExitOk" "fits_snapshot default_store_limits s"
  shows "\<exists>summary fs''. load_store working store fs' = (Success Ok (s, summary), fs'')"
proof -
  note r = replaced_store [OF assms(1,2)]
  have "files (disk_at store fs') (Some (s, now)) [] []" using r by (simp add: files_def journal_of_def)
  then have "recoverable (default_store_options store) (disk_at store fs') (Some s)"
    using assms(3) default_options(3) [of store] unfolding recoverable_def
    by (intro exI [of _ "Some (s, now)"] exI [of _ "[]"] exI [of _ "[]"]) (simp add: contents_ok_def commits_ok_def held_def journal_of_def)
  then show ?thesis using load_recoverable r by blast
qed

text \<open>The steps of a run of \<open>import\<close> that ended well.\<close>

lemma import_run:
  assumes "command_import ft a fs = (r, fs')" "exit_code r = kExitOk" "Arguments_get ''store'' a = Some store" "Arguments_get ''document'' a = Some document"
  shows "\<exists>t c imported body. read_text_file ft document fs = Some t \<and> import_document t = Success c imported
    \<and> replace_store ft store (imported_state ft a fs (ir_state imported)) (tick_from a) body fs = (r, fs')"
  using assms by (auto simp: command_import_def with_document_def failed_with_def exit_codes Let_def split: option.splits outcome.splits)

text \<open>
  An import is installed completely. After a run of \<open>import\<close> that ended with 0, whatever the named store held before, the
  next load of that store succeeds and gives exactly the state of the document, under the requested policy if one was named
  and with its store generation advanced; only a state that the store format itself cannot carry is excepted.
\<close>

theorem import_installs:
  assumes "command_import ft a fs = (r, fs')" "exit_code r = kExitOk" "Arguments_get ''store'' a = Some store" "Arguments_get ''document'' a = Some document"
  shows "\<exists>t c imported. read_text_file ft document fs = Some t \<and> import_document t = Success c imported
    \<and> (fits_snapshot default_store_limits (imported_state ft a fs (ir_state imported)) \<longrightarrow>
        (\<exists>summary fs''. load_store working store fs' = (Success Ok (imported_state ft a fs (ir_state imported), summary), fs'')))"
  using import_run [OF assms] replaced_loads assms(2) by blast

section \<open>Backup and restore\<close>

lemma parse_dumped_line:
  assumes v: "json_fits limits pretty v" "length (JsonValue_dump pretty v) < jl_max_bytes limits"
  shows "JsonValue_parse limits (line (JsonValue_dump pretty v)) = Success Ok v"
proof -
  have "valid_utf8 (JsonValue_dump pretty v)"
    using v unfolding JsonValue_dump_def by (intro valid_utf8_dump) (simp add: json_fits_def list_all_iff)
  then have "valid_utf8 (JsonValue_dump pretty v @ [CHR 0x0A])" by (rule valid_utf8_append) (rule valid_utf8_ascii, simp add: byte_of_less)
  moreover have "parse_value (Suc (jl_max_depth limits)) limits (dump_to pretty 0 v @ [CHR 0x0A]) 0 = Inr (v, [CHR 0x0A], 0 + json_items v)"
    using v by (intro parse_value_dump) (simp_all add: json_fits_def list_all_iff ends_number_def is_digit_of_char)
  moreover have "skip_whitespace [CHR 0x0A] = []" by (simp add: skip_whitespace_def json_space_def)
  ultimately show ?thesis
    using v(2) by (simp add: JsonValue_parse_def parse_document_def JsonValue_dump_def line_def del: parse_value.simps)
qed

text \<open>The registry the commands build from a loaded state.\<close>

definition revived :: "Arguments \<Rightarrow> RegistryState \<Rightarrow> Impl" where
  "revived a state = fst (adopt_state state (tick_from a) (Registry_restored (rs_policy state) state))"

abbreviation export_options :: "Arguments \<Rightarrow> ExportOptions" where
  "export_options a \<equiv> default_export_options\<lparr>eo_pretty := Arguments_flag ''pretty'' a\<rparr>"

lemma export_run:
  assumes "command_export ft a fs = (r, fs')" "exit_code r = kExitOk" "Arguments_get ''store'' a = Some store"
  shows "\<exists>state summary out c. load_store ft store fs = (Success Ok (state, summary), fs')
    \<and> export_registry (revived a state) (export_options a) (tick_from a) = Success c out \<and> run_stdout r = line (er_document out)"
proof -
  obtain out fs1 where l: "load_store ft store fs = (out, fs1)" by (cases "load_store ft store fs")
  have k: "c = Ok" if "out = Success c p" for c p using l that by (auto simp: load_store_def split: prod.splits outcome.splits)
  show ?thesis
    using assms l k
    by (auto simp: command_export_def with_registry_def failed_with_def answered_def exit_codes revived_def
        split: outcome.splits prod.splits)
qed

text \<open>What a document of a state must satisfy to be read back by the tool, which reads the trailing newline too.\<close>

definition portable :: "Arguments \<Rightarrow> Impl \<Rightarrow> bool" where
  "portable a i \<longleftrightarrow> doc_state (to_state i) \<and> policy_name_ok (i_policy i) \<and> complete_export (export_options a) (to_state i)
     \<and> json_items (export_json (to_state i) (export_options a) (tick_from a)) \<le> jl_max_items default_json_limits
     \<and> length (JsonValue_dump (Arguments_flag ''pretty'' a) (export_json (to_state i) (export_options a) (tick_from a))) < jl_max_bytes default_json_limits"

lemma printed_export_imports:
  assumes "portable a i" "export_registry i (export_options a) (tick_from a) = Success c out"
  shows "\<exists>imported. import_document (line (er_document out)) = Success Ok imported \<and> ir_state imported = to_state i"
proof -
  let ?j = "export_json (to_state i) (export_options a) (tick_from a)"
  have "policy_name_ok (rs_policy (to_state i))" using assms(1) by (simp add: portable_def to_state_def)
  then have "shaped 5 ?j" using assms(1) by (intro shaped_export) (simp_all add: portable_def)
  then have "json_fits default_json_limits (Arguments_flag ''pretty'' a) ?j"
    using assms(1) by (intro shaped_fits [of 5]) (simp_all add: portable_def document_bounds_def default_json_limits_def)
  from parse_dumped_line [OF this] have "JsonValue_parse default_json_limits (line (er_document out)) = Success Ok ?j"
    using assms(1) export_registry_Success [OF assms(2)] by (simp add: portable_def default_export_options_def)
  moreover have "import_state ?j = Inr (to_state i)" using assms(1) by (intro import_state_json) (simp_all add: portable_def)
  ultimately show ?thesis by (simp add: import_document_def outcome_of_def)
qed

text \<open>
  A store can be backed up and restored. When the output of a run of \<open>export\<close> is kept in a file and that file is given to
  \<open>import\<close>, and both runs end with 0, then a load of the second store gives exactly the durable state of the registry that
  was exported, with the store generation advanced, whatever the second store held before. The state must be one that
  documents and the store format can carry.
\<close>

theorem backup_restore:
  assumes "command_export ft a fs = (r, fs1)" "exit_code r = kExitOk" "Arguments_get ''store'' a = Some store"
    "load_store ft store fs = (Success Ok (state, summary), fs1)" "portable a (revived a state)"
    "fits_snapshot default_store_limits ((to_state (revived a state))\<lparr>rs_store_generation := rs_store_generation (to_state (revived a state)) + 1\<rparr>)"
    "fs2 document = Some (str_bytes (run_stdout r))" "command_import ft' b fs2 = (r', fs3)" "exit_code r' = kExitOk"
    "Arguments_get ''store'' b = Some store'" "Arguments_get ''document'' b = Some document" "\<not> Arguments_flag ''policy'' b"
  shows "\<exists>summary fs4. load_store working store' fs3
    = (Success Ok ((to_state (revived a state))\<lparr>rs_store_generation := rs_store_generation (to_state (revived a state)) + 1\<rparr>, summary), fs4)"
proof -
  obtain out c where e: "export_registry (revived a state) (export_options a) (tick_from a) = Success c out" "run_stdout r = line (er_document out)"
    using export_run [OF assms(1-3)] assms(4) by auto
  obtain imported where i: "import_document (run_stdout r) = Success Ok imported" "ir_state imported = to_state (revived a state)"
    using printed_export_imports [OF assms(5) e(1)] e(2) by auto
  obtain t c' imported' body where m: "read_text_file ft' document fs2 = Some t" "import_document t = Success c' imported'"
      "replace_store ft' store' (imported_state ft' b fs2 (ir_state imported')) (tick_from b) body fs2 = (r', fs3)"
    using import_run [OF assms(8-11)] by blast
  have "t = run_stdout r" using m(1) assms(7) by (auto simp: read_text_file_def split: if_splits)
  then have s: "imported_state ft' b fs2 (ir_state imported')
      = (to_state (revived a state))\<lparr>rs_store_generation := rs_store_generation (to_state (revived a state)) + 1\<rparr>"
    using m(2) i assms(12) by (simp add: imported_state_def Let_def)
  from replaced_loads [OF m(3) assms(9)] assms(6) show ?thesis unfolding s by blast
qed

section \<open>Ingestion\<close>

text \<open>No admitted record has a content id that collides with that of another stream's record.\<close>

fun ingest_free :: "Tick \<Rightarrow> StoredEvidence list \<Rightarrow> Impl \<Rightarrow> bool" where
  "ingest_free now [] i \<longleftrightarrow> True"
| "ingest_free now (r # rs) i \<longleftrightarrow> collision_free i (request_of (s_evidence r)) \<and> ingest_free now rs (fst (admit (request_of (s_evidence r)) now i))"

lemma install_layout_steps: "install_layout now es i = Inr i' \<Longrightarrow> step\<^sup>*\<^sup>* i i'"
proof (induction es arbitrary: i)
  case (Cons e es)
  obtain j out where s: "set_device_incarnation (ie_device e) (ie_current e) now i = (j, out)"
    by (cases "set_device_incarnation (ie_device e) (ie_current e) now i")
  have "step i j" using step.sets_incarnation [of i "ie_device e" "ie_current e" now] s by simp
  moreover have "step\<^sup>*\<^sup>* j i'" using Cons s by (auto split: outcome.splits)
  ultimately show ?case by (rule converse_rtranclp_into_rtranclp)
qed simp

lemma ingest_loop_steps: "ingest_free now rs i \<Longrightarrow> step\<^sup>*\<^sup>* i (fst (ingest_loop now rs (i, t)))"
proof (induction rs arbitrary: i t)
  case (Cons r rs)
  obtain j out where s: "admit (request_of (s_evidence r)) now i = (j, out)" by (cases "admit (request_of (s_evidence r)) now i")
  have "step i j" using Cons(2) step.admits [of i "request_of (s_evidence r)" now] s by simp
  moreover have "step\<^sup>*\<^sup>* j (fst (ingest_loop now rs (j, count_admission out t)))" using Cons s by simp
  ultimately show ?case using s by (simp add: converse_rtranclp_into_rtranclp)
qed simp

definition tallied :: "Tally \<Rightarrow> u64" where
  "tallied t = tl_accepted t + tl_idempotent t + tl_refused t"

lemma count_admission_tallied: "tallied (count_admission out t) = tallied t + 1"
  by (simp add: tallied_def count_admission_def count_refusal_def split: outcome.split)

lemma ingest_loop_tallied: "tallied (snd (ingest_loop now rs (i, t))) = tallied t + of_nat (length rs)"
  by (induction rs arbitrary: i t) (auto simp: count_admission_tallied split: prod.split)

lemma ingest_run:
  assumes "command_ingest ft a fs = (r, fs')" "exit_code r = kExitOk" "Arguments_get ''store'' a = Some store" "Arguments_get ''document'' a = Some document"
  shows "\<exists>t c imported layout i tally body. read_text_file ft document fs = Some t \<and> import_document t = Success c imported
    \<and> install_layout (tick_from a) (rs_incarnations (ir_state imported)) (Registry_init (ingest_policy ft a fs (ir_state imported))) = Inr layout
    \<and> ingest_loop (tick_from a) (rs_records (ir_state imported)) (layout, no_tally) = (i, tally)
    \<and> replace_store ft store ((to_state i)\<lparr>rs_store_generation := rs_store_generation (ir_state imported) + 1\<rparr>) (tick_from a) body fs = (r, fs')"
  using assms
  by (auto simp: command_ingest_def with_document_def failed_with_def exit_codes Let_def snapshot_state_def
      split: option.splits outcome.splits sum.splits prod.splits)

text \<open>
  An ingest goes through the registry. After a run of \<open>ingest\<close> that ended with 0, every record of the document was counted
  once, as accepted, idempotent or refused; the state a load of the store gives is the durable state of a registry that the
  engine's own operations reach from an empty one under the policy in force, so that everything proved of reachable registries
  holds for it, whatever the document contained. Content ids are assumed not to collide.
\<close>

theorem ingest_admits:
  assumes "command_ingest ft a fs = (r, fs')" "exit_code r = kExitOk" "Arguments_get ''store'' a = Some store" "Arguments_get ''document'' a = Some document"
  shows "\<exists>t c imported p layout i tally. read_text_file ft document fs = Some t \<and> import_document t = Success c imported
    \<and> p = ingest_policy ft a fs (ir_state imported)
    \<and> install_layout (tick_from a) (rs_incarnations (ir_state imported)) (Registry_init p) = Inr layout
    \<and> ingest_loop (tick_from a) (rs_records (ir_state imported)) (layout, no_tally) = (i, tally)
    \<and> tl_accepted tally + tl_idempotent tally + tl_refused tally = of_nat (length (rs_records (ir_state imported)))
    \<and> (ingest_free (tick_from a) (rs_records (ir_state imported)) layout \<longrightarrow> reachable p i)
    \<and> (let s = (to_state i)\<lparr>rs_store_generation := rs_store_generation (ir_state imported) + 1\<rparr> in
        fits_snapshot default_store_limits s \<longrightarrow> (\<exists>summary fs''. load_store working store fs' = (Success Ok (s, summary), fs'')))"
proof -
  let ?p = "\<lambda>imported. ingest_policy ft a fs (ir_state imported)"
  obtain t c imported layout i tally body where m: "read_text_file ft document fs = Some t" "import_document t = Success c imported"
      "install_layout (tick_from a) (rs_incarnations (ir_state imported)) (Registry_init (?p imported)) = Inr layout"
      "ingest_loop (tick_from a) (rs_records (ir_state imported)) (layout, no_tally) = (i, tally)"
      "replace_store ft store ((to_state i)\<lparr>rs_store_generation := rs_store_generation (ir_state imported) + 1\<rparr>) (tick_from a) body fs = (r, fs')"
    using ingest_run [OF assms] by blast
  have "tallied tally = of_nat (length (rs_records (ir_state imported)))"
    using ingest_loop_tallied [of "tick_from a" "rs_records (ir_state imported)" layout no_tally] m(4) by (simp add: tallied_def no_tally_def)
  moreover have "reachable (?p imported) i" if "ingest_free (tick_from a) (rs_records (ir_state imported)) layout"
    using rtranclp_trans [OF install_layout_steps [OF m(3)] ingest_loop_steps [OF that, of no_tally]] m(4) by (simp add: reachable_def)
  ultimately show ?thesis using m(1-4) replaced_loads [OF m(5) assms(2)] unfolding tallied_def Let_def by blast
qed

section \<open>Sample runs\<close>

definition no_files :: Files where "no_files = (\<lambda>path. None)"

definition sample_args :: "(string \<times> string) list \<Rightarrow> Arguments" where
  "sample_args opts = no_arguments\<lparr>arg_options := opts\<rparr>"

abbreviation from_a :: Arguments where "from_a \<equiv> sample_args [(''store'', ''a'')]"
abbreviation to_b :: Arguments where "to_b \<equiv> sample_args [(''store'', ''b''), (''document'', ''doc'')]"

lemma sample_args_simps [simp]:
  "Arguments_get n (sample_args opts) = map_of opts n" "Arguments_flag n (sample_args opts) \<longleftrightarrow> map_of opts n \<noteq> None"
  by (simp_all add: Arguments_get_def Arguments_flag_def sample_args_def)

lemma sample_tick: "tick_from from_a = 0" "tick_from to_b = 0"
  by (simp_all add: tick_from_def)

lemma empty_load:
  assumes "store \<noteq> []"
  shows "\<exists>summary. load_store working store no_files = (Success Ok (default_state, summary), no_files)"
proof -
  have d: "disk_at store no_files = \<lparr>dk_snapshot = None, dk_journal = None, dk_temp = None\<rparr>" by (simp add: disk_at_def no_files_def)
  have o: "Store_open no_faults (default_store_options store) (disk_at store no_files) = (Success Ok (default_report\<lparr>or_state := default_state,
      or_classification := CleanOpen, or_reason := StoreEmptyNew\<rparr>), disk_at store no_files)"
    using assms by (simp add: d Store_open_def sweep_temp_def Let_def conclude_def default_options default_report_def)
  show ?thesis by (simp add: load_store_def load_state_def working_def o Let_def default_report_def)
qed

lemma revived_empty: "to_state (revived a default_state) = to_state (fresh 0)"
  "i_policy (revived a default_state) = default_policy" if t: "tick_from a = 0"
proof -
  obtain i out where a: "adopt_state default_state (tick_from a) (Registry_restored (rs_policy default_state) default_state) = (i, Success Ok out)"
    using adopt_state_total by blast
  have i: "revived a default_state = i" by (simp add: revived_def a)
  show "i_policy (revived a default_state) = default_policy"
    unfolding i adopt_state_shape [OF a]
    by (simp add: adopted_frame default_state_def Registry_restored_def sort_policy_def sort_sources_def default_policy_def)
  show "to_state (revived a default_state) = to_state (fresh 0)"
    unfolding i adopt_state_shape [OF a] fresh_to_state
    by (simp add: t to_state_def adopted_def Let_def bump_policy_revision_def adopt_def default_state_def Registry_restored_def sort_policy_def
        sort_sources_def default_policy_def resume_tick_def highest_observed_def refresh_all_conflicts_def adopt_world_def conflict_targets_def
        map_streams_def group_keys_def om_keys_def named_policy_def flatten_records_def flatten_tombstones_def streams_of_def tombstones_of_def om_vals_def)
qed

text \<open>The export of an empty store, as the file a shell would make of it, and what an import of that file installs.\<close>

lemma empty_portable: "portable from_a (revived from_a default_state)"
  "\<exists>out. export_registry (revived from_a default_state) (export_options from_a) 0 = Success Ok out"
proof -
  note r = revived_empty [of from_a, OF sample_tick(1)]
  have e: "export_options from_a = export_with True" by (simp add: export_with_def default_export_options_def)
  have o: "named_policy 0 = default_policy" by (simp add: named_policy_def default_policy_def)
  have b: "document_bounds False (export_json (to_state (fresh 0)) (export_with True) 0)
      \<and> length (JsonValue_dump False (export_json (to_state (fresh 0)) (export_with True) 0)) \<le> 100000"
    using fresh_size [of 0 True 0] by (intro compact_bounds) simp_all
  then show "portable from_a (revived from_a default_state)"
    using fresh_doc_state [of 0] fresh_export(3) [of 0] named_policy_ok(2) [of 0] unfolding portable_def r sample_tick(1) e o
    by (simp add: document_bounds_def) (simp add: default_json_limits_def)
  show "\<exists>out. export_registry (revived from_a default_state) (export_options from_a) 0 = Success Ok out"
    using b unfolding export_registry_def snapshot_state_def outcome.case r(1) e
    by (simp add: Let_def export_with_def default_export_options_def split: prod.split)
qed

definition empty_document :: string where
  "empty_document = run_stdout (fst (command_export working from_a no_files))"

lemma empty_export:
  "\<exists>r. command_export working from_a no_files = (r, no_files) \<and> exit_code r = kExitOk \<and> run_stdout r = empty_document"
  "\<exists>imported. import_document empty_document = Success Ok imported \<and> ir_state imported = to_state (fresh 0)"
proof -
  obtain summary where l: "load_store working ''a'' no_files = (Success Ok (default_state, summary), no_files)" using empty_load [of "''a''"] by auto
  obtain out where e: "export_registry (revived from_a default_state) (export_options from_a) 0 = Success Ok out" using empty_portable(2) by blast
  obtain i s where a: "adopt_state default_state 0 (Registry_restored (rs_policy default_state) default_state) = (i, Success Ok s)"
    using adopt_state_total by blast
  have c: "command_export working from_a no_files = (answered (er_document out), no_files)"
    using l e a by (simp add: command_export_def with_registry_def sample_tick revived_def)
  then show "\<exists>r. command_export working from_a no_files = (r, no_files) \<and> exit_code r = kExitOk \<and> run_stdout r = empty_document"
    by (simp add: answered_def empty_document_def)
  have "empty_document = line (er_document out)" by (simp add: empty_document_def c answered_def)
  then show "\<exists>imported. import_document empty_document = Success Ok imported \<and> ir_state imported = to_state (fresh 0)"
    using printed_export_imports [OF empty_portable(1), of Ok out] e sample_tick(1) revived_empty(1) [OF sample_tick(1)] by simp
qed

definition backup_files :: Files where
  "backup_files = no_files(''doc'' \<mapsto> str_bytes empty_document)"

definition restored_state :: RegistryState where
  "restored_state = (to_state (fresh 0))\<lparr>rs_store_generation := 1\<rparr>"

lemma restored_fits: "fits_snapshot default_store_limits restored_state" "length (encode_state restored_state) = 354"
proof -
  have s: "restored_state = (sample_state 1)\<lparr>rs_epoch := 1, rs_rule_generation := 1, rs_policy_revision := 1, rs_boot_epoch := 1\<rparr>"
    by (simp add: restored_state_def fresh_to_state sample_state_def default_state_def named_policy_def default_policy_def)
  show n: "length (encode_state restored_state) = 354" using sample_state_size [of 1] by (simp add: s encode_state_def)
  have "state_ok restored_state" using sample_state_ok [of 1] by (simp add: s state_ok_def)
  then show "fits_snapshot default_store_limits restored_state" by (simp add: fits_snapshot_def n) (simp add: default_store_limits_def)
qed

lemma replace_works:
  assumes "store \<noteq> []" "length (encode_state s) \<le> max_snapshot_bytes default_store_limits"
  shows "\<exists>token fs'. replace_store working store s now body fs = (body token, fs')"
proof -
  obtain bound where b: "Store_bind no_faults (default_store_options store) (disk_at store fs) = Success Ok bound"
      "si_options bound = default_store_options store"
    using assms(1) by (simp add: Store_bind_def default_options)
  obtain out bound' d where c: "compact no_faults s now (bound, disk_at store fs) = (out, bound', d)"
    by (cases "compact no_faults s now (bound, disk_at store fs)")
  have "outcome_ok out"
    using rotate_no_faults [of s now "''journal truncation failed''" bound "disk_at store fs"] assms(2) b(2) c
    by (simp add: compact_def default_options)
  then show ?thesis using b c by (cases out) (auto simp: replace_store_def working_def)
qed

lemma replace_answers:
  assumes "store \<noteq> []" "length (encode_state s) \<le> max_snapshot_bytes default_store_limits"
  shows "exit_code (fst (replace_store working store s now (\<lambda>token. answered (f token)) fs)) = kExitOk"
  using replace_works [OF assms, of now "\<lambda>token. answered (f token)" fs] by (auto simp: answered_def)

lemma backup_reads: "read_text_file working ''doc'' backup_files = Some empty_document"
  by (simp add: read_text_file_def working_def backup_files_def)

lemma backup_import:
  "exit_code (fst (command_import working to_b backup_files)) = kExitOk"
  "import_document empty_document = Success c imported \<Longrightarrow> imported_state working to_b backup_files (ir_state imported) = restored_state"
proof -
  obtain im where i: "import_document empty_document = Success Ok im" "ir_state im = to_state (fresh 0)" using empty_export(2) by blast
  have s: "imported_state working to_b backup_files (ir_state im) = restored_state"
    by (simp add: i(2) imported_state_def Let_def restored_state_def fresh_to_state default_state_def)
  then show "import_document empty_document = Success c imported \<Longrightarrow> imported_state working to_b backup_files (ir_state imported) = restored_state"
    using i by simp
  have size: "length (encode_state restored_state) \<le> max_snapshot_bytes default_store_limits" by (simp add: restored_fits default_store_limits_def)
  show "exit_code (fst (command_import working to_b backup_files)) = kExitOk"
    by (simp add: command_import_def with_document_def backup_reads i(1) s Let_def replace_answers [OF _ size])
qed

theorem import_installs_witness:
  "\<exists>r fs' summary fs''. command_import working to_b backup_files = (r, fs') \<and> exit_code r = kExitOk
    \<and> load_store working ''b'' fs' = (Success Ok (restored_state, summary), fs'')"
proof -
  obtain r fs' where c: "command_import working to_b backup_files = (r, fs')" "exit_code r = kExitOk"
    using backup_import(1) by (cases "command_import working to_b backup_files") simp
  have g: "Arguments_get ''store'' to_b = Some ''b''" "Arguments_get ''document'' to_b = Some ''doc''" by simp_all
  from import_installs [OF c g] obtain t k imported where i: "read_text_file working ''doc'' backup_files = Some t" "import_document t = Success k imported"
      "fits_snapshot default_store_limits (imported_state working to_b backup_files (ir_state imported)) \<longrightarrow>
        (\<exists>summary fs''. load_store working ''b'' fs' = (Success Ok (imported_state working to_b backup_files (ir_state imported), summary), fs''))"
    by blast
  have "t = empty_document" using i(1) backup_reads by simp
  then show ?thesis using i(2,3) backup_import(2) [of k imported] restored_fits(1) c by auto
qed

theorem backup_restore_witness:
  "\<exists>r r' fs' summary fs''. command_export working from_a no_files = (r, no_files) \<and> exit_code r = kExitOk
    \<and> command_import working to_b (no_files(''doc'' \<mapsto> str_bytes (run_stdout r))) = (r', fs')
    \<and> load_store working ''b'' fs' = (Success Ok (restored_state, summary), fs'')"
proof -
  obtain r where e: "command_export working from_a no_files = (r, no_files)" "exit_code r = kExitOk" "run_stdout r = empty_document"
    using empty_export(1) by blast
  obtain r' fs' where c: "command_import working to_b backup_files = (r', fs')" "exit_code r' = kExitOk"
    using backup_import(1) by (cases "command_import working to_b backup_files") simp
  obtain summary where l: "load_store working ''a'' no_files = (Success Ok (default_state, summary), no_files)" using empty_load [of "''a''"] by auto
  have s: "(to_state (revived from_a default_state))\<lparr>rs_store_generation := rs_store_generation (to_state (revived from_a default_state)) + 1\<rparr> = restored_state"
    unfolding revived_empty(1) [OF sample_tick(1)] by (simp add: restored_state_def fresh_to_state default_state_def)
  have f: "backup_files ''doc'' = Some (str_bytes (run_stdout r))" "backup_files = no_files(''doc'' \<mapsto> str_bytes (run_stdout r))"
    by (simp_all add: backup_files_def e(3))
  from backup_restore [OF e(1,2) _ l empty_portable(1) _ f(1) c, of "''b''"] have
    "\<exists>summary fs4. load_store working ''b'' fs' = (Success Ok (restored_state, summary), fs4)"
    unfolding s using restored_fits(1) by simp
  then show ?thesis using e(1,2) c(1) f(2) by auto
qed

theorem inspection_preserves_files_witness:
  "\<exists>r fs'. cli_main working (\<lambda>host port. Failure TransportUnavailable []) [''ocreg'', ''verify'', ''--store'', ''db''] backup_files = (r, fs')
    \<and> fs' ''doc'' = backup_files ''doc''"
proof -
  let ?argv = "[''ocreg'', ''verify'', ''--store'', ''db'']"
  obtain r fs' where c: "cli_main working (\<lambda>host port. Failure TransportUnavailable []) ?argv backup_files = (r, fs')"
    by (cases "cli_main working (\<lambda>host port. Failure TransportUnavailable []) ?argv backup_files")
  have p: "parse_arguments ?argv = \<lparr>arg_command = ''verify'', arg_options = [(''store'', ''db'')], arg_positional = []\<rparr>" by code_simp
  have a: "arg_command (parse_arguments ?argv) \<notin> {''import'', ''ingest''}" "Arguments_get ''store'' (parse_arguments ?argv) = Some ''db''"
    unfolding p by (simp_all add: Arguments_get_def)
  have d: "''doc'' \<noteq> journal_path ''db''" "''doc'' \<noteq> temp_path ''db''" by (simp_all add: journal_path_def temp_path_def)
  have "fs' ''doc'' = backup_files ''doc''" using inspection_preserves_files [OF c a(1)] a(2) d by (elim disjE exE conjE) simp_all
  then show ?thesis using c by blast
qed

end
