(* ===== verification/ServiceTool.thy ===== *)
theory ServiceTool
  imports ToolProps
begin

text \<open>
  The service executable, \<open>tools/ocreg_service.cpp\<close>: it loads a store, serves the registry until it is told to stop and
  commits the registry's final state. Listening is a parameter, and so is what happened between start and stop, the
  service that \<open>stop\<close> leaves; in the properties it is any service the threads can reach.
\<close>

section \<open>The executable\<close>

text \<open>The policy and what was written to the error stream about it.\<close>

definition load_policy :: "Faults \<Rightarrow> Arguments \<Rightarrow> Files \<Rightarrow> RegistryPolicy \<times> string" where
  "load_policy ft a fs =
     (case Arguments_get ''policy'' a of None \<Rightarrow> (make_lab_policy, [])
      | Some path \<Rightarrow> (case read_text_file ft path fs of
            None \<Rightarrow> (make_lab_policy, line (''policy file could not be read: '' @ path))
          | Some document \<Rightarrow> (case parse_policy_document document of
                Failure reason _ \<Rightarrow> (make_lab_policy, line (''policy rejected: '' @ reason_to_string reason))
              | Success _ p \<Rightarrow> (p, []))))"

definition carries_state :: "RegistryState \<Rightarrow> RecoverySummary \<Rightarrow> bool" where
  "carries_state state summary \<longleftrightarrow> rs_records state \<noteq> [] \<or> rs_incarnations state \<noteq> [] \<or> rs_tombstones state \<noteq> [] \<or> rs_conflicts state \<noteq> []
     \<or> classification summary = JournalReplayed \<or> classification summary = TornTailTruncated
     \<or> classification summary = TrailingCorruptDropped"

text \<open>The registry that is served: a fresh one under the policy, or one that adopts the loaded state.\<close>

definition served_registry :: "RegistryPolicy \<Rightarrow> (RegistryState \<times> RecoverySummary) outcome \<Rightarrow> Tick \<Rightarrow> ReasonCode + Impl" where
  "served_registry policy loaded now =
     (case loaded of
        Success _ (state, summary) \<Rightarrow>
          if carries_state state summary
          then (case adopt_state state now (Registry_init (if p_sources (rs_policy state) \<noteq> [] then rs_policy state else policy)) of
                  (i, Failure reason _) \<Rightarrow> Inl reason | (i, Success _ _) \<Rightarrow> Inr i)
          else Inr (Registry_init policy)
      | Failure _ _ \<Rightarrow> Inr (Registry_init policy))"

definition bounded_option :: "string \<Rightarrow> u64 \<Rightarrow> nat \<Rightarrow> Arguments \<Rightarrow> nat" where
  "bounded_option name bound fallback a =
     (case Arguments_get name a of None \<Rightarrow> fallback
      | Some t \<Rightarrow> (case parse_unsigned t of None \<Rightarrow> fallback
          | Some value \<Rightarrow> if value > 0 \<and> value \<le> bound then unat value else fallback))"

definition server_options :: "Arguments \<Rightarrow> ServerOptions option" where
  "server_options a =
     (case (case Arguments_get ''port'' a of None \<Rightarrow> Some 0 | Some t \<Rightarrow> parse_unsigned t) of None \<Rightarrow> None
      | Some port \<Rightarrow> if port > 65535 then None
          else Some (default_server_options\<lparr>sv_bind_address := Arguments_get_or ''bind'' ''127.0.0.1'' a, sv_port := ucast port,
            sv_max_workers := bounded_option ''workers'' 64 (sv_max_workers default_server_options) a,
            sv_max_connections := bounded_option ''connections'' 4096 (sv_max_connections default_server_options) a\<rparr>))"

record Setup =
  su_store :: string
  su_now :: Tick
  su_registry :: Impl
  su_options :: ServerOptions
  su_warnings :: string

definition service_usage :: string where
  "service_usage = concat (map line [
     ''usage: ocreg_service --store PATH [--port N] [--bind ADDR] [--workers N]'',
     ''                    [--connections N] [--policy FILE] [--tick N]'',
     ''Prints 'PORT <n>' once listening and exits after a Shutdown request.''])"

definition service_ready :: "Arguments \<Rightarrow> string \<Rightarrow> RegistryPolicy \<Rightarrow> string \<Rightarrow> (RegistryState \<times> RecoverySummary) outcome \<Rightarrow> Run + Setup" where
  "service_ready a store policy warnings loaded =
     (case served_registry policy loaded (tick_from a) of
        Inl reason \<Rightarrow> Inl (failed_with (warnings @ line (''state rejected: '' @ reason_to_string reason)))
      | Inr i \<Rightarrow> (case server_options a of
            None \<Rightarrow> Inl \<lparr>exit_code = 2, run_stdout = [], run_stderr = warnings @ line ''port must be in 0..65535''\<rparr>
          | Some options \<Rightarrow> Inr \<lparr>su_store = store, su_now = tick_from a, su_registry = i, su_options = options, su_warnings = warnings\<rparr>))"

text \<open>Everything up to the construction of the service.\<close>

definition service_setup :: "Faults \<Rightarrow> Arguments \<Rightarrow> Files \<Rightarrow> (Run + Setup) \<times> Files" where
  "service_setup ft a fs =
     (if arg_command a = ''help'' \<or> arg_command a = ''--help''
      then (Inl \<lparr>exit_code = 0, run_stdout = service_usage, run_stderr = []\<rparr>, fs)
      else case Arguments_get ''store'' a of None \<Rightarrow> (Inl (usage_error ''a --store path is required''), fs)
      | Some store \<Rightarrow>
         (case load_policy ft a fs of (policy, warnings) \<Rightarrow>
          case load_store ft store fs of (loaded, fs) \<Rightarrow>
            if \<not> outcome_ok loaded \<and> outcome_reason loaded \<noteq> StoreEmptyNew
            then (Inl (failed_with (warnings @ line (''store rejected: '' @ reason_to_string (outcome_reason loaded)
                    @ (if failure_detail loaded = [] then [] else '': '' @ failure_detail loaded)))), fs)
            else (service_ready a store policy warnings loaded, fs)))"

text \<open>The last phase, after \<open>stop\<close> has returned.\<close>

definition service_finish :: "Faults \<Rightarrow> Setup \<Rightarrow> u16 \<Rightarrow> Service \<Rightarrow> Files \<Rightarrow> Run \<times> Files" where
  "service_finish ft su port s fs =
     (let printed = line (''PORT '' @ dec_string (unat port));
          stopped = (\<lambda>what reason. \<lparr>exit_code = 1, run_stdout = printed, run_stderr = su_warnings su @ line (what @ reason_to_string reason)\<rparr>)
      in case snapshot_state (s_registry s) of
           Failure reason _ \<Rightarrow> (stopped ''final snapshot refused: '' reason, fs)
         | Success _ state \<Rightarrow>
            (case Store_bind (ft_bind ft) (default_store_options (su_store su)) (disk_at (su_store su) fs) of
               Failure reason _ \<Rightarrow> (stopped ''store bind failed: '' reason, fs)
             | Success _ bound \<Rightarrow>
                (case commit (ft_write ft) (state\<lparr>rs_store_generation := rs_store_generation state + 1\<rparr>) (su_now su) []
                        (bound, disk_at (su_store su) fs) of
                   (Failure reason _, notes, bound, d) \<Rightarrow> (stopped ''final commit failed: '' reason, put_disk (su_store su) d fs)
                 | (Success _ token, notes, bound, d) \<Rightarrow>
                    (\<lparr>exit_code = 0, run_stdout = printed @ line (''SERVED '' @ dec_string (unat (s_requests_served s)))
                        @ line (''COMMITTED '' @ Digest256_hex (ct_payload_digest token)), run_stderr = su_warnings su\<rparr>,
                     put_disk (su_store su) d fs))))"

text \<open>\<open>listen\<close> is what \<open>listen_on\<close> returns, \<open>serve\<close> the service that the running threads and a stop make of the started one.\<close>

definition service_main :: "Faults \<Rightarrow> (ServerOptions \<Rightarrow> u16 outcome) \<Rightarrow> (Service \<Rightarrow> Service) \<Rightarrow> string list \<Rightarrow> Files \<Rightarrow> Run \<times> Files" where
  "service_main ft listen serve argv fs =
     (case service_setup ft (parse_arguments argv) fs of
        (Inl r, fs) \<Rightarrow> (r, fs)
      | (Inr su, fs) \<Rightarrow>
         (case Service_start (listen (su_options su)) (Service_init (su_registry su) (su_options su)) of
            (s, Failure reason _) \<Rightarrow> (failed_with (su_warnings su @ line (''service failed to start: '' @ reason_to_string reason)), fs)
          | (s, Success _ port) \<Rightarrow> service_finish ft su port (serve s) fs))"

section \<open>What a served registry leaves behind\<close>

text \<open>The state that the service commits when it has stopped.\<close>

definition final_state :: "Service \<Rightarrow> RegistryState" where
  "final_state s = (to_state (s_registry s))\<lparr>rs_store_generation := rs_store_generation (to_state (s_registry s)) + 1\<rparr>"

lemma service_finish_run:
  assumes "service_finish ft su port s fs = (r, fs')" "su_store su \<noteq> []"
  obtains bound out ns bound' d where
    "Store_bind (ft_bind ft) (default_store_options (su_store su)) (disk_at (su_store su) fs) = Success Ok bound"
    "si_options bound = default_store_options (su_store su)" "si_sequence bound = 0" "si_entry_count bound = 0"
    "commit (ft_write ft) (final_state s) (su_now su) [] (bound, disk_at (su_store su) fs) = (out, ns, bound', d)"
    "fs' = put_disk (su_store su) d fs" "exit_code r = 0 \<longleftrightarrow> outcome_ok out"
proof -
  obtain bound where b: "Store_bind (ft_bind ft) (default_store_options (su_store su)) (disk_at (su_store su) fs) = Success Ok bound"
      "si_options bound = default_store_options (su_store su)" "si_sequence bound = 0" "si_entry_count bound = 0"
    using assms(2) by (simp add: Store_bind_def default_options)
  obtain out ns bound' d where c: "commit (ft_write ft) (final_state s) (su_now su) [] (bound, disk_at (su_store su) fs) = (out, ns, bound', d)"
    by (cases "commit (ft_write ft) (final_state s) (su_now su) [] (bound, disk_at (su_store su) fs)")
  have "fs' = put_disk (su_store su) d fs" "exit_code r = 0 \<longleftrightarrow> outcome_ok out"
    using assms(1) b(1) c by (cases out; auto simp: service_finish_def snapshot_state_def final_state_def [symmetric] Let_def)+
  then show ?thesis using that b c by blast
qed

text \<open>
  A service over a store without journal entries (a new one, or one just imported or compacted) is durable: when the process ends
  with 0, under any faults in which the snapshot rename does not fail twice, the next load of the store gives exactly the
  final state of the registry it served. The state must fit the snapshot bound and its generation must not be below the
  snapshot's, as it is not when that snapshot was adopted.
\<close>

theorem service_commit_survives:
  assumes "service_finish ft su port s fs = (r, fs')" "exit_code r = 0" "su_store su \<noteq> []"
    "files (disk_at (su_store su) fs) base [] []" "contents_ok default_store_limits base []"
    "\<And>b t. base = Some (b, t) \<Longrightarrow> rs_store_generation b \<le> rs_store_generation (final_state s)"
    "fits_snapshot default_store_limits (final_state s)" "safe_rename (ft_write ft)"
  shows "\<exists>summary fs''. load_store working (su_store su) fs' = (Success Ok (final_state s, summary), fs'')"
proof -
  obtain bound out ns bound' d where
    b: "Store_bind (ft_bind ft) (default_store_options (su_store su)) (disk_at (su_store su) fs) = Success Ok bound"
      "si_options bound = default_store_options (su_store su)" "si_sequence bound = 0"
    and c: "commit (ft_write ft) (final_state s) (su_now su) [] (bound, disk_at (su_store su) fs) = (out, ns, bound', d)"
    and r: "fs' = put_disk (su_store su) d fs" "exit_code r = 0 \<longleftrightarrow> outcome_ok out"
    by (rule service_finish_run [OF assms(1,3)])
  have "dk_journal (disk_at (su_store su) fs) = None \<or> dk_journal (disk_at (su_store su) fs) = Some []"
    using assms(4) by (auto simp: files_def journal_of_def split: option.splits)
  then have "si_journal_size bound = 0" using b(1) by (auto simp: Store_bind_def split: if_splits option.splits)
  then have "synced bound (disk_at (su_store su) fs) base []"
    using assms(3-5) b default_options [of "su_store su"] by (simp add: synced_def journal_of_def last_sequence_def)
  moreover have "bounded_by base [] (rs_store_generation (final_state s))"
    using assms(6) by (cases base) (auto simp: bounded_by_def last_generation_def)
  ultimately have "store_ready bound (disk_at (su_store su) fs) (rs_store_generation (final_state s)) (held base [])"
    unfolding store_ready_def by blast
  from commit_outcome [OF this order_refl _ _ assms(8) c] assms(2,7) b r(2)
  have "store_ready bound' d (rs_store_generation (final_state s)) (Some (final_state s))" "si_options bound' = default_store_options (su_store su)"
    by (simp_all add: default_options)
  then have "recoverable (default_store_options (su_store su)) (disk_at (su_store su) fs') (Some (final_state s))"
    using synced_recoverable r(1) by (fastforce simp: store_ready_def)
  then show ?thesis using load_recoverable [OF assms(3)] by blast
qed

text \<open>
  A second service over the same store loses what it was told. When the journal already has an entry, which is what the first
  service leaves, the process ends with 0 after printing that it committed, and the next load of the store gives the state
  from before this run: nothing that was admitted in it is there.
\<close>

theorem service_second_run_lost:
  assumes "service_finish working su port s fs = (r, fs')" "su_store su \<noteq> []"
    "files (disk_at (su_store su) fs) base cs []" "contents_ok default_store_limits base cs" "cs \<noteq> []" "held base cs = Some s0"
    "length (encode_state (final_state s)) \<le> max_journal_entry_bytes default_store_limits"
    "length (journal_of (map entry_of cs)) + length (encode_state (final_state s)) + 80 \<le> max_journal_bytes default_store_limits"
  shows "exit_code r = 0 \<and> (\<exists>summary fs''. load_store working (su_store su) fs' = (Success Ok (s0, summary), fs''))"
proof -
  obtain bound out ns bound' d where
    b: "Store_bind no_faults (default_store_options (su_store su)) (disk_at (su_store su) fs) = Success Ok bound"
      "si_options bound = default_store_options (su_store su)" "si_entry_count bound = 0"
    and c: "commit no_faults (final_state s) (su_now su) [] (bound, disk_at (su_store su) fs) = (out, ns, bound', d)"
    and r: "fs' = put_disk (su_store su) d fs" "exit_code r = 0 \<longleftrightarrow> outcome_ok out"
    by (rule service_finish_run [OF assms(1,2)]) (simp add: working_def)
  have "dk_journal (disk_at (su_store su) fs) = Some (journal_of (map entry_of cs))"
    using assms(3,5) by (auto simp: files_def split: option.splits)
  then have "si_journal_size bound = length (journal_of (map entry_of cs))"
    using b(1) by (auto simp: Store_bind_def no_faults_def split: if_splits option.splits)
  then have room: "journal_room bound (final_state s)" "no_rotation bound"
    using b assms(8) by (simp_all add: journal_room_def no_rotation_def default_options)
      (simp_all add: default_store_options_def default_store_limits_def)
  have lim: "contents_ok (so_limits (default_store_options (su_store su))) base cs"
    "length (encode_state (final_state s)) \<le> max_journal_entry_bytes (so_limits (default_store_options (su_store su)))"
    using assms(4,7) by (simp_all add: default_options)
  from rebound_commit_skipped [OF default_options(1) [OF assms(2)] default_options(2) assms(3) lim(1) assms(5) b(1) lim(2) room assms(6) c]
  show ?thesis using r by (auto simp: load_store_def load_state_def working_def Let_def)
qed

end
