(* ===== verification/Spec2Isabelle.thy ===== *)
theory Spec2Isabelle
  imports Compat EvidenceCodec StateCodec Registry Store Json ExportProps Client ServiceTool
begin

text \<open>
  The Offload Capability Registry: a verification development of the C++ library under \<open>src/\<close>.

  The program. Observation sources report what an offload device can do (\<^emph>\<open>evidence\<close>); the registry
  (\<open>src/registry.cpp\<close>) admits evidence into streams, one per device, capability and source, bounds and evicts it,
  detects and resolves conflicts between sources, and answers whether a device meets a requirement, never
  positively without live evidence. Its state is encoded by a canonical codec (\<open>src/codec.cpp\<close>) and kept by a store
  of a snapshot file and a journal (\<open>src/persist.cpp\<close>); it is exported to and imported from JSON documents
  (\<open>src/json.cpp\<close>, \<open>src/export.cpp\<close>) and served over a framed protocol (\<open>src/protocol.cpp\<close>) by a service
  (\<open>src/service.cpp\<close>) to clients (\<open>src/client.cpp\<close>).

  The theories, from the bottom up, each over the source of the same part:

  \<^item> \<open>Prelude\<close>: machine words, \<open>outcome\<close> (\<open>outcome.hpp\<close>), ordered maps as sorted association lists (\<open>std::map\<close>),
    and the shared lemma collections.
  \<^item> \<open>Reason\<close> (\<open>reason.hpp/.cpp\<close>), \<open>Checked\<close> (\<open>checked.hpp\<close>), \<open>Strings\<close> and \<open>Names\<close> (\<open>name.hpp/.cpp\<close>),
    \<open>SemVers\<close> (\<open>semver\<close>), \<open>Units\<close> (\<open>units\<close>), \<open>Catalog\<close> (\<open>catalog\<close>), \<open>Hash\<close> (\<open>hash\<close>: SHA-256, CRC-32C, FNV-1a).
    Shown: parsing accepts exactly the canonical spellings, checked and 128-bit arithmetic is exact, the streaming and
    table-driven hashes equal their reference definitions, version precedence is linear.
  \<^item> \<open>Evidence\<close> (\<open>evidence\<close>), \<open>Policy\<close> (\<open>registry.hpp\<close>), \<open>Compat\<close> (\<open>compat.cpp\<close>): the data model and the requirement
    comparison, whose three answers are characterised exactly.
  \<^item> \<open>Codec\<close>, \<open>EvidenceCodec\<close>, \<open>StateCodec\<close> (\<open>codec.cpp\<close>): the sticky-failure \<open>Reader\<close> refines functional decoders;
    a locale states what a codec promises and is interpreted for every encoded type up to the whole durable state.
  \<^item> \<open>World\<close>, \<open>Derive\<close>, \<open>Conflicts\<close>, \<open>Eviction\<close>, \<open>Admission\<close>, \<open>AdmissionProps\<close>, \<open>Mutations\<close>, \<open>Queries\<close>, \<open>Restart\<close>
    (\<open>registry.cpp\<close>, in the order of the source): the engine's state \<open>Impl\<close> is a record, each operation a function on it.
    Shown: which records are live, that eviction never touches a live or incoming record and restores the bounds, what
    admissions, retirements, revocations and incarnations fence, that an evaluation is decided by exactly the live
    records, that a snapshot loses nothing and a restart fences what it must.
  \<^item> \<open>Registry\<close>: the engine as a transition system; the invariant of every reachable registry and what a Compatible
    answer then guarantees; no device is forgotten, every record is of a recorded incarnation, and incarnation ids are
    new as long as their counter does not wrap around.
  \<^item> \<open>StoreFormat\<close>, \<open>Store\<close> (\<open>persist.hpp/.cpp\<close>): file formats, the journal scan, opening, committing and compacting
    over explicit files and I/O faults. Shown: an acknowledged commit is recovered exactly, an interrupted one leaves
    the old or the new state, opening never fabricates a state; and two ways in which an acknowledged commit is lost.

  \<^item> \<open>Json\<close> (\<open>json.hpp/.cpp\<close>): the JSON value, its canonical writer and the bounded parser. Shown: every value within the
    limits parses back from its text, whatever the parser returns is within the limits (one of them excepted).

  \<^item> \<open>Documents\<close>, \<open>Export\<close>, \<open>DocumentShape\<close>, \<open>ExportProps\<close> (\<open>export.hpp/.cpp\<close>): the JSON documents of a registry, a policy
    and a requirement. \<open>Documents\<close> has a writer and a reader per value and the locale that relates them, \<open>Export\<close> the whole
    documents, \<open>DocumentShape\<close> that what is written stays within the parser's limits. Shown: a complete export is imported
    exactly, whatever is imported is well formed and has the declared digest, an incomplete export is refused.

  \<^item> \<open>Protocol\<close>, \<open>Messages\<close>, \<open>RequestForms\<close> (\<open>protocol.hpp/.cpp\<close>): opcodes, frame headers and frames; the envelope, every
    request and every answer as codecs. Shown: headers are canonical, a change of one byte is refused, every message that can
    be sent is read back, and a requirement or an admission that the codec does not allow is refused, never misread.
  \<^item> \<open>Net\<close> (\<open>recv_exact\<close> and \<open>send_all\<close> of \<open>net.cpp\<close>), \<open>Service\<close>, \<open>ServiceProps\<close> (\<open>service.cpp\<close>), \<open>Client\<close> (\<open>client.cpp\<close>): the results
    of the operating system's \<open>recv\<close> and \<open>send\<close> are explicit; a connection is a loop of turns, each of which reads a frame,
    dispatches it to the registry and sends the reply; the acceptor, the workers and a stop are steps of a transition system
    whose interleavings are arbitrary. Shown: a connection applies exactly its valid frames, in order; the bounds on
    connections and workers and the registry's invariant hold in every reachable state; a client's evaluation or
    admission is the registry's own where the codec and the frame bound allow it, and what the client gets otherwise; and two ways in which the remote interface differs from the local one.

  \<^item> \<open>Tools\<close>, \<open>ToolProps\<close> (\<open>tools/tool_support.hpp\<close>, \<open>tools/ocreg_cli.cpp\<close>), \<open>ServiceTool\<close> (\<open>tools/ocreg_service.cpp\<close>): the command line
    tool and the service executable as functions of their arguments, the files they find and the faults of the operating
    system. Shown: the inspection commands change no file beyond recovery, exit codes mean what the usage says, an import
    is installed exactly, a backup is restored exactly, an ingest goes through the registry's own operations; a service's final
    state is loaded back when the journal was empty, and lost when it was not.

  Conventions. Fixed-width integers are words and wrap; \<open>std::size_t\<close> counts of data in memory are naturals, with the
  bound written where the code relies on it. Every early return and refusal is a value (\<open>Failure\<close> with the source's
  reason code and text). An operation runs under the registry's one lock, so it is one step; interleavings are
  sequences of steps. Loops are structural recursion or functions with a termination proof (the journal scan
  consumes at least a trailer per entry; budget enforcement removes a record per round). Only the member and element loops of
  the JSON parser take a bound on their turns, one more than the characters left, which is shown never to stop them. Hash
  collisions are not assumed away: where a claim needs two records to have different content ids it says so.

  Not modelled: creating, binding, listening on and closing sockets (\<open>src/net.cpp\<close>) and the test helper
  \<open>tools/ocreg_crash_helper.cpp\<close>. Threads, mutexes and condition variables appear only as the steps they protect; memory
  allocation failures are not modelled.
\<close>

section \<open>From a registry to its files and back\<close>

text \<open>
  C7: a registry survives its process. Take a registry that satisfies its invariant, with sorted policy sources and an
  incarnation counter that has not wrapped around to zero, and a store that syncs its commits and whose counters agree with
  its files: the journal size is right, no entry has a higher sequence number than the store's and no stored state a higher
  generation than the registry's. Let its durable state be well formed and, with the 144 bytes of header and footer, within the snapshot
  bound, the store's sequence number not its last, and the second attempt of a failed rename, which removes the old snapshot
  first, not fail after that removal. When the commit of that state is acknowledged, whatever other
  faults occurred, loading the store gives exactly that state, and the registry that adopts it has the same state digest, the
  same records in the same streams and the same tombstones. (A store bound a second time or one with a failed append does not have counters that agree with its files; what becomes
  of its commits is shown in \<open>Store\<close>.)
\<close>

theorem registry_survives:
  assumes "durable_inv i" "store_ready store disk g h" "g \<le> rs_store_generation (to_state i)"
    "fits_snapshot (so_limits (si_options store)) (to_state i)" "si_sequence store \<noteq> - 1" "safe_rename io"
    "commit io (to_state i) now notes (store, disk) = (Success c token, notes', store', disk')"
  shows "\<exists>state summary disk''. load_state no_faults (si_options store) default_summary disk' = (Success Ok state, summary, disk'')
    \<and> state = to_state i \<and> Registry_state_digest (adopt state) = Registry_state_digest i
    \<and> (\<forall>key r. record_at (i_world (adopt state)) key r \<longleftrightarrow> record_at (i_world i) key r)
    \<and> find_tombstone (i_world (adopt state)) = find_tombstone (i_world i)"
proof -
  have inv: "registry_inv i" "world_inv (i_world i)" using assms(1) by (simp_all add: durable_inv_def registry_inv_def)
  have r: "store_ready store' disk' (rs_store_generation (to_state i)) (Some (to_state i))" "si_options store' = si_options store"
    using commit_outcome [OF assms(2-7)] by simp_all
  have o: "options_ok (si_options store)" using assms(2) by (auto simp: store_ready_def synced_def)
  have "recoverable (si_options store) disk' (Some (to_state i))" using r synced_recoverable by (fastforce simp: store_ready_def)
  from recoverable_open [OF o this] obtain rep disk'' where
    op: "Store_open no_faults (si_options store) disk' = (Success Ok rep, disk'')" "or_state rep = to_state i" by blast
  have same: "Registry_state_digest (adopt (to_state i)) = Registry_state_digest i"
    by (simp add: Registry_state_digest_def adopt_lossless [OF assms(1)])
  show ?thesis
    using op same record_at_rebuilt [OF inv(2)] rebuilt_find(2) [OF inv(2)]
    by (simp add: load_state_def Let_def adopt_to_state [OF inv(1)])
qed

lemma fresh_state: "to_state (Registry_init default_policy) = (sample_state 0)\<lparr>rs_epoch := 1, rs_rule_generation := 1, rs_policy_revision := 1, rs_boot_epoch := 1\<rparr>"
  by (simp add: to_state_def Registry_init_def sample_state_def default_state_def sort_policy_def sort_sources_def default_policy_def
      flatten_records_def flatten_tombstones_def streams_of_def tombstones_of_def om_vals_def)

lemma fresh_durable: "durable_inv (Registry_init default_policy)" "fits_snapshot (so_limits sample_options) (to_state (Registry_init default_policy))"
proof -
  show "durable_inv (Registry_init default_policy)"
    using lifetime_init [of default_policy] by (simp add: durable_inv_def lifetime_inv_def Registry_init_def sort_policy_def sort_sources_def)
  have "length (encode_state (to_state (Registry_init default_policy))) = length (encode_state (sample_state 0))"
    by (simp add: fresh_state encode_state_def)
  then show "fits_snapshot (so_limits sample_options) (to_state (Registry_init default_policy))"
    using sample_fits(1) [of 0] by (simp add: fits_snapshot_def) (simp add: fresh_state state_ok_def)
qed

theorem registry_survives_witness:
  "\<exists>state summary disk''. load_state no_faults sample_options default_summary
      (snd (snd (snd (commit no_faults (to_state (Registry_init default_policy)) 7 [] (sample_store, sample_disk 0))))) = (Success Ok state, summary, disk'')
    \<and> state = to_state (Registry_init default_policy)"
proof -
  let ?s = "to_state (Registry_init default_policy)"
  have q: "safe_rename no_faults" "si_sequence sample_store \<noteq> - 1" "si_options sample_store = sample_options" "0 \<le> rs_store_generation ?s"
    by (simp_all add: safe_rename_def no_faults_def sample_store_def)
  have fit: "fits_snapshot (so_limits (si_options sample_store)) ?s" using fresh_durable(2) q(3) by simp
  have size: "length (encode_state ?s) = 354"
    using sample_state_size [of 0] by (simp add: fresh_state encode_state_def)
  obtain out ns st d where c: "commit no_faults ?s 7 [] (sample_store, sample_disk 0) = (out, ns, st, d)"
    by (cases "commit no_faults ?s 7 [] (sample_store, sample_disk 0)")
  have "outcome_ok out"
    using commit_no_faults [of ?s 7 "[]" sample_store "sample_disk 0"] unfolding c size
    by (simp add: sample_store_def sample_options_def default_store_options_def default_store_limits_def journal_room_def size)
  then obtain k token where "out = Success k token" by (cases out) simp_all
  with registry_survives [OF fresh_durable(1) sample_ready q(4) fit q(2,1)] c q(3) show ?thesis by fastforce
qed

end
